(* ===== verification/Prelude.thy ===== *)
theory Prelude
  imports Main
begin

text \<open>
  Shared vocabulary of the development: the result type of fallible Rust code, the
  integer widths and the checked operations on them, early-exit loops, and the generic
  lemmas and \<open>named_theorems\<close> collections every component uses.

  Rust's unsigned integers are naturals whose width is written out in each operation that
  can leave it: a checked operation fails past \<open>2 ^ w\<close>, a plain \<open>+\<close> panics there (the
  workspace's release and dev profiles both set \<open>overflow-checks = true\<close>), and
  \<open>saturating_sub\<close> is subtraction on naturals. Signed values are integers.
\<close>

named_theorems width_simps "bounds and ranges of the integer widths"
named_theorems result_elims "inversion of successful fallible computations"

section \<open>Integer widths\<close>

type_synonym u8 = nat
type_synonym u16 = nat
type_synonym u32 = nat
type_synonym u64 = nat
type_synonym u128 = nat
type_synonym i8 = int
type_synonym i64 = int
type_synonym i128 = int

abbreviation U32 :: nat where "U32 \<equiv> 2 ^ 32"
abbreviation U64 :: nat where "U64 \<equiv> 2 ^ 64"
abbreviation U128 :: nat where "U128 \<equiv> 2 ^ 128"

section \<open>Results\<close>

text \<open>
  A fallible function returns a value, an error of its error enum, or panics. The last is
  kept apart so that no property confuses an error the caller can handle with an abort.
\<close>

datatype 'e failure = Failed 'e | Panicked string

type_synonym ('e, 'a) result = "'e failure + 'a"

abbreviation Ok :: "'a \<Rightarrow> ('e, 'a) result" where "Ok x \<equiv> Inr x"
abbreviation Err :: "'e \<Rightarrow> ('e, 'a) result" where "Err e \<equiv> Inl (Failed e)"
abbreviation Panic :: "string \<Rightarrow> ('e, 'a) result" where "Panic s \<equiv> Inl (Panicked s)"

text \<open>The question mark of Rust: stop at the first failure, otherwise go on with the value.\<close>

definition and_then :: "('e, 'a) result \<Rightarrow> ('a \<Rightarrow> ('e, 'b) result) \<Rightarrow> ('e, 'b) result" where
  "and_then m k = (case m of Inl f \<Rightarrow> Inl f | Inr x \<Rightarrow> k x)"

lemma and_then_simps [simp]:
  "and_then (Inl f) k = Inl f"
  "and_then (Inr x) k = k x"
  by (simp_all add: and_then_def)

lemma and_then_eq_Ok [simp]:
  "and_then m k = Inr y \<longleftrightarrow> (\<exists>x. m = Inr x \<and> k x = Inr y)"
  by (cases m) simp_all

lemma and_then_OkE [result_elims]:
  assumes "and_then m k = Inr y"
  obtains x where "m = Inr x" and "k x = Inr y"
  using assms by auto

lemma and_then_cong [fundef_cong]:
  assumes "m = m'" and "\<And>x. m' = Inr x \<Longrightarrow> k x = k' x"
  shows "and_then m k = and_then m' k'"
  using assms by (cases m') simp_all

lemma and_then_assoc:
  "and_then (and_then m k) l = and_then m (\<lambda>x. and_then (k x) l)"
  by (cases m) simp_all

definition ok_or :: "'a option \<Rightarrow> 'e \<Rightarrow> ('e, 'a) result" where
  "ok_or o' e = (case o' of None \<Rightarrow> Err e | Some x \<Rightarrow> Ok x)"

lemma ok_or_simps [simp]:
  "ok_or None e = Inl (Failed e)"
  "ok_or (Some x) e = Inr x"
  by (simp_all add: ok_or_def)

lemma ok_or_eq_Ok [simp]: "ok_or q e = Inr x \<longleftrightarrow> q = Some x"
  by (cases q) simp_all

text \<open>\<open>Option::expect\<close>: the panic is a branch of the model.\<close>

definition expect :: "'a option \<Rightarrow> string \<Rightarrow> ('e, 'a) result" where
  "expect q msg = (case q of None \<Rightarrow> Panic msg | Some x \<Rightarrow> Ok x)"

lemma expect_simps [simp]:
  "expect None msg = Inl (Panicked msg)"
  "expect (Some x) msg = Inr x"
  by (simp_all add: expect_def)

lemma expect_eq_Ok [simp]: "expect q msg = Inr x \<longleftrightarrow> q = Some x"
  by (cases q) simp_all

text \<open>\<open>From\<close> conversion of the error, applied by Rust's question mark.\<close>

definition map_err :: "('e \<Rightarrow> 'f) \<Rightarrow> ('e, 'a) result \<Rightarrow> ('f, 'a) result" where
  "map_err g m = (case m of Inl (Failed e) \<Rightarrow> Err (g e) | Inl (Panicked s) \<Rightarrow> Panic s
                   | Inr x \<Rightarrow> Ok x)"

lemma map_err_simps [simp]:
  "map_err g (Inl (Failed e)) = Inl (Failed (g e))"
  "map_err g (Inl (Panicked s)) = Inl (Panicked s)"
  "map_err g (Inr x) = Inr x"
  by (simp_all add: map_err_def)

lemma map_err_eq_Ok [simp]: "map_err g m = Inr x \<longleftrightarrow> m = Inr x"
  by (auto simp: map_err_def split: sum.splits failure.splits)

section \<open>Checked operations\<close>

definition checked_add_w :: "nat \<Rightarrow> nat \<Rightarrow> nat \<Rightarrow> nat option" where
  "checked_add_w w a b = (if a + b < 2 ^ w then Some (a + b) else None)"

definition checked_mul_w :: "nat \<Rightarrow> nat \<Rightarrow> nat \<Rightarrow> nat option" where
  "checked_mul_w w a b = (if a * b < 2 ^ w then Some (a * b) else None)"

definition checked_sub_w :: "nat \<Rightarrow> nat \<Rightarrow> nat option" where
  "checked_sub_w a b = (if b \<le> a then Some (a - b) else None)"

text \<open>A plain \<open>+\<close> of width \<open>w\<close>, which panics past the width.\<close>

definition plus_w :: "nat \<Rightarrow> nat \<Rightarrow> nat \<Rightarrow> ('e, nat) result" where
  "plus_w w a b = (if a + b < 2 ^ w then Ok (a + b) else Panic ''attempt to add with overflow'')"

lemma checked_add_w_eq_Some [simp]:
  "checked_add_w w a b = Some c \<longleftrightarrow> c = a + b \<and> a + b < 2 ^ w"
  by (auto simp: checked_add_w_def)

lemma checked_mul_w_eq_Some [simp]:
  "checked_mul_w w a b = Some c \<longleftrightarrow> c = a * b \<and> a * b < 2 ^ w"
  by (auto simp: checked_mul_w_def)

lemma checked_sub_w_eq_Some [simp]:
  "checked_sub_w a b = Some c \<longleftrightarrow> b \<le> a \<and> c = a - b"
  by (auto simp: checked_sub_w_def)

lemma plus_w_eq_Ok [simp]: "plus_w w a b = Inr c \<longleftrightarrow> c = a + b \<and> a + b < 2 ^ w"
  by (auto simp: plus_w_def)

section \<open>Loops with early exit\<close>

text \<open>A \<open>for\<close> loop over \<open>xs\<close> whose body may fail and updates the state \<open>s\<close>.\<close>

fun fold_res :: "('x \<Rightarrow> 's \<Rightarrow> ('e, 's) result) \<Rightarrow> 'x list \<Rightarrow> 's \<Rightarrow> ('e, 's) result" where
  "fold_res f [] s = Ok s"
| "fold_res f (x # xs) s = and_then (f x s) (fold_res f xs)"

lemma fold_res_append:
  "fold_res f (xs @ ys) s = and_then (fold_res f xs s) (fold_res f ys)"
proof (induction xs arbitrary: s)
  case (Cons x xs)
  then show ?case by (cases "f x s") simp_all
qed simp

text \<open>The invariant rule of such a loop: what the body keeps, a finished loop has.\<close>

lemma fold_res_invariant:
  assumes "fold_res f xs s = Inr s'" and "P s"
    and "\<And>x s s'. x \<in> set xs \<Longrightarrow> P s \<Longrightarrow> f x s = Inr s' \<Longrightarrow> P s'"
  shows "P s'"
  using assms by (induction xs arbitrary: s) auto

section \<open>Lists and sums\<close>

lemma sum_list_map_eq_zero:
  "(\<And>x. x \<in> set xs \<Longrightarrow> f x = (0::nat)) \<Longrightarrow> sum_list (map f xs) = 0"
  by (induction xs) auto

lemma sum_list_filter_split:
  "sum_list (map f xs) = sum_list (map f (filter P xs)) + (sum_list (map f (filter (\<lambda>x. \<not> P x) xs)) :: nat)"
  by (induction xs) auto

lemma drop_drop_shift:
  assumes "g + d \<le> (l::nat)"
  shows "drop (l - (g + d)) (drop d xs) = drop (l - g) xs"
  using assms by (simp add: add.commute)

lemma mult_div_le_left: "(b::nat) \<le> c \<Longrightarrow> a * b div c \<le> a"
proof (cases "c = 0")
  case False
  assume "b \<le> c"
  then have "a * b \<le> a * c" by simp
  then have "a * b div c \<le> a * c div c" by (rule div_le_mono)
  with False show ?thesis by simp
qed simp

end
