(* ===== verification/Molemath.thy ===== *)
theory Molemath
  imports Prelude
begin

text \<open>
  The money-grade arithmetic of \<open>crates/molemath/src/lib.rs\<close>: 128 x 128 bit multiplication
  into 256 bits, bit-by-bit long division, the floor and ceiling quotients built on them,
  the signed profit increment and the price move in basis points.

  The definitions are the code's algorithms on naturals, with each shift, mask and wrapping
  subtraction written out. The lemmas show that the algorithms compute the exact quotient
  and that no intermediate value leaves 128 bits, so that the clearing engine can be
  verified against the quotient.
\<close>

section \<open>Constants and errors\<close>

definition PRICE_SCALE :: u64 where "PRICE_SCALE = 100000000"
definition BPS_SCALE :: u64 where "BPS_SCALE = 10000"
definition RATE_SCALE :: u128 where "RATE_SCALE = 1000000000000"

datatype math_error = Overflow | DivByZero | SignOverflow

type_synonym 'a math = "(math_error, 'a) result"

section \<open>Checked addition, subtraction, multiplication\<close>

definition checked_add_m :: "u128 \<Rightarrow> u128 \<Rightarrow> u128 math" where
  "checked_add_m a b = ok_or (checked_add_w 128 a b) Overflow"

definition checked_sub_m :: "u128 \<Rightarrow> u128 \<Rightarrow> u128 math" where
  "checked_sub_m a b = ok_or (checked_sub_w a b) Overflow"

definition checked_mul_m :: "u128 \<Rightarrow> u128 \<Rightarrow> u128 math" where
  "checked_mul_m a b = ok_or (checked_mul_w 128 a b) Overflow"

lemma checked_m_eq_Ok [simp]:
  "checked_add_m a b = Inr c \<longleftrightarrow> c = a + b \<and> a + b < 2 ^ 128"
  "checked_sub_m a b = Inr c \<longleftrightarrow> b \<le> a \<and> c = a - b"
  "checked_mul_m a b = Inr c \<longleftrightarrow> c = a * b \<and> a * b < 2 ^ 128"
  by (simp_all add: checked_add_m_def checked_sub_m_def checked_mul_m_def)

section \<open>The 256-bit product\<close>

text \<open>
  \<open>mul_to_u256\<close> returns \<open>(low, high)\<close>. A shift right by 64 is \<open>div 2 ^ 64\<close>, the mask
  \<open>& u64::MAX\<close> is \<open>mod 2 ^ 64\<close>, the shift left of \<open>mid_low\<close> keeps 128 bits, and the
  \<open>|\<close> joins disjoint halves and is written as \<open>+\<close>. The cross products and the sums
  are plain operations of the code; \<open>mul_to_u256_intermediates\<close> of \<open>Molemath_Word\<close> shows that none
  of them leaves 128 bits.
\<close>

definition mul_to_u256 :: "u128 \<Rightarrow> u128 \<Rightarrow> u128 \<times> u128" where
  "mul_to_u256 a b =
     (let a_hi = a div 2 ^ 64; a_lo = a mod 2 ^ 64;
          b_hi = b div 2 ^ 64; b_lo = b mod 2 ^ 64;
          ll = a_lo * b_lo; lh = a_lo * b_hi; hl = a_hi * b_lo; hh = a_hi * b_hi;
          ll_low = ll mod 2 ^ 64; ll_high = ll div 2 ^ 64;
          mid = ll_high + lh mod 2 ^ 64 + hl mod 2 ^ 64;
          mid_low = mid mod 2 ^ 64; mid_high = mid div 2 ^ 64;
          low = (mid_low * 2 ^ 64) mod 2 ^ 128 + ll_low;
          high = hh + lh div 2 ^ 64 + hl div 2 ^ 64 + mid_high
      in (low, high))"

section \<open>Long division, one bit at a time\<close>

text \<open>
  One round of the loop of \<open>div256\<close>: bit \<open>i\<close> of \<open>lo\<close> moves into the remainder, whose
  top bit is remembered because the shift drops it; if the remainder (with that bit) is at
  least the divisor, the divisor is subtracted, wrapping, and bit \<open>i\<close> of the quotient
  is set. Setting a bit that is still 0 is written as \<open>+\<close>.
\<close>

definition div256_step :: "u128 \<Rightarrow> u128 \<Rightarrow> nat \<Rightarrow> u128 \<times> u128 \<Rightarrow> u128 \<times> u128" where
  "div256_step lo divisor i st =
     (let (rem, quot) = st;
          next_bit = (lo div 2 ^ i) mod 2;
          rem_top = rem div 2 ^ 127;
          rem' = (2 * rem) mod 2 ^ 128 + next_bit
      in if rem_top = 1 \<or> divisor \<le> rem'
         then ((rem' + 2 ^ 128 - divisor) mod 2 ^ 128, quot + 2 ^ i)
         else (rem', quot))"

text \<open>The rounds \<open>n - 1, \<dots>, 0\<close> in that order.\<close>

fun div256_loop :: "u128 \<Rightarrow> u128 \<Rightarrow> nat \<Rightarrow> u128 \<times> u128 \<Rightarrow> u128 \<times> u128" where
  "div256_loop lo divisor 0 st = st"
| "div256_loop lo divisor (Suc i) st =
     div256_loop lo divisor i (div256_step lo divisor i st)"

definition div256 :: "u128 \<Rightarrow> u128 \<Rightarrow> u128 \<Rightarrow> (u128 \<times> u128) math" where
  "div256 hi lo divisor =
     (if divisor \<le> hi then Err Overflow
      else let (rem, quot) = div256_loop lo divisor 128 (hi, 0) in Ok (quot, rem))"

section \<open>Floor and ceiling quotients\<close>

definition full_mul_div :: "u128 \<Rightarrow> u128 \<Rightarrow> u128 \<Rightarrow> bool \<Rightarrow> u128 math" where
  "full_mul_div a b denominator ceil =
     (if a = 0 \<or> b = 0 then Ok 0
      else let (lo, hi) = mul_to_u256 a b in
        if hi = 0 then
          (let q = lo div denominator; r = lo mod denominator in
           if ceil \<and> r > 0 then ok_or (checked_add_w 128 q 1) Overflow else Ok q)
        else
          and_then (div256 hi lo denominator) (\<lambda>(q, r).
           if ceil \<and> r > 0 then ok_or (checked_add_w 128 q 1) Overflow else Ok q))"

definition mul_div_floor :: "u128 \<Rightarrow> u128 \<Rightarrow> u128 \<Rightarrow> u128 math" where
  "mul_div_floor a b denominator =
     (if denominator = 0 then Err DivByZero else full_mul_div a b denominator False)"

definition mul_div_ceil :: "u128 \<Rightarrow> u128 \<Rightarrow> u128 \<Rightarrow> u128 math" where
  "mul_div_ceil a b denominator =
     (if denominator = 0 then Err DivByZero else full_mul_div a b denominator True)"

section \<open>Signed profit and price move\<close>

text \<open>
  \<open>direction\<close> is \<open>+1\<close> or \<open>-1\<close>; \<open>try_into::<i128>\<close> fails from \<open>2 ^ 127\<close> on.
\<close>

definition signed_pnl_increment :: "i8 \<Rightarrow> u128 \<Rightarrow> u64 \<Rightarrow> u64 \<Rightarrow> i128 math" where
  "signed_pnl_increment direction notional p_last p_now =
     (if p_last = 0 then Err DivByZero
      else let (delta_abs, sgn_move) =
                 (if p_last \<le> p_now then (p_now - p_last, 1) else (p_last - p_now, - 1 :: int))
           in and_then (mul_div_floor notional delta_abs p_last) (\<lambda>abs_pnl.
              if 2 ^ 127 \<le> abs_pnl then Err SignOverflow
              else let combined_sign = sgn_move * direction in
                if combined_sign = 0 \<or> abs_pnl = 0 then Ok 0
                else if 0 < combined_sign then Ok (int abs_pnl)
                else Ok (- int abs_pnl)))"

definition price_move_bps :: "u64 \<Rightarrow> u64 \<Rightarrow> u64 math" where
  "price_move_bps p_old p_new =
     (if p_old = 0 then Err DivByZero
      else let delta = (if p_old \<le> p_new then p_new - p_old else p_old - p_new)
           in and_then (mul_div_floor delta BPS_SCALE p_old) (\<lambda>scaled.
              if scaled < 2 ^ 64 then Ok scaled else Err Overflow))"

section \<open>Exactness of the product\<close>

text \<open>Schoolbook multiplication of two-digit numbers in base \<open>W\<close>, with the carries named.\<close>

lemma schoolbook_product:
  fixes W :: nat
  assumes "al * bl = l1 * W + l0" and "al * bh = m1 * W + m0" and "ah * bl = n1 * W + n0"
    and "l1 + m0 + n0 = c1 * W + c0"
  shows "(ah * bh + m1 + n1 + c1) * (W * W) + (c0 * W + l0) = (ah * W + al) * (bh * W + bl)"
proof -
  have "(ah * W + al) * (bh * W + bl) = ah * bh * (W * W) + (ah * bl) * W + (al * bh) * W + al * bl"
    by (simp add: algebra_simps)
  also have "\<dots> = (ah * bh + m1 + n1) * (W * W) + (l1 + m0 + n0) * W + l0"
    unfolding assms(1-3) by (simp add: algebra_simps)
  also have "\<dots> = (ah * bh + m1 + n1 + c1) * (W * W) + (c0 * W + l0)"
    unfolding assms(4) by (simp add: algebra_simps)
  finally show ?thesis by simp
qed

lemma digits_64: "(x::nat) = x div 2 ^ 64 * 2 ^ 64 + x mod 2 ^ 64"
  by simp

lemma mul_to_u256_exact:
  assumes "mul_to_u256 a b = (lo, hi)"
  shows "hi * 2 ^ 128 + lo = a * b" and "lo < 2 ^ 128"
proof -
  define W :: nat where "W = 2 ^ 64"
  have W: "W * W = 2 ^ 128" by (simp add: W_def)
  define ah al bh bl where "ah = a div W" and "al = a mod W" and "bh = b div W" and "bl = b mod W"
  define mid where "mid = al * bl div W + al * bh mod W + ah * bl mod W"
  have "mid mod W < W" by (simp add: W_def)
  then have "mid mod W * W < W * W" by (simp add: W_def)
  then have lo: "lo = mid mod W * W + al * bl mod W"
    and hi: "hi = ah * bh + al * bh div W + ah * bl div W + mid div W"
    using assms unfolding W
    by (simp_all add: mul_to_u256_def Let_def ah_def al_def bh_def bl_def mid_def W_def)
  have digits: "x = x div W * W + x mod W" for x
    unfolding W_def by (rule digits_64)
  have "hi * (W * W) + lo = (ah * W + al) * (bh * W + bl)"
    unfolding lo hi by (rule schoolbook_product) (rule digits, rule digits, rule digits,
      fold mid_def, rule digits)
  also have "\<dots> = a * b" by (simp add: ah_def al_def bh_def bl_def)
  finally show "hi * 2 ^ 128 + lo = a * b" unfolding W by simp
  have "al * bl mod W < W" and "mid mod W + 1 \<le> W" by (simp_all add: W_def Suc_leI)
  moreover from this(2) have "(mid mod W + 1) * W \<le> W * W" by (rule mult_le_mono1)
  then have "mid mod W * W + W \<le> W * W" by simp
  ultimately have "lo < W * W" unfolding lo by linarith
  then show "lo < 2 ^ 128" unfolding W .
qed

text \<open>
  The plain additions and multiplications of \<open>mul_to_u256\<close> cannot overflow: on 128-bit
  operands every product, the middle sum and the high word stay below \<open>2 ^ 128\<close>.
\<close>

lemma half_product_bound:
  assumes "x < 2 ^ 64" and "y < (2 ^ 64 :: nat)"
  shows "x * y < 2 ^ 128"
proof -
  have "x * y < 2 ^ 64 * 2 ^ 64" using assms by (intro mult_strict_mono) simp_all
  then show ?thesis by simp
qed

lemma mul_to_u256_high_bound:
  assumes "a < 2 ^ 128" and "b < 2 ^ 128" and "mul_to_u256 a b = (lo, hi)"
  shows "hi < 2 ^ 128"
proof -
  have "a * b < 2 ^ 128 * 2 ^ 128" using assms by (intro mult_strict_mono) simp_all
  then have "hi * 2 ^ 128 < 2 ^ 128 * 2 ^ 128"
    using mul_to_u256_exact(1) [OF assms(3)] by linarith
  then show ?thesis by (simp only: mult_less_cancel2)
qed

section \<open>Exactness of the division\<close>

text \<open>One round divides the shifted remainder by the divisor: the quotient bit is 0 or 1.\<close>

lemma div256_step_eq:
  fixes rem divisor lo i quot :: nat
  assumes "rem < divisor" and "divisor < 2 ^ 128"
  defines "t \<equiv> 2 * rem + lo div 2 ^ i mod 2"
  shows "div256_step lo divisor i (rem, quot) = (t mod divisor, quot + t div divisor * 2 ^ i)"
proof -
  let ?bit = "lo div 2 ^ i mod 2"
  have bit: "?bit < 2" by simp
  have t: "t < 2 * divisor" using assms(1) bit unfolding t_def by linarith
  have quot: "t div divisor = (if divisor \<le> t then 1 else 0)"
    and modulo: "t mod divisor = (if divisor \<le> t then t - divisor else t)"
    using t by (auto simp: div_nat_eqI mod_if le_mod_geq)
  have top: "rem div 2 ^ 127 = (if 2 ^ 127 \<le> rem then 1 else 0)"
    using assms(1,2) by (auto intro: div_nat_eqI)
  show ?thesis
  proof (cases "2 ^ 127 \<le> rem")
    case True
    then have ge: "2 ^ 128 \<le> 2 * rem" by simp
    then have "(2 * rem) mod 2 ^ 128 = 2 * rem - 2 ^ 128"
      using assms(1,2) by (simp add: le_mod_geq)
    moreover have "divisor \<le> t"
    proof -
      have "(2::nat) ^ 128 = 2 * 2 ^ 127" by simp
      with True assms(2) show ?thesis unfolding t_def by linarith
    qed
    moreover have "2 * rem - 2 ^ 128 + ?bit + 2 ^ 128 - divisor = t - divisor"
      using ge unfolding t_def by linarith
    moreover have "t - divisor < 2 ^ 128" using t assms(2) by linarith
    ultimately show ?thesis
      using top True quot modulo by (simp add: div256_step_def Let_def)
  next
    case False
    then have "(2 * rem) mod 2 ^ 128 = 2 * rem" by simp
    with top False have step: "div256_step lo divisor i (rem, quot)
        = (if divisor \<le> t then ((t + 2 ^ 128 - divisor) mod 2 ^ 128, quot + 2 ^ i) else (t, quot))"
      by (simp add: div256_step_def Let_def t_def)
    show ?thesis
    proof (cases "divisor \<le> t")
      case True
      then have eq: "t + 2 ^ 128 - divisor = (t - divisor) + 2 ^ 128" by linarith
      have "t - divisor < 2 ^ 128" using t assms(2) by linarith
      then have "(t + 2 ^ 128 - divisor) mod 2 ^ 128 = t - divisor" unfolding eq by simp
      with True show ?thesis unfolding step quot modulo by simp
    next
      case False
      then show ?thesis unfolding step quot modulo by simp
    qed
  qed
qed

lemma low_bits_Suc: "(lo::nat) mod 2 ^ Suc i = lo div 2 ^ i mod 2 * 2 ^ i + lo mod 2 ^ i"
  using mod_mult2_eq [of lo "2 ^ i" 2] by (simp add: mult.commute)

lemma div256_loop_eq:
  assumes "rem < divisor" and "divisor < 2 ^ 128"
  shows "div256_loop lo divisor n (rem, quot)
    = ((rem * 2 ^ n + lo mod 2 ^ n) mod divisor, quot + (rem * 2 ^ n + lo mod 2 ^ n) div divisor)"
  using assms(1)
proof (induction n arbitrary: rem quot)
  case 0
  then show ?case by simp
next
  case (Suc i)
  define t where "t = 2 * rem + lo div 2 ^ i mod 2"
  have t: "rem * 2 ^ Suc i + lo mod 2 ^ Suc i
      = (t mod divisor * 2 ^ i + lo mod 2 ^ i) + divisor * (t div divisor * 2 ^ i)"
  proof -
    have "rem * 2 ^ Suc i + lo mod 2 ^ Suc i = t * 2 ^ i + lo mod 2 ^ i"
      unfolding low_bits_Suc t_def by (simp add: algebra_simps)
    moreover have "t * 2 ^ i = t mod divisor * 2 ^ i + divisor * (t div divisor * 2 ^ i)"
      by (metis add_mult_distrib mod_mult_div_eq mult.assoc)
    ultimately show ?thesis by simp
  qed
  have d: "0 < divisor" using Suc.prems by linarith
  have "div256_loop lo divisor (Suc i) (rem, quot)
      = div256_loop lo divisor i (t mod divisor, quot + t div divisor * 2 ^ i)"
    using div256_step_eq [OF Suc.prems assms(2)] by (simp add: t_def)
  also have "\<dots> = ((t mod divisor * 2 ^ i + lo mod 2 ^ i) mod divisor,
      quot + t div divisor * 2 ^ i + (t mod divisor * 2 ^ i + lo mod 2 ^ i) div divisor)"
    using d by (intro Suc.IH) simp
  finally show ?case unfolding t using d by simp
qed

text \<open>The long division is exact, and refuses exactly the quotients past 128 bits.\<close>

lemma div256_exact:
  assumes "0 < divisor" and "divisor < 2 ^ 128" and "lo < 2 ^ 128"
  shows "div256 hi lo divisor =
    (let n = hi * 2 ^ 128 + lo in
     if n div divisor < 2 ^ 128 then Ok (n div divisor, n mod divisor) else Err Overflow)"
proof (cases "divisor \<le> hi")
  case True
  then have "2 ^ 128 * divisor \<le> hi * 2 ^ 128 + lo" by simp
  then have "2 ^ 128 \<le> (hi * 2 ^ 128 + lo) div divisor"
    using assms(1) by (simp add: less_eq_div_iff_mult_less_eq)
  with True show ?thesis by (simp add: div256_def Let_def)
next
  case False
  then have "hi * 2 ^ 128 + 2 ^ 128 \<le> divisor * 2 ^ 128"
    by (metis Suc_leI add.commute mult_Suc mult_le_mono1 not_le)
  then have "hi * 2 ^ 128 + lo < divisor * 2 ^ 128" using assms(3) by linarith
  then have "(hi * 2 ^ 128 + lo) div divisor < 2 ^ 128"
    using assms(1) by (simp add: div_less_iff_less_mult mult.commute)
  with False assms show ?thesis
    using div256_loop_eq [of hi divisor lo 128 0] by (simp add: div256_def Let_def)
qed

section \<open>Exactness of the quotients\<close>

text \<open>The rounding-up quotient, on naturals.\<close>

definition ceil_div :: "nat \<Rightarrow> nat \<Rightarrow> nat" where
  "ceil_div n d = (if n mod d = 0 then n div d else n div d + 1)"

lemma full_mul_div_exact:
  assumes "0 < d" and "d < 2 ^ 128"
  shows "full_mul_div a b d ceil =
    (let q = (if ceil then ceil_div (a * b) d else a * b div d)
     in if q < 2 ^ 128 then Ok q else Err Overflow)"
proof (cases "a = 0 \<or> b = 0")
  case True
  then show ?thesis by (auto simp: full_mul_div_def ceil_div_def)
next
  case False
  obtain lo hi where m: "mul_to_u256 a b = (lo, hi)" by fastforce
  note exact = mul_to_u256_exact [OF m]
  have quot: "(if hi = 0 then Ok (lo div d, lo mod d) else div256 hi lo d)
      = (if a * b div d < 2 ^ 128 then Ok (a * b div d, a * b mod d) else Err Overflow)"
  proof (cases "hi = 0")
    case True
    with exact have lo: "lo = a * b" and "a * b < 2 ^ 128" by simp_all
    from this(2) have "a * b div d < 2 ^ 128" by (rule order_le_less_trans [OF div_le_dividend])
    with True lo show ?thesis by simp
  next
    case False
    with exact(1) div256_exact [OF assms exact(2), of hi] show ?thesis by (simp add: Let_def)
  qed
  have "full_mul_div a b d ceil =
      and_then (if hi = 0 then Ok (lo div d, lo mod d) else div256 hi lo d) (\<lambda>(q, r).
        if ceil \<and> r > 0 then ok_or (checked_add_w 128 q 1) Overflow else Ok q)"
    using False by (simp add: full_mul_div_def m Let_def)
  also have "\<dots> = (let q = (if ceil then ceil_div (a * b) d else a * b div d)
     in if q < 2 ^ 128 then Ok q else Err Overflow)"
    unfolding quot by (auto simp: ceil_div_def checked_add_w_def Let_def)
  finally show ?thesis .
qed

lemma mul_div_floor_exact:
  assumes "d < 2 ^ 128"
  shows "mul_div_floor a b d =
    (if d = 0 then Err DivByZero
     else if a * b div d < 2 ^ 128 then Ok (a * b div d) else Err Overflow)"
  using assms by (simp add: mul_div_floor_def full_mul_div_exact Let_def)

lemma mul_div_ceil_exact:
  assumes "d < 2 ^ 128"
  shows "mul_div_ceil a b d =
    (if d = 0 then Err DivByZero
     else if ceil_div (a * b) d < 2 ^ 128 then Ok (ceil_div (a * b) d) else Err Overflow)"
  using assms by (simp add: mul_div_ceil_def full_mul_div_exact Let_def)

text \<open>The forms the engine's proofs use.\<close>

lemma mul_div_floor_Ok:
  assumes "mul_div_floor a b d = Inr q" and "d < 2 ^ 128"
  shows "q = a * b div d" and "0 < d" and "q < 2 ^ 128"
  using assms by (auto simp: mul_div_floor_exact split: if_splits)

lemma mul_div_floor_total:
  assumes "0 < d" and "d < 2 ^ 128" and "a < 2 ^ 128" and "b \<le> d"
  shows "mul_div_floor a b d = Inr (a * b div d)"
  using assms mult_div_le_left [OF assms(4), of a] by (simp add: mul_div_floor_exact)

section \<open>What the profit and the price move are\<close>

lemma signed_pnl_increment_Ok:
  assumes "signed_pnl_increment direction notional p_last p_now = Inr v" and "p_last < 2 ^ 128"
  shows "\<bar>v\<bar> < 2 ^ 127" and "0 < p_last"
    and "direction = 1 \<Longrightarrow> p_last \<le> p_now \<Longrightarrow> v = int (notional * (p_now - p_last) div p_last)"
    and "direction = 1 \<Longrightarrow> p_now \<le> p_last \<Longrightarrow> v = - int (notional * (p_last - p_now) div p_last)"
    and "direction = - 1 \<Longrightarrow> p_last \<le> p_now \<Longrightarrow> v = - int (notional * (p_now - p_last) div p_last)"
    and "direction = - 1 \<Longrightarrow> p_now \<le> p_last \<Longrightarrow> v = int (notional * (p_last - p_now) div p_last)"
  using assms
  by (auto simp: signed_pnl_increment_def mul_div_floor_exact Let_def split: if_splits)

text \<open>
  The profit is antisymmetric in the direction: what one side's increment is, the other side's
  is with the sign turned, and both fail alike.
\<close>

lemma signed_pnl_increment_opposite:
  "signed_pnl_increment (- direction) notional p_last p_now
    = and_then (signed_pnl_increment direction notional p_last p_now) (\<lambda>v. Ok (- v))"
  by (cases "mul_div_floor notional (if p_last \<le> p_now then p_now - p_last else p_last - p_now) p_last")
    (auto simp: signed_pnl_increment_def Let_def mult_less_0_iff zero_less_mult_iff split: if_splits)

lemma price_move_bps_exact:
  assumes "p_old < 2 ^ 64" and "p_new < 2 ^ 64"
  shows "price_move_bps p_old p_new =
    (if p_old = 0 then Err DivByZero
     else let q = (p_new - p_old + (p_old - p_new)) * 10000 div p_old
       in if q < 2 ^ 64 then Ok q else Err Overflow)"
proof -
  have d: "(if p_old \<le> p_new then p_new - p_old else p_old - p_new) = p_new - p_old + (p_old - p_new)"
    by simp
  have "(p_new - p_old + (p_old - p_new)) * 10000 < 2 ^ 128" using assms by simp
  then have "(p_new - p_old + (p_old - p_new)) * 10000 div p_old < 2 ^ 128"
    by (rule order_le_less_trans [OF div_le_dividend])
  then show ?thesis
    using assms(1) unfolding price_move_bps_def d
    by (simp add: mul_div_floor_exact BPS_SCALE_def Let_def)
qed

end
