(* ===== verification/Molemath_Word.thy ===== *)
theory Molemath_Word
  imports Molemath "HOL-Library.Word"
begin

text \<open>
  The same arithmetic on machine words: \<open>mul_to_u256\<close>, \<open>div256\<close> and \<open>full_mul_div\<close> of
  \<open>crates/molemath/src/lib.rs\<close> operation by operation on 128-bit words, with their shifts,
  masks, ors and wrapping subtraction. Reading the words as naturals gives the definitions
  of \<open>Molemath\<close>, so the exactness results there hold of the machine code.
\<close>

unbundle bit_operations_syntax

section \<open>The algorithms\<close>

type_synonym w128 = "128 word"

definition mul_to_u256_w :: "w128 \<Rightarrow> w128 \<Rightarrow> w128 \<times> w128" where
  "mul_to_u256_w a b =
     (let a_hi = drop_bit 64 a; a_lo = a AND mask 64;
          b_hi = drop_bit 64 b; b_lo = b AND mask 64;
          ll = a_lo * b_lo; lh = a_lo * b_hi; hl = a_hi * b_lo; hh = a_hi * b_hi;
          ll_low = ll AND mask 64; ll_high = drop_bit 64 ll;
          mid = ll_high + (lh AND mask 64) + (hl AND mask 64);
          mid_low = mid AND mask 64; mid_high = drop_bit 64 mid;
          low = push_bit 64 mid_low OR ll_low;
          high = hh + drop_bit 64 lh + drop_bit 64 hl + mid_high
      in (low, high))"

definition div256_step_w :: "w128 \<Rightarrow> w128 \<Rightarrow> nat \<Rightarrow> w128 \<times> w128 \<Rightarrow> w128 \<times> w128" where
  "div256_step_w lo divisor i st =
     (let (rem, quot) = st;
          next_bit = drop_bit i lo AND 1;
          rem_top = drop_bit 127 rem;
          rem' = push_bit 1 rem OR next_bit
      in if rem_top = 1 \<or> divisor \<le> rem' then (rem' - divisor, quot OR push_bit i 1)
         else (rem', quot))"

fun div256_loop_w :: "w128 \<Rightarrow> w128 \<Rightarrow> nat \<Rightarrow> w128 \<times> w128 \<Rightarrow> w128 \<times> w128" where
  "div256_loop_w lo divisor 0 st = st"
| "div256_loop_w lo divisor (Suc i) st =
     div256_loop_w lo divisor i (div256_step_w lo divisor i st)"

definition div256_w :: "w128 \<Rightarrow> w128 \<Rightarrow> w128 \<Rightarrow> (w128 \<times> w128) math" where
  "div256_w hi lo divisor =
     (if divisor \<le> hi then Err Overflow
      else let (rem, quot) = div256_loop_w lo divisor 128 (hi, 0) in Ok (quot, rem))"

definition checked_inc_w :: "w128 \<Rightarrow> w128 math" where
  "checked_inc_w q = (if q = - 1 then Err Overflow else Ok (q + 1))"

definition full_mul_div_w :: "w128 \<Rightarrow> w128 \<Rightarrow> w128 \<Rightarrow> bool \<Rightarrow> w128 math" where
  "full_mul_div_w a b denominator ceil =
     (if a = 0 \<or> b = 0 then Ok 0
      else let (lo, hi) = mul_to_u256_w a b in
        if hi = 0 then
          (let q = lo div denominator; r = lo mod denominator in
           if ceil \<and> r > 0 then checked_inc_w q else Ok q)
        else
          and_then (div256_w hi lo denominator) (\<lambda>(q, r).
           if ceil \<and> r > 0 then checked_inc_w q else Ok q))"

definition mul_div_floor_w :: "w128 \<Rightarrow> w128 \<Rightarrow> w128 \<Rightarrow> w128 math" where
  "mul_div_floor_w a b denominator =
     (if denominator = 0 then Err DivByZero else full_mul_div_w a b denominator False)"

definition mul_div_ceil_w :: "w128 \<Rightarrow> w128 \<Rightarrow> w128 \<Rightarrow> w128 math" where
  "mul_div_ceil_w a b denominator =
     (if denominator = 0 then Err DivByZero else full_mul_div_w a b denominator True)"

section \<open>Words read as naturals\<close>

abbreviation map_res :: "('a \<Rightarrow> 'b) \<Rightarrow> 'a math \<Rightarrow> 'b math" where
  "map_res f \<equiv> map_sum id f"

named_theorems word_nat

lemma unat_drop [word_nat]: "unat (drop_bit n (w :: w128)) = unat w div 2 ^ n"
  unfolding unat_drop_bit_eq by (simp add: drop_bit_eq_div)

lemma unat_mask [word_nat]: "unat (w AND mask n :: w128) = unat w mod 2 ^ n"
  unfolding take_bit_eq_mask [symmetric] unsigned_take_bit_eq by (simp add: take_bit_eq_mod)

lemma unat_bound: "unat (w :: w128) < 2 ^ 128"
  using unsigned_less [of w] by simp

lemma unat_plus: "unat (v :: w128) + unat w < 2 ^ 128 \<Longrightarrow> unat (v + w) = unat v + unat w"
  by (simp add: unat_word_ariths)

lemma unat_times: "unat (v :: w128) * unat w < 2 ^ 128 \<Longrightarrow> unat (v * w) = unat v * unat w"
  by (simp add: unat_word_ariths)

text \<open>An or of disjoint parts is their sum.\<close>

lemma or_disjoint:
  fixes m n :: nat
  assumes "n < 2 ^ k"
  shows "(m * 2 ^ k) OR n = m * 2 ^ k + n"
proof -
  have "push_bit k m AND take_bit k n = 0" by (auto simp: bit_eq_iff bit_simps)
  moreover have "take_bit k n = n" using assms by (rule take_bit_nat_eq_self)
  ultimately show ?thesis by (simp add: push_bit_eq_mult disjunctive_add_eq_or)
qed

lemma unat_join:
  assumes "unat (n :: w128) < 2 ^ k"
  shows "unat (push_bit k m OR n) = (unat m * 2 ^ k) mod 2 ^ 128 + unat n"
proof -
  have "unat (push_bit k m :: w128) = (unat m * 2 ^ k) mod 2 ^ 128"
    unfolding unsigned_push_bit_eq by (simp add: push_bit_eq_mult take_bit_eq_mod)
  then have "unat (push_bit k m OR n) = (unat m * 2 ^ k) mod 2 ^ 128 OR unat n"
    by (simp add: unsigned_or_eq)
  also have "\<dots> = (unat m * 2 ^ k) mod 2 ^ 128 + unat n"
  proof (cases "k \<le> 128")
    case True
    then have "(unat m * 2 ^ k) mod 2 ^ 128 = (unat m mod 2 ^ (128 - k)) * 2 ^ k"
      by (metis le_add_diff_inverse2 mult_mod_left power_add)
    then show ?thesis using or_disjoint [OF assms] by simp
  next
    case False
    then have "(2::nat) ^ 128 dvd 2 ^ k" by (intro le_imp_power_dvd) simp
    then have "(unat m * 2 ^ k) mod 2 ^ 128 = 0" by (simp add: dvd_mult mod_0_imp_dvd dvd_imp_mod_0)
    then show ?thesis by simp
  qed
  finally show ?thesis .
qed

section \<open>The product\<close>

text \<open>
  No plain addition or multiplication of \<open>mul_to_u256\<close> leaves 128 bits: on 128-bit operands
  the cross products, the middle sum and the high word all fit.
\<close>

lemma mul_to_u256_intermediates:
  fixes a b :: nat
  assumes "a < 2 ^ 128" and "b < 2 ^ 128"
  defines "ah \<equiv> a div 2 ^ 64" and "al \<equiv> a mod 2 ^ 64" and "bh \<equiv> b div 2 ^ 64" and "bl \<equiv> b mod 2 ^ 64"
  defines "mid \<equiv> al * bl div 2 ^ 64 + al * bh mod 2 ^ 64 + ah * bl mod 2 ^ 64"
  shows "al * bl < 2 ^ 128" and "al * bh < 2 ^ 128" and "ah * bl < 2 ^ 128" and "ah * bh < 2 ^ 128"
    and "mid < 2 ^ 128"
    and "ah * bh + al * bh div 2 ^ 64 + ah * bl div 2 ^ 64 + mid div 2 ^ 64 < 2 ^ 128"
proof -
  have half: "x div 2 ^ 64 < 2 ^ 64" if "x < 2 ^ 128" for x :: nat
    using that by (simp add: less_mult_imp_div_less)
  have "ah < 2 ^ 64" "al < 2 ^ 64" "bh < 2 ^ 64" "bl < 2 ^ 64"
    using half assms(1,2) by (simp_all add: ah_def al_def bh_def bl_def)
  then show p: "al * bl < 2 ^ 128" "al * bh < 2 ^ 128" "ah * bl < 2 ^ 128" "ah * bh < 2 ^ 128"
    by (simp_all only: half_product_bound)
  have "al * bl div 2 ^ 64 < 2 ^ 64" using half p(1) by blast
  moreover have "al * bh mod 2 ^ 64 < 2 ^ 64" "ah * bl mod 2 ^ 64 < 2 ^ 64" by simp_all
  ultimately show "mid < 2 ^ 128" unfolding mid_def by simp
  obtain lo hi where m: "mul_to_u256 a b = (lo, hi)" by fastforce
  then have "hi = ah * bh + al * bh div 2 ^ 64 + ah * bl div 2 ^ 64 + mid div 2 ^ 64"
    by (simp add: mul_to_u256_def Let_def ah_def al_def bh_def bl_def mid_def)
  then show "ah * bh + al * bh div 2 ^ 64 + ah * bl div 2 ^ 64 + mid div 2 ^ 64 < 2 ^ 128"
    using mul_to_u256_high_bound [OF assms(1,2) m] by simp
qed

lemma mul_to_u256_refines:
  "map_prod unat unat (mul_to_u256_w a b) = mul_to_u256 (unat a) (unat b)"
proof -
  note bounds = mul_to_u256_intermediates [OF unat_bound unat_bound, of a b]
  define ah al bh bl where "ah = drop_bit 64 a" and "al = a AND mask 64"
    and "bh = drop_bit 64 b" and "bl = b AND mask 64"
  have halves: "unat ah = unat a div 2 ^ 64" "unat al = unat a mod 2 ^ 64"
    "unat bh = unat b div 2 ^ 64" "unat bl = unat b mod 2 ^ 64"
    unfolding ah_def al_def bh_def bl_def by (rule word_nat)+
  note b = bounds [folded halves]
  have prods: "unat (al * bl) = unat al * unat bl" "unat (al * bh) = unat al * unat bh"
    "unat (ah * bl) = unat ah * unat bl" "unat (ah * bh) = unat ah * unat bh"
    using b(1-4) by (simp_all only: unat_times)
  define mid where "mid = drop_bit 64 (al * bl) + (al * bh AND mask 64) + (ah * bl AND mask 64)"
  have mid: "unat mid = unat al * unat bl div 2 ^ 64 + unat al * unat bh mod 2 ^ 64
      + unat ah * unat bl mod 2 ^ 64"
    unfolding mid_def using b(5) by (simp only: unat_plus word_nat prods add_lessD1)
  have "unat (ah * bh + drop_bit 64 (al * bh) + drop_bit 64 (ah * bl) + drop_bit 64 mid)
      = unat ah * unat bh + unat al * unat bh div 2 ^ 64 + unat ah * unat bl div 2 ^ 64
        + unat mid div 2 ^ 64"
    using b(6) [folded mid] by (simp only: unat_plus word_nat prods add_lessD1)
  moreover have "unat (push_bit 64 (mid AND mask 64) OR (al * bl AND mask 64))
      = (unat mid mod 2 ^ 64 * 2 ^ 64) mod 2 ^ 128 + unat al * unat bl mod 2 ^ 64"
    by (subst unat_join) (simp_all only: word_nat prods, simp)
  ultimately show ?thesis
    by (simp only: mul_to_u256_w_def mul_to_u256_def Let_def map_prod_simp mid halves
        ah_def [symmetric] al_def [symmetric] bh_def [symmetric] bl_def [symmetric]
        mid_def [symmetric])
qed

section \<open>The division\<close>

lemma div256_step_refines:
  assumes "i < 128" and "2 ^ Suc i dvd unat quot"
  shows "map_prod unat unat (div256_step_w lo divisor i (rem, quot))
      = div256_step (unat lo) (unat divisor) i (unat rem, unat quot)"
    and "2 ^ i dvd unat (snd (div256_step_w lo divisor i (rem, quot)))"
proof -
  define bit' where "bit' = drop_bit i lo AND 1"
  define rem' where "rem' = push_bit 1 rem OR bit'"
  have "bit' = drop_bit i lo AND mask 1" by (simp add: bit'_def)
  then have bit': "unat bit' = unat lo div 2 ^ i mod 2" by (simp only: word_nat power_one_right)
  have "unat bit' < 2 ^ 1" by (simp add: bit')
  then have rem': "unat rem' = (2 * unat rem) mod 2 ^ 128 + unat lo div 2 ^ i mod 2"
    unfolding rem'_def by (simp only: unat_join bit' power_one_right mult.commute)
  have top: "drop_bit 127 rem = 1 \<longleftrightarrow> unat rem div 2 ^ 127 = 1"
    by (metis unat_1 unat_drop word_unat_eq_iff)
  have sub: "unat (rem' - divisor) = (unat rem' + 2 ^ 128 - unat divisor) mod 2 ^ 128"
  proof (cases "divisor \<le> rem'")
    case True
    then have "unat rem' + 2 ^ 128 - unat divisor = (unat rem' - unat divisor) + 2 ^ 128"
      by (simp add: word_le_nat_alt)
    moreover have "unat rem' - unat divisor < 2 ^ 128" using unat_bound [of rem'] by linarith
    moreover from this have "(unat rem' - unat divisor + 2 ^ 128) mod 2 ^ 128 = unat rem' - unat divisor"
      by simp
    ultimately have "(unat rem' + 2 ^ 128 - unat divisor) mod 2 ^ 128 = unat rem' - unat divisor"
      by (simp only:)
    with True show ?thesis by (simp add: unat_sub_if_size word_le_nat_alt)
  next
    case False
    then have "unat rem' + 2 ^ 128 - unat divisor < 2 ^ 128"
      using unat_bound [of divisor] by (simp add: word_le_nat_alt)
    then show ?thesis using False by (simp add: unat_sub_if_size word_size word_le_nat_alt)
  qed
  obtain q where q: "unat quot = q * 2 ^ Suc i" using assms(2) by (auto simp: dvd_def mult.commute)
  have one: "unat (push_bit i 1 :: w128) = 2 ^ i"
  proof -
    have "(2::nat) ^ i < 2 ^ 128" using assms(1) by (intro power_strict_increasing) simp_all
    then show ?thesis unfolding unsigned_push_bit_eq by (simp add: push_bit_eq_mult take_bit_eq_mod)
  qed
  have quot: "unat (quot OR push_bit i 1) = unat quot + 2 ^ i"
    unfolding unsigned_or_eq one q by (rule or_disjoint) simp
  show "map_prod unat unat (div256_step_w lo divisor i (rem, quot))
      = div256_step (unat lo) (unat divisor) i (unat rem, unat quot)"
    unfolding div256_step_w_def div256_step_def Let_def prod.case bit'_def [symmetric]
      rem'_def [symmetric] top word_le_nat_alt rem' [symmetric]
    by (simp add: sub quot del: push_bit_of_1)
  have "2 ^ i dvd unat quot" "2 ^ i dvd unat quot + 2 ^ i" by (simp_all add: q)
  then show "2 ^ i dvd unat (snd (div256_step_w lo divisor i (rem, quot)))"
    unfolding div256_step_w_def Let_def prod.case by (simp add: quot del: push_bit_of_1)
qed

lemma div256_loop_refines:
  assumes "n \<le> 128" and "2 ^ n dvd unat (snd st)"
  shows "map_prod unat unat (div256_loop_w lo divisor n st)
      = div256_loop (unat lo) (unat divisor) n (map_prod unat unat st)"
  using assms
proof (induction n arbitrary: st)
  case (Suc i)
  obtain rem quot where st: "st = (rem, quot)" by fastforce
  have d: "2 ^ Suc i dvd unat quot" and i: "i < 128" using Suc.prems by (simp_all add: st)
  note step = div256_step_refines [OF i d, of lo divisor rem]
  show ?case
    using Suc.IH [of "div256_step_w lo divisor i st"] Suc.prems(1) step(2)
    by (simp add: st step(1) [symmetric])
qed simp

lemma div256_refines:
  "map_res (map_prod unat unat) (div256_w hi lo divisor) = div256 (unat hi) (unat lo) (unat divisor)"
proof -
  have "map_prod unat unat (div256_loop_w lo divisor 128 (hi, 0))
      = div256_loop (unat lo) (unat divisor) 128 (unat hi, 0)"
    using div256_loop_refines [of 128 "(hi, 0)" lo divisor] by simp
  then show ?thesis
    by (auto simp: div256_w_def div256_def word_le_nat_alt Let_def split: prod.splits)
qed

section \<open>The quotients\<close>

lemma checked_inc_refines:
  "map_res unat (checked_inc_w q) = ok_or (checked_add_w 128 (unat q) 1) Overflow"
proof (cases "q = - 1")
  case True
  have "unat (- 1 :: w128) = 2 ^ 128 - 1" by (simp add: unsigned_minus_1_eq_mask mask_eq_exp_minus_1)
  with True show ?thesis by (simp add: checked_inc_w_def checked_add_w_def)
next
  case False
  then have "unat (q + 1) = unat q + 1" using unatSuc [of q] by (metis Suc_eq_plus1 add.commute add_eq_0_iff2)
  with False unat_bound [of "q + 1"] show ?thesis by (simp add: checked_inc_w_def checked_add_w_def)
qed

lemma round_refines:
  "map_res unat (if ceil \<and> r > 0 then checked_inc_w q else Ok q)
    = (if ceil \<and> unat r > 0 then ok_or (checked_add_w 128 (unat q) 1) Overflow else Ok (unat q))"
  using checked_inc_refines by (simp add: word_less_nat_alt)

lemma full_mul_div_refines:
  "map_res unat (full_mul_div_w a b d ceil) = full_mul_div (unat a) (unat b) (unat d) ceil"
proof (cases "a = 0 \<or> b = 0")
  case True
  then show ?thesis by (auto simp: full_mul_div_w_def full_mul_div_def)
next
  case False
  obtain lo hi where m: "mul_to_u256_w a b = (lo, hi)" by fastforce
  have m': "mul_to_u256 (unat a) (unat b) = (unat lo, unat hi)"
    using mul_to_u256_refines [of a b] by (simp add: m)
  have nz: "unat a \<noteq> 0" "unat b \<noteq> 0" using False by (simp_all add: unat_eq_zero)
  show ?thesis
  proof (cases "hi = 0")
    case True
    with False nz m m' show ?thesis
      by (simp add: full_mul_div_w_def full_mul_div_def Let_def round_refines unat_div unat_mod
          del: map_sum_if_distrib_then map_sum_if_distrib_else)
  next
    case hi: False
    then have "unat hi \<noteq> 0" by (simp add: unat_eq_zero)
    with hi False nz m m' show ?thesis
      unfolding full_mul_div_w_def full_mul_div_def div256_refines [of hi lo d, symmetric]
      by (cases "div256_w hi lo d")
        (auto simp: Let_def round_refines [symmetric] div256_refines [of hi lo d, symmetric])
  qed
qed

lemma mul_div_floor_refines:
  "map_res unat (mul_div_floor_w a b d) = mul_div_floor (unat a) (unat b) (unat d)"
  using full_mul_div_refines [of a b d False]
  by (auto simp: mul_div_floor_w_def mul_div_floor_def unat_eq_zero)

lemma mul_div_ceil_refines:
  "map_res unat (mul_div_ceil_w a b d) = mul_div_ceil (unat a) (unat b) (unat d)"
  using full_mul_div_refines [of a b d True]
  by (auto simp: mul_div_ceil_w_def mul_div_ceil_def unat_eq_zero)

text \<open>A word result is determined by its reading.\<close>

lemma result_of_reading: "map_res unat m = r \<Longrightarrow> m = map_res (word_of_nat :: nat \<Rightarrow> w128) r"
  by (cases m) auto

end
