(* ===== verification/Math_Properties.thy ===== *)
theory Math_Properties
  imports Molemath_Word
begin

text \<open>The properties of the arithmetic of \<open>crates/molemath\<close>.\<close>

text \<open>
  C20: \<open>mul_div_floor\<close> on 128-bit words is total and exact: it fails with \<open>DivByZero\<close>
  exactly on a zero denominator, with \<open>Overflow\<close> exactly when the mathematical quotient does
  not fit in 128 bits, and returns the quotient of the full product otherwise.
\<close>

theorem mul_div_floor_word_exact:
  "mul_div_floor_w a b d =
     (if d = 0 then Err DivByZero
      else if unat a * unat b div unat d < 2 ^ 128
      then Ok (word_of_nat (unat a * unat b div unat d)) else Err Overflow)"
proof -
  have "map_res unat (mul_div_floor_w a b d) =
      (if d = 0 then Err DivByZero
       else if unat a * unat b div unat d < 2 ^ 128 then Ok (unat a * unat b div unat d)
       else Err Overflow)"
    using mul_div_floor_exact [OF unat_bound [of d]]
    by (simp add: mul_div_floor_refines unat_eq_zero)
  from result_of_reading [OF this] show ?thesis by simp
qed

text \<open>
  \<open>mul_div_ceil\<close> on 128-bit words is total and exact, rounding up: the smallest quotient
  whose product with the denominator is at least the product of the factors.
\<close>

theorem mul_div_ceil_word_exact:
  "mul_div_ceil_w a b d =
     (if d = 0 then Err DivByZero
      else if ceil_div (unat a * unat b) (unat d) < 2 ^ 128
      then Ok (word_of_nat (ceil_div (unat a * unat b) (unat d))) else Err Overflow)"
proof -
  have "map_res unat (mul_div_ceil_w a b d) =
      (if d = 0 then Err DivByZero
       else if ceil_div (unat a * unat b) (unat d) < 2 ^ 128
       then Ok (ceil_div (unat a * unat b) (unat d)) else Err Overflow)"
    using mul_div_ceil_exact [OF unat_bound [of d]]
    by (simp add: mul_div_ceil_refines unat_eq_zero)
  from result_of_reading [OF this] show ?thesis by simp
qed

text \<open>
  \<open>mul_to_u256\<close> on machine words loses nothing: high and low word together are the full
  256-bit product, although each partial sum is computed in 128 bits.
\<close>

theorem mul_to_u256_word_exact:
  "unat (snd (mul_to_u256_w a b)) * 2 ^ 128 + unat (fst (mul_to_u256_w a b)) = unat a * unat b"
proof -
  obtain lo hi where m: "mul_to_u256_w a b = (lo, hi)" by fastforce
  with mul_to_u256_refines [of a b] have "mul_to_u256 (unat a) (unat b) = (unat lo, unat hi)" by simp
  from mul_to_u256_exact(1) [OF this] m show ?thesis by simp
qed

text \<open>
  the signed profit increment is zero-sum between the sides: the two directions on the
  same notional get opposite values for every price move, and fail on the same inputs.
\<close>

theorem profit_zero_sum:
  "signed_pnl_increment (- 1) notional p_last p_now
    = and_then (signed_pnl_increment 1 notional p_last p_now) (\<lambda>v. Ok (- v))"
  using signed_pnl_increment_opposite [of 1] by simp

text \<open>
  the price move in basis points is the exact floor of the relative distance, in either
  direction; it fails exactly on a zero old price and when the result does not fit in 64 bits.
\<close>

theorem price_move_exact:
  assumes "p_old < 2 ^ 64" and "p_new < 2 ^ 64"
  shows "price_move_bps p_old p_new =
    (if p_old = 0 then Err DivByZero
     else let q = (p_new - p_old + (p_old - p_new)) * 10000 div p_old
       in if q < 2 ^ 64 then Ok q else Err Overflow)"
  using assms by (rule price_move_bps_exact)

theorem price_move_exact_witness:
  "price_move_bps 1000 875 = Ok 1250 \<and> price_move_bps 1 (2 ^ 64 - 1) = Err Overflow"
  using price_move_exact [of 1000 875] price_move_exact [of 1 "2 ^ 64 - 1"] by simp

end
