(* ===== verification/Clearing_Types.thy ===== *)
theory Clearing_Types
  imports Molemath
begin

text \<open>
  The data of the clearing engine: \<open>types.rs\<close> (trade directions), \<open>error.rs\<close> (the
  canonical error codes), \<open>position.rs\<close> (a user position), the parameter part of
  \<open>market.rs\<close> and the structured events of \<open>event.rs\<close>, all under
  \<open>crates/clearing-core/src/\<close>. Record fields keep the source's names, with a prefix where
  two structs share one.
\<close>

section \<open>Directions\<close>

datatype direction = Long | Short

definition direction_sign :: "direction \<Rightarrow> i8" where
  "direction_sign d = (case d of Long \<Rightarrow> 1 | Short \<Rightarrow> - 1)"

definition opposite :: "direction \<Rightarrow> direction" where
  "opposite d = (case d of Long \<Rightarrow> Short | Short \<Rightarrow> Long)"

lemma direction_sign_simps [simp]: "direction_sign Long = 1" "direction_sign Short = - 1"
  by (simp_all add: direction_sign_def)

lemma opposite_simps [simp]:
  "opposite Long = Short" "opposite Short = Long" "opposite (opposite d) = d" "opposite d \<noteq> d"
  by (cases d; simp add: opposite_def)+

lemma UNIV_direction: "(UNIV :: direction set) = {Long, Short}"
  by (auto intro: direction.exhaust)

instantiation direction :: linorder
begin

definition less_eq_direction :: "direction \<Rightarrow> direction \<Rightarrow> bool" where
  "less_eq_direction a b \<longleftrightarrow> a = Long \<or> b = Short"

definition less_direction :: "direction \<Rightarrow> direction \<Rightarrow> bool" where
  "less_direction a b \<longleftrightarrow> a = Long \<and> b = Short"

instance
proof
  fix x y z :: direction
  show "x < y \<longleftrightarrow> x \<le> y \<and> \<not> y \<le> x"
    by (cases x; cases y) (simp_all add: less_eq_direction_def less_direction_def)
  show "x \<le> x"
    by (cases x) (simp_all add: less_eq_direction_def)
  show "x \<le> y \<Longrightarrow> y \<le> z \<Longrightarrow> x \<le> z"
    by (cases x; cases y; cases z) (simp_all add: less_eq_direction_def)
  show "x \<le> y \<Longrightarrow> y \<le> x \<Longrightarrow> x = y"
    by (cases x; cases y) (simp_all add: less_eq_direction_def)
  show "x \<le> y \<or> y \<le> x"
    by (cases x; cases y) (simp_all add: less_eq_direction_def)
qed

end

section \<open>Errors\<close>

datatype clearing_error =
    MathOverflow | DivByZero | SignOverflow
  | MarketPaused | FrozenNewPosition | InvalidSubPool | DirectionMismatch
  | MarginBelowMinimum | MarginAboveMaximum
  | TotalPrincipalCapExceeded | TotalNotionalCapExceeded
  | OraclePriceZero | OracleConfidenceTooWide | OracleStale
  | PriceProtectionFailed | PriceMoveTooLarge
  | SharesMintedTooSmall | DilutionRiskTooHigh
  | PositionNotOpen | PositionIsDormant | WithdrawableZero
  | ForfeitAcknowledgementRequired | VaultInsufficient
  | DormantBucketCapExceeded | DormantPendingBudgetExceeded | DormantBucketMissing
  | LedgerCapacityExceeded | SubPoolStale
  | SchemaVersionMismatch
  | Invariant string

type_synonym 'a clearing = "(clearing_error, 'a) result"

definition clearing_of_math :: "math_error \<Rightarrow> clearing_error" where
  "clearing_of_math e = (case e of Overflow \<Rightarrow> MathOverflow | math_error.DivByZero \<Rightarrow> DivByZero
                         | math_error.SignOverflow \<Rightarrow> SignOverflow)"

text \<open>The arithmetic of the engine: the math primitives with their errors converted.\<close>

abbreviation lift_math :: "'a math \<Rightarrow> 'a clearing" where
  "lift_math \<equiv> map_err clearing_of_math"

abbreviation add_c :: "u128 \<Rightarrow> u128 \<Rightarrow> u128 clearing" where
  "add_c a b \<equiv> lift_math (checked_add_m a b)"

abbreviation sub_c :: "u128 \<Rightarrow> u128 \<Rightarrow> u128 clearing" where
  "sub_c a b \<equiv> lift_math (checked_sub_m a b)"

abbreviation mul_c :: "u128 \<Rightarrow> u128 \<Rightarrow> u128 clearing" where
  "mul_c a b \<equiv> lift_math (checked_mul_m a b)"

abbreviation mdf_c :: "u128 \<Rightarrow> u128 \<Rightarrow> u128 \<Rightarrow> u128 clearing" where
  "mdf_c a b d \<equiv> lift_math (mul_div_floor a b d)"

section \<open>Market parameters\<close>

definition SCHEMA_VERSION_CURRENT :: u16 where "SCHEMA_VERSION_CURRENT = 1"

definition assert_schema_version :: "u16 \<Rightarrow> unit clearing" where
  "assert_schema_version found =
     (if found \<noteq> SCHEMA_VERSION_CURRENT then Err SchemaVersionMismatch else Ok ())"

lemma assert_schema_version_eq_Ok [simp]:
  "assert_schema_version v = Inr u \<longleftrightarrow> v = SCHEMA_VERSION_CURRENT"
  by (simp add: assert_schema_version_def)

datatype distribute_mode = Eager | Lazy

record market_params =
  leverage_bps :: u32
  min_margin :: u64
  max_margin_per_position :: u64
  max_total_principal :: u128
  max_total_notional :: u128
  open_fee_bps :: u16
  max_oracle_age_seconds :: i64
  max_confidence_bps :: u16
  max_price_move_bps_per_sync :: u32
  price_tick :: u64
  tick_aggregation_factor :: u32
  max_dormant_bucket_count_per_direction :: u32
  dormant_distribute_mode :: distribute_mode
  max_pending_apply_per_tx :: u32
  max_distribution_ledger_size :: u32
  dilution_safety_bps :: u32
  max_idle_slots :: u64
  schema_version :: u16
  paused :: bool
  frozen_new_position :: bool

definition sample_market :: market_params where
  "sample_market = \<lparr>leverage_bps = 100000, min_margin = 10000000,
     max_margin_per_position = 1000000000000,
     max_total_principal = (2 ^ 128 - 1) div 2, max_total_notional = (2 ^ 128 - 1) div 2,
     open_fee_bps = 0, max_oracle_age_seconds = 30, max_confidence_bps = 50,
     max_price_move_bps_per_sync = 2000, price_tick = 1, tick_aggregation_factor = 1,
     max_dormant_bucket_count_per_direction = 1024, dormant_distribute_mode = Eager,
     max_pending_apply_per_tx = 4096, max_distribution_ledger_size = 1024,
     dilution_safety_bps = 1, max_idle_slots = 6000,
     schema_version = SCHEMA_VERSION_CURRENT, paused = False, frozen_new_position = False\<rparr>"

section \<open>Positions\<close>

datatype position_status = Open | Dormant | Closed

record position =
  owner :: "u8 list"
  pos_sub_pool_id :: u32
  position_id :: u64
  pos_direction :: direction
  status :: position_status
  principal :: u64
  notional :: u128
  pos_active_shares :: u128
  pos_recovery_shares :: u128
  recovery_bucket_tick :: "i64 option"
  zero_price :: u64
  entry_price :: u64
  pos_last_sync_slot :: u64
  opened_at_slot :: u64
  updated_at_slot :: u64
  closed_at_slot :: u64
  pos_schema_version :: u16
  pos_active_generation :: u64

definition has_outstanding_claim :: "position \<Rightarrow> bool" where
  "has_outstanding_claim p \<longleftrightarrow> pos_active_shares p > 0 \<or> pos_recovery_shares p > 0"

definition is_active_only :: "position \<Rightarrow> bool" where
  "is_active_only p \<longleftrightarrow> pos_active_shares p > 0 \<and> pos_recovery_shares p = 0"

section \<open>Events\<close>

record pool_sync_event =
  ps_sub_pool_id :: u32
  ps_p_last :: u64
  ps_p_now :: u64
  ps_slot :: u64
  ps_long_active_shares_before :: u128
  ps_short_active_shares_before :: u128
  ps_long_active_notional_before :: u128
  ps_short_active_notional_before :: u128
  ps_long_pool_equity_before :: u128
  ps_short_pool_equity_before :: u128
  ps_long_to_pool_inflow :: u128
  ps_short_to_pool_inflow :: u128
  ps_long_to_recovery_inflow :: u128
  ps_short_to_recovery_inflow :: u128
  ps_long_residual_to_dust :: u128
  ps_short_residual_to_dust :: u128

record position_opened_event =
  po_position_id :: u64
  po_sub_pool_id :: u32
  po_direction :: direction
  po_principal :: u64
  po_notional :: u128
  po_shares_minted :: u128
  po_principal_into_pool :: u128
  po_dust :: u128
  po_open_fee :: u64
  po_entry_price :: u64
  po_active_generation :: u64
  po_slot :: u64

record position_closed_event =
  pc_position_id :: u64
  pc_sub_pool_id :: u32
  pc_direction :: direction
  pc_active_shares_burned :: u128
  pc_recovery_shares_burned :: u128
  pc_recovery_notional_burned :: u128
  pc_active_value :: u128
  pc_recovery_value :: u128
  pc_withdrawable :: u128
  pc_notional_removed :: u128
  pc_slot :: u64

record position_force_closed_event =
  pf_position_id :: u64
  pf_sub_pool_id :: u32
  pf_direction :: direction
  pf_active_shares_burned :: u128
  pf_recovery_shares_burned :: u128
  pf_recovery_notional_burned :: u128
  pf_forfeited_recovery_value :: u128
  pf_notional_removed :: u128
  pf_slot :: u64

record dormant_recovery_claimed_event =
  dc_position_id :: u64
  dc_sub_pool_id :: u32
  dc_direction :: direction
  dc_bucket_tick :: i64
  dc_recovery_shares_burned :: u128
  dc_recovery_notional_burned :: u128
  dc_redeemable :: u128
  dc_slot :: u64

record active_rotated_to_recovery_event =
  ar_sub_pool_id :: u32
  ar_direction :: direction
  ar_bucket_tick :: i64
  ar_anchor_price :: u64
  ar_migrated_shares :: u128
  ar_migrated_notional :: u128
  ar_generation_just_ended :: u64
  ar_slot :: u64

record dormant_bucket_pending_applied_event =
  da_sub_pool_id :: u32
  da_direction :: direction
  da_bucket_tick :: i64
  da_events_applied :: u64
  da_pre_accrued_value :: u128
  da_post_accrued_value :: u128
  da_last_applied_index :: u64
  da_slot :: u64

record dust_harvested_event =
  dh_sub_pool_id :: u32
  dh_direction :: direction
  dh_amount :: u128

datatype engine_event =
    PoolSync pool_sync_event
  | PositionOpened position_opened_event
  | PositionClosed position_closed_event
  | PositionForceClosed position_force_closed_event
  | DormantRecoveryClaimed dormant_recovery_claimed_event
  | ActiveRotatedToRecovery active_rotated_to_recovery_event
  | DustHarvested dust_harvested_event
  | DormantBucketPendingApplied dormant_bucket_pending_applied_event

end
