(* ===== verification/Ordered_Map.thy ===== *)
theory Ordered_Map
  imports Prelude
begin

text \<open>
  The interface of Rust's \<open>BTreeMap\<close> as a locale, the facts its clients need proved once
  inside it, and its interpretation on association lists kept in strictly ascending key
  order, the model of every \<open>BTreeMap\<close> field of the development. Iteration order is the
  order of the list.
\<close>

section \<open>The interface\<close>

locale ordered_map =
  fixes bare :: "'m"
    and get :: "'m \<Rightarrow> 'k \<Rightarrow> 'v option"
    and put :: "'k \<Rightarrow> 'v \<Rightarrow> 'm \<Rightarrow> 'm"
    and del :: "'k \<Rightarrow> 'm \<Rightarrow> 'm"
    and entries :: "'m \<Rightarrow> ('k \<times> 'v) list"
    and inv :: "'m \<Rightarrow> bool"
  assumes inv_bare: "inv bare"
    and inv_put: "inv m \<Longrightarrow> inv (put k v m)"
    and inv_del: "inv m \<Longrightarrow> inv (del k m)"
    and get_bare: "get bare k = None"
    and get_put: "inv m \<Longrightarrow> get (put k v m) = (get m)(k \<mapsto> v)"
    and get_del: "inv m \<Longrightarrow> get (del k m) = (get m)(k := None)"
    and distinct_entries: "inv m \<Longrightarrow> distinct (map fst (entries m))"
    and map_of_entries: "inv m \<Longrightarrow> map_of (entries m) = get m"
begin

lemma in_entries_iff: "inv m \<Longrightarrow> (k, v) \<in> set (entries m) \<longleftrightarrow> get m k = Some v"
  using map_of_eq_Some_iff [OF distinct_entries] by (metis map_of_entries)

lemma finite_dom: "inv m \<Longrightarrow> finite (dom (get m))"
  by (metis finite_dom_map_of map_of_entries)

lemma dom_get: "inv m \<Longrightarrow> dom (get m) = set (map fst (entries m))"
  by (metis dom_map_of_conv_image_fst list.set_map map_of_entries)

text \<open>A total over the entries is a sum over the keys.\<close>

lemma total_eq_sum:
  fixes f :: "'k \<Rightarrow> 'v \<Rightarrow> nat"
  assumes "inv m"
  shows "(\<Sum>(k, v)\<leftarrow>entries m. f k v) = (\<Sum>k\<in>dom (get m). f k (the (get m k)))"
proof -
  have "(\<Sum>(k, v)\<leftarrow>entries m. f k v) = (\<Sum>(k, v)\<in>set (entries m). f k v)"
    using distinct_entries [OF assms] by (simp add: sum_list_distinct_conv_sum_set distinct_map)
  also have "\<dots> = (\<Sum>k\<in>dom (get m). f k (the (get m k)))"
  proof (rule sum.reindex_bij_witness [where i = "\<lambda>k. (k, the (get m k))" and j = fst])
    show "\<And>a. a \<in> set (entries m) \<Longrightarrow> (fst a, the (get m (fst a))) = a"
      using assms by (metis in_entries_iff option.sel prod.collapse)
    show "\<And>a. a \<in> set (entries m) \<Longrightarrow> fst a \<in> dom (get m)"
      using assms by (metis domI in_entries_iff prod.collapse)
    show "\<And>b. b \<in> dom (get m) \<Longrightarrow> (b, the (get m b)) \<in> set (entries m)"
      using assms by (auto simp: in_entries_iff)
    show "\<And>a. a \<in> set (entries m) \<Longrightarrow>
        f (fst a) (the (get m (fst a))) = (case a of (k, v) \<Rightarrow> f k v)"
      using assms by (metis case_prod_beta in_entries_iff option.sel prod.collapse)
  qed simp
  finally show ?thesis .
qed

lemma total_put_new:
  fixes f :: "'k \<Rightarrow> 'v \<Rightarrow> nat"
  assumes "inv m" and "get m k = None"
  shows "(\<Sum>(k, v)\<leftarrow>entries (put k v m). f k v) = (\<Sum>(k, v)\<leftarrow>entries m. f k v) + f k v"
proof -
  have "k \<notin> dom (get m)" using assms by auto
  then show ?thesis
    using assms finite_dom [OF assms(1)]
    by (simp add: total_eq_sum inv_put get_put) (rule sum.cong, auto)
qed

lemma total_put_old:
  fixes f :: "'k \<Rightarrow> 'v \<Rightarrow> nat"
  assumes "inv m" and "get m k = Some w"
  shows "(\<Sum>(k, v)\<leftarrow>entries (put k v m). f k v) + f k w = (\<Sum>(k, v)\<leftarrow>entries m. f k v) + f k v"
proof -
  have k: "k \<in> dom (get m)" using assms by auto
  have fin: "finite (dom (get m))" using assms(1) by (rule finite_dom)
  have rest: "(\<Sum>j\<in>dom (get m) - {k}. f j (the (((get m)(k \<mapsto> v)) j)))
      = (\<Sum>j\<in>dom (get m) - {k}. f j (the (get m j)))"
    by (rule sum.cong) auto
  show ?thesis
    using assms k fin rest
    by (simp add: total_eq_sum inv_put get_put insert_absorb sum.remove [OF fin k])
qed

lemma total_del:
  fixes f :: "'k \<Rightarrow> 'v \<Rightarrow> nat"
  assumes "inv m" and "get m k = Some w"
  shows "(\<Sum>(k, v)\<leftarrow>entries (del k m). f k v) + f k w = (\<Sum>(k, v)\<leftarrow>entries m. f k v)"
proof -
  have k: "k \<in> dom (get m)" using assms by auto
  have fin: "finite (dom (get m))" using assms(1) by (rule finite_dom)
  have "(\<Sum>j\<in>dom (get m) - {k}. f j (the (((get m)(k := None)) j)))
      = (\<Sum>j\<in>dom (get m) - {k}. f j (the (get m j)))"
    by (rule sum.cong) auto
  then show ?thesis
    using assms k fin by (simp add: total_eq_sum inv_del get_del sum.remove [OF fin k])
qed

lemma entry_le_total:
  fixes f :: "'k \<Rightarrow> 'v \<Rightarrow> nat"
  assumes "inv m" and "get m k = Some v"
  shows "f k v \<le> (\<Sum>(k, v)\<leftarrow>entries m. f k v)"
proof -
  have "(k, v) \<in> set (entries m)" using assms by (simp add: in_entries_iff)
  then have "f k v \<in> set (map (\<lambda>(k, v). f k v) (entries m))" by force
  then show ?thesis by (rule member_le_sum_list) simp
qed

end

section \<open>Association lists in key order\<close>

type_synonym ('k, 'v) btree = "('k \<times> 'v) list"

definition bt_empty :: "('k, 'v) btree" where
  "bt_empty = []"

fun bt_get :: "('k, 'v) btree \<Rightarrow> 'k \<Rightarrow> 'v option" where
  "bt_get [] k = None"
| "bt_get ((k', v) # m) k = (if k = k' then Some v else bt_get m k)"

fun bt_put :: "('k::linorder) \<Rightarrow> 'v \<Rightarrow> ('k, 'v) btree \<Rightarrow> ('k, 'v) btree" where
  "bt_put k v [] = [(k, v)]"
| "bt_put k v ((k', v') # m) =
     (if k < k' then (k, v) # (k', v') # m
      else if k = k' then (k, v) # m
      else (k', v') # bt_put k v m)"

fun bt_del :: "'k \<Rightarrow> ('k, 'v) btree \<Rightarrow> ('k, 'v) btree" where
  "bt_del k [] = []"
| "bt_del k ((k', v') # m) = (if k = k' then m else (k', v') # bt_del k m)"

definition bt_wf :: "('k::linorder, 'v) btree \<Rightarrow> bool" where
  "bt_wf m \<longleftrightarrow> sorted_wrt (<) (map fst m)"

lemma bt_wf_simps [simp]:
  "bt_wf []"
  "bt_wf ((k, v) # m) \<longleftrightarrow> (\<forall>k'\<in>fst ` set m. k < k') \<and> bt_wf m"
  by (simp_all add: bt_wf_def)

lemma bt_map_of: "map_of m = bt_get m"
  by (induction m) (auto simp: fun_eq_iff)

lemma bt_get_None_iff: "bt_get m k = None \<longleftrightarrow> k \<notin> fst ` set m"
  by (simp add: bt_map_of [symmetric] map_of_eq_None_iff)

lemma set_bt_put: "set (bt_put k v m) \<subseteq> insert (k, v) (set m)"
  by (induction k v m rule: bt_put.induct) auto

lemma bt_wf_put: "bt_wf m \<Longrightarrow> bt_wf (bt_put k v m)"
proof (induction k v m rule: bt_put.induct)
  case (2 k v k' v' m)
  have "\<not> k < k' \<Longrightarrow> k \<noteq> k' \<Longrightarrow> k' < k" by simp
  with 2 set_bt_put [of k v m] show ?case by (auto intro: less_trans)
qed simp

lemma set_bt_del: "set (bt_del k m) \<subseteq> set m"
  by (induction k m rule: bt_del.induct) auto

lemma bt_wf_del: "bt_wf m \<Longrightarrow> bt_wf (bt_del k m)"
proof (induction k m rule: bt_del.induct)
  case (2 k k' v' m)
  then show ?case using set_bt_del [of k m] by auto
qed simp

lemma bt_get_put: "bt_wf m \<Longrightarrow> bt_get (bt_put k v m) = (bt_get m)(k \<mapsto> v)"
  by (induction m) (auto simp: fun_eq_iff)

lemma bt_get_del: "bt_wf m \<Longrightarrow> bt_get (bt_del k m) = (bt_get m)(k := None)"
proof (induction k m rule: bt_del.induct)
  case (2 k k' v' m)
  have "bt_get m k' = None" using "2.prems" by (auto simp: bt_get_None_iff)
  with 2 show ?case by (auto simp: fun_eq_iff)
qed (simp add: fun_eq_iff)

lemma bt_wf_distinct: "bt_wf m \<Longrightarrow> distinct (map fst m)"
  by (simp add: bt_wf_def strict_sorted_iff)

interpretation bt: ordered_map bt_empty bt_get bt_put bt_del "\<lambda>m. m" bt_wf
  by unfold_locales
    (simp_all add: bt_empty_def bt_wf_put bt_wf_del bt_get_put bt_get_del bt_wf_distinct bt_map_of)

text \<open>Writing an entry back under its own key moves nothing: \<open>get_mut\<close> then assign.\<close>

lemma bt_put_keys:
  assumes "bt_wf m" and "bt_get m k \<noteq> None"
  shows "map fst (bt_put k v m) = map fst m"
  using assms
proof (induction k v m rule: bt_put.induct)
  case (2 k v k' v' m)
  have "k < k' \<Longrightarrow> bt_get m k = None"
    using "2.prems"(1) by (auto simp: bt_get_None_iff)
  with 2 show ?case by auto
qed simp

lemma bt_put_same:
  assumes "bt_wf m" and "bt_get m k = Some v"
  shows "bt_put k v m = m"
  using assms
proof (induction k v m rule: bt_put.induct)
  case (2 k v k' v' m)
  have "k < k' \<Longrightarrow> bt_get m k = None"
    using "2.prems"(1) by (auto simp: bt_get_None_iff)
  with 2 show ?case by (auto split: if_splits)
qed simp

end
