(* ===== verification/Dormant.thy ===== *)
theory Dormant
  imports Clearing_Types Ordered_Map
begin

text \<open>
  The per-direction store of dormant buckets of \<open>crates/clearing-core/src/dormant.rs\<close>:
  buckets keyed by price tick, the append-only ledger of distribution events with its
  garbage-collection offset, and the operations on them. This theory holds the definitions;
  their correctness is in \<open>Dormant_Facts\<close> (replay), \<open>Dormant_Invariant\<close>
  (well-formedness), \<open>Dormant_Distribute\<close> and \<open>Dormant_Commit\<close> (the two
  distribution paths), \<open>Dormant_Check\<close> (the structural checks) and \<open>Dormant_Shares\<close>.

  A \<open>&mut self\<close> method takes the store and returns the new one; on an error no store is
  returned, because every caller of the repository (the Solana runtime, the harness, the
  chain mirror) discards the mutated one.
\<close>

section \<open>State\<close>

record dormant_bucket =
  bucket_direction :: direction
  zero_price_tick :: i64
  anchor_price :: u64
  total_recovery_shares :: u128
  total_recovery_notional :: u128
  accrued_value :: u128
  position_count :: u64
  last_applied_index :: u64

record dist_entry =
  event_index :: u64
  p_at_event :: u64
  total_outstanding_at_event :: u128
  total_alloc_input :: u128
  allocated_sum_observed :: u128

record dormant_store =
  store_direction :: direction
  buckets :: "(i64, dormant_bucket) btree"
  accrued_value_total :: u128
  ledger :: "dist_entry list"
  ledger_gc_offset :: u64
  next_event_index :: u64
  pending_distribution_total :: u128

record distribution_receipt =
  allocated :: u128
  residual :: u128

record redeem_receipt =
  redeemable :: u128
  burned_shares :: u128
  burned_notional :: u128

definition new_store :: "direction \<Rightarrow> dormant_store" where
  "new_store d = \<lparr>store_direction = d, buckets = bt_empty, accrued_value_total = 0, ledger = [],
     ledger_gc_offset = 0, next_event_index = 0, pending_distribution_total = 0\<rparr>"

definition ledger_len :: "dormant_store \<Rightarrow> nat" where
  "ledger_len st = length (ledger st)"

definition bucket_count :: "dormant_store \<Rightarrow> u32" where
  "bucket_count st = length (buckets st) mod 2 ^ 32"

definition get_bucket :: "dormant_store \<Rightarrow> i64 \<Rightarrow> dormant_bucket option" where
  "get_bucket st tick = bt_get (buckets st) tick"

definition bucket_ticks :: "dormant_store \<Rightarrow> i64 list" where
  "bucket_ticks st = map fst (buckets st)"

text \<open>The code sums with \<open>Iterator::sum\<close>, which panics past 128 bits.\<close>

definition total_shares_of :: "dormant_store \<Rightarrow> u128 clearing" where
  "total_shares_of st =
     fold_res (\<lambda>(k, b) t. plus_w 128 t (total_recovery_shares b)) (buckets st) 0"

section \<open>Claims of a bucket\<close>

definition intrinsic_claim_at :: "dormant_bucket \<Rightarrow> u64 \<Rightarrow> u128 clearing" where
  "intrinsic_claim_at b p_now =
     (if anchor_price b = 0 \<or> total_recovery_notional b = 0 then Ok 0
      else case bucket_direction b of
        Long \<Rightarrow>
          if p_now \<le> anchor_price b then Ok 0
          else mdf_c (total_recovery_notional b) (p_now - anchor_price b) (anchor_price b)
      | Short \<Rightarrow>
          if anchor_price b \<le> p_now then Ok 0
          else mdf_c (total_recovery_notional b) (anchor_price b - p_now) (anchor_price b))"

definition outstanding_claim_at :: "dormant_bucket \<Rightarrow> u64 \<Rightarrow> u128 clearing" where
  "outstanding_claim_at b p_now =
     and_then (intrinsic_claim_at b p_now) (\<lambda>intrinsic. Ok (intrinsic - accrued_value b))"

definition compute_intrinsic :: "direction \<Rightarrow> dormant_bucket \<Rightarrow> u64 \<Rightarrow> u128 clearing" where
  "compute_intrinsic d b p_now =
     (if anchor_price b = 0 \<or> total_recovery_notional b = 0 then Ok 0
      else case d of
        Long \<Rightarrow>
          if p_now \<le> anchor_price b then Ok 0
          else mdf_c (total_recovery_notional b) (p_now - anchor_price b) (anchor_price b)
      | Short \<Rightarrow>
          if anchor_price b \<le> p_now then Ok 0
          else mdf_c (total_recovery_notional b) (anchor_price b - p_now) (anchor_price b))"

text \<open>A long bucket is activated above its anchor, a short one below.\<close>

definition activated :: "direction \<Rightarrow> u64 \<Rightarrow> dormant_bucket \<Rightarrow> bool" where
  "activated d p b = (case d of Long \<Rightarrow> anchor_price b < p | Short \<Rightarrow> p < anchor_price b)"

definition activated_buckets :: "dormant_store \<Rightarrow> u64 \<Rightarrow> dormant_bucket list" where
  "activated_buckets st p_now =
     filter (activated (store_direction st) p_now) (map snd (buckets st))"

definition activated_keys :: "dormant_store \<Rightarrow> u64 \<Rightarrow> i64 list" where
  "activated_keys st p_now =
     map fst (filter (\<lambda>(k, b). activated (store_direction st) p_now b) (buckets st))"

definition total_outstanding_claim_at :: "dormant_store \<Rightarrow> u64 \<Rightarrow> u128 clearing" where
  "total_outstanding_claim_at st p_now =
     fold_res (\<lambda>b total. and_then (outstanding_claim_at b p_now) (\<lambda>q. add_c total q))
       (activated_buckets st p_now) 0"

section \<open>Replay of pending ledger entries\<close>

text \<open>
  What one ledger entry credits to a bucket: the body of the loop between the skip of an
  empty entry and the bump of \<open>last_applied_index\<close>. The state is the bucket and the net
  credit so far.
\<close>

definition replay_credit ::
  "direction \<Rightarrow> dist_entry \<Rightarrow> dormant_bucket \<times> u128 \<Rightarrow> (dormant_bucket \<times> u128) clearing" where
  "replay_credit d e s = (let (b, delta) = s in
     if activated d (p_at_event e) b \<and> total_recovery_notional b > 0 \<and> anchor_price b > 0 then
       and_then (compute_intrinsic d b (p_at_event e)) (\<lambda>intrinsic.
       let outstanding = intrinsic - accrued_value b in
       if outstanding > 0 then
         and_then (mdf_c (total_alloc_input e) outstanding (total_outstanding_at_event e)) (\<lambda>q.
         let share = min q outstanding in
         if share > 0 then
           and_then (add_c (accrued_value b) share) (\<lambda>acc.
           and_then (add_c delta share) (\<lambda>delta'.
           Ok (b\<lparr>accrued_value := acc\<rparr>, delta')))
         else Ok (b, delta))
       else Ok (b, delta))
     else Ok (b, delta))"

definition replay_entry ::
  "direction \<Rightarrow> dist_entry \<Rightarrow> dormant_bucket \<times> u128 \<times> u64
   \<Rightarrow> (dormant_bucket \<times> u128 \<times> u64) clearing" where
  "replay_entry d e s = (let (b, delta, applied) = s in
     and_then (if total_outstanding_at_event e = 0 then Ok (b, delta)
               else replay_credit d e (b, delta)) (\<lambda>(b', delta').
     and_then (plus_w 64 (event_index e) 1) (\<lambda>li.
     and_then (plus_w 64 applied 1) (\<lambda>applied'.
     Ok (b'\<lparr>last_applied_index := li\<rparr>, delta', applied')))))"

definition gc_window_error :: clearing_error where
  "gc_window_error = Invariant ''bucket.last_applied_index points into a GC'd ledger window''"

text \<open>The ledger slice from an absolute index, which panics past the end.\<close>

definition ledger_from :: "dormant_store \<Rightarrow> u64 \<Rightarrow> dist_entry list clearing" where
  "ledger_from st li =
     (if length (ledger st) < li - ledger_gc_offset st then Panic ''range start index out of range''
      else Ok (drop (li - ledger_gc_offset st) (ledger st)))"

definition apply_pending_to_bucket ::
  "i64 \<Rightarrow> dormant_store \<Rightarrow> (dormant_store \<times> u64) clearing" where
  "apply_pending_to_bucket tick st =
     (case bt_get (buckets st) tick of
        None \<Rightarrow> Ok (st, 0)
      | Some b \<Rightarrow>
          if next_event_index st \<le> last_applied_index b then Ok (st, 0)
          else if last_applied_index b < ledger_gc_offset st then Err gc_window_error
          else
            and_then (ledger_from st (last_applied_index b)) (\<lambda>entries.
            and_then (fold_res (replay_entry (store_direction st)) entries (b, 0, 0))
              (\<lambda>(b', delta, applied).
            let st' = st\<lparr>buckets := bt_put tick b' (buckets st)\<rparr> in
            if delta > 0 then
              and_then (add_c (accrued_value_total st) delta) (\<lambda>total.
              Ok (st'\<lparr>accrued_value_total := total,
                      pending_distribution_total := pending_distribution_total st - delta\<rparr>,
                  applied))
            else Ok (st', applied))))"

definition apply_pending_to_all :: "dormant_store \<Rightarrow> (dormant_store \<times> u64) clearing" where
  "apply_pending_to_all st =
     fold_res (\<lambda>tick (st, total).
       and_then (apply_pending_to_bucket tick st) (\<lambda>(st', n).
       and_then (plus_w 64 total n) (\<lambda>total'. Ok (st', total'))))
     (bucket_ticks st) (st, 0)"

text \<open>The pure-read prediction: the same walk on a simulated \<open>accrued_value\<close>.\<close>

definition pending_entry ::
  "direction \<Rightarrow> dormant_bucket \<Rightarrow> dist_entry \<Rightarrow> u128 \<times> u128 \<Rightarrow> (u128 \<times> u128) clearing" where
  "pending_entry d b e s = (let (sim_accrued, delta) = s in
     if total_outstanding_at_event e = 0 then Ok (sim_accrued, delta)
     else if \<not> activated d (p_at_event e) b \<or> total_recovery_notional b = 0 \<or> anchor_price b = 0
     then Ok (sim_accrued, delta)
     else
       and_then (compute_intrinsic d b (p_at_event e)) (\<lambda>intrinsic.
       let outstanding = intrinsic - sim_accrued in
       if outstanding = 0 then Ok (sim_accrued, delta)
       else
         and_then (mdf_c (total_alloc_input e) outstanding (total_outstanding_at_event e)) (\<lambda>q.
         let share = min q outstanding in
         if share = 0 then Ok (sim_accrued, delta)
         else
           and_then (add_c sim_accrued share) (\<lambda>acc.
           and_then (add_c delta share) (\<lambda>delta'. Ok (acc, delta'))))))"

definition pending_for_bucket :: "dormant_store \<Rightarrow> i64 \<Rightarrow> u128 clearing" where
  "pending_for_bucket st tick =
     (case bt_get (buckets st) tick of
        None \<Rightarrow> Ok 0
      | Some b \<Rightarrow>
          if next_event_index st \<le> last_applied_index b then Ok 0
          else if last_applied_index b < ledger_gc_offset st then Err gc_window_error
          else
            and_then (ledger_from st (last_applied_index b)) (\<lambda>entries.
            and_then (fold_res (pending_entry (store_direction st) b) entries (accrued_value b, 0))
              (\<lambda>(sim, delta). Ok delta)))"

section \<open>Compaction\<close>

definition compact_ledger :: "dormant_store \<Rightarrow> dormant_store \<times> nat" where
  "compact_ledger st =
     (let indices = map (\<lambda>(k, b). last_applied_index b) (buckets st);
          watermark = (if indices = [] then next_event_index st else Min (set indices))
      in if watermark \<le> ledger_gc_offset st then (st, 0)
         else let n = min (watermark - ledger_gc_offset st) (length (ledger st))
              in (st\<lparr>ledger := drop n (ledger st),
                     ledger_gc_offset := ledger_gc_offset st + n\<rparr>, n))"

text \<open>Back-pressure before an append: compact only when the ring is full.\<close>

definition ensure_ledger_capacity :: "u32 \<Rightarrow> dormant_store \<Rightarrow> dormant_store clearing" where
  "ensure_ledger_capacity max_ledger_size st =
     (if max_ledger_size \<le> length (ledger st) then
        let st' = fst (compact_ledger st) in
        if max_ledger_size \<le> length (ledger st') then Err LedgerCapacityExceeded else Ok st'
      else Ok st)"

section \<open>Inserting and merging buckets\<close>

definition merge_bucket ::
  "u128 \<Rightarrow> u128 \<Rightarrow> u64 \<Rightarrow> dormant_bucket \<Rightarrow> dormant_bucket clearing" where
  "merge_bucket added_shares added_notional added_position_count b =
     and_then (add_c (total_recovery_shares b) added_shares) (\<lambda>shares.
     and_then (add_c (total_recovery_notional b) added_notional) (\<lambda>notion.
     and_then (ok_or (checked_add_w 64 (position_count b) added_position_count) MathOverflow)
       (\<lambda>count.
     Ok (b\<lparr>total_recovery_shares := shares, total_recovery_notional := notion,
           position_count := count\<rparr>))))"

definition insert_or_merge ::
  "i64 \<Rightarrow> u64 \<Rightarrow> u128 \<Rightarrow> u128 \<Rightarrow> u64 \<Rightarrow> u32 \<Rightarrow> dormant_store \<Rightarrow> dormant_store clearing" where
  "insert_or_merge tick anchor added_shares added_notional added_position_count
     max_bucket_count st =
     (if bt_get (buckets st) tick \<noteq> None then
        and_then (apply_pending_to_bucket tick st) (\<lambda>(st', _).
        and_then (expect (bt_get (buckets st') tick) ''just checked'') (\<lambda>b.
        and_then (merge_bucket added_shares added_notional added_position_count b) (\<lambda>b'.
        Ok (st'\<lparr>buckets := bt_put tick b' (buckets st')\<rparr>))))
      else if max_bucket_count \<le> bucket_count st then Err DormantBucketCapExceeded
      else
        Ok (st\<lparr>buckets := bt_put tick
              \<lparr>bucket_direction = store_direction st, zero_price_tick = tick,
               anchor_price = anchor, total_recovery_shares = added_shares,
               total_recovery_notional = added_notional, accrued_value = 0,
               position_count = added_position_count,
               last_applied_index = next_event_index st\<rparr> (buckets st)\<rparr>))"

section \<open>Distribution\<close>

text \<open>Draining pending shares of the activated buckets, before anything is computed.\<close>

definition drain_keys :: "i64 list \<Rightarrow> dormant_store \<Rightarrow> dormant_store clearing" where
  "drain_keys keys st =
     fold_res (\<lambda>k st. and_then (apply_pending_to_bucket k st) (\<lambda>(st', _). Ok st')) keys st"

definition sum_outstanding :: "u64 \<Rightarrow> i64 list \<Rightarrow> dormant_store \<Rightarrow> u128 clearing" where
  "sum_outstanding p_now keys st =
     fold_res (\<lambda>k total.
       and_then (expect (bt_get (buckets st) k) ''key from iter'') (\<lambda>b.
       and_then (outstanding_claim_at b p_now) (\<lambda>q. add_c total q))) keys 0"

text \<open>
  The eager loop over the activated buckets: each receives its floored share, capped at its
  outstanding claim, and its \<open>last_applied_index\<close> moves past the event. The state is the
  bucket map and the sum allocated so far.
\<close>

definition eager_step ::
  "u64 \<Rightarrow> u128 \<Rightarrow> u128 \<Rightarrow> u64 \<Rightarrow> i64 \<Rightarrow> (i64, dormant_bucket) btree \<times> u128
   \<Rightarrow> ((i64, dormant_bucket) btree \<times> u128) clearing" where
  "eager_step p_now total_alloc total_outstanding event_idx k s = (let (bs, so_far) = s in
     and_then (expect (bt_get bs k) ''key from iter'') (\<lambda>b.
     and_then (outstanding_claim_at b p_now) (\<lambda>outstanding.
     if outstanding = 0 then
       and_then (plus_w 64 event_idx 1) (\<lambda>li.
       Ok (bt_put k (b\<lparr>last_applied_index := li\<rparr>) bs, so_far))
     else
       and_then (mdf_c total_alloc outstanding total_outstanding) (\<lambda>q.
       let share = min q outstanding in
       and_then (if share \<noteq> 0 then
                   and_then (add_c (accrued_value b) share) (\<lambda>acc.
                   and_then (add_c so_far share) (\<lambda>so_far'. Ok (b\<lparr>accrued_value := acc\<rparr>, so_far')))
                 else Ok (b, so_far)) (\<lambda>(b', so_far').
       and_then (plus_w 64 event_idx 1) (\<lambda>li.
       Ok (bt_put k (b'\<lparr>last_applied_index := li\<rparr>) bs, so_far')))))))"

definition distribute ::
  "u64 \<Rightarrow> u128 \<Rightarrow> u32 \<Rightarrow> dormant_store \<Rightarrow> (dormant_store \<times> distribution_receipt) clearing" where
  "distribute p_now total_alloc max_ledger_size st =
     (if total_alloc = 0 then Ok (st, \<lparr>allocated = 0, residual = 0\<rparr>)
      else
        let keys = activated_keys st p_now in
        and_then (ensure_ledger_capacity max_ledger_size st) (\<lambda>st1.
        and_then (drain_keys keys st1) (\<lambda>st2.
        and_then (sum_outstanding p_now keys st2) (\<lambda>total_outstanding.
        if total_outstanding = 0 then Ok (st2, \<lparr>allocated = 0, residual = total_alloc\<rparr>)
        else
          and_then (fold_res (eager_step p_now total_alloc total_outstanding (next_event_index st2))
                      keys (buckets st2, 0)) (\<lambda>(bs, allocated_sum).
          and_then (add_c (accrued_value_total st2) allocated_sum) (\<lambda>total.
          and_then (sub_c total_alloc allocated_sum) (\<lambda>res.
          and_then (ok_or (checked_add_w 64 (next_event_index st2) 1) MathOverflow) (\<lambda>next.
          Ok (st2\<lparr>buckets := bs, accrued_value_total := total,
                  ledger := ledger st2 @
                    [\<lparr>event_index = next_event_index st2, p_at_event = p_now,
                      total_outstanding_at_event = total_outstanding,
                      total_alloc_input = total_alloc,
                      allocated_sum_observed = allocated_sum\<rparr>],
                  next_event_index := next\<rparr>,
              \<lparr>allocated = allocated_sum, residual = res\<rparr>)))))))))"

text \<open>
  The lazy path computes the same shares but records only the ledger entry. In the code the
  drain of each activated bucket and the sum of outstanding claims are one loop.
\<close>

definition lazy_outstanding_step ::
  "u64 \<Rightarrow> i64 \<Rightarrow> dormant_store \<times> u128 \<Rightarrow> (dormant_store \<times> u128) clearing" where
  "lazy_outstanding_step p_now k s = (let (st, total) = s in
     and_then (apply_pending_to_bucket k st) (\<lambda>(st', _).
     and_then (expect (bt_get (buckets st') k) ''key from iter'') (\<lambda>b.
     and_then (outstanding_claim_at b p_now) (\<lambda>q.
     and_then (add_c total q) (\<lambda>total'. Ok (st', total'))))))"

definition lazy_share_step ::
  "u64 \<Rightarrow> u128 \<Rightarrow> u128 \<Rightarrow> dormant_store \<Rightarrow> i64 \<Rightarrow> u128 \<Rightarrow> u128 clearing" where
  "lazy_share_step p_now total_alloc total_outstanding st k so_far =
     and_then (expect (bt_get (buckets st) k) ''key from iter'') (\<lambda>b.
     and_then (outstanding_claim_at b p_now) (\<lambda>outstanding.
     if outstanding = 0 then Ok so_far
     else
       and_then (mdf_c total_alloc outstanding total_outstanding) (\<lambda>q.
       add_c so_far (min q outstanding))))"

definition distribute_lazy ::
  "u64 \<Rightarrow> u128 \<Rightarrow> u32 \<Rightarrow> dormant_store \<Rightarrow> (dormant_store \<times> distribution_receipt) clearing" where
  "distribute_lazy p_now total_alloc max_ledger_size st =
     (if total_alloc = 0 then Ok (st, \<lparr>allocated = 0, residual = 0\<rparr>)
      else
        and_then (ensure_ledger_capacity max_ledger_size st) (\<lambda>st1.
        let keys = activated_keys st1 p_now in
        and_then (fold_res (lazy_outstanding_step p_now) keys (st1, 0)) (\<lambda>(st2, total_outstanding).
        if total_outstanding = 0 then Ok (st2, \<lparr>allocated = 0, residual = total_alloc\<rparr>)
        else
          and_then (fold_res (lazy_share_step p_now total_alloc total_outstanding st2) keys 0)
            (\<lambda>allocated_sum.
          and_then (sub_c total_alloc allocated_sum) (\<lambda>res.
          and_then (ok_or (checked_add_w 64 (next_event_index st2) 1) MathOverflow) (\<lambda>next.
          and_then (add_c (pending_distribution_total st2) allocated_sum) (\<lambda>pend.
          Ok (st2\<lparr>ledger := ledger st2 @
                    [\<lparr>event_index = next_event_index st2, p_at_event = p_now,
                      total_outstanding_at_event = total_outstanding,
                      total_alloc_input = total_alloc,
                      allocated_sum_observed = allocated_sum\<rparr>],
                  next_event_index := next, pending_distribution_total := pend\<rparr>,
              \<lparr>allocated = allocated_sum, residual = res\<rparr>))))))))"

section \<open>Redemption\<close>

definition redeem ::
  "i64 \<Rightarrow> u128 \<Rightarrow> dormant_store \<Rightarrow> (dormant_store \<times> redeem_receipt) clearing" where
  "redeem tick shares_to_burn st =
     and_then (apply_pending_to_bucket tick st) (\<lambda>(st1, _).
     and_then (ok_or (bt_get (buckets st1) tick) (Invariant ''redeem from missing bucket'')) (\<lambda>b.
     if shares_to_burn = 0 then
       Ok (st1, \<lparr>redeemable = 0, burned_shares = 0, burned_notional = 0\<rparr>)
     else if total_recovery_shares b < shares_to_burn then
       Err (Invariant ''redeem shares exceed bucket total'')
     else
       and_then (mdf_c (accrued_value b) shares_to_burn (total_recovery_shares b)) (\<lambda>value.
       and_then (mdf_c (total_recovery_notional b) shares_to_burn (total_recovery_shares b))
         (\<lambda>notional_share.
       and_then (sub_c (accrued_value b) value) (\<lambda>acc.
       and_then (sub_c (total_recovery_shares b) shares_to_burn) (\<lambda>shares.
       and_then (sub_c (total_recovery_notional b) notional_share) (\<lambda>notion.
       let b' = b\<lparr>accrued_value := acc, total_recovery_shares := shares,
                  total_recovery_notional := notion, position_count := position_count b - 1\<rparr>;
           bs = (if shares = 0 \<and> acc = 0 then bt_del tick (buckets st1)
                 else bt_put tick b' (buckets st1)) in
       and_then (sub_c (accrued_value_total st1) value) (\<lambda>total.
       Ok (st1\<lparr>buckets := bs, accrued_value_total := total\<rparr>,
           \<lparr>redeemable = value, burned_shares = shares_to_burn,
            burned_notional = notional_share\<rparr>)))))))))"

section \<open>Structural checks\<close>

definition check_bucket_indices ::
  "dormant_store \<Rightarrow> dormant_bucket \<Rightarrow> u128 \<Rightarrow> u128 clearing" where
  "check_bucket_indices st b sum_accrued =
     and_then (add_c sum_accrued (accrued_value b)) (\<lambda>so_far'.
     if next_event_index st < last_applied_index b then
       Err (Invariant ''bucket.last_applied_index ahead of ledger'')
     else if last_applied_index b < ledger_gc_offset st then
       Err (Invariant ''bucket.last_applied_index inside GC'd window'')
     else Ok so_far')"

definition sum_allocated :: "dist_entry list \<Rightarrow> u128 clearing" where
  "sum_allocated es = fold_res (\<lambda>e s. add_c s (allocated_sum_observed e)) es 0"

definition check_store_invariants :: "dormant_store \<Rightarrow> unit clearing" where
  "check_store_invariants st =
     and_then (fold_res (\<lambda>(k, b). check_bucket_indices st b) (buckets st) 0) (\<lambda>sum_accrued.
     if sum_accrued \<noteq> accrued_value_total st then Err (Invariant ''accrued_value_total drift'')
     else
       and_then (plus_w 64 (ledger_gc_offset st) (length (ledger st))) (\<lambda>head.
       if head \<noteq> next_event_index st then
         Err (Invariant ''ledger_gc_offset + ledger.len() != next_event_index'')
       else
         and_then (sum_allocated (ledger st)) (\<lambda>window.
         if window < pending_distribution_total st then
           Err (Invariant ''pending_distribution_total > sum of allocated_sum_observed in live window'')
         else Ok ())))"

definition admit_bucket ::
  "direction \<Rightarrow> u64 \<Rightarrow> u64 \<Rightarrow> i64 \<times> dormant_bucket \<Rightarrow> (i64, dormant_bucket) btree \<times> u128
   \<Rightarrow> ((i64, dormant_bucket) btree \<times> u128) clearing" where
  "admit_bucket d gc_offset next_index kb s = (let (k, b) = kb; (m, sum_accrued) = s in
     if bucket_direction b \<noteq> d then
       Err (Invariant ''bucket direction does not match store direction'')
     else if last_applied_index b < gc_offset then
       Err (Invariant ''bucket.last_applied_index inside GC'd window'')
     else if next_index < last_applied_index b then
       Err (Invariant ''bucket.last_applied_index ahead of ledger head'')
     else
       and_then (add_c sum_accrued (accrued_value b)) (\<lambda>so_far'.
       if bt_get m k \<noteq> None then Err (Invariant ''duplicate tick in unpack'')
       else Ok (bt_put k b m, so_far')))"

definition from_onchain_parts ::
  "direction \<Rightarrow> (i64 \<times> dormant_bucket) list \<Rightarrow> dist_entry list \<Rightarrow> u64 \<Rightarrow> u64 \<Rightarrow> u128 \<Rightarrow> u128
   \<Rightarrow> dormant_store clearing" where
  "from_onchain_parts d bs es gc_offset next_index accrued_total pending_total =
     and_then (ok_or (checked_add_w 64 gc_offset (length es)) MathOverflow) (\<lambda>computed_next.
     if computed_next \<noteq> next_index then
       Err (Invariant ''next_event_index != ledger_gc_offset + ledger.len()'')
     else
       and_then (fold_res (admit_bucket d gc_offset next_index) bs (bt_empty, 0))
         (\<lambda>(m, sum_accrued).
       if sum_accrued \<noteq> accrued_total then Err (Invariant ''accrued_value_total mismatch'')
       else
         and_then (sum_allocated es) (\<lambda>window.
         if window < pending_total then
           Err (Invariant ''pending_distribution_total exceeds live-window allocated_sum'')
         else
           Ok \<lparr>store_direction = d, buckets = m, accrued_value_total = accrued_total, ledger = es,
               ledger_gc_offset = gc_offset, next_event_index = next_index,
               pending_distribution_total = pending_total\<rparr>)))"

end
