(* ===== verification/Dormant_Facts.thy ===== *)
theory Dormant_Facts
  imports Dormant
begin

text \<open>
  The values the dormant store computes, as plain functions on naturals, and lemmas that
  each successful operation of \<open>Dormant\<close> returns them: what a bucket may claim, what a
  ledger entry credits, what a bucket is still owed by the entries it has not applied, and
  what a caught-up bucket looks like.
\<close>

named_theorems dormant_values "successful operations and the values they return"

section \<open>Claims\<close>

definition gap :: "direction \<Rightarrow> u64 \<Rightarrow> u64 \<Rightarrow> nat" where
  "gap d p a = (case d of Long \<Rightarrow> p - a | Short \<Rightarrow> a - p)"

definition intrinsic_val :: "direction \<Rightarrow> u64 \<Rightarrow> dormant_bucket \<Rightarrow> nat" where
  "intrinsic_val d p b = total_recovery_notional b * gap d p (anchor_price b) div anchor_price b"

definition claim_val :: "direction \<Rightarrow> u64 \<Rightarrow> dormant_bucket \<Rightarrow> nat" where
  "claim_val d p b = intrinsic_val d p b - accrued_value b"

lemma gap_simps [simp]: "gap Long p a = p - a" "gap Short p a = a - p"
  by (simp_all add: gap_def)

lemma gap_zero_iff: "gap d p (anchor_price b) = 0 \<longleftrightarrow> \<not> activated d p b"
  by (cases d) (auto simp: activated_def)

lemma claim_val_not_activated [simp]: "\<not> activated d p b \<Longrightarrow> claim_val d p b = 0"
  using gap_zero_iff [of d p b] by (simp add: claim_val_def intrinsic_val_def)

lemma activated_update [simp]:
  "activated d p (b\<lparr>accrued_value := v\<rparr>) = activated d p b"
  "activated d p (b\<lparr>last_applied_index := i\<rparr>) = activated d p b"
  by (cases d; simp add: activated_def)+

lemma intrinsic_val_update [simp]:
  "intrinsic_val d p (b\<lparr>accrued_value := v\<rparr>) = intrinsic_val d p b"
  "intrinsic_val d p (b\<lparr>last_applied_index := i\<rparr>) = intrinsic_val d p b"
  by (simp_all add: intrinsic_val_def)

lemma claim_val_last_applied [simp]:
  "claim_val d p (b\<lparr>last_applied_index := i\<rparr>) = claim_val d p b"
  by (simp add: claim_val_def)

lemma compute_intrinsic_eq: "bucket_direction b = d \<Longrightarrow> compute_intrinsic d b p = intrinsic_claim_at b p"
  by (simp add: compute_intrinsic_def intrinsic_claim_at_def)

lemma compute_intrinsic_Ok:
  assumes "compute_intrinsic d b p = Inr v" and "anchor_price b < 2 ^ 128"
  shows "v = intrinsic_val d p b"
  using assms
  by (cases d)
    (auto simp: compute_intrinsic_def intrinsic_val_def mul_div_floor_exact split: if_splits)

lemma outstanding_claim_at_Ok [dormant_values]:
  assumes "outstanding_claim_at b p = Inr v" and "anchor_price b < 2 ^ 128"
  shows "v = claim_val (bucket_direction b) p b"
  using assms compute_intrinsic_Ok [of "bucket_direction b" b p]
  by (auto simp: outstanding_claim_at_def compute_intrinsic_eq claim_val_def)

section \<open>Credits\<close>

definition entry_share :: "direction \<Rightarrow> dist_entry \<Rightarrow> dormant_bucket \<Rightarrow> nat" where
  "entry_share d e b =
     (let c = claim_val d (p_at_event e) b
      in min (total_alloc_input e * c div total_outstanding_at_event e) c)"

definition credit :: "direction \<Rightarrow> dist_entry \<Rightarrow> dormant_bucket \<Rightarrow> dormant_bucket" where
  "credit d e b = b\<lparr>accrued_value := accrued_value b + entry_share d e b,
                    last_applied_index := event_index e + 1\<rparr>"

fun owed :: "direction \<Rightarrow> dist_entry list \<Rightarrow> dormant_bucket \<Rightarrow> nat" where
  "owed d [] b = 0"
| "owed d (e # es) b = entry_share d e b + owed d es (credit d e b)"

lemma entry_share_not_activated [simp]:
  "\<not> activated d (p_at_event e) b \<Longrightarrow> entry_share d e b = 0"
  by (simp add: entry_share_def Let_def)

lemma entry_share_update_index [simp]:
  "entry_share d e (b\<lparr>last_applied_index := i\<rparr>) = entry_share d e b"
  by (simp add: entry_share_def)

lemma credit_fields [simp]:
  "bucket_direction (credit d e b) = bucket_direction b"
  "zero_price_tick (credit d e b) = zero_price_tick b"
  "anchor_price (credit d e b) = anchor_price b"
  "total_recovery_shares (credit d e b) = total_recovery_shares b"
  "total_recovery_notional (credit d e b) = total_recovery_notional b"
  "position_count (credit d e b) = position_count b"
  "accrued_value (credit d e b) = accrued_value b + entry_share d e b"
  "last_applied_index (credit d e b) = event_index e + 1"
  "activated d' p (credit d e b) = activated d' p b"
  by (simp_all add: credit_def)

lemma replay_credit_Ok:
  assumes "replay_credit d e (b, delta) = Inr (b', delta')"
    and "anchor_price b < 2 ^ 128" and "0 < total_outstanding_at_event e"
    and "total_outstanding_at_event e < 2 ^ 128"
  shows "b' = b\<lparr>accrued_value := accrued_value b + entry_share d e b\<rparr>"
    and "delta' = delta + entry_share d e b"
proof -
  have inactive: "entry_share d e b = 0"
    if "\<not> (activated d (p_at_event e) b \<and> total_recovery_notional b > 0 \<and> anchor_price b > 0)"
    using that by (auto simp: entry_share_def claim_val_def intrinsic_val_def Let_def
      gap_zero_iff [symmetric])
  have "b' = b\<lparr>accrued_value := accrued_value b + entry_share d e b\<rparr>
      \<and> delta' = delta + entry_share d e b"
  proof (cases "activated d (p_at_event e) b \<and> total_recovery_notional b > 0 \<and> anchor_price b > 0")
    case True
    then obtain v where v: "compute_intrinsic d b (p_at_event e) = Inr v"
      using assms(1) by (auto simp: replay_credit_def)
    then have "v - accrued_value b = claim_val d (p_at_event e) b"
      using compute_intrinsic_Ok assms(2) by (simp add: claim_val_def)
    with True v assms show ?thesis
      by (auto simp: replay_credit_def entry_share_def Let_def mul_div_floor_exact
        split: if_splits)
  next
    case False
    with assms(1) inactive show ?thesis by (simp add: replay_credit_def)
  qed
  then show "b' = b\<lparr>accrued_value := accrued_value b + entry_share d e b\<rparr>"
    and "delta' = delta + entry_share d e b" by simp_all
qed

lemma replay_entry_Ok:
  assumes "replay_entry d e (b, delta, n) = Inr (b', delta', n')"
    and "anchor_price b < 2 ^ 128" and "total_outstanding_at_event e < 2 ^ 128"
  shows "b' = credit d e b" and "delta' = delta + entry_share d e b" and "n' = n + 1"
proof -
  have skip: "entry_share d e b = 0" if "total_outstanding_at_event e = 0"
    using that by (simp add: entry_share_def Let_def)
  from assms(1) obtain c where c: "(if total_outstanding_at_event e = 0 then Ok (b, delta)
      else replay_credit d e (b, delta)) = Inr (c, delta')"
    and b': "b' = c\<lparr>last_applied_index := event_index e + 1\<rparr>" and n': "n' = n + 1"
    by (auto simp: replay_entry_def)
  have "c = b\<lparr>accrued_value := accrued_value b + entry_share d e b\<rparr>
      \<and> delta' = delta + entry_share d e b"
    using c skip replay_credit_Ok [of d e b delta c delta'] assms(2,3) by (auto split: if_splits)
  with b' n' show "b' = credit d e b" "delta' = delta + entry_share d e b" "n' = n + 1"
    by (simp_all add: credit_def)
qed

definition entries_in_range :: "dist_entry list \<Rightarrow> bool" where
  "entries_in_range es \<longleftrightarrow> (\<forall>e\<in>set es. total_outstanding_at_event e < 2 ^ 128)"

lemma entries_in_range_simps [simp]:
  "entries_in_range []"
  "entries_in_range (e # es) \<longleftrightarrow> total_outstanding_at_event e < 2 ^ 128 \<and> entries_in_range es"
  "entries_in_range (es @ fs) \<longleftrightarrow> entries_in_range es \<and> entries_in_range fs"
  by (auto simp: entries_in_range_def)

lemma entries_in_range_drop [simp]: "entries_in_range es \<Longrightarrow> entries_in_range (drop n es)"
  by (auto simp: entries_in_range_def dest: in_set_dropD)

lemma replay_entries_Ok:
  assumes "fold_res (replay_entry d) es (b, delta, n) = Inr (b', delta', n')"
    and "anchor_price b < 2 ^ 128" and "entries_in_range es"
  shows "b' = fold (credit d) es b \<and> delta' = delta + owed d es b \<and> n' = n + length es"
  using assms
proof (induction es arbitrary: b delta n)
  case (Cons e es)
  from Cons.prems(1) obtain c dc nc where step: "replay_entry d e (b, delta, n) = Inr (c, dc, nc)"
    and rest: "fold_res (replay_entry d) es (c, dc, nc) = Inr (b', delta', n')" by auto
  from replay_entry_Ok [OF step] Cons.prems
  have "c = credit d e b" "dc = delta + entry_share d e b" "nc = n + 1" by simp_all
  with Cons.IH [OF rest] Cons.prems show ?case by simp
qed simp

lemma fold_credit_fields [simp]:
  "bucket_direction (fold (credit d) es b) = bucket_direction b"
  "zero_price_tick (fold (credit d) es b) = zero_price_tick b"
  "anchor_price (fold (credit d) es b) = anchor_price b"
  "total_recovery_shares (fold (credit d) es b) = total_recovery_shares b"
  "total_recovery_notional (fold (credit d) es b) = total_recovery_notional b"
  "position_count (fold (credit d) es b) = position_count b"
  "activated d' p (fold (credit d) es b) = activated d' p b"
  by (induction es arbitrary: b) simp_all

lemma accrued_fold_credit [simp]:
  "accrued_value (fold (credit d) es b) = accrued_value b + owed d es b"
  by (induction es arbitrary: b) simp_all

lemma index_fold_credit:
  "last_applied_index (fold (credit d) es b)
   = (if es = [] then last_applied_index b else event_index (last es) + 1)"
  by (induction es arbitrary: b) simp_all

lemma owed_append: "owed d (es @ fs) b = owed d es b + owed d fs (fold (credit d) es b)"
  by (induction es arbitrary: b) simp_all

section \<open>Settled buckets\<close>

text \<open>The entries a bucket has not applied yet, what they owe it, and the bucket after them.\<close>

definition unapplied :: "dormant_store \<Rightarrow> dormant_bucket \<Rightarrow> dist_entry list" where
  "unapplied st b = drop (last_applied_index b - ledger_gc_offset st) (ledger st)"

definition owed_to :: "dormant_store \<Rightarrow> dormant_bucket \<Rightarrow> nat" where
  "owed_to st b = owed (store_direction st) (unapplied st b) b"

definition caught_up :: "dormant_store \<Rightarrow> dormant_bucket \<Rightarrow> dormant_bucket" where
  "caught_up st b = fold (credit (store_direction st)) (unapplied st b) b"

definition settle :: "i64 \<Rightarrow> dormant_bucket \<Rightarrow> dormant_store \<Rightarrow> dormant_store" where
  "settle k b st = st\<lparr>buckets := bt_put k (caught_up st b) (buckets st),
     accrued_value_total := accrued_value_total st + owed_to st b,
     pending_distribution_total := pending_distribution_total st - owed_to st b\<rparr>"

lemma caught_up_fields [simp]:
  "bucket_direction (caught_up st b) = bucket_direction b"
  "zero_price_tick (caught_up st b) = zero_price_tick b"
  "anchor_price (caught_up st b) = anchor_price b"
  "total_recovery_shares (caught_up st b) = total_recovery_shares b"
  "total_recovery_notional (caught_up st b) = total_recovery_notional b"
  "position_count (caught_up st b) = position_count b"
  "activated d p (caught_up st b) = activated d p b"
  "accrued_value (caught_up st b) = accrued_value b + owed_to st b"
  by (simp_all add: caught_up_def owed_to_def)

lemma settle_fields [simp]:
  "store_direction (settle k b st) = store_direction st"
  "ledger (settle k b st) = ledger st"
  "ledger_gc_offset (settle k b st) = ledger_gc_offset st"
  "next_event_index (settle k b st) = next_event_index st"
  "buckets (settle k b st) = bt_put k (caught_up st b) (buckets st)"
  "accrued_value_total (settle k b st) = accrued_value_total st + owed_to st b"
  "pending_distribution_total (settle k b st) = pending_distribution_total st - owed_to st b"
  by (simp_all add: settle_def)

text \<open>What a bucket is owed depends on the ledger side of the store only.\<close>

lemma owed_to_cong:
  assumes "store_direction st = store_direction st'" and "ledger st = ledger st'"
    and "ledger_gc_offset st = ledger_gc_offset st'"
  shows "owed_to st b = owed_to st' b"
  using assms by (simp add: owed_to_def unapplied_def)

end
