(* ===== verification/Dormant_Invariant.thy ===== *)
theory Dormant_Invariant
  imports Dormant_Facts
begin

text \<open>
  The well-formedness of a dormant store and its preservation by catching up a bucket, by
  compaction, by insertion and by redemption. Beyond the structural facts the code checks
  at run time (\<open>DormantStore::check_invariants\<close>) it states the exact balance the source
  only documents: \<open>pending_distribution_total\<close> is the sum, over the live buckets, of what
  each is still owed by the ledger entries it has not applied.
\<close>

section \<open>Well-formed stores\<close>

definition bucket_ok :: "dormant_store \<Rightarrow> i64 \<Rightarrow> dormant_bucket \<Rightarrow> bool" where
  "bucket_ok st k b \<longleftrightarrow>
     bucket_direction b = store_direction st \<and> zero_price_tick b = k
     \<and> ledger_gc_offset st \<le> last_applied_index b \<and> last_applied_index b \<le> next_event_index st
     \<and> anchor_price b < 2 ^ 64 \<and> total_recovery_shares b < 2 ^ 128
     \<and> total_recovery_notional b < 2 ^ 128 \<and> position_count b < 2 ^ 64"

definition window_ok :: "dormant_store \<Rightarrow> bool" where
  "window_ok st \<longleftrightarrow>
     ledger_gc_offset st \<le> next_event_index st \<and> next_event_index st < 2 ^ 64
     \<and> map event_index (ledger st) = [ledger_gc_offset st ..< next_event_index st]
     \<and> entries_in_range (ledger st)"

definition total_accrued :: "dormant_store \<Rightarrow> nat" where
  "total_accrued st = (\<Sum>(k, b)\<leftarrow>buckets st. accrued_value b)"

definition total_owed :: "dormant_store \<Rightarrow> nat" where
  "total_owed st = (\<Sum>(k, b)\<leftarrow>buckets st. owed_to st b)"

definition total_shares :: "dormant_store \<Rightarrow> nat" where
  "total_shares st = (\<Sum>(k, b)\<leftarrow>buckets st. total_recovery_shares b)"

definition store_wf :: "dormant_store \<Rightarrow> bool" where
  "store_wf st \<longleftrightarrow>
     bt_wf (buckets st) \<and> (\<forall>(k, b)\<in>set (buckets st). bucket_ok st k b) \<and> window_ok st
     \<and> accrued_value_total st = total_accrued st \<and> accrued_value_total st < 2 ^ 128
     \<and> pending_distribution_total st = total_owed st \<and> pending_distribution_total st < 2 ^ 128"

text \<open>The funds the store holds for its buckets, attributed or in flight.\<close>

definition store_funds :: "dormant_store \<Rightarrow> nat" where
  "store_funds st = accrued_value_total st + pending_distribution_total st"

lemma store_wfD:
  assumes "store_wf st"
  shows "bt_wf (buckets st)" and "window_ok st"
    and "accrued_value_total st = total_accrued st" and "accrued_value_total st < 2 ^ 128"
    and "pending_distribution_total st = total_owed st"
    and "pending_distribution_total st < 2 ^ 128"
  using assms by (simp_all add: store_wf_def)

lemma store_wf_bucket:
  assumes "store_wf st" and "bt_get (buckets st) k = Some b"
  shows "bucket_ok st k b"
proof -
  have "(k, b) \<in> set (buckets st)"
    using assms bt.in_entries_iff [of "buckets st" k b] by (simp add: store_wf_def)
  with assms(1) show ?thesis by (auto simp: store_wf_def)
qed

text \<open>Well-formedness over the lookup function, the form the preservation proofs establish.\<close>

lemma store_wfI:
  assumes "bt_wf (buckets st)" and "window_ok st"
    and "\<And>k b. bt_get (buckets st) k = Some b \<Longrightarrow> bucket_ok st k b"
    and "accrued_value_total st = total_accrued st" and "accrued_value_total st < 2 ^ 128"
    and "pending_distribution_total st = total_owed st"
    and "pending_distribution_total st < 2 ^ 128"
  shows "store_wf st"
proof -
  have "bucket_ok st k b" if "(k, b) \<in> set (buckets st)" for k b
    using that assms(1,3) bt.in_entries_iff [of "buckets st" k b] by simp
  with assms show ?thesis by (auto simp: store_wf_def)
qed

lemma new_store_wf: "store_wf (new_store d)"
  by (rule store_wfI)
    (simp_all add: new_store_def bt_empty_def window_ok_def total_accrued_def total_owed_def)

lemma window_length: "window_ok st \<Longrightarrow> length (ledger st) = next_event_index st - ledger_gc_offset st"
  unfolding window_ok_def by (metis length_map length_upt)

lemma owed_le_pending:
  assumes "store_wf st" and "bt_get (buckets st) k = Some b"
  shows "owed_to st b \<le> pending_distribution_total st"
  using bt.entry_le_total [of "buckets st" k b "\<lambda>k. owed_to st"] assms
  by (simp add: store_wf_def total_owed_def)

lemma accrued_le_total:
  assumes "store_wf st" and "bt_get (buckets st) k = Some b"
  shows "accrued_value b \<le> accrued_value_total st"
  using bt.entry_le_total [of "buckets st" k b "\<lambda>k. accrued_value"] assms
  by (simp add: store_wf_def total_accrued_def)

lemma shares_le_total:
  assumes "store_wf st" and "bt_get (buckets st) k = Some b"
  shows "total_recovery_shares b \<le> total_shares st"
  using bt.entry_le_total [of "buckets st" k b "\<lambda>k. total_recovery_shares"] assms
  by (simp add: store_wf_def total_shares_def)

section \<open>Buckets that have applied everything\<close>

lemma owed_to_current [simp]:
  assumes "window_ok st" and "last_applied_index b = next_event_index st"
  shows "owed_to st b = 0" and "caught_up st b = b"
  using assms window_length [OF assms(1)] by (simp_all add: owed_to_def caught_up_def unapplied_def)

lemma caught_up_index:
  assumes "window_ok st" and "ledger_gc_offset st \<le> last_applied_index b"
    and "last_applied_index b \<le> next_event_index st"
  shows "last_applied_index (caught_up st b) = next_event_index st"
proof (cases "last_applied_index b = next_event_index st")
  case True
  with assms(1) show ?thesis by simp
next
  case False
  let ?n = "last_applied_index b - ledger_gc_offset st"
  have lt: "last_applied_index b < next_event_index st" using False assms(3) by simp
  have idx: "map event_index (unapplied st b) = [last_applied_index b ..< next_event_index st]"
    using assms lt by (simp add: unapplied_def window_ok_def drop_map [symmetric])
  then have "length (unapplied st b) = next_event_index st - last_applied_index b"
    by (metis length_map length_upt)
  then have ne: "unapplied st b \<noteq> []" using lt by auto
  then have "event_index (last (unapplied st b)) = last [last_applied_index b ..< next_event_index st]"
    using idx last_map [OF ne, of event_index] by simp
  with ne lt show ?thesis by (simp add: caught_up_def index_fold_credit)
qed

lemma bucket_ok_caught_up:
  assumes "window_ok st" and "bucket_ok st k b"
  shows "bucket_ok st k (caught_up st b)"
  using assms caught_up_index [OF assms(1), of b] by (simp add: bucket_ok_def window_ok_def)

section \<open>Catching up a bucket\<close>

lemma settle_totals:
  assumes "store_wf st" and "bt_get (buckets st) k = Some b"
  shows "total_accrued (settle k b st) = total_accrued st + owed_to st b"
    and "total_owed (settle k b st) + owed_to st b = total_owed st"
    and "total_shares (settle k b st) = total_shares st"
proof -
  let ?c = "caught_up st b"
  note wf = store_wfD [OF assms(1)]
  have ok: "bucket_ok st k b" using assms by (rule store_wf_bucket)
  have idx: "last_applied_index ?c = next_event_index st"
    using caught_up_index wf(2) ok by (simp add: bucket_ok_def)
  have owed_c: "owed_to (settle k b st) x = owed_to st x" for x
    by (rule owed_to_cong) simp_all
  show "total_accrued (settle k b st) = total_accrued st + owed_to st b"
    using bt.total_put_old [OF wf(1) assms(2), of "\<lambda>k. accrued_value" ?c]
    by (simp add: total_accrued_def)
  show "total_owed (settle k b st) + owed_to st b = total_owed st"
    using bt.total_put_old [OF wf(1) assms(2), of "\<lambda>k. owed_to st" ?c] idx wf(2)
    by (simp add: total_owed_def owed_c)
  show "total_shares (settle k b st) = total_shares st"
    using bt.total_put_old [OF wf(1) assms(2), of "\<lambda>k. total_recovery_shares" ?c]
    by (simp add: total_shares_def)
qed

lemma settle_get:
  assumes "store_wf st"
  shows "bt_get (buckets (settle k b st)) = (bt_get (buckets st))(k \<mapsto> caught_up st b)"
  using bt_get_put [OF store_wfD(1) [OF assms]] by simp

lemma bucket_ok_cong:
  assumes "store_direction st = store_direction st'"
    and "ledger_gc_offset st = ledger_gc_offset st'" and "next_event_index st = next_event_index st'"
  shows "bucket_ok st k b = bucket_ok st' k b"
  using assms by (simp add: bucket_ok_def)

lemma settle_wf:
  assumes "store_wf st" and "bt_get (buckets st) k = Some b"
    and "accrued_value_total st + owed_to st b < 2 ^ 128"
  shows "store_wf (settle k b st)"
proof (rule store_wfI)
  note wf = store_wfD [OF assms(1)] and totals = settle_totals [OF assms(1,2)]
  show "bt_wf (buckets (settle k b st))" using wf(1) by (simp add: bt_wf_put)
  show "window_ok (settle k b st)" using wf(2) by (simp add: window_ok_def)
  show "accrued_value_total (settle k b st) = total_accrued (settle k b st)"
    using totals wf(3) by simp
  show "accrued_value_total (settle k b st) < 2 ^ 128" using assms(3) by simp
  show "pending_distribution_total (settle k b st) = total_owed (settle k b st)"
    using totals wf(5) by simp
  show "pending_distribution_total (settle k b st) < 2 ^ 128" using wf(6) by simp
  show "bucket_ok (settle k b st) k' b'" if "bt_get (buckets (settle k b st)) k' = Some b'" for k' b'
  proof -
    have "bucket_ok st k' b'"
      using that assms(1,2) bucket_ok_caught_up [OF wf(2) store_wf_bucket [OF assms(1,2)]]
      by (auto simp: settle_get simp del: settle_fields split: if_splits intro: store_wf_bucket)
    then show ?thesis by (simp add: bucket_ok_cong [of "settle k b st" st])
  qed
qed

lemma settle_funds:
  assumes "store_wf st" and "bt_get (buckets st) k = Some b"
  shows "store_funds (settle k b st) = store_funds st"
  using owed_le_pending [OF assms] by (simp add: store_funds_def)

lemma settle_current:
  assumes "store_wf st" and "bt_get (buckets st) k = Some b"
    and "last_applied_index b = next_event_index st"
  shows "settle k b st = st"
  using assms store_wfD [OF assms(1)] by (simp add: settle_def bt_put_same)

text \<open>
  On a well-formed store \<open>apply_pending_to_bucket\<close> settles the bucket: it credits what the
  unapplied entries owe, moves the same amount from the in-flight balance to the accrued
  total, and reports one event per entry.
\<close>

lemma apply_pending_Ok [dormant_values]:
  assumes "store_wf st" and "bt_get (buckets st) k = Some b"
    and "apply_pending_to_bucket k st = Inr (st', n)"
  shows "st' = settle k b st" and "n = next_event_index st - last_applied_index b"
    and "store_wf st'"
proof -
  note wf = store_wfD [OF assms(1)]
  have ok: "bucket_ok st k b" using assms(1,2) by (rule store_wf_bucket)
  have "st' = settle k b st \<and> n = next_event_index st - last_applied_index b
      \<and> accrued_value_total st + owed_to st b < 2 ^ 128"
  proof (cases "next_event_index st \<le> last_applied_index b")
    case True
    then have index: "last_applied_index b = next_event_index st" using ok by (simp add: bucket_ok_def)
    have "st' = st" and "n = 0" using assms(2,3) True by (simp_all add: apply_pending_to_bucket_def)
    with settle_current [OF assms(1,2) index] index wf show ?thesis by simp
  next
    case False
    have len: "length (unapplied st b) = next_event_index st - last_applied_index b"
      using ok by (simp add: unapplied_def window_length [OF wf(2)] bucket_ok_def)
    have slice: "ledger_from st (last_applied_index b) = Inr (unapplied st b)"
      using ok by (auto simp: ledger_from_def unapplied_def window_length [OF wf(2)] bucket_ok_def)
    with False assms(2,3) ok obtain b' delta where
        loop: "fold_res (replay_entry (store_direction st)) (unapplied st b) (b, 0, 0)
               = Inr (b', delta, n)"
      and st': "(if delta > 0 then
              and_then (add_c (accrued_value_total st) delta) (\<lambda>total.
              Ok (st\<lparr>buckets := bt_put k b' (buckets st), accrued_value_total := total,
                      pending_distribution_total := pending_distribution_total st - delta\<rparr>, n))
            else Ok (st\<lparr>buckets := bt_put k b' (buckets st)\<rparr>, n)) = (Inr (st', n) :: _ clearing)"
      by (auto simp: apply_pending_to_bucket_def Let_def bucket_ok_def split: if_splits)
    have "anchor_price b < 2 ^ 128" and "entries_in_range (unapplied st b)"
      using ok wf(2) by (simp_all add: bucket_ok_def window_ok_def unapplied_def)
    from replay_entries_Ok [OF loop this]
    have "b' = caught_up st b" "delta = owed_to st b" "n = length (unapplied st b)"
      by (simp_all add: caught_up_def owed_to_def)
    with st' wf len show ?thesis by (auto simp: settle_def split: if_splits)
  qed
  then show "st' = settle k b st" "n = next_event_index st - last_applied_index b" "store_wf st'"
    using settle_wf [OF assms(1,2)] by simp_all
qed

lemma apply_pending_None:
  assumes "bt_get (buckets st) k = None"
  shows "apply_pending_to_bucket k st = Inr (st, 0)"
  using assms by (simp add: apply_pending_to_bucket_def)

section \<open>Compaction\<close>

lemma compact_ledger_eq:
  assumes "store_wf st"
  obtains n where "fst (compact_ledger st)
      = st\<lparr>ledger := drop n (ledger st), ledger_gc_offset := ledger_gc_offset st + n\<rparr>"
    and "n \<le> length (ledger st)"
    and "\<And>k b. bt_get (buckets st) k = Some b \<Longrightarrow> ledger_gc_offset st + n \<le> last_applied_index b"
proof -
  note wf = store_wfD [OF assms]
  define indices where "indices = map (\<lambda>(k, b). last_applied_index b) (buckets st)"
  define watermark where
    "watermark = (if indices = [] then next_event_index st else Min (set indices))"
  define n where "n = min (watermark - ledger_gc_offset st) (length (ledger st))"
  have member: "last_applied_index b \<in> set indices" if "bt_get (buckets st) k = Some b" for k b
    using that bt.in_entries_iff [OF wf(1), of k b] by (force simp: indices_def)
  have mark: "watermark \<le> last_applied_index b" if "bt_get (buckets st) k = Some b" for k b
    using member [OF that] by (auto simp: watermark_def)
  have low: "ledger_gc_offset st \<le> last_applied_index b" if "bt_get (buckets st) k = Some b" for k b
    using store_wf_bucket [OF assms that] by (simp add: bucket_ok_def)
  show ?thesis
  proof (rule that)
    show "fst (compact_ledger st)
      = st\<lparr>ledger := drop n (ledger st), ledger_gc_offset := ledger_gc_offset st + n\<rparr>"
      unfolding compact_ledger_def Let_def indices_def [symmetric] watermark_def [symmetric]
        n_def [symmetric]
      by (simp add: n_def)
    show "n \<le> length (ledger st)" by (simp add: n_def)
    show "ledger_gc_offset st + n \<le> last_applied_index b"
      if "bt_get (buckets st) k = Some b" for k b
      using mark [OF that] low [OF that] by (simp add: n_def)
  qed
qed

lemma compact_ledger_wf:
  assumes "store_wf st"
  shows "store_wf (fst (compact_ledger st))"
    and "buckets (fst (compact_ledger st)) = buckets st"
    and "store_direction (fst (compact_ledger st)) = store_direction st"
    and "next_event_index (fst (compact_ledger st)) = next_event_index st"
    and "store_funds (fst (compact_ledger st)) = store_funds st"
    and "total_shares (fst (compact_ledger st)) = total_shares st"
proof -
  note wf = store_wfD [OF assms]
  obtain n where eq: "fst (compact_ledger st)
      = st\<lparr>ledger := drop n (ledger st), ledger_gc_offset := ledger_gc_offset st + n\<rparr>"
    and n: "n \<le> length (ledger st)"
    and low: "\<And>k b. bt_get (buckets st) k = Some b \<Longrightarrow> ledger_gc_offset st + n \<le> last_applied_index b"
    using compact_ledger_eq [OF assms] by blast
  let ?st = "st\<lparr>ledger := drop n (ledger st), ledger_gc_offset := ledger_gc_offset st + n\<rparr>"
  have owed: "owed_to ?st b = owed_to st b" if "bt_get (buckets st) k = Some b" for k b
    using drop_drop_shift [OF low [OF that], of "ledger st"]
    by (simp add: owed_to_def unapplied_def)
  have "total_owed ?st = total_owed st"
    using owed by (auto simp: total_owed_def bt.total_eq_sum [OF wf(1), simplified] intro: sum.cong)
  moreover have "window_ok ?st"
    using wf(2) n window_length [OF wf(2)] by (auto simp: window_ok_def drop_map [symmetric])
  ultimately have "store_wf ?st"
    using wf low store_wf_bucket [OF assms]
    by (intro store_wfI) (simp_all add: total_accrued_def bucket_ok_def)
  then show "store_wf (fst (compact_ledger st))" unfolding eq .
  show "buckets (fst (compact_ledger st)) = buckets st"
    and "store_direction (fst (compact_ledger st)) = store_direction st"
    and "next_event_index (fst (compact_ledger st)) = next_event_index st"
    and "store_funds (fst (compact_ledger st)) = store_funds st"
    and "total_shares (fst (compact_ledger st)) = total_shares st"
    unfolding eq by (simp_all add: store_funds_def total_shares_def)
qed

lemma ensure_capacity_Ok:
  assumes "store_wf st" and "ensure_ledger_capacity m st = Inr st'"
  shows "store_wf st'" and "buckets st' = buckets st" and "store_direction st' = store_direction st"
    and "next_event_index st' = next_event_index st" and "store_funds st' = store_funds st"
    and "total_shares st' = total_shares st" and "length (ledger st') < m"
  using assms compact_ledger_wf [OF assms(1)]
  by (auto simp: ensure_ledger_capacity_def Let_def split: if_splits)

section \<open>Rewriting one settled bucket\<close>

text \<open>
  Merging and redeeming change one bucket that has applied every entry. Such a bucket is owed
  nothing before and after, so the in-flight balance stays exact.
\<close>

lemma put_current_wf:
  assumes "store_wf st" and "bt_get (buckets st) k = Some b"
    and "last_applied_index b = next_event_index st"
    and "bucket_ok st k b'" and "last_applied_index b' = next_event_index st"
    and "tot + accrued_value b = accrued_value_total st + accrued_value b'"
    and "tot < 2 ^ 128"
  defines "st' \<equiv> st\<lparr>buckets := bt_put k b' (buckets st), accrued_value_total := tot\<rparr>"
  shows "store_wf st'"
    and "total_shares st' + total_recovery_shares b = total_shares st + total_recovery_shares b'"
proof -
  note wf = store_wfD [OF assms(1)]
  have owed: "owed_to st' x = owed_to st x" for x
    by (rule owed_to_cong) (simp_all add: st'_def)
  have "total_accrued st' + accrued_value b = total_accrued st + accrued_value b'"
    using bt.total_put_old [OF wf(1) assms(2), of "\<lambda>k. accrued_value" b']
    by (simp add: total_accrued_def st'_def)
  then have accrued: "tot = total_accrued st'" using assms(6) wf(3) by simp
  have pending: "total_owed st' = total_owed st"
    using bt.total_put_old [OF wf(1) assms(2), of "\<lambda>k. owed_to st" b'] assms(3,5) wf(2)
    by (simp add: total_owed_def owed) (simp add: st'_def)
  have get: "bt_get (buckets st') = (bt_get (buckets st))(k \<mapsto> b')"
    using bt_get_put [OF wf(1)] by (simp add: st'_def)
  have ok: "bucket_ok st' x y = bucket_ok st x y" for x y
    by (simp add: st'_def bucket_ok_def)
  show "store_wf st'"
  proof (rule store_wfI)
    show "bt_wf (buckets st')" using wf(1) by (simp add: st'_def bt_wf_put)
    show "window_ok st'" using wf(2) by (simp add: st'_def window_ok_def)
    show "bucket_ok st' x y" if "bt_get (buckets st') x = Some y" for x y
      using that assms(4) store_wf_bucket [OF assms(1)] by (auto simp: get ok split: if_splits)
  qed (use accrued pending assms(7) wf in \<open>simp_all add: st'_def\<close>)
  show "total_shares st' + total_recovery_shares b = total_shares st + total_recovery_shares b'"
    using bt.total_put_old [OF wf(1) assms(2), of "\<lambda>k. total_recovery_shares" b']
    by (simp add: total_shares_def st'_def)
qed

lemma del_current_wf:
  assumes "store_wf st" and "bt_get (buckets st) k = Some b"
    and "last_applied_index b = next_event_index st"
    and "tot + accrued_value b = accrued_value_total st"
  defines "st' \<equiv> st\<lparr>buckets := bt_del k (buckets st), accrued_value_total := tot\<rparr>"
  shows "store_wf st'"
    and "total_shares st' + total_recovery_shares b = total_shares st"
proof -
  note wf = store_wfD [OF assms(1)]
  have owed: "owed_to st' x = owed_to st x" for x
    by (rule owed_to_cong) (simp_all add: st'_def)
  have "total_accrued st' + accrued_value b = total_accrued st"
    using bt.total_del [OF wf(1) assms(2), of "\<lambda>k. accrued_value"]
    by (simp add: total_accrued_def st'_def)
  then have accrued: "tot = total_accrued st'" using assms(4) wf(3) by simp
  have pending: "total_owed st' = total_owed st"
    using bt.total_del [OF wf(1) assms(2), of "\<lambda>k. owed_to st"] assms(3) wf(2)
    by (simp add: total_owed_def owed) (simp add: st'_def)
  have get: "bt_get (buckets st') = (bt_get (buckets st))(k := None)"
    using bt_get_del [OF wf(1)] by (simp add: st'_def)
  have ok: "bucket_ok st' x y = bucket_ok st x y" for x y
    by (simp add: st'_def bucket_ok_def)
  have "tot < 2 ^ 128" using assms(4) wf(4) by linarith
  show "store_wf st'"
  proof (rule store_wfI)
    show "bt_wf (buckets st')" using wf(1) by (simp add: st'_def bt_wf_del)
    show "window_ok st'" using wf(2) by (simp add: st'_def window_ok_def)
    show "bucket_ok st' x y" if "bt_get (buckets st') x = Some y" for x y
      using that store_wf_bucket [OF assms(1)] by (auto simp: get ok split: if_splits)
  qed (use accrued pending \<open>tot < 2 ^ 128\<close> wf in \<open>simp_all add: st'_def\<close>)
  show "total_shares st' + total_recovery_shares b = total_shares st"
    using bt.total_del [OF wf(1) assms(2), of "\<lambda>k. total_recovery_shares"]
    by (simp add: total_shares_def st'_def)
qed

text \<open>A settled bucket is current.\<close>

lemma settle_lookup:
  assumes "store_wf st" and "bt_get (buckets st) k = Some b"
  shows "bt_get (buckets (settle k b st)) k = Some (caught_up st b)"
    and "last_applied_index (caught_up st b) = next_event_index (settle k b st)"
  using store_wf_bucket [OF assms] caught_up_index store_wfD [OF assms(1)]
  by (simp_all add: settle_get [OF assms(1)] bucket_ok_def del: settle_fields(5))

section \<open>Insertion\<close>

lemma insert_new_wf:
  assumes "store_wf st" and "bt_get (buckets st) k = None"
    and "bucket_ok st k b" and "last_applied_index b = next_event_index st" and "accrued_value b = 0"
  defines "st' \<equiv> st\<lparr>buckets := bt_put k b (buckets st)\<rparr>"
  shows "store_wf st'" and "total_shares st' = total_shares st + total_recovery_shares b"
proof -
  note wf = store_wfD [OF assms(1)]
  have owed: "owed_to st' x = owed_to st x" for x
    by (rule owed_to_cong) (simp_all add: st'_def)
  have accrued: "total_accrued st' = total_accrued st"
    using bt.total_put_new [OF wf(1) assms(2), of "\<lambda>k. accrued_value" b] assms(5)
    by (simp add: total_accrued_def st'_def)
  have pending: "total_owed st' = total_owed st"
    using bt.total_put_new [OF wf(1) assms(2), of "\<lambda>k. owed_to st" b] assms(4) wf(2)
    by (simp add: total_owed_def owed) (simp add: st'_def)
  have get: "bt_get (buckets st') = (bt_get (buckets st))(k \<mapsto> b)"
    using bt_get_put [OF wf(1)] by (simp add: st'_def)
  have ok: "bucket_ok st' x y = bucket_ok st x y" for x y
    by (simp add: st'_def bucket_ok_def)
  show "store_wf st'"
  proof (rule store_wfI)
    show "bt_wf (buckets st')" using wf(1) by (simp add: st'_def bt_wf_put)
    show "window_ok st'" using wf(2) by (simp add: st'_def window_ok_def)
    show "bucket_ok st' x y" if "bt_get (buckets st') x = Some y" for x y
      using that assms(3) store_wf_bucket [OF assms(1)] by (auto simp: get ok split: if_splits)
  qed (use accrued pending wf in \<open>simp_all add: st'_def\<close>)
  show "total_shares st' = total_shares st + total_recovery_shares b"
    using bt.total_put_new [OF wf(1) assms(2), of "\<lambda>k. total_recovery_shares" b]
    by (simp add: total_shares_def st'_def)
qed

lemma insert_or_merge_Ok [dormant_values]:
  assumes "store_wf st" and "insert_or_merge k anchor shares notion count m st = Inr st'"
    and "anchor < 2 ^ 64" and "shares < 2 ^ 128" and "notion < 2 ^ 128" and "count < 2 ^ 64"
  shows "store_wf st'" and "store_funds st' = store_funds st"
    and "total_shares st' = total_shares st + shares" and "store_direction st' = store_direction st"
    and "next_event_index st' = next_event_index st"
proof -
  note wf = store_wfD [OF assms(1)]
  have "store_wf st' \<and> store_funds st' = store_funds st \<and> total_shares st' = total_shares st + shares
      \<and> store_direction st' = store_direction st \<and> next_event_index st' = next_event_index st"
  proof (cases "bt_get (buckets st) k")
    case None
    with assms insert_new_wf [OF assms(1) None] wf(2) show ?thesis
      by (auto simp: insert_or_merge_def store_funds_def bucket_ok_def window_ok_def
        split: if_splits)
  next
    case (Some b)
    from assms(2) Some obtain st1 n b0 b' where ap1: "apply_pending_to_bucket k st = Inr (st1, n)"
      and b0: "bt_get (buckets st1) k = Some b0"
      and mb0: "merge_bucket shares notion count b0 = Inr b'"
      and st1': "st' = st1\<lparr>buckets := bt_put k b' (buckets st1)\<rparr>"
      by (auto simp: insert_or_merge_def)
    have eq1: "st1 = settle k b st" using assms(1) Some ap1 by (rule apply_pending_Ok)
    have eq0: "b0 = caught_up st b" using settle_lookup(1) [OF assms(1) Some] b0 unfolding eq1 by simp
    note ap = ap1 [unfolded eq1] and mb = mb0 [unfolded eq0] and st' = st1' [unfolded eq1]
    note swf = apply_pending_Ok(3) [OF assms(1) Some ap]
    note look = settle_lookup [OF assms(1) Some]
    have "bucket_ok (settle k b st) k (caught_up st b)"
      using swf look(1) by (rule store_wf_bucket)
    with mb look(2) have b': "bucket_ok (settle k b st) k b'"
      "last_applied_index b' = next_event_index (settle k b st)"
      "accrued_value b' = accrued_value (caught_up st b)"
      "total_recovery_shares b' = total_recovery_shares (caught_up st b) + shares"
      by (auto simp: merge_bucket_def bucket_ok_def)
    have form: "st' = (settle k b st)\<lparr>buckets := bt_put k b' (buckets (settle k b st)),
        accrued_value_total := accrued_value_total (settle k b st)\<rparr>"
      unfolding st' by simp
    have tot: "accrued_value_total (settle k b st) + accrued_value (caught_up st b)
        = accrued_value_total (settle k b st) + accrued_value b'"
      unfolding b'(3) ..
    note put = put_current_wf [OF swf look b'(1,2) tot store_wfD(4) [OF swf], folded form]
    have "store_funds st' = store_funds (settle k b st)"
      unfolding st' by (simp add: store_funds_def)
    then show ?thesis
      using put settle_funds [OF assms(1) Some] settle_totals(3) [OF assms(1) Some] b'(4)
      by (simp add: st')
  qed
  then show "store_wf st'" "store_funds st' = store_funds st"
    "total_shares st' = total_shares st + shares" "store_direction st' = store_direction st"
    "next_event_index st' = next_event_index st"
    by simp_all
qed

section \<open>Redemption\<close>

text \<open>
  Redeeming pays the floored pro-rata part of everything accrued and owed to the bucket, and
  removes exactly that from the store's funds.
\<close>

lemma redeem_Ok [dormant_values]:
  assumes "store_wf st" and "redeem k s st = Inr (st', r)"
  obtains b where "bt_get (buckets st) k = Some b" and "s \<le> total_recovery_shares b"
    and "redeemable r = (accrued_value b + owed_to st b) * s div total_recovery_shares b"
    and "burned_notional r = total_recovery_notional b * s div total_recovery_shares b"
    and "burned_shares r = s"
    and "store_wf st'" and "store_funds st' + redeemable r = store_funds st"
    and "total_shares st' + s = total_shares st" and "store_direction st' = store_direction st"
proof -
  note wf = store_wfD [OF assms(1)]
  from assms(2) obtain st1 n where ap: "apply_pending_to_bucket k st = Inr (st1, n)"
    and present: "bt_get (buckets st1) k \<noteq> None"
    by (auto simp: redeem_def)
  obtain b where b: "bt_get (buckets st) k = Some b"
    using ap present by (cases "bt_get (buckets st) k") (auto simp: apply_pending_None)
  note st1 = apply_pending_Ok [OF assms(1) b ap]
  note look = settle_lookup [OF assms(1) b]
  let ?c = "caught_up st b" and ?st1 = "settle k b st"
  have swf: "store_wf ?st1" using st1 by simp
  have ok: "bucket_ok ?st1 k ?c" using swf look(1) by (rule store_wf_bucket)
  have frame: "store_funds ?st1 = store_funds st" "total_shares ?st1 = total_shares st"
    using settle_funds [OF assms(1) b] settle_totals(3) [OF assms(1) b] by simp_all
  show ?thesis
  proof (cases "s = 0")
    case True
    with assms(2) ap st1 look have "st' = ?st1" and r: "r = \<lparr>redeemable = 0, burned_shares = 0, burned_notional = 0\<rparr>"
      by (simp_all add: redeem_def)
    with True b swf frame show ?thesis by (intro that [of b]) simp_all
  next
    case False
    let ?S = "total_recovery_shares ?c"
    have S: "?S < 2 ^ 128" using ok by (simp add: bucket_ok_def)
    from assms(2) ap st1(1) look(1) False obtain v m where le: "s \<le> ?S"
      and v: "mul_div_floor (accrued_value ?c) s ?S = Inr v"
      and m: "mul_div_floor (total_recovery_notional ?c) s ?S = Inr m"
      and vle: "v \<le> accrued_value ?c" and mle: "m \<le> total_recovery_notional ?c"
      and tle: "v \<le> accrued_value_total ?st1"
      and st': "st' = ?st1\<lparr>buckets := (if ?S - s = 0 \<and> accrued_value ?c - v = 0 then bt_del k (buckets ?st1)
          else bt_put k (?c\<lparr>accrued_value := accrued_value ?c - v, total_recovery_shares := ?S - s,
            total_recovery_notional := total_recovery_notional ?c - m,
            position_count := position_count ?c - 1\<rparr>) (buckets ?st1)),
          accrued_value_total := accrued_value_total ?st1 - v\<rparr>"
      and r: "r = \<lparr>redeemable = v, burned_shares = s, burned_notional = m\<rparr>"
      by (auto simp: redeem_def Let_def simp del: settle_fields caught_up_fields split: if_splits)
    have v_eq: "v = (accrued_value b + owed_to st b) * s div total_recovery_shares b"
      and m_eq: "m = total_recovery_notional b * s div total_recovery_shares b"
      using mul_div_floor_Ok(1) [OF v S] mul_div_floor_Ok(1) [OF m S] by simp_all
    have "store_wf st' \<and> total_shares st' + s = total_shares ?st1"
    proof (cases "?S - s = 0 \<and> accrued_value ?c - v = 0")
      case True
      then have "s = ?S" and "v = accrued_value ?c" using le vle by simp_all
      with del_current_wf [OF swf look, of "accrued_value_total ?st1 - v"] tle True show ?thesis
        unfolding st' by simp
    next
      case False
      have eq: "accrued_value_total ?st1 - v + accrued_value ?c
          = accrued_value_total ?st1 + (accrued_value ?c - v)" using vle tle by linarith
      have lt: "accrued_value_total ?st1 - v < 2 ^ 128" using store_wfD(4) [OF swf] by linarith
      define c' where "c' = ?c\<lparr>accrued_value := accrued_value ?c - v, total_recovery_shares := ?S - s,
            total_recovery_notional := total_recovery_notional ?c - m,
            position_count := position_count ?c - 1\<rparr>"
      have c': "bucket_ok ?st1 k c'" "last_applied_index c' = next_event_index ?st1"
        "accrued_value c' = accrued_value ?c - v" "total_recovery_shares c' = ?S - s"
        using ok look(2) by (auto simp: c'_def bucket_ok_def)
      have form: "st' = ?st1\<lparr>buckets := bt_put k c' (buckets ?st1),
          accrued_value_total := accrued_value_total ?st1 - v\<rparr>"
        unfolding st' c'_def if_not_P [OF False] ..
      note put = put_current_wf [OF swf look c'(1,2) eq [folded c'(3)] lt, folded form]
      have "total_shares st' + s = total_shares ?st1" using put(2) le unfolding c'(4) by linarith
      with put(1) show ?thesis by simp
    qed
    moreover have "store_funds st' + v = store_funds ?st1"
      using tle unfolding st' by (simp add: store_funds_def)
    ultimately show ?thesis
      using b le frame v_eq m_eq r by (intro that [of b]) (simp_all add: st')
  qed
qed

end
