(* ===== verification/Dormant_Distribute.thy ===== *)
theory Dormant_Distribute
  imports Dormant_Invariant
begin

text \<open>
  What a distribution computes before it commits: compaction and the drain of the activated
  buckets keep the store well formed, and the loops over the activated buckets allocate a
  floored, capped share to each. \<open>Dormant_Commit\<close> puts the two paths together.
\<close>

section \<open>Extensional equality of ordered maps\<close>

lemma bt_ext:
  assumes "bt_wf m" and "bt_wf m'" and "bt_get m = bt_get m'"
  shows "m = m'"
proof -
  have same: "set m = set m'"
    using bt.in_entries_iff [OF assms(1)] bt.in_entries_iff [OF assms(2)] assms(3) by auto
  have "map fst m = map fst m'"
    using assms(1,2) arg_cong [OF same, of "\<lambda>s. fst ` s"]
    by (intro strict_sorted_equal) (simp_all add: bt_wf_def)
  moreover have "map (\<lambda>k. (k, the (bt_get m k))) (map fst m) = m" if "bt_wf m" for m :: "('a, 'b) btree"
    using bt.in_entries_iff [OF that] by (force intro: map_idI)
  ultimately show ?thesis using assms by metis
qed

section \<open>Draining a list of buckets\<close>

lemma caught_up_cong:
  assumes "store_direction st = store_direction st'" and "ledger st = ledger st'"
    and "ledger_gc_offset st = ledger_gc_offset st'"
  shows "caught_up st b = caught_up st' b"
  using assms by (simp add: caught_up_def unapplied_def)

text \<open>Two stores that agree on everything but bucket contents and balances.\<close>

definition same_window :: "dormant_store \<Rightarrow> dormant_store \<Rightarrow> bool" where
  "same_window st st' \<longleftrightarrow> store_direction st = store_direction st' \<and> ledger st = ledger st'
     \<and> ledger_gc_offset st = ledger_gc_offset st' \<and> next_event_index st = next_event_index st'"

lemma same_window_settle [simp]: "same_window (settle k b st) st'  = same_window st st'"
  by (simp add: same_window_def)

definition drained :: "i64 list \<Rightarrow> dormant_store \<Rightarrow> dormant_store \<Rightarrow> bool" where
  "drained keys st st' \<longleftrightarrow>
     store_wf st' \<and> store_funds st' = store_funds st \<and> total_shares st' = total_shares st
     \<and> same_window st st'
     \<and> bt_get (buckets st') = (\<lambda>k. if k \<in> set keys then map_option (caught_up st) (bt_get (buckets st) k)
                                   else bt_get (buckets st) k)"

lemma drain_keys_Ok:
  assumes "store_wf st" and "distinct keys" and "drain_keys keys st = Inr st'"
  shows "drained keys st st'"
  using assms
proof (induction keys arbitrary: st)
  case Nil
  then show ?case by (simp add: drain_keys_def drained_def same_window_def)
next
  case (Cons k keys)
  note wf = Cons.prems(1)
  from Cons.prems(3) obtain st1 n where ap: "apply_pending_to_bucket k st = Inr (st1, n)"
    and rest: "drain_keys keys st1 = Inr st'" by (auto simp: drain_keys_def)
  show ?case
  proof (cases "bt_get (buckets st) k")
    case None
    then have eq: "st1 = st" using ap by (simp add: apply_pending_None)
    from Cons.IH [OF wf _ rest [unfolded eq]] Cons.prems(2) None show ?thesis
      by (auto simp: drained_def)
  next
    case (Some b)
    note s1 = apply_pending_Ok [OF wf Some ap]
    have cu: "caught_up st1 = caught_up st"
      unfolding s1(1) by (rule ext, rule caught_up_cong) simp_all
    have get1: "bt_get (buckets st1) = (bt_get (buckets st))(k \<mapsto> caught_up st b)"
      unfolding s1(1) by (rule settle_get [OF wf])
    have same: "same_window st1 st' = same_window st st'" unfolding s1(1) by simp
    have "drained keys st1 st'" using Cons.IH [OF s1(3) _ rest] Cons.prems(2) by simp
    moreover have "store_funds st1 = store_funds st" and "total_shares st1 = total_shares st"
      unfolding s1(1) using settle_funds [OF wf Some] settle_totals(3) [OF wf Some] by simp_all
    ultimately show ?thesis
      using Cons.prems(2) Some by (auto simp: drained_def cu same get1 fun_eq_iff)
  qed
qed

section \<open>The outstanding claims\<close>

abbreviation bucket_at :: "dormant_store \<Rightarrow> i64 \<Rightarrow> dormant_bucket" where
  "bucket_at st k \<equiv> the (bt_get (buckets st) k)"

lemma bucket_direction_wf:
  assumes "store_wf st" and "bt_get (buckets st) k = Some b"
  shows "bucket_direction b = store_direction st" and "anchor_price b < 2 ^ 128"
  using store_wf_bucket [OF assms] by (simp_all add: bucket_ok_def)

lemma sum_outstanding_from:
  assumes "store_wf st"
    and "fold_res (\<lambda>k t. and_then (expect (bt_get (buckets st) k) msg) (\<lambda>b.
           and_then (outstanding_claim_at b p) (\<lambda>q. add_c t q))) keys t0 = Inr t"
    and "t0 < 2 ^ 128"
  shows "t = t0 + (\<Sum>k\<leftarrow>keys. claim_val (store_direction st) p (bucket_at st k)) \<and> t < 2 ^ 128"
  using assms(2,3)
proof (induction keys arbitrary: t0)
  case (Cons k keys)
  then obtain b q where b: "bt_get (buckets st) k = Some b" and q: "outstanding_claim_at b p = Inr q"
    and rest: "t0 + q < 2 ^ 128"
      "fold_res (\<lambda>k t. and_then (expect (bt_get (buckets st) k) msg) (\<lambda>b.
           and_then (outstanding_claim_at b p) (\<lambda>q. add_c t q))) keys (t0 + q) = Inr t" by auto
  have "q = claim_val (store_direction st) p b"
    using outstanding_claim_at_Ok [OF q] bucket_direction_wf [OF assms(1) b] by simp
  with Cons.IH [OF rest(2,1)] b show ?case by simp
qed simp

lemma sum_outstanding_Ok:
  assumes "store_wf st" and "sum_outstanding p keys st = Inr t"
  shows "t = (\<Sum>k\<leftarrow>keys. claim_val (store_direction st) p (bucket_at st k))" and "t < 2 ^ 128"
  using sum_outstanding_from [OF assms(1), of "''key from iter''" p keys 0 t] assms(2)
  by (simp_all add: sum_outstanding_def)

text \<open>The one-loop form of the lazy path does what the two loops of the eager path do.\<close>

lemma lazy_loop_Ok:
  assumes "store_wf st" and "distinct keys" and "t0 < 2 ^ 128"
    and "fold_res (lazy_outstanding_step p) keys (st, t0) = Inr (st', t)"
  shows "drain_keys keys st = Inr st' \<and> t < 2 ^ 128
    \<and> t = t0 + (\<Sum>k\<leftarrow>keys. claim_val (store_direction st) p (bucket_at st' k))"
  using assms
proof (induction keys arbitrary: st t0)
  case Nil
  then show ?case by (simp add: drain_keys_def)
next
  case (Cons k keys)
  note wf = Cons.prems(1)
  from Cons.prems(4) obtain st1 t1 where step: "lazy_outstanding_step p k (st, t0) = Inr (st1, t1)"
    and rest1: "fold_res (lazy_outstanding_step p) keys (st1, t1) = Inr (st', t)" by auto
  from step obtain n b q where ap: "apply_pending_to_bucket k st = Inr (st1, n)"
    and b: "bt_get (buckets st1) k = Some b" and q: "outstanding_claim_at b p = Inr q"
    and lt: "t0 + q < 2 ^ 128" and t1: "t1 = t0 + q"
    by (auto simp: lazy_outstanding_step_def)
  note rest = rest1 [unfolded t1]
  obtain b0 where b0: "bt_get (buckets st) k = Some b0"
    using b ap by (cases "bt_get (buckets st) k") (auto simp: apply_pending_None)
  note s1 = apply_pending_Ok [OF wf b0 ap]
  have dir: "store_direction st1 = store_direction st" unfolding s1(1) by simp
  have IH: "drain_keys keys st1 = Inr st' \<and> t < 2 ^ 128
    \<and> t = t0 + q + (\<Sum>k\<leftarrow>keys. claim_val (store_direction st1) p (bucket_at st' k))"
    using Cons.IH [OF s1(3) _ lt rest] Cons.prems(2) by simp
  then have "drained keys st1 st'" using drain_keys_Ok [OF s1(3)] Cons.prems(2) by simp
  then have "bt_get (buckets st') k = Some b" using b Cons.prems(2) by (simp add: drained_def)
  moreover have "q = claim_val (store_direction st) p b"
    using outstanding_claim_at_Ok [OF q] bucket_direction_wf [OF s1(3) b] dir by simp
  ultimately show ?case using IH ap by (simp add: drain_keys_def dir)
qed

section \<open>The shares\<close>

lemma eager_step_Ok:
  assumes "eager_step (p_at_event e) (total_alloc_input e) (total_outstanding_at_event e)
      (event_index e) k (bs, s) = Inr (bs', s')"
    and "bt_get bs k = Some b" and "anchor_price b < 2 ^ 128" and "bucket_direction b = d"
    and "total_outstanding_at_event e < 2 ^ 128"
  shows "bs' = bt_put k (credit d e b) bs" and "s' = s + entry_share d e b"
    and "s < 2 ^ 128 \<Longrightarrow> s' < 2 ^ 128"
proof -
  from assms obtain c where c: "outstanding_claim_at b (p_at_event e) = Inr c"
    by (auto simp: eager_step_def)
  have cv: "c = claim_val d (p_at_event e) b" using outstanding_claim_at_Ok [OF c] assms(3,4) by simp
  have "bs' = bt_put k (credit d e b) bs \<and> s' = s + entry_share d e b \<and> (s < 2 ^ 128 \<longrightarrow> s' < 2 ^ 128)"
  proof (cases "c = 0")
    case True
    then have "entry_share d e b = 0" using cv by (simp add: entry_share_def)
    with True assms c show ?thesis by (auto simp: eager_step_def credit_def)
  next
    case False
    with assms(1,2) c obtain q where
        q: "mul_div_floor (total_alloc_input e) c (total_outstanding_at_event e) = Inr q"
      by (auto simp: eager_step_def)
    have share: "min q c = entry_share d e b"
      using mul_div_floor_Ok(1) [OF q assms(5)] cv by (simp add: entry_share_def Let_def)
    show ?thesis
      using assms(1,2) c q False share
      by (auto simp: eager_step_def Let_def credit_def split: if_splits)
  qed
  then show "bs' = bt_put k (credit d e b) bs" "s' = s + entry_share d e b"
    "s < 2 ^ 128 \<Longrightarrow> s' < 2 ^ 128" by simp_all
qed

lemma eager_loop_Ok:
  assumes "fold_res (eager_step (p_at_event e) (total_alloc_input e) (total_outstanding_at_event e)
      (event_index e)) keys (bs, s) = Inr (bs', s')"
    and "distinct keys" and "bt_wf bs" and "total_outstanding_at_event e < 2 ^ 128"
    and "\<And>k b. bt_get bs k = Some b \<Longrightarrow> bucket_direction b = d \<and> anchor_price b < 2 ^ 128"
  shows "bt_wf bs' \<and> s' = s + (\<Sum>k\<leftarrow>keys. entry_share d e (the (bt_get bs k)))
    \<and> bt_get bs' = (\<lambda>k. if k \<in> set keys then map_option (credit d e) (bt_get bs k) else bt_get bs k)"
  using assms
proof (induction keys arbitrary: bs s)
  case (Cons k keys)
  from Cons.prems(1) obtain bs1 s1 where step: "eager_step (p_at_event e) (total_alloc_input e)
      (total_outstanding_at_event e) (event_index e) k (bs, s) = Inr (bs1, s1)"
    and rest: "fold_res (eager_step (p_at_event e) (total_alloc_input e)
      (total_outstanding_at_event e) (event_index e)) keys (bs1, s1) = Inr (bs', s')" by auto
  then obtain b where b: "bt_get bs k = Some b" by (auto simp: eager_step_def)
  have eq: "bs1 = bt_put k (credit d e b) bs" "s1 = s + entry_share d e b"
    using eager_step_Ok [OF step b] Cons.prems(4) Cons.prems(5) [OF b] by simp_all
  have get1: "bt_get bs1 = (bt_get bs)(k \<mapsto> credit d e b)"
    unfolding eq(1) using Cons.prems(3) by (rule bt_get_put)
  have "bt_wf bs' \<and> s' = s1 + (\<Sum>k\<leftarrow>keys. entry_share d e (the (bt_get bs1 k)))
    \<and> bt_get bs' = (\<lambda>k. if k \<in> set keys then map_option (credit d e) (bt_get bs1 k) else bt_get bs1 k)"
  proof (rule Cons.IH [OF rest])
    show "distinct keys" using Cons.prems(2) by simp
    show "bt_wf bs1" unfolding eq(1) using Cons.prems(3) by (rule bt_wf_put)
    show "bucket_direction b' = d \<and> anchor_price b' < 2 ^ 128" if "bt_get bs1 j = Some b'" for j b'
      using that Cons.prems(5) Cons.prems(5) [OF b] by (auto simp: get1 split: if_splits)
  qed fact
  moreover have "(\<Sum>k\<leftarrow>keys. entry_share d e (the (bt_get bs1 k)))
      = (\<Sum>k\<leftarrow>keys. entry_share d e (the (bt_get bs k)))"
    using Cons.prems(2) by (auto simp: get1 intro: arg_cong [where f = sum_list])
  ultimately show ?case using Cons.prems(2) b eq(2) by (auto simp: get1 fun_eq_iff)
qed simp

lemma lazy_shares_Ok:
  assumes "store_wf st"
    and "fold_res (lazy_share_step (p_at_event e) (total_alloc_input e)
      (total_outstanding_at_event e) st) keys s = Inr s'"
    and "total_outstanding_at_event e < 2 ^ 128"
  shows "s' = s + (\<Sum>k\<leftarrow>keys. entry_share (store_direction st) e (bucket_at st k))"
  using assms(2)
proof (induction keys arbitrary: s)
  case (Cons k keys)
  from Cons.prems obtain s1 where step: "lazy_share_step (p_at_event e) (total_alloc_input e)
      (total_outstanding_at_event e) st k s = Inr s1"
    and rest: "fold_res (lazy_share_step (p_at_event e) (total_alloc_input e)
      (total_outstanding_at_event e) st) keys s1 = Inr s'" by auto
  from step obtain b c where b: "bt_get (buckets st) k = Some b"
    and c: "outstanding_claim_at b (p_at_event e) = Inr c" by (auto simp: lazy_share_step_def)
  have cv: "c = claim_val (store_direction st) (p_at_event e) b"
    using outstanding_claim_at_Ok [OF c] bucket_direction_wf [OF assms(1) b] by simp
  have "s1 = s + entry_share (store_direction st) e b"
    using step b c cv assms(3) mul_div_floor_Ok(1) [OF _ assms(3)]
    by (fastforce simp: lazy_share_step_def entry_share_def Let_def split: if_splits)
  with Cons.IH [OF rest] b show ?case by simp
qed simp

end
