(* ===== verification/Dormant_Commit.thy ===== *)
theory Dormant_Commit
  imports Dormant_Distribute
begin

text \<open>
  A distribution as a whole: what recording its event does to the balances, the contract the
  clearing engine relies on as the locale \<open>distributor\<close>, its interpretations on the eager
  path, the lazy path and the dispatch between them, and the equivalence of the two paths:
  after every bucket has caught up, their stores are equal.
\<close>

section \<open>Recording a distribution event\<close>

text \<open>The ledger entry the two paths append, and what it does to the entries a bucket has to apply.\<close>

definition event_of :: "dormant_store \<Rightarrow> u64 \<Rightarrow> u128 \<Rightarrow> u128 \<Rightarrow> u128 \<Rightarrow> dist_entry" where
  "event_of st p alloc outstanding observed =
     \<lparr>event_index = next_event_index st, p_at_event = p, total_outstanding_at_event = outstanding,
      total_alloc_input = alloc, allocated_sum_observed = observed\<rparr>"

lemma event_of_fields [simp]:
  "event_index (event_of st p a t s) = next_event_index st"
  "p_at_event (event_of st p a t s) = p"
  "total_outstanding_at_event (event_of st p a t s) = t"
  "total_alloc_input (event_of st p a t s) = a"
  by (simp_all add: event_of_def)

definition appended :: "dist_entry \<Rightarrow> dormant_store \<Rightarrow> dormant_store" where
  "appended e st = st\<lparr>ledger := ledger st @ [e], next_event_index := next_event_index st + 1\<rparr>"

lemma appended_fields [simp]:
  "store_direction (appended e st) = store_direction st"
  "buckets (appended e st) = buckets st"
  "accrued_value_total (appended e st) = accrued_value_total st"
  "ledger (appended e st) = ledger st @ [e]"
  "ledger_gc_offset (appended e st) = ledger_gc_offset st"
  "next_event_index (appended e st) = next_event_index st + 1"
  "pending_distribution_total (appended e st) = pending_distribution_total st"
  by (simp_all add: appended_def)

lemma unapplied_appended:
  assumes "window_ok st" and "bucket_ok st k b"
  shows "unapplied (appended e st) b = unapplied st b @ [e]"
  using assms by (simp add: unapplied_def window_length bucket_ok_def)

lemma owed_to_appended:
  assumes "window_ok st" and "bucket_ok st k b"
  shows "owed_to (appended e st) b
    = owed_to st b + entry_share (store_direction st) e (caught_up st b)"
    and "caught_up (appended e st) b = credit (store_direction st) e (caught_up st b)"
  using assms
  by (simp_all add: owed_to_def caught_up_def unapplied_appended owed_append)

lemma window_ok_appended:
  assumes "window_ok st" and "event_index e = next_event_index st"
    and "next_event_index st + 1 < 2 ^ 64" and "total_outstanding_at_event e < 2 ^ 128"
  shows "window_ok (appended e st)"
  using assms by (simp add: window_ok_def)

text \<open>
  The keys a distribution runs over: every bucket the price activates, each already current.
\<close>

definition settled_keys :: "i64 list \<Rightarrow> u64 \<Rightarrow> dormant_store \<Rightarrow> bool" where
  "settled_keys keys p st \<longleftrightarrow> distinct keys \<and> set keys \<subseteq> dom (bt_get (buckets st))
     \<and> (\<forall>k b. bt_get (buckets st) k = Some b \<longrightarrow>
          (if k \<in> set keys then last_applied_index b = next_event_index st
           else \<not> activated (store_direction st) p b))"

definition shares_over :: "i64 list \<Rightarrow> dist_entry \<Rightarrow> dormant_store \<Rightarrow> nat" where
  "shares_over keys e st = (\<Sum>k\<leftarrow>keys. entry_share (store_direction st) e (bucket_at st k))"

lemma shares_over_eq_sum:
  assumes "store_wf st" and "settled_keys keys (p_at_event e) st"
  shows "shares_over keys e st
    = (\<Sum>k\<in>dom (bt_get (buckets st)). entry_share (store_direction st) e (bucket_at st k))"
proof -
  have fin: "finite (dom (bt_get (buckets st)))"
    using store_wfD(1) [OF assms(1)] by (rule bt.finite_dom)
  have "shares_over keys e st = (\<Sum>k\<in>set keys. entry_share (store_direction st) e (bucket_at st k))"
    using assms(2) by (simp add: shares_over_def settled_keys_def sum_list_distinct_conv_sum_set)
  also have "\<dots> = (\<Sum>k\<in>dom (bt_get (buckets st)). entry_share (store_direction st) e (bucket_at st k))"
    using assms(2) fin by (intro sum.mono_neutral_left) (auto simp: settled_keys_def)
  finally show ?thesis .
qed

lemma total_owed_appended:
  assumes "store_wf st" and "settled_keys keys (p_at_event e) st"
  shows "total_owed (appended e st) = total_owed st + shares_over keys e st"
proof -
  note wf = store_wfD [OF assms(1)]
  have "owed_to (appended e st) (bucket_at st k)
      = owed_to st (bucket_at st k) + entry_share (store_direction st) e (bucket_at st k)"
    if "k \<in> dom (bt_get (buckets st))" for k
  proof -
    from that obtain b where b: "bt_get (buckets st) k = Some b" by blast
    have "entry_share (store_direction st) e (caught_up st b) = entry_share (store_direction st) e b"
      using assms(2) b wf(2) by (cases "k \<in> set keys") (auto simp: settled_keys_def)
    then show ?thesis using owed_to_appended [OF wf(2) store_wf_bucket [OF assms(1) b]] b by simp
  qed
  then show ?thesis
    unfolding shares_over_eq_sum [OF assms]
    by (simp add: total_owed_def bt.total_eq_sum [OF wf(1), simplified] sum.distrib [symmetric])
qed

text \<open>Recording an event keeps the store well formed when its shares are added to the pending balance.\<close>

lemma lazy_commit_wf:
  assumes "store_wf st" and "settled_keys keys (p_at_event e) st"
    and "event_index e = next_event_index st" and "next_event_index st + 1 < 2 ^ 64"
    and "total_outstanding_at_event e < 2 ^ 128"
    and "pending_distribution_total st + shares_over keys e st < 2 ^ 128"
  defines "st' \<equiv> (appended e st)\<lparr>pending_distribution_total :=
                    pending_distribution_total st + shares_over keys e st\<rparr>"
  shows "store_wf st'"
proof -
  note wf = store_wfD [OF assms(1)]
  have owed: "owed_to st' b = owed_to (appended e st) b" for b
    by (rule owed_to_cong) (simp_all add: st'_def)
  show ?thesis
  proof (rule store_wfI)
    show "window_ok st'"
      using window_ok_appended [OF wf(2) assms(3-5)] by (simp add: st'_def window_ok_def)
    show "bucket_ok st' k b" if "bt_get (buckets st') k = Some b" for k b
      using that store_wf_bucket [OF assms(1), of k b] by (simp add: st'_def bucket_ok_def)
    show "pending_distribution_total st' = total_owed st'"
      using total_owed_appended [OF assms(1,2)] wf(5)
      by (simp add: total_owed_def owed) (simp add: st'_def)
  qed (use wf assms(6) in \<open>simp_all add: st'_def total_accrued_def\<close>)
qed

text \<open>
  The eager path credits the shares at once instead: its buckets are those of the lazy path
  after the activated ones have caught up.
\<close>

lemma total_over_keys:
  fixes f g :: "dormant_bucket \<Rightarrow> nat"
  assumes "bt_wf m" and "bt_wf m'" and "set keys \<subseteq> dom (bt_get m)"
    and "bt_get m' = (\<lambda>k. if k \<in> set keys then map_option h (bt_get m k) else bt_get m k)"
  shows "(\<Sum>(k, b)\<leftarrow>m'. f b) = (\<Sum>k\<in>set keys. f (h (the (bt_get m k))))
    + (\<Sum>k\<in>dom (bt_get m) - set keys. f (the (bt_get m k)))"
proof -
  have dom: "dom (bt_get m') = dom (bt_get m)" using assms(4) by (auto split: if_splits)
  have fin: "finite (dom (bt_get m))" using assms(1) by (rule bt.finite_dom)
  have "(\<Sum>k\<in>set keys. f (the (bt_get m' k))) = (\<Sum>k\<in>set keys. f (h (the (bt_get m k))))"
    using assms(3,4) by (intro sum.cong) auto
  moreover have "(\<Sum>k\<in>dom (bt_get m) - set keys. f (the (bt_get m' k)))
      = (\<Sum>k\<in>dom (bt_get m) - set keys. f (the (bt_get m k)))"
    using assms(4) by (intro sum.cong) auto
  ultimately show ?thesis
    using fin assms(3) sum.subset_diff [of "set keys" "dom (bt_get m)" "\<lambda>k. f (the (bt_get m' k))"]
    by (simp add: bt.total_eq_sum [OF assms(2), simplified, of "\<lambda>k. f"] dom)
qed

lemma eager_commit_wf:
  assumes "store_wf st" and "settled_keys keys (p_at_event e) st"
    and "event_index e = next_event_index st" and "next_event_index st + 1 < 2 ^ 64"
    and "total_outstanding_at_event e < 2 ^ 128"
    and "accrued_value_total st + shares_over keys e st < 2 ^ 128"
    and "bt_wf bs" and "bt_get bs = (\<lambda>k. if k \<in> set keys
      then map_option (credit (store_direction st) e) (bt_get (buckets st) k) else bt_get (buckets st) k)"
  defines "st' \<equiv> (appended e st)\<lparr>buckets := bs,
                    accrued_value_total := accrued_value_total st + shares_over keys e st\<rparr>"
  shows "store_wf st'" and "total_shares st' = total_shares st"
proof -
  note wf = store_wfD [OF assms(1)]
  let ?d = "store_direction st" and ?m = "bt_get (buckets st)"
  have keys: "distinct keys" "set keys \<subseteq> dom ?m" using assms(2) by (simp_all add: settled_keys_def)
  have owed: "owed_to st' b = owed_to (appended e st) b" for b
    by (rule owed_to_cong) (simp_all add: st'_def)
  have win: "window_ok st'"
    using window_ok_appended [OF wf(2) assms(3-5)] by (simp add: st'_def window_ok_def)
  have splits: "(\<Sum>(k, b)\<leftarrow>buckets st'. f b) = (\<Sum>k\<in>set keys. f (credit ?d e (bucket_at st k)))
      + (\<Sum>k\<in>dom ?m - set keys. f (bucket_at st k))"
    and before: "(\<Sum>(k, b)\<leftarrow>buckets st. f b) = (\<Sum>k\<in>set keys. f (bucket_at st k))
      + (\<Sum>k\<in>dom ?m - set keys. f (bucket_at st k))" for f :: "dormant_bucket \<Rightarrow> nat"
    using total_over_keys [OF wf(1) assms(7) keys(2) assms(8), of f]
      total_over_keys [OF wf(1) wf(1) keys(2), of id f]
    by (simp_all add: st'_def fun_eq_iff option.map_id)
  show "total_shares st' = total_shares st"
    by (simp add: total_shares_def splits before)
  have "total_accrued st' = total_accrued st + shares_over keys e st"
    using keys(1)
    by (simp add: total_accrued_def splits before sum.distrib shares_over_def
      sum_list_distinct_conv_sum_set)
  moreover have "total_owed st' = total_owed st"
  proof -
    have "owed_to st' (credit ?d e (bucket_at st k)) = owed_to st (bucket_at st k)"
      if "k \<in> set keys" for k
      using that keys(2) assms(2,3) wf(2) win by (force simp: settled_keys_def st'_def)
    moreover have "owed_to st' (bucket_at st k) = owed_to st (bucket_at st k)"
      if "k \<in> dom ?m - set keys" for k
    proof -
      from that obtain b where b: "?m k = Some b" by blast
      with that assms(2) have "\<not> activated ?d (p_at_event e) b" by (auto simp: settled_keys_def)
      then show ?thesis
        using owed_to_appended(1) [OF wf(2) store_wf_bucket [OF assms(1) b]] b by (simp add: owed)
    qed
    ultimately show ?thesis by (simp add: total_owed_def splits before)
  qed
  ultimately show "store_wf st'"
  proof (intro store_wfI)
    show "bucket_ok st' k b" if get: "bt_get (buckets st') k = Some b" for k b
    proof (cases "k \<in> set keys")
      case True
      then obtain b0 where b0: "?m k = Some b0" and b: "b = credit ?d e b0"
        using get assms(8) by (auto simp: st'_def)
      then show ?thesis
        using store_wf_bucket [OF assms(1) b0] assms(3) by (simp add: st'_def bucket_ok_def)
    next
      case False
      with get assms(8) have "?m k = Some b" by (simp add: st'_def)
      then show ?thesis using store_wf_bucket [OF assms(1)] by (force simp: st'_def bucket_ok_def)
    qed
  qed (use wf win assms(6,7) in \<open>simp_all add: st'_def\<close>)
qed

section \<open>The two paths\<close>

lemma activated_keys_facts:
  assumes "bt_wf (buckets st)"
  shows "distinct (activated_keys st p)"
    and "k \<in> set (activated_keys st p)
      \<longleftrightarrow> (\<exists>b. bt_get (buckets st) k = Some b \<and> activated (store_direction st) p b)"
proof -
  show "distinct (activated_keys st p)"
    using bt_wf_distinct [OF assms] by (simp add: activated_keys_def distinct_map_filter)
  show "k \<in> set (activated_keys st p)
      \<longleftrightarrow> (\<exists>b. bt_get (buckets st) k = Some b \<and> activated (store_direction st) p b)"
    using bt.in_entries_iff [OF assms, of k] by (force simp: activated_keys_def)
qed

lemma drained_settled_keys:
  assumes "store_wf st" and "drained (activated_keys st p) st st'"
  shows "settled_keys (activated_keys st p) p st'"
proof -
  note wf = store_wfD [OF assms(1)]
  note act = activated_keys_facts [OF wf(1), where p = p]
  have get: "bt_get (buckets st') k = (if k \<in> set (activated_keys st p)
      then map_option (caught_up st) (bt_get (buckets st) k) else bt_get (buckets st) k)" for k
    using assms(2) by (simp add: drained_def)
  have same: "store_direction st' = store_direction st" "next_event_index st' = next_event_index st"
    using assms(2) by (simp_all add: drained_def same_window_def)
  have "last_applied_index (caught_up st b) = next_event_index st"
    if "bt_get (buckets st) k = Some b" for k b
    using store_wf_bucket [OF assms(1) that] caught_up_index [OF wf(2)] by (simp add: bucket_ok_def)
  then show ?thesis
    using act by (auto simp: settled_keys_def get same split: if_splits)
qed

text \<open>
  Both paths run on a compacted store whose activated buckets are drained. The \<open>prepared\<close>
  store and the total of its outstanding claims are the same for both.
\<close>

definition prepared :: "u64 \<Rightarrow> u32 \<Rightarrow> dormant_store \<Rightarrow> dormant_store \<Rightarrow> u128 \<Rightarrow> bool" where
  "prepared p m st st2 t \<longleftrightarrow> (\<exists>st1. ensure_ledger_capacity m st = Ok st1
     \<and> drain_keys (activated_keys st p) st1 = Ok st2
     \<and> t = (\<Sum>k\<leftarrow>activated_keys st p. claim_val (store_direction st2) p (bucket_at st2 k))
     \<and> t < 2 ^ 128)"

lemma prepared_unique: "prepared p m st st2 t \<Longrightarrow> prepared p m st st2' t' \<Longrightarrow> st2 = st2' \<and> t = t'"
  by (auto simp: prepared_def)

lemma prepared_facts:
  assumes "store_wf st" and "prepared p m st st2 t"
  shows "store_wf st2" and "settled_keys (activated_keys st p) p st2"
    and "store_funds st2 = store_funds st" and "total_shares st2 = total_shares st"
    and "store_direction st2 = store_direction st" and "next_event_index st2 = next_event_index st"
proof -
  obtain st1 where cap: "ensure_ledger_capacity m st = Inr st1"
    and drain: "drain_keys (activated_keys st p) st1 = Inr st2" using assms(2) by (auto simp: prepared_def)
  note s1 = ensure_capacity_Ok [OF assms(1) cap]
  have keys: "activated_keys st1 p = activated_keys st p" by (simp add: activated_keys_def s1)
  have "drained (activated_keys st p) st1 st2"
    using drain_keys_Ok [OF s1(1) _ drain] activated_keys_facts(1) [OF store_wfD(1) [OF assms(1)]] by simp
  then show "store_wf st2" "settled_keys (activated_keys st p) p st2"
    "store_funds st2 = store_funds st" "total_shares st2 = total_shares st"
    "store_direction st2 = store_direction st" "next_event_index st2 = next_event_index st"
    using drained_settled_keys [OF s1(1), of p st2] s1
    by (simp_all add: keys drained_def same_window_def)
qed

lemma activated_keys_capacity:
  assumes "store_wf st" and "ensure_ledger_capacity m st = Inr st1"
  shows "activated_keys st1 p = activated_keys st p"
  using ensure_capacity_Ok [OF assms] by (simp add: activated_keys_def)

lemma distribute_cases:
  assumes "store_wf st" and "distribute p a m st = Inr (st', r)"
  obtains (nothing) "a = 0" "st' = st" "r = \<lparr>allocated = 0, residual = 0\<rparr>"
  | (idle) "a > 0" "prepared p m st st' 0" "r = \<lparr>allocated = 0, residual = a\<rparr>"
  | (event) st2 t e bs where "a > 0" "prepared p m st st2 t" "t > 0"
      "e = event_of st2 p a t (shares_over (activated_keys st p) e st2)"
      "shares_over (activated_keys st p) e st2 \<le> a" "next_event_index st2 + 1 < 2 ^ 64"
      "r = \<lparr>allocated = shares_over (activated_keys st p) e st2,
            residual = a - shares_over (activated_keys st p) e st2\<rparr>"
      "accrued_value_total st2 + shares_over (activated_keys st p) e st2 < 2 ^ 128"
      "bt_wf bs" "bt_get bs = (\<lambda>k. if k \<in> set (activated_keys st p)
         then map_option (credit (store_direction st2) e) (bt_get (buckets st2) k)
         else bt_get (buckets st2) k)"
      "st' = (appended e st2)\<lparr>buckets := bs, accrued_value_total :=
                accrued_value_total st2 + shares_over (activated_keys st p) e st2\<rparr>"
proof (cases "a = 0")
  case True
  with assms(2) that(1) show ?thesis by (simp add: distribute_def)
next
  case False
  let ?keys = "activated_keys st p"
  from False assms(2) obtain st1 st2 t where cap: "ensure_ledger_capacity m st = Inr st1"
    and drain: "drain_keys ?keys st1 = Inr st2" and t: "sum_outstanding p ?keys st2 = Inr t"
    by (auto simp: distribute_def Let_def)
  note s1 = ensure_capacity_Ok [OF assms(1) cap]
  have wf2: "store_wf st2"
    using drain_keys_Ok [OF s1(1) _ drain] activated_keys_facts(1) [OF store_wfD(1) [OF assms(1)]]
    by (simp add: drained_def)
  have prep: "prepared p m st st2 t"
    using cap drain sum_outstanding_Ok [OF wf2 t] by (auto simp: prepared_def)
  show ?thesis
  proof (cases "t = 0")
    case True
    with False assms(2) cap drain t prep show ?thesis by (intro that(2)) (auto simp: distribute_def)
  next
    case nz: False
    define e0 where "e0 = event_of st2 p a t 0"
    from False nz assms(2) cap drain t obtain bs s where
        loop: "fold_res (eager_step p a t (next_event_index st2)) ?keys (buckets st2, 0) = Inr (bs, s)"
      and tot: "accrued_value_total st2 + s < 2 ^ 128" and res: "s \<le> a"
      and nxt: "next_event_index st2 + 1 < 2 ^ 64"
      and r: "r = \<lparr>allocated = s, residual = a - s\<rparr>"
      and st': "st' = (appended (event_of st2 p a t s) st2)\<lparr>buckets := bs,
                  accrued_value_total := accrued_value_total st2 + s\<rparr>"
      by (auto simp: distribute_def Let_def event_of_def appended_def)
    have share: "entry_share d (event_of st2 p a t s) = entry_share d e0"
      and cred: "credit d (event_of st2 p a t s) = credit d e0" for d
      by (simp_all add: fun_eq_iff e0_def entry_share_def credit_def)
    have wfb: "bt_wf (buckets st2)" using wf2 by (rule store_wfD)
    have dist: "distinct ?keys" using activated_keys_facts(1) store_wfD(1) [OF assms(1)] .
    have all: "bucket_direction b = store_direction st2 \<and> anchor_price b < 2 ^ 128"
      if "bt_get (buckets st2) k = Some b" for k b
      using bucket_direction_wf [OF wf2 that] by simp
    have "bt_wf bs \<and> s = shares_over ?keys e0 st2 \<and> bt_get bs = (\<lambda>k. if k \<in> set ?keys
        then map_option (credit (store_direction st2) e0) (bt_get (buckets st2) k)
        else bt_get (buckets st2) k)"
      using eager_loop_Ok [of e0 ?keys "buckets st2" 0 bs s "store_direction st2", OF _ dist wfb _ all]
        loop prep by (auto simp: e0_def prepared_def shares_over_def)
    moreover have "shares_over ?keys (event_of st2 p a t s) st2 = shares_over ?keys e0 st2"
      by (simp add: shares_over_def share)
    ultimately show ?thesis
      using False nz prep res nxt r tot st' cred by (intro that(3) [of st2 t "event_of st2 p a t s" bs]) auto
  qed
qed

lemma distribute_lazy_cases:
  assumes "store_wf st" and "distribute_lazy p a m st = Inr (st', r)"
  obtains (nothing) "a = 0" "st' = st" "r = \<lparr>allocated = 0, residual = 0\<rparr>"
  | (idle) "a > 0" "prepared p m st st' 0" "r = \<lparr>allocated = 0, residual = a\<rparr>"
  | (event) st2 t e where "a > 0" "prepared p m st st2 t" "t > 0"
      "e = event_of st2 p a t (shares_over (activated_keys st p) e st2)"
      "shares_over (activated_keys st p) e st2 \<le> a" "next_event_index st2 + 1 < 2 ^ 64"
      "r = \<lparr>allocated = shares_over (activated_keys st p) e st2,
            residual = a - shares_over (activated_keys st p) e st2\<rparr>"
      "pending_distribution_total st2 + shares_over (activated_keys st p) e st2 < 2 ^ 128"
      "st' = (appended e st2)\<lparr>pending_distribution_total :=
                pending_distribution_total st2 + shares_over (activated_keys st p) e st2\<rparr>"
proof (cases "a = 0")
  case True
  with assms(2) that(1) show ?thesis by (simp add: distribute_lazy_def)
next
  case False
  let ?keys = "activated_keys st p"
  from False assms(2) obtain st1 where cap: "ensure_ledger_capacity m st = Inr st1"
    by (auto simp: distribute_lazy_def Let_def)
  note s1 = ensure_capacity_Ok [OF assms(1) cap]
  from False assms(2) cap obtain st2 t where
      loop: "fold_res (lazy_outstanding_step p) ?keys (st1, 0) = Inr (st2, t)"
    by (auto simp: distribute_lazy_def Let_def activated_keys_capacity [OF assms(1) cap])
  have dist: "distinct ?keys" using activated_keys_facts(1) store_wfD(1) [OF assms(1)] .
  have l: "drain_keys ?keys st1 = Inr st2 \<and> t < 2 ^ 128
      \<and> t = (\<Sum>k\<leftarrow>?keys. claim_val (store_direction st1) p (bucket_at st2 k))"
    using lazy_loop_Ok [OF s1(1) dist _ loop] by simp
  have dr: "drained ?keys st1 st2" using drain_keys_Ok [OF s1(1) dist] l by simp
  have wf2: "store_wf st2" and dir: "store_direction st2 = store_direction st1"
    using dr by (simp_all add: drained_def same_window_def)
  have prep: "prepared p m st st2 t" using cap l dir by (auto simp: prepared_def)
  show ?thesis
  proof (cases "t = 0")
    case True
    with False assms(2) cap loop prep show ?thesis
      by (intro that(2)) (auto simp: distribute_lazy_def activated_keys_capacity [OF assms(1) cap])
  next
    case nz: False
    from False nz assms(2) cap loop obtain s where
        loop2: "fold_res (lazy_share_step p a t st2) ?keys 0 = Inr s"
      and pend: "pending_distribution_total st2 + s < 2 ^ 128" and res: "s \<le> a"
      and nxt: "next_event_index st2 + 1 < 2 ^ 64"
      and r: "r = \<lparr>allocated = s, residual = a - s\<rparr>"
      and st': "st' = (appended (event_of st2 p a t s) st2)\<lparr>pending_distribution_total :=
                  pending_distribution_total st2 + s\<rparr>"
      by (auto simp: distribute_lazy_def Let_def event_of_def appended_def
        activated_keys_capacity [OF assms(1) cap])
    have "s = shares_over ?keys (event_of st2 p a t s) st2"
      using lazy_shares_Ok [OF wf2, of "event_of st2 p a t s" ?keys 0 s] loop2 l
      by (simp add: shares_over_def)
    then show ?thesis
      using False nz prep res nxt r pend st'
      by (intro that(3) [of st2 t "event_of st2 p a t s"]) auto
  qed
qed

section \<open>The contract of a distribution\<close>

text \<open>
  What the engine relies on when it hands \<open>a\<close> units to a store: they are split without loss
  into what the buckets get and what comes back, the store's funds grow by exactly the
  former, and nothing else observable changes.
\<close>

locale distributor =
  fixes dist :: "u64 \<Rightarrow> u128 \<Rightarrow> u32 \<Rightarrow> dormant_store \<Rightarrow> (dormant_store \<times> distribution_receipt) clearing"
  assumes keeps_wf: "store_wf st \<Longrightarrow> dist p a m st = Inr (st', r) \<Longrightarrow> store_wf st'"
    and splits: "store_wf st \<Longrightarrow> dist p a m st = Inr (st', r) \<Longrightarrow> allocated r + residual r = a"
    and funds: "store_wf st \<Longrightarrow> dist p a m st = Inr (st', r)
      \<Longrightarrow> store_funds st' = store_funds st + allocated r"
    and shares: "store_wf st \<Longrightarrow> dist p a m st = Inr (st', r) \<Longrightarrow> total_shares st' = total_shares st"
    and dir: "store_wf st \<Longrightarrow> dist p a m st = Inr (st', r)
      \<Longrightarrow> store_direction st' = store_direction st"
begin

lemma allocated_le: "store_wf st \<Longrightarrow> dist p a m st = Inr (st', r) \<Longrightarrow> allocated r \<le> a"
  using splits by fastforce

text \<open>What leaves the source pool is what reaches the store plus what comes back.\<close>

lemma no_loss:
  assumes "store_wf st" and "dist p a m st = Inr (st', r)" and "a \<le> pool"
  shows "(pool - a) + residual r + store_funds st' = pool + store_funds st"
  using assms splits [OF assms(1,2)] funds [OF assms(1,2)] by linarith

text \<open>A sequence of distributions keeps a store well formed and adds up its allocations.\<close>

lemma fold_funds:
  assumes "fold_res (\<lambda>(p, a) (st, got). and_then (dist p a m st) (\<lambda>(st', r).
      Ok (st', got + allocated r))) evs (st, g) = Inr (st', g')"
    and "store_wf st"
  shows "store_wf st' \<and> store_funds st' + g = store_funds st + g'"
  using assms
proof (induction evs arbitrary: st g)
  case (Cons ev evs)
  obtain p a where ev: "ev = (p, a)" by (cases ev)
  with Cons.prems obtain st1 r where step: "dist p a m st = Inr (st1, r)"
    and rest: "fold_res (\<lambda>(p, a) (st, got). and_then (dist p a m st) (\<lambda>(st', r).
      Ok (st', got + allocated r))) evs (st1, g + allocated r) = Inr (st', g')" by auto
  from Cons.IH [OF rest keeps_wf [OF Cons.prems(2) step]] funds [OF Cons.prems(2) step]
  show ?case by simp
qed simp

end

lemma shares_over_update: "shares_over keys e (st\<lparr>pending_distribution_total := x\<rparr>) = shares_over keys e st"
  by (simp add: shares_over_def)

lemma distribute_wf:
  assumes "store_wf st" and "distribute p a m st = Inr (st', r)"
  shows "store_wf st'" and "allocated r + residual r = a"
    and "store_funds st' = store_funds st + allocated r" and "total_shares st' = total_shares st"
    and "store_direction st' = store_direction st"
proof -
  from assms have "store_wf st' \<and> allocated r + residual r = a
      \<and> store_funds st' = store_funds st + allocated r \<and> total_shares st' = total_shares st
      \<and> store_direction st' = store_direction st"
  proof (cases rule: distribute_cases)
    case nothing
    with assms(1) show ?thesis by simp
  next
    case idle
    with prepared_facts [OF assms(1) idle(2)] show ?thesis by simp
  next
    case (event st2 t e bs)
    note prep = prepared_facts [OF assms(1) event(2)]
    have keys: "settled_keys (activated_keys st p) (p_at_event e) st2"
      using prep(2) by (subst event(4)) simp
    have e: "p_at_event e = p" "event_index e = next_event_index st2"
      "total_outstanding_at_event e < 2 ^ 128"
      using event(2) by (subst event(4), auto simp: prepared_def)+
    show ?thesis
      using eager_commit_wf [OF prep(1) keys e(2) event(6) e(3) event(8-10)]
        event(5,7,11) prep by (simp add: store_funds_def)
  qed
  then show "store_wf st'" "allocated r + residual r = a"
    "store_funds st' = store_funds st + allocated r" "total_shares st' = total_shares st"
    "store_direction st' = store_direction st" by simp_all
qed

lemma distribute_lazy_wf:
  assumes "store_wf st" and "distribute_lazy p a m st = Inr (st', r)"
  shows "store_wf st'" and "allocated r + residual r = a"
    and "store_funds st' = store_funds st + allocated r" and "total_shares st' = total_shares st"
    and "store_direction st' = store_direction st"
proof -
  from assms have "store_wf st' \<and> allocated r + residual r = a
      \<and> store_funds st' = store_funds st + allocated r \<and> total_shares st' = total_shares st
      \<and> store_direction st' = store_direction st"
  proof (cases rule: distribute_lazy_cases)
    case nothing
    with assms(1) show ?thesis by simp
  next
    case idle
    with prepared_facts [OF assms(1) idle(2)] show ?thesis by simp
  next
    case (event st2 t e)
    note prep = prepared_facts [OF assms(1) event(2)]
    have keys: "settled_keys (activated_keys st p) (p_at_event e) st2"
      using prep(2) by (subst event(4)) simp
    have e: "p_at_event e = p" "event_index e = next_event_index st2"
      "total_outstanding_at_event e < 2 ^ 128"
      using event(2) by (subst event(4), auto simp: prepared_def)+
    show ?thesis
      using lazy_commit_wf [OF prep(1) keys e(2) event(6) e(3) event(8)]
        event(5,7,9) prep by (simp add: store_funds_def total_shares_def)
  qed
  then show "store_wf st'" "allocated r + residual r = a"
    "store_funds st' = store_funds st + allocated r" "total_shares st' = total_shares st"
    "store_direction st' = store_direction st" by simp_all
qed

interpretation eager: distributor distribute
  by unfold_locales (rule distribute_wf; assumption)+

interpretation lazy: distributor distribute_lazy
  by unfold_locales (rule distribute_lazy_wf; assumption)+

section \<open>Catching every bucket up\<close>

lemma drain_all:
  assumes "fold_res (\<lambda>k (st, n). and_then (apply_pending_to_bucket k st) (\<lambda>(st', j).
      and_then (plus_w 64 n j) (\<lambda>n'. Ok (st', n')))) keys (st, n0) = Inr (st', n)"
  shows "drain_keys keys st = Inr st'"
  using assms
proof (induction keys arbitrary: st n0)
  case Nil
  then show ?case by (simp add: drain_keys_def)
next
  case (Cons k keys)
  from Cons.prems obtain st1 j where step: "apply_pending_to_bucket k st = Inr (st1, j)"
    and rest: "fold_res (\<lambda>k (st, n). and_then (apply_pending_to_bucket k st) (\<lambda>(st', j).
      and_then (plus_w 64 n j) (\<lambda>n'. Ok (st', n')))) keys (st1, n0 + j) = Inr (st', n)" by auto
  from Cons.IH [OF rest] step show ?case by (simp add: drain_keys_def)
qed

lemma apply_pending_to_all_Ok:
  assumes "store_wf st" and "apply_pending_to_all st = Inr (st', n)"
  shows "store_wf st'" and "same_window st st'" and "store_funds st' = store_funds st"
    and "pending_distribution_total st' = 0"
    and "bt_get (buckets st') = (\<lambda>k. map_option (caught_up st) (bt_get (buckets st) k))"
proof -
  note wf = store_wfD [OF assms(1)]
  have "distinct (bucket_ticks st)" using bt_wf_distinct [OF wf(1)] by (simp add: bucket_ticks_def)
  moreover have "drain_keys (bucket_ticks st) st = Inr st'"
    using assms(2) unfolding apply_pending_to_all_def by (rule drain_all)
  ultimately have dr: "drained (bucket_ticks st) st st'" using drain_keys_Ok [OF assms(1)] by simp
  then show wf': "store_wf st'" and win: "same_window st st'"
    and "store_funds st' = store_funds st" by (simp_all add: drained_def)
  have present: "k \<in> set (bucket_ticks st)" if "bt_get (buckets st) k = Some b" for k b
    using that bt.in_entries_iff [OF wf(1), of k b] by (force simp: bucket_ticks_def)
  show get: "bt_get (buckets st') = (\<lambda>k. map_option (caught_up st) (bt_get (buckets st) k))"
  proof (rule ext)
    show "bt_get (buckets st') k = map_option (caught_up st) (bt_get (buckets st) k)" for k
      using dr present [of k] by (cases "bt_get (buckets st) k") (simp_all add: drained_def)
  qed
  have "owed_to st' b = 0" if "bt_get (buckets st') k = Some b" for k b
  proof -
    from that get obtain b0 where b0: "bt_get (buckets st) k = Some b0" and b: "b = caught_up st b0"
      by auto
    have "last_applied_index b = next_event_index st'"
      using caught_up_index [OF wf(2)] store_wf_bucket [OF assms(1) b0] win
      by (simp add: b bucket_ok_def same_window_def)
    then show ?thesis using store_wfD(2) [OF wf'] by simp
  qed
  then have "total_owed st' = 0"
    unfolding total_owed_def bt.total_eq_sum [OF store_wfD(1) [OF wf'], simplified]
    by (intro sum.neutral) auto
  then show "pending_distribution_total st' = 0" using store_wfD(5) [OF wf'] by simp
qed

section \<open>The two paths are the same\<close>

text \<open>Two stores whose buckets catch up to the same state have the same caught-up store.\<close>

lemma caught_up_store_eq:
  assumes "store_wf st" and "store_wf st'" and "same_window st st'"
    and "store_funds st = store_funds st'"
    and "\<And>k. map_option (caught_up st) (bt_get (buckets st) k)
             = map_option (caught_up st') (bt_get (buckets st') k)"
    and "apply_pending_to_all st = Inr (sa, n)" and "apply_pending_to_all st' = Inr (sa', n')"
  shows "sa = sa'"
proof -
  note a = apply_pending_to_all_Ok [OF assms(1,6)] and a' = apply_pending_to_all_Ok [OF assms(2,7)]
  have "buckets sa = buckets sa'"
    using a(5) a'(5) assms(5) store_wfD(1) [OF a(1)] store_wfD(1) [OF a'(1)]
    by (intro bt_ext) (simp_all add: fun_eq_iff)
  moreover have "accrued_value_total sa = accrued_value_total sa'"
    using a(3,4) a'(3,4) assms(4) by (simp add: store_funds_def)
  ultimately show ?thesis
    using a(2,4) a'(2,4) assms(3) by (simp add: same_window_def)
qed

lemma eager_lazy_same:
  assumes "store_wf st" and "distribute p a m st = Inr (se, re)"
    and "distribute_lazy p a m st = Inr (sl, rl)"
    and "apply_pending_to_all se = Inr (ce, ne)" and "apply_pending_to_all sl = Inr (cl, nl)"
  shows "re = rl \<and> ce = cl"
  using assms(1,2)
proof (cases rule: distribute_cases)
  case nothing
  then show ?thesis using assms by (simp add: distribute_lazy_def)
next
  case idle
  from assms(1,3) show ?thesis
  proof (cases rule: distribute_lazy_cases)
    case (event st2 t e)
    with idle(2) prepared_unique show ?thesis by blast
  next
    case (idle)
    with \<open>prepared p m st se 0\<close> have "se = sl" using prepared_unique by blast
    with idle \<open>re = _\<close> assms show ?thesis by simp
  qed (use idle in simp)
next
  case (event st2 t e bs)
  note ev = event
  let ?keys = "activated_keys st p"
  from assms(1,3) show ?thesis
  proof (cases rule: distribute_lazy_cases)
    case (event st2' t' e')
    from prepared_unique [OF ev(2) event(2)] have eq: "st2' = st2" "t' = t" by simp_all
    have share: "entry_share d e' = entry_share d e" "credit d e' = credit d e" for d
      by (subst event(4), subst ev(4), simp add: fun_eq_iff entry_share_def credit_def eq)+
    then have shares: "shares_over ?keys e' st2 = shares_over ?keys e st2"
      by (simp add: shares_over_def)
    have e': "e' = e" by (subst event(4), subst ev(4)) (simp add: eq shares)
    note prep = prepared_facts [OF assms(1) ev(2)]
    note wf2 = store_wfD [OF prep(1)]
    have se: "store_wf se" using distribute_wf(1) [OF assms(1,2)] .
    have sl: "store_wf sl" using distribute_lazy_wf(1) [OF assms(1,3)] .
    have win: "same_window se sl"
      using ev(11) event(9) by (simp add: eq e' same_window_def)
    have funds: "store_funds se = store_funds sl"
      using ev(11) event(9) by (simp add: eq e' store_funds_def)
    have cuL: "caught_up sl b = caught_up (appended e st2) b" for b
      using event(9) by (intro caught_up_cong) (simp_all add: eq e')
    have cuE: "caught_up se b = caught_up (appended e st2) b" for b
      using ev(11) by (intro caught_up_cong) simp_all
    have idx: "event_index e = next_event_index st2" by (subst ev(4)) simp
    have "map_option (caught_up se) (bt_get (buckets se) k)
        = map_option (caught_up sl) (bt_get (buckets sl) k)" for k
    proof (cases "k \<in> set ?keys")
      case False
      then have "bt_get (buckets se) k = bt_get (buckets sl) k"
        using ev(10,11) event(9) by (simp add: eq)
      then show ?thesis by (cases "bt_get (buckets sl) k") (simp_all add: cuL cuE)
    next
      case True
      then obtain b where b: "bt_get (buckets st2) k = Some b"
        using prep(2) by (auto simp: settled_keys_def)
      have current: "last_applied_index b = next_event_index st2"
        using True b prep(2) by (simp add: settled_keys_def)
      have "caught_up sl b = credit (store_direction st2) e b"
        using owed_to_appended(2) [OF wf2(2) store_wf_bucket [OF prep(1) b]] current wf2(2)
        by (simp add: cuL)
      moreover have "caught_up se (credit (store_direction st2) e b) = credit (store_direction st2) e b"
        using store_wfD(2) [OF se] ev(11) idx by (intro owed_to_current(2)) simp_all
      ultimately show ?thesis using True b ev(10,11) event(9) by (simp add: eq)
    qed
    from caught_up_store_eq [OF se sl win funds this assms(4,5)] show ?thesis
      using ev(7) event(7) by (simp add: eq e' shares)
  qed (use ev prepared_unique in \<open>auto dest: prepared_unique\<close>)
qed

section \<open>The pure-read prediction\<close>

text \<open>
  \<open>pending_for_bucket\<close> walks the same entries on a simulated accrued value. Step by step it
  agrees with the replay that writes the bucket.
\<close>

lemma compute_intrinsic_update [simp]:
  "compute_intrinsic d (b\<lparr>accrued_value := a\<rparr>) p = compute_intrinsic d b p"
  "compute_intrinsic d (b\<lparr>last_applied_index := i\<rparr>) p = compute_intrinsic d b p"
  by (cases d; simp add: compute_intrinsic_def)+

lemma pending_entry_replay:
  assumes "replay_entry d e (b\<lparr>accrued_value := a, last_applied_index := i\<rparr>, delta, n)
    = Inr (b', delta', n')"
  obtains a' i' where "b' = b\<lparr>accrued_value := a', last_applied_index := i'\<rparr>"
    and "pending_entry d b e (a, delta) = Inr (a', delta')"
proof -
  from assms obtain c where
      c: "(if total_outstanding_at_event e = 0
           then Ok (b\<lparr>accrued_value := a, last_applied_index := i\<rparr>, delta)
           else replay_credit d e (b\<lparr>accrued_value := a, last_applied_index := i\<rparr>, delta)) = Inr (c, delta')"
    and b': "b' = c\<lparr>last_applied_index := event_index e + 1\<rparr>"
    by (auto simp: replay_entry_def)
  let ?live = "total_outstanding_at_event e \<noteq> 0 \<and> activated d (p_at_event e) b
    \<and> 0 < total_recovery_notional b \<and> 0 < anchor_price b"
  have "\<exists>a'. c = b\<lparr>accrued_value := a', last_applied_index := i\<rparr>
      \<and> pending_entry d b e (a, delta) = Inr (a', delta')"
  proof (cases ?live)
    case False
    with c have "c = b\<lparr>accrued_value := a, last_applied_index := i\<rparr>" "delta' = delta"
      by (auto simp: replay_credit_def split: if_splits)
    with False show ?thesis by (auto simp: pending_entry_def)
  next
    case True
    with c obtain v where v: "compute_intrinsic d b (p_at_event e) = Inr v"
      by (auto simp: replay_credit_def)
    show ?thesis
    proof (cases "v - a = 0")
      case zero: True
      with c True v have "c = b\<lparr>accrued_value := a, last_applied_index := i\<rparr>" "delta' = delta"
        by (simp_all add: replay_credit_def)
      with zero True v show ?thesis by (auto simp: pending_entry_def)
    next
      case False
      with c True v obtain q where q:
          "mul_div_floor (total_alloc_input e) (v - a) (total_outstanding_at_event e) = Inr q"
        by (auto simp: replay_credit_def Let_def)
      show ?thesis
      proof (cases "q = 0")
        case zero: True
        with c True v False q have "c = b\<lparr>accrued_value := a, last_applied_index := i\<rparr>" "delta' = delta"
          by (simp_all add: replay_credit_def Let_def)
        with zero True v False q show ?thesis by (auto simp: pending_entry_def Let_def)
      next
        case nz: False
        with c True v False q have "c = b\<lparr>accrued_value := a + min q (v - a), last_applied_index := i\<rparr>"
          and "delta' = delta + min q (v - a)"
          and "a + min q (v - a) < 2 ^ 128" and "delta + min q (v - a) < 2 ^ 128"
          by (auto simp: replay_credit_def Let_def)
        with nz True v False q show ?thesis
          by (auto simp: pending_entry_def Let_def)
      qed
    qed
  qed
  then obtain a' where "c = b\<lparr>accrued_value := a', last_applied_index := i\<rparr>"
    "pending_entry d b e (a, delta) = Inr (a', delta')" by blast
  with b' show ?thesis by (intro that [of "event_index e + 1" a']) simp_all
qed

lemma pending_entries_replay:
  assumes "fold_res (replay_entry d) es (b\<lparr>accrued_value := a, last_applied_index := i\<rparr>, delta, n)
    = Inr (b', delta', n')"
  shows "fold_res (pending_entry d b) es (a, delta) = Inr (accrued_value b', delta')"
  using assms
proof (induction es arbitrary: a i delta n)
  case (Cons e es)
  from Cons.prems obtain c dc nc where
      step: "replay_entry d e (b\<lparr>accrued_value := a, last_applied_index := i\<rparr>, delta, n) = Inr (c, dc, nc)"
    and rest: "fold_res (replay_entry d) es (c, dc, nc) = Inr (b', delta', n')" by auto
  from step obtain a' i' where c: "c = b\<lparr>accrued_value := a', last_applied_index := i'\<rparr>"
    and p: "pending_entry d b e (a, delta) = Inr (a', dc)" by (rule pending_entry_replay)
  from Cons.IH [OF rest [unfolded c]] p show ?case by simp
qed auto

lemma pending_predicts_apply:
  assumes "store_wf st" and "bt_get (buckets st) k = Some b"
    and "apply_pending_to_bucket k st = Inr (st', n)"
  shows "pending_for_bucket st k = Inr (owed_to st b)"
proof (cases "next_event_index st \<le> last_applied_index b")
  case True
  then have "last_applied_index b = next_event_index st"
    using store_wf_bucket [OF assms(1,2)] by (simp add: bucket_ok_def)
  with assms(2) store_wfD(2) [OF assms(1)] show ?thesis by (simp add: pending_for_bucket_def)
next
  case False
  note ok = store_wf_bucket [OF assms(1,2)]
  from False assms(2,3) ok obtain es b' delta where es: "ledger_from st (last_applied_index b) = Inr es"
    and loop: "fold_res (replay_entry (store_direction st)) es (b, 0, 0) = Inr (b', delta, n)"
    by (auto simp: apply_pending_to_bucket_def Let_def bucket_ok_def split: if_splits)
  have un: "es = unapplied st b" using es by (auto simp: ledger_from_def unapplied_def split: if_splits)
  have "anchor_price b < 2 ^ 128" and "entries_in_range es"
    using ok store_wfD(2) [OF assms(1)] by (simp_all add: bucket_ok_def window_ok_def un unapplied_def)
  from replay_entries_Ok [OF loop this] have "delta = owed_to st b" by (simp add: owed_to_def un)
  moreover have "fold_res (pending_entry (store_direction st) b) es (accrued_value b, 0)
      = Inr (accrued_value b', delta)"
    using loop
    by (intro pending_entries_replay [where i = "last_applied_index b" and n = 0 and n' = n]) simp
  ultimately show ?thesis
    using assms(2) False es ok by (simp add: pending_for_bucket_def bucket_ok_def)
qed

end
