(* ===== verification/Dormant_Check.thy ===== *)
theory Dormant_Check
  imports Dormant_Commit
begin

text \<open>
  The two validators of a dormant store, \<open>DormantStore::check_invariants\<close> and
  \<open>DormantStore::from_onchain_parts\<close>: exactly which stores the first accepts, exactly which
  parts the second does, and that a well-formed store passes and survives being taken apart
  and rebuilt.
\<close>

section \<open>Running sums\<close>

definition observed :: "dist_entry list \<Rightarrow> nat" where
  "observed es = (\<Sum>e\<leftarrow>es. allocated_sum_observed e)"

lemma sum_allocated_from:
  assumes "s < 2 ^ 128"
  shows "fold_res (\<lambda>e s. add_c s (allocated_sum_observed e)) es s = Inr t
    \<longleftrightarrow> t = s + observed es \<and> t < 2 ^ 128"
  using assms
proof (induction es arbitrary: s)
  case (Cons e es)
  then show ?case
    by (cases "s + allocated_sum_observed e < 2 ^ 128") (auto simp: observed_def)
qed (auto simp: observed_def)

lemma sum_allocated_iff:
  "sum_allocated es = Inr t \<longleftrightarrow> t = observed es \<and> t < 2 ^ 128"
  using sum_allocated_from [of 0 es t] by (simp add: sum_allocated_def)

definition index_ok :: "u64 \<Rightarrow> u64 \<Rightarrow> dormant_bucket \<Rightarrow> bool" where
  "index_ok gc n b \<longleftrightarrow> gc \<le> last_applied_index b \<and> last_applied_index b \<le> n"

lemma check_indices_iff:
  assumes "s < 2 ^ 128"
  shows "fold_res (\<lambda>(k, b). check_bucket_indices st b) kbs s = Inr t
    \<longleftrightarrow> (\<forall>(k, b)\<in>set kbs. index_ok (ledger_gc_offset st) (next_event_index st) b)
        \<and> t = s + (\<Sum>(k, b)\<leftarrow>kbs. accrued_value b) \<and> t < 2 ^ 128"
  using assms
proof (induction kbs arbitrary: s)
  case (Cons kb kbs)
  obtain k b where kb: "kb = (k, b)" by (cases kb)
  show ?case
  proof (cases "s + accrued_value b < 2 ^ 128
      \<and> index_ok (ledger_gc_offset st) (next_event_index st) b")
    case True
    then have "check_bucket_indices st b s = Inr (s + accrued_value b)"
      by (simp add: check_bucket_indices_def index_ok_def checked_add_m_def checked_add_w_def)
    with Cons.IH [of "s + accrued_value b"] True kb show ?thesis by (auto simp: add.assoc)
  next
    case False
    then have "check_bucket_indices st b s \<noteq> Inr u" for u
      by (auto simp: check_bucket_indices_def index_ok_def)
    with False kb show ?thesis by auto
  qed
qed auto

section \<open>The runtime check\<close>

lemma check_store_invariants_iff:
  "check_store_invariants st = Ok () \<longleftrightarrow>
     (\<forall>(k, b)\<in>set (buckets st). index_ok (ledger_gc_offset st) (next_event_index st) b)
     \<and> accrued_value_total st = total_accrued st \<and> total_accrued st < 2 ^ 128
     \<and> next_event_index st = ledger_gc_offset st + ledger_len st \<and> next_event_index st < 2 ^ 64
     \<and> observed (ledger st) < 2 ^ 128 \<and> pending_distribution_total st \<le> observed (ledger st)"
  by (auto simp: check_store_invariants_def check_indices_iff sum_allocated_iff total_accrued_def
    ledger_len_def)

lemma store_wf_check:
  assumes "store_wf st" and "observed (ledger st) < 2 ^ 128"
    and "pending_distribution_total st \<le> observed (ledger st)"
  shows "check_store_invariants st = Ok ()"
proof -
  note wf = store_wfD [OF assms(1)]
  have "index_ok (ledger_gc_offset st) (next_event_index st) b" if "(k, b) \<in> set (buckets st)" for k b
    using that assms(1) by (auto simp: store_wf_def bucket_ok_def index_ok_def)
  then show ?thesis
    using wf assms window_length [OF wf(2)]
    by (auto simp: check_store_invariants_iff window_ok_def ledger_len_def)
qed

section \<open>Rebuilding a store\<close>

lemma admit_bucket_iff:
  "admit_bucket d gc n (k, b) (m, s) = Inr (m', s') \<longleftrightarrow>
     bucket_direction b = d \<and> index_ok gc n b \<and> bt_get m k = None
     \<and> s' = s + accrued_value b \<and> s' < 2 ^ 128 \<and> m' = bt_put k b m"
  by (auto simp: admit_bucket_def index_ok_def not_less)

text \<open>Entries in ascending key order are admitted one after the other, at the end of the map.\<close>

lemma bt_put_last:
  assumes "\<forall>k'\<in>fst ` set m. k' < k"
  shows "bt_put k v m = m @ [(k, v)]"
  using assms by (induction k v m rule: bt_put.induct) auto

lemma admit_sorted:
  assumes "sorted_wrt (<) (map fst (m @ kbs))"
    and "\<forall>(k, b)\<in>set kbs. bucket_direction b = d \<and> index_ok gc n b"
    and "s + (\<Sum>(k, b)\<leftarrow>kbs. accrued_value b) < 2 ^ 128"
  shows "fold_res (admit_bucket d gc n) kbs (m, s)
    = Inr (m @ kbs, s + (\<Sum>(k, b)\<leftarrow>kbs. accrued_value b))"
  using assms
proof (induction kbs arbitrary: m s)
  case (Cons kb kbs)
  obtain k b where kb: "kb = (k, b)" by (cases kb)
  have less: "\<forall>k'\<in>fst ` set m. k' < k"
    using Cons.prems(1) kb by (auto simp: sorted_wrt_append)
  then have new: "bt_get m k = None" by (auto simp: bt_get_None_iff)
  have "admit_bucket d gc n (k, b) (m, s) = Inr (m @ [(k, b)], s + accrued_value b)"
    using Cons.prems(2,3) kb new bt_put_last [OF less] by (simp add: admit_bucket_iff)
  with Cons.IH [of "m @ [(k, b)]" "s + accrued_value b"] Cons.prems kb show ?case
    by (simp add: add.assoc)
qed simp

lemma rebuild_store:
  assumes "store_wf st" and "observed (ledger st) < 2 ^ 128"
    and "pending_distribution_total st \<le> observed (ledger st)"
  shows "from_onchain_parts (store_direction st) (buckets st) (ledger st) (ledger_gc_offset st)
      (next_event_index st) (accrued_value_total st) (pending_distribution_total st) = Ok st"
proof -
  note wf = store_wfD [OF assms(1)]
  have "\<forall>(k, b)\<in>set (buckets st). bucket_direction b = store_direction st
      \<and> index_ok (ledger_gc_offset st) (next_event_index st) b"
    using assms(1) by (auto simp: store_wf_def bucket_ok_def index_ok_def)
  then have "fold_res (admit_bucket (store_direction st) (ledger_gc_offset st) (next_event_index st))
      (buckets st) (bt_empty, 0) = Inr (buckets st, accrued_value_total st)"
    using admit_sorted [of "[]" "buckets st" "store_direction st" "ledger_gc_offset st"
      "next_event_index st" 0] wf by (simp add: bt_empty_def bt_wf_def total_accrued_def)
  moreover have "sum_allocated (ledger st) = Inr (observed (ledger st))"
    using assms(2) by (simp add: sum_allocated_iff)
  ultimately show ?thesis
    using wf window_length [OF wf(2)] assms(3)
    by (simp add: from_onchain_parts_def checked_add_w_def window_ok_def)
qed

text \<open>What is rebuilt passes the runtime check.\<close>

lemma admitted_facts:
  assumes "fold_res (admit_bucket d gc n) kbs (m, s) = Inr (m', s')" and "bt_wf m"
    and "s = (\<Sum>(k, b)\<leftarrow>m. accrued_value b)" and "s < 2 ^ 128"
    and "\<And>k b. bt_get m k = Some b \<Longrightarrow> bucket_direction b = d \<and> index_ok gc n b"
  shows "bt_wf m' \<and> s' = (\<Sum>(k, b)\<leftarrow>m'. accrued_value b) \<and> s' < 2 ^ 128
    \<and> (\<forall>k b. bt_get m' k = Some b \<longrightarrow> bucket_direction b = d \<and> index_ok gc n b)"
  using assms
proof (induction kbs arbitrary: m s)
  case (Cons kb kbs)
  obtain k b where kb: "kb = (k, b)" by (cases kb)
  from Cons.prems(1) kb obtain m1 s1 where step: "admit_bucket d gc n (k, b) (m, s) = Inr (m1, s1)"
    and rest: "fold_res (admit_bucket d gc n) kbs (m1, s1) = Inr (m', s')" by auto
  from step have s: "bucket_direction b = d" "index_ok gc n b" "bt_get m k = None"
    "s1 = s + accrued_value b" "s1 < 2 ^ 128" "m1 = bt_put k b m" by (simp_all add: admit_bucket_iff)
  show ?case
  proof (rule Cons.IH [OF rest])
    show "bt_wf m1" using Cons.prems(2) by (simp add: s bt_wf_put)
    show "s1 = (\<Sum>(k, b)\<leftarrow>m1. accrued_value b)"
      using bt.total_put_new [OF Cons.prems(2) s(3), of "\<lambda>k. accrued_value" b] Cons.prems(3)
      by (simp add: s)
    show "bucket_direction b' = d \<and> index_ok gc n b'" if "bt_get m1 j = Some b'" for j b'
      using that Cons.prems(5) s(1,2) bt_get_put [OF Cons.prems(2)] by (auto simp: s(6) split: if_splits)
  qed (rule s)
qed auto

lemma rebuilt_store_checked:
  assumes "from_onchain_parts d kbs es gc n acc pend = Ok st" and "n < 2 ^ 64"
  shows "check_store_invariants st = Ok ()" and "bt_wf (buckets st)"
    and "store_direction st = d"
proof -
  from assms(1) obtain m where m: "fold_res (admit_bucket d gc n) kbs (bt_empty, 0) = Inr (m, acc)"
    and len: "gc + length es = n" and w: "observed es < 2 ^ 128" "pend \<le> observed es"
    and st: "st = \<lparr>store_direction = d, buckets = m, accrued_value_total = acc, ledger = es,
               ledger_gc_offset = gc, next_event_index = n, pending_distribution_total = pend\<rparr>"
    by (auto simp: from_onchain_parts_def sum_allocated_iff split: if_splits)
  have ad: "bt_wf m \<and> acc = (\<Sum>(k, b)\<leftarrow>m. accrued_value b) \<and> acc < 2 ^ 128
      \<and> (\<forall>k b. bt_get m k = Some b \<longrightarrow> bucket_direction b = d \<and> index_ok gc n b)"
    using admitted_facts [OF m] by (simp add: bt_empty_def)
  then have "\<forall>(k, b)\<in>set m. index_ok gc n b"
    using bt.in_entries_iff [of m] by auto
  with ad len w assms(2) show "check_store_invariants st = Ok ()" "bt_wf (buckets st)"
    "store_direction st = d"
    by (simp_all add: st check_store_invariants_iff total_accrued_def ledger_len_def)
qed

end
