(* ===== verification/Dormant_Shares.thy ===== *)
theory Dormant_Shares
  imports Dormant_Check
begin

text \<open>
  The recovery shares of each bucket. Catching up and distributing never touch them, a merge
  adds to one bucket, a redemption takes from one bucket. The locale \<open>distributor\<close> is
  extended by this law, and its live-bucket consequences are drawn there.
\<close>

definition bucket_shares :: "dormant_store \<Rightarrow> i64 \<Rightarrow> nat" where
  "bucket_shares st t = (case bt_get (buckets st) t of None \<Rightarrow> 0 | Some b \<Rightarrow> total_recovery_shares b)"

lemma bucket_shares_new [simp]: "bucket_shares (new_store d) t = 0"
  by (simp add: bucket_shares_def new_store_def bt_empty_def)

lemma settle_bucket_shares:
  assumes "store_wf st" and "bt_get (buckets st) k = Some b"
  shows "bucket_shares (settle k b st) = bucket_shares st"
  using assms by (auto simp: fun_eq_iff bucket_shares_def settle_get simp del: settle_fields)

lemma apply_pending_bucket_shares:
  assumes "store_wf st" and "apply_pending_to_bucket k st = Inr (st', n)"
  shows "bucket_shares st' = bucket_shares st"
proof (cases "bt_get (buckets st) k")
  case None
  with assms(2) show ?thesis by (simp add: apply_pending_None)
next
  case (Some b)
  then show ?thesis
    using apply_pending_Ok(1) [OF assms(1) Some assms(2)] settle_bucket_shares [OF assms(1)] by simp
qed

lemma drained_bucket_shares: "drained keys st st' \<Longrightarrow> bucket_shares st' = bucket_shares st"
  by (auto simp: fun_eq_iff drained_def bucket_shares_def split: option.splits)

lemma prepared_bucket_shares:
  assumes "store_wf st" and "prepared p m st st2 t"
  shows "bucket_shares st2 = bucket_shares st"
proof -
  obtain st1 where cap: "ensure_ledger_capacity m st = Inr st1"
    and drain: "drain_keys (activated_keys st p) st1 = Inr st2" using assms(2) by (auto simp: prepared_def)
  note s1 = ensure_capacity_Ok [OF assms(1) cap]
  have "drained (activated_keys st p) st1 st2"
    using drain_keys_Ok [OF s1(1) _ drain] activated_keys_facts(1) [OF store_wfD(1) [OF assms(1)]] by simp
  then show ?thesis using drained_bucket_shares s1(2) by (simp add: bucket_shares_def fun_eq_iff)
qed

section \<open>Merging and redeeming\<close>

lemma insert_or_merge_shares:
  assumes "store_wf st" and "insert_or_merge k anchor shares notion count m st = Inr st'"
  shows "bucket_shares st' = (bucket_shares st)(k := bucket_shares st k + shares)"
proof (cases "bt_get (buckets st) k")
  case None
  with assms store_wfD(1) [OF assms(1)] show ?thesis
    by (auto simp: insert_or_merge_def bucket_shares_def fun_eq_iff bt_get_put split: if_splits)
next
  case (Some b)
  from assms(2) Some obtain st1 n b0 b' where ap: "apply_pending_to_bucket k st = Inr (st1, n)"
    and b0: "bt_get (buckets st1) k = Some b0"
    and mb: "merge_bucket shares notion count b0 = Inr b'"
    and st': "st' = st1\<lparr>buckets := bt_put k b' (buckets st1)\<rparr>"
    by (auto simp: insert_or_merge_def)
  note wf1 = store_wfD(1) [OF apply_pending_Ok(3) [OF assms(1) Some ap]]
  have "bucket_shares st' = (bucket_shares st1)(k := total_recovery_shares b')"
    by (auto simp: st' bucket_shares_def fun_eq_iff bt_get_put [OF wf1])
  moreover have "total_recovery_shares b' = bucket_shares st1 k + shares"
    using mb b0 by (auto simp: merge_bucket_def bucket_shares_def)
  ultimately show ?thesis using apply_pending_bucket_shares [OF assms(1) ap] by simp
qed

lemma redeem_shares:
  assumes "store_wf st" and "redeem k s st = Inr (st', r)"
  shows "bucket_shares st' = (bucket_shares st)(k := bucket_shares st k - s)"
    and "s \<le> bucket_shares st k"
proof -
  from assms(2) obtain st1 n where ap: "apply_pending_to_bucket k st = Inr (st1, n)"
    and "bt_get (buckets st1) k \<noteq> None"
    by (auto simp: redeem_def)
  then obtain b where b: "bt_get (buckets st) k = Some b" and b1: "bt_get (buckets st1) k \<noteq> None"
    by (cases "bt_get (buckets st) k") (auto simp: apply_pending_None)
  note wf1 = store_wfD(1) [OF apply_pending_Ok(3) [OF assms(1) b ap]]
  have "bucket_shares st' = (bucket_shares st1)(k := bucket_shares st1 k - s) \<and> s \<le> bucket_shares st1 k"
  proof (cases "s = 0")
    case True
    with assms(2) ap show ?thesis by (auto simp: redeem_def)
  next
    case False
    with assms(2) ap b1 show ?thesis
      by (auto simp: redeem_def Let_def bucket_shares_def fun_eq_iff bt_get_put [OF wf1]
        bt_get_del [OF wf1] split: if_splits)
  qed
  then show "bucket_shares st' = (bucket_shares st)(k := bucket_shares st k - s)"
    "s \<le> bucket_shares st k"
    using apply_pending_bucket_shares [OF assms(1) ap] by simp_all
qed

section \<open>Distributing\<close>

locale share_distributor = distributor +
  assumes keeps_shares: "store_wf st \<Longrightarrow> dist p a m st = Inr (st', r)
    \<Longrightarrow> bucket_shares st' = bucket_shares st"

lemma distribute_bucket_shares:
  assumes "store_wf st" and "distribute p a m st = Inr (st', r)"
  shows "bucket_shares st' = bucket_shares st"
  using assms
proof (cases rule: distribute_cases)
  case (event st2 t e bs)
  then have "bucket_shares st' = bucket_shares st2"
    by (auto simp: bucket_shares_def fun_eq_iff split: option.splits)
  with prepared_bucket_shares [OF assms(1) event(2)] show ?thesis by simp
qed (simp_all add: prepared_bucket_shares [OF assms(1)])

lemma distribute_lazy_bucket_shares:
  assumes "store_wf st" and "distribute_lazy p a m st = Inr (st', r)"
  shows "bucket_shares st' = bucket_shares st"
  using assms
proof (cases rule: distribute_lazy_cases)
  case (event st2 t e)
  then have "bucket_shares st' = bucket_shares st2"
    by (auto simp: bucket_shares_def fun_eq_iff split: option.splits)
  with prepared_bucket_shares [OF assms(1) event(2)] show ?thesis by simp
qed (simp_all add: prepared_bucket_shares [OF assms(1)])

interpretation eager_shares: share_distributor distribute
  by unfold_locales (rule distribute_bucket_shares; assumption)

interpretation lazy_shares: share_distributor distribute_lazy
  by unfold_locales (rule distribute_lazy_bucket_shares; assumption)

end
