(* ===== verification/Market.thy ===== *)
theory Market
  imports Dormant_Shares
begin

text \<open>
  The mutable state of a sub-pool (\<open>SubPool\<close> of \<open>crates/clearing-core/src/market.rs\<close>) with
  its per-direction accessors, the rotate log that positions migrate by, and the runtime
  checks of \<open>crates/clearing-core/src/invariants.rs\<close>. A \<open>_mut\<close> accessor of the code is a
  setter here.
\<close>

section \<open>State\<close>

record rotate_record =
  generation_just_ended :: u64
  rr_bucket_tick :: i64
  rr_anchor_price :: u64

record sub_pool =
  sub_pool_id :: u32
  long_pool_equity :: u128
  short_pool_equity :: u128
  long_active_shares :: u128
  short_active_shares :: u128
  long_recovery_shares :: u128
  short_recovery_shares :: u128
  long_active_notional :: u128
  short_active_notional :: u128
  long_dormant :: dormant_store
  short_dormant :: dormant_store
  last_price :: u64
  last_sync_slot :: u64
  long_dust :: u128
  short_dust :: u128
  long_dormant_bucket_count :: u32
  short_dormant_bucket_count :: u32
  long_active_generation :: u64
  short_active_generation :: u64
  long_rotate_log :: "rotate_record list"
  short_rotate_log :: "rotate_record list"

definition new_sub_pool :: "u32 \<Rightarrow> u64 \<Rightarrow> u64 \<Rightarrow> sub_pool" where
  "new_sub_pool i price slot = \<lparr>sub_pool_id = i,
     long_pool_equity = 0, short_pool_equity = 0, long_active_shares = 0, short_active_shares = 0,
     long_recovery_shares = 0, short_recovery_shares = 0,
     long_active_notional = 0, short_active_notional = 0,
     long_dormant = new_store Long, short_dormant = new_store Short,
     last_price = price, last_sync_slot = slot, long_dust = 0, short_dust = 0,
     long_dormant_bucket_count = 0, short_dormant_bucket_count = 0,
     long_active_generation = 0, short_active_generation = 0,
     long_rotate_log = [], short_rotate_log = []\<rparr>"

section \<open>Accessors\<close>

definition pool_equity :: "direction \<Rightarrow> sub_pool \<Rightarrow> u128" where
  "pool_equity d sp = (case d of Long \<Rightarrow> long_pool_equity sp | Short \<Rightarrow> short_pool_equity sp)"

definition active_shares :: "direction \<Rightarrow> sub_pool \<Rightarrow> u128" where
  "active_shares d sp = (case d of Long \<Rightarrow> long_active_shares sp | Short \<Rightarrow> short_active_shares sp)"

definition recovery_shares :: "direction \<Rightarrow> sub_pool \<Rightarrow> u128" where
  "recovery_shares d sp =
     (case d of Long \<Rightarrow> long_recovery_shares sp | Short \<Rightarrow> short_recovery_shares sp)"

definition active_notional :: "direction \<Rightarrow> sub_pool \<Rightarrow> u128" where
  "active_notional d sp =
     (case d of Long \<Rightarrow> long_active_notional sp | Short \<Rightarrow> short_active_notional sp)"

definition dust :: "direction \<Rightarrow> sub_pool \<Rightarrow> u128" where
  "dust d sp = (case d of Long \<Rightarrow> long_dust sp | Short \<Rightarrow> short_dust sp)"

definition dormant :: "direction \<Rightarrow> sub_pool \<Rightarrow> dormant_store" where
  "dormant d sp = (case d of Long \<Rightarrow> long_dormant sp | Short \<Rightarrow> short_dormant sp)"

definition active_generation :: "direction \<Rightarrow> sub_pool \<Rightarrow> u64" where
  "active_generation d sp =
     (case d of Long \<Rightarrow> long_active_generation sp | Short \<Rightarrow> short_active_generation sp)"

definition rotate_log :: "direction \<Rightarrow> sub_pool \<Rightarrow> rotate_record list" where
  "rotate_log d sp = (case d of Long \<Rightarrow> long_rotate_log sp | Short \<Rightarrow> short_rotate_log sp)"

definition set_pool_equity :: "direction \<Rightarrow> u128 \<Rightarrow> sub_pool \<Rightarrow> sub_pool" where
  "set_pool_equity d v sp = (case d of Long \<Rightarrow> sp\<lparr>long_pool_equity := v\<rparr>
                             | Short \<Rightarrow> sp\<lparr>short_pool_equity := v\<rparr>)"

definition set_active_shares :: "direction \<Rightarrow> u128 \<Rightarrow> sub_pool \<Rightarrow> sub_pool" where
  "set_active_shares d v sp = (case d of Long \<Rightarrow> sp\<lparr>long_active_shares := v\<rparr>
                               | Short \<Rightarrow> sp\<lparr>short_active_shares := v\<rparr>)"

definition set_recovery_shares :: "direction \<Rightarrow> u128 \<Rightarrow> sub_pool \<Rightarrow> sub_pool" where
  "set_recovery_shares d v sp = (case d of Long \<Rightarrow> sp\<lparr>long_recovery_shares := v\<rparr>
                                 | Short \<Rightarrow> sp\<lparr>short_recovery_shares := v\<rparr>)"

definition set_active_notional :: "direction \<Rightarrow> u128 \<Rightarrow> sub_pool \<Rightarrow> sub_pool" where
  "set_active_notional d v sp = (case d of Long \<Rightarrow> sp\<lparr>long_active_notional := v\<rparr>
                                 | Short \<Rightarrow> sp\<lparr>short_active_notional := v\<rparr>)"

definition set_dust :: "direction \<Rightarrow> u128 \<Rightarrow> sub_pool \<Rightarrow> sub_pool" where
  "set_dust d v sp = (case d of Long \<Rightarrow> sp\<lparr>long_dust := v\<rparr> | Short \<Rightarrow> sp\<lparr>short_dust := v\<rparr>)"

definition set_dormant :: "direction \<Rightarrow> dormant_store \<Rightarrow> sub_pool \<Rightarrow> sub_pool" where
  "set_dormant d v sp = (case d of Long \<Rightarrow> sp\<lparr>long_dormant := v\<rparr> | Short \<Rightarrow> sp\<lparr>short_dormant := v\<rparr>)"

definition find_rotate_record :: "direction \<Rightarrow> u64 \<Rightarrow> sub_pool \<Rightarrow> rotate_record option" where
  "find_rotate_record d g sp = find (\<lambda>r. generation_just_ended r = g) (rotate_log d sp)"

definition push_rotate_record :: "direction \<Rightarrow> rotate_record \<Rightarrow> sub_pool \<Rightarrow> sub_pool clearing" where
  "push_rotate_record d r sp = (case d of
       Long \<Rightarrow>
         and_then (expect (checked_add_w 64 (long_active_generation sp) 1)
                     ''active generation overflow'') (\<lambda>g.
         Ok (sp\<lparr>long_rotate_log := long_rotate_log sp @ [r], long_active_generation := g\<rparr>))
     | Short \<Rightarrow>
         and_then (expect (checked_add_w 64 (short_active_generation sp) 1)
                     ''active generation overflow'') (\<lambda>g.
         Ok (sp\<lparr>short_rotate_log := short_rotate_log sp @ [r], short_active_generation := g\<rparr>)))"

text \<open>Plain additions, which panic past 128 bits.\<close>

definition total_redeemable :: "sub_pool \<Rightarrow> u128 clearing" where
  "total_redeemable sp =
     and_then (plus_w 128 (long_pool_equity sp) (short_pool_equity sp)) (\<lambda>a.
     and_then (plus_w 128 a (accrued_value_total (long_dormant sp))) (\<lambda>b.
     plus_w 128 b (accrued_value_total (short_dormant sp))))"

section \<open>Runtime invariants\<close>

definition inv2_active_shares_zero_iff_pool_zero :: "sub_pool \<Rightarrow> unit clearing" where
  "inv2_active_shares_zero_iff_pool_zero sp =
     (if (long_pool_equity sp = 0) \<noteq> (long_active_shares sp = 0)
      then Err (Invariant ''long pool equity / active shares zero-iff invariant'') else Ok ())"

definition inv2_active_shares_zero_iff_pool_zero_short :: "sub_pool \<Rightarrow> unit clearing" where
  "inv2_active_shares_zero_iff_pool_zero_short sp =
     (if (short_pool_equity sp = 0) \<noteq> (short_active_shares sp = 0)
      then Err (Invariant ''short pool equity / active shares zero-iff invariant'') else Ok ())"

definition inv4_active_notional_nonneg :: "sub_pool \<Rightarrow> unit clearing" where
  "inv4_active_notional_nonneg sp = Ok ()"

definition inv5_recovery_shares_match_buckets :: "sub_pool \<Rightarrow> unit clearing" where
  "inv5_recovery_shares_match_buckets sp =
     and_then (total_shares_of (long_dormant sp)) (\<lambda>long_total.
     if long_total \<noteq> long_recovery_shares sp then
       Err (Invariant ''long recovery_shares does not equal sum of bucket recovery shares'')
     else
       and_then (total_shares_of (short_dormant sp)) (\<lambda>short_total.
       if short_total \<noteq> short_recovery_shares sp then
         Err (Invariant ''short recovery_shares does not equal sum of bucket recovery shares'')
       else Ok ()))"

definition inv6_dormant_ledger_consistency :: "sub_pool \<Rightarrow> unit clearing" where
  "inv6_dormant_ledger_consistency sp =
     and_then (check_store_invariants (long_dormant sp)) (\<lambda>_.
     check_store_invariants (short_dormant sp))"

definition check_subpool_invariants :: "sub_pool \<Rightarrow> unit clearing" where
  "check_subpool_invariants sp =
     and_then (inv2_active_shares_zero_iff_pool_zero sp) (\<lambda>_.
     and_then (inv2_active_shares_zero_iff_pool_zero_short sp) (\<lambda>_.
     and_then (inv4_active_notional_nonneg sp) (\<lambda>_.
     and_then (inv5_recovery_shares_match_buckets sp) (\<lambda>_.
     inv6_dormant_ledger_consistency sp))))"

section \<open>The algebra of the accessors\<close>

named_theorems side_simps "accessors of updated sub-pools"

lemma pool_equity_set [side_simps]:
  "pool_equity d (set_pool_equity d' v sp) = (if d = d' then v else pool_equity d sp)"
  "pool_equity d (set_active_shares d' v sp) = pool_equity d sp"
  "pool_equity d (set_recovery_shares d' v sp) = pool_equity d sp"
  "pool_equity d (set_active_notional d' v sp) = pool_equity d sp"
  "pool_equity d (set_dust d' v sp) = pool_equity d sp"
  "pool_equity d (set_dormant d' s sp) = pool_equity d sp"
  by (cases d; cases d'; simp add: pool_equity_def set_pool_equity_def set_active_shares_def
    set_recovery_shares_def set_active_notional_def set_dust_def set_dormant_def)+

lemma active_shares_set [side_simps]:
  "active_shares d (set_pool_equity d' v sp) = active_shares d sp"
  "active_shares d (set_active_shares d' v sp) = (if d = d' then v else active_shares d sp)"
  "active_shares d (set_recovery_shares d' v sp) = active_shares d sp"
  "active_shares d (set_active_notional d' v sp) = active_shares d sp"
  "active_shares d (set_dust d' v sp) = active_shares d sp"
  "active_shares d (set_dormant d' s sp) = active_shares d sp"
  by (cases d; cases d'; simp add: active_shares_def set_pool_equity_def set_active_shares_def
    set_recovery_shares_def set_active_notional_def set_dust_def set_dormant_def)+

lemma recovery_shares_set [side_simps]:
  "recovery_shares d (set_pool_equity d' v sp) = recovery_shares d sp"
  "recovery_shares d (set_active_shares d' v sp) = recovery_shares d sp"
  "recovery_shares d (set_recovery_shares d' v sp) = (if d = d' then v else recovery_shares d sp)"
  "recovery_shares d (set_active_notional d' v sp) = recovery_shares d sp"
  "recovery_shares d (set_dust d' v sp) = recovery_shares d sp"
  "recovery_shares d (set_dormant d' s sp) = recovery_shares d sp"
  by (cases d; cases d'; simp add: recovery_shares_def set_pool_equity_def set_active_shares_def
    set_recovery_shares_def set_active_notional_def set_dust_def set_dormant_def)+

lemma active_notional_set [side_simps]:
  "active_notional d (set_pool_equity d' v sp) = active_notional d sp"
  "active_notional d (set_active_shares d' v sp) = active_notional d sp"
  "active_notional d (set_recovery_shares d' v sp) = active_notional d sp"
  "active_notional d (set_active_notional d' v sp) = (if d = d' then v else active_notional d sp)"
  "active_notional d (set_dust d' v sp) = active_notional d sp"
  "active_notional d (set_dormant d' s sp) = active_notional d sp"
  by (cases d; cases d'; simp add: active_notional_def set_pool_equity_def set_active_shares_def
    set_recovery_shares_def set_active_notional_def set_dust_def set_dormant_def)+

lemma dust_set [side_simps]:
  "dust d (set_pool_equity d' v sp) = dust d sp"
  "dust d (set_active_shares d' v sp) = dust d sp"
  "dust d (set_recovery_shares d' v sp) = dust d sp"
  "dust d (set_active_notional d' v sp) = dust d sp"
  "dust d (set_dust d' v sp) = (if d = d' then v else dust d sp)"
  "dust d (set_dormant d' s sp) = dust d sp"
  by (cases d; cases d'; simp add: dust_def set_pool_equity_def set_active_shares_def
    set_recovery_shares_def set_active_notional_def set_dust_def set_dormant_def)+

lemma dormant_set [side_simps]:
  "dormant d (set_pool_equity d' v sp) = dormant d sp"
  "dormant d (set_active_shares d' v sp) = dormant d sp"
  "dormant d (set_recovery_shares d' v sp) = dormant d sp"
  "dormant d (set_active_notional d' v sp) = dormant d sp"
  "dormant d (set_dust d' v sp) = dormant d sp"
  "dormant d (set_dormant d' s sp) = (if d = d' then s else dormant d sp)"
  by (cases d; cases d'; simp add: dormant_def set_pool_equity_def set_active_shares_def
    set_recovery_shares_def set_active_notional_def set_dust_def set_dormant_def)+

lemma generation_set [side_simps]:
  "active_generation d (set_pool_equity d' v sp) = active_generation d sp"
  "active_generation d (set_active_shares d' v sp) = active_generation d sp"
  "active_generation d (set_recovery_shares d' v sp) = active_generation d sp"
  "active_generation d (set_active_notional d' v sp) = active_generation d sp"
  "active_generation d (set_dust d' v sp) = active_generation d sp"
  "active_generation d (set_dormant d' s sp) = active_generation d sp"
  by (cases d; cases d'; simp add: active_generation_def set_pool_equity_def set_active_shares_def
    set_recovery_shares_def set_active_notional_def set_dust_def set_dormant_def)+

lemma rotate_log_set [side_simps]:
  "rotate_log d (set_pool_equity d' v sp) = rotate_log d sp"
  "rotate_log d (set_active_shares d' v sp) = rotate_log d sp"
  "rotate_log d (set_recovery_shares d' v sp) = rotate_log d sp"
  "rotate_log d (set_active_notional d' v sp) = rotate_log d sp"
  "rotate_log d (set_dust d' v sp) = rotate_log d sp"
  "rotate_log d (set_dormant d' s sp) = rotate_log d sp"
  by (cases d; cases d'; simp add: rotate_log_def set_pool_equity_def set_active_shares_def
    set_recovery_shares_def set_active_notional_def set_dust_def set_dormant_def)+

lemma clock_set [side_simps]:
  "last_price (set_pool_equity d v sp) = last_price sp"
  "last_price (set_active_shares d v sp) = last_price sp"
  "last_price (set_recovery_shares d v sp) = last_price sp"
  "last_price (set_active_notional d v sp) = last_price sp"
  "last_price (set_dust d v sp) = last_price sp"
  "last_price (set_dormant d s sp) = last_price sp"
  by (cases d; simp add: set_pool_equity_def set_active_shares_def
    set_recovery_shares_def set_active_notional_def set_dust_def set_dormant_def)+

lemma accessors_clock [side_simps]:
  "pool_equity d (sp\<lparr>last_price := p\<rparr>) = pool_equity d sp"
  "pool_equity d (sp\<lparr>last_sync_slot := s\<rparr>) = pool_equity d sp"
  "active_shares d (sp\<lparr>last_price := p\<rparr>) = active_shares d sp"
  "active_shares d (sp\<lparr>last_sync_slot := s\<rparr>) = active_shares d sp"
  "recovery_shares d (sp\<lparr>last_price := p\<rparr>) = recovery_shares d sp"
  "recovery_shares d (sp\<lparr>last_sync_slot := s\<rparr>) = recovery_shares d sp"
  "active_notional d (sp\<lparr>last_price := p\<rparr>) = active_notional d sp"
  "active_notional d (sp\<lparr>last_sync_slot := s\<rparr>) = active_notional d sp"
  "dust d (sp\<lparr>last_price := p\<rparr>) = dust d sp"
  "dust d (sp\<lparr>last_sync_slot := s\<rparr>) = dust d sp"
  "dormant d (sp\<lparr>last_price := p\<rparr>) = dormant d sp"
  "dormant d (sp\<lparr>last_sync_slot := s\<rparr>) = dormant d sp"
  "active_generation d (sp\<lparr>last_price := p\<rparr>) = active_generation d sp"
  "active_generation d (sp\<lparr>last_sync_slot := s\<rparr>) = active_generation d sp"
  "rotate_log d (sp\<lparr>last_price := p\<rparr>) = rotate_log d sp"
  "rotate_log d (sp\<lparr>last_sync_slot := s\<rparr>) = rotate_log d sp"
  by (cases d; simp add: pool_equity_def active_shares_def recovery_shares_def
    active_notional_def dust_def dormant_def active_generation_def rotate_log_def)+

lemma push_rotate_record_Ok:
  assumes "push_rotate_record d r sp = Inr sp'"
  shows "pool_equity d' sp' = pool_equity d' sp" and "active_shares d' sp' = active_shares d' sp"
    and "recovery_shares d' sp' = recovery_shares d' sp"
    and "active_notional d' sp' = active_notional d' sp" and "dust d' sp' = dust d' sp"
    and "dormant d' sp' = dormant d' sp" and "last_price sp' = last_price sp"
    and "active_generation d' sp'
      = (if d' = d then active_generation d sp + 1 else active_generation d' sp)"
    and "active_generation d sp + 1 < 2 ^ 64"
    and "rotate_log d' sp' = (if d' = d then rotate_log d sp @ [r] else rotate_log d' sp)"
    and "last_sync_slot sp' = last_sync_slot sp" and "sub_pool_id sp' = sub_pool_id sp"
  using assms
  by (cases d; cases d'; auto simp: push_rotate_record_def pool_equity_def active_shares_def
    recovery_shares_def active_notional_def dust_def dormant_def active_generation_def
    rotate_log_def)+

section \<open>Well-formed sub-pools\<close>

definition side_ok :: "direction \<Rightarrow> sub_pool \<Rightarrow> bool" where
  "side_ok d sp \<longleftrightarrow> store_wf (dormant d sp) \<and> store_direction (dormant d sp) = d
     \<and> recovery_shares d sp = total_shares (dormant d sp)
     \<and> pool_equity d sp < 2 ^ 128 \<and> active_shares d sp < 2 ^ 128
     \<and> active_notional d sp < 2 ^ 128 \<and> dust d sp < 2 ^ 128"

text \<open>Between operations a side has equity exactly when it has active shares.\<close>

definition side_wf :: "direction \<Rightarrow> sub_pool \<Rightarrow> bool" where
  "side_wf d sp \<longleftrightarrow> side_ok d sp \<and> (pool_equity d sp = 0 \<longleftrightarrow> active_shares d sp = 0)"

definition sub_pool_wf :: "sub_pool \<Rightarrow> bool" where
  "sub_pool_wf sp \<longleftrightarrow> side_wf Long sp \<and> side_wf Short sp"

lemma sub_pool_wf_iff: "sub_pool_wf sp \<longleftrightarrow> (\<forall>d. side_wf d sp)"
proof -
  have "(\<forall>d. P d) \<longleftrightarrow> P Long \<and> P Short" for P by (metis direction.exhaust)
  then show ?thesis by (simp add: sub_pool_wf_def)
qed

lemma sub_pool_wfD: "sub_pool_wf sp \<Longrightarrow> side_wf d sp"
  by (simp add: sub_pool_wf_iff)

text \<open>Everything the sub-pool holds, on both sides.\<close>

definition side_funds :: "direction \<Rightarrow> sub_pool \<Rightarrow> nat" where
  "side_funds d sp = pool_equity d sp + store_funds (dormant d sp) + dust d sp"

definition vault :: "sub_pool \<Rightarrow> nat" where
  "vault sp = side_funds Long sp + side_funds Short sp"

lemma vault_by_side: "vault sp = side_funds d sp + side_funds (opposite d) sp"
  by (cases d) (simp_all add: vault_def)

lemma total_shares_from:
  assumes "fold_res (\<lambda>(k, b) t. plus_w 128 t (total_recovery_shares b)) kbs s = Inr t"
  shows "t = s + (\<Sum>(k, b)\<leftarrow>kbs. total_recovery_shares b)"
  using assms
proof (induction kbs arbitrary: s)
  case (Cons kb kbs)
  obtain k b where kb: "kb = (k, b)" by (cases kb)
  with Cons.prems Cons.IH [of "s + total_recovery_shares b"] show ?case by simp
qed simp

lemma check_subpool_invariants_Ok:
  assumes "check_subpool_invariants sp = Inr u"
  shows "pool_equity d sp = 0 \<longleftrightarrow> active_shares d sp = 0"
    and "recovery_shares d sp = total_shares (dormant d sp)"
    and "check_store_invariants (dormant d sp) = Inr ()"
  using assms total_shares_from [of "buckets (long_dormant sp)" 0 "long_recovery_shares sp"]
    total_shares_from [of "buckets (short_dormant sp)" 0 "short_recovery_shares sp"]
  by (cases d; auto simp: check_subpool_invariants_def inv2_active_shares_zero_iff_pool_zero_def
    inv2_active_shares_zero_iff_pool_zero_short_def inv5_recovery_shares_match_buckets_def
    inv6_dormant_ledger_consistency_def pool_equity_def active_shares_def recovery_shares_def
    dormant_def total_shares_of_def total_shares_def split: if_splits)+

lemma new_sub_pool_wf: "sub_pool_wf (new_sub_pool i price slot)" and
  new_sub_pool_vault: "vault (new_sub_pool i price slot) = 0"
proof -
  have "total_shares (new_store d) = 0" "store_direction (new_store d) = d"
    "store_funds (new_store d) = 0" for d
    by (simp_all add: total_shares_def new_store_def store_funds_def bt_empty_def)
  then show "sub_pool_wf (new_sub_pool i price slot)" "vault (new_sub_pool i price slot) = 0"
    using new_store_wf
    by (simp_all add: sub_pool_wf_def side_wf_def side_ok_def new_sub_pool_def pool_equity_def
      active_shares_def recovery_shares_def active_notional_def dust_def dormant_def vault_def
      side_funds_def)
qed

end
