(* ===== verification/Engine.thy ===== *)
theory Engine
  imports Market
begin

text \<open>
  The clearing engine of \<open>crates/clearing-core/src/engine.rs\<close>: synchronising a sub-pool to an
  oracle price, rotating a wiped-out side into a dormant bucket, and the user operations that
  each run a sync first. A function that mutates the sub-pool or the position returns the new
  one; on an error nothing is returned, since every caller restores the state it had
  (\<open>close_position\<close>'s atomicity contract). The two mirrored arms of \<open>sync_pool\<close> are one
  definition over the winning direction.
\<close>

section \<open>Outcomes\<close>

record sync_outcome =
  long_to_pool_inflow :: u128
  short_to_pool_inflow :: u128
  long_to_recovery_inflow :: u128
  short_to_recovery_inflow :: u128
  long_residual_to_dust :: u128
  short_residual_to_dust :: u128
  long_rotated_to_recovery :: bool
  short_rotated_to_recovery :: bool
  so_events :: "engine_event list"

definition default_sync_outcome :: sync_outcome where
  "default_sync_outcome = \<lparr>long_to_pool_inflow = 0, short_to_pool_inflow = 0,
     long_to_recovery_inflow = 0, short_to_recovery_inflow = 0, long_residual_to_dust = 0,
     short_residual_to_dust = 0, long_rotated_to_recovery = False,
     short_rotated_to_recovery = False, so_events = []\<rparr>"

record open_outcome =
  oo_shares_minted :: u128
  oo_principal_into_pool :: u128
  oo_notional_added :: u128
  oo_dust :: u128
  oo_open_fee :: u64
  oo_events :: "engine_event list"

record close_outcome =
  co_active_value :: u128
  co_recovery_value :: u128
  co_withdrawable :: u128
  co_notional_removed :: u128
  co_events :: "engine_event list"

record force_close_outcome =
  fo_active_shares_burned :: u128
  fo_recovery_shares_burned :: u128
  fo_notional_removed :: u128
  fo_events :: "engine_event list"

record claim_recovery_outcome =
  cr_redeemable :: u128
  cr_recovery_shares_burned :: u128
  cr_events :: "engine_event list"

record pre_sync_outcome =
  pr_events_applied :: u64
  pr_pre_accrued_value :: u128
  pr_post_accrued_value :: u128
  pr_last_applied_index :: u64
  pr_pending_remaining :: u64
  pr_events :: "engine_event list"

record harvest_outcome =
  ho_amount :: u128
  ho_events :: "engine_event list"

record price_envelope =
  env_p_now :: u64
  env_slot :: u64
  env_expected_min :: u64
  env_expected_max :: u64

section \<open>Rotation\<close>

text \<open>The cast to a signed 64-bit integer keeps the low 64 bits.\<close>

definition as_i64 :: "nat \<Rightarrow> i64" where
  "as_i64 q = (let r = q mod 2 ^ 64 in if r < 2 ^ 63 then int r else int r - 2 ^ 64)"

definition bucket_tick_of :: "market_params \<Rightarrow> u64 \<Rightarrow> i64 clearing" where
  "bucket_tick_of market price =
     (if price_tick market = 0 \<or> tick_aggregation_factor market = 0 then
        Err (Invariant ''price_tick / aggregation == 0'')
      else
        let denom = price_tick market * tick_aggregation_factor market;
            q = price div denom
        in Ok (as_i64 q))"

definition rotate_active_to_recovery ::
  "market_params \<Rightarrow> direction \<Rightarrow> u64 \<Rightarrow> sub_pool \<Rightarrow> sub_pool clearing" where
  "rotate_active_to_recovery market d p_now sp =
     (let shares = active_shares d sp; notion = active_notional d sp in
      if shares = 0 then Ok sp
      else
        and_then (bucket_tick_of market p_now) (\<lambda>tick.
        and_then (insert_or_merge tick p_now shares notion 1
                    (max_dormant_bucket_count_per_direction market) (dormant d sp)) (\<lambda>store.
        and_then (add_c (recovery_shares d sp) shares) (\<lambda>rec.
        let sp1 = set_active_notional d 0 (set_active_shares d 0 (set_recovery_shares d rec
                    (set_dormant d store sp)))
        in push_rotate_record d \<lparr>generation_just_ended = active_generation d sp1,
             rr_bucket_tick = tick, rr_anchor_price = p_now\<rparr> sp1))))"

section \<open>Synchronisation\<close>

definition set_to_pool_inflow :: "direction \<Rightarrow> u128 \<Rightarrow> sync_outcome \<Rightarrow> sync_outcome" where
  "set_to_pool_inflow d v o' = (case d of Long \<Rightarrow> o'\<lparr>long_to_pool_inflow := v\<rparr>
                                | Short \<Rightarrow> o'\<lparr>short_to_pool_inflow := v\<rparr>)"

definition set_to_recovery_inflow :: "direction \<Rightarrow> u128 \<Rightarrow> sync_outcome \<Rightarrow> sync_outcome" where
  "set_to_recovery_inflow d v o' = (case d of Long \<Rightarrow> o'\<lparr>long_to_recovery_inflow := v\<rparr>
                                    | Short \<Rightarrow> o'\<lparr>short_to_recovery_inflow := v\<rparr>)"

definition set_residual_to_dust :: "direction \<Rightarrow> u128 \<Rightarrow> sync_outcome \<Rightarrow> sync_outcome" where
  "set_residual_to_dust d v o' = (case d of Long \<Rightarrow> o'\<lparr>long_residual_to_dust := v\<rparr>
                                  | Short \<Rightarrow> o'\<lparr>short_residual_to_dust := v\<rparr>)"

definition set_rotated :: "direction \<Rightarrow> sync_outcome \<Rightarrow> sync_outcome" where
  "set_rotated d o' = (case d of Long \<Rightarrow> o'\<lparr>long_rotated_to_recovery := True\<rparr>
                       | Short \<Rightarrow> o'\<lparr>short_rotated_to_recovery := True\<rparr>)"

definition push_event :: "engine_event \<Rightarrow> sync_outcome \<Rightarrow> sync_outcome" where
  "push_event ev o' = o'\<lparr>so_events := so_events o' @ [ev]\<rparr>"

definition sync_guards :: "market_params \<Rightarrow> price_envelope \<Rightarrow> unit clearing" where
  "sync_guards market env =
     and_then (assert_schema_version (schema_version market)) (\<lambda>_.
     if paused market then Err MarketPaused
     else if env_p_now env = 0 then Err OraclePriceZero
     else if env_p_now env < env_expected_min env \<or> env_p_now env > env_expected_max env
     then Err PriceProtectionFailed
     else Ok ())"

text \<open>
  The four demands in the order the code evaluates them: the pre-sync claims of both sides,
  the two signed increments, the post-sync claims, and the two totals.
\<close>

definition sync_demands ::
  "u64 \<Rightarrow> u64 \<Rightarrow> sub_pool \<Rightarrow> (u128 \<times> u128 \<times> u128 \<times> u128) clearing" where
  "sync_demands p_last p_now sp =
     and_then (total_outstanding_claim_at (long_dormant sp) p_last) (\<lambda>pre_long.
     and_then (total_outstanding_claim_at (short_dormant sp) p_last) (\<lambda>pre_short.
     and_then (lift_math (signed_pnl_increment (direction_sign Long)
                (long_active_notional sp) p_last p_now)) (\<lambda>long_pnl.
     and_then (lift_math (signed_pnl_increment (direction_sign Short)
                (short_active_notional sp) p_last p_now)) (\<lambda>short_pnl.
     and_then (total_outstanding_claim_at (long_dormant sp) p_now) (\<lambda>post_long.
     and_then (total_outstanding_claim_at (short_dormant sp) p_now) (\<lambda>post_short.
     let long_active = nat (max long_pnl 0); short_active = nat (max short_pnl 0) in
     and_then (add_c long_active (post_long - pre_long)) (\<lambda>long_total.
     and_then (add_c short_active (post_short - pre_short)) (\<lambda>short_total.
     Ok (long_active, long_total, short_active, short_total)))))))))"

definition distribute_by_mode ::
  "distribute_mode \<Rightarrow> u64 \<Rightarrow> u128 \<Rightarrow> u32 \<Rightarrow> dormant_store
   \<Rightarrow> (dormant_store \<times> distribution_receipt) clearing" where
  "distribute_by_mode mode p_now amount max_ledger st =
     (case mode of Eager \<Rightarrow> distribute p_now amount max_ledger st
      | Lazy \<Rightarrow> distribute_lazy p_now amount max_ledger st)"

text \<open>The recovery part of a transfer: distributed over the winner's buckets, the rest to its dust.\<close>

definition pay_recovery ::
  "market_params \<Rightarrow> u64 \<Rightarrow> direction \<Rightarrow> u128 \<Rightarrow> sub_pool \<times> sync_outcome
   \<Rightarrow> (sub_pool \<times> sync_outcome) clearing" where
  "pay_recovery market p_now d to_recovery s = (let (sp, o') = s in
     if to_recovery > 0 then
       and_then (distribute_by_mode (dormant_distribute_mode market) p_now to_recovery
                   (max_distribution_ledger_size market) (dormant d sp)) (\<lambda>(store, r).
       let sp1 = set_dormant d store sp in
       and_then (if residual r > 0 then
                   and_then (add_c (dust d sp1) (residual r)) (\<lambda>v.
                   Ok (set_dust d v sp1, set_residual_to_dust d (residual r) o'))
                 else Ok (sp1, o')) (\<lambda>(sp2, o2).
       and_then (sub_c to_recovery (residual r)) (\<lambda>inflow.
       Ok (sp2, set_to_recovery_inflow d inflow o2))))
     else Ok (sp, o'))"

definition settle_winner ::
  "market_params \<Rightarrow> u64 \<Rightarrow> direction \<Rightarrow> u128 \<Rightarrow> u128 \<Rightarrow> sub_pool \<times> sync_outcome
   \<Rightarrow> (sub_pool \<times> sync_outcome) clearing" where
  "settle_winner market p_now d active_demand total_demand s = (let (sp, o') = s in
     let transfer = min total_demand (pool_equity (opposite d) sp) in
     if transfer > 0 then
       and_then (mdf_c transfer active_demand total_demand) (\<lambda>to_active.
       and_then (sub_c transfer to_active) (\<lambda>to_recovery.
       and_then (add_c (pool_equity d sp) to_active) (\<lambda>won.
       and_then (sub_c (pool_equity (opposite d) sp) transfer) (\<lambda>left.
       let sp1 = set_pool_equity (opposite d) left (set_pool_equity d won sp) in
       and_then (pay_recovery market p_now d to_recovery (sp1, o')) (\<lambda>(sp2, o2).
       Ok (sp2, set_to_pool_inflow d to_active o2))))))
     else Ok (sp, o'))"

definition settle_sides ::
  "market_params \<Rightarrow> u64 \<Rightarrow> u128 \<times> u128 \<times> u128 \<times> u128 \<Rightarrow> sub_pool
   \<Rightarrow> (sub_pool \<times> sync_outcome) clearing" where
  "settle_sides market p_now demands sp =
     (let (long_active, long_total, short_active, short_total) = demands in
      if long_total > 0 then
        settle_winner market p_now Long long_active long_total (sp, default_sync_outcome)
      else if short_total > 0 then
        settle_winner market p_now Short short_active short_total (sp, default_sync_outcome)
      else Ok (sp, default_sync_outcome))"

definition pool_sync_event_of ::
  "sub_pool \<Rightarrow> u64 \<Rightarrow> u64 \<Rightarrow> sync_outcome \<Rightarrow> engine_event" where
  "pool_sync_event_of before p_now slot o' = PoolSync
     \<lparr>ps_sub_pool_id = sub_pool_id before, ps_p_last = last_price before, ps_p_now = p_now,
      ps_slot = slot,
      ps_long_active_shares_before = long_active_shares before,
      ps_short_active_shares_before = short_active_shares before,
      ps_long_active_notional_before = long_active_notional before,
      ps_short_active_notional_before = short_active_notional before,
      ps_long_pool_equity_before = long_pool_equity before,
      ps_short_pool_equity_before = short_pool_equity before,
      ps_long_to_pool_inflow = long_to_pool_inflow o',
      ps_short_to_pool_inflow = short_to_pool_inflow o',
      ps_long_to_recovery_inflow = long_to_recovery_inflow o',
      ps_short_to_recovery_inflow = short_to_recovery_inflow o',
      ps_long_residual_to_dust = long_residual_to_dust o',
      ps_short_residual_to_dust = short_residual_to_dust o'\<rparr>"

definition rotate_if_empty ::
  "market_params \<Rightarrow> u64 \<Rightarrow> u64 \<Rightarrow> direction \<Rightarrow> sub_pool \<times> sync_outcome
   \<Rightarrow> (sub_pool \<times> sync_outcome) clearing" where
  "rotate_if_empty market p_now slot d s = (let (sp, o') = s in
     if pool_equity d sp = 0 \<and> active_shares d sp > 0 then
       and_then (bucket_tick_of market p_now) (\<lambda>tick.
       and_then (rotate_active_to_recovery market d p_now sp) (\<lambda>sp'.
       Ok (sp', push_event (ActiveRotatedToRecovery
             \<lparr>ar_sub_pool_id = sub_pool_id sp', ar_direction = d, ar_bucket_tick = tick,
              ar_anchor_price = p_now, ar_migrated_shares = active_shares d sp,
              ar_migrated_notional = active_notional d sp,
              ar_generation_just_ended = active_generation d sp, ar_slot = slot\<rparr>)
           (set_rotated d o'))))
     else Ok (sp, o'))"

definition sync_move ::
  "market_params \<Rightarrow> price_envelope \<Rightarrow> sub_pool \<Rightarrow> (sub_pool \<times> sync_outcome) clearing" where
  "sync_move market env sp =
     and_then (lift_math (price_move_bps (last_price sp) (env_p_now env))) (\<lambda>move_bps.
     if move_bps > max_price_move_bps_per_sync market then Err PriceMoveTooLarge
     else
       and_then (sync_demands (last_price sp) (env_p_now env) sp) (\<lambda>demands.
       and_then (settle_sides market (env_p_now env) demands sp) (\<lambda>(sp1, o1).
       let sp2 = sp1\<lparr>last_price := env_p_now env, last_sync_slot := env_slot env\<rparr>;
           o2 = push_event (pool_sync_event_of sp (env_p_now env) (env_slot env) o1) o1 in
       and_then (rotate_if_empty market (env_p_now env) (env_slot env) Long (sp2, o2)) (\<lambda>s3.
       and_then (rotate_if_empty market (env_p_now env) (env_slot env) Short s3) (\<lambda>(sp4, o4).
       and_then (check_subpool_invariants sp4) (\<lambda>_. Ok (sp4, o4)))))))"

definition sync_pool ::
  "market_params \<Rightarrow> price_envelope \<Rightarrow> sub_pool \<Rightarrow> (sub_pool \<times> sync_outcome) clearing" where
  "sync_pool market env sp =
     and_then (sync_guards market env) (\<lambda>_.
     if last_price sp = 0 then
       let sp' = sp\<lparr>last_price := env_p_now env, last_sync_slot := env_slot env\<rparr> in
       and_then (check_subpool_invariants sp') (\<lambda>_. Ok (sp', default_sync_outcome))
     else if env_p_now env = last_price sp then
       let sp' = sp\<lparr>last_sync_slot := env_slot env\<rparr> in
       and_then (check_subpool_invariants sp') (\<lambda>_. Ok (sp', default_sync_outcome))
     else sync_move market env sp)"

end
