(* ===== verification/Engine_Ops.thy ===== *)
theory Engine_Ops
  imports Engine
begin

text \<open>
  The operations of \<open>crates/clearing-core/src/engine.rs\<close> that users and keepers call: lazy
  migration of a position, the catch-up of one bucket, opening, closing, forced closing,
  claiming recovery, and harvesting dust. All but the catch-up and the harvest run
  \<open>sync_pool\<close> first.
\<close>

section \<open>Lazy migration\<close>

definition lazy_migrate_position :: "sub_pool \<Rightarrow> position \<Rightarrow> (position \<times> bool) clearing" where
  "lazy_migrate_position sp pos =
     (if pos_active_shares pos = 0 then
        Ok (pos\<lparr>pos_active_generation := active_generation (pos_direction pos) sp\<rparr>, False)
      else
        let current = active_generation (pos_direction pos) sp in
        if pos_active_generation pos = current then Ok (pos, False)
        else
          and_then (ok_or (find_rotate_record (pos_direction pos) (pos_active_generation pos) sp)
                      (Invariant ''missing rotate record'')) (\<lambda>record.
          and_then (add_c (pos_recovery_shares pos) (pos_active_shares pos)) (\<lambda>rec.
          Ok (pos\<lparr>pos_recovery_shares := rec, recovery_bucket_tick := Some (rr_bucket_tick record),
                  zero_price := rr_anchor_price record, pos_active_shares := 0, notional := 0,
                  status := Dormant, pos_active_generation := current\<rparr>, True))))"

section \<open>Catching up one bucket\<close>

definition pre_sync_dormant_bucket ::
  "market_params \<Rightarrow> direction \<Rightarrow> i64 \<Rightarrow> u64 \<Rightarrow> sub_pool
   \<Rightarrow> (sub_pool \<times> pre_sync_outcome) clearing" where
  "pre_sync_dormant_bucket market d tick slot sp =
     and_then (assert_schema_version (schema_version market)) (\<lambda>_.
     if paused market then Err MarketPaused
     else
       and_then (ok_or (get_bucket (dormant d sp) tick) DormantBucketMissing) (\<lambda>before.
       and_then (ok_or (checked_sub_w (next_event_index (dormant d sp)) (last_applied_index before))
                   (Invariant ''bucket.last_applied_index ahead of ledger'')) (\<lambda>pending.
       if pending > max_pending_apply_per_tx market then Err DormantPendingBudgetExceeded
       else
         and_then (apply_pending_to_bucket tick (dormant d sp)) (\<lambda>(store, applied).
         and_then (ok_or (get_bucket store tick) DormantBucketMissing) (\<lambda>after.
         and_then (ok_or (checked_sub_w (next_event_index store) (last_applied_index after))
                     (Invariant ''bucket.last_applied_index ahead of ledger after apply''))
           (\<lambda>remaining.
         let sp' = set_dormant d store sp in
         and_then (check_subpool_invariants sp') (\<lambda>_.
         Ok (sp', \<lparr>pr_events_applied = applied, pr_pre_accrued_value = accrued_value before,
               pr_post_accrued_value = accrued_value after,
               pr_last_applied_index = last_applied_index after,
               pr_pending_remaining = remaining,
               pr_events = [DormantBucketPendingApplied
                 \<lparr>da_sub_pool_id = sub_pool_id sp, da_direction = d, da_bucket_tick = tick,
                  da_events_applied = applied, da_pre_accrued_value = accrued_value before,
                  da_post_accrued_value = accrued_value after,
                  da_last_applied_index = last_applied_index after, da_slot = slot\<rparr>]\<rparr>))))))))"

section \<open>Opening\<close>

text \<open>The fee, and the principal it leaves, checked against the margin bounds.\<close>

definition split_fee :: "market_params \<Rightarrow> u64 \<Rightarrow> (u64 \<times> u64) clearing" where
  "split_fee market gross =
     (if gross = 0 then Err MarginBelowMinimum
      else
        and_then (lift_math (mul_div_ceil gross (open_fee_bps market) BPS_SCALE)) (\<lambda>open_fee.
        and_then (if open_fee < 2 ^ 64 then Ok open_fee else Err MathOverflow) (\<lambda>fee.
        and_then (ok_or (checked_sub_w gross fee) MathOverflow) (\<lambda>prin.
        if prin < min_margin market then Err MarginBelowMinimum
        else if prin > max_margin_per_position market then Err MarginAboveMaximum
        else Ok (fee, prin)))))"

text \<open>Shares for a principal: the clean slate, or pro rata after the reverse-dilution check.\<close>

definition mint_shares ::
  "market_params \<Rightarrow> u128 \<Rightarrow> u128 \<Rightarrow> u64 \<Rightarrow> (u128 \<times> u128 \<times> u128) clearing" where
  "mint_shares market equity shares prin =
     (if equity = 0 then
        if shares \<noteq> 0 then Err (Invariant ''active shares non-zero with zero pool equity'')
        else Ok (prin, prin, 0)
      else
        and_then (mul_c equity BPS_SCALE) (\<lambda>lhs.
        and_then (mul_c shares (dilution_safety_bps market)) (\<lambda>rhs.
        if lhs < rhs then Err DilutionRiskTooHigh
        else
          and_then (mdf_c prin shares equity) (\<lambda>minted.
          if minted = 0 then Err SharesMintedTooSmall
          else
            and_then (mdf_c minted equity shares) (\<lambda>accounted.
            and_then (sub_c prin accounted) (\<lambda>rest.
            Ok (minted, accounted, rest)))))))"

definition open_position ::
  "market_params \<Rightarrow> price_envelope \<Rightarrow> direction \<Rightarrow> u64 \<Rightarrow> u64 \<Rightarrow> sub_pool
   \<Rightarrow> (sub_pool \<times> position \<times> open_outcome) clearing" where
  "open_position market env d gross pid sp0 =
     and_then (assert_schema_version (schema_version market)) (\<lambda>_.
     if frozen_new_position market then Err FrozenNewPosition
     else
       and_then (sync_pool market env sp0) (\<lambda>(sp, synced).
       and_then (split_fee market gross) (\<lambda>(fee, prin).
       and_then (mint_shares market (pool_equity d sp) (active_shares d sp) prin)
         (\<lambda>(minted, into_pool, rest).
       and_then (mdf_c prin (leverage_bps market) BPS_SCALE) (\<lambda>notional_added.
       and_then (add_c (pool_equity d sp) into_pool) (\<lambda>equity'.
       and_then (add_c (active_shares d sp) minted) (\<lambda>shares'.
       and_then (add_c (active_notional d sp) notional_added) (\<lambda>notional'.
       and_then (add_c (dust d sp) rest) (\<lambda>dust'.
       let sp' = set_dust d dust' (set_active_notional d notional' (set_active_shares d shares'
                   (set_pool_equity d equity' sp)));
           pos = \<lparr>owner = replicate 32 0, pos_sub_pool_id = sub_pool_id sp', position_id = pid,
                  pos_direction = d, status = Open, principal = prin, notional = notional_added,
                  pos_active_shares = minted, pos_recovery_shares = 0, recovery_bucket_tick = None,
                  zero_price = 0, entry_price = env_p_now env, pos_last_sync_slot = env_slot env,
                  opened_at_slot = env_slot env, updated_at_slot = env_slot env,
                  closed_at_slot = 0, pos_schema_version = schema_version market,
                  pos_active_generation = active_generation d sp'\<rparr>;
           ev = PositionOpened
                 \<lparr>po_position_id = pid, po_sub_pool_id = sub_pool_id sp', po_direction = d,
                  po_principal = prin, po_notional = notional_added, po_shares_minted = minted,
                  po_principal_into_pool = into_pool, po_dust = rest, po_open_fee = fee,
                  po_entry_price = env_p_now env,
                  po_active_generation = pos_active_generation pos, po_slot = env_slot env\<rparr> in
       and_then (check_subpool_invariants sp') (\<lambda>_.
       Ok (sp', pos, \<lparr>oo_shares_minted = minted, oo_principal_into_pool = into_pool,
              oo_notional_added = notional_added, oo_dust = rest, oo_open_fee = fee,
              oo_events = so_events synced @ [ev]\<rparr>)))))))))))"

section \<open>Burning shares\<close>

text \<open>
  The active part of a close. A pool at zero between the user's view and the execution pays
  nothing and leaves the shares.
\<close>

definition burn_active ::
  "sub_pool \<Rightarrow> position \<Rightarrow> (sub_pool \<times> position \<times> u128) clearing" where
  "burn_active sp pos = (let d = pos_direction pos in
     if pos_active_shares pos > 0 then
       if active_shares d sp = 0 \<or> pool_equity d sp = 0 then Ok (sp, pos, 0)
       else
         and_then (mdf_c (pool_equity d sp) (pos_active_shares pos) (active_shares d sp)) (\<lambda>value.
         and_then (sub_c (pool_equity d sp) value) (\<lambda>equity'.
         and_then (sub_c (active_shares d sp) (pos_active_shares pos)) (\<lambda>shares'.
         and_then (sub_c (active_notional d sp) (notional pos)) (\<lambda>notional'.
         Ok (set_active_notional d notional' (set_active_shares d shares'
               (set_pool_equity d equity' sp)),
             pos\<lparr>pos_active_shares := 0\<rparr>, value)))))
     else Ok (sp, pos, 0))"

text \<open>Redeeming all recovery shares of a position: the receipt and the tick it was redeemed at.\<close>

definition burn_recovery ::
  "sub_pool \<Rightarrow> position \<Rightarrow> (sub_pool \<times> position \<times> i64 \<times> redeem_receipt) clearing" where
  "burn_recovery sp pos = (let d = pos_direction pos in
     and_then (ok_or (recovery_bucket_tick pos) (Invariant ''recovery shares without bucket''))
       (\<lambda>tick.
     and_then (redeem tick (pos_recovery_shares pos) (dormant d sp)) (\<lambda>(store, receipt).
     and_then (sub_c (recovery_shares d sp) (burned_shares receipt)) (\<lambda>rec.
     Ok (set_recovery_shares d rec (set_dormant d store sp),
         pos\<lparr>pos_recovery_shares := 0, recovery_bucket_tick := None\<rparr>, tick, receipt)))))"

definition no_receipt :: redeem_receipt where
  "no_receipt = \<lparr>redeemable = 0, burned_shares = 0, burned_notional = 0\<rparr>"

definition burn_recovery_if_any ::
  "sub_pool \<Rightarrow> position \<Rightarrow> (sub_pool \<times> position \<times> redeem_receipt) clearing" where
  "burn_recovery_if_any sp pos =
     (if pos_recovery_shares pos > 0 then
        and_then (burn_recovery sp pos) (\<lambda>(sp', pos', tick, receipt). Ok (sp', pos', receipt))
      else Ok (sp, pos, no_receipt))"

definition mark_closed :: "u64 \<Rightarrow> position \<Rightarrow> position" where
  "mark_closed slot pos = pos\<lparr>notional := 0, status := Closed, closed_at_slot := slot,
     updated_at_slot := slot\<rparr>"

section \<open>Closing\<close>

definition close_position ::
  "market_params \<Rightarrow> price_envelope \<Rightarrow> sub_pool \<Rightarrow> position
   \<Rightarrow> (sub_pool \<times> position \<times> close_outcome) clearing" where
  "close_position market env sp0 pos0 =
     and_then (assert_schema_version (schema_version market)) (\<lambda>_.
     if pos_schema_version pos0 \<noteq> schema_version market then Err SchemaVersionMismatch
     else if status pos0 \<noteq> Open \<and> status pos0 \<noteq> Dormant then Err PositionNotOpen
     else
       and_then (sync_pool market env sp0) (\<lambda>(sp, synced).
       and_then (lazy_migrate_position sp pos0) (\<lambda>(pos, _).
       and_then (burn_active sp pos) (\<lambda>(sp1, pos1, active_value).
       and_then (burn_recovery_if_any sp1 pos1) (\<lambda>(sp2, pos2, receipt).
       and_then (add_c active_value (redeemable receipt)) (\<lambda>total.
       if total = 0 then Err WithdrawableZero
       else
         let ev = PositionClosed
               \<lparr>pc_position_id = position_id pos2, pc_sub_pool_id = sub_pool_id sp2,
                pc_direction = pos_direction pos2, pc_active_shares_burned = pos_active_shares pos,
                pc_recovery_shares_burned = burned_shares receipt,
                pc_recovery_notional_burned = burned_notional receipt,
                pc_active_value = active_value, pc_recovery_value = redeemable receipt,
                pc_withdrawable = total, pc_notional_removed = notional pos2,
                pc_slot = env_slot env\<rparr> in
         and_then (check_subpool_invariants sp2) (\<lambda>_.
         Ok (sp2, mark_closed (env_slot env) pos2,
             \<lparr>co_active_value = active_value, co_recovery_value = redeemable receipt,
              co_withdrawable = total, co_notional_removed = notional pos2,
              co_events = so_events synced @ [ev]\<rparr>))))))))"

section \<open>Forced closing\<close>

text \<open>The active part: only shares worth nothing may be burned. Returns the notional removed.\<close>

definition burn_worthless ::
  "sub_pool \<Rightarrow> position \<Rightarrow> (sub_pool \<times> position \<times> u128 \<times> u128) clearing" where
  "burn_worthless sp pos = (let d = pos_direction pos in
     if pos_active_shares pos > 0 then
       and_then (if active_shares d sp > 0 \<and> pool_equity d sp > 0 then
                   mdf_c (pool_equity d sp) (pos_active_shares pos) (active_shares d sp)
                 else Ok 0) (\<lambda>value.
       if value > 0 then
         Err (Invariant ''force_close called on active position with positive value'')
       else
         and_then (sub_c (active_shares d sp) (pos_active_shares pos)) (\<lambda>shares'.
         and_then (sub_c (active_notional d sp) (notional pos)) (\<lambda>notional'.
         Ok (set_active_notional d notional' (set_active_shares d shares' sp),
             pos\<lparr>pos_active_shares := 0\<rparr>, pos_active_shares pos, notional pos))))
     else Ok (sp, pos, 0, 0))"

text \<open>Forfeited recovery value goes to the dust of the position's side.\<close>

definition forfeit_recovery ::
  "sub_pool \<Rightarrow> position \<Rightarrow> (sub_pool \<times> position \<times> redeem_receipt \<times> u128) clearing" where
  "forfeit_recovery sp pos = (let d = pos_direction pos in
     if pos_recovery_shares pos > 0 then
       and_then (ok_or (recovery_bucket_tick pos) (Invariant ''recovery shares without bucket''))
         (\<lambda>tick.
       and_then (redeem tick (pos_recovery_shares pos) (dormant d sp)) (\<lambda>(store, receipt).
       let sp1 = set_dormant d store sp in
       and_then (if redeemable receipt > 0 then
                   and_then (add_c (dust d sp1) (redeemable receipt)) (\<lambda>v.
                   Ok (set_dust d v sp1, redeemable receipt))
                 else Ok (sp1, 0)) (\<lambda>(sp2, forfeited).
       and_then (sub_c (recovery_shares d sp2) (burned_shares receipt)) (\<lambda>rec.
       Ok (set_recovery_shares d rec sp2,
           pos\<lparr>pos_recovery_shares := 0, recovery_bucket_tick := None\<rparr>, receipt, forfeited)))))
     else Ok (sp, pos, no_receipt, 0))"

definition force_close_zero_value_position ::
  "market_params \<Rightarrow> price_envelope \<Rightarrow> bool \<Rightarrow> sub_pool \<Rightarrow> position
   \<Rightarrow> (sub_pool \<times> position \<times> force_close_outcome) clearing" where
  "force_close_zero_value_position market env acknowledge_forfeit sp0 pos0 =
     and_then (assert_schema_version (schema_version market)) (\<lambda>_.
     if pos_schema_version pos0 \<noteq> schema_version market then Err SchemaVersionMismatch
     else if \<not> acknowledge_forfeit then Err ForfeitAcknowledgementRequired
     else if status pos0 = Closed then Err PositionNotOpen
     else
       and_then (sync_pool market env sp0) (\<lambda>(sp, synced).
       and_then (lazy_migrate_position sp pos0) (\<lambda>(pos, _).
       and_then (burn_worthless sp pos) (\<lambda>(sp1, pos1, active_burned, notional_removed).
       and_then (forfeit_recovery sp1 pos1) (\<lambda>(sp2, pos2, receipt, forfeited).
       let ev = PositionForceClosed
             \<lparr>pf_position_id = position_id pos2, pf_sub_pool_id = sub_pool_id sp2,
              pf_direction = pos_direction pos2, pf_active_shares_burned = active_burned,
              pf_recovery_shares_burned = burned_shares receipt,
              pf_recovery_notional_burned = burned_notional receipt,
              pf_forfeited_recovery_value = forfeited, pf_notional_removed = notional_removed,
              pf_slot = env_slot env\<rparr> in
       and_then (check_subpool_invariants sp2) (\<lambda>_.
       Ok (sp2, mark_closed (env_slot env) pos2,
           \<lparr>fo_active_shares_burned = active_burned,
            fo_recovery_shares_burned = burned_shares receipt,
            fo_notional_removed = notional_removed,
            fo_events = so_events synced @ [ev]\<rparr>)))))))"

section \<open>Claiming and harvesting\<close>

definition claim_dormant_recovery ::
  "market_params \<Rightarrow> price_envelope \<Rightarrow> sub_pool \<Rightarrow> position
   \<Rightarrow> (sub_pool \<times> position \<times> claim_recovery_outcome) clearing" where
  "claim_dormant_recovery market env sp0 pos0 =
     and_then (assert_schema_version (schema_version market)) (\<lambda>_.
     if pos_schema_version pos0 \<noteq> schema_version market then Err SchemaVersionMismatch
     else
       and_then (sync_pool market env sp0) (\<lambda>(sp, synced).
       and_then (lazy_migrate_position sp pos0) (\<lambda>(pos, _).
       if pos_recovery_shares pos = 0 then Err PositionNotOpen
       else
         and_then (burn_recovery sp pos) (\<lambda>(sp1, pos1, tick, receipt).
         let ev = DormantRecoveryClaimed
               \<lparr>dc_position_id = position_id pos1, dc_sub_pool_id = sub_pool_id sp1,
                dc_direction = pos_direction pos1, dc_bucket_tick = tick,
                dc_recovery_shares_burned = burned_shares receipt,
                dc_recovery_notional_burned = burned_notional receipt,
                dc_redeemable = redeemable receipt, dc_slot = env_slot env\<rparr> in
         and_then (check_subpool_invariants sp1) (\<lambda>_.
         Ok (sp1, pos1\<lparr>updated_at_slot := env_slot env\<rparr>,
             \<lparr>cr_redeemable = redeemable receipt,
              cr_recovery_shares_burned = burned_shares receipt,
              cr_events = so_events synced @ [ev]\<rparr>))))))"

definition harvest_dust ::
  "market_params \<Rightarrow> direction \<Rightarrow> sub_pool \<Rightarrow> (sub_pool \<times> harvest_outcome) clearing" where
  "harvest_dust market d sp =
     and_then (assert_schema_version (schema_version market)) (\<lambda>_.
     if paused market then Err MarketPaused
     else
       let amount = dust d sp; sp' = set_dust d 0 sp in
       and_then (check_subpool_invariants sp') (\<lambda>_.
       Ok (sp', \<lparr>ho_amount = amount, ho_events = [DustHarvested
             \<lparr>dh_sub_pool_id = sub_pool_id sp', dh_direction = d, dh_amount = amount\<rparr>]\<rparr>)))"

end
