(* ===== verification/Engine_Facts.thy ===== *)
theory Engine_Facts
  imports Engine
begin

text \<open>
  What synchronising a sub-pool keeps: every side stays well formed, and the funds of the
  whole sub-pool, the equity of both sides, everything their dormant stores hold and their
  dust, are the same before and after. Funds move from one side to the other only through
  \<open>settle_winner\<close>, at most the demand and at most what the losing side has.
\<close>

section \<open>The distribution the engine runs\<close>

interpretation by_mode: share_distributor "distribute_by_mode mode" for mode
proof (cases mode)
  case Eager
  then show "share_distributor (distribute_by_mode mode)"
    using eager_shares.share_distributor_axioms by (simp add: distribute_by_mode_def [abs_def])
next
  case Lazy
  then show "share_distributor (distribute_by_mode mode)"
    using lazy_shares.share_distributor_axioms by (simp add: distribute_by_mode_def [abs_def])
qed

section \<open>Paying the winner\<close>

definition sides_ok :: "sub_pool \<Rightarrow> bool" where
  "sides_ok sp \<longleftrightarrow> (\<forall>d. side_ok d sp)"

lemma sides_okD: "sides_ok sp \<Longrightarrow> side_ok d sp"
  by (simp add: sides_ok_def)

lemma sub_pool_wf_sides: "sub_pool_wf sp \<Longrightarrow> sides_ok sp"
  by (simp add: sub_pool_wf_iff sides_ok_def side_wf_def)

lemma checked_wf: "sides_ok sp \<Longrightarrow> check_subpool_invariants sp = Inr u \<Longrightarrow> sub_pool_wf sp"
  using check_subpool_invariants_Ok(1) by (auto simp: sub_pool_wf_iff sides_ok_def side_wf_def)

lemma opposite_neq [simp]: "d \<noteq> opposite d"
  by (cases d) simp_all

lemma pay_recovery_Ok:
  assumes "sides_ok sp" and "pay_recovery market p w r (sp, o1) = Inr (sp', o2)"
  shows "sides_ok sp'" and "side_funds w sp' = side_funds w sp + r"
    and "side_funds (opposite w) sp' = side_funds (opposite w) sp"
    and "pool_equity d sp' = pool_equity d sp" and "active_shares d sp' = active_shares d sp"
    and "active_notional d sp' = active_notional d sp" and "recovery_shares d sp' = recovery_shares d sp"
    and "active_generation d sp' = active_generation d sp" and "rotate_log d sp' = rotate_log d sp"
    and "bucket_shares (dormant d sp') = bucket_shares (dormant d sp)"
proof -
  have "sides_ok sp' \<and> side_funds w sp' = side_funds w sp + r
    \<and> side_funds (opposite w) sp' = side_funds (opposite w) sp
    \<and> (\<forall>d. pool_equity d sp' = pool_equity d sp \<and> active_shares d sp' = active_shares d sp
      \<and> active_notional d sp' = active_notional d sp \<and> recovery_shares d sp' = recovery_shares d sp
      \<and> active_generation d sp' = active_generation d sp \<and> rotate_log d sp' = rotate_log d sp
      \<and> bucket_shares (dormant d sp') = bucket_shares (dormant d sp))"
  proof (cases "r = 0")
    case True
    with assms show ?thesis by (simp add: pay_recovery_def)
  next
    case False
    then obtain store rc where dist: "distribute_by_mode (dormant_distribute_mode market) p r
        (max_distribution_ledger_size market) (dormant w sp) = Inr (store, rc)"
      using assms(2) by (auto simp: pay_recovery_def)
    have wf: "store_wf (dormant w sp)" using sides_okD [OF assms(1), of w] by (simp add: side_ok_def)
    note laws = by_mode.keeps_shares [OF wf dist] by_mode.keeps_wf [OF wf dist] by_mode.splits [OF wf dist] by_mode.funds [OF wf dist]
      by_mode.shares [OF wf dist] by_mode.dir [OF wf dist]
    have sp': "sp' = (if residual rc > 0 then set_dust w (dust w sp + residual rc) (set_dormant w store sp)
          else set_dormant w store sp)"
      and bound: "residual rc > 0 \<Longrightarrow> dust w sp + residual rc < 2 ^ 128"
      using assms(2) False dist by (auto simp: pay_recovery_def Let_def side_simps split: if_splits)
    have "side_ok d sp'" for d
      using sides_okD [OF assms(1), of d] sides_okD [OF assms(1), of w] laws bound
      by (simp add: sp' side_ok_def side_simps)
    moreover have "side_funds w sp' = side_funds w sp + r"
      using laws by (simp add: sp' side_funds_def side_simps)
    ultimately show ?thesis
      using laws(1) by (simp add: sides_ok_def sp' side_funds_def side_simps)
  qed
  then show "sides_ok sp'" "side_funds w sp' = side_funds w sp + r"
    "side_funds (opposite w) sp' = side_funds (opposite w) sp"
    "pool_equity d sp' = pool_equity d sp" "active_shares d sp' = active_shares d sp"
    "active_notional d sp' = active_notional d sp" "recovery_shares d sp' = recovery_shares d sp"
    "active_generation d sp' = active_generation d sp" "rotate_log d sp' = rotate_log d sp"
    "bucket_shares (dormant d sp') = bucket_shares (dormant d sp)"
    by simp_all
qed

lemma settle_winner_Ok:
  assumes "sides_ok sp" and "settle_winner market p w ad td (sp, o1) = Inr (sp', o2)" and "td < 2 ^ 128"
  defines "transfer \<equiv> min td (pool_equity (opposite w) sp)"
  shows "sides_ok sp'" and "vault sp' = vault sp"
    and "pool_equity (opposite w) sp' = pool_equity (opposite w) sp - transfer"
    and "pool_equity w sp' = pool_equity w sp + transfer * ad div td"
    and "active_shares d sp' = active_shares d sp"
    and "active_notional d sp' = active_notional d sp" and "recovery_shares d sp' = recovery_shares d sp"
    and "active_generation d sp' = active_generation d sp" and "rotate_log d sp' = rotate_log d sp"
    and "bucket_shares (dormant d sp') = bucket_shares (dormant d sp)"
proof -
  have "sides_ok sp' \<and> vault sp' = vault sp
    \<and> pool_equity (opposite w) sp' = pool_equity (opposite w) sp - transfer
    \<and> pool_equity w sp' = pool_equity w sp + transfer * ad div td
    \<and> (\<forall>d. active_shares d sp' = active_shares d sp
      \<and> active_notional d sp' = active_notional d sp \<and> recovery_shares d sp' = recovery_shares d sp
      \<and> active_generation d sp' = active_generation d sp \<and> rotate_log d sp' = rotate_log d sp
      \<and> bucket_shares (dormant d sp') = bucket_shares (dormant d sp))"
  proof (cases "transfer = 0")
    case True
    then have "\<not> 0 < min td (pool_equity (opposite w) sp)" by (simp add: transfer_def)
    then have "sp' = sp" using assms(2) by (simp only: settle_winner_def Let_def prod.case if_False) simp
    with assms(1) True show ?thesis by simp
  next
    case False
    then have td: "0 < td" by (simp add: transfer_def)
    from False assms(2) obtain to_active o3 where
        ta: "mul_div_floor transfer ad td = Inr to_active" and le: "to_active \<le> transfer"
      and won: "pool_equity w sp + to_active < 2 ^ 128"
      and pay: "pay_recovery market p w (transfer - to_active)
        (set_pool_equity (opposite w) (pool_equity (opposite w) sp - transfer)
          (set_pool_equity w (pool_equity w sp + to_active) sp), o1) = Inr (sp', o3)"
      by (auto simp: settle_winner_def Let_def transfer_def)
    have ta_eq: "to_active = transfer * ad div td" using mul_div_floor_Ok(1) [OF ta] assms(3) by simp
    let ?sp1 = "set_pool_equity (opposite w) (pool_equity (opposite w) sp - transfer)
          (set_pool_equity w (pool_equity w sp + to_active) sp)"
    have ok: "sides_ok ?sp1"
      unfolding sides_ok_def
    proof
      show "side_ok d ?sp1" for d
        using sides_okD [OF assms(1), of d] won
        by (auto simp: side_ok_def side_simps less_imp_diff_less)
    qed
    have t_le: "transfer \<le> pool_equity (opposite w) sp" by (simp add: transfer_def)
    note paid = pay_recovery_Ok [OF ok pay]
    have "vault sp' = vault sp"
      using paid(2,3) le t_le by (simp add: vault_by_side [of _ w] side_funds_def side_simps)
    with paid ta_eq show ?thesis by (simp add: side_simps)
  qed
  then show "sides_ok sp'" "vault sp' = vault sp"
    "pool_equity (opposite w) sp' = pool_equity (opposite w) sp - transfer"
    "pool_equity w sp' = pool_equity w sp + transfer * ad div td"
    "active_shares d sp' = active_shares d sp"
    "active_notional d sp' = active_notional d sp" "recovery_shares d sp' = recovery_shares d sp"
    "active_generation d sp' = active_generation d sp" "rotate_log d sp' = rotate_log d sp"
    "bucket_shares (dormant d sp') = bucket_shares (dormant d sp)"
    by simp_all
qed


lemma sync_demands_bound:
  assumes "sync_demands p_last p_now sp = Inr (la, lt, sa, st)"
  shows "lt < 2 ^ 128" and "st < 2 ^ 128" and "la \<le> lt" and "sa \<le> st"
  using assms by (auto simp: sync_demands_def Let_def)

lemma settle_sides_Ok:
  assumes "sides_ok sp" and "settle_sides market p (la, lt, sa, st) sp = Inr (sp', o1)"
    and "lt < 2 ^ 128" and "st < 2 ^ 128"
  shows "sides_ok sp'" and "vault sp' = vault sp" and "active_shares d sp' = active_shares d sp"
    and "active_notional d sp' = active_notional d sp" and "recovery_shares d sp' = recovery_shares d sp"
    and "active_generation d sp' = active_generation d sp" and "rotate_log d sp' = rotate_log d sp"
    and "bucket_shares (dormant d sp') = bucket_shares (dormant d sp)"
  using assms settle_winner_Ok [OF assms(1)]
  by (auto simp: settle_sides_def split: if_splits)

section \<open>Rotation\<close>

lemma rotate_active_Ok:
  assumes "sides_ok sp" and "rotate_active_to_recovery market d p sp = Inr sp'"
    and "active_shares d sp \<noteq> 0" and "p < 2 ^ 64"
  obtains tick where "bucket_tick_of market p = Inr tick"
    and "sides_ok sp'" and "side_funds d' sp' = side_funds d' sp"
    and "pool_equity d' sp' = pool_equity d' sp"
    and "active_shares d' sp' = (if d' = d then 0 else active_shares d' sp)"
    and "active_notional d' sp' = (if d' = d then 0 else active_notional d' sp)"
    and "recovery_shares d' sp'
      = (if d' = d then recovery_shares d sp + active_shares d sp else recovery_shares d' sp)"
    and "active_generation d' sp'
      = (if d' = d then active_generation d sp + 1 else active_generation d' sp)"
    and "rotate_log d' sp' = (if d' = d then rotate_log d sp @
          [\<lparr>generation_just_ended = active_generation d sp, rr_bucket_tick = tick,
            rr_anchor_price = p\<rparr>] else rotate_log d' sp)"
    and "insert_or_merge tick p (active_shares d sp) (active_notional d sp) 1
          (max_dormant_bucket_count_per_direction market) (dormant d sp) = Inr (dormant d sp')"
    and "d' \<noteq> d \<Longrightarrow> dormant d' sp' = dormant d' sp"
    and "last_price sp' = last_price sp"
proof -
  from assms(2,3) obtain tick store where tick: "bucket_tick_of market p = Inr tick"
    and ins: "insert_or_merge tick p (active_shares d sp) (active_notional d sp) 1
          (max_dormant_bucket_count_per_direction market) (dormant d sp) = Inr store"
    and bound: "recovery_shares d sp + active_shares d sp < 2 ^ 128"
    and push: "push_rotate_record d \<lparr>generation_just_ended = active_generation d sp,
             rr_bucket_tick = tick, rr_anchor_price = p\<rparr>
             (set_active_notional d 0 (set_active_shares d 0 (set_recovery_shares d
               (recovery_shares d sp + active_shares d sp) (set_dormant d store sp)))) = Inr sp'"
    by (auto simp: rotate_active_to_recovery_def Let_def side_simps)
  note ok = sides_okD [OF assms(1), of d]
  have st: "store_wf store" "store_funds store = store_funds (dormant d sp)"
    "total_shares store = total_shares (dormant d sp) + active_shares d sp"
    "store_direction store = d"
    using insert_or_merge_Ok [OF _ ins assms(4)] ok by (simp_all add: side_ok_def)
  note pushed = push_rotate_record_Ok [OF push]
  have "side_ok e sp'" for e
    using sides_okD [OF assms(1), of e] ok st by (auto simp: side_ok_def pushed side_simps)
  then have "sides_ok sp'" by (simp add: sides_ok_def)
  moreover have "side_funds d' sp' = side_funds d' sp"
    using st by (simp add: side_funds_def pushed side_simps)
  ultimately show ?thesis
    using tick ins by (intro that [of tick]) (simp_all add: pushed side_simps)
qed

lemma rotate_if_empty_Ok:
  assumes "sides_ok sp" and "rotate_if_empty market p slot d (sp, o1) = Inr (sp', o2)" and "p < 2 ^ 64"
  shows "sides_ok sp'" and "vault sp' = vault sp" and "last_price sp' = last_price sp"
    and "pool_equity d' sp' = pool_equity d' sp"
proof -
  have "sides_ok sp' \<and> side_funds d sp' = side_funds d sp \<and> last_price sp' = last_price sp
    \<and> side_funds (opposite d) sp' = side_funds (opposite d) sp \<and> pool_equity d' sp' = pool_equity d' sp"
  proof (cases "pool_equity d sp = 0 \<and> active_shares d sp > 0")
    case False
    with assms show ?thesis by (simp add: rotate_if_empty_def)
  next
    case True
    then have rot: "rotate_active_to_recovery market d p sp = Inr sp'"
      using assms(2) by (auto simp: rotate_if_empty_def)
    have "sides_ok sp' \<and> side_funds e sp' = side_funds e sp \<and> pool_equity e sp' = pool_equity e sp
        \<and> last_price sp' = last_price sp" for e
      using True assms(3) by (rule_tac d' = e in rotate_active_Ok [OF assms(1) rot]) simp_all
    then show ?thesis by blast
  qed
  then show "sides_ok sp'" "vault sp' = vault sp" "last_price sp' = last_price sp"
    "pool_equity d' sp' = pool_equity d' sp"
    by (simp_all add: vault_by_side [of _ d])
qed


section \<open>Synchronising\<close>

lemma sync_guards_Ok:
  assumes "sync_guards market env = Inr u"
  shows "schema_version market = SCHEMA_VERSION_CURRENT" and "\<not> paused market"
    and "0 < env_p_now env" and "env_expected_min env \<le> env_p_now env"
    and "env_p_now env \<le> env_expected_max env"
  using assms by (auto simp: sync_guards_def split: if_splits)

lemma sides_ok_clock:
  "sides_ok (sp\<lparr>last_price := p\<rparr>) = sides_ok sp"
  "sides_ok (sp\<lparr>last_sync_slot := s\<rparr>) = sides_ok sp"
  "vault (sp\<lparr>last_price := p\<rparr>) = vault sp"
  "vault (sp\<lparr>last_sync_slot := s\<rparr>) = vault sp"
  by (simp_all add: sides_ok_def side_ok_def vault_def side_funds_def side_simps)

text \<open>
  The shape of a successful sync that moves the price: the settled sub-pool with the new
  clock, then the two rotations, then the runtime check.
\<close>

lemma sync_move_Ok:
  assumes "sync_move market env sp = Inr (sp', out)"
  obtains demands sp1 o1 o2 sp3 o3 where
      "sync_demands (last_price sp) (env_p_now env) sp = Inr demands"
    and "settle_sides market (env_p_now env) demands sp = Inr (sp1, o1)"
    and "rotate_if_empty market (env_p_now env) (env_slot env) Long
          (sp1\<lparr>last_price := env_p_now env, last_sync_slot := env_slot env\<rparr>, o2) = Inr (sp3, o3)"
    and "rotate_if_empty market (env_p_now env) (env_slot env) Short (sp3, o3) = Inr (sp', out)"
    and "check_subpool_invariants sp' = Inr ()"
  using assms that by (auto simp: sync_move_def Let_def split: if_splits)

lemma sync_move_wf:
  assumes "sides_ok sp" and "sync_move market env sp = Inr (sp', out)" and "env_p_now env < 2 ^ 64"
  shows "sub_pool_wf sp'" and "vault sp' = vault sp" and "last_price sp' = env_p_now env"
proof -
  obtain demands sp1 o1 o2 sp3 o3 where
      dem: "sync_demands (last_price sp) (env_p_now env) sp = Inr demands"
    and set: "settle_sides market (env_p_now env) demands sp = Inr (sp1, o1)"
    and rl: "rotate_if_empty market (env_p_now env) (env_slot env) Long
          (sp1\<lparr>last_price := env_p_now env, last_sync_slot := env_slot env\<rparr>, o2) = Inr (sp3, o3)"
    and rs: "rotate_if_empty market (env_p_now env) (env_slot env) Short (sp3, o3) = Inr (sp', out)"
    and chk: "check_subpool_invariants sp' = Inr ()"
    using assms(2) by (rule sync_move_Ok)
  obtain la lt sa st where d: "demands = (la, lt, sa, st)" by (metis prod_cases4)
  note settled = settle_sides_Ok [OF assms(1) set [unfolded d] sync_demands_bound(1,2) [OF dem [unfolded d]]]
  note long = rotate_if_empty_Ok [OF _ rl assms(3), unfolded sides_ok_clock, OF settled(1)]
  note short = rotate_if_empty_Ok [OF long(1) rs assms(3)]
  show "sub_pool_wf sp'" using checked_wf [OF short(1) chk] .
  show "vault sp' = vault sp" using settled(2) long(2) short(2) by simp
  show "last_price sp' = env_p_now env" using long(3) short(3) by simp
qed

lemma sync_pool_wf:
  assumes "sides_ok sp" and "sync_pool market env sp = Inr (sp', out)" and "env_p_now env < 2 ^ 64"
  shows "sub_pool_wf sp'" and "vault sp' = vault sp" and "last_price sp' = env_p_now env"
    and "sync_guards market env = Inr ()"
proof -
  have "sub_pool_wf sp' \<and> vault sp' = vault sp \<and> last_price sp' = env_p_now env
      \<and> sync_guards market env = Inr ()"
  proof (cases "last_price sp = 0 \<or> env_p_now env = last_price sp")
    case True
    with assms(1,2) checked_wf [of sp'] show ?thesis
      by (auto simp: sync_pool_def Let_def sides_ok_clock split: if_splits)
  next
    case False
    with assms(2) have "sync_guards market env = Inr ()" and mv: "sync_move market env sp = Inr (sp', out)"
      by (auto simp: sync_pool_def)
    with sync_move_wf [OF assms(1) mv assms(3)] show ?thesis by simp
  qed
  then show "sub_pool_wf sp'" "vault sp' = vault sp" "last_price sp' = env_p_now env"
    "sync_guards market env = Inr ()" by simp_all
qed


section \<open>What a sync does to the shares\<close>

text \<open>
  A side's active shares, generation, rotate log and bucket shares either stay, or the whole
  active series moves into one bucket and a new generation starts.
\<close>

definition series_kept :: "direction \<Rightarrow> sub_pool \<Rightarrow> sub_pool \<Rightarrow> bool" where
  "series_kept d sp sp' \<longleftrightarrow> active_shares d sp' = active_shares d sp
     \<and> active_notional d sp' = active_notional d sp
     \<and> active_generation d sp' = active_generation d sp \<and> rotate_log d sp' = rotate_log d sp
     \<and> bucket_shares (dormant d sp') = bucket_shares (dormant d sp)"

definition series_rotated :: "direction \<Rightarrow> i64 \<Rightarrow> u64 \<Rightarrow> sub_pool \<Rightarrow> sub_pool \<Rightarrow> bool" where
  "series_rotated d tick anchor sp sp' \<longleftrightarrow> active_shares d sp' = 0 \<and> active_notional d sp' = 0
     \<and> active_generation d sp' = active_generation d sp + 1
     \<and> rotate_log d sp' = rotate_log d sp @ [\<lparr>generation_just_ended = active_generation d sp,
          rr_bucket_tick = tick, rr_anchor_price = anchor\<rparr>]
     \<and> bucket_shares (dormant d sp') = (bucket_shares (dormant d sp))
          (tick := bucket_shares (dormant d sp) tick + active_shares d sp)"

definition series_step :: "direction \<Rightarrow> sub_pool \<Rightarrow> sub_pool \<Rightarrow> bool" where
  "series_step d sp sp' \<longleftrightarrow> series_kept d sp sp' \<or> (\<exists>tick anchor. series_rotated d tick anchor sp sp')"

lemma series_step_before: "series_kept d sp sp1 \<Longrightarrow> series_step d sp1 sp2 \<Longrightarrow> series_step d sp sp2"
  by (auto simp: series_step_def series_kept_def series_rotated_def)

lemma series_step_after: "series_step d sp sp1 \<Longrightarrow> series_kept d sp1 sp2 \<Longrightarrow> series_step d sp sp2"
  by (auto simp: series_step_def series_kept_def series_rotated_def)

lemma series_kept_clock:
  "series_kept d sp (sp\<lparr>last_price := p, last_sync_slot := s\<rparr>)"
  "series_kept d sp (sp\<lparr>last_sync_slot := s\<rparr>)"
  by (simp_all add: series_kept_def side_simps)

lemma settle_series:
  assumes "sides_ok sp" and "settle_sides market p (la, lt, sa, st) sp = Inr (sp', o1)"
    and "lt < 2 ^ 128" and "st < 2 ^ 128"
  shows "series_kept d sp sp'"
  using settle_sides_Ok [OF assms] by (simp add: series_kept_def)

lemma rotate_if_empty_series:
  assumes "sides_ok sp" and "rotate_if_empty market p slot d (sp, o1) = Inr (sp', o2)" and "p < 2 ^ 64"
  shows "series_step d sp sp'" and "e \<noteq> d \<Longrightarrow> series_kept e sp sp'"
proof -
  have "series_step d sp sp' \<and> (e \<noteq> d \<longrightarrow> series_kept e sp sp')"
  proof (cases "pool_equity d sp = 0 \<and> active_shares d sp > 0")
    case False
    with assms(2) show ?thesis by (simp add: rotate_if_empty_def series_step_def series_kept_def)
  next
    case True
    then have rot: "rotate_active_to_recovery market d p sp = Inr sp'" and nz: "active_shares d sp \<noteq> 0"
      using assms(2) by (auto simp: rotate_if_empty_def)
    have wf: "store_wf (dormant d sp)" using sides_okD [OF assms(1), of d] by (simp add: side_ok_def)
    have "series_step d sp sp'"
    proof (rule rotate_active_Ok [OF assms(1) rot nz assms(3), where d' = d])
      fix tick
      assume *: "active_shares d sp' = (if d = d then 0 else active_shares d sp)"
        "active_notional d sp' = (if d = d then 0 else active_notional d sp)"
        "active_generation d sp' = (if d = d then active_generation d sp + 1 else active_generation d sp)"
        "rotate_log d sp' = (if d = d then rotate_log d sp @
          [\<lparr>generation_just_ended = active_generation d sp, rr_bucket_tick = tick,
            rr_anchor_price = p\<rparr>] else rotate_log d sp)"
        "insert_or_merge tick p (active_shares d sp) (active_notional d sp) 1
          (max_dormant_bucket_count_per_direction market) (dormant d sp) = Inr (dormant d sp')"
      have "series_rotated d tick p sp sp'"
        using * insert_or_merge_shares [OF wf *(5)] by (simp add: series_rotated_def)
      then show ?thesis by (auto simp: series_step_def)
    qed
    moreover have "series_kept e sp sp'" if "e \<noteq> d"
      by (rule rotate_active_Ok [OF assms(1) rot nz assms(3), where d' = e])
        (use that in \<open>simp add: series_kept_def\<close>)
    ultimately show ?thesis by blast
  qed
  then show "series_step d sp sp'" "e \<noteq> d \<Longrightarrow> series_kept e sp sp'" by simp_all
qed

lemma sync_pool_series:
  assumes "sides_ok sp" and "sync_pool market env sp = Inr (sp', out)" and "env_p_now env < 2 ^ 64"
  shows "series_step d sp sp'"
proof (cases "last_price sp = 0 \<or> env_p_now env = last_price sp")
  case True
  with assms(2) show ?thesis
    by (auto simp: sync_pool_def Let_def series_step_def series_kept_clock split: if_splits)
next
  case False
  with assms(2) have mv: "sync_move market env sp = Inr (sp', out)" by (auto simp: sync_pool_def)
  obtain demands sp1 o1 o2 sp3 o3 where
      dem: "sync_demands (last_price sp) (env_p_now env) sp = Inr demands"
    and set: "settle_sides market (env_p_now env) demands sp = Inr (sp1, o1)"
    and rl: "rotate_if_empty market (env_p_now env) (env_slot env) Long
          (sp1\<lparr>last_price := env_p_now env, last_sync_slot := env_slot env\<rparr>, o2) = Inr (sp3, o3)"
    and rs: "rotate_if_empty market (env_p_now env) (env_slot env) Short (sp3, o3) = Inr (sp', out)"
    and chk: "check_subpool_invariants sp' = Inr ()"
    using mv by (rule sync_move_Ok)
  obtain la lt sa st where d: "demands = (la, lt, sa, st)" by (metis prod_cases4)
  note bound = sync_demands_bound(1,2) [OF dem [unfolded d]]
  note settled = settle_sides_Ok(1) [OF assms(1) set [unfolded d] bound]
  have first: "series_kept d sp (sp1\<lparr>last_price := env_p_now env, last_sync_slot := env_slot env\<rparr>)"
    using settle_series [OF assms(1) set [unfolded d] bound, of d]
    by (simp add: series_kept_def side_simps)
  have ok1: "sides_ok (sp1\<lparr>last_price := env_p_now env, last_sync_slot := env_slot env\<rparr>)"
    using settled by (simp add: sides_ok_clock)
  note long = rotate_if_empty_series [OF ok1 rl assms(3)]
  note ok3 = rotate_if_empty_Ok(1) [OF ok1 rl assms(3)]
  note short = rotate_if_empty_series [OF ok3 rs assms(3)]
  show ?thesis
  proof (cases d)
    case Long
    with first long(1) short(2) [of Long] show ?thesis
      by (metis direction.distinct(1) series_step_after series_step_before)
  next
    case Short
    with first long(2) [of Short] short(1) show ?thesis
      by (metis direction.distinct(1) series_step_before)
  qed
qed

end
