(* ===== verification/Engine_Ops_Facts.thy ===== *)
theory Engine_Ops_Facts
  imports Engine_Ops Engine_Facts
begin

text \<open>
  Every operation keeps a sub-pool well formed and moves exactly the funds it reports: an open
  adds the principal, a close and a claim take out what they pay, a forced close keeps
  everything, a harvest takes the dust of one side.
\<close>

section \<open>Burning shares\<close>

lemma sides_ok_store:
  assumes "sides_ok sp"
  shows "store_wf (dormant d sp)"
  using sides_okD [OF assms, of d] by (simp add: side_ok_def)

lemma vault_eqI:
  assumes "side_funds d sp' + out = side_funds d sp + into"
    and "side_funds (opposite d) sp' = side_funds (opposite d) sp"
  shows "vault sp' + out = vault sp + into"
  using assms by (simp add: vault_by_side [of _ d])

lemma burn_active_Ok:
  assumes "sides_ok sp" and "burn_active sp pos = Inr (sp', pos', v)"
  shows "sides_ok sp'" and "vault sp' + v = vault sp"
    and "v = (if pos_active_shares pos = 0 \<or> pool_equity (pos_direction pos) sp = 0
              then 0 else pool_equity (pos_direction pos) sp * pos_active_shares pos
                div active_shares (pos_direction pos) sp)"
    and "pos' = pos \<or> pos' = pos\<lparr>pos_active_shares := 0\<rparr>"
proof -
  let ?d = "pos_direction pos"
  have "sides_ok sp' \<and> vault sp' + v = vault sp
    \<and> v = (if pos_active_shares pos = 0 \<or> pool_equity ?d sp = 0
              then 0 else pool_equity ?d sp * pos_active_shares pos div active_shares ?d sp)
    \<and> (pos' = pos \<or> pos' = pos\<lparr>pos_active_shares := 0\<rparr>)"
  proof (cases "pos_active_shares pos = 0 \<or> active_shares ?d sp = 0 \<or> pool_equity ?d sp = 0")
    case True
    with assms show ?thesis by (auto simp: burn_active_def Let_def split: if_splits)
  next
    case False
    with assms(2) have
        v: "mul_div_floor (pool_equity ?d sp) (pos_active_shares pos) (active_shares ?d sp) = Inr v"
      and le: "v \<le> pool_equity ?d sp"
      and sp': "sp' = set_active_notional ?d (active_notional ?d sp - notional pos)
               (set_active_shares ?d (active_shares ?d sp - pos_active_shares pos)
               (set_pool_equity ?d (pool_equity ?d sp - v) sp))"
      and pos': "pos' = pos\<lparr>pos_active_shares := 0\<rparr>"
      by (auto simp: burn_active_def Let_def)
    have v_eq: "v = pool_equity ?d sp * pos_active_shares pos div active_shares ?d sp"
      using mul_div_floor_Ok(1) [OF v] sides_okD [OF assms(1), of ?d] by (simp add: side_ok_def)
    have "side_ok e sp'" for e
      using sides_okD [OF assms(1), of e] by (auto simp: sp' side_ok_def side_simps)
    moreover have "vault sp' + v = vault sp + 0"
      using le by (intro vault_eqI [of ?d]) (simp_all add: sp' side_funds_def side_simps)
    ultimately show ?thesis using v_eq pos' False by (simp add: sides_ok_def)
  qed
  then show "sides_ok sp'" "vault sp' + v = vault sp"
    "v = (if pos_active_shares pos = 0 \<or> pool_equity (pos_direction pos) sp = 0
              then 0 else pool_equity (pos_direction pos) sp * pos_active_shares pos
                div active_shares (pos_direction pos) sp)"
    "pos' = pos \<or> pos' = pos\<lparr>pos_active_shares := 0\<rparr>" by simp_all
qed

lemma redeemed_sides:
  assumes "sides_ok sp" and "redeem tick s (dormant d sp) = Inr (store, r)"
  shows "burned_shares r = s" and "s \<le> recovery_shares d sp"
    and "sides_ok (set_recovery_shares d (recovery_shares d sp - s) (set_dormant d store sp))"
    and "store_funds store + redeemable r = store_funds (dormant d sp)"
proof -
  note ok = sides_okD [OF assms(1), of d]
  have "burned_shares r = s \<and> store_wf store \<and> store_funds store + redeemable r = store_funds (dormant d sp)
    \<and> total_shares store + s = total_shares (dormant d sp) \<and> store_direction store = store_direction (dormant d sp)"
    using redeem_Ok [OF sides_ok_store [OF assms(1)] assms(2)] by blast
  then have r: "burned_shares r = s" "store_wf store"
    "store_funds store + redeemable r = store_funds (dormant d sp)"
    "total_shares store + s = recovery_shares d sp" "store_direction store = d"
    using ok by (simp_all add: side_ok_def)
  then show "burned_shares r = s" "s \<le> recovery_shares d sp"
    "store_funds store + redeemable r = store_funds (dormant d sp)" by simp_all
  have "total_shares store = recovery_shares d sp - s" using r(4) by simp
  then have "side_ok e (set_recovery_shares d (recovery_shares d sp - s) (set_dormant d store sp))" for e
    using sides_okD [OF assms(1), of e] r by (auto simp: side_ok_def side_simps)
  then show "sides_ok (set_recovery_shares d (recovery_shares d sp - s) (set_dormant d store sp))"
    by (simp add: sides_ok_def)
qed

lemma burn_recovery_Ok:
  assumes "sides_ok sp" and "burn_recovery sp pos = Inr (sp', pos', tick, r)"
  shows "sides_ok sp'" and "vault sp' + redeemable r = vault sp"
    and "recovery_bucket_tick pos = Some tick"
    and "pos' = pos\<lparr>pos_recovery_shares := 0, recovery_bucket_tick := None\<rparr>"
    and "burned_shares r = pos_recovery_shares pos"
proof -
  let ?d = "pos_direction pos"
  from assms(2) obtain store where t: "recovery_bucket_tick pos = Some tick"
    and rd: "redeem tick (pos_recovery_shares pos) (dormant ?d sp) = Inr (store, r)"
    and sp': "sp' = set_recovery_shares ?d (recovery_shares ?d sp - burned_shares r)
      (set_dormant ?d store sp)"
    and pos': "pos' = pos\<lparr>pos_recovery_shares := 0, recovery_bucket_tick := None\<rparr>"
    by (auto simp: burn_recovery_def Let_def)
  note red = redeemed_sides [OF assms(1) rd]
  show "sides_ok sp'" using red(3) by (simp add: sp' red(1))
  have "vault sp' + redeemable r = vault sp + 0"
    using red(4) by (intro vault_eqI [of ?d]) (simp_all add: sp' side_funds_def side_simps)
  then show "vault sp' + redeemable r = vault sp" by simp
  show "recovery_bucket_tick pos = Some tick"
    "pos' = pos\<lparr>pos_recovery_shares := 0, recovery_bucket_tick := None\<rparr>"
    "burned_shares r = pos_recovery_shares pos" by (fact t pos' red(1))+
qed

lemma burn_recovery_if_any_Ok:
  assumes "sides_ok sp" and "burn_recovery_if_any sp pos = Inr (sp', pos', r)"
  shows "sides_ok sp'" and "vault sp' + redeemable r = vault sp"
    and "burned_shares r = pos_recovery_shares pos" and "pos_recovery_shares pos' = 0"
proof -
  have "sides_ok sp' \<and> vault sp' + redeemable r = vault sp
    \<and> burned_shares r = pos_recovery_shares pos \<and> pos_recovery_shares pos' = 0"
  proof (cases "pos_recovery_shares pos = 0")
    case True
    with assms show ?thesis by (auto simp: burn_recovery_if_any_def no_receipt_def)
  next
    case False
    then obtain tick where br: "burn_recovery sp pos = Inr (sp', pos', tick, r)"
      using assms(2) by (auto simp: burn_recovery_if_any_def)
    show ?thesis using burn_recovery_Ok [OF assms(1) br] by simp
  qed
  then show "sides_ok sp'" "vault sp' + redeemable r = vault sp"
    "burned_shares r = pos_recovery_shares pos" "pos_recovery_shares pos' = 0" by simp_all
qed

lemma burn_worthless_Ok:
  assumes "sides_ok sp" and "burn_worthless sp pos = Inr (sp', pos', b, n)"
  shows "sides_ok sp'" and "vault sp' = vault sp"
    and "b = pos_active_shares pos" and "pos_active_shares pos' = 0"
proof -
  let ?d = "pos_direction pos"
  have "sides_ok sp' \<and> vault sp' = vault sp \<and> b = pos_active_shares pos \<and> pos_active_shares pos' = 0"
  proof (cases "pos_active_shares pos = 0")
    case True
    with assms show ?thesis by (simp add: burn_worthless_def)
  next
    case False
    with assms(2) have
        sp': "sp' = set_active_notional ?d (active_notional ?d sp - notional pos)
               (set_active_shares ?d (active_shares ?d sp - pos_active_shares pos) sp)"
      and pos': "pos' = pos\<lparr>pos_active_shares := 0\<rparr>" "b = pos_active_shares pos"
      by (auto simp: burn_worthless_def Let_def split: if_splits)
    have "side_ok e sp'" for e
      using sides_okD [OF assms(1), of e] by (auto simp: sp' side_ok_def side_simps)
    moreover have "vault sp' = vault sp" by (simp add: sp' vault_def side_funds_def side_simps)
    ultimately show ?thesis using pos' by (simp add: sides_ok_def)
  qed
  then show "sides_ok sp'" "vault sp' = vault sp" "b = pos_active_shares pos"
    "pos_active_shares pos' = 0" by simp_all
qed

lemma forfeit_recovery_Ok:
  assumes "sides_ok sp" and "forfeit_recovery sp pos = Inr (sp', pos', r, f)"
  shows "sides_ok sp'" and "vault sp' = vault sp" and "f = redeemable r"
    and "burned_shares r = pos_recovery_shares pos" and "pos_recovery_shares pos' = 0"
proof -
  let ?d = "pos_direction pos"
  have "sides_ok sp' \<and> vault sp' = vault sp \<and> f = redeemable r
    \<and> burned_shares r = pos_recovery_shares pos \<and> pos_recovery_shares pos' = 0"
  proof (cases "pos_recovery_shares pos = 0")
    case True
    with assms show ?thesis by (auto simp: forfeit_recovery_def no_receipt_def)
  next
    case False
    with assms(2) obtain tick store where t: "recovery_bucket_tick pos = Some tick"
      and rd: "redeem tick (pos_recovery_shares pos) (dormant ?d sp) = Inr (store, r)"
      by (auto simp: forfeit_recovery_def Let_def)
    note red = redeemed_sides [OF assms(1) rd]
    let ?base = "set_recovery_shares ?d (recovery_shares ?d sp - burned_shares r) (set_dormant ?d store sp)"
    have sp': "f = redeemable r \<and> pos' = pos\<lparr>pos_recovery_shares := 0, recovery_bucket_tick := None\<rparr>
        \<and> (if redeemable r > 0 then dust ?d sp + redeemable r < 2 ^ 128
            \<and> sp' = set_recovery_shares ?d (recovery_shares ?d sp - burned_shares r)
                (set_dust ?d (dust ?d sp + redeemable r) (set_dormant ?d store sp))
           else sp' = ?base)"
      using assms(2) False t rd
      by (auto simp: forfeit_recovery_def Let_def side_simps split: if_splits)
    have "side_ok e sp'" for e
      using sides_okD [OF red(3), of e] sp' red(1)
      by (auto simp: side_ok_def side_simps split: if_splits)
    moreover have "vault sp' + 0 = vault sp + 0"
      using red(4) sp'
      by (intro vault_eqI [of ?d]) (auto simp: side_funds_def side_simps split: if_splits)
    ultimately show ?thesis using sp' red(1) by (simp add: sides_ok_def)
  qed
  then show "sides_ok sp'" "vault sp' = vault sp" "f = redeemable r"
    "burned_shares r = pos_recovery_shares pos" "pos_recovery_shares pos' = 0" by simp_all
qed


section \<open>Minting\<close>

lemma split_fee_Ok:
  assumes "split_fee market gross = Inr (fee, prin)"
  shows "fee + prin = gross" and "0 < gross" and "min_margin market \<le> prin"
    and "prin \<le> max_margin_per_position market"
    and "mul_div_ceil gross (open_fee_bps market) BPS_SCALE = Inr fee"
  using assms by (auto simp: split_fee_def split: if_splits)

lemma mint_shares_Ok:
  assumes "mint_shares market equity shares prin = Inr (minted, into_pool, rest)"
    and "equity < 2 ^ 128" and "shares < 2 ^ 128"
  shows "into_pool + rest = prin"
    and "equity = 0 \<Longrightarrow> shares = 0 \<and> minted = prin \<and> rest = 0"
    and "equity \<noteq> 0 \<Longrightarrow> minted = prin * shares div equity \<and> 0 < minted
           \<and> into_pool = minted * equity div shares
           \<and> shares * dilution_safety_bps market \<le> equity * BPS_SCALE"
proof -
  have "into_pool + rest = prin \<and> (equity = 0 \<longrightarrow> shares = 0 \<and> minted = prin \<and> rest = 0)
      \<and> (equity \<noteq> 0 \<longrightarrow> minted = prin * shares div equity \<and> 0 < minted
           \<and> into_pool = minted * equity div shares
           \<and> shares * dilution_safety_bps market \<le> equity * BPS_SCALE)"
  proof (cases "equity = 0")
    case True
    with assms(1) show ?thesis by (auto simp: mint_shares_def split: if_splits)
  next
    case False
    with assms(1) have
        m: "mul_div_floor prin shares equity = Inr minted" "0 < minted"
      and ip: "mul_div_floor minted equity shares = Inr into_pool"
      and rest: "into_pool \<le> prin" "rest = prin - into_pool"
      and safe: "shares * dilution_safety_bps market \<le> equity * BPS_SCALE"
      by (auto simp: mint_shares_def split: if_splits)
    show ?thesis
      using False m(2) rest safe mul_div_floor_Ok(1) [OF m(1) assms(2)] mul_div_floor_Ok(1) [OF ip assms(3)]
      by simp
  qed
  then show "into_pool + rest = prin"
    "equity = 0 \<Longrightarrow> shares = 0 \<and> minted = prin \<and> rest = 0"
    "equity \<noteq> 0 \<Longrightarrow> minted = prin * shares div equity \<and> 0 < minted
           \<and> into_pool = minted * equity div shares
           \<and> shares * dilution_safety_bps market \<le> equity * BPS_SCALE" by simp_all
qed

section \<open>The operations\<close>

lemma open_position_Ok:
  assumes "sub_pool_wf sp" and "open_position market env d gross pid sp = Inr (sp', pos, out)"
    and "env_p_now env < 2 ^ 64"
  obtains sp1 synced where "sync_pool market env sp = Inr (sp1, synced)"
    and "split_fee market gross = Inr (oo_open_fee out, principal pos)"
    and "mint_shares market (pool_equity d sp1) (active_shares d sp1) (principal pos)
          = Inr (oo_shares_minted out, oo_principal_into_pool out, oo_dust out)"
    and "sub_pool_wf sp'" and "vault sp' = vault sp + principal pos"
    and "pool_equity d sp' = pool_equity d sp1 + oo_principal_into_pool out"
    and "active_shares d sp' = active_shares d sp1 + oo_shares_minted out"
    and "pos_active_shares pos = oo_shares_minted out" and "pos_direction pos = d"
    and "pos_active_generation pos = active_generation d sp'"
    and "\<not> frozen_new_position market"
proof -
  from assms(2) obtain sp1 synced prin where nf: "\<not> frozen_new_position market"
    and sync: "sync_pool market env sp = Inr (sp1, synced)"
    and fee: "split_fee market gross = Inr (oo_open_fee out, prin)"
    and mint: "mint_shares market (pool_equity d sp1) (active_shares d sp1) prin
          = Inr (oo_shares_minted out, oo_principal_into_pool out, oo_dust out)"
    and bounds: "pool_equity d sp1 + oo_principal_into_pool out < 2 ^ 128"
      "active_shares d sp1 + oo_shares_minted out < 2 ^ 128"
      "active_notional d sp1 + oo_notional_added out < 2 ^ 128" "dust d sp1 + oo_dust out < 2 ^ 128"
    and sp': "sp' = set_dust d (dust d sp1 + oo_dust out) (set_active_notional d
        (active_notional d sp1 + oo_notional_added out) (set_active_shares d
        (active_shares d sp1 + oo_shares_minted out) (set_pool_equity d
        (pool_equity d sp1 + oo_principal_into_pool out) sp1)))"
    and chk: "check_subpool_invariants sp' = Inr ()"
    and pos: "principal pos = prin" "pos_active_shares pos = oo_shares_minted out"
      "pos_direction pos = d" "pos_active_generation pos = active_generation d sp'"
    by (auto simp: open_position_def Let_def split: if_splits)
  note synced = sync_pool_wf [OF sub_pool_wf_sides [OF assms(1)] sync assms(3)]
  have "side_ok e sp'" for e
    using sides_okD [OF sub_pool_wf_sides [OF synced(1)], of e] bounds
    by (auto simp: sp' side_ok_def side_simps)
  then have wf: "sub_pool_wf sp'" using chk checked_wf by (simp add: sides_ok_def)
  have "oo_principal_into_pool out + oo_dust out = prin"
    using mint_shares_Ok(1) [OF mint] sub_pool_wfD [OF synced(1), of d]
    by (simp add: side_wf_def side_ok_def)
  then have "vault sp' + 0 = vault sp1 + prin"
    by (intro vault_eqI [of d]) (auto simp: sp' side_funds_def side_simps)
  then show ?thesis
    using that [OF sync] fee mint wf nf pos synced(2) by (auto simp: sp' side_simps)
qed

lemma close_position_Ok:
  assumes "sub_pool_wf sp" and "close_position market env sp pos = Inr (sp', pos', out)"
    and "env_p_now env < 2 ^ 64"
  shows "sub_pool_wf sp'" and "vault sp' + co_withdrawable out = vault sp"
    and "0 < co_withdrawable out" and "status pos' = Closed" and "notional pos' = 0"
    and "co_withdrawable out = co_active_value out + co_recovery_value out"
    and "pos_recovery_shares pos' = 0"
proof -
  from assms(2) obtain sp1 synced pos1 m sp2 pos2 pos3 rc where
      sync: "sync_pool market env sp = Inr (sp1, synced)"
    and mig: "lazy_migrate_position sp1 pos = Inr (pos1, m)"
    and act: "burn_active sp1 pos1 = Inr (sp2, pos2, co_active_value out)"
    and rec: "burn_recovery_if_any sp2 pos2 = Inr (sp', pos3, rc)"
    and out: "co_withdrawable out = co_active_value out + redeemable rc" "0 < co_withdrawable out"
      "co_recovery_value out = redeemable rc"
    and pos': "pos' = mark_closed (env_slot env) pos3"
    and chk: "check_subpool_invariants sp' = Inr ()"
    by (auto simp: close_position_def Let_def split: if_splits)
  note synced = sync_pool_wf [OF sub_pool_wf_sides [OF assms(1)] sync assms(3)]
  note a = burn_active_Ok [OF sub_pool_wf_sides [OF synced(1)] act]
  note r = burn_recovery_if_any_Ok [OF a(1) rec]
  show "sub_pool_wf sp'" using checked_wf [OF r(1) chk] .
  show "vault sp' + co_withdrawable out = vault sp" using synced(2) a(2) r(2) out(1) by simp
  show "0 < co_withdrawable out" "status pos' = Closed" "notional pos' = 0"
    "co_withdrawable out = co_active_value out + co_recovery_value out" "pos_recovery_shares pos' = 0"
    using out pos' r(4) by (simp_all add: mark_closed_def)
qed

lemma force_close_Ok:
  assumes "sub_pool_wf sp"
    and "force_close_zero_value_position market env ack sp pos = Inr (sp', pos', out)"
    and "env_p_now env < 2 ^ 64"
  shows "sub_pool_wf sp'" and "vault sp' = vault sp" and "ack" and "status pos \<noteq> Closed"
    and "status pos' = Closed" and "pos_active_shares pos' = 0 \<or> pos_active_shares pos' = pos_active_shares pos"
    and "pos_recovery_shares pos' = 0"
proof -
  from assms(2) obtain sp1 synced pos1 m sp2 pos2 n pos3 rc f where
      sync: "sync_pool market env sp = Inr (sp1, synced)"
    and mig: "lazy_migrate_position sp1 pos = Inr (pos1, m)"
    and act: "burn_worthless sp1 pos1 = Inr (sp2, pos2, fo_active_shares_burned out, n)"
    and rec: "forfeit_recovery sp2 pos2 = Inr (sp', pos3, rc, f)"
    and pos': "pos' = mark_closed (env_slot env) pos3"
    and guards: "ack" "status pos \<noteq> Closed"
    and chk: "check_subpool_invariants sp' = Inr ()"
    by (auto simp: force_close_zero_value_position_def Let_def split: if_splits)
  note synced = sync_pool_wf [OF sub_pool_wf_sides [OF assms(1)] sync assms(3)]
  note a = burn_worthless_Ok [OF sub_pool_wf_sides [OF synced(1)] act]
  note r = forfeit_recovery_Ok [OF a(1) rec]
  have "pos_active_shares pos3 = pos_active_shares pos2"
    using rec by (auto simp: forfeit_recovery_def Let_def split: if_splits)
  then show "pos_active_shares pos' = 0 \<or> pos_active_shares pos' = pos_active_shares pos"
    using a(4) pos' by (simp add: mark_closed_def)
  show "sub_pool_wf sp'" using checked_wf [OF r(1) chk] .
  show "vault sp' = vault sp" using synced(2) a(2) r(2) by simp
  show "ack" "status pos \<noteq> Closed" "status pos' = Closed" "pos_recovery_shares pos' = 0"
    using guards pos' r(5) by (simp_all add: mark_closed_def)
qed

lemma claim_Ok:
  assumes "sub_pool_wf sp" and "claim_dormant_recovery market env sp pos = Inr (sp', pos', out)"
    and "env_p_now env < 2 ^ 64"
  shows "sub_pool_wf sp'" and "vault sp' + cr_redeemable out = vault sp"
    and "pos_recovery_shares pos' = 0" and "0 < cr_recovery_shares_burned out"
proof -
  from assms(2) obtain sp1 synced pos1 m pos2 tick rc where
      sync: "sync_pool market env sp = Inr (sp1, synced)"
    and mig: "lazy_migrate_position sp1 pos = Inr (pos1, m)" and some: "pos_recovery_shares pos1 \<noteq> 0"
    and rec: "burn_recovery sp1 pos1 = Inr (sp', pos2, tick, rc)"
    and out: "cr_redeemable out = redeemable rc" "cr_recovery_shares_burned out = burned_shares rc"
    and pos': "pos' = pos2\<lparr>updated_at_slot := env_slot env\<rparr>"
    and chk: "check_subpool_invariants sp' = Inr ()"
    by (auto simp: claim_dormant_recovery_def Let_def split: if_splits)
  note synced = sync_pool_wf [OF sub_pool_wf_sides [OF assms(1)] sync assms(3)]
  note r = burn_recovery_Ok [OF sub_pool_wf_sides [OF synced(1)] rec]
  show "sub_pool_wf sp'" using checked_wf [OF r(1) chk] .
  show "vault sp' + cr_redeemable out = vault sp" using synced(2) r(2) out by simp
  show "pos_recovery_shares pos' = 0" "0 < cr_recovery_shares_burned out"
    using r(4,5) some pos' out by simp_all
qed

lemma harvest_dust_Ok:
  assumes "sub_pool_wf sp" and "harvest_dust market d sp = Inr (sp', out)"
  shows "sub_pool_wf sp'" and "vault sp' + ho_amount out = vault sp" and "ho_amount out = dust d sp"
    and "dust d sp' = 0"
proof -
  from assms(2) have sp': "sp' = set_dust d 0 sp" and out: "ho_amount out = dust d sp"
    and chk: "check_subpool_invariants sp' = Inr ()"
    by (auto simp: harvest_dust_def Let_def split: if_splits)
  have "side_ok e sp'" for e
    using sides_okD [OF sub_pool_wf_sides [OF assms(1)], of e] by (simp add: sp' side_ok_def side_simps)
  then show "sub_pool_wf sp'" using chk checked_wf by (simp add: sides_ok_def)
  have "vault sp' + ho_amount out = vault sp + 0"
    by (intro vault_eqI [of d]) (simp_all add: sp' out side_funds_def side_simps)
  then show "vault sp' + ho_amount out = vault sp" by simp
  show "ho_amount out = dust d sp" "dust d sp' = 0" by (simp_all add: out sp' side_simps)
qed

lemma pre_sync_Ok:
  assumes "sub_pool_wf sp" and "pre_sync_dormant_bucket market d tick slot sp = Inr (sp', out)"
  shows "sub_pool_wf sp'" and "vault sp' = vault sp" and "pr_pending_remaining out = 0"
    and "pr_events_applied out \<le> max_pending_apply_per_tx market"
    and "\<exists>b. get_bucket (dormant d sp) tick = Some b
           \<and> pr_post_accrued_value out = pr_pre_accrued_value out + owed_to (dormant d sp) b
           \<and> sp' = set_dormant d (settle tick b (dormant d sp)) sp"
proof -
  from assms(2) obtain b store a where b: "get_bucket (dormant d sp) tick = Some b"
    and ap: "apply_pending_to_bucket tick (dormant d sp) = Inr (store, pr_events_applied out)"
    and a: "get_bucket store tick = Some a"
    and sp': "sp' = set_dormant d store sp"
    and out: "pr_pre_accrued_value out = accrued_value b" "pr_post_accrued_value out = accrued_value a"
      "pr_pending_remaining out = next_event_index store - last_applied_index a"
      "next_event_index (dormant d sp) - last_applied_index b \<le> max_pending_apply_per_tx market"
    and chk: "check_subpool_invariants sp' = Inr ()"
    by (auto simp: pre_sync_dormant_bucket_def Let_def split: if_splits)
  note ok = sides_ok_store [OF sub_pool_wf_sides [OF assms(1)], of d]
  note side = sides_okD [OF sub_pool_wf_sides [OF assms(1)]]
  note bg = b [unfolded get_bucket_def]
  note applied = apply_pending_Ok [OF ok bg ap]
  have a': "a = caught_up (dormant d sp) b"
    using a settle_lookup(1) [OF ok bg] by (simp add: applied(1) get_bucket_def del: settle_fields)
  have "side_ok e sp'" for e
    using side [of e] applied(3) settle_totals(3) [OF ok bg]
    by (auto simp: sp' side_ok_def side_simps applied(1) simp del: settle_fields(5-7))
  then show "sub_pool_wf sp'" using chk checked_wf by (simp add: sides_ok_def)
  have "vault sp' + 0 = vault sp + 0"
    using settle_funds [OF ok bg]
    by (intro vault_eqI [of d]) (simp_all add: sp' side_funds_def side_simps applied(1))
  then show "vault sp' = vault sp" by simp
  show "pr_pending_remaining out = 0"
    using settle_lookup(2) [OF ok bg] by (simp add: out applied(1) a' del: settle_fields)
  show "pr_events_applied out \<le> max_pending_apply_per_tx market" using applied(2) out(4) by simp
  show "\<exists>b. get_bucket (dormant d sp) tick = Some b
           \<and> pr_post_accrued_value out = pr_pre_accrued_value out + owed_to (dormant d sp) b
           \<and> sp' = set_dormant d (settle tick b (dormant d sp)) sp"
    using b a' applied(1) by (intro exI [of _ b]) (simp add: out sp')
qed

end
