(* ===== verification/Engine_Value.thy ===== *)
theory Engine_Value
  imports Engine_Ops_Facts
begin

text \<open>
  What the engine's amounts are worth. On one price move at most one side has a demand, so
  the two arms of \<open>sync_pool\<close> never compete and their order does not matter; a settlement
  takes from the losing pool exactly the smaller of the demand and the pool; an open does not
  dilute the shares that are already there, and closing right after it pays back at most the
  principal.
\<close>

section \<open>Claims and the price\<close>

lemma total_outstanding_eq:
  assumes "store_wf st" and "total_outstanding_claim_at st p = Inr v"
  shows "v = (\<Sum>(k, b)\<leftarrow>buckets st. claim_val (store_direction st) p b)"
proof -
  let ?d = "store_direction st"
  have from_buckets: "v = t + (\<Sum>b\<leftarrow>filter (activated ?d p) (map snd bs). claim_val ?d p b)"
    if "fold_res (\<lambda>b total. and_then (outstanding_claim_at b p) (\<lambda>q. add_c total q))
          (filter (activated ?d p) (map snd bs)) t = Inr v"
      and "\<forall>(k, b)\<in>set bs. bucket_direction b = ?d \<and> anchor_price b < 2 ^ 128" for bs t
    using that
  proof (induction bs arbitrary: t)
    case (Cons kb bs)
    obtain k b where kb: "kb = (k, b)" by fastforce
    show ?case
    proof (cases "activated ?d p b")
      case False
      with Cons.IH [of t] Cons.prems show ?thesis by (simp add: kb)
    next
      case True
      with Cons.prems(1) obtain q where q: "outstanding_claim_at b p = Inr q"
        and rest: "fold_res (\<lambda>b total. and_then (outstanding_claim_at b p) (\<lambda>q. add_c total q))
          (filter (activated ?d p) (map snd bs)) (t + q) = Inr v"
        by (auto simp: kb)
      have "q = claim_val ?d p b"
        using outstanding_claim_at_Ok [OF q] Cons.prems(2) by (simp add: kb)
      with Cons.IH [OF rest] Cons.prems(2) True show ?thesis by (simp add: kb)
    qed
  qed simp
  have "\<forall>(k, b)\<in>set (buckets st). bucket_direction b = ?d \<and> anchor_price b < 2 ^ 128"
    using assms(1) by (auto simp: store_wf_def bucket_ok_def)
  from from_buckets [OF assms(2) [unfolded total_outstanding_claim_at_def activated_buckets_def] this]
  have "v = (\<Sum>b\<leftarrow>filter (activated ?d p) (map snd (buckets st)). claim_val ?d p b)" by simp
  also have "\<dots> = (\<Sum>b\<leftarrow>map snd (buckets st). claim_val ?d p b)"
    by (rule sum_list_map_filter) simp
  finally show ?thesis by (simp add: case_prod_unfold comp_def)
qed

text \<open>A price move against a side cannot raise its claims.\<close>

definition toward :: "direction \<Rightarrow> u64 \<Rightarrow> u64 \<Rightarrow> bool" where
  "toward d p q \<longleftrightarrow> (case d of Long \<Rightarrow> p \<le> q | Short \<Rightarrow> q \<le> p)"

lemma claim_val_mono: "toward d q p \<Longrightarrow> claim_val d q b \<le> claim_val d p b"
  by (cases d) (auto simp: toward_def claim_val_def intrinsic_val_def intro!: diff_le_mono div_le_mono)

lemma total_outstanding_mono:
  assumes "store_wf st" and "total_outstanding_claim_at st p = Inr v"
    and "total_outstanding_claim_at st q = Inr w" and "toward (store_direction st) q p"
  shows "w \<le> v"
  unfolding total_outstanding_eq [OF assms(1,2)] total_outstanding_eq [OF assms(1,3)]
  using claim_val_mono [OF assms(4)] by (auto intro!: sum_list_mono)

lemma sync_demands_exclusive:
  assumes "sides_ok sp" and "sync_demands p q sp = Inr (la, lt, sa, st)" and "p < 2 ^ 64"
  shows "p \<le> q \<Longrightarrow> sa = 0 \<and> st = 0" and "q \<le> p \<Longrightarrow> la = 0 \<and> lt = 0"
proof -
  have wf: "store_wf (dormant d sp)" "store_direction (dormant d sp) = d" for d
    using sides_okD [OF assms(1), of d] by (simp_all add: side_ok_def)
  from assms(2) obtain pre_l pre_s lp sp' post_l post_s where
      s: "total_outstanding_claim_at (dormant Long sp) p = Inr pre_l"
        "total_outstanding_claim_at (dormant Short sp) p = Inr pre_s"
        "signed_pnl_increment 1 (long_active_notional sp) p q = Inr lp"
        "signed_pnl_increment (- 1) (short_active_notional sp) p q = Inr sp'"
        "total_outstanding_claim_at (dormant Long sp) q = Inr post_l"
        "total_outstanding_claim_at (dormant Short sp) q = Inr post_s"
        "la = nat (max lp 0)" "lt = la + (post_l - pre_l)"
        "sa = nat (max sp' 0)" "st = sa + (post_s - pre_s)"
    by (auto simp: sync_demands_def Let_def dormant_def direction_sign_def)
  have b: "p < 2 ^ 128" using assms(3) by simp
  show "p \<le> q \<Longrightarrow> sa = 0 \<and> st = 0"
    using signed_pnl_increment_Ok(5) [OF s(4) b]
      total_outstanding_mono [OF wf(1) s(2,6)] s(9,10) by (simp add: toward_def wf)
  show "q \<le> p \<Longrightarrow> la = 0 \<and> lt = 0"
    using signed_pnl_increment_Ok(4) [OF s(3) b]
      total_outstanding_mono [OF wf(1) s(1,5)] s(7,8) by (simp add: toward_def wf)
qed

section \<open>Opening does not dilute\<close>

text \<open>
  What the pool is credited with for \<open>m\<close> minted shares is their value rounded down, so
  the value of a share after the open is at least what it was, up to one unit in total: the
  old holders lose less than one token unit of rounding in favour of the new one.
\<close>

lemma floor_mint_bounds:
  fixes prin shares equity :: nat
  assumes "0 < equity" and "0 < shares" and "m = prin * shares div equity" and "a = m * equity div shares"
  shows "a \<le> prin" and "a * shares \<le> m * equity" and "m * equity < a * shares + shares"
proof -
  have "m * equity \<le> prin * shares" unfolding assms(3) by (rule div_times_less_eq_dividend)
  then have "a \<le> prin * shares div shares" unfolding assms(4) by (rule div_le_mono)
  then show "a \<le> prin" using assms(2) by simp
  show "a * shares \<le> m * equity" unfolding assms(4) by (rule div_times_less_eq_dividend)
  have "m * equity < shares + shares * (m * equity div shares)"
    using assms(2) by (rule dividend_less_times_div)
  then show "m * equity < a * shares + shares" unfolding assms(4) by (simp add: mult.commute)
qed

lemma minted_value:
  fixes prin shares equity :: nat
  assumes "0 < equity" and "0 < shares" and "m = prin * shares div equity" and "a = m * equity div shares"
    and "0 < m"
  shows "(equity + a) * m div (shares + m) = a"
proof (rule div_nat_eqI)
  note b = floor_mint_bounds [OF assms(1-4)]
  show "(shares + m) * a \<le> (equity + a) * m" using b(2) by (simp add: algebra_simps)
  have "equity * m < (a + 1) * shares" using b(3) by (simp add: algebra_simps)
  then show "(equity + a) * m < (shares + m) * Suc a" using assms(5) by (simp add: algebra_simps)
qed

lemma mint_shares_facts:
  assumes "mint_shares market equity shares prin = Inr (minted, into_pool, rest)"
    and "equity < 2 ^ 128" and "shares < 2 ^ 128"
  shows "into_pool * shares \<le> minted * equity" and "minted * equity \<le> into_pool * shares + shares"
    and "0 < minted \<Longrightarrow> 0 < equity + into_pool"
    and "0 < minted \<Longrightarrow> (equity + into_pool) * minted div (shares + minted) = into_pool"
proof -
  note m = mint_shares_Ok [OF assms]
  have "into_pool * shares \<le> minted * equity \<and> minted * equity \<le> into_pool * shares + shares
    \<and> (0 < minted \<longrightarrow> 0 < equity + into_pool
      \<and> (equity + into_pool) * minted div (shares + minted) = into_pool)"
  proof (cases "equity = 0")
    case True
    with m(1,2) show ?thesis by auto
  next
    case False
    then have s: "0 < shares" using m(3) by (cases shares) auto
    note b = floor_mint_bounds [of equity shares minted prin into_pool]
      minted_value [of equity shares minted prin into_pool]
    from False s m(3) b show ?thesis by auto
  qed
  then show "into_pool * shares \<le> minted * equity" "minted * equity \<le> into_pool * shares + shares"
    "0 < minted \<Longrightarrow> 0 < equity + into_pool"
    "0 < minted \<Longrightarrow> (equity + into_pool) * minted div (shares + minted) = into_pool" by simp_all
qed

text \<open>A second sync at the same price changes only the clock.\<close>

lemma sync_same_price:
  assumes "sync_pool market env sp = Inr (sp', out)" and "env_p_now env = last_price sp"
  shows "sp' = sp\<lparr>last_sync_slot := env_slot env\<rparr>" and "so_events out = []"
proof -
  have "last_price sp \<noteq> 0"
    using assms by (auto simp: sync_pool_def sync_guards_def split: if_splits)
  with assms show "sp' = sp\<lparr>last_sync_slot := env_slot env\<rparr>" "so_events out = []"
    by (auto simp: sync_pool_def Let_def default_sync_outcome_def split: if_splits)
qed

lemma open_then_close:
  assumes "sub_pool_wf sp" and "env_p_now env < 2 ^ 64"
    and op: "open_position market env d gross pid sp = Inr (sp1, pos, oo)"
    and cl: "close_position market env' sp1 pos = Inr (sp2, pos', co)"
    and same: "env_p_now env' = env_p_now env"
  shows "co_withdrawable co = oo_principal_into_pool oo" and "oo_principal_into_pool oo \<le> principal pos"
proof -
  from op obtain sp0 synced fee prin minted into_pool rest notional_added where
      sync: "sync_pool market env sp = Inr (sp0, synced)"
    and mint: "mint_shares market (pool_equity d sp0) (active_shares d sp0) prin = Inr (minted, into_pool, rest)"
    and sp1: "sp1 = set_dust d (dust d sp0 + rest) (set_active_notional d (active_notional d sp0 + notional_added)
        (set_active_shares d (active_shares d sp0 + minted) (set_pool_equity d (pool_equity d sp0 + into_pool) sp0)))"
    and pos: "principal pos = prin" "pos_active_shares pos = minted" "pos_direction pos = d"
      "pos_recovery_shares pos = 0" "pos_active_generation pos = active_generation d sp1"
    and oo: "oo_principal_into_pool oo = into_pool"
    by (auto simp: open_position_def Let_def split: if_splits)
  note synced = sync_pool_wf [OF sub_pool_wf_sides [OF assms(1)] sync assms(2)]
  have ok: "side_ok d sp0" using synced(1) sub_pool_wfD by (auto simp: side_wf_def)
  then have bounds: "pool_equity d sp0 < 2 ^ 128" "active_shares d sp0 < 2 ^ 128" by (simp_all add: side_ok_def)
  note m = mint_shares_facts [OF mint bounds]
  show "oo_principal_into_pool oo \<le> principal pos"
    using mint_shares_Ok(1) [OF mint bounds] by (simp add: oo pos)
  from cl obtain sp1' synced' pos1 mig sp3 pos3 v pos4 rc where
      sync': "sync_pool market env' sp1 = Inr (sp1', synced')"
    and mig: "lazy_migrate_position sp1' pos = Inr (pos1, mig)"
    and act: "burn_active sp1' pos1 = Inr (sp3, pos3, v)"
    and rec: "burn_recovery_if_any sp3 pos3 = Inr (sp2, pos4, rc)"
    and co: "co_withdrawable co = v + redeemable rc" "0 < v + redeemable rc"
    by (auto simp: close_position_def Let_def split: if_splits)
  have "env_p_now env' = last_price sp1" using synced(3) same by (simp add: sp1 side_simps)
  note clock = sync_same_price(1) [OF sync' this]
  have pos1: "pos1 = pos"
    using mig pos by (auto simp: lazy_migrate_position_def Let_def clock side_simps split: if_splits)
  have eq: "pool_equity d sp1' = pool_equity d sp0 + into_pool"
    "active_shares d sp1' = active_shares d sp0 + minted"
    by (simp_all add: clock sp1 side_simps)
  have "pos_recovery_shares pos3 = 0" using act pos by (auto simp: pos1 burn_active_def Let_def split: if_splits)
  then have "redeemable rc = 0" using rec by (auto simp: burn_recovery_if_any_def no_receipt_def)
  moreover have "side_ok e sp1'" for e
  proof -
    have "sub_pool_wf sp1" using open_position_Ok [OF assms(1) op assms(2)] by blast
    then show ?thesis using sub_pool_wfD [of sp1 e] by (simp add: clock side_wf_def side_ok_def side_simps)
  qed
  then have "sides_ok sp1'" by (simp add: sides_ok_def)
  from burn_active_Ok(3) [OF this act] have
    "v = (if minted = 0 \<or> pool_equity d sp0 + into_pool = 0 then 0
       else (pool_equity d sp0 + into_pool) * minted div (active_shares d sp0 + minted))"
    by (simp add: pos1 pos eq)
  ultimately show "co_withdrawable co = oo_principal_into_pool oo"
    using co m(4) by (auto simp: oo split: if_splits)
qed

section \<open>A settlement takes what it may\<close>

text \<open>
  The losing pool pays exactly the smaller of the demand and what it holds; the winner's side
  (pool, store and dust) receives exactly that, its pool at most its active demand.
\<close>

lemma settle_sides_amounts:
  assumes "sides_ok sp" and "p < 2 ^ 64"
    and dem: "sync_demands p q sp = Inr (la, lt, sa, st)"
    and set: "settle_sides market q (la, lt, sa, st) sp = Inr (sp', out)"
  shows "pool_equity Short sp' = pool_equity Short sp - min lt (pool_equity Short sp)
      + min st (pool_equity Long sp) * sa div st"
    and "pool_equity Long sp' = pool_equity Long sp - min st (pool_equity Long sp)
      + min lt (pool_equity Short sp) * la div lt"
proof -
  note b = sync_demands_bound [OF dem]
  have excl: "lt = 0 \<or> st = 0" using sync_demands_exclusive [OF assms(1) dem assms(2)] by linarith
  have "pool_equity Short sp' = pool_equity Short sp - min lt (pool_equity Short sp)
      + min st (pool_equity Long sp) * sa div st
    \<and> pool_equity Long sp' = pool_equity Long sp - min st (pool_equity Long sp)
      + min lt (pool_equity Short sp) * la div lt"
  proof (cases "lt = 0")
    case False
    with set excl have st: "st = 0"
      and w: "settle_winner market q Long la lt (sp, default_sync_outcome) = Inr (sp', out)"
      by (simp_all add: settle_sides_def)
    show ?thesis using settle_winner_Ok(3,4) [OF assms(1) w b(1)] st by simp
  next
    case True
    show ?thesis
    proof (cases "st = 0")
      case True
      with \<open>lt = 0\<close> set show ?thesis by (simp add: settle_sides_def)
    next
      case False
      with True set have w: "settle_winner market q Short sa st (sp, default_sync_outcome) = Inr (sp', out)"
        by (simp add: settle_sides_def)
      show ?thesis using settle_winner_Ok(3,4) [OF assms(1) w b(2)] True by simp
    qed
  qed
  then show "pool_equity Short sp' = pool_equity Short sp - min lt (pool_equity Short sp)
      + min st (pool_equity Long sp) * sa div st"
    "pool_equity Long sp' = pool_equity Long sp - min st (pool_equity Long sp)
      + min lt (pool_equity Short sp) * la div lt" by simp_all
qed

end
