(* ===== verification/Evaluate.thy ===== *)
theory Evaluate
  imports Engine_Value
begin

text \<open>
  Kernel evaluation of the model on concrete markets. The collection \<open>evals\<close> unfolds every
  operation of the store, the market and the engine, so that \<open>simp\<close> computes whole scenarios.
  The sample sub-pool of this theory is the starting point of the witnesses: a long and a short
  position opened on a fresh sub-pool, then price moves that wipe the long side out and let
  it recover.
\<close>

section \<open>Unfolding\<close>

named_theorems evals "definitions unfolded to evaluate the engine on a concrete input"

declare Let_def [evals] mul_div_floor_exact [evals] mul_div_ceil_exact [evals] ceil_div_def [evals]
  checked_add_w_def [evals] checked_sub_w_def [evals] checked_mul_w_def [evals] plus_w_def [evals]
  signed_pnl_increment_def [evals] price_move_bps_def [evals] BPS_SCALE_def [evals]
  checked_add_m_def [evals] checked_sub_m_def [evals] checked_mul_m_def [evals]
  assert_schema_version_def [evals] SCHEMA_VERSION_CURRENT_def [evals] sample_market_def [evals]
  direction_sign_def [evals] bt_empty_def [evals] total_shares_of_def [evals]
declare new_store_def [evals] ledger_len_def [evals] bucket_count_def [evals]
  get_bucket_def [evals] bucket_ticks_def [evals] intrinsic_claim_at_def [evals]
  outstanding_claim_at_def [evals] compute_intrinsic_def [evals] activated_def [evals]
  activated_buckets_def [evals] activated_keys_def [evals]
  total_outstanding_claim_at_def [evals] replay_credit_def [evals] replay_entry_def [evals]
  gc_window_error_def [evals] ledger_from_def [evals] apply_pending_to_bucket_def [evals]
  apply_pending_to_all_def [evals] pending_entry_def [evals] pending_for_bucket_def [evals]
  compact_ledger_def [evals] ensure_ledger_capacity_def [evals] merge_bucket_def [evals]
  insert_or_merge_def [evals] drain_keys_def [evals] sum_outstanding_def [evals]
  eager_step_def [evals] distribute_def [evals] lazy_outstanding_step_def [evals]
  lazy_share_step_def [evals] distribute_lazy_def [evals] redeem_def [evals]
  check_bucket_indices_def [evals] sum_allocated_def [evals]
  check_store_invariants_def [evals] admit_bucket_def [evals] from_onchain_parts_def [evals]
declare new_sub_pool_def [evals] pool_equity_def [evals] active_shares_def [evals]
  recovery_shares_def [evals] active_notional_def [evals] dust_def [evals]
  dormant_def [evals] active_generation_def [evals] rotate_log_def [evals]
  set_pool_equity_def [evals] set_active_shares_def [evals] set_recovery_shares_def [evals]
  set_active_notional_def [evals] set_dust_def [evals] set_dormant_def [evals]
  find_rotate_record_def [evals] push_rotate_record_def [evals] total_redeemable_def [evals]
  inv2_active_shares_zero_iff_pool_zero_def [evals]
  inv2_active_shares_zero_iff_pool_zero_short_def [evals]
  inv4_active_notional_nonneg_def [evals] inv5_recovery_shares_match_buckets_def [evals]
  inv6_dormant_ledger_consistency_def [evals] check_subpool_invariants_def [evals]
declare default_sync_outcome_def [evals] as_i64_def [evals] bucket_tick_of_def [evals]
  rotate_active_to_recovery_def [evals] set_to_pool_inflow_def [evals]
  set_to_recovery_inflow_def [evals] set_residual_to_dust_def [evals] set_rotated_def [evals]
  push_event_def [evals] sync_guards_def [evals] sync_demands_def [evals]
  distribute_by_mode_def [evals] pay_recovery_def [evals] settle_winner_def [evals]
  settle_sides_def [evals] pool_sync_event_of_def [evals] rotate_if_empty_def [evals]
  sync_move_def [evals] sync_pool_def [evals]
declare lazy_migrate_position_def [evals] pre_sync_dormant_bucket_def [evals]
  split_fee_def [evals] mint_shares_def [evals] open_position_def [evals]
  burn_active_def [evals] burn_recovery_def [evals] no_receipt_def [evals]
  burn_recovery_if_any_def [evals] mark_closed_def [evals] close_position_def [evals]
  burn_worthless_def [evals] forfeit_recovery_def [evals]
  force_close_zero_value_position_def [evals] claim_dormant_recovery_def [evals]
  harvest_dust_def [evals]

section \<open>The sample sub-pool\<close>

definition env_at :: "u64 \<Rightarrow> u64 \<Rightarrow> price_envelope" where
  "env_at p slot = \<lparr>env_p_now = p, env_slot = slot, env_expected_min = 0,
     env_expected_max = 2 ^ 64 - 1\<rparr>"

declare env_at_def [evals]

definition demo_market :: "distribute_mode \<Rightarrow> market_params" where
  "demo_market m = sample_market\<lparr>dormant_distribute_mode := m\<rparr>"

declare demo_market_def [evals]

definition demo_pool :: sub_pool where
  "demo_pool = (new_sub_pool 7 1000 1)\<lparr>long_pool_equity := 100000000,
     short_pool_equity := 1000000000, long_active_shares := 100000000,
     short_active_shares := 1000000000, long_active_notional := 1000000000,
     short_active_notional := 10000000000\<rparr>"

definition demo_long :: position where
  "demo_long = \<lparr>owner = replicate 32 0, pos_sub_pool_id = 7, position_id = 1,
     pos_direction = Long, status = Open, principal = 100000000, notional = 1000000000,
     pos_active_shares = 100000000, pos_recovery_shares = 0, recovery_bucket_tick = None,
     zero_price = 0, entry_price = 1000, pos_last_sync_slot = 1, opened_at_slot = 1,
     updated_at_slot = 1, closed_at_slot = 0, pos_schema_version = 1, pos_active_generation = 0\<rparr>"

definition demo_short :: position where
  "demo_short = demo_long\<lparr>position_id := 2, pos_direction := Short, principal := 1000000000,
     notional := 10000000000, pos_active_shares := 1000000000\<rparr>"

text \<open>After the fall to 900: the long side is wiped out and sits in one bucket.\<close>

definition demo_wiped :: sub_pool where
  "demo_wiped = demo_pool\<lparr>long_pool_equity := 0, short_pool_equity := 1100000000,
     long_active_shares := 0, long_recovery_shares := 100000000, long_active_notional := 0,
     long_dormant := (new_store Long)\<lparr>buckets := [(900,
       \<lparr>bucket_direction = Long, zero_price_tick = 900, anchor_price = 900,
        total_recovery_shares = 100000000, total_recovery_notional = 1000000000,
        accrued_value = 0, position_count = 1, last_applied_index = 0\<rparr>)]\<rparr>,
     last_price := 900, last_sync_slot := 2, long_active_generation := 1,
     long_rotate_log := [\<lparr>generation_just_ended = 0, rr_bucket_tick = 900,
       rr_anchor_price = 900\<rparr>]\<rparr>"

text \<open>After the rise to 990: the bucket is owed everything it claims, attributed or pending.\<close>

definition demo_store :: "distribute_mode \<Rightarrow> dormant_store" where
  "demo_store m = (new_store Long)\<lparr>buckets := [(900,
       \<lparr>bucket_direction = Long, zero_price_tick = 900, anchor_price = 900,
        total_recovery_shares = 100000000, total_recovery_notional = 1000000000,
        accrued_value = (case m of Eager \<Rightarrow> 100000000 | Lazy \<Rightarrow> 0), position_count = 1,
        last_applied_index = (case m of Eager \<Rightarrow> 1 | Lazy \<Rightarrow> 0)\<rparr>)],
     accrued_value_total := (case m of Eager \<Rightarrow> 100000000 | Lazy \<Rightarrow> 0),
     ledger := [\<lparr>event_index = 0, p_at_event = 990, total_outstanding_at_event = 100000000,
       total_alloc_input = 100000000, allocated_sum_observed = 100000000\<rparr>],
     next_event_index := 1,
     pending_distribution_total := (case m of Eager \<Rightarrow> 0 | Lazy \<Rightarrow> 100000000)\<rparr>"

definition demo_recovering :: "distribute_mode \<Rightarrow> sub_pool" where
  "demo_recovering m = demo_wiped\<lparr>short_pool_equity := 1000000000, long_dormant := demo_store m,
     last_price := 990, last_sync_slot := 3\<rparr>"

named_theorems demo "the sample states, unfolded"

declare demo_pool_def [demo] demo_long_def [demo] demo_short_def [demo] demo_wiped_def [demo]
  demo_store_def [demo] demo_recovering_def [demo]

lemma demo_opened:
  "\<exists>sp o1 o2. open_position (demo_market m) (env_at 1000 1) Long 100000000 1 (new_sub_pool 7 0 0)
       = Inr (sp, demo_long, o1)
     \<and> open_position (demo_market m) (env_at 1000 1) Short 1000000000 2 sp
       = Inr (demo_pool, demo_short, o2)"
  by (simp add: evals demo)

lemma demo_fell: "\<exists>out. sync_pool (demo_market m) (env_at 900 2) demo_pool = Inr (demo_wiped, out)"
  by (simp add: evals demo)

lemma demo_rose:
  "\<exists>out. sync_pool (demo_market m) (env_at 990 3) demo_wiped = Inr (demo_recovering m, out)"
  by (cases m) (simp_all add: evals demo)

lemma env_at_price: "p < 2 ^ 64 \<Longrightarrow> env_p_now (env_at p slot) < 2 ^ 64"
  by (simp add: env_at_def)

lemma demo_pool_wf: "sub_pool_wf demo_pool"
proof -
  obtain sp o1 o2 where
      o1: "open_position (demo_market Eager) (env_at 1000 1) Long 100000000 1 (new_sub_pool 7 0 0)
        = Inr (sp, demo_long, o1)"
    and o2: "open_position (demo_market Eager) (env_at 1000 1) Short 1000000000 2 sp
        = Inr (demo_pool, demo_short, o2)"
    using demo_opened by blast
  have e: "env_p_now (env_at 1000 1) < 2 ^ 64" by (simp add: env_at_def)
  have "sub_pool_wf sp" using open_position_Ok [OF new_sub_pool_wf o1 e] .
  from open_position_Ok [OF this o2 e] show ?thesis .
qed

lemma demo_wiped_wf: "sub_pool_wf demo_wiped"
proof -
  obtain out where s: "sync_pool (demo_market Eager) (env_at 900 2) demo_pool = Inr (demo_wiped, out)"
    using demo_fell by blast
  show ?thesis
    by (rule sync_pool_wf [OF sub_pool_wf_sides [OF demo_pool_wf] s]) (simp add: env_at_def)
qed

lemma demo_recovering_wf: "sub_pool_wf (demo_recovering m)"
proof -
  obtain out where s: "sync_pool (demo_market m) (env_at 990 3) demo_wiped = Inr (demo_recovering m, out)"
    using demo_rose by blast
  show ?thesis
    by (rule sync_pool_wf [OF sub_pool_wf_sides [OF demo_wiped_wf] s]) (simp add: env_at_def)
qed

end
