(* ===== verification/Onchain.thy ===== *)
theory Onchain
  imports Dormant_Check
begin

text \<open>
  The account-shape representation of a dormant store, \<open>crates/clearing-core/src/onchain.rs\<close>:
  bucket records, the ledger account, packing and unpacking. Packing a well-formed store with
  live buckets and unpacking it gives the store back, unpacking validates what it loads, and
  a dead slot never becomes a bucket.
\<close>

section \<open>Accounts\<close>

record onchain_bucket_record =
  br_direction :: u8
  br_reserved0 :: "u8 list"
  br_zero_price_tick :: i64
  br_anchor_price :: u64
  br_total_recovery_shares :: u128
  br_total_recovery_notional :: u128
  br_accrued_value :: u128
  br_position_count :: u64
  br_last_applied_index :: u64

record onchain_ledger_entry =
  le_event_index :: u64
  le_p_at_event :: u64
  le_total_outstanding_at_event :: u128
  le_total_alloc_input :: u128
  le_allocated_sum_observed :: u128

record onchain_ledger =
  ol_direction :: u8
  ol_reserved0 :: "u8 list"
  ol_max_entries :: u32
  ol_gc_offset :: u64
  ol_next_event_index :: u64
  ol_accrued_value_total :: u128
  ol_pending_distribution_total :: u128
  ol_entry_count :: u32
  ol_reserved1 :: "u8 list"
  ol_entries :: "onchain_ledger_entry list"

definition is_dead :: "onchain_bucket_record \<Rightarrow> bool" where
  "is_dead r \<longleftrightarrow> br_total_recovery_shares r = 0 \<and> br_total_recovery_notional r = 0
     \<and> br_accrued_value r = 0 \<and> br_position_count r = 0"

definition direction_byte :: "direction \<Rightarrow> u8" where
  "direction_byte d = (case d of Long \<Rightarrow> 0 | Short \<Rightarrow> 1)"

definition dead_record :: "direction \<Rightarrow> i64 \<Rightarrow> onchain_bucket_record" where
  "dead_record d tick = \<lparr>br_direction = direction_byte d, br_reserved0 = replicate 7 0,
     br_zero_price_tick = tick, br_anchor_price = 0, br_total_recovery_shares = 0,
     br_total_recovery_notional = 0, br_accrued_value = 0, br_position_count = 0,
     br_last_applied_index = 0\<rparr>"

definition empty_ledger :: "direction \<Rightarrow> u32 \<Rightarrow> onchain_ledger" where
  "empty_ledger d max_entries = \<lparr>ol_direction = direction_byte d, ol_reserved0 = replicate 3 0,
     ol_max_entries = max_entries, ol_gc_offset = 0, ol_next_event_index = 0,
     ol_accrued_value_total = 0, ol_pending_distribution_total = 0, ol_entry_count = 0,
     ol_reserved1 = replicate 4 0, ol_entries = []\<rparr>"

section \<open>Packing\<close>

definition pack_bucket :: "u8 \<Rightarrow> i64 \<times> dormant_bucket \<Rightarrow> onchain_bucket_record" where
  "pack_bucket dir kb = (let (tick, b) = kb in
     \<lparr>br_direction = dir, br_reserved0 = replicate 7 0, br_zero_price_tick = tick,
      br_anchor_price = anchor_price b, br_total_recovery_shares = total_recovery_shares b,
      br_total_recovery_notional = total_recovery_notional b, br_accrued_value = accrued_value b,
      br_position_count = position_count b, br_last_applied_index = last_applied_index b\<rparr>)"

definition pack_entry :: "dist_entry \<Rightarrow> onchain_ledger_entry" where
  "pack_entry e = \<lparr>le_event_index = event_index e, le_p_at_event = p_at_event e,
     le_total_outstanding_at_event = total_outstanding_at_event e,
     le_total_alloc_input = total_alloc_input e,
     le_allocated_sum_observed = allocated_sum_observed e\<rparr>"

definition pack_dormant_store ::
  "dormant_store \<Rightarrow> u32 \<Rightarrow> u32 \<Rightarrow> (onchain_bucket_record list \<times> onchain_ledger) clearing" where
  "pack_dormant_store st max_buckets max_ledger =
     (if bucket_count st > max_buckets then Err DormantBucketCapExceeded
      else if ledger_len st > max_ledger then Err LedgerCapacityExceeded
      else
        let dir = direction_byte (store_direction st);
            bs = sort_key br_zero_price_tick (map (pack_bucket dir) (buckets st));
            es = map pack_entry (ledger st) in
        Ok (bs, \<lparr>ol_direction = dir, ol_reserved0 = replicate 3 0, ol_max_entries = max_ledger,
                 ol_gc_offset = ledger_gc_offset st, ol_next_event_index = next_event_index st,
                 ol_accrued_value_total = accrued_value_total st,
                 ol_pending_distribution_total = pending_distribution_total st,
                 ol_entry_count = length es mod 2 ^ 32, ol_reserved1 = replicate 4 0,
                 ol_entries = es\<rparr>))"

section \<open>Unpacking\<close>

definition direction_of_byte :: "u8 \<Rightarrow> direction clearing" where
  "direction_of_byte n = (if n = 0 then Ok Long else if n = 1 then Ok Short
                          else Err (Invariant ''invalid direction byte''))"

definition check_entry ::
  "u64 \<Rightarrow> nat \<times> onchain_ledger_entry \<Rightarrow> unit \<Rightarrow> unit clearing" where
  "check_entry gc ie u = (let (i, e) = ie in
     and_then (ok_or (checked_add_w 64 gc i) MathOverflow) (\<lambda>expected.
     if le_event_index e \<noteq> expected then
       Err (Invariant ''ledger.entries[i].event_index != gc_offset + i'')
     else Ok ()))"

definition unpack_bucket :: "direction \<Rightarrow> onchain_bucket_record \<Rightarrow> i64 \<times> dormant_bucket" where
  "unpack_bucket d r = (br_zero_price_tick r,
     \<lparr>bucket_direction = d, zero_price_tick = br_zero_price_tick r,
      anchor_price = br_anchor_price r, total_recovery_shares = br_total_recovery_shares r,
      total_recovery_notional = br_total_recovery_notional r, accrued_value = br_accrued_value r,
      position_count = br_position_count r, last_applied_index = br_last_applied_index r\<rparr>)"

definition unpack_step ::
  "direction \<Rightarrow> u8 \<Rightarrow> onchain_bucket_record \<Rightarrow> (i64 \<times> dormant_bucket) list
   \<Rightarrow> (i64 \<times> dormant_bucket) list clearing" where
  "unpack_step d dir r acc =
     (if br_direction r \<noteq> dir then Err (Invariant ''bucket direction != ledger direction'')
      else if is_dead r then Ok acc
      else Ok (acc @ [unpack_bucket d r]))"

definition unpack_entry :: "onchain_ledger_entry \<Rightarrow> dist_entry" where
  "unpack_entry e = \<lparr>event_index = le_event_index e, p_at_event = le_p_at_event e,
     total_outstanding_at_event = le_total_outstanding_at_event e,
     total_alloc_input = le_total_alloc_input e,
     allocated_sum_observed = le_allocated_sum_observed e\<rparr>"

definition unpack_dormant_store ::
  "onchain_bucket_record list \<Rightarrow> onchain_ledger \<Rightarrow> dormant_store clearing" where
  "unpack_dormant_store bs l =
     and_then (direction_of_byte (ol_direction l)) (\<lambda>d.
     if ol_entry_count l \<noteq> length (ol_entries l) then
       Err (Invariant ''entry_count != entries.len()'')
     else if ol_entry_count l > ol_max_entries l then
       Err (Invariant ''entry_count > max_entries'')
     else
       and_then (fold_res (check_entry (ol_gc_offset l)) (enumerate 0 (ol_entries l)) ()) (\<lambda>_.
       and_then (fold_res (unpack_step d (ol_direction l)) bs []) (\<lambda>pairs.
       from_onchain_parts d pairs (map unpack_entry (ol_entries l)) (ol_gc_offset l)
         (ol_next_event_index l) (ol_accrued_value_total l) (ol_pending_distribution_total l))))"

section \<open>Dead slots\<close>

lemma is_dead_dead_record: "is_dead (dead_record d tick)"
  by (simp add: is_dead_def dead_record_def)

lemma unpack_skips_dead:
  assumes "is_dead r" and "br_direction r = ol_direction l"
  shows "unpack_dormant_store (as @ r # bs) l = unpack_dormant_store (as @ bs) l"
proof -
  have "fold_res (unpack_step d (ol_direction l)) (as @ r # bs) []
      = fold_res (unpack_step d (ol_direction l)) (as @ bs) []" for d
    using assms
    by (cases "fold_res (unpack_step d (ol_direction l)) as []")
      (simp_all add: fold_res_append unpack_step_def)
  then show ?thesis by (simp add: unpack_dormant_store_def cong: if_cong)
qed

section \<open>The round trip\<close>

definition live_buckets :: "dormant_store \<Rightarrow> bool" where
  "live_buckets st \<longleftrightarrow> (\<forall>(k, b)\<in>set (buckets st). 0 < total_recovery_shares b)"

lemma unpack_pack_entry [simp]: "unpack_entry (pack_entry e) = e"
  by (simp add: unpack_entry_def pack_entry_def)

lemma pack_unpack_entry [simp]: "pack_entry (unpack_entry e) = e"
  by (simp add: unpack_entry_def pack_entry_def)

lemma unpack_pack_bucket:
  assumes "bucket_direction b = d" and "zero_price_tick b = k"
  shows "unpack_bucket d (pack_bucket dir (k, b)) = (k, b)"
  using assms by (simp add: unpack_bucket_def pack_bucket_def)

lemma pack_sorted:
  assumes "bt_wf m"
  shows "sort_key br_zero_price_tick (map (pack_bucket dir) m) = map (pack_bucket dir) m"
proof -
  have "map br_zero_price_tick (map (pack_bucket dir) m) = map fst m"
    by (simp add: pack_bucket_def split_def Let_def)
  moreover have "sorted (map fst m)"
    using assms unfolding bt_wf_def by (rule strict_sorted_imp_sorted)
  ultimately show ?thesis by (metis sort_key_id_if_sorted)
qed

lemma check_entries_window:
  assumes "map event_index es = [gc + i ..< gc + i + length es]" and "gc + i + length es < 2 ^ 64"
  shows "fold_res (check_entry gc) (enumerate i (map pack_entry es)) () = Inr ()"
  using assms
proof (induction es arbitrary: i)
  case (Cons e es)
  have "event_index e = gc + i" and "map event_index es = [gc + Suc i ..< gc + Suc i + length es]"
    using Cons.prems(1) by (simp_all add: upt_rec)
  with Cons.IH [of "Suc i"] Cons.prems(2) show ?case
    by (simp add: check_entry_def pack_entry_def checked_add_w_def)
qed simp

lemma unpack_packed_buckets:
  assumes "\<forall>(k, b)\<in>set m. bucket_direction b = d \<and> zero_price_tick b = k \<and> 0 < total_recovery_shares b"
  shows "fold_res (unpack_step d dir) (map (pack_bucket dir) m) acc = Inr (acc @ m)"
  using assms
proof (induction m arbitrary: acc)
  case (Cons kb m)
  obtain k b where kb: "kb = (k, b)" by (cases kb)
  have "unpack_step d dir (pack_bucket dir (k, b)) acc = Inr (acc @ [(k, b)])"
    using Cons.prems kb
    by (simp add: unpack_step_def is_dead_def unpack_pack_bucket) (simp add: pack_bucket_def)
  with Cons.IH [of "acc @ [(k, b)]"] Cons.prems kb show ?case by simp
qed simp

lemma pack_unpack_store:
  assumes "store_wf st" and "live_buckets st" and "observed (ledger st) < 2 ^ 128"
    and "pending_distribution_total st \<le> observed (ledger st)" and "max_ledger < 2 ^ 32"
    and "pack_dormant_store st max_buckets max_ledger = Ok (bs, l)"
  shows "unpack_dormant_store bs l = Ok st"
proof -
  note wf = store_wfD [OF assms(1)]
  let ?dir = "direction_byte (store_direction st)"
  have bs: "bs = map (pack_bucket ?dir) (buckets st)" and len: "ledger_len st \<le> max_ledger"
    and l: "ol_direction l = ?dir" "ol_max_entries l = max_ledger"
      "ol_gc_offset l = ledger_gc_offset st" "ol_next_event_index l = next_event_index st"
      "ol_accrued_value_total l = accrued_value_total st"
      "ol_pending_distribution_total l = pending_distribution_total st"
      "ol_entry_count l = ledger_len st mod 2 ^ 32" "ol_entries l = map pack_entry (ledger st)"
    using assms(6) pack_sorted [OF wf(1)]
    by (auto simp: pack_dormant_store_def Let_def ledger_len_def split: if_splits)
  have d: "direction_of_byte ?dir = Inr (store_direction st)"
    by (cases "store_direction st") (simp_all add: direction_of_byte_def direction_byte_def)
  have "fold_res (check_entry (ledger_gc_offset st)) (enumerate 0 (map pack_entry (ledger st))) () = Inr ()"
    using wf(2) window_length [OF wf(2)]
    by (intro check_entries_window) (auto simp: window_ok_def)
  moreover have "fold_res (unpack_step (store_direction st) ?dir) bs [] = Inr (buckets st)"
    unfolding bs using assms(1,2) unpack_packed_buckets [of "buckets st" "store_direction st" ?dir "[]"]
    by (auto simp: store_wf_def bucket_ok_def live_buckets_def)
  moreover have "map unpack_entry (map pack_entry (ledger st)) = ledger st"
    by (simp add: map_idI)
  ultimately show ?thesis
    using rebuild_store [OF assms(1,3,4)] d len assms(5)
    by (simp add: unpack_dormant_store_def l ledger_len_def mod_less)
qed

text \<open>Unpacking validates: what it returns passes the store's runtime check.\<close>

lemma unpack_checked:
  assumes "unpack_dormant_store bs l = Ok st" and "ol_next_event_index l < 2 ^ 64"
  shows "check_store_invariants st = Ok ()" and "bt_wf (buckets st)"
    and "direction_byte (store_direction st) = ol_direction l"
proof -
  from assms(1) obtain d pairs where d: "direction_of_byte (ol_direction l) = Inr d"
    and parts: "from_onchain_parts d pairs (map unpack_entry (ol_entries l)) (ol_gc_offset l)
         (ol_next_event_index l) (ol_accrued_value_total l) (ol_pending_distribution_total l) = Inr st"
    by (auto simp: unpack_dormant_store_def split: if_splits)
  note checked = rebuilt_store_checked [OF parts assms(2)]
  then show "check_store_invariants st = Ok ()" "bt_wf (buckets st)" by simp_all
  show "direction_byte (store_direction st) = ol_direction l"
    using d checked(3) by (auto simp: direction_of_byte_def direction_byte_def split: if_splits)
qed

end
