(* ===== verification/Store_Properties.thy ===== *)
theory Store_Properties
  imports Evaluate Onchain
begin

text \<open>
  The properties of the dormant store of \<open>crates/clearing-core/src/dormant.rs\<close> and of its
  on-chain layout in \<open>onchain.rs\<close>.
\<close>

lemma demo_store_wf: "store_wf (demo_store m)" and wiped_store_wf: "store_wf (long_dormant demo_wiped)"
  using sides_ok_store [OF sub_pool_wf_sides [OF demo_recovering_wf], of Long m]
    sides_ok_store [OF sub_pool_wf_sides [OF demo_wiped_wf], of Long]
  by (simp_all add: demo_recovering_def dormant_def)

section \<open>The two distribution paths\<close>

text \<open>
  C11: eager and lazy distribution are observably the same. From one store, the same
  distribution returns the same receipt, and after every bucket has caught up the two stores
  are equal in every field: the lazy mode defers the bookkeeping without changing a unit.
\<close>

theorem eager_lazy_equivalent:
  assumes "store_wf st" and "distribute p a m st = Inr (se, re)"
    and "distribute_lazy p a m st = Inr (sl, rl)"
    and "apply_pending_to_all se = Inr (ce, ne)" and "apply_pending_to_all sl = Inr (cl, nl)"
  shows "re = rl \<and> ce = cl"
  using assms by (rule eager_lazy_same)

theorem eager_lazy_equivalent_witness:
  "\<exists>se re sl rl ce ne cl nl. distribute 990 60000000 16 (long_dormant demo_wiped) = Inr (se, re)
     \<and> distribute_lazy 990 60000000 16 (long_dormant demo_wiped) = Inr (sl, rl)
     \<and> apply_pending_to_all se = Inr (ce, ne) \<and> apply_pending_to_all sl = Inr (cl, nl)
     \<and> re = rl \<and> ce = cl \<and> se \<noteq> sl"
proof -
  have "\<exists>se re sl rl ce ne cl nl. distribute 990 60000000 16 (long_dormant demo_wiped) = Inr (se, re)
     \<and> distribute_lazy 990 60000000 16 (long_dormant demo_wiped) = Inr (sl, rl)
     \<and> apply_pending_to_all se = Inr (ce, ne) \<and> apply_pending_to_all sl = Inr (cl, nl) \<and> se \<noteq> sl"
    by (simp add: evals demo)
  then show ?thesis using eager_lazy_equivalent [OF wiped_store_wf] by blast
qed

text \<open>
  whichever path the market selects, a distribution splits its amount without loss into
  what the buckets get and what comes back, grows the funds of the store by exactly the
  former, and changes neither the shares nor the direction.
\<close>

theorem distribution_conserves:
  assumes "store_wf st" and "distribute_by_mode mode p a m st = Inr (st', r)"
  shows "store_wf st' \<and> allocated r + residual r = a
    \<and> store_funds st' = store_funds st + allocated r
    \<and> total_shares st' = total_shares st \<and> store_direction st' = store_direction st"
  using by_mode.keeps_wf [OF assms] by_mode.splits [OF assms] by_mode.funds [OF assms]
    by_mode.shares [OF assms] by_mode.dir [OF assms] by simp

theorem distribution_conserves_witness:
  "\<exists>st' r. distribute_by_mode Lazy 990 160000000 16 (long_dormant demo_wiped) = Inr (st', r)
     \<and> store_wf st' \<and> allocated r + residual r = 160000000 \<and> residual r = 60000000"
proof -
  have "\<exists>st' r. distribute_by_mode Lazy 990 160000000 16 (long_dormant demo_wiped) = Inr (st', r)
     \<and> residual r = 60000000"
    by (simp add: evals demo)
  then show ?thesis using distribution_conserves [OF wiped_store_wf] by blast
qed

section \<open>Replay\<close>

text \<open>
  the pure read \<open>pending_for_bucket\<close> predicts the replay exactly: it returns what
  \<open>apply_pending_to_bucket\<close> then adds to the bucket and takes from the pending total.
\<close>

theorem pending_prediction_exact:
  assumes "store_wf st" and "bt_get (buckets st) k = Some b"
    and "apply_pending_to_bucket k st = Inr (st', n)"
  shows "\<exists>b'. bt_get (buckets st') k = Some b'
    \<and> pending_for_bucket st k = Inr (accrued_value b' - accrued_value b)
    \<and> accrued_value b \<le> accrued_value b'
    \<and> store_funds st' = store_funds st \<and> last_applied_index b' = next_event_index st"
proof -
  note applied = apply_pending_Ok [OF assms]
  have "bt_get (buckets st') k = Some (caught_up st b)"
    using settle_lookup(1) [OF assms(1,2)] by (simp add: applied(1) del: settle_fields)
  moreover have "last_applied_index (caught_up st b) = next_event_index st"
    using settle_lookup(2) [OF assms(1,2)] by simp
  moreover have "store_funds st' = store_funds st" using settle_funds [OF assms(1,2)] applied(1) by simp
  ultimately show ?thesis using pending_predicts_apply [OF assms] by simp
qed

theorem pending_prediction_exact_witness:
  "\<exists>st' n. apply_pending_to_bucket 900 (demo_store Lazy) = Inr (st', n)
     \<and> pending_for_bucket (demo_store Lazy) 900 = Inr 100000000
     \<and> (\<exists>b'. bt_get (buckets st') 900 = Some b' \<and> accrued_value b' = 100000000)"
proof -
  have b: "\<exists>b. bt_get (buckets (demo_store Lazy)) 900 = Some b \<and> accrued_value b = 0"
    by (simp add: demo new_store_def)
  have a: "\<exists>st' n. apply_pending_to_bucket 900 (demo_store Lazy) = Inr (st', n)"
    and p: "pending_for_bucket (demo_store Lazy) 900 = Inr 100000000"
    by (simp_all add: evals demo)
  show ?thesis using pending_prediction_exact [OF demo_store_wf] a b p by fastforce
qed

text \<open>
  replay is idempotent. A bucket that has caught up is not changed by a second call,
  which reports zero applied events: a keeper that retries cannot credit twice.
\<close>

theorem replay_idempotent:
  assumes "store_wf st" and "apply_pending_to_bucket k st = Inr (st', n)"
  shows "apply_pending_to_bucket k st' = Inr (st', 0)"
proof (cases "bt_get (buckets st) k")
  case None
  then have "st' = st" using assms(2) by (simp add: apply_pending_to_bucket_def)
  with None show ?thesis by (simp add: apply_pending_to_bucket_def)
next
  case (Some b)
  note applied = apply_pending_Ok [OF assms(1) Some assms(2)]
  have "bt_get (buckets st') k = Some (caught_up st b)" and "next_event_index st' = next_event_index st"
    using settle_lookup(1) [OF assms(1) Some] by (simp_all add: applied(1) settle_def)
  then show ?thesis
    using settle_lookup(2) [OF assms(1) Some] by (simp add: apply_pending_to_bucket_def)
qed

theorem replay_idempotent_witness:
  "\<exists>st'. apply_pending_to_bucket 900 (demo_store Lazy) = Inr (st', 1)
     \<and> apply_pending_to_bucket 900 st' = Inr (st', 0)"
proof -
  have "\<exists>st'. apply_pending_to_bucket 900 (demo_store Lazy) = Inr (st', 1)"
    by (simp add: evals demo)
  then show ?thesis using replay_idempotent [OF demo_store_wf] by blast
qed

text \<open>
  garbage collection loses nothing. Compacting the ledger leaves every bucket and the
  pending total as they are, keeps the store well formed, and what each bucket has still to
  receive is the same before and after.
\<close>

theorem compaction_lossless:
  assumes "store_wf st"
  shows "store_wf (fst (compact_ledger st)) \<and> buckets (fst (compact_ledger st)) = buckets st
    \<and> store_funds (fst (compact_ledger st)) = store_funds st
    \<and> pending_for_bucket (fst (compact_ledger st)) k = pending_for_bucket st k"
proof -
  obtain n where c: "fst (compact_ledger st)
      = st\<lparr>ledger := drop n (ledger st), ledger_gc_offset := ledger_gc_offset st + n\<rparr>"
    and n: "n \<le> length (ledger st)"
    and low: "\<And>k b. bt_get (buckets st) k = Some b \<Longrightarrow> ledger_gc_offset st + n \<le> last_applied_index b"
    by (rule compact_ledger_eq [OF assms]) blast
  have "pending_for_bucket (fst (compact_ledger st)) k = pending_for_bucket st k"
  proof (cases "bt_get (buckets st) k")
    case None
    then show ?thesis by (simp add: c pending_for_bucket_def)
  next
    case (Some b)
    note l = low [OF Some]
    have "ledger_from (fst (compact_ledger st)) (last_applied_index b)
        = ledger_from st (last_applied_index b)"
      using l n drop_drop_shift [OF l, of "ledger st"] by (auto simp: ledger_from_def c)
    moreover have "ledger_gc_offset st \<le> last_applied_index b" using l by simp
    ultimately show ?thesis using Some l by (simp add: pending_for_bucket_def c)
  qed
  then show ?thesis using compact_ledger_wf [OF assms] by simp
qed

theorem compaction_lossless_witness:
  "store_wf (fst (compact_ledger (demo_store Eager)))
    \<and> ledger (fst (compact_ledger (demo_store Eager))) = []
    \<and> pending_for_bucket (fst (compact_ledger (demo_store Eager))) 900
      = pending_for_bucket (demo_store Eager) 900"
  using compaction_lossless [OF demo_store_wf, of Eager 900]
  by (simp add: demo new_store_def compact_ledger_def Let_def)

section \<open>Buckets\<close>

text \<open>
  adding shares to a bucket, new or existing, keeps the store well formed and its funds,
  and adds exactly the shares; a merge first credits the bucket what it is owed, so that the
  newcomer does not share in earlier distributions.
\<close>

theorem insert_or_merge_adds:
  assumes "store_wf st" and "insert_or_merge tick anchor shares notion count cap st = Inr st'"
    and "anchor < 2 ^ 64" and "shares < 2 ^ 128" and "notion < 2 ^ 128" and "count < 2 ^ 64"
  shows "store_wf st' \<and> store_funds st' = store_funds st \<and> total_shares st' = total_shares st + shares
    \<and> (bt_get (buckets st) tick \<noteq> None \<longrightarrow> pending_for_bucket st' tick = Inr 0)"
proof -
  have "pending_for_bucket st' tick = Inr 0" if "bt_get (buckets st) tick = Some b" for b
  proof -
    from that assms(2) obtain st1 n b1 b2 where
        ap: "apply_pending_to_bucket tick st = Inr (st1, n)"
      and get: "bt_get (buckets st1) tick = Some b1"
      and mg: "merge_bucket shares notion count b1 = Inr b2"
      and st': "st' = st1\<lparr>buckets := bt_put tick b2 (buckets st1)\<rparr>"
      by (auto simp: insert_or_merge_def)
    note applied = apply_pending_Ok [OF assms(1) that ap]
    have "last_applied_index b1 = next_event_index st1"
      using get settle_lookup [OF assms(1) that] by (simp add: applied(1) settle_def)
    then have "last_applied_index b2 = next_event_index st1" using mg by (auto simp: merge_bucket_def)
    moreover have "bt_get (buckets st') tick = Some b2"
      using store_wfD(1) [OF applied(3)] by (simp add: st' bt_get_put)
    ultimately show ?thesis by (simp add: pending_for_bucket_def st')
  qed
  then show ?thesis using insert_or_merge_Ok [OF assms] by auto
qed

theorem insert_or_merge_adds_witness:
  "\<exists>st'. insert_or_merge 900 905 50 500 1 16 (demo_store Lazy) = Inr st'
     \<and> store_wf st' \<and> total_shares st' = total_shares (demo_store Lazy) + 50
     \<and> pending_for_bucket st' 900 = Inr 0"
proof -
  have "\<exists>st'. insert_or_merge 900 905 50 500 1 16 (demo_store Lazy) = Inr st'"
    by (simp add: evals demo)
  moreover have "bt_get (buckets (demo_store Lazy)) 900 \<noteq> None" by (simp add: demo new_store_def)
  ultimately show ?thesis using insert_or_merge_adds [OF demo_store_wf] by fastforce
qed

text \<open>
  redemption is pro rata. It pays the floored share of everything the bucket holds and
  is owed, burns exactly the shares, and what the store loses is what is paid; burning all
  the shares of a bucket pays all of it.
\<close>

theorem redeem_pro_rata:
  assumes "store_wf st" and "redeem tick s st = Inr (st', r)"
  shows "store_wf st' \<and> store_funds st' + redeemable r = store_funds st
    \<and> total_shares st' + s = total_shares st
    \<and> (\<exists>b. bt_get (buckets st) tick = Some b \<and> s \<le> total_recovery_shares b
         \<and> redeemable r = (accrued_value b + owed_to st b) * s div total_recovery_shares b
         \<and> (0 < s \<and> s = total_recovery_shares b \<longrightarrow> redeemable r = accrued_value b + owed_to st b))"
proof -
  obtain b where b: "bt_get (buckets st) tick = Some b" "s \<le> total_recovery_shares b"
    "redeemable r = (accrued_value b + owed_to st b) * s div total_recovery_shares b"
    "store_wf st'" "store_funds st' + redeemable r = store_funds st"
    "total_shares st' + s = total_shares st"
    using redeem_Ok [OF assms] by blast
  moreover from this(3) have "redeemable r = accrued_value b + owed_to st b"
    if "0 < s" "s = total_recovery_shares b" using that by simp
  ultimately show ?thesis by auto
qed

theorem redeem_pro_rata_witness:
  "\<exists>st' r. redeem 900 30000000 (demo_store Lazy) = Inr (st', r) \<and> redeemable r = 30000000
     \<and> store_wf st' \<and> store_funds st' + 30000000 = store_funds (demo_store Lazy)"
proof -
  have "\<exists>st' r. redeem 900 30000000 (demo_store Lazy) = Inr (st', r) \<and> redeemable r = 30000000"
    by (simp add: evals demo)
  then show ?thesis using redeem_pro_rata [OF demo_store_wf] by fastforce
qed

section \<open>Validation and the on-chain layout\<close>

text \<open>
  the runtime check of a store accepts exactly the stores whose bucket indices lie in
  the live window, whose cached total is the sum of the buckets, whose ledger fills the
  window, and whose pending total is covered by the live entries, all within their widths.
\<close>

theorem store_check_exact:
  "check_store_invariants st = Ok () \<longleftrightarrow>
     (\<forall>(k, b)\<in>set (buckets st). ledger_gc_offset st \<le> last_applied_index b
        \<and> last_applied_index b \<le> next_event_index st)
     \<and> accrued_value_total st = (\<Sum>(k, b)\<leftarrow>buckets st. accrued_value b)
     \<and> (\<Sum>(k, b)\<leftarrow>buckets st. accrued_value b) < 2 ^ 128
     \<and> next_event_index st = ledger_gc_offset st + length (ledger st) \<and> next_event_index st < 2 ^ 64
     \<and> (\<Sum>e\<leftarrow>ledger st. allocated_sum_observed e) < 2 ^ 128
     \<and> pending_distribution_total st \<le> (\<Sum>e\<leftarrow>ledger st. allocated_sum_observed e)"
  using check_store_invariants_iff [of st]
  by (simp add: index_ok_def total_accrued_def observed_def ledger_len_def)

theorem store_check_exact_witness:
  "check_store_invariants (demo_store Lazy) = Ok ()"
  using store_check_exact [of "demo_store Lazy"] by (simp add: demo new_store_def)

text \<open>
  C19: packing a well-formed store into the on-chain records and unpacking it again gives
  back the same store, field by field, when every bucket holds shares and the live window
  covers the pending total.
\<close>

theorem pack_unpack_roundtrip:
  assumes "store_wf st" and "live_buckets st" and "check_store_invariants st = Ok ()"
    and "max_ledger < 2 ^ 32"
    and "pack_dormant_store st max_buckets max_ledger = Ok (bs, l)"
  shows "unpack_dormant_store bs l = Ok st"
proof -
  have "observed (ledger st) < 2 ^ 128" "pending_distribution_total st \<le> observed (ledger st)"
    using assms(3) by (simp_all add: check_store_invariants_iff)
  then show ?thesis using pack_unpack_store assms by blast
qed

theorem pack_unpack_roundtrip_witness:
  "\<exists>bs l. pack_dormant_store (demo_store Lazy) 4 8 = Ok (bs, l)
     \<and> unpack_dormant_store bs l = Ok (demo_store Lazy)"
proof -
  have "\<exists>bs l. pack_dormant_store (demo_store Lazy) 4 8 = Ok (bs, l)"
    by (simp add: evals demo pack_dormant_store_def)
  moreover have "live_buckets (demo_store Lazy)" and "check_store_invariants (demo_store Lazy) = Ok ()"
    by (simp_all add: live_buckets_def evals demo)
  moreover have "(8::nat) < 2 ^ 32" by simp
  ultimately show ?thesis using pack_unpack_roundtrip [OF demo_store_wf] by blast
qed

text \<open>
  unpacking validates untrusted account data. Whatever records it accepts, the store it
  returns passes the runtime check, has its buckets in strict tick order and has the
  direction of the ledger account.
\<close>

theorem unpack_validates:
  assumes "unpack_dormant_store bs l = Ok st" and "ol_next_event_index l < 2 ^ 64"
  shows "check_store_invariants st = Ok () \<and> bt_wf (buckets st)
    \<and> direction_byte (store_direction st) = ol_direction l"
  using unpack_checked [OF assms] by simp

theorem unpack_validates_witness:
  "\<exists>bs l st. pack_dormant_store (demo_store Eager) 4 8 = Ok (bs, l)
     \<and> unpack_dormant_store bs l = Ok st \<and> check_store_invariants st = Ok ()"
proof -
  have "\<exists>bs l st. pack_dormant_store (demo_store Eager) 4 8 = Ok (bs, l)
      \<and> unpack_dormant_store bs l = Ok st \<and> ol_next_event_index l < 2 ^ 64"
    by (simp add: evals demo pack_dormant_store_def pack_bucket_def
      unpack_dormant_store_def direction_byte_def direction_of_byte_def pack_entry_def check_entry_def
      unpack_step_def is_dead_def unpack_bucket_def unpack_entry_def)
  then show ?thesis using unpack_validates by blast
qed

text \<open>
  a dead slot is invisible: a record of the ledger's direction with no shares and no
  value, wherever it stands among the slots, does not change what is unpacked.
\<close>

theorem dead_slots_invisible:
  assumes "is_dead r" and "br_direction r = ol_direction l"
  shows "unpack_dormant_store (xs @ r # ys) l = unpack_dormant_store (xs @ ys) l"
  using assms by (rule unpack_skips_dead)

theorem dead_slots_invisible_witness:
  "unpack_dormant_store ([] @ dead_record Short 7 # []) (empty_ledger Short 16)
    = unpack_dormant_store ([] @ []) (empty_ledger Short 16)"
  by (rule dead_slots_invisible) (simp_all add: is_dead_def dead_record_def empty_ledger_def)

end
