(* ===== verification/Book.thy ===== *)
theory Book
  imports Engine_Ops_Facts
begin

text \<open>
  The share book: the positions of a sub-pool account for every share the sub-pool counts.
  The active shares of the current generation add up to \<open>active_shares\<close>, their notionals to
  \<open>active_notional\<close>, and the recovery shares at a tick, together with the active shares of
  the generations that were rotated into that tick and not migrated yet, add up to the
  shares of its bucket. Every operation of the engine keeps the book, so no holder's shares
  are ever missing when they are redeemed.
\<close>

type_synonym book = "(u64, position) btree"

definition total_of :: "(position \<Rightarrow> nat) \<Rightarrow> book \<Rightarrow> nat" where
  "total_of f bk = (\<Sum>(k, p)\<leftarrow>bk. f p)"

definition on_side :: "direction \<Rightarrow> u32 \<Rightarrow> position \<Rightarrow> bool" where
  "on_side d i p \<longleftrightarrow> pos_sub_pool_id p = i \<and> pos_direction p = d"

definition active_in :: "direction \<Rightarrow> u32 \<Rightarrow> u64 \<Rightarrow> position \<Rightarrow> nat" where
  "active_in d i g p = (if on_side d i p \<and> pos_active_generation p = g then pos_active_shares p else 0)"

definition notional_in :: "direction \<Rightarrow> u32 \<Rightarrow> u64 \<Rightarrow> position \<Rightarrow> nat" where
  "notional_in d i g p = (if on_side d i p \<and> pos_active_generation p = g then notional p else 0)"

definition recovery_in :: "direction \<Rightarrow> u32 \<Rightarrow> rotate_record list \<Rightarrow> i64 \<Rightarrow> position \<Rightarrow> nat" where
  "recovery_in d i log t p =
     (if on_side d i p then
        (if recovery_bucket_tick p = Some t then pos_recovery_shares p else 0)
        + (if pos_active_generation p < length log
              \<and> rr_bucket_tick (log ! pos_active_generation p) = t then pos_active_shares p else 0)
      else 0)"

definition position_ok :: "u32 \<Rightarrow> sub_pool \<Rightarrow> position \<Rightarrow> bool" where
  "position_ok i sp p \<longleftrightarrow> (pos_sub_pool_id p = i \<longrightarrow>
     pos_active_generation p \<le> active_generation (pos_direction p) sp
     \<and> (0 < pos_recovery_shares p \<longrightarrow> recovery_bucket_tick p \<noteq> None)
     \<and> (pos_active_shares p = 0 \<or> pos_recovery_shares p = 0)
     \<and> (pos_active_shares p = 0 \<longrightarrow> notional p = 0))"

definition log_ok :: "direction \<Rightarrow> sub_pool \<Rightarrow> bool" where
  "log_ok d sp \<longleftrightarrow> map generation_just_ended (rotate_log d sp) = [0 ..< active_generation d sp]"

definition book_side :: "direction \<Rightarrow> u32 \<Rightarrow> sub_pool \<Rightarrow> book \<Rightarrow> bool" where
  "book_side d i sp bk \<longleftrightarrow> log_ok d sp
     \<and> total_of (active_in d i (active_generation d sp)) bk = active_shares d sp
     \<and> total_of (notional_in d i (active_generation d sp)) bk = active_notional d sp
     \<and> (\<forall>t. total_of (recovery_in d i (rotate_log d sp) t) bk = bucket_shares (dormant d sp) t)"

definition book_ok :: "u32 \<Rightarrow> sub_pool \<Rightarrow> book \<Rightarrow> bool" where
  "book_ok i sp bk \<longleftrightarrow> bt_wf bk \<and> (\<forall>d. book_side d i sp bk) \<and> (\<forall>(k, p)\<in>set bk. position_ok i sp p)"

lemma book_okD:
  assumes "book_ok i sp bk"
  shows "bt_wf bk" and "book_side d i sp bk"
    and "bt_get bk k = Some p \<Longrightarrow> position_ok i sp p"
proof -
  show "bt_wf bk" and "book_side d i sp bk" using assms by (simp_all add: book_ok_def)
  show "position_ok i sp p" if "bt_get bk k = Some p"
    using that assms bt.in_entries_iff [of bk k p] by (auto simp: book_ok_def)
qed

lemma total_of_put:
  assumes "bt_wf bk" and "bt_get bk k = Some p"
  shows "total_of f (bt_put k p' bk) + f p = total_of f bk + f p'"
  using bt.total_put_old [OF assms, of "\<lambda>k. f" p'] by (simp add: total_of_def)

lemma total_of_add:
  assumes "bt_wf bk" and "bt_get bk k = None"
  shows "total_of f (bt_put k p bk) = total_of f bk + f p"
  using bt.total_put_new [OF assms, of "\<lambda>k. f" p] by (simp add: total_of_def)

lemma le_total_of:
  assumes "bt_wf bk" and "bt_get bk k = Some p"
  shows "f p \<le> total_of f bk"
  using bt.entry_le_total [OF assms, of "\<lambda>k. f"] by (simp add: total_of_def)

lemma total_of_plus: "total_of (\<lambda>p. f p + g p) bk = total_of f bk + total_of g bk"
  by (induction bk) (auto simp: total_of_def)

lemma total_of_cong:
  assumes "\<And>k p. (k, p) \<in> set bk \<Longrightarrow> f p = g p"
  shows "total_of f bk = total_of g bk"
  unfolding total_of_def using assms by (intro arg_cong [of _ _ sum_list]) auto

lemma total_of_zero: "(\<And>k p. (k, p) \<in> set bk \<Longrightarrow> f p = 0) \<Longrightarrow> total_of f bk = 0"
  unfolding total_of_def by (intro sum_list_map_eq_zero) auto

lemma log_ok_length: "log_ok d sp \<Longrightarrow> length (rotate_log d sp) = active_generation d sp"
  unfolding log_ok_def by (metis diff_zero length_map length_upt)

lemma log_ok_find:
  assumes "log_ok d sp" and "g < active_generation d sp"
  shows "find_rotate_record d g sp = Some (rotate_log d sp ! g)"
proof -
  have len: "length (rotate_log d sp) = active_generation d sp" using assms(1) by (rule log_ok_length)
  have nth: "generation_just_ended (rotate_log d sp ! j) = j" if "j < active_generation d sp" for j
  proof -
    have "map generation_just_ended (rotate_log d sp) ! j = [0 ..< active_generation d sp] ! j"
      using assms(1) by (simp add: log_ok_def)
    then show ?thesis using that len by simp
  qed
  show ?thesis
    unfolding find_rotate_record_def find_Some_iff using assms(2) len nth by (intro exI [of _ g]) auto
qed

section \<open>Replacing one position\<close>

lemma book_put:
  assumes "book_ok i sp bk" and "bt_get bk k = Some p" and "position_ok i sp' p'"
    and same: "\<And>d. active_generation d sp' = active_generation d sp"
      "\<And>d. rotate_log d sp' = rotate_log d sp"
    and "\<And>d. active_shares d sp' + active_in d i (active_generation d sp) p
           = active_shares d sp + active_in d i (active_generation d sp) p'"
    and "\<And>d. active_notional d sp' + notional_in d i (active_generation d sp) p
           = active_notional d sp + notional_in d i (active_generation d sp) p'"
    and "\<And>d t. bucket_shares (dormant d sp') t + recovery_in d i (rotate_log d sp) t p
           = bucket_shares (dormant d sp) t + recovery_in d i (rotate_log d sp) t p'"
  shows "book_ok i sp' (bt_put k p' bk)"
proof -
  note bk = book_okD [OF assms(1)]
  have get: "bt_get (bt_put k p' bk) = (bt_get bk)(k \<mapsto> p')" using bk(1) by (rule bt_get_put)
  have wf: "bt_wf (bt_put k p' bk)" using bk(1) by (rule bt_wf_put)
  have "position_ok i sp' q" if "(j, q) \<in> set (bt_put k p' bk)" for j q
  proof -
    from that have "bt_get (bt_put k p' bk) j = Some q" using bt.in_entries_iff [OF wf] by simp
    then have "q = p' \<or> bt_get bk j = Some q" by (auto simp: get split: if_splits)
    then show ?thesis using assms(3) bk(3) [of j q] by (auto simp: position_ok_def same)
  qed
  moreover have "book_side d i sp' (bt_put k p' bk)" for d
    using bk(2) [of d] assms(6) [of d] assms(7) [of d] assms(8) [of d]
      total_of_put [OF bk(1) assms(2), of "active_in d i (active_generation d sp)" p']
      total_of_put [OF bk(1) assms(2), of "notional_in d i (active_generation d sp)" p']
      total_of_put [OF bk(1) assms(2), of "recovery_in d i (rotate_log d sp) t" p' for t]
    unfolding book_side_def log_ok_def same by (metis (no_types, lifting) add_right_cancel)
  ultimately show ?thesis using wf by (auto simp: book_ok_def)
qed

section \<open>Synchronising\<close>

lemma book_side_step:
  assumes "book_ok i sp bk" and "series_step d sp sp'"
  shows "book_side d i sp' bk"
    and "active_generation d sp \<le> active_generation d sp'"
proof -
  note bk = book_okD [OF assms(1)]
  have "book_side d i sp' bk \<and> active_generation d sp \<le> active_generation d sp'"
  proof (cases "series_kept d sp sp'")
    case True
    with bk(2) [of d] show ?thesis by (simp add: series_kept_def book_side_def log_ok_def)
  next
    case False
    with assms(2) obtain tick anchor where rot: "series_rotated d tick anchor sp sp'"
      by (auto simp: series_step_def)
    let ?g = "active_generation d sp" and ?log = "rotate_log d sp"
    have side: "book_side d i sp bk" by (rule bk)
    have len: "length ?log = ?g" using side log_ok_length by (simp add: book_side_def)
    have gen: "pos_active_generation p \<le> ?g" if "(k, p) \<in> set bk" "on_side d i p" for k p
      using that assms(1) by (auto simp: book_ok_def position_ok_def on_side_def)
    have rec: "recovery_in d i (rotate_log d sp') t p
        = recovery_in d i ?log t p + (if t = tick then active_in d i ?g p else 0)"
      if "(k, p) \<in> set bk" for t k p
      using rot gen [OF that] len
      by (auto simp: series_rotated_def recovery_in_def active_in_def nth_append)
    have "total_of (recovery_in d i (rotate_log d sp') t) bk = bucket_shares (dormant d sp') t" for t
    proof -
      have "total_of (recovery_in d i (rotate_log d sp') t) bk
          = total_of (\<lambda>p. recovery_in d i ?log t p + (if t = tick then active_in d i ?g p else 0)) bk"
        by (rule total_of_cong) (rule rec)
      also have "\<dots> = bucket_shares (dormant d sp) t + (if t = tick then active_shares d sp else 0)"
        using side by (simp add: total_of_plus book_side_def) (simp add: total_of_def)
      finally show ?thesis using rot by (simp add: series_rotated_def)
    qed
    moreover have "total_of (active_in d i (?g + 1)) bk = 0" and "total_of (notional_in d i (?g + 1)) bk = 0"
      using gen by (auto intro!: total_of_zero simp: active_in_def notional_in_def) fastforce+
    ultimately show ?thesis
      using rot side by (simp add: book_side_def series_rotated_def log_ok_def)
  qed
  then show "book_side d i sp' bk" "active_generation d sp \<le> active_generation d sp'" by simp_all
qed

lemma book_step:
  assumes "book_ok i sp bk" and "\<And>d. series_step d sp sp'"
  shows "book_ok i sp' bk"
proof -
  have "position_ok i sp' p" if "(k, p) \<in> set bk" for k p
    using that assms(1) book_side_step(2) [OF assms(1,2), of "pos_direction p"]
    by (fastforce simp: book_ok_def position_ok_def)
  then show ?thesis using assms book_side_step(1) [OF assms(1,2)] by (auto simp: book_ok_def)
qed

lemma book_sync:
  assumes "book_ok i sp bk" and "sides_ok sp" and "sync_pool market env sp = Inr (sp', out)"
    and "env_p_now env < 2 ^ 64"
  shows "book_ok i sp' bk"
  using assms(1) by (rule book_step) (rule sync_pool_series [OF assms(2-4)])


section \<open>Migrating\<close>

lemma migrate_keeps_book:
  assumes "book_ok i sp bk" and "bt_get bk k = Some p" and "pos_sub_pool_id p = i"
    and "lazy_migrate_position sp p = Inr (p', m)"
  shows "book_ok i sp (bt_put k p' bk)"
    and "pos_active_generation p' = active_generation (pos_direction p) sp"
    and "pos_direction p' = pos_direction p" and "pos_sub_pool_id p' = i"
    and "position_ok i sp p'" and "pos_active_shares p' + pos_recovery_shares p'
           = pos_active_shares p + pos_recovery_shares p"
proof -
  let ?d = "pos_direction p"
  note bk = book_okD [OF assms(1)]
  have pos: "position_ok i sp p" using bk(3) assms(2) by blast
  have log: "log_ok ?d sp" using bk(2) by (simp add: book_side_def)
  have len: "length (rotate_log ?d sp) = active_generation ?d sp" using log by (rule log_ok_length)
  consider (none) "pos_active_shares p = 0"
      "p' = p\<lparr>pos_active_generation := active_generation ?d sp\<rparr>"
    | (current) "pos_active_shares p \<noteq> 0" "pos_active_generation p = active_generation ?d sp" "p' = p"
    | (stale) "pos_active_shares p \<noteq> 0" "pos_active_generation p < active_generation ?d sp"
      "p' = p\<lparr>pos_recovery_shares := pos_recovery_shares p + pos_active_shares p,
              recovery_bucket_tick := Some (rr_bucket_tick (rotate_log ?d sp ! pos_active_generation p)),
              zero_price := rr_anchor_price (rotate_log ?d sp ! pos_active_generation p),
              pos_active_shares := 0, notional := 0, status := Dormant,
              pos_active_generation := active_generation ?d sp\<rparr>"
    using assms(3,4) pos log_ok_find [OF log, of "pos_active_generation p"]
    by (auto simp: lazy_migrate_position_def Let_def position_ok_def split: if_splits)
  then have all: "book_ok i sp (bt_put k p' bk) \<and> pos_active_generation p' = active_generation ?d sp
    \<and> pos_direction p' = ?d \<and> pos_sub_pool_id p' = i \<and> position_ok i sp p'
    \<and> pos_active_shares p' + pos_recovery_shares p' = pos_active_shares p + pos_recovery_shares p"
  proof cases
    case none
    have "position_ok i sp p'" using pos none assms(3) by (simp add: position_ok_def)
    moreover have "book_ok i sp (bt_put k p' bk)"
      using none pos assms(3) len
      by (intro book_put [OF assms(1,2) calculation])
        (auto simp: active_in_def notional_in_def recovery_in_def on_side_def position_ok_def)
    ultimately show ?thesis using none assms(3) by simp
  next
    case current
    then show ?thesis using assms(1-3) pos bt_put_same [OF bk(1) assms(2)] by simp
  next
    case stale
    have rec0: "pos_recovery_shares p = 0" using pos stale(1) assms(3) by (simp add: position_ok_def)
    have ok: "position_ok i sp p'" using stale assms(3) by (simp add: position_ok_def)
    moreover have "book_ok i sp (bt_put k p' bk)"
    proof (rule book_put [OF assms(1,2) ok])
      show "bucket_shares (dormant d sp) t + recovery_in d i (rotate_log d sp) t p
           = bucket_shares (dormant d sp) t + recovery_in d i (rotate_log d sp) t p'" for d t
      proof (cases "d = ?d")
        case True
        with stale len rec0 show ?thesis by (simp add: recovery_in_def on_side_def)
      qed (use stale in \<open>simp add: recovery_in_def on_side_def\<close>)
    qed (use stale in \<open>auto simp: active_in_def notional_in_def on_side_def\<close>)
    ultimately show ?thesis using stale assms(3) by simp
  qed
  then show "book_ok i sp (bt_put k p' bk)"
    "pos_active_generation p' = active_generation (pos_direction p) sp"
    "pos_direction p' = pos_direction p" "pos_sub_pool_id p' = i" "position_ok i sp p'"
    "pos_active_shares p' + pos_recovery_shares p' = pos_active_shares p + pos_recovery_shares p"
    by simp_all
qed

text \<open>Migration of a booked position never fails.\<close>

lemma migrate_total:
  assumes "book_ok i sp bk" and "bt_get bk k = Some p" and "pos_sub_pool_id p = i"
    and "sides_ok sp"
  shows "\<exists>p' m. lazy_migrate_position sp p = Inr (p', m)"
proof -
  let ?d = "pos_direction p"
  note bk = book_okD [OF assms(1)]
  have pos: "position_ok i sp p" using bk(3) assms(2) by blast
  have log: "log_ok ?d sp" using bk(2) by (simp add: book_side_def)
  show ?thesis
  proof (cases "pos_active_shares p = 0 \<or> pos_active_generation p = active_generation ?d sp")
    case True
    then show ?thesis by (auto simp: lazy_migrate_position_def)
  next
    case False
    let ?r = "rotate_log ?d sp ! pos_active_generation p"
    have lt: "pos_active_generation p < active_generation ?d sp" and rec0: "pos_recovery_shares p = 0"
      using False pos assms(3) by (auto simp: position_ok_def)
    have "pos_active_shares p \<le> recovery_in ?d i (rotate_log ?d sp) (rr_bucket_tick ?r) p"
      using lt log_ok_length [OF log] assms(3) by (simp add: recovery_in_def on_side_def)
    also have "\<dots> \<le> bucket_shares (dormant ?d sp) (rr_bucket_tick ?r)"
      using le_total_of [OF bk(1) assms(2)] bk(2) [of ?d] by (metis book_side_def)
    also have "\<dots> < 2 ^ 128"
      using store_wf_bucket [OF sides_ok_store [OF assms(4)], of ?d]
      by (auto simp: bucket_shares_def bucket_ok_def split: option.splits)
    finally have "pos_active_shares p < 2 ^ 128" .
    then show ?thesis
      using False lt rec0 log_ok_find [OF log lt]
      by (auto simp: lazy_migrate_position_def Let_def checked_add_m_def checked_add_w_def)
  qed
qed


section \<open>Burning\<close>

definition only :: "direction \<Rightarrow> direction \<Rightarrow> nat \<Rightarrow> nat" where
  "only d e n = (if e = d then n else 0)"

lemma only_simps [simp]: "only d d n = n" "only d e 0 = 0" "e \<noteq> d \<Longrightarrow> only d e n = 0"
  by (simp_all add: only_def)

text \<open>
  A sub-pool step that burns \<open>a\<close> active shares with notional \<open>n\<close> and \<open>r\<close> recovery shares at
  a tick of side \<open>d\<close>, and leaves series and logs alone.
\<close>

definition burns ::
  "direction \<Rightarrow> nat \<Rightarrow> nat \<Rightarrow> nat \<Rightarrow> i64 option \<Rightarrow> sub_pool \<Rightarrow> sub_pool \<Rightarrow> bool" where
  "burns d a n r tick sp sp' \<longleftrightarrow> (\<forall>e. active_generation e sp' = active_generation e sp
     \<and> rotate_log e sp' = rotate_log e sp
     \<and> active_shares e sp' + only d e a = active_shares e sp
     \<and> active_notional e sp' + only d e n = active_notional e sp
     \<and> (\<forall>t. bucket_shares (dormant e sp') t + (if tick = Some t then only d e r else 0)
            = bucket_shares (dormant e sp) t))"

lemma burns_trans:
  assumes "burns d a n 0 None sp sp1" and "burns d 0 0 r tick sp1 sp'"
  shows "burns d a n r tick sp sp'"
  using assms by (simp add: burns_def)

lemma burns_shares:
  "burns d a n r tick sp sp' \<Longrightarrow>
     bucket_shares (dormant e sp') t + (if tick = Some t then only d e r else 0)
     = bucket_shares (dormant e sp) t"
  by (simp add: burns_def)

lemma burns_nothing: "burns d 0 0 0 tick sp sp"
  by (simp add: burns_def)

lemma book_burn:
  assumes "book_ok i sp bk" and "bt_get bk k = Some p" and "pos_sub_pool_id p = i"
    and "pos_active_generation p = active_generation (pos_direction p) sp"
    and "burns (pos_direction p) a n r (recovery_bucket_tick p) sp sp'"
    and "pos_sub_pool_id p' = i" and "pos_direction p' = pos_direction p"
    and "pos_active_generation p' = pos_active_generation p"
    and "pos_active_shares p' + a = pos_active_shares p" and "notional p' + n = notional p"
    and "pos_recovery_shares p' + r = pos_recovery_shares p"
    and "pos_recovery_shares p' = 0 \<or> recovery_bucket_tick p' = recovery_bucket_tick p"
    and "position_ok i sp' p'"
  shows "book_ok i sp' (bt_put k p' bk)"
proof (rule book_put [OF assms(1,2,13)])
  let ?d = "pos_direction p"
  note bk = book_okD [OF assms(1)]
  have len: "length (rotate_log ?d sp) = active_generation ?d sp"
    using bk(2) [of ?d] log_ok_length by (simp add: book_side_def)
  fix d
  show "active_generation d sp' = active_generation d sp" and "rotate_log d sp' = rotate_log d sp"
    using assms(5) by (simp_all add: burns_def)
  have b: "active_shares d sp' + only ?d d a = active_shares d sp"
    "active_notional d sp' + only ?d d n = active_notional d sp"
    using assms(5) by (simp_all add: burns_def)
  show "active_shares d sp' + active_in d i (active_generation d sp) p
           = active_shares d sp + active_in d i (active_generation d sp) p'"
    using b assms(3,4,6-9) by (auto simp: active_in_def on_side_def only_def split: if_splits)
  show "active_notional d sp' + notional_in d i (active_generation d sp) p
           = active_notional d sp + notional_in d i (active_generation d sp) p'"
    using b assms(3,4,6-8,10) by (auto simp: notional_in_def on_side_def only_def split: if_splits)
  show "bucket_shares (dormant d sp') t + recovery_in d i (rotate_log d sp) t p
           = bucket_shares (dormant d sp) t + recovery_in d i (rotate_log d sp) t p'" for t
  proof (cases "d = ?d")
    case True
    have "bucket_shares (dormant d sp') t + (if recovery_bucket_tick p = Some t then r else 0)
        = bucket_shares (dormant d sp) t"
      using burns_shares [OF assms(5), of d t] unfolding True only_simps .
    then show ?thesis
      using True len assms(3,4,6-8,11,12)
      by (auto simp: recovery_in_def on_side_def split: if_splits)
  next
    case False
    then have "bucket_shares (dormant d sp') t = bucket_shares (dormant d sp) t"
      using burns_shares [OF assms(5), of d t] by (simp split: if_splits)
    with False assms(7) show ?thesis by (simp add: recovery_in_def on_side_def)
  qed
qed

lemma booked_bounds:
  assumes "book_ok i sp bk" and "bt_get bk k = Some p" and "pos_sub_pool_id p = i"
    and "pos_active_generation p = active_generation (pos_direction p) sp"
  shows "pos_active_shares p \<le> active_shares (pos_direction p) sp"
    and "notional p \<le> active_notional (pos_direction p) sp"
    and "recovery_bucket_tick p = Some t \<Longrightarrow>
           pos_recovery_shares p \<le> bucket_shares (dormant (pos_direction p) sp) t"
proof -
  let ?d = "pos_direction p"
  note bk = book_okD [OF assms(1)]
  have len: "length (rotate_log ?d sp) = active_generation ?d sp"
    using bk(2) [of ?d] log_ok_length by (simp add: book_side_def)
  show "pos_active_shares p \<le> active_shares ?d sp"
    using le_total_of [OF bk(1) assms(2), of "active_in ?d i (active_generation ?d sp)"] bk(2) [of ?d]
      assms(3,4) by (simp add: book_side_def active_in_def on_side_def)
  show "notional p \<le> active_notional ?d sp"
    using le_total_of [OF bk(1) assms(2), of "notional_in ?d i (active_generation ?d sp)"] bk(2) [of ?d]
      assms(3,4) by (simp add: book_side_def notional_in_def on_side_def)
  show "pos_recovery_shares p \<le> bucket_shares (dormant ?d sp) t" if "recovery_bucket_tick p = Some t"
  proof -
    have "recovery_in ?d i (rotate_log ?d sp) t p \<le> bucket_shares (dormant ?d sp) t"
      using le_total_of [OF bk(1) assms(2)] bk(2) [of ?d] by (metis book_side_def)
    then show ?thesis using that assms(3,4) len by (simp add: recovery_in_def on_side_def)
  qed
qed


section \<open>The operations keep the book\<close>

text \<open>
  A booked position of the current generation burns without running out of shares, and gets
  its exact share of the pool.
\<close>

lemma burn_active_booked:
  assumes "sub_pool_wf sp" and "book_ok i sp bk" and "bt_get bk k = Some p" and "pos_sub_pool_id p = i"
    and "pos_active_generation p = active_generation (pos_direction p) sp"
  defines "d \<equiv> pos_direction p"
  defines "v \<equiv> (if pos_active_shares p = 0 then 0
                 else pool_equity d sp * pos_active_shares p div active_shares d sp)"
  obtains sp' where "burn_active sp p = Inr (sp', p\<lparr>pos_active_shares := 0\<rparr>, v)"
    and "burns d (pos_active_shares p) (notional p) 0 None sp sp'"
    and "pos_active_shares p > 0 \<Longrightarrow> 0 < pool_equity d sp"
    and "dormant e sp' = dormant e sp"
proof (cases "pos_active_shares p = 0")
  case True
  have "position_ok i sp p" using book_okD(3) [OF assms(2,3)] .
  then have "notional p = 0" using True assms(4) by (simp add: position_ok_def)
  with True show ?thesis
    by (intro that [of sp]) (auto simp: burn_active_def Let_def v_def burns_nothing)
next
  case False
  note b = booked_bounds [OF assms(2-5), folded d_def]
  note side = sub_pool_wfD [OF assms(1), of d]
  have pos: "0 < active_shares d sp" "0 < pool_equity d sp" "active_shares d sp < 2 ^ 128"
    "pool_equity d sp < 2 ^ 128"
    using False b(1) side by (auto simp: side_wf_def side_ok_def)
  have v: "mul_div_floor (pool_equity d sp) (pos_active_shares p) (active_shares d sp) = Inr v"
    using mul_div_floor_total [OF pos(1,3,4) b(1)] False by (simp add: v_def)
  have "v \<le> pool_equity d sp"
    using mult_div_le_left [OF b(1)] False by (simp add: v_def)
  then have "burn_active sp p = Inr (set_active_notional d (active_notional d sp - notional p)
      (set_active_shares d (active_shares d sp - pos_active_shares p)
      (set_pool_equity d (pool_equity d sp - v) sp)), p\<lparr>pos_active_shares := 0\<rparr>, v)"
    using False v b pos
    by (simp add: burn_active_def Let_def d_def [symmetric] checked_sub_m_def checked_sub_w_def)
  then show ?thesis
  proof (rule that)
    show "burns d (pos_active_shares p) (notional p) 0 None sp (set_active_notional d
      (active_notional d sp - notional p) (set_active_shares d (active_shares d sp - pos_active_shares p)
      (set_pool_equity d (pool_equity d sp - v) sp)))"
      using b by (auto simp: burns_def side_simps only_def)
  qed (use pos in \<open>simp_all add: side_simps\<close>)
qed

lemma redeem_burns:
  assumes "sides_ok sp" and "redeem tick r (dormant d sp) = Inr (store, rc)"
  shows "burns d 0 0 r (Some tick) sp (set_recovery_shares d x (set_dormant d store sp))"
    and "burns d 0 0 r (Some tick) sp (set_recovery_shares d x (set_dust d y (set_dormant d store sp)))"
  using redeem_shares [OF sides_ok_store [OF assms(1)] assms(2)]
  by (auto simp: burns_def side_simps only_def)

lemma burn_recovery_burns:
  assumes "sides_ok sp" and "burn_recovery sp p = Inr (sp', p', tick, rc)"
  shows "burns (pos_direction p) 0 0 (pos_recovery_shares p) (recovery_bucket_tick p) sp sp'"
  using assms redeem_burns(1) [OF assms(1)] by (auto simp: burn_recovery_def Let_def)

lemma burn_recovery_if_any_burns:
  assumes "sides_ok sp" and "burn_recovery_if_any sp p = Inr (sp', p', rc)"
  shows "burns (pos_direction p) 0 0 (pos_recovery_shares p) (recovery_bucket_tick p) sp sp'"
    and "p' = p\<lparr>pos_recovery_shares := 0, recovery_bucket_tick := recovery_bucket_tick p'\<rparr>"
    and "recovery_bucket_tick p' = None \<or> recovery_bucket_tick p' = recovery_bucket_tick p"
proof -
  have "burns (pos_direction p) 0 0 (pos_recovery_shares p) (recovery_bucket_tick p) sp sp'
    \<and> p' = p\<lparr>pos_recovery_shares := 0, recovery_bucket_tick := recovery_bucket_tick p'\<rparr>
    \<and> (recovery_bucket_tick p' = None \<or> recovery_bucket_tick p' = recovery_bucket_tick p)"
  proof (cases "pos_recovery_shares p = 0")
    case True
    with assms(2) show ?thesis by (simp add: burn_recovery_if_any_def burns_nothing)
  next
    case False
    then obtain tick where br: "burn_recovery sp p = Inr (sp', p', tick, rc)"
      using assms(2) by (auto simp: burn_recovery_if_any_def)
    show ?thesis
      using burn_recovery_burns [OF assms(1) br] burn_recovery_Ok(4) [OF assms(1) br] by simp
  qed
  then show "burns (pos_direction p) 0 0 (pos_recovery_shares p) (recovery_bucket_tick p) sp sp'"
    "p' = p\<lparr>pos_recovery_shares := 0, recovery_bucket_tick := recovery_bucket_tick p'\<rparr>"
    "recovery_bucket_tick p' = None \<or> recovery_bucket_tick p' = recovery_bucket_tick p" by blast+
qed

lemma bt_put_put: "bt_wf m \<Longrightarrow> bt_put k v (bt_put k w m) = bt_put k v m"
  by (rule bt_ext) (simp_all add: bt_wf_put bt_get_put)

text \<open>After the sync and the migration that start every user operation.\<close>

lemma prelude_book:
  assumes "sub_pool_wf sp" and "book_ok i sp bk" and "bt_get bk k = Some p" and "pos_sub_pool_id p = i"
    and "sync_pool market env sp = Inr (sp1, synced)" and "env_p_now env < 2 ^ 64"
    and "lazy_migrate_position sp1 p = Inr (p1, m)"
  shows "sub_pool_wf sp1" and "book_ok i sp1 (bt_put k p1 bk)" and "bt_get (bt_put k p1 bk) k = Some p1"
    and "pos_sub_pool_id p1 = i" and "pos_active_generation p1 = active_generation (pos_direction p1) sp1"
    and "bt_put k q (bt_put k p1 bk) = bt_put k q bk" and "position_ok i sp1 p1"
proof -
  note ok = sub_pool_wf_sides [OF assms(1)]
  show "sub_pool_wf sp1" using sync_pool_wf(1) [OF ok assms(5,6)] .
  note bk1 = book_sync [OF assms(2) ok assms(5,6)]
  note mig = migrate_keeps_book [OF bk1 assms(3,4,7)]
  show "book_ok i sp1 (bt_put k p1 bk)" "pos_sub_pool_id p1 = i"
    "pos_active_generation p1 = active_generation (pos_direction p1) sp1" "position_ok i sp1 p1"
    using mig by simp_all
  note wf = book_okD(1) [OF assms(2)]
  show "bt_get (bt_put k p1 bk) k = Some p1" by (simp add: bt_get_put [OF wf])
  show "bt_put k q (bt_put k p1 bk) = bt_put k q bk" using wf by (rule bt_put_put)
qed

lemma close_keeps_book:
  assumes "sub_pool_wf sp" and "book_ok i sp bk" and "bt_get bk k = Some p" and "pos_sub_pool_id p = i"
    and "close_position market env sp p = Inr (sp', p', out)" and "env_p_now env < 2 ^ 64"
  shows "book_ok i sp' (bt_put k p' bk)" and "pos_active_shares p' = 0"
proof -
  from assms(5) obtain sp1 synced p1 m sp2 p2 v p3 rc where
      sync: "sync_pool market env sp = Inr (sp1, synced)"
    and mig: "lazy_migrate_position sp1 p = Inr (p1, m)"
    and act: "burn_active sp1 p1 = Inr (sp2, p2, v)"
    and rec: "burn_recovery_if_any sp2 p2 = Inr (sp', p3, rc)"
    and p': "p' = mark_closed (env_slot env) p3"
    by (auto simp: close_position_def Let_def split: if_splits)
  note pre = prelude_book [OF assms(1-4) sync assms(6) mig]
  have p2: "p2 = p1\<lparr>pos_active_shares := 0\<rparr>"
    and b1: "burns (pos_direction p1) (pos_active_shares p1) (notional p1) 0 None sp1 sp2"
    by (rule burn_active_booked [OF pre(1-5)], use act in simp)+
  note ok2 = burn_active_Ok(1) [OF sub_pool_wf_sides [OF pre(1)] act]
  note b2 = burn_recovery_if_any_burns [OF ok2 rec]
  have "burns (pos_direction p1) (pos_active_shares p1) (notional p1) (pos_recovery_shares p1)
      (recovery_bucket_tick p1) sp1 sp'"
    using burns_trans [OF b1] b2(1) p2 by simp
  moreover have "active_generation (pos_direction p1) sp' = active_generation (pos_direction p1) sp1"
    using calculation by (simp add: burns_def)
  moreover have q: "pos_direction p3 = pos_direction p1" "pos_sub_pool_id p3 = i"
    "pos_active_generation p3 = pos_active_generation p1" "pos_active_shares p3 = 0"
    "pos_recovery_shares p3 = 0"
    by (subst b2(2), simp add: p2 pre(4))+
  ultimately have "book_ok i sp' (bt_put k p' (bt_put k p1 bk))"
    by (intro book_burn [OF pre(2-5)])
      (simp_all add: p' mark_closed_def position_ok_def pre(4,5))
  then show "book_ok i sp' (bt_put k p' bk)" by (simp add: pre(6))
  show "pos_active_shares p' = 0" using q by (simp add: p' mark_closed_def)
qed

lemma claim_keeps_book:
  assumes "sub_pool_wf sp" and "book_ok i sp bk" and "bt_get bk k = Some p" and "pos_sub_pool_id p = i"
    and "claim_dormant_recovery market env sp p = Inr (sp', p', out)" and "env_p_now env < 2 ^ 64"
  shows "book_ok i sp' (bt_put k p' bk)"
proof -
  from assms(5) obtain sp1 synced p1 m p2 tick rc where
      sync: "sync_pool market env sp = Inr (sp1, synced)"
    and mig: "lazy_migrate_position sp1 p = Inr (p1, m)" and some: "pos_recovery_shares p1 \<noteq> 0"
    and rec: "burn_recovery sp1 p1 = Inr (sp', p2, tick, rc)"
    and p': "p' = p2\<lparr>updated_at_slot := env_slot env\<rparr>"
    by (auto simp: claim_dormant_recovery_def Let_def split: if_splits)
  note pre = prelude_book [OF assms(1-4) sync assms(6) mig]
  note ok = sub_pool_wf_sides [OF pre(1)]
  have zero: "pos_active_shares p1 = 0" "notional p1 = 0"
    using some pre(4,7) by (simp_all add: position_ok_def)
  note b = burn_recovery_burns [OF ok rec]
  have "active_generation (pos_direction p1) sp' = active_generation (pos_direction p1) sp1"
    using b by (simp add: burns_def)
  then have "book_ok i sp' (bt_put k p' (bt_put k p1 bk))"
    using b zero burn_recovery_Ok(4) [OF ok rec]
    by (intro book_burn [OF pre(2-5), where a = 0 and n = 0])
      (simp_all add: p' position_ok_def pre(4,5))
  then show ?thesis by (simp add: pre(6))
qed


lemma force_close_keeps_book:
  assumes "sub_pool_wf sp" and "book_ok i sp bk" and "bt_get bk k = Some p" and "pos_sub_pool_id p = i"
    and "force_close_zero_value_position market env ack sp p = Inr (sp', p', out)"
    and "env_p_now env < 2 ^ 64"
  shows "book_ok i sp' (bt_put k p' bk)" and "pos_active_shares p' = 0"
proof -
  from assms(5) obtain sp1 synced p1 m sp2 p2 n ab p3 rc f where
      sync: "sync_pool market env sp = Inr (sp1, synced)"
    and mig: "lazy_migrate_position sp1 p = Inr (p1, m)"
    and act: "burn_worthless sp1 p1 = Inr (sp2, p2, ab, n)"
    and rec: "forfeit_recovery sp2 p2 = Inr (sp', p3, rc, f)"
    and p': "p' = mark_closed (env_slot env) p3"
    by (auto simp: force_close_zero_value_position_def Let_def split: if_splits)
  note pre = prelude_book [OF assms(1-4) sync assms(6) mig]
  note ok1 = sub_pool_wf_sides [OF pre(1)]
  have p2: "p2 = p1\<lparr>pos_active_shares := 0\<rparr>"
    using act by (auto simp: burn_worthless_def Let_def split: if_splits)
  have "notional p1 = 0" if "pos_active_shares p1 = 0"
    using that pre(4,7) by (simp add: position_ok_def)
  then have b1: "burns (pos_direction p1) (pos_active_shares p1) (notional p1) 0 None sp1 sp2"
    using act by (auto simp: burn_worthless_def Let_def burns_def side_simps only_def split: if_splits)
  note ok2 = burn_worthless_Ok(1) [OF ok1 act]
  have b2: "burns (pos_direction p2) 0 0 (pos_recovery_shares p2) (recovery_bucket_tick p2) sp2 sp'"
    using rec redeem_burns [OF ok2]
    by (auto simp: forfeit_recovery_def Let_def burns_nothing side_simps split: if_splits)
  have q: "pos_direction p3 = pos_direction p1" "pos_sub_pool_id p3 = i"
    "pos_active_generation p3 = pos_active_generation p1" "pos_active_shares p3 = 0"
    "pos_recovery_shares p3 = 0"
    using rec pre(4) by (auto simp: forfeit_recovery_def Let_def p2 split: if_splits)
  have "burns (pos_direction p1) (pos_active_shares p1) (notional p1) (pos_recovery_shares p1)
      (recovery_bucket_tick p1) sp1 sp'"
    using burns_trans [OF b1] b2 p2 by simp
  moreover have "active_generation (pos_direction p1) sp' = active_generation (pos_direction p1) sp1"
    using calculation by (simp add: burns_def)
  ultimately have "book_ok i sp' (bt_put k p' (bt_put k p1 bk))"
    using q by (intro book_burn [OF pre(2-5)])
      (simp_all add: p' mark_closed_def position_ok_def pre(4,5))
  then show "book_ok i sp' (bt_put k p' bk)" by (simp add: pre(6))
  show "pos_active_shares p' = 0" using q by (simp add: p' mark_closed_def)
qed

lemma pre_sync_keeps_book:
  assumes "sub_pool_wf sp" and "book_ok i sp bk"
    and "pre_sync_dormant_bucket market d tick slot sp = Inr (sp', out)"
  shows "book_ok i sp' bk"
proof -
  obtain b where b: "get_bucket (dormant d sp) tick = Some b"
    and sp': "sp' = set_dormant d (settle tick b (dormant d sp)) sp"
    using pre_sync_Ok(5) [OF assms(1,3)] by blast
  have "series_step e sp sp'" for e
    using settle_bucket_shares [OF sides_ok_store [OF sub_pool_wf_sides [OF assms(1)], of d]
        b [unfolded get_bucket_def]]
    by (auto simp: sp' series_step_def series_kept_def side_simps)
  then show ?thesis using assms(2) book_step by blast
qed

lemma harvest_keeps_book:
  assumes "book_ok i sp bk" and "harvest_dust market d sp = Inr (sp', out)"
  shows "book_ok i sp' bk"
proof -
  have "series_step e sp sp'" for e
    using assms(2) by (auto simp: harvest_dust_def Let_def series_step_def series_kept_def side_simps
        split: if_splits)
  then show ?thesis using assms(1) book_step by blast
qed

text \<open>A new position enters the book under a fresh key.\<close>

lemma book_add:
  assumes "book_ok i sp bk" and "bt_get bk k = None" and "position_ok i sp' p"
    and same: "\<And>d. active_generation d sp' = active_generation d sp"
      "\<And>d. rotate_log d sp' = rotate_log d sp"
    and "\<And>d. active_shares d sp' = active_shares d sp + active_in d i (active_generation d sp) p"
    and "\<And>d. active_notional d sp' = active_notional d sp + notional_in d i (active_generation d sp) p"
    and "\<And>d t. bucket_shares (dormant d sp') t
           = bucket_shares (dormant d sp) t + recovery_in d i (rotate_log d sp) t p"
  shows "book_ok i sp' (bt_put k p bk)"
proof -
  note bk = book_okD [OF assms(1)]
  have get: "bt_get (bt_put k p bk) = (bt_get bk)(k \<mapsto> p)" using bk(1) by (rule bt_get_put)
  have wf: "bt_wf (bt_put k p bk)" using bk(1) by (rule bt_wf_put)
  have "position_ok i sp' q" if "(j, q) \<in> set (bt_put k p bk)" for j q
  proof -
    from that have "bt_get (bt_put k p bk) j = Some q" using bt.in_entries_iff [OF wf] by simp
    then have "q = p \<or> bt_get bk j = Some q" by (auto simp: get split: if_splits)
    then show ?thesis using assms(3) bk(3) [of j q] by (auto simp: position_ok_def same)
  qed
  moreover have "book_side d i sp' (bt_put k p bk)" for d
    using bk(2) [of d] assms(6-8)
    by (simp add: book_side_def log_ok_def same total_of_add [OF bk(1) assms(2)])
  ultimately show ?thesis using wf by (auto simp: book_ok_def)
qed

lemma open_keeps_book:
  assumes "sub_pool_wf sp" and "book_ok i sp bk" and "bt_get bk k = None"
    and "open_position market env d gross pid sp = Inr (sp', p, out)" and "env_p_now env < 2 ^ 64"
  shows "book_ok i sp' (bt_put k (p\<lparr>pos_sub_pool_id := i\<rparr>) bk)"
proof -
  from assms(4) obtain sp1 synced where sync: "sync_pool market env sp = Inr (sp1, synced)"
    and mint: "mint_shares market (pool_equity d sp1) (active_shares d sp1) (principal p)
          = Inr (oo_shares_minted out, oo_principal_into_pool out, oo_dust out)"
    and lev: "mul_div_floor (principal p) (leverage_bps market) BPS_SCALE = Inr (oo_notional_added out)"
    and sp': "sp' = set_dust d (dust d sp1 + oo_dust out) (set_active_notional d
        (active_notional d sp1 + oo_notional_added out) (set_active_shares d
        (active_shares d sp1 + oo_shares_minted out) (set_pool_equity d
        (pool_equity d sp1 + oo_principal_into_pool out) sp1)))"
    and p: "pos_active_shares p = oo_shares_minted out" "notional p = oo_notional_added out"
      "pos_direction p = d" "pos_active_generation p = active_generation d sp'"
      "pos_recovery_shares p = 0" "recovery_bucket_tick p = None"
    by (auto simp: open_position_def Let_def split: if_splits)
  note ok = sub_pool_wf_sides [OF assms(1)]
  note bk1 = book_sync [OF assms(2) ok sync assms(5)]
  have len: "length (rotate_log d sp1) = active_generation d sp1"
    using book_okD(2) [OF bk1] log_ok_length by (simp add: book_side_def)
  have "oo_notional_added out = 0" if "oo_shares_minted out = 0"
  proof -
    have "principal p = 0"
      using mint that by (auto simp: mint_shares_def split: if_splits)
    then show ?thesis using mul_div_floor_Ok(1) [OF lev] by (simp add: BPS_SCALE_def)
  qed
  with len p show ?thesis
    by (intro book_add [OF bk1 assms(3)])
      (auto simp: position_ok_def sp' side_simps active_in_def notional_in_def recovery_in_def on_side_def)
qed


text \<open>
  Progress of closing: a booked position with active shares of the current generation and a
  positive value can always be closed. Shares are never missing, no checked operation fails,
  and the runtime check passes afterwards.
\<close>

lemma check_subpool_iff:
  "check_subpool_invariants sp = Inr () \<longleftrightarrow>
     (\<forall>d. (pool_equity d sp = 0 \<longleftrightarrow> active_shares d sp = 0)
        \<and> total_shares_of (dormant d sp) = Inr (recovery_shares d sp)
        \<and> check_store_invariants (dormant d sp) = Inr ())"
proof -
  have all: "(\<forall>d. P d) \<longleftrightarrow> P Long \<and> P Short" for P by (metis direction.exhaust)
  show ?thesis
    unfolding all
    by (auto simp: check_subpool_invariants_def inv2_active_shares_zero_iff_pool_zero_def
      inv2_active_shares_zero_iff_pool_zero_short_def inv4_active_notional_nonneg_def
      inv5_recovery_shares_match_buckets_def inv6_dormant_ledger_consistency_def pool_equity_def
      active_shares_def recovery_shares_def dormant_def split: if_splits)
qed

lemma sync_pool_checked:
  assumes "sync_pool market env sp = Inr (sp', out)"
  shows "check_subpool_invariants sp' = Inr ()"
  using assms by (auto simp: sync_pool_def sync_move_def Let_def split: if_splits)

lemma floor_share_all:
  assumes "0 < e" and "s \<le> (n::nat)" and "0 < n"
  shows "e - e * s div n = 0 \<longleftrightarrow> n - s = 0"
proof (cases "s = n")
  case True
  with assms show ?thesis by simp
next
  case False
  with assms(2) have "s < n" by simp
  then have "e * s < e * n" using assms(1) by simp
  then have "e * s div n < e" using assms(3) by (simp add: div_less_iff_less_mult)
  with \<open>s < n\<close> show ?thesis by simp
qed

lemma active_close_total:
  assumes "sub_pool_wf sp" and "book_ok i sp bk" and "bt_get bk k = Some p" and "pos_sub_pool_id p = i"
    and "assert_schema_version (schema_version market) = Inr ()"
    and "pos_schema_version p = schema_version market" and "status p = Open"
    and sync: "sync_pool market env sp = Inr (sp1, synced)" and "env_p_now env < 2 ^ 64"
    and gen: "pos_active_generation p = active_generation (pos_direction p) sp1"
  defines "v \<equiv> pool_equity (pos_direction p) sp1 * pos_active_shares p
                div active_shares (pos_direction p) sp1"
  assumes "0 < v"
  shows "\<exists>sp' p' out. close_position market env sp p = Inr (sp', p', out) \<and> co_withdrawable out = v"
proof -
  let ?d = "pos_direction p"
  have wf1: "sub_pool_wf sp1" using sync_pool_wf(1) [OF sub_pool_wf_sides [OF assms(1)] sync assms(9)] .
  have bk1: "book_ok i sp1 bk" using book_sync [OF assms(2) sub_pool_wf_sides [OF assms(1)] sync assms(9)] .
  have some: "0 < pos_active_shares p" using assms(12) by (cases "pos_active_shares p") (auto simp: v_def)
  then have rec0: "pos_recovery_shares p = 0"
    using book_okD(3) [OF bk1 assms(3)] assms(4) by (simp add: position_ok_def)
  note b = booked_bounds [OF bk1 assms(3,4) gen]
  note side = sub_pool_wfD [OF wf1, of ?d]
  have pos: "0 < active_shares ?d sp1" "0 < pool_equity ?d sp1" "active_shares ?d sp1 < 2 ^ 128"
    "pool_equity ?d sp1 < 2 ^ 128"
    using some b(1) side by (auto simp: side_wf_def side_ok_def)
  have v: "mul_div_floor (pool_equity ?d sp1) (pos_active_shares p) (active_shares ?d sp1) = Inr v"
    using mul_div_floor_total [OF pos(1,3,4) b(1)] by (simp add: v_def)
  have le: "v \<le> pool_equity ?d sp1" using mult_div_le_left [OF b(1)] by (simp add: v_def)
  define sp2 where "sp2 = set_active_notional ?d (active_notional ?d sp1 - notional p)
      (set_active_shares ?d (active_shares ?d sp1 - pos_active_shares p)
      (set_pool_equity ?d (pool_equity ?d sp1 - v) sp1))"
  have burn: "burn_active sp1 p = Inr (sp2, p\<lparr>pos_active_shares := 0\<rparr>, v)"
    using some v b le pos
    by (simp add: burn_active_def Let_def sp2_def checked_sub_m_def checked_sub_w_def)
  have "check_subpool_invariants sp2 = Inr ()"
    using sync_pool_checked [OF sync] floor_share_all [OF pos(2) b(1) pos(1)]
    by (auto simp: check_subpool_iff sp2_def side_simps v_def)
  moreover have "v < 2 ^ 128" using le pos(4) by linarith
  moreover have "\<not> (pos_schema_version p \<noteq> schema_version market)" using assms(6) by simp
  ultimately show ?thesis
    using assms(5-7,12) sync gen some rec0 burn
    by (simp add: close_position_def Let_def lazy_migrate_position_def burn_recovery_if_any_def
      no_receipt_def checked_add_m_def checked_add_w_def)
qed

end
