(* ===== verification/Engine_Properties.thy ===== *)
theory Engine_Properties
  imports Evaluate Book
begin

text \<open>
  The properties of the clearing engine \<open>crates/clearing-core/src/engine.rs\<close>: synchronisation,
  opening, closing, recovery, and the share book.
\<close>

section \<open>Synchronisation\<close>

text \<open>
  C13: a successful sync conserves every unit. It only runs on an unpaused market with a
  positive price inside the caller's envelope; it keeps the sub-pool well formed, moves the
  clock to the new price, and leaves the total of pools, dormant stores and dust as it was.
\<close>

theorem sync_conserves:
  assumes "sub_pool_wf sp" and "sync_pool market env sp = Inr (sp', out)" and "env_p_now env < 2 ^ 64"
  shows "sub_pool_wf sp' \<and> vault sp' = vault sp \<and> last_price sp' = env_p_now env
    \<and> \<not> paused market \<and> 0 < env_p_now env
    \<and> env_expected_min env \<le> env_p_now env \<and> env_p_now env \<le> env_expected_max env"
  using sync_pool_wf [OF sub_pool_wf_sides [OF assms(1)] assms(2,3)] sync_guards_Ok by blast

theorem sync_conserves_witness:
  "\<exists>out. sync_pool (demo_market Lazy) (env_at 900 2) demo_pool = Inr (demo_wiped, out)
     \<and> sub_pool_wf demo_wiped \<and> vault demo_wiped = vault demo_pool"
proof -
  obtain out where s: "sync_pool (demo_market Lazy) (env_at 900 2) demo_pool = Inr (demo_wiped, out)"
    using demo_fell by blast
  from sync_conserves [OF demo_pool_wf s] s show ?thesis by (simp add: env_at_def)
qed

text \<open>
  the two arms of a sync are mutually exclusive, as its comment claims: a price move
  gives a demand to at most one side, counting active profit and dormant claims.
\<close>

theorem demands_exclusive:
  assumes "sub_pool_wf sp" and "sync_demands p q sp = Inr (la, lt, sa, st)" and "p < 2 ^ 64"
  shows "(p \<le> q \<longrightarrow> sa = 0 \<and> st = 0) \<and> (q \<le> p \<longrightarrow> la = 0 \<and> lt = 0)"
  using sync_demands_exclusive [OF sub_pool_wf_sides [OF assms(1)] assms(2,3)] by blast

theorem demands_exclusive_witness:
  "sync_demands 900 990 demo_wiped = Inr (0, 100000000, 0, 0) \<and> ((0::nat) = 0 \<and> (0::nat) = 0)"
proof -
  have d: "sync_demands 900 990 demo_wiped = Inr (0, 100000000, 0, 0)" by (simp add: evals demo)
  from demands_exclusive [OF demo_wiped_wf d] d show ?thesis by simp
qed

text \<open>
  a settlement takes what it may and no more. The losing pool pays exactly the smaller
  of the winning side's demand and what the pool holds, and the winning pool receives the
  floored active part of it.
\<close>

theorem settlement_amounts:
  assumes "sub_pool_wf sp" and "p < 2 ^ 64" and "sync_demands p q sp = Inr (la, lt, sa, st)"
    and "settle_sides market q (la, lt, sa, st) sp = Inr (sp', out)"
  shows "pool_equity Short sp' = pool_equity Short sp - min lt (pool_equity Short sp)
      + min st (pool_equity Long sp) * sa div st
    \<and> pool_equity Long sp' = pool_equity Long sp - min st (pool_equity Long sp)
      + min lt (pool_equity Short sp) * la div lt
    \<and> vault sp' = vault sp"
  using settle_sides_amounts [OF sub_pool_wf_sides [OF assms(1)] assms(2-4)]
    settle_sides_Ok(2) [OF sub_pool_wf_sides [OF assms(1)] assms(4) sync_demands_bound(1,2) [OF assms(3)]]
  by blast

theorem settlement_amounts_witness:
  "\<exists>sp' out. settle_sides (demo_market Eager) 900 (0, 0, 1000000000, 1000000000) demo_pool = Inr (sp', out)
     \<and> pool_equity Short sp' = 1100000000 \<and> pool_equity Long sp' = 0"
proof -
  have d: "sync_demands 1000 900 demo_pool = Inr (0, 0, 1000000000, 1000000000)"
    by (simp add: evals demo)
  have "\<exists>sp' out. settle_sides (demo_market Eager) 900 (0, 0, 1000000000, 1000000000) demo_pool
      = Inr (sp', out)" by (simp add: evals demo)
  then show ?thesis
    using settlement_amounts [OF demo_pool_wf _ d] by (fastforce simp: demo pool_equity_def new_sub_pool_def)
qed

text \<open>
  shares move only as a whole series. Over a sync, the active shares, notional,
  generation, rotate log and bucket shares of a side either all stay, or the whole active
  series goes into exactly one bucket, one rotate record is logged for the generation that
  ended, and the next generation starts.
\<close>

theorem sync_moves_whole_series:
  assumes "sub_pool_wf sp" and "sync_pool market env sp = Inr (sp', out)" and "env_p_now env < 2 ^ 64"
  shows "(active_shares d sp' = active_shares d sp \<and> active_notional d sp' = active_notional d sp
      \<and> active_generation d sp' = active_generation d sp \<and> rotate_log d sp' = rotate_log d sp
      \<and> bucket_shares (dormant d sp') = bucket_shares (dormant d sp))
    \<or> (\<exists>tick anchor. active_shares d sp' = 0 \<and> active_notional d sp' = 0
      \<and> active_generation d sp' = active_generation d sp + 1
      \<and> rotate_log d sp' = rotate_log d sp @ [\<lparr>generation_just_ended = active_generation d sp,
           rr_bucket_tick = tick, rr_anchor_price = anchor\<rparr>]
      \<and> bucket_shares (dormant d sp') = (bucket_shares (dormant d sp))
           (tick := bucket_shares (dormant d sp) tick + active_shares d sp))"
  using sync_pool_series [OF sub_pool_wf_sides [OF assms(1)] assms(2,3), of d]
  by (simp add: series_step_def series_kept_def series_rotated_def)

theorem sync_moves_whole_series_witness:
  "active_shares Long demo_wiped = 0
     \<and> bucket_shares (dormant Long demo_wiped) 900 = bucket_shares (dormant Long demo_pool) 900 + 100000000"
proof -
  obtain out where s: "sync_pool (demo_market Lazy) (env_at 900 2) demo_pool = Inr (demo_wiped, out)"
    using demo_fell by blast
  have e: "env_p_now (env_at 900 2) < 2 ^ 64" by (simp add: env_at_def)
  from sync_moves_whole_series [OF demo_pool_wf s e, of Long] show ?thesis
    by (auto simp: demo active_shares_def new_sub_pool_def rotate_log_def)
qed

text \<open>
  a price jump past the market's cap is refused, whatever the pools hold: the floored
  relative move in basis points is compared with the cap before anything is computed.
\<close>

theorem price_jump_refused:
  assumes "sync_guards market env = Inr ()" and "0 < last_price sp" and "last_price sp < 2 ^ 64"
    and "env_p_now env < 2 ^ 64"
    and "max_price_move_bps_per_sync market * last_price sp + last_price sp
      \<le> (env_p_now env - last_price sp + (last_price sp - env_p_now env)) * 10000"
    and "(env_p_now env - last_price sp + (last_price sp - env_p_now env)) * 10000 div last_price sp
      < 2 ^ 64"
  shows "sync_pool market env sp = Err PriceMoveTooLarge"
proof -
  let ?diff = "env_p_now env - last_price sp + (last_price sp - env_p_now env)"
  have "(max_price_move_bps_per_sync market + 1) * last_price sp \<le> ?diff * 10000"
    using assms(5) by simp
  then have "max_price_move_bps_per_sync market + 1 \<le> ?diff * 10000 div last_price sp"
    using assms(2) by (simp add: less_eq_div_iff_mult_less_eq)
  moreover have "env_p_now env \<noteq> last_price sp" using assms(2,5) by auto
  ultimately show ?thesis
    using assms price_move_bps_exact [OF assms(3,4)]
    by (simp add: sync_pool_def sync_move_def Let_def)
qed

theorem price_jump_refused_witness:
  "sync_pool (demo_market Eager) (env_at 2500 2) demo_pool = Err PriceMoveTooLarge"
  by (rule price_jump_refused) (simp_all add: evals demo)

section \<open>Opening and closing\<close>

text \<open>
  opening accounts for the whole deposit. The gross amount is the fee plus the
  principal, the principal is what the pool is credited with plus the rounding dust, the
  vault grows by exactly the principal, and the new position holds the minted shares in the
  current generation.
\<close>

theorem open_accounts:
  assumes "sub_pool_wf sp" and "open_position market env d gross pid sp = Inr (sp', pos, out)"
    and "env_p_now env < 2 ^ 64"
  shows "sub_pool_wf sp' \<and> gross = oo_open_fee out + principal pos
    \<and> principal pos = oo_principal_into_pool out + oo_dust out
    \<and> vault sp' = vault sp + principal pos
    \<and> pos_active_shares pos = oo_shares_minted out
    \<and> pos_active_generation pos = active_generation d sp'
    \<and> min_margin market \<le> principal pos \<and> principal pos \<le> max_margin_per_position market"
proof (rule open_position_Ok [OF assms])
  fix sp1 synced
  assume *: "sync_pool market env sp = Inr (sp1, synced)"
    "split_fee market gross = Inr (oo_open_fee out, principal pos)"
    "mint_shares market (pool_equity d sp1) (active_shares d sp1) (principal pos)
      = Inr (oo_shares_minted out, oo_principal_into_pool out, oo_dust out)"
    "sub_pool_wf sp'" "vault sp' = vault sp + principal pos"
    "pos_active_shares pos = oo_shares_minted out" "pos_active_generation pos = active_generation d sp'"
  have "side_wf d sp1"
    using sync_pool_wf(1) [OF sub_pool_wf_sides [OF assms(1)] *(1) assms(3)] sub_pool_wfD by blast
  then show ?thesis
    using * mint_shares_Ok(1) [OF *(3)] split_fee_Ok [OF *(2)] by (simp add: side_wf_def side_ok_def)
qed

theorem open_accounts_witness:
  "\<exists>sp' pos out. open_position (demo_market Eager) (env_at 1050 2) Long 33333333 3 demo_pool
       = Inr (sp', pos, out)
     \<and> vault sp' = vault demo_pool + principal pos \<and> sub_pool_wf sp'"
proof -
  have o': "\<exists>sp' pos out. open_position (demo_market Eager) (env_at 1050 2) Long 33333333 3 demo_pool
       = Inr (sp', pos, out)" by (simp add: evals demo)
  have e: "env_p_now (env_at 1050 2) < 2 ^ 64" by (simp add: env_at_def)
  from o' show ?thesis using open_accounts [OF demo_pool_wf _ e] by blast
qed

text \<open>
  opening dilutes nobody. Compared with the pool right after the sync, the value of the
  shares that were there before the mint does not rise at the newcomer's cost and falls by
  at most one unit in total, the rounding of the mint.
\<close>

theorem open_no_dilution:
  assumes "sub_pool_wf sp" and "open_position market env d gross pid sp = Inr (sp', pos, out)"
    and "env_p_now env < 2 ^ 64" and "sync_pool market env sp = Inr (sp1, synced)"
  shows "pool_equity d sp' * active_shares d sp1 \<le> pool_equity d sp1 * active_shares d sp'
    \<and> pool_equity d sp1 * active_shares d sp'
        \<le> pool_equity d sp' * active_shares d sp1 + active_shares d sp1"
proof (rule open_position_Ok [OF assms(1-3)])
  fix sp2 synced2
  assume *: "sync_pool market env sp = Inr (sp2, synced2)"
    "mint_shares market (pool_equity d sp2) (active_shares d sp2) (principal pos)
      = Inr (oo_shares_minted out, oo_principal_into_pool out, oo_dust out)"
    "pool_equity d sp' = pool_equity d sp2 + oo_principal_into_pool out"
    "active_shares d sp' = active_shares d sp2 + oo_shares_minted out"
  have "side_wf d sp2"
    using sync_pool_wf(1) [OF sub_pool_wf_sides [OF assms(1)] *(1) assms(3)] sub_pool_wfD by blast
  then have "pool_equity d sp2 < 2 ^ 128" "active_shares d sp2 < 2 ^ 128"
    by (simp_all add: side_wf_def side_ok_def)
  from mint_shares_facts(1,2) [OF *(2) this] *(1,3,4) assms(4) show ?thesis
    by (simp add: algebra_simps)
qed

theorem open_no_dilution_witness:
  "\<exists>sp' pos out sp1 synced. open_position (demo_market Eager) (env_at 1050 2) Long 33333333 3 demo_pool
       = Inr (sp', pos, out)
     \<and> sync_pool (demo_market Eager) (env_at 1050 2) demo_pool = Inr (sp1, synced)
     \<and> pool_equity Long sp' * active_shares Long sp1 \<le> pool_equity Long sp1 * active_shares Long sp'"
proof -
  have o': "\<exists>sp' pos out sp1 synced. open_position (demo_market Eager) (env_at 1050 2) Long 33333333 3 demo_pool
       = Inr (sp', pos, out) \<and> sync_pool (demo_market Eager) (env_at 1050 2) demo_pool = Inr (sp1, synced)"
    by (simp add: evals demo)
  have e: "env_p_now (env_at 1050 2) < 2 ^ 64" by (simp add: env_at_def)
  from o' show ?thesis using open_no_dilution [OF demo_pool_wf _ e] by blast
qed

text \<open>
  C17: opening and closing at the same price is no free lunch: the close pays exactly what
  the pool was credited with, which is at most the principal. Nothing can be extracted from
  the other holders by rounding.
\<close>

theorem open_close_roundtrip:
  assumes "sub_pool_wf sp" and "env_p_now env < 2 ^ 64"
    and "open_position market env d gross pid sp = Inr (sp1, pos, oo)"
    and "close_position market env' sp1 pos = Inr (sp2, pos', co)"
    and "env_p_now env' = env_p_now env"
  shows "co_withdrawable co = oo_principal_into_pool oo
    \<and> oo_principal_into_pool oo + oo_open_fee oo \<le> gross"
  using open_then_close [OF assms] open_accounts [OF assms(1,3,2)] by simp

theorem open_close_roundtrip_witness:
  "\<exists>sp1 pos oo sp2 pos' co.
     open_position (demo_market Eager) (env_at 1050 2) Long 33333333 3 demo_pool = Inr (sp1, pos, oo)
     \<and> close_position (demo_market Eager) (env_at 1050 3) sp1 pos = Inr (sp2, pos', co)
     \<and> co_withdrawable co = oo_principal_into_pool oo"
proof -
  have o': "\<exists>sp1 pos oo sp2 pos' co.
     open_position (demo_market Eager) (env_at 1050 2) Long 33333333 3 demo_pool = Inr (sp1, pos, oo)
     \<and> close_position (demo_market Eager) (env_at 1050 3) sp1 pos = Inr (sp2, pos', co)"
    by (simp add: evals demo) blast
  have e: "env_p_now (env_at 1050 2) < 2 ^ 64" "env_p_now (env_at 1050 3) = env_p_now (env_at 1050 2)"
    by (simp_all add: env_at_def)
  from o' show ?thesis using open_close_roundtrip [OF demo_pool_wf e(1) _ _ e(2)] by blast
qed

text \<open>
  closing pays out of the vault exactly what it reports, a positive amount that is the
  active plus the recovery value, and finishes the position: it is closed, holds no recovery
  shares and no notional.
\<close>

theorem close_pays:
  assumes "sub_pool_wf sp" and "close_position market env sp pos = Inr (sp', pos', out)"
    and "env_p_now env < 2 ^ 64"
  shows "sub_pool_wf sp' \<and> vault sp' + co_withdrawable out = vault sp \<and> 0 < co_withdrawable out
    \<and> co_withdrawable out = co_active_value out + co_recovery_value out
    \<and> status pos' = Closed \<and> pos_recovery_shares pos' = 0 \<and> notional pos' = 0"
  using close_position_Ok [OF assms] by simp

theorem close_pays_witness:
  "\<exists>sp' pos' out. close_position (demo_market Lazy) (env_at 990 4) (demo_recovering Lazy) demo_long
       = Inr (sp', pos', out)
     \<and> vault sp' + 100000000 = vault (demo_recovering Lazy) \<and> status pos' = Closed"
proof -
  have c: "\<exists>sp' pos' out. close_position (demo_market Lazy) (env_at 990 4) (demo_recovering Lazy) demo_long
       = Inr (sp', pos', out) \<and> co_withdrawable out = 100000000" by (simp add: evals demo)
  have e: "env_p_now (env_at 990 4) < 2 ^ 64" by (simp add: env_at_def)
  from c show ?thesis using close_pays [OF demo_recovering_wf _ e] by fastforce
qed

end
