(* ===== verification/Recovery_Properties.thy ===== *)
theory Recovery_Properties
  imports Evaluate Book
begin

text \<open>
  The properties of closing under the share book, of recovery, forced closing, dust and the
  keeper's catch-up, and the sample market with its positions.
\<close>

section \<open>The sample positions\<close>

definition demo_book :: book where
  "demo_book = [(1, demo_long), (2, demo_short)]"

lemma demo_book_ok: "book_ok 7 demo_pool demo_book"
proof -
  have side: "book_side d 7 demo_pool demo_book" for d
    by (cases d)
      (simp_all add: book_side_def log_ok_def total_of_def demo_book_def demo active_in_def
        notional_in_def recovery_in_def on_side_def rotate_log_def active_generation_def
        active_shares_def active_notional_def dormant_def new_sub_pool_def bucket_shares_def
        new_store_def bt_empty_def)
  have "bt_wf demo_book" by (simp add: demo_book_def bt_wf_def)
  then show ?thesis
    using side by (simp add: book_ok_def demo_book_def position_ok_def demo active_generation_def
      new_sub_pool_def)
qed

lemma demo_book_wiped: "book_ok 7 demo_wiped demo_book"
proof -
  obtain out where s: "sync_pool (demo_market Eager) (env_at 900 2) demo_pool = Inr (demo_wiped, out)"
    using demo_fell by blast
  show ?thesis
    by (rule book_sync [OF demo_book_ok sub_pool_wf_sides [OF demo_pool_wf] s]) (simp add: env_at_def)
qed

lemma demo_book_get [simp]: "bt_get demo_book 1 = Some demo_long" "bt_get demo_book 2 = Some demo_short"
  by (simp_all add: demo_book_def)

lemma demo_positions [simp]: "pos_sub_pool_id demo_long = 7" "pos_sub_pool_id demo_short = 7"
  by (simp_all add: demo)

section \<open>Closing under the share book\<close>

text \<open>
  C12: an active position with value can always leave. If the sync succeeds, the position is
  open, booked and of the current generation, and its floored share of the pool is positive,
  then \<open>close_position\<close> succeeds and pays exactly that share: no missing shares, no failing
  checked operation and no failing runtime check can lock it in.
\<close>

theorem active_close_succeeds:
  assumes "sub_pool_wf sp" and "book_ok i sp bk" and "bt_get bk k = Some p" and "pos_sub_pool_id p = i"
    and "assert_schema_version (schema_version market) = Inr ()"
    and "pos_schema_version p = schema_version market" and "status p = Open"
    and "sync_pool market env sp = Inr (sp1, synced)" and "env_p_now env < 2 ^ 64"
    and "pos_active_generation p = active_generation (pos_direction p) sp1"
    and "0 < pool_equity (pos_direction p) sp1 * pos_active_shares p
               div active_shares (pos_direction p) sp1"
  shows "\<exists>sp' p' out. close_position market env sp p = Inr (sp', p', out)
    \<and> co_withdrawable out = pool_equity (pos_direction p) sp1 * pos_active_shares p
               div active_shares (pos_direction p) sp1"
  using assms by (rule active_close_total)

theorem active_close_succeeds_witness:
  "\<exists>sp' p' out. close_position (demo_market Eager) (env_at 995 2) demo_pool demo_long = Inr (sp', p', out)
     \<and> co_withdrawable out = 50000000"
proof -
  have s: "\<exists>sp1 synced. sync_pool (demo_market Eager) (env_at 995 2) demo_pool = Inr (sp1, synced)
      \<and> pool_equity Long sp1 = 50000000 \<and> active_shares Long sp1 = 100000000
      \<and> active_generation Long sp1 = 0"
    by (simp add: evals demo)
  then obtain sp1 synced where
      s: "sync_pool (demo_market Eager) (env_at 995 2) demo_pool = Inr (sp1, synced)"
      "pool_equity Long sp1 = 50000000" "active_shares Long sp1 = 100000000"
      "active_generation Long sp1 = 0" by blast
  have g: "assert_schema_version (schema_version (demo_market Eager)) = Inr ()"
    "pos_schema_version demo_long = schema_version (demo_market Eager)" "status demo_long = Open"
    "env_p_now (env_at 995 2) < 2 ^ 64"
    "pos_active_generation demo_long = active_generation (pos_direction demo_long) sp1"
    and v: "pool_equity (pos_direction demo_long) sp1 * pos_active_shares demo_long
               div active_shares (pos_direction demo_long) sp1 = 50000000"
    using s(2-4) by (simp_all add: evals demo)
  show ?thesis
    using active_close_succeeds [OF demo_pool_wf demo_book_ok demo_book_get(1) demo_positions(1)
      g(1-3) s(1) g(4,5)] by (simp add: v)
qed

text \<open>
  closing keeps the share book: after it the remaining positions still account for every
  active share, every notional and every recovery share of the sub-pool, and the closed
  position holds nothing.
\<close>

theorem close_keeps_share_book:
  assumes "sub_pool_wf sp" and "book_ok i sp bk" and "bt_get bk k = Some p" and "pos_sub_pool_id p = i"
    and "close_position market env sp p = Inr (sp', p', out)" and "env_p_now env < 2 ^ 64"
  shows "book_ok i sp' (bt_put k p' bk) \<and> pos_active_shares p' = 0 \<and> pos_recovery_shares p' = 0"
  using close_keeps_book [OF assms] close_position_Ok(7) [OF assms(1,5,6)] by simp

theorem close_keeps_share_book_witness:
  "\<exists>sp' p' out. close_position (demo_market Lazy) (env_at 980 3) demo_wiped demo_long = Inr (sp', p', out)
     \<and> book_ok 7 sp' (bt_put 1 p' demo_book)"
proof -
  have c: "\<exists>sp' p' out. close_position (demo_market Lazy) (env_at 980 3) demo_wiped demo_long
      = Inr (sp', p', out)" by (simp add: evals demo)
  have e: "env_p_now (env_at 980 3) < 2 ^ 64" by (simp add: env_at_def)
  from c show ?thesis
    using close_keeps_share_book [OF demo_wiped_wf demo_book_wiped demo_book_get(1) demo_positions(1) _ e]
    by blast
qed

text \<open>
  C18: migration never fails on a booked position: the rotate record of every generation that
  ended is there, so no holder is stuck in an old generation; no shares are gained or lost,
  and the position ends in the current generation.
\<close>

theorem migration_total:
  assumes "book_ok i sp bk" and "bt_get bk k = Some p" and "pos_sub_pool_id p = i" and "sub_pool_wf sp"
  shows "\<exists>p' m. lazy_migrate_position sp p = Inr (p', m)
    \<and> pos_active_generation p' = active_generation (pos_direction p) sp
    \<and> pos_active_shares p' + pos_recovery_shares p' = pos_active_shares p + pos_recovery_shares p
    \<and> book_ok i sp (bt_put k p' bk)"
proof -
  obtain p' m where m: "lazy_migrate_position sp p = Inr (p', m)"
    using migrate_total [OF assms(1-3) sub_pool_wf_sides [OF assms(4)]] by blast
  with migrate_keeps_book [OF assms(1-3) m] show ?thesis by blast
qed

theorem migration_total_witness:
  "\<exists>p' m. lazy_migrate_position demo_wiped demo_long = Inr (p', m) \<and> pos_active_generation p' = 1
     \<and> pos_active_shares p' + pos_recovery_shares p' = 100000000"
  using migration_total [OF demo_book_wiped demo_book_get(1) demo_positions(1) demo_wiped_wf]
  by (fastforce simp: demo active_generation_def)

section \<open>Recovery, forfeit, dust, catch-up\<close>

text \<open>
  claiming recovery pays out of the vault exactly what it reports and burns all recovery
  shares of the position; the sub-pool stays well formed and the share book is kept.
\<close>

theorem claim_pays:
  assumes "sub_pool_wf sp" and "claim_dormant_recovery market env sp p = Inr (sp', p', out)"
    and "env_p_now env < 2 ^ 64" and "book_ok i sp bk" and "bt_get bk k = Some p"
    and "pos_sub_pool_id p = i"
  shows "sub_pool_wf sp' \<and> vault sp' + cr_redeemable out = vault sp \<and> pos_recovery_shares p' = 0
    \<and> 0 < cr_recovery_shares_burned out \<and> book_ok i sp' (bt_put k p' bk)"
  using claim_Ok [OF assms(1-3)] claim_keeps_book [OF assms(1,4-6,2,3)] by simp

theorem claim_pays_witness:
  "\<exists>sp' p' out. claim_dormant_recovery (demo_market Lazy) (env_at 990 3) demo_wiped demo_long
       = Inr (sp', p', out)
     \<and> vault sp' + 100000000 = vault demo_wiped \<and> book_ok 7 sp' (bt_put 1 p' demo_book)"
proof -
  have c: "\<exists>sp' p' out. claim_dormant_recovery (demo_market Lazy) (env_at 990 3) demo_wiped demo_long
       = Inr (sp', p', out) \<and> cr_redeemable out = 100000000" by (simp add: evals demo)
  have e: "env_p_now (env_at 990 3) < 2 ^ 64" by (simp add: env_at_def)
  from c show ?thesis
    using claim_pays [OF demo_wiped_wf _ e demo_book_wiped demo_book_get(1) demo_positions(1)] by fastforce
qed

text \<open>
  a forced close needs the acknowledgement, works on a position that is not closed, and
  pays nothing: everything it forfeits stays in the vault, the position ends closed without
  shares, and the share book is kept.
\<close>

theorem force_close_forfeits:
  assumes "sub_pool_wf sp"
    and "force_close_zero_value_position market env ack sp p = Inr (sp', p', out)"
    and "env_p_now env < 2 ^ 64" and "book_ok i sp bk" and "bt_get bk k = Some p"
    and "pos_sub_pool_id p = i"
  shows "sub_pool_wf sp' \<and> vault sp' = vault sp \<and> ack \<and> status p \<noteq> Closed \<and> status p' = Closed
    \<and> pos_active_shares p' = 0 \<and> pos_recovery_shares p' = 0 \<and> book_ok i sp' (bt_put k p' bk)"
  using force_close_Ok [OF assms(1-3)] force_close_keeps_book [OF assms(1,4-6,2,3)] by simp

theorem force_close_forfeits_witness:
  "\<exists>sp' p' out. force_close_zero_value_position (demo_market Lazy) (env_at 990 3) True demo_wiped demo_long
       = Inr (sp', p', out)
     \<and> vault sp' = vault demo_wiped \<and> status p' = Closed"
proof -
  have c: "\<exists>sp' p' out. force_close_zero_value_position (demo_market Lazy) (env_at 990 3) True
      demo_wiped demo_long = Inr (sp', p', out)" by (simp add: evals demo)
  have e: "env_p_now (env_at 990 3) < 2 ^ 64" by (simp add: env_at_def)
  from c show ?thesis
    using force_close_forfeits [OF demo_wiped_wf _ e demo_book_wiped demo_book_get(1) demo_positions(1)]
    by blast
qed

text \<open>
  harvesting sweeps exactly the dust of one side out of the vault and nothing else.
\<close>

theorem harvest_sweeps_dust:
  assumes "sub_pool_wf sp" and "harvest_dust market d sp = Inr (sp', out)"
  shows "sub_pool_wf sp' \<and> ho_amount out = dust d sp \<and> dust d sp' = 0
    \<and> vault sp' + ho_amount out = vault sp"
  using harvest_dust_Ok [OF assms] by simp

theorem harvest_sweeps_dust_witness:
  "\<exists>sp' out. harvest_dust (demo_market Eager) Long demo_wiped = Inr (sp', out) \<and> ho_amount out = 0
     \<and> sub_pool_wf sp'"
proof -
  have "\<exists>sp' out. harvest_dust (demo_market Eager) Long demo_wiped = Inr (sp', out) \<and> ho_amount out = 0"
    by (simp add: evals demo)
  then show ?thesis using harvest_sweeps_dust [OF demo_wiped_wf] by blast
qed

text \<open>
  the keeper's catch-up of one bucket only moves value from pending to attributed: the
  vault is unchanged, the bucket receives exactly what \<open>pending_for_bucket\<close> predicted, nothing
  is left pending for it, and the budget per transaction is respected.
\<close>

theorem catch_up_exact:
  assumes "sub_pool_wf sp" and "pre_sync_dormant_bucket market d tick slot sp = Inr (sp', out)"
  shows "sub_pool_wf sp' \<and> vault sp' = vault sp \<and> pr_pending_remaining out = 0
    \<and> pr_events_applied out \<le> max_pending_apply_per_tx market
    \<and> pr_pre_accrued_value out \<le> pr_post_accrued_value out
    \<and> pending_for_bucket (dormant d sp) tick
        = Inr (pr_post_accrued_value out - pr_pre_accrued_value out)"
proof -
  have wf: "store_wf (dormant d sp)" using sides_ok_store [OF sub_pool_wf_sides [OF assms(1)]] .
  obtain b where b: "get_bucket (dormant d sp) tick = Some b"
    "pr_post_accrued_value out = pr_pre_accrued_value out + owed_to (dormant d sp) b"
    using pre_sync_Ok(5) [OF assms] by blast
  obtain store n where "apply_pending_to_bucket tick (dormant d sp) = Inr (store, n)"
    using assms(2) by (auto simp: pre_sync_dormant_bucket_def Let_def split: if_splits)
  from pending_predicts_apply [OF wf _ this] b pre_sync_Ok [OF assms] show ?thesis
    by (simp add: get_bucket_def)
qed

theorem catch_up_exact_witness:
  "\<exists>sp' out. pre_sync_dormant_bucket (demo_market Lazy) Long 900 4 (demo_recovering Lazy) = Inr (sp', out)
     \<and> vault sp' = vault (demo_recovering Lazy) \<and> pr_post_accrued_value out = 100000000"
proof -
  have "\<exists>sp' out. pre_sync_dormant_bucket (demo_market Lazy) Long 900 4 (demo_recovering Lazy)
      = Inr (sp', out) \<and> pr_post_accrued_value out = 100000000"
    by (simp add: evals demo)
  then show ?thesis using catch_up_exact [OF demo_recovering_wf] by blast
qed

section \<open>The lazy mode and the price path\<close>

definition sync_path :: "market_params \<Rightarrow> price_envelope list \<Rightarrow> sub_pool \<Rightarrow> sub_pool clearing" where
  "sync_path market envs sp =
     fold_res (\<lambda>env sp. and_then (sync_pool market env sp) (\<lambda>(sp', out). Ok sp')) envs sp"

text \<open>Every bucket of the store has applied every entry of its ledger.\<close>

definition all_applied :: "dormant_store \<Rightarrow> bool" where
  "all_applied st \<longleftrightarrow> (\<forall>k b. bt_get (buckets st) k = Some b \<longrightarrow> next_event_index st \<le> last_applied_index b)"

lemma drain_applied:
  assumes "all_applied st" and "drain_keys keys st = Inr st'"
  shows "st' = st"
proof -
  have "apply_pending_to_bucket k st = Inr (st, 0)" for k
    using assms(1) by (cases "bt_get (buckets st) k") (auto simp: all_applied_def apply_pending_to_bucket_def)
  then have "drain_keys keys st = Inr st" by (induction keys) (simp_all add: drain_keys_def)
  with assms(2) show ?thesis by simp
qed

lemma prepared_applied:
  assumes "store_wf st" and "all_applied st" and "prepared p m st st2 t"
  shows "buckets st2 = buckets st" and "store_direction st2 = store_direction st"
proof -
  obtain st1 where s1: "ensure_ledger_capacity m st = Inr st1"
    and drain: "drain_keys (activated_keys st p) st1 = Inr st2" using assms(3) by (auto simp: prepared_def)
  note e = ensure_capacity_Ok [OF assms(1) s1]
  have "all_applied st1" using assms(2) e by (simp add: all_applied_def)
  with drain have "st2 = st1" by (rule drain_applied [rotated])
  with e show "buckets st2 = buckets st" "store_direction st2 = store_direction st" by simp_all
qed

lemma claim_val_credit:
  assumes "p_at_event e = p"
  shows "claim_val d p (credit d e b) + entry_share d e b = claim_val d p b"
proof -
  have "entry_share d e b \<le> claim_val d p b" using assms by (simp add: entry_share_def Let_def)
  moreover have "claim_val d p (credit d e b) = claim_val d p b - entry_share d e b"
    by (simp add: claim_val_def intrinsic_val_def)
  ultimately show ?thesis by simp
qed

lemma lazy_keeps_claims:
  assumes "store_wf st" and "all_applied st" and "distribute_lazy p a m st = Inr (st', r)"
  shows "buckets st' = buckets st" and "store_direction st' = store_direction st"
proof -
  have "buckets st' = buckets st \<and> store_direction st' = store_direction st"
    using assms(1,3) by (cases rule: distribute_lazy_cases) (simp_all add: prepared_applied [OF assms(1,2)])
  then show "buckets st' = buckets st" "store_direction st' = store_direction st" by simp_all
qed

lemma eager_lowers_claims:
  assumes "store_wf st" and "all_applied st" and "distribute p a m st = Inr (st', r)"
    and "total_outstanding_claim_at st p = Inr v" and "total_outstanding_claim_at st' p = Inr w"
  shows "v = w + allocated r"
proof -
  note wf' = distribute_wf [OF assms(1,3)]
  let ?d = "store_direction st"
  have v: "v = (\<Sum>k\<in>dom (bt_get (buckets st)). claim_val ?d p (the (bt_get (buckets st) k)))"
    unfolding total_outstanding_eq [OF assms(1,4)] by (rule bt.total_eq_sum) (simp add: store_wfD(1) [OF assms(1)])
  have w: "w = (\<Sum>k\<in>dom (bt_get (buckets st')). claim_val ?d p (the (bt_get (buckets st') k)))"
    unfolding total_outstanding_eq [OF wf'(1) assms(5)] wf'(5)
    by (rule bt.total_eq_sum) (simp add: store_wfD(1) [OF wf'(1)])
  from assms(1,3) show ?thesis
  proof (cases rule: distribute_cases)
    case nothing
    with v w show ?thesis by simp
  next
    case idle
    with v w prepared_applied [OF assms(1,2) idle(2)] show ?thesis by simp
  next
    case (event st2 t e bs)
    note same = prepared_applied [OF assms(1,2) event(2)] and prep = prepared_facts [OF assms(1) event(2)]
    have e: "p_at_event e = p" by (subst event(4)) simp
    let ?K = "dom (bt_get (buckets st))" and ?at = "\<lambda>k. the (bt_get (buckets st) k)"
    have get': "bt_get (buckets st') = (\<lambda>k. if k \<in> set (activated_keys st p)
        then map_option (credit ?d e) (bt_get (buckets st) k) else bt_get (buckets st) k)"
      using event(10,11) same by (simp add: fun_eq_iff)
    then have dom': "dom (bt_get (buckets st')) = ?K" by (auto split: if_splits)
    have step: "claim_val ?d p (the (bt_get (buckets st') k)) + entry_share ?d e (?at k) = claim_val ?d p (?at k)"
      if "k \<in> ?K" for k
    proof -
      from that obtain b where b: "bt_get (buckets st) k = Some b" by blast
      show ?thesis
        using claim_val_credit [OF e, of ?d b] b e
          activated_keys_facts(2) [OF store_wfD(1) [OF assms(1)], of k p] entry_share_not_activated [of ?d e b]
        by (auto simp: get')
    qed
    have "allocated r = (\<Sum>k\<in>?K. entry_share ?d e (?at k))"
      using shares_over_eq_sum [OF prep(1), of "activated_keys st p" e] prep(2) e event(7) same
      by simp
    then show ?thesis unfolding v w dom' using step by (simp add: sum.distrib [symmetric])
  qed
qed

lemma same_receipt:
  assumes "store_wf st" and "distribute p a m st = Inr (se, re)" and "distribute_lazy p a m st = Inr (sl, rl)"
  shows "re = rl"
  using assms(1,2)
proof (cases rule: distribute_cases)
  case nothing
  then show ?thesis using assms(3) by (simp add: distribute_lazy_def)
next
  case idle
  note id = idle
  from assms(1,3) show ?thesis
    by (cases rule: distribute_lazy_cases) (use id in \<open>auto dest: prepared_unique\<close>)
next
  case (event st2 t e bs)
  note ev = event
  from assms(1,3) show ?thesis
  proof (cases rule: distribute_lazy_cases)
    case (event st2' t' e')
    from prepared_unique [OF ev(2) event(2)] have eq: "st2' = st2" "t' = t" by simp_all
    have "entry_share d e' = entry_share d e" for d
      by (subst event(4), subst ev(4), simp add: fun_eq_iff entry_share_def eq)
    with ev(7) event(7) show ?thesis by (simp add: shares_over_def eq)
  qed (use ev in \<open>auto dest: prepared_unique\<close>)
qed

text \<open>
  C14: the lazy mode demands a paid claim again. After a distribution over a store that has applied
  all its entries, the eager mode has lowered the outstanding claims at that price by exactly what
  it allocated; the lazy mode, which allocates the same, leaves what every later sync demands of
  the losing side, at any two prices, as it was before: \<open>sync_pool\<close> computes the demand from
  accrued values and ignores the pending ledger entries. In the witness both markets follow the
  prices 990, 945, 990 from the same sub-pool: the eager one ends with no dust and the short pool
  whole, the lazy one has taken 50000000 units out of the short pool and into dust.
\<close>

theorem lazy_sync_overdraws:
  assumes "store_wf (dormant d sp)" and "all_applied (dormant d sp)"
    and "distribute_lazy p a m (dormant d sp) = Ok (deferred, r)"
    and "distribute p a m (dormant d sp) = Ok (applied, r')"
  shows "allocated r = allocated r'
    \<and> (\<forall>x y. sync_demands x y (set_dormant d deferred sp) = sync_demands x y sp)
    \<and> (\<forall>v w. total_outstanding_claim_at (dormant d sp) p = Ok v \<and> total_outstanding_claim_at applied p = Ok w
         \<longrightarrow> v = w + allocated r')"
proof (intro conjI allI impI)
  note kept = lazy_keeps_claims [OF assms(1-3)]
  then have claims: "total_outstanding_claim_at deferred x = total_outstanding_claim_at (dormant d sp) x" for x
    by (simp add: total_outstanding_claim_at_def activated_buckets_def)
  show "sync_demands x y (set_dormant d deferred sp) = sync_demands x y sp" for x y
    using claims by (cases d) (simp_all add: sync_demands_def set_dormant_def dormant_def)
  fix v w
  assume "total_outstanding_claim_at (dormant d sp) p = Ok v \<and> total_outstanding_claim_at applied p = Ok w"
  then show "v = w + allocated r'" using eager_lowers_claims [OF assms(1,2,4)] by blast
next
  show "allocated r = allocated r'" using assms(3,4) same_receipt [OF assms(1)] by blast
qed

theorem lazy_sync_overdraws_witness:
  "(\<exists>deferred r. distribute_lazy 990 100000000 4 (dormant Long demo_wiped) = Ok (deferred, r)
      \<and> allocated r = 100000000
      \<and> sync_demands 945 990 (set_dormant Long deferred demo_wiped) = sync_demands 945 990 demo_wiped)
   \<and> (\<exists>sp. sync_path (demo_market Eager) [env_at 990 3, env_at 945 4, env_at 990 5] demo_wiped = Inr sp
      \<and> long_dust sp = 0 \<and> short_pool_equity sp = 1000000000)
   \<and> (\<exists>sp. sync_path (demo_market Lazy) [env_at 990 3, env_at 945 4, env_at 990 5] demo_wiped = Inr sp
      \<and> long_dust sp = 50000000 \<and> short_pool_equity sp = 950000000)"
proof (intro conjI)
  have "\<exists>deferred r. distribute_lazy 990 100000000 4 (dormant Long demo_wiped) = Inr (deferred, r)
      \<and> allocated r = 100000000" by (simp add: evals demo)
  moreover have "\<exists>applied r. distribute 990 100000000 4 (dormant Long demo_wiped) = Inr (applied, r)"
    by (simp add: evals demo)
  moreover have "store_wf (dormant Long demo_wiped)"
    using sides_ok_store [OF sub_pool_wf_sides [OF demo_wiped_wf]] .
  moreover have "all_applied (dormant Long demo_wiped)"
    by (simp add: all_applied_def evals demo)
  ultimately show "\<exists>deferred r. distribute_lazy 990 100000000 4 (dormant Long demo_wiped) = Ok (deferred, r)
      \<and> allocated r = 100000000
      \<and> sync_demands 945 990 (set_dormant Long deferred demo_wiped) = sync_demands 945 990 demo_wiped"
    using lazy_sync_overdraws by metis
  show "\<exists>sp. sync_path (demo_market Eager) [env_at 990 3, env_at 945 4, env_at 990 5] demo_wiped = Inr sp
      \<and> long_dust sp = 0 \<and> short_pool_equity sp = 1000000000" by (simp add: sync_path_def evals demo)
  show "\<exists>sp. sync_path (demo_market Lazy) [env_at 990 3, env_at 945 4, env_at 990 5] demo_wiped = Inr sp
      \<and> long_dust sp = 50000000 \<and> short_pool_equity sp = 950000000" by (simp add: sync_path_def evals demo)
qed

end
