(* ===== verification/Indexer.thy ===== *)
theory Indexer
  imports Clearing_Types Ordered_Map "HOL-Library.Product_Lexorder"
begin

text \<open>
  The off-chain indexer of \<open>crates/indexer/src/lib.rs\<close>: replaying the engine's events into a
  per-position view, the mirror of the dormant buckets, and the queries over them. A method
  that mutates the indexer returns the state it leaves together with its result, because a
  failed replay keeps what it wrote before the failure. Hash maps are ordered maps: Rust
  leaves their iteration order open, and the order only decides which of several errors a
  failing loop reports.
\<close>

section \<open>Errors and state\<close>

datatype indexer_error =
    IxMathOverflow | IxDivByZero | IxSignOverflow
  | UnknownPosition u64
  | StateMismatch string
  | BucketMismatch string
  | MissingRotateRecord u64
  | WithdrawableMismatch u128 u128

type_synonym 'a indexing = "(indexer_error, 'a) result"

definition indexer_of_math :: "math_error \<Rightarrow> indexer_error" where
  "indexer_of_math e = (case e of Overflow \<Rightarrow> IxMathOverflow | math_error.DivByZero \<Rightarrow> IxDivByZero
                        | math_error.SignOverflow \<Rightarrow> IxSignOverflow)"

abbreviation add_x :: "u128 \<Rightarrow> u128 \<Rightarrow> u128 indexing" where
  "add_x a b \<equiv> map_err indexer_of_math (checked_add_m a b)"

abbreviation sub_x :: "u128 \<Rightarrow> u128 \<Rightarrow> u128 indexing" where
  "sub_x a b \<equiv> map_err indexer_of_math (checked_sub_m a b)"

abbreviation mdf_x :: "u128 \<Rightarrow> u128 \<Rightarrow> u128 \<Rightarrow> u128 indexing" where
  "mdf_x a b d \<equiv> map_err indexer_of_math (mul_div_floor a b d)"

record position_view =
  pv_position_id :: u64
  pv_sub_pool_id :: u32
  pv_direction :: direction
  pv_principal :: u128
  pv_notional :: u128
  pv_active_shares :: u128
  pv_recovery_shares :: u128
  pv_recovery_bucket_tick :: "i64 option"
  pv_active_generation :: u64
  pv_locked_loss :: u128
  pv_realized_profit :: u128
  pv_closed :: bool

text \<open>\<open>saturating_add\<close> stops at the largest 128-bit value.\<close>

definition sat_add :: "u128 \<Rightarrow> u128 \<Rightarrow> u128" where
  "sat_add a b = min (a + b) (2 ^ 128 - 1)"

definition sat_inc :: "nat \<Rightarrow> nat \<Rightarrow> nat" where
  "sat_inc w n = min (n + 1) (2 ^ w - 1)"

definition equity :: "position_view \<Rightarrow> u128" where
  "equity v = sat_add (pv_principal v - pv_locked_loss v) (pv_realized_profit v)"

definition remaining_margin :: "position_view \<Rightarrow> u128" where
  "remaining_margin v = pv_principal v - pv_locked_loss v"

record bucket_view =
  bv_direction :: direction
  bv_anchor_price :: u64
  bv_total_recovery_shares :: u128
  bv_total_recovery_notional :: u128
  bv_accrued_value :: u128

record bucket_snapshot =
  bs_sub_pool_id :: u32
  bs_direction :: direction
  bs_bucket_tick :: i64
  bs_anchor_price :: u64
  bs_total_recovery_shares :: u128
  bs_total_recovery_notional :: u128
  bs_accrued_value :: u128

record direction_stats =
  active_position_count :: u64
  active_principal :: u128
  stats_active_notional :: u128
  active_realized_profit :: u128
  active_locked_loss :: u128
  dormant_position_count :: u64
  dormant_recovery_shares :: u128
  dormant_total_notional :: u128
  dormant_accrued_value :: u128
  dormant_bucket_count :: u32

record sub_pool_stats =
  stats_sub_pool_id :: u32
  stats_long :: direction_stats
  stats_short :: direction_stats
  stats_long_generation :: u64
  stats_short_generation :: u64

definition no_stats :: direction_stats where
  "no_stats = \<lparr>active_position_count = 0, active_principal = 0, stats_active_notional = 0,
     active_realized_profit = 0, active_locked_loss = 0, dormant_position_count = 0,
     dormant_recovery_shares = 0, dormant_total_notional = 0, dormant_accrued_value = 0,
     dormant_bucket_count = 0\<rparr>"

definition intrinsic_at :: "bucket_view \<Rightarrow> u64 \<Rightarrow> u128 indexing" where
  "intrinsic_at b p_now =
     (if bv_anchor_price b = 0 \<or> bv_total_recovery_notional b = 0 then Ok 0
      else case bv_direction b of
        Long \<Rightarrow>
          if p_now \<le> bv_anchor_price b then Ok 0
          else mdf_x (bv_total_recovery_notional b) (p_now - bv_anchor_price b) (bv_anchor_price b)
      | Short \<Rightarrow>
          if p_now \<ge> bv_anchor_price b then Ok 0
          else mdf_x (bv_total_recovery_notional b) (bv_anchor_price b - p_now) (bv_anchor_price b))"

definition outstanding_at :: "bucket_view \<Rightarrow> u64 \<Rightarrow> u128 indexing" where
  "outstanding_at b p_now =
     and_then (intrinsic_at b p_now) (\<lambda>intrinsic. Ok (intrinsic - bv_accrued_value b))"

record sub_pool_view =
  sv_long_generation :: u64
  sv_short_generation :: u64
  sv_long_rotate_log :: "(u64 \<times> i64) list"
  sv_short_rotate_log :: "(u64 \<times> i64) list"

definition default_view :: sub_pool_view where
  "default_view = \<lparr>sv_long_generation = 0, sv_short_generation = 0, sv_long_rotate_log = [],
     sv_short_rotate_log = []\<rparr>"

type_synonym bucket_key = "u32 \<times> direction \<times> i64"

record indexer_state =
  views :: "(u64, position_view) btree"
  bucket_views :: "(bucket_key, bucket_view) btree"
  sub_pool_views :: "(u32, sub_pool_view) btree"

definition new_indexer :: indexer_state where
  "new_indexer = \<lparr>views = bt_empty, bucket_views = bt_empty, sub_pool_views = bt_empty\<rparr>"

section \<open>Queries\<close>

definition view_generation :: "direction \<Rightarrow> sub_pool_view \<Rightarrow> u64" where
  "view_generation d sv = (case d of Long \<Rightarrow> sv_long_generation sv | Short \<Rightarrow> sv_short_generation sv)"

definition position_count_ix :: "indexer_state \<Rightarrow> nat" where
  "position_count_ix ix = length (views ix)"

definition view_of :: "indexer_state \<Rightarrow> u64 \<Rightarrow> position_view option" where
  "view_of ix k = bt_get (views ix) k"

text \<open>What one open position adds to the statistics of its side.\<close>

definition count_position :: "u64 \<Rightarrow> position_view \<Rightarrow> direction_stats \<Rightarrow> direction_stats" where
  "count_position current v s =
     (let s1 = (if pv_active_shares v > 0 \<and> pv_active_generation v = current then
                  s\<lparr>active_position_count := sat_inc 64 (active_position_count s),
                    active_principal := sat_add (active_principal s) (pv_principal v),
                    stats_active_notional := sat_add (stats_active_notional s) (pv_notional v),
                    active_realized_profit := sat_add (active_realized_profit s) (pv_realized_profit v),
                    active_locked_loss := sat_add (active_locked_loss s) (pv_locked_loss v)\<rparr>
                else s)
      in if pv_recovery_shares v > 0 then
           s1\<lparr>dormant_position_count := sat_inc 64 (dormant_position_count s1),
              dormant_recovery_shares := sat_add (dormant_recovery_shares s1) (pv_recovery_shares v)\<rparr>
         else s1)"

definition count_bucket :: "bucket_view \<Rightarrow> direction_stats \<Rightarrow> direction_stats" where
  "count_bucket b s =
     s\<lparr>dormant_total_notional := sat_add (dormant_total_notional s) (bv_total_recovery_notional b),
       dormant_accrued_value := sat_add (dormant_accrued_value s) (bv_accrued_value b),
       dormant_bucket_count := sat_inc 32 (dormant_bucket_count s)\<rparr>"

definition side_stats :: "indexer_state \<Rightarrow> u32 \<Rightarrow> direction \<Rightarrow> sub_pool_view \<Rightarrow> direction_stats" where
  "side_stats ix i d sv =
     fold count_bucket (map snd (filter (\<lambda>((j, e, t), b). j = i \<and> e = d) (bucket_views ix)))
       (fold (count_position (view_generation d sv))
         (filter (\<lambda>v. pv_sub_pool_id v = i \<and> \<not> pv_closed v \<and> pv_direction v = d)
           (map snd (views ix))) no_stats)"

definition sub_pool_stats_of :: "indexer_state \<Rightarrow> u32 \<Rightarrow> sub_pool_stats option" where
  "sub_pool_stats_of ix i =
     (case bt_get (sub_pool_views ix) i of
        None \<Rightarrow> None
      | Some sv \<Rightarrow> Some \<lparr>stats_sub_pool_id = i, stats_long = side_stats ix i Long sv,
          stats_short = side_stats ix i Short sv,
          stats_long_generation = sv_long_generation sv,
          stats_short_generation = sv_short_generation sv\<rparr>)"

definition snapshot_of :: "bucket_key \<times> bucket_view \<Rightarrow> bucket_snapshot" where
  "snapshot_of kb = (case kb of ((i, d, t), b) \<Rightarrow>
     \<lparr>bs_sub_pool_id = i, bs_direction = d, bs_bucket_tick = t, bs_anchor_price = bv_anchor_price b,
      bs_total_recovery_shares = bv_total_recovery_shares b,
      bs_total_recovery_notional = bv_total_recovery_notional b,
      bs_accrued_value = bv_accrued_value b\<rparr>)"

definition dormant_inventory :: "indexer_state \<Rightarrow> u32 \<Rightarrow> bucket_snapshot list option" where
  "dormant_inventory ix i =
     (if bt_get (sub_pool_views ix) i = None then None
      else Some (sort_key (\<lambda>s. (bs_direction s = Short, bs_bucket_tick s))
             (map snapshot_of (filter (\<lambda>((j, d, t), b). j = i) (bucket_views ix)))))"

definition view_activated :: "direction \<Rightarrow> u64 \<Rightarrow> bucket_view \<Rightarrow> bool" where
  "view_activated d p b =
     (case d of Long \<Rightarrow> p > bv_anchor_price b | Short \<Rightarrow> p < bv_anchor_price b)"

definition projected_recovery_outstanding ::
  "indexer_state \<Rightarrow> u32 \<Rightarrow> direction \<Rightarrow> u64 \<Rightarrow> u128 indexing" where
  "projected_recovery_outstanding ix i d p_now =
     fold_res (\<lambda>((j, e, t), b) total.
       if j \<noteq> i \<or> e \<noteq> d then Ok total
       else if \<not> view_activated d p_now b then Ok total
       else and_then (outstanding_at b p_now) (\<lambda>q. add_x total q))
     (bucket_views ix) 0"

section \<open>Replay\<close>

type_synonym replay = "indexer_state \<times> unit indexing"

text \<open>Continue with the state of a step unless it failed.\<close>

definition and_replay :: "'s \<times> unit indexing \<Rightarrow> ('s \<Rightarrow> 's \<times> unit indexing) \<Rightarrow> 's \<times> unit indexing" where
  "and_replay sr k = (case sr of (s, Inl f) \<Rightarrow> (s, Inl f) | (s, Inr _) \<Rightarrow> k s)"

text \<open>A computation without effect on the state, whose failure ends the step.\<close>

definition with_value :: "'a indexing \<Rightarrow> 's \<Rightarrow> ('a \<Rightarrow> 's \<times> unit indexing) \<Rightarrow> 's \<times> unit indexing" where
  "with_value m s k = (case m of Inl f \<Rightarrow> (s, Inl f) | Inr x \<Rightarrow> k x)"

text \<open>The loop over \<open>values_mut\<close>: views before the failing one keep their update.\<close>

fun for_views ::
  "(position_view \<Rightarrow> position_view \<times> unit indexing) \<Rightarrow> (u64, position_view) btree
   \<Rightarrow> (u64, position_view) btree \<times> unit indexing" where
  "for_views f [] = ([], Ok ())"
| "for_views f ((k, v) # m) =
     (case f v of
        (v', Inl e) \<Rightarrow> ((k, v') # m, Inl e)
      | (v', Inr _) \<Rightarrow> (case for_views f m of (m', r) \<Rightarrow> ((k, v') # m', r)))"

definition update_views ::
  "(position_view \<Rightarrow> position_view \<times> unit indexing) \<Rightarrow> indexer_state \<Rightarrow> replay" where
  "update_views f ix = (case for_views f (views ix) of (m, r) \<Rightarrow> (ix\<lparr>views := m\<rparr>, r))"

text \<open>\<open>entry(id).or_default()\<close>.\<close>

definition sub_pool_view_of :: "indexer_state \<Rightarrow> u32 \<Rightarrow> sub_pool_view" where
  "sub_pool_view_of ix i = (case bt_get (sub_pool_views ix) i of None \<Rightarrow> default_view | Some sv \<Rightarrow> sv)"

definition set_sub_pool_view :: "u32 \<Rightarrow> sub_pool_view \<Rightarrow> indexer_state \<Rightarrow> indexer_state" where
  "set_sub_pool_view i sv ix = ix\<lparr>sub_pool_views := bt_put i sv (sub_pool_views ix)\<rparr>"

definition apply_open :: "position_opened_event \<Rightarrow> indexer_state \<Rightarrow> replay" where
  "apply_open ev ix =
     (let v = \<lparr>pv_position_id = po_position_id ev, pv_sub_pool_id = po_sub_pool_id ev,
               pv_direction = po_direction ev, pv_principal = po_principal ev,
               pv_notional = po_notional ev, pv_active_shares = po_shares_minted ev,
               pv_recovery_shares = 0, pv_recovery_bucket_tick = None,
               pv_active_generation = po_active_generation ev, pv_locked_loss = 0,
               pv_realized_profit = 0, pv_closed = False\<rparr>;
          ix1 = ix\<lparr>views := bt_put (po_position_id ev) v (views ix)\<rparr>;
          sv = sub_pool_view_of ix1 (po_sub_pool_id ev);
          sv' = (case po_direction ev of
                   Long \<Rightarrow> if sv_long_generation sv < po_active_generation ev
                           then sv\<lparr>sv_long_generation := po_active_generation ev\<rparr> else sv
                 | Short \<Rightarrow> if sv_short_generation sv < po_active_generation ev
                            then sv\<lparr>sv_short_generation := po_active_generation ev\<rparr> else sv)
      in (set_sub_pool_view (po_sub_pool_id ev) sv' ix1, Ok ()))"

text \<open>A view the allocation loops skip.\<close>

definition skips_active :: "u32 \<Rightarrow> direction \<Rightarrow> u64 \<Rightarrow> position_view \<Rightarrow> bool" where
  "skips_active i d current v \<longleftrightarrow> pv_closed v \<or> pv_sub_pool_id v \<noteq> i \<or> pv_direction v \<noteq> d
     \<or> pv_active_shares v = 0 \<or> pv_active_generation v \<noteq> current"

definition credit_profit ::
  "u32 \<Rightarrow> direction \<Rightarrow> u64 \<Rightarrow> u128 \<Rightarrow> u128 \<Rightarrow> position_view \<Rightarrow> position_view \<times> unit indexing" where
  "credit_profit i d current inflow shares_before v =
     (if skips_active i d current v then (v, Ok ())
      else
        with_value (mdf_x inflow (pv_active_shares v) shares_before) v (\<lambda>share.
        with_value (add_x (pv_realized_profit v) share) v (\<lambda>profit.
        (v\<lparr>pv_realized_profit := profit\<rparr>, Ok ()))))"

definition distribute_active_profit ::
  "u32 \<Rightarrow> direction \<Rightarrow> u128 \<Rightarrow> u128 \<Rightarrow> indexer_state \<Rightarrow> replay" where
  "distribute_active_profit i d inflow shares_before ix =
     (if shares_before = 0 then (ix, Err (StateMismatch ''pool sync inflow with zero active shares before''))
      else
        let sv = sub_pool_view_of ix i; ix1 = set_sub_pool_view i sv ix in
        update_views (credit_profit i d (view_generation d sv) inflow shares_before) ix1)"

text \<open>The recovery rule of a loss: realised profit is consumed first, the rest locks margin.\<close>

definition charge_loss ::
  "u32 \<Rightarrow> direction \<Rightarrow> u64 \<Rightarrow> u128 \<Rightarrow> u128 \<Rightarrow> position_view \<Rightarrow> position_view \<times> unit indexing" where
  "charge_loss i d current outflow shares_before v =
     (if skips_active i d current v then (v, Ok ())
      else
        with_value (mdf_x outflow (pv_active_shares v) shares_before) v (\<lambda>share.
        let credit_used = min (pv_realized_profit v) share in
        with_value (sub_x (pv_realized_profit v) credit_used) v (\<lambda>profit.
        let v1 = v\<lparr>pv_realized_profit := profit\<rparr> in
        with_value (sub_x share credit_used) v1 (\<lambda>lock_inc.
        let actual_lock = min lock_inc (remaining_margin v1) in
        with_value (add_x (pv_locked_loss v1) actual_lock) v1 (\<lambda>locked.
        (v1\<lparr>pv_locked_loss := locked\<rparr>, Ok ()))))))"

definition distribute_active_loss ::
  "u32 \<Rightarrow> direction \<Rightarrow> u128 \<Rightarrow> u128 \<Rightarrow> indexer_state \<Rightarrow> replay" where
  "distribute_active_loss i d outflow shares_before ix =
     (if shares_before = 0 then (ix, Err (StateMismatch ''pool sync outflow with zero active shares before''))
      else
        let sv = sub_pool_view_of ix i; ix1 = set_sub_pool_view i sv ix in
        update_views (charge_loss i d (view_generation d sv) outflow shares_before) ix1)"

text \<open>The outstanding claims of the activated buckets of one side, and their total.\<close>

definition collect_outstanding ::
  "u32 \<Rightarrow> direction \<Rightarrow> u64 \<Rightarrow> bucket_key \<times> bucket_view \<Rightarrow> (bucket_key \<times> u128) list \<times> u128
   \<Rightarrow> ((bucket_key \<times> u128) list \<times> u128) indexing" where
  "collect_outstanding i d p_now kb s = (case kb of ((j, e, t), b) \<Rightarrow> case s of (found, so_far) \<Rightarrow>
     if j \<noteq> i \<or> e \<noteq> d then Ok (found, so_far)
     else if \<not> view_activated d p_now b then Ok (found, so_far)
     else
       and_then (outstanding_at b p_now) (\<lambda>outstanding.
       if outstanding = 0 then Ok (found, so_far)
       else
         and_then (add_x so_far outstanding) (\<lambda>so_far'.
         Ok (found @ [((j, e, t), outstanding)], so_far'))))"

definition credit_recovery ::
  "bucket_key \<Rightarrow> u128 \<Rightarrow> u128 \<Rightarrow> position_view \<Rightarrow> position_view \<times> unit indexing" where
  "credit_recovery key bucket_share total_shares v = (case key of (i, d, t) \<Rightarrow>
     if pv_closed v \<or> pv_sub_pool_id v \<noteq> i \<or> pv_direction v \<noteq> d
        \<or> pv_recovery_bucket_tick v \<noteq> Some t \<or> pv_recovery_shares v = 0 then (v, Ok ())
     else
       with_value (mdf_x bucket_share (pv_recovery_shares v) total_shares) v (\<lambda>share.
       with_value (add_x (pv_realized_profit v) share) v (\<lambda>profit.
       (v\<lparr>pv_realized_profit := profit\<rparr>, Ok ()))))"

definition pay_bucket ::
  "u128 \<Rightarrow> u128 \<Rightarrow> bucket_key \<times> u128 \<Rightarrow> indexer_state \<Rightarrow> replay" where
  "pay_bucket to_recovery total_outstanding ko ix = (let (key, outstanding) = ko in
     with_value (mdf_x to_recovery outstanding total_outstanding) ix (\<lambda>q.
     let bucket_share = min q outstanding in
     if bucket_share = 0 then (ix, Ok ())
     else
       with_value (ok_or (bt_get (bucket_views ix) key) (BucketMismatch ''bucket vanished'')) ix
         (\<lambda>b.
       if bv_total_recovery_shares b = 0 then (ix, Ok ())
       else
         and_replay (update_views (credit_recovery key bucket_share (bv_total_recovery_shares b)) ix)
           (\<lambda>ix1.
         with_value (ok_or (bt_get (bucket_views ix1) key) (BucketMismatch ''bucket vanished'')) ix1
           (\<lambda>b1.
         with_value (add_x (bv_accrued_value b1) bucket_share) ix1 (\<lambda>acc.
         (ix1\<lparr>bucket_views := bt_put key (b1\<lparr>bv_accrued_value := acc\<rparr>) (bucket_views ix1)\<rparr>, Ok ())))))))"

fun pay_buckets ::
  "u128 \<Rightarrow> u128 \<Rightarrow> (bucket_key \<times> u128) list \<Rightarrow> indexer_state \<Rightarrow> replay" where
  "pay_buckets to_recovery total_outstanding [] ix = (ix, Ok ())"
| "pay_buckets to_recovery total_outstanding (ko # kos) ix =
     and_replay (pay_bucket to_recovery total_outstanding ko ix)
       (pay_buckets to_recovery total_outstanding kos)"

definition distribute_recovery_profit ::
  "u32 \<Rightarrow> direction \<Rightarrow> u128 \<Rightarrow> u64 \<Rightarrow> indexer_state \<Rightarrow> replay" where
  "distribute_recovery_profit i d to_recovery p_now ix =
     with_value (fold_res (collect_outstanding i d p_now) (bucket_views ix) ([], 0)) ix
       (\<lambda>(found, total).
     if total = 0 then (ix, Ok ()) else pay_buckets to_recovery total found ix)"


definition outflow_of :: "u128 \<Rightarrow> u128 \<Rightarrow> u128 \<Rightarrow> u128 indexing" where
  "outflow_of to_pool to_recovery to_dust =
     and_then (plus_w 128 to_pool to_recovery) (\<lambda>a. plus_w 128 a to_dust)"

definition credit_side ::
  "pool_sync_event \<Rightarrow> direction \<Rightarrow> u128 \<Rightarrow> u128 \<Rightarrow> u128 \<Rightarrow> u128 \<Rightarrow> indexer_state \<Rightarrow> replay" where
  "credit_side ev d to_pool to_recovery to_dust shares_before ix =
     and_replay (if to_pool > 0 then
                   distribute_active_profit (ps_sub_pool_id ev) d to_pool shares_before ix
                 else (ix, Ok ())) (\<lambda>ix1.
     if to_recovery > 0 \<or> to_dust > 0 then
       with_value (add_x to_recovery to_dust) ix1 (\<lambda>recovery.
       distribute_recovery_profit (ps_sub_pool_id ev) d recovery (ps_p_now ev) ix1)
     else (ix1, Ok ()))"

definition apply_pool_sync :: "pool_sync_event \<Rightarrow> indexer_state \<Rightarrow> replay" where
  "apply_pool_sync ev ix =
     and_replay (credit_side ev Long (ps_long_to_pool_inflow ev) (ps_long_to_recovery_inflow ev)
                   (ps_long_residual_to_dust ev) (ps_long_active_shares_before ev) ix) (\<lambda>ix1.
     and_replay (credit_side ev Short (ps_short_to_pool_inflow ev) (ps_short_to_recovery_inflow ev)
                   (ps_short_residual_to_dust ev) (ps_short_active_shares_before ev) ix1) (\<lambda>ix2.
     with_value (outflow_of (ps_long_to_pool_inflow ev) (ps_long_to_recovery_inflow ev)
                   (ps_long_residual_to_dust ev)) ix2 (\<lambda>long_out.
     with_value (outflow_of (ps_short_to_pool_inflow ev) (ps_short_to_recovery_inflow ev)
                   (ps_short_residual_to_dust ev)) ix2 (\<lambda>short_out.
     and_replay (if long_out > 0 then
                   distribute_active_loss (ps_sub_pool_id ev) Short long_out
                     (ps_short_active_shares_before ev) ix2
                 else (ix2, Ok ())) (\<lambda>ix3.
     if short_out > 0 then
       distribute_active_loss (ps_sub_pool_id ev) Long short_out
         (ps_long_active_shares_before ev) ix3
     else (ix3, Ok ()))))))"

text \<open>The views a rotation migrates, with the generation that follows it.\<close>

definition migrate_view ::
  "active_rotated_to_recovery_event \<Rightarrow> u64 \<Rightarrow> position_view \<Rightarrow> position_view \<times> unit indexing" where
  "migrate_view ev current v =
     (if skips_active (ar_sub_pool_id ev) (ar_direction ev) (ar_generation_just_ended ev) v
      then (v, Ok ())
      else
        with_value (add_x (pv_recovery_shares v) (pv_active_shares v)) v (\<lambda>rec.
        (v\<lparr>pv_recovery_shares := rec, pv_recovery_bucket_tick := Some (ar_bucket_tick ev),
           pv_active_shares := 0, pv_active_generation := current\<rparr>, Ok ())))"

definition rotate_view :: "active_rotated_to_recovery_event \<Rightarrow> indexer_state \<Rightarrow> replay" where
  "rotate_view ev ix =
     (let sv = sub_pool_view_of ix (ar_sub_pool_id ev);
          entry = (ar_generation_just_ended ev, ar_bucket_tick ev);
          logged = (case ar_direction ev of
              Long \<Rightarrow> sv\<lparr>sv_long_rotate_log := sv_long_rotate_log sv @ [entry]\<rparr>
            | Short \<Rightarrow> sv\<lparr>sv_short_rotate_log := sv_short_rotate_log sv @ [entry]\<rparr>);
          ix1 = set_sub_pool_view (ar_sub_pool_id ev) logged ix in
      with_value (ok_or (checked_add_w 64 (view_generation (ar_direction ev) logged) 1)
                    (StateMismatch ''active generation overflow'')) ix1 (\<lambda>g.
      (set_sub_pool_view (ar_sub_pool_id ev)
         (case ar_direction ev of Long \<Rightarrow> logged\<lparr>sv_long_generation := g\<rparr>
          | Short \<Rightarrow> logged\<lparr>sv_short_generation := g\<rparr>) ix1, Ok ())))"

definition apply_rotate :: "active_rotated_to_recovery_event \<Rightarrow> indexer_state \<Rightarrow> replay" where
  "apply_rotate ev ix =
     and_replay (rotate_view ev ix) (\<lambda>ix1.
     and_replay (update_views (migrate_view ev
         (view_generation (ar_direction ev) (sub_pool_view_of ix1 (ar_sub_pool_id ev)))) ix1) (\<lambda>ix2.
     let key = (ar_sub_pool_id ev, ar_direction ev, ar_bucket_tick ev);
         b = (case bt_get (bucket_views ix2) key of
                Some b \<Rightarrow> b
              | None \<Rightarrow> \<lparr>bv_direction = ar_direction ev, bv_anchor_price = ar_anchor_price ev,
                  bv_total_recovery_shares = 0, bv_total_recovery_notional = 0, bv_accrued_value = 0\<rparr>);
         ix3 = ix2\<lparr>bucket_views := bt_put key b (bucket_views ix2)\<rparr> in
     with_value (add_x (bv_total_recovery_shares b) (ar_migrated_shares ev)) ix3 (\<lambda>shares.
     let b1 = b\<lparr>bv_total_recovery_shares := shares\<rparr>;
         ix4 = ix3\<lparr>bucket_views := bt_put key b1 (bucket_views ix3)\<rparr> in
     with_value (add_x (bv_total_recovery_notional b1) (ar_migrated_notional ev)) ix4 (\<lambda>notion.
     (ix4\<lparr>bucket_views := bt_put key (b1\<lparr>bv_total_recovery_notional := notion\<rparr>) (bucket_views ix4)\<rparr>,
      Ok ())))))"

definition burn_from_bucket ::
  "bucket_key \<Rightarrow> u128 \<Rightarrow> u128 \<Rightarrow> u128 \<Rightarrow> indexer_state \<Rightarrow> replay" where
  "burn_from_bucket key shares_burned notional_burned value_drained ix =
     with_value (ok_or (bt_get (bucket_views ix) key) (BucketMismatch ''missing bucket'')) ix (\<lambda>b.
     with_value (sub_x (bv_total_recovery_shares b) shares_burned) ix (\<lambda>shares.
     let b' = b\<lparr>bv_total_recovery_shares := shares,
                bv_total_recovery_notional := bv_total_recovery_notional b - notional_burned,
                bv_accrued_value := bv_accrued_value b - value_drained\<rparr> in
     if shares = 0 \<and> bv_accrued_value b' = 0
     then (ix\<lparr>bucket_views := bt_del key (bucket_views ix)\<rparr>, Ok ())
     else (ix\<lparr>bucket_views := bt_put key b' (bucket_views ix)\<rparr>, Ok ())))"

definition set_view :: "u64 \<Rightarrow> position_view \<Rightarrow> indexer_state \<Rightarrow> indexer_state" where
  "set_view k v ix = ix\<lparr>views := bt_put k v (views ix)\<rparr>"

text \<open>The tail of a close and of a forced close.\<close>

definition close_view :: "u64 \<Rightarrow> position_view \<Rightarrow> u128 \<Rightarrow> u128 \<Rightarrow> indexer_state \<Rightarrow> replay" where
  "close_view k v active_burned recovery_burned ix =
     with_value (sub_x (pv_active_shares v) active_burned) ix (\<lambda>active.
     let v1 = v\<lparr>pv_active_shares := active\<rparr>; ix1 = set_view k v1 ix in
     with_value (sub_x (pv_recovery_shares v1) recovery_burned) ix1 (\<lambda>rec.
     (set_view k (v1\<lparr>pv_recovery_shares := rec,
        pv_recovery_bucket_tick := (if rec = 0 then None else pv_recovery_bucket_tick v1),
        pv_closed := True\<rparr>) ix1, Ok ())))"

definition apply_close :: "position_closed_event \<Rightarrow> indexer_state \<Rightarrow> replay" where
  "apply_close ev ix =
     with_value (ok_or (bt_get (views ix) (pc_position_id ev)) (UnknownPosition (pc_position_id ev))) ix
       (\<lambda>v.
     if pv_closed v then (ix, Err (StateMismatch ''close on closed position''))
     else
       and_replay (if pc_recovery_shares_burned ev > 0 then
           with_value (ok_or (pv_recovery_bucket_tick v)
                         (BucketMismatch ''close recovery without tick'')) ix (\<lambda>tick.
           burn_from_bucket (pc_sub_pool_id ev, pc_direction ev, tick) (pc_recovery_shares_burned ev)
             (pc_recovery_notional_burned ev) (pc_recovery_value ev) ix)
         else (ix, Ok ()))
       (close_view (pc_position_id ev) v (pc_active_shares_burned ev) (pc_recovery_shares_burned ev)))"

definition apply_force_close :: "position_force_closed_event \<Rightarrow> indexer_state \<Rightarrow> replay" where
  "apply_force_close ev ix =
     with_value (ok_or (bt_get (views ix) (pf_position_id ev)) (UnknownPosition (pf_position_id ev))) ix
       (\<lambda>v.
     if pv_closed v then (ix, Err (StateMismatch ''force_close on closed position''))
     else
       and_replay (if pf_recovery_shares_burned ev > 0 then
           with_value (ok_or (pv_recovery_bucket_tick v)
                         (BucketMismatch ''force_close recovery without tick'')) ix (\<lambda>tick.
           burn_from_bucket (pf_sub_pool_id ev, pf_direction ev, tick) (pf_recovery_shares_burned ev)
             (pf_recovery_notional_burned ev) (pf_forfeited_recovery_value ev) ix)
         else (ix, Ok ()))
       (close_view (pf_position_id ev) v (pf_active_shares_burned ev) (pf_recovery_shares_burned ev)))"

definition apply_claim_recovery :: "dormant_recovery_claimed_event \<Rightarrow> indexer_state \<Rightarrow> replay" where
  "apply_claim_recovery ev ix =
     with_value (ok_or (bt_get (views ix) (dc_position_id ev)) (UnknownPosition (dc_position_id ev))) ix
       (\<lambda>v.
     if pv_closed v then (ix, Err (StateMismatch ''claim on closed position''))
     else
       and_replay (burn_from_bucket (dc_sub_pool_id ev, dc_direction ev, dc_bucket_tick ev)
           (dc_recovery_shares_burned ev) (dc_recovery_notional_burned ev) (dc_redeemable ev) ix)
         (\<lambda>ix1.
       with_value (sub_x (pv_recovery_shares v) (dc_recovery_shares_burned ev)) ix1 (\<lambda>rec.
       (set_view (dc_position_id ev) (v\<lparr>pv_recovery_shares := rec,
          pv_recovery_bucket_tick := (if rec = 0 then None else pv_recovery_bucket_tick v),
          pv_realized_profit := pv_realized_profit v - dc_redeemable ev\<rparr>) ix1, Ok ()))))"

definition apply_harvest :: "dust_harvested_event \<Rightarrow> indexer_state \<Rightarrow> replay" where
  "apply_harvest ev ix = (ix, Ok ())"

definition apply_event :: "engine_event \<Rightarrow> indexer_state \<Rightarrow> replay" where
  "apply_event ev ix = (case ev of
       PositionOpened e \<Rightarrow> apply_open e ix
     | PoolSync e \<Rightarrow> apply_pool_sync e ix
     | ActiveRotatedToRecovery e \<Rightarrow> apply_rotate e ix
     | PositionClosed e \<Rightarrow> apply_close e ix
     | PositionForceClosed e \<Rightarrow> apply_force_close e ix
     | DormantRecoveryClaimed e \<Rightarrow> apply_claim_recovery e ix
     | DustHarvested e \<Rightarrow> apply_harvest e ix
     | DormantBucketPendingApplied e \<Rightarrow> (ix, Ok ()))"

fun apply_all :: "engine_event list \<Rightarrow> indexer_state \<Rightarrow> replay" where
  "apply_all [] ix = (ix, Ok ())"
| "apply_all (ev # evs) ix = and_replay (apply_event ev ix) (apply_all evs)"

end
