(* ===== verification/Harness.thy ===== *)
theory Harness
  imports Book Indexer
begin

text \<open>
  The protocol harness of \<open>crates/protocol-harness/src/lib.rs\<close>: sub-pools, positions, the two
  simulated token vaults and the indexer driven together. An operation returns the state it
  leaves and its result. On an error of the engine it restores the snapshot it took, on an
  error of the indexer it keeps everything it did before, as the code does. A panic aborts:
  the state paired with it has no meaning, and it is not a step of the system.
\<close>

section \<open>State\<close>

datatype harness_error =
    SubPoolNotFound u32
  | PositionNotFound u64
  | DuplicatePositionId u64
  | Clearing clearing_error
  | IndexerFailed indexer_error
  | InvariantConservation u128 u128 u128
  | InvariantVault u128 u128 u128 u128 u128 u128
  | IndexerDrift u128 u128 u128 u128
  | HarnessInvariant string

type_synonym 'a harnessed = "(harness_error, 'a) result"

record state_summary =
  sum_total_deposits :: u128
  sum_total_withdrawals :: u128
  sum_vault_balance :: u128
  sum_fee_vault_balance :: u128
  pool_equity_total :: u128
  dormant_accrued_total :: u128
  dormant_pending_total :: u128
  dust_total :: u128
  sub_pool_count :: nat
  hs_position_count :: nat

record open_summary =
  os_position_id :: u64
  os_shares_minted :: u128
  os_open_fee :: u64

record close_summary =
  cs_withdrawable :: u128
  cs_indexer_pre_equity :: u128

record harness =
  h_market :: market_params
  sub_pools :: "(u32, sub_pool) btree"
  positions :: "(u64, position) btree"
  next_position_id :: u64
  vault_balance :: u128
  fee_vault_balance :: u128
  h_indexer :: indexer_state
  total_deposits :: u128
  total_withdrawals :: u128
  fees_collected :: u128
  dust_swept :: u128

definition new_harness :: "market_params \<Rightarrow> harness" where
  "new_harness market = \<lparr>h_market = market, sub_pools = bt_empty, positions = bt_empty,
     next_position_id = 1, vault_balance = 0, fee_vault_balance = 0, h_indexer = new_indexer,
     total_deposits = 0, total_withdrawals = 0, fees_collected = 0, dust_swept = 0\<rparr>"

definition add_sub_pool :: "u32 \<Rightarrow> u64 \<Rightarrow> u64 \<Rightarrow> harness \<Rightarrow> harness" where
  "add_sub_pool i price slot h =
     h\<lparr>sub_pools := bt_put i (new_sub_pool i price slot) (sub_pools h)\<rparr>"

definition summary_step :: "u32 \<times> sub_pool \<Rightarrow> state_summary \<Rightarrow> state_summary harnessed" where
  "summary_step ksp s = (let sp = snd ksp in
     and_then (and_then (plus_w 128 (long_pool_equity sp) (short_pool_equity sp))
                (plus_w 128 (pool_equity_total s))) (\<lambda>pool.
     and_then (and_then (plus_w 128 (accrued_value_total (long_dormant sp))
                          (accrued_value_total (short_dormant sp)))
                (plus_w 128 (dormant_accrued_total s))) (\<lambda>accrued.
     and_then (and_then (plus_w 128 (pending_distribution_total (long_dormant sp))
                          (pending_distribution_total (short_dormant sp)))
                (plus_w 128 (dormant_pending_total s))) (\<lambda>pending.
     and_then (and_then (plus_w 128 (long_dust sp) (short_dust sp))
                (plus_w 128 (dust_total s))) (\<lambda>dusts.
     Ok (s\<lparr>pool_equity_total := pool, dormant_accrued_total := accrued,
           dormant_pending_total := pending, dust_total := dusts\<rparr>))))))"

definition summary :: "harness \<Rightarrow> state_summary harnessed" where
  "summary h = fold_res summary_step (sub_pools h)
     \<lparr>sum_total_deposits = total_deposits h, sum_total_withdrawals = total_withdrawals h,
      sum_vault_balance = vault_balance h, sum_fee_vault_balance = fee_vault_balance h,
      pool_equity_total = 0, dormant_accrued_total = 0, dormant_pending_total = 0, dust_total = 0,
      sub_pool_count = length (sub_pools h), hs_position_count = length (positions h)\<rparr>"

section \<open>Operations\<close>

type_synonym 'a hop = "harness \<Rightarrow> harness \<times> 'a harnessed"

text \<open>The clearing error of a call, with the panic kept a panic.\<close>

definition lift_clearing :: "'a clearing \<Rightarrow> 'a harnessed" where
  "lift_clearing m = map_err Clearing m"

text \<open>The final \<open>indexer.apply_all\<close> of an operation: the indexer keeps what it applied.\<close>

definition feed_indexer :: "engine_event list \<Rightarrow> 'a \<Rightarrow> harness \<Rightarrow> harness \<times> 'a harnessed" where
  "feed_indexer evs x h = (case apply_all evs (h_indexer h) of (ix, r) \<Rightarrow>
     (h\<lparr>h_indexer := ix\<rparr>, and_then (map_err IndexerFailed r) (\<lambda>_. Ok x)))"

text \<open>A value needed by the rest of the operation; without it the state is left as it is.\<close>

definition with_result :: "'b harnessed \<Rightarrow> harness \<Rightarrow> ('b \<Rightarrow> harness \<times> 'a harnessed) \<Rightarrow> harness \<times> 'a harnessed" where
  "with_result m h k = (case m of Inl f \<Rightarrow> (h, Inl f) | Inr x \<Rightarrow> k x)"

definition pre_equity :: "harness \<Rightarrow> u64 \<Rightarrow> u128" where
  "pre_equity h pid = (case view_of (h_indexer h) pid of None \<Rightarrow> 0 | Some v \<Rightarrow> equity v)"

definition put_sub_pool :: "u32 \<Rightarrow> sub_pool \<Rightarrow> harness \<Rightarrow> harness" where
  "put_sub_pool i sp h = h\<lparr>sub_pools := bt_put i sp (sub_pools h)\<rparr>"

definition put_position :: "u64 \<Rightarrow> position \<Rightarrow> harness \<Rightarrow> harness" where
  "put_position pid pos h = h\<lparr>positions := bt_put pid pos (positions h)\<rparr>"

definition open_accounting :: "u64 \<Rightarrow> open_outcome \<Rightarrow> (u128 \<times> u128) harnessed" where
  "open_accounting gross out =
     and_then (ok_or (checked_add_w 128 (oo_principal_into_pool out) (oo_dust out))
                 (HarnessInvariant ''open principal + dust overflow'')) (\<lambda>principal_part.
     and_then (ok_or (checked_add_w 128 principal_part (oo_open_fee out))
                 (HarnessInvariant ''open total overflow'')) (\<lambda>all_parts.
     if all_parts \<noteq> gross then
       Err (HarnessInvariant ''open accounting: principal + dust + open_fee != gross_amount'')
     else Ok (principal_part, oo_open_fee out)))"

definition book_open :: "u64 \<Rightarrow> u128 \<times> u128 \<Rightarrow> harness \<Rightarrow> harness harnessed" where
  "book_open gross parts h = (let (principal_part, fee_part) = parts in
     and_then (plus_w 128 (vault_balance h) principal_part) (\<lambda>vault'.
     and_then (plus_w 128 (fee_vault_balance h) fee_part) (\<lambda>fee_vault'.
     and_then (plus_w 128 (fees_collected h) fee_part) (\<lambda>fees'.
     and_then (plus_w 128 (total_deposits h) gross) (\<lambda>deposits'.
     Ok (h\<lparr>vault_balance := vault', fee_vault_balance := fee_vault', fees_collected := fees',
           total_deposits := deposits'\<rparr>))))))"

definition harness_open ::
  "u32 \<Rightarrow> direction \<Rightarrow> u64 \<Rightarrow> price_envelope \<Rightarrow> open_summary hop" where
  "harness_open i d gross env h =
     with_result (ok_or (bt_get (sub_pools h) i) (SubPoolNotFound i)) h (\<lambda>sp.
     let pid = next_position_id h in
     with_result (plus_w 64 pid 1) h (\<lambda>next_id.
     let h1 = h\<lparr>next_position_id := next_id\<rparr> in
     if bt_get (positions h1) pid \<noteq> None then (h1, Err (DuplicatePositionId pid))
     else
       with_result (lift_clearing (open_position (h_market h1) env d gross pid sp))
         (h1\<lparr>next_position_id := next_id - 1\<rparr>) (\<lambda>(sp', pos, out).
       let h2 = put_position pid (pos\<lparr>pos_sub_pool_id := i\<rparr>) (put_sub_pool i sp' h1) in
       with_result (open_accounting gross out) h2 (\<lambda>parts.
       with_result (book_open gross parts h2) h (\<lambda>h3.
       feed_indexer (oo_events out)
         \<lparr>os_position_id = pid, os_shares_minted = oo_shares_minted out,
          os_open_fee = oo_open_fee out\<rparr> h3)))))"

text \<open>
  Closing takes the position out of the map first and puts it back with the restored or the
  new state, except when its sub-pool is missing.
\<close>

definition take_position ::
  "u64 \<Rightarrow> harness \<Rightarrow> (position \<Rightarrow> sub_pool \<Rightarrow> harness \<Rightarrow> harness \<times> 'a harnessed)
   \<Rightarrow> harness \<times> 'a harnessed" where
  "take_position pid h k =
     with_result (ok_or (bt_get (positions h) pid) (PositionNotFound pid)) h (\<lambda>pos.
     let h1 = h\<lparr>positions := bt_del pid (positions h)\<rparr> in
     with_result (ok_or (bt_get (sub_pools h1) (pos_sub_pool_id pos))
                   (SubPoolNotFound (pos_sub_pool_id pos))) h1 (\<lambda>sp. k pos sp h1))"

text \<open>Tokens leave the vault for the user.\<close>

definition pay_out :: "u128 \<Rightarrow> string \<Rightarrow> harness \<Rightarrow> harness harnessed" where
  "pay_out amount msg h =
     and_then (ok_or (checked_sub_w (vault_balance h) amount) (HarnessInvariant msg)) (\<lambda>left.
     and_then (plus_w 128 (total_withdrawals h) amount) (\<lambda>paid.
     Ok (h\<lparr>vault_balance := left, total_withdrawals := paid\<rparr>)))"

definition harness_close :: "u64 \<Rightarrow> price_envelope \<Rightarrow> close_summary hop" where
  "harness_close pid env h =
     take_position pid h (\<lambda>pos sp h1.
     with_result (lift_clearing (close_position (h_market h1) env sp pos)) (put_position pid pos h1)
       (\<lambda>(sp', pos', out).
     let h2 = put_sub_pool (pos_sub_pool_id pos) sp' h1 in
     with_result (pay_out (co_withdrawable out) ''close drained vault below zero'' h2) h2 (\<lambda>h3.
     feed_indexer (co_events out)
       \<lparr>cs_withdrawable = co_withdrawable out, cs_indexer_pre_equity = pre_equity h pid\<rparr>
       (put_position pid pos' h3))))"

definition harness_force_close :: "u64 \<Rightarrow> price_envelope \<Rightarrow> bool \<Rightarrow> unit hop" where
  "harness_force_close pid env acknowledge_forfeit h =
     take_position pid h (\<lambda>pos sp h1.
     with_result (lift_clearing (force_close_zero_value_position (h_market h1) env
                    acknowledge_forfeit sp pos)) (put_position pid pos h1) (\<lambda>(sp', pos', out).
     feed_indexer (fo_events out) ()
       (put_position pid pos' (put_sub_pool (pos_sub_pool_id pos) sp' h1))))"

definition harness_claim_recovery :: "u64 \<Rightarrow> price_envelope \<Rightarrow> close_summary hop" where
  "harness_claim_recovery pid env h =
     take_position pid h (\<lambda>pos sp h1.
     with_result (lift_clearing (claim_dormant_recovery (h_market h1) env sp pos))
       (put_position pid pos h1) (\<lambda>(sp', pos', out).
     let h2 = put_sub_pool (pos_sub_pool_id pos) sp' h1 in
     with_result (pay_out (cr_redeemable out) ''claim drained vault below zero'' h2) h2 (\<lambda>h3.
     feed_indexer (cr_events out)
       \<lparr>cs_withdrawable = cr_redeemable out, cs_indexer_pre_equity = pre_equity h pid\<rparr>
       (put_position pid pos' h3))))"

definition harness_sync :: "u32 \<Rightarrow> price_envelope \<Rightarrow> unit hop" where
  "harness_sync i env h =
     with_result (ok_or (bt_get (sub_pools h) i) (SubPoolNotFound i)) h (\<lambda>sp.
     with_result (lift_clearing (sync_pool (h_market h) env sp)) h (\<lambda>(sp', out).
     feed_indexer (so_events out) () (put_sub_pool i sp' h)))"

definition harness_pre_sync_bucket ::
  "u32 \<Rightarrow> direction \<Rightarrow> i64 \<Rightarrow> u64 \<Rightarrow> pre_sync_outcome hop" where
  "harness_pre_sync_bucket i d tick slot h =
     with_result (ok_or (bt_get (sub_pools h) i) (SubPoolNotFound i)) h (\<lambda>sp.
     with_result (lift_clearing (pre_sync_dormant_bucket (h_market h) d tick slot sp)) h
       (\<lambda>(sp', out).
     feed_indexer (pr_events out) out (put_sub_pool i sp' h)))"

fun drain_ticks :: "u32 \<Rightarrow> u64 \<Rightarrow> (direction \<times> i64) list \<Rightarrow> u64 \<Rightarrow> u64 hop" where
  "drain_ticks i slot [] acc h = (h, Ok acc)"
| "drain_ticks i slot ((d, tick) # rest) acc h =
     (case harness_pre_sync_bucket i d tick slot h of
        (h1, Inr out) \<Rightarrow>
          drain_ticks i slot rest (min (acc + pr_events_applied out) (2 ^ 64 - 1)) h1
      | (h1, Inl (Failed (Clearing DormantBucketMissing))) \<Rightarrow> drain_ticks i slot rest acc h1
      | (h1, Inl f) \<Rightarrow> (h1, Inl f))"

definition harness_drain_all :: "u32 \<Rightarrow> u64 \<Rightarrow> u64 hop" where
  "harness_drain_all i slot h =
     with_result (ok_or (bt_get (sub_pools h) i) (SubPoolNotFound i)) h (\<lambda>sp.
     drain_ticks i slot (map (\<lambda>t. (Long, t)) (bucket_ticks (long_dormant sp))
       @ map (\<lambda>t. (Short, t)) (bucket_ticks (short_dormant sp))) 0 h)"

definition sweep :: "u128 \<Rightarrow> harness \<Rightarrow> harness harnessed" where
  "sweep amount h =
     and_then (ok_or (checked_sub_w (vault_balance h) amount)
                 (HarnessInvariant ''harvest drained vault below zero'')) (\<lambda>left.
     and_then (plus_w 128 (fee_vault_balance h) amount) (\<lambda>fee_vault'.
     and_then (plus_w 128 (fees_collected h) amount) (\<lambda>fees'.
     and_then (plus_w 128 (dust_swept h) amount) (\<lambda>swept.
     Ok (h\<lparr>vault_balance := left, fee_vault_balance := fee_vault', fees_collected := fees',
           dust_swept := swept\<rparr>)))))"

definition harness_harvest_dust :: "u32 \<Rightarrow> direction \<Rightarrow> u128 hop" where
  "harness_harvest_dust i d h =
     with_result (ok_or (bt_get (sub_pools h) i) (SubPoolNotFound i)) h (\<lambda>sp.
     with_result (lift_clearing (harvest_dust (h_market h) d sp)) h (\<lambda>(sp', out).
     let h1 = put_sub_pool i sp' h in
     with_result (sweep (ho_amount out) h1) h1 (\<lambda>h2.
     feed_indexer (ho_events out) (ho_amount out) h2)))"

section \<open>The harness's own checks\<close>

definition check_conservation :: "state_summary \<Rightarrow> unit harnessed" where
  "check_conservation s =
     and_then (plus_w 128 (sum_vault_balance s) (sum_fee_vault_balance s)) (\<lambda>state.
     and_then (plus_w 128 (sum_total_withdrawals s) state) (\<lambda>out.
     if sum_total_deposits s \<noteq> out then
       Err (InvariantConservation (sum_total_deposits s) (sum_total_withdrawals s) state)
     else Ok ()))"

definition check_vault :: "state_summary \<Rightarrow> unit harnessed" where
  "check_vault s =
     and_then (plus_w 128 (pool_equity_total s) (dormant_accrued_total s)) (\<lambda>a.
     and_then (plus_w 128 a (dormant_pending_total s)) (\<lambda>b.
     and_then (plus_w 128 b (dust_total s)) (\<lambda>expected.
     if sum_vault_balance s \<noteq> expected then
       Err (InvariantVault (sum_vault_balance s) expected (pool_equity_total s)
              (dormant_accrued_total s) (dormant_pending_total s) (dust_total s))
     else Ok ())))"

text \<open>One bucket of the chain against the indexer's inventory: whether it diverged.\<close>

definition bucket_diverged ::
  "dormant_store \<Rightarrow> direction \<Rightarrow> bucket_snapshot list \<Rightarrow> i64 \<times> dormant_bucket \<Rightarrow> bool
   \<Rightarrow> bool harnessed" where
  "bucket_diverged st d inventory kb diverged = (let (tick, b) = kb in
     case find (\<lambda>s. bs_direction s = d \<and> bs_bucket_tick s = tick) inventory of
       None \<Rightarrow> Ok True
     | Some x \<Rightarrow>
         and_then (lift_clearing (pending_for_bucket st tick)) (\<lambda>pending.
         Ok (diverged \<or> bs_total_recovery_shares x \<noteq> total_recovery_shares b
             \<or> bs_total_recovery_notional x \<noteq> total_recovery_notional b
             \<or> bs_accrued_value x \<noteq> sat_add (accrued_value b) pending
             \<or> bs_anchor_price x \<noteq> anchor_price b)))"

definition check_dir :: "dormant_store \<Rightarrow> direction \<Rightarrow> bucket_snapshot list \<Rightarrow> unit harnessed" where
  "check_dir st d inventory =
     (if \<exists>x\<in>set inventory. bs_direction x = d \<and> bs_bucket_tick x \<notin> set (bucket_ticks st) then
        Err (HarnessInvariant ''indexer has bucket that chain removed'')
      else
        and_then (fold_res (bucket_diverged st d inventory) (buckets st) False) (\<lambda>diverged.
        if diverged then Err (HarnessInvariant ''indexer bucket diverged from chain'')
        else Ok ()))"

definition check_mirror :: "indexer_state \<Rightarrow> u32 \<times> sub_pool \<Rightarrow> unit \<Rightarrow> unit harnessed" where
  "check_mirror ix isp u = (let (i, sp) = isp;
       inventory = (case dormant_inventory ix i of None \<Rightarrow> [] | Some xs \<Rightarrow> xs) in
     and_then (check_dir (long_dormant sp) Long inventory) (\<lambda>_.
     check_dir (short_dormant sp) Short inventory))"

definition harness_check_invariants :: "harness \<Rightarrow> unit harnessed" where
  "harness_check_invariants h =
     and_then (summary h) (\<lambda>s.
     and_then (check_conservation s) (\<lambda>_.
     and_then (check_vault s) (\<lambda>_.
     if fee_vault_balance h \<noteq> fees_collected h then
       Err (HarnessInvariant ''fee vault out of sync with fees_collected counter'')
     else fold_res (check_mirror (h_indexer h)) (sub_pools h) ())))"

end
