(* ===== verification/Harness_Facts.thy ===== *)
theory Harness_Facts
  imports Harness
begin

text \<open>
  The harness as a state machine: every operation, whether it succeeds, fails in the engine
  or fails in the indexer, keeps the invariant \<open>harness_ok\<close>. It says that deposits are
  withdrawals plus the two vaults, that the vault is what the sub-pools hold, and that the
  positions account for every share of every sub-pool. The errors that report a broken vault
  are never returned.
\<close>

section \<open>The invariant\<close>

definition pools_ok :: "(u32, sub_pool) btree \<Rightarrow> book \<Rightarrow> bool" where
  "pools_ok pools ps \<longleftrightarrow> bt_wf pools \<and> bt_wf ps
     \<and> (\<forall>i sp. bt_get pools i = Some sp \<longrightarrow> sub_pool_wf sp \<and> book_ok i sp ps)
     \<and> (\<forall>k p. bt_get ps k = Some p \<longrightarrow> bt_get pools (pos_sub_pool_id p) \<noteq> None)"

definition pool_funds :: "(u32, sub_pool) btree \<Rightarrow> nat" where
  "pool_funds pools = (\<Sum>(i, sp)\<leftarrow>pools. vault sp)"

definition accounts_ok :: "harness \<Rightarrow> bool" where
  "accounts_ok h \<longleftrightarrow>
     total_deposits h < 2 ^ 128
     \<and> total_deposits h = total_withdrawals h + vault_balance h + fee_vault_balance h
     \<and> vault_balance h = pool_funds (sub_pools h) \<and> fee_vault_balance h = fees_collected h"

definition harness_ok :: "harness \<Rightarrow> bool" where
  "harness_ok h \<longleftrightarrow> pools_ok (sub_pools h) (positions h) \<and> accounts_ok h
     \<and> (\<forall>k. bt_get (positions h) k \<noteq> None \<longrightarrow> k < next_position_id h)"

lemma pools_okD:
  assumes "pools_ok pools ps"
  shows "bt_wf pools" and "bt_wf ps"
    and "bt_get pools i = Some sp \<Longrightarrow> sub_pool_wf sp"
    and "bt_get pools i = Some sp \<Longrightarrow> book_ok i sp ps"
    and "bt_get ps k = Some p \<Longrightarrow> \<exists>sp. bt_get pools (pos_sub_pool_id p) = Some sp"
  using assms by (auto simp: pools_ok_def)

lemma pools_ok_put:
  assumes "pools_ok pools ps" and "bt_get pools i = Some sp" and "sub_pool_wf sp'" and "book_ok i sp' ps'"
    and "\<And>j s. j \<noteq> i \<Longrightarrow> book_ok j s ps \<Longrightarrow> book_ok j s ps'"
    and "\<And>k p. bt_get ps' k = Some p \<Longrightarrow> \<exists>s. bt_get pools (pos_sub_pool_id p) = Some s"
  shows "pools_ok (bt_put i sp' pools) ps'"
proof -
  note p = pools_okD [OF assms(1)]
  have get: "bt_get (bt_put i sp' pools) = (bt_get pools)(i \<mapsto> sp')" using p(1) by (rule bt_get_put)
  have "sub_pool_wf s \<and> book_ok j s ps'" if "bt_get (bt_put i sp' pools) j = Some s" for j s
    using that assms(3-5) p(3,4) by (cases "j = i") (simp_all add: get)
  moreover have "bt_get (bt_put i sp' pools) (pos_sub_pool_id q) \<noteq> None" if "bt_get ps' k = Some q" for k q
    using assms(6) [OF that] by (auto simp: get)
  ultimately show ?thesis
    using p(1) book_okD(1) [OF assms(4)] by (simp add: pools_ok_def bt_wf_put)
qed

lemma pool_funds_put:
  assumes "bt_wf pools" and "bt_get pools i = Some sp"
  shows "pool_funds (bt_put i sp' pools) + vault sp = pool_funds pools + vault sp'"
  using bt.total_put_old [OF assms, of "\<lambda>i. vault" sp'] by (simp add: pool_funds_def)

lemma vault_le_funds:
  assumes "bt_wf pools" and "bt_get pools i = Some sp"
  shows "vault sp \<le> pool_funds pools"
  using bt.entry_le_total [OF assms, of "\<lambda>i. vault"] by (simp add: pool_funds_def)

text \<open>A position of another sub-pool does not matter to a book.\<close>

lemma book_other:
  assumes "book_ok j s ps" and "bt_get ps k = Some p" and "pos_sub_pool_id p \<noteq> j"
    and "pos_sub_pool_id p' \<noteq> j"
  shows "book_ok j s (bt_put k p' ps)"
  by (rule book_put [OF assms(1,2)])
    (use assms(3,4) in \<open>simp_all add: position_ok_def active_in_def notional_in_def recovery_in_def on_side_def\<close>)

lemma book_other_new:
  assumes "book_ok j s ps" and "bt_get ps k = None" and "pos_sub_pool_id p \<noteq> j"
  shows "book_ok j s (bt_put k p ps)"
  by (rule book_add [OF assms(1,2)])
    (use assms(3) in \<open>simp_all add: position_ok_def active_in_def notional_in_def recovery_in_def on_side_def\<close>)

lemma pools_ok_replace:
  assumes "pools_ok pools ps" and "bt_get pools i = Some sp" and "sub_pool_wf sp'"
    and "bt_get ps k = Some p" and "pos_sub_pool_id p = i" and "pos_sub_pool_id p' = i"
    and "book_ok i sp' (bt_put k p' ps)"
  shows "pools_ok (bt_put i sp' pools) (bt_put k p' ps)"
proof (rule pools_ok_put [OF assms(1-3,7)])
  show "book_ok j s (bt_put k p' ps)" if "j \<noteq> i" "book_ok j s ps" for j s
    using that assms(4-6) by (intro book_other) auto
  show "\<exists>s. bt_get pools (pos_sub_pool_id q) = Some s" if "bt_get (bt_put k p' ps) j = Some q" for j q
    using that assms(2,6) pools_okD(5) [OF assms(1)] bt_get_put [OF pools_okD(2) [OF assms(1)]]
    by (auto split: if_splits)
qed

lemma pools_ok_same_book:
  assumes "pools_ok pools ps" and "bt_get pools i = Some sp" and "sub_pool_wf sp'" and "book_ok i sp' ps"
  shows "pools_ok (bt_put i sp' pools) ps"
  using assms(1-4) by (rule pools_ok_put) (use pools_okD(5) [OF assms(1)] in auto)

section \<open>Feeding the indexer\<close>

lemma feed_indexer_ok:
  "harness_ok (fst (feed_indexer evs x h)) = harness_ok h"
  by (auto simp: feed_indexer_def harness_ok_def accounts_ok_def split: prod.splits)

lemma feed_indexer_result:
  "snd (feed_indexer evs x h) = Inr y \<Longrightarrow> y = x"
  "snd (feed_indexer evs x h) = Inl (Failed e) \<Longrightarrow> \<exists>ie. e = IndexerFailed ie"
proof -
  obtain ix r where ar: "apply_all evs (h_indexer h) = (ix, r)" by fastforce
  then have s: "snd (feed_indexer evs x h) = and_then (map_err IndexerFailed r) (\<lambda>_. Ok x)"
    by (simp add: feed_indexer_def)
  then show "snd (feed_indexer evs x h) = Inr y \<Longrightarrow> y = x" by auto
  assume "snd (feed_indexer evs x h) = Inl (Failed e)"
  then show "\<exists>ie. e = IndexerFailed ie"
    unfolding s by (cases r) (auto simp: map_err_def split: failure.splits)
qed

text \<open>What a completed call means: it did not abort.\<close>

definition completed :: "'a harnessed \<Rightarrow> bool" where
  "completed r \<longleftrightarrow> (\<forall>s. r \<noteq> Inl (Panicked s))"

lemma completed_simps [simp]:
  "completed (Inr x)" "completed (Inl (Failed e))" "\<not> completed (Inl (Panicked s))"
  by (simp_all add: completed_def)

lemma with_result_cases:
  assumes "with_result m h k = (h', r)" and "completed r"
  obtains (failed) e where "m = Inl (Failed e)" "h' = h" "r = Inl (Failed e)"
  | (returned) x where "m = Inr x" "k x = (h', r)"
proof (cases m)
  case (Inl f)
  then show ?thesis using assms that(1) by (cases f) (auto simp: with_result_def)
next
  case (Inr x)
  then show ?thesis using assms that(2) by (simp add: with_result_def)
qed

lemma lift_clearing_eq_Ok [simp]: "lift_clearing m = Inr x \<longleftrightarrow> m = Inr x"
  by (simp add: lift_clearing_def)

lemma lift_clearing_Failed: "lift_clearing m = Inl (Failed e) \<longleftrightarrow> (\<exists>c. e = Clearing c \<and> m = Inl (Failed c))"
  by (auto simp: lift_clearing_def map_err_def split: sum.splits failure.splits)

lemma ok_or_eq_Failed: "ok_or q x = Inl (Failed e) \<longleftrightarrow> q = None \<and> e = x"
  by (cases q) auto

section \<open>Adding a sub-pool\<close>

lemma new_book:
  assumes "bt_wf ps" and "\<And>k p. bt_get ps k = Some p \<Longrightarrow> pos_sub_pool_id p \<noteq> i"
  shows "book_ok i (new_sub_pool i price slot) ps"
proof -
  have away: "pos_sub_pool_id p \<noteq> i" if "(k, p) \<in> set ps" for k p
    using that assms bt.in_entries_iff [OF assms(1)] by auto
  have "total_of f ps = 0" if "\<And>p. pos_sub_pool_id p \<noteq> i \<Longrightarrow> f p = 0" for f
    using that away by (intro total_of_zero) blast
  then have "book_side d i (new_sub_pool i price slot) ps" for d
    by (cases d)
      (simp_all add: book_side_def log_ok_def new_sub_pool_def rotate_log_def active_generation_def
        active_shares_def active_notional_def dormant_def active_in_def notional_in_def
        recovery_in_def on_side_def)
  then show ?thesis using assms(1) away by (auto simp: book_ok_def position_ok_def)
qed

lemma add_sub_pool_ok:
  assumes "harness_ok h" and "bt_get (sub_pools h) i = None"
  shows "harness_ok (add_sub_pool i price slot h)"
proof -
  let ?n = "new_sub_pool i price slot"
  have p: "pools_ok (sub_pools h) (positions h)" using assms(1) by (simp add: harness_ok_def)
  note pd = pools_okD [OF p]
  have get: "bt_get (bt_put i ?n (sub_pools h)) = (bt_get (sub_pools h))(i \<mapsto> ?n)"
    using pd(1) by (rule bt_get_put)
  have "pos_sub_pool_id q \<noteq> i" if "bt_get (positions h) k = Some q" for k q
    using pd(5) [OF that] assms(2) by auto
  with pd(2) have "book_ok i ?n (positions h)" by (rule new_book)
  then have "pools_ok (bt_put i ?n (sub_pools h)) (positions h)"
    using p new_sub_pool_wf by (auto simp: pools_ok_def get bt_wf_put)
  moreover have "pool_funds (bt_put i ?n (sub_pools h)) = pool_funds (sub_pools h)"
    using bt.total_put_new [OF pd(1) assms(2), of "\<lambda>i. vault" ?n] new_sub_pool_vault
    by (simp add: pool_funds_def)
  ultimately show ?thesis using assms(1) by (simp add: harness_ok_def accounts_ok_def add_sub_pool_def)
qed

lemma new_harness_ok: "harness_ok (new_harness market)"
  by (simp add: harness_ok_def pools_ok_def accounts_ok_def new_harness_def bt_empty_def pool_funds_def)


section \<open>Opening\<close>

definition sound_result :: "'a harnessed \<Rightarrow> bool" where
  "sound_result r \<longleftrightarrow> (\<forall>s. r \<noteq> Inl (Failed (HarnessInvariant s)))"

lemma sound_result_simps [simp]:
  "sound_result (Inr x)" "sound_result (Inl (Failed e)) \<longleftrightarrow> (\<forall>s. e \<noteq> HarnessInvariant s)"
  by (auto simp: sound_result_def)

lemma feed_indexer_step:
  assumes "feed_indexer evs x h = (h', r)" and "harness_ok h"
  shows "harness_ok h'" and "completed r \<Longrightarrow> sound_result r"
proof -
  show "harness_ok h'" using feed_indexer_ok [of evs x h] assms by simp
  show "sound_result r" if "completed r"
  proof (cases r)
    case (Inl f)
    then show ?thesis using that feed_indexer_result(2) [of evs x h] assms(1) by (cases f) auto
  qed simp
qed

lemma feed_indexer_not_clearing:
  assumes "feed_indexer evs x h = (h', r)"
  shows "r \<noteq> Inl (Failed (Clearing e))"
  using feed_indexer_result(2) [of evs x h] assms by auto

lemma open_accounting_Ok:
  assumes "oo_principal_into_pool out + oo_dust out + oo_open_fee out = gross" and "gross < 2 ^ 128"
  shows "open_accounting gross out
    = Inr (oo_principal_into_pool out + oo_dust out, oo_open_fee out)"
  using assms by (simp add: open_accounting_def checked_add_w_def)

lemma open_amounts:
  assumes "sub_pool_wf sp" and "open_position market env d gross pid sp = Inr (sp', pos, out)"
    and "env_p_now env < 2 ^ 64"
  shows "sub_pool_wf sp'" and "vault sp' = vault sp + principal pos"
    and "oo_open_fee out + principal pos = gross"
    and "oo_principal_into_pool out + oo_dust out = principal pos"
proof -
  have "sub_pool_wf sp' \<and> vault sp' = vault sp + principal pos \<and> oo_open_fee out + principal pos = gross
      \<and> oo_principal_into_pool out + oo_dust out = principal pos"
  proof (rule open_position_Ok [OF assms])
    fix sp1 synced
    assume *: "sync_pool market env sp = Inr (sp1, synced)"
      "split_fee market gross = Inr (oo_open_fee out, principal pos)"
      "mint_shares market (pool_equity d sp1) (active_shares d sp1) (principal pos)
        = Inr (oo_shares_minted out, oo_principal_into_pool out, oo_dust out)"
      "sub_pool_wf sp'" "vault sp' = vault sp + principal pos"
    have "side_wf d sp1"
      using sync_pool_wf(1) [OF sub_pool_wf_sides [OF assms(1)] *(1) assms(3)] sub_pool_wfD by blast
    then show ?thesis
      using * mint_shares_Ok(1) [OF *(3)] split_fee_Ok(1) [OF *(2)] by (simp add: side_wf_def side_ok_def)
  qed
  then show "sub_pool_wf sp'" "vault sp' = vault sp + principal pos" "oo_open_fee out + principal pos = gross"
    "oo_principal_into_pool out + oo_dust out = principal pos" by blast+
qed

lemma harness_open_step:
  assumes "harness_ok h" and "harness_open i d gross env h = (h', r)" and "completed r"
    and "env_p_now env < 2 ^ 64" and "gross < 2 ^ 64"
  shows "harness_ok h'" and "sound_result r"
    and "r = Inl (Failed (Clearing e)) \<Longrightarrow> h' = h"
proof -
  have ok: "pools_ok (sub_pools h) (positions h)" "accounts_ok h"
    and fresh: "bt_get (positions h) (next_position_id h) = None"
    using assms(1) by (auto simp: harness_ok_def)
  note pd = pools_okD [OF ok(1)]
  let ?pid = "next_position_id h"
  have "harness_ok h' \<and> sound_result r \<and> (r = Inl (Failed (Clearing e)) \<longrightarrow> h' = h)"
    using assms(2,3) unfolding harness_open_def
  proof (cases rule: with_result_cases)
    case (failed e)
    with assms(1) show ?thesis by (auto simp: ok_or_eq_Failed)
  next
    case (returned sp)
    then have sp: "bt_get (sub_pools h) i = Some sp" by simp
    note wf = pd(3,4) [OF sp]
    show ?thesis
      using returned(2) assms(3) unfolding Let_def
    proof (cases rule: with_result_cases)
      case (failed e)
      then show ?thesis by (simp add: plus_w_def split: if_splits)
    next
      case (returned nid)
      then have nid: "nid = ?pid + 1" by simp
      let ?h1 = "h\<lparr>next_position_id := nid\<rparr>"
      have rest: "with_result (lift_clearing (open_position (h_market h) env d gross ?pid sp))
         (?h1\<lparr>next_position_id := nid - 1\<rparr>) (\<lambda>(sp', pos, out).
       let h2 = put_position ?pid (pos\<lparr>pos_sub_pool_id := i\<rparr>) (put_sub_pool i sp' ?h1) in
       with_result (open_accounting gross out) h2 (\<lambda>parts.
       with_result (book_open gross parts h2) h (\<lambda>h3.
       feed_indexer (oo_events out)
         \<lparr>os_position_id = ?pid, os_shares_minted = oo_shares_minted out,
          os_open_fee = oo_open_fee out\<rparr> h3))) = (h', r)"
        using returned(2) fresh by (simp add: Let_def)
      from rest assms(3) show ?thesis
      proof (cases rule: with_result_cases)
        case (failed e)
        then show ?thesis using assms(1) nid by (auto simp: lift_clearing_Failed)
      next
        case (returned x)
        obtain sp' pos out where x: "x = (sp', pos, out)" by (metis prod_cases3)
        then have op: "open_position (h_market h) env d gross ?pid sp = Inr (sp', pos, out)"
          using returned(1) by simp
        let ?p = "pos\<lparr>pos_sub_pool_id := i\<rparr>"
        let ?h2 = "put_position ?pid ?p (put_sub_pool i sp' ?h1)"
        note bk = open_keeps_book [OF wf fresh op assms(4)]
        note facts = open_amounts [OF wf(1) op assms(4)]
        have rest2: "with_result (open_accounting gross out) ?h2 (\<lambda>parts.
           with_result (book_open gross parts ?h2) h (\<lambda>h3.
           feed_indexer (oo_events out)
             \<lparr>os_position_id = ?pid, os_shares_minted = oo_shares_minted out,
              os_open_fee = oo_open_fee out\<rparr> h3)) = (h', r)"
          using returned(2) by (simp add: x Let_def)
        have oa: "open_accounting gross out = Inr (principal pos, oo_open_fee out)"
          using facts assms(5) by (subst open_accounting_Ok) auto
        from rest2 have rest3: "with_result (book_open gross (principal pos, oo_open_fee out) ?h2) h (\<lambda>h3.
           feed_indexer (oo_events out)
             \<lparr>os_position_id = ?pid, os_shares_minted = oo_shares_minted out,
              os_open_fee = oo_open_fee out\<rparr> h3) = (h', r)"
          by (simp add: oa with_result_def)
        show ?thesis
          using rest3 assms(3)
        proof (cases rule: with_result_cases)
          case (failed e)
          then show ?thesis by (auto simp: book_open_def plus_w_def and_then_def split: if_splits)
        next
          case (returned h3)
          then have h3: "h3 = ?h2\<lparr>vault_balance := vault_balance h + principal pos,
              fee_vault_balance := fee_vault_balance h + oo_open_fee out,
              fees_collected := fees_collected h + oo_open_fee out,
              total_deposits := total_deposits h + gross\<rparr>" and fits: "total_deposits h + gross < 2 ^ 128"
            by (auto simp: book_open_def put_position_def put_sub_pool_def)
          have "pools_ok (bt_put i sp' (sub_pools h)) (bt_put ?pid ?p (positions h))"
          proof (rule pools_ok_put [OF ok(1) sp _ bk])
            show "sub_pool_wf sp'" using facts by simp
            show "book_ok j s (bt_put ?pid ?p (positions h))" if "j \<noteq> i" "book_ok j s (positions h)" for j s
              using that fresh by (intro book_other_new) auto
            show "\<exists>s. bt_get (sub_pools h) (pos_sub_pool_id q) = Some s"
              if "bt_get (bt_put ?pid ?p (positions h)) j = Some q" for j q
              using that sp pd(5) bt_get_put [OF pd(2)] by (auto split: if_splits)
          qed
          moreover have "accounts_ok h3"
            using ok(2) pool_funds_put [OF pd(1) sp, of sp'] facts fits
            by (simp add: accounts_ok_def h3 put_position_def put_sub_pool_def)
          moreover have "\<forall>k. bt_get (positions h3) k \<noteq> None \<longrightarrow> k < next_position_id h3"
            using assms(1) bt_get_put [OF pd(2)]
            by (auto simp: h3 harness_ok_def put_position_def put_sub_pool_def nid less_Suc_eq)
          ultimately have "harness_ok h3"
            by (simp add: harness_ok_def h3 put_position_def put_sub_pool_def)
          note fed = feed_indexer_step [OF returned(2) this]
          from feed_indexer_not_clearing [OF returned(2)]
          have "r \<noteq> Inl (Failed (Clearing e))" .
          then show ?thesis using fed assms(3) by simp
        qed
      qed
    qed
  qed
  then show "harness_ok h'" "sound_result r" "r = Inl (Failed (Clearing e)) \<Longrightarrow> h' = h" by simp_all
qed


section \<open>Closing, forced closing, claiming\<close>

lemma bt_put_del_same:
  assumes "bt_wf m" and "bt_get m k = Some v"
  shows "bt_put k v (bt_del k m) = m"
  using assms by (intro bt_ext) (auto simp: bt_wf_put bt_wf_del bt_get_put bt_get_del)

lemma bt_put_del:
  assumes "bt_wf m"
  shows "bt_put k v (bt_del k m) = bt_put k v m"
  using assms by (intro bt_ext) (auto simp: bt_wf_put bt_wf_del bt_get_put bt_get_del)

text \<open>Taking a position out of a sound harness finds its sub-pool.\<close>

lemma take_position_cases:
  assumes "harness_ok h" and "take_position pid h k = (h', r)" and "completed r"
  obtains (missing) "h' = h" "r = Inl (Failed (PositionNotFound pid))"
  | (taken) pos sp where "bt_get (positions h) pid = Some pos"
      "bt_get (sub_pools h) (pos_sub_pool_id pos) = Some sp" "sub_pool_wf sp"
      "book_ok (pos_sub_pool_id pos) sp (positions h)"
      "k pos sp (h\<lparr>positions := bt_del pid (positions h)\<rparr>) = (h', r)"
proof (cases "bt_get (positions h) pid")
  case None
  with assms(2) that(1) show ?thesis by (simp add: take_position_def with_result_def)
next
  case (Some pos)
  have ok: "pools_ok (sub_pools h) (positions h)" using assms(1) by (simp add: harness_ok_def)
  obtain sp where sp: "bt_get (sub_pools h) (pos_sub_pool_id pos) = Some sp"
    using pools_okD(5) [OF ok Some] by blast
  show ?thesis
    using that(2) [OF Some sp pools_okD(3,4) [OF ok sp]] assms(2) Some sp
    by (simp add: take_position_def with_result_def)
qed

text \<open>Putting the position back as it was restores the harness.\<close>

lemma put_back:
  assumes "harness_ok h" and "bt_get (positions h) pid = Some pos"
  shows "put_position pid pos (h\<lparr>positions := bt_del pid (positions h)\<rparr>) = h"
  using assms bt_put_del_same [of "positions h" pid pos]
  by (simp add: put_position_def harness_ok_def pools_ok_def)

text \<open>The common end of the three operations: sub-pool and position replaced, tokens paid.\<close>

lemma replaced_ok:
  assumes "harness_ok h" and "bt_get (positions h) pid = Some pos"
    and "bt_get (sub_pools h) (pos_sub_pool_id pos) = Some sp"
    and "sub_pool_wf sp'" and "pos_sub_pool_id pos' = pos_sub_pool_id pos"
    and "book_ok (pos_sub_pool_id pos) sp' (bt_put pid pos' (positions h))"
    and "vault sp' + paid = vault sp"
    and "h' = h\<lparr>sub_pools := bt_put (pos_sub_pool_id pos) sp' (sub_pools h),
                vault_balance := vault_balance h - paid,
                total_withdrawals := total_withdrawals h + paid,
                positions := bt_put pid pos' (positions h)\<rparr>"
  shows "harness_ok h'" and "paid \<le> vault_balance h"
proof -
  have ok: "pools_ok (sub_pools h) (positions h)" "accounts_ok h" using assms(1) by (simp_all add: harness_ok_def)
  note pd = pools_okD [OF ok(1)]
  have "pools_ok (sub_pools h') (positions h')"
    using pools_ok_replace [OF ok(1) assms(3,4,2) refl assms(5,6)] by (simp add: assms(8))
  moreover have fund: "pool_funds (sub_pools h') + paid = pool_funds (sub_pools h)"
    using pool_funds_put [OF pd(1) assms(3), of sp'] assms(7) by (simp add: assms(8))
  then show le: "paid \<le> vault_balance h" using ok(2) by (simp add: accounts_ok_def)
  have "accounts_ok h'" using ok(2) fund le by (simp add: accounts_ok_def assms(8))
  moreover have "\<forall>k. bt_get (positions h') k \<noteq> None \<longrightarrow> k < next_position_id h'"
    using assms(1,2) bt_get_put [OF pd(2)] by (auto simp: harness_ok_def assms(8))
  ultimately show "harness_ok h'" by (simp add: harness_ok_def)
qed

lemma migrate_identity:
  "lazy_migrate_position sp p = Inr (p', m) \<Longrightarrow> pos_sub_pool_id p' = pos_sub_pool_id p"
  by (auto simp: lazy_migrate_position_def Let_def split: if_splits)

lemma burn_active_identity:
  "burn_active sp p = Inr (sp', p', v) \<Longrightarrow> pos_sub_pool_id p' = pos_sub_pool_id p"
  by (auto simp: burn_active_def Let_def split: if_splits)

lemma burn_recovery_identity:
  "burn_recovery sp p = Inr (sp', p', t, r) \<Longrightarrow> pos_sub_pool_id p' = pos_sub_pool_id p"
  by (auto simp: burn_recovery_def Let_def)

lemma burn_recovery_if_any_identity:
  "burn_recovery_if_any sp p = Inr (sp', p', r) \<Longrightarrow> pos_sub_pool_id p' = pos_sub_pool_id p"
  by (auto simp: burn_recovery_if_any_def burn_recovery_identity split: if_splits)

lemma burn_worthless_identity:
  "burn_worthless sp p = Inr (sp', p', b, n) \<Longrightarrow> pos_sub_pool_id p' = pos_sub_pool_id p"
  by (auto simp: burn_worthless_def Let_def split: if_splits)

lemma forfeit_recovery_identity:
  "forfeit_recovery sp p = Inr (sp', p', r, f) \<Longrightarrow> pos_sub_pool_id p' = pos_sub_pool_id p"
  by (auto simp: forfeit_recovery_def Let_def split: if_splits)

lemma close_identity:
  assumes "close_position market env sp p = Inr (sp', p', out)"
  shows "pos_sub_pool_id p' = pos_sub_pool_id p"
proof -
  from assms obtain sp1 p1 m sp2 p2 v sp3 p3 rc where
      "lazy_migrate_position sp1 p = Inr (p1, m)" "burn_active sp1 p1 = Inr (sp2, p2, v)"
      "burn_recovery_if_any sp2 p2 = Inr (sp3, p3, rc)" "p' = mark_closed (env_slot env) p3"
    by (auto simp: close_position_def Let_def split: if_splits)
  from migrate_identity [OF this(1)] burn_active_identity [OF this(2)]
    burn_recovery_if_any_identity [OF this(3)] this(4)
  show ?thesis by (simp add: mark_closed_def)
qed

lemma force_close_identity:
  assumes "force_close_zero_value_position market env ack sp p = Inr (sp', p', out)"
  shows "pos_sub_pool_id p' = pos_sub_pool_id p"
proof -
  from assms obtain sp1 p1 m sp2 p2 b n sp3 p3 rc f where
      "lazy_migrate_position sp1 p = Inr (p1, m)" "burn_worthless sp1 p1 = Inr (sp2, p2, b, n)"
      "forfeit_recovery sp2 p2 = Inr (sp3, p3, rc, f)" "p' = mark_closed (env_slot env) p3"
    by (auto simp: force_close_zero_value_position_def Let_def split: if_splits)
  from migrate_identity [OF this(1)] burn_worthless_identity [OF this(2)]
    forfeit_recovery_identity [OF this(3)] this(4)
  show ?thesis by (simp add: mark_closed_def)
qed

lemma claim_identity:
  assumes "claim_dormant_recovery market env sp p = Inr (sp', p', out)"
  shows "pos_sub_pool_id p' = pos_sub_pool_id p"
proof -
  from assms obtain sp1 p1 m sp2 p2 t rc where
      "lazy_migrate_position sp1 p = Inr (p1, m)" "burn_recovery sp1 p1 = Inr (sp2, p2, t, rc)"
      "p' = p2\<lparr>updated_at_slot := env_slot env\<rparr>"
    by (auto simp: claim_dormant_recovery_def Let_def split: if_splits)
  from migrate_identity [OF this(1)] burn_recovery_identity [OF this(2)] this(3)
  show ?thesis by simp
qed

lemma pay_out_cases:
  assumes "with_result (pay_out a msg h2) h2 k = (h', r)" and "completed r" and "a \<le> vault_balance h2"
  shows "k (h2\<lparr>vault_balance := vault_balance h2 - a, total_withdrawals := total_withdrawals h2 + a\<rparr>)
    = (h', r)"
  using assms
  by (auto simp: pay_out_def checked_sub_w_def plus_w_def with_result_def split: if_splits)

lemma harness_close_step:
  assumes "harness_ok h" and "harness_close pid env h = (h', r)" and "completed r"
    and "env_p_now env < 2 ^ 64"
  shows "harness_ok h'" and "sound_result r" and "r = Inl (Failed (Clearing e)) \<Longrightarrow> h' = h"
proof -
  have ps: "bt_wf (positions h)" using assms(1) by (simp add: harness_ok_def pools_ok_def)
  have "harness_ok h' \<and> sound_result r \<and> (r = Inl (Failed (Clearing e)) \<longrightarrow> h' = h)"
    using assms(1) assms(2) [unfolded harness_close_def] assms(3)
  proof (cases rule: take_position_cases)
    case missing
    with assms(1) show ?thesis by simp
  next
    case (taken pos sp)
    let ?h1 = "h\<lparr>positions := bt_del pid (positions h)\<rparr>" and ?i = "pos_sub_pool_id pos"
    from taken(5) assms(3) show ?thesis
    proof (cases rule: with_result_cases)
      case (failed e)
      then show ?thesis using assms(1) put_back [OF assms(1) taken(1)] by (auto simp: lift_clearing_Failed)
    next
      case (returned x)
      obtain sp' pos' out where x: "x = (sp', pos', out)" by (metis prod_cases3)
      then have op: "close_position (h_market h) env sp pos = Inr (sp', pos', out)"
        using returned(1) by simp
      note cl = close_position_Ok [OF taken(3) op assms(4)]
      let ?h2 = "put_sub_pool ?i sp' ?h1"
      define h4 where "h4 = h\<lparr>sub_pools := bt_put ?i sp' (sub_pools h),
          vault_balance := vault_balance h - co_withdrawable out,
          total_withdrawals := total_withdrawals h + co_withdrawable out,
          positions := bt_put pid pos' (positions h)\<rparr>"
      note rep = replaced_ok [OF assms(1) taken(1,2) cl(1) close_identity [OF op]
        close_keeps_book(1) [OF taken(3,4,1) refl op assms(4)] cl(2) h4_def]
      have fed: "feed_indexer (co_events out) \<lparr>cs_withdrawable = co_withdrawable out,
          cs_indexer_pre_equity = pre_equity h pid\<rparr> h4 = (h', r)"
        using pay_out_cases [OF returned(2) [unfolded x Let_def, simplified] assms(3)] rep(2)
        by (simp add: put_position_def put_sub_pool_def h4_def bt_put_del [OF ps])
      show ?thesis
        using feed_indexer_step [OF fed rep(1)] feed_indexer_not_clearing [OF fed, of e] assms(3) by simp
    qed
  qed
  then show "harness_ok h'" "sound_result r" "r = Inl (Failed (Clearing e)) \<Longrightarrow> h' = h" by simp_all
qed


lemma harness_claim_step:
  assumes "harness_ok h" and "harness_claim_recovery pid env h = (h', r)" and "completed r"
    and "env_p_now env < 2 ^ 64"
  shows "harness_ok h'" and "sound_result r" and "r = Inl (Failed (Clearing e)) \<Longrightarrow> h' = h"
proof -
  have ps: "bt_wf (positions h)" using assms(1) by (simp add: harness_ok_def pools_ok_def)
  have "harness_ok h' \<and> sound_result r \<and> (r = Inl (Failed (Clearing e)) \<longrightarrow> h' = h)"
    using assms(1) assms(2) [unfolded harness_claim_recovery_def] assms(3)
  proof (cases rule: take_position_cases)
    case missing
    with assms(1) show ?thesis by simp
  next
    case (taken pos sp)
    let ?h1 = "h\<lparr>positions := bt_del pid (positions h)\<rparr>" and ?i = "pos_sub_pool_id pos"
    from taken(5) assms(3) show ?thesis
    proof (cases rule: with_result_cases)
      case (failed e)
      then show ?thesis using assms(1) put_back [OF assms(1) taken(1)] by (auto simp: lift_clearing_Failed)
    next
      case (returned x)
      obtain sp' pos' out where x: "x = (sp', pos', out)" by (metis prod_cases3)
      then have op: "claim_dormant_recovery (h_market h) env sp pos = Inr (sp', pos', out)"
        using returned(1) by simp
      note cl = claim_Ok [OF taken(3) op assms(4)]
      define h4 where "h4 = h\<lparr>sub_pools := bt_put ?i sp' (sub_pools h),
          vault_balance := vault_balance h - cr_redeemable out,
          total_withdrawals := total_withdrawals h + cr_redeemable out,
          positions := bt_put pid pos' (positions h)\<rparr>"
      note rep = replaced_ok [OF assms(1) taken(1,2) cl(1) claim_identity [OF op]
        claim_keeps_book [OF taken(3,4,1) refl op assms(4)] cl(2) h4_def]
      have fed: "feed_indexer (cr_events out) \<lparr>cs_withdrawable = cr_redeemable out,
          cs_indexer_pre_equity = pre_equity h pid\<rparr> h4 = (h', r)"
        using pay_out_cases [OF returned(2) [unfolded x Let_def, simplified] assms(3)] rep(2)
        by (simp add: put_position_def put_sub_pool_def h4_def bt_put_del [OF ps])
      show ?thesis
        using feed_indexer_step [OF fed rep(1)] feed_indexer_not_clearing [OF fed, of e] assms(3) by simp
    qed
  qed
  then show "harness_ok h'" "sound_result r" "r = Inl (Failed (Clearing e)) \<Longrightarrow> h' = h" by simp_all
qed

lemma harness_force_close_step:
  assumes "harness_ok h" and "harness_force_close pid env ack h = (h', r)" and "completed r"
    and "env_p_now env < 2 ^ 64"
  shows "harness_ok h'" and "sound_result r" and "r = Inl (Failed (Clearing e)) \<Longrightarrow> h' = h"
proof -
  have ps: "bt_wf (positions h)" using assms(1) by (simp add: harness_ok_def pools_ok_def)
  have "harness_ok h' \<and> sound_result r \<and> (r = Inl (Failed (Clearing e)) \<longrightarrow> h' = h)"
    using assms(1) assms(2) [unfolded harness_force_close_def] assms(3)
  proof (cases rule: take_position_cases)
    case missing
    with assms(1) show ?thesis by simp
  next
    case (taken pos sp)
    let ?i = "pos_sub_pool_id pos"
    from taken(5) assms(3) show ?thesis
    proof (cases rule: with_result_cases)
      case (failed e)
      then show ?thesis using assms(1) put_back [OF assms(1) taken(1)] by (auto simp: lift_clearing_Failed)
    next
      case (returned x)
      obtain sp' pos' out where x: "x = (sp', pos', out)" by (metis prod_cases3)
      then have op: "force_close_zero_value_position (h_market h) env ack sp pos = Inr (sp', pos', out)"
        using returned(1) by simp
      note cl = force_close_Ok [OF taken(3) op assms(4)]
      define h4 where "h4 = h\<lparr>sub_pools := bt_put ?i sp' (sub_pools h),
          vault_balance := vault_balance h - 0, total_withdrawals := total_withdrawals h + 0,
          positions := bt_put pid pos' (positions h)\<rparr>"
      have paid: "vault sp' + 0 = vault sp" using cl(2) by simp
      note rep = replaced_ok [OF assms(1) taken(1,2) cl(1) force_close_identity [OF op]
        force_close_keeps_book(1) [OF taken(3,4,1) refl op assms(4)] paid h4_def]
      have "h4 = put_position pid pos' (put_sub_pool ?i sp' (h\<lparr>positions := bt_del pid (positions h)\<rparr>))"
        using bt_put_del [OF ps] by (simp add: h4_def put_position_def put_sub_pool_def)
      then have fed: "feed_indexer (fo_events out) () h4 = (h', r)"
        using returned(2) by (simp add: x)
      show ?thesis
        using feed_indexer_step [OF fed rep(1)] feed_indexer_not_clearing [OF fed, of e] assms(3) by simp
    qed
  qed
  then show "harness_ok h'" "sound_result r" "r = Inl (Failed (Clearing e)) \<Longrightarrow> h' = h" by simp_all
qed

section \<open>Operations on one sub-pool\<close>

lemma pool_replaced_ok:
  assumes "harness_ok h" and "bt_get (sub_pools h) i = Some sp"
    and "sub_pool_wf sp'" and "book_ok i sp' (positions h)" and "vault sp' + swept = vault sp"
    and "h' = (put_sub_pool i sp' h)\<lparr>vault_balance := vault_balance h - swept,
           fee_vault_balance := fee_vault_balance h + swept,
           fees_collected := fees_collected h + swept, dust_swept := sw\<rparr>"
  shows "harness_ok h'" and "swept \<le> vault_balance h"
proof -
  have ok: "pools_ok (sub_pools h) (positions h)" "accounts_ok h" using assms(1) by (simp_all add: harness_ok_def)
  note pd = pools_okD [OF ok(1)]
  have pools: "pools_ok (sub_pools h') (positions h')"
    using pools_ok_same_book [OF ok(1) assms(2-4)] by (simp add: assms(6) put_sub_pool_def)
  have fund: "pool_funds (sub_pools h') + swept = pool_funds (sub_pools h)"
    using pool_funds_put [OF pd(1) assms(2), of sp'] assms(5) by (simp add: assms(6) put_sub_pool_def)
  then show le: "swept \<le> vault_balance h" using ok(2) by (simp add: accounts_ok_def)
  have "accounts_ok h'" using ok(2) fund le by (simp add: accounts_ok_def assms(6) put_sub_pool_def)
  then show "harness_ok h'" using pools assms(1) by (simp add: harness_ok_def assms(6) put_sub_pool_def)
qed

lemma pool_kept_ok:
  assumes "harness_ok h" and "bt_get (sub_pools h) i = Some sp"
    and "sub_pool_wf sp'" and "book_ok i sp' (positions h)" and "vault sp' = vault sp"
  shows "harness_ok (put_sub_pool i sp' h)"
proof -
  have "put_sub_pool i sp' h = (put_sub_pool i sp' h)\<lparr>vault_balance := vault_balance h - 0,
           fee_vault_balance := fee_vault_balance h + 0,
           fees_collected := fees_collected h + 0, dust_swept := dust_swept h\<rparr>"
    by (cases h) (simp add: put_sub_pool_def)
  then show ?thesis using pool_replaced_ok(1) [OF assms(1-4), of 0 _ "dust_swept h"] assms(5) by simp
qed

lemma sound_pool:
  assumes "harness_ok h" and "bt_get (sub_pools h) i = Some sp"
  shows "sub_pool_wf sp" and "book_ok i sp (positions h)"
  using assms pools_okD(3,4) [of "sub_pools h" "positions h" i sp] by (simp_all add: harness_ok_def)

lemma harness_sync_step:
  assumes "harness_ok h" and "harness_sync i env h = (h', r)" and "completed r"
    and "env_p_now env < 2 ^ 64"
  shows "harness_ok h'" and "sound_result r" and "r = Inl (Failed (Clearing e)) \<Longrightarrow> h' = h"
proof -
  have "harness_ok h' \<and> sound_result r \<and> (r = Inl (Failed (Clearing e)) \<longrightarrow> h' = h)"
    using assms(2,3) unfolding harness_sync_def
  proof (cases rule: with_result_cases)
    case (failed e)
    with assms(1) show ?thesis by (auto simp: ok_or_eq_Failed)
  next
    case (returned sp)
    then have sp: "bt_get (sub_pools h) i = Some sp" by simp
    note s = sound_pool [OF assms(1) sp]
    from returned(2) assms(3) show ?thesis
    proof (cases rule: with_result_cases)
      case (failed e)
      then show ?thesis using assms(1) by (auto simp: lift_clearing_Failed)
    next
      case (returned x)
      obtain sp' out where x: "x = (sp', out)" by fastforce
      then have op: "sync_pool (h_market h) env sp = Inr (sp', out)" using returned(1) by simp
      note ok = sub_pool_wf_sides [OF s(1)]
      have kept: "harness_ok (put_sub_pool i sp' h)"
        using pool_kept_ok [OF assms(1) sp] sync_pool_wf [OF ok op assms(4)]
          book_sync [OF s(2) ok op assms(4)] by simp
      have fed: "feed_indexer (so_events out) () (put_sub_pool i sp' h) = (h', r)"
        using returned(2) by (simp add: x)
      show ?thesis
        using feed_indexer_step [OF fed kept] feed_indexer_not_clearing [OF fed, of e] assms(3) by simp
    qed
  qed
  then show "harness_ok h'" "sound_result r" "r = Inl (Failed (Clearing e)) \<Longrightarrow> h' = h" by simp_all
qed

lemma harness_pre_sync_step:
  assumes "harness_ok h" and "harness_pre_sync_bucket i d tick slot h = (h', r)" and "completed r"
  shows "harness_ok h'" and "sound_result r" and "r = Inl (Failed (Clearing e)) \<Longrightarrow> h' = h"
proof -
  have "harness_ok h' \<and> sound_result r \<and> (r = Inl (Failed (Clearing e)) \<longrightarrow> h' = h)"
    using assms(2,3) unfolding harness_pre_sync_bucket_def
  proof (cases rule: with_result_cases)
    case (failed e)
    with assms(1) show ?thesis by (auto simp: ok_or_eq_Failed)
  next
    case (returned sp)
    then have sp: "bt_get (sub_pools h) i = Some sp" by simp
    note s = sound_pool [OF assms(1) sp]
    from returned(2) assms(3) show ?thesis
    proof (cases rule: with_result_cases)
      case (failed e)
      then show ?thesis using assms(1) by (auto simp: lift_clearing_Failed)
    next
      case (returned x)
      obtain sp' out where x: "x = (sp', out)" by fastforce
      then have op: "pre_sync_dormant_bucket (h_market h) d tick slot sp = Inr (sp', out)"
        using returned(1) by simp
      have kept: "harness_ok (put_sub_pool i sp' h)"
        using pool_kept_ok [OF assms(1) sp] pre_sync_Ok(1,2) [OF s(1) op]
          pre_sync_keeps_book [OF s op] by simp
      have fed: "feed_indexer (pr_events out) out (put_sub_pool i sp' h) = (h', r)"
        using returned(2) by (simp add: x)
      show ?thesis
        using feed_indexer_step [OF fed kept] feed_indexer_not_clearing [OF fed, of e] assms(3) by simp
    qed
  qed
  then show "harness_ok h'" "sound_result r" "r = Inl (Failed (Clearing e)) \<Longrightarrow> h' = h" by simp_all
qed

lemma sweep_cases:
  assumes "with_result (sweep a h1) h1 k = (h', r)" and "completed r" and "a \<le> vault_balance h1"
  shows "k (h1\<lparr>vault_balance := vault_balance h1 - a, fee_vault_balance := fee_vault_balance h1 + a,
      fees_collected := fees_collected h1 + a, dust_swept := dust_swept h1 + a\<rparr>) = (h', r)"
  using assms
  by (auto simp: sweep_def checked_sub_w_def plus_w_def with_result_def split: if_splits)

lemma harness_harvest_step:
  assumes "harness_ok h" and "harness_harvest_dust i d h = (h', r)" and "completed r"
  shows "harness_ok h'" and "sound_result r" and "r = Inl (Failed (Clearing e)) \<Longrightarrow> h' = h"
proof -
  have "harness_ok h' \<and> sound_result r \<and> (r = Inl (Failed (Clearing e)) \<longrightarrow> h' = h)"
    using assms(2,3) unfolding harness_harvest_dust_def
  proof (cases rule: with_result_cases)
    case (failed e)
    with assms(1) show ?thesis by (auto simp: ok_or_eq_Failed)
  next
    case (returned sp)
    then have sp: "bt_get (sub_pools h) i = Some sp" by simp
    note s = sound_pool [OF assms(1) sp]
    from returned(2) assms(3) show ?thesis
    proof (cases rule: with_result_cases)
      case (failed e)
      then show ?thesis using assms(1) by (auto simp: lift_clearing_Failed)
    next
      case (returned x)
      obtain sp' out where x: "x = (sp', out)" by fastforce
      then have op: "harvest_dust (h_market h) d sp = Inr (sp', out)" using returned(1) by simp
      note hv = harvest_dust_Ok [OF s(1) op]
      define h4 where "h4 = (put_sub_pool i sp' h)\<lparr>vault_balance := vault_balance h - ho_amount out,
           fee_vault_balance := fee_vault_balance h + ho_amount out,
           fees_collected := fees_collected h + ho_amount out,
           dust_swept := dust_swept h + ho_amount out\<rparr>"
      note kept = pool_replaced_ok [OF assms(1) sp hv(1) harvest_keeps_book [OF s(2) op] hv(2) h4_def]
      have fed: "feed_indexer (ho_events out) (ho_amount out) h4 = (h', r)"
        using sweep_cases [OF returned(2) [unfolded x Let_def, simplified] assms(3)] kept(2)
        by (simp add: put_sub_pool_def h4_def)
      show ?thesis
        using feed_indexer_step [OF fed kept(1)] feed_indexer_not_clearing [OF fed, of e] assms(3) by simp
    qed
  qed
  then show "harness_ok h'" "sound_result r" "r = Inl (Failed (Clearing e)) \<Longrightarrow> h' = h" by simp_all
qed

section \<open>Draining every bucket of a sub-pool\<close>

text \<open>A drain does not revert: it keeps the buckets it drained before an error.\<close>

lemma drain_ticks_step:
  assumes "harness_ok h" and "drain_ticks i slot ts acc h = (h', r)" and "completed r"
  shows "harness_ok h' \<and> sound_result r"
  using assms
proof (induction i slot ts acc h rule: drain_ticks.induct)
  case (1 i slot acc h)
  then show ?case by auto
next
  case (2 i slot d tick rest acc h)
  obtain h1 r1 where p: "harness_pre_sync_bucket i d tick slot h = (h1, r1)" by fastforce
  note step = harness_pre_sync_step [OF "2.prems"(1) p]
  show ?case
  proof (cases r1)
    case (Inr out)
    with step have "harness_ok h1" by simp
    from "2.IH"(2) [OF p [symmetric] Inr this] "2.prems"(2,3) show ?thesis by (simp add: p Inr)
  next
    case (Inl f)
    show ?thesis
    proof (cases "r1 = Inl (Failed (Clearing DormantBucketMissing))")
      case True
      with step have "harness_ok h1" by simp
      with "2.IH"(1) [OF p [symmetric]] True "2.prems"(2,3) show ?thesis by (simp add: p)
    next
      case False
      with "2.prems"(2) p Inl have "h' = h1" "r = Inl f"
        by (auto split: failure.splits harness_error.splits clearing_error.splits)
      with step "2.prems"(3) Inl show ?thesis by (auto simp: completed_def sound_result_def)
    qed
  qed
qed

lemma harness_drain_all_step:
  assumes "harness_ok h" and "harness_drain_all i slot h = (h', r)" and "completed r"
  shows "harness_ok h'" and "sound_result r"
proof -
  have "harness_ok h' \<and> sound_result r"
    using assms(2,3) unfolding harness_drain_all_def
  proof (cases rule: with_result_cases)
    case (failed e)
    with assms(1) show ?thesis by (auto simp: ok_or_eq_Failed)
  next
    case (returned sp)
    show ?thesis by (rule drain_ticks_step [OF assms(1) returned(2) assms(3)])
  qed
  then show "harness_ok h'" "sound_result r" by simp_all
qed

section \<open>The system\<close>

text \<open>
  One completed call: the environment's price and the amount are the code's \<open>u64\<close>. A sub-pool
  is added under an id that is not in use: \<open>add_sub_pool\<close> overwrites, and so discards, a sub-pool
  that has it (\<open>overwrite_discards\<close> in \<open>System_Properties\<close>), and such a run is no run of a market.
\<close>

inductive hstep :: "harness \<Rightarrow> harness \<Rightarrow> bool" where
  added: "bt_get (sub_pools h) i = None \<Longrightarrow> hstep h (add_sub_pool i price slot h)"
| opened: "harness_open i d gross env h = (h', r) \<Longrightarrow> completed r
    \<Longrightarrow> env_p_now env < 2 ^ 64 \<Longrightarrow> gross < 2 ^ 64 \<Longrightarrow> hstep h h'"
| closed: "harness_close pid env h = (h', r') \<Longrightarrow> completed r'
    \<Longrightarrow> env_p_now env < 2 ^ 64 \<Longrightarrow> hstep h h'"
| forced: "harness_force_close pid env ack h = (h', u) \<Longrightarrow> completed u
    \<Longrightarrow> env_p_now env < 2 ^ 64 \<Longrightarrow> hstep h h'"
| claimed: "harness_claim_recovery pid env h = (h', r') \<Longrightarrow> completed r'
    \<Longrightarrow> env_p_now env < 2 ^ 64 \<Longrightarrow> hstep h h'"
| synced: "harness_sync i env h = (h', u) \<Longrightarrow> completed u
    \<Longrightarrow> env_p_now env < 2 ^ 64 \<Longrightarrow> hstep h h'"
| pre_synced: "harness_pre_sync_bucket i d tick slot h = (h', p) \<Longrightarrow> completed p \<Longrightarrow> hstep h h'"
| drained: "harness_drain_all i slot h = (h', n) \<Longrightarrow> completed n \<Longrightarrow> hstep h h'"
| harvested: "harness_harvest_dust i d h = (h', n) \<Longrightarrow> completed n \<Longrightarrow> hstep h h'"

inductive reachable :: "market_params \<Rightarrow> harness \<Rightarrow> bool" for market where
  start: "reachable market (new_harness market)"
| next_call: "reachable market h \<Longrightarrow> hstep h h' \<Longrightarrow> reachable market h'"

inductive_cases reachableE: "reachable market h"

lemma hstep_ok: "hstep h h' \<Longrightarrow> harness_ok h \<Longrightarrow> harness_ok h'"
  by (induction rule: hstep.induct)
    (blast intro: add_sub_pool_ok harness_open_step(1) harness_close_step(1)
      harness_force_close_step(1) harness_claim_step(1) harness_sync_step(1)
      harness_pre_sync_step(1) harness_drain_all_step(1) harness_harvest_step(1))+

lemma reachable_ok: "reachable market h \<Longrightarrow> harness_ok h"
  by (induction rule: reachable.induct) (auto intro: hstep_ok new_harness_ok)

section \<open>The harness's own checks\<close>

text \<open>What the summary adds up for one sub-pool, and for all of them.\<close>

definition summed :: "state_summary \<Rightarrow> nat" where
  "summed s = pool_equity_total s + dormant_accrued_total s + dormant_pending_total s + dust_total s"

lemma summary_step_total:
  assumes "summed s + vault sp < 2 ^ 128"
  shows "\<exists>s'. summary_step (i, sp) s = Inr s' \<and> summed s' = summed s + vault sp
    \<and> sum_total_deposits s' = sum_total_deposits s
    \<and> sum_total_withdrawals s' = sum_total_withdrawals s
    \<and> sum_vault_balance s' = sum_vault_balance s
    \<and> sum_fee_vault_balance s' = sum_fee_vault_balance s"
  using assms
  by (simp add: summary_step_def plus_w_def summed_def vault_def side_funds_def dust_def
      pool_equity_def dormant_def store_funds_def)

lemma summary_fold:
  assumes "summed s + (\<Sum>(i, sp)\<leftarrow>pools. vault sp) < 2 ^ 128"
  shows "\<exists>s'. fold_res summary_step pools s = Inr s'
    \<and> summed s' = summed s + (\<Sum>(i, sp)\<leftarrow>pools. vault sp)
    \<and> sum_total_deposits s' = sum_total_deposits s
    \<and> sum_total_withdrawals s' = sum_total_withdrawals s
    \<and> sum_vault_balance s' = sum_vault_balance s
    \<and> sum_fee_vault_balance s' = sum_fee_vault_balance s"
  using assms
proof (induction pools arbitrary: s)
  case (Cons isp pools)
  obtain i sp where isp: "isp = (i, sp)" by fastforce
  with Cons.prems have "summed s + vault sp < 2 ^ 128" by simp
  from summary_step_total [OF this, of i] obtain s1 where s1: "summary_step (i, sp) s = Inr s1"
    "summed s1 = summed s + vault sp" "sum_total_deposits s1 = sum_total_deposits s"
    "sum_total_withdrawals s1 = sum_total_withdrawals s"
    "sum_vault_balance s1 = sum_vault_balance s" "sum_fee_vault_balance s1 = sum_fee_vault_balance s"
    by blast
  with Cons.IH [of s1] Cons.prems show ?case by (simp add: isp add.assoc)
qed simp

text \<open>On a sound harness conservation, the vault and the fee checks pass; the mirror is left.\<close>

lemma checks_pass:
  assumes "harness_ok h"
  shows "harness_check_invariants h = fold_res (check_mirror (h_indexer h)) (sub_pools h) ()"
proof -
  have a: "total_deposits h < 2 ^ 128"
    "total_deposits h = total_withdrawals h + vault_balance h + fee_vault_balance h"
    "vault_balance h = pool_funds (sub_pools h)" "fee_vault_balance h = fees_collected h"
    using assms by (simp_all add: harness_ok_def accounts_ok_def)
  define s0 where "s0 = \<lparr>sum_total_deposits = total_deposits h,
      sum_total_withdrawals = total_withdrawals h, sum_vault_balance = vault_balance h,
      sum_fee_vault_balance = fee_vault_balance h, pool_equity_total = 0, dormant_accrued_total = 0,
      dormant_pending_total = 0, dust_total = 0, sub_pool_count = length (sub_pools h),
      hs_position_count = length (positions h)\<rparr>"
  have z: "summed s0 = 0" by (simp add: s0_def summed_def)
  have "pool_funds (sub_pools h) < 2 ^ 128" using a by simp
  with summary_fold [of s0 "sub_pools h"] z obtain s where
      s: "summary h = Inr s" "summed s = pool_funds (sub_pools h)"
        "sum_total_deposits s = total_deposits h" "sum_total_withdrawals s = total_withdrawals h"
        "sum_vault_balance s = vault_balance h" "sum_fee_vault_balance s = fee_vault_balance h"
    by (auto simp: pool_funds_def summary_def s0_def)
  have "check_conservation s = Inr ()" using s a by (simp add: check_conservation_def plus_w_def)
  moreover have "check_vault s = Inr ()"
    using s a by (simp add: check_vault_def plus_w_def summed_def)
  ultimately show ?thesis using s(1) a(4) by (simp add: harness_check_invariants_def)
qed

end
