(* ===== verification/System_Properties.thy ===== *)
theory System_Properties
  imports Harness_Facts Recovery_Properties
begin

text \<open>
  The properties of the whole in-memory protocol. First the kernel evaluation of the harness and the indexer: the collection \<open>hevals\<close> unfolds their
  operations on top of \<open>evals\<close>. The sample run opens the two sample positions through the
  harness and moves the price; its states are reachable.
\<close>

named_theorems hevals "definitions unfolded to evaluate the harness and the indexer"

declare indexer_of_math_def [hevals] sat_add_def [hevals] sat_inc_def [hevals]
  equity_def [hevals] remaining_margin_def [hevals] no_stats_def [hevals]
  intrinsic_at_def [hevals] outstanding_at_def [hevals] default_view_def [hevals]
  new_indexer_def [hevals] view_generation_def [hevals] position_count_ix_def [hevals]
  view_of_def [hevals] count_position_def [hevals] count_bucket_def [hevals]
  side_stats_def [hevals] sub_pool_stats_of_def [hevals] snapshot_of_def [hevals]
  dormant_inventory_def [hevals] view_activated_def [hevals]
  projected_recovery_outstanding_def [hevals] and_replay_def [hevals] with_value_def [hevals]
  update_views_def [hevals] sub_pool_view_of_def [hevals] set_sub_pool_view_def [hevals]
  apply_open_def [hevals] skips_active_def [hevals] credit_profit_def [hevals]
  distribute_active_profit_def [hevals] charge_loss_def [hevals]
  distribute_active_loss_def [hevals] collect_outstanding_def [hevals]
  credit_recovery_def [hevals] pay_bucket_def [hevals]
  distribute_recovery_profit_def [hevals] outflow_of_def [hevals] credit_side_def [hevals]
  apply_pool_sync_def [hevals] migrate_view_def [hevals] rotate_view_def [hevals]
  apply_rotate_def [hevals] burn_from_bucket_def [hevals] set_view_def [hevals]
  close_view_def [hevals] apply_close_def [hevals] apply_force_close_def [hevals]
  apply_claim_recovery_def [hevals] apply_harvest_def [hevals] apply_event_def [hevals]
declare new_harness_def [hevals] add_sub_pool_def [hevals] summary_step_def [hevals]
  summary_def [hevals] lift_clearing_def [hevals] feed_indexer_def [hevals]
  with_result_def [hevals] pre_equity_def [hevals] put_sub_pool_def [hevals]
  put_position_def [hevals] open_accounting_def [hevals] book_open_def [hevals]
  harness_open_def [hevals] take_position_def [hevals] pay_out_def [hevals]
  harness_close_def [hevals] harness_force_close_def [hevals]
  harness_claim_recovery_def [hevals] harness_sync_def [hevals]
  harness_pre_sync_bucket_def [hevals] harness_drain_all_def [hevals] sweep_def [hevals]
  harness_harvest_dust_def [hevals] check_conservation_def [hevals] check_vault_def [hevals]
  bucket_diverged_def [hevals] check_dir_def [hevals] check_mirror_def [hevals]
  harness_check_invariants_def [hevals]

section \<open>A sample run\<close>

definition sample_h :: "distribute_mode \<Rightarrow> harness" where
  "sample_h m = add_sub_pool 7 0 0 (new_harness (demo_market m))"

lemma sample_h_reachable: "reachable (demo_market m) (sample_h m)"
  unfolding sample_h_def
  by (rule next_call [OF start added]) (simp add: new_harness_def bt_empty_def)

lemma sample_run:
  "\<exists>h1 h2 h3 r1 r2. harness_open 7 Long 100000000 (env_at 1000 1) (sample_h m) = (h1, Inr r1)
     \<and> harness_open 7 Short 1000000000 (env_at 1000 1) h1 = (h2, Inr r2)
     \<and> harness_sync 7 (env_at 900 2) h2 = (h3, Inr ())
     \<and> bt_get (sub_pools h3) 7 = Some demo_wiped \<and> total_deposits h3 = 1100000000
     \<and> bt_get (positions h3) 1 = Some demo_long"
  by (simp add: sample_h_def evals hevals demo)


text \<open>
  The properties of the whole system, the engine, the vaults and the indexer driven by the
  harness \<open>crates/protocol-harness/src/lib.rs\<close>: what every reachable state satisfies and what
  every call, failing ones included, leaves behind.
\<close>

section \<open>Calls\<close>

text \<open>The harness's operations as one function; the results are dropped.\<close>

datatype hcall =
    OpenCall u32 direction u64 price_envelope
  | CloseCall u64 price_envelope
  | ForceCloseCall u64 price_envelope bool
  | ClaimCall u64 price_envelope
  | SyncCall u32 price_envelope
  | PreSyncCall u32 direction i64 u64
  | DrainCall u32 u64
  | HarvestCall u32 direction

definition result_of :: "harness \<times> 'a harnessed \<Rightarrow> harness \<times> unit harnessed" where
  "result_of hr = (fst hr, and_then (snd hr) (\<lambda>_. Ok ()))"

definition perform :: "hcall \<Rightarrow> harness \<Rightarrow> harness \<times> unit harnessed" where
  "perform c h = (case c of
       OpenCall i d gross env \<Rightarrow> result_of (harness_open i d gross env h)
     | CloseCall pid env \<Rightarrow> result_of (harness_close pid env h)
     | ForceCloseCall pid env ack \<Rightarrow> result_of (harness_force_close pid env ack h)
     | ClaimCall pid env \<Rightarrow> result_of (harness_claim_recovery pid env h)
     | SyncCall i env \<Rightarrow> result_of (harness_sync i env h)
     | PreSyncCall i d tick slot \<Rightarrow> result_of (harness_pre_sync_bucket i d tick slot h)
     | DrainCall i slot \<Rightarrow> result_of (harness_drain_all i slot h)
     | HarvestCall i d \<Rightarrow> result_of (harness_harvest_dust i d h))"

text \<open>The arguments are within the code's integer types.\<close>

definition call_ok :: "hcall \<Rightarrow> bool" where
  "call_ok c = (case c of
       OpenCall i d gross env \<Rightarrow> gross < 2 ^ 64 \<and> env_p_now env < 2 ^ 64
     | CloseCall pid env \<Rightarrow> env_p_now env < 2 ^ 64
     | ForceCloseCall pid env ack \<Rightarrow> env_p_now env < 2 ^ 64
     | ClaimCall pid env \<Rightarrow> env_p_now env < 2 ^ 64
     | SyncCall i env \<Rightarrow> env_p_now env < 2 ^ 64
     | _ \<Rightarrow> True)"

text \<open>A drain keeps the buckets it caught up before an error, by design.\<close>

definition drains :: "hcall \<Rightarrow> bool" where
  "drains c = (case c of DrainCall i slot \<Rightarrow> True | _ \<Rightarrow> False)"

lemma result_of_Failed:
  assumes "result_of m = (h', Inl (Failed e))"
  obtains "m = (h', Inl (Failed e))"
  using assms by (cases m; cases "snd m") (auto simp: result_of_def)

lemma harness_drain_failed:
  assumes "harness_ok h" and "harness_drain_all i slot h = (h', Inl (Failed e))"
  shows "\<forall>s. e \<noteq> HarnessInvariant s"
  using harness_drain_all_step(2) [OF assms] by simp

lemma perform_failed:
  assumes "harness_ok h" and "call_ok c" and "perform c h = (h', Inl (Failed e))"
  shows "(\<forall>s. e \<noteq> HarnessInvariant s) \<and> (\<not> drains c \<longrightarrow> (\<forall>ce. e = Clearing ce \<longrightarrow> h' = h))"
proof (cases c)
  case (OpenCall i d gross env)
  with assms(2,3) have *: "harness_open i d gross env h = (h', Inl (Failed e))"
    "env_p_now env < 2 ^ 64" "gross < 2 ^ 64"
    by (auto simp: perform_def call_ok_def elim!: result_of_Failed)
  from harness_open_step(2,3) [OF assms(1) *(1) _ *(2,3)] show ?thesis by simp
next
  case (CloseCall pid env)
  with assms(2,3) have *: "harness_close pid env h = (h', Inl (Failed e))" "env_p_now env < 2 ^ 64"
    by (auto simp: perform_def call_ok_def elim!: result_of_Failed)
  from harness_close_step(2,3) [OF assms(1) *(1) _ *(2)] show ?thesis by simp
next
  case (ForceCloseCall pid env ack)
  with assms(2,3) have *: "harness_force_close pid env ack h = (h', Inl (Failed e))"
    "env_p_now env < 2 ^ 64"
    by (auto simp: perform_def call_ok_def elim!: result_of_Failed)
  from harness_force_close_step(2,3) [OF assms(1) *(1) _ *(2)] show ?thesis by simp
next
  case (ClaimCall pid env)
  with assms(2,3) have *: "harness_claim_recovery pid env h = (h', Inl (Failed e))"
    "env_p_now env < 2 ^ 64"
    by (auto simp: perform_def call_ok_def elim!: result_of_Failed)
  from harness_claim_step(2,3) [OF assms(1) *(1) _ *(2)] show ?thesis by simp
next
  case (SyncCall i env)
  with assms(2,3) have *: "harness_sync i env h = (h', Inl (Failed e))" "env_p_now env < 2 ^ 64"
    by (auto simp: perform_def call_ok_def elim!: result_of_Failed)
  from harness_sync_step(2,3) [OF assms(1) *(1) _ *(2)] show ?thesis by simp
next
  case (PreSyncCall i d tick slot)
  with assms(3) have *: "harness_pre_sync_bucket i d tick slot h = (h', Inl (Failed e))"
    by (auto simp: perform_def elim!: result_of_Failed)
  from harness_pre_sync_step(2,3) [OF assms(1) *(1)] show ?thesis by simp
next
  case (DrainCall i slot)
  with assms(3) have *: "harness_drain_all i slot h = (h', Inl (Failed e))"
    by (auto simp: perform_def elim!: result_of_Failed)
  from harness_drain_failed [OF assms(1) *] DrainCall show ?thesis by (simp add: drains_def)
next
  case (HarvestCall i d)
  with assms(3) have *: "harness_harvest_dust i d h = (h', Inl (Failed e))"
    by (auto simp: perform_def elim!: result_of_Failed)
  from harness_harvest_step(2,3) [OF assms(1) *(1)] show ?thesis by simp
qed

section \<open>Adding a sub-pool under an id in use\<close>

lemma overwrite_discards:
  assumes "harness_ok h"
  shows "let h' = add_sub_pool i price slot h in
    total_deposits h' = total_withdrawals h' + vault_balance h' + fee_vault_balance h'
    \<and> vault_balance h' = pool_funds (sub_pools h')
        + (case bt_get (sub_pools h) i of None \<Rightarrow> 0 | Some sp \<Rightarrow> vault sp)"
proof (cases "bt_get (sub_pools h) i")
  case None
  with add_sub_pool_ok [OF assms, of i price slot] show ?thesis
    by (simp add: Let_def harness_ok_def accounts_ok_def)
next
  case (Some sp)
  have w: "bt_wf (sub_pools h)" using assms by (simp add: harness_ok_def pools_ok_def)
  from pool_funds_put [OF w Some, of "new_sub_pool i price slot"] assms show ?thesis
    by (simp add: Some Let_def add_sub_pool_def harness_ok_def accounts_ok_def new_sub_pool_vault)
qed

section \<open>A drain that fails\<close>

text \<open>
  A drain is a sequence of calls, one for each bucket, and keeps the buckets it caught up. The
  error \<open>ce\<close> of a bucket leaves what draining the buckets before it leaves; its own call reverts.
\<close>

definition drain_stops_at :: "u32 \<Rightarrow> u64 \<Rightarrow> clearing_error \<Rightarrow> harness \<Rightarrow> harness \<Rightarrow> bool" where
  "drain_stops_at i slot ce h h' \<longleftrightarrow> (\<exists>sp done d tick rest n.
     bt_get (sub_pools h) i = Some sp
     \<and> map (\<lambda>t. (Long, t)) (bucket_ticks (long_dormant sp))
         @ map (\<lambda>t. (Short, t)) (bucket_ticks (short_dormant sp)) = done @ (d, tick) # rest
     \<and> drain_ticks i slot done 0 h = (h', Inr n)
     \<and> harness_pre_sync_bucket i d tick slot h' = (h', Inl (Failed (Clearing ce))))"

text \<open>What no part of a drain touches: the money of the whole harness and the positions.\<close>

definition same_money :: "harness \<Rightarrow> harness \<Rightarrow> bool" where
  "same_money h h' \<longleftrightarrow> positions h' = positions h \<and> next_position_id h' = next_position_id h
     \<and> vault_balance h' = vault_balance h \<and> fee_vault_balance h' = fee_vault_balance h
     \<and> total_deposits h' = total_deposits h \<and> total_withdrawals h' = total_withdrawals h
     \<and> fees_collected h' = fees_collected h \<and> dust_swept h' = dust_swept h"

lemma pre_sync_same_money:
  "harness_pre_sync_bucket i d tick slot h = (h', r) \<Longrightarrow> same_money h h'"
  by (auto simp: harness_pre_sync_bucket_def with_result_def feed_indexer_def put_sub_pool_def
      same_money_def split: sum.splits prod.splits)

lemma same_money_trans: "same_money h h1 \<Longrightarrow> same_money h1 h2 \<Longrightarrow> same_money h h2"
  by (simp add: same_money_def)

lemma drain_ticks_stop:
  assumes "harness_ok h" and "drain_ticks i slot ts acc h = (h', Inl (Failed (Clearing ce)))"
  shows "same_money h h' \<and> (\<exists>done d tick rest n. ts = done @ (d, tick) # rest
    \<and> drain_ticks i slot done acc h = (h', Inr n)
    \<and> harness_pre_sync_bucket i d tick slot h' = (h', Inl (Failed (Clearing ce))))"
  using assms
proof (induction i slot ts acc h rule: drain_ticks.induct)
  case (1 i slot acc h)
  then show ?case by simp
next
  case (2 i slot d tick rest acc h)
  obtain h1 r1 where p: "harness_pre_sync_bucket i d tick slot h = (h1, r1)" by fastforce
  note step = harness_pre_sync_step [OF "2.prems"(1) p] and money = pre_sync_same_money [OF p]
  consider (ran) out where "r1 = Inr out" | (missing) "r1 = Inl (Failed (Clearing DormantBucketMissing))"
    | (stopped) f where "r1 = Inl f" "f \<noteq> Failed (Clearing DormantBucketMissing)"
    by (cases r1) auto
  then show ?case
  proof cases
    case ran
    with step have "harness_ok h1" by simp
    from "2.IH"(2) [OF p [symmetric] ran this] "2.prems"(2)
    obtain done' d' tick' rest' n where "same_money h1 h'" "rest = done' @ (d', tick') # rest'"
      "drain_ticks i slot done' (min (acc + pr_events_applied out) (2 ^ 64 - 1)) h1 = (h', Inr n)"
      "harness_pre_sync_bucket i d' tick' slot h' = (h', Inl (Failed (Clearing ce)))"
      by (auto simp: p ran)
    then show ?thesis using same_money_trans [OF money]
      by (auto simp: p ran intro!: exI [of _ "(d, tick) # done'"])
  next
    case missing
    with step have ok: "harness_ok h1" by simp
    have "drain_ticks i slot rest acc h1 = (h', Inl (Failed (Clearing ce)))"
      using "2.prems"(2) by (simp add: p missing)
    from "2.IH"(1) [OF p [symmetric] missing refl refl refl ok this]
    obtain done' d' tick' rest' n where "same_money h1 h'" "rest = done' @ (d', tick') # rest'"
      "drain_ticks i slot done' acc h1 = (h', Inr n)"
      "harness_pre_sync_bucket i d' tick' slot h' = (h', Inl (Failed (Clearing ce)))"
      by blast
    then show ?thesis using same_money_trans [OF money]
      by (auto simp: p missing intro!: exI [of _ "(d, tick) # done'"])
  next
    case stopped
    with "2.prems"(2) p have "h' = h1" "f = Failed (Clearing ce)"
      by (auto split: failure.splits harness_error.splits clearing_error.splits)
    with stopped step(3) have "h' = h" "h1 = h" "r1 = Inl (Failed (Clearing ce))" by simp_all
    with p show ?thesis
      by (auto simp: same_money_def intro!: exI [of _ "[]"])
  qed
qed

lemma harness_drain_stop:
  assumes "harness_ok h" and "harness_drain_all i slot h = (h', Inl (Failed (Clearing ce)))"
  shows "drain_stops_at i slot ce h h' \<and> same_money h h'"
proof (cases "bt_get (sub_pools h) i")
  case None
  with assms(2) show ?thesis by (simp add: harness_drain_all_def with_result_def)
next
  case (Some sp)
  with assms(2) have "drain_ticks i slot (map (\<lambda>t. (Long, t)) (bucket_ticks (long_dormant sp))
      @ map (\<lambda>t. (Short, t)) (bucket_ticks (short_dormant sp))) 0 h
    = (h', Inl (Failed (Clearing ce)))" by (simp add: harness_drain_all_def with_result_def)
  from drain_ticks_stop [OF assms(1) this] Some show ?thesis
    unfolding drain_stops_at_def by blast
qed

section \<open>Properties\<close>

text \<open>
  C1: in every reachable state the books balance. Deposits are withdrawals plus the two
  vaults, the vault is exactly what the sub-pools hold between them, the fee vault is the
  fees collected, and every sub-pool is well formed with a share book in which the open
  positions account for all its shares. The runs are those that add each sub-pool id once
  (\<open>hstep\<close>); \<open>add_sub_pool\<close> itself takes any id, and the last part says what it does in every
  reachable state, with an id in use too: it discards exactly the funds of the sub-pool it
  overwrites. Deposits still match the vaults, and the vault keeps those funds, which no
  sub-pool holds any more.
\<close>

theorem reachable_books_balance:
  assumes "reachable market h"
  shows "total_deposits h = total_withdrawals h + vault_balance h + fee_vault_balance h
    \<and> vault_balance h = (\<Sum>(i, sp)\<leftarrow>sub_pools h. vault sp)
    \<and> fee_vault_balance h = fees_collected h
    \<and> (\<forall>i sp. bt_get (sub_pools h) i = Some sp \<longrightarrow> sub_pool_wf sp \<and> book_ok i sp (positions h))
    \<and> (\<forall>i price slot. let h' = add_sub_pool i price slot h in
         total_deposits h' = total_withdrawals h' + vault_balance h' + fee_vault_balance h'
         \<and> vault_balance h' = (\<Sum>(k, sp)\<leftarrow>sub_pools h'. vault sp)
             + (case bt_get (sub_pools h) i of None \<Rightarrow> 0 | Some sp \<Rightarrow> vault sp))"
  using reachable_ok [OF assms] overwrite_discards [OF reachable_ok [OF assms]]
  by (auto simp: harness_ok_def accounts_ok_def pools_ok_def pool_funds_def Let_def)

theorem reachable_books_balance_witness:
  "\<exists>h. reachable (demo_market Lazy) h \<and> total_deposits h = 1100000000
     \<and> total_deposits h = total_withdrawals h + vault_balance h + fee_vault_balance h"
proof -
  obtain h1 h2 h3 r1 r2 where
      h1: "harness_open 7 Long 100000000 (env_at 1000 1) (sample_h Lazy) = (h1, Inr r1)"
    and h2: "harness_open 7 Short 1000000000 (env_at 1000 1) h1 = (h2, Inr r2)"
    and h3: "harness_sync 7 (env_at 900 2) h2 = (h3, Inr ())" and d: "total_deposits h3 = 1100000000"
    using sample_run [of Lazy] by blast
  have e: "env_p_now (env_at 1000 1) < 2 ^ 64" "env_p_now (env_at 900 2) < 2 ^ 64"
    "(100000000::nat) < 2 ^ 64" "(1000000000::nat) < 2 ^ 64" by (simp_all add: env_at_def)
  have "reachable (demo_market Lazy) h1"
    by (rule next_call [OF sample_h_reachable opened [OF h1 _ e(1,3)]]) simp
  then have "reachable (demo_market Lazy) h2" by (rule next_call [OF _ opened [OF h2 _ e(1,4)]]) simp
  then have "reachable (demo_market Lazy) h3" by (rule next_call [OF _ synced [OF h3 _ e(2)]]) simp
  with reachable_books_balance [OF this] d show ?thesis by blast
qed

text \<open>
  the harness's own checks of conservation, of the vault and of the fees pass in every
  reachable state, without overflow: \<open>check_invariants\<close> is what its comparison of the
  indexer with the chain says.
\<close>

theorem reachable_checks_pass:
  assumes "reachable market h"
  shows "harness_check_invariants h = fold_res (check_mirror (h_indexer h)) (sub_pools h) ()"
  using checks_pass [OF reachable_ok [OF assms]] .

theorem reachable_checks_pass_witness:
  "harness_check_invariants (sample_h Eager) = Ok ()"
  using reachable_checks_pass [OF sample_h_reachable, of Eager]
  by (simp add: sample_h_def evals hevals)

text \<open>
  C2: calls are atomic, but for a drain. On an error of the engine every other call leaves the
  harness exactly as it was; a drain keeps the buckets it caught up before the one that
  failed, whose own call reverts, and even then no balance, counter or position has changed.
  No call ever reports a drained vault or a failed accounting identity: the engine never pays
  what the vault does not hold.
\<close>

theorem failed_calls_revert:
  assumes "reachable market h" and "call_ok c" and "perform c h = (h', Inl (Failed e))"
  shows "(\<forall>s. e \<noteq> HarnessInvariant s)
    \<and> (\<not> drains c \<longrightarrow> (\<forall>ce. e = Clearing ce \<longrightarrow> h' = h))
    \<and> (\<forall>i slot ce. c = DrainCall i slot \<and> e = Clearing ce
         \<longrightarrow> drain_stops_at i slot ce h h' \<and> same_money h h')"
proof -
  note ok = reachable_ok [OF assms(1)]
  have "drain_stops_at i slot ce h h' \<and> same_money h h'"
    if "c = DrainCall i slot" "e = Clearing ce" for i slot ce
    using assms(3) harness_drain_stop [OF ok]
    by (auto simp: that perform_def elim!: result_of_Failed)
  with perform_failed [OF ok assms(2,3)] show ?thesis by blast
qed

theorem failed_calls_revert_witness:
  "perform (OpenCall 7 Long 0 (env_at 1000 1)) (sample_h Eager)
     = (sample_h Eager, Inl (Failed (Clearing MarginBelowMinimum)))"
proof -
  have "\<exists>h'. perform (OpenCall 7 Long 0 (env_at 1000 1)) (sample_h Eager)
      = (h', Inl (Failed (Clearing MarginBelowMinimum)))"
    by (simp add: perform_def result_of_def sample_h_def evals hevals)
  then obtain h' where h': "perform (OpenCall 7 Long 0 (env_at 1000 1)) (sample_h Eager)
      = (h', Inl (Failed (Clearing MarginBelowMinimum)))" by blast
  have "call_ok (OpenCall 7 Long 0 (env_at 1000 1))" by (simp add: call_ok_def env_at_def)
  from failed_calls_revert [OF sample_h_reachable this h'] h' show ?thesis by (simp add: drains_def)
qed

end
