(* ===== verification/Bytes.thy ===== *)
theory Bytes
  imports Prelude
begin

text \<open>
  Byte-level encodings: little-endian integers of a fixed number of bytes
  (\<open>to_le_bytes\<close>, \<open>from_le_bytes\<close>), two's complement, slices that panic out of range, and the
  interface \<open>fixed_codec\<close> of an encoding of constant width with the facts every layout built
  from such fields uses: a field is read back at its offset, and concatenations of fields are
  injective.
\<close>

section \<open>Fixed-width codecs\<close>

locale fixed_codec =
  fixes enc :: "'a \<Rightarrow> u8 list"
    and dec :: "u8 list \<Rightarrow> 'a"
    and width :: nat
    and valid :: "'a \<Rightarrow> bool"
  assumes length_enc: "valid x \<Longrightarrow> length (enc x) = width"
    and dec_enc: "valid x \<Longrightarrow> dec (enc x) = x"
begin

lemma enc_eq_iff: "valid x \<Longrightarrow> valid y \<Longrightarrow> enc x = enc y \<longleftrightarrow> x = y"
  by (metis dec_enc)

text \<open>Two encodings followed by anything agree only if values and rests agree.\<close>

lemma enc_append_iff:
  assumes "valid x" and "valid y"
  shows "enc x @ xs = enc y @ ys \<longleftrightarrow> x = y \<and> xs = ys"
  using assms by (auto simp: length_enc enc_eq_iff append_eq_append_conv)

lemma read_field:
  assumes "valid x" and "length pre = off"
  shows "dec (take width (drop off (pre @ enc x @ post))) = x"
  using assms by (simp add: length_enc dec_enc)

end

section \<open>Little-endian integers\<close>

fun le_bytes :: "nat \<Rightarrow> nat \<Rightarrow> u8 list" where
  "le_bytes 0 v = []"
| "le_bytes (Suc n) v = v mod 256 # le_bytes n (v div 256)"

fun le_value :: "u8 list \<Rightarrow> nat" where
  "le_value [] = 0"
| "le_value (b # bs) = b + 256 * le_value bs"

lemma length_le_bytes [simp]: "length (le_bytes n v) = n"
  by (induction n v rule: le_bytes.induct) simp_all

lemma le_bytes_byte: "b \<in> set (le_bytes n v) \<Longrightarrow> b < 256"
  by (induction n v rule: le_bytes.induct) auto

lemma le_value_le_bytes: "le_value (le_bytes n v) = v mod 256 ^ n"
proof (induction n v rule: le_bytes.induct)
  case (2 n v)
  have "v mod 256 ^ Suc n = 256 * (v div 256 mod 256 ^ n) + v mod 256"
    using mod_mult2_eq [of v 256 "256 ^ n"] by simp
  with 2 show ?case by simp
qed simp

lemma le_value_less:
  "(\<And>b. b \<in> set bs \<Longrightarrow> b < 256) \<Longrightarrow> le_value bs < 256 ^ length bs"
proof (induction bs)
  case (Cons b bs)
  then have "le_value bs < 256 ^ length bs" and "b < 256" by simp_all
  then show ?case by simp
qed simp

lemma le_bytes_le_value:
  "(\<And>b. b \<in> set bs \<Longrightarrow> b < 256) \<Longrightarrow> le_bytes (length bs) (le_value bs) = bs"
  by (induction bs) auto

text \<open>Two's complement of a width.\<close>

definition signed_of :: "nat \<Rightarrow> nat \<Rightarrow> int" where
  "signed_of w v = (if v < 2 ^ (w - 1) then int v else int v - 2 ^ w)"

definition unsigned_of :: "nat \<Rightarrow> int \<Rightarrow> nat" where
  "unsigned_of w z = nat (z mod 2 ^ w)"

definition fits_signed :: "nat \<Rightarrow> int \<Rightarrow> bool" where
  "fits_signed w z \<longleftrightarrow> - (2 ^ (w - 1)) \<le> z \<and> z < 2 ^ (w - 1)"

lemma unsigned_of_less: "0 < w \<Longrightarrow> unsigned_of w z < 2 ^ w"
  by (simp add: unsigned_of_def nat_less_iff)

lemma signed_unsigned:
  assumes "fits_signed w z" and "0 < w"
  shows "signed_of w (unsigned_of w z) = z"
proof -
  have half: "(2::int) ^ w = 2 * 2 ^ (w - 1)"
    using assms(2) by (simp add: power_Suc [symmetric] del: power_Suc)
  show ?thesis
  proof (cases "0 \<le> z")
    case True
    then have "z mod 2 ^ w = z"
      using assms half by (intro mod_pos_pos_trivial) (auto simp: fits_signed_def)
    with True assms show ?thesis
      by (simp add: signed_of_def unsigned_of_def fits_signed_def nat_less_iff)
  next
    case False
    have "z mod 2 ^ w = (z + 2 ^ w) mod 2 ^ w" by simp
    also have "\<dots> = z + 2 ^ w"
      using False assms half by (intro mod_pos_pos_trivial) (auto simp: fits_signed_def)
    finally have m: "z mod 2 ^ w = z + 2 ^ w" .
    with False assms half show ?thesis
      by (simp add: signed_of_def unsigned_of_def fits_signed_def nat_less_iff)
  qed
qed

section \<open>The widths the program uses\<close>

definition u32_le :: "u32 \<Rightarrow> u8 list" where "u32_le v = le_bytes 4 v"
definition u64_le :: "u64 \<Rightarrow> u8 list" where "u64_le v = le_bytes 8 v"
definition i32_le :: "int \<Rightarrow> u8 list" where "i32_le z = le_bytes 4 (unsigned_of 32 z)"
definition i64_le :: "i64 \<Rightarrow> u8 list" where "i64_le z = le_bytes 8 (unsigned_of 64 z)"
definition bool_le :: "bool \<Rightarrow> u8 list" where "bool_le b = [if b then 1 else 0]"

interpretation u32c: fixed_codec u32_le le_value 4 "\<lambda>v. v < 2 ^ 32"
  by unfold_locales (simp_all add: u32_le_def le_value_le_bytes)

interpretation u64c: fixed_codec u64_le le_value 8 "\<lambda>v. v < 2 ^ 64"
  by unfold_locales (simp_all add: u64_le_def le_value_le_bytes)

interpretation i32c: fixed_codec i32_le "\<lambda>bs. signed_of 32 (le_value bs)" 4 "fits_signed 32"
proof
  fix z :: int
  assume z: "fits_signed 32 z"
  have "unsigned_of 32 z mod 256 ^ 4 = unsigned_of 32 z"
    using unsigned_of_less [of 32 z] by simp
  with z show "signed_of 32 (le_value (i32_le z)) = z"
    by (simp add: i32_le_def le_value_le_bytes signed_unsigned)
qed (simp add: i32_le_def)

interpretation i64c: fixed_codec i64_le "\<lambda>bs. signed_of 64 (le_value bs)" 8 "fits_signed 64"
proof
  fix z :: int
  assume z: "fits_signed 64 z"
  have "unsigned_of 64 z mod 256 ^ 8 = unsigned_of 64 z"
    using unsigned_of_less [of 64 z] by simp
  with z show "signed_of 64 (le_value (i64_le z)) = z"
    by (simp add: i64_le_def le_value_le_bytes signed_unsigned)
qed (simp add: i64_le_def)

interpretation boolc: fixed_codec bool_le "\<lambda>bs. hd bs \<noteq> 0" 1 "\<lambda>_. True"
  by unfold_locales (simp_all add: bool_le_def)

text \<open>A fixed array of bytes is its own encoding.\<close>

interpretation arrayc: fixed_codec "\<lambda>xs. xs" "\<lambda>xs. xs" n "\<lambda>xs. length xs = n"
  by unfold_locales simp_all

section \<open>Slices\<close>

text \<open>\<open>&bytes[off..off + n]\<close>, which panics past the end.\<close>

definition byte_slice :: "u8 list \<Rightarrow> nat \<Rightarrow> nat \<Rightarrow> ('e, u8 list) result" where
  "byte_slice bs off n =
     (if off + n \<le> length bs then Ok (take n (drop off bs))
      else Panic ''range end index out of range'')"

lemma byte_slice_in_range: "off + n \<le> length bs \<Longrightarrow> byte_slice bs off n = Inr (take n (drop off bs))"
  by (simp add: byte_slice_def)

end
