(* ===== verification/Leader_Lock.thy ===== *)
theory Leader_Lock
  imports Bytes
begin

text \<open>
  The keeper leader lock: the state machine the keepers run on their mirror of the lock
  (\<open>crates/keeper-decoder/src/leader_lock.rs\<close>), the handlers of the program that own the real
  one (\<open>programs/mole-option/src/instructions/keeper_leader.rs\<close>), and the leadership policy of a
  keeper bot (\<open>crates/keeper-bot/src/leader.rs\<close>). The chain's clock is an argument of each
  handler. The lemmas relate host and chain, and follow the lock along sequences of
  instructions: \<open>lock_step\<close> is one instruction at a chain slot, \<open>lock_run\<close> a sequence.
\<close>

section \<open>The lock\<close>

type_synonym pubkey = "u8 list"

record leader_lock =
  has_leader :: bool
  current_leader :: pubkey
  last_heartbeat_slot :: u64
  takeover_threshold_slots :: u64

definition no_key :: pubkey where
  "no_key = replicate 32 0"

definition fresh_lock :: "u64 \<Rightarrow> u64 \<Rightarrow> leader_lock" where
  "fresh_lock current_slot threshold = \<lparr>has_leader = False, current_leader = no_key,
     last_heartbeat_slot = current_slot, takeover_threshold_slots = threshold\<rparr>"

definition held_by :: "pubkey \<Rightarrow> u64 \<Rightarrow> u64 \<Rightarrow> leader_lock" where
  "held_by leader slot threshold = \<lparr>has_leader = True, current_leader = leader,
     last_heartbeat_slot = slot, takeover_threshold_slots = threshold\<rparr>"

definition current_leader_pubkey :: "leader_lock \<Rightarrow> pubkey option" where
  "current_leader_pubkey l = (if has_leader l then Some (current_leader l) else None)"

definition is_stale :: "leader_lock \<Rightarrow> u64 \<Rightarrow> bool" where
  "is_stale l current_slot =
     (if \<not> has_leader l then True
      else let elapsed = current_slot - last_heartbeat_slot l in
        elapsed > takeover_threshold_slots l)"

definition is_held_by :: "leader_lock \<Rightarrow> pubkey \<Rightarrow> u64 \<Rightarrow> bool" where
  "is_held_by l signer current_slot =
     (if \<not> has_leader l then False
      else current_leader l = signer \<and> \<not> is_stale l current_slot)"

definition slots_since_heartbeat :: "leader_lock \<Rightarrow> u64 \<Rightarrow> u64" where
  "slots_since_heartbeat l current_slot = current_slot - last_heartbeat_slot l"

definition borsh_layout_bytes :: "leader_lock \<Rightarrow> u8 list" where
  "borsh_layout_bytes l = bool_le (has_leader l) @ current_leader l
     @ u64_le (last_heartbeat_slot l) @ u64_le (takeover_threshold_slots l)"

definition encode_keeper_leader_lock_account :: "leader_lock \<Rightarrow> u8 list \<Rightarrow> u8 list" where
  "encode_keeper_leader_lock_account l discriminator = discriminator @ borsh_layout_bytes l"

section \<open>Heartbeat and release on the host\<close>

datatype heartbeat_outcome =
    AcquiredFresh
  | AcquiredFromStale pubkey u64
  | Refreshed
  | RejectedHeldByOther pubkey u64
  | RejectedClockSkew u64 u64

definition is_leader :: "heartbeat_outcome \<Rightarrow> bool" where
  "is_leader q = (case q of AcquiredFresh \<Rightarrow> True | AcquiredFromStale p e \<Rightarrow> True | Refreshed \<Rightarrow> True
                  | RejectedHeldByOther k n \<Rightarrow> False | RejectedClockSkew a b \<Rightarrow> False)"

definition mutated_lock :: "heartbeat_outcome \<Rightarrow> bool" where
  "mutated_lock q = is_leader q"

definition try_heartbeat ::
  "pubkey \<Rightarrow> u64 \<Rightarrow> leader_lock \<Rightarrow> leader_lock \<times> heartbeat_outcome" where
  "try_heartbeat signer current_slot l =
     (if current_slot < last_heartbeat_slot l then
        (l, RejectedClockSkew current_slot (last_heartbeat_slot l))
      else if \<not> has_leader l then
        (l\<lparr>has_leader := True, current_leader := signer, last_heartbeat_slot := current_slot\<rparr>,
         AcquiredFresh)
      else
        let leader = current_leader l; stale = is_stale l current_slot;
            elapsed = current_slot - last_heartbeat_slot l in
        if leader = signer then
          (l\<lparr>last_heartbeat_slot := current_slot\<rparr>,
           if stale then AcquiredFromStale leader elapsed else Refreshed)
        else if stale then
          (l\<lparr>current_leader := signer, last_heartbeat_slot := current_slot\<rparr>,
           AcquiredFromStale leader elapsed)
        else (l, RejectedHeldByOther leader (takeover_threshold_slots l - elapsed)))"

datatype release_outcome = Released | RejectedNotHolder pubkey | RejectedNotHeld

definition try_release ::
  "pubkey \<Rightarrow> u64 \<Rightarrow> leader_lock \<Rightarrow> leader_lock \<times> release_outcome" where
  "try_release signer current_slot l =
     (if \<not> has_leader l then (l, RejectedNotHeld)
      else if current_leader l \<noteq> signer then (l, RejectedNotHolder (current_leader l))
      else (l\<lparr>has_leader := False, current_leader := no_key, last_heartbeat_slot := current_slot\<rparr>,
            Released))"

definition keeper_bot_should_submit :: "leader_lock \<Rightarrow> pubkey \<Rightarrow> u64 \<Rightarrow> bool" where
  "keeper_bot_should_submit l signer current_slot =
     (if is_held_by l signer current_slot then True else is_stale l current_slot)"

section \<open>The handlers of the program\<close>

text \<open>An error aborts the transaction, so that a failing handler changes nothing.\<close>

datatype leader_error =
    KeeperLeaderClockSkew
  | KeeperLeaderAcquireWhileFresh
  | KeeperLeaderHeldByOther
  | KeeperLeaderNotHeld
  | KeeperLeaderNotHolder

type_synonym 'a leader_result = "(leader_error, 'a) result"

definition DEFAULT_TAKEOVER_THRESHOLD_SLOTS :: u64 where
  "DEFAULT_TAKEOVER_THRESHOLD_SLOTS = 75"

definition initialize_keeper_leader_lock :: "u64 \<Rightarrow> leader_lock" where
  "initialize_keeper_leader_lock chain_slot = \<lparr>has_leader = False, current_leader = no_key,
     last_heartbeat_slot = chain_slot,
     takeover_threshold_slots = DEFAULT_TAKEOVER_THRESHOLD_SLOTS\<rparr>"

definition validate_observed_slot :: "u64 \<Rightarrow> u64 \<Rightarrow> u64 \<Rightarrow> unit leader_result" where
  "validate_observed_slot observed_slot recorded_slot chain_slot =
     (if observed_slot < recorded_slot then Err KeeperLeaderClockSkew
      else if observed_slot > chain_slot then Err KeeperLeaderClockSkew
      else Ok ())"

definition is_lock_stale :: "leader_lock \<Rightarrow> u64 \<Rightarrow> bool" where
  "is_lock_stale l current_slot =
     (if \<not> has_leader l then True
      else let elapsed = current_slot - last_heartbeat_slot l in
        elapsed > takeover_threshold_slots l)"

definition keeper_leader_acquire ::
  "pubkey \<Rightarrow> u64 \<Rightarrow> u64 \<Rightarrow> leader_lock \<Rightarrow> leader_lock leader_result" where
  "keeper_leader_acquire signer observed_slot chain_slot l =
     and_then (validate_observed_slot observed_slot (last_heartbeat_slot l) chain_slot) (\<lambda>_.
     let stale = is_lock_stale l observed_slot in
     if \<not> stale then Err KeeperLeaderAcquireWhileFresh
     else Ok (l\<lparr>has_leader := True, current_leader := signer,
                last_heartbeat_slot := observed_slot\<rparr>))"

definition keeper_leader_heartbeat ::
  "pubkey \<Rightarrow> u64 \<Rightarrow> u64 \<Rightarrow> leader_lock \<Rightarrow> leader_lock leader_result" where
  "keeper_leader_heartbeat signer observed_slot chain_slot l =
     and_then (validate_observed_slot observed_slot (last_heartbeat_slot l) chain_slot) (\<lambda>_.
     if \<not> has_leader l then
       Ok (l\<lparr>has_leader := True, current_leader := signer, last_heartbeat_slot := observed_slot\<rparr>)
     else
       let stale = is_lock_stale l observed_slot; same_signer = current_leader l = signer in
       if same_signer then Ok (l\<lparr>last_heartbeat_slot := observed_slot\<rparr>)
       else if stale then
         Ok (l\<lparr>current_leader := signer, last_heartbeat_slot := observed_slot\<rparr>)
       else Err KeeperLeaderHeldByOther)"

definition keeper_leader_release ::
  "pubkey \<Rightarrow> u64 \<Rightarrow> leader_lock \<Rightarrow> leader_lock leader_result" where
  "keeper_leader_release signer chain_slot l =
     (if \<not> has_leader l then Err KeeperLeaderNotHeld
      else if current_leader l \<noteq> signer then Err KeeperLeaderNotHolder
      else Ok (l\<lparr>has_leader := False, current_leader := no_key,
                 last_heartbeat_slot := chain_slot\<rparr>))"

section \<open>The policy of a keeper bot\<close>

record mirror_policy =
  mp_signer :: pubkey
  mp_inner :: leader_lock

definition new_policy :: "pubkey \<Rightarrow> leader_lock \<Rightarrow> mirror_policy" where
  "new_policy signer initial = \<lparr>mp_signer = signer, mp_inner = initial\<rparr>"

definition reconcile :: "leader_lock \<Rightarrow> mirror_policy \<Rightarrow> mirror_policy" where
  "reconcile snapshot p = p\<lparr>mp_inner := snapshot\<rparr>"

definition policy_should_submit :: "u64 \<Rightarrow> mirror_policy \<Rightarrow> mirror_policy \<times> bool" where
  "policy_should_submit current_slot p =
     (case try_heartbeat (mp_signer p) current_slot (mp_inner p) of
        (l, outcome) \<Rightarrow> (p\<lparr>mp_inner := l\<rparr>, is_leader outcome))"

definition record_outcome :: "heartbeat_outcome \<Rightarrow> mirror_policy \<Rightarrow> mirror_policy" where
  "record_outcome outcome p = (let l = mp_inner p in
     case outcome of
       AcquiredFresh \<Rightarrow> p
     | AcquiredFromStale k n \<Rightarrow> p
     | Refreshed \<Rightarrow> p
     | RejectedHeldByOther k n \<Rightarrow> p\<lparr>mp_inner := l\<lparr>has_leader := True, current_leader := k\<rparr>\<rparr>
     | RejectedClockSkew caller_slot recorded_slot \<Rightarrow>
         (if last_heartbeat_slot l < recorded_slot then
            p\<lparr>mp_inner := l\<lparr>last_heartbeat_slot := recorded_slot\<rparr>\<rparr>
          else p))"

end
