(* ===== verification/Leader_Properties.thy ===== *)
theory Leader_Properties
  imports Leader_Lock
begin

text \<open>
  What the leader lock guarantees. The behaviour of the chain is the step relation
  \<open>lock_step\<close>: an instruction arrives at a chain slot no earlier than the last one and either
  takes effect or is rejected; \<open>lock_run\<close> is a sequence of such steps.
\<close>

section \<open>Instructions at chain slots\<close>

datatype lock_ix =
    Acquire pubkey u64
  | Heartbeat pubkey u64
  | Release pubkey

definition exec_lock_ix :: "lock_ix \<Rightarrow> u64 \<Rightarrow> leader_lock \<Rightarrow> leader_lock leader_result" where
  "exec_lock_ix ix chain_slot l = (case ix of
     Acquire k obs \<Rightarrow> keeper_leader_acquire k obs chain_slot l
   | Heartbeat k obs \<Rightarrow> keeper_leader_heartbeat k obs chain_slot l
   | Release k \<Rightarrow> keeper_leader_release k chain_slot l)"

inductive lock_step :: "leader_lock \<times> u64 \<Rightarrow> lock_ix \<Rightarrow> leader_lock \<times> u64 \<Rightarrow> bool" where
  accepted: "clock \<le> now \<Longrightarrow> exec_lock_ix ix now l = Inr l' \<Longrightarrow> lock_step (l, clock) ix (l', now)"
| rejected: "clock \<le> now \<Longrightarrow> exec_lock_ix ix now l = Inl e \<Longrightarrow> lock_step (l, clock) ix (l, now)"

inductive lock_run :: "leader_lock \<times> u64 \<Rightarrow> lock_ix list \<Rightarrow> leader_lock \<times> u64 \<Rightarrow> bool" where
  lock_run_nil: "lock_run s [] s"
| lock_run_cons: "lock_step s ix s' \<Longrightarrow> lock_run s' ixs s'' \<Longrightarrow> lock_run s (ix # ixs) s''"

inductive_cases lock_stepE: "lock_step (l, c) ix (l', c')"
inductive_cases lock_run_nilE: "lock_run s [] s'"
inductive_cases lock_run_consE: "lock_run s (ix # ixs) s'"

lemmas lock_handlers = keeper_leader_acquire_def keeper_leader_heartbeat_def
  keeper_leader_release_def validate_observed_slot_def is_lock_stale_def

lemma is_lock_stale_eq: "is_lock_stale = is_stale"
  by (simp add: fun_eq_iff is_lock_stale_def is_stale_def)

section \<open>The invariant\<close>

definition lock_ok :: "leader_lock \<Rightarrow> u64 \<Rightarrow> bool" where
  "lock_ok l clock \<longleftrightarrow> last_heartbeat_slot l \<le> clock \<and> (\<not> has_leader l \<longrightarrow> current_leader l = no_key)"

lemma exec_lock_ix_ok:
  assumes "exec_lock_ix ix now l = Inr l'" and "lock_ok l clock" and "clock \<le> now"
  shows "lock_ok l' now" and "last_heartbeat_slot l \<le> last_heartbeat_slot l'"
    and "takeover_threshold_slots l' = takeover_threshold_slots l"
  using assms
  by (cases ix; auto simp: exec_lock_ix_def lock_handlers lock_ok_def Let_def split: if_splits)+

lemma lock_step_ok:
  assumes "lock_step (l, clock) ix (l', clock')" and "lock_ok l clock"
  shows "lock_ok l' clock'" and "last_heartbeat_slot l \<le> last_heartbeat_slot l'"
    and "takeover_threshold_slots l' = takeover_threshold_slots l" and "clock \<le> clock'"
  using assms
  by (auto elim!: lock_stepE dest: exec_lock_ix_ok simp: lock_ok_def intro: order_trans)

lemma lock_run_ok:
  assumes "lock_run s ixs s'" and "lock_ok (fst s) (snd s)"
  shows "lock_ok (fst s') (snd s') \<and> last_heartbeat_slot (fst s) \<le> last_heartbeat_slot (fst s')
    \<and> takeover_threshold_slots (fst s') = takeover_threshold_slots (fst s) \<and> snd s \<le> snd s'"
  using assms
proof (induction rule: lock_run.induct)
  case (lock_run_cons s ix s' ixs s'')
  have "lock_step (fst s, snd s) ix (fst s', snd s')" using lock_run_cons.hyps(1) by simp
  note st = lock_step_ok [OF this lock_run_cons.prems]
  with lock_run_cons.IH show ?case by auto
qed simp

lemma lock_run_clock: "lock_run s ixs s' \<Longrightarrow> snd s \<le> snd s'"
  by (induction rule: lock_run.induct) (auto elim!: lock_step.cases)

section \<open>The lease\<close>

lemma lease_step:
  assumes "lock_step (l, clock) ix (l', clock')"
    and "has_leader l" and "current_leader l = k" and "ix \<noteq> Release k"
    and "clock' \<le> last_heartbeat_slot l + takeover_threshold_slots l"
  shows "has_leader l' \<and> current_leader l' = k \<and> last_heartbeat_slot l \<le> last_heartbeat_slot l'
    \<and> takeover_threshold_slots l' = takeover_threshold_slots l"
  using assms
  by (cases ix; auto elim!: lock_stepE
        simp: exec_lock_ix_def lock_handlers Let_def split: if_splits)

lemma lease_run:
  assumes "lock_run s ixs s'"
    and "has_leader (fst s)" and "current_leader (fst s) = k" and "Release k \<notin> set ixs"
    and "snd s' \<le> last_heartbeat_slot (fst s) + takeover_threshold_slots (fst s)"
  shows "has_leader (fst s') \<and> current_leader (fst s') = k"
  using assms
proof (induction rule: lock_run.induct)
  case (lock_run_cons s ix s' ixs s'')
  have late: "snd s' \<le> snd s''" using lock_run_cons.hyps(2) by (rule lock_run_clock)
  have "lock_step (fst s, snd s) ix (fst s', snd s')" using lock_run_cons.hyps(1) by simp
  from lease_step [OF this] lock_run_cons.prems late
  have "has_leader (fst s') \<and> current_leader (fst s') = k
    \<and> last_heartbeat_slot (fst s) \<le> last_heartbeat_slot (fst s')
    \<and> takeover_threshold_slots (fst s') = takeover_threshold_slots (fst s)"
    by auto
  then show ?case using lock_run_cons by auto
qed simp

text \<open>
  C21: a leader's lease cannot be taken: from a state where a keeper leads, whatever
  instructions the other keepers send and however often it refreshes, it still leads as long
  as it has not released the lock and the chain's clock has not passed its last heartbeat by
  more than the takeover threshold.
\<close>

theorem leader_keeps_lease:
  assumes "lock_run (l, clock) ixs (l', clock')"
    and "has_leader l" and "current_leader l = k" and "Release k \<notin> set ixs"
    and "clock' \<le> last_heartbeat_slot l + takeover_threshold_slots l"
  shows "current_leader_pubkey l' = Some k"
  using lease_run [OF assms(1)] assms(2-) by (simp add: current_leader_pubkey_def)

definition key_of :: "nat \<Rightarrow> pubkey" where
  "key_of n = replicate 32 n"

theorem leader_keeps_lease_witness:
  "current_leader_pubkey (held_by (key_of 1) 130 75) = Some (key_of 1)"
proof (rule leader_keeps_lease)
  let ?l = "held_by (key_of 1) 100 75"
  have "lock_step (?l, 110) (Acquire (key_of 2) 120) (?l, 120)"
    by (rule rejected [where e = "Failed KeeperLeaderAcquireWhileFresh"])
      (simp_all add: exec_lock_ix_def lock_handlers held_by_def)
  moreover have "lock_step (?l, 120) (Heartbeat (key_of 1) 130) (held_by (key_of 1) 130 75, 140)"
    by (rule accepted) (simp_all add: exec_lock_ix_def lock_handlers held_by_def)
  ultimately show "lock_run (?l, 110) [Acquire (key_of 2) 120, Heartbeat (key_of 1) 130]
      (held_by (key_of 1) 130 75, 140)"
    by (blast intro: lock_run_cons lock_run_nil)
qed (simp_all add: held_by_def)

section \<open>Heartbeats\<close>

text \<open>
  along every run of the chain from an initialised lock, the recorded heartbeat never
  moves backwards and never lies in the chain's future, the takeover threshold is constant,
  and an unowned lock names nobody.
\<close>

theorem heartbeat_monotone:
  assumes "lock_run (initialize_keeper_leader_lock start, start) ixs (l, clock)"
    and "lock_run (l, clock) ixs' (l', clock')"
  shows "last_heartbeat_slot l \<le> last_heartbeat_slot l' \<and> last_heartbeat_slot l' \<le> clock'
    \<and> takeover_threshold_slots l' = DEFAULT_TAKEOVER_THRESHOLD_SLOTS
    \<and> (\<not> has_leader l' \<longrightarrow> current_leader l' = no_key)"
proof -
  have "lock_ok (initialize_keeper_leader_lock start) start"
    by (simp add: lock_ok_def initialize_keeper_leader_lock_def)
  with lock_run_ok [OF assms(1)] lock_run_ok [OF assms(2)] show ?thesis
    by (auto simp: lock_ok_def initialize_keeper_leader_lock_def)
qed

theorem heartbeat_monotone_witness:
  "last_heartbeat_slot (initialize_keeper_leader_lock 100)
      \<le> last_heartbeat_slot (held_by (key_of 1) 105 75)
    \<and> last_heartbeat_slot (held_by (key_of 1) 105 75) \<le> 110
    \<and> takeover_threshold_slots (held_by (key_of 1) 105 75) = DEFAULT_TAKEOVER_THRESHOLD_SLOTS"
proof -
  have "lock_run (initialize_keeper_leader_lock 100, 100) [] (initialize_keeper_leader_lock 100, 100)"
    by (rule lock_run_nil)
  moreover have "lock_step (initialize_keeper_leader_lock 100, 100) (Heartbeat (key_of 1) 105)
      (held_by (key_of 1) 105 75, 110)"
    by (rule accepted) (simp_all add: exec_lock_ix_def lock_handlers held_by_def
        initialize_keeper_leader_lock_def DEFAULT_TAKEOVER_THRESHOLD_SLOTS_def)
  then have "lock_run (initialize_keeper_leader_lock 100, 100) [Heartbeat (key_of 1) 105]
      (held_by (key_of 1) 105 75, 110)"
    by (blast intro: lock_run_cons lock_run_nil)
  ultimately show ?thesis using heartbeat_monotone by blast
qed

text \<open>
  the lock never stays stuck: once it has no leader, or its leader has been silent for
  more than the threshold, every keeper whose observed slot is between the last heartbeat and
  the chain's slot takes it, by either instruction, and a release makes that possible at once.
\<close>

theorem takeover_possible:
  assumes "lock_ok l clock" and "clock \<le> obs" and "obs \<le> now"
    and "\<not> has_leader l \<or> last_heartbeat_slot l + takeover_threshold_slots l < obs"
  shows "keeper_leader_acquire k obs now l = Ok (held_by k obs (takeover_threshold_slots l))
    \<and> keeper_leader_heartbeat k obs now l = Ok (held_by k obs (takeover_threshold_slots l))
    \<and> (\<exists>l'. keeper_leader_release k now (held_by k obs (takeover_threshold_slots l)) = Ok l'
         \<and> keeper_leader_acquire k' now now l' = Ok (held_by k' now (takeover_threshold_slots l)))"
  using assms by (auto simp: lock_handlers held_by_def lock_ok_def Let_def)

theorem takeover_possible_witness:
  "keeper_leader_acquire (key_of 2) 176 180 (held_by (key_of 1) 100 75) = Ok (held_by (key_of 2) 176 75)"
  using takeover_possible [of "held_by (key_of 1) 100 75" 100 176 180 "key_of 2" "key_of 3"]
  by (simp add: lock_ok_def held_by_def)

section \<open>Host and chain\<close>

lemma heartbeat_by_host:
  assumes "obs \<le> now"
  shows "keeper_leader_heartbeat k obs now l =
    (case try_heartbeat k obs l of (l', q) \<Rightarrow>
       if is_leader q then Ok l'
       else if (\<exists>a b. q = RejectedClockSkew a b) then Err KeeperLeaderClockSkew
       else Err KeeperLeaderHeldByOther)"
  using assms
  by (auto simp: keeper_leader_heartbeat_def validate_observed_slot_def try_heartbeat_def
      is_lock_stale_eq is_leader_def Let_def)

text \<open>
  the host's \<open>try_heartbeat\<close> predicts the program's heartbeat: for a slot the chain has
  reached, the handler succeeds exactly when the host says the signer leads, with the lock
  the host computed, and fails with the error that the host's outcome names.
\<close>

theorem heartbeat_matches_host:
  assumes "obs \<le> now"
  shows "keeper_leader_heartbeat k obs now l =
    (case try_heartbeat k obs l of (l', q) \<Rightarrow>
       if is_leader q then Ok l'
       else if (\<exists>a b. q = RejectedClockSkew a b) then Err KeeperLeaderClockSkew
       else Err KeeperLeaderHeldByOther)"
  using assms by (rule heartbeat_by_host)

theorem heartbeat_matches_host_witness:
  "keeper_leader_heartbeat (key_of 2) 110 120 (held_by (key_of 1) 100 75) = Err KeeperLeaderHeldByOther"
  using heartbeat_matches_host [of 110 120 "key_of 2" "held_by (key_of 1) 100 75"]
  by (simp add: try_heartbeat_def held_by_def is_stale_def is_leader_def key_of_def Let_def)

lemma policy_predicts_chain:
  assumes "policy_should_submit obs p = (p', True)" and "obs \<le> now"
  shows "keeper_leader_heartbeat (mp_signer p) obs now (mp_inner p) = Ok (mp_inner p')"
  using assms
  by (auto simp: heartbeat_by_host policy_should_submit_def split: prod.splits)

text \<open>
  the pre-check of the keeper bot is the heartbeat's own condition, except that it does
  not see a clock behind the recorded heartbeat: the bot submits a heartbeat that cannot
  succeed exactly when its slot is older than the lock's and the lock is its own or unowned.
\<close>

theorem bot_check_exact:
  "(is_leader (snd (try_heartbeat k slot l))
      \<longleftrightarrow> last_heartbeat_slot l \<le> slot \<and> keeper_bot_should_submit l k slot)
   \<and> (keeper_bot_should_submit l k slot \<and> \<not> is_leader (snd (try_heartbeat k slot l))
      \<longleftrightarrow> slot < last_heartbeat_slot l \<and> current_leader_pubkey l \<in> {None, Some k})"
  by (auto simp: try_heartbeat_def is_leader_def keeper_bot_should_submit_def is_held_by_def
      is_stale_def current_leader_pubkey_def Let_def)

section \<open>The account bytes\<close>

definition lock_wf :: "leader_lock \<Rightarrow> bool" where
  "lock_wf l \<longleftrightarrow> length (current_leader l) = 32 \<and> last_heartbeat_slot l < 2 ^ 64
     \<and> takeover_threshold_slots l < 2 ^ 64"

text \<open>
  the account layout is 49 bytes and loses nothing: two locks with the same bytes are the
  same lock, and the heartbeat slot is read back at byte 33.
\<close>

theorem lock_layout_exact:
  assumes "lock_wf l" and "lock_wf l'"
  shows "length (borsh_layout_bytes l) = 49
    \<and> (borsh_layout_bytes l = borsh_layout_bytes l' \<longleftrightarrow> l = l')
    \<and> le_value (take 8 (drop 33 (borsh_layout_bytes l))) = last_heartbeat_slot l"
proof (intro conjI)
  show "length (borsh_layout_bytes l) = 49"
    using assms(1) by (simp add: borsh_layout_bytes_def lock_wf_def bool_le_def u64_le_def)
  have "borsh_layout_bytes l = borsh_layout_bytes l' \<Longrightarrow> l = l'"
    using assms
    by (simp add: borsh_layout_bytes_def lock_wf_def boolc.enc_append_iff u64c.enc_append_iff
        u64c.enc_eq_iff arrayc.enc_append_iff [where n = 32])
  then show "borsh_layout_bytes l = borsh_layout_bytes l' \<longleftrightarrow> l = l'" by blast
  show "le_value (take 8 (drop 33 (borsh_layout_bytes l))) = last_heartbeat_slot l"
    using assms(1) u64c.read_field [of "last_heartbeat_slot l" "bool_le (has_leader l) @ current_leader l"]
    by (simp add: borsh_layout_bytes_def lock_wf_def bool_le_def)
qed

theorem lock_layout_exact_witness:
  "borsh_layout_bytes (held_by (key_of 1) 100 75) \<noteq> borsh_layout_bytes (fresh_lock 100 75)"
  using lock_layout_exact [of "held_by (key_of 1) 100 75" "fresh_lock 100 75"]
  by (simp add: lock_wf_def held_by_def fresh_lock_def key_of_def no_key_def)

end
