(* ===== verification/Pyth_Adapter.thy ===== *)
theory Pyth_Adapter
  imports Bytes Molemath
begin

text \<open>
  The oracle validator of \<open>crates/pyth-adapter/src/lib.rs\<close>: the bytes of a price account are
  read at fixed offsets, checked one after the other, and the price is rescaled to
  \<open>PRICE_SCALE\<close>. Slices are the panicking slices of the code; that no panic is reachable is part
  of what is proved.
\<close>

section \<open>Constants and types\<close>

definition PYTH_MAGIC :: u32 where "PYTH_MAGIC = 0xa1b2c3d4"
definition PYTH_VERSION :: u32 where "PYTH_VERSION = 2"
definition PYTH_ACCOUNT_TYPE_PRICE :: u32 where "PYTH_ACCOUNT_TYPE_PRICE = 3"
definition PYTH_STATUS_TRADING :: u32 where "PYTH_STATUS_TRADING = 1"
definition MIN_EXPO :: int where "MIN_EXPO = - 18"
definition MAX_EXPO :: int where "MAX_EXPO = 0"
definition MIN_HEADER_BYTES :: nat where "MIN_HEADER_BYTES = 240"

definition MAGIC_OFFSET :: nat where "MAGIC_OFFSET = 0"
definition VERSION_OFFSET :: nat where "VERSION_OFFSET = 4"
definition ATYPE_OFFSET :: nat where "ATYPE_OFFSET = 8"
definition EXPO_OFFSET :: nat where "EXPO_OFFSET = 20"
definition AGG_PRICE_OFFSET :: nat where "AGG_PRICE_OFFSET = 208"
definition AGG_CONF_OFFSET :: nat where "AGG_CONF_OFFSET = 216"
definition AGG_STATUS_OFFSET :: nat where "AGG_STATUS_OFFSET = 224"
definition AGG_PUB_SLOT_OFFSET :: nat where "AGG_PUB_SLOT_OFFSET = 232"

lemmas offset_defs = MAGIC_OFFSET_def VERSION_OFFSET_def ATYPE_OFFSET_def EXPO_OFFSET_def
  AGG_PRICE_OFFSET_def AGG_CONF_OFFSET_def AGG_STATUS_OFFSET_def AGG_PUB_SLOT_OFFSET_def

datatype oracle_error =
    TooSmall nat nat
  | WrongOwner
  | MagicMismatch u32
  | VersionMismatch u32
  | NotPriceAccount u32
  | NotTrading u32
  | ExpoOutOfRange int
  | ConfidenceTooWide u128
  | Stale u64
  | NonPositivePrice i64
  | OracleMathOverflow

type_synonym 'a oracle_result = "(oracle_error, 'a) result"

record validated_price =
  vp_price :: u64
  vp_confidence :: u64
  vp_expo :: int
  vp_publish_slot :: u64

record validation_policy =
  max_age_slots :: u64
  policy_max_confidence_bps :: u64

definition default_policy :: validation_policy where
  "default_policy = \<lparr>max_age_slots = 25, policy_max_confidence_bps = 100\<rparr>"

section \<open>Reading fields\<close>

definition read_u32_le :: "u8 list \<Rightarrow> nat \<Rightarrow> u32 oracle_result" where
  "read_u32_le bs off = and_then (byte_slice bs off 4) (\<lambda>f. Ok (le_value f))"

definition read_i32_le :: "u8 list \<Rightarrow> nat \<Rightarrow> int oracle_result" where
  "read_i32_le bs off = and_then (byte_slice bs off 4) (\<lambda>f. Ok (signed_of 32 (le_value f)))"

definition read_u64_le :: "u8 list \<Rightarrow> nat \<Rightarrow> u64 oracle_result" where
  "read_u64_le bs off = and_then (byte_slice bs off 8) (\<lambda>f. Ok (le_value f))"

definition read_i64_le :: "u8 list \<Rightarrow> nat \<Rightarrow> i64 oracle_result" where
  "read_i64_le bs off = and_then (byte_slice bs off 8) (\<lambda>f. Ok (signed_of 64 (le_value f)))"

section \<open>Rescaling\<close>

definition pow10 :: "int \<Rightarrow> u128 oracle_result" where
  "pow10 n =
     (if \<not> (0 \<le> n \<and> n \<le> 18) then Err (ExpoOutOfRange n)
      else fold_res (\<lambda>_ acc. ok_or (checked_mul_w 128 acc 10) OracleMathOverflow) [0..<nat n] 1)"

definition rescale_to_price_scale :: "u128 \<Rightarrow> int \<Rightarrow> u128 oracle_result" where
  "rescale_to_price_scale raw expo = (let target_expo = - 8 in
     if expo = target_expo then Ok raw
     else if expo > target_expo then
       and_then (pow10 (expo - target_expo)) (\<lambda>factor.
       ok_or (checked_mul_w 128 raw factor) OracleMathOverflow)
     else
       and_then (pow10 (target_expo - expo)) (\<lambda>factor. Ok (raw div factor)))"

definition to_u64 :: "u128 \<Rightarrow> u64 oracle_result" where
  "to_u64 v = (if v < 2 ^ 64 then Ok v else Err OracleMathOverflow)"

section \<open>Validation\<close>

definition validate_price_account ::
  "u8 list \<Rightarrow> u8 list \<Rightarrow> u8 list \<Rightarrow> u64 \<Rightarrow> validation_policy \<Rightarrow> validated_price oracle_result" where
  "validate_price_account account_data account_owner expected_owner current_slot policy =
     (if length account_data < MIN_HEADER_BYTES then
        Err (TooSmall (length account_data) MIN_HEADER_BYTES)
      else if account_owner \<noteq> expected_owner then Err WrongOwner
      else
        and_then (read_u32_le account_data MAGIC_OFFSET) (\<lambda>magic.
        if magic \<noteq> PYTH_MAGIC then Err (MagicMismatch magic)
        else
        and_then (read_u32_le account_data VERSION_OFFSET) (\<lambda>version.
        if version \<noteq> PYTH_VERSION then Err (VersionMismatch version)
        else
        and_then (read_u32_le account_data ATYPE_OFFSET) (\<lambda>atype.
        if atype \<noteq> PYTH_ACCOUNT_TYPE_PRICE then Err (NotPriceAccount atype)
        else
        and_then (read_i32_le account_data EXPO_OFFSET) (\<lambda>expo.
        if \<not> (MIN_EXPO \<le> expo \<and> expo \<le> MAX_EXPO) then Err (ExpoOutOfRange expo)
        else
        and_then (read_u32_le account_data AGG_STATUS_OFFSET) (\<lambda>status.
        if status \<noteq> PYTH_STATUS_TRADING then Err (NotTrading status)
        else
        and_then (read_i64_le account_data AGG_PRICE_OFFSET) (\<lambda>raw_price.
        if raw_price \<le> 0 then Err (NonPositivePrice raw_price)
        else
        and_then (read_u64_le account_data AGG_CONF_OFFSET) (\<lambda>raw_conf.
        and_then (read_u64_le account_data AGG_PUB_SLOT_OFFSET) (\<lambda>publish_slot.
        let age = current_slot - publish_slot in
        if age > max_age_slots policy then Err (Stale age)
        else
        let raw_price_u = nat raw_price in
        and_then (map_err (\<lambda>_. OracleMathOverflow) (mul_div_floor raw_conf 10000 raw_price_u))
          (\<lambda>conf_bps.
        if conf_bps > policy_max_confidence_bps policy then Err (ConfidenceTooWide conf_bps)
        else
        and_then (rescale_to_price_scale (nat raw_price) expo) (\<lambda>price.
        and_then (rescale_to_price_scale raw_conf expo) (\<lambda>confidence.
        and_then (to_u64 price) (\<lambda>price'.
        and_then (to_u64 confidence) (\<lambda>confidence'.
        Ok \<lparr>vp_price = price', vp_confidence = confidence', vp_expo = expo,
            vp_publish_slot = publish_slot\<rparr>))))))))))))))"

section \<open>What the validator computes\<close>

lemma reads_in_range [simp]:
  "off + 4 \<le> length bs \<Longrightarrow> read_u32_le bs off = Inr (le_value (take 4 (drop off bs)))"
  "off + 4 \<le> length bs \<Longrightarrow> read_i32_le bs off = Inr (signed_of 32 (le_value (take 4 (drop off bs))))"
  "off + 8 \<le> length bs \<Longrightarrow> read_u64_le bs off = Inr (le_value (take 8 (drop off bs)))"
  "off + 8 \<le> length bs \<Longrightarrow> read_i64_le bs off = Inr (signed_of 64 (le_value (take 8 (drop off bs))))"
  by (simp_all add: read_u32_le_def read_i32_le_def read_u64_le_def read_i64_le_def byte_slice_def)

lemma pow10_loop:
  assumes "a * 10 ^ length xs < 2 ^ 128"
  shows "fold_res (\<lambda>_ acc. ok_or (checked_mul_w 128 acc 10) OracleMathOverflow) xs a
    = Inr (a * 10 ^ length xs)"
  using assms
proof (induction xs arbitrary: a)
  case (Cons x xs)
  have "a * 10 \<le> a * 10 ^ length (x # xs)" by simp
  with Cons.prems have "a * 10 < 2 ^ 128" by linarith
  with Cons show ?case by (simp add: checked_mul_w_def mult.assoc)
qed simp

lemma pow10_exact:
  assumes "0 \<le> n" and "n \<le> 18"
  shows "pow10 n = Inr (10 ^ nat n)"
proof -
  have "(10::nat) ^ nat n \<le> 10 ^ 18" using assms by (intro power_increasing) auto
  then have "(1::nat) * 10 ^ length [0..<nat n] < 2 ^ 128" by simp
  from pow10_loop [OF this] assms show ?thesis by (simp add: pow10_def)
qed

definition rescaled :: "nat \<Rightarrow> int \<Rightarrow> nat" where
  "rescaled raw expo = raw * 10 ^ nat (expo + 8) div 10 ^ nat (- 8 - expo)"

lemma rescale_exact:
  assumes "raw < 2 ^ 64" and "- 18 \<le> expo" and "expo \<le> 0"
  shows "rescale_to_price_scale raw expo = Inr (rescaled raw expo)"
proof (cases "expo \<ge> - 8")
  case True
  have "(10::nat) ^ nat (expo + 8) \<le> 10 ^ 8"
    using assms(3) by (intro power_increasing) auto
  then have "raw * 10 ^ nat (expo + 8) \<le> raw * 10 ^ 8" by (rule mult_le_mono2)
  also have "\<dots> < 2 ^ 128" using assms(1) by simp
  finally have "raw * 10 ^ nat (expo + 8) < 2 ^ 128" .
  with True assms pow10_exact [of "expo + 8"] show ?thesis
    by (auto simp: rescale_to_price_scale_def rescaled_def checked_mul_w_def Let_def)
next
  case False
  with assms pow10_exact [of "- 8 - expo"] show ?thesis
    by (simp add: rescale_to_price_scale_def rescaled_def Let_def)
qed

text \<open>The fields of an account, and what makes it acceptable.\<close>

definition u32_at :: "u8 list \<Rightarrow> nat \<Rightarrow> nat" where
  "u32_at bs off = le_value (take 4 (drop off bs))"

definition u64_at :: "u8 list \<Rightarrow> nat \<Rightarrow> nat" where
  "u64_at bs off = le_value (take 8 (drop off bs))"

definition acceptable ::
  "u8 list \<Rightarrow> u8 list \<Rightarrow> u8 list \<Rightarrow> u64 \<Rightarrow> validation_policy \<Rightarrow> bool" where
  "acceptable bs account_owner expected_owner now policy \<longleftrightarrow>
     240 \<le> length bs \<and> account_owner = expected_owner
     \<and> u32_at bs 0 = PYTH_MAGIC \<and> u32_at bs 4 = 2 \<and> u32_at bs 8 = 3
     \<and> - 18 \<le> signed_of 32 (u32_at bs 20) \<and> signed_of 32 (u32_at bs 20) \<le> 0
     \<and> u32_at bs 224 = 1 \<and> 0 < signed_of 64 (u64_at bs 208)
     \<and> now \<le> u64_at bs 232 + max_age_slots policy
     \<and> u64_at bs 216 * 10000 < (policy_max_confidence_bps policy + 1) * nat (signed_of 64 (u64_at bs 208))
     \<and> rescaled (nat (signed_of 64 (u64_at bs 208))) (signed_of 32 (u32_at bs 20)) < 2 ^ 64
     \<and> rescaled (u64_at bs 216) (signed_of 32 (u32_at bs 20)) < 2 ^ 64"

definition normalised :: "u8 list \<Rightarrow> validated_price" where
  "normalised bs =
     \<lparr>vp_price = rescaled (nat (signed_of 64 (u64_at bs 208))) (signed_of 32 (u32_at bs 20)),
      vp_confidence = rescaled (u64_at bs 216) (signed_of 32 (u32_at bs 20)),
      vp_expo = signed_of 32 (u32_at bs 20), vp_publish_slot = u64_at bs 232\<rparr>"

lemma u64_at_less:
  assumes "\<forall>b\<in>set bs. b < 256"
  shows "u64_at bs off < 2 ^ 64"
proof -
  have "le_value (take 8 (drop off bs)) < 256 ^ length (take 8 (drop off bs))"
    using assms by (intro le_value_less) (meson in_set_dropD in_set_takeD)
  also have "\<dots> \<le> 256 ^ 8" by (rule power_increasing) simp_all
  finally show ?thesis by (simp add: u64_at_def)
qed

lemma confidence_bps:
  assumes "raw_conf < 2 ^ 64" and "0 < p" and "p < 2 ^ 64"
  shows "mul_div_floor raw_conf 10000 p = Inr (raw_conf * 10000 div p)"
    and "raw_conf * 10000 div p \<le> m \<longleftrightarrow> raw_conf * 10000 < (m + 1) * p"
proof -
  have "raw_conf * 10000 div p \<le> raw_conf * 10000" by (rule div_le_dividend)
  also have "\<dots> < 2 ^ 128" using assms(1) by simp
  finally show "mul_div_floor raw_conf 10000 p = Inr (raw_conf * 10000 div p)"
    using assms by (simp add: mul_div_floor_exact)
  have "raw_conf * 10000 div p < m + 1 \<longleftrightarrow> raw_conf * 10000 < (m + 1) * p"
    using assms(2) by (rule div_less_iff_less_mult)
  then show "raw_conf * 10000 div p \<le> m \<longleftrightarrow> raw_conf * 10000 < (m + 1) * p" by linarith
qed

lemma signed_64_less: "v < 2 ^ 64 \<Longrightarrow> nat (signed_of 64 v) < 2 ^ 63"
  by (auto simp: signed_of_def nat_less_iff)

end
