(* ===== verification/Oracle_Properties.thy ===== *)
theory Oracle_Properties
  imports Pyth_Adapter
begin

text \<open>
  The oracle validator as a whole: what it accepts, what it returns, and that no account can
  make it panic.
\<close>

lemma validate_cases:
  assumes "\<forall>b\<in>set bs. b < 256" and "policy_max_confidence_bps policy < 2 ^ 64"
  shows "if acceptable bs own expected now policy
    then validate_price_account bs own expected now policy = Ok (normalised bs)
    else \<exists>e. validate_price_account bs own expected now policy = Err e"
proof (cases "240 \<le> length bs \<and> own = expected")
  case False
  then show ?thesis
    by (auto simp: acceptable_def validate_price_account_def MIN_HEADER_BYTES_def)
next
  case True
  let ?price = "signed_of 64 (u64_at bs 208)" and ?conf = "u64_at bs 216"
    and ?expo = "signed_of 32 (u32_at bs 20)"
  have conf: "?conf < 2 ^ 64" using assms(1) by (rule u64_at_less)
  have price: "nat ?price < 2 ^ 64"
    using signed_64_less [OF u64_at_less [OF assms(1)], of 208] by simp
  have bps: "0 < ?price \<Longrightarrow> mul_div_floor ?conf 10000 (nat ?price) = Inr (?conf * 10000 div nat ?price)"
    "0 < ?price \<Longrightarrow> ?conf * 10000 div nat ?price \<le> m \<longleftrightarrow> ?conf * 10000 < (m + 1) * nat ?price" for m
    using confidence_bps [OF conf, of "nat ?price"] price by simp_all
  have reads: "read_u32_le bs off = Inr (u32_at bs off)"
    "read_i32_le bs off = Inr (signed_of 32 (u32_at bs off))"
    "off \<le> 232 \<Longrightarrow> read_u64_le bs off = Inr (u64_at bs off)"
    "off \<le> 232 \<Longrightarrow> read_i64_le bs off = Inr (signed_of 64 (u64_at bs off))"
    if "off \<le> 236" for off
    using True that by (simp_all add: u32_at_def u64_at_def)
  have "validate_price_account bs own expected now policy =
    (if u32_at bs 0 \<noteq> PYTH_MAGIC then Err (MagicMismatch (u32_at bs 0))
     else if u32_at bs 4 \<noteq> 2 then Err (VersionMismatch (u32_at bs 4))
     else if u32_at bs 8 \<noteq> 3 then Err (NotPriceAccount (u32_at bs 8))
     else if \<not> (- 18 \<le> ?expo \<and> ?expo \<le> 0) then Err (ExpoOutOfRange ?expo)
     else if u32_at bs 224 \<noteq> 1 then Err (NotTrading (u32_at bs 224))
     else if ?price \<le> 0 then Err (NonPositivePrice ?price)
     else if now - u64_at bs 232 > max_age_slots policy then Err (Stale (now - u64_at bs 232))
     else if ?conf * 10000 div nat ?price > policy_max_confidence_bps policy
       then Err (ConfidenceTooWide (?conf * 10000 div nat ?price))
     else if rescaled (nat ?price) ?expo < 2 ^ 64 \<and> rescaled ?conf ?expo < 2 ^ 64
       then Ok (normalised bs) else Err OracleMathOverflow)"
    using True bps(1) rescale_exact [OF price, of ?expo] rescale_exact [OF conf, of ?expo]
    by (simp add: validate_price_account_def MIN_HEADER_BYTES_def offset_defs reads
        PYTH_VERSION_def PYTH_ACCOUNT_TYPE_PRICE_def MIN_EXPO_def MAX_EXPO_def
        PYTH_STATUS_TRADING_def to_u64_def normalised_def Let_def del: reads_in_range)
  then show ?thesis
    using True bps(2) [of "policy_max_confidence_bps policy"]
    by (auto simp: acceptable_def not_le not_less)
qed

text \<open>
  The contract of the module documentation (\<open>lib.rs\<close> 7 to 20) and of \<open>Docs/Planning/18\<close>, section
  10.2: an account of the configured owner with the pinned header, trading, an exponent
  in range, published recently, a confidence of at most the policy's share of the price, as an
  exact ratio, and a strictly positive price, which for the engine is the rescaled one.
\<close>

definition sound_header ::
  "u8 list \<Rightarrow> u8 list \<Rightarrow> u8 list \<Rightarrow> u64 \<Rightarrow> validation_policy \<Rightarrow> bool" where
  "sound_header bs account_owner expected_owner now policy \<longleftrightarrow>
     240 \<le> length bs \<and> account_owner = expected_owner
     \<and> u32_at bs 0 = PYTH_MAGIC \<and> u32_at bs 4 = 2 \<and> u32_at bs 8 = 3
     \<and> - 18 \<le> signed_of 32 (u32_at bs 20) \<and> signed_of 32 (u32_at bs 20) \<le> 0
     \<and> u32_at bs 224 = 1 \<and> 0 < signed_of 64 (u64_at bs 208)
     \<and> now \<le> u64_at bs 232 + max_age_slots policy"

definition raw_price_at :: "u8 list \<Rightarrow> nat" where
  "raw_price_at bs = nat (signed_of 64 (u64_at bs 208))"

definition raw_conf_at :: "u8 list \<Rightarrow> nat" where
  "raw_conf_at bs = u64_at bs 216"

definition documented ::
  "u8 list \<Rightarrow> u8 list \<Rightarrow> u8 list \<Rightarrow> u64 \<Rightarrow> validation_policy \<Rightarrow> bool" where
  "documented bs account_owner expected_owner now policy \<longleftrightarrow>
     sound_header bs account_owner expected_owner now policy
     \<and> raw_conf_at bs * 10000 \<le> policy_max_confidence_bps policy * raw_price_at bs
     \<and> 0 < vp_price (normalised bs)"

text \<open>
  What the code takes beyond that: the ratio is floored to whole basis points before it is
  compared, and the sign is checked before the rescaling, whose floor can be zero.
\<close>

definition band_floored :: "u8 list \<Rightarrow> validation_policy \<Rightarrow> bool" where
  "band_floored bs policy \<longleftrightarrow>
     policy_max_confidence_bps policy * raw_price_at bs < raw_conf_at bs * 10000
     \<and> raw_conf_at bs * 10000 < (policy_max_confidence_bps policy + 1) * raw_price_at bs"

definition price_vanishes :: "u8 list \<Rightarrow> validation_policy \<Rightarrow> bool" where
  "price_vanishes bs policy \<longleftrightarrow> vp_price (normalised bs) = 0
     \<and> raw_conf_at bs * 10000 < (policy_max_confidence_bps policy + 1) * raw_price_at bs"

definition fits_u64 :: "u8 list \<Rightarrow> bool" where
  "fits_u64 bs \<longleftrightarrow> vp_price (normalised bs) < 2 ^ 64 \<and> vp_confidence (normalised bs) < 2 ^ 64"

lemma acceptable_split:
  "acceptable bs own expected now policy \<longleftrightarrow> fits_u64 bs
     \<and> (documented bs own expected now policy
        \<or> sound_header bs own expected now policy \<and> (band_floored bs policy \<or> price_vanishes bs policy))"
proof -
  have "c * 10000 \<le> m * p \<Longrightarrow> 0 < p \<Longrightarrow> c * 10000 < (m + 1) * p" for c m p :: nat by simp
  moreover have "sound_header bs own expected now policy \<Longrightarrow> 0 < raw_price_at bs"
    by (simp add: sound_header_def raw_price_at_def)
  moreover have "acceptable bs own expected now policy \<longleftrightarrow>
      sound_header bs own expected now policy \<and> fits_u64 bs
      \<and> raw_conf_at bs * 10000 < (policy_max_confidence_bps policy + 1) * raw_price_at bs"
    by (auto simp: acceptable_def sound_header_def fits_u64_def normalised_def raw_price_at_def raw_conf_at_def)
  ultimately show ?thesis
    unfolding documented_def band_floored_def price_vanishes_def by (metis not_le not_gr_zero)
qed

text \<open>
  C28: on every byte string the validator accepts or returns an error, never panics. What it
  accepts is not what the documentation says: every account the documentation accepts whose
  price and confidence fit 64 bits is accepted, and besides them exactly the accounts, sound
  otherwise, whose confidence is over the documented band by less than one basis point
  (\<open>band_floored\<close>) or whose price is rescaled to zero (\<open>price_vanishes\<close>), both of which the
  documentation rejects. The value returned is the price and the confidence rescaled by the
  exact floored power of ten. The witness has an account of each of the three kinds.
\<close>

theorem oracle_validation_exact:
  assumes "\<forall>b\<in>set bs. b < 256" and "policy_max_confidence_bps policy < 2 ^ 64"
  shows "(validate_price_account bs own expected now policy = Ok v \<longleftrightarrow>
      v = normalised bs \<and> fits_u64 bs
      \<and> (documented bs own expected now policy
         \<or> sound_header bs own expected now policy \<and> (band_floored bs policy \<or> price_vanishes bs policy)))
    \<and> \<not> (documented bs own expected now policy \<and> (band_floored bs policy \<or> price_vanishes bs policy))
    \<and> validate_price_account bs own expected now policy \<noteq> Panic msg"
  using validate_cases [OF assms, of own expected now] acceptable_split [of bs own expected now policy]
  by (auto simp: documented_def band_floored_def price_vanishes_def split: if_splits)

text \<open>A price account built from its fields, with the bytes between them zero.\<close>

definition price_account ::
  "u32 \<Rightarrow> u32 \<Rightarrow> u32 \<Rightarrow> int \<Rightarrow> i64 \<Rightarrow> u64 \<Rightarrow> u32 \<Rightarrow> u64 \<Rightarrow> u8 list" where
  "price_account magic version atype expo agg_price agg_conf agg_status agg_pub_slot =
     u32_le magic @ u32_le version @ u32_le atype @ replicate 8 0 @ i32_le expo
     @ replicate 184 0 @ i64_le agg_price @ u64_le agg_conf @ u32_le agg_status
     @ replicate 4 0 @ u64_le agg_pub_slot"

lemma price_account_bytes:
  "\<forall>b\<in>set (price_account m v t e p c s n). b < 256"
  by (auto simp: price_account_def u32_le_def u64_le_def i32_le_def i64_le_def dest: le_bytes_byte)

lemma price_account_fields:
  assumes "m < 2 ^ 32" "v < 2 ^ 32" "t < 2 ^ 32" "fits_signed 32 e" "fits_signed 64 p" "c < 2 ^ 64"
    "s < 2 ^ 32" "n < 2 ^ 64"
  shows "length (price_account m v t e p c s n) = 240"
    and "u32_at (price_account m v t e p c s n) 0 = m"
    and "u32_at (price_account m v t e p c s n) 4 = v"
    and "u32_at (price_account m v t e p c s n) 8 = t"
    and "signed_of 32 (u32_at (price_account m v t e p c s n) 20) = e"
    and "signed_of 64 (u64_at (price_account m v t e p c s n) 208) = p"
    and "u64_at (price_account m v t e p c s n) 216 = c"
    and "u32_at (price_account m v t e p c s n) 224 = s"
    and "u64_at (price_account m v t e p c s n) 232 = n"
  using assms u32c.dec_enc u64c.dec_enc i32c.dec_enc i64c.dec_enc
  by (simp_all add: price_account_def u32_at_def u64_at_def u32c.length_enc u64c.length_enc
      i32c.length_enc i64c.length_enc)

lemma sample_account:
  assumes "fits_signed 32 e" "- 18 \<le> e" "e \<le> 0" "fits_signed 64 (int p)" "0 < p" "c < 2 ^ 64"
  shows "sound_header (price_account PYTH_MAGIC 2 3 e (int p) c 1 1000) own own 1010 default_policy"
    and "raw_price_at (price_account PYTH_MAGIC 2 3 e (int p) c 1 1000) = p"
    and "raw_conf_at (price_account PYTH_MAGIC 2 3 e (int p) c 1 1000) = c"
    and "normalised (price_account PYTH_MAGIC 2 3 e (int p) c 1 1000)
      = \<lparr>vp_price = rescaled p e, vp_confidence = rescaled c e, vp_expo = e, vp_publish_slot = 1000\<rparr>"
proof -
  have "PYTH_MAGIC < 2 ^ 32" by (simp add: PYTH_MAGIC_def)
  note f = price_account_fields [OF this _ _ assms(1,4,6), of 2 3 1 1000, simplified]
  show "sound_header (price_account PYTH_MAGIC 2 3 e (int p) c 1 1000) own own 1010 default_policy"
    "raw_price_at (price_account PYTH_MAGIC 2 3 e (int p) c 1 1000) = p"
    "raw_conf_at (price_account PYTH_MAGIC 2 3 e (int p) c 1 1000) = c"
    "normalised (price_account PYTH_MAGIC 2 3 e (int p) c 1 1000)
      = \<lparr>vp_price = rescaled p e, vp_confidence = rescaled c e, vp_expo = e, vp_publish_slot = 1000\<rparr>"
    using assms(2,3,5)
    by (simp_all add: sound_header_def raw_price_at_def raw_conf_at_def normalised_def f default_policy_def)
qed

lemma default_band [simp]: "policy_max_confidence_bps default_policy = 100"
  by (simp add: default_policy_def)

lemmas account_kinds = documented_def band_floored_def price_vanishes_def fits_u64_def rescaled_def

theorem oracle_validation_exact_witness:
  "(let bs = price_account PYTH_MAGIC 2 3 (- 8) 6000012345678 50000 1 1000 in
     documented bs (replicate 32 7) (replicate 32 7) 1010 default_policy
     \<and> validate_price_account bs (replicate 32 7) (replicate 32 7) 1010 default_policy
        = Ok \<lparr>vp_price = 6000012345678, vp_confidence = 50000, vp_expo = - 8, vp_publish_slot = 1000\<rparr>)
   \<and> (let bs = price_account PYTH_MAGIC 2 3 (- 8) 1000000 10099 1 1000 in
     band_floored bs default_policy
     \<and> validate_price_account bs (replicate 32 7) (replicate 32 7) 1010 default_policy
        = Ok \<lparr>vp_price = 1000000, vp_confidence = 10099, vp_expo = - 8, vp_publish_slot = 1000\<rparr>)
   \<and> (let bs = price_account PYTH_MAGIC 2 3 (- 18) 1000000000 0 1 1000 in
     price_vanishes bs default_policy
     \<and> validate_price_account bs (replicate 32 7) (replicate 32 7) 1010 default_policy
        = Ok \<lparr>vp_price = 0, vp_confidence = 0, vp_expo = - 18, vp_publish_slot = 1000\<rparr>)"
proof -
  have m: "policy_max_confidence_bps default_policy < 2 ^ 64" by simp
  note use = oracle_validation_exact [OF price_account_bytes m, THEN conjunct1, THEN iffD2]
  note a = sample_account [of "- 8" 6000012345678 50000, simplified]
  note b = sample_account [of "- 8" 1000000 10099, simplified]
  note c = sample_account [of "- 18" 1000000000 0, simplified]
  show ?thesis
    unfolding Let_def
    by (intro conjI use; simp add: a b c account_kinds fits_signed_def)
qed

end
