(* ===== verification/Tx_Codec.thy ===== *)
theory Tx_Codec
  imports Bytes
begin

text \<open>
  The instruction encoders of \<open>crates/tx-codec/src/lib.rs\<close> and
  \<open>crates/keeper-decoder/src/ix.rs\<close>. The Borsh serialiser and the SHA-256 digest are
  third-party code: the serialiser of each primitive type is a field of the record \<open>borsh\<close>
  that every encoder takes, with the documented behaviour the encoders rely on (constant
  width, injective, no failure on values of the type) stated as \<open>borsh_fixed_width\<close>; the
  discriminator of an instruction name is a function argument of the \<open>ix.rs\<close> encoders.
\<close>

section \<open>The serialiser\<close>

record borsh =
  ser_u32 :: "u32 \<Rightarrow> (string, u8 list) result"
  ser_u64 :: "u64 \<Rightarrow> (string, u8 list) result"
  ser_i64 :: "i64 \<Rightarrow> (string, u8 list) result"
  ser_bool :: "bool \<Rightarrow> (string, u8 list) result"

definition constant_width :: "nat \<Rightarrow> 'a set \<Rightarrow> ('a \<Rightarrow> (string, u8 list) result) \<Rightarrow> bool" where
  "constant_width n A ser \<longleftrightarrow>
     (\<forall>x\<in>A. \<exists>bs. ser x = Ok bs \<and> length bs = n) \<and> inj_on ser A"

definition borsh_fixed_width :: "borsh \<Rightarrow> bool" where
  "borsh_fixed_width B \<longleftrightarrow> constant_width 4 {v. v < 2 ^ 32} (ser_u32 B)
     \<and> constant_width 8 {v. v < 2 ^ 64} (ser_u64 B)
     \<and> constant_width 8 {z. fits_signed 64 z} (ser_i64 B)
     \<and> constant_width 1 UNIV (ser_bool B)"

section \<open>Discriminators and arguments\<close>

definition DISC_SYNC_POOL :: "u8 list" where
  "DISC_SYNC_POOL = [0xdb, 0xfb, 0xd7, 0xfb, 0x2c, 0x25, 0x6c, 0x66]"
definition DISC_OPEN_POSITION :: "u8 list" where
  "DISC_OPEN_POSITION = [0x87, 0x80, 0x2f, 0x4d, 0x0f, 0x98, 0xf0, 0x31]"
definition DISC_CLOSE_POSITION :: "u8 list" where
  "DISC_CLOSE_POSITION = [0x7b, 0x86, 0x51, 0x00, 0x31, 0x44, 0x62, 0x62]"
definition DISC_CLAIM_DORMANT_RECOVERY :: "u8 list" where
  "DISC_CLAIM_DORMANT_RECOVERY = [0x76, 0x55, 0x1a, 0xe5, 0x9c, 0xb7, 0x5e, 0xf7]"
definition DISC_HARVEST_DUST :: "u8 list" where
  "DISC_HARVEST_DUST = [0x28, 0x05, 0xb4, 0xaa, 0x2b, 0x4d, 0x86, 0x34]"
definition DISC_PRE_SYNC_DORMANT_BUCKET :: "u8 list" where
  "DISC_PRE_SYNC_DORMANT_BUCKET = [0xd6, 0x62, 0xa8, 0x7a, 0xc1, 0x9c, 0x38, 0x08]"
definition DISC_CLOSE_DORMANT_BUCKET :: "u8 list" where
  "DISC_CLOSE_DORMANT_BUCKET = [0x16, 0x25, 0x10, 0x86, 0xff, 0x31, 0xf8, 0x83]"
definition DISC_INITIALIZE_DORMANT_BUCKET :: "u8 list" where
  "DISC_INITIALIZE_DORMANT_BUCKET = [0x8f, 0xcb, 0x7b, 0xd0, 0xc2, 0x40, 0x6e, 0x35]"

lemmas disc_defs = DISC_SYNC_POOL_def DISC_OPEN_POSITION_def DISC_CLOSE_POSITION_def
  DISC_CLAIM_DORMANT_RECOVERY_def DISC_HARVEST_DUST_def DISC_PRE_SYNC_DORMANT_BUCKET_def
  DISC_CLOSE_DORMANT_BUCKET_def DISC_INITIALIZE_DORMANT_BUCKET_def

record price_envelope_args =
  pe_p_now :: u64
  pe_slot :: u64
  pe_expected_min :: u64
  pe_expected_max :: u64

record open_params =
  op_envelope :: price_envelope_args
  op_direction_is_long :: bool
  op_gross_amount :: u64
  op_position_id :: u64

datatype encode_error = Borsh string

type_synonym 'a encoded = "(encode_error, 'a) result"

text \<open>A field appended to the output buffer, with the serialiser's error converted.\<close>

definition put_field ::
  "('a \<Rightarrow> (string, u8 list) result) \<Rightarrow> 'a \<Rightarrow> u8 list \<Rightarrow> u8 list encoded" where
  "put_field ser x out = map_err Borsh (and_then (ser x) (\<lambda>bs. Ok (out @ bs)))"

text \<open>The derived serialisers write the fields in declaration order.\<close>

definition put_envelope :: "borsh \<Rightarrow> price_envelope_args \<Rightarrow> u8 list \<Rightarrow> u8 list encoded" where
  "put_envelope B e out =
     and_then (put_field (ser_u64 B) (pe_p_now e) out) (\<lambda>out.
     and_then (put_field (ser_u64 B) (pe_slot e) out) (\<lambda>out.
     and_then (put_field (ser_u64 B) (pe_expected_min e) out) (\<lambda>out.
     put_field (ser_u64 B) (pe_expected_max e) out)))"

definition put_open_params :: "borsh \<Rightarrow> open_params \<Rightarrow> u8 list \<Rightarrow> u8 list encoded" where
  "put_open_params B p out =
     and_then (put_envelope B (op_envelope p) out) (\<lambda>out.
     and_then (put_field (ser_bool B) (op_direction_is_long p) out) (\<lambda>out.
     and_then (put_field (ser_u64 B) (op_gross_amount p) out) (\<lambda>out.
     put_field (ser_u64 B) (op_position_id p) out)))"

section \<open>The encoders of tx-codec\<close>

definition build_ix :: "u8 list \<Rightarrow> (u8 list \<Rightarrow> u8 list encoded) \<Rightarrow> u8 list encoded" where
  "build_ix disc put = put disc"

definition encode_open_position_ix :: "borsh \<Rightarrow> open_params \<Rightarrow> u8 list encoded" where
  "encode_open_position_ix B params = build_ix DISC_OPEN_POSITION (put_open_params B params)"

definition encode_envelope_plus_bucket_counts ::
  "borsh \<Rightarrow> u8 list \<Rightarrow> price_envelope_args \<Rightarrow> u32 \<Rightarrow> u32 \<Rightarrow> u8 list encoded" where
  "encode_envelope_plus_bucket_counts B disc envelope long_bucket_count short_bucket_count =
     and_then (put_envelope B envelope disc) (\<lambda>out.
     and_then (put_field (ser_u32 B) long_bucket_count out) (\<lambda>out.
     put_field (ser_u32 B) short_bucket_count out))"

definition encode_close_position_ix ::
  "borsh \<Rightarrow> price_envelope_args \<Rightarrow> u32 \<Rightarrow> u32 \<Rightarrow> u8 list encoded" where
  "encode_close_position_ix B envelope longs shorts =
     encode_envelope_plus_bucket_counts B DISC_CLOSE_POSITION envelope longs shorts"

definition encode_sync_pool_ix ::
  "borsh \<Rightarrow> price_envelope_args \<Rightarrow> u32 \<Rightarrow> u32 \<Rightarrow> u8 list encoded" where
  "encode_sync_pool_ix B envelope longs shorts =
     encode_envelope_plus_bucket_counts B DISC_SYNC_POOL envelope longs shorts"

definition encode_claim_dormant_recovery_ix ::
  "borsh \<Rightarrow> price_envelope_args \<Rightarrow> u32 \<Rightarrow> u32 \<Rightarrow> u8 list encoded" where
  "encode_claim_dormant_recovery_ix B envelope longs shorts =
     encode_envelope_plus_bucket_counts B DISC_CLAIM_DORMANT_RECOVERY envelope longs shorts"

definition encode_harvest_dust_ix :: "borsh \<Rightarrow> bool \<Rightarrow> u8 list encoded" where
  "encode_harvest_dust_ix B direction_is_long =
     put_field (ser_bool B) direction_is_long DISC_HARVEST_DUST"

definition encode_pre_sync_dormant_bucket_ix ::
  "borsh \<Rightarrow> bool \<Rightarrow> i64 \<Rightarrow> u32 \<Rightarrow> u32 \<Rightarrow> u8 list encoded" where
  "encode_pre_sync_dormant_bucket_ix B direction_is_long tick longs shorts =
     and_then (put_field (ser_bool B) direction_is_long DISC_PRE_SYNC_DORMANT_BUCKET) (\<lambda>out.
     and_then (put_field (ser_i64 B) tick out) (\<lambda>out.
     and_then (put_field (ser_u32 B) longs out) (\<lambda>out.
     put_field (ser_u32 B) shorts out)))"

definition encode_close_dormant_bucket_ix :: "borsh \<Rightarrow> bool \<Rightarrow> i64 \<Rightarrow> u8 list encoded" where
  "encode_close_dormant_bucket_ix B direction_is_long tick =
     and_then (put_field (ser_bool B) direction_is_long DISC_CLOSE_DORMANT_BUCKET) (\<lambda>out.
     put_field (ser_i64 B) tick out)"

definition encode_initialize_dormant_bucket_ix :: "borsh \<Rightarrow> bool \<Rightarrow> i64 \<Rightarrow> u8 list encoded" where
  "encode_initialize_dormant_bucket_ix B direction_is_long tick =
     and_then (put_field (ser_bool B) direction_is_long DISC_INITIALIZE_DORMANT_BUCKET) (\<lambda>out.
     put_field (ser_i64 B) tick out)"

section \<open>The encoders of keeper-decoder\<close>

text \<open>
  There the discriminator is computed from the name, and a serialisation failure panics.
\<close>

definition encode_with_discriminator ::
  "(string \<Rightarrow> u8 list) \<Rightarrow> string \<Rightarrow> (u8 list \<Rightarrow> u8 list encoded) \<Rightarrow> (unit, u8 list) result" where
  "encode_with_discriminator discriminator ix_name put =
     (case put (discriminator ix_name) of
        Inr out \<Rightarrow> Ok out
      | Inl e \<Rightarrow> Panic ''Borsh serialize of fixed-size args cannot fail'')"

definition encode_open_position ::
  "borsh \<Rightarrow> (string \<Rightarrow> u8 list) \<Rightarrow> open_params \<Rightarrow> (unit, u8 list) result" where
  "encode_open_position B discriminator args =
     encode_with_discriminator discriminator ''open_position'' (put_open_params B args)"

definition encode_close_position ::
  "borsh \<Rightarrow> (string \<Rightarrow> u8 list) \<Rightarrow> price_envelope_args \<Rightarrow> u32 \<Rightarrow> u32 \<Rightarrow> (unit, u8 list) result" where
  "encode_close_position B discriminator envelope longs shorts =
     encode_with_discriminator discriminator ''close_position'' (\<lambda>out.
       and_then (put_envelope B envelope out) (\<lambda>out.
       and_then (put_field (ser_u32 B) longs out) (\<lambda>out.
       put_field (ser_u32 B) shorts out)))"

definition encode_keeper_leader_heartbeat ::
  "borsh \<Rightarrow> (string \<Rightarrow> u8 list) \<Rightarrow> u64 \<Rightarrow> (unit, u8 list) result" where
  "encode_keeper_leader_heartbeat B discriminator observed_slot =
     encode_with_discriminator discriminator ''keeper_leader_heartbeat''
       (put_field (ser_u64 B) observed_slot)"

definition encode_keeper_leader_acquire ::
  "borsh \<Rightarrow> (string \<Rightarrow> u8 list) \<Rightarrow> u64 \<Rightarrow> (unit, u8 list) result" where
  "encode_keeper_leader_acquire B discriminator observed_slot =
     encode_with_discriminator discriminator ''keeper_leader_acquire''
       (put_field (ser_u64 B) observed_slot)"

definition encode_keeper_leader_release ::
  "borsh \<Rightarrow> (string \<Rightarrow> u8 list) \<Rightarrow> (unit, u8 list) result" where
  "encode_keeper_leader_release B discriminator =
     encode_with_discriminator discriminator ''keeper_leader_release'' Ok"

end
