(* ===== verification/Codec_Properties.thy ===== *)
theory Codec_Properties
  imports Tx_Codec
begin

text \<open>
  The instruction encoders never fail on valid arguments, and the bytes determine the
  instruction and all its arguments.
\<close>

section \<open>Serialised fields\<close>

definition payload :: "('a \<Rightarrow> (string, u8 list) result) \<Rightarrow> 'a \<Rightarrow> u8 list" where
  "payload ser x = (case ser x of Inr bs \<Rightarrow> bs | Inl e \<Rightarrow> [])"

lemma constant_width_payload:
  assumes "constant_width n A ser" and "x \<in> A"
  shows "ser x = Inr (payload ser x)" and "length (payload ser x) = n"
  using assms by (auto simp: constant_width_def payload_def split: sum.splits)

lemma constant_width_inject:
  assumes "constant_width n A ser" and "x \<in> A" and "y \<in> A"
  shows "payload ser x @ xs = payload ser y @ ys \<longleftrightarrow> x = y \<and> xs = ys"
    and "payload ser x = payload ser y \<longleftrightarrow> x = y"
proof -
  have "payload ser x = payload ser y \<longleftrightarrow> x = y"
    using assms constant_width_payload(1) [OF assms(1)]
    by (metis constant_width_def inj_onD)
  moreover note len = constant_width_payload(2) [OF assms(1)]
  ultimately show "payload ser x = payload ser y \<longleftrightarrow> x = y"
    "payload ser x @ xs = payload ser y @ ys \<longleftrightarrow> x = y \<and> xs = ys"
    using assms(2,3) by (simp_all add: len append_eq_append_conv)
qed

lemma put_field_Ok:
  assumes "constant_width n A ser" and "x \<in> A"
  shows "put_field ser x out = Inr (out @ payload ser x)"
  using constant_width_payload(1) [OF assms] by (simp add: put_field_def)

section \<open>Instructions\<close>

datatype instruction =
    Sync_Pool price_envelope_args u32 u32
  | Open_Position open_params
  | Close_Position price_envelope_args u32 u32
  | Claim_Recovery price_envelope_args u32 u32
  | Harvest_Dust bool
  | Pre_Sync_Bucket bool i64 u32 u32
  | Close_Bucket bool i64
  | Init_Bucket bool i64

fun encode_instruction :: "borsh \<Rightarrow> instruction \<Rightarrow> u8 list encoded" where
  "encode_instruction B (Sync_Pool e l s) = encode_sync_pool_ix B e l s"
| "encode_instruction B (Open_Position p) = encode_open_position_ix B p"
| "encode_instruction B (Close_Position e l s) = encode_close_position_ix B e l s"
| "encode_instruction B (Claim_Recovery e l s) = encode_claim_dormant_recovery_ix B e l s"
| "encode_instruction B (Harvest_Dust d) = encode_harvest_dust_ix B d"
| "encode_instruction B (Pre_Sync_Bucket d t l s) = encode_pre_sync_dormant_bucket_ix B d t l s"
| "encode_instruction B (Close_Bucket d t) = encode_close_dormant_bucket_ix B d t"
| "encode_instruction B (Init_Bucket d t) = encode_initialize_dormant_bucket_ix B d t"

definition envelope_args_ok :: "price_envelope_args \<Rightarrow> bool" where
  "envelope_args_ok e \<longleftrightarrow> pe_p_now e < 2 ^ 64 \<and> pe_slot e < 2 ^ 64 \<and> pe_expected_min e < 2 ^ 64
     \<and> pe_expected_max e < 2 ^ 64"

definition open_params_ok :: "open_params \<Rightarrow> bool" where
  "open_params_ok p \<longleftrightarrow> envelope_args_ok (op_envelope p) \<and> op_gross_amount p < 2 ^ 64
     \<and> op_position_id p < 2 ^ 64"

fun instruction_ok :: "instruction \<Rightarrow> bool" where
  "instruction_ok (Sync_Pool e l s) = (envelope_args_ok e \<and> l < 2 ^ 32 \<and> s < 2 ^ 32)"
| "instruction_ok (Open_Position p) = open_params_ok p"
| "instruction_ok (Close_Position e l s) = (envelope_args_ok e \<and> l < 2 ^ 32 \<and> s < 2 ^ 32)"
| "instruction_ok (Claim_Recovery e l s) = (envelope_args_ok e \<and> l < 2 ^ 32 \<and> s < 2 ^ 32)"
| "instruction_ok (Harvest_Dust d) = True"
| "instruction_ok (Pre_Sync_Bucket d t l s) = (fits_signed 64 t \<and> l < 2 ^ 32 \<and> s < 2 ^ 32)"
| "instruction_ok (Close_Bucket d t) = fits_signed 64 t"
| "instruction_ok (Init_Bucket d t) = fits_signed 64 t"

text \<open>The layout: the discriminator, then the fields in order.\<close>

definition envelope_bytes :: "borsh \<Rightarrow> price_envelope_args \<Rightarrow> u8 list" where
  "envelope_bytes B e = payload (ser_u64 B) (pe_p_now e) @ payload (ser_u64 B) (pe_slot e)
     @ payload (ser_u64 B) (pe_expected_min e) @ payload (ser_u64 B) (pe_expected_max e)"

definition open_bytes :: "borsh \<Rightarrow> open_params \<Rightarrow> u8 list" where
  "open_bytes B p = envelope_bytes B (op_envelope p) @ payload (ser_bool B) (op_direction_is_long p)
     @ payload (ser_u64 B) (op_gross_amount p) @ payload (ser_u64 B) (op_position_id p)"

definition counted_bytes :: "borsh \<Rightarrow> price_envelope_args \<Rightarrow> u32 \<Rightarrow> u32 \<Rightarrow> u8 list" where
  "counted_bytes B e l s = envelope_bytes B e @ payload (ser_u32 B) l @ payload (ser_u32 B) s"

fun instruction_bytes :: "borsh \<Rightarrow> instruction \<Rightarrow> u8 list" where
  "instruction_bytes B (Sync_Pool e l s) = DISC_SYNC_POOL @ counted_bytes B e l s"
| "instruction_bytes B (Open_Position p) = DISC_OPEN_POSITION @ open_bytes B p"
| "instruction_bytes B (Close_Position e l s) = DISC_CLOSE_POSITION @ counted_bytes B e l s"
| "instruction_bytes B (Claim_Recovery e l s) = DISC_CLAIM_DORMANT_RECOVERY @ counted_bytes B e l s"
| "instruction_bytes B (Harvest_Dust d) = DISC_HARVEST_DUST @ payload (ser_bool B) d"
| "instruction_bytes B (Pre_Sync_Bucket d t l s) = DISC_PRE_SYNC_DORMANT_BUCKET
     @ payload (ser_bool B) d @ payload (ser_i64 B) t @ payload (ser_u32 B) l @ payload (ser_u32 B) s"
| "instruction_bytes B (Close_Bucket d t) = DISC_CLOSE_DORMANT_BUCKET
     @ payload (ser_bool B) d @ payload (ser_i64 B) t"
| "instruction_bytes B (Init_Bucket d t) = DISC_INITIALIZE_DORMANT_BUCKET
     @ payload (ser_bool B) d @ payload (ser_i64 B) t"

lemmas encoders = encode_sync_pool_ix_def encode_open_position_ix_def encode_close_position_ix_def
  encode_claim_dormant_recovery_ix_def encode_harvest_dust_ix_def
  encode_pre_sync_dormant_bucket_ix_def encode_close_dormant_bucket_ix_def
  encode_initialize_dormant_bucket_ix_def encode_envelope_plus_bucket_counts_def build_ix_def

lemma put_fields:
  assumes "borsh_fixed_width B"
  shows "v < 2 ^ 32 \<Longrightarrow> put_field (ser_u32 B) v out = Inr (out @ payload (ser_u32 B) v)"
    and "w < 2 ^ 64 \<Longrightarrow> put_field (ser_u64 B) w out = Inr (out @ payload (ser_u64 B) w)"
    and "fits_signed 64 z \<Longrightarrow> put_field (ser_i64 B) z out = Inr (out @ payload (ser_i64 B) z)"
    and "put_field (ser_bool B) b out = Inr (out @ payload (ser_bool B) b)"
  using assms put_field_Ok [of 4 "{v. v < 2 ^ 32}" "ser_u32 B"] put_field_Ok [of 8 "{v. v < 2 ^ 64}" "ser_u64 B"]
    put_field_Ok [of 8 "{z. fits_signed 64 z}" "ser_i64 B"] put_field_Ok [of 1 UNIV "ser_bool B"]
  by (simp_all add: borsh_fixed_width_def)

lemma put_envelope_Ok:
  assumes "borsh_fixed_width B" and "envelope_args_ok e"
  shows "put_envelope B e out = Inr (out @ envelope_bytes B e)"
  using assms by (simp add: put_envelope_def put_fields envelope_args_ok_def envelope_bytes_def)

lemma put_open_params_Ok:
  assumes "borsh_fixed_width B" and "open_params_ok p"
  shows "put_open_params B p out = Inr (out @ open_bytes B p)"
  using assms
  by (simp add: put_open_params_def put_envelope_Ok put_fields open_params_ok_def open_bytes_def)

lemma encode_instruction_Ok:
  assumes "borsh_fixed_width B" and "instruction_ok i"
  shows "encode_instruction B i = Inr (instruction_bytes B i)"
  using assms
  by (cases i) (simp_all add: encoders put_envelope_Ok put_open_params_Ok put_fields counted_bytes_def)

lemma fields_inject:
  assumes "borsh_fixed_width B"
  shows "v < 2 ^ 32 \<Longrightarrow> v' < 2 ^ 32 \<Longrightarrow>
      payload (ser_u32 B) v @ xs = payload (ser_u32 B) v' @ ys \<longleftrightarrow> v = v' \<and> xs = ys"
    and "w < 2 ^ 64 \<Longrightarrow> w' < 2 ^ 64 \<Longrightarrow>
      payload (ser_u64 B) w @ xs = payload (ser_u64 B) w' @ ys \<longleftrightarrow> w = w' \<and> xs = ys"
    and "fits_signed 64 z \<Longrightarrow> fits_signed 64 z' \<Longrightarrow>
      payload (ser_i64 B) z @ xs = payload (ser_i64 B) z' @ ys \<longleftrightarrow> z = z' \<and> xs = ys"
    and "payload (ser_bool B) b @ xs = payload (ser_bool B) b' @ ys \<longleftrightarrow> b = b' \<and> xs = ys"
  using assms constant_width_inject(1) [of 4 "{v. v < 2 ^ 32}" "ser_u32 B"]
    constant_width_inject(1) [of 8 "{v. v < 2 ^ 64}" "ser_u64 B"]
    constant_width_inject(1) [of 8 "{z. fits_signed 64 z}" "ser_i64 B"]
    constant_width_inject(1) [of 1 UNIV "ser_bool B"]
  by (simp_all add: borsh_fixed_width_def)

lemma last_fields_inject:
  assumes "borsh_fixed_width B"
  shows "v < 2 ^ 32 \<Longrightarrow> v' < 2 ^ 32 \<Longrightarrow> payload (ser_u32 B) v = payload (ser_u32 B) v' \<longleftrightarrow> v = v'"
    and "w < 2 ^ 64 \<Longrightarrow> w' < 2 ^ 64 \<Longrightarrow> payload (ser_u64 B) w = payload (ser_u64 B) w' \<longleftrightarrow> w = w'"
    and "fits_signed 64 z \<Longrightarrow> fits_signed 64 z' \<Longrightarrow>
      payload (ser_i64 B) z = payload (ser_i64 B) z' \<longleftrightarrow> z = z'"
    and "payload (ser_bool B) b = payload (ser_bool B) b' \<longleftrightarrow> b = b'"
  using fields_inject [OF assms, where xs = "[]" and ys = "[]"] by simp_all

lemma envelope_bytes_inject:
  assumes "borsh_fixed_width B" and "envelope_args_ok e" and "envelope_args_ok e'"
  shows "envelope_bytes B e @ xs = envelope_bytes B e' @ ys \<longleftrightarrow> e = e' \<and> xs = ys"
  using assms
  by (cases e; cases e') (auto simp: envelope_bytes_def envelope_args_ok_def fields_inject)

lemma instruction_bytes_inject:
  assumes "borsh_fixed_width B" and "instruction_ok i" and "instruction_ok j"
  shows "instruction_bytes B i = instruction_bytes B j \<longleftrightarrow> i = j"
proof -
  note inj = fields_inject [OF assms(1)] last_fields_inject [OF assms(1)]
    envelope_bytes_inject [OF assms(1)]
  have eq: "open_bytes B p = open_bytes B q \<longleftrightarrow> p = q" if "open_params_ok p" "open_params_ok q" for p q
    using that by (cases p; cases q) (auto simp: open_bytes_def open_params_ok_def inj)
  show ?thesis
    using assms(2,3)
    by (cases i; cases j) (auto simp: disc_defs counted_bytes_def inj eq)
qed

text \<open>
  C29: the encoders are faithful: with any serialiser of constant width, an instruction with
  arguments in range always encodes, and two instructions have the same bytes only if they
  are the same instruction with the same arguments.
\<close>

theorem instruction_encoding_injective:
  assumes "borsh_fixed_width B" and "instruction_ok i" and "instruction_ok j"
  shows "(\<exists>bs. encode_instruction B i = Ok bs)
    \<and> (encode_instruction B i = encode_instruction B j \<longleftrightarrow> i = j)"
  using assms by (simp add: encode_instruction_Ok instruction_bytes_inject)

definition borsh_le :: borsh where
  "borsh_le = \<lparr>ser_u32 = \<lambda>v. Ok (u32_le v), ser_u64 = \<lambda>v. Ok (u64_le v), ser_i64 = \<lambda>z. Ok (i64_le z),
     ser_bool = \<lambda>b. Ok (bool_le b)\<rparr>"

lemma borsh_le_fixed_width: "borsh_fixed_width borsh_le"
  by (auto simp: borsh_fixed_width_def constant_width_def borsh_le_def inj_on_def u32c.length_enc
      u64c.length_enc i64c.length_enc boolc.length_enc u32c.enc_eq_iff u64c.enc_eq_iff
      i64c.enc_eq_iff boolc.enc_eq_iff)

theorem instruction_encoding_injective_witness:
  "encode_instruction borsh_le (Close_Bucket True (- 3)) \<noteq> encode_instruction borsh_le (Init_Bucket True (- 3))"
  using instruction_encoding_injective
    [OF borsh_le_fixed_width, of "Close_Bucket True (- 3)" "Init_Bucket True (- 3)"]
  by (simp add: fits_signed_def)

text \<open>
  the two encoder crates agree: where the digest of the instruction's name is the pinned
  discriminator, keeper-decoder's encoder of an open or a close produces the bytes of
  tx-codec's, and does not panic.
\<close>

theorem encoders_agree:
  assumes "borsh_fixed_width B" and "disc ''open_position'' = DISC_OPEN_POSITION"
    and "disc ''close_position'' = DISC_CLOSE_POSITION"
    and "open_params_ok p" and "envelope_args_ok e" and "l < 2 ^ 32" and "s < 2 ^ 32"
  shows "\<exists>bs cs. encode_open_position B disc p = Ok bs \<and> encode_open_position_ix B p = Ok bs
    \<and> encode_close_position B disc e l s = Ok cs \<and> encode_close_position_ix B e l s = Ok cs"
  using assms
  by (simp add: encode_open_position_def encode_close_position_def encode_with_discriminator_def
      encoders put_open_params_Ok put_envelope_Ok put_fields)

definition pinned :: "string \<Rightarrow> u8 list" where
  "pinned name = (if name = ''open_position'' then DISC_OPEN_POSITION else DISC_CLOSE_POSITION)"

theorem encoders_agree_witness:
  "\<exists>bs cs. encode_open_position borsh_le pinned \<lparr>op_envelope = \<lparr>pe_p_now = 5, pe_slot = 1,
        pe_expected_min = 4, pe_expected_max = 6\<rparr>, op_direction_is_long = True,
        op_gross_amount = 1000, op_position_id = 7\<rparr> = Ok bs
    \<and> encode_open_position_ix borsh_le \<lparr>op_envelope = \<lparr>pe_p_now = 5, pe_slot = 1,
        pe_expected_min = 4, pe_expected_max = 6\<rparr>, op_direction_is_long = True,
        op_gross_amount = 1000, op_position_id = 7\<rparr> = Ok bs
    \<and> encode_close_position borsh_le pinned \<lparr>pe_p_now = 5, pe_slot = 1, pe_expected_min = 4,
        pe_expected_max = 6\<rparr> 2 3 = Ok cs
    \<and> encode_close_position_ix borsh_le \<lparr>pe_p_now = 5, pe_slot = 1, pe_expected_min = 4,
        pe_expected_max = 6\<rparr> 2 3 = Ok cs"
  by (rule encoders_agree)
    (simp_all add: borsh_le_fixed_width pinned_def open_params_ok_def envelope_args_ok_def)

end
