(* ===== verification/Keeper.thy ===== *)
theory Keeper
  imports Ordered_Map Clearing_Types "HOL-Library.Product_Lexorder"
begin

text \<open>
  The scheduler of \<open>crates/keeper/src/lib.rs\<close>: the read-only view of the chain, the actions and
  their priorities, the plan over a view, the executor interface with the dry-run executor, and the
  plan-and-execute cycle. The trait \<open>KeeperChainView\<close> is a record of its four functions, an
  executor is a function from an action and its state. The hints are a \<open>HashMap\<close>, whose
  iteration order the language leaves open: the plan takes it as the parameter \<open>iter\<close>.
\<close>

section \<open>The view of the chain\<close>

datatype keeper_error =
    BucketAheadOfLedger u32 direction i64 u64 u64
  | MissingLedger u32 direction

type_synonym 'a keeping = "(keeper_error, 'a) result"

record keeper_bucket =
  kb_sub_pool_id :: u32
  kb_direction :: direction
  kb_tick :: i64
  kb_anchor_price :: u64
  kb_total_recovery_shares :: u128
  kb_total_recovery_notional :: u128
  kb_accrued_value :: u128
  kb_position_count :: u64
  kb_last_applied_index :: u64

definition snapshot_is_dead :: "keeper_bucket \<Rightarrow> bool" where
  "snapshot_is_dead b \<longleftrightarrow> kb_total_recovery_shares b = 0 \<and> kb_total_recovery_notional b = 0
     \<and> kb_accrued_value b = 0 \<and> kb_position_count b = 0"

record ledger_snapshot =
  ls_sub_pool_id :: u32
  ls_direction :: direction
  ls_next_event_index :: u64
  ls_bucket_count_hint :: u32

record sub_pool_health =
  sh_sub_pool_id :: u32
  sh_last_price :: u64
  sh_long_anchor_price :: u64
  sh_short_anchor_price :: u64
  sh_long_pool_equity :: u128
  sh_short_pool_equity :: u128
  sh_long_active_notional :: u128
  sh_short_active_notional :: u128
  sh_long_active_generation :: u64
  sh_short_active_generation :: u64

record chain_view =
  cv_sub_pool_ids :: "u32 list"
  cv_buckets :: "u32 \<Rightarrow> keeper_bucket list"
  cv_ledger :: "u32 \<Rightarrow> direction \<Rightarrow> ledger_snapshot option"
  cv_sub_pool_health :: "u32 \<Rightarrow> sub_pool_health option"

section \<open>Actions\<close>

datatype init_rationale = RotateRiskHorizon | Explicit

datatype keeper_action =
    PreSyncDormantBucket u32 direction i64 u64
  | CloseDormantBucket u32 direction i64
  | InitDormantBucket u32 direction i64 init_rationale

definition sat_add_u64 :: "u64 \<Rightarrow> u64 \<Rightarrow> u64" where
  "sat_add_u64 a b = min (a + b) (2 ^ 64 - 1)"

definition priority :: "keeper_action \<Rightarrow> u64" where
  "priority a = (case a of
       InitDormantBucket i d t why \<Rightarrow> 1000000000
     | PreSyncDormantBucket i d t pending \<Rightarrow> sat_add_u64 10000000 pending
     | CloseDormantBucket i d t \<Rightarrow> 1)"

section \<open>The scheduler\<close>

record scheduler_config =
  min_pending_for_pre_sync :: u64
  max_actions_per_plan :: nat
  close_dead_buckets :: bool

definition default_scheduler_config :: scheduler_config where
  "default_scheduler_config =
     \<lparr>min_pending_for_pre_sync = 1, max_actions_per_plan = 0, close_dead_buckets = True\<rparr>"

type_synonym hint_key = "u32 \<times> direction \<times> i64"

record scheduler =
  sc_config :: scheduler_config
  sc_init_hints :: "(hint_key, init_rationale) btree"

definition new_scheduler :: "scheduler_config \<Rightarrow> scheduler" where
  "new_scheduler cfg = \<lparr>sc_config = cfg, sc_init_hints = bt_empty\<rparr>"

definition scheduler_set_config :: "scheduler_config \<Rightarrow> scheduler \<Rightarrow> scheduler" where
  "scheduler_set_config cfg s = s\<lparr>sc_config := cfg\<rparr>"

definition record_init_hint :: "u32 \<Rightarrow> direction \<Rightarrow> i64 \<Rightarrow> init_rationale \<Rightarrow> scheduler \<Rightarrow> scheduler" where
  "record_init_hint i d t why s = s\<lparr>sc_init_hints := bt_put (i, d, t) why (sc_init_hints s)\<rparr>"

definition cancel_init_hint :: "u32 \<Rightarrow> direction \<Rightarrow> i64 \<Rightarrow> scheduler \<Rightarrow> scheduler" where
  "cancel_init_hint i d t s = s\<lparr>sc_init_hints := bt_del (i, d, t) (sc_init_hints s)\<rparr>"

definition pending_init_hint_count :: "scheduler \<Rightarrow> nat" where
  "pending_init_hint_count s = length (sc_init_hints s)"

section \<open>Planning\<close>

text \<open>The body of the loop over the buckets of a sub-pool: at most one action per bucket.\<close>

definition plan_bucket ::
  "scheduler_config \<Rightarrow> (direction \<Rightarrow> ledger_snapshot option) \<Rightarrow> keeper_bucket
   \<Rightarrow> keeper_action list keeping" where
  "plan_bucket cfg ledgers b =
     and_then (ok_or (ledgers (kb_direction b)) (MissingLedger (kb_sub_pool_id b) (kb_direction b))) (\<lambda>l.
     if ls_next_event_index l < kb_last_applied_index b then
       Err (BucketAheadOfLedger (kb_sub_pool_id b) (kb_direction b) (kb_tick b)
              (kb_last_applied_index b) (ls_next_event_index l))
     else
       let pending = ls_next_event_index l - kb_last_applied_index b in
       if min_pending_for_pre_sync cfg \<le> pending \<and> 0 < pending then
         Ok [PreSyncDormantBucket (kb_sub_pool_id b) (kb_direction b) (kb_tick b) pending]
       else if close_dead_buckets cfg \<and> snapshot_is_dead b
               \<and> ls_next_event_index l \<le> kb_last_applied_index b then
         Ok [CloseDormantBucket (kb_sub_pool_id b) (kb_direction b) (kb_tick b)]
       else Ok [])"

definition plan_buckets :: "scheduler_config \<Rightarrow> chain_view \<Rightarrow> keeper_action list keeping" where
  "plan_buckets cfg view =
     fold_res (\<lambda>i acc. fold_res (\<lambda>b acc.
         and_then (plan_bucket cfg (cv_ledger view i) b) (\<lambda>as. Ok (acc @ as))) (cv_buckets view i) acc)
       (cv_sub_pool_ids view) []"

text \<open>The hints whose account the view does not show, in the order of the iteration.\<close>

definition has_bucket :: "chain_view \<Rightarrow> hint_key \<Rightarrow> bool" where
  "has_bucket view key = (case key of (i, d, t) \<Rightarrow>
     list_ex (\<lambda>b. kb_direction b = d \<and> kb_tick b = t) (cv_buckets view i))"

definition hints_to_emit ::
  "((hint_key \<times> init_rationale) list \<Rightarrow> (hint_key \<times> init_rationale) list) \<Rightarrow> chain_view \<Rightarrow> scheduler
   \<Rightarrow> (hint_key \<times> init_rationale) list" where
  "hints_to_emit iter view s = filter (\<lambda>(key, why). \<not> has_bucket view key) (iter (sc_init_hints s))"

definition init_action :: "hint_key \<times> init_rationale \<Rightarrow> keeper_action" where
  "init_action h = (case h of ((i, d, t), why) \<Rightarrow> InitDormantBucket i d t why)"

text \<open>\<open>sort_by_key\<close> on the reversed priority is a stable sort.\<close>

definition by_priority :: "keeper_action list \<Rightarrow> keeper_action list" where
  "by_priority = sort_key (\<lambda>a. - int (priority a))"

definition scheduler_plan ::
  "((hint_key \<times> init_rationale) list \<Rightarrow> (hint_key \<times> init_rationale) list) \<Rightarrow> chain_view \<Rightarrow> scheduler
   \<Rightarrow> scheduler \<times> keeper_action list keeping" where
  "scheduler_plan iter view s =
     (case plan_buckets (sc_config s) view of
        Inl f \<Rightarrow> (s, Inl f)
      | Inr actions \<Rightarrow>
          let to_emit = hints_to_emit iter view s;
              sorted_actions = by_priority (actions @ map init_action to_emit);
              cap = max_actions_per_plan (sc_config s);
              s' = s\<lparr>sc_init_hints := fold (\<lambda>(key, why). bt_del key) to_emit (sc_init_hints s)\<rparr>
          in (s', Ok (if 0 < cap \<and> cap < length sorted_actions then take cap sorted_actions
                      else sorted_actions)))"

section \<open>Executors\<close>

datatype dispatch_result =
    Submitted "string option"
  | Skipped string
  | DispatchFailed string

type_synonym 'e executor = "keeper_action \<Rightarrow> 'e \<Rightarrow> 'e \<times> dispatch_result"

record dry_run_executor =
  dr_log :: "keeper_action list"

definition new_dry_run :: dry_run_executor where
  "new_dry_run = \<lparr>dr_log = []\<rparr>"

definition dry_run_drain :: "dry_run_executor \<Rightarrow> dry_run_executor \<times> keeper_action list" where
  "dry_run_drain e = (e\<lparr>dr_log := []\<rparr>, dr_log e)"

definition dry_run_execute :: "dry_run_executor executor" where
  "dry_run_execute a e = (e\<lparr>dr_log := dr_log e @ [a]\<rparr>, Submitted None)"

fun execute_all :: "'e executor \<Rightarrow> keeper_action list \<Rightarrow> 'e \<Rightarrow> 'e \<times> (keeper_action \<times> dispatch_result) list" where
  "execute_all execute [] e = (e, [])"
| "execute_all execute (a # as) e =
     (case execute a e of (e1, r) \<Rightarrow>
        case execute_all execute as e1 of (e2, rest) \<Rightarrow> (e2, (a, r) # rest))"

definition run_plan_cycle ::
  "((hint_key \<times> init_rationale) list \<Rightarrow> (hint_key \<times> init_rationale) list) \<Rightarrow> chain_view \<Rightarrow> 'e executor
   \<Rightarrow> scheduler \<Rightarrow> 'e \<Rightarrow> scheduler \<times> 'e \<times> (keeper_action \<times> dispatch_result) list keeping" where
  "run_plan_cycle iter view execute s e =
     (case scheduler_plan iter view s of
        (s', Inl f) \<Rightarrow> (s', e, Inl f)
      | (s', Inr actions) \<Rightarrow> (case execute_all execute actions e of (e', out) \<Rightarrow> (s', e', Ok out)))"

end
