(* ===== verification/Keeper_Predictor.thy ===== *)
theory Keeper_Predictor
  imports Keeper Complex_Main
begin

text \<open>
  The volatility estimator and the rotate-risk predictor of \<open>crates/keeper/src/lib.rs\<close>. Their
  double-precision arithmetic is the parameter \<open>fl\<close>, a record of the operations of \<open>f64\<close> the code
  uses, so that what is proved holds whatever the rounding; which operation is applied to
  what, in which order, is the code's. A literal is the rational it denotes.
\<close>

section \<open>Double-precision arithmetic\<close>

record 'f f64_ops =
  f_lit :: "rat \<Rightarrow> 'f"
  f_of_nat :: "nat \<Rightarrow> 'f"
  f_add :: "'f \<Rightarrow> 'f \<Rightarrow> 'f"
  f_sub :: "'f \<Rightarrow> 'f \<Rightarrow> 'f"
  f_mul :: "'f \<Rightarrow> 'f \<Rightarrow> 'f"
  f_div :: "'f \<Rightarrow> 'f \<Rightarrow> 'f"
  f_neg :: "'f \<Rightarrow> 'f"
  f_abs :: "'f \<Rightarrow> 'f"
  f_ln :: "'f \<Rightarrow> 'f"
  f_exp :: "'f \<Rightarrow> 'f"
  f_sqrt :: "'f \<Rightarrow> 'f"
  f_pi :: 'f
  f_lt :: "'f \<Rightarrow> 'f \<Rightarrow> bool"
  f_le :: "'f \<Rightarrow> 'f \<Rightarrow> bool"
  f_eq :: "'f \<Rightarrow> 'f \<Rightarrow> bool"
  f_finite :: "'f \<Rightarrow> bool"
  f_round_u64 :: "'f \<Rightarrow> u64"

text \<open>\<open>f64::clamp\<close> asserts that the bounds are ordered.\<close>

definition f_clamp :: "'f f64_ops \<Rightarrow> 'f \<Rightarrow> 'f \<Rightarrow> 'f \<Rightarrow> ('e, 'f) result" where
  "f_clamp fl x lo hi =
     (if \<not> f_le fl lo hi then Panic ''min > max, or either was NaN''
      else Ok (let x = (if f_lt fl x lo then lo else x) in if f_lt fl hi x then hi else x))"

definition seconds_per_year :: "'f f64_ops \<Rightarrow> 'f" where
  "seconds_per_year fl = f_mul fl (f_mul fl (f_lit fl 365) (f_lit fl 24)) (f_lit fl 3600)"

section \<open>Realised volatility\<close>

record price_sample =
  sample_price :: u64
  sample_slot :: u64

record 'f vol_config =
  vc_max_samples :: nat
  vc_max_age_slots :: u64
  vc_min_samples :: nat
  vc_slots_per_second :: 'f
  vc_min_clamp :: 'f
  vc_max_clamp :: 'f

definition default_vol_config :: "'f f64_ops \<Rightarrow> 'f vol_config" where
  "default_vol_config fl = \<lparr>vc_max_samples = 256, vc_max_age_slots = 6 * 60 * 60 * 5 div 2,
     vc_min_samples = 16, vc_slots_per_second = f_lit fl (5 / 2), vc_min_clamp = f_lit fl (1 / 20),
     vc_max_clamp = f_lit fl 5\<rparr>"

record 'f vol_estimator =
  ve_config :: "'f vol_config"
  ve_samples :: "price_sample list"

definition new_vol_estimator :: "'f vol_config \<Rightarrow> 'f vol_estimator" where
  "new_vol_estimator cfg = \<lparr>ve_config = cfg, ve_samples = []\<rparr>"

definition vol_reset :: "'f vol_estimator \<Rightarrow> 'f vol_estimator" where
  "vol_reset v = v\<lparr>ve_samples := []\<rparr>"

definition vol_record :: "price_sample \<Rightarrow> 'f vol_estimator \<Rightarrow> 'f vol_estimator" where
  "vol_record s v =
     (if ve_samples v \<noteq> [] \<and> sample_slot s \<le> sample_slot (last (ve_samples v)) then v
      else if sample_price s = 0 then v
      else
        let pushed = ve_samples v @ [s];
            cutoff = sample_slot s - vc_max_age_slots (ve_config v);
            young = dropWhile (\<lambda>front. sample_slot front < cutoff) pushed
        in v\<lparr>ve_samples := drop (length young - vc_max_samples (ve_config v)) young\<rparr>)"

text \<open>The loop over the samples: the sums of squared returns and of elapsed years, and the last sample.\<close>

definition vol_step ::
  "'f f64_ops \<Rightarrow> 'f vol_config \<Rightarrow> price_sample \<Rightarrow> 'f \<times> 'f \<times> price_sample option
   \<Rightarrow> 'f \<times> 'f \<times> price_sample option" where
  "vol_step fl cfg s acc = (case acc of (sum_r2, sum_dt, prev) \<Rightarrow>
     (case prev of
        None \<Rightarrow> (sum_r2, sum_dt, Some s)
      | Some p \<Rightarrow>
          let r = f_sub fl (f_ln fl (f_of_nat fl (sample_price s))) (f_ln fl (f_of_nat fl (sample_price p)));
              dslot = f_of_nat fl (sample_slot s - sample_slot p);
              dt = f_div fl (f_div fl dslot (vc_slots_per_second cfg)) (seconds_per_year fl)
          in if f_lt fl (f_lit fl 0) dt \<and> f_finite fl r then
               (f_add fl sum_r2 (f_mul fl r r), f_add fl sum_dt dt, Some s)
             else (sum_r2, sum_dt, Some s)))"

definition current_estimate :: "'f f64_ops \<Rightarrow> 'f vol_estimator \<Rightarrow> 'f option keeping" where
  "current_estimate fl v =
     (if length (ve_samples v) < vc_min_samples (ve_config v) then Ok None
      else
        case fold (vol_step fl (ve_config v)) (ve_samples v) (f_lit fl 0, f_lit fl 0, None) of
          (sum_r2, sum_dt, prev) \<Rightarrow>
        if f_le fl sum_dt (f_lit fl 0) then Ok None
        else
          let sigma = f_sqrt fl (f_div fl sum_r2 sum_dt) in
          if \<not> f_finite fl sigma then Ok None
          else and_then (f_clamp fl sigma (vc_min_clamp (ve_config v)) (vc_max_clamp (ve_config v)))
                 (\<lambda>x. Ok (Some x)))"

section \<open>Rotate risk\<close>

record 'f predictor_config =
  pc_annual_vol :: 'f
  pc_horizon_slots :: u64
  pc_slots_per_second :: 'f
  pc_min_probability :: 'f
  pc_tick_aggregation_factor :: u32
  pc_price_tick :: u64

definition default_predictor_config :: "'f f64_ops \<Rightarrow> 'f predictor_config" where
  "default_predictor_config fl = \<lparr>pc_annual_vol = f_lit fl (6 / 10), pc_horizon_slots = 1500,
     pc_slots_per_second = f_lit fl (5 / 2), pc_min_probability = f_lit fl (1 / 20),
     pc_tick_aggregation_factor = 1, pc_price_tick = 1\<rparr>"

definition apply_to_predictor_config ::
  "'f f64_ops \<Rightarrow> 'f vol_estimator \<Rightarrow> 'f predictor_config \<Rightarrow> ('f predictor_config \<times> bool) keeping" where
  "apply_to_predictor_config fl v pc =
     and_then (current_estimate fl v) (\<lambda>est. case est of
       Some sigma \<Rightarrow> Ok (pc\<lparr>pc_annual_vol := sigma\<rparr>, True)
     | None \<Rightarrow> Ok (pc, False))"

record 'f rotate_prediction =
  rp_sub_pool_id :: u32
  rp_direction :: direction
  rp_zero_price :: u64
  rp_zero_tick :: i64
  rp_probability :: 'f

definition price_to_tick :: "u64 \<Rightarrow> u64 \<Rightarrow> u32 \<Rightarrow> i64" where
  "price_to_tick price tick_size aggregation =
     (let denom = tick_size * max aggregation 1 in
      if denom = 0 then 0
      else let t = price div denom in
           if 2 ^ 63 - 1 < t then 2 ^ 63 - 1 else int t)"

text \<open>The normal distribution function, by the rational approximation of the code.\<close>

definition standard_normal_cdf :: "'f f64_ops \<Rightarrow> 'f \<Rightarrow> 'f" where
  "standard_normal_cdf fl x =
     (let b1 = f_lit fl (319381530 / 10 ^ 9); b2 = f_neg fl (f_lit fl (356563782 / 10 ^ 9));
          b3 = f_lit fl (1781477937 / 10 ^ 9); b4 = f_neg fl (f_lit fl (1821255978 / 10 ^ 9));
          b5 = f_lit fl (1330274429 / 10 ^ 9); p = f_lit fl (2316419 / 10 ^ 7);
          a = f_abs fl x;
          t = f_div fl (f_lit fl 1) (f_add fl (f_lit fl 1) (f_mul fl p a));
          pdf = f_div fl (f_exp fl (f_div fl (f_neg fl (f_mul fl a a)) (f_lit fl 2)))
                  (f_sqrt fl (f_mul fl (f_lit fl 2) (f_pi fl)));
          series = f_mul fl (f_add fl (f_mul fl (f_add fl (f_mul fl (f_add fl (f_mul fl (f_add fl
                     (f_mul fl b5 t) b4) t) b3) t) b2) t) b1) t;
          upper_tail = f_mul fl pdf series
      in if f_le fl (f_lit fl 0) x then f_sub fl (f_lit fl 1) upper_tail else upper_tail)"

text \<open>The price at which the pool of a direction is exhausted, if it can be.\<close>

definition zero_price_of :: "'f f64_ops \<Rightarrow> direction \<Rightarrow> u64 \<Rightarrow> u128 \<Rightarrow> u128 \<Rightarrow> 'f option" where
  "zero_price_of fl d anchor eq notion =
     (let ratio = f_div fl (f_of_nat fl eq) (f_of_nat fl notion);
          anchor_f = f_of_nat fl anchor
      in case d of
           Long \<Rightarrow> if f_le fl (f_lit fl 1) ratio then None
                   else Some (f_mul fl anchor_f (f_sub fl (f_lit fl 1) ratio))
         | Short \<Rightarrow> Some (f_mul fl anchor_f (f_add fl (f_lit fl 1) ratio)))"

definition predict_direction ::
  "'f f64_ops \<Rightarrow> 'f predictor_config \<Rightarrow> sub_pool_health \<Rightarrow> direction \<Rightarrow> 'f rotate_prediction option" where
  "predict_direction fl cfg h d =
     (if sh_last_price h = 0 then None
      else
        let (anchor, eq, notion) = (case d of
              Long \<Rightarrow> (sh_long_anchor_price h, sh_long_pool_equity h, sh_long_active_notional h)
            | Short \<Rightarrow> (sh_short_anchor_price h, sh_short_pool_equity h, sh_short_active_notional h))
        in
        if anchor = 0 \<or> notion = 0 then None
        else
          case zero_price_of fl d anchor eq notion of
            None \<Rightarrow> None
          | Some zero_price_f \<Rightarrow>
              if \<not> f_finite fl zero_price_f \<or> f_le fl zero_price_f (f_lit fl 0) then None
              else
                let zero_price = f_round_u64 fl zero_price_f;
                    log_ret = f_ln fl (f_div fl zero_price_f (f_of_nat fl (sh_last_price h)));
                    horizon_years = f_div fl (f_div fl (f_of_nat fl (pc_horizon_slots cfg))
                      (pc_slots_per_second cfg)) (seconds_per_year fl)
                in
                if f_le fl horizon_years (f_lit fl 0) \<or> f_le fl (pc_annual_vol cfg) (f_lit fl 0) then None
                else
                  let sigma_t = f_mul fl (pc_annual_vol cfg) (f_sqrt fl horizon_years) in
                  if f_eq fl sigma_t (f_lit fl 0) then None
                  else
                    let z = f_div fl log_ret sigma_t;
                        prob = (case d of Long \<Rightarrow> standard_normal_cdf fl z
                                | Short \<Rightarrow> f_sub fl (f_lit fl 1) (standard_normal_cdf fl z))
                    in
                    if \<not> f_finite fl prob \<or> f_lt fl prob (pc_min_probability cfg) then None
                    else Some \<lparr>rp_sub_pool_id = sh_sub_pool_id h, rp_direction = d,
                           rp_zero_price = zero_price,
                           rp_zero_tick = price_to_tick zero_price (pc_price_tick cfg)
                             (pc_tick_aggregation_factor cfg),
                           rp_probability = prob\<rparr>)"

definition predict_one ::
  "'f f64_ops \<Rightarrow> 'f predictor_config \<Rightarrow> sub_pool_health \<Rightarrow> 'f rotate_prediction list" where
  "predict_one fl cfg h =
     (case predict_direction fl cfg h Long of None \<Rightarrow> [] | Some p \<Rightarrow> [p])
     @ (case predict_direction fl cfg h Short of None \<Rightarrow> [] | Some p \<Rightarrow> [p])"

definition hint_prediction :: "'f rotate_prediction \<Rightarrow> scheduler \<Rightarrow> scheduler" where
  "hint_prediction p = record_init_hint (rp_sub_pool_id p) (rp_direction p) (rp_zero_tick p) RotateRiskHorizon"

definition populate_scheduler ::
  "'f f64_ops \<Rightarrow> 'f predictor_config \<Rightarrow> chain_view \<Rightarrow> scheduler \<Rightarrow> scheduler \<times> 'f rotate_prediction list" where
  "populate_scheduler fl cfg view s =
     fold (\<lambda>i (s, all). case cv_sub_pool_health view i of
         None \<Rightarrow> (s, all)
       | Some h \<Rightarrow> fold (\<lambda>p (s, all). (hint_prediction p s, all @ [p])) (predict_one fl cfg h) (s, all))
       (cv_sub_pool_ids view) (s, [])"

end
