(* ===== verification/Keeper_Loop.thy ===== *)
theory Keeper_Loop
  imports Keeper_Predictor
begin

text \<open>
  The keeper loop of \<open>crates/keeper/src/lib.rs\<close>: the metrics and one tick. The trait
  \<open>KeeperBotEnvironment\<close> is a record of its three functions over the state of the environment.
  Counters are \<open>u32\<close>: an \<open>as u32\<close> cast truncates, a \<open>+=\<close> panics past the width.
\<close>

section \<open>Metrics\<close>

record loop_metrics =
  lm_price_samples_recorded :: u32
  lm_init_hints_recorded :: u32
  lm_actions_planned :: u32
  lm_actions_submitted :: u32
  lm_actions_failed :: u32
  lm_actions_skipped :: u32
  lm_vol_estimator_applied :: bool

definition no_metrics :: loop_metrics where
  "no_metrics = \<lparr>lm_price_samples_recorded = 0, lm_init_hints_recorded = 0, lm_actions_planned = 0,
     lm_actions_submitted = 0, lm_actions_failed = 0, lm_actions_skipped = 0,
     lm_vol_estimator_applied = False\<rparr>"

definition merge_metrics :: "loop_metrics \<Rightarrow> loop_metrics \<Rightarrow> loop_metrics keeping" where
  "merge_metrics a b =
     and_then (plus_w 32 (lm_price_samples_recorded a) (lm_price_samples_recorded b)) (\<lambda>samples.
     and_then (plus_w 32 (lm_init_hints_recorded a) (lm_init_hints_recorded b)) (\<lambda>hints.
     and_then (plus_w 32 (lm_actions_planned a) (lm_actions_planned b)) (\<lambda>planned.
     and_then (plus_w 32 (lm_actions_submitted a) (lm_actions_submitted b)) (\<lambda>submitted.
     and_then (plus_w 32 (lm_actions_failed a) (lm_actions_failed b)) (\<lambda>failed.
     and_then (plus_w 32 (lm_actions_skipped a) (lm_actions_skipped b)) (\<lambda>skipped.
     Ok \<lparr>lm_price_samples_recorded = samples, lm_init_hints_recorded = hints,
         lm_actions_planned = planned, lm_actions_submitted = submitted,
         lm_actions_failed = failed, lm_actions_skipped = skipped,
         lm_vol_estimator_applied = (lm_vol_estimator_applied a \<or> lm_vol_estimator_applied b)\<rparr>))))))"

definition count_result :: "dispatch_result \<Rightarrow> loop_metrics \<Rightarrow> loop_metrics keeping" where
  "count_result r m = (case r of
       Submitted sig \<Rightarrow> and_then (plus_w 32 (lm_actions_submitted m) 1) (\<lambda>n. Ok (m\<lparr>lm_actions_submitted := n\<rparr>))
     | DispatchFailed why \<Rightarrow> and_then (plus_w 32 (lm_actions_failed m) 1) (\<lambda>n. Ok (m\<lparr>lm_actions_failed := n\<rparr>))
     | Skipped why \<Rightarrow> and_then (plus_w 32 (lm_actions_skipped m) 1) (\<lambda>n. Ok (m\<lparr>lm_actions_skipped := n\<rparr>)))"

record loop_outcome =
  lo_metrics :: loop_metrics
  lo_dispatched :: "(keeper_action \<times> dispatch_result) list"

section \<open>The loop\<close>

record 'e bot_environment =
  be_chain_view :: "'e \<Rightarrow> chain_view"
  be_fetch_price_sample :: "'e \<Rightarrow> 'e \<times> price_sample option"
  be_execute :: "'e executor"

record loop_config =
  lc_run_predictor :: bool
  lc_auto_tune_vol :: bool

definition default_loop_config :: loop_config where
  "default_loop_config = \<lparr>lc_run_predictor = True, lc_auto_tune_vol = True\<rparr>"

record 'f keeper_loop =
  kl_config :: loop_config
  kl_scheduler :: scheduler
  kl_predictor :: "'f predictor_config"
  kl_vol_estimator :: "'f vol_estimator"

text \<open>Step 1: record a fresh sample, if there is one.\<close>

definition tick_sample ::
  "'e bot_environment \<Rightarrow> 'f keeper_loop \<Rightarrow> 'e \<Rightarrow> 'f keeper_loop \<times> 'e \<times> loop_metrics" where
  "tick_sample env k e = (case be_fetch_price_sample env e of
       (e', None) \<Rightarrow> (k, e', no_metrics)
     | (e', Some s) \<Rightarrow> (k\<lparr>kl_vol_estimator := vol_record s (kl_vol_estimator k)\<rparr>, e',
                       no_metrics\<lparr>lm_price_samples_recorded := 1\<rparr>))"

text \<open>Step 2: tune the predictor.\<close>

definition tick_tune ::
  "'f f64_ops \<Rightarrow> 'f keeper_loop \<Rightarrow> loop_metrics \<Rightarrow> ('f keeper_loop \<times> loop_metrics) keeping" where
  "tick_tune fl k m =
     (if lc_auto_tune_vol (kl_config k) then
        and_then (apply_to_predictor_config fl (kl_vol_estimator k) (kl_predictor k)) (\<lambda>(cfg, applied).
        Ok (k\<lparr>kl_predictor := cfg\<rparr>, m\<lparr>lm_vol_estimator_applied := applied\<rparr>))
      else Ok (k, m))"

text \<open>Step 3: the predictor's hints.\<close>

definition tick_predict ::
  "'f f64_ops \<Rightarrow> chain_view \<Rightarrow> 'f keeper_loop \<Rightarrow> loop_metrics \<Rightarrow> 'f keeper_loop \<times> loop_metrics" where
  "tick_predict fl view k m =
     (if lc_run_predictor (kl_config k) then
        case populate_scheduler fl (kl_predictor k) view (kl_scheduler k) of
          (s, preds) \<Rightarrow> (k\<lparr>kl_scheduler := s\<rparr>, m\<lparr>lm_init_hints_recorded := length preds mod 2 ^ 32\<rparr>)
      else (k, m))"

text \<open>Step 4: dispatch the planned actions one by one, counting the results.\<close>

fun dispatch_all ::
  "'e executor \<Rightarrow> keeper_action list \<Rightarrow> loop_metrics \<Rightarrow> 'e
   \<Rightarrow> 'e \<times> (loop_metrics \<times> (keeper_action \<times> dispatch_result) list) keeping" where
  "dispatch_all execute [] m e = (e, Ok (m, []))"
| "dispatch_all execute (a # as) m e =
     (case execute a e of (e1, r) \<Rightarrow>
       case count_result r m of
         Inl f \<Rightarrow> (e1, Inl f)
       | Inr m1 \<Rightarrow>
           (case dispatch_all execute as m1 e1 of
              (e2, Inl f) \<Rightarrow> (e2, Inl f)
            | (e2, Inr (m2, rest)) \<Rightarrow> (e2, Ok (m2, (a, r) # rest))))"

definition tick_plan ::
  "((hint_key \<times> init_rationale) list \<Rightarrow> (hint_key \<times> init_rationale) list) \<Rightarrow> 'e bot_environment
   \<Rightarrow> 'f keeper_loop \<Rightarrow> loop_metrics \<Rightarrow> 'e \<Rightarrow> 'f keeper_loop \<times> 'e \<times> loop_outcome keeping" where
  "tick_plan iter env k m e =
     (case scheduler_plan iter (be_chain_view env e) (kl_scheduler k) of
        (s, Inl f) \<Rightarrow> (k\<lparr>kl_scheduler := s\<rparr>, e, Inl f)
      | (s, Inr actions) \<Rightarrow>
          (case dispatch_all (be_execute env) actions
                  (m\<lparr>lm_actions_planned := length actions mod 2 ^ 32\<rparr>) e of
             (e', Inl f) \<Rightarrow> (k\<lparr>kl_scheduler := s\<rparr>, e', Inl f)
           | (e', Inr (m', dispatched)) \<Rightarrow>
               (k\<lparr>kl_scheduler := s\<rparr>, e', Ok \<lparr>lo_metrics = m', lo_dispatched = dispatched\<rparr>)))"

definition keeper_tick ::
  "((hint_key \<times> init_rationale) list \<Rightarrow> (hint_key \<times> init_rationale) list) \<Rightarrow> 'f f64_ops
   \<Rightarrow> 'e bot_environment \<Rightarrow> 'f keeper_loop \<Rightarrow> 'e \<Rightarrow> 'f keeper_loop \<times> 'e \<times> loop_outcome keeping" where
  "keeper_tick iter fl env k e =
     (case tick_sample env k e of (k1, e1, m1) \<Rightarrow>
       case tick_tune fl k1 m1 of
         Inl f \<Rightarrow> (k1, e1, Inl f)
       | Inr (k2, m2) \<Rightarrow>
           (case tick_predict fl (be_chain_view env e1) k2 m2 of
              (k3, m3) \<Rightarrow> tick_plan iter env k3 m3 e1))"

end
