(* ===== verification/Keeper_Properties.thy ===== *)
theory Keeper_Properties
  imports Keeper_Loop Engine
begin

text \<open>
  The properties of the keeper: a plan holds exactly the actions the view calls for, when it is
  refused, what happens to the hints, how the priorities rank, the window of the volatility
  estimator, the ticks of the predictor, and what one tick of the loop does.
\<close>

section \<open>Plans\<close>

text \<open>A bucket the scheduler accepts: its ledger is known and is not behind it.\<close>

definition plannable :: "chain_view \<Rightarrow> u32 \<Rightarrow> keeper_bucket \<Rightarrow> bool" where
  "plannable view i b \<longleftrightarrow> (\<exists>l. cv_ledger view i (kb_direction b) = Some l
     \<and> kb_last_applied_index b \<le> ls_next_event_index l)"

definition all_plannable :: "chain_view \<Rightarrow> bool" where
  "all_plannable view \<longleftrightarrow> (\<forall>i\<in>set (cv_sub_pool_ids view). \<forall>b\<in>set (cv_buckets view i). plannable view i b)"

text \<open>The action a bucket calls for.\<close>

definition bucket_wants :: "scheduler_config \<Rightarrow> chain_view \<Rightarrow> u32 \<Rightarrow> keeper_bucket \<Rightarrow> keeper_action \<Rightarrow> bool" where
  "bucket_wants cfg view i b a \<longleftrightarrow> (\<exists>l pending. cv_ledger view i (kb_direction b) = Some l
     \<and> ls_next_event_index l = kb_last_applied_index b + pending
     \<and> (if 0 < pending \<and> min_pending_for_pre_sync cfg \<le> pending
        then a = PreSyncDormantBucket (kb_sub_pool_id b) (kb_direction b) (kb_tick b) pending
        else pending = 0 \<and> close_dead_buckets cfg \<and> snapshot_is_dead b
          \<and> a = CloseDormantBucket (kb_sub_pool_id b) (kb_direction b) (kb_tick b)))"

definition wanted :: "chain_view \<Rightarrow> scheduler \<Rightarrow> keeper_action \<Rightarrow> bool" where
  "wanted view s a \<longleftrightarrow>
     (\<exists>i\<in>set (cv_sub_pool_ids view). \<exists>b\<in>set (cv_buckets view i). bucket_wants (sc_config s) view i b a)
     \<or> (\<exists>i d t why. bt_get (sc_init_hints s) (i, d, t) = Some why \<and> \<not> has_bucket view (i, d, t)
          \<and> a = InitDormantBucket i d t why)"

text \<open>An iteration order of a hash map: some arrangement of its entries.\<close>

definition reorders :: "('a list \<Rightarrow> 'a list) \<Rightarrow> bool" where
  "reorders iter \<longleftrightarrow> (\<forall>xs. set (iter xs) = set xs)"

lemma plan_bucket_cases:
  assumes "plannable view i b"
  shows "\<exists>as. plan_bucket cfg (cv_ledger view i) b = Ok as \<and> set as = {a. bucket_wants cfg view i b a}"
proof -
  obtain l pending where l: "cv_ledger view i (kb_direction b) = Some l"
      "ls_next_event_index l = kb_last_applied_index b + pending"
    using assms by (auto simp: plannable_def le_iff_add)
  have wants: "bucket_wants cfg view i b a \<longleftrightarrow>
      (if 0 < pending \<and> min_pending_for_pre_sync cfg \<le> pending
        then a = PreSyncDormantBucket (kb_sub_pool_id b) (kb_direction b) (kb_tick b) pending
        else pending = 0 \<and> close_dead_buckets cfg \<and> snapshot_is_dead b
          \<and> a = CloseDormantBucket (kb_sub_pool_id b) (kb_direction b) (kb_tick b))" for a
    by (simp add: bucket_wants_def l)
  show ?thesis
    unfolding wants by (cases "0 < pending") (auto simp: plan_bucket_def l Let_def)
qed

lemma plan_bucket_refuses:
  "\<not> plannable view i b \<Longrightarrow> \<exists>e. plan_bucket cfg (cv_ledger view i) b = Err e"
  by (cases "cv_ledger view i (kb_direction b)") (auto simp: plannable_def plan_bucket_def)

lemma plan_pool_cases:
  assumes "\<forall>b\<in>set bs. plannable view i b"
  shows "\<exists>as. fold_res (\<lambda>b acc. and_then (plan_bucket cfg (cv_ledger view i) b) (\<lambda>as. Ok (acc @ as))) bs acc
      = Ok (acc @ as) \<and> set as = {a. \<exists>b\<in>set bs. bucket_wants cfg view i b a}"
  using assms
proof (induction bs arbitrary: acc)
  case (Cons b bs)
  obtain as1 where 1: "plan_bucket cfg (cv_ledger view i) b = Ok as1" "set as1 = {a. bucket_wants cfg view i b a}"
    using plan_bucket_cases Cons.prems by fastforce
  obtain as2 where 2: "fold_res (\<lambda>b acc. and_then (plan_bucket cfg (cv_ledger view i) b) (\<lambda>as. Ok (acc @ as)))
      bs (acc @ as1) = Ok ((acc @ as1) @ as2)" "set as2 = {a. \<exists>b\<in>set bs. bucket_wants cfg view i b a}"
    using Cons.IH [of "acc @ as1"] Cons.prems by auto
  from 1 2 show ?case by (auto intro!: exI [of _ "as1 @ as2"])
qed simp

lemma plan_pool_refuses:
  assumes "\<exists>b\<in>set bs. \<not> plannable view i b"
  shows "\<exists>e. fold_res (\<lambda>b acc. and_then (plan_bucket cfg (cv_ledger view i) b) (\<lambda>as. Ok (acc @ as))) bs acc = Err e"
  using assms
proof (induction bs arbitrary: acc)
  case (Cons b bs)
  show ?case
  proof (cases "plannable view i b")
    case True
    with plan_bucket_cases [of view i b cfg] Cons show ?thesis by auto
  next
    case False
    with plan_bucket_refuses [of view i b cfg] show ?thesis by auto
  qed
qed simp

lemma plan_pools_cases:
  fixes cfg view
  defines "step \<equiv> \<lambda>i acc. fold_res (\<lambda>b acc. and_then (plan_bucket cfg (cv_ledger view i) b)
      (\<lambda>as. Ok (acc @ as))) (cv_buckets view i) acc"
  shows "(\<forall>i\<in>set is. \<forall>b\<in>set (cv_buckets view i). plannable view i b) \<Longrightarrow>
      \<exists>as. fold_res step is acc = Ok (acc @ as)
        \<and> set as = {a. \<exists>i\<in>set is. \<exists>b\<in>set (cv_buckets view i). bucket_wants cfg view i b a}"
    and "\<exists>i\<in>set is. \<exists>b\<in>set (cv_buckets view i). \<not> plannable view i b \<Longrightarrow> \<exists>e. fold_res step is acc = Err e"
proof (induction "is" arbitrary: acc)
  case (Cons i "is")
  {
    case 1
    then obtain as1 where 1: "step i acc = Ok (acc @ as1)"
        "set as1 = {a. \<exists>b\<in>set (cv_buckets view i). bucket_wants cfg view i b a}"
      using plan_pool_cases [of "cv_buckets view i" view i cfg acc] by (auto simp: step_def)
    obtain as2 where 2: "fold_res step is (acc @ as1) = Ok ((acc @ as1) @ as2)"
        "set as2 = {a. \<exists>i\<in>set is. \<exists>b\<in>set (cv_buckets view i). bucket_wants cfg view i b a}"
      using Cons.IH(1) [of "acc @ as1"] \<open>\<forall>i\<in>set (i # is). _\<close> by auto
    from 1 2 show ?case by (auto intro!: exI [of _ "as1 @ as2"])
  next
    case 2
    show ?case
    proof (cases "\<forall>b\<in>set (cv_buckets view i). plannable view i b")
      case True
      with plan_pool_cases [of "cv_buckets view i" view i cfg acc] Cons.IH(2) 2
      show ?thesis by (auto simp: step_def)
    next
      case False
      with plan_pool_refuses [of "cv_buckets view i" view i cfg acc] show ?thesis by (auto simp: step_def)
    qed
  }
qed simp_all

lemmas plan_buckets_cases = plan_pools_cases [of "cv_sub_pool_ids view" view cfg "[]" for view cfg,
    folded plan_buckets_def all_plannable_def, simplified]

lemma plan_Ok_iff: "(\<exists>as. plan_buckets cfg view = Ok as) \<longleftrightarrow> all_plannable view"
proof (cases "all_plannable view")
  case True
  with plan_buckets_cases(1) [of view cfg] show ?thesis by blast
next
  case False
  with plan_buckets_cases(2) [of view cfg] show ?thesis by (auto simp: all_plannable_def)
qed

lemma hints_emitted:
  assumes "reorders iter" and "bt_wf (sc_init_hints s)"
  shows "((i, d, t), why) \<in> set (hints_to_emit iter view s) \<longleftrightarrow>
    bt_get (sc_init_hints s) (i, d, t) = Some why \<and> \<not> has_bucket view (i, d, t)"
proof -
  have "set (iter (sc_init_hints s)) = set (sc_init_hints s)" using assms(1) by (simp add: reorders_def)
  then show ?thesis
    using bt.in_entries_iff [OF assms(2)] by (auto simp: hints_to_emit_def)
qed

lemma fold_del_get:
  "bt_wf m \<Longrightarrow> bt_wf (fold (\<lambda>(key, why). bt_del key) hs m)
     \<and> bt_get (fold (\<lambda>(key, why). bt_del key) hs m) key = (if key \<in> fst ` set hs then None else bt_get m key)"
proof (induction hs arbitrary: m)
  case (Cons h hs)
  obtain k why where h: "h = (k, why)" by (cases h)
  from Cons.IH [of "bt_del k m"] Cons.prems show ?case by (auto simp: h bt_wf_del bt_get_del)
qed simp

lemma by_priority_sorted: "sorted_wrt (\<lambda>a b. priority b \<le> priority a) (by_priority as)"
proof -
  have "sorted (map (\<lambda>a. - int (priority a)) (by_priority as))" by (simp add: by_priority_def)
  then show ?thesis by (simp add: sorted_map)
qed

lemma plan_shape:
  assumes "scheduler_plan iter view s = (s', Ok as)" and "reorders iter" and "bt_wf (sc_init_hints s)"
  obtains full where "set full = {a. wanted view s a}" and "sorted_wrt (\<lambda>a b. priority b \<le> priority a) full"
    and "as = (if max_actions_per_plan (sc_config s) = 0 then full else take (max_actions_per_plan (sc_config s)) full)"
    and "sc_config s' = sc_config s" and "all_plannable view"
    and "\<forall>key. bt_get (sc_init_hints s') key = (if has_bucket view key then bt_get (sc_init_hints s) key else None)"
proof -
  obtain acts where acts: "plan_buckets (sc_config s) view = Ok acts"
    using assms(1) by (auto simp: scheduler_plan_def split: sum.splits)
  then have plannable: "all_plannable view" using plan_Ok_iff by blast
  with plan_buckets_cases(1) [of view "sc_config s"] acts
  have set_acts: "set acts = {a. \<exists>i\<in>set (cv_sub_pool_ids view). \<exists>b\<in>set (cv_buckets view i).
      bucket_wants (sc_config s) view i b a}" by auto
  let ?emit = "hints_to_emit iter view s"
  let ?full = "by_priority (acts @ map init_action ?emit)"
  have emit: "((i, d, t), why) \<in> set ?emit \<longleftrightarrow>
      bt_get (sc_init_hints s) (i, d, t) = Some why \<and> \<not> has_bucket view (i, d, t)" for i d t why
    using hints_emitted [OF assms(2,3)] .
  have "init_action ` set ?emit = {a. \<exists>i d t why. bt_get (sc_init_hints s) (i, d, t) = Some why
      \<and> \<not> has_bucket view (i, d, t) \<and> a = InitDormantBucket i d t why}"
    using emit by (force simp: init_action_def image_iff)
  then have full: "set ?full = {a. wanted view s a}"
    by (auto simp: wanted_def by_priority_def set_acts)
  have gone: "key \<in> fst ` set ?emit \<longleftrightarrow> bt_get (sc_init_hints s) key \<noteq> None \<and> \<not> has_bucket view key" for key
    using emit by (cases key) (force simp: image_iff)
  have s': "s' = s\<lparr>sc_init_hints := fold (\<lambda>(key, why). bt_del key) ?emit (sc_init_hints s)\<rparr>"
    and as: "as = (if 0 < max_actions_per_plan (sc_config s) \<and> max_actions_per_plan (sc_config s) < length ?full
      then take (max_actions_per_plan (sc_config s)) ?full else ?full)"
    using assms(1) by (auto simp: scheduler_plan_def acts Let_def)
  show ?thesis
  proof (rule that [OF full by_priority_sorted])
    show "as = (if max_actions_per_plan (sc_config s) = 0 then ?full
        else take (max_actions_per_plan (sc_config s)) ?full)" by (auto simp: as)
    show "\<forall>key. bt_get (sc_init_hints s') key = (if has_bucket view key then bt_get (sc_init_hints s) key else None)"
      unfolding s' by (simp add: fold_del_get [OF assms(3)] gone)
  qed (simp_all add: s' plannable)
qed

text \<open>A view with one sub-pool and one bucket, three entries behind its ledger, for the witnesses.\<close>

definition demo_view :: chain_view where
  "demo_view = \<lparr>cv_sub_pool_ids = [7],
     cv_buckets = (\<lambda>i. if i = 7 then [\<lparr>kb_sub_pool_id = 7, kb_direction = Long, kb_tick = 900,
       kb_anchor_price = 900, kb_total_recovery_shares = 5, kb_total_recovery_notional = 50,
       kb_accrued_value = 0, kb_position_count = 1, kb_last_applied_index = 0\<rparr>] else []),
     cv_ledger = (\<lambda>i d. if i = 7 then Some \<lparr>ls_sub_pool_id = 7, ls_direction = d,
       ls_next_event_index = 3, ls_bucket_count_hint = 0\<rparr> else None),
     cv_sub_pool_health = (\<lambda>i. None)\<rparr>"

definition demo_scheduler :: "nat \<Rightarrow> scheduler" where
  "demo_scheduler cap = record_init_hint 7 Short 11 Explicit (record_init_hint 7 Short 12 Explicit
     (new_scheduler (default_scheduler_config\<lparr>max_actions_per_plan := cap\<rparr>)))"

lemmas demo_keeper = demo_view_def demo_scheduler_def record_init_hint_def new_scheduler_def
  default_scheduler_config_def bt_empty_def

lemma demo_scheduler_wf: "bt_wf (sc_init_hints (demo_scheduler cap))"
  by (simp add: demo_keeper bt_wf_put)

lemma demo_view_plannable: "all_plannable demo_view"
  by (simp add: all_plannable_def plannable_def demo_view_def)

lemma reorders_rev: "reorders rev"
  by (simp add: reorders_def)

section \<open>Properties\<close>

text \<open>
  C30: on a view whose buckets all have a ledger that is not behind them, a plan returns
  exactly the actions the view and the hints call for: a catch-up for every bucket with
  enough pending entries, a close for every dead bucket that has caught up, an account for
  every hint without one, and nothing else, by descending priority; with a cap it is the
  front of that list. Whatever the iteration order of the hints. The hints that remain are
  those whose account the view already shows.
\<close>

theorem plan_exact:
  assumes "reorders iter" and "bt_wf (sc_init_hints s)" and "all_plannable view"
  shows "\<exists>s' full. scheduler_plan iter view s = (s', Ok (if max_actions_per_plan (sc_config s) = 0 then full
          else take (max_actions_per_plan (sc_config s)) full))
    \<and> set full = {a. wanted view s a} \<and> sorted_wrt (\<lambda>a b. priority b \<le> priority a) full
    \<and> (\<forall>key. bt_get (sc_init_hints s') key
         = (if has_bucket view key then bt_get (sc_init_hints s) key else None))"
proof -
  obtain acts where "plan_buckets (sc_config s) view = Ok acts" using plan_Ok_iff assms(3) by blast
  then obtain s' as where plan: "scheduler_plan iter view s = (s', Ok as)"
    by (simp add: scheduler_plan_def Let_def)
  show ?thesis by (rule plan_shape [OF plan assms(1,2)]) (use plan in blast)
qed

theorem plan_exact_witness:
  "\<exists>s' as. scheduler_plan rev demo_view (demo_scheduler 0) = (s', Ok as)
     \<and> PreSyncDormantBucket 7 Long 900 3 \<in> set as \<and> InitDormantBucket 7 Short 11 Explicit \<in> set as"
proof -
  have "wanted demo_view (demo_scheduler 0) (PreSyncDormantBucket 7 Long 900 3)"
    by (simp add: wanted_def bucket_wants_def demo_keeper)
  moreover have "wanted demo_view (demo_scheduler 0) (InitDormantBucket 7 Short 11 Explicit)"
    by (simp add: wanted_def has_bucket_def demo_keeper)
  moreover have "max_actions_per_plan (sc_config (demo_scheduler 0)) = 0" by (simp add: demo_keeper)
  ultimately show ?thesis
    using plan_exact [OF reorders_rev demo_scheduler_wf demo_view_plannable, of 0] by auto
qed

lemma plan_by_view:
  "if all_plannable view then \<exists>s' as. scheduler_plan iter view s = (s', Ok as)
   else \<exists>e. scheduler_plan iter view s = (s, Err e)"
proof (cases "all_plannable view")
  case True
  then obtain acts where "plan_buckets (sc_config s) view = Ok acts" using plan_Ok_iff by blast
  with True show ?thesis by (simp add: scheduler_plan_def Let_def)
next
  case False
  with plan_buckets_cases(2) [of view "sc_config s"] obtain e where "plan_buckets (sc_config s) view = Err e"
    by (auto simp: all_plannable_def)
  with False show ?thesis by (simp add: scheduler_plan_def)
qed

text \<open>
  a plan is refused exactly when the view shows a bucket without a ledger or ahead of it,
  and then the scheduler, its hints included, is as it was; a plan never aborts.
\<close>

theorem plan_refused_exactly:
  "if all_plannable view then \<exists>s' as. scheduler_plan iter view s = (s', Ok as)
   else \<exists>e. scheduler_plan iter view s = (s, Err e)"
  by (rule plan_by_view)

text \<open>
  a hint that the cap cuts off is lost. It is not among the actions returned, its account
  does not exist, and the scheduler has forgotten it.
\<close>

theorem capped_hint_lost:
  assumes "scheduler_plan iter view s = (s', Ok as)" and "reorders iter" and "bt_wf (sc_init_hints s)"
    and "bt_get (sc_init_hints s) (i, d, t) = Some why" and "\<not> has_bucket view (i, d, t)"
    and "InitDormantBucket i d t why \<notin> set as"
  shows "bt_get (sc_init_hints s') (i, d, t) = None \<and> 0 < max_actions_per_plan (sc_config s)
    \<and> length as = max_actions_per_plan (sc_config s)"
proof -
  obtain full where full: "set full = {a. wanted view s a}"
    and as: "as = (if max_actions_per_plan (sc_config s) = 0 then full else take (max_actions_per_plan (sc_config s)) full)"
    and hints: "bt_get (sc_init_hints s') (i, d, t) = (if has_bucket view (i, d, t) then bt_get (sc_init_hints s) (i, d, t) else None)"
    by (rule plan_shape [OF assms(1-3)]) blast
  have "InitDormantBucket i d t why \<in> set full" using full assms(4,5) by (auto simp: wanted_def)
  with assms(6) have "as \<noteq> full" by auto
  with as hints assms(5) show ?thesis by (auto split: if_splits)
qed

theorem capped_hint_lost_witness:
  "\<exists>s' as. scheduler_plan rev demo_view (demo_scheduler 1) = (s', Ok as)
     \<and> bt_get (sc_init_hints (demo_scheduler 1)) (7, Short, 11) = Some Explicit
     \<and> InitDormantBucket 7 Short 11 Explicit \<notin> set as
     \<and> bt_get (sc_init_hints s') (7, Short, 11) = None"
proof -
  have "\<exists>s'. scheduler_plan rev demo_view (demo_scheduler 1) = (s', Ok [InitDormantBucket 7 Short 12 Explicit])"
    by (simp add: scheduler_plan_def plan_buckets_def plan_bucket_def hints_to_emit_def has_bucket_def
      by_priority_def init_action_def priority_def sat_add_u64_def demo_keeper Let_def)
  then obtain s' where plan: "scheduler_plan rev demo_view (demo_scheduler 1) = (s', Ok [InitDormantBucket 7 Short 12 Explicit])"
    by blast
  have hint: "bt_get (sc_init_hints (demo_scheduler 1)) (7, Short, 11) = Some Explicit"
    "\<not> has_bucket demo_view (7, Short, 11)" by (simp_all add: demo_keeper has_bucket_def)
  from capped_hint_lost [OF plan reorders_rev demo_scheduler_wf hint] plan hint show ?thesis by simp
qed

text \<open>
  the ranks of the actions. A catch-up always goes before a close and an account before a
  close; an account goes before a catch-up only up to 990 million pending entries.
\<close>

theorem priority_bands:
  "priority (CloseDormantBucket i d t) < priority (PreSyncDormantBucket i' d' t' n)
   \<and> priority (CloseDormantBucket i d t) < priority (InitDormantBucket i' d' t' why)
   \<and> (priority (PreSyncDormantBucket i' d' t' n) < priority (InitDormantBucket i d t why) \<longleftrightarrow> n < 990000000)"
  by (simp add: priority_def sat_add_u64_def min_less_iff_disj)

section \<open>The estimator\<close>

definition window_ok :: "'f vol_config \<Rightarrow> price_sample list \<Rightarrow> bool" where
  "window_ok cfg ss \<longleftrightarrow> sorted_wrt (\<lambda>a b. sample_slot a < sample_slot b) ss \<and> length ss \<le> vc_max_samples cfg
     \<and> (\<forall>s\<in>set ss. 0 < sample_price s \<and> sample_slot (last ss) \<le> sample_slot s + vc_max_age_slots cfg)"

lemma sorted_wrt_suffix:
  "sorted_wrt P xs \<Longrightarrow> sorted_wrt P (drop n xs)" "sorted_wrt P xs \<Longrightarrow> sorted_wrt P (dropWhile Q xs)"
  by (simp_all add: sorted_wrt_drop sorted_wrt_dropWhile)

lemma slots_le_last:
  "sorted_wrt (\<lambda>a b. sample_slot a < sample_slot b) ss \<Longrightarrow> s \<in> set ss \<Longrightarrow> sample_slot s \<le> sample_slot (last ss)"
  by (induction ss) (auto simp: le_less split: if_splits)

lemma last_dropWhile_eq: "dropWhile P xs \<noteq> [] \<Longrightarrow> last (dropWhile P xs) = last xs"
  by (induction xs) auto

lemma last_suffix:
  assumes "drop n (dropWhile P (xs @ [x])) \<noteq> []"
  shows "last (drop n (dropWhile P (xs @ [x]))) = x"
proof -
  have "dropWhile P (xs @ [x]) \<noteq> []" using assms by (metis drop_Nil)
  from last_dropWhile_eq [OF this] assms show ?thesis by (simp add: last_drop not_le)
qed

lemma dropWhile_sorted_slots:
  "sorted_wrt (\<lambda>a b. sample_slot a < sample_slot b) ss \<Longrightarrow> s \<in> set (dropWhile (\<lambda>f. sample_slot f < c) ss) \<Longrightarrow> c \<le> sample_slot s"
  by (induction ss) (auto split: if_splits)

lemma vol_record_config: "ve_config (vol_record s v) = ve_config v"
  by (simp add: vol_record_def Let_def)

lemma vol_record_window:
  assumes "window_ok (ve_config v) (ve_samples v)"
  shows "window_ok (ve_config (vol_record s v)) (ve_samples (vol_record s v))"
proof (cases "ve_samples v \<noteq> [] \<and> sample_slot s \<le> sample_slot (last (ve_samples v)) \<or> sample_price s = 0")
  case True
  with assms show ?thesis by (auto simp: vol_record_def)
next
  case False
  let ?cfg = "ve_config v" and ?ss = "ve_samples v"
  let ?pushed = "?ss @ [s]"
  let ?young = "dropWhile (\<lambda>f. sample_slot f < sample_slot s - vc_max_age_slots ?cfg) ?pushed"
  let ?new = "drop (length ?young - vc_max_samples ?cfg) ?young"
  have new: "ve_samples (vol_record s v) = ?new" "ve_config (vol_record s v) = ?cfg"
    using False by (auto simp: vol_record_def Let_def)
  have below: "sample_slot a < sample_slot s" if "a \<in> set ?ss" for a
    using that assms False slots_le_last [of ?ss a] by (cases "?ss = []") (auto simp: window_ok_def)
  then have sorted: "sorted_wrt (\<lambda>a b. sample_slot a < sample_slot b) ?pushed"
    using assms by (auto simp: window_ok_def sorted_wrt_append)
  have sub: "set ?new \<subseteq> set ?young" "set ?young \<subseteq> set ?pushed"
    by (auto dest: in_set_dropD set_dropWhileD)
  have last: "?new \<noteq> [] \<Longrightarrow> last ?new = s"
    using last_suffix .
  show ?thesis
    unfolding new window_ok_def
  proof (intro conjI ballI)
    show "sorted_wrt (\<lambda>a b. sample_slot a < sample_slot b) ?new" using sorted by (intro sorted_wrt_suffix)
    show "length ?new \<le> vc_max_samples ?cfg" by simp
    fix a assume a: "a \<in> set ?new"
    then have "a \<in> set ?young" using sub by blast
    from dropWhile_sorted_slots [OF sorted this] a last
    show "sample_slot (last ?new) \<le> sample_slot a + vc_max_age_slots ?cfg" by (cases "?new = []") auto
    show "0 < sample_price a" using a sub assms False by (auto simp: window_ok_def)
  qed
qed

text \<open>
  whatever samples are recorded, the window of the estimator has strictly increasing slots,
  no zero price, at most the configured number of samples, and none older than the configured
  age against the latest.
\<close>

theorem estimator_window:
  "window_ok cfg (ve_samples (fold vol_record ss (new_vol_estimator cfg)))"
proof -
  have "ve_config (fold vol_record ss v) = cfg \<and> window_ok cfg (ve_samples (fold vol_record ss v))"
    if "ve_config v = cfg" "window_ok cfg (ve_samples v)" for v :: "'a vol_estimator"
    using that
  proof (induction ss arbitrary: v)
    case (Cons s ss)
    from Cons.IH [of "vol_record s v"] vol_record_window [of v s] Cons.prems show ?case
      by (simp add: vol_record_config)
  qed simp
  from this [of "new_vol_estimator cfg"] show ?thesis
    by (simp add: new_vol_estimator_def window_ok_def [of cfg "[]"])
qed

section \<open>The predictor\<close>

text \<open>
  the predictor puts a price on the same tick as the engine, when configured with the
  market's tick size and aggregation and the tick is in the range of the engine's integers.
\<close>

theorem predictor_tick_matches_engine:
  assumes "bucket_tick_of market price = Ok tick"
    and "price div (price_tick market * tick_aggregation_factor market) < 2 ^ 63"
  shows "price_to_tick price (price_tick market) (tick_aggregation_factor market) = tick"
proof -
  have "0 < price_tick market" "max (tick_aggregation_factor market) 1 = tick_aggregation_factor market"
    using assms(1) by (auto simp: bucket_tick_of_def split: if_splits)
  with assms show ?thesis
    by (auto simp: bucket_tick_of_def price_to_tick_def as_i64_def Let_def split: if_splits)
qed

theorem predictor_tick_matches_engine_witness:
  "price_to_tick 12345 (price_tick sample_market) (tick_aggregation_factor sample_market) = 12345"
proof -
  have "bucket_tick_of sample_market 12345 = Ok 12345"
    by (simp add: bucket_tick_of_def as_i64_def sample_market_def Let_def)
  from predictor_tick_matches_engine [OF this] show ?thesis by (simp add: sample_market_def)
qed

section \<open>One tick of the loop\<close>

lemma count_result_Ok:
  assumes "count_result r m = Ok m'"
  shows "lm_actions_submitted m' + lm_actions_failed m' + lm_actions_skipped m'
      = lm_actions_submitted m + lm_actions_failed m + lm_actions_skipped m + 1"
    and "lm_actions_planned m' = lm_actions_planned m"
  using assms by (auto simp: count_result_def plus_w_def split: dispatch_result.splits if_splits)

lemma count_result_total:
  assumes "lm_actions_submitted m + lm_actions_failed m + lm_actions_skipped m + 1 < 2 ^ 32"
  shows "\<exists>m'. count_result r m = Ok m'"
  using assms by (cases r) (simp_all add: count_result_def plus_w_def)

lemma dispatch_all_Ok:
  assumes "dispatch_all execute as m e = (e', Ok (m', out))"
  shows "execute_all execute as e = (e', out) \<and> map fst out = as
    \<and> lm_actions_planned m' = lm_actions_planned m
    \<and> lm_actions_submitted m' + lm_actions_failed m' + lm_actions_skipped m'
      = lm_actions_submitted m + lm_actions_failed m + lm_actions_skipped m + length as"
  using assms
proof (induction as arbitrary: m e m' out)
  case (Cons a as)
  obtain e1 r where 1: "execute a e = (e1, r)" by (rule prod.exhaust)
  from Cons.prems obtain m1 rest where 2: "count_result r m = Ok m1"
    "dispatch_all execute as m1 e1 = (e', Ok (m', rest))" "out = (a, r) # rest"
    by (auto simp: 1 split: sum.splits prod.splits)
  from Cons.IH [OF 2(2)] count_result_Ok [OF 2(1)] show ?case by (simp add: 1 2(3))
qed simp

lemma dispatch_all_total:
  assumes "lm_actions_submitted m + lm_actions_failed m + lm_actions_skipped m + length as < 2 ^ 32"
  shows "\<exists>e' m' out. dispatch_all execute as m e = (e', Ok (m', out))"
  using assms
proof (induction as arbitrary: m e)
  case (Cons a as)
  obtain e1 r where 1: "execute a e = (e1, r)" by (rule prod.exhaust)
  obtain m1 where 2: "count_result r m = Ok m1" using count_result_total [of m r] Cons.prems by auto
  from count_result_Ok(1) [OF 2] Cons.prems
  have "lm_actions_submitted m1 + lm_actions_failed m1 + lm_actions_skipped m1 + length as < 2 ^ 32" by simp
  from Cons.IH [OF this, of e1] show ?case by (auto simp: 1 2)
qed simp

lemma steps_keep_counts:
  "tick_sample env k e = (k1, e1, m1) \<Longrightarrow> lm_actions_submitted m1 = 0 \<and> lm_actions_failed m1 = 0 \<and> lm_actions_skipped m1 = 0
     \<and> e1 = fst (be_fetch_price_sample env e) \<and> kl_scheduler k1 = kl_scheduler k"
  "tick_tune fl k1 m1 = Ok (k2, m2) \<Longrightarrow> lm_actions_submitted m2 = lm_actions_submitted m1
     \<and> lm_actions_failed m2 = lm_actions_failed m1 \<and> lm_actions_skipped m2 = lm_actions_skipped m1"
  "tick_predict fl view k2 m2 = (k3, m3) \<Longrightarrow> lm_actions_submitted m3 = lm_actions_submitted m2
     \<and> lm_actions_failed m3 = lm_actions_failed m2 \<and> lm_actions_skipped m3 = lm_actions_skipped m2"
  by (auto simp: tick_sample_def tick_tune_def tick_predict_def no_metrics_def split: prod.splits option.splits if_splits)

lemma dispatch_all_no_error: "dispatch_all execute as m e \<noteq> (e', Err err)"
proof (induction as arbitrary: m e e')
  case (Cons a as)
  obtain e1 r where 1: "execute a e = (e1, r)" by (rule prod.exhaust)
  have "count_result r m \<noteq> Err err"
    by (simp add: count_result_def plus_w_def split: dispatch_result.splits)
  with Cons.IH show ?case by (auto simp: 1 split: sum.splits prod.splits)
qed simp

lemma tick_plan_Ok:
  assumes "tick_plan iter env k m e = (k', e', Ok out)"
  obtains actions where "scheduler_plan iter (be_chain_view env e) (kl_scheduler k) = (kl_scheduler k', Ok actions)"
    and "dispatch_all (be_execute env) actions (m\<lparr>lm_actions_planned := length actions mod 2 ^ 32\<rparr>) e
      = (e', Ok (lo_metrics out, lo_dispatched out))"
  using assms by (auto simp: tick_plan_def split: sum.splits prod.splits)

lemma tick_plan_Err:
  assumes "tick_plan iter env k m e = (k', e', Err err)"
  shows "e' = e"
  using assms dispatch_all_no_error by (fastforce simp: tick_plan_def split: sum.splits prod.splits)

lemma keeper_tick_cases:
  assumes "keeper_tick iter fl env k e = (k', e', r)"
  obtains (untuned) f where "r = Inl f" and "e' = fst (be_fetch_price_sample env e)"
  | (planned) k3 m3 where "tick_plan iter env k3 m3 (fst (be_fetch_price_sample env e)) = (k', e', r)"
      and "lm_actions_submitted m3 = 0" and "lm_actions_failed m3 = 0" and "lm_actions_skipped m3 = 0"
proof -
  obtain k1 e1 m1 where 1: "tick_sample env k e = (k1, e1, m1)" by (metis prod_cases3)
  note s1 = steps_keep_counts(1) [OF 1]
  show thesis
  proof (cases "tick_tune fl k1 m1")
    case (Inl f)
    with assms 1 s1 that(1) show ?thesis by (auto simp: keeper_tick_def)
  next
    case (Inr km)
    obtain k2 m2 where km: "km = (k2, m2)" by (rule prod.exhaust)
    obtain k3 m3 where 3: "tick_predict fl (be_chain_view env e1) k2 m2 = (k3, m3)" by (rule prod.exhaust)
    note s3 = steps_keep_counts(2) [OF Inr [unfolded km]] steps_keep_counts(3) [OF 3]
    have "tick_plan iter env k3 m3 e1 = (k', e', r)" using assms by (simp add: keeper_tick_def 1 Inr km 3)
    with s1 s3 that(2) show ?thesis by simp
  qed
qed

text \<open>
  a tick that returns has executed exactly the actions of its plan over the view after
  the fetch, in the order of the plan, as \<open>run_plan_cycle\<close> would have, and its counters of
  submitted, failed and skipped actions add up to the length of the plan.
\<close>

theorem tick_executes_plan:
  assumes "keeper_tick iter fl env k e = (k', e', Ok out)"
  shows "\<exists>s e1. e1 = fst (be_fetch_price_sample env e)
    \<and> run_plan_cycle iter (be_chain_view env e1) (be_execute env) s e1
        = (kl_scheduler k', e', Ok (lo_dispatched out))
    \<and> snd (scheduler_plan iter (be_chain_view env e1) s) = Ok (map fst (lo_dispatched out))
    \<and> lm_actions_submitted (lo_metrics out) + lm_actions_failed (lo_metrics out)
        + lm_actions_skipped (lo_metrics out) = length (lo_dispatched out)
    \<and> lm_actions_planned (lo_metrics out) = length (lo_dispatched out) mod 2 ^ 32"
  using assms
proof (cases rule: keeper_tick_cases)
  case (planned k3 m3)
  let ?e1 = "fst (be_fetch_price_sample env e)"
  from planned(1) show ?thesis
  proof (rule tick_plan_Ok)
    fix actions
    assume plan: "scheduler_plan iter (be_chain_view env ?e1) (kl_scheduler k3) = (kl_scheduler k', Ok actions)"
      and run: "dispatch_all (be_execute env) actions (m3\<lparr>lm_actions_planned := length actions mod 2 ^ 32\<rparr>) ?e1
        = (e', Ok (lo_metrics out, lo_dispatched out))"
    from dispatch_all_Ok [OF run] planned(2-4) plan show ?thesis
      by (intro exI [of _ "kl_scheduler k3"] exI [of _ ?e1]) (auto simp: run_plan_cycle_def)
  qed
qed simp

text \<open>Exact real arithmetic in place of \<open>f64\<close>, and a dry-run environment, for the witness.\<close>

definition real_f64 :: "real f64_ops" where
  "real_f64 = \<lparr>f_lit = of_rat, f_of_nat = of_nat, f_add = (+), f_sub = (-), f_mul = (*), f_div = (/),
     f_neg = uminus, f_abs = abs, f_ln = ln, f_exp = exp, f_sqrt = sqrt, f_pi = pi, f_lt = (<),
     f_le = (\<le>), f_eq = (=), f_finite = (\<lambda>x. True), f_round_u64 = (\<lambda>x. nat (round x))\<rparr>"

definition demo_env :: "dry_run_executor bot_environment" where
  "demo_env = \<lparr>be_chain_view = (\<lambda>e. demo_view), be_fetch_price_sample = (\<lambda>e. (e, None)),
     be_execute = dry_run_execute\<rparr>"

definition demo_loop :: "real keeper_loop" where
  "demo_loop = \<lparr>kl_config = default_loop_config, kl_scheduler = demo_scheduler 0,
     kl_predictor = default_predictor_config real_f64,
     kl_vol_estimator = new_vol_estimator (default_vol_config real_f64)\<rparr>"

theorem tick_executes_plan_witness:
  "\<exists>k' e' out. keeper_tick rev real_f64 demo_env demo_loop new_dry_run = (k', e', Ok out)
     \<and> lm_actions_submitted (lo_metrics out) + lm_actions_failed (lo_metrics out)
        + lm_actions_skipped (lo_metrics out) = length (lo_dispatched out)
     \<and> length (dr_log e') = 3"
proof -
  have "\<exists>k' e' out. keeper_tick rev real_f64 demo_env demo_loop new_dry_run = (k', e', Ok out) \<and> length (dr_log e') = 3"
    by (simp add: keeper_tick_def tick_sample_def tick_tune_def tick_predict_def tick_plan_def demo_env_def
      demo_loop_def default_loop_config_def new_vol_estimator_def default_vol_config_def
      apply_to_predictor_config_def current_estimate_def populate_scheduler_def new_dry_run_def
      dry_run_execute_def count_result_def plus_w_def no_metrics_def scheduler_plan_def plan_buckets_def
      plan_bucket_def hints_to_emit_def has_bucket_def by_priority_def init_action_def priority_def
      sat_add_u64_def demo_keeper Let_def)
  then obtain k' e' out where t: "keeper_tick rev real_f64 demo_env demo_loop new_dry_run = (k', e', Ok out)"
    and l: "length (dr_log e') = 3" by blast
  from tick_executes_plan [OF t] t l show ?thesis by blast
qed

theorem tick_refused_executes_nothing:
  assumes "keeper_tick iter fl env k e = (k', e', Err err)"
  shows "e' = fst (be_fetch_price_sample env e)"
  using assms by (cases rule: keeper_tick_cases) (auto dest: tick_plan_Err)

end
