(* ===== verification/Chain_Mirror.thy ===== *)
theory Chain_Mirror
  imports Onchain Engine_Ops "HOL-Library.Product_Lexorder"
begin

text \<open>
  The account runtime of \<open>crates/chain-mirror/src/lib.rs\<close>: the state of the program as separate
  accounts (sub-pools, dormant buckets, distribution ledgers, positions), and the
  instruction handlers that rebuild an engine sub-pool from its accounts, run the engine, and
  write the result back. A \<open>HashMap\<close> is an ordered map: the code iterates over one only to
  sum, to filter or to fill another map, where the order makes no difference. An operation
  returns the runtime it leaves with its result, so that what it wrote before an error is
  visible. A panic aborts; the runtime paired with it has no meaning.
\<close>

section \<open>Accounts\<close>

datatype mirror_error =
    MirrorClearing clearing_error
  | MirrorSubPoolNotFound u32
  | MirrorPositionNotFound u64
  | BucketNotInitialized u32 direction i64
  | BucketSlotExhausted u32 direction
  | BucketLifecycleViolation u32 direction i64 string
  | MirrorInvariant string

type_synonym 'a mirrored = "(mirror_error, 'a) result"

record rotate_record_account =
  ra_generation_just_ended :: u64
  ra_bucket_tick :: i64
  ra_anchor_price :: u64

record sub_pool_account =
  sa_sub_pool_id :: u32
  sa_long_pool_equity :: u128
  sa_short_pool_equity :: u128
  sa_long_active_shares :: u128
  sa_short_active_shares :: u128
  sa_long_recovery_shares :: u128
  sa_short_recovery_shares :: u128
  sa_long_active_notional :: u128
  sa_short_active_notional :: u128
  sa_long_dust :: u128
  sa_short_dust :: u128
  sa_long_dormant_bucket_count :: u32
  sa_short_dormant_bucket_count :: u32
  sa_long_active_generation :: u64
  sa_short_active_generation :: u64
  sa_long_rotate_log :: "rotate_record_account list"
  sa_short_rotate_log :: "rotate_record_account list"
  sa_last_price :: u64
  sa_last_sync_slot :: u64

definition new_sub_pool_account :: "u32 \<Rightarrow> u64 \<Rightarrow> u64 \<Rightarrow> sub_pool_account" where
  "new_sub_pool_account i init_price init_slot = \<lparr>sa_sub_pool_id = i,
     sa_long_pool_equity = 0, sa_short_pool_equity = 0, sa_long_active_shares = 0,
     sa_short_active_shares = 0, sa_long_recovery_shares = 0, sa_short_recovery_shares = 0,
     sa_long_active_notional = 0, sa_short_active_notional = 0, sa_long_dust = 0,
     sa_short_dust = 0, sa_long_dormant_bucket_count = 0, sa_short_dormant_bucket_count = 0,
     sa_long_active_generation = 0, sa_short_active_generation = 0, sa_long_rotate_log = [],
     sa_short_rotate_log = [], sa_last_price = init_price, sa_last_sync_slot = init_slot\<rparr>"

record bucket_account =
  ba_sub_pool_id :: u32
  ba_record :: onchain_bucket_record

record ledger_account =
  la_sub_pool_id :: u32
  la_ledger :: onchain_ledger

record position_account =
  pa_sub_pool_id :: u32
  pa_position :: position

type_synonym bucket_key = "u32 \<times> direction \<times> i64"

record chain_runtime =
  ch_params :: market_params
  ch_sub_pools :: "(u32, sub_pool_account) btree"
  ch_buckets :: "(bucket_key, bucket_account) btree"
  ch_ledgers :: "(u32 \<times> direction, ledger_account) btree"
  ch_positions :: "(u64, position_account) btree"
  ch_vault_balance :: u128
  ch_fee_vault_balance :: u128
  ch_total_deposits :: u128
  ch_total_withdrawals :: u128
  ch_next_position_id :: u64
  strict_pda_lifecycle :: bool

definition new_runtime :: "market_params \<Rightarrow> chain_runtime" where
  "new_runtime params = \<lparr>ch_params = params, ch_sub_pools = bt_empty, ch_buckets = bt_empty,
     ch_ledgers = bt_empty, ch_positions = bt_empty, ch_vault_balance = 0,
     ch_fee_vault_balance = 0, ch_total_deposits = 0, ch_total_withdrawals = 0,
     ch_next_position_id = 1, strict_pda_lifecycle = False\<rparr>"

definition with_strict_pda_lifecycle :: "bool \<Rightarrow> chain_runtime \<Rightarrow> chain_runtime" where
  "with_strict_pda_lifecycle strict c = c\<lparr>strict_pda_lifecycle := strict\<rparr>"

type_synonym 'a chain_op = "chain_runtime \<Rightarrow> chain_runtime \<times> 'a mirrored"

section \<open>Bucket accounts\<close>

definition pre_init_dormant_bucket :: "u32 \<Rightarrow> direction \<Rightarrow> i64 \<Rightarrow> unit chain_op" where
  "pre_init_dormant_bucket i d tick c =
     (if bt_get (ch_sub_pools c) i = None then (c, Err (MirrorSubPoolNotFound i))
      else if bt_get (ch_buckets c) (i, d, tick) \<noteq> None then
        (c, Err (BucketLifecycleViolation i d tick ''pda already initialised''))
      else (c\<lparr>ch_buckets := bt_put (i, d, tick)
                \<lparr>ba_sub_pool_id = i, ba_record = dead_record d tick\<rparr> (ch_buckets c)\<rparr>, Ok ()))"

definition close_dormant_bucket :: "u32 \<Rightarrow> direction \<Rightarrow> i64 \<Rightarrow> unit chain_op" where
  "close_dormant_bucket i d tick c =
     (case bt_get (ch_buckets c) (i, d, tick) of
        None \<Rightarrow> (c, Err (BucketNotInitialized i d tick))
      | Some acc \<Rightarrow>
          if \<not> is_dead (ba_record acc) then
            (c, Err (BucketLifecycleViolation i d tick ''bucket still live''))
          else
            (case bt_get (ch_ledgers c) (i, d) of
               None \<Rightarrow> (c, Err (MirrorInvariant ''ledger missing on close_dormant_bucket''))
             | Some l \<Rightarrow>
                 if br_last_applied_index (ba_record acc) < ol_next_event_index (la_ledger l) then
                   (c, Err (BucketLifecycleViolation i d tick
                        ''bucket has pending lazy distributions''))
                 else (c\<lparr>ch_buckets := bt_del (i, d, tick) (ch_buckets c)\<rparr>, Ok ())))"

section \<open>Governance\<close>

definition governance_set_paused :: "bool \<Rightarrow> chain_runtime \<Rightarrow> chain_runtime" where
  "governance_set_paused v c = c\<lparr>ch_params := (ch_params c)\<lparr>paused := v\<rparr>\<rparr>"

definition governance_set_frozen_new_position :: "bool \<Rightarrow> chain_runtime \<Rightarrow> chain_runtime" where
  "governance_set_frozen_new_position v c =
     c\<lparr>ch_params := (ch_params c)\<lparr>frozen_new_position := v\<rparr>\<rparr>"

definition governance_bump_schema_version :: "u16 \<Rightarrow> unit chain_op" where
  "governance_bump_schema_version new_version c =
     (if new_version \<le> schema_version (ch_params c) then
        (c, Err (MirrorInvariant ''schema bump must strictly increase''))
      else (c\<lparr>ch_params := (ch_params c)\<lparr>schema_version := new_version\<rparr>\<rparr>, Ok ()))"

text \<open>The loop that walks a position's version to the target, one checked step at a time.\<close>

function walk_schema :: "u16 \<Rightarrow> u16 \<Rightarrow> u16 mirrored" where
  "walk_schema target v =
     (if v < target then
        and_then (ok_or (checked_add_w 16 v 1) (MirrorInvariant ''schema migration overflow''))
          (walk_schema target)
      else Ok v)"
  by auto

termination
  by (relation "measure (\<lambda>(target, v). target - v)") auto

declare walk_schema.simps [simp del]

definition governance_migrate_position :: "u64 \<Rightarrow> unit chain_op" where
  "governance_migrate_position pid c =
     (case bt_get (ch_positions c) pid of
        None \<Rightarrow> (c, Err (MirrorPositionNotFound pid))
      | Some acc \<Rightarrow>
          let target = schema_version (ch_params c) in
          if pos_schema_version (pa_position acc) = target then
            (c, Err (MirrorInvariant ''schema migration noop''))
          else
            (case walk_schema target (pos_schema_version (pa_position acc)) of
               Inl f \<Rightarrow> (c, Inl f)
             | Inr v \<Rightarrow> (c\<lparr>ch_positions := bt_put pid
                   (acc\<lparr>pa_position := (pa_position acc)\<lparr>pos_schema_version := v\<rparr>\<rparr>)
                   (ch_positions c)\<rparr>, Ok ())))"

section \<open>Sub-pools and queries\<close>

definition chain_add_sub_pool :: "u32 \<Rightarrow> u64 \<Rightarrow> u64 \<Rightarrow> chain_runtime \<Rightarrow> chain_runtime" where
  "chain_add_sub_pool i init_price init_slot c =
     (let max_ledger = max_distribution_ledger_size (ch_params c) in
      c\<lparr>ch_sub_pools := bt_put i (new_sub_pool_account i init_price init_slot) (ch_sub_pools c),
        ch_ledgers := bt_put (i, Short) \<lparr>la_sub_pool_id = i, la_ledger = empty_ledger Short max_ledger\<rparr>
          (bt_put (i, Long) \<lparr>la_sub_pool_id = i, la_ledger = empty_ledger Long max_ledger\<rparr>
            (ch_ledgers c))\<rparr>)"

definition chain_sub_pool :: "chain_runtime \<Rightarrow> u32 \<Rightarrow> sub_pool_account option" where
  "chain_sub_pool c i = bt_get (ch_sub_pools c) i"

definition chain_position :: "chain_runtime \<Rightarrow> u64 \<Rightarrow> position option" where
  "chain_position c pid = map_option pa_position (bt_get (ch_positions c) pid)"

definition of_side :: "u32 \<Rightarrow> direction \<Rightarrow> bucket_key \<Rightarrow> bool" where
  "of_side i d key \<longleftrightarrow> fst key = i \<and> fst (snd key) = d"

definition chain_bucket_count :: "chain_runtime \<Rightarrow> u32 \<Rightarrow> direction \<Rightarrow> nat" where
  "chain_bucket_count c i d = length (filter (of_side i d) (map fst (ch_buckets c)))"

definition check_vault_decomposition :: "chain_runtime \<Rightarrow> unit mirrored" where
  "check_vault_decomposition c =
     and_then (fold_res (\<lambda>(i, sp) (pool, dusts).
         and_then (and_then (plus_w 128 (sa_long_pool_equity sp) (sa_short_pool_equity sp))
                     (plus_w 128 pool)) (\<lambda>pool'.
         and_then (and_then (plus_w 128 (sa_long_dust sp) (sa_short_dust sp))
                     (plus_w 128 dusts)) (\<lambda>dusts'. Ok (pool', dusts'))))
       (ch_sub_pools c) (0, 0)) (\<lambda>(pool, dusts).
     and_then (fold_res (\<lambda>(k, b) n. plus_w 128 n (br_accrued_value (ba_record b)))
       (ch_buckets c) 0) (\<lambda>accrued.
     and_then (fold_res (\<lambda>(k, l) n. plus_w 128 n (ol_pending_distribution_total (la_ledger l)))
       (ch_ledgers c) 0) (\<lambda>pending.
     and_then (plus_w 128 pool accrued) (\<lambda>a.
     and_then (plus_w 128 a pending) (\<lambda>b.
     and_then (plus_w 128 b dusts) (\<lambda>expected.
     if ch_vault_balance c \<noteq> expected then
       Err (MirrorInvariant
         ''vault_balance != pool_equity + dormant_accrued + dormant_pending + dust'')
     else Ok ()))))))"

section \<open>Reading a sub-pool from its accounts\<close>

definition to_rotate_record :: "rotate_record_account \<Rightarrow> rotate_record" where
  "to_rotate_record r = \<lparr>generation_just_ended = ra_generation_just_ended r,
     rr_bucket_tick = ra_bucket_tick r, rr_anchor_price = ra_anchor_price r\<rparr>"

definition of_rotate_record :: "rotate_record \<Rightarrow> rotate_record_account" where
  "of_rotate_record r = \<lparr>ra_generation_just_ended = generation_just_ended r,
     ra_bucket_tick = rr_bucket_tick r, ra_anchor_price = rr_anchor_price r\<rparr>"

definition records_of_side ::
  "chain_runtime \<Rightarrow> u32 \<Rightarrow> direction \<Rightarrow> (i64, onchain_bucket_record) btree" where
  "records_of_side c i d = fold (\<lambda>(key, acc) m.
     if of_side i d key then bt_put (snd (snd key)) (ba_record acc) m else m)
     (ch_buckets c) bt_empty"

definition unpack_dormant :: "chain_runtime \<Rightarrow> u32 \<Rightarrow> direction \<Rightarrow> dormant_store mirrored" where
  "unpack_dormant c i d =
     and_then (ok_or (bt_get (ch_ledgers c) (i, d))
       (MirrorInvariant ''ledger account missing -- must init sub_pool first'')) (\<lambda>acc.
     map_err MirrorClearing
       (unpack_dormant_store (map snd (records_of_side c i d)) (la_ledger acc)))"

definition build_core_sub_pool :: "u32 \<Rightarrow> chain_runtime \<Rightarrow> sub_pool mirrored" where
  "build_core_sub_pool i c =
     and_then (ok_or (bt_get (ch_sub_pools c) i) (MirrorSubPoolNotFound i)) (\<lambda>sp.
     let core = (new_sub_pool (sa_sub_pool_id sp) (sa_last_price sp) (sa_last_sync_slot sp))
       \<lparr>long_pool_equity := sa_long_pool_equity sp, short_pool_equity := sa_short_pool_equity sp,
        long_active_shares := sa_long_active_shares sp,
        short_active_shares := sa_short_active_shares sp,
        long_recovery_shares := sa_long_recovery_shares sp,
        short_recovery_shares := sa_short_recovery_shares sp,
        long_active_notional := sa_long_active_notional sp,
        short_active_notional := sa_short_active_notional sp,
        long_dust := sa_long_dust sp, short_dust := sa_short_dust sp,
        long_dormant_bucket_count := sa_long_dormant_bucket_count sp,
        short_dormant_bucket_count := sa_short_dormant_bucket_count sp,
        long_active_generation := sa_long_active_generation sp,
        short_active_generation := sa_short_active_generation sp,
        long_rotate_log := map to_rotate_record (sa_long_rotate_log sp),
        short_rotate_log := map to_rotate_record (sa_short_rotate_log sp)\<rparr> in
     and_then (unpack_dormant c i Long) (\<lambda>longs.
     and_then (unpack_dormant c i Short) (\<lambda>shorts.
     Ok (core\<lparr>long_dormant := longs, short_dormant := shorts\<rparr>))))"

section \<open>Writing a sub-pool back\<close>

definition write_buckets_loose ::
  "u32 \<Rightarrow> direction \<Rightarrow> onchain_bucket_record list \<Rightarrow> chain_runtime \<Rightarrow> chain_runtime" where
  "write_buckets_loose i d records c =
     (let live_ticks = map br_zero_price_tick records;
          kept = filter (\<lambda>(key, acc). \<not> (of_side i d key \<and> snd (snd key) \<notin> set live_ticks))
                   (ch_buckets c)
      in c\<lparr>ch_buckets := fold (\<lambda>r. bt_put (i, d, br_zero_price_tick r)
                                    \<lparr>ba_sub_pool_id = i, ba_record = r\<rparr>) records kept\<rparr>)"

text \<open>The loop over the records, which stops at the first tick that has no account.\<close>

fun place_records ::
  "u32 \<Rightarrow> direction \<Rightarrow> onchain_bucket_record list \<Rightarrow> (bucket_key, bucket_account) btree
   \<Rightarrow> (bucket_key, bucket_account) btree \<times> unit mirrored" where
  "place_records i d [] m = (m, Ok ())"
| "place_records i d (r # rs) m =
     (case bt_get m (i, d, br_zero_price_tick r) of
        None \<Rightarrow> (m, Err (BucketSlotExhausted i d))
      | Some slot \<Rightarrow>
          place_records i d rs (bt_put (i, d, br_zero_price_tick r) (slot\<lparr>ba_record := r\<rparr>) m))"

definition zero_record :: "onchain_bucket_record \<Rightarrow> onchain_bucket_record" where
  "zero_record r = r\<lparr>br_total_recovery_shares := 0, br_total_recovery_notional := 0,
     br_accrued_value := 0, br_position_count := 0\<rparr>"

definition zero_leftovers ::
  "u32 \<Rightarrow> direction \<Rightarrow> i64 set \<Rightarrow> (bucket_key, bucket_account) btree
   \<Rightarrow> (bucket_key, bucket_account) btree" where
  "zero_leftovers i d placed m = map (\<lambda>(key, slot).
     if of_side i d key \<and> snd (snd key) \<notin> placed \<and> \<not> is_dead (ba_record slot)
     then (key, slot\<lparr>ba_record := zero_record (ba_record slot)\<rparr>) else (key, slot)) m"

definition write_buckets_strict ::
  "u32 \<Rightarrow> direction \<Rightarrow> onchain_bucket_record list \<Rightarrow> unit chain_op" where
  "write_buckets_strict i d records c =
     (case place_records i d records (ch_buckets c) of
        (m, Inl f) \<Rightarrow> (c\<lparr>ch_buckets := m\<rparr>, Inl f)
      | (m, Inr _) \<Rightarrow>
          (c\<lparr>ch_buckets := zero_leftovers i d (set (map br_zero_price_tick records)) m\<rparr>, Ok ()))"

definition write_side :: "u32 \<Rightarrow> sub_pool \<Rightarrow> direction \<Rightarrow> unit chain_op" where
  "write_side i core d c =
     (case map_err MirrorClearing (pack_dormant_store (dormant d core)
             (max_dormant_bucket_count_per_direction (ch_params c))
             (max_distribution_ledger_size (ch_params c))) of
        Inl f \<Rightarrow> (c, Inl f)
      | Inr (records, l) \<Rightarrow>
          (case bt_get (ch_ledgers c) (i, d) of
             None \<Rightarrow> (c, Err (MirrorInvariant ''ledger account missing on write-back''))
           | Some acc \<Rightarrow>
               let c1 = c\<lparr>ch_ledgers := bt_put (i, d) (acc\<lparr>la_ledger := l\<rparr>) (ch_ledgers c)\<rparr> in
               if strict_pda_lifecycle c1 then write_buckets_strict i d records c1
               else (write_buckets_loose i d records c1, Ok ())))"

definition write_scalars :: "sub_pool \<Rightarrow> sub_pool_account \<Rightarrow> sub_pool_account" where
  "write_scalars core sp = sp
     \<lparr>sa_long_pool_equity := long_pool_equity core, sa_short_pool_equity := short_pool_equity core,
      sa_long_active_shares := long_active_shares core,
      sa_short_active_shares := short_active_shares core,
      sa_long_recovery_shares := long_recovery_shares core,
      sa_short_recovery_shares := short_recovery_shares core,
      sa_long_active_notional := long_active_notional core,
      sa_short_active_notional := short_active_notional core,
      sa_long_dust := long_dust core, sa_short_dust := short_dust core,
      sa_long_dormant_bucket_count := long_dormant_bucket_count core,
      sa_short_dormant_bucket_count := short_dormant_bucket_count core,
      sa_long_active_generation := long_active_generation core,
      sa_short_active_generation := short_active_generation core,
      sa_long_rotate_log := map of_rotate_record (long_rotate_log core),
      sa_short_rotate_log := map of_rotate_record (short_rotate_log core),
      sa_last_price := last_price core, sa_last_sync_slot := last_sync_slot core\<rparr>"

definition write_core_sub_pool :: "u32 \<Rightarrow> sub_pool \<Rightarrow> unit chain_op" where
  "write_core_sub_pool i core c =
     (case write_side i core Long c of
        (c1, Inl f) \<Rightarrow> (c1, Inl f)
      | (c1, Inr _) \<Rightarrow>
          (case write_side i core Short c1 of
             (c2, Inl f) \<Rightarrow> (c2, Inl f)
           | (c2, Inr _) \<Rightarrow>
               (case bt_get (ch_sub_pools c2) i of
                  None \<Rightarrow> (c2, Err (MirrorSubPoolNotFound i))
                | Some sp \<Rightarrow>
                    (c2\<lparr>ch_sub_pools := bt_put i (write_scalars core sp) (ch_sub_pools c2)\<rparr>, Ok ()))))"

section \<open>Snapshots\<close>

record sub_pool_snapshot =
  ss_sub_pool :: sub_pool_account
  ss_buckets :: "(bucket_key, bucket_account) btree"
  ss_ledgers :: "(u32 \<times> direction, ledger_account) btree"

text \<open>Taking a snapshot unwraps the two ledgers and the sub-pool: it panics without them.\<close>

definition snapshot_sub_pool :: "u32 \<Rightarrow> chain_runtime \<Rightarrow> sub_pool_snapshot mirrored" where
  "snapshot_sub_pool i c =
     and_then (expect (bt_get (ch_ledgers c) (i, Long)) ''called `Option::unwrap()` on a `None` value'')
       (\<lambda>longs.
     and_then (expect (bt_get (ch_ledgers c) (i, Short)) ''called `Option::unwrap()` on a `None` value'')
       (\<lambda>shorts.
     and_then (expect (bt_get (ch_sub_pools c) i) ''called `Option::unwrap()` on a `None` value'')
       (\<lambda>sp.
     Ok \<lparr>ss_sub_pool = sp, ss_buckets = filter (\<lambda>(key, acc). fst key = i) (ch_buckets c),
         ss_ledgers = [((i, Long), longs), ((i, Short), shorts)]\<rparr>)))"

definition restore_sub_pool :: "sub_pool_snapshot \<Rightarrow> chain_runtime \<Rightarrow> chain_runtime" where
  "restore_sub_pool snap c =
     (let sp_id = sa_sub_pool_id (ss_sub_pool snap) in
      c\<lparr>ch_buckets := fold (\<lambda>(k, v). bt_put k v) (ss_buckets snap)
                         (filter (\<lambda>(key, acc). fst key \<noteq> sp_id) (ch_buckets c)),
        ch_ledgers := fold (\<lambda>(k, v). bt_put k v) (ss_ledgers snap) (ch_ledgers c),
        ch_sub_pools := bt_put sp_id (ss_sub_pool snap) (ch_sub_pools c)\<rparr>)"

section \<open>Instruction handlers\<close>

text \<open>A value the handler needs; without it the runtime is left as it is.\<close>

definition needing ::
  "'b mirrored \<Rightarrow> chain_runtime \<Rightarrow> ('b \<Rightarrow> chain_runtime \<times> 'a mirrored) \<Rightarrow> chain_runtime \<times> 'a mirrored" where
  "needing m c k = (case m of Inl f \<Rightarrow> (c, Inl f) | Inr x \<Rightarrow> k x)"

text \<open>The engine call: its error restores the snapshot and whatever else \<open>undo\<close> puts back.\<close>

definition run_engine ::
  "'b clearing \<Rightarrow> chain_runtime \<Rightarrow> (chain_runtime \<Rightarrow> chain_runtime)
   \<Rightarrow> ('b \<Rightarrow> chain_runtime \<times> 'a mirrored) \<Rightarrow> chain_runtime \<times> 'a mirrored" where
  "run_engine m c undo k = (case map_err MirrorClearing m of
     Inl f \<Rightarrow> (undo c, Inl f) | Inr x \<Rightarrow> k x)"

text \<open>The write-back of the handlers that roll a failed one back.\<close>

definition write_or_undo ::
  "u32 \<Rightarrow> sub_pool \<Rightarrow> chain_runtime \<Rightarrow> (chain_runtime \<Rightarrow> chain_runtime)
   \<Rightarrow> (chain_runtime \<Rightarrow> chain_runtime \<times> 'a mirrored) \<Rightarrow> chain_runtime \<times> 'a mirrored" where
  "write_or_undo i core c undo k = (case write_core_sub_pool i core c of
     (c', Inl f) \<Rightarrow> (undo c', Inl f) | (c', Inr _) \<Rightarrow> k c')"

definition chain_sync :: "u32 \<Rightarrow> price_envelope \<Rightarrow> sync_outcome chain_op" where
  "chain_sync i env c =
     needing (snapshot_sub_pool i c) c (\<lambda>snap.
     needing (build_core_sub_pool i c) c (\<lambda>core.
     run_engine (sync_pool (ch_params c) env core) c (restore_sub_pool snap) (\<lambda>(core', out).
       (case write_core_sub_pool i core' c of
          (c', Inl f) \<Rightarrow> (c', Inl f)
        | (c', Inr _) \<Rightarrow> (c', Ok out)))))"

record chain_open_summary =
  cho_position_id :: u64
  cho_shares_minted :: u128
  cho_open_fee :: u64
  cho_events :: "engine_event list"

definition chain_book_open ::
  "u64 \<Rightarrow> open_outcome \<Rightarrow> chain_runtime \<Rightarrow> chain_runtime mirrored" where
  "chain_book_open gross out c =
     and_then (ok_or (checked_add_w 128 (oo_principal_into_pool out) (oo_dust out))
       (MirrorInvariant ''open: principal+dust overflow'')) (\<lambda>principal_part.
     and_then (plus_w 128 (ch_vault_balance c) principal_part) (\<lambda>vault'.
     and_then (plus_w 128 (ch_fee_vault_balance c) (oo_open_fee out)) (\<lambda>fee_vault'.
     and_then (plus_w 128 (ch_total_deposits c) gross) (\<lambda>deposits'.
     Ok (c\<lparr>ch_vault_balance := vault', ch_fee_vault_balance := fee_vault',
           ch_total_deposits := deposits'\<rparr>)))))"

definition chain_open ::
  "u32 \<Rightarrow> direction \<Rightarrow> u64 \<Rightarrow> price_envelope \<Rightarrow> chain_open_summary chain_op" where
  "chain_open i d gross env c =
     needing (snapshot_sub_pool i c) c (\<lambda>snap.
     let pid = ch_next_position_id c in
     needing (plus_w 64 pid 1) c (\<lambda>next_id.
     let c1 = c\<lparr>ch_next_position_id := next_id\<rparr>;
         undo = (\<lambda>c. (restore_sub_pool snap c)\<lparr>ch_next_position_id := ch_next_position_id c - 1\<rparr>) in
     needing (build_core_sub_pool i c1) c1 (\<lambda>core.
     run_engine (open_position (ch_params c1) env d gross pid core) c1 undo
       (\<lambda>(core', pos, out).
     write_or_undo i core' c1 undo (\<lambda>c2.
     let c3 = c2\<lparr>ch_positions := bt_put pid
                \<lparr>pa_sub_pool_id = i, pa_position = pos\<lparr>pos_sub_pool_id := i\<rparr>\<rparr> (ch_positions c2)\<rparr> in
     needing (chain_book_open gross out c3) c3 (\<lambda>c4.
     (c4, Ok \<lparr>cho_position_id = pid, cho_shares_minted = oo_shares_minted out,
              cho_open_fee = oo_open_fee out, cho_events = oo_events out\<rparr>)))))))"

text \<open>
  The three handlers that settle a position take it out of the map for the engine call and
  put back the old account on an error, the new one on success.
\<close>

definition settle_position ::
  "u64 \<Rightarrow> (market_params \<Rightarrow> sub_pool \<Rightarrow> position \<Rightarrow> (sub_pool \<times> position \<times> 'o) clearing)
   \<Rightarrow> ('o \<Rightarrow> chain_runtime \<Rightarrow> chain_runtime \<times> 'a mirrored) \<Rightarrow> 'a chain_op" where
  "settle_position pid engine finish c =
     needing (ok_or (bt_get (ch_positions c) pid) (MirrorPositionNotFound pid)) c (\<lambda>pos_acc.
     let i = pa_sub_pool_id pos_acc in
     needing (snapshot_sub_pool i c) c (\<lambda>snap.
     needing (build_core_sub_pool i c) c (\<lambda>core.
     let c1 = c\<lparr>ch_positions := bt_del pid (ch_positions c)\<rparr>;
         undo = (\<lambda>c. (restore_sub_pool snap c)
                   \<lparr>ch_positions := bt_put pid pos_acc (ch_positions c)\<rparr>) in
     run_engine (engine (ch_params c1) core (pa_position pos_acc)) c1 undo (\<lambda>(core', pos', out).
     write_or_undo i core' c1 undo (\<lambda>c2.
     finish out (c2\<lparr>ch_positions := bt_put pid \<lparr>pa_sub_pool_id = i, pa_position = pos'\<rparr>
                     (ch_positions c2)\<rparr>))))))"

definition withdraw :: "u128 \<Rightarrow> string \<Rightarrow> 'a \<Rightarrow> chain_runtime \<Rightarrow> chain_runtime \<times> 'a mirrored" where
  "withdraw amount msg x c =
     needing (ok_or (checked_sub_w (ch_vault_balance c) amount) (MirrorInvariant msg)) c (\<lambda>left.
     let c1 = c\<lparr>ch_vault_balance := left\<rparr> in
     needing (plus_w 128 (ch_total_withdrawals c1) amount) c1 (\<lambda>paid.
     (c1\<lparr>ch_total_withdrawals := paid\<rparr>, Ok x)))"

definition chain_close :: "u64 \<Rightarrow> price_envelope \<Rightarrow> close_outcome chain_op" where
  "chain_close pid env =
     settle_position pid (\<lambda>params core pos. close_position params env core pos)
       (\<lambda>out. withdraw (co_withdrawable out) ''close: vault underflow'' out)"

definition chain_force_close :: "u64 \<Rightarrow> price_envelope \<Rightarrow> bool \<Rightarrow> force_close_outcome chain_op" where
  "chain_force_close pid env acknowledge_forfeit =
     settle_position pid
       (\<lambda>params core pos. force_close_zero_value_position params env acknowledge_forfeit core pos)
       (\<lambda>out c. (c, Ok out))"

definition chain_claim_recovery :: "u64 \<Rightarrow> price_envelope \<Rightarrow> claim_recovery_outcome chain_op" where
  "chain_claim_recovery pid env =
     settle_position pid (\<lambda>params core pos. claim_dormant_recovery params env core pos)
       (\<lambda>out. withdraw (cr_redeemable out) ''claim: vault underflow'' out)"

definition chain_harvest_dust :: "u32 \<Rightarrow> direction \<Rightarrow> harvest_outcome chain_op" where
  "chain_harvest_dust i d c =
     needing (snapshot_sub_pool i c) c (\<lambda>snap.
     needing (build_core_sub_pool i c) c (\<lambda>core.
     run_engine (harvest_dust (ch_params c) d core) c (restore_sub_pool snap) (\<lambda>(core', out).
     write_or_undo i core' c (restore_sub_pool snap) (\<lambda>c1.
     needing (ok_or (checked_sub_w (ch_vault_balance c1) (ho_amount out))
       (MirrorInvariant ''harvest: vault underflow'')) c1 (\<lambda>left.
     let c2 = c1\<lparr>ch_vault_balance := left\<rparr> in
     needing (plus_w 128 (ch_fee_vault_balance c2) (ho_amount out)) c2 (\<lambda>fee_vault'.
     (c2\<lparr>ch_fee_vault_balance := fee_vault'\<rparr>, Ok out)))))))"

definition chain_pre_sync_bucket ::
  "u32 \<Rightarrow> direction \<Rightarrow> i64 \<Rightarrow> u64 \<Rightarrow> pre_sync_outcome chain_op" where
  "chain_pre_sync_bucket i d tick slot c =
     (if bt_get (ch_buckets c) (i, d, tick) = None then (c, Err (BucketNotInitialized i d tick))
      else
        needing (snapshot_sub_pool i c) c (\<lambda>snap.
        needing (build_core_sub_pool i c) c (\<lambda>core.
        run_engine (pre_sync_dormant_bucket (ch_params c) d tick slot core) c
          (restore_sub_pool snap) (\<lambda>(core', out).
        write_or_undo i core' c (restore_sub_pool snap) (\<lambda>c1. (c1, Ok out))))))"

end
