(* ===== verification/Store_Limits.thy ===== *)
theory Store_Limits
  imports Engine_Ops_Facts Onchain
begin

text \<open>
  The limits a store keeps so that it fits its accounts: no more buckets than the market's
  cap, a ledger no longer than the ring, and shares in every bucket. The locale
  \<open>kept_by_stores\<close> is what any such property of the stores must satisfy, and derives from it
  that every engine operation keeps the property on both sides; it is interpreted on the
  limits.
\<close>

section \<open>The shape of a store\<close>

definition shape :: "dormant_store \<Rightarrow> i64 \<Rightarrow> nat option" where
  "shape st = (\<lambda>k. map_option total_recovery_shares (bt_get (buckets st) k))"

definition within :: "market_params \<Rightarrow> dormant_store \<Rightarrow> bool" where
  "within m st \<longleftrightarrow> length (buckets st) \<le> max_dormant_bucket_count_per_direction m
     \<and> length (ledger st) \<le> max_distribution_ledger_size m \<and> live_buckets st
     \<and> max_dormant_bucket_count_per_direction m < 2 ^ 32 \<and> max_distribution_ledger_size m < 2 ^ 32"

lemma live_buckets_shape:
  assumes "bt_wf (buckets st)"
  shows "live_buckets st \<longleftrightarrow> (\<forall>k. shape st k \<noteq> Some 0)"
  using bt.in_entries_iff [OF assms] by (force simp: live_buckets_def shape_def)

lemma length_buckets_shape:
  assumes "bt_wf (buckets st)"
  shows "length (buckets st) = card (dom (shape st))"
proof -
  have "dom (shape st) = set (map fst (buckets st))"
    using bt.dom_get [OF assms] by (auto simp: shape_def dom_def)
  moreover have "card (set (map fst (buckets st))) = length (map fst (buckets st))"
    using bt_wf_distinct [OF assms] by (rule distinct_card)
  ultimately show ?thesis by simp
qed

lemma within_shape:
  assumes "store_wf st" and "store_wf st'" and "within m st" and "shape st' = shape st"
    and "length (ledger st') \<le> max_distribution_ledger_size m"
  shows "within m st'"
  using assms live_buckets_shape length_buckets_shape by (simp add: within_def store_wf_def)

lemma settle_shape:
  assumes "store_wf st" and "bt_get (buckets st) k = Some b"
  shows "shape (settle k b st) = shape st"
  using assms by (auto simp: fun_eq_iff shape_def settle_get simp del: settle_fields)

lemma apply_pending_shape:
  assumes "store_wf st" and "apply_pending_to_bucket k st = Inr (st', n)"
  shows "shape st' = shape st" and "ledger st' = ledger st" and "store_wf st'"
proof -
  have "shape st' = shape st \<and> ledger st' = ledger st \<and> store_wf st'"
  proof (cases "bt_get (buckets st) k")
    case None
    with assms show ?thesis by (simp add: apply_pending_None)
  next
    case (Some b)
    then show ?thesis
      using apply_pending_Ok [OF assms(1) Some assms(2)] settle_shape [OF assms(1)] by simp
  qed
  then show "shape st' = shape st" "ledger st' = ledger st" "store_wf st'" by simp_all
qed

lemma prepared_shape:
  assumes "store_wf st" and "prepared p m st st2 t"
  shows "shape st2 = shape st" and "length (ledger st2) < m"
proof -
  obtain st1 where cap: "ensure_ledger_capacity m st = Inr st1"
    and drain: "drain_keys (activated_keys st p) st1 = Inr st2" using assms(2) by (auto simp: prepared_def)
  note s1 = ensure_capacity_Ok [OF assms(1) cap]
  have d: "drained (activated_keys st p) st1 st2"
    using drain_keys_Ok [OF s1(1) _ drain] activated_keys_facts(1) [OF store_wfD(1) [OF assms(1)]] by simp
  show "shape st2 = shape st"
    using d s1(2) by (auto simp: fun_eq_iff drained_def shape_def option.map_comp comp_def)
  show "length (ledger st2) < m" using d s1(7) by (simp add: drained_def same_window_def)
qed

lemma distribute_shape:
  assumes "store_wf st" and "distribute p a m st = Inr (st', r)" and "length (ledger st) \<le> m"
  shows "shape st' = shape st \<and> length (ledger st') \<le> m"
  using assms(1,2)
proof (cases rule: distribute_cases)
  case (event st2 t e bs)
  then have "shape st' = shape st2"
    by (auto simp: shape_def fun_eq_iff option.map_comp comp_def)
  with event prepared_shape [OF assms(1) event(2)] show ?thesis by simp
qed (use assms(3) prepared_shape [OF assms(1)] in \<open>auto intro: less_imp_le\<close>)

lemma distribute_lazy_shape:
  assumes "store_wf st" and "distribute_lazy p a m st = Inr (st', r)" and "length (ledger st) \<le> m"
  shows "shape st' = shape st \<and> length (ledger st') \<le> m"
  using assms(1,2)
proof (cases rule: distribute_lazy_cases)
  case (event st2 t e)
  then have "shape st' = shape st2"
    by (auto simp: shape_def fun_eq_iff option.map_comp comp_def)
  with event prepared_shape [OF assms(1) event(2)] show ?thesis by simp
qed (use assms(3) prepared_shape [OF assms(1)] in \<open>auto intro: less_imp_le\<close>)

section \<open>Inserting and redeeming\<close>

lemma insert_or_merge_within:
  assumes "store_wf st" and "within m st" and "0 < shares"
    and "insert_or_merge k anchor shares notion count (max_dormant_bucket_count_per_direction m) st = Inr st'"
  shows "within m st'"
proof (cases "bt_get (buckets st) k")
  case None
  note wf = store_wfD(1) [OF assms(1)]
  have count: "bucket_count st = length (buckets st)"
    using assms(2) by (simp add: within_def bucket_count_def)
  with None assms(4) have room: "length (buckets st) < max_dormant_bucket_count_per_direction m"
    and st': "\<exists>b. st' = st\<lparr>buckets := bt_put k b (buckets st)\<rparr> \<and> total_recovery_shares b = shares"
    by (auto simp: insert_or_merge_def split: if_splits)
  then obtain b where b: "st' = st\<lparr>buckets := bt_put k b (buckets st)\<rparr>" "total_recovery_shares b = shares"
    by blast
  have wf': "bt_wf (buckets st')" using wf by (simp add: b bt_wf_put)
  have sh: "shape st' = (shape st)(k \<mapsto> shares)" using wf b by (auto simp: shape_def fun_eq_iff bt_get_put)
  have "finite (dom (shape st))" and "k \<notin> dom (shape st)"
    using bt.finite_dom [OF wf] None by (auto simp: shape_def dom_def)
  then have "length (buckets st') = Suc (length (buckets st))"
    by (simp add: length_buckets_shape [OF wf] length_buckets_shape [OF wf'] sh)
  moreover have "live_buckets st'"
    using assms(2,3) by (auto simp: live_buckets_shape [OF wf'] sh within_def live_buckets_shape [OF wf])
  ultimately show ?thesis using room assms(2) b(1) by (simp add: within_def)
next
  case (Some b)
  from assms(4) Some obtain st1 n b0 b' where ap: "apply_pending_to_bucket k st = Inr (st1, n)"
    and b0: "bt_get (buckets st1) k = Some b0"
    and mb: "merge_bucket shares notion count b0 = Inr b'"
    and st': "st' = st1\<lparr>buckets := bt_put k b' (buckets st1)\<rparr>"
    by (auto simp: insert_or_merge_def)
  note s1 = apply_pending_shape [OF assms(1) ap]
  have w1: "within m st1" using within_shape [OF assms(1) s1(3) assms(2) s1(1)] assms(2) s1(2)
    by (simp add: within_def)
  note wf1 = store_wfD(1) [OF s1(3)]
  have pos: "0 < total_recovery_shares b'" using mb assms(3) by (auto simp: merge_bucket_def)
  have wf': "bt_wf (buckets st')" using wf1 by (simp add: st' bt_wf_put)
  have sh: "shape st' = (shape st1)(k \<mapsto> total_recovery_shares b')"
    using wf1 by (auto simp: st' shape_def fun_eq_iff bt_get_put)
  have "k \<in> dom (shape st1)" using b0 by (simp add: shape_def dom_def)
  then have "dom (shape st') = dom (shape st1)" by (auto simp: sh)
  then have "length (buckets st') = length (buckets st1)"
    by (simp add: length_buckets_shape [OF wf1] length_buckets_shape [OF wf'])
  moreover have "live_buckets st'"
    using w1 pos by (auto simp: live_buckets_shape [OF wf'] sh within_def live_buckets_shape [OF wf1])
  ultimately show ?thesis using w1 by (simp add: within_def st')
qed

lemma redeem_within:
  assumes "store_wf st" and "within m st" and "redeem k s st = Inr (st', r)"
  shows "within m st'"
proof -
  from assms(3) obtain st1 n b1 where ap: "apply_pending_to_bucket k st = Inr (st1, n)"
    and b1: "bt_get (buckets st1) k = Some b1"
    by (auto simp: redeem_def)
  note s1 = apply_pending_shape [OF assms(1) ap]
  have w1: "within m st1" using within_shape [OF assms(1) s1(3) assms(2) s1(1)] assms(2) s1(2)
    by (simp add: within_def)
  note wf1 = store_wfD(1) [OF s1(3)]
  have live: "0 < total_recovery_shares b1"
    using w1 b1 bt.in_entries_iff [OF wf1] by (force simp: within_def live_buckets_def)
  show ?thesis
  proof (cases "s = 0")
    case True
    with assms(3) ap b1 w1 show ?thesis by (auto simp: redeem_def)
  next
    case False
    let ?S = "total_recovery_shares b1"
    have S: "?S < 2 ^ 128" using store_wf_bucket [OF s1(3) b1] by (simp add: bucket_ok_def)
    have le: "s \<le> ?S" using assms(3) ap b1 False by (auto simp: redeem_def split: if_splits)
    with assms(3) ap b1 False obtain v m' where
          v: "mul_div_floor (accrued_value b1) s ?S = Inr v"
      and st': "st' = st1\<lparr>buckets := (if ?S = s \<and> accrued_value b1 = v then bt_del k (buckets st1)
          else bt_put k (b1\<lparr>accrued_value := accrued_value b1 - v, total_recovery_shares := ?S - s,
            total_recovery_notional := total_recovery_notional b1 - m',
            position_count := position_count b1 - Suc 0\<rparr>) (buckets st1)),
          accrued_value_total := accrued_value_total st1 - v\<rparr>"
      by (auto simp: redeem_def Let_def)
    have all: "v = accrued_value b1" if "s = ?S"
      using mul_div_floor_Ok(1) [OF v S] live that by simp
    have wf': "bt_wf (buckets st')" using wf1 by (simp add: st' bt_wf_put bt_wf_del)
    have sh: "shape st' = (shape st1)(k := (if s = ?S then None else Some (?S - s)))"
      using le all by (auto simp: st' shape_def fun_eq_iff bt_get_put [OF wf1] bt_get_del [OF wf1])
    have "finite (dom (shape st1))" using bt.finite_dom [OF wf1] by (simp add: shape_def dom_def)
    moreover have "k \<in> dom (shape st1)" using b1 by (simp add: shape_def dom_def)
    then have "dom (shape st') \<subseteq> dom (shape st1)" by (auto simp: sh split: if_splits)
    ultimately have "length (buckets st') \<le> length (buckets st1)"
      by (simp add: length_buckets_shape [OF wf1] length_buckets_shape [OF wf'] card_mono)
    moreover have "live_buckets st'"
      using w1 le by (auto simp: live_buckets_shape [OF wf'] sh within_def live_buckets_shape [OF wf1])
    ultimately show ?thesis using w1 by (simp add: within_def st')
  qed
qed

section \<open>Properties of the stores under the engine\<close>

locale kept_by_stores =
  fixes K :: "market_params \<Rightarrow> dormant_store \<Rightarrow> bool"
  assumes pays: "store_wf st \<Longrightarrow> K m st \<Longrightarrow>
      distribute_by_mode mode p a (max_distribution_ledger_size m) st = Inr (st', r) \<Longrightarrow> K m st'"
    and inserts: "store_wf st \<Longrightarrow> K m st \<Longrightarrow> 0 < shares \<Longrightarrow>
      insert_or_merge k anchor shares notion 1 (max_dormant_bucket_count_per_direction m) st = Inr st'
      \<Longrightarrow> K m st'"
    and applies: "store_wf st \<Longrightarrow> K m st \<Longrightarrow> apply_pending_to_bucket k st = Inr (st', n) \<Longrightarrow> K m st'"
    and redeems: "store_wf st \<Longrightarrow> K m st \<Longrightarrow> redeem k s st = Inr (st', rr) \<Longrightarrow> K m st'"
begin

lemma pay_recovery_keeps:
  assumes "sides_ok sp" and "pay_recovery m p w r (sp, o1) = Inr (sp', o2)"
    and "\<And>d. K m (dormant d sp)"
  shows "K m (dormant d sp')"
  using assms pays [OF sides_ok_store]
  by (auto simp: pay_recovery_def Let_def side_simps split: if_splits)

lemma settle_winner_keeps:
  assumes "sides_ok sp" and "settle_winner m p w ad td (sp, o1) = Inr (sp', o2)" and "td < 2 ^ 128"
    and "\<And>d. K m (dormant d sp)"
  shows "K m (dormant d sp')"
proof (cases "min td (pool_equity (opposite w) sp) > 0")
  case False
  with assms(2,4) show ?thesis by (auto simp: settle_winner_def Let_def)
next
  case True
  with assms(2) obtain won left o3 to_recovery where
      pay: "pay_recovery m p w to_recovery
        (set_pool_equity (opposite w) left (set_pool_equity w won sp), o1) = Inr (sp', o3)"
    and bounds: "won < 2 ^ 128" "left \<le> pool_equity (opposite w) sp"
    by (auto simp: settle_winner_def Let_def)
  note side = sides_okD [OF assms(1)]
  have "left < 2 ^ 128" using side [of "opposite w"] bounds(2) by (auto simp: side_ok_def)
  then have "side_ok e (set_pool_equity (opposite w) left (set_pool_equity w won sp))" for e
    using side [of e] bounds(1) by (auto simp: side_ok_def side_simps)
  then have "sides_ok (set_pool_equity (opposite w) left (set_pool_equity w won sp))"
    by (simp add: sides_ok_def)
  from pay_recovery_keeps [OF this pay] assms(4) show ?thesis by (simp add: side_simps)
qed

lemma settle_sides_keeps:
  assumes "sides_ok sp" and "settle_sides m p (la, lt, sa, st) sp = Inr (sp', o1)"
    and "lt < 2 ^ 128" and "st < 2 ^ 128" and "\<And>d. K m (dormant d sp)"
  shows "K m (dormant d sp')"
  using assms settle_winner_keeps [OF assms(1)] by (auto simp: settle_sides_def split: if_splits)

lemma rotate_if_empty_keeps:
  assumes "sides_ok sp" and "rotate_if_empty m p slot d (sp, o1) = Inr (sp', o2)" and "p < 2 ^ 64"
    and "\<And>e. K m (dormant e sp)"
  shows "K m (dormant e sp')"
proof (cases "pool_equity d sp = 0 \<and> active_shares d sp > 0")
  case False
  with assms show ?thesis by (auto simp: rotate_if_empty_def)
next
  case True
  with assms(2) have rot: "rotate_active_to_recovery m d p sp = Inr sp'"
    by (auto simp: rotate_if_empty_def)
  obtain tick where ins: "insert_or_merge tick p (active_shares d sp) (active_notional d sp) 1
          (max_dormant_bucket_count_per_direction m) (dormant d sp) = Inr (dormant d sp')"
    and other: "\<And>d'. d' \<noteq> d \<Longrightarrow> dormant d' sp' = dormant d' sp"
    using rotate_active_Ok [OF assms(1) rot _ assms(3)] True by (metis less_numeral_extra(3))
  show ?thesis
    using inserts [OF sides_ok_store [OF assms(1)] assms(4) _ ins] True other assms(4)
    by (cases "e = d") auto
qed

lemma sync_pool_keeps:
  assumes "sides_ok sp" and "sync_pool m env sp = Inr (sp', out)" and "env_p_now env < 2 ^ 64"
    and "\<And>d. K m (dormant d sp)"
  shows "K m (dormant d sp')"
proof (cases "last_price sp = 0 \<or> env_p_now env = last_price sp")
  case True
  with assms show ?thesis
    by (auto simp: sync_pool_def Let_def side_simps split: if_splits)
next
  case False
  with assms(2) have "sync_move m env sp = Inr (sp', out)"
    by (auto simp: sync_pool_def)
  then obtain demands sp1 o1 o2 sp3 o3 where
      dem: "sync_demands (last_price sp) (env_p_now env) sp = Inr demands"
    and set: "settle_sides m (env_p_now env) demands sp = Inr (sp1, o1)"
    and rl: "rotate_if_empty m (env_p_now env) (env_slot env) Long
          (sp1\<lparr>last_price := env_p_now env, last_sync_slot := env_slot env\<rparr>, o2) = Inr (sp3, o3)"
    and rs: "rotate_if_empty m (env_p_now env) (env_slot env) Short (sp3, o3) = Inr (sp', out)"
    by (rule sync_move_Ok)
  obtain la lt sa st where d: "demands = (la, lt, sa, st)" by (metis prod_cases4)
  note bound = sync_demands_bound(1,2) [OF dem [unfolded d]]
  note ok1 = settle_sides_Ok(1) [OF assms(1) set [unfolded d] bound]
  have k1: "K m (dormant e sp1)" for e
    using settle_sides_keeps [OF assms(1) set [unfolded d] bound assms(4)] .
  note ok3 = rotate_if_empty_Ok(1) [OF _ rl assms(3), unfolded sides_ok_clock, OF ok1]
  have k3: "K m (dormant e sp3)" for e
    using rotate_if_empty_keeps [OF _ rl assms(3), unfolded sides_ok_clock, OF ok1] k1
    by (simp add: side_simps)
  show ?thesis using rotate_if_empty_keeps [OF ok3 rs assms(3) k3] .
qed

lemma burn_active_keeps:
  "burn_active sp pos = Inr (sp', pos', v) \<Longrightarrow> dormant d sp' = dormant d sp"
  by (auto simp: burn_active_def Let_def side_simps split: if_splits)

lemma burn_recovery_keeps:
  assumes "sides_ok sp" and "burn_recovery sp pos = Inr (sp', pos', tick, r)"
    and "\<And>d. K m (dormant d sp)"
  shows "K m (dormant d sp')"
  using assms redeems [OF sides_ok_store [OF assms(1)]]
  by (auto simp: burn_recovery_def Let_def side_simps)

lemma burn_recovery_if_any_keeps:
  assumes "sides_ok sp" and "burn_recovery_if_any sp pos = Inr (sp', pos', r)"
    and "\<And>d. K m (dormant d sp)"
  shows "K m (dormant d sp')"
  using assms burn_recovery_keeps [OF assms(1)]
  by (auto simp: burn_recovery_if_any_def split: if_splits)

lemma forfeit_recovery_keeps:
  assumes "sides_ok sp" and "forfeit_recovery sp pos = Inr (sp', pos', r, v)"
    and "\<And>d. K m (dormant d sp)"
  shows "K m (dormant d sp')"
  using assms redeems [OF sides_ok_store [OF assms(1)]]
  by (auto simp: forfeit_recovery_def Let_def side_simps split: if_splits)

lemma burn_worthless_keeps:
  "burn_worthless sp pos = Inr (sp', pos', v, n) \<Longrightarrow> dormant d sp' = dormant d sp"
  by (auto simp: burn_worthless_def Let_def side_simps split: if_splits)

end

lemma within_distribute:
  assumes "store_wf st" and "within m st"
    and "distribute_by_mode mode p a (max_distribution_ledger_size m) st = Inr (st', r)"
  shows "within m st'"
proof -
  have len: "length (ledger st) \<le> max_distribution_ledger_size m" using assms(2) by (simp add: within_def)
  have "shape st' = shape st \<and> length (ledger st') \<le> max_distribution_ledger_size m"
    using assms(3) distribute_shape [OF assms(1) _ len] distribute_lazy_shape [OF assms(1) _ len]
    by (cases mode) (simp_all add: distribute_by_mode_def)
  moreover have "store_wf st'" using assms(1,3) by (rule by_mode.keeps_wf)
  ultimately show ?thesis using within_shape [OF assms(1) _ assms(2)] by simp
qed

lemma within_apply:
  assumes "store_wf st" and "within m st" and "apply_pending_to_bucket k st = Inr (st', n)"
  shows "within m st'"
  using apply_pending_shape [OF assms(1,3)] within_shape [OF assms(1) _ assms(2)] assms(2)
  by (simp add: within_def)

interpretation limits: kept_by_stores within
  by unfold_locales
    (rule within_distribute insert_or_merge_within within_apply redeem_within; assumption)+

end
