(* ===== verification/Chain_Bridge.thy ===== *)
theory Chain_Bridge
  imports Chain_Mirror Store_Limits
begin

text \<open>
  The bridge between an engine sub-pool and its accounts: \<open>holds\<close> says that the accounts of one
  side represent a store, whatever dead slots stand beside its buckets; reading accounts that
  hold a store gives the store back, and a write-back that succeeds, loose or strict, leaves
  accounts that hold what was written and touches nothing of the other sub-pools.
\<close>

section \<open>Ordered maps: filters and bulk writes\<close>

lemma bt_wf_filter: "bt_wf m \<Longrightarrow> bt_wf (filter P m)"
  by (induction m) auto

lemma bt_get_filter:
  "bt_wf m \<Longrightarrow> bt_get (filter P m) k
    = (case bt_get m k of None \<Rightarrow> None | Some v \<Rightarrow> if P (k, v) then Some v else None)"
proof (induction m)
  case (Cons kv m)
  obtain k' v where kv: "kv = (k', v)" by (cases kv)
  have "bt_get m k' = None" using Cons.prems kv by (auto simp: bt_get_None_iff)
  with Cons kv show ?case by (auto split: option.splits)
qed simp

lemma bt_get_map_values:
  "bt_get (map (\<lambda>(k, v). (k, g k v)) m) k = map_option (g k) (bt_get m k)"
  by (induction m) auto

lemma bt_wf_map_values: "bt_wf (map (\<lambda>(k, v). (k, g k v)) m) = bt_wf m"
  by (simp add: bt_wf_def comp_def split_def)

lemma fold_put_wf: "bt_wf m \<Longrightarrow> bt_wf (fold (\<lambda>r. bt_put (f r) (g r)) rs m)"
  by (induction rs arbitrary: m) (simp_all add: bt_wf_put)

lemma fold_put_other:
  "bt_wf m \<Longrightarrow> k \<notin> f ` set rs \<Longrightarrow> bt_get (fold (\<lambda>r. bt_put (f r) (g r)) rs m) k = bt_get m k"
  by (induction rs arbitrary: m) (simp_all add: bt_wf_put bt_get_put)

lemma fold_put_get:
  "bt_wf m \<Longrightarrow> distinct (map f rs) \<Longrightarrow> r \<in> set rs
    \<Longrightarrow> bt_get (fold (\<lambda>r. bt_put (f r) (g r)) rs m) (f r) = Some (g r)"
proof (induction rs arbitrary: m)
  case (Cons q rs)
  show ?case
  proof (cases "r = q")
    case True
    with Cons.prems have "f r \<notin> f ` set rs" by auto
    with Cons.prems True show ?thesis by (simp add: fold_put_other bt_wf_put bt_get_put)
  next
    case False
    with Cons show ?thesis by (simp add: bt_wf_put)
  qed
qed simp

section \<open>Reading a side\<close>

lemma records_of_side_wf: "bt_wf (records_of_side c i d)"
proof -
  have "bt_wf (fold (\<lambda>(key, acc) m. if of_side i d key then bt_put (snd (snd key)) (ba_record acc) m else m)
      kas m)" if "bt_wf m" for kas m
    using that by (induction kas arbitrary: m) (auto simp: bt_wf_put)
  from this [of bt_empty "ch_buckets c"] show ?thesis by (simp add: records_of_side_def bt_empty_def)
qed

lemma get_records_of_side:
  assumes "bt_wf (ch_buckets c)"
  shows "bt_get (records_of_side c i d) t = map_option ba_record (bt_get (ch_buckets c) (i, d, t))"
proof -
  have "bt_get (fold (\<lambda>(key, acc) m. if of_side i d key then bt_put (snd (snd key)) (ba_record acc) m else m)
      kas m) t = (case bt_get kas (i, d, t) of None \<Rightarrow> bt_get m t | Some a \<Rightarrow> Some (ba_record a))"
    if "bt_wf m" "bt_wf kas" for kas m
    using that
  proof (induction kas arbitrary: m)
    case (Cons ka kas)
    obtain j e u a where ka: "ka = ((j, e, u), a)" by (metis prod_cases4 prod.collapse)
    show ?case
    proof (cases "(j, e, u) = (i, d, t)")
      case True
      then have "bt_get kas (i, d, t) = None" using Cons.prems(2) ka by (auto simp: bt_get_None_iff)
      with True Cons ka show ?thesis by (simp add: of_side_def bt_wf_put bt_get_put)
    next
      case False
      with Cons ka show ?thesis
        by (cases "bt_get kas (i, d, t)") (auto simp: of_side_def bt_wf_put bt_get_put)
    qed
  qed simp
  from this [OF _ assms, of bt_empty] show ?thesis
    by (simp add: records_of_side_def bt_empty_def split: option.splits)
qed

lemma unpack_skips_all_dead:
  assumes "\<forall>r\<in>set rs. br_direction r = ol_direction l"
  shows "unpack_dormant_store rs l = unpack_dormant_store (filter (\<lambda>r. \<not> is_dead r) rs) l"
proof -
  have "fold_res (unpack_step d (ol_direction l)) rs acc
      = fold_res (unpack_step d (ol_direction l)) (filter (\<lambda>r. \<not> is_dead r) rs) acc" for d acc
    using assms by (induction rs arbitrary: acc) (auto simp: unpack_step_def)
  then show ?thesis by (simp add: unpack_dormant_store_def cong: if_cong)
qed

definition slots_ok :: "u32 \<Rightarrow> direction \<Rightarrow> chain_runtime \<Rightarrow> bool" where
  "slots_ok i d c \<longleftrightarrow> (\<forall>t a. bt_get (ch_buckets c) (i, d, t) = Some a
     \<longrightarrow> br_direction (ba_record a) = direction_byte d)"

definition live_record :: "chain_runtime \<Rightarrow> u32 \<Rightarrow> direction \<Rightarrow> i64 \<Rightarrow> onchain_bucket_record option" where
  "live_record c i d t = (case bt_get (ch_buckets c) (i, d, t) of None \<Rightarrow> None
     | Some a \<Rightarrow> if is_dead (ba_record a) then None else Some (ba_record a))"

text \<open>A store that fits the accounts and passes the checks of unpacking.\<close>

definition packable :: "market_params \<Rightarrow> direction \<Rightarrow> dormant_store \<Rightarrow> bool" where
  "packable m d st \<longleftrightarrow> store_wf st \<and> store_direction st = d \<and> within m st
     \<and> check_store_invariants st = Ok ()"

definition packed_ledger :: "u32 \<Rightarrow> dormant_store \<Rightarrow> onchain_ledger" where
  "packed_ledger max_ledger st =
     \<lparr>ol_direction = direction_byte (store_direction st), ol_reserved0 = replicate 3 0,
      ol_max_entries = max_ledger, ol_gc_offset = ledger_gc_offset st,
      ol_next_event_index = next_event_index st, ol_accrued_value_total = accrued_value_total st,
      ol_pending_distribution_total = pending_distribution_total st,
      ol_entry_count = length (ledger st) mod 2 ^ 32, ol_reserved1 = replicate 4 0,
      ol_entries = map pack_entry (ledger st)\<rparr>"

definition packed_buckets :: "dormant_store \<Rightarrow> onchain_bucket_record list" where
  "packed_buckets st = map (pack_bucket (direction_byte (store_direction st))) (buckets st)"

definition holds :: "u32 \<Rightarrow> direction \<Rightarrow> dormant_store \<Rightarrow> chain_runtime \<Rightarrow> bool" where
  "holds i d st c \<longleftrightarrow> slots_ok i d c
     \<and> (\<exists>acc. bt_get (ch_ledgers c) (i, d) = Some acc
          \<and> la_ledger acc = packed_ledger (max_distribution_ledger_size (ch_params c)) st)
     \<and> (\<forall>t. live_record c i d t
          = map_option (\<lambda>b. pack_bucket (direction_byte d) (t, b)) (bt_get (buckets st) t))"

lemma packable_pack:
  assumes "packable m d st"
  shows "pack_dormant_store st (max_dormant_bucket_count_per_direction m) (max_distribution_ledger_size m)
    = Ok (packed_buckets st, packed_ledger (max_distribution_ledger_size m) st)"
proof -
  have "length (buckets st) < 2 ^ 32" and "length (ledger st) < 2 ^ 32"
    using assms by (auto simp: packable_def within_def)
  then show ?thesis
    using assms pack_sorted [OF store_wfD(1), of st]
    by (simp add: packable_def within_def pack_dormant_store_def bucket_count_def ledger_len_def
        packed_ledger_def packed_buckets_def Let_def)
qed

lemma packable_unpack:
  assumes "packable m d st"
  shows "unpack_dormant_store (packed_buckets st) (packed_ledger (max_distribution_ledger_size m) st) = Ok st"
proof (rule pack_unpack_store [OF _ _ _ _ _ packable_pack [OF assms]])
  show "store_wf st" "live_buckets st" "max_distribution_ledger_size m < 2 ^ 32"
    using assms by (simp_all add: packable_def within_def)
  show "observed (ledger st) < 2 ^ 128" "pending_distribution_total st \<le> observed (ledger st)"
    using assms check_store_invariants_iff [of st] by (simp_all add: packable_def)
qed

lemma unpack_holds:
  assumes "bt_wf (ch_buckets c)" and "holds i d st c" and "packable (ch_params c) d st"
  shows "unpack_dormant c i d = Ok st"
proof -
  let ?dir = "direction_byte d" and ?R = "records_of_side c i d"
  have st: "store_direction st = d" and wf: "bt_wf (buckets st)"
    using assms(3) by (simp_all add: packable_def store_wf_def)
  obtain acc where acc: "bt_get (ch_ledgers c) (i, d) = Some acc"
    and l: "la_ledger acc = packed_ledger (max_distribution_ledger_size (ch_params c)) st"
    using assms(2) by (auto simp: holds_def)
  let ?M = "map (\<lambda>(t, b). (t, pack_bucket ?dir (t, b))) (buckets st)"
  let ?L = "filter (\<lambda>(t, r). \<not> is_dead r) ?R"
  have "?L = ?M"
  proof (rule bt_ext)
    show "bt_wf ?L" "bt_wf ?M"
      using records_of_side_wf wf by (simp_all add: bt_wf_filter bt_wf_map_values)
    have "bt_get ?L t = live_record c i d t" for t
      using records_of_side_wf [of c i d]
      by (simp add: bt_get_filter get_records_of_side [OF assms(1)] live_record_def split: option.splits)
    moreover have "bt_get ?M t = live_record c i d t" for t
      using assms(2) by (simp add: bt_get_map_values holds_def)
    ultimately show "bt_get ?L = bt_get ?M" by (simp add: fun_eq_iff)
  qed
  then have "map snd ?L = packed_buckets st"
    by (simp add: packed_buckets_def st split_def)
  then have live: "filter (\<lambda>r. \<not> is_dead r) (map snd ?R) = packed_buckets st"
    by (simp add: filter_map comp_def split_def)
  have "\<forall>r\<in>set (map snd ?R). br_direction r = ol_direction (la_ledger acc)"
  proof
    fix r assume "r \<in> set (map snd ?R)"
    then obtain t where "(t, r) \<in> set ?R" by auto
    then have "bt_get ?R t = Some r" using bt.in_entries_iff [OF records_of_side_wf] by simp
    then show "br_direction r = ol_direction (la_ledger acc)"
      using assms(2) by (auto simp: get_records_of_side [OF assms(1)] holds_def slots_ok_def l
          packed_ledger_def st)
  qed
  from unpack_skips_all_dead [OF this] live packable_unpack [OF assms(3)] acc show ?thesis
    by (simp add: unpack_dormant_def l)
qed

section \<open>Writing a side\<close>

lemma packed_buckets_facts:
  assumes "packable m d st"
  shows "distinct (map br_zero_price_tick (packed_buckets st))"
    and "r \<in> set (packed_buckets st) \<longleftrightarrow>
      (\<exists>t b. bt_get (buckets st) t = Some b \<and> r = pack_bucket (direction_byte d) (t, b))"
    and "bt_get (buckets st) t = Some b \<Longrightarrow> \<not> is_dead (pack_bucket (direction_byte d) (t, b))"
    and "br_zero_price_tick (pack_bucket dir (t, b)) = t" and "br_direction (pack_bucket dir (t, b)) = dir"
proof -
  have wf: "bt_wf (buckets st)" and st: "store_direction st = d" and live: "live_buckets st"
    using assms by (simp_all add: packable_def store_wf_def within_def)
  note entries = bt.in_entries_iff [OF wf]
  have "map br_zero_price_tick (packed_buckets st) = map fst (buckets st)"
    by (simp add: packed_buckets_def pack_bucket_def split_def Let_def)
  with bt_wf_distinct [OF wf] show "distinct (map br_zero_price_tick (packed_buckets st))" by simp
  show "r \<in> set (packed_buckets st) \<longleftrightarrow>
      (\<exists>t b. bt_get (buckets st) t = Some b \<and> r = pack_bucket (direction_byte d) (t, b))"
    using entries by (auto simp: packed_buckets_def st)
  show "bt_get (buckets st) t = Some b \<Longrightarrow> \<not> is_dead (pack_bucket (direction_byte d) (t, b))"
    using live entries [of t b] by (auto simp: live_buckets_def is_dead_def pack_bucket_def Let_def)
  show "br_zero_price_tick (pack_bucket dir (t, b)) = t" "br_direction (pack_bucket dir (t, b)) = dir"
    by (simp_all add: pack_bucket_def Let_def)
qed

text \<open>The accounts of one side after a write, and nothing else changed.\<close>

definition side_written ::
  "u32 \<Rightarrow> direction \<Rightarrow> dormant_store \<Rightarrow> (bucket_key, bucket_account) btree
   \<Rightarrow> (bucket_key, bucket_account) btree \<Rightarrow> bool" where
  "side_written i d st m m' \<longleftrightarrow>
     (\<forall>t b. bt_get (buckets st) t = Some b
        \<longrightarrow> (\<exists>a. bt_get m' (i, d, t) = Some a \<and> ba_record a = pack_bucket (direction_byte d) (t, b)))
     \<and> (\<forall>t a. bt_get (buckets st) t = None \<longrightarrow> bt_get m' (i, d, t) = Some a \<longrightarrow> is_dead (ba_record a))"

definition side_frame ::
  "u32 \<Rightarrow> direction \<Rightarrow> (bucket_key, bucket_account) btree \<Rightarrow> (bucket_key, bucket_account) btree \<Rightarrow> bool" where
  "side_frame i d m m' \<longleftrightarrow> bt_wf m' \<and> (\<forall>key. \<not> of_side i d key \<longrightarrow> bt_get m' key = bt_get m key)
     \<and> ((\<forall>t a. bt_get m (i, d, t) = Some a \<longrightarrow> br_direction (ba_record a) = direction_byte d)
        \<longrightarrow> (\<forall>t a. bt_get m' (i, d, t) = Some a \<longrightarrow> br_direction (ba_record a) = direction_byte d))"

lemma side_frame_refl: "bt_wf m \<Longrightarrow> side_frame i d m m"
  by (simp add: side_frame_def)

lemma side_frame_trans: "side_frame i d m m1 \<Longrightarrow> side_frame i d m1 m2 \<Longrightarrow> side_frame i d m m2"
  unfolding side_frame_def by (intro conjI; (elim conjE)?) (assumption | metis | blast)+

lemma side_frame_put:
  assumes "bt_wf m" and "br_direction (ba_record a) = direction_byte d"
  shows "side_frame i d m (bt_put (i, d, t) a m)"
  using assms by (auto simp: side_frame_def bt_get_put bt_wf_put of_side_def)

lemma write_loose:
  fixes i :: u32
  assumes "bt_wf (ch_buckets c)" and "packable m d st"
  defines "m' \<equiv> ch_buckets (write_buckets_loose i d (packed_buckets st) c)"
  shows "side_frame i d (ch_buckets c) m'" and "side_written i d st (ch_buckets c) m'"
proof -
  note pk = packed_buckets_facts [OF assms(2)]
  let ?f = "\<lambda>r. (i, d, br_zero_price_tick r)" and ?g = "\<lambda>r. \<lparr>ba_sub_pool_id = i, ba_record = r\<rparr>"
  let ?ticks = "set (map br_zero_price_tick (packed_buckets st))"
  let ?kept = "filter (\<lambda>(key, acc). \<not> (of_side i d key \<and> snd (snd key) \<notin> ?ticks)) (ch_buckets c)"
  have m': "m' = fold (\<lambda>r. bt_put (?f r) (?g r)) (packed_buckets st) ?kept"
    by (simp add: m'_def write_buckets_loose_def)
  have wf: "bt_wf ?kept" using assms(1) by (rule bt_wf_filter)
  have dist: "distinct (map ?f (packed_buckets st))"
    using pk(1) by (simp add: distinct_map inj_on_def)
  have put: "r \<in> set (packed_buckets st) \<Longrightarrow> bt_get m' (?f r) = Some (?g r)" for r
    unfolding m' by (rule fold_put_get [OF wf dist])
  have rest: "key \<notin> ?f ` set (packed_buckets st) \<Longrightarrow> bt_get m' key
      = (if of_side i d key then None else bt_get (ch_buckets c) key)" for key
  proof -
    assume key: "key \<notin> ?f ` set (packed_buckets st)"
    then have "of_side i d key \<Longrightarrow> snd (snd key) \<notin> ?ticks"
      by (cases key) (auto simp: of_side_def)
    then show ?thesis
      unfolding m' fold_put_other [OF wf key] bt_get_filter [OF assms(1)]
      by (auto split: option.splits)
  qed
  have none: "bt_get m' (i, d, t) = None" if "bt_get (buckets st) t = None" for t
  proof -
    have "(i, d, t) \<notin> ?f ` set (packed_buckets st)" using that by (auto simp: pk(2,4))
    from rest [OF this] show ?thesis by (simp add: of_side_def)
  qed
  have some: "bt_get (buckets st) t = Some b \<Longrightarrow>
      bt_get m' (i, d, t) = Some (?g (pack_bucket (direction_byte d) (t, b)))" for t b
    using put [of "pack_bucket (direction_byte d) (t, b)"] pk(2,4) by auto
  show "side_written i d st (ch_buckets c) m'"
    using some none by (auto simp: side_written_def)
  show "side_frame i d (ch_buckets c) m'"
    unfolding side_frame_def
  proof (intro conjI allI impI)
    show "bt_wf m'" unfolding m' using wf by (rule fold_put_wf)
    show "bt_get m' key = bt_get (ch_buckets c) key" if "\<not> of_side i d key" for key
      using that rest [of key] by (force simp: of_side_def)
    show "br_direction (ba_record a) = direction_byte d" if "bt_get m' (i, d, t) = Some a" for t a
      using that none [of t] some [of t] pk(5) by (cases "bt_get (buckets st) t") auto
  qed
qed

lemma place_records_frame:
  assumes "place_records i d rs m = (m', res)" and "bt_wf m"
    and "\<forall>r\<in>set rs. br_direction r = direction_byte d"
  shows "side_frame i d m m'" and "res = Ok () \<or> res = Err (BucketSlotExhausted i d)"
    and "t \<notin> set (map br_zero_price_tick rs) \<Longrightarrow> bt_get m' (i, d, t) = bt_get m (i, d, t)"
proof -
  have "side_frame i d m m' \<and> (res = Ok () \<or> res = Err (BucketSlotExhausted i d))
    \<and> (\<forall>t. t \<notin> set (map br_zero_price_tick rs) \<longrightarrow> bt_get m' (i, d, t) = bt_get m (i, d, t))"
    using assms
  proof (induction i d rs m rule: place_records.induct)
    case (2 i d r rs m)
    show ?case
    proof (cases "bt_get m (i, d, br_zero_price_tick r)")
      case None
      with 2 show ?thesis by (auto simp: side_frame_refl)
    next
      case (Some slot)
      let ?m = "bt_put (i, d, br_zero_price_tick r) (slot\<lparr>ba_record := r\<rparr>) m"
      have wf: "bt_wf ?m" using "2.prems"(2) by (rule bt_wf_put)
      have put: "side_frame i d m ?m" using "2.prems"(2,3) by (intro side_frame_put) simp_all
      have "place_records i d rs ?m = (m', res)" and "\<forall>r\<in>set rs. br_direction r = direction_byte d"
        using "2.prems"(1,3) Some by simp_all
      note ih = "2.IH" [OF Some this(1) wf this(2)]
      have "bt_get m' (i, d, t) = bt_get m (i, d, t)" if "t \<notin> set (map br_zero_price_tick (r # rs))" for t
        using ih that by (simp add: bt_get_put [OF "2.prems"(2)])
      with ih side_frame_trans [OF put] show ?thesis by blast
    qed
  qed (simp add: side_frame_refl)
  then show "side_frame i d m m'" "res = Ok () \<or> res = Err (BucketSlotExhausted i d)"
    "t \<notin> set (map br_zero_price_tick rs) \<Longrightarrow> bt_get m' (i, d, t) = bt_get m (i, d, t)"
    by blast+
qed

lemma place_records_placed:
  assumes "place_records i d rs m = (m', Ok ())" and "bt_wf m"
    and "distinct (map br_zero_price_tick rs)" and "r \<in> set rs"
  shows "\<exists>a. bt_get m' (i, d, br_zero_price_tick r) = Some a \<and> ba_record a = r"
  using assms
proof (induction i d rs m rule: place_records.induct)
  case (2 i d q rs m)
  from "2.prems"(1) obtain slot where slot: "bt_get m (i, d, br_zero_price_tick q) = Some slot"
    and rest: "place_records i d rs (bt_put (i, d, br_zero_price_tick q) (slot\<lparr>ba_record := q\<rparr>) m) = (m', Ok ())"
    by (auto split: option.splits)
  have wf: "bt_wf (bt_put (i, d, br_zero_price_tick q) (slot\<lparr>ba_record := q\<rparr>) m)"
    using "2.prems"(2) by (rule bt_wf_put)
  show ?case
  proof (cases "r = q")
    case False
    with "2.IH" [OF slot rest wf] "2.prems"(3,4) show ?thesis by simp
  next
    case True
    have untouched: "place_records i d rs m = (m', Ok ()) \<Longrightarrow> bt_wf m
        \<Longrightarrow> t \<notin> set (map br_zero_price_tick rs) \<Longrightarrow> bt_get m' (i, d, t) = bt_get m (i, d, t)" for m t
      by (induction i d rs m rule: place_records.induct)
        (auto simp: bt_get_put bt_wf_put split: option.splits)
    from untouched [OF rest wf, of "br_zero_price_tick q"] True "2.prems"(2,3) show ?thesis
      by (simp add: bt_get_put)
  qed
qed simp

lemma zero_record_facts [simp]:
  "is_dead (zero_record r)" "br_direction (zero_record r) = br_direction r"
  by (simp_all add: is_dead_def zero_record_def)

lemma zero_leftovers_get:
  "bt_get (zero_leftovers i d placed m) key = map_option (\<lambda>slot.
     if of_side i d key \<and> snd (snd key) \<notin> placed \<and> \<not> is_dead (ba_record slot)
     then slot\<lparr>ba_record := zero_record (ba_record slot)\<rparr> else slot) (bt_get m key)"
  and zero_leftovers_wf: "bt_wf (zero_leftovers i d placed m) = bt_wf m"
proof -
  have eq: "zero_leftovers i d placed m = map (\<lambda>(key, slot). (key,
     if of_side i d key \<and> snd (snd key) \<notin> placed \<and> \<not> is_dead (ba_record slot)
     then slot\<lparr>ba_record := zero_record (ba_record slot)\<rparr> else slot)) m"
    unfolding zero_leftovers_def by (rule map_cong) (auto split: if_splits)
  show "bt_get (zero_leftovers i d placed m) key = map_option (\<lambda>slot.
     if of_side i d key \<and> snd (snd key) \<notin> placed \<and> \<not> is_dead (ba_record slot)
     then slot\<lparr>ba_record := zero_record (ba_record slot)\<rparr> else slot) (bt_get m key)"
    unfolding eq by (rule bt_get_map_values)
  show "bt_wf (zero_leftovers i d placed m) = bt_wf m"
    unfolding eq by (rule bt_wf_map_values)
qed

lemma zero_leftovers_frame: "bt_wf m \<Longrightarrow> side_frame i d m (zero_leftovers i d placed m)"
  unfolding side_frame_def zero_leftovers_wf zero_leftovers_get
  by (auto simp: option.map_id0 [unfolded id_def] cong: option.map_cong split: if_splits)

lemma write_strict:
  assumes "bt_wf (ch_buckets c)" and "packable m d st"
    and "write_buckets_strict i d (packed_buckets st) c = (c', res)"
  shows "c' = c\<lparr>ch_buckets := ch_buckets c'\<rparr>" and "side_frame i d (ch_buckets c) (ch_buckets c')"
    and "res = Ok () \<or> res = Err (BucketSlotExhausted i d)"
    and "res = Ok () \<Longrightarrow> side_written i d st (ch_buckets c) (ch_buckets c')"
proof -
  note pk = packed_buckets_facts [OF assms(2)]
  let ?rs = "packed_buckets st"
  obtain m1 r1 where place: "place_records i d ?rs (ch_buckets c) = (m1, r1)" by (metis prod.exhaust)
  have dirs: "\<forall>r\<in>set ?rs. br_direction r = direction_byte d" by (auto simp: pk(2,5))
  note pf = place_records_frame [OF place assms(1) dirs]
  have wf1: "bt_wf m1" using pf(1) by (simp add: side_frame_def)
  show "c' = c\<lparr>ch_buckets := ch_buckets c'\<rparr>" "res = Ok () \<or> res = Err (BucketSlotExhausted i d)"
    using assms(3) place pf(2) by (auto simp: write_buckets_strict_def)
  show "side_frame i d (ch_buckets c) (ch_buckets c')"
    using assms(3) place pf(1,2) side_frame_trans [OF pf(1) zero_leftovers_frame [OF wf1]]
    by (auto simp: write_buckets_strict_def)
  show "side_written i d st (ch_buckets c) (ch_buckets c')" if "res = Ok ()"
  proof -
    have r1: "r1 = Ok ()" and m': "ch_buckets c' = zero_leftovers i d (set (map br_zero_price_tick ?rs)) m1"
      using assms(3) place pf(2) that by (auto simp: write_buckets_strict_def)
    have ticks: "t \<in> set (map br_zero_price_tick ?rs) \<longleftrightarrow> bt_get (buckets st) t \<noteq> None" for t
      by (force simp: pk(2,4) image_iff)
    have some: "\<exists>a. bt_get (ch_buckets c') (i, d, t) = Some a \<and> ba_record a = pack_bucket (direction_byte d) (t, b)"
      if b: "bt_get (buckets st) t = Some b" for t b
    proof -
      have "pack_bucket (direction_byte d) (t, b) \<in> set ?rs" using b pk(2) by blast
      from place_records_placed [OF place [unfolded r1] assms(1) pk(1) this]
      obtain a where "bt_get m1 (i, d, t) = Some a" "ba_record a = pack_bucket (direction_byte d) (t, b)"
        by (auto simp: pk(4))
      moreover have "t \<in> set (map br_zero_price_tick ?rs)" using b ticks by simp
      ultimately show ?thesis by (simp add: m' zero_leftovers_get)
    qed
    have none: "is_dead (ba_record a)"
      if "bt_get (buckets st) t = None" "bt_get (ch_buckets c') (i, d, t) = Some a" for t a
    proof -
      have "t \<notin> set (map br_zero_price_tick ?rs)" using that(1) ticks by simp
      with that(2) obtain slot where "a = (if \<not> is_dead (ba_record slot)
          then slot\<lparr>ba_record := zero_record (ba_record slot)\<rparr> else slot)"
        by (auto simp: m' zero_leftovers_get of_side_def)
      then show ?thesis by simp
    qed
    from some none show ?thesis unfolding side_written_def by blast
  qed
qed

text \<open>A side of a sub-pool has been written: only its own accounts can differ.\<close>

definition side_only :: "u32 \<Rightarrow> direction \<Rightarrow> chain_runtime \<Rightarrow> chain_runtime \<Rightarrow> bool" where
  "side_only i d c c' \<longleftrightarrow> c' = c\<lparr>ch_buckets := ch_buckets c', ch_ledgers := ch_ledgers c'\<rparr>
     \<and> side_frame i d (ch_buckets c) (ch_buckets c') \<and> bt_wf (ch_ledgers c')
     \<and> (\<forall>k. k \<noteq> (i, d) \<longrightarrow> bt_get (ch_ledgers c') k = bt_get (ch_ledgers c) k)
     \<and> bt_get (ch_ledgers c') (i, d) \<noteq> None"

lemma side_written_holds:
  assumes "packable m d st" and "slots_ok i d c" and "side_written i d st m0 (ch_buckets c)"
    and "bt_get (ch_ledgers c) (i, d) = Some acc"
    and "la_ledger acc = packed_ledger (max_distribution_ledger_size (ch_params c)) st"
  shows "holds i d st c"
  unfolding holds_def
proof (intro conjI allI exI)
  show "slots_ok i d c" by fact
  show "bt_get (ch_ledgers c) (i, d) = Some acc" by fact
  show "la_ledger acc = packed_ledger (max_distribution_ledger_size (ch_params c)) st" by fact
  show "live_record c i d t
    = map_option (\<lambda>b. pack_bucket (direction_byte d) (t, b)) (bt_get (buckets st) t)" for t
  proof (cases "bt_get (buckets st) t")
    case None
    with assms(3) show ?thesis
      by (auto simp: live_record_def side_written_def split: option.splits)
  next
    case (Some b)
    with assms(3) obtain a where "bt_get (ch_buckets c) (i, d, t) = Some a"
      and "ba_record a = pack_bucket (direction_byte d) (t, b)"
      unfolding side_written_def by blast
    with Some packed_buckets_facts(3) [OF assms(1) Some] show ?thesis by (simp add: live_record_def)
  qed
qed

lemma write_side_cases:
  assumes "bt_wf (ch_buckets c)" and "bt_wf (ch_ledgers c)" and "slots_ok i d c"
    and "bt_get (ch_ledgers c) (i, d) \<noteq> None" and "packable (ch_params c) d (dormant d core)"
    and "write_side i core d c = (c', res)"
  shows "side_only i d c c'"
    and "res = Ok () \<or> strict_pda_lifecycle c \<and> res = Err (BucketSlotExhausted i d)"
    and "res = Ok () \<Longrightarrow> holds i d (dormant d core) c'"
proof -
  let ?st = "dormant d core"
  obtain acc where acc: "bt_get (ch_ledgers c) (i, d) = Some acc" using assms(4) by auto
  let ?l = "acc\<lparr>la_ledger := packed_ledger (max_distribution_ledger_size (ch_params c)) ?st\<rparr>"
  let ?c1 = "c\<lparr>ch_ledgers := bt_put (i, d) ?l (ch_ledgers c)\<rparr>"
  have ws: "(if strict_pda_lifecycle c then write_buckets_strict i d (packed_buckets ?st) ?c1
      else (write_buckets_loose i d (packed_buckets ?st) ?c1, Ok ())) = (c', res)"
    using assms(6) acc by (simp add: write_side_def packable_pack [OF assms(5)] Let_def)
  have "\<exists>X. c' = ?c1\<lparr>ch_buckets := X\<rparr> \<and> side_frame i d (ch_buckets c) X
    \<and> (res = Ok () \<or> strict_pda_lifecycle c \<and> res = Err (BucketSlotExhausted i d))
    \<and> (res = Ok () \<longrightarrow> side_written i d ?st (ch_buckets c) X)"
  proof (cases "strict_pda_lifecycle c")
    case True
    with ws have w: "write_buckets_strict i d (packed_buckets ?st) ?c1 = (c', res)" by simp
    have "bt_wf (ch_buckets ?c1)" using assms(1) by simp
    note wr = write_strict [OF this assms(5) w]
    show ?thesis
    proof (intro exI conjI)
      show "c' = ?c1\<lparr>ch_buckets := ch_buckets c'\<rparr>" by (rule wr(1))
      show "side_frame i d (ch_buckets c) (ch_buckets c')" using wr(2) by simp
      show "res = Ok () \<or> strict_pda_lifecycle c \<and> res = Err (BucketSlotExhausted i d)"
        using True wr(3) by blast
      show "res = Ok () \<longrightarrow> side_written i d ?st (ch_buckets c) (ch_buckets c')" using wr(4) by simp
    qed
  next
    case False
    then have "c' = write_buckets_loose i d (packed_buckets ?st) ?c1" and "res = Ok ()" using ws by simp_all
    moreover have "bt_wf (ch_buckets ?c1)" using assms(1) by simp
    note write_loose [OF this assms(5), of i]
    ultimately show ?thesis
      by (intro exI [of _ "ch_buckets c'"]) (simp add: write_buckets_loose_def Let_def)
  qed
  then obtain X where c': "c' = ?c1\<lparr>ch_buckets := X\<rparr>" and fr: "side_frame i d (ch_buckets c) X"
    and res: "res = Ok () \<or> strict_pda_lifecycle c \<and> res = Err (BucketSlotExhausted i d)"
    and wr: "res = Ok () \<longrightarrow> side_written i d ?st (ch_buckets c) X" by blast
  show "side_only i d c c'"
    unfolding side_only_def using fr assms(2) by (simp add: c' bt_get_put bt_wf_put)
  show "res = Ok () \<or> strict_pda_lifecycle c \<and> res = Err (BucketSlotExhausted i d)"
    by (rule res)
  show "holds i d ?st c'" if "res = Ok ()"
  proof (rule side_written_holds [OF assms(5)])
    show "slots_ok i d c'"
      using fr assms(3) unfolding slots_ok_def side_frame_def c' by simp
    show "side_written i d ?st (ch_buckets c) (ch_buckets c')" using wr that by (simp add: c')
    show "bt_get (ch_ledgers c') (i, d) = Some ?l" by (simp add: c' bt_get_put [OF assms(2)])
    show "la_ledger ?l = packed_ledger (max_distribution_ledger_size (ch_params c')) ?st"
      by (simp add: c')
  qed
qed

end
