(* ===== verification/Chain_Pools.thy ===== *)
theory Chain_Pools
  imports Chain_Bridge Book
begin

text \<open>
  What every engine operation keeps of a sub-pool so that its stores can be written to accounts
  and read back: \<open>pool_fits\<close> says the sub-pool is well formed and each store passes the checks of
  packing and unpacking, and each operation keeps it and the sub-pool's id. The locale
  \<open>kept_by_stores\<close>, interpreted as \<open>limits\<close>, carries the bounds through the engine; the check that
  ends every operation gives the rest.
\<close>

definition pool_fits :: "market_params \<Rightarrow> sub_pool \<Rightarrow> bool" where
  "pool_fits m sp \<longleftrightarrow> sub_pool_wf sp \<and> (\<forall>d. packable m d (dormant d sp))"

lemma pool_fitsD:
  assumes "pool_fits m sp"
  shows "sub_pool_wf sp" and "sides_ok sp" and "packable m d (dormant d sp)" and "within m (dormant d sp)"
  using assms sub_pool_wf_sides by (auto simp: pool_fits_def packable_def)

lemma pool_fitsI:
  assumes "sub_pool_wf sp" and "check_subpool_invariants sp = Ok ()" and "\<And>d. within m (dormant d sp)"
  shows "pool_fits m sp"
  using assms check_subpool_invariants_Ok(3) [OF assms(2)] sides_okD [OF sub_pool_wf_sides [OF assms(1)]]
  by (auto simp: pool_fits_def packable_def side_ok_def)

section \<open>The id of a sub-pool\<close>

lemma sub_pool_id_set [simp]:
  "sub_pool_id (set_pool_equity d v sp) = sub_pool_id sp"
  "sub_pool_id (set_active_shares d v sp) = sub_pool_id sp"
  "sub_pool_id (set_recovery_shares d v sp) = sub_pool_id sp"
  "sub_pool_id (set_active_notional d v sp) = sub_pool_id sp"
  "sub_pool_id (set_dust d v sp) = sub_pool_id sp"
  "sub_pool_id (set_dormant d st sp) = sub_pool_id sp"
  by (cases d; simp add: set_pool_equity_def set_active_shares_def set_recovery_shares_def
      set_active_notional_def set_dust_def set_dormant_def)+

lemma push_rotate_record_id: "push_rotate_record d r sp = Inr sp' \<Longrightarrow> sub_pool_id sp' = sub_pool_id sp"
  by (cases d) (auto simp: push_rotate_record_def)

lemma pay_recovery_id: "pay_recovery m p d a (sp, o1) = Inr (sp', o2) \<Longrightarrow> sub_pool_id sp' = sub_pool_id sp"
  by (auto simp: pay_recovery_def Let_def split: if_splits)

lemma settle_sides_id: "settle_sides m p demands sp = Inr (sp', o1) \<Longrightarrow> sub_pool_id sp' = sub_pool_id sp"
  by (auto simp: settle_sides_def settle_winner_def Let_def split: prod.splits if_splits dest: pay_recovery_id)

lemma rotate_if_empty_id:
  "rotate_if_empty m p slot d (sp, o1) = Inr (sp', o2) \<Longrightarrow> sub_pool_id sp' = sub_pool_id sp"
  by (auto simp: rotate_if_empty_def rotate_active_to_recovery_def Let_def split: if_splits
      dest: push_rotate_record_id)

lemma sync_pool_id:
  assumes "sync_pool m env sp = Inr (sp', out)"
  shows "sub_pool_id sp' = sub_pool_id sp"
proof (cases "last_price sp = 0 \<or> env_p_now env = last_price sp")
  case True
  with assms show ?thesis by (auto simp: sync_pool_def Let_def split: if_splits)
next
  case False
  with assms have "sync_move m env sp = Inr (sp', out)" by (auto simp: sync_pool_def)
  then obtain demands sp1 o1 o2 sp3 o3 where "settle_sides m (env_p_now env) demands sp = Inr (sp1, o1)"
    and "rotate_if_empty m (env_p_now env) (env_slot env) Long
          (sp1\<lparr>last_price := env_p_now env, last_sync_slot := env_slot env\<rparr>, o2) = Inr (sp3, o3)"
    and "rotate_if_empty m (env_p_now env) (env_slot env) Short (sp3, o3) = Inr (sp', out)"
    by (rule sync_move_Ok)
  from settle_sides_id [OF this(1)] rotate_if_empty_id [OF this(2)] rotate_if_empty_id [OF this(3)]
  show ?thesis by simp
qed

lemma burns_id:
  "burn_active sp pos = Inr (sp', pos', v) \<Longrightarrow> sub_pool_id sp' = sub_pool_id sp"
  "burn_recovery sp pos = Inr (sp', pos', tick, r) \<Longrightarrow> sub_pool_id sp' = sub_pool_id sp"
  "burn_recovery_if_any sp pos = Inr (sp', pos', r) \<Longrightarrow> sub_pool_id sp' = sub_pool_id sp"
  "burn_worthless sp pos = Inr (sp', pos', b, n) \<Longrightarrow> sub_pool_id sp' = sub_pool_id sp"
  "forfeit_recovery sp pos = Inr (sp', pos', r, f) \<Longrightarrow> sub_pool_id sp' = sub_pool_id sp"
  by (auto simp: burn_active_def burn_recovery_def burn_recovery_if_any_def burn_worthless_def
      forfeit_recovery_def Let_def split: if_splits)

section \<open>The operations\<close>

lemma sync_fits:
  assumes "pool_fits m sp" and "sync_pool m env sp = Inr (sp', out)" and "env_p_now env < 2 ^ 64"
  shows "pool_fits m sp'" and "sub_pool_id sp' = sub_pool_id sp"
proof -
  note f = pool_fitsD [OF assms(1)]
  show "pool_fits m sp'"
  proof (rule pool_fitsI)
    show "sub_pool_wf sp'" "check_subpool_invariants sp' = Ok ()"
      using sync_pool_wf [OF f(2) assms(2,3)] sync_pool_checked [OF assms(2)] by simp_all
    show "within m (dormant d sp')" for d
      using limits.sync_pool_keeps [OF f(2) assms(2,3) f(4)] .
  qed
  show "sub_pool_id sp' = sub_pool_id sp" using assms(2) by (rule sync_pool_id)
qed

lemma open_fits:
  assumes "pool_fits m sp" and "open_position m env d gross pid sp = Inr (sp', pos, out)"
    and "env_p_now env < 2 ^ 64"
  shows "pool_fits m sp'" and "sub_pool_id sp' = sub_pool_id sp"
proof -
  from assms(2) obtain sp1 synced where sync: "sync_pool m env sp = Inr (sp1, synced)"
    and keep: "\<And>e. dormant e sp' = dormant e sp1" "sub_pool_id sp' = sub_pool_id sp1"
    and chk: "check_subpool_invariants sp' = Inr ()"
    by (auto simp: open_position_def Let_def side_simps split: if_splits)
  have "sub_pool_wf sp'"
    using open_position_Ok [OF pool_fitsD(1) [OF assms(1)] assms(2,3)] by metis
  with chk keep(1) pool_fitsD(4) [OF sync_fits(1) [OF assms(1) sync assms(3)]] show "pool_fits m sp'"
    by (simp add: pool_fitsI)
  show "sub_pool_id sp' = sub_pool_id sp" using keep(2) sync_pool_id [OF sync] by simp
qed

lemma close_fits:
  assumes "pool_fits m sp" and "close_position m env sp pos = Inr (sp', pos', out)"
    and "env_p_now env < 2 ^ 64"
  shows "pool_fits m sp'" and "sub_pool_id sp' = sub_pool_id sp"
proof -
  from assms(2) obtain sp1 synced p1 sp2 p2 v p3 rc where sync: "sync_pool m env sp = Inr (sp1, synced)"
    and act: "burn_active sp1 p1 = Inr (sp2, p2, v)" and rec: "burn_recovery_if_any sp2 p2 = Inr (sp', p3, rc)"
    and chk: "check_subpool_invariants sp' = Inr ()"
    by (auto simp: close_position_def Let_def split: if_splits)
  note f = pool_fitsD [OF sync_fits(1) [OF assms(1) sync assms(3)]]
  have "within m (dormant d sp')" for d
    using limits.burn_recovery_if_any_keeps [OF burn_active_Ok(1) [OF f(2) act] rec] f(4)
    by (simp add: limits.burn_active_keeps [OF act])
  with chk close_position_Ok(1) [OF pool_fitsD(1) [OF assms(1)] assms(2,3)] show "pool_fits m sp'"
    by (simp add: pool_fitsI)
  show "sub_pool_id sp' = sub_pool_id sp"
    using sync_pool_id [OF sync] burns_id(1) [OF act] burns_id(3) [OF rec] by simp
qed

lemma force_close_fits:
  assumes "pool_fits m sp" and "force_close_zero_value_position m env ack sp pos = Inr (sp', pos', out)"
    and "env_p_now env < 2 ^ 64"
  shows "pool_fits m sp'" and "sub_pool_id sp' = sub_pool_id sp"
proof -
  from assms(2) obtain sp1 synced p1 sp2 p2 b n p3 rc fv where sync: "sync_pool m env sp = Inr (sp1, synced)"
    and act: "burn_worthless sp1 p1 = Inr (sp2, p2, b, n)" and rec: "forfeit_recovery sp2 p2 = Inr (sp', p3, rc, fv)"
    and chk: "check_subpool_invariants sp' = Inr ()"
    by (auto simp: force_close_zero_value_position_def Let_def split: if_splits)
  note f = pool_fitsD [OF sync_fits(1) [OF assms(1) sync assms(3)]]
  have "within m (dormant d sp')" for d
    using limits.forfeit_recovery_keeps [OF burn_worthless_Ok(1) [OF f(2) act] rec] f(4)
    by (simp add: limits.burn_worthless_keeps [OF act])
  with chk force_close_Ok(1) [OF pool_fitsD(1) [OF assms(1)] assms(2,3)] show "pool_fits m sp'"
    by (simp add: pool_fitsI)
  show "sub_pool_id sp' = sub_pool_id sp"
    using sync_pool_id [OF sync] burns_id(4) [OF act] burns_id(5) [OF rec] by simp
qed

lemma claim_fits:
  assumes "pool_fits m sp" and "claim_dormant_recovery m env sp pos = Inr (sp', pos', out)"
    and "env_p_now env < 2 ^ 64"
  shows "pool_fits m sp'" and "sub_pool_id sp' = sub_pool_id sp"
proof -
  from assms(2) obtain sp1 synced p1 p2 t rc where sync: "sync_pool m env sp = Inr (sp1, synced)"
    and rec: "burn_recovery sp1 p1 = Inr (sp', p2, t, rc)" and chk: "check_subpool_invariants sp' = Inr ()"
    by (auto simp: claim_dormant_recovery_def Let_def split: if_splits)
  note f = pool_fitsD [OF sync_fits(1) [OF assms(1) sync assms(3)]]
  have "within m (dormant d sp')" for d using limits.burn_recovery_keeps [OF f(2) rec f(4)] .
  with chk claim_Ok(1) [OF pool_fitsD(1) [OF assms(1)] assms(2,3)] show "pool_fits m sp'"
    by (simp add: pool_fitsI)
  show "sub_pool_id sp' = sub_pool_id sp" using sync_pool_id [OF sync] burns_id(2) [OF rec] by simp
qed

lemma harvest_fits:
  assumes "pool_fits m sp" and "harvest_dust m d sp = Inr (sp', out)"
  shows "pool_fits m sp'" and "sub_pool_id sp' = sub_pool_id sp"
proof -
  have sp': "sp' = set_dust d 0 sp" and chk: "check_subpool_invariants sp' = Inr ()"
    using assms(2) by (auto simp: harvest_dust_def Let_def split: if_splits)
  show "sub_pool_id sp' = sub_pool_id sp" by (simp add: sp')
  show "pool_fits m sp'"
    using chk harvest_dust_Ok(1) [OF pool_fitsD(1) [OF assms(1)] assms(2)] pool_fitsD(4) [OF assms(1)]
    by (intro pool_fitsI) (simp_all add: sp' side_simps)
qed

lemma pre_sync_fits:
  assumes "pool_fits m sp" and "pre_sync_dormant_bucket m d tick slot sp = Inr (sp', out)"
  shows "pool_fits m sp'" and "sub_pool_id sp' = sub_pool_id sp"
proof -
  from assms(2) obtain st n where ap: "apply_pending_to_bucket tick (dormant d sp) = Inr (st, n)"
    and sp': "sp' = set_dormant d st sp" and chk: "check_subpool_invariants sp' = Inr ()"
    by (auto simp: pre_sync_dormant_bucket_def Let_def split: if_splits)
  note f = pool_fitsD [OF assms(1)]
  show "sub_pool_id sp' = sub_pool_id sp" by (simp add: sp')
  have "within m st" using limits.applies [OF sides_ok_store [OF f(2)] f(4) ap] .
  with f(4) have "within m (dormant e sp')" for e by (simp add: sp' side_simps)
  with chk pre_sync_Ok(1) [OF f(1) assms(2)] show "pool_fits m sp'" by (simp add: pool_fitsI)
qed

lemma new_sub_pool_fits:
  assumes "max_dormant_bucket_count_per_direction m < 2 ^ 32" and "max_distribution_ledger_size m < 2 ^ 32"
  shows "pool_fits m (new_sub_pool i price slot)"
proof (rule pool_fitsI)
  have d: "dormant d (new_sub_pool i price slot) = new_store d" for d
    by (cases d) (simp_all add: dormant_def new_sub_pool_def)
  show "sub_pool_wf (new_sub_pool i price slot)" by (rule new_sub_pool_wf)
  show "check_subpool_invariants (new_sub_pool i price slot) = Ok ()"
    by (simp add: new_sub_pool_def new_store_def bt_empty_def check_subpool_invariants_def
        inv2_active_shares_zero_iff_pool_zero_def inv2_active_shares_zero_iff_pool_zero_short_def
        inv4_active_notional_nonneg_def inv5_recovery_shares_match_buckets_def
        inv6_dormant_ledger_consistency_def total_shares_of_def check_store_invariants_def
        check_bucket_indices_def sum_allocated_def)
  show "within m (dormant d (new_sub_pool i price slot))" for d
    using assms by (simp add: d within_def new_store_def bt_empty_def live_buckets_def)
qed

end
