(* ===== verification/Chain_Core.thy ===== *)
theory Chain_Core
  imports Chain_Pools
begin

text \<open>
  Whole sub-pools in their accounts: \<open>represents\<close> says that the accounts of a sub-pool stand for
  an engine sub-pool. Reading gives that sub-pool back; a write-back represents what was
  written, touches nothing of the other sub-pools, and can only fail for want of a bucket slot;
  restoring a snapshot undoes whatever was done to the sub-pool's accounts.
\<close>

section \<open>Runtimes that differ in the accounts of one sub-pool\<close>

definition runtime_ok :: "chain_runtime \<Rightarrow> bool" where
  "runtime_ok c \<longleftrightarrow> bt_wf (ch_sub_pools c) \<and> bt_wf (ch_buckets c) \<and> bt_wf (ch_ledgers c)
     \<and> bt_wf (ch_positions c)"

definition pool_frame :: "u32 \<Rightarrow> chain_runtime \<Rightarrow> chain_runtime \<Rightarrow> bool" where
  "pool_frame i c c' \<longleftrightarrow> bt_wf (ch_sub_pools c') \<and> bt_wf (ch_buckets c') \<and> bt_wf (ch_ledgers c')
     \<and> (\<forall>j. j \<noteq> i \<longrightarrow> bt_get (ch_sub_pools c') j = bt_get (ch_sub_pools c) j)
     \<and> (\<forall>key. fst key \<noteq> i \<longrightarrow> bt_get (ch_buckets c') key = bt_get (ch_buckets c) key)
     \<and> (\<forall>key. fst key \<noteq> i \<longrightarrow> bt_get (ch_ledgers c') key = bt_get (ch_ledgers c) key)"

text \<open>Everything but the accounts of sub-pools.\<close>

definition same_rest :: "chain_runtime \<Rightarrow> chain_runtime \<Rightarrow> bool" where
  "same_rest c c' \<longleftrightarrow> c' = c\<lparr>ch_sub_pools := ch_sub_pools c', ch_buckets := ch_buckets c',
     ch_ledgers := ch_ledgers c'\<rparr>"

lemma same_rest_fields:
  assumes "same_rest c c'"
  shows "ch_params c' = ch_params c" and "ch_positions c' = ch_positions c"
    and "strict_pda_lifecycle c' = strict_pda_lifecycle c" and "ch_vault_balance c' = ch_vault_balance c"
    and "ch_fee_vault_balance c' = ch_fee_vault_balance c" and "ch_total_deposits c' = ch_total_deposits c"
    and "ch_total_withdrawals c' = ch_total_withdrawals c"
    and "ch_next_position_id c' = ch_next_position_id c"
  using assms by (cases c; cases c'; simp add: same_rest_def)+

lemma side_only_rest: "side_only i d c c' \<Longrightarrow> same_rest c c'"
  by (cases c; cases c') (simp add: side_only_def same_rest_def)

lemma side_only_frame:
  assumes "side_only i d c c'" and "bt_wf (ch_sub_pools c)"
  shows "pool_frame i c c'" and "ch_sub_pools c' = ch_sub_pools c"
proof -
  show sub: "ch_sub_pools c' = ch_sub_pools c"
    using assms(1) by (cases c; cases c') (simp add: side_only_def)
  show "pool_frame i c c'"
    using assms by (auto simp: pool_frame_def side_only_def side_frame_def of_side_def sub)
qed

lemma same_rest_trans: "same_rest c c1 \<Longrightarrow> same_rest c1 c2 \<Longrightarrow> same_rest c c2"
  by (cases c; cases c1; cases c2) (simp add: same_rest_def)

lemma pool_frame_trans: "pool_frame i c c1 \<Longrightarrow> pool_frame i c1 c2 \<Longrightarrow> pool_frame i c c2"
  unfolding pool_frame_def by (intro conjI allI impI; elim conjE) (assumption | metis)+

section \<open>Snapshot and restore\<close>

lemma fold_put_pairs_get:
  assumes "bt_wf m" and "bt_wf kvs"
  shows "bt_get (fold (\<lambda>(k, v). bt_put k v) kvs m) k
      = (case bt_get kvs k of None \<Rightarrow> bt_get m k | Some v \<Rightarrow> Some v)"
    and "bt_wf (fold (\<lambda>(k, v). bt_put k v) kvs m)"
proof -
  have "bt_wf (fold (\<lambda>(k, v). bt_put k v) kvs m) \<and> bt_get (fold (\<lambda>(k, v). bt_put k v) kvs m) k
      = (case bt_get kvs k of None \<Rightarrow> bt_get m k | Some v \<Rightarrow> Some v)"
    using assms
  proof (induction kvs arbitrary: m)
    case (Cons kv kvs)
    obtain j v where kv: "kv = (j, v)" by (cases kv)
    then have "bt_get kvs j = None" using Cons.prems(2) by (auto simp: bt_get_None_iff)
    with Cons kv show ?case by (auto simp: bt_wf_put bt_get_put split: option.splits)
  qed simp
  then show "bt_get (fold (\<lambda>(k, v). bt_put k v) kvs m) k
      = (case bt_get kvs k of None \<Rightarrow> bt_get m k | Some v \<Rightarrow> Some v)"
    "bt_wf (fold (\<lambda>(k, v). bt_put k v) kvs m)" by simp_all
qed

lemma restore_exact:
  assumes "runtime_ok c" and "snapshot_sub_pool i c = Ok snap" and "sa_sub_pool_id (ss_sub_pool snap) = i"
    and "pool_frame i c c'"
  shows "restore_sub_pool snap c' = c'\<lparr>ch_sub_pools := ch_sub_pools c, ch_buckets := ch_buckets c,
           ch_ledgers := ch_ledgers c\<rparr>"
proof -
  note ok = assms(1) [unfolded runtime_ok_def]
  note fr = assms(4) [unfolded pool_frame_def]
  from assms(2) obtain longs shorts sp where longs: "bt_get (ch_ledgers c) (i, Long) = Some longs"
    and shorts: "bt_get (ch_ledgers c) (i, Short) = Some shorts" and sp: "bt_get (ch_sub_pools c) i = Some sp"
    and snap: "snap = \<lparr>ss_sub_pool = sp, ss_buckets = filter (\<lambda>(key, acc). fst key = i) (ch_buckets c),
        ss_ledgers = [((i, Long), longs), ((i, Short), shorts)]\<rparr>"
    by (auto simp: snapshot_sub_pool_def)
  have id: "sa_sub_pool_id sp = i" using assms(3) by (simp add: snap)
  let ?rest = "filter (\<lambda>(key, acc). fst key \<noteq> i) (ch_buckets c')"
  let ?mine = "filter (\<lambda>(key, acc). fst key = i) (ch_buckets c)"
  have b: "fold (\<lambda>(k, v). bt_put k v) ?mine ?rest = ch_buckets c"
  proof (rule bt_ext)
    have wf: "bt_wf ?rest" "bt_wf ?mine" using ok fr by (simp_all add: bt_wf_filter)
    show "bt_wf (fold (\<lambda>(k, v). bt_put k v) ?mine ?rest)" using wf by (rule fold_put_pairs_get)
    show "bt_wf (ch_buckets c)" using ok by simp
    show "bt_get (fold (\<lambda>(k, v). bt_put k v) ?mine ?rest) = bt_get (ch_buckets c)"
    proof
      fix key
      show "bt_get (fold (\<lambda>(k, v). bt_put k v) ?mine ?rest) key = bt_get (ch_buckets c) key"
        using ok fr by (cases key) (auto simp: fold_put_pairs_get(1) [OF wf] bt_get_filter split: option.splits)
    qed
  qed
  have l: "bt_put (i, Short) shorts (bt_put (i, Long) longs (ch_ledgers c')) = ch_ledgers c"
  proof (rule bt_ext)
    show "bt_wf (bt_put (i, Short) shorts (bt_put (i, Long) longs (ch_ledgers c')))"
      using fr by (simp add: bt_wf_put)
    show "bt_wf (ch_ledgers c)" using ok by simp
    have "bt_get (ch_ledgers c') key = bt_get (ch_ledgers c) key" if "key \<noteq> (i, Long)" "key \<noteq> (i, Short)" for key
    proof -
      have "fst key \<noteq> i" using that by (cases key; cases "snd key") auto
      with fr show ?thesis by (cases key) simp
    qed
    then show "bt_get (bt_put (i, Short) shorts (bt_put (i, Long) longs (ch_ledgers c'))) = bt_get (ch_ledgers c)"
      using fr longs shorts by (auto simp: fun_eq_iff bt_get_put bt_wf_put)
  qed
  have s: "bt_put i sp (ch_sub_pools c') = ch_sub_pools c"
  proof (rule bt_ext)
    show "bt_wf (bt_put i sp (ch_sub_pools c'))" "bt_wf (ch_sub_pools c)" using fr ok by (simp_all add: bt_wf_put)
    show "bt_get (bt_put i sp (ch_sub_pools c')) = bt_get (ch_sub_pools c)"
      using fr sp by (auto simp: fun_eq_iff bt_get_put)
  qed
  show ?thesis by (simp add: restore_sub_pool_def snap id b l s Let_def)
qed

section \<open>Representation\<close>

definition represents :: "u32 \<Rightarrow> sub_pool \<Rightarrow> chain_runtime \<Rightarrow> bool" where
  "represents i sp c \<longleftrightarrow> sub_pool_id sp = i
     \<and> (\<exists>sa. bt_get (ch_sub_pools c) i = Some sa \<and> sa_sub_pool_id sa = i \<and> write_scalars sp sa = sa)
     \<and> (\<forall>d. holds i d (dormant d sp) c)"

lemma rotate_records_back [simp]: "map (to_rotate_record \<circ> of_rotate_record) rs = rs"
  by (induction rs) (simp_all add: to_rotate_record_def of_rotate_record_def)

lemma build_represents:
  assumes "runtime_ok c" and "represents i sp c" and "pool_fits (ch_params c) sp"
  shows "build_core_sub_pool i c = Ok sp"
proof -
  from assms(2) obtain sa where sa: "bt_get (ch_sub_pools c) i = Some sa" "sa_sub_pool_id sa = i"
    "write_scalars sp sa = sa" and id: "sub_pool_id sp = i" by (auto simp: represents_def)
  have "unpack_dormant c i d = Ok (dormant d sp)" for d
    using unpack_holds assms pool_fitsD(3) [OF assms(3)] by (simp add: represents_def runtime_ok_def)
  from this [of Long] this [of Short] show ?thesis
    using sa id by (cases sp; cases sa)
      (auto simp: build_core_sub_pool_def dormant_def Let_def write_scalars_def new_sub_pool_def
        rotate_records_back)
qed

section \<open>Writing\<close>

lemma holds_cong:
  assumes "\<And>t. bt_get (ch_buckets c') (j, e, t) = bt_get (ch_buckets c) (j, e, t)"
    and "bt_get (ch_ledgers c') (j, e) = bt_get (ch_ledgers c) (j, e)" and "ch_params c' = ch_params c"
  shows "holds j e st c' = holds j e st c"
  using assms by (simp add: holds_def slots_ok_def live_record_def)

lemma represents_frame:
  assumes "represents j sp c" and "j \<noteq> i" and "pool_frame i c c'" and "same_rest c c'"
  shows "represents j sp c'"
proof -
  have "holds j d st c' = holds j d st c" for d st
    using assms(2,3) same_rest_fields(1) [OF assms(4)] by (intro holds_cong) (simp_all add: pool_frame_def)
  with assms(1-3) show ?thesis by (simp add: represents_def pool_frame_def)
qed

lemma holds_other_side:
  assumes "side_only i d c c'"
  shows "holds i (opposite d) st c' = holds i (opposite d) st c"
    and "slots_ok i (opposite d) c' = slots_ok i (opposite d) c"
    and "bt_get (ch_ledgers c') (i, opposite d) = bt_get (ch_ledgers c) (i, opposite d)"
proof -
  have b: "bt_get (ch_buckets c') (i, opposite d, t) = bt_get (ch_buckets c) (i, opposite d, t)" for t
    using assms by (simp add: side_only_def side_frame_def of_side_def)
  show l: "bt_get (ch_ledgers c') (i, opposite d) = bt_get (ch_ledgers c) (i, opposite d)"
    using assms by (simp add: side_only_def)
  show "slots_ok i (opposite d) c' = slots_ok i (opposite d) c" using b by (simp add: slots_ok_def)
  show "holds i (opposite d) st c' = holds i (opposite d) st c"
    using b l same_rest_fields(1) [OF side_only_rest [OF assms]] by (rule holds_cong)
qed

lemma represents_slots: "represents i sp c \<Longrightarrow> slots_ok i d c"
  by (simp add: represents_def holds_def)

lemma represents_ledger: "represents i sp c \<Longrightarrow> bt_get (ch_ledgers c) (i, d) \<noteq> None"
  by (auto simp: represents_def holds_def)

lemma write_scalars_idem [simp]: "write_scalars q (write_scalars q sa) = write_scalars q sa"
  by (simp add: write_scalars_def)

lemma write_scalars_id [simp]: "sa_sub_pool_id (write_scalars q sa) = sa_sub_pool_id sa"
  by (simp add: write_scalars_def)

lemma write_core_cases:
  assumes "runtime_ok c" and "represents i sp c" and "pool_fits (ch_params c) q" and "sub_pool_id q = i"
    and "write_core_sub_pool i q c = (c', res)"
  shows "same_rest c c'" and "pool_frame i c c'"
    and "res = Ok () \<or> strict_pda_lifecycle c \<and> (\<exists>d. res = Err (BucketSlotExhausted i d))"
    and "res = Ok () \<Longrightarrow> represents i q c'"
proof -
  note wf = assms(1) [unfolded runtime_ok_def]
  obtain c1 r1 where w1: "write_side i q Long c = (c1, r1)" by (metis prod.exhaust)
  obtain c2 r2 where w2: "write_side i q Short c1 = (c2, r2)" by (metis prod.exhaust)
  note one = write_side_cases [OF _ _ represents_slots [OF assms(2)] represents_ledger [OF assms(2)]
      pool_fitsD(3) [OF assms(3)] w1]
  have one': "side_only i Long c c1" "r1 = Ok () \<or> strict_pda_lifecycle c \<and> r1 = Err (BucketSlotExhausted i Long)"
    "r1 = Ok () \<Longrightarrow> holds i Long (dormant Long q) c1"
    using one wf by blast+
  note so1 = one'(1) and rest1 = side_only_rest [OF one'(1)]
  have f1: "pool_frame i c c1" and sub1: "ch_sub_pools c1 = ch_sub_pools c"
    using side_only_frame [OF so1] wf by blast+
  have "same_rest c c' \<and> pool_frame i c c'
    \<and> (res = Ok () \<or> strict_pda_lifecycle c \<and> (\<exists>d. res = Err (BucketSlotExhausted i d)))
    \<and> (res = Ok () \<longrightarrow> represents i q c')"
  proof (cases "r1 = Ok ()")
    case False
    then have "c' = c1" "res = Err (BucketSlotExhausted i Long)" and "strict_pda_lifecycle c"
      using one'(2) assms(5) w1 by (auto simp: write_core_sub_pool_def)
    with rest1 f1 show ?thesis by auto
  next
    case True
    note other = holds_other_side [OF so1, simplified]
    have wf1: "bt_wf (ch_buckets c1)" "bt_wf (ch_ledgers c1)" "bt_wf (ch_sub_pools c1)"
      using f1 by (simp_all add: pool_frame_def)
    have pre: "slots_ok i Short c1" "bt_get (ch_ledgers c1) (i, Short) \<noteq> None"
        "packable (ch_params c1) Short (dormant Short q)"
      using represents_slots [OF assms(2)] represents_ledger [OF assms(2)] pool_fitsD(3) [OF assms(3)]
      by (simp_all add: other same_rest_fields(1) [OF rest1])
    note two = write_side_cases [OF wf1(1,2) pre w2]
    note so2 = two(1) and rest2 = same_rest_trans [OF rest1 side_only_rest [OF two(1)]]
    have f2: "pool_frame i c c2" and sub2: "ch_sub_pools c2 = ch_sub_pools c"
      using pool_frame_trans [OF f1] side_only_frame [OF so2 wf1(3)] sub1 by simp_all
    have strict: "strict_pda_lifecycle c1 = strict_pda_lifecycle c"
      using same_rest_fields(3) [OF rest1] .
    show ?thesis
    proof (cases "r2 = Ok ()")
      case False
      with True two(2) assms(5) w1 w2 strict have "c' = c2" "res = Err (BucketSlotExhausted i Short)"
        "strict_pda_lifecycle c" by (auto simp: write_core_sub_pool_def)
      with rest2 f2 show ?thesis by auto
    next
      case done2: True
      from assms(2) obtain sa where sa: "bt_get (ch_sub_pools c) i = Some sa" "sa_sub_pool_id sa = i"
        by (auto simp: represents_def)
      have c': "c' = c2\<lparr>ch_sub_pools := bt_put i (write_scalars q sa) (ch_sub_pools c)\<rparr>" and res: "res = Ok ()"
        using True done2 assms(5) w1 w2 sa(1) sub2 by (simp_all add: write_core_sub_pool_def)
      have "holds i Long (dormant Long q) c2"
        using one'(3) [OF True] holds_other_side(1) [OF so2] by simp
      with two(3) [OF done2] have "holds i d (dormant d q) c2" for d by (cases d) simp_all
      then have "holds i d (dormant d q) c'" for d
        using holds_cong [where c = c2 and c' = c'] by (simp add: c')
      then have "represents i q c'"
        using assms(4) sa(2) wf by (simp add: represents_def c' bt_get_put)
      moreover have "same_rest c c'" using rest2 unfolding c' by (cases c; cases c2) (simp add: same_rest_def)
      moreover have "pool_frame i c c'" using f2 wf by (simp add: c' pool_frame_def bt_wf_put bt_get_put)
      ultimately show ?thesis using res by blast
    qed
  qed
  then show "same_rest c c'" "pool_frame i c c'"
    "res = Ok () \<or> strict_pda_lifecycle c \<and> (\<exists>d. res = Err (BucketSlotExhausted i d))"
    "res = Ok () \<Longrightarrow> represents i q c'" by blast+
qed

end
