(* ===== verification/Chain_Parity.thy ===== *)
theory Chain_Parity
  imports Chain_Core System_Properties
begin

text \<open>
  The account runtime against the in-memory harness: \<open>mirrors h c\<close> says that the accounts of \<open>c\<close>
  represent the sub-pools of \<open>h\<close> and that positions, counters and vaults are the same. Every
  instruction of the runtime takes mirroring states to mirroring states with the same outcome;
  in the strict lifecycle it may also fail for want of a bucket account.
\<close>

section \<open>An engine call between read and write-back\<close>

lemma represents_update [simp]:
  "represents i sp (c\<lparr>ch_positions := ps\<rparr>) = represents i sp c"
  "represents i sp (c\<lparr>ch_vault_balance := v\<rparr>) = represents i sp c"
  "represents i sp (c\<lparr>ch_fee_vault_balance := v\<rparr>) = represents i sp c"
  "represents i sp (c\<lparr>ch_total_deposits := v\<rparr>) = represents i sp c"
  "represents i sp (c\<lparr>ch_total_withdrawals := v\<rparr>) = represents i sp c"
  "represents i sp (c\<lparr>ch_next_position_id := n\<rparr>) = represents i sp c"
  by (simp_all add: represents_def holds_def slots_ok_def live_record_def)

lemma snapshot_represents:
  assumes "represents i sp c"
  obtains snap where "snapshot_sub_pool i c = Ok snap" and "sa_sub_pool_id (ss_sub_pool snap) = i"
  using assms represents_ledger [OF assms, of Long] represents_ledger [OF assms, of Short]
  by (auto simp: represents_def snapshot_sub_pool_def)

lemma needing_simps [simp]: "needing (Ok x) c k = k x" "needing (Inl f) c k = (c, Inl f)"
  by (simp_all add: needing_def)

lemma run_engine_simps [simp]:
  "run_engine (Inr x) c undo k = k x"
  "run_engine (Inl (Failed e)) c undo k = (undo c, Err (MirrorClearing e))"
  "run_engine (Inl (Panicked msg)) c undo k = (undo c, Panic msg)"
  by (simp_all add: run_engine_def)

text \<open>
  From a runtime \<open>c\<close> that represents a sub-pool, the call is refused and undone, finds no slot
  and is undone, or goes on with the sub-pool written.
\<close>

lemma engine_call_cases:
  assumes "run_engine m c undo (\<lambda>x. write_or_undo i (fst x) c undo (k x)) = (c', r)"
    and "runtime_ok c" and "represents i sp c"
    and fits: "\<forall>q y. m = Inr (q, y) \<longrightarrow> pool_fits (ch_params c) q \<and> sub_pool_id q = i"
    and undo: "\<forall>c1. pool_frame i c c1 \<longrightarrow> same_rest c c1 \<longrightarrow> undo c1 = c0"
  obtains (refused) e where "m = Inl (Failed e)" and "c' = c0" and "r = Err (MirrorClearing e)"
  | (aborted) msg where "m = Inl (Panicked msg)"
  | (no_slot) d q y where "m = Inr (q, y)" and "strict_pda_lifecycle c" and "c' = c0"
      and "r = Err (BucketSlotExhausted i d)"
  | (written) q y c1 where "m = Inr (q, y)" and "same_rest c c1" and "pool_frame i c c1"
      and "represents i q c1" and "k (q, y) c1 = (c', r)"
proof (cases m)
  case (Inl f)
  have "pool_frame i c c" "same_rest c c"
    using assms(2) by (simp_all add: pool_frame_def runtime_ok_def same_rest_def)
  with undo Inl assms(1) that(1,2) show ?thesis by (cases f) auto
next
  case (Inr x)
  obtain q y where x: "x = (q, y)" by (cases x)
  obtain c1 res where w: "write_core_sub_pool i q c = (c1, res)" by (metis prod.exhaust)
  have q: "pool_fits (ch_params c) q" "sub_pool_id q = i" using fits Inr x by simp_all
  note wr = write_core_cases [OF assms(2,3) q w]
  have "(case res of Inl f \<Rightarrow> (undo c1, Inl f) | Inr _ \<Rightarrow> k (q, y) c1) = (c', r)"
    using assms(1) w by (auto simp: Inr x write_or_undo_def split: sum.splits)
  with wr undo [rule_format, of c1] that(3,4) Inr x show ?thesis
    by (auto split: sum.splits)
qed

section \<open>Mirroring\<close>

definition pools_mirrored :: "market_params \<Rightarrow> (u32, sub_pool) btree \<Rightarrow> chain_runtime \<Rightarrow> bool" where
  "pools_mirrored m pools c \<longleftrightarrow> ch_params c = m
     \<and> max_dormant_bucket_count_per_direction m < 2 ^ 32 \<and> max_distribution_ledger_size m < 2 ^ 32
     \<and> (\<forall>i. bt_get pools i = None \<longrightarrow> bt_get (ch_sub_pools c) i = None)
     \<and> (\<forall>i sp. bt_get pools i = Some sp \<longrightarrow> represents i sp c \<and> pool_fits m sp)
     \<and> (\<forall>key. bt_get (ch_buckets c) key \<noteq> None \<longrightarrow> bt_get pools (fst key) \<noteq> None)"

definition account_of :: "position \<Rightarrow> position_account" where
  "account_of p = \<lparr>pa_sub_pool_id = pos_sub_pool_id p, pa_position = p\<rparr>"

definition cash_mirrored :: "harness \<Rightarrow> chain_runtime \<Rightarrow> bool" where
  "cash_mirrored h c \<longleftrightarrow> ch_next_position_id c = next_position_id h
     \<and> ch_vault_balance c = vault_balance h \<and> ch_fee_vault_balance c = fee_vault_balance h
     \<and> ch_total_deposits c = total_deposits h \<and> ch_total_withdrawals c = total_withdrawals h"

definition mirrors :: "harness \<Rightarrow> chain_runtime \<Rightarrow> bool" where
  "mirrors h c \<longleftrightarrow> runtime_ok c \<and> pools_mirrored (h_market h) (sub_pools h) c
     \<and> (\<forall>pid. bt_get (ch_positions c) pid = map_option account_of (bt_get (positions h) pid))
     \<and> cash_mirrored h c"

lemma mirrorsD:
  assumes "mirrors h c"
  shows "runtime_ok c" and "ch_params c = h_market h"
    and "bt_get (sub_pools h) i = Some sp \<Longrightarrow> represents i sp c"
    and "bt_get (sub_pools h) i = Some sp \<Longrightarrow> pool_fits (h_market h) sp"
    and "bt_get (ch_positions c) pid = map_option account_of (bt_get (positions h) pid)"
    and "cash_mirrored h c" and "pools_mirrored (h_market h) (sub_pools h) c"
  using assms by (auto simp: mirrors_def pools_mirrored_def)

lemma mirrors_buckets_known:
  "mirrors h c \<Longrightarrow> bt_get (ch_buckets c) key \<noteq> None \<Longrightarrow> bt_get (sub_pools h) (fst key) \<noteq> None"
  unfolding mirrors_def pools_mirrored_def by blast

lemma pools_mirrored_put:
  assumes "pools_mirrored m pools c" and "bt_wf pools" and "bt_get pools i \<noteq> None"
    and "represents i q c'" and "pool_fits m q" and "pool_frame i c c'" and "same_rest c c'"
  shows "pools_mirrored m (bt_put i q pools) c'"
  using assms same_rest_fields(1) [OF assms(7)]
  by (auto simp: pools_mirrored_def bt_get_put pool_frame_def intro: represents_frame [OF _ _ assms(6,7)])

lemma same_rest_ok:
  "runtime_ok c \<Longrightarrow> pool_frame i c c' \<Longrightarrow> same_rest c c' \<Longrightarrow> runtime_ok c'"
  by (simp add: runtime_ok_def pool_frame_def same_rest_fields)

lemma pools_mirrored_update [simp]:
  "pools_mirrored m pools (c\<lparr>ch_positions := ps\<rparr>) = pools_mirrored m pools c"
  "pools_mirrored m pools (c\<lparr>ch_vault_balance := v\<rparr>) = pools_mirrored m pools c"
  "pools_mirrored m pools (c\<lparr>ch_fee_vault_balance := v\<rparr>) = pools_mirrored m pools c"
  "pools_mirrored m pools (c\<lparr>ch_total_deposits := v\<rparr>) = pools_mirrored m pools c"
  "pools_mirrored m pools (c\<lparr>ch_total_withdrawals := v\<rparr>) = pools_mirrored m pools c"
  "pools_mirrored m pools (c\<lparr>ch_next_position_id := n\<rparr>) = pools_mirrored m pools c"
  by (simp_all add: pools_mirrored_def)

lemma runtime_ok_update [simp]:
  "runtime_ok (c\<lparr>ch_vault_balance := v\<rparr>) = runtime_ok c"
  "runtime_ok (c\<lparr>ch_fee_vault_balance := v\<rparr>) = runtime_ok c"
  "runtime_ok (c\<lparr>ch_total_deposits := v\<rparr>) = runtime_ok c"
  "runtime_ok (c\<lparr>ch_total_withdrawals := v\<rparr>) = runtime_ok c"
  "runtime_ok (c\<lparr>ch_next_position_id := n\<rparr>) = runtime_ok c"
  "runtime_ok (c\<lparr>ch_positions := ps\<rparr>) \<longleftrightarrow> bt_wf (ch_sub_pools c) \<and> bt_wf (ch_buckets c)
     \<and> bt_wf (ch_ledgers c) \<and> bt_wf ps"
  by (simp_all add: runtime_ok_def)

lemma mirrors_indexer [simp]: "mirrors (h\<lparr>h_indexer := ix\<rparr>) c = mirrors h c"
  by (simp add: mirrors_def cash_mirrored_def)

section \<open>Agreement of outcomes\<close>

text \<open>The refusals: errors of the engine and unknown positions.\<close>

definition refusal :: "harness_error \<Rightarrow> mirror_error \<Rightarrow> bool" where
  "refusal e e' \<longleftrightarrow> (\<exists>ce. e = Clearing ce
       \<and> (e' = MirrorClearing ce \<or> (\<exists>i d t. e' = BucketNotInitialized i d t)))
     \<or> (\<exists>pid. e = PositionNotFound pid \<and> e' = MirrorPositionNotFound pid)"

definition refuses :: "harness_error \<Rightarrow> bool" where
  "refuses e \<longleftrightarrow> (\<exists>e'. refusal e e')"

lemma refuses_simps [simp]: "refuses (Clearing ce)" "refuses (PositionNotFound pid)"
    "\<not> refuses (IndexerFailed ie)" "\<not> refuses (HarnessInvariant msg)"
  by (auto simp: refuses_def refusal_def)

definition agree ::
  "harness \<Rightarrow> chain_runtime \<Rightarrow> harness \<times> 'a harnessed \<Rightarrow> chain_runtime \<times> 'b mirrored \<Rightarrow> bool" where
  "agree h c hr cr \<longleftrightarrow>
     (case snd hr of
        Inl (Panicked s) \<Rightarrow> True
      | Inl (Failed e) \<Rightarrow> (if refuses e then fst hr = h \<and> fst cr = c \<and> (\<exists>e'. snd cr = Err e' \<and> refusal e e')
                          else (\<exists>y. snd cr = Ok y) \<and> mirrors (fst hr) (fst cr))
      | Inr x \<Rightarrow> (\<exists>y. snd cr = Ok y) \<and> mirrors (fst hr) (fst cr))"

definition no_slot :: "chain_runtime \<times> 'b mirrored \<Rightarrow> bool" where
  "no_slot cr \<longleftrightarrow> (\<exists>i d. snd cr = Err (BucketSlotExhausted i d))"

lemma agree_simps [simp]:
  "agree h c (h', Inr x) cr \<longleftrightarrow> (\<exists>y. snd cr = Ok y) \<and> mirrors h' (fst cr)"
  "agree h c (h', Inl (Panicked msg)) cr"
  "agree h c (h', Inl (Failed (Clearing ce))) cr \<longleftrightarrow> h' = h \<and> fst cr = c
     \<and> (\<exists>e'. snd cr = Err e' \<and> refusal (Clearing ce) e')"
  "agree h c (h', Inl (Failed (PositionNotFound pid))) cr \<longleftrightarrow> h' = h \<and> fst cr = c
     \<and> (\<exists>e'. snd cr = Err e' \<and> refusal (PositionNotFound pid) e')"
  "agree h c (h', Inl (Failed (IndexerFailed ie))) cr \<longleftrightarrow> (\<exists>y. snd cr = Ok y) \<and> mirrors h' (fst cr)"
  by (simp_all add: agree_def)

lemma agree_feed_indexer:
  assumes "mirrors h1 c1"
  shows "agree h c (feed_indexer evs x h1) (c1, Ok y)"
proof -
  obtain ix r where "apply_all evs (h_indexer h1) = (ix, r)" by fastforce
  then have f: "feed_indexer evs x h1 = (h1\<lparr>h_indexer := ix\<rparr>, and_then (map_err IndexerFailed r) (\<lambda>_. Ok x))"
    by (simp add: feed_indexer_def)
  show ?thesis
  proof (cases r)
    case (Inl e)
    then show ?thesis using assms by (cases e) (simp_all add: f)
  next
    case (Inr u)
    then show ?thesis using assms by (simp add: f)
  qed
qed

lemma lift_clearing_simps [simp]:
  "lift_clearing (Inr x) = Inr x" "lift_clearing (Inl (Failed e)) = Inl (Failed (Clearing e))"
  "lift_clearing (Inl (Panicked msg)) = Inl (Panicked msg)"
  by (simp_all add: lift_clearing_def)

lemma with_result_simps [simp]:
  "with_result (Inr x) h k = k x" "with_result (Inl f) h k = (h, Inl f)"
  by (simp_all add: with_result_def)

lemma refusal_Clearing [simp]: "refusal (Clearing ce) (MirrorClearing ce')  \<longleftrightarrow> ce' = ce"
  "refusal (Clearing ce) (BucketNotInitialized i d t)" "refusal (PositionNotFound p) (MirrorPositionNotFound p)"
  by (auto simp: refusal_def)

section \<open>Instructions on a sub-pool\<close>

lemma mirrors_pools_wf:
  assumes "harness_ok h"
  shows "bt_wf (sub_pools h)" and "bt_wf (positions h)"
  using assms by (simp_all add: harness_ok_def pools_ok_def)

text \<open>The pool is written and nothing else changed.\<close>

lemma mirrors_put_pool:
  assumes "mirrors h c" and "harness_ok h" and "bt_get (sub_pools h) i = Some sp"
    and "represents i q c1" and "pool_fits (h_market h) q" and "pool_frame i c c1" and "same_rest c c1"
  shows "mirrors (put_sub_pool i q h) c1"
  using assms(1) pools_mirrored_put [OF mirrorsD(7) [OF assms(1)] mirrors_pools_wf(1) [OF assms(2)] _ assms(4-7)]
    same_rest_ok [OF mirrorsD(1) [OF assms(1)] assms(6,7)] assms(3)
  by (simp add: mirrors_def put_sub_pool_def cash_mirrored_def same_rest_fields [OF assms(7)])

lemma restore_same:
  assumes "runtime_ok c" and "snapshot_sub_pool i c = Ok snap" and "sa_sub_pool_id (ss_sub_pool snap) = i"
    and "pool_frame i c c1" and "same_rest c c1"
  shows "restore_sub_pool snap c1 = c"
  using restore_exact [OF assms(1-4)] assms(5) by (cases c; cases c1) (simp add: same_rest_def)

lemma sync_agrees:
  assumes "mirrors h c" and "harness_ok h" and "bt_get (sub_pools h) i = Some sp" and "env_p_now env < 2 ^ 64"
  shows "agree h c (harness_sync i env h) (chain_sync i env c)
    \<or> strict_pda_lifecycle c \<and> no_slot (chain_sync i env c)"
proof -
  note md = mirrorsD [OF assms(1)]
  note rep = md(3) [OF assms(3)] and fits = md(4) [OF assms(3)]
  have params: "ch_params c = h_market h" by (rule md(2))
  obtain snap where snap: "snapshot_sub_pool i c = Ok snap" "sa_sub_pool_id (ss_sub_pool snap) = i"
    using snapshot_represents [OF rep] .
  have build: "build_core_sub_pool i c = Ok sp" using build_represents [OF md(1) rep] fits params by simp
  have refl: "pool_frame i c c" "same_rest c c"
    using md(1) by (simp_all add: pool_frame_def runtime_ok_def same_rest_def)
  show ?thesis
  proof (cases "sync_pool (h_market h) env sp")
    case (Inl f)
    then show ?thesis
      by (cases f) (simp_all add: harness_sync_def chain_sync_def snap build params assms(3)
          restore_same [OF md(1) snap refl])
  next
    case (Inr x)
    obtain q out where x: "x = (q, out)" by (cases x)
    note sync = Inr [unfolded x]
    note f = sync_fits [OF fits sync assms(4)]
    have id: "sub_pool_id q = i" using f(2) rep by (simp add: represents_def)
    obtain c1 res where w: "write_core_sub_pool i q c = (c1, res)" by (metis prod.exhaust)
    note wr = write_core_cases [OF md(1) rep f(1) [folded params] id w]
    show ?thesis
    proof (cases "res = Ok ()")
      case True
      have "mirrors (put_sub_pool i q h) c1"
        using mirrors_put_pool [OF assms(1-3) wr(4) [OF True] f(1) wr(2,1)] .
      with w True show ?thesis
        by (simp add: harness_sync_def chain_sync_def snap build params assms(3) sync agree_feed_indexer)
    next
      case False
      with wr(3) w show ?thesis
        by (auto simp: chain_sync_def snap build params sync no_slot_def)
    qed
  qed
qed

text \<open>
  The common part of the four instructions that undo a failed write: what the engine call does,
  given that the undo puts the runtime before the instruction back.
\<close>

lemma undoing_call:
  assumes "mirrors h c" and "bt_get (sub_pools h) i = Some sp"
    and run: "run_engine m c1 undo (\<lambda>x. write_or_undo i (fst x) c1 undo (k x)) = (c', r)"
    and c1: "runtime_ok c1" "represents i sp c1" "ch_params c1 = h_market h"
      "strict_pda_lifecycle c1 = strict_pda_lifecycle c"
    and fits: "\<forall>q y. m = Inr (q, y) \<longrightarrow> pool_fits (h_market h) q \<and> sub_pool_id q = sub_pool_id sp"
    and undo: "\<forall>c2. pool_frame i c1 c2 \<longrightarrow> same_rest c1 c2 \<longrightarrow> undo c2 = c"
  obtains (refused) e where "m = Inl (Failed e)" and "c' = c" and "r = Err (MirrorClearing e)"
  | (aborted) msg where "m = Inl (Panicked msg)"
  | (full) "strict_pda_lifecycle c" "c' = c" "no_slot (c', r)"
  | (written) q y c2 where "m = Inr (q, y)" and "same_rest c1 c2" and "pool_frame i c1 c2"
      and "represents i q c2" and "pool_fits (h_market h) q" and "k (q, y) c2 = (c', r)"
proof -
  have id: "sub_pool_id sp = i" using c1(2) by (simp add: represents_def)
  have f: "\<forall>q y. m = Inr (q, y) \<longrightarrow> pool_fits (ch_params c1) q \<and> sub_pool_id q = i"
    using fits id c1(3) by simp
  from run c1(1,2) f undo show thesis
  proof (cases rule: engine_call_cases)
    case (no_slot d q y)
    then show thesis using that(3) c1(4) by (simp add: no_slot_def)
  next
    case (written q y c2)
    then show thesis using that(4) fits by blast
  qed (use that(1,2) in blast)+
qed

lemma sweep_eval:
  assumes "a \<le> vault_balance h"
  shows "(\<exists>msg. sweep a h = Inl (Panicked msg)) \<or> fee_vault_balance h + a < 2 ^ 128
    \<and> sweep a h = Inr (h\<lparr>vault_balance := vault_balance h - a, fee_vault_balance := fee_vault_balance h + a,
        fees_collected := fees_collected h + a, dust_swept := dust_swept h + a\<rparr>)"
  using assms by (simp add: sweep_def checked_sub_w_def plus_w_def)

lemma funds_covered:
  assumes "harness_ok h" and "bt_get (sub_pools h) i = Some sp"
  shows "vault sp \<le> vault_balance h"
  using vault_le_funds [OF mirrors_pools_wf(1) [OF assms(1)] assms(2)] assms(1)
  by (simp add: harness_ok_def accounts_ok_def)

lemma harvest_agrees:
  assumes "mirrors h c" and "harness_ok h" and "bt_get (sub_pools h) i = Some sp"
  shows "agree h c (harness_harvest_dust i d h) (chain_harvest_dust i d c)
    \<or> strict_pda_lifecycle c \<and> fst (chain_harvest_dust i d c) = c \<and> no_slot (chain_harvest_dust i d c)"
proof -
  note md = mirrorsD [OF assms(1)]
  note rep = md(3) [OF assms(3)] and fits = md(4) [OF assms(3)] and params = md(2)
  obtain snap where snap: "snapshot_sub_pool i c = Ok snap" "sa_sub_pool_id (ss_sub_pool snap) = i"
    using snapshot_represents [OF rep] .
  have build: "build_core_sub_pool i c = Ok sp" using build_represents [OF md(1) rep] fits params by simp
  let ?k = "\<lambda>x c1. needing (ok_or (checked_sub_w (ch_vault_balance c1) (ho_amount (snd x)))
       (MirrorInvariant ''harvest: vault underflow'')) c1 (\<lambda>left.
     let c2 = c1\<lparr>ch_vault_balance := left\<rparr> in
     needing (plus_w 128 (ch_fee_vault_balance c2) (ho_amount (snd x))) c2 (\<lambda>fee_vault'.
     (c2\<lparr>ch_fee_vault_balance := fee_vault'\<rparr>, Ok (snd x))))"
  obtain c' r where run: "run_engine (harvest_dust (h_market h) d sp) c (restore_sub_pool snap)
      (\<lambda>x. write_or_undo i (fst x) c (restore_sub_pool snap) (?k x)) = (c', r)" by (rule prod.exhaust)
  have chain: "chain_harvest_dust i d c = (c', r)"
    unfolding chain_harvest_dust_def snap(1) build params needing_simps case_prod_unfold by (rule run)
  have f: "\<forall>q y. harvest_dust (h_market h) d sp = Inr (q, y)
      \<longrightarrow> pool_fits (h_market h) q \<and> sub_pool_id q = sub_pool_id sp"
    using harvest_fits [OF fits] by blast
  have undo: "\<forall>c2. pool_frame i c c2 \<longrightarrow> same_rest c c2 \<longrightarrow> restore_sub_pool snap c2 = c"
    using restore_same [OF md(1) snap] by blast
  from assms(1,3) run md(1) rep params refl f undo show ?thesis
  proof (cases rule: undoing_call)
    case (refused e)
    then show ?thesis by (simp add: chain harness_harvest_dust_def assms(3))
  next
    case (aborted msg)
    then show ?thesis by (simp add: harness_harvest_dust_def assms(3))
  next
    case full
    then show ?thesis by (simp add: chain)
  next
    case (written q y c2)
    let ?h = "put_sub_pool i q h" and ?a = "ho_amount y"
    note m = mirrors_put_pool [OF assms written(4,5,3,2)]
    have a: "?a \<le> vault_balance ?h"
      using harvest_dust_Ok(2) [OF pool_fitsD(1) [OF fits] written(1)] funds_covered [OF assms(2,3)]
      by (simp add: put_sub_pool_def)
    show ?thesis
    proof (cases "\<exists>msg. sweep ?a ?h = Inl (Panicked msg)")
      case True
      then show ?thesis by (auto simp: harness_harvest_dust_def assms(3) written(1))
    next
      case False
      with sweep_eval [OF a] have sw: "fee_vault_balance ?h + ?a < 2 ^ 128" "sweep ?a ?h =
          Inr (?h\<lparr>vault_balance := vault_balance ?h - ?a, fee_vault_balance := fee_vault_balance ?h + ?a,
            fees_collected := fees_collected ?h + ?a, dust_swept := dust_swept ?h + ?a\<rparr>)" by blast+
      have "c' = c2\<lparr>ch_vault_balance := ch_vault_balance c2 - ?a,
          ch_fee_vault_balance := ch_fee_vault_balance c2 + ?a\<rparr>" and "r = Ok y"
        using written(6) mirrorsD(6) [OF m] a sw(1)
        by (simp_all add: cash_mirrored_def checked_sub_w_def plus_w_def)
      moreover have "mirrors (?h\<lparr>vault_balance := vault_balance ?h - ?a,
            fee_vault_balance := fee_vault_balance ?h + ?a, fees_collected := fees_collected ?h + ?a,
            dust_swept := dust_swept ?h + ?a\<rparr>) (c2\<lparr>ch_vault_balance := ch_vault_balance c2 - ?a,
            ch_fee_vault_balance := ch_fee_vault_balance c2 + ?a\<rparr>)"
        using m by (simp add: mirrors_def cash_mirrored_def)
      ultimately show ?thesis
        by (simp add: chain harness_harvest_dust_def assms(3) written(1) sw(2) agree_feed_indexer Let_def)
    qed
  qed
qed

lemma pre_sync_missing:
  assumes "get_bucket (dormant d sp) tick = None"
  shows "\<exists>ce. pre_sync_dormant_bucket m d tick slot sp = Inl (Failed ce)"
  using assms by (simp add: pre_sync_dormant_bucket_def assert_schema_version_def)

lemma bucket_account_missing:
  assumes "represents i sp c" and "bt_get (ch_buckets c) (i, d, tick) = None"
  shows "get_bucket (dormant d sp) tick = None"
proof -
  have "live_record c i d tick
      = map_option (\<lambda>b. pack_bucket (direction_byte d) (tick, b)) (bt_get (buckets (dormant d sp)) tick)"
    using assms(1) by (simp add: represents_def holds_def)
  with assms(2) show ?thesis by (simp add: live_record_def get_bucket_def)
qed

lemma pre_sync_agrees:
  assumes "mirrors h c" and "harness_ok h" and "bt_get (sub_pools h) i = Some sp"
  shows "agree h c (harness_pre_sync_bucket i d tick slot h) (chain_pre_sync_bucket i d tick slot c)
    \<or> strict_pda_lifecycle c \<and> fst (chain_pre_sync_bucket i d tick slot c) = c
       \<and> no_slot (chain_pre_sync_bucket i d tick slot c)"
proof (cases "bt_get (ch_buckets c) (i, d, tick) = None")
  case True
  from pre_sync_missing [OF bucket_account_missing [OF mirrorsD(3) [OF assms(1,3)] True]]
  obtain ce where "pre_sync_dormant_bucket (h_market h) d tick slot sp = Inl (Failed ce)" by blast
  with True show ?thesis
    by (simp add: harness_pre_sync_bucket_def chain_pre_sync_bucket_def assms(3))
next
  case exists: False
  note md = mirrorsD [OF assms(1)]
  note rep = md(3) [OF assms(3)] and fits = md(4) [OF assms(3)] and params = md(2)
  obtain snap where snap: "snapshot_sub_pool i c = Ok snap" "sa_sub_pool_id (ss_sub_pool snap) = i"
    using snapshot_represents [OF rep] .
  have build: "build_core_sub_pool i c = Ok sp" using build_represents [OF md(1) rep] fits params by simp
  let ?m = "pre_sync_dormant_bucket (h_market h) d tick slot sp"
  let ?k = "\<lambda>x c1. (c1, Ok (snd x))"
  obtain c' r where run: "run_engine ?m c (restore_sub_pool snap)
      (\<lambda>x. write_or_undo i (fst x) c (restore_sub_pool snap) (?k x)) = (c', r)" by (rule prod.exhaust)
  have chain: "chain_pre_sync_bucket i d tick slot c = (c', r)"
    unfolding chain_pre_sync_bucket_def if_not_P [OF exists] snap(1) build params needing_simps
      case_prod_unfold by (rule run)
  have f: "\<forall>q y. ?m = Inr (q, y) \<longrightarrow> pool_fits (h_market h) q \<and> sub_pool_id q = sub_pool_id sp"
    using pre_sync_fits [OF fits] by blast
  have undo: "\<forall>c2. pool_frame i c c2 \<longrightarrow> same_rest c c2 \<longrightarrow> restore_sub_pool snap c2 = c"
    using restore_same [OF md(1) snap] by blast
  from assms(1,3) run md(1) rep params refl f undo show ?thesis
  proof (cases rule: undoing_call)
    case (refused e)
    then show ?thesis by (simp add: chain harness_pre_sync_bucket_def assms(3))
  next
    case (aborted msg)
    then show ?thesis by (simp add: harness_pre_sync_bucket_def assms(3))
  next
    case full
    then show ?thesis by (simp add: chain)
  next
    case (written q y c2)
    have "c' = c2" "r = Ok y" using written(6) by simp_all
    with mirrors_put_pool [OF assms written(4,5,3,2)] show ?thesis
      by (simp add: chain harness_pre_sync_bucket_def assms(3) written(1) agree_feed_indexer)
  qed
qed

section \<open>Opening\<close>

lemma book_open_eval:
  assumes "principal_part + fee = gross"
  shows "(\<exists>msg. book_open gross (principal_part, fee) h = Inl (Panicked msg))
    \<or> vault_balance h + principal_part < 2 ^ 128 \<and> fee_vault_balance h + fee < 2 ^ 128
      \<and> total_deposits h + gross < 2 ^ 128
      \<and> book_open gross (principal_part, fee) h = Inr (h\<lparr>vault_balance := vault_balance h + principal_part,
          fee_vault_balance := fee_vault_balance h + fee, fees_collected := fees_collected h + fee,
          total_deposits := total_deposits h + gross\<rparr>)"
  by (simp add: book_open_def plus_w_def)

lemma open_agrees:
  assumes "mirrors h c" and "harness_ok h" and "bt_get (sub_pools h) i = Some sp"
    and "env_p_now env < 2 ^ 64" and "gross < 2 ^ 64"
  shows "agree h c (harness_open i d gross env h) (chain_open i d gross env c)
    \<or> strict_pda_lifecycle c \<and> fst (chain_open i d gross env c) = c \<and> no_slot (chain_open i d gross env c)"
proof (cases "next_position_id h + 1 < 2 ^ 64")
  case False
  then show ?thesis by (simp add: harness_open_def assms(3) plus_w_def)
next
  case True
  note md = mirrorsD [OF assms(1)]
  note rep = md(3) [OF assms(3)] and fits = md(4) [OF assms(3)] and params = md(2)
  let ?pid = "next_position_id h"
  have fresh: "bt_get (positions h) ?pid = None" using assms(2) by (auto simp: harness_ok_def)
  have cash: "cash_mirrored h c" by (rule md(6))
  then have pid: "ch_next_position_id c = ?pid" by (simp add: cash_mirrored_def)
  obtain snap where snap: "snapshot_sub_pool i c = Ok snap" "sa_sub_pool_id (ss_sub_pool snap) = i"
    using snapshot_represents [OF rep] .
  let ?c1 = "c\<lparr>ch_next_position_id := ?pid + 1\<rparr>" and ?h1 = "h\<lparr>next_position_id := ?pid + 1\<rparr>"
  let ?undo = "\<lambda>c. (restore_sub_pool snap c)\<lparr>ch_next_position_id := ch_next_position_id c - 1\<rparr>"
  have ok1: "runtime_ok ?c1" and rep1: "represents i sp ?c1" using md(1) rep by simp_all
  have build: "build_core_sub_pool i ?c1 = Ok sp" using build_represents [OF ok1 rep1] fits params by simp
  let ?m = "open_position (h_market h) env d gross ?pid sp"
  let ?k = "\<lambda>x c2. let c3 = c2\<lparr>ch_positions := bt_put ?pid
                \<lparr>pa_sub_pool_id = i, pa_position = (fst (snd x))\<lparr>pos_sub_pool_id := i\<rparr>\<rparr> (ch_positions c2)\<rparr> in
     needing (chain_book_open gross (snd (snd x)) c3) c3 (\<lambda>c4.
     (c4, Ok \<lparr>cho_position_id = ?pid, cho_shares_minted = oo_shares_minted (snd (snd x)),
              cho_open_fee = oo_open_fee (snd (snd x)), cho_events = oo_events (snd (snd x))\<rparr>))"
  obtain c' r where run: "run_engine ?m ?c1 ?undo (\<lambda>x. write_or_undo i (fst x) ?c1 ?undo (?k x)) = (c', r)"
    by (rule prod.exhaust)
  have nid: "plus_w 64 ?pid 1 = Ok (?pid + 1)" using True by (simp add: plus_w_def)
  then have nid': "plus_w 64 ?pid (Suc 0) = Ok (Suc ?pid)" by simp
  have chain: "chain_open i d gross env c = (c', r)"
    unfolding chain_open_def snap(1) needing_simps pid Let_def nid build case_prod_unfold
    using run params by (simp add: Let_def)
  have f: "\<forall>q y. ?m = Inr (q, y) \<longrightarrow> pool_fits (h_market h) q \<and> sub_pool_id q = sub_pool_id sp"
    using open_fits [OF fits _ assms(4)] by fastforce
  have undo: "\<forall>c2. pool_frame i ?c1 c2 \<longrightarrow> same_rest ?c1 c2 \<longrightarrow> ?undo c2 = c"
  proof (intro allI impI)
    fix c2 assume fr: "pool_frame i ?c1 c2" "same_rest ?c1 c2"
    then have "pool_frame i c c2" by (simp add: pool_frame_def)
    from restore_exact [OF md(1) snap this] fr(2) pid show "?undo c2 = c"
      by (cases c; cases c2) (simp add: same_rest_def)
  qed
  have same: "ch_params ?c1 = h_market h" "strict_pda_lifecycle ?c1 = strict_pda_lifecycle c"
    using params by simp_all
  from assms(1,3) run ok1 rep1 same f undo show ?thesis
  proof (cases rule: undoing_call)
    case (refused e)
    then show ?thesis by (simp add: chain harness_open_def assms(3) nid' fresh Let_def)
  next
    case (aborted msg)
    then show ?thesis by (simp add: harness_open_def assms(3) nid' fresh Let_def)
  next
    case full
    then show ?thesis by (simp add: chain)
  next
    case (written q y c2)
    obtain pos out where y: "y = (pos, out)" by (cases y)
    note op = written(1) [unfolded y]
    note amounts = open_amounts [OF pool_fitsD(1) [OF fits] op assms(4)]
    let ?p = "pos\<lparr>pos_sub_pool_id := i\<rparr>"
    let ?h2 = "put_position ?pid ?p (put_sub_pool i q ?h1)"
    let ?c3 = "c2\<lparr>ch_positions := bt_put ?pid (account_of ?p) (ch_positions c2)\<rparr>"
    have oa: "open_accounting gross out = Inr (principal pos, oo_open_fee out)"
      using amounts assms(5) by (subst open_accounting_Ok) auto
    have pools: "pools_mirrored (h_market h) (bt_put i q (sub_pools h)) c2"
      using pools_mirrored_put [OF _ mirrors_pools_wf(1) [OF assms(2)] _ written(4,5,3,2)] md(7) assms(3)
      by simp
    have ok2: "runtime_ok c2" using same_rest_ok [OF ok1 written(3,2)] .
    have ps: "ch_positions c2 = ch_positions c" using same_rest_fields(2) [OF written(2)] by simp
    have acc: "\<lparr>pa_sub_pool_id = i, pa_position = ?p\<rparr> = account_of ?p" by (simp add: account_of_def)
    have wfp: "bt_wf (ch_positions c)" "bt_wf (positions h)"
      using md(1) mirrors_pools_wf(2) [OF assms(2)] by (simp_all add: runtime_ok_def)
    have cash2: "ch_next_position_id c2 = ?pid + 1" "ch_vault_balance c2 = vault_balance h"
      "ch_fee_vault_balance c2 = fee_vault_balance h" "ch_total_deposits c2 = total_deposits h"
      "ch_total_withdrawals c2 = total_withdrawals h"
      using same_rest_fields [OF written(2)] cash by (simp_all add: cash_mirrored_def)
    have m: "mirrors ?h2 ?c3"
      using pools ok2 md(5) wfp cash2
      by (simp add: mirrors_def cash_mirrored_def put_position_def put_sub_pool_def runtime_ok_def ps
          bt_wf_put bt_get_put)
    show ?thesis
    proof (cases "\<exists>msg. book_open gross (principal pos, oo_open_fee out) ?h2 = Inl (Panicked msg)")
      case True
      then show ?thesis
        by (auto simp: harness_open_def assms(3) nid' fresh Let_def op oa)
    next
      case False
      have "principal pos + oo_open_fee out = gross" using amounts(3) by simp
      from book_open_eval [OF this, of ?h2] False
      have bk: "vault_balance h + principal pos < 2 ^ 128" "fee_vault_balance h + oo_open_fee out < 2 ^ 128"
        "total_deposits h + gross < 2 ^ 128"
        and res: "book_open gross (principal pos, oo_open_fee out) ?h2 = Inr (?h2\<lparr>vault_balance :=
            vault_balance h + principal pos, fee_vault_balance := fee_vault_balance h + oo_open_fee out,
            fees_collected := fees_collected h + oo_open_fee out, total_deposits := total_deposits h + gross\<rparr>)"
        by (auto simp: put_position_def put_sub_pool_def)
      have into: "oo_principal_into_pool out + oo_dust out < 2 ^ 128"
        using amounts(4) bk(1) by simp
      have "chain_book_open gross out ?c3 = Ok (?c3\<lparr>ch_vault_balance := vault_balance h + principal pos,
          ch_fee_vault_balance := fee_vault_balance h + oo_open_fee out,
          ch_total_deposits := total_deposits h + gross\<rparr>)"
        using bk cash2 into amounts(4)
        by (simp add: chain_book_open_def checked_add_w_def plus_w_def)
      then have "c' = ?c3\<lparr>ch_vault_balance := vault_balance h + principal pos,
          ch_fee_vault_balance := fee_vault_balance h + oo_open_fee out,
          ch_total_deposits := total_deposits h + gross\<rparr>" "\<exists>x. r = Ok x"
        using written(6) by (auto simp: y acc Let_def)
      moreover have "mirrors (?h2\<lparr>vault_balance :=
            vault_balance h + principal pos, fee_vault_balance := fee_vault_balance h + oo_open_fee out,
            fees_collected := fees_collected h + oo_open_fee out, total_deposits := total_deposits h + gross\<rparr>)
          (?c3\<lparr>ch_vault_balance := vault_balance h + principal pos,
          ch_fee_vault_balance := fee_vault_balance h + oo_open_fee out,
          ch_total_deposits := total_deposits h + gross\<rparr>)"
        using m by (simp add: mirrors_def cash_mirrored_def)
      ultimately show ?thesis
        by (auto simp: chain harness_open_def assms(3) nid' fresh Let_def op oa res [simplified]
            intro!: agree_feed_indexer)
    qed
  qed
qed

section \<open>Instructions on a position\<close>

text \<open>
  The three settling instructions share the code around the engine call, on both sides; what
  differs is the call and what is done with the money.
\<close>

lemma settle_agrees:
  fixes engine :: "market_params \<Rightarrow> sub_pool \<Rightarrow> position \<Rightarrow> (sub_pool \<times> position \<times> 'o) clearing"
    and finish :: "'o \<Rightarrow> chain_runtime \<Rightarrow> chain_runtime \<times> 'b mirrored"
  assumes "mirrors h c" and "harness_ok h"
    and fits: "\<And>sp pos q pos' out. pool_fits (h_market h) sp
      \<Longrightarrow> engine (h_market h) sp pos = Inr (q, pos', out)
      \<Longrightarrow> pool_fits (h_market h) q \<and> sub_pool_id q = sub_pool_id sp \<and> pos_sub_pool_id pos' = pos_sub_pool_id pos"
    and hr: "\<And>pos sp. H pos sp (h\<lparr>positions := bt_del pid (positions h)\<rparr>)
      = with_result (lift_clearing (engine (h_market h) sp pos))
          (put_position pid pos (h\<lparr>positions := bt_del pid (positions h)\<rparr>))
          (\<lambda>(q, pos', out). K (put_sub_pool (pos_sub_pool_id pos) q (h\<lparr>positions := bt_del pid (positions h)\<rparr>))
             pos' out)"
    and finish: "\<And>sp pos q pos' out c2. bt_get (sub_pools h) (pos_sub_pool_id pos) = Some sp
      \<Longrightarrow> sub_pool_wf sp \<Longrightarrow> engine (h_market h) sp pos = Inr (q, pos', out)
      \<Longrightarrow> mirrors (put_position pid pos' (put_sub_pool (pos_sub_pool_id pos) q
            (h\<lparr>positions := bt_del pid (positions h)\<rparr>))) c2
      \<Longrightarrow> agree h c (K (put_sub_pool (pos_sub_pool_id pos) q (h\<lparr>positions := bt_del pid (positions h)\<rparr>))
            pos' out) (finish out c2)"
  shows "agree h c (take_position pid h H) (settle_position pid engine finish c)
    \<or> strict_pda_lifecycle c \<and> fst (settle_position pid engine finish c) = c
       \<and> no_slot (settle_position pid engine finish c)"
proof (cases "bt_get (positions h) pid")
  case None
  then show ?thesis using mirrorsD(5) [OF assms(1), of pid]
    by (simp add: take_position_def settle_position_def)
next
  case (Some pos)
  let ?i = "pos_sub_pool_id pos"
  obtain sp where sp: "bt_get (sub_pools h) ?i = Some sp"
    using pools_okD(5) [of "sub_pools h", OF _ Some] assms(2) by (auto simp: harness_ok_def)
  note md = mirrorsD [OF assms(1)]
  note rep = md(3) [OF sp] and fit = md(4) [OF sp] and params = md(2)
  have acc: "bt_get (ch_positions c) pid = Some (account_of pos)" using md(5) Some by simp
  have wfp: "bt_wf (ch_positions c)" "bt_wf (positions h)"
    using md(1) mirrors_pools_wf(2) [OF assms(2)] by (simp_all add: runtime_ok_def)
  obtain snap where snap: "snapshot_sub_pool ?i c = Ok snap" "sa_sub_pool_id (ss_sub_pool snap) = ?i"
    using snapshot_represents [OF rep] .
  have build: "build_core_sub_pool ?i c = Ok sp" using build_represents [OF md(1) rep] fit params by simp
  let ?c1 = "c\<lparr>ch_positions := bt_del pid (ch_positions c)\<rparr>"
    and ?h1 = "h\<lparr>positions := bt_del pid (positions h)\<rparr>"
  let ?undo = "\<lambda>c. (restore_sub_pool snap c)\<lparr>ch_positions := bt_put pid (account_of pos) (ch_positions c)\<rparr>"
  have ok1: "runtime_ok ?c1" using md(1) by (simp add: runtime_ok_def bt_wf_del)
  have rep1: "represents ?i sp ?c1" using rep by simp
  have same: "ch_params ?c1 = h_market h" "strict_pda_lifecycle ?c1 = strict_pda_lifecycle c"
    using params by simp_all
  let ?m = "engine (h_market h) sp pos"
  let ?k = "\<lambda>x c2. finish (snd (snd x)) (c2\<lparr>ch_positions :=
      bt_put pid \<lparr>pa_sub_pool_id = ?i, pa_position = fst (snd x)\<rparr> (ch_positions c2)\<rparr>)"
  obtain c' r where run: "run_engine ?m ?c1 ?undo (\<lambda>x. write_or_undo ?i (fst x) ?c1 ?undo (?k x)) = (c', r)"
    by (rule prod.exhaust)
  have ids: "pa_sub_pool_id (account_of pos) = ?i" "pa_position (account_of pos) = pos"
    by (simp_all add: account_of_def)
  have chain: "settle_position pid engine finish c = (c', r)"
    unfolding settle_position_def acc ok_or_simps needing_simps ids snap(1) build Let_def case_prod_unfold
      same by (rule run)
  have hrun: "take_position pid h H = H pos sp ?h1"
    by (simp add: take_position_def Some sp Let_def)
  have f: "\<forall>q y. ?m = Inr (q, y) \<longrightarrow> pool_fits (h_market h) q \<and> sub_pool_id q = sub_pool_id sp"
    using fits [OF fit] by (metis prod.collapse)
  have undo: "\<forall>c2. pool_frame ?i ?c1 c2 \<longrightarrow> same_rest ?c1 c2 \<longrightarrow> ?undo c2 = c"
  proof (intro allI impI)
    fix c2 assume fr: "pool_frame ?i ?c1 c2" "same_rest ?c1 c2"
    then have "pool_frame ?i c c2" by (simp add: pool_frame_def)
    from restore_exact [OF md(1) snap this] fr(2) bt_put_del_same [OF wfp(1) acc] show "?undo c2 = c"
      by (cases c; cases c2) (simp add: same_rest_def)
  qed
  from assms(1) sp run ok1 rep1 same f undo show ?thesis
  proof (cases rule: undoing_call)
    case (refused e)
    moreover have "put_position pid pos ?h1 = h"
      using bt_put_del_same [OF wfp(2) Some] by (simp add: put_position_def)
    ultimately show ?thesis by (simp add: chain hrun hr)
  next
    case (aborted msg)
    then show ?thesis by (simp add: hrun hr)
  next
    case full
    then show ?thesis by (simp add: chain)
  next
    case (written q y c2)
    obtain pos' out where y: "y = (pos', out)" by (cases y)
    note op = written(1) [unfolded y]
    have same_i: "pos_sub_pool_id pos' = ?i" using fits [OF fit op] by simp
    let ?c3 = "c2\<lparr>ch_positions := bt_put pid (account_of pos') (ch_positions c2)\<rparr>"
    have pools: "pools_mirrored (h_market h) (bt_put ?i q (sub_pools h)) c2"
      using pools_mirrored_put [OF _ mirrors_pools_wf(1) [OF assms(2)] _ written(4,5,3,2)] md(7) sp
      by simp
    have ok2: "runtime_ok c2" using same_rest_ok [OF ok1 written(3,2)] .
    have "mirrors (put_position pid pos' (put_sub_pool ?i q ?h1)) ?c3"
      using pools ok2 md(5,6) wfp same_rest_fields [OF written(2)]
      by (simp add: mirrors_def cash_mirrored_def put_position_def put_sub_pool_def runtime_ok_def
          bt_wf_put bt_wf_del bt_get_put bt_get_del)
    from finish [OF sp pool_fitsD(1) [OF fit] op this] written(6) same_i show ?thesis
      by (simp add: chain hrun hr op y account_of_def)
  qed
qed

lemma pay_out_agrees:
  assumes "mirrors (put_position pid p h2) c2" and "a \<le> vault_balance h2"
  shows "agree h c (with_result (pay_out a msg h2) h2 (\<lambda>h3. feed_indexer evs x (put_position pid p h3)))
    (withdraw a msg' y c2)"
proof (cases "total_withdrawals h2 + a < 2 ^ 128")
  case False
  with assms(2) show ?thesis by (simp add: pay_out_def checked_sub_w_def plus_w_def)
next
  case True
  have cash: "ch_vault_balance c2 = vault_balance h2" "ch_total_withdrawals c2 = total_withdrawals h2"
    using mirrorsD(6) [OF assms(1)] by (simp_all add: cash_mirrored_def put_position_def)
  have "mirrors (put_position pid p (h2\<lparr>vault_balance := vault_balance h2 - a,
        total_withdrawals := total_withdrawals h2 + a\<rparr>))
      (c2\<lparr>ch_vault_balance := vault_balance h2 - a, ch_total_withdrawals := total_withdrawals h2 + a\<rparr>)"
    using assms(1) by (simp add: mirrors_def cash_mirrored_def put_position_def)
  with True assms(2) cash show ?thesis
    by (simp add: pay_out_def withdraw_def checked_sub_w_def plus_w_def agree_feed_indexer)
qed

lemma close_agrees:
  assumes "mirrors h c" and "harness_ok h" and "env_p_now env < 2 ^ 64"
  shows "agree h c (harness_close pid env h) (chain_close pid env c)
    \<or> strict_pda_lifecycle c \<and> fst (chain_close pid env c) = c \<and> no_slot (chain_close pid env c)"
  unfolding harness_close_def chain_close_def
proof (rule settle_agrees [OF assms(1,2), where K = "\<lambda>h2 pos' out.
    with_result (pay_out (co_withdrawable out) ''close drained vault below zero'' h2) h2 (\<lambda>h3.
    feed_indexer (co_events out)
      \<lparr>cs_withdrawable = co_withdrawable out, cs_indexer_pre_equity = pre_equity h pid\<rparr>
      (put_position pid pos' h3))"], goal_cases fits hr finish)
  case (fits sp pos q pos' out)
  then show ?case using close_fits [OF fits(1,2) assms(3)] close_identity [OF fits(2)] by simp
next
  case (hr pos sp)
  then show ?case by (simp add: Let_def)
next
  case (finish sp pos q pos' out c2)
  have "co_withdrawable out \<le> vault_balance h"
    using close_position_Ok(2) [OF finish(2,3) assms(3)] funds_covered [OF assms(2) finish(1)] by simp
  then show ?case by (intro pay_out_agrees finish(4)) (simp add: put_sub_pool_def)
qed

lemma claim_agrees:
  assumes "mirrors h c" and "harness_ok h" and "env_p_now env < 2 ^ 64"
  shows "agree h c (harness_claim_recovery pid env h) (chain_claim_recovery pid env c)
    \<or> strict_pda_lifecycle c \<and> fst (chain_claim_recovery pid env c) = c \<and> no_slot (chain_claim_recovery pid env c)"
  unfolding harness_claim_recovery_def chain_claim_recovery_def
proof (rule settle_agrees [OF assms(1,2), where K = "\<lambda>h2 pos' out.
    with_result (pay_out (cr_redeemable out) ''claim drained vault below zero'' h2) h2 (\<lambda>h3.
    feed_indexer (cr_events out)
      \<lparr>cs_withdrawable = cr_redeemable out, cs_indexer_pre_equity = pre_equity h pid\<rparr>
      (put_position pid pos' h3))"], goal_cases fits hr finish)
  case (fits sp pos q pos' out)
  then show ?case using claim_fits [OF fits(1,2) assms(3)] claim_identity [OF fits(2)] by simp
next
  case (hr pos sp)
  then show ?case by (simp add: Let_def)
next
  case (finish sp pos q pos' out c2)
  have "cr_redeemable out \<le> vault_balance h"
    using claim_Ok(2) [OF finish(2,3) assms(3)] funds_covered [OF assms(2) finish(1)] by simp
  then show ?case by (intro pay_out_agrees finish(4)) (simp add: put_sub_pool_def)
qed

lemma force_close_agrees:
  assumes "mirrors h c" and "harness_ok h" and "env_p_now env < 2 ^ 64"
  shows "agree h c (harness_force_close pid env ack h) (chain_force_close pid env ack c)
    \<or> strict_pda_lifecycle c \<and> fst (chain_force_close pid env ack c) = c \<and> no_slot (chain_force_close pid env ack c)"
  unfolding harness_force_close_def chain_force_close_def
proof (rule settle_agrees [OF assms(1,2), where K = "\<lambda>h2 pos' out.
    feed_indexer (fo_events out) () (put_position pid pos' h2)"], goal_cases fits hr finish)
  case (fits sp pos q pos' out)
  then show ?case using force_close_fits [OF fits(1,2) assms(3)] force_close_identity [OF fits(2)] by simp
next
  case (hr pos sp)
  then show ?case by simp
next
  case (finish sp pos q pos' out c2)
  then show ?case by (simp add: agree_feed_indexer)
qed

end
