(* ===== verification/Chain_Runs.thy ===== *)
theory Chain_Runs
  imports Chain_Parity
begin

text \<open>
  Runs of the account runtime beside the harness: \<open>paired\<close> is the reachability of both under the
  same calls, with bucket accounts initialised and closed at will on the chain's side; every
  paired state mirrors, and reading the accounts gives exactly the harness's sub-pools.
\<close>

section \<open>Calls\<close>

definition outcome_of :: "chain_runtime \<times> 'a mirrored \<Rightarrow> chain_runtime \<times> unit mirrored" where
  "outcome_of cr = (fst cr, and_then (snd cr) (\<lambda>_. Ok ()))"

text \<open>The same calls as the harness's; the runtime has no drain, which is the harness's own loop.\<close>

definition chain_perform :: "hcall \<Rightarrow> chain_runtime \<Rightarrow> chain_runtime \<times> unit mirrored" where
  "chain_perform call c = (case call of
       OpenCall i d gross env \<Rightarrow> outcome_of (chain_open i d gross env c)
     | CloseCall pid env \<Rightarrow> outcome_of (chain_close pid env c)
     | ForceCloseCall pid env ack \<Rightarrow> outcome_of (chain_force_close pid env ack c)
     | ClaimCall pid env \<Rightarrow> outcome_of (chain_claim_recovery pid env c)
     | SyncCall i env \<Rightarrow> outcome_of (chain_sync i env c)
     | PreSyncCall i d tick slot \<Rightarrow> outcome_of (chain_pre_sync_bucket i d tick slot c)
     | DrainCall i slot \<Rightarrow> (c, Ok ())
     | HarvestCall i d \<Rightarrow> outcome_of (chain_harvest_dust i d c))"

definition syncs :: "hcall \<Rightarrow> bool" where
  "syncs call = (case call of SyncCall i env \<Rightarrow> True | _ \<Rightarrow> False)"

text \<open>A call the runtime supports, on a sub-pool that exists.\<close>

definition chain_call :: "harness \<Rightarrow> hcall \<Rightarrow> bool" where
  "chain_call h call \<longleftrightarrow> call_ok call \<and> (case call of
       OpenCall i d gross env \<Rightarrow> bt_get (sub_pools h) i \<noteq> None
     | SyncCall i env \<Rightarrow> bt_get (sub_pools h) i \<noteq> None
     | PreSyncCall i d tick slot \<Rightarrow> bt_get (sub_pools h) i \<noteq> None
     | HarvestCall i d \<Rightarrow> bt_get (sub_pools h) i \<noteq> None
     | DrainCall i slot \<Rightarrow> False
     | _ \<Rightarrow> True)"

lemma agree_outcomes:
  "agree h c hr cr \<Longrightarrow> agree h c (result_of hr) (outcome_of cr)"
  by (cases hr; cases cr) (auto simp: agree_def result_of_def outcome_of_def split: sum.splits failure.splits)

lemma no_slot_outcome [simp]: "no_slot (outcome_of cr) = no_slot cr"
  by (cases "snd cr") (auto simp: no_slot_def outcome_of_def)

lemma fst_outcome [simp]: "fst (outcome_of cr) = fst cr"
  by (simp add: outcome_of_def)

lemma agree_call:
  assumes "agree h c hr cr \<or> strict_pda_lifecycle c \<and> fst cr = c \<and> no_slot cr"
  shows "agree h c (result_of hr) (outcome_of cr)
    \<or> strict_pda_lifecycle c \<and> no_slot (outcome_of cr) \<and> (b \<or> fst (outcome_of cr) = c)"
  using assms agree_outcomes by (metis no_slot_outcome fst_outcome)

lemma calls_agree:
  assumes "mirrors h c" and "harness_ok h" and "chain_call h call"
  shows "agree h c (perform call h) (chain_perform call c)
    \<or> strict_pda_lifecycle c \<and> no_slot (chain_perform call c)
       \<and> (syncs call \<or> fst (chain_perform call c) = c)"
proof (cases call)
  case (OpenCall i d gross env)
  with assms(3) obtain sp where "bt_get (sub_pools h) i = Some sp" "env_p_now env < 2 ^ 64" "gross < 2 ^ 64"
    by (auto simp: chain_call_def call_ok_def)
  from agree_call [OF open_agrees [OF assms(1,2) this]] OpenCall show ?thesis
    by (simp add: perform_def chain_perform_def)
next
  case (CloseCall pid env)
  with assms(3) have "env_p_now env < 2 ^ 64" by (simp add: chain_call_def call_ok_def)
  from agree_call [OF close_agrees [OF assms(1,2) this]] CloseCall show ?thesis
    by (simp add: perform_def chain_perform_def)
next
  case (ForceCloseCall pid env ack)
  with assms(3) have "env_p_now env < 2 ^ 64" by (simp add: chain_call_def call_ok_def)
  from agree_call [OF force_close_agrees [OF assms(1,2) this]] ForceCloseCall show ?thesis
    by (simp add: perform_def chain_perform_def)
next
  case (ClaimCall pid env)
  with assms(3) have "env_p_now env < 2 ^ 64" by (simp add: chain_call_def call_ok_def)
  from agree_call [OF claim_agrees [OF assms(1,2) this]] ClaimCall show ?thesis
    by (simp add: perform_def chain_perform_def)
next
  case (SyncCall i env)
  with assms(3) obtain sp where "bt_get (sub_pools h) i = Some sp" "env_p_now env < 2 ^ 64"
    by (auto simp: chain_call_def call_ok_def)
  from sync_agrees [OF assms(1,2) this]
  have "agree h c (result_of (harness_sync i env h)) (outcome_of (chain_sync i env c))
      \<or> strict_pda_lifecycle c \<and> no_slot (chain_sync i env c)"
    by (blast intro: agree_outcomes)
  with SyncCall show ?thesis by (simp add: perform_def chain_perform_def syncs_def)
next
  case (PreSyncCall i d tick slot)
  with assms(3) obtain sp where "bt_get (sub_pools h) i = Some sp" by (auto simp: chain_call_def)
  from agree_call [OF pre_sync_agrees [OF assms(1,2) this]] PreSyncCall show ?thesis
    by (simp add: perform_def chain_perform_def)
next
  case (DrainCall i slot)
  with assms(3) show ?thesis by (simp add: chain_call_def)
next
  case (HarvestCall i d)
  with assms(3) obtain sp where "bt_get (sub_pools h) i = Some sp" by (auto simp: chain_call_def)
  from agree_call [OF harvest_agrees [OF assms(1,2) this]] HarvestCall show ?thesis
    by (simp add: perform_def chain_perform_def)
qed

section \<open>Initialising and closing accounts\<close>

lemma mirrors_new:
  assumes "max_dormant_bucket_count_per_direction m < 2 ^ 32" and "max_distribution_ledger_size m < 2 ^ 32"
  shows "mirrors (new_harness m) (with_strict_pda_lifecycle strict (new_runtime m))"
  using assms by (simp add: mirrors_def new_harness_def new_runtime_def with_strict_pda_lifecycle_def runtime_ok_def
      pools_mirrored_def cash_mirrored_def bt_empty_def)

lemma holds_same_live:
  assumes "holds i d st c" and "slots_ok i d c'" and "\<And>t. live_record c' i d t = live_record c i d t"
    and "ch_ledgers c' = ch_ledgers c" and "ch_params c' = ch_params c"
  shows "holds i d st c'"
  using assms by (simp add: holds_def)

lemma mirrors_buckets:
  assumes "mirrors h c" and c': "c' = c\<lparr>ch_buckets := m\<rparr>" and "bt_wf m"
    and live: "\<And>i d t. live_record c' i d t = live_record c i d t"
    and slots: "\<And>i d. slots_ok i d c \<Longrightarrow> slots_ok i d c'"
    and known: "\<And>key. bt_get m key \<noteq> None \<Longrightarrow> bt_get (sub_pools h) (fst key) \<noteq> None"
  shows "mirrors h c'"
proof -
  have "represents i sp c'" if "represents i sp c" for i sp
    using that holds_same_live [OF _ slots live] represents_slots [OF that]
    by (auto simp: represents_def c')
  with assms(1,3) known show ?thesis
    by (auto simp: mirrors_def pools_mirrored_def cash_mirrored_def runtime_ok_def c')
qed

lemma pre_init_mirrors:
  assumes "mirrors h c" and "pre_init_dormant_bucket i d t c = (c', r)"
  shows "mirrors h c'"
proof (cases "r = Ok ()")
  case False
  with assms show ?thesis by (auto simp: pre_init_dormant_bucket_def split: if_splits)
next
  case True
  let ?a = "\<lparr>ba_sub_pool_id = i, ba_record = dead_record d t\<rparr>"
  let ?m = "bt_put (i, d, t) ?a (ch_buckets c)"
  have c': "c' = c\<lparr>ch_buckets := ?m\<rparr>" and none: "bt_get (ch_buckets c) (i, d, t) = None"
    and sp: "bt_get (ch_sub_pools c) i \<noteq> None"
    using assms(2) True by (auto simp: pre_init_dormant_bucket_def split: if_splits)
  note md = mirrorsD [OF assms(1)]
  have wf: "bt_wf (ch_buckets c)" using md(1) by (simp add: runtime_ok_def)
  have pool: "bt_get (sub_pools h) i \<noteq> None" using sp md(7) by (auto simp: pools_mirrored_def)
  have dead: "is_dead (dead_record d t)" "br_direction (dead_record d t) = direction_byte d"
    by (simp_all add: is_dead_def dead_record_def)
  show ?thesis
  proof (rule mirrors_buckets [OF assms(1) c'])
    show "bt_wf ?m" using wf by (rule bt_wf_put)
    show "live_record c' j e u = live_record c j e u" for j e u
      using none dead by (simp add: live_record_def c' bt_get_put [OF wf])
    show "slots_ok j e c'" if "slots_ok j e c" for j e
      using that dead by (simp add: slots_ok_def c' bt_get_put [OF wf])
    show "bt_get (sub_pools h) (fst key) \<noteq> None" if "bt_get ?m key \<noteq> None" for key
      using that pool mirrors_buckets_known [OF assms(1), of key] by (auto simp: bt_get_put [OF wf] split: if_splits)
  qed
qed

lemma close_bucket_mirrors:
  assumes "mirrors h c" and "close_dormant_bucket i d t c = (c', r)"
  shows "mirrors h c'"
proof (cases "r = Ok ()")
  case False
  with assms show ?thesis
    by (auto simp: close_dormant_bucket_def split: if_splits option.splits)
next
  case True
  let ?m = "bt_del (i, d, t) (ch_buckets c)"
  obtain a where c': "c' = c\<lparr>ch_buckets := ?m\<rparr>" and a: "bt_get (ch_buckets c) (i, d, t) = Some a"
    and dead: "is_dead (ba_record a)"
    using assms(2) True by (auto simp: close_dormant_bucket_def split: if_splits option.splits)
  note md = mirrorsD [OF assms(1)]
  have wf: "bt_wf (ch_buckets c)" using md(1) by (simp add: runtime_ok_def)
  show ?thesis
  proof (rule mirrors_buckets [OF assms(1) c'])
    show "bt_wf ?m" using wf by (rule bt_wf_del)
    show "live_record c' j e u = live_record c j e u" for j e u
      using a dead by (simp add: live_record_def c' bt_get_del [OF wf])
    show "slots_ok j e c'" if "slots_ok j e c" for j e
      using that by (simp add: slots_ok_def c' bt_get_del [OF wf])
    show "bt_get (sub_pools h) (fst key) \<noteq> None" if "bt_get ?m key \<noteq> None" for key
      using that mirrors_buckets_known [OF assms(1), of key] by (auto simp: bt_get_del [OF wf] split: if_splits)
  qed
qed

lemma packed_new_store:
  "packed_ledger n (new_store d) = empty_ledger d n" "bt_get (buckets (new_store d)) t = None"
  by (simp_all add: packed_ledger_def new_store_def empty_ledger_def bt_empty_def)

lemma add_sub_pool_mirrors:
  assumes "mirrors h c" and "harness_ok h" and "bt_get (sub_pools h) i = None"
  shows "mirrors (add_sub_pool i price slot h) (chain_add_sub_pool i price slot c)"
proof -
  let ?c = "chain_add_sub_pool i price slot c" and ?n = "new_sub_pool i price slot"
  note md = mirrorsD [OF assms(1)]
  have caps: "max_dormant_bucket_count_per_direction (h_market h) < 2 ^ 32"
      "max_distribution_ledger_size (h_market h) < 2 ^ 32"
    using md(7) by (simp_all add: pools_mirrored_def)
  have wf: "bt_wf (ch_sub_pools c)" "bt_wf (ch_buckets c)" "bt_wf (ch_ledgers c)" "bt_wf (sub_pools h)"
    using md(1) mirrors_pools_wf(1) [OF assms(2)] by (simp_all add: runtime_ok_def)
  have b: "ch_buckets ?c = ch_buckets c" "ch_params ?c = ch_params c" "ch_positions ?c = ch_positions c"
    and s: "bt_get (ch_sub_pools ?c) = (bt_get (ch_sub_pools c))(i \<mapsto> new_sub_pool_account i price slot)"
    and l: "bt_get (ch_ledgers ?c) = (bt_get (ch_ledgers c))
        ((i, Long) \<mapsto> \<lparr>la_sub_pool_id = i, la_ledger = empty_ledger Long (max_distribution_ledger_size (ch_params c))\<rparr>,
         (i, Short) \<mapsto> \<lparr>la_sub_pool_id = i, la_ledger = empty_ledger Short (max_distribution_ledger_size (ch_params c))\<rparr>)"
    by (simp_all add: chain_add_sub_pool_def Let_def bt_get_put bt_wf_put wf)
  have ok: "runtime_ok ?c"
    using md(1) by (simp add: runtime_ok_def chain_add_sub_pool_def Let_def bt_wf_put)
  have none: "bt_get (ch_buckets c) (i, d, t) = None" for d t
    using mirrors_buckets_known [OF assms(1), of "(i, d, t)"] assms(3) by fastforce
  have "holds i d (new_store d) ?c" for d
    using none by (cases d) (simp_all add: holds_def slots_ok_def live_record_def b l packed_new_store)
  moreover have "dormant d ?n = new_store d" for d by (cases d) (simp_all add: dormant_def new_sub_pool_def)
  ultimately have rep: "represents i ?n ?c"
    by (simp add: represents_def s new_sub_pool_account_def write_scalars_def new_sub_pool_def)
  have others: "represents j sp ?c" if "represents j sp c" "j \<noteq> i" for j sp
  proof -
    have "holds j d st ?c = holds j d st c" for d st
      using that(2) by (intro holds_cong) (simp_all add: b l)
    with that show ?thesis by (simp add: represents_def s)
  qed
  have "pools_mirrored (h_market h) (bt_put i ?n (sub_pools h)) ?c"
    using md(7) rep others new_sub_pool_fits [OF caps] wf(4)
    by (auto simp: pools_mirrored_def bt_get_put b s)
  with ok md(5,6) show ?thesis
    by (simp add: mirrors_def add_sub_pool_def cash_mirrored_def b) (simp add: chain_add_sub_pool_def Let_def)
qed

section \<open>Runs\<close>

inductive paired :: "market_params \<Rightarrow> bool \<Rightarrow> harness \<Rightarrow> chain_runtime \<Rightarrow> bool" for market strict where
  paired_start: "paired market strict (new_harness market)
      (with_strict_pda_lifecycle strict (new_runtime market))"
| paired_added: "paired market strict h c \<Longrightarrow> bt_get (sub_pools h) i = None
    \<Longrightarrow> paired market strict (add_sub_pool i price slot h) (chain_add_sub_pool i price slot c)"
| paired_called: "paired market strict h c \<Longrightarrow> chain_call h call \<Longrightarrow> perform call h = (h', r) \<Longrightarrow> completed r
    \<Longrightarrow> chain_perform call c = (c', r') \<Longrightarrow> \<not> no_slot (c', r') \<Longrightarrow> paired market strict h' c'"
| paired_init: "paired market strict h c \<Longrightarrow> pre_init_dormant_bucket i d t c = (c', r)
    \<Longrightarrow> paired market strict h c'"
| paired_close: "paired market strict h c \<Longrightarrow> close_dormant_bucket i d t c = (c', r)
    \<Longrightarrow> paired market strict h c'"

inductive_cases pairedE: "paired market strict h c"

lemma completed_result [simp]:
  "completed (and_then r (\<lambda>_. Ok ())) = completed r" "completed (and_then u Ok) = completed u"
  by (cases r; cases u; auto simp: completed_def)+

lemma perform_hstep:
  assumes "chain_call h call" and "perform call h = (h', r)" and "completed r"
  shows "hstep h h'"
proof (cases call)
  case (OpenCall i d gross env)
  with assms show ?thesis
    by (cases "harness_open i d gross env h")
      (auto simp: chain_call_def call_ok_def perform_def result_of_def intro: opened)
next
  case (CloseCall pid env)
  with assms show ?thesis
    by (cases "harness_close pid env h")
      (auto simp: chain_call_def call_ok_def perform_def result_of_def intro: closed)
next
  case (ForceCloseCall pid env ack)
  with assms show ?thesis
    by (cases "harness_force_close pid env ack h")
      (auto simp: chain_call_def call_ok_def perform_def result_of_def intro: forced)
next
  case (ClaimCall pid env)
  with assms show ?thesis
    by (cases "harness_claim_recovery pid env h")
      (auto simp: chain_call_def call_ok_def perform_def result_of_def intro: claimed)
next
  case (SyncCall i env)
  with assms show ?thesis
    by (cases "harness_sync i env h")
      (auto simp: chain_call_def call_ok_def perform_def result_of_def intro: synced)
next
  case (PreSyncCall i d tick slot)
  with assms show ?thesis
    by (cases "harness_pre_sync_bucket i d tick slot h")
      (auto simp: chain_call_def call_ok_def perform_def result_of_def intro: pre_synced)
next
  case (DrainCall i slot)
  with assms show ?thesis by (simp add: chain_call_def)
next
  case (HarvestCall i d)
  with assms show ?thesis
    by (cases "harness_harvest_dust i d h")
      (auto simp: chain_call_def call_ok_def perform_def result_of_def intro: harvested)
qed

lemma agree_mirrors:
  assumes "agree h c (h', r) (c', r')" and "completed r" and "mirrors h c"
  shows "mirrors h' c'"
  using assms by (cases r) (auto simp: agree_def completed_def split: failure.splits if_splits)

section \<open>The lifecycle mode never changes\<close>

definition keeps_mode :: "chain_runtime \<Rightarrow> chain_runtime \<times> 'a \<Rightarrow> bool" where
  "keeps_mode c cr \<longleftrightarrow> strict_pda_lifecycle (fst cr) = strict_pda_lifecycle c"

named_theorems mode_intros "steps that keep the lifecycle mode"

lemma keeps_mode_pair [mode_intros]:
  "strict_pda_lifecycle c' = strict_pda_lifecycle c \<Longrightarrow> keeps_mode c (c', r)"
  by (simp add: keeps_mode_def)

lemma needing_keeps [mode_intros]:
  "(\<And>x. keeps_mode c (k x)) \<Longrightarrow> strict_pda_lifecycle c1 = strict_pda_lifecycle c
    \<Longrightarrow> keeps_mode c (needing m c1 k)"
  by (auto simp: needing_def keeps_mode_def split: sum.splits)

lemma run_engine_keeps [mode_intros]:
  "(\<And>x. keeps_mode c (k x)) \<Longrightarrow> strict_pda_lifecycle (undo c1) = strict_pda_lifecycle c
    \<Longrightarrow> keeps_mode c (run_engine m c1 undo k)"
  by (auto simp: run_engine_def keeps_mode_def split: sum.splits)

lemma write_side_keeps: "keeps_mode c (write_side i core d c)"
  by (auto simp: keeps_mode_def write_side_def write_buckets_strict_def write_buckets_loose_def Let_def
      split: sum.splits option.splits prod.splits)

lemma write_core_keeps: "strict_pda_lifecycle (fst (write_core_sub_pool i core c)) = strict_pda_lifecycle c"
  using write_side_keeps [of c i core Long]
    write_side_keeps [of "fst (write_side i core Long c)" i core Short]
  by (auto simp: keeps_mode_def write_core_sub_pool_def split: sum.splits option.splits prod.splits)

lemma write_or_undo_keeps [mode_intros]:
  assumes "\<And>c2. strict_pda_lifecycle c2 = strict_pda_lifecycle c \<Longrightarrow> keeps_mode c (k c2)"
    and "\<And>c2. strict_pda_lifecycle (undo c2) = strict_pda_lifecycle c2"
    and "strict_pda_lifecycle c1 = strict_pda_lifecycle c"
  shows "keeps_mode c (write_or_undo i core c1 undo k)"
proof -
  obtain c2 r where w: "write_core_sub_pool i core c1 = (c2, r)" by (metis prod.exhaust)
  have c2: "strict_pda_lifecycle c2 = strict_pda_lifecycle c"
    using write_core_keeps [of i core c1] assms(3) by (simp add: w)
  show ?thesis
    using assms(1) [OF c2] assms(2) [of c2] c2
    by (cases r) (simp_all add: write_or_undo_def w keeps_mode_def)
qed

lemma restore_keeps [simp]: "strict_pda_lifecycle (restore_sub_pool snap c) = strict_pda_lifecycle c"
  by (simp add: restore_sub_pool_def Let_def)

lemma withdraw_keeps [mode_intros]:
  "strict_pda_lifecycle c1 = strict_pda_lifecycle c \<Longrightarrow> keeps_mode c (withdraw a msg x c1)"
  unfolding withdraw_def Let_def by (intro mode_intros) simp_all

lemma book_open_keeps:
  "chain_book_open gross out c = Inr c' \<Longrightarrow> strict_pda_lifecycle c' = strict_pda_lifecycle c"
  by (auto simp: chain_book_open_def)

lemma settle_keeps:
  assumes "\<And>out c2. strict_pda_lifecycle c2 = strict_pda_lifecycle c \<Longrightarrow> keeps_mode c (finish out c2)"
  shows "keeps_mode c (settle_position pid engine finish c)"
  unfolding settle_position_def Let_def case_prod_unfold by (intro mode_intros assms) simp_all

lemma instructions_keep_mode:
  "keeps_mode c (chain_open i d gross env c)" "keeps_mode c (chain_close pid env c)"
  "keeps_mode c (chain_force_close pid env ack c)" "keeps_mode c (chain_claim_recovery pid env c)"
  "keeps_mode c (chain_sync i env c)" "keeps_mode c (chain_harvest_dust i d c)"
  "keeps_mode c (chain_pre_sync_bucket i d tick slot c)"
proof -
  have book: "keeps_mode c (needing (chain_book_open gross out c2) c2 k)"
    if "strict_pda_lifecycle c2 = strict_pda_lifecycle c"
      "\<And>c3. strict_pda_lifecycle c3 = strict_pda_lifecycle c \<Longrightarrow> keeps_mode c (k c3)"
    for gross out c2 and k :: "chain_runtime \<Rightarrow> chain_runtime \<times> chain_open_summary mirrored"
    using that book_open_keeps
    by (cases "chain_book_open gross out c2") (auto simp: needing_def keeps_mode_def)
  show "keeps_mode c (chain_open i d gross env c)"
    unfolding chain_open_def Let_def case_prod_unfold
    by (intro mode_intros book) simp_all
  show "keeps_mode c (chain_close pid env c)" "keeps_mode c (chain_force_close pid env ack c)"
    "keeps_mode c (chain_claim_recovery pid env c)"
    unfolding chain_close_def chain_force_close_def chain_claim_recovery_def
    by (intro settle_keeps mode_intros; simp)+
  show "keeps_mode c (chain_sync i env c)"
    unfolding chain_sync_def case_prod_unfold
    using write_core_keeps by (intro mode_intros) (auto simp: keeps_mode_def split: sum.splits)
  show "keeps_mode c (chain_harvest_dust i d c)"
    unfolding chain_harvest_dust_def Let_def case_prod_unfold by (intro mode_intros) simp_all
  show "keeps_mode c (chain_pre_sync_bucket i d tick slot c)"
    unfolding chain_pre_sync_bucket_def case_prod_unfold
    by (cases "bt_get (ch_buckets c) (i, d, tick) = None") (simp_all add: keeps_mode_def, intro mode_intros [unfolded keeps_mode_def], simp_all)
qed

lemma perform_keeps_mode: "strict_pda_lifecycle (fst (chain_perform call c)) = strict_pda_lifecycle c"
  using instructions_keep_mode [unfolded keeps_mode_def]
  by (cases call) (simp_all add: chain_perform_def)

lemma paired_mirrors:
  assumes "paired market strict h c" and "max_dormant_bucket_count_per_direction market < 2 ^ 32"
    and "max_distribution_ledger_size market < 2 ^ 32"
  shows "mirrors h c \<and> harness_ok h \<and> strict_pda_lifecycle c = strict"
  using assms(1)
proof (induction rule: paired.induct)
  case paired_start
  show ?case
    using mirrors_new [OF assms(2,3)] new_harness_ok
    by (simp add: with_strict_pda_lifecycle_def)
next
  case (paired_added h c i price slot)
  then show ?case
    using add_sub_pool_mirrors add_sub_pool_ok by (simp add: chain_add_sub_pool_def Let_def)
next
  case (paired_called h c call h' r c' r')
  have ok: "harness_ok h'"
    using hstep_ok [OF perform_hstep [OF paired_called.hyps(2-4)]] paired_called.IH by blast
  have "agree h c (h', r) (c', r')"
    using calls_agree [OF _ _ paired_called.hyps(2), of c] paired_called by simp
  from agree_mirrors [OF this paired_called.hyps(4)] ok paired_called perform_keeps_mode [of call c]
  show ?case by simp
next
  case (paired_init h c i d t c' r)
  have "strict_pda_lifecycle c' = strict_pda_lifecycle c"
    using paired_init.hyps(2) by (auto simp: pre_init_dormant_bucket_def split: if_splits)
  with paired_init.IH pre_init_mirrors [OF _ paired_init.hyps(2)] show ?case by simp
next
  case (paired_close h c i d t c' r)
  have "strict_pda_lifecycle c' = strict_pda_lifecycle c"
    using paired_close.hyps(2) by (auto simp: close_dormant_bucket_def split: if_splits option.splits)
  with paired_close.IH close_bucket_mirrors [OF _ paired_close.hyps(2)] show ?case by simp
qed

end
