(* ===== verification/Chain_Properties.thy ===== *)
theory Chain_Properties
  imports Chain_Runs
begin

text \<open>
  Kernel evaluation of the account runtime: the collection \<open>cevals\<close> unfolds its operations and the
  on-chain layout on top of \<open>evals\<close>. The sample run opens two positions under the strict
  lifecycle, initialises the bucket account the long side will need, lets the price wipe the
  long side out, and opens a larger long.
\<close>

named_theorems cevals "definitions unfolded to evaluate the account runtime"

declare new_sub_pool_account_def [cevals] new_runtime_def [cevals] with_strict_pda_lifecycle_def [cevals]
  pre_init_dormant_bucket_def [cevals] close_dormant_bucket_def [cevals] chain_add_sub_pool_def [cevals]
  of_side_def [cevals] check_vault_decomposition_def [cevals] to_rotate_record_def [cevals]
  of_rotate_record_def [cevals] records_of_side_def [cevals] unpack_dormant_def [cevals]
  build_core_sub_pool_def [cevals] write_buckets_loose_def [cevals] zero_record_def [cevals]
  zero_leftovers_def [cevals] write_buckets_strict_def [cevals] write_side_def [cevals]
  write_scalars_def [cevals] write_core_sub_pool_def [cevals] snapshot_sub_pool_def [cevals]
  restore_sub_pool_def [cevals] write_or_undo_def [cevals] chain_sync_def [cevals]
  chain_book_open_def [cevals] chain_open_def [cevals] settle_position_def [cevals] withdraw_def [cevals]
  chain_close_def [cevals] chain_pre_sync_bucket_def [cevals]
declare is_dead_def [cevals] dead_record_def [cevals] empty_ledger_def [cevals] pack_bucket_def [cevals]
  pack_entry_def [cevals] pack_dormant_store_def [cevals] direction_of_byte_def [cevals]
  direction_byte_def [cevals] check_entry_def [cevals] unpack_bucket_def [cevals] unpack_step_def [cevals]
  unpack_entry_def [cevals] unpack_dormant_store_def [cevals]

definition strict_start :: chain_runtime where
  "strict_start = chain_add_sub_pool 7 1000 0
     (with_strict_pda_lifecycle True (new_runtime (demo_market Eager)))"



lemma direction_order [cevals]: "Long < Short" "\<not> Short < Long"
  by (simp_all add: less_direction_def)

lemma strict_run:
  "\<exists>c1 c2 c4 c5 c6 r1 r2 r4 r5. chain_open 7 Long 100000000 (env_at 1000 1) strict_start = (c1, Inr r1)
    \<and> chain_open 7 Short 1000000000 (env_at 1000 1) c1 = (c2, Inr r2)
    \<and> chain_sync 7 (env_at 900 2) (fst (pre_init_dormant_bucket 7 Long 900 c2)) = (c4, Inr r4)
    \<and> chain_open 7 Long 10000000000 (env_at 900 3) c4 = (c5, Inr r5)
    \<and> check_vault_decomposition c5 = Inr ()
    \<and> chain_sync 7 (env_at 990 4) c5 = (c6, Err (BucketSlotExhausted 7 Short))
    \<and> (\<exists>msg. check_vault_decomposition c6 = Err (MirrorInvariant msg))"
  by (simp add: strict_start_def evals cevals)

definition run_to_wipe_out :: "chain_runtime \<Rightarrow> bool" where
  "run_to_wipe_out c \<longleftrightarrow> (\<exists>c1 c2 c3 r1 r2 r3 r4.
     chain_open 7 Long 100000000 (env_at 1000 1) strict_start = (c1, Ok r1)
     \<and> chain_open 7 Short 1000000000 (env_at 1000 1) c1 = (c2, Ok r2)
     \<and> chain_sync 7 (env_at 900 2) (fst (pre_init_dormant_bucket 7 Long 900 c2)) = (c3, Ok r3)
     \<and> chain_open 7 Long 10000000000 (env_at 900 3) c3 = (c, Ok r4))"

text \<open>The sample runtime and the sample harness, with one fresh sub-pool.\<close>

definition pair_start :: "distribute_mode \<Rightarrow> bool \<Rightarrow> harness \<times> chain_runtime" where
  "pair_start m strict = (add_sub_pool 7 0 0 (new_harness (demo_market m)),
     chain_add_sub_pool 7 0 0 (with_strict_pda_lifecycle strict (new_runtime (demo_market m))))"

lemma pair_start_paired: "paired (demo_market m) strict (fst (pair_start m strict)) (snd (pair_start m strict))"
  unfolding pair_start_def fst_conv snd_conv
  by (rule paired_added [OF paired_start]) (simp add: new_harness_def bt_empty_def)

text \<open>Two opens, a wipe-out and a recovery: the ledger of the long side has one entry.\<close>

lemma recovery_run_harness:
  "\<exists>h1 h2 h3 h4 r1 r2. harness_open 7 Long 100000000 (env_at 1000 1) (fst (pair_start Eager True)) = (h1, Inr r1)
     \<and> harness_open 7 Short 1000000000 (env_at 1000 1) h1 = (h2, Inr r2)
     \<and> harness_sync 7 (env_at 900 2) h2 = (h3, Inr ())
     \<and> harness_sync 7 (env_at 990 3) h3 = (h4, Inr ())
     \<and> bt_get (sub_pools h1) 7 \<noteq> None \<and> bt_get (sub_pools h2) 7 = Some demo_pool
     \<and> bt_get (sub_pools h3) 7 = Some demo_wiped"
  by (simp add: pair_start_def evals hevals demo)

lemma recovery_run_chain:
  "\<exists>c1 c2 c3 c4 c5 r1 r2 r3 r4.
     chain_open 7 Long 100000000 (env_at 1000 1) (snd (pair_start Eager True)) = (c1, Inr r1)
     \<and> chain_open 7 Short 1000000000 (env_at 1000 1) c1 = (c2, Inr r2)
     \<and> chain_sync 7 (env_at 900 2) (fst (pre_init_dormant_bucket 7 Long 900 c2)) = (c3, Inr r3)
     \<and> chain_sync 7 (env_at 990 3) c3 = (c4, Inr r4)
     \<and> pre_init_dormant_bucket 7 Long 800 c4 = (c5, Ok ())
     \<and> map_option (ol_next_event_index \<circ> la_ledger) (bt_get (ch_ledgers c4) (7, Long)) = Some 1
     \<and> (\<forall>ka\<in>set (ch_buckets c5). case ka of ((j, d, t), a) \<Rightarrow>
          j = 7 \<and> d = Long \<and> br_last_applied_index (ba_record a) \<le> 1)"
  by (simp add: pair_start_def evals cevals)


text \<open>
  The properties of the account runtime of \<open>crates/chain-mirror/src/lib.rs\<close>: it computes what the
  harness computes, a failing instruction other than a sync leaves no trace, and the three
  places where it does not do what it is meant to.
\<close>

section \<open>Parity with the harness\<close>

text \<open>What a reader of the accounts sees is what the harness holds.\<close>

definition reads_as :: "harness \<Rightarrow> chain_runtime \<Rightarrow> bool" where
  "reads_as h c \<longleftrightarrow>
     (\<forall>i. build_core_sub_pool i c = (case bt_get (sub_pools h) i of
            None \<Rightarrow> Err (MirrorSubPoolNotFound i) | Some sp \<Rightarrow> Ok sp))
     \<and> (\<forall>pid. chain_position c pid = bt_get (positions h) pid)
     \<and> ch_next_position_id c = next_position_id h
     \<and> ch_vault_balance c = vault_balance h \<and> ch_fee_vault_balance c = fee_vault_balance h
     \<and> ch_total_deposits c = total_deposits h \<and> ch_total_withdrawals c = total_withdrawals h"

lemma mirrors_reads:
  assumes "mirrors h c"
  shows "reads_as h c"
proof -
  note md = mirrorsD [OF assms]
  have "build_core_sub_pool i c = (case bt_get (sub_pools h) i of
            None \<Rightarrow> Err (MirrorSubPoolNotFound i) | Some sp \<Rightarrow> Ok sp)" for i
  proof (cases "bt_get (sub_pools h) i")
    case None
    with md(7) show ?thesis by (auto simp: pools_mirrored_def build_core_sub_pool_def)
  next
    case (Some sp)
    with build_represents [OF md(1,3)] md(2,4) show ?thesis by simp
  qed
  moreover have "chain_position c pid = bt_get (positions h) pid" for pid
    using md(5) [of pid] by (cases "bt_get (positions h) pid") (simp_all add: chain_position_def account_of_def)
  ultimately show ?thesis using md(6) by (simp add: reads_as_def cash_mirrored_def)
qed

definition small_caps :: "market_params \<Rightarrow> bool" where
  "small_caps m \<longleftrightarrow> max_dormant_bucket_count_per_direction m < 2 ^ 32
     \<and> max_distribution_ledger_size m < 2 ^ 32"

lemma paired_facts:
  assumes "paired market strict h c" and "small_caps market"
  shows "mirrors h c" and "harness_ok h" and "strict_pda_lifecycle c = strict"
  using paired_mirrors [OF assms(1)] assms(2) by (simp_all add: small_caps_def)

lemma demo_small_caps: "small_caps (demo_market m)"
  by (simp add: small_caps_def evals)

text \<open>
  C10: the account runtime and the in-memory protocol compute the same. After the same calls
  the same call has the same outcome: when the protocol refuses it, the runtime refuses it
  with the matching error and no account has changed; when the protocol accepts it, so does
  the runtime, and rebuilding every sub-pool and position from the accounts gives
  exactly the protocol's, with the same counters and vaults. With bucket accounts created on
  demand this is always so; in the strict lifecycle the runtime may instead find no account
  for a bucket.
\<close>

theorem chain_parity:
  assumes "paired market strict h c" and "small_caps market" and "chain_call h call"
    and "perform call h = (h', r)" and "completed r" and "chain_perform call c = (c', r')"
  shows "reads_as h c \<and> (strict \<and> no_slot (c', r')
     \<or> (case r of
          Inl (Failed e) \<Rightarrow> (if refuses e then c' = c \<and> (\<exists>e'. r' = Err e' \<and> refusal e e')
                             else r' = Ok () \<and> reads_as h' c')
        | Inr _ \<Rightarrow> r' = Ok () \<and> reads_as h' c'))"
proof -
  note pf = paired_facts [OF assms(1,2)]
  from calls_agree [OF pf(1,2) assms(3)] assms(4,6) pf(3)
  consider "agree h c (h', r) (c', r')" | "strict" "no_slot (c', r')" by auto
  then show ?thesis
  proof cases
    case 1
    with assms(5) mirrors_reads show ?thesis
      by (cases r) (auto simp: agree_def mirrors_reads [OF pf(1)] completed_def split: failure.splits if_splits)
  next
    case 2
    with mirrors_reads [OF pf(1)] show ?thesis by simp
  qed
qed

theorem chain_parity_witness:
  "\<exists>h c h' c'. paired (demo_market Lazy) False h c
     \<and> perform (OpenCall 7 Long 100000000 (env_at 1000 1)) h = (h', Inr ())
     \<and> chain_perform (OpenCall 7 Long 100000000 (env_at 1000 1)) c = (c', Inr ()) \<and> reads_as h' c'"
proof -
  let ?h = "fst (pair_start Lazy False)" and ?c = "snd (pair_start Lazy False)"
  let ?call = "OpenCall 7 Long 100000000 (env_at 1000 1)"
  obtain h' where h': "perform ?call ?h = (h', Inr ())"
  proof -
    have "\<exists>h'. perform ?call ?h = (h', Inr ())"
      by (simp add: pair_start_def perform_def result_of_def evals hevals)
    with that show ?thesis by blast
  qed
  obtain c' r' where c': "chain_perform ?call ?c = (c', r')" by (rule prod.exhaust)
  have call: "chain_call ?h ?call"
    by (simp add: chain_call_def call_ok_def pair_start_def add_sub_pool_def new_harness_def bt_empty_def env_at_def)
  from chain_parity [OF pair_start_paired demo_small_caps call h' _ c'] pair_start_paired h' c'
  show ?thesis by auto
qed

section \<open>Failing instructions\<close>

text \<open>
  an instruction of the account runtime that fails leaves every account, counter and
  vault as it was, whatever it had written before the error: in the strict lifecycle too,
  where a write-back can stop half way. The sync is the exception.
\<close>

theorem chain_failures_revert:
  assumes "paired market strict h c" and "small_caps market" and "chain_call h call"
    and "perform call h = (h', r)" and "completed r" and "\<not> syncs call"
    and "chain_perform call c = (c', Err e)"
  shows "c' = c"
proof -
  note pf = paired_facts [OF assms(1,2)]
  have "agree h c (h', r) (c', Err e :: unit mirrored) \<or> c' = c"
    using calls_agree [OF pf(1,2) assms(3)] assms(4,6,7) by auto
  then consider "agree h c (h', r) (c', Err e :: unit mirrored)" | "c' = c" by blast
  then show ?thesis
  proof cases
    case 1
    with assms(5) show ?thesis
      by (cases r) (auto simp: agree_def completed_def split: failure.splits if_splits)
  qed
qed

theorem chain_failures_revert_witness:
  "\<exists>h c. paired (demo_market Lazy) True h c
     \<and> chain_perform (OpenCall 7 Long 0 (env_at 1000 1)) c = (c, Err (MirrorClearing MarginBelowMinimum))"
proof -
  let ?h = "fst (pair_start Lazy True)" and ?c = "snd (pair_start Lazy True)"
  let ?call = "OpenCall 7 Long 0 (env_at 1000 1)"
  have "\<exists>h'. perform ?call ?h = (h', Inl (Failed (Clearing MarginBelowMinimum)))"
    by (simp add: pair_start_def perform_def result_of_def evals hevals)
  then obtain h' where h': "perform ?call ?h = (h', Inl (Failed (Clearing MarginBelowMinimum)))" by blast
  have "snd (chain_perform ?call ?c) = Err (MirrorClearing MarginBelowMinimum)"
    by (simp add: pair_start_def chain_perform_def outcome_of_def evals cevals)
  then obtain c' where c': "chain_perform ?call ?c = (c', Err (MirrorClearing MarginBelowMinimum))"
    by (metis prod.collapse)
  have call: "chain_call ?h ?call"
    by (simp add: chain_call_def call_ok_def pair_start_def add_sub_pool_def new_harness_def bt_empty_def env_at_def)
  from chain_failures_revert [OF pair_start_paired demo_small_caps call h' _ _ c'] pair_start_paired c'
  show ?thesis by (auto simp: syncs_def)
qed

section \<open>What the runtime gets wrong\<close>

text \<open>
  a failed sync can leave the accounts half written. Under the strict lifecycle a sync that
  finds no account for a bucket returns the error without restoring its snapshot, so the
  side written first stays: from a state reached by four successful calls in which the vault
  decomposition holds, the failing sync leaves one in which it does not.
\<close>

theorem failed_sync_half_written:
  "\<exists>c c' msg. run_to_wipe_out c \<and> check_vault_decomposition c = Ok ()
     \<and> chain_sync 7 (env_at 990 4) c = (c', Err (BucketSlotExhausted 7 Short))
     \<and> check_vault_decomposition c' = Err (MirrorInvariant msg)"
  using strict_run unfolding run_to_wipe_out_def by blast

text \<open>
  an instruction on a sub-pool that does not exist aborts instead of returning the error for
  it: the snapshot is taken, with unwraps, before the lookup that would report it.
\<close>

theorem missing_sub_pool_aborts:
  assumes "bt_get (ch_ledgers c) (i, Long) = None"
  shows "(\<exists>msg. chain_sync i env c = (c, Panic msg)) \<and> (\<exists>msg. chain_open i d gross env c = (c, Panic msg))
    \<and> (\<exists>msg. chain_harvest_dust i d c = (c, Panic msg))"
  using assms by (simp add: chain_sync_def chain_open_def chain_harvest_dust_def snapshot_sub_pool_def
      expect_def needing_def)

theorem missing_sub_pool_aborts_witness:
  "\<exists>msg. chain_sync 7 (env_at 1000 1) (new_runtime (demo_market Eager))
     = (new_runtime (demo_market Eager), Panic msg)"
proof -
  have "bt_get (ch_ledgers (new_runtime (demo_market Eager))) (7, Long) = None"
    by (simp add: new_runtime_def bt_empty_def)
  from missing_sub_pool_aborts [OF this] show ?thesis by blast
qed

lemma late_slot_stuck:
  assumes "paired market strict h c" and "small_caps market"
    and "pre_init_dormant_bucket i d tick c = (c1, Ok ())"
    and "bt_get (ch_ledgers c) (i, d) = Some l" and "0 < ol_next_event_index (la_ledger l)"
  shows "close_dormant_bucket i d tick c1 = (c1, Err (BucketLifecycleViolation i d tick
           ''bucket has pending lazy distributions''))
    \<and> (\<exists>ce. chain_pre_sync_bucket i d tick slot c1 = (c1, Err (MirrorClearing ce)))"
proof
  have none: "bt_get (ch_buckets c) (i, d, tick) = None" and some: "bt_get (ch_sub_pools c) i \<noteq> None"
    and c1: "c1 = c\<lparr>ch_buckets := bt_put (i, d, tick)
      \<lparr>ba_sub_pool_id = i, ba_record = dead_record d tick\<rparr> (ch_buckets c)\<rparr>"
    using assms(3) by (auto simp: pre_init_dormant_bucket_def split: if_splits)
  note pf = paired_facts [OF assms(1,2)]
  have wf: "bt_wf (ch_buckets c)" using mirrorsD(1) [OF pf(1)] by (simp add: runtime_ok_def)
  show "close_dormant_bucket i d tick c1 = (c1, Err (BucketLifecycleViolation i d tick
           ''bucket has pending lazy distributions''))"
    using assms(4,5) by (simp add: close_dormant_bucket_def c1 bt_get_put [OF wf] dead_record_def is_dead_def)
  obtain sp where sp: "bt_get (sub_pools h) i = Some sp"
    using some mirrorsD(7) [OF pf(1)] unfolding pools_mirrored_def by fastforce
  note m1 = mirrorsD [OF pre_init_mirrors [OF pf(1) assms(3)]]
  obtain snap where snap: "snapshot_sub_pool i c1 = Ok snap" "sa_sub_pool_id (ss_sub_pool snap) = i"
    using snapshot_represents [OF m1(3) [OF sp]] .
  have build: "build_core_sub_pool i c1 = Ok sp"
    using build_represents [OF m1(1) m1(3) [OF sp]] m1(2) m1(4) [OF sp] by simp
  have "get_bucket (dormant d sp) tick = None"
    using bucket_account_missing [OF mirrorsD(3) [OF pf(1) sp] none] .
  from pre_sync_missing [OF this]
  obtain ce where "pre_sync_dormant_bucket (ch_params c1) d tick slot sp = Inl (Failed ce)" by blast
  moreover have "restore_sub_pool snap c1 = c1"
    using restore_same [OF m1(1) snap] m1(1) by (simp add: pool_frame_def runtime_ok_def same_rest_def)
  moreover have "bt_get (ch_buckets c1) (i, d, tick) \<noteq> None" by (simp add: c1 bt_get_put [OF wf])
  ultimately show "\<exists>ce. chain_pre_sync_bucket i d tick slot c1 = (c1, Err (MirrorClearing ce))"
    by (simp add: chain_pre_sync_bucket_def snap build)
qed

text \<open>Two opens, a wipe-out and a recovery: the ledger of the long side has one entry.\<close>

lemma recovery_run_paired:
  "\<exists>h c c1 l. paired (demo_market Eager) True h c \<and> pre_init_dormant_bucket 7 Long 800 c = (c1, Ok ())
     \<and> bt_get (ch_ledgers c) (7, Long) = Some l \<and> ol_next_event_index (la_ledger l) = 1
     \<and> (\<forall>ka\<in>set (ch_buckets c1). case ka of ((j, d, t), a) \<Rightarrow>
          j = 7 \<and> d = Long \<and> br_last_applied_index (ba_record a) \<le> 1)"
proof -
  let ?o1 = "OpenCall 7 Long 100000000 (env_at 1000 1)" and ?o2 = "OpenCall 7 Short 1000000000 (env_at 1000 1)"
  let ?s1 = "SyncCall 7 (env_at 900 2)" and ?s2 = "SyncCall 7 (env_at 990 3)"
  let ?h = "fst (pair_start Eager True)" and ?c = "snd (pair_start Eager True)"
  note eval = perform_def chain_perform_def result_of_def outcome_of_def
  obtain h1 h2 h3 h4 where h: "perform ?o1 ?h = (h1, Ok ())" "perform ?o2 h1 = (h2, Ok ())"
      "perform ?s1 h2 = (h3, Ok ())" "perform ?s2 h3 = (h4, Ok ())"
    and sp: "bt_get (sub_pools h1) 7 \<noteq> None" "bt_get (sub_pools h2) 7 \<noteq> None" "bt_get (sub_pools h3) 7 \<noteq> None"
    using recovery_run_harness by (auto simp: eval)
  obtain c1 c2 c3 c4 c5 where c: "chain_perform ?o1 ?c = (c1, Ok ())" "chain_perform ?o2 c1 = (c2, Ok ())"
      "chain_perform ?s1 (fst (pre_init_dormant_bucket 7 Long 900 c2)) = (c3, Ok ())"
      "chain_perform ?s2 c3 = (c4, Ok ())"
    and init: "pre_init_dormant_bucket 7 Long 800 c4 = (c5, Ok ())"
    and old: "\<forall>ka\<in>set (ch_buckets c5). case ka of ((j, d, t), a) \<Rightarrow>
        j = 7 \<and> d = Long \<and> br_last_applied_index (ba_record a) \<le> 1"
    and led: "map_option (ol_next_event_index \<circ> la_ledger) (bt_get (ch_ledgers c4) (7, Long)) = Some 1"
    using recovery_run_chain by (auto simp: eval)
  have calls: "chain_call ?h ?o1" "chain_call h1 ?o2" "chain_call h2 ?s1" "chain_call h3 ?s2"
    using sp by (simp_all add: chain_call_def call_ok_def env_at_def pair_start_def add_sub_pool_def
      new_harness_def bt_empty_def)
  have "paired (demo_market Eager) True h1 c1"
    by (rule paired_called [OF pair_start_paired calls(1) h(1) _ c(1)]) (simp_all add: no_slot_def)
  then have "paired (demo_market Eager) True h2 c2"
    by (rule paired_called [OF _ calls(2) h(2) _ c(2)]) (simp_all add: no_slot_def)
  then have "paired (demo_market Eager) True h2 (fst (pre_init_dormant_bucket 7 Long 900 c2))"
    by (rule paired_init) (rule prod.collapse [symmetric])
  then have "paired (demo_market Eager) True h3 c3"
    by (rule paired_called [OF _ calls(3) h(3) _ c(3)]) (simp_all add: no_slot_def)
  then have run: "paired (demo_market Eager) True h4 c4"
    by (rule paired_called [OF _ calls(4) h(4) _ c(4)]) (simp_all add: no_slot_def)
  with init led old show ?thesis by auto
qed

text \<open>
  once the ledger of a side has seen a distribution, a bucket account initialised for it
  starts behind the ledger and can never be returned unused: its close is refused because of
  pending distributions, and the catch-up that would clear them is refused because the engine
  has no such bucket.
\<close>

theorem late_slot_is_stuck:
  assumes "paired market strict h c" and "small_caps market"
    and "pre_init_dormant_bucket i d tick c = (c1, Ok ())"
    and "bt_get (ch_ledgers c) (i, d) = Some l" and "0 < ol_next_event_index (la_ledger l)"
  shows "close_dormant_bucket i d tick c1 = (c1, Err (BucketLifecycleViolation i d tick
           ''bucket has pending lazy distributions''))
    \<and> (\<exists>ce. chain_pre_sync_bucket i d tick slot c1 = (c1, Err (MirrorClearing ce)))"
  by (rule late_slot_stuck [OF assms])

theorem late_slot_is_stuck_witness:
  "\<exists>h c c1 ce. paired (demo_market Eager) True h c
     \<and> pre_init_dormant_bucket 7 Long 800 c = (c1, Ok ())
     \<and> chain_pre_sync_bucket 7 Long 800 9 c1 = (c1, Err (MirrorClearing ce))"
proof -
  obtain h c c1 l where run: "paired (demo_market Eager) True h c"
    and init: "pre_init_dormant_bucket 7 Long 800 c = (c1, Ok ())"
    and l: "bt_get (ch_ledgers c) (7, Long) = Some l" "ol_next_event_index (la_ledger l) = 1"
    using recovery_run_paired by blast
  have "0 < ol_next_event_index (la_ledger l)" by (simp add: l(2))
  from late_slot_is_stuck [OF run demo_small_caps init l(1) this, of 9] run init show ?thesis by blast
qed

end
