(* ===== verification/Keeper_Chain.thy ===== *)
theory Keeper_Chain
  imports Keeper_Properties Chain_Properties
begin

text \<open>
  The keeper on the account runtime: the view of \<open>crates/keeper/tests/chain_mirror_integration.rs\<close> and
  what the actions planned on it do when they are executed.
\<close>

section \<open>The runtime as a view\<close>

definition mirror_bucket :: "bucket_key \<times> bucket_account \<Rightarrow> keeper_bucket" where
  "mirror_bucket ka = (case ka of ((i, d, t), acc) \<Rightarrow> let r = ba_record acc in
     \<lparr>kb_sub_pool_id = i, kb_direction = d, kb_tick = t, kb_anchor_price = br_anchor_price r,
      kb_total_recovery_shares = br_total_recovery_shares r,
      kb_total_recovery_notional = br_total_recovery_notional r,
      kb_accrued_value = br_accrued_value r, kb_position_count = br_position_count r,
      kb_last_applied_index = br_last_applied_index r\<rparr>)"

definition mirror_buckets :: "chain_runtime \<Rightarrow> u32 \<Rightarrow> keeper_bucket list" where
  "mirror_buckets c i = sort_key (\<lambda>b. (kb_direction b = Short, kb_tick b))
     (map mirror_bucket (filter (\<lambda>(key, acc). fst key = i) (ch_buckets c)))"

definition mirror_ledger :: "chain_runtime \<Rightarrow> u32 \<Rightarrow> direction \<Rightarrow> ledger_snapshot option" where
  "mirror_ledger c i d = map_option (\<lambda>l. \<lparr>ls_sub_pool_id = i, ls_direction = d,
     ls_next_event_index = ol_next_event_index (la_ledger l), ls_bucket_count_hint = 0\<rparr>)
     (bt_get (ch_ledgers c) (i, d))"

definition last_anchor :: "rotate_record_account list \<Rightarrow> u64 \<Rightarrow> u64" where
  "last_anchor records price = (if records = [] then price else ra_anchor_price (last records))"

definition mirror_health :: "chain_runtime \<Rightarrow> u32 \<Rightarrow> sub_pool_health option" where
  "mirror_health c i = map_option (\<lambda>sp. \<lparr>sh_sub_pool_id = i, sh_last_price = sa_last_price sp,
     sh_long_anchor_price = last_anchor (sa_long_rotate_log sp) (sa_last_price sp),
     sh_short_anchor_price = last_anchor (sa_short_rotate_log sp) (sa_last_price sp),
     sh_long_pool_equity = sa_long_pool_equity sp, sh_short_pool_equity = sa_short_pool_equity sp,
     sh_long_active_notional = sa_long_active_notional sp,
     sh_short_active_notional = sa_short_active_notional sp,
     sh_long_active_generation = sa_long_active_generation sp,
     sh_short_active_generation = sa_short_active_generation sp\<rparr>) (bt_get (ch_sub_pools c) i)"

definition mirror_view :: "chain_runtime \<Rightarrow> chain_view" where
  "mirror_view c = \<lparr>cv_sub_pool_ids = map fst (ch_sub_pools c), cv_buckets = mirror_buckets c,
     cv_ledger = mirror_ledger c, cv_sub_pool_health = mirror_health c\<rparr>"

lemma mirror_view_simps [simp]:
  "cv_sub_pool_ids (mirror_view c) = map fst (ch_sub_pools c)"
  "cv_buckets (mirror_view c) = mirror_buckets c" "cv_ledger (mirror_view c) = mirror_ledger c"
  by (simp_all add: mirror_view_def)

lemma in_mirror_buckets:
  assumes "bt_wf (ch_buckets c)"
  shows "b \<in> set (mirror_buckets c i) \<longleftrightarrow>
    (\<exists>d t acc. bt_get (ch_buckets c) (i, d, t) = Some acc \<and> b = mirror_bucket ((i, d, t), acc))"
  unfolding mirror_buckets_def bt.in_entries_iff [OF assms, symmetric] by force

lemma mirror_bucket_simps [simp]:
  "kb_sub_pool_id (mirror_bucket ((i, d, t), acc)) = i" "kb_direction (mirror_bucket ((i, d, t), acc)) = d"
  "kb_tick (mirror_bucket ((i, d, t), acc)) = t"
  "kb_last_applied_index (mirror_bucket ((i, d, t), acc)) = br_last_applied_index (ba_record acc)"
  "snapshot_is_dead (mirror_bucket ((i, d, t), acc)) = is_dead (ba_record acc)"
  by (simp_all add: mirror_bucket_def Let_def snapshot_is_dead_def is_dead_def)

lemma planned_actions:
  assumes "scheduler_plan iter (mirror_view c) s = (s', Ok as)" and "reorders iter"
    and "bt_wf (sc_init_hints s)" and "a \<in> set as"
  shows "wanted (mirror_view c) s a"
  by (rule plan_shape [OF assms(1-3)])
    (use assms(4) in \<open>auto split: if_splits dest: in_set_takeD\<close>)

lemma wants_close:
  assumes "bucket_wants cfg view i b (CloseDormantBucket j d t)"
  shows "\<exists>l. cv_ledger view i (kb_direction b) = Some l \<and> ls_next_event_index l = kb_last_applied_index b
    \<and> snapshot_is_dead b \<and> j = kb_sub_pool_id b \<and> d = kb_direction b \<and> t = kb_tick b"
proof -
  obtain l n where l: "cv_ledger view i (kb_direction b) = Some l" "ls_next_event_index l = kb_last_applied_index b + n"
    and n: "if 0 < n \<and> min_pending_for_pre_sync cfg \<le> n
        then CloseDormantBucket j d t = PreSyncDormantBucket (kb_sub_pool_id b) (kb_direction b) (kb_tick b) n
        else n = 0 \<and> close_dead_buckets cfg \<and> snapshot_is_dead b
          \<and> CloseDormantBucket j d t = CloseDormantBucket (kb_sub_pool_id b) (kb_direction b) (kb_tick b)"
    using assms unfolding bucket_wants_def by blast
  from n have "n = 0 \<and> snapshot_is_dead b \<and> j = kb_sub_pool_id b \<and> d = kb_direction b \<and> t = kb_tick b"
    by (cases "0 < n \<and> min_pending_for_pre_sync cfg \<le> n") simp_all
  with l show ?thesis by simp
qed

section \<open>Executing what was planned\<close>

lemma planned_close:
  assumes "runtime_ok c" and "scheduler_plan iter (mirror_view c) s = (s', Ok as)" and "reorders iter"
    and "bt_wf (sc_init_hints s)" and "CloseDormantBucket i d t \<in> set as"
  shows "close_dormant_bucket i d t c = (c\<lparr>ch_buckets := bt_del (i, d, t) (ch_buckets c)\<rparr>, Ok ())"
proof -
  have wf: "bt_wf (ch_buckets c)" using assms(1) by (simp add: runtime_ok_def)
  from planned_actions [OF assms(2-5)]
  obtain j b where b: "b \<in> set (mirror_buckets c j)"
      "bucket_wants (sc_config s) (mirror_view c) j b (CloseDormantBucket i d t)"
    unfolding wanted_def mirror_view_simps by blast
  obtain l where l: "mirror_ledger c j d = Some l" "ls_next_event_index l = kb_last_applied_index b"
      "snapshot_is_dead b" "i = kb_sub_pool_id b" "d = kb_direction b" "t = kb_tick b"
    using wants_close [OF b(2)] by auto
  obtain acc where acc: "bt_get (ch_buckets c) (i, d, t) = Some acc" "b = mirror_bucket ((i, d, t), acc)" "j = i"
    using b(1) l(4-6) unfolding in_mirror_buckets [OF wf] by force
  obtain la where la: "bt_get (ch_ledgers c) (i, d) = Some la" "ls_next_event_index l = ol_next_event_index (la_ledger la)"
    using l(1) acc(3) by (auto simp: mirror_ledger_def)
  have "is_dead (ba_record acc)" "br_last_applied_index (ba_record acc) = ol_next_event_index (la_ledger la)"
    using l(2,3) la(2) by (simp_all add: acc(2))
  then show ?thesis by (simp add: close_dormant_bucket_def acc(1) la(1))
qed

text \<open>
  every close the keeper plans on the runtime succeeds when it is executed on it, and removes
  exactly that account.
\<close>

theorem planned_closes_succeed:
  assumes "runtime_ok c" and "scheduler_plan iter (mirror_view c) s = (s', Ok as)" and "reorders iter"
    and "bt_wf (sc_init_hints s)" and "CloseDormantBucket i d t \<in> set as"
  shows "close_dormant_bucket i d t c = (c\<lparr>ch_buckets := bt_del (i, d, t) (ch_buckets c)\<rparr>, Ok ())"
  by (rule planned_close [OF assms])

theorem planned_closes_succeed_witness:
  "\<exists>c1. pre_init_dormant_bucket 7 Long 900 (snd (pair_start Eager True)) = (c1, Ok ())
     \<and> snd (scheduler_plan rev (mirror_view c1) (new_scheduler default_scheduler_config))
        = Ok [CloseDormantBucket 7 Long 900]
     \<and> snd (close_dormant_bucket 7 Long 900 c1) = Ok ()"
proof -
  obtain c1 where c1: "pre_init_dormant_bucket 7 Long 900 (snd (pair_start Eager True)) = (c1, Ok ())"
    and plan: "snd (scheduler_plan rev (mirror_view c1) (new_scheduler default_scheduler_config))
        = Ok [CloseDormantBucket 7 Long 900]"
  proof -
    have "\<exists>c1. pre_init_dormant_bucket 7 Long 900 (snd (pair_start Eager True)) = (c1, Ok ())
        \<and> snd (scheduler_plan rev (mirror_view c1) (new_scheduler default_scheduler_config))
          = Ok [CloseDormantBucket 7 Long 900]"
      by (simp add: pair_start_def evals cevals scheduler_plan_def plan_buckets_def plan_bucket_def
        hints_to_emit_def by_priority_def demo_keeper mirror_buckets_def mirror_bucket_def mirror_ledger_def
        snapshot_is_dead_def)
    with that show ?thesis by blast
  qed
  then obtain s' where p: "scheduler_plan rev (mirror_view c1) (new_scheduler default_scheduler_config)
      = (s', Ok [CloseDormantBucket 7 Long 900])" by (metis prod.collapse)
  have "paired (demo_market Eager) True (fst (pair_start Eager True)) c1"
    by (rule paired_init [OF pair_start_paired c1])
  from paired_facts(1) [OF this demo_small_caps] have "runtime_ok c1" by (rule mirrorsD(1))
  from planned_closes_succeed [OF this p reorders_rev] c1 plan show ?thesis
    by (auto simp: new_scheduler_def bt_empty_def)
qed



end
