(* ===== verification/Program_State.thy ===== *)
theory Program_State
  imports Leader_Lock Pyth_Adapter Onchain Engine_Ops
begin

text \<open>
  The accounts and errors of the Solana program \<open>programs/mole-option/src\<close> (\<open>state.rs\<close>, \<open>error.rs\<close>) and
  the conversions between accounts and engine values (\<open>instructions/sync.rs\<close>, \<open>close.rs\<close>,
  \<open>mod.rs\<close>). An account is its data together with its address; its bump seed, its padding and
  its rent are left out. A handler returns the accounts it leaves, or an error, on which the
  runtime reverts the transaction.
\<close>

section \<open>Errors\<close>

datatype program_error =
    PgMathOverflow | PgDivByZero | PgSignOverflow | PgMarketPaused | PgFrozenNewPosition
    | PgInvalidSubPool | PgDirectionMismatch | PgMarginBelowMinimum | PgMarginAboveMaximum
    | PgTotalPrincipalCapExceeded | PgTotalNotionalCapExceeded | PgOraclePriceZero
    | PgOracleConfidenceTooWide | PgOracleStale | PgPriceProtectionFailed | PgPriceMoveTooLarge
    | PgSharesMintedTooSmall | PgDilutionRiskTooHigh | PgPositionNotOpen | PgPositionIsDormant
    | PgWithdrawableZero | PgForfeitAcknowledgementRequired | PgVaultInsufficient
    | PgDormantBucketCapExceeded | PgSubPoolStale | PgSchemaVersionMismatch | PgInvariant
    | PgUnauthorized | PgOracleAccountUnreadable | PgOracleValidationFailed
    | PgOraclePriceOutsideEnvelope | PgDormantPendingBudgetExceeded | PgDormantBucketMissing
    | PgInvalidParameter | PgDormantBridgeAccountMismatch | PgDormantBridgeBucketSlotExhausted
    | PgDormantBridgeLedgerMissing | PgLedgerCapacityExceeded | PgDormantBucketStillLive
    | PgDormantBucketHasPendingApply | PgSchemaBumpMustIncrease | PgSchemaMigrationNoop
    | PgSchemaMigrationPathMissing | PgKeeperLeaderHeldByOther | PgKeeperLeaderClockSkew
    | PgKeeperLeaderNotHolder | PgKeeperLeaderNotHeld | PgKeeperLeaderAcquireWhileFresh

text \<open>The checks the Anchor attributes of an account context stand for.\<close>

datatype anchor_error =
    ConstraintHasOne | ConstraintRaw | ConstraintAddress | ConstraintTokenMint | ConstraintTokenOwner
  | AccountNotDecodable

datatype handler_error = Coded program_error | Anchor anchor_error

type_synonym 'a program = "(handler_error, 'a) result"

definition program_of_clearing :: "clearing_error \<Rightarrow> program_error" where
  "program_of_clearing e = (case e of
       MathOverflow \<Rightarrow> PgMathOverflow
     | clearing_error.DivByZero \<Rightarrow> PgDivByZero
     | clearing_error.SignOverflow \<Rightarrow> PgSignOverflow
     | MarketPaused \<Rightarrow> PgMarketPaused
     | FrozenNewPosition \<Rightarrow> PgFrozenNewPosition
     | InvalidSubPool \<Rightarrow> PgInvalidSubPool
     | DirectionMismatch \<Rightarrow> PgDirectionMismatch
     | MarginBelowMinimum \<Rightarrow> PgMarginBelowMinimum
     | MarginAboveMaximum \<Rightarrow> PgMarginAboveMaximum
     | TotalPrincipalCapExceeded \<Rightarrow> PgTotalPrincipalCapExceeded
     | TotalNotionalCapExceeded \<Rightarrow> PgTotalNotionalCapExceeded
     | OraclePriceZero \<Rightarrow> PgOraclePriceZero
     | OracleConfidenceTooWide \<Rightarrow> PgOracleConfidenceTooWide
     | OracleStale \<Rightarrow> PgOracleStale
     | PriceProtectionFailed \<Rightarrow> PgPriceProtectionFailed
     | PriceMoveTooLarge \<Rightarrow> PgPriceMoveTooLarge
     | SharesMintedTooSmall \<Rightarrow> PgSharesMintedTooSmall
     | DilutionRiskTooHigh \<Rightarrow> PgDilutionRiskTooHigh
     | PositionNotOpen \<Rightarrow> PgPositionNotOpen
     | PositionIsDormant \<Rightarrow> PgPositionIsDormant
     | WithdrawableZero \<Rightarrow> PgWithdrawableZero
     | ForfeitAcknowledgementRequired \<Rightarrow> PgForfeitAcknowledgementRequired
     | VaultInsufficient \<Rightarrow> PgVaultInsufficient
     | DormantBucketCapExceeded \<Rightarrow> PgDormantBucketCapExceeded
     | DormantPendingBudgetExceeded \<Rightarrow> PgDormantPendingBudgetExceeded
     | DormantBucketMissing \<Rightarrow> PgDormantBucketMissing
     | SubPoolStale \<Rightarrow> PgSubPoolStale
     | SchemaVersionMismatch \<Rightarrow> PgSchemaVersionMismatch
     | LedgerCapacityExceeded \<Rightarrow> PgLedgerCapacityExceeded
     | Invariant why \<Rightarrow> PgInvariant)"

definition lift_engine :: "'a clearing \<Rightarrow> 'a program" where
  "lift_engine = map_err (\<lambda>e. Coded (program_of_clearing e))"

definition require :: "bool \<Rightarrow> handler_error \<Rightarrow> unit program" where
  "require b e = (if b then Ok () else Err e)"

section \<open>Accounts\<close>

record global_config =
  gc_key :: pubkey
  gc_admin_authority :: pubkey
  gc_emergency_authority :: pubkey
  gc_protocol_treasury :: pubkey
  gc_upgrade_authority :: pubkey
  gc_paused_globally :: bool
  gc_schema_version :: u16

record market_account =
  mk_key :: pubkey
  mk_global_config :: pubkey
  mk_symbol :: "u8 list"
  mk_collateral_mint :: pubkey
  mk_vault :: pubkey
  mk_fee_vault :: pubkey
  mk_oracle_price_feed :: pubkey
  mk_oracle_program_id :: pubkey
  mk_leverage_bps :: u32
  mk_min_margin :: u64
  mk_max_margin_per_position :: u64
  mk_max_total_principal :: u128
  mk_max_total_notional :: u128
  mk_current_total_principal :: u128
  mk_current_total_notional :: u128
  mk_open_fee_bps :: u16
  mk_max_oracle_age_seconds :: i64
  mk_max_oracle_age_slots :: u64
  mk_max_confidence_bps :: u16
  mk_max_price_move_bps_per_sync :: u32
  mk_price_tick :: u64
  mk_tick_aggregation_factor :: u32
  mk_max_dormant_bucket_count_per_direction :: u32
  mk_dilution_safety_bps :: u32
  mk_max_idle_slots :: u64
  mk_paused :: bool
  mk_frozen_new_position :: bool
  mk_schema_version :: u16
  mk_sub_pool_count :: u32
  mk_dormant_distribute_mode :: u8
  mk_max_pending_apply_per_tx :: u32
  mk_max_distribution_ledger_size :: u32

record pool_account =
  pl_key :: pubkey
  pl_market :: pubkey
  pl_sub_pool_id :: u32
  pl_long_pool_equity :: u128
  pl_short_pool_equity :: u128
  pl_long_active_shares :: u128
  pl_short_active_shares :: u128
  pl_long_recovery_shares :: u128
  pl_short_recovery_shares :: u128
  pl_long_active_notional :: u128
  pl_short_active_notional :: u128
  pl_long_active_generation :: u64
  pl_short_active_generation :: u64
  pl_last_price :: u64
  pl_last_sync_slot :: u64
  pl_long_dust :: u128
  pl_short_dust :: u128
  pl_long_dormant_bucket_count :: u32
  pl_short_dormant_bucket_count :: u32

record bucket_acct =
  bk_key :: pubkey
  bk_sub_pool :: pubkey
  bk_direction_is_long :: bool
  bk_zero_price_tick :: i64
  bk_anchor_price :: u64
  bk_total_recovery_shares :: u128
  bk_total_recovery_notional :: u128
  bk_accrued_value :: u128
  bk_position_count :: u64
  bk_last_applied_index :: u64

record dist_entry_packed =
  dp_event_index :: u64
  dp_p_at_event :: u64
  dp_total_outstanding_at_event :: u128
  dp_total_alloc_input :: u128
  dp_allocated_sum_observed :: u128

record ledger_acct =
  lg_key :: pubkey
  lg_sub_pool :: pubkey
  lg_direction_is_long :: bool
  lg_max_entries :: u32
  lg_gc_offset :: u64
  lg_next_event_index :: u64
  lg_accrued_value_total :: u128
  lg_pending_distribution_total :: u128
  lg_entry_count :: u32
  lg_entries :: "dist_entry_packed list"

record position_acct =
  px_key :: pubkey
  px_owner :: pubkey
  px_market :: pubkey
  px_sub_pool :: pubkey
  px_position_id :: u64
  px_direction_is_long :: bool
  px_status :: u8
  px_principal :: u64
  px_leverage_bps :: u32
  px_notional :: u128
  px_active_shares :: u128
  px_recovery_shares :: u128
  px_recovery_bucket_tick :: i64
  px_has_recovery_bucket :: bool
  px_zero_price :: u64
  px_entry_price :: u64
  px_last_sync_slot :: u64
  px_active_generation :: u64
  px_opened_at :: i64
  px_updated_at :: i64
  px_closed_at :: i64
  px_schema_version :: u16

section \<open>Between accounts and the engine\<close>

definition market_params_from :: "market_account \<Rightarrow> market_params" where
  "market_params_from m =
     (let mode = (if mk_dormant_distribute_mode m = 0 then Eager
                  else if mk_dormant_distribute_mode m = 1 then Lazy else Eager) in
      \<lparr>leverage_bps = mk_leverage_bps m, min_margin = mk_min_margin m,
       max_margin_per_position = mk_max_margin_per_position m,
       max_total_principal = mk_max_total_principal m, max_total_notional = mk_max_total_notional m,
       open_fee_bps = mk_open_fee_bps m, max_oracle_age_seconds = mk_max_oracle_age_seconds m,
       max_confidence_bps = mk_max_confidence_bps m,
       max_price_move_bps_per_sync = mk_max_price_move_bps_per_sync m,
       price_tick = mk_price_tick m, tick_aggregation_factor = mk_tick_aggregation_factor m,
       max_dormant_bucket_count_per_direction = mk_max_dormant_bucket_count_per_direction m,
       dormant_distribute_mode = mode, max_pending_apply_per_tx = mk_max_pending_apply_per_tx m,
       max_distribution_ledger_size = mk_max_distribution_ledger_size m,
       dilution_safety_bps = mk_dilution_safety_bps m, max_idle_slots = mk_max_idle_slots m,
       schema_version = mk_schema_version m, paused = mk_paused m,
       frozen_new_position = mk_frozen_new_position m\<rparr>)"

text \<open>The view the engine works on: without dormant stores, and without rotate logs, which no account holds.\<close>

definition clearing_view :: "pool_account \<Rightarrow> sub_pool" where
  "clearing_view a = (new_sub_pool (pl_sub_pool_id a) (pl_last_price a) (pl_last_sync_slot a))
     \<lparr>long_pool_equity := pl_long_pool_equity a, short_pool_equity := pl_short_pool_equity a,
      long_active_shares := pl_long_active_shares a, short_active_shares := pl_short_active_shares a,
      long_recovery_shares := pl_long_recovery_shares a,
      short_recovery_shares := pl_short_recovery_shares a,
      long_active_notional := pl_long_active_notional a,
      short_active_notional := pl_short_active_notional a,
      long_active_generation := pl_long_active_generation a,
      short_active_generation := pl_short_active_generation a,
      long_dust := pl_long_dust a, short_dust := pl_short_dust a,
      long_dormant_bucket_count := pl_long_dormant_bucket_count a,
      short_dormant_bucket_count := pl_short_dormant_bucket_count a\<rparr>"

definition apply_clearing_view :: "sub_pool \<Rightarrow> pool_account \<Rightarrow> pool_account" where
  "apply_clearing_view v a = a
     \<lparr>pl_long_pool_equity := long_pool_equity v, pl_short_pool_equity := short_pool_equity v,
      pl_long_active_shares := long_active_shares v, pl_short_active_shares := short_active_shares v,
      pl_long_recovery_shares := long_recovery_shares v,
      pl_short_recovery_shares := short_recovery_shares v,
      pl_long_active_notional := long_active_notional v,
      pl_short_active_notional := short_active_notional v,
      pl_long_active_generation := long_active_generation v,
      pl_short_active_generation := short_active_generation v,
      pl_last_price := last_price v, pl_last_sync_slot := last_sync_slot v,
      pl_long_dust := long_dust v, pl_short_dust := short_dust v,
      pl_long_dormant_bucket_count := long_dormant_bucket_count v,
      pl_short_dormant_bucket_count := short_dormant_bucket_count v\<rparr>"

definition direction_of_flag :: "bool \<Rightarrow> direction" where
  "direction_of_flag is_long = (if is_long then Long else Short)"

definition position_to_core :: "position_acct \<Rightarrow> position" where
  "position_to_core p =
     \<lparr>owner = px_owner p, pos_sub_pool_id = 0, position_id = px_position_id p,
      pos_direction = direction_of_flag (px_direction_is_long p),
      status = (if px_status p = 0 then Open else if px_status p = 1 then Dormant else Closed),
      principal = px_principal p, notional = px_notional p, pos_active_shares = px_active_shares p,
      pos_recovery_shares = px_recovery_shares p,
      recovery_bucket_tick = (if px_has_recovery_bucket p then Some (px_recovery_bucket_tick p) else None),
      zero_price = px_zero_price p, entry_price = px_entry_price p,
      pos_last_sync_slot = px_last_sync_slot p, opened_at_slot = 0, updated_at_slot = 0,
      closed_at_slot = 0, pos_schema_version = px_schema_version p,
      pos_active_generation = px_active_generation p\<rparr>"

definition write_back_position :: "i64 \<Rightarrow> position \<Rightarrow> position_acct \<Rightarrow> position_acct" where
  "write_back_position now core p = p
     \<lparr>px_principal := principal core, px_notional := notional core,
      px_active_shares := pos_active_shares core, px_recovery_shares := pos_recovery_shares core,
      px_recovery_bucket_tick := (case recovery_bucket_tick core of Some tick \<Rightarrow> tick | None \<Rightarrow> 0),
      px_has_recovery_bucket := (recovery_bucket_tick core \<noteq> None),
      px_zero_price := zero_price core, px_last_sync_slot := pos_last_sync_slot core,
      px_active_generation := pos_active_generation core,
      px_status := (case status core of Open \<Rightarrow> 0 | Dormant \<Rightarrow> 1 | Closed \<Rightarrow> 2),
      px_updated_at := now,
      px_closed_at := (if status core = Closed then now else px_closed_at p)\<rparr>"

section \<open>The oracle\<close>

record oracle_info =
  oi_key :: pubkey
  oi_owner :: pubkey
  oi_data :: "u8 list"

text \<open>Nothing else borrows the data of the feed, so borrowing it cannot fail.\<close>

definition validate_oracle_envelope ::
  "market_account \<Rightarrow> oracle_info \<Rightarrow> u64 \<Rightarrow> price_envelope \<Rightarrow> price_envelope program" where
  "validate_oracle_envelope m oracle clock_slot env =
     (let policy = \<lparr>max_age_slots = mk_max_oracle_age_slots m,
                    policy_max_confidence_bps = mk_max_confidence_bps m\<rparr> in
      and_then (map_err (\<lambda>e. Coded PgOracleValidationFailed)
        (validate_price_account (oi_data oracle) (oi_owner oracle) (mk_oracle_program_id m) clock_slot policy))
        (\<lambda>validated.
      if vp_price validated < env_expected_min env \<or> env_expected_max env < vp_price validated then
        Err (Coded PgOraclePriceOutsideEnvelope)
      else Ok (env\<lparr>env_p_now := vp_price validated, env_slot := clock_slot\<rparr>)))"

end
