(* ===== verification/Program_Bridge.thy ===== *)
theory Program_Bridge
  imports Program_State
begin

text \<open>
  The dormant bridge of the program, \<open>instructions/dormant_bridge.rs\<close>: reading a store from the
  ledger account and a slice of bucket accounts, writing one back in three passes, and the helper
  every price-driven handler runs the engine through. A slice is the list of the bucket accounts
  of one side in the order the transaction names them; slots are positions in it.
\<close>

section \<open>Reading\<close>

definition record_is_dead :: "bucket_acct \<Rightarrow> bool" where
  "record_is_dead b \<longleftrightarrow> bk_total_recovery_shares b = 0 \<and> bk_total_recovery_notional b = 0
     \<and> bk_accrued_value b = 0 \<and> bk_position_count b = 0"

definition mismatch :: handler_error where
  "mismatch = Coded PgDormantBridgeAccountMismatch"

definition record_of_bucket :: "u8 \<Rightarrow> bucket_acct \<Rightarrow> onchain_bucket_record" where
  "record_of_bucket dir b = \<lparr>br_direction = dir, br_reserved0 = replicate 7 0,
     br_zero_price_tick = bk_zero_price_tick b, br_anchor_price = bk_anchor_price b,
     br_total_recovery_shares = bk_total_recovery_shares b,
     br_total_recovery_notional = bk_total_recovery_notional b,
     br_accrued_value = bk_accrued_value b, br_position_count = bk_position_count b,
     br_last_applied_index = bk_last_applied_index b\<rparr>"

definition collect_bucket ::
  "pubkey \<Rightarrow> bool \<Rightarrow> u8 \<Rightarrow> bucket_acct \<Rightarrow> onchain_bucket_record list \<Rightarrow> onchain_bucket_record list program" where
  "collect_bucket key is_long dir b acc =
     and_then (require (bk_sub_pool b = key) mismatch) (\<lambda>_.
     and_then (require (bk_direction_is_long b = is_long) mismatch) (\<lambda>_.
     Ok (if record_is_dead b then acc else acc @ [record_of_bucket dir b])))"

definition entry_of_packed :: "dist_entry_packed \<Rightarrow> onchain_ledger_entry" where
  "entry_of_packed e = \<lparr>le_event_index = dp_event_index e, le_p_at_event = dp_p_at_event e,
     le_total_outstanding_at_event = dp_total_outstanding_at_event e,
     le_total_alloc_input = dp_total_alloc_input e,
     le_allocated_sum_observed = dp_allocated_sum_observed e\<rparr>"

definition packed_of_entry :: "onchain_ledger_entry \<Rightarrow> dist_entry_packed" where
  "packed_of_entry e = \<lparr>dp_event_index = le_event_index e, dp_p_at_event = le_p_at_event e,
     dp_total_outstanding_at_event = le_total_outstanding_at_event e,
     dp_total_alloc_input = le_total_alloc_input e,
     dp_allocated_sum_observed = le_allocated_sum_observed e\<rparr>"

definition ledger_of_account :: "u8 \<Rightarrow> ledger_acct \<Rightarrow> onchain_ledger" where
  "ledger_of_account dir l = \<lparr>ol_direction = dir, ol_reserved0 = replicate 3 0,
     ol_max_entries = lg_max_entries l, ol_gc_offset = lg_gc_offset l,
     ol_next_event_index = lg_next_event_index l, ol_accrued_value_total = lg_accrued_value_total l,
     ol_pending_distribution_total = lg_pending_distribution_total l,
     ol_entry_count = lg_entry_count l, ol_reserved1 = replicate 4 0,
     ol_entries = map entry_of_packed (lg_entries l)\<rparr>"

definition unpack_direction ::
  "ledger_acct \<Rightarrow> bucket_acct list \<Rightarrow> pubkey \<Rightarrow> direction \<Rightarrow> dormant_store program" where
  "unpack_direction l bs key d =
     and_then (require (lg_sub_pool l = key) mismatch) (\<lambda>_.
     let is_long = (d = Long) in
     and_then (require (lg_direction_is_long l = is_long) mismatch) (\<lambda>_.
     let dir = (if is_long then 0 else 1) in
     and_then (fold_res (collect_bucket key is_long dir) bs []) (\<lambda>records.
     and_then (lift_engine (unpack_dormant_store records (ledger_of_account dir l))) (\<lambda>st.
     and_then (lift_engine (check_store_invariants st)) (\<lambda>_. Ok st)))))"

section \<open>Writing\<close>

definition apply_record :: "pubkey \<Rightarrow> onchain_bucket_record \<Rightarrow> bucket_acct \<Rightarrow> bucket_acct" where
  "apply_record key r a = a
     \<lparr>bk_sub_pool := key, bk_direction_is_long := (br_direction r = 0),
      bk_zero_price_tick := br_zero_price_tick r, bk_anchor_price := br_anchor_price r,
      bk_total_recovery_shares := br_total_recovery_shares r,
      bk_total_recovery_notional := br_total_recovery_notional r,
      bk_accrued_value := br_accrued_value r, bk_position_count := br_position_count r,
      bk_last_applied_index := br_last_applied_index r\<rparr>"

text \<open>Pass 1: a record goes into the first free slot whose live account has its tick.\<close>

definition matching_slot ::
  "bool \<Rightarrow> bucket_acct list \<Rightarrow> nat list \<Rightarrow> onchain_bucket_record \<Rightarrow> nat option" where
  "matching_slot is_long bs slots r = find (\<lambda>idx. let a = bs ! idx in \<not> record_is_dead a
     \<and> bk_zero_price_tick a = br_zero_price_tick r \<and> bk_direction_is_long a = is_long) slots"

definition place_matching ::
  "pubkey \<Rightarrow> bool \<Rightarrow> onchain_bucket_record \<Rightarrow> bucket_acct list \<times> nat list \<times> nat
   \<Rightarrow> bucket_acct list \<times> nat list \<times> nat" where
  "place_matching key is_long r state = (case state of (bs, slots, n) \<Rightarrow>
     (case matching_slot is_long bs slots r of
        None \<Rightarrow> (bs, slots, n)
      | Some idx \<Rightarrow> (bs[idx := apply_record key r (bs ! idx)], filter (\<lambda>i. i \<noteq> idx) slots, n + 1)))"

text \<open>Pass 2: a record no account shows yet goes into the first free slot with a dead account.\<close>

definition already_placed :: "bucket_acct list \<Rightarrow> onchain_bucket_record \<Rightarrow> bool" where
  "already_placed bs r = list_ex (\<lambda>a. bk_zero_price_tick a = br_zero_price_tick r
     \<and> bk_anchor_price a = br_anchor_price r \<and> bk_last_applied_index a = br_last_applied_index r) bs"

definition place_free ::
  "pubkey \<Rightarrow> onchain_bucket_record \<Rightarrow> bucket_acct list \<times> nat list \<times> nat
   \<Rightarrow> (bucket_acct list \<times> nat list \<times> nat) program" where
  "place_free key r state = (case state of (bs, slots, n) \<Rightarrow>
     if already_placed bs r then Ok (bs, slots, n)
     else
       (case find (\<lambda>idx. record_is_dead (bs ! idx)) slots of
          None \<Rightarrow> Err (Coded PgDormantBridgeBucketSlotExhausted)
        | Some idx \<Rightarrow> Ok (bs[idx := apply_record key r (bs ! idx)], remove1 idx slots, n + 1)))"

text \<open>Pass 3: what is left in the free slots is a bucket the engine deleted.\<close>

definition zero_bucket :: "u64 \<Rightarrow> bucket_acct \<Rightarrow> bucket_acct" where
  "zero_bucket head a = a\<lparr>bk_total_recovery_shares := 0, bk_total_recovery_notional := 0,
     bk_accrued_value := 0, bk_position_count := 0, bk_last_applied_index := head\<rparr>"

definition clear_slot ::
  "u64 \<Rightarrow> nat \<Rightarrow> bucket_acct list \<times> nat list \<Rightarrow> bucket_acct list \<times> nat list" where
  "clear_slot head idx state = (case state of (bs, removed) \<Rightarrow>
     if record_is_dead (bs ! idx) then (bs, removed)
     else (bs[idx := zero_bucket head (bs ! idx)], removed @ [idx]))"

record pack_outcome =
  po_removed_indices :: "nat list"
  po_written_count :: nat

definition flush_ledger :: "onchain_ledger \<Rightarrow> ledger_acct \<Rightarrow> ledger_acct" where
  "flush_ledger ol l = l
     \<lparr>lg_gc_offset := ol_gc_offset ol, lg_next_event_index := ol_next_event_index ol,
      lg_accrued_value_total := ol_accrued_value_total ol,
      lg_pending_distribution_total := ol_pending_distribution_total ol,
      lg_entry_count := ol_entry_count ol, lg_entries := map packed_of_entry (ol_entries ol)\<rparr>"

definition pack_direction ::
  "ledger_acct \<Rightarrow> bucket_acct list \<Rightarrow> pubkey \<Rightarrow> direction \<Rightarrow> dormant_store \<Rightarrow> u32 \<Rightarrow> u32
   \<Rightarrow> (ledger_acct \<times> bucket_acct list \<times> pack_outcome) program" where
  "pack_direction l bs key d st max_buckets max_ledger =
     (let is_long = (d = Long) in
      and_then (lift_engine (pack_dormant_store st max_buckets max_ledger)) (\<lambda>(records, ol).
      if length bs < length records then Err (Coded PgDormantBridgeBucketSlotExhausted)
      else
        let (bs1, slots1, n1) = fold (place_matching key is_long) records (bs, [0..<length bs], 0) in
        and_then (fold_res (place_free key) records (bs1, slots1, n1)) (\<lambda>(bs2, slots2, n2).
        let (bs3, removed) = fold (clear_slot (ol_next_event_index ol)) slots2 (bs2, []) in
        Ok (flush_ledger ol l, bs3, \<lparr>po_removed_indices = removed, po_written_count = n2\<rparr>))))"

section \<open>Running the engine\<close>

text \<open>
  The bucket accounts of the program by their address: \<open>None\<close> is an address whose account does
  not decode as one. A transaction names the accounts it uses, in any order and as often as it
  likes; each mention gets a copy of the data, and at the end every copy is written back in
  turn.
\<close>

type_synonym bucket_world = "pubkey \<Rightarrow> bucket_acct option"

definition decode_bucket :: "bucket_world \<Rightarrow> pubkey \<Rightarrow> bucket_acct program" where
  "decode_bucket w key =
     and_then (ok_or (w key) (Anchor AccountNotDecodable)) (\<lambda>b. Ok (b\<lparr>bk_key := key\<rparr>))"

definition decode_buckets :: "bucket_world \<Rightarrow> pubkey list \<Rightarrow> bucket_acct list program" where
  "decode_buckets w keys =
     fold_res (\<lambda>key acc. and_then (decode_bucket w key) (\<lambda>b. Ok (acc @ [b]))) keys []"

definition split_remaining_buckets ::
  "bucket_world \<Rightarrow> pubkey list \<Rightarrow> u32 \<Rightarrow> u32 \<Rightarrow> (bucket_acct list \<times> bucket_acct list) program" where
  "split_remaining_buckets w remaining long_count short_count =
     and_then (require (length remaining = long_count + short_count) mismatch) (\<lambda>_.
     and_then (decode_buckets w (take long_count remaining)) (\<lambda>longs.
     and_then (decode_buckets w (drop long_count remaining)) (\<lambda>shorts.
     Ok (longs, shorts))))"

definition exit_all_buckets :: "bucket_acct list \<Rightarrow> bucket_acct list \<Rightarrow> bucket_world \<Rightarrow> bucket_world" where
  "exit_all_buckets longs shorts w =
     fold (\<lambda>b w. w(bk_key b := Some b)) shorts (fold (\<lambda>b w. w(bk_key b := Some b)) longs w)"

text \<open>The accounts a bridged instruction may change.\<close>

record pool_accounts =
  bg_pool :: pool_account
  bg_long_ledger :: ledger_acct
  bg_short_ledger :: ledger_acct
  bg_buckets :: bucket_world

definition run_bridged ::
  "pool_accounts \<Rightarrow> market_params \<Rightarrow> pubkey list \<Rightarrow> u32 \<Rightarrow> u32
   \<Rightarrow> (market_params \<Rightarrow> sub_pool \<Rightarrow> (sub_pool \<times> 'r) program) \<Rightarrow> (pool_accounts \<times> 'r) program" where
  "run_bridged accs params remaining long_count short_count engine_call =
     and_then (split_remaining_buckets (bg_buckets accs) remaining long_count short_count) (\<lambda>(longs, shorts).
     let key = pl_key (bg_pool accs) in
     and_then (unpack_direction (bg_long_ledger accs) longs key Long) (\<lambda>long_store.
     and_then (unpack_direction (bg_short_ledger accs) shorts key Short) (\<lambda>short_store.
     let view = (clearing_view (bg_pool accs))\<lparr>long_dormant := long_store, short_dormant := short_store\<rparr> in
     and_then (engine_call params view) (\<lambda>(view', outcome).
     and_then (pack_direction (bg_long_ledger accs) longs key Long (long_dormant view')
                 (max_dormant_bucket_count_per_direction params) (max_distribution_ledger_size params))
       (\<lambda>(long_ledger', longs', long_packed).
     and_then (pack_direction (bg_short_ledger accs) shorts key Short (short_dormant view')
                 (max_dormant_bucket_count_per_direction params) (max_distribution_ledger_size params))
       (\<lambda>(short_ledger', shorts', short_packed).
     Ok (\<lparr>bg_pool = apply_clearing_view view' (bg_pool accs), bg_long_ledger = long_ledger',
          bg_short_ledger = short_ledger',
          bg_buckets = exit_all_buckets longs' shorts' (bg_buckets accs)\<rparr>,
         outcome)))))))"

end
