(* ===== verification/Program_Handlers.thy ===== *)
theory Program_Handlers
  imports Program_Bridge
begin

text \<open>
  The handlers of the Solana program that move funds or drive the engine
  (\<open>instructions/{sync,close,claim,open,harvest,pre_sync}.rs\<close>). The checks of the account contexts
  are written out in the order Anchor makes them. Addresses that the program derives from
  seeds are taken to be those addresses, and signatures and account types to be checked by the
  runtime. A transfer of tokens is a request to the token program, returned with the accounts;
  when it refuses one, the transaction is reverted like on an error.
\<close>

section \<open>Contexts\<close>

record token_account =
  tk_key :: pubkey
  tk_mint :: pubkey
  tk_owner :: pubkey

record token_transfer =
  tt_from :: pubkey
  tt_to :: pubkey
  tt_amount :: u64

text \<open>What every bridged instruction is given.\<close>

record bridge_context =
  cx_market :: market_account
  cx_accounts :: pool_accounts
  cx_clock_slot :: u64
  cx_unix_timestamp :: i64
  cx_remaining :: "pubkey list"
  cx_long_bucket_count :: u32
  cx_short_bucket_count :: u32

text \<open>What the owner of a position adds.\<close>

record owner_context =
  ox_owner :: pubkey
  ox_position :: position_acct
  ox_vault :: token_account
  ox_user_token_account :: token_account

definition check_pool :: "market_account \<Rightarrow> pool_account \<Rightarrow> unit program" where
  "check_pool m pool = require (pl_market pool = mk_key m) (Anchor ConstraintHasOne)"

definition check_ledger :: "pool_account \<Rightarrow> bool \<Rightarrow> ledger_acct \<Rightarrow> unit program" where
  "check_ledger pool is_long l =
     and_then (require (lg_sub_pool l = pl_key pool) (Anchor ConstraintHasOne)) (\<lambda>_.
     require (lg_direction_is_long l = is_long) mismatch)"

definition check_ledgers :: "pool_accounts \<Rightarrow> unit program" where
  "check_ledgers accs =
     and_then (check_ledger (bg_pool accs) True (bg_long_ledger accs)) (\<lambda>_.
     check_ledger (bg_pool accs) False (bg_short_ledger accs))"

definition check_address :: "pubkey \<Rightarrow> pubkey \<Rightarrow> unit program" where
  "check_address given expected = require (given = expected) (Anchor ConstraintAddress)"

definition check_position ::
  "market_account \<Rightarrow> pool_account \<Rightarrow> pubkey \<Rightarrow> position_acct \<Rightarrow> unit program" where
  "check_position m pool signer p =
     and_then (require (px_owner p = signer) (Anchor ConstraintHasOne)) (\<lambda>_.
     and_then (require (px_market p = mk_key m) (Anchor ConstraintHasOne)) (\<lambda>_.
     require (px_sub_pool p = pl_key pool) (Anchor ConstraintRaw)))"

definition check_user_token :: "market_account \<Rightarrow> pubkey \<Rightarrow> token_account \<Rightarrow> unit program" where
  "check_user_token m signer t =
     and_then (require (tk_mint t = mk_collateral_mint m) (Anchor ConstraintTokenMint)) (\<lambda>_.
     require (tk_owner t = signer) (Anchor ConstraintTokenOwner))"

text \<open>A payment out of the vault: the amount must fit 64 bits, and nothing is sent for zero.\<close>

definition as_u64 :: "u128 \<Rightarrow> u64 program" where
  "as_u64 n = (if n < 2 ^ 64 then Ok n else Err (Coded PgMathOverflow))"

definition transfer_if :: "bool \<Rightarrow> token_account \<Rightarrow> token_account \<Rightarrow> u64 \<Rightarrow> token_transfer list" where
  "transfer_if b source dest amount =
     (if b then [\<lparr>tt_from = tk_key source, tt_to = tk_key dest, tt_amount = amount\<rparr>] else [])"

section \<open>Instructions that run over the bridge\<close>

definition bridged ::
  "bridge_context \<Rightarrow> (market_params \<Rightarrow> sub_pool \<Rightarrow> (sub_pool \<times> 'r) clearing) \<Rightarrow> (pool_accounts \<times> 'r) program" where
  "bridged cx call =
     run_bridged (cx_accounts cx) (market_params_from (cx_market cx)) (cx_remaining cx)
       (cx_long_bucket_count cx) (cx_short_bucket_count cx) (\<lambda>params sp. lift_engine (call params sp))"

definition program_sync_pool ::
  "bridge_context \<Rightarrow> oracle_info \<Rightarrow> price_envelope \<Rightarrow> pool_accounts program" where
  "program_sync_pool cx oinfo env =
     and_then (check_pool (cx_market cx) (bg_pool (cx_accounts cx))) (\<lambda>_.
     and_then (check_ledgers (cx_accounts cx)) (\<lambda>_.
     and_then (check_address (oi_key oinfo) (mk_oracle_price_feed (cx_market cx))) (\<lambda>_.
     and_then (validate_oracle_envelope (cx_market cx) oinfo (cx_clock_slot cx) env) (\<lambda>env'.
     and_then (bridged cx (\<lambda>params sp. and_then (sync_pool params env' sp) (\<lambda>(sp', _). Ok (sp', ()))))
       (\<lambda>(accs, _). Ok accs)))))"

definition program_pre_sync_dormant_bucket ::
  "bridge_context \<Rightarrow> bool \<Rightarrow> i64 \<Rightarrow> pool_accounts program" where
  "program_pre_sync_dormant_bucket cx direction_is_long tick =
     and_then (check_pool (cx_market cx) (bg_pool (cx_accounts cx))) (\<lambda>_.
     and_then (check_ledgers (cx_accounts cx)) (\<lambda>_.
     and_then (bridged cx (\<lambda>params sp.
         and_then (pre_sync_dormant_bucket params (direction_of_flag direction_is_long) tick
                     (cx_clock_slot cx) sp) (\<lambda>(sp', _). Ok (sp', ()))))
       (\<lambda>(accs, _). Ok accs)))"

text \<open>The part that closing, forced closing and claiming share, up to the vault.\<close>

definition owner_checks :: "bridge_context \<Rightarrow> owner_context \<Rightarrow> oracle_info \<Rightarrow> unit program" where
  "owner_checks cx ox oinfo =
     and_then (check_pool (cx_market cx) (bg_pool (cx_accounts cx))) (\<lambda>_.
     and_then (check_position (cx_market cx) (bg_pool (cx_accounts cx)) (ox_owner ox) (ox_position ox)) (\<lambda>_.
     and_then (check_ledgers (cx_accounts cx)) (\<lambda>_.
     check_address (oi_key oinfo) (mk_oracle_price_feed (cx_market cx)))))"

definition vault_checks :: "bridge_context \<Rightarrow> owner_context \<Rightarrow> unit program" where
  "vault_checks cx ox =
     and_then (check_address (tk_key (ox_vault ox)) (mk_vault (cx_market cx))) (\<lambda>_.
     check_user_token (cx_market cx) (ox_owner ox) (ox_user_token_account ox))"

definition program_close_position ::
  "bridge_context \<Rightarrow> owner_context \<Rightarrow> oracle_info \<Rightarrow> price_envelope
   \<Rightarrow> (pool_accounts \<times> position_acct \<times> token_transfer list) program" where
  "program_close_position cx ox oinfo env =
     and_then (owner_checks cx ox oinfo) (\<lambda>_.
     and_then (vault_checks cx ox) (\<lambda>_.
     and_then (validate_oracle_envelope (cx_market cx) oinfo (cx_clock_slot cx) env) (\<lambda>env'.
     and_then (bridged cx (\<lambda>params sp.
         and_then (close_position params env' sp (position_to_core (ox_position ox)))
           (\<lambda>(sp', pos, out). Ok (sp', pos, out)))) (\<lambda>(accs, pos, out).
     and_then (as_u64 (co_withdrawable out)) (\<lambda>amount.
     Ok (accs, write_back_position (cx_unix_timestamp cx) pos (ox_position ox),
         transfer_if (amount > 0) (ox_vault ox) (ox_user_token_account ox) amount))))))"

definition program_claim_dormant_recovery ::
  "bridge_context \<Rightarrow> owner_context \<Rightarrow> oracle_info \<Rightarrow> price_envelope
   \<Rightarrow> (pool_accounts \<times> position_acct \<times> token_transfer list) program" where
  "program_claim_dormant_recovery cx ox oinfo env =
     and_then (owner_checks cx ox oinfo) (\<lambda>_.
     and_then (vault_checks cx ox) (\<lambda>_.
     and_then (validate_oracle_envelope (cx_market cx) oinfo (cx_clock_slot cx) env) (\<lambda>env'.
     and_then (bridged cx (\<lambda>params sp.
         and_then (claim_dormant_recovery params env' sp (position_to_core (ox_position ox)))
           (\<lambda>(sp', pos, out). Ok (sp', pos, out)))) (\<lambda>(accs, pos, out).
     and_then (as_u64 (cr_redeemable out)) (\<lambda>amount.
     Ok (accs, write_back_position (cx_unix_timestamp cx) pos (ox_position ox),
         transfer_if (amount > 0) (ox_vault ox) (ox_user_token_account ox) amount))))))"

definition program_force_close_zero_value_position ::
  "bridge_context \<Rightarrow> owner_context \<Rightarrow> oracle_info \<Rightarrow> price_envelope \<Rightarrow> bool
   \<Rightarrow> (pool_accounts \<times> position_acct) program" where
  "program_force_close_zero_value_position cx ox oinfo env acknowledge_forfeit =
     and_then (owner_checks cx ox oinfo) (\<lambda>_.
     and_then (validate_oracle_envelope (cx_market cx) oinfo (cx_clock_slot cx) env) (\<lambda>env'.
     and_then (bridged cx (\<lambda>params sp.
         and_then (force_close_zero_value_position params env' acknowledge_forfeit sp
                     (position_to_core (ox_position ox)))
           (\<lambda>(sp', pos, out). Ok (sp', pos)))) (\<lambda>(accs, pos).
     Ok (accs, write_back_position (cx_unix_timestamp cx) pos (ox_position ox)))))"

section \<open>Opening and harvesting\<close>

text \<open>
  Opening takes the price from its argument: its context has neither an oracle account nor the
  ledgers and buckets, and the engine runs on the view without stores.
\<close>

record open_context =
  nx_market :: market_account
  nx_pool :: pool_account
  nx_position_key :: pubkey
  nx_vault :: token_account
  nx_fee_vault :: token_account
  nx_user_token_account :: token_account
  nx_owner :: pubkey
  nx_unix_timestamp :: i64

record program_open_params =
  np_envelope :: price_envelope
  np_direction_is_long :: bool
  np_gross_amount :: u64
  np_position_id :: u64

definition new_position_account :: "open_context \<Rightarrow> program_open_params \<Rightarrow> position \<Rightarrow> position_acct" where
  "new_position_account nx params pos =
     \<lparr>px_key = nx_position_key nx, px_owner = nx_owner nx, px_market = mk_key (nx_market nx),
      px_sub_pool = pl_key (nx_pool nx), px_position_id = np_position_id params,
      px_direction_is_long = np_direction_is_long params, px_status = 0,
      px_principal = principal pos, px_leverage_bps = mk_leverage_bps (nx_market nx),
      px_notional = notional pos, px_active_shares = pos_active_shares pos, px_recovery_shares = 0,
      px_recovery_bucket_tick = 0, px_has_recovery_bucket = False, px_zero_price = 0,
      px_entry_price = entry_price pos, px_last_sync_slot = pos_last_sync_slot pos,
      px_active_generation = pos_active_generation pos, px_opened_at = nx_unix_timestamp nx,
      px_updated_at = nx_unix_timestamp nx, px_closed_at = 0,
      px_schema_version = mk_schema_version (nx_market nx)\<rparr>"

definition program_open_position ::
  "open_context \<Rightarrow> program_open_params \<Rightarrow> (pool_account \<times> position_acct \<times> token_transfer list) program" where
  "program_open_position nx params =
     and_then (check_pool (nx_market nx) (nx_pool nx)) (\<lambda>_.
     and_then (check_address (tk_key (nx_vault nx)) (mk_vault (nx_market nx))) (\<lambda>_.
     and_then (check_address (tk_key (nx_fee_vault nx)) (mk_fee_vault (nx_market nx))) (\<lambda>_.
     and_then (check_user_token (nx_market nx) (nx_owner nx) (nx_user_token_account nx)) (\<lambda>_.
     and_then (lift_engine (open_position (market_params_from (nx_market nx)) (np_envelope params)
                 (direction_of_flag (np_direction_is_long params)) (np_gross_amount params)
                 (np_position_id params) (clearing_view (nx_pool nx)))) (\<lambda>(view, pos, out).
     Ok (apply_clearing_view view (nx_pool nx), new_position_account nx params pos,
         transfer_if (oo_principal_into_pool out > 0) (nx_user_token_account nx) (nx_vault nx) (principal pos)
         @ transfer_if (oo_open_fee out > 0) (nx_user_token_account nx) (nx_fee_vault nx) (oo_open_fee out)))))))"

record harvest_context =
  hx_market :: market_account
  hx_pool :: pool_account
  hx_vault :: token_account
  hx_fee_vault :: token_account
  hx_global_config :: global_config
  hx_protocol_treasury_signer :: pubkey

definition program_harvest_dust ::
  "harvest_context \<Rightarrow> bool \<Rightarrow> (pool_account \<times> token_transfer list) program" where
  "program_harvest_dust hx direction_is_long =
     and_then (check_pool (hx_market hx) (hx_pool hx)) (\<lambda>_.
     and_then (check_address (tk_key (hx_vault hx)) (mk_vault (hx_market hx))) (\<lambda>_.
     and_then (check_address (tk_key (hx_fee_vault hx)) (mk_fee_vault (hx_market hx))) (\<lambda>_.
     and_then (check_address (gc_key (hx_global_config hx)) (mk_global_config (hx_market hx))) (\<lambda>_.
     and_then (check_address (hx_protocol_treasury_signer hx) (gc_protocol_treasury (hx_global_config hx))) (\<lambda>_.
     and_then (lift_engine (harvest_dust (market_params_from (hx_market hx))
                 (direction_of_flag direction_is_long) (clearing_view (hx_pool hx)))) (\<lambda>(view, out).
     and_then (as_u64 (ho_amount out)) (\<lambda>amount.
     Ok (apply_clearing_view view (hx_pool hx),
         transfer_if (amount > 0) (hx_vault hx) (hx_fee_vault hx) amount))))))))"

end
