(* ===== verification/Program_Bridge_Facts.thy ===== *)
theory Program_Bridge_Facts
  imports Program_Handlers Chain_Pools "HOL-Library.Multiset"
begin

text \<open>
  The bridge of the program refines the engine. The first part follows the three passes of
  \<open>pack_direction\<close>: \<open>placing\<close> says which records the accounts outside the free slots hold, each
  pass keeps it, and at the end the live accounts hold exactly the records. The second part
  shows that reading them back gives the store that was written, provided no cleared account
  is mistaken for a record (\<open>fresh_for\<close>). The third part lifts this to \<open>run_bridged\<close>, for every
  engine call that meets the contract \<open>fitting_call\<close>, and interprets it on the engine's operations.
\<close>

section \<open>Accounts and records\<close>

definition sided :: "pubkey \<Rightarrow> direction \<Rightarrow> bucket_acct \<Rightarrow> bool" where
  "sided key d b \<longleftrightarrow> bk_sub_pool b = key \<and> bk_direction_is_long b = (d = Long)"

definition packed_record :: "direction \<Rightarrow> onchain_bucket_record \<Rightarrow> bool" where
  "packed_record d r \<longleftrightarrow> br_direction r = direction_byte d \<and> br_reserved0 r = replicate 7 0 \<and> \<not> is_dead r"

abbreviation record_in :: "direction \<Rightarrow> bucket_acct \<Rightarrow> onchain_bucket_record" where
  "record_in d b \<equiv> record_of_bucket (direction_byte d) b"

lemma record_is_dead_iff [simp]: "is_dead (record_of_bucket dir b) \<longleftrightarrow> record_is_dead b"
  by (auto simp: is_dead_def record_is_dead_def record_of_bucket_def)

lemma record_in_tick [simp]: "br_zero_price_tick (record_of_bucket dir b) = bk_zero_price_tick b"
  "br_anchor_price (record_of_bucket dir b) = bk_anchor_price b"
  "br_last_applied_index (record_of_bucket dir b) = bk_last_applied_index b"
  "br_direction (record_of_bucket dir b) = dir"
  by (simp_all add: record_of_bucket_def)

lemma apply_record_facts:
  assumes "packed_record d r"
  shows "record_in d (apply_record key r a) = r" and "sided key d (apply_record key r a)"
    and "bk_key (apply_record key r a) = bk_key a" and "\<not> record_is_dead (apply_record key r a)"
proof -
  show rec: "record_in d (apply_record key r a) = r"
    using assms by (simp add: packed_record_def record_of_bucket_def apply_record_def)
  show "sided key d (apply_record key r a)"
    using assms by (cases d) (auto simp: packed_record_def sided_def apply_record_def direction_byte_def)
  show "bk_key (apply_record key r a) = bk_key a" by (simp add: apply_record_def)
  show "\<not> record_is_dead (apply_record key r a)"
    using assms rec by (metis packed_record_def record_is_dead_iff)
qed

section \<open>The passes\<close>

definition placing ::
  "pubkey \<Rightarrow> direction \<Rightarrow> bucket_acct list \<Rightarrow> bucket_acct list \<Rightarrow> nat list
   \<Rightarrow> onchain_bucket_record list \<Rightarrow> bool" where
  "placing key d bs0 bs slots placed \<longleftrightarrow> length bs = length bs0 \<and> distinct slots
     \<and> set slots \<subseteq> {..<length bs0} \<and> (\<forall>i\<in>set slots. bs ! i = bs0 ! i)
     \<and> (\<forall>i<length bs0. bk_key (bs ! i) = bk_key (bs0 ! i) \<and> sided key d (bs ! i))
     \<and> image_mset (\<lambda>i. record_in d (bs ! i)) (mset_set ({..<length bs0} - set slots)) = mset placed"

lemma placing_start:
  assumes "\<forall>b\<in>set bs. sided key d b"
  shows "placing key d bs bs [0..<length bs] []"
  using assms by (auto simp: placing_def lessThan_atLeast0)

lemma placing_step:
  assumes "placing key d bs0 bs slots placed" and "idx \<in> set slots" and "packed_record d r"
    and "set slots' = set slots - {idx}" and "distinct slots'"
  shows "placing key d bs0 (bs[idx := apply_record key r (bs ! idx)]) slots' (r # placed)"
proof -
  let ?bs = "bs[idx := apply_record key r (bs ! idx)]" and ?A = "{..<length bs0} - set slots"
  note pl = assms(1) [unfolded placing_def]
  note ar = apply_record_facts [OF assms(3), of key "bs ! idx"]
  have idx: "idx < length bs0" "idx < length bs" using pl assms(2) by auto
  have A: "{..<length bs0} - set slots' = insert idx ?A" using assms(2,4) idx by auto
  have "image_mset (\<lambda>i. record_in d (?bs ! i)) (mset_set ?A)
      = image_mset (\<lambda>i. record_in d (bs ! i)) (mset_set ?A)"
  proof (rule image_mset_cong)
    fix i assume "i \<in># mset_set ?A"
    then have "i \<noteq> idx" using assms(2) by auto
    then show "record_in d (?bs ! i) = record_in d (bs ! i)" by simp
  qed
  then have img: "image_mset (\<lambda>i. record_in d (?bs ! i)) (mset_set (insert idx ?A)) = mset (r # placed)"
    using assms(2) pl idx ar(1) by simp
  have "bk_key (?bs ! i) = bk_key (bs0 ! i) \<and> sided key d (?bs ! i)" if "i < length bs0" for i
    using pl that ar(2,3) idx by (cases "i = idx") auto
  moreover have "?bs ! i = bs0 ! i" if "i \<in> set slots'" for i
    using pl that assms(4) by auto
  ultimately show ?thesis
    using pl img assms(4,5) unfolding placing_def A by (auto simp del: set_image_mset)
qed

lemma placing_has:
  assumes "placing key d bs0 bs slots placed" and "r \<in> set placed"
  shows "\<exists>i<length bs. i \<notin> set slots \<and> record_in d (bs ! i) = r"
proof -
  have "r \<in># image_mset (\<lambda>i. record_in d (bs ! i)) (mset_set ({..<length bs0} - set slots))"
    using assms by (simp add: placing_def)
  then show ?thesis using assms(1) by (auto simp: placing_def)
qed

lemma placing_only:
  assumes "placing key d bs0 bs slots placed" and "i < length bs" and "i \<notin> set slots"
  shows "record_in d (bs ! i) \<in> set placed"
proof -
  let ?A = "mset_set ({..<length bs0} - set slots)"
  have "i \<in># ?A" using assms by (simp add: placing_def)
  then have "record_in d (bs ! i) \<in># image_mset (\<lambda>i. record_in d (bs ! i)) ?A"
    unfolding set_image_mset by (rule imageI)
  also have "image_mset (\<lambda>i. record_in d (bs ! i)) ?A = mset placed"
    using assms(1) by (simp add: placing_def)
  finally show ?thesis by simp
qed

lemma place_matching_eq: "place_matching key is_long r (bs, slots, n) =
     (case matching_slot is_long bs slots r of
        None \<Rightarrow> (bs, slots, n)
      | Some idx \<Rightarrow> (bs[idx := apply_record key r (bs ! idx)], filter (\<lambda>i. i \<noteq> idx) slots, Suc n))"
  unfolding place_matching_def Suc_eq_plus1 by simp

lemma place_free_eq: "place_free key r (bs, slots, n) =
     (if already_placed bs r then Ok (bs, slots, n)
      else (case find (\<lambda>idx. record_is_dead (bs ! idx)) slots of
          None \<Rightarrow> Err (Coded PgDormantBridgeBucketSlotExhausted)
        | Some idx \<Rightarrow> Ok (bs[idx := apply_record key r (bs ! idx)], remove1 idx slots, Suc n)))"
  unfolding place_free_def Suc_eq_plus1 by simp

text \<open>Pass 1: what it does not place has no live account with its tick among the free slots.\<close>

lemma pass1:
  assumes "placing key d bs0 bs slots placed" and "distinct (map br_zero_price_tick (placed @ rs))"
    and "\<forall>r\<in>set rs. packed_record d r"
    and "fold (place_matching key (d = Long)) rs (bs, slots, n) = (bs1, slots1, n1)"
  shows "\<exists>placed1. placing key d bs0 bs1 slots1 placed1 \<and> distinct (map br_zero_price_tick placed1)
    \<and> set placed \<subseteq> set placed1 \<and> set placed1 \<subseteq> set (placed @ rs) \<and> set slots1 \<subseteq> set slots
    \<and> (\<forall>r\<in>set rs. r \<in> set placed1 \<or> (\<forall>i\<in>set slots1. record_is_dead (bs0 ! i)
         \<or> bk_zero_price_tick (bs0 ! i) \<noteq> br_zero_price_tick r))"
  using assms
proof (induction rs arbitrary: bs slots n placed)
  case Nil
  then show ?case by auto
next
  case (Cons r rs)
  note pl = Cons.prems(1)
  have good: "packed_record d r" using Cons.prems(3) by simp
  show ?case
  proof (cases "matching_slot (d = Long) bs slots r")
    case None
    have free: "record_is_dead (bs0 ! i) \<or> bk_zero_price_tick (bs0 ! i) \<noteq> br_zero_price_tick r"
      if "i \<in> set slots" for i
    proof -
      have "bs ! i = bs0 ! i" "sided key d (bs ! i)" using pl that by (auto simp: placing_def)
      moreover have "\<not> (\<not> record_is_dead (bs ! i) \<and> bk_zero_price_tick (bs ! i) = br_zero_price_tick r
          \<and> bk_direction_is_long (bs ! i) = (d = Long))"
        using None that unfolding matching_slot_def find_None_iff Let_def by blast
      ultimately show ?thesis by (auto simp: sided_def)
    qed
    have "fold (place_matching key (d = Long)) rs (bs, slots, n) = (bs1, slots1, n1)"
      using Cons.prems(4) None by (simp add: place_matching_eq)
    from Cons.IH [OF pl _ _ this] Cons.prems(2,3) obtain placed1 where
      "placing key d bs0 bs1 slots1 placed1" "distinct (map br_zero_price_tick placed1)"
      "set placed \<subseteq> set placed1" "set placed1 \<subseteq> set (placed @ rs)" "set slots1 \<subseteq> set slots"
      "\<forall>r\<in>set rs. r \<in> set placed1 \<or> (\<forall>i\<in>set slots1. record_is_dead (bs0 ! i)
         \<or> bk_zero_price_tick (bs0 ! i) \<noteq> br_zero_price_tick r)"
      by auto
    with free show ?thesis by (intro exI [of _ placed1]) auto
  next
    case (Some idx)
    then have idx: "idx \<in> set slots" by (auto simp: matching_slot_def find_Some_iff)
    have "fold (place_matching key (d = Long)) rs
        (bs[idx := apply_record key r (bs ! idx)], filter (\<lambda>i. i \<noteq> idx) slots, Suc n) = (bs1, slots1, n1)"
      using Cons.prems(4) Some by (simp add: place_matching_eq)
    moreover have "placing key d bs0 (bs[idx := apply_record key r (bs ! idx)])
        (filter (\<lambda>i. i \<noteq> idx) slots) (r # placed)"
      by (rule placing_step [OF pl idx good]) (use pl in \<open>auto simp: placing_def\<close>)
    ultimately obtain placed1 where
      "placing key d bs0 bs1 slots1 placed1" "distinct (map br_zero_price_tick placed1)"
      "set (r # placed) \<subseteq> set placed1" "set placed1 \<subseteq> set ((r # placed) @ rs)"
      "set slots1 \<subseteq> set (filter (\<lambda>i. i \<noteq> idx) slots)"
      "\<forall>r\<in>set rs. r \<in> set placed1 \<or> (\<forall>i\<in>set slots1. record_is_dead (bs0 ! i)
         \<or> bk_zero_price_tick (bs0 ! i) \<noteq> br_zero_price_tick r)"
      using Cons.IH [of "bs[idx := apply_record key r (bs ! idx)]" "filter (\<lambda>i. i \<noteq> idx) slots" "r # placed"
          "Suc n"] Cons.prems(2,3) by auto
    then show ?thesis by (intro exI [of _ placed1]) auto
  qed
qed

text \<open>Pass 2, when no free slot looks like a record that is still to be placed.\<close>

definition looks_like :: "bucket_acct \<Rightarrow> onchain_bucket_record \<Rightarrow> bool" where
  "looks_like a r \<longleftrightarrow> bk_zero_price_tick a = br_zero_price_tick r
     \<and> bk_anchor_price a = br_anchor_price r \<and> bk_last_applied_index a = br_last_applied_index r"

lemma already_placed_iff: "already_placed bs r \<longleftrightarrow> (\<exists>i<length bs. looks_like (bs ! i) r)"
  by (force simp: already_placed_def looks_like_def list_ex_iff in_set_conv_nth)

lemma looks_like_record: "record_in d a = r \<Longrightarrow> looks_like a r"
  by (auto simp: looks_like_def record_of_bucket_def)

lemma pass2:
  assumes "placing key d bs0 bs slots placed" and "distinct (map br_zero_price_tick placed)"
    and "distinct (map br_zero_price_tick rs)" and "\<forall>r\<in>set rs. packed_record d r"
    and "\<forall>r\<in>set rs. r \<in> set placed \<or> (br_zero_price_tick r \<notin> br_zero_price_tick ` set placed
           \<and> (\<forall>i\<in>set slots. \<not> looks_like (bs0 ! i) r))"
    and "fold_res (place_free key) rs (bs, slots, n) = Inr (bs2, slots2, n2)"
  shows "\<exists>placed2. placing key d bs0 bs2 slots2 placed2 \<and> distinct (map br_zero_price_tick placed2)
    \<and> set placed2 = set placed \<union> set rs"
  using assms
proof (induction rs arbitrary: bs slots n placed)
  case Nil
  then show ?case by auto
next
  case (Cons r rs)
  note pl = Cons.prems(1)
  show ?case
  proof (cases "r \<in> set placed")
    case True
    then have "already_placed bs r"
      using placing_has [OF pl] looks_like_record by (fastforce simp: already_placed_iff)
    then have "place_free key r (bs, slots, n) = Inr (bs, slots, n)" by (simp add: place_free_eq)
    with Cons.prems(6) have "fold_res (place_free key) rs (bs, slots, n) = Inr (bs2, slots2, n2)" by simp
    from Cons.IH [OF pl _ _ _ _ this] Cons.prems(2-5) True show ?thesis by auto
  next
    case False
    then have new: "br_zero_price_tick r \<notin> br_zero_price_tick ` set placed"
      and free: "\<forall>i\<in>set slots. \<not> looks_like (bs0 ! i) r"
      using Cons.prems(5) by auto
    have "\<not> already_placed bs r"
    proof
      assume "already_placed bs r"
      then obtain i where i: "i < length bs" "looks_like (bs ! i) r" by (auto simp: already_placed_iff)
      show False
      proof (cases "i \<in> set slots")
        case True
        with free i pl show False by (auto simp: placing_def)
      next
        case False
        have "record_in d (bs ! i) \<in> set placed" using placing_only [OF pl i(1) False] .
        moreover have "br_zero_price_tick (record_in d (bs ! i)) = br_zero_price_tick r"
          using i(2) by (simp add: looks_like_def)
        ultimately show False using new by (metis imageI)
      qed
    qed
    with Cons.prems(6) obtain idx where idx: "find (\<lambda>idx. record_is_dead (bs ! idx)) slots = Some idx"
      and rest: "fold_res (place_free key) rs
          (bs[idx := apply_record key r (bs ! idx)], remove1 idx slots, Suc n) = Inr (bs2, slots2, n2)"
      by (auto simp: place_free_eq split: option.splits)
    have mem: "idx \<in> set slots" using idx by (auto simp: find_Some_iff)
    have "placing key d bs0 (bs[idx := apply_record key r (bs ! idx)]) (remove1 idx slots) (r # placed)"
      by (rule placing_step [OF pl mem]) (use pl Cons.prems(4) in \<open>auto simp: placing_def\<close>)
    moreover have "\<forall>q\<in>set rs. q \<in> set (r # placed)
        \<or> (br_zero_price_tick q \<notin> br_zero_price_tick ` set (r # placed)
           \<and> (\<forall>i\<in>set (remove1 idx slots). \<not> looks_like (bs0 ! i) q))"
    proof
      fix q assume q: "q \<in> set rs"
      then have "br_zero_price_tick q \<noteq> br_zero_price_tick r" using Cons.prems(3) by (auto simp: rev_image_eqI)
      with Cons.prems(5) q set_remove1_subset [of idx slots] show "q \<in> set (r # placed)
        \<or> (br_zero_price_tick q \<notin> br_zero_price_tick ` set (r # placed)
           \<and> (\<forall>i\<in>set (remove1 idx slots). \<not> looks_like (bs0 ! i) q))" by auto
    qed
    moreover have "distinct (map br_zero_price_tick (r # placed))" using Cons.prems(2) new by simp
    ultimately show ?thesis
      using Cons.IH [OF _ _ _ _ _ rest] Cons.prems(3,4) by fastforce
  qed
qed

text \<open>Pass 3 empties what is left.\<close>

lemma pass3:
  assumes "fold (clear_slot head) slots (bs, removed) = (bs3, removed3)" and "distinct slots"
    and "set slots \<subseteq> {..<length bs}"
  shows "length bs3 = length bs" and "i < length bs \<Longrightarrow> bs3 ! i
    = (if i \<in> set slots \<and> \<not> record_is_dead (bs ! i) then zero_bucket head (bs ! i) else bs ! i)"
proof -
  have "length bs3 = length bs \<and> (\<forall>i<length bs. bs3 ! i
    = (if i \<in> set slots \<and> \<not> record_is_dead (bs ! i) then zero_bucket head (bs ! i) else bs ! i))"
    using assms
  proof (induction slots arbitrary: bs removed)
    case (Cons j slots)
    let ?step = "clear_slot head j (bs, removed)"
    obtain bs1 removed1 where step: "?step = (bs1, removed1)" by (cases ?step)
    have bs1: "bs1 = (if record_is_dead (bs ! j) then bs else bs[j := zero_bucket head (bs ! j)])"
      using step by (auto simp: clear_slot_def split: if_splits)
    have "fold (clear_slot head) slots (bs1, removed1) = (bs3, removed3)"
      using Cons.prems(1) step by simp
    from Cons.IH [OF this] Cons.prems(2,3) bs1 have ih: "length bs3 = length bs1"
      "\<forall>i<length bs1. bs3 ! i = (if i \<in> set slots \<and> \<not> record_is_dead (bs1 ! i)
          then zero_bucket head (bs1 ! i) else bs1 ! i)"
      by (auto split: if_splits)
    have len: "length bs1 = length bs" by (simp add: bs1)
    show ?case
    proof (intro conjI allI impI)
      show "length bs3 = length bs" using ih(1) len by simp
      fix i assume i: "i < length bs"
      show "bs3 ! i = (if i \<in> set (j # slots) \<and> \<not> record_is_dead (bs ! i)
          then zero_bucket head (bs ! i) else bs ! i)"
        using ih(2) i Cons.prems(2) len by (cases "i = j") (auto simp: bs1)
    qed
  qed simp
  then show "length bs3 = length bs" "i < length bs \<Longrightarrow> bs3 ! i
    = (if i \<in> set slots \<and> \<not> record_is_dead (bs ! i) then zero_bucket head (bs ! i) else bs ! i)"
    by simp_all
qed

lemma zero_bucket_facts:
  "record_is_dead (zero_bucket head a)" "bk_key (zero_bucket head a) = bk_key a"
  "sided key d (zero_bucket head a) = sided key d a"
  by (simp_all add: zero_bucket_def record_is_dead_def sided_def)

lemma filter_by_index:
  "mset (map f (filter P xs)) = image_mset (\<lambda>i. f (xs ! i)) (mset_set {i. i < length xs \<and> P (xs ! i)})"
proof -
  have "filter P xs = map ((!) xs) (filter (\<lambda>i. P (xs ! i)) [0..<length xs])"
    by (metis (mono_tags, lifting) comp_apply filter_cong filter_map map_nth)
  then have "mset (map f (filter P xs))
      = image_mset (\<lambda>i. f (xs ! i)) (mset (filter (\<lambda>i. P (xs ! i)) [0..<length xs]))"
    by (simp add: multiset.map_comp comp_def)
  moreover have "mset (filter (\<lambda>i. P (xs ! i)) [0..<length xs]) = mset_set {i. i < length xs \<and> P (xs ! i)}"
    by (subst mset_set_set [symmetric]) (auto intro: arg_cong [of _ _ mset_set])
  ultimately show ?thesis by simp
qed

text \<open>No cleared account of the slice looks like one of the records.\<close>

definition fresh_for :: "bucket_acct list \<Rightarrow> onchain_bucket_record list \<Rightarrow> bool" where
  "fresh_for bs rs \<longleftrightarrow> (\<forall>a\<in>set bs. \<forall>r\<in>set rs. looks_like a r \<longrightarrow> \<not> record_is_dead a)"

abbreviation live_records :: "direction \<Rightarrow> bucket_acct list \<Rightarrow> onchain_bucket_record list" where
  "live_records d bs \<equiv> map (record_in d) (filter (\<lambda>b. \<not> record_is_dead b) bs)"

lemma three_passes:
  assumes "\<forall>b\<in>set bs. sided key d b" and "\<forall>r\<in>set rs. packed_record d r"
    and "distinct (map br_zero_price_tick rs)" and "fresh_for bs rs"
    and "fold (place_matching key (d = Long)) rs (bs, [0..<length bs], 0) = (bs1, slots1, n1)"
    and "fold_res (place_free key) rs (bs1, slots1, n1) = Inr (bs2, slots2, n2)"
    and "fold (clear_slot head) slots2 (bs2, []) = (bs3, removed)"
  shows "mset (live_records d bs3) = mset rs" and "\<forall>b\<in>set bs3. sided key d b"
    and "map bk_key bs3 = map bk_key bs"
proof -
  from pass1 [OF placing_start [OF assms(1)] _ assms(2,5)] assms(3)
  obtain placed1 where p1: "placing key d bs bs1 slots1 placed1"
    and d1: "distinct (map br_zero_price_tick placed1)" and sub1: "set placed1 \<subseteq> set rs"
    and un: "\<forall>r\<in>set rs. r \<in> set placed1 \<or> (\<forall>i\<in>set slots1. record_is_dead (bs ! i)
         \<or> bk_zero_price_tick (bs ! i) \<noteq> br_zero_price_tick r)"
    by auto
  have "\<forall>r\<in>set rs. r \<in> set placed1 \<or> (br_zero_price_tick r \<notin> br_zero_price_tick ` set placed1
      \<and> (\<forall>i\<in>set slots1. \<not> looks_like (bs ! i) r))"
  proof (rule ballI, rule disjCI)
    fix r assume r: "r \<in> set rs" and "\<not> (br_zero_price_tick r \<notin> br_zero_price_tick ` set placed1
      \<and> (\<forall>i\<in>set slots1. \<not> looks_like (bs ! i) r))"
    moreover {
    assume not: "r \<notin> set placed1"
    have "br_zero_price_tick r \<notin> br_zero_price_tick ` set placed1"
      using not r sub1 assms(3) by (auto simp: distinct_map inj_on_def)
    moreover have "\<not> looks_like (bs ! i) r" if "i \<in> set slots1" for i
    proof
      assume like: "looks_like (bs ! i) r"
      have "bs ! i \<in> set bs" using that p1 by (auto simp: placing_def)
      then have "\<not> record_is_dead (bs ! i)" using assms(4) r like by (auto simp: fresh_for_def)
      with un r not that like show False by (auto simp: looks_like_def)
    qed
    ultimately have "br_zero_price_tick r \<notin> br_zero_price_tick ` set placed1
      \<and> (\<forall>i\<in>set slots1. \<not> looks_like (bs ! i) r)" by simp }
    ultimately show "r \<in> set placed1" by blast
  qed
  from pass2 [OF p1 d1 assms(3,2) this assms(6)] sub1
  obtain placed2 where p2: "placing key d bs bs2 slots2 placed2"
    and d2: "distinct (map br_zero_price_tick placed2)" and all: "set placed2 = set rs" by auto
  have len: "length bs2 = length bs" using p2 by (simp add: placing_def)
  have slots: "distinct slots2" "set slots2 \<subseteq> {..<length bs2}" using p2 by (auto simp: placing_def)
  note p3 = pass3 [OF assms(7) slots]
  have live: "\<not> record_is_dead (bs2 ! i)" if "i < length bs" "i \<notin> set slots2" for i
    using placing_only [OF p2] that all assms(2) len by (metis packed_record_def record_is_dead_iff)
  have idx: "{i. i < length bs3 \<and> \<not> record_is_dead (bs3 ! i)} = {..<length bs} - set slots2"
    using p3 live len by (auto simp: zero_bucket_facts split: if_splits)
  have "image_mset (\<lambda>i. record_in d (bs3 ! i)) (mset_set ({..<length bs} - set slots2))
      = image_mset (\<lambda>i. record_in d (bs2 ! i)) (mset_set ({..<length bs} - set slots2))"
    using p3(2) len by (intro image_mset_cong) auto
  moreover have "mset placed2 = mset rs"
    using set_eq_iff_mset_eq_distinct [of placed2 rs] d2 assms(3) all by (simp add: distinct_map)
  ultimately show "mset (live_records d bs3) = mset rs"
    using p2 unfolding filter_by_index idx placing_def by simp
  have each: "sided key d (bs3 ! i) \<and> bk_key (bs3 ! i) = bk_key (bs ! i)" if "i < length bs" for i
    using p3(2) that len p2 by (auto simp: placing_def zero_bucket_facts)
  show "\<forall>b\<in>set bs3. sided key d b" using each p3(1) len by (metis in_set_conv_nth)
  show "map bk_key bs3 = map bk_key bs" using each p3(1) len by (intro nth_equalityI) auto
qed

section \<open>Reading what was written\<close>

lemma collect_live:
  assumes "\<forall>b\<in>set bs. sided key d b"
  shows "fold_res (collect_bucket key (d = Long) (direction_byte d)) bs acc = Inr (acc @ live_records d bs)"
  using assms
  by (induction bs arbitrary: acc) (auto simp: collect_bucket_def require_def sided_def)

lemma admit_any_order:
  assumes "distinct (map fst ps)" and "\<forall>(k, b)\<in>set ps. bucket_direction b = d \<and> index_ok gc n b"
    and "\<forall>k\<in>fst ` set ps. bt_get m k = None" and "bt_wf m"
    and "s + (\<Sum>(k, b)\<leftarrow>ps. accrued_value b) < 2 ^ 128"
  shows "\<exists>m'. fold_res (admit_bucket d gc n) ps (m, s) = Inr (m', s + (\<Sum>(k, b)\<leftarrow>ps. accrued_value b))
    \<and> bt_wf m' \<and> (\<forall>k. bt_get m' k = (case map_of ps k of None \<Rightarrow> bt_get m k | Some b \<Rightarrow> Some b))"
  using assms
proof (induction ps arbitrary: m s)
  case (Cons kb ps)
  obtain k b where kb: "kb = (k, b)" by (cases kb)
  have step: "admit_bucket d gc n (k, b) (m, s) = Inr (bt_put k b m, s + accrued_value b)"
    using Cons.prems kb by (simp add: admit_bucket_iff)
  have "\<forall>k'\<in>fst ` set ps. bt_get (bt_put k b m) k' = None"
    using Cons.prems(1,3,4) kb by (auto simp: bt_get_put)
  with Cons.IH [of "bt_put k b m" "s + accrued_value b"] Cons.prems kb obtain m' where
      fold: "fold_res (admit_bucket d gc n) ps (bt_put k b m, s + accrued_value b)
        = Inr (m', s + accrued_value b + (\<Sum>(k, b)\<leftarrow>ps. accrued_value b))"
    and wf: "bt_wf m'"
    and get: "\<And>j. bt_get m' j = (case map_of ps j of None \<Rightarrow> bt_get (bt_put k b m) j | Some b \<Rightarrow> Some b)"
    by (auto simp: bt_wf_put add.assoc)
  have "map_of ps k = None" using Cons.prems(1) kb by (auto simp: map_of_eq_None_iff)
  then have "bt_get m' j = (case map_of (kb # ps) j of None \<Rightarrow> bt_get m j | Some b \<Rightarrow> Some b)" for j
    using Cons.prems(4) kb by (auto simp: get bt_get_put split: option.splits)
  with fold wf step kb show ?case by (auto simp: add.assoc)
qed simp

lemma unpack_any_order:
  assumes "packable m d st" and "mset rs = mset (packed_buckets st)"
    and "ol_direction l = direction_byte d" and "ol_entry_count l = length (ol_entries l)"
    and "ol_entry_count l \<le> ol_max_entries l" and "ol_entries l = map pack_entry (ledger st)"
    and "ol_gc_offset l = ledger_gc_offset st" and "ol_next_event_index l = next_event_index st"
    and "ol_accrued_value_total l = accrued_value_total st"
    and "ol_pending_distribution_total l = pending_distribution_total st"
  shows "unpack_dormant_store rs l = Ok st"
proof -
  have dir: "store_direction st = d" and swf: "store_wf st" and live: "live_buckets st"
    using assms(1) by (simp_all add: packable_def within_def)
  note wf = store_wfD [OF swf]
  have db: "direction_of_byte (direction_byte d) = Inr d"
    by (cases d) (simp_all add: direction_of_byte_def direction_byte_def)
  have "fold_res (check_entry (ledger_gc_offset st)) (enumerate 0 (map pack_entry (ledger st))) () = Inr ()"
    using wf(2) window_length [OF wf(2)] by (intro check_entries_window) (auto simp: window_ok_def)
  moreover have steps: "fold_res (unpack_step d (direction_byte d)) qs acc = Inr (acc @ map (unpack_bucket d) qs)"
    if "set qs \<subseteq> set (packed_buckets st)" for qs acc
    using that packed_buckets_facts [OF assms(1)]
    by (induction qs arbitrary: acc) (auto simp: unpack_step_def)
  moreover have "set rs = set (packed_buckets st)" using assms(2) by (metis set_mset_mset)
  moreover define ps where "ps = map (unpack_bucket d) rs"
  moreover have unp: "unpack_bucket d (pack_bucket (direction_byte d) (k, b)) = (k, b)"
    if "(k, b) \<in> set (buckets st)" for k b
    using swf that dir by (intro unpack_pack_bucket) (auto simp: store_wf_def bucket_ok_def)
  then have "map (unpack_bucket d) (packed_buckets st) = buckets st"
    by (auto simp: packed_buckets_def dir intro!: map_idI)
  then have mps: "mset ps = mset (buckets st)"
    unfolding ps_def mset_map assms(2) by (metis mset_map)
  then have set: "set ps = set (buckets st)" by (metis set_mset_mset)
  have "mset (map fst ps) = mset (map fst (buckets st))" unfolding mset_map mps by simp
  then have dist: "distinct (map fst ps)" using bt_wf_distinct [OF wf(1)] mset_eq_imp_distinct_iff by blast
  have sum: "(\<Sum>(k, b)\<leftarrow>ps. accrued_value b) = accrued_value_total st"
  proof -
    have "(\<Sum>(k, b)\<leftarrow>ps. accrued_value b) = sum_mset (image_mset (\<lambda>(k, b). accrued_value b) (mset ps))"
      by (metis mset_map sum_mset_sum_list)
    also have "\<dots> = (\<Sum>(k, b)\<leftarrow>buckets st. accrued_value b)"
      unfolding mps by (metis mset_map sum_mset_sum_list)
    finally show ?thesis using wf by (simp add: total_accrued_def)
  qed
  have "\<forall>(k, b)\<in>set ps. bucket_direction b = d \<and> index_ok (ledger_gc_offset st) (next_event_index st) b"
    using swf dir by (auto simp: set store_wf_def bucket_ok_def index_ok_def)
  note admitted = admit_any_order [OF dist this]
  have empty: "\<forall>k\<in>fst ` set ps. bt_get bt_empty k = None" "bt_wf bt_empty"
    by (simp_all add: bt_empty_def bt_wf_def)
  have bound: "accrued_value_total st < 2 ^ 128" using wf by simp
  obtain m' where
      fold: "fold_res (admit_bucket d (ledger_gc_offset st) (next_event_index st)) ps (bt_empty, 0)
        = Inr (m', accrued_value_total st)"
    and wf': "bt_wf m'" and get: "\<forall>k. bt_get m' k
        = (case map_of ps k of None \<Rightarrow> bt_get bt_empty k | Some b \<Rightarrow> Some b)"
    using admitted [OF empty, of 0, unfolded sum add_0] bound by blast
  have m': "bt_get m' k = map_of ps k" for k
    using spec [OF get, of k] by (cases "map_of ps k") (simp_all add: bt_empty_def)
  have "m' = buckets st"
  proof (rule bt_ext [OF wf' wf(1)])
    show "bt_get m' = bt_get (buckets st)"
      using m' bt.in_entries_iff [OF wf(1)] dist set
      by (metis (no_types, opaque_lifting) ext map_of_eq_Some_iff not_None_eq)
  qed
  moreover have "observed (ledger st) < 2 ^ 128" "pending_distribution_total st \<le> observed (ledger st)"
    using assms(1) check_store_invariants_iff [of st] by (simp_all add: packable_def)
  moreover have "sum_allocated (ledger st) = Inr (observed (ledger st))"
    using calculation by (simp add: sum_allocated_iff)
  moreover have "map unpack_entry (map pack_entry (ledger st)) = ledger st" by (simp add: map_idI)
  ultimately show ?thesis
    using fold wf window_length [OF wf(2)] assms(3-10) db dir
    by (simp add: unpack_dormant_store_def from_onchain_parts_def checked_add_w_def window_ok_def)
qed

section \<open>One side\<close>

definition ledger_sided :: "pubkey \<Rightarrow> direction \<Rightarrow> ledger_acct \<Rightarrow> bool" where
  "ledger_sided key d l \<longleftrightarrow> lg_sub_pool l = key \<and> lg_direction_is_long l = (d = Long)"

lemma direction_byte_flag: "(if d = Long then 0 else 1) = direction_byte d"
  by (cases d) (simp_all add: direction_byte_def)

lemma collect_sided:
  assumes "fold_res (collect_bucket key (d = Long) dir) bs acc = Inr records"
  shows "\<forall>b\<in>set bs. sided key d b"
  using assms
  by (induction bs arbitrary: acc) (auto simp: collect_bucket_def require_def sided_def split: if_splits)

lemma unpack_direction_sided:
  assumes "unpack_direction l bs key d = Inr st"
  shows "\<forall>b\<in>set bs. sided key d b" and "ledger_sided key d l"
  using assms collect_sided
  by (auto simp: unpack_direction_def require_def ledger_sided_def Let_def split: if_splits)

lemma flush_ledger_keeps [simp]:
  "lg_sub_pool (flush_ledger ol l) = lg_sub_pool l" "lg_key (flush_ledger ol l) = lg_key l"
  "lg_direction_is_long (flush_ledger ol l) = lg_direction_is_long l"
  "lg_max_entries (flush_ledger ol l) = lg_max_entries l"
  by (simp_all add: flush_ledger_def)

lemma entry_roundtrip [simp]: "entry_of_packed (packed_of_entry e) = e"
  by (simp add: entry_of_packed_def packed_of_entry_def)

lemma pack_unpack_direction:
  assumes "packable m d st" and "\<forall>b\<in>set bs. sided key d b" and "ledger_sided key d l"
    and "max_distribution_ledger_size m \<le> lg_max_entries l" and "fresh_for bs (packed_buckets st)"
    and "pack_direction l bs key d st (max_dormant_bucket_count_per_direction m)
          (max_distribution_ledger_size m) = Inr (l', bs', out)"
  shows "unpack_direction l' bs' key d = Inr st" and "map bk_key bs' = map bk_key bs"
    and "ledger_sided key d l'" and "lg_max_entries l' = lg_max_entries l" and "lg_key l' = lg_key l"
proof -
  have dir: "store_direction st = d" and len: "length (ledger st) \<le> max_distribution_ledger_size m"
    "max_distribution_ledger_size m < 2 ^ 32" and chk: "check_store_invariants st = Inr ()"
    using assms(1) by (simp_all add: packable_def within_def)
  note pb = packed_buckets_facts [OF assms(1)]
  let ?ol = "packed_ledger (max_distribution_ledger_size m) st"
  obtain bs1 slots1 n1 where one: "fold (place_matching key (d = Long)) (packed_buckets st)
      (bs, [0..<length bs], 0) = (bs1, slots1, n1)" by (metis prod_cases3)
  from assms(6) packable_pack [OF assms(1)] one obtain bs2 slots2 n2 where
      two: "fold_res (place_free key) (packed_buckets st) (bs1, slots1, n1) = Inr (bs2, slots2, n2)"
    and rest: "(let (bs3, removed) = fold (clear_slot (ol_next_event_index ?ol)) slots2 (bs2, []) in
        Ok (flush_ledger ?ol l, bs3, \<lparr>po_removed_indices = removed, po_written_count = n2\<rparr>))
      = (Inr (l', bs', out) :: _ program)"
    by (auto simp: pack_direction_def lift_engine_def Let_def split: if_splits)
  from rest obtain removed where
      three: "fold (clear_slot (ol_next_event_index ?ol)) slots2 (bs2, []) = (bs', removed)"
    and l': "l' = flush_ledger ?ol l"
    by (cases "fold (clear_slot (ol_next_event_index ?ol)) slots2 (bs2, [])") simp
  have shaped: "\<forall>r\<in>set (packed_buckets st). packed_record d r"
    using pb by (auto simp: packed_record_def) (simp add: pack_bucket_def)
  note passes = three_passes [OF assms(2) shaped pb(1) assms(5) one two three]
  show "map bk_key bs' = map bk_key bs" by (rule passes(3))
  show "ledger_sided key d l'" "lg_max_entries l' = lg_max_entries l" "lg_key l' = lg_key l"
    using assms(3) by (simp_all add: l' ledger_sided_def)
  let ?read = "ledger_of_account (direction_byte d) l'"
  have "ol_entries ?read = map pack_entry (ledger st)"
    by (simp add: ledger_of_account_def l' flush_ledger_def packed_ledger_def comp_def)
  moreover have "ol_gc_offset ?read = ledger_gc_offset st" "ol_next_event_index ?read = next_event_index st"
    "ol_accrued_value_total ?read = accrued_value_total st"
    "ol_pending_distribution_total ?read = pending_distribution_total st"
    "ol_direction ?read = direction_byte d" "ol_max_entries ?read = lg_max_entries l"
    "ol_entry_count ?read = length (ledger st)"
    using len by (simp_all add: ledger_of_account_def l' flush_ledger_def packed_ledger_def)
  ultimately have "unpack_dormant_store (live_records d bs') ?read = Ok st"
    using len assms(4) by (intro unpack_any_order [OF assms(1) passes(1)]) simp_all
  with assms(3) chk show "unpack_direction l' bs' key d = Inr st"
    using collect_live [OF passes(2), of "[]"]
    by (simp add: unpack_direction_def require_def ledger_sided_def l' direction_byte_flag lift_engine_def
        del: One_nat_def)
qed

section \<open>Naming accounts\<close>

lemma decode_buckets_append:
  "fold_res (\<lambda>key acc. and_then (decode_bucket w key) (\<lambda>b. Ok (acc @ [b]))) keys acc = Inr bs
    \<longleftrightarrow> (\<exists>cs. bs = acc @ cs \<and> list_all2 (\<lambda>key b. decode_bucket w key = Inr b) keys cs)"
proof (induction keys arbitrary: acc)
  case (Cons key keys)
  show ?case
    by (cases "decode_bucket w key") (auto simp: Cons list_all2_Cons1)
qed auto

lemma decode_buckets_iff:
  "decode_buckets w keys = Inr bs \<longleftrightarrow> list_all2 (\<lambda>key b. decode_bucket w key = Inr b) keys bs"
  by (simp add: decode_buckets_def decode_buckets_append)

lemma decode_bucket_key: "decode_bucket w key = Inr b \<Longrightarrow> bk_key b = key"
  by (auto simp: decode_bucket_def split: option.splits)

lemma decode_buckets_keys:
  assumes "decode_buckets w keys = Inr bs"
  shows "map bk_key bs = keys"
  using assms decode_bucket_key
  by (auto simp: decode_buckets_iff list_all2_conv_all_nth intro!: nth_equalityI)

lemma exit_fold:
  assumes "distinct (map bk_key bs)"
  shows "fold (\<lambda>b w. w(bk_key b := Some b)) bs w key
    = (case find (\<lambda>b. bk_key b = key) bs of None \<Rightarrow> w key | Some b \<Rightarrow> Some b)"
  using assms
proof (induction bs arbitrary: w)
  case (Cons b bs)
  have "find (\<lambda>b'. bk_key b' = key) bs = None" if "bk_key b = key"
    unfolding find_None_iff using Cons.prems that by (auto simp: rev_image_eqI)
  with Cons show ?case by (auto split: option.splits)
qed simp

lemma exit_decode:
  assumes "distinct (map bk_key (longs @ shorts))"
  shows "decode_buckets (exit_all_buckets longs shorts w) (map bk_key longs) = Inr longs"
    and "decode_buckets (exit_all_buckets longs shorts w) (map bk_key shorts) = Inr shorts"
proof -
  let ?w = "exit_all_buckets longs shorts w"
  have w: "?w = fold (\<lambda>b w. w(bk_key b := Some b)) (longs @ shorts) w" by (simp add: exit_all_buckets_def)
  have "decode_bucket ?w (bk_key b) = Inr b" if "b \<in> set (longs @ shorts)" for b
  proof -
    have "find (\<lambda>b'. bk_key b' = bk_key b) (longs @ shorts) = Some b"
    proof (cases "find (\<lambda>b'. bk_key b' = bk_key b) (longs @ shorts)")
      case None
      with that show ?thesis unfolding find_None_iff by blast
    next
      case (Some c)
      then have "c \<in> set (longs @ shorts)" "bk_key c = bk_key b"
        unfolding find_Some_iff by (metis nth_mem)+
      with that have "c = b" using assms unfolding distinct_map inj_on_def by blast
      with Some show ?thesis by simp
    qed
    then have "?w (bk_key b) = Some b" unfolding w exit_fold [OF assms] by simp
    then show ?thesis by (simp add: decode_bucket_def)
  qed
  then show "decode_buckets ?w (map bk_key longs) = Inr longs"
    "decode_buckets ?w (map bk_key shorts) = Inr shorts"
    by (auto simp: decode_buckets_iff list_all2_conv_all_nth)
qed

section \<open>The engine over the accounts\<close>

text \<open>The sub-pool the accounts stand for: what \<open>run_bridged\<close> hands to the engine.\<close>

definition read_pool ::
  "pool_accounts \<Rightarrow> pubkey list \<Rightarrow> u32 \<Rightarrow> u32 \<Rightarrow> sub_pool program" where
  "read_pool accs remaining long_count short_count =
     and_then (split_remaining_buckets (bg_buckets accs) remaining long_count short_count) (\<lambda>(longs, shorts).
     and_then (unpack_direction (bg_long_ledger accs) longs (pl_key (bg_pool accs)) Long) (\<lambda>long_store.
     and_then (unpack_direction (bg_short_ledger accs) shorts (pl_key (bg_pool accs)) Short) (\<lambda>short_store.
     Ok ((clearing_view (bg_pool accs))\<lparr>long_dormant := long_store, short_dormant := short_store\<rparr>))))"

definition forget_logs :: "sub_pool \<Rightarrow> sub_pool" where
  "forget_logs sp = sp\<lparr>long_rotate_log := [], short_rotate_log := []\<rparr>"

text \<open>No cleared account among the named ones looks like a bucket of the sub-pool.\<close>

definition unmistakable :: "bucket_world \<Rightarrow> pubkey list \<Rightarrow> sub_pool \<Rightarrow> bool" where
  "unmistakable w keys sp \<longleftrightarrow> (\<forall>key\<in>set keys. \<forall>d. \<forall>(t, b)\<in>set (buckets (dormant d sp)). case w key of
     None \<Rightarrow> True | Some a \<Rightarrow> record_is_dead a \<longrightarrow> \<not> (bk_zero_price_tick a = t
       \<and> bk_anchor_price a = anchor_price b \<and> bk_last_applied_index a = last_applied_index b))"

text \<open>The ring of both ledger accounts is at least as long as the market's bound.\<close>

definition ledgers_fit :: "market_params \<Rightarrow> pool_accounts \<Rightarrow> bool" where
  "ledgers_fit m accs \<longleftrightarrow> max_distribution_ledger_size m \<le> lg_max_entries (bg_long_ledger accs)
     \<and> max_distribution_ledger_size m \<le> lg_max_entries (bg_short_ledger accs)"

lemma fresh_slice:
  assumes "unmistakable w keys sp" and "decode_buckets w ks = Inr bs" and "set ks \<subseteq> set keys"
  shows "fresh_for bs (packed_buckets (dormant d sp))"
  unfolding fresh_for_def
proof (intro ballI impI notI)
  fix a r assume a: "a \<in> set bs" and r: "r \<in> set (packed_buckets (dormant d sp))" and like: "looks_like a r"
    and dead: "record_is_dead a"
  from r obtain t b where b: "(t, b) \<in> set (buckets (dormant d sp))"
    and tb: "br_zero_price_tick r = t" "br_anchor_price r = anchor_price b"
      "br_last_applied_index r = last_applied_index b"
    by (auto simp: packed_buckets_def pack_bucket_def Let_def)
  from a assms(2) obtain i where i: "i < length ks" "a = bs ! i" "decode_bucket w (ks ! i) = Inr (bs ! i)"
    by (auto simp: decode_buckets_iff list_all2_conv_all_nth in_set_conv_nth)
  then obtain a0 where a0: "w (ks ! i) = Some a0" "a = a0\<lparr>bk_key := ks ! i\<rparr>"
    by (auto simp: decode_bucket_def split: option.splits)
  have "ks ! i \<in> set keys" using i assms(3) by auto
  with assms(1) b a0(1) have "record_is_dead a0 \<longrightarrow> \<not> (bk_zero_price_tick a0 = t
       \<and> bk_anchor_price a0 = anchor_price b \<and> bk_last_applied_index a0 = last_applied_index b)"
    by (fastforce simp: unmistakable_def)
  with dead like tb show False by (simp add: a0 looks_like_def record_is_dead_def)
qed

lemma view_roundtrip:
  assumes "sub_pool_id v = pl_sub_pool_id a"
  shows "(clearing_view (apply_clearing_view v a))\<lparr>long_dormant := long_dormant v, short_dormant := short_dormant v\<rparr>
    = forget_logs v" and "pl_key (apply_clearing_view v a) = pl_key a"
    and "pl_sub_pool_id (apply_clearing_view v a) = pl_sub_pool_id a"
  using assms
  by (simp_all add: clearing_view_def apply_clearing_view_def forget_logs_def new_sub_pool_def)

lemma forget_logs_fits:
  assumes "pool_fits m sp"
  shows "pool_fits m (forget_logs sp)"
proof -
  have "dormant d (forget_logs sp) = dormant d sp" "pool_equity d (forget_logs sp) = pool_equity d sp"
    "active_shares d (forget_logs sp) = active_shares d sp"
    "recovery_shares d (forget_logs sp) = recovery_shares d sp" "dust d (forget_logs sp) = dust d sp"
    "active_notional d (forget_logs sp) = active_notional d sp" for d
    by (cases d; simp add: forget_logs_def dormant_def pool_equity_def active_shares_def recovery_shares_def
        dust_def active_notional_def)+
  with assms show ?thesis by (simp add: pool_fits_def sub_pool_wf_iff side_wf_def side_ok_def)
qed

text \<open>The accounts named by a transaction stand for a sub-pool that fits them.\<close>

definition stands_for :: "bridge_context \<Rightarrow> sub_pool \<Rightarrow> bool" where
  "stands_for cx sp \<longleftrightarrow> distinct (cx_remaining cx)
     \<and> read_pool (cx_accounts cx) (cx_remaining cx) (cx_long_bucket_count cx) (cx_short_bucket_count cx) = Inr sp
     \<and> pool_fits (market_params_from (cx_market cx)) sp
     \<and> ledgers_fit (market_params_from (cx_market cx)) (cx_accounts cx)"

abbreviation leaves :: "bridge_context \<Rightarrow> pool_accounts \<Rightarrow> sub_pool \<Rightarrow> bool" where
  "leaves cx accs' sp' \<equiv> stands_for (cx\<lparr>cx_accounts := accs'\<rparr>) (forget_logs sp')
     \<and> bg_pool accs' = apply_clearing_view sp' (bg_pool (cx_accounts cx))"

locale fitting_call =
  fixes call :: "market_params \<Rightarrow> sub_pool \<Rightarrow> (sub_pool \<times> 'r) clearing"
    and admissible :: bool
  assumes keeps_fit: "admissible \<Longrightarrow> pool_fits m sp \<Longrightarrow> call m sp = Inr (sp', r) \<Longrightarrow> pool_fits m sp'"
    and keeps_id: "admissible \<Longrightarrow> pool_fits m sp \<Longrightarrow> call m sp = Inr (sp', r) \<Longrightarrow> sub_pool_id sp' = sub_pool_id sp"
begin

lemma bridged_refines:
  assumes "admissible" and "bridged cx call = Inr (accs', r)" and "stands_for cx sp"
    and clear: "\<And>sp' r. call (market_params_from (cx_market cx)) sp = Inr (sp', r)
          \<Longrightarrow> unmistakable (bg_buckets (cx_accounts cx)) (cx_remaining cx) sp'"
  shows "\<exists>sp'. call (market_params_from (cx_market cx)) sp = Inr (sp', r) \<and> leaves cx accs' sp'"
proof -
  let ?m = "market_params_from (cx_market cx)" and ?keys = "cx_remaining cx"
  let ?lc = "cx_long_bucket_count cx" and ?sc = "cx_short_bucket_count cx"
  let ?a = "cx_accounts cx" and ?key = "pl_key (bg_pool (cx_accounts cx))"
  note st = assms(3) [unfolded stands_for_def]
  note dist0 = conjunct1 [OF st] and reads = conjunct1 [OF conjunct2 [OF st]]
    and fits = conjunct1 [OF conjunct2 [OF conjunct2 [OF st]]]
    and lf = conjunct2 [OF conjunct2 [OF conjunct2 [OF st]], unfolded ledgers_fit_def]
  from reads obtain longs shorts ls ss where
      split: "split_remaining_buckets (bg_buckets ?a) ?keys ?lc ?sc = Inr (longs, shorts)"
    and ul: "unpack_direction (bg_long_ledger ?a) longs ?key Long = Inr ls"
    and us: "unpack_direction (bg_short_ledger ?a) shorts ?key Short = Inr ss"
    and sp: "sp = (clearing_view (bg_pool ?a))\<lparr>long_dormant := ls, short_dormant := ss\<rparr>"
    by (auto simp: read_pool_def)
  from assms(2) split ul us obtain sp' l' longs' lout s' shorts' sout where
      call: "call ?m sp = Inr (sp', r)"
    and pl: "pack_direction (bg_long_ledger ?a) longs ?key Long (long_dormant sp')
        (max_dormant_bucket_count_per_direction ?m) (max_distribution_ledger_size ?m) = Inr (l', longs', lout)"
    and ps: "pack_direction (bg_short_ledger ?a) shorts ?key Short (short_dormant sp')
        (max_dormant_bucket_count_per_direction ?m) (max_distribution_ledger_size ?m) = Inr (s', shorts', sout)"
    and accs': "accs' = \<lparr>bg_pool = apply_clearing_view sp' (bg_pool ?a), bg_long_ledger = l',
        bg_short_ledger = s', bg_buckets = exit_all_buckets longs' shorts' (bg_buckets ?a)\<rparr>"
    by (auto simp: bridged_def run_bridged_def sp lift_engine_def Let_def)
  note fits' = keeps_fit [OF assms(1) fits call] and id = keeps_id [OF assms(1) fits call]
  have dorm: "dormant Long sp' = long_dormant sp'" "dormant Short sp' = short_dormant sp'"
    by (simp_all add: dormant_def)
  from split have dl: "decode_buckets (bg_buckets ?a) (take ?lc ?keys) = Inr longs"
    and ds: "decode_buckets (bg_buckets ?a) (drop ?lc ?keys) = Inr shorts"
    and len: "length ?keys = ?lc + ?sc"
    by (auto simp: split_remaining_buckets_def require_def split: if_splits)
  have fl: "fresh_for longs (packed_buckets (long_dormant sp'))"
    using fresh_slice [OF clear [OF call] dl, of Long] by (simp add: dorm set_take_subset)
  have fs: "fresh_for shorts (packed_buckets (short_dormant sp'))"
    using fresh_slice [OF clear [OF call] ds, of Short] by (simp add: dorm set_drop_subset)
  have pk: "packable ?m Long (long_dormant sp')" "packable ?m Short (short_dormant sp')"
    using pool_fitsD(3) [OF fits', of Long] pool_fitsD(3) [OF fits', of Short] by (simp_all add: dorm)
  note L = pack_unpack_direction [OF pk(1) unpack_direction_sided [OF ul] conjunct1 [OF lf] fl pl]
  note S = pack_unpack_direction [OF pk(2) unpack_direction_sided [OF us] conjunct2 [OF lf] fs ps]
  have kl: "map bk_key longs' = take ?lc ?keys" and ks: "map bk_key shorts' = drop ?lc ?keys"
    using L(2) S(2) decode_buckets_keys [OF dl] decode_buckets_keys [OF ds] by simp_all
  then have "map bk_key (longs' @ shorts') = ?keys" by simp
  then have dist: "distinct (map bk_key (longs' @ shorts'))" using dist0 by (simp only:)
  note ex = exit_decode [OF dist, of "bg_buckets ?a", unfolded kl ks]
  have idp: "sub_pool_id sp' = pl_sub_pool_id (bg_pool ?a)"
    using id by (simp add: sp clearing_view_def new_sub_pool_def)
  have "read_pool accs' ?keys ?lc ?sc = Inr (forget_logs sp')"
    using ex L(1) S(1) len
    by (simp add: read_pool_def accs' split_remaining_buckets_def require_def view_roundtrip [OF idp])
  moreover have "ledgers_fit ?m accs'" using lf L(4) S(4) by (simp add: ledgers_fit_def accs')
  ultimately show ?thesis
    using call forget_logs_fits [OF fits'] dist0 by (auto simp: accs' stands_for_def)
qed

end

text \<open>The calls of the five instructions.\<close>

interpretation sync_call: fitting_call
  "\<lambda>params sp. and_then (sync_pool params env sp) (\<lambda>(sp', _). Ok (sp', ()))" "env_p_now env < 2 ^ 64" for env
  by unfold_locales (auto dest: sync_fits)

interpretation pre_sync_call: fitting_call
  "\<lambda>params sp. and_then (pre_sync_dormant_bucket params d tick slot sp) (\<lambda>(sp', _). Ok (sp', ()))" True
  for d tick slot
  by unfold_locales (auto dest: pre_sync_fits)

interpretation close_call: fitting_call
  "\<lambda>params sp. and_then (close_position params env sp pos) (\<lambda>(sp', pos', out). Ok (sp', pos', out))"
  "env_p_now env < 2 ^ 64" for env pos
  by unfold_locales (auto dest: close_fits)

interpretation force_close_call: fitting_call
  "\<lambda>params sp. and_then (force_close_zero_value_position params env ack sp pos) (\<lambda>(sp', pos', out). Ok (sp', pos'))"
  "env_p_now env < 2 ^ 64" for env ack pos
  by unfold_locales (auto dest: force_close_fits)

interpretation claim_call: fitting_call
  "\<lambda>params sp. and_then (claim_dormant_recovery params env sp pos) (\<lambda>(sp', pos', out). Ok (sp', pos', out))"
  "env_p_now env < 2 ^ 64" for env pos
  by unfold_locales (auto dest: claim_fits)

end
