(* ===== verification/Program_Admin.thy ===== *)
theory Program_Admin
  imports Program_Handlers
begin

text \<open>
  Creating and closing the accounts of the Solana program, its governance and its schema
  migrations (\<open>instructions/{init,admin,migration}.rs\<close>). An \<open>init\<close> account is new and its address
  the one derived from its seeds; it is an argument where the seeds do not name it.
\<close>

section \<open>Initialisation\<close>

record global_params =
  gp_admin_authority :: pubkey
  gp_emergency_authority :: pubkey
  gp_protocol_treasury :: pubkey
  gp_upgrade_authority :: pubkey

definition initialize_global_config :: "pubkey \<Rightarrow> global_params \<Rightarrow> global_config" where
  "initialize_global_config key params =
     \<lparr>gc_key = key, gc_admin_authority = gp_admin_authority params,
      gc_emergency_authority = gp_emergency_authority params,
      gc_protocol_treasury = gp_protocol_treasury params,
      gc_upgrade_authority = gp_upgrade_authority params,
      gc_paused_globally = False, gc_schema_version = 1\<rparr>"

record init_market_params =
  im_symbol :: "u8 list"
  im_leverage_bps :: u32
  im_min_margin :: u64
  im_max_margin_per_position :: u64
  im_max_total_principal :: u128
  im_max_total_notional :: u128
  im_open_fee_bps :: u16
  im_max_oracle_age_seconds :: i64
  im_max_oracle_age_slots :: u64
  im_max_confidence_bps :: u16
  im_max_price_move_bps_per_sync :: u32
  im_price_tick :: u64
  im_tick_aggregation_factor :: u32
  im_max_dormant_bucket_count_per_direction :: u32
  im_dilution_safety_bps :: u32
  im_max_idle_slots :: u64
  im_sub_pool_count :: u32
  im_dormant_distribute_mode :: u8
  im_max_pending_apply_per_tx :: u32
  im_max_distribution_ledger_size :: u32

record market_addresses =
  ma_market :: pubkey
  ma_collateral_mint :: pubkey
  ma_vault :: pubkey
  ma_fee_vault :: pubkey
  ma_oracle_price_feed :: pubkey
  ma_oracle_program :: pubkey

definition initialize_market ::
  "global_config \<Rightarrow> market_addresses \<Rightarrow> pubkey \<Rightarrow> init_market_params \<Rightarrow> market_account program" where
  "initialize_market gc addrs admin params =
     and_then (check_address admin (gc_admin_authority gc)) (\<lambda>_.
     and_then (require (im_dormant_distribute_mode params \<le> 1) (Coded PgInvalidParameter)) (\<lambda>_.
     and_then (require (im_max_distribution_ledger_size params > 0) (Coded PgInvalidParameter)) (\<lambda>_.
     Ok \<lparr>mk_key = ma_market addrs, mk_global_config = gc_key gc, mk_symbol = im_symbol params,
         mk_collateral_mint = ma_collateral_mint addrs, mk_vault = ma_vault addrs,
         mk_fee_vault = ma_fee_vault addrs, mk_oracle_price_feed = ma_oracle_price_feed addrs,
         mk_oracle_program_id = ma_oracle_program addrs, mk_leverage_bps = im_leverage_bps params,
         mk_min_margin = im_min_margin params,
         mk_max_margin_per_position = im_max_margin_per_position params,
         mk_max_total_principal = im_max_total_principal params,
         mk_max_total_notional = im_max_total_notional params,
         mk_current_total_principal = 0, mk_current_total_notional = 0,
         mk_open_fee_bps = im_open_fee_bps params,
         mk_max_oracle_age_seconds = im_max_oracle_age_seconds params,
         mk_max_oracle_age_slots = im_max_oracle_age_slots params,
         mk_max_confidence_bps = im_max_confidence_bps params,
         mk_max_price_move_bps_per_sync = im_max_price_move_bps_per_sync params,
         mk_price_tick = im_price_tick params,
         mk_tick_aggregation_factor = im_tick_aggregation_factor params,
         mk_max_dormant_bucket_count_per_direction = im_max_dormant_bucket_count_per_direction params,
         mk_dilution_safety_bps = im_dilution_safety_bps params,
         mk_max_idle_slots = im_max_idle_slots params, mk_paused = False,
         mk_frozen_new_position = False, mk_schema_version = gc_schema_version gc,
         mk_sub_pool_count = im_sub_pool_count params,
         mk_dormant_distribute_mode = im_dormant_distribute_mode params,
         mk_max_pending_apply_per_tx = im_max_pending_apply_per_tx params,
         mk_max_distribution_ledger_size = im_max_distribution_ledger_size params\<rparr>)))"

text \<open>The vaults are created at their derived addresses, which must be the recorded ones.\<close>

definition initialize_market_vaults ::
  "market_account \<Rightarrow> global_config \<Rightarrow> pubkey \<Rightarrow> pubkey \<Rightarrow> pubkey \<Rightarrow> pubkey \<Rightarrow> unit program" where
  "initialize_market_vaults m gc collateral_mint vault_key fee_vault_key admin =
     and_then (require (mk_collateral_mint m = collateral_mint) (Anchor ConstraintHasOne)) (\<lambda>_.
     and_then (require (mk_global_config m = gc_key gc) (Anchor ConstraintHasOne)) (\<lambda>_.
     and_then (check_address admin (gc_admin_authority gc)) (\<lambda>_.
     and_then (require (vault_key = mk_vault m) (Coded PgInvalidParameter)) (\<lambda>_.
     require (fee_vault_key = mk_fee_vault m) (Coded PgInvalidParameter)))))"

definition initialize_sub_pool ::
  "market_account \<Rightarrow> global_config \<Rightarrow> pubkey \<Rightarrow> u32 \<Rightarrow> pool_account program" where
  "initialize_sub_pool m gc key i =
     and_then (check_address (gc_key gc) (mk_global_config m)) (\<lambda>_.
     and_then (require (i < mk_sub_pool_count m) (Coded PgInvalidSubPool)) (\<lambda>_.
     Ok \<lparr>pl_key = key, pl_market = mk_key m, pl_sub_pool_id = i, pl_long_pool_equity = 0,
         pl_short_pool_equity = 0, pl_long_active_shares = 0, pl_short_active_shares = 0,
         pl_long_recovery_shares = 0, pl_short_recovery_shares = 0, pl_long_active_notional = 0,
         pl_short_active_notional = 0, pl_long_active_generation = 0,
         pl_short_active_generation = 0, pl_last_price = 0, pl_last_sync_slot = 0,
         pl_long_dust = 0, pl_short_dust = 0, pl_long_dormant_bucket_count = 0,
         pl_short_dormant_bucket_count = 0\<rparr>))"

definition initialize_distribution_ledger ::
  "market_account \<Rightarrow> pool_account \<Rightarrow> pubkey \<Rightarrow> bool \<Rightarrow> ledger_acct program" where
  "initialize_distribution_ledger m pool key direction_is_long =
     and_then (check_pool m pool) (\<lambda>_.
     Ok \<lparr>lg_key = key, lg_sub_pool = pl_key pool, lg_direction_is_long = direction_is_long,
         lg_max_entries = mk_max_distribution_ledger_size m, lg_gc_offset = 0,
         lg_next_event_index = 0, lg_accrued_value_total = 0, lg_pending_distribution_total = 0,
         lg_entry_count = 0, lg_entries = []\<rparr>)"

definition initialize_dormant_bucket ::
  "market_account \<Rightarrow> pool_account \<Rightarrow> pubkey \<Rightarrow> bool \<Rightarrow> i64 \<Rightarrow> bucket_acct program" where
  "initialize_dormant_bucket m pool key direction_is_long tick =
     and_then (check_pool m pool) (\<lambda>_.
     Ok \<lparr>bk_key = key, bk_sub_pool = pl_key pool, bk_direction_is_long = direction_is_long,
         bk_zero_price_tick = tick, bk_anchor_price = 0, bk_total_recovery_shares = 0,
         bk_total_recovery_notional = 0, bk_accrued_value = 0, bk_position_count = 0,
         bk_last_applied_index = 0\<rparr>)"

text \<open>Closing a bucket account: the constraints are the whole handler; the account is gone.\<close>

definition program_close_dormant_bucket ::
  "market_account \<Rightarrow> pool_account \<Rightarrow> ledger_acct \<Rightarrow> bucket_acct \<Rightarrow> bucket_world \<Rightarrow> bucket_world program" where
  "program_close_dormant_bucket m pool l b w =
     and_then (check_pool m pool) (\<lambda>_.
     and_then (require (lg_sub_pool l = pl_key pool) (Anchor ConstraintHasOne)) (\<lambda>_.
     and_then (require (lg_direction_is_long l = bk_direction_is_long b) mismatch) (\<lambda>_.
     and_then (require (bk_sub_pool b = pl_key pool) (Anchor ConstraintHasOne)) (\<lambda>_.
     and_then (require (record_is_dead b) (Coded PgDormantBucketStillLive)) (\<lambda>_.
     and_then (require (bk_last_applied_index b \<ge> lg_next_event_index l)
                 (Coded PgDormantBucketHasPendingApply)) (\<lambda>_.
     Ok (w(bk_key b := None))))))))"

section \<open>Governance\<close>

definition check_market_authority ::
  "(global_config \<Rightarrow> pubkey) \<Rightarrow> market_account \<Rightarrow> global_config \<Rightarrow> pubkey \<Rightarrow> unit program" where
  "check_market_authority role m gc signer =
     and_then (check_address (gc_key gc) (mk_global_config m)) (\<lambda>_. check_address signer (role gc))"

definition pause_market :: "market_account \<Rightarrow> global_config \<Rightarrow> pubkey \<Rightarrow> market_account program" where
  "pause_market m gc signer =
     and_then (check_market_authority gc_emergency_authority m gc signer) (\<lambda>_. Ok (m\<lparr>mk_paused := True\<rparr>))"

definition resume_market :: "market_account \<Rightarrow> global_config \<Rightarrow> pubkey \<Rightarrow> market_account program" where
  "resume_market m gc signer =
     and_then (check_market_authority gc_emergency_authority m gc signer) (\<lambda>_. Ok (m\<lparr>mk_paused := False\<rparr>))"

definition freeze_new_position :: "market_account \<Rightarrow> global_config \<Rightarrow> pubkey \<Rightarrow> market_account program" where
  "freeze_new_position m gc signer =
     and_then (check_market_authority gc_emergency_authority m gc signer)
       (\<lambda>_. Ok (m\<lparr>mk_frozen_new_position := True\<rparr>))"

definition unfreeze_new_position :: "market_account \<Rightarrow> global_config \<Rightarrow> pubkey \<Rightarrow> market_account program" where
  "unfreeze_new_position m gc signer =
     and_then (check_market_authority gc_emergency_authority m gc signer)
       (\<lambda>_. Ok (m\<lparr>mk_frozen_new_position := False\<rparr>))"

definition set_globally_paused :: "global_config \<Rightarrow> pubkey \<Rightarrow> bool \<Rightarrow> global_config program" where
  "set_globally_paused gc signer p =
     and_then (check_address signer (gc_admin_authority gc)) (\<lambda>_. Ok (gc\<lparr>gc_paused_globally := p\<rparr>))"

definition bump_market_schema_version ::
  "market_account \<Rightarrow> global_config \<Rightarrow> pubkey \<Rightarrow> u16 \<Rightarrow> market_account program" where
  "bump_market_schema_version m gc signer new_version =
     and_then (check_market_authority gc_admin_authority m gc signer) (\<lambda>_.
     if new_version \<le> mk_schema_version m then Err (Coded PgSchemaBumpMustIncrease)
     else Ok (m\<lparr>mk_schema_version := new_version\<rparr>))"

section \<open>Migration\<close>

text \<open>
  The registry of steps is an enumeration without members, so the lookup always fails and a
  step that were found would change nothing. The loop runs once for every version between the
  account's and the current one; a version above the current one does not enter it.
\<close>

definition from_source :: "u16 \<Rightarrow> unit option" where
  "from_source version = None"

primrec migrate_steps :: "nat \<Rightarrow> u16 \<Rightarrow> u16 program" where
  "migrate_steps 0 version = Ok version"
| "migrate_steps (Suc n) version =
     and_then (ok_or (from_source version) (Coded PgSchemaMigrationPathMissing)) (\<lambda>step.
     and_then (ok_or (checked_add_w 16 version 1) (Coded PgMathOverflow)) (\<lambda>version'.
     migrate_steps n version'))"

definition migrate_version :: "u16 \<Rightarrow> u16 program" where
  "migrate_version version =
     (if version = SCHEMA_VERSION_CURRENT then Err (Coded PgSchemaMigrationNoop)
      else migrate_steps (SCHEMA_VERSION_CURRENT - version) version)"

definition migrate_position :: "position_acct \<Rightarrow> position_acct program" where
  "migrate_position p =
     and_then (migrate_version (px_schema_version p)) (\<lambda>v. Ok (p\<lparr>px_schema_version := v\<rparr>))"

definition migrate_market :: "market_account \<Rightarrow> global_config \<Rightarrow> pubkey \<Rightarrow> market_account program" where
  "migrate_market m gc signer =
     and_then (check_market_authority gc_admin_authority m gc signer) (\<lambda>_.
     and_then (migrate_version (mk_schema_version m)) (\<lambda>v. Ok (m\<lparr>mk_schema_version := v\<rparr>)))"

end
