(* ===== verification/Program_Calls.thy ===== *)
theory Program_Calls
  imports Program_Bridge_Facts Program_Admin
begin

text \<open>
  The instructions of the program over the bridge as one datatype, what the engine does for each
  (\<open>engine_of\<close>), and the lemmas about single handlers that the properties of the program rest
  on: each refines its engine call and pays exactly what the engine reports.
\<close>

section \<open>Instructions\<close>

datatype pool_instruction =
    SyncIx oracle_info price_envelope
  | PreSyncIx bool i64
  | CloseIx owner_context oracle_info price_envelope
  | ForceCloseIx owner_context oracle_info price_envelope bool
  | ClaimIx owner_context oracle_info price_envelope

definition execute_pool_ix ::
  "bridge_context \<Rightarrow> pool_instruction \<Rightarrow> (pool_accounts \<times> token_transfer list) program" where
  "execute_pool_ix cx ix = (case ix of
       SyncIx oinfo env \<Rightarrow> and_then (program_sync_pool cx oinfo env) (\<lambda>accs. Ok (accs, []))
     | PreSyncIx is_long tick \<Rightarrow>
         and_then (program_pre_sync_dormant_bucket cx is_long tick) (\<lambda>accs. Ok (accs, []))
     | CloseIx ox oinfo env \<Rightarrow>
         and_then (program_close_position cx ox oinfo env) (\<lambda>(accs, pos, ts). Ok (accs, ts))
     | ForceCloseIx ox oinfo env ack \<Rightarrow>
         and_then (program_force_close_zero_value_position cx ox oinfo env ack) (\<lambda>(accs, pos). Ok (accs, []))
     | ClaimIx ox oinfo env \<Rightarrow>
         and_then (program_claim_dormant_recovery cx ox oinfo env) (\<lambda>(accs, pos, ts). Ok (accs, ts)))"

text \<open>The engine's part of an instruction: the sub-pool it leaves and what it pays out.\<close>

definition trusted_env :: "bridge_context \<Rightarrow> oracle_info \<Rightarrow> price_envelope \<Rightarrow> price_envelope program" where
  "trusted_env cx oinfo env = validate_oracle_envelope (cx_market cx) oinfo (cx_clock_slot cx) env"

definition engine_of ::
  "bridge_context \<Rightarrow> pool_instruction \<Rightarrow> sub_pool \<Rightarrow> (sub_pool \<times> u128) program" where
  "engine_of cx ix sp = (let m = market_params_from (cx_market cx) in case ix of
       SyncIx oinfo env \<Rightarrow> and_then (trusted_env cx oinfo env) (\<lambda>env'.
         and_then (lift_engine (sync_pool m env' sp)) (\<lambda>(sp', out). Ok (sp', 0)))
     | PreSyncIx is_long tick \<Rightarrow>
         and_then (lift_engine (pre_sync_dormant_bucket m (direction_of_flag is_long) tick (cx_clock_slot cx) sp))
           (\<lambda>(sp', out). Ok (sp', 0))
     | CloseIx ox oinfo env \<Rightarrow> and_then (trusted_env cx oinfo env) (\<lambda>env'.
         and_then (lift_engine (close_position m env' sp (position_to_core (ox_position ox))))
           (\<lambda>(sp', pos, out). Ok (sp', co_withdrawable out)))
     | ForceCloseIx ox oinfo env ack \<Rightarrow> and_then (trusted_env cx oinfo env) (\<lambda>env'.
         and_then (lift_engine (force_close_zero_value_position m env' ack sp (position_to_core (ox_position ox))))
           (\<lambda>(sp', pos, out). Ok (sp', 0)))
     | ClaimIx ox oinfo env \<Rightarrow> and_then (trusted_env cx oinfo env) (\<lambda>env'.
         and_then (lift_engine (claim_dormant_recovery m env' sp (position_to_core (ox_position ox))))
           (\<lambda>(sp', pos, out). Ok (sp', cr_redeemable out))))"

section \<open>The oracle\<close>

lemma validated_price_fits:
  assumes "validate_price_account bs own expected now policy = Inr v"
  shows "vp_price v < 2 ^ 64"
  using assms by (auto simp: validate_price_account_def to_u64_def Let_def split: if_splits)

lemma trusted_envD:
  assumes "validate_oracle_envelope m oinfo slot env = Inr env'"
  shows "env_p_now env' < 2 ^ 64" and "env_slot env' = slot"
    and "env_expected_min env \<le> env_p_now env'" and "env_p_now env' \<le> env_expected_max env"
  using assms validated_price_fits
  by (auto simp: validate_oracle_envelope_def Let_def split: if_splits)

section \<open>Refinement\<close>

lemma vault_forget_logs [simp]: "vault (forget_logs sp) = vault sp"
  by (simp add: vault_def side_funds_def forget_logs_def pool_equity_def dust_def dormant_def)

lemma lift_engine_Inr [simp]: "lift_engine x = Inr y \<longleftrightarrow> x = Inr y"
  by (cases x) (simp_all add: lift_engine_def)

lemma transfer_total:
  "(\<Sum>t\<leftarrow>transfer_if (0 < n) a b n. tt_amount t) = n"
  "t \<in> set (transfer_if c a b n) \<Longrightarrow> tt_from t = tk_key a \<and> tt_to t = tk_key b"
  by (auto simp: transfer_if_def split: if_splits)

lemma as_u64_Inr: "as_u64 n = Inr k \<longleftrightarrow> k = n \<and> n < 2 ^ 64"
  by (auto simp: as_u64_def)

lemma require_Inr [simp]: "require b e = Inr u \<longleftrightarrow> b"
  by (simp add: require_def)

text \<open>Whatever the engine does with the sub-pool, no cleared account looks like one of its buckets.\<close>

definition no_confusion :: "bridge_context \<Rightarrow> pool_instruction \<Rightarrow> sub_pool \<Rightarrow> bool" where
  "no_confusion cx ix sp \<longleftrightarrow> (\<forall>sp' paid. engine_of cx ix sp = Inr (sp', paid)
     \<longrightarrow> unmistakable (bg_buckets (cx_accounts cx)) (cx_remaining cx) sp')"

text \<open>What a successful instruction has done.\<close>

definition done_exactly :: "bridge_context \<Rightarrow> pool_instruction \<Rightarrow> sub_pool \<Rightarrow> pool_accounts \<Rightarrow> u128 \<Rightarrow> bool" where
  "done_exactly cx ix sp accs' paid \<longleftrightarrow> (\<exists>sp'. engine_of cx ix sp = Inr (sp', paid)
     \<and> leaves cx accs' sp' \<and> vault sp' + paid = vault sp)"

lemma stands_forD:
  assumes "stands_for cx sp"
  shows "pool_fits (market_params_from (cx_market cx)) sp" and "sub_pool_wf sp" and "sides_ok sp"
  using assms pool_fitsD(1,2) by (auto simp: stands_for_def)

lemma program_sync_Ok:
  assumes "program_sync_pool cx oinfo env = Inr accs'" and "stands_for cx sp"
    and "no_confusion cx (SyncIx oinfo env) sp"
  shows "done_exactly cx (SyncIx oinfo env) sp accs' 0"
proof -
  let ?m = "market_params_from (cx_market cx)"
  from assms(1) obtain env' where env: "trusted_env cx oinfo env = Inr env'"
    and br: "bridged cx (\<lambda>params sp. and_then (sync_pool params env' sp) (\<lambda>(sp', _). Ok (sp', ()))) = Inr (accs', ())"
    by (auto simp: program_sync_pool_def trusted_env_def)
  note p = trusted_envD(1) [OF env [unfolded trusted_env_def]]
  obtain sp' out where run: "sync_pool ?m env' sp = Inr (sp', out)" and left: "leaves cx accs' sp'"
    using sync_call.bridged_refines [OF p br assms(2)] assms(3) env
    by (fastforce simp: no_confusion_def engine_of_def Let_def)
  from sync_pool_wf(2) [OF stands_forD(3) [OF assms(2)] run p] run left env show ?thesis
    by (auto simp: done_exactly_def engine_of_def Let_def)
qed

lemma program_pre_sync_Ok:
  assumes "program_pre_sync_dormant_bucket cx is_long tick = Inr accs'" and "stands_for cx sp"
    and "no_confusion cx (PreSyncIx is_long tick) sp"
  shows "done_exactly cx (PreSyncIx is_long tick) sp accs' 0"
proof -
  let ?m = "market_params_from (cx_market cx)" and ?d = "direction_of_flag is_long"
  from assms(1) have br: "bridged cx (\<lambda>params sp. and_then (pre_sync_dormant_bucket params ?d tick
      (cx_clock_slot cx) sp) (\<lambda>(sp', _). Ok (sp', ()))) = Inr (accs', ())"
    by (auto simp: program_pre_sync_dormant_bucket_def)
  obtain sp' out where run: "pre_sync_dormant_bucket ?m ?d tick (cx_clock_slot cx) sp = Inr (sp', out)"
    and left: "leaves cx accs' sp'"
    using pre_sync_call.bridged_refines [OF TrueI br assms(2)] assms(3)
    by (fastforce simp: no_confusion_def engine_of_def Let_def)
  from pre_sync_Ok(2) [OF stands_forD(2) [OF assms(2)] run] run left show ?thesis
    by (auto simp: done_exactly_def engine_of_def Let_def)
qed

text \<open>The transfers of an instruction that pays: from the market's vault to the owner, in total the amount.\<close>

definition pays :: "bridge_context \<Rightarrow> owner_context \<Rightarrow> u128 \<Rightarrow> token_transfer list \<Rightarrow> bool" where
  "pays cx ox paid ts \<longleftrightarrow> (\<Sum>t\<leftarrow>ts. tt_amount t) = paid \<and> (\<forall>t\<in>set ts. tt_from t = mk_vault (cx_market cx)
     \<and> tt_to t = tk_key (ox_user_token_account ox) \<and> tk_owner (ox_user_token_account ox) = px_owner (ox_position ox))"

lemma owner_checksD:
  assumes "owner_checks cx ox oinfo = Inr u"
  shows "px_owner (ox_position ox) = ox_owner ox" and "px_market (ox_position ox) = mk_key (cx_market cx)"
    and "px_sub_pool (ox_position ox) = pl_key (bg_pool (cx_accounts cx))"
    and "oi_key oinfo = mk_oracle_price_feed (cx_market cx)"
  using assms by (auto simp: owner_checks_def check_position_def check_address_def)

lemma vault_checks_pays:
  assumes "owner_checks cx ox oinfo = Inr u" and "vault_checks cx ox = Inr v"
  shows "pays cx ox n (transfer_if (0 < n) (ox_vault ox) (ox_user_token_account ox) n)"
  using assms owner_checksD(1) [OF assms(1)]
  by (auto simp: pays_def vault_checks_def check_address_def check_user_token_def transfer_total)

lemma program_close_Ok:
  assumes "program_close_position cx ox oinfo env = Inr (accs', pos', ts)" and "stands_for cx sp"
    and "no_confusion cx (CloseIx ox oinfo env) sp"
  shows "\<exists>paid. done_exactly cx (CloseIx ox oinfo env) sp accs' paid \<and> pays cx ox paid ts \<and> 0 < paid
    \<and> px_status pos' = 2"
proof -
  let ?m = "market_params_from (cx_market cx)" and ?pos = "position_to_core (ox_position ox)"
  from assms(1) obtain u v env' pos out where chk: "owner_checks cx ox oinfo = Inr u" "vault_checks cx ox = Inr v"
    and env: "trusted_env cx oinfo env = Inr env'"
    and br: "bridged cx (\<lambda>params sp. and_then (close_position params env' sp ?pos)
        (\<lambda>(sp', pos', out). Ok (sp', pos', out))) = Inr (accs', pos, out)"
    and ts: "ts = transfer_if (0 < co_withdrawable out) (ox_vault ox) (ox_user_token_account ox) (co_withdrawable out)"
    and pos': "pos' = write_back_position (cx_unix_timestamp cx) pos (ox_position ox)"
    by (auto simp: program_close_position_def trusted_env_def as_u64_Inr)
  note p = trusted_envD(1) [OF env [unfolded trusted_env_def]]
  obtain sp' where run: "close_position ?m env' sp ?pos = Inr (sp', pos, out)" and left: "leaves cx accs' sp'"
    using close_call.bridged_refines [OF p br assms(2)] assms(3) env
    by (fastforce simp: no_confusion_def engine_of_def Let_def)
  note c = close_position_Ok [OF stands_forD(2) [OF assms(2)] run p]
  have "done_exactly cx (CloseIx ox oinfo env) sp accs' (co_withdrawable out)" "px_status pos' = 2"
    using c(2,4) run left env
    by (auto simp: done_exactly_def engine_of_def Let_def pos' write_back_position_def)
  with c(3) vault_checks_pays [OF chk] show ?thesis unfolding ts by blast
qed

lemma program_claim_Ok:
  assumes "program_claim_dormant_recovery cx ox oinfo env = Inr (accs', pos', ts)" and "stands_for cx sp"
    and "no_confusion cx (ClaimIx ox oinfo env) sp"
  shows "\<exists>paid. done_exactly cx (ClaimIx ox oinfo env) sp accs' paid \<and> pays cx ox paid ts
    \<and> px_recovery_shares pos' = 0"
proof -
  let ?m = "market_params_from (cx_market cx)" and ?pos = "position_to_core (ox_position ox)"
  from assms(1) obtain u v env' pos out where chk: "owner_checks cx ox oinfo = Inr u" "vault_checks cx ox = Inr v"
    and env: "trusted_env cx oinfo env = Inr env'"
    and br: "bridged cx (\<lambda>params sp. and_then (claim_dormant_recovery params env' sp ?pos)
        (\<lambda>(sp', pos', out). Ok (sp', pos', out))) = Inr (accs', pos, out)"
    and ts: "ts = transfer_if (0 < cr_redeemable out) (ox_vault ox) (ox_user_token_account ox) (cr_redeemable out)"
    and pos': "pos' = write_back_position (cx_unix_timestamp cx) pos (ox_position ox)"
    by (auto simp: program_claim_dormant_recovery_def trusted_env_def as_u64_Inr)
  note p = trusted_envD(1) [OF env [unfolded trusted_env_def]]
  obtain sp' where run: "claim_dormant_recovery ?m env' sp ?pos = Inr (sp', pos, out)" and left: "leaves cx accs' sp'"
    using claim_call.bridged_refines [OF p br assms(2)] assms(3) env
    by (fastforce simp: no_confusion_def engine_of_def Let_def)
  note c = claim_Ok [OF stands_forD(2) [OF assms(2)] run p]
  have "done_exactly cx (ClaimIx ox oinfo env) sp accs' (cr_redeemable out)" "px_recovery_shares pos' = 0"
    using c(2,3) run left env
    by (auto simp: done_exactly_def engine_of_def Let_def pos' write_back_position_def)
  with vault_checks_pays [OF chk] show ?thesis unfolding ts by blast
qed

lemma program_force_close_Ok:
  assumes "program_force_close_zero_value_position cx ox oinfo env ack = Inr (accs', pos')" and "stands_for cx sp"
    and "no_confusion cx (ForceCloseIx ox oinfo env ack) sp"
  shows "done_exactly cx (ForceCloseIx ox oinfo env ack) sp accs' 0" and "ack" and "px_status pos' = 2"
proof -
  let ?m = "market_params_from (cx_market cx)" and ?pos = "position_to_core (ox_position ox)"
  from assms(1) obtain u env' pos where chk: "owner_checks cx ox oinfo = Inr u"
    and env: "trusted_env cx oinfo env = Inr env'"
    and br: "bridged cx (\<lambda>params sp. and_then (force_close_zero_value_position params env' ack sp ?pos)
        (\<lambda>(sp', pos', out). Ok (sp', pos'))) = Inr (accs', pos)"
    and pos': "pos' = write_back_position (cx_unix_timestamp cx) pos (ox_position ox)"
    by (auto simp: program_force_close_zero_value_position_def trusted_env_def)
  note p = trusted_envD(1) [OF env [unfolded trusted_env_def]]
  obtain sp' out where run: "force_close_zero_value_position ?m env' ack sp ?pos = Inr (sp', pos, out)"
    and left: "leaves cx accs' sp'"
    using force_close_call.bridged_refines [OF p br assms(2)] assms(3) env
    by (fastforce simp: no_confusion_def engine_of_def Let_def)
  note c = force_close_Ok [OF stands_forD(2) [OF assms(2)] run p]
  from c(2-5) run left env show "done_exactly cx (ForceCloseIx ox oinfo env ack) sp accs' 0" "ack"
    "px_status pos' = 2"
    by (auto simp: done_exactly_def engine_of_def Let_def pos' write_back_position_def)
qed

end
