(* ===== verification/Evaluate_Program.thy ===== *)
theory Evaluate_Program
  imports Program_Calls Evaluate Oracle_Properties
begin

text \<open>
  A sample market of the Solana program for the witnesses: its account, an oracle account at a
  chosen price, and the accounts of the sample sub-pool. The collection \<open>pevals\<close> unfolds the
  bridge on top of \<open>evals\<close>.
\<close>

definition demo_key :: "nat \<Rightarrow> pubkey" where
  "demo_key n = replicate 32 n"

lemma demo_key_eq [simp]: "demo_key m = demo_key n \<longleftrightarrow> m = n"
  by (simp add: demo_key_def)

definition demo_program_market :: market_account where
  "demo_program_market =
     \<lparr>mk_key = demo_key 1, mk_global_config = demo_key 2, mk_symbol = replicate 16 0,
      mk_collateral_mint = demo_key 3, mk_vault = demo_key 4, mk_fee_vault = demo_key 5,
      mk_oracle_price_feed = demo_key 6, mk_oracle_program_id = demo_key 7,
      mk_leverage_bps = 100000, mk_min_margin = 10000000, mk_max_margin_per_position = 1000000000000,
      mk_max_total_principal = (2 ^ 128 - 1) div 2, mk_max_total_notional = (2 ^ 128 - 1) div 2,
      mk_current_total_principal = 0, mk_current_total_notional = 0, mk_open_fee_bps = 0,
      mk_max_oracle_age_seconds = 30, mk_max_oracle_age_slots = 25, mk_max_confidence_bps = 50,
      mk_max_price_move_bps_per_sync = 2000, mk_price_tick = 1, mk_tick_aggregation_factor = 1,
      mk_max_dormant_bucket_count_per_direction = 1024, mk_dilution_safety_bps = 1,
      mk_max_idle_slots = 6000, mk_paused = False, mk_frozen_new_position = False,
      mk_schema_version = 1, mk_sub_pool_count = 8, mk_dormant_distribute_mode = 0,
      mk_max_pending_apply_per_tx = 4096, mk_max_distribution_ledger_size = 1024\<rparr>"

lemma demo_params: "market_params_from demo_program_market = demo_market Eager"
  by (simp add: market_params_from_def demo_program_market_def demo_market_def sample_market_def
      SCHEMA_VERSION_CURRENT_def Let_def)

text \<open>An oracle account that says \<open>p\<close> with eight decimals, published at \<open>slot\<close>.\<close>

definition demo_oracle :: "nat \<Rightarrow> nat \<Rightarrow> oracle_info" where
  "demo_oracle p slot = \<lparr>oi_key = demo_key 6, oi_owner = demo_key 7,
     oi_data = price_account PYTH_MAGIC 2 3 (- 8) (int p) 0 1 slot\<rparr>"

lemma demo_oracle_trusted:
  assumes "0 < p" and "p < 2 ^ 63" and "slot < 2 ^ 64" and "cx_market cx = demo_program_market"
    and "cx_clock_slot cx = slot"
  shows "trusted_env cx (demo_oracle p slot) (env_at q s) = Inr (env_at p slot)"
proof -
  let ?a = "price_account PYTH_MAGIC 2 3 (- 8) (int p) 0 1 slot"
    and ?policy = "\<lparr>max_age_slots = 25, policy_max_confidence_bps = 50\<rparr>"
  have fits: "fits_signed 32 (- 8)" "fits_signed 64 (int p)"
    using assms(2) by (simp_all add: fits_signed_def)
  have "PYTH_MAGIC < 2 ^ 32" by (simp add: PYTH_MAGIC_def)
  note f = price_account_fields [OF this _ _ fits, of 2 3 0 1 slot, simplified]
  have "acceptable ?a (demo_key 7) (demo_key 7) slot ?policy"
    using assms by (simp add: acceptable_def f rescaled_def)
  moreover have "vp_price (normalised ?a) = p"
    using assms(1-3) by (simp add: normalised_def f rescaled_def)
  ultimately show ?thesis
    using validate_cases [OF price_account_bytes [of PYTH_MAGIC 2 3 "- 8" "int p" 0 1 slot], of ?policy
        "demo_key 7" "demo_key 7" slot] assms
    by (simp add: trusted_env_def validate_oracle_envelope_def demo_oracle_def demo_program_market_def
        env_at_def)
qed

section \<open>Accounts\<close>

definition demo_pool_account :: "sub_pool \<Rightarrow> pool_account" where
  "demo_pool_account sp = apply_clearing_view sp
     \<lparr>pl_key = demo_key 8, pl_market = demo_key 1, pl_sub_pool_id = 7, pl_long_pool_equity = 0,
      pl_short_pool_equity = 0, pl_long_active_shares = 0, pl_short_active_shares = 0,
      pl_long_recovery_shares = 0, pl_short_recovery_shares = 0, pl_long_active_notional = 0,
      pl_short_active_notional = 0, pl_long_active_generation = 0, pl_short_active_generation = 0,
      pl_last_price = 0, pl_last_sync_slot = 0, pl_long_dust = 0, pl_short_dust = 0,
      pl_long_dormant_bucket_count = 0, pl_short_dormant_bucket_count = 0\<rparr>"

definition demo_ledger :: "direction \<Rightarrow> ledger_acct" where
  "demo_ledger d = \<lparr>lg_key = (if d = Long then demo_key 9 else demo_key 10), lg_sub_pool = demo_key 8,
     lg_direction_is_long = (d = Long), lg_max_entries = 1024, lg_gc_offset = 0,
     lg_next_event_index = 0, lg_accrued_value_total = 0, lg_pending_distribution_total = 0,
     lg_entry_count = 0, lg_entries = []\<rparr>"

text \<open>A dead account of the long side at tick 900: fresh, or cleared after it held a bucket of anchor 900.\<close>

definition demo_slot :: "u64 \<Rightarrow> bucket_acct" where
  "demo_slot anchor = \<lparr>bk_key = demo_key 11, bk_sub_pool = demo_key 8, bk_direction_is_long = True,
     bk_zero_price_tick = 900, bk_anchor_price = anchor, bk_total_recovery_shares = 0,
     bk_total_recovery_notional = 0, bk_accrued_value = 0, bk_position_count = 0,
     bk_last_applied_index = 0\<rparr>"

definition demo_accounts :: "sub_pool \<Rightarrow> u64 \<Rightarrow> pool_accounts" where
  "demo_accounts sp anchor = \<lparr>bg_pool = demo_pool_account sp, bg_long_ledger = demo_ledger Long,
     bg_short_ledger = demo_ledger Short, bg_buckets = [demo_key 11 \<mapsto> demo_slot anchor]\<rparr>"

definition demo_cx :: "pool_accounts \<Rightarrow> pubkey list \<Rightarrow> nat \<Rightarrow> bridge_context" where
  "demo_cx accs keys slot = \<lparr>cx_market = demo_program_market, cx_accounts = accs, cx_clock_slot = slot,
     cx_unix_timestamp = 1000, cx_remaining = keys, cx_long_bucket_count = length keys,
     cx_short_bucket_count = 0\<rparr>"

lemma demo_cx_simps [simp]:
  "cx_market (demo_cx accs keys slot) = demo_program_market" "cx_accounts (demo_cx accs keys slot) = accs"
  "cx_clock_slot (demo_cx accs keys slot) = slot" "cx_remaining (demo_cx accs keys slot) = keys"
  "cx_long_bucket_count (demo_cx accs keys slot) = length keys"
  "cx_short_bucket_count (demo_cx accs keys slot) = 0"
  "(demo_cx accs keys slot)\<lparr>cx_accounts := accs'\<rparr> = demo_cx accs' keys slot"
  by (simp_all add: demo_cx_def)

named_theorems pevals "definitions unfolded to evaluate the bridge of the program"

declare record_is_dead_def [pevals] mismatch_def [pevals] record_of_bucket_def [pevals]
  collect_bucket_def [pevals] entry_of_packed_def [pevals] packed_of_entry_def [pevals]
  ledger_of_account_def [pevals] unpack_direction_def [pevals] apply_record_def [pevals]
  matching_slot_def [pevals] place_matching_def [pevals] already_placed_def [pevals]
  place_free_def [pevals] zero_bucket_def [pevals] clear_slot_def [pevals] flush_ledger_def [pevals]
  pack_direction_def [pevals] decode_bucket_def [pevals] decode_buckets_def [pevals]
  split_remaining_buckets_def [pevals] exit_all_buckets_def [pevals] run_bridged_def [pevals]
  require_def [pevals] lift_engine_def [pevals] bridged_def [pevals] demo_params [pevals]
  check_pool_def [pevals] check_ledger_def [pevals] check_ledgers_def [pevals] check_address_def [pevals]
  clearing_view_def [pevals] apply_clearing_view_def [pevals] demo_pool_account_def [pevals]
  demo_ledger_def [pevals] demo_slot_def [pevals] demo_accounts_def [pevals]
declare is_dead_def [pevals] pack_bucket_def [pevals] pack_entry_def [pevals] pack_dormant_store_def [pevals]
  direction_of_byte_def [pevals] direction_byte_def [pevals] check_entry_def [pevals]
  unpack_bucket_def [pevals] unpack_step_def [pevals] unpack_entry_def [pevals]
  unpack_dormant_store_def [pevals]

lemma demo_reads:
  "read_pool (demo_accounts demo_pool anchor) [demo_key 11] 1 0 = Inr demo_pool"
  by (simp add: read_pool_def pevals evals demo)

lemma demo_pool_fits: "pool_fits (demo_market Eager) demo_pool"
proof (rule pool_fitsI [OF demo_pool_wf])
  show "check_subpool_invariants demo_pool = Ok ()" by (simp add: evals demo)
  show "within (demo_market Eager) (dormant d demo_pool)" for d
    by (cases d) (simp_all add: within_def live_buckets_def evals demo)
qed

lemma demo_stands_for:
  "stands_for (demo_cx (demo_accounts demo_pool anchor) [demo_key 11] slot) demo_pool"
  using demo_reads [of anchor] demo_pool_fits
  by (simp add: stands_for_def demo_params ledgers_fit_def demo_accounts_def demo_ledger_def
      demo_market_def sample_market_def)

text \<open>The fall to 900, with the bucket account named once: the long side moves into it.\<close>

declare program_sync_pool_def [pevals]

lemma demo_oracle_key [simp]: "oi_key (demo_oracle p slot) = mk_oracle_price_feed demo_program_market"
  by (simp add: demo_oracle_def demo_program_market_def)

lemma demo_market_key [simp]: "mk_key demo_program_market = demo_key 1"
  by (simp add: demo_program_market_def)

lemma demo_trusted:
  "0 < p \<Longrightarrow> p < 2 ^ 63 \<Longrightarrow> slot < 2 ^ 64 \<Longrightarrow>
    validate_oracle_envelope demo_program_market (demo_oracle p slot) slot (env_at q s) = Inr (env_at p slot)"
  using demo_oracle_trusted [of p slot "demo_cx accs keys slot" q s for accs keys]
  by (simp add: trusted_env_def)

abbreviation fall :: pool_instruction where
  "fall \<equiv> SyncIx (demo_oracle 900 2) (env_at 0 0)"

lemma fall_engine:
  "engine_of (demo_cx accs keys 2) fall demo_pool = Inr (demo_wiped, 0)"
  using demo_fell [of Eager] by (auto simp: engine_of_def trusted_env_def demo_trusted demo_params)

text \<open>Reading and writing one side at a time.\<close>

definition demo_long_slice :: "pubkey list \<Rightarrow> u64 \<Rightarrow> bucket_acct list" where
  "demo_long_slice keys anchor = map (\<lambda>key. (demo_slot anchor)\<lparr>bk_key := key\<rparr>) keys"

lemma demo_split:
  assumes "set keys \<subseteq> {demo_key 11}"
  shows "split_remaining_buckets (bg_buckets (demo_accounts sp anchor)) keys (length keys) 0
    = Inr (demo_long_slice keys anchor, [])"
proof -
  have "decode_buckets (bg_buckets (demo_accounts sp anchor)) keys = Inr (demo_long_slice keys anchor)"
    using nth_mem assms
    by (fastforce simp: decode_buckets_iff demo_long_slice_def list_all2_conv_all_nth decode_bucket_def
        demo_accounts_def)
  then show ?thesis
    by (simp add: split_remaining_buckets_def require_def decode_buckets_def)
qed

lemma demo_unpack:
  "unpack_direction (demo_ledger Long) (demo_long_slice keys anchor) (demo_key 8) Long = Inr (new_store Long)"
  "unpack_direction (demo_ledger Short) [] (demo_key 8) Short = Inr (new_store Short)"
proof -
  have "fold_res (collect_bucket (demo_key 8) True 0) (demo_long_slice keys anchor) acc = Inr acc" for acc
    by (induction keys arbitrary: acc) (simp_all add: demo_long_slice_def pevals)
  then show "unpack_direction (demo_ledger Long) (demo_long_slice keys anchor) (demo_key 8) Long = Inr (new_store Long)"
    by (simp add: pevals evals)
  show "unpack_direction (demo_ledger Short) [] (demo_key 8) Short = Inr (new_store Short)"
    by (simp add: pevals evals)
qed

lemma demo_pack_short:
  "\<exists>o'. pack_direction (demo_ledger Short) [] (demo_key 8) Short (new_store Short) 1024 1024
    = Inr (demo_ledger Short, [], o')"
  by (simp add: pevals evals)

text \<open>The program's sync to 900 over any naming of the bucket account.\<close>

definition fallen_pool :: pool_account where
  "fallen_pool = demo_pool_account demo_wiped"

lemma demo_fall:
  assumes "set keys \<subseteq> {demo_key 11}"
    and "pack_direction (demo_ledger Long) (demo_long_slice keys anchor) (demo_key 8) Long
      (long_dormant demo_wiped) 1024 1024 = Inr (l', bs', o')"
  shows "execute_pool_ix (demo_cx (demo_accounts demo_pool anchor) keys 2) fall
    = Inr (\<lparr>bg_pool = fallen_pool, bg_long_ledger = l', bg_short_ledger = demo_ledger Short,
         bg_buckets = exit_all_buckets bs' [] (bg_buckets (demo_accounts demo_pool anchor))\<rparr>, [])"
proof -
  obtain out where fell: "sync_pool (demo_market Eager) (env_at 900 2) demo_pool = Inr (demo_wiped, out)"
    using demo_fell by blast
  have caps: "max_dormant_bucket_count_per_direction (demo_market Eager) = 1024"
    "max_distribution_ledger_size (demo_market Eager) = 1024"
    by (simp_all add: evals)
  have accs: "bg_pool (demo_accounts demo_pool anchor) = demo_pool_account demo_pool"
    "bg_long_ledger (demo_accounts demo_pool anchor) = demo_ledger Long"
    "bg_short_ledger (demo_accounts demo_pool anchor) = demo_ledger Short"
    "pl_key (demo_pool_account sp) = demo_key 8" "pl_market (demo_pool_account sp) = demo_key 1"
    "lg_sub_pool (demo_ledger d) = demo_key 8" "lg_direction_is_long (demo_ledger d) = (d = Long)"
    for sp d
    by (simp_all add: demo_accounts_def demo_pool_account_def apply_clearing_view_def demo_ledger_def)
  have view: "(clearing_view (demo_pool_account demo_pool))\<lparr>long_dormant := new_store Long,
      short_dormant := new_store Short\<rparr> = demo_pool"
    by (simp add: pevals evals demo)
  have left: "apply_clearing_view demo_wiped (demo_pool_account demo_pool) = fallen_pool"
    by (simp add: fallen_pool_def demo_pool_account_def apply_clearing_view_def)
  have short: "short_dormant demo_wiped = new_store Short"
    by (simp add: demo_wiped_def demo_pool_def new_sub_pool_def)
  obtain o2 where "pack_direction (demo_ledger Short) [] (demo_key 8) Short (new_store Short) 1024 1024
    = Inr (demo_ledger Short, [], o2)" using demo_pack_short by blast
  with assms(2) show ?thesis
    by (simp add: execute_pool_ix_def program_sync_pool_def check_pool_def check_ledgers_def check_ledger_def
        check_address_def require_def accs demo_trusted bridged_def run_bridged_def demo_split [OF assms(1)]
        demo_unpack view demo_params fell lift_engine_def left short caps)
qed

lemma demo_pack_long:
  "pack_direction (demo_ledger Long) (demo_long_slice [demo_key 11] 0) (demo_key 8) Long
     (long_dormant demo_wiped) 1024 1024
   = Inr (demo_ledger Long, [(demo_slot 900)\<lparr>bk_total_recovery_shares := 100000000,
       bk_total_recovery_notional := 1000000000, bk_position_count := 1\<rparr>],
       \<lparr>po_removed_indices = [], po_written_count = 1\<rparr>)"
  by (simp add: pevals evals demo demo_long_slice_def)

lemma demo_fall_once:
  "\<exists>accs'. execute_pool_ix (demo_cx (demo_accounts demo_pool 0) [demo_key 11] 2) fall = Inr (accs', [])"
  using demo_fall [OF _ demo_pack_long] by simp

text \<open>The bucket account named twice: the bucket is written into one copy, and the other copy, still
  dead, is what ends up in the account.\<close>

lemma demo_pack_twice:
  "pack_direction (demo_ledger Long) (demo_long_slice [demo_key 11, demo_key 11] 0) (demo_key 8) Long
     (long_dormant demo_wiped) 1024 1024
   = Inr (demo_ledger Long, [(demo_slot 900)\<lparr>bk_total_recovery_shares := 100000000,
       bk_total_recovery_notional := 1000000000, bk_position_count := 1\<rparr>, demo_slot 0],
       \<lparr>po_removed_indices = [], po_written_count = 1\<rparr>)"
  by (simp add: pevals evals demo demo_long_slice_def)

text \<open>A cleared account that held a bucket of the same tick, anchor and index: nothing is written.\<close>

lemma demo_pack_cleared:
  "pack_direction (demo_ledger Long) (demo_long_slice [demo_key 11] 900) (demo_key 8) Long
     (long_dormant demo_wiped) 1024 1024
   = Inr (demo_ledger Long, [demo_slot 900], \<lparr>po_removed_indices = [], po_written_count = 0\<rparr>)"
  by (simp add: pevals evals demo demo_long_slice_def)

definition fallen_without_bucket :: "u64 \<Rightarrow> pool_accounts" where
  "fallen_without_bucket anchor = (demo_accounts demo_pool anchor)\<lparr>bg_pool := fallen_pool\<rparr>"

lemma demo_slot_simps [simp]: "bk_key (demo_slot anchor) = demo_key 11" "record_is_dead (demo_slot anchor)"
  by (simp_all add: demo_slot_def record_is_dead_def)

lemma demo_fall_twice:
  "execute_pool_ix (demo_cx (demo_accounts demo_pool 0) [demo_key 11, demo_key 11] 2) fall
    = Inr (fallen_without_bucket 0, [])"
  using demo_fall [OF _ demo_pack_twice]
  by (simp add: fallen_without_bucket_def demo_accounts_def exit_all_buckets_def)

lemma demo_fall_cleared:
  "execute_pool_ix (demo_cx (demo_accounts demo_pool 900) [demo_key 11] 2) fall
    = Inr (fallen_without_bucket 900, [])"
  using demo_fall [OF _ demo_pack_cleared]
  by (simp add: fallen_without_bucket_def demo_accounts_def exit_all_buckets_def)

lemma demo_fall_clear:
  "no_confusion (demo_cx (demo_accounts demo_pool 0) [demo_key 11] 2) fall demo_pool"
  unfolding no_confusion_def fall_engine
  by (auto simp: unmistakable_def demo_accounts_def demo_slot_def demo_wiped_def demo_pool_def dormant_def
      new_sub_pool_def new_store_def bt_empty_def split: direction.splits)

end
