(* ===== verification/Program_Stuck.thy ===== *)
theory Program_Stuck
  imports Program_Calls
begin

text \<open>
  What a sync does to a sub-pool read from accounts, whether or not it is well formed: a side
  with recovery shares but no bucket never passes the closing check, the rotate log holds at
  most the record of the generation that the sync itself ended, and generations never fall.
  The step relation \<open>pool_step\<close> is any instruction of the program on the accounts of a sub-pool;
  the lemmas carry these facts along its runs.
\<close>

section \<open>Frames of the sync\<close>

lemma compaction_keeps_empty:
  "ensure_ledger_capacity n st = Inr st' \<Longrightarrow> buckets st = [] \<Longrightarrow> buckets st' = []"
  by (auto simp: ensure_ledger_capacity_def compact_ledger_def Let_def split: if_splits)

lemma distribute_keeps_empty:
  assumes "distribute_by_mode mode p a n st = Inr (st', r)" and "buckets st = []"
  shows "buckets st' = []"
  using assms compaction_keeps_empty
  by (cases mode) (auto simp: distribute_by_mode_def distribute_def distribute_lazy_def activated_keys_def
      activated_buckets_def drain_keys_def sum_outstanding_def Let_def split: if_splits)

definition same_series :: "direction \<Rightarrow> sub_pool \<Rightarrow> sub_pool \<Rightarrow> bool" where
  "same_series d sp sp' \<longleftrightarrow> recovery_shares d sp' = recovery_shares d sp
     \<and> rotate_log d sp' = rotate_log d sp \<and> active_generation d sp' = active_generation d sp
     \<and> (buckets (dormant d sp) = [] \<longrightarrow> buckets (dormant d sp') = [])"

lemma same_series_refl: "same_series d sp sp"
  by (simp add: same_series_def)

lemma same_series_trans: "same_series d sp sp1 \<Longrightarrow> same_series d sp1 sp2 \<Longrightarrow> same_series d sp sp2"
  by (simp add: same_series_def)

lemma pay_recovery_series:
  assumes "pay_recovery m p w a (sp, o1) = Inr (sp', o2)"
  shows "same_series d sp sp'"
  using assms distribute_keeps_empty
  by (auto simp: pay_recovery_def same_series_def side_simps Let_def split: if_splits)

lemma settle_winner_series:
  assumes "settle_winner m p w ad td (sp, o1) = Inr (sp', o2)"
  shows "same_series d sp sp'"
proof (cases "min td (pool_equity (opposite w) sp) > 0")
  case False
  with assms show ?thesis by (auto simp: settle_winner_def Let_def same_series_refl)
next
  case True
  with assms obtain won left to_recovery o3 where
    "pay_recovery m p w to_recovery (set_pool_equity (opposite w) left (set_pool_equity w won sp), o1) = Inr (sp', o3)"
    by (auto simp: settle_winner_def Let_def)
  from pay_recovery_series [OF this, of d] show ?thesis by (simp add: same_series_def side_simps)
qed

lemma settle_sides_series:
  assumes "settle_sides m p demands sp = Inr (sp', o1)"
  shows "same_series d sp sp'"
  using assms settle_winner_series
  by (cases demands) (auto simp: settle_sides_def same_series_refl split: if_splits)

text \<open>A rotation: at most one record, of the generation that ends; one new bucket on an empty side.\<close>

definition rotated_once :: "direction \<Rightarrow> sub_pool \<Rightarrow> sub_pool \<Rightarrow> bool" where
  "rotated_once d sp sp' \<longleftrightarrow> active_generation d sp \<le> active_generation d sp'
     \<and> active_generation d sp' \<le> active_generation d sp + 1
     \<and> (\<forall>r\<in>set (rotate_log d sp'). r \<in> set (rotate_log d sp) \<or> generation_just_ended r = active_generation d sp)
     \<and> (buckets (dormant d sp) = [] \<longrightarrow>
          total_shares (dormant d sp') + recovery_shares d sp = recovery_shares d sp')"

lemma empty_total: "buckets st = [] \<Longrightarrow> total_shares st = 0"
  by (simp add: total_shares_def)

lemma rotate_active_once:
  assumes "rotate_active_to_recovery m d p sp = Inr sp'"
  shows "rotated_once d sp sp'" and "e \<noteq> d \<Longrightarrow> same_series e sp sp'"
proof -
  have "rotated_once d sp sp' \<and> (\<forall>e. e \<noteq> d \<longrightarrow> same_series e sp sp')"
  proof (cases "active_shares d sp = 0")
    case True
    with assms show ?thesis by (auto simp: rotate_active_to_recovery_def rotated_once_def same_series_refl empty_total)
  next
    case False
    with assms obtain tick store where
        ins: "insert_or_merge tick p (active_shares d sp) (active_notional d sp) 1
          (max_dormant_bucket_count_per_direction m) (dormant d sp) = Inr store"
      and push: "push_rotate_record d \<lparr>generation_just_ended = active_generation d sp, rr_bucket_tick = tick,
          rr_anchor_price = p\<rparr> (set_active_notional d 0 (set_active_shares d 0 (set_recovery_shares d
            (recovery_shares d sp + active_shares d sp) (set_dormant d store sp)))) = Inr sp'"
      by (auto simp: rotate_active_to_recovery_def Let_def side_simps)
    note pr = push_rotate_record_Ok [OF push]
    have "total_shares store = active_shares d sp" if "buckets (dormant d sp) = []"
      using ins that by (auto simp: insert_or_merge_def total_shares_def split: if_splits)
    then show ?thesis
      using pr(9) by (auto simp: rotated_once_def same_series_def pr(3,6,8,10) side_simps empty_total)
  qed
  then show "rotated_once d sp sp'" "e \<noteq> d \<Longrightarrow> same_series e sp sp'" by simp_all
qed

lemma rotate_if_empty_once:
  assumes "rotate_if_empty m p slot d (sp, o1) = Inr (sp', o2)"
  shows "rotated_once d sp sp'" and "e \<noteq> d \<Longrightarrow> same_series e sp sp'"
  using assms rotate_active_once [of m d p sp sp']
  by (auto simp: rotate_if_empty_def rotated_once_def same_series_refl empty_total split: if_splits)

lemma rotated_after: "same_series d sp sp1 \<Longrightarrow> rotated_once d sp1 sp2 \<Longrightarrow> rotated_once d sp sp2"
  by (auto simp: same_series_def rotated_once_def)

lemma rotated_before:
  "rotated_once d sp sp1 \<Longrightarrow> recovery_shares d sp2 = recovery_shares d sp1 \<Longrightarrow> rotate_log d sp2 = rotate_log d sp1
    \<Longrightarrow> active_generation d sp2 = active_generation d sp1 \<Longrightarrow> dormant d sp2 = dormant d sp1
    \<Longrightarrow> rotated_once d sp sp2"
  by (simp add: rotated_once_def)

lemma rotate_if_empty_other:
  assumes "rotate_if_empty m p slot d (sp, o1) = Inr (sp', o2)" and "e \<noteq> d"
  shows "recovery_shares e sp' = recovery_shares e sp" and "rotate_log e sp' = rotate_log e sp"
    and "active_generation e sp' = active_generation e sp" and "dormant e sp' = dormant e sp"
proof -
  have "recovery_shares e sp' = recovery_shares e sp \<and> rotate_log e sp' = rotate_log e sp
    \<and> active_generation e sp' = active_generation e sp \<and> dormant e sp' = dormant e sp"
  proof (cases "pool_equity d sp = 0 \<and> active_shares d sp > 0")
    case False
    with assms(1) show ?thesis by (auto simp: rotate_if_empty_def)
  next
    case True
    with assms(1) obtain r v w store where
        push: "push_rotate_record d r (set_active_notional d 0 (set_active_shares d 0 (set_recovery_shares d
            v (set_dormant d store sp)))) = Inr sp'"
      by (auto simp: rotate_if_empty_def rotate_active_to_recovery_def Let_def side_simps)
    note pr = push_rotate_record_Ok [OF push]
    show ?thesis using assms(2) by (simp add: pr(3,6,8,10) side_simps)
  qed
  then show "recovery_shares e sp' = recovery_shares e sp" "rotate_log e sp' = rotate_log e sp"
    "active_generation e sp' = active_generation e sp" "dormant e sp' = dormant e sp" by simp_all
qed

lemma sync_pool_once:
  assumes "sync_pool m env sp = Inr (sp', out)"
  shows "rotated_once d sp sp'" and "check_subpool_invariants sp' = Inr ()"
proof -
  show "check_subpool_invariants sp' = Inr ()" using assms by (rule sync_pool_checked)
  show "rotated_once d sp sp'"
  proof (cases "last_price sp = 0 \<or> env_p_now env = last_price sp")
    case True
    with assms have "sp' = sp\<lparr>last_price := env_p_now env, last_sync_slot := env_slot env\<rparr>
        \<or> sp' = sp\<lparr>last_sync_slot := env_slot env\<rparr>"
      by (auto simp: sync_pool_def Let_def split: if_splits)
    then have "recovery_shares d sp' = recovery_shares d sp" "rotate_log d sp' = rotate_log d sp"
      "active_generation d sp' = active_generation d sp" "dormant d sp' = dormant d sp"
      by (auto simp: side_simps)
    then show ?thesis by (simp add: rotated_once_def empty_total)
  next
    case False
    with assms have "sync_move m env sp = Inr (sp', out)" by (auto simp: sync_pool_def)
    then obtain demands sp1 o1 o2 sp3 o3 where
        set: "settle_sides m (env_p_now env) demands sp = Inr (sp1, o1)"
      and rl: "rotate_if_empty m (env_p_now env) (env_slot env) Long
          (sp1\<lparr>last_price := env_p_now env, last_sync_slot := env_slot env\<rparr>, o2) = Inr (sp3, o3)"
      and rs: "rotate_if_empty m (env_p_now env) (env_slot env) Short (sp3, o3) = Inr (sp', out)"
      by (rule sync_move_Ok)
    let ?sp2 = "sp1\<lparr>last_price := env_p_now env, last_sync_slot := env_slot env\<rparr>"
    have s2: "same_series e sp ?sp2" for e
      using settle_sides_series [OF set, of e] by (simp add: same_series_def side_simps)
    show ?thesis
    proof (cases d)
      case Long
      have "rotated_once Long sp sp3" using rotated_after [OF s2 rotate_if_empty_once(1) [OF rl]] .
      from rotated_before [OF this rotate_if_empty_other [OF rs direction.distinct(1)]] show ?thesis
        unfolding Long .
    next
      case Short
      have "same_series Short ?sp2 sp3" using rotate_if_empty_once(2) [OF rl, of Short] by simp
      from rotated_after [OF same_series_trans [OF s2 this] rotate_if_empty_once(1) [OF rs]] show ?thesis
        unfolding Short .
    qed
  qed
qed

text \<open>The two consequences.\<close>

lemma sync_needs_bucket:
  assumes "sync_pool m env sp = Inr (sp', out)" and "buckets (dormant d sp) = []"
  shows "recovery_shares d sp = 0"
  using sync_pool_once(1) [OF assms(1), of d] check_subpool_invariants_Ok(2) [OF sync_pool_once(2) [OF assms(1)], of d]
    assms(2)
  by (simp add: rotated_once_def)

lemma stale_cannot_migrate:
  assumes "sync_pool m env sp = Inr (sp', out)" and "rotate_log (pos_direction pos) sp = []"
    and "pos_active_generation pos < active_generation (pos_direction pos) sp" and "0 < pos_active_shares pos"
  shows "lazy_migrate_position sp' pos = Err (Invariant ''missing rotate record'')"
proof -
  let ?d = "pos_direction pos"
  have once: "rotated_once ?d sp sp'" using sync_pool_once(1) [OF assms(1)] .
  then have "find_rotate_record ?d (pos_active_generation pos) sp' = None"
    using assms(2,3) by (auto simp: find_rotate_record_def find_None_iff rotated_once_def)
  moreover have "pos_active_generation pos \<noteq> active_generation ?d sp'"
    using once assms(3) by (simp add: rotated_once_def)
  ultimately show ?thesis using assms(4) by (simp add: lazy_migrate_position_def Let_def)
qed

text \<open>The price a sync leaves is the one it was given.\<close>

lemma rotate_if_empty_price:
  assumes "rotate_if_empty m p slot d (sp, o1) = Inr (sp', o2)"
  shows "last_price sp' = last_price sp"
proof (cases "pool_equity d sp = 0 \<and> active_shares d sp > 0")
  case False
  with assms show ?thesis by (auto simp: rotate_if_empty_def)
next
  case True
  with assms obtain r v store where
      push: "push_rotate_record d r (set_active_notional d 0 (set_active_shares d 0 (set_recovery_shares d
          v (set_dormant d store sp)))) = Inr sp'"
    by (auto simp: rotate_if_empty_def rotate_active_to_recovery_def Let_def side_simps)
  show ?thesis by (simp add: push_rotate_record_Ok(7) [OF push] side_simps)
qed

lemma sync_pool_price:
  assumes "sync_pool m env sp = Inr (sp', out)"
  shows "last_price sp' = env_p_now env"
proof (cases "last_price sp = 0 \<or> env_p_now env = last_price sp")
  case True
  with assms show ?thesis by (auto simp: sync_pool_def Let_def split: if_splits)
next
  case False
  with assms have "sync_move m env sp = Inr (sp', out)" by (auto simp: sync_pool_def)
  then obtain sp1 o2 sp3 o3 where
      "rotate_if_empty m (env_p_now env) (env_slot env) Long
        (sp1\<lparr>last_price := env_p_now env, last_sync_slot := env_slot env\<rparr>, o2) = Inr (sp3, o3)"
      "rotate_if_empty m (env_p_now env) (env_slot env) Short (sp3, o3) = Inr (sp', out)"
    by (rule sync_move_Ok)
  from rotate_if_empty_price [OF this(1)] rotate_if_empty_price [OF this(2)] show ?thesis by simp
qed

section \<open>What an instruction runs on\<close>

definition pool_recovery :: "direction \<Rightarrow> pool_account \<Rightarrow> u128" where
  "pool_recovery d a = recovery_shares d (clearing_view a)"

definition pool_generation :: "direction \<Rightarrow> pool_account \<Rightarrow> u64" where
  "pool_generation d a = active_generation d (clearing_view a)"

lemma view_with_stores:
  fixes a ls ss defines "sp \<equiv> (clearing_view a)\<lparr>long_dormant := ls, short_dormant := ss\<rparr>"
  shows "recovery_shares d sp = pool_recovery d a" and "active_generation d sp = pool_generation d a"
    and "rotate_log d sp = []" and "dormant Long sp = ls" and "dormant Short sp = ss"
  by (cases d; simp add: sp_def pool_recovery_def pool_generation_def recovery_shares_def
      active_generation_def rotate_log_def dormant_def clearing_view_def new_sub_pool_def)+

lemma view_empty:
  "rotate_log d (clearing_view a) = []" "buckets (dormant d (clearing_view a)) = []"
  by (cases d; simp add: clearing_view_def new_sub_pool_def rotate_log_def dormant_def new_store_def bt_empty_def)+

lemma bridgedD:
  assumes "bridged cx call = Inr (accs', r)"
  obtains longs shorts ls ss sp sp' where
      "decode_buckets (bg_buckets (cx_accounts cx)) (take (cx_long_bucket_count cx) (cx_remaining cx)) = Inr longs"
    and "decode_buckets (bg_buckets (cx_accounts cx)) (drop (cx_long_bucket_count cx) (cx_remaining cx)) = Inr shorts"
    and "unpack_direction (bg_long_ledger (cx_accounts cx)) longs (pl_key (bg_pool (cx_accounts cx))) Long = Inr ls"
    and "unpack_direction (bg_short_ledger (cx_accounts cx)) shorts (pl_key (bg_pool (cx_accounts cx))) Short = Inr ss"
    and "sp = (clearing_view (bg_pool (cx_accounts cx)))\<lparr>long_dormant := ls, short_dormant := ss\<rparr>"
    and "call (market_params_from (cx_market cx)) sp = Inr (sp', r)"
    and "bg_pool accs' = apply_clearing_view sp' (bg_pool (cx_accounts cx))"
proof -
  from assms that show thesis
    by (auto simp: bridged_def run_bridged_def split_remaining_buckets_def Let_def)
qed

text \<open>The sub-pool an instruction hands to the engine starts without rotate logs and, on a side whose
  accounts are all dead, without buckets.\<close>

definition orphaned :: "pool_accounts \<Rightarrow> direction \<Rightarrow> bool" where
  "orphaned accs d \<longleftrightarrow> pool_recovery d (bg_pool accs) \<noteq> 0 \<and> (\<forall>key a. bg_buckets accs key = Some a
     \<longrightarrow> sided (pl_key (bg_pool accs)) d a \<longrightarrow> record_is_dead a)"

lemma dead_side_empty:
  assumes "unpack_direction l bs key d = Inr st" and "\<forall>b\<in>set bs. record_is_dead b"
  shows "buckets st = []"
proof -
  note sided = unpack_direction_sided(1) [OF assms(1)]
  have "live_records d bs = []" using assms(2) by (simp add: filter_empty_conv)
  with collect_live [OF sided, of "[]"] assms(1) have
      "unpack_dormant_store [] (ledger_of_account (direction_byte d) l) = Inr st"
    by (auto simp: unpack_direction_def Let_def direction_byte_flag)
  then show ?thesis
    by (auto simp: unpack_dormant_store_def from_onchain_parts_def bt_empty_def split: if_splits)
qed

lemma decoded_from_world:
  assumes "decode_buckets w keys = Inr bs" and "b \<in> set bs"
  shows "\<exists>key a. w key = Some a \<and> b = a\<lparr>bk_key := key\<rparr>"
  using assms
  by (fastforce simp: decode_buckets_iff list_all2_conv_all_nth in_set_conv_nth decode_bucket_def
      split: option.splits)

lemma orphaned_slice:
  assumes "orphaned accs d" and "decode_buckets (bg_buckets accs) keys = Inr bs"
    and "unpack_direction l bs (pl_key (bg_pool accs)) d = Inr st"
  shows "buckets st = []"
proof (rule dead_side_empty [OF assms(3)], intro ballI)
  fix b assume b: "b \<in> set bs"
  obtain key a where a: "bg_buckets accs key = Some a" "b = a\<lparr>bk_key := key\<rparr>"
    using decoded_from_world [OF assms(2) b] by blast
  have "sided (pl_key (bg_pool accs)) d a"
    using unpack_direction_sided(1) [OF assms(3)] b a(2) by (auto simp: sided_def)
  with assms(1) a show "record_is_dead b" by (auto simp: orphaned_def record_is_dead_def)
qed

lemma bridged_orphaned:
  assumes "bridged cx call = Inr (accs', r)" and "orphaned (cx_accounts cx) d"
  obtains sp sp' where "call (market_params_from (cx_market cx)) sp = Inr (sp', r)"
    and "recovery_shares d sp \<noteq> 0" and "buckets (dormant d sp) = []"
proof -
  note orphaned_slice [OF assms(2)]
  from assms(1) obtain longs shorts ls ss sp sp' where
      "decode_buckets (bg_buckets (cx_accounts cx)) (take (cx_long_bucket_count cx) (cx_remaining cx)) = Inr longs"
      "decode_buckets (bg_buckets (cx_accounts cx)) (drop (cx_long_bucket_count cx) (cx_remaining cx)) = Inr shorts"
      "unpack_direction (bg_long_ledger (cx_accounts cx)) longs (pl_key (bg_pool (cx_accounts cx))) Long = Inr ls"
      "unpack_direction (bg_short_ledger (cx_accounts cx)) shorts (pl_key (bg_pool (cx_accounts cx))) Short = Inr ss"
    and sp: "sp = (clearing_view (bg_pool (cx_accounts cx)))\<lparr>long_dormant := ls, short_dormant := ss\<rparr>"
    and call: "call (market_params_from (cx_market cx)) sp = Inr (sp', r)"
    by (rule bridgedD)
  then have "buckets (dormant d sp) = []"
    using orphaned_slice [OF assms(2)] unfolding sp by (cases d) (auto simp: view_with_stores)
  moreover have "recovery_shares d sp \<noteq> 0"
    using assms(2) unfolding sp by (simp add: view_with_stores orphaned_def)
  ultimately show thesis using that call by blast
qed

lemma pre_sync_needs_bucket:
  assumes "pre_sync_dormant_bucket m e tick slot sp = Inr (sp', out)" and "buckets (dormant d sp) = []"
  shows "recovery_shares d sp = 0"
proof -
  from assms(1) obtain st n b where ap: "apply_pending_to_bucket tick (dormant e sp) = Inr (st, n)"
    and sp': "sp' = set_dormant e st sp" and chk: "check_subpool_invariants sp' = Inr ()"
    and b: "get_bucket (dormant e sp) tick = Some b"
    by (auto simp: pre_sync_dormant_bucket_def Let_def split: if_splits)
  have "e \<noteq> d" using b assms(2) by (auto simp: get_bucket_def)
  then show ?thesis
    using check_subpool_invariants_Ok(2) [OF chk, of d] assms(2) by (simp add: sp' side_simps empty_total)
qed

lemma starts_with_sync:
  "close_position m env sp pos = Inr x \<Longrightarrow> \<exists>sp1 out. sync_pool m env sp = Inr (sp1, out)"
  "force_close_zero_value_position m env ack sp pos = Inr y \<Longrightarrow> \<exists>sp1 out. sync_pool m env sp = Inr (sp1, out)"
  "claim_dormant_recovery m env sp pos = Inr z \<Longrightarrow> \<exists>sp1 out. sync_pool m env sp = Inr (sp1, out)"
  by (auto simp: close_position_def force_close_zero_value_position_def claim_dormant_recovery_def
      split: if_splits)

lemma execute_orphaned:
  assumes "orphaned (cx_accounts cx) d"
  shows "execute_pool_ix cx ix \<noteq> Inr x"
proof
  assume run: "execute_pool_ix cx ix = Inr x"
  show False
  proof (cases ix)
    case (SyncIx oinfo env)
    with run obtain env' accs' where "bridged cx (\<lambda>params sp. and_then (sync_pool params env' sp)
        (\<lambda>(sp', _). Ok (sp', ()))) = Inr (accs', ())"
      by (auto simp: execute_pool_ix_def program_sync_pool_def)
    then show False by (rule bridged_orphaned [OF _ assms]) (auto dest: sync_needs_bucket)
  next
    case (PreSyncIx is_long tick)
    with run obtain accs' where "bridged cx (\<lambda>params sp. and_then (pre_sync_dormant_bucket params
        (direction_of_flag is_long) tick (cx_clock_slot cx) sp) (\<lambda>(sp', _). Ok (sp', ()))) = Inr (accs', ())"
      by (auto simp: execute_pool_ix_def program_pre_sync_dormant_bucket_def)
    then show False by (rule bridged_orphaned [OF _ assms]) (auto dest: pre_sync_needs_bucket)
  next
    case (CloseIx ox oinfo env)
    with run obtain env' r accs' where "bridged cx (\<lambda>params sp. and_then (close_position params env' sp
        (position_to_core (ox_position ox))) (\<lambda>(sp', pos, out). Ok (sp', pos, out))) = Inr (accs', r)"
      by (auto simp: execute_pool_ix_def program_close_position_def)
    then show False by (rule bridged_orphaned [OF _ assms]) (auto dest!: starts_with_sync dest: sync_needs_bucket)
  next
    case (ForceCloseIx ox oinfo env ack)
    with run obtain env' r accs' where "bridged cx (\<lambda>params sp. and_then (force_close_zero_value_position
        params env' ack sp (position_to_core (ox_position ox))) (\<lambda>(sp', pos, out). Ok (sp', pos))) = Inr (accs', r)"
      by (auto simp: execute_pool_ix_def program_force_close_zero_value_position_def)
    then show False by (rule bridged_orphaned [OF _ assms]) (auto dest!: starts_with_sync dest: sync_needs_bucket)
  next
    case (ClaimIx ox oinfo env)
    with run obtain env' r accs' where "bridged cx (\<lambda>params sp. and_then (claim_dormant_recovery params env' sp
        (position_to_core (ox_position ox))) (\<lambda>(sp', pos, out). Ok (sp', pos, out))) = Inr (accs', r)"
      by (auto simp: execute_pool_ix_def program_claim_dormant_recovery_def)
    then show False by (rule bridged_orphaned [OF _ assms]) (auto dest!: starts_with_sync dest: sync_needs_bucket)
  qed
qed

text \<open>Opening and harvesting run on the view without stores.\<close>

lemma open_needs_no_recovery:
  assumes "program_open_position nx params = Inr x"
  shows "pool_recovery d (nx_pool nx) = 0"
proof -
  from assms obtain env m sp' out where "sync_pool m env (clearing_view (nx_pool nx)) = Inr (sp', out)"
    by (auto simp: program_open_position_def open_position_def split: if_splits)
  from sync_needs_bucket [OF this view_empty(2)] show ?thesis by (simp add: pool_recovery_def)
qed

lemma harvest_needs_no_recovery:
  assumes "program_harvest_dust hx is_long = Inr x"
  shows "pool_recovery d (hx_pool hx) = 0"
proof -
  from assms obtain e where chk: "check_subpool_invariants (set_dust e 0 (clearing_view (hx_pool hx))) = Inr ()"
    by (auto simp: program_harvest_dust_def harvest_dust_def Let_def split: if_splits)
  from check_subpool_invariants_Ok(2) [OF this, of d] show ?thesis
    by (simp add: side_simps empty_total view_empty pool_recovery_def)
qed

section \<open>Generations\<close>

lemma burns_generation:
  "burn_active sp pos = Inr (sp', pos', v) \<Longrightarrow> active_generation d sp' = active_generation d sp"
  "burn_recovery sp pos = Inr (sp', pos', tick, r) \<Longrightarrow> active_generation d sp' = active_generation d sp"
  "burn_recovery_if_any sp pos = Inr (sp', pos', r) \<Longrightarrow> active_generation d sp' = active_generation d sp"
  "burn_worthless sp pos = Inr (sp', pos', b, n) \<Longrightarrow> active_generation d sp' = active_generation d sp"
  "forfeit_recovery sp pos = Inr (sp', pos', r, f) \<Longrightarrow> active_generation d sp' = active_generation d sp"
  by (auto simp: burn_active_def burn_recovery_def burn_recovery_if_any_def burn_worthless_def
      forfeit_recovery_def Let_def side_simps split: if_splits)

lemma sync_generation:
  "sync_pool m env sp = Inr (sp', out) \<Longrightarrow> active_generation d sp \<le> active_generation d sp'"
  using sync_pool_once(1) by (simp add: rotated_once_def)

lemma operations_generation:
  "close_position m env sp pos = Inr (sp', pos', co) \<Longrightarrow> active_generation d sp \<le> active_generation d sp'"
  "force_close_zero_value_position m env ack sp pos = Inr (sp', pos', fo)
    \<Longrightarrow> active_generation d sp \<le> active_generation d sp'"
  "claim_dormant_recovery m env sp pos = Inr (sp', pos', cr) \<Longrightarrow> active_generation d sp \<le> active_generation d sp'"
  "open_position m env e gross pid sp = Inr (sp', pos', oo) \<Longrightarrow> active_generation d sp \<le> active_generation d sp'"
proof -
  assume "close_position m env sp pos = Inr (sp', pos', co)"
  then obtain sp1 o1 p1 mg sp2 p2 v p3 rc where "sync_pool m env sp = Inr (sp1, o1)"
      "lazy_migrate_position sp1 pos = Inr (p1, mg)" "burn_active sp1 p1 = Inr (sp2, p2, v)"
      "burn_recovery_if_any sp2 p2 = Inr (sp', p3, rc)"
    by (auto simp: close_position_def Let_def split: if_splits)
  then show "active_generation d sp \<le> active_generation d sp'"
    using sync_generation [of m env sp sp1 o1 d] burns_generation(1) [of sp1 p1 sp2 p2 v d]
      burns_generation(3) [of sp2 p2 sp' p3 rc d] by simp
next
  assume "force_close_zero_value_position m env ack sp pos = Inr (sp', pos', fo)"
  then obtain sp1 o1 p1 mg sp2 p2 b n p3 rc v where "sync_pool m env sp = Inr (sp1, o1)"
      "lazy_migrate_position sp1 pos = Inr (p1, mg)" "burn_worthless sp1 p1 = Inr (sp2, p2, b, n)"
      "forfeit_recovery sp2 p2 = Inr (sp', p3, rc, v)"
    by (auto simp: force_close_zero_value_position_def Let_def split: if_splits)
  then show "active_generation d sp \<le> active_generation d sp'"
    using sync_generation [of m env sp sp1 o1 d] burns_generation(4) [of sp1 p1 sp2 p2 b n d]
      burns_generation(5) [of sp2 p2 sp' p3 rc v d] by simp
next
  assume "claim_dormant_recovery m env sp pos = Inr (sp', pos', cr)"
  then obtain sp1 o1 p1 mg p2 t rc where "sync_pool m env sp = Inr (sp1, o1)"
      "lazy_migrate_position sp1 pos = Inr (p1, mg)" "burn_recovery sp1 p1 = Inr (sp', p2, t, rc)"
    by (auto simp: claim_dormant_recovery_def Let_def split: if_splits)
  then show "active_generation d sp \<le> active_generation d sp'"
    using sync_generation [of m env sp sp1 o1 d] burns_generation(2) [of sp1 p1 sp' p2 t rc d] by simp
next
  assume "open_position m env e gross pid sp = Inr (sp', pos', oo)"
  then obtain sp1 o1 where "sync_pool m env sp = Inr (sp1, o1)"
      "active_generation d sp' = active_generation d sp1"
    by (auto simp: open_position_def Let_def side_simps split: if_splits)
  then show "active_generation d sp \<le> active_generation d sp'"
    using sync_generation [of m env sp sp1 o1 d] by simp
qed

lemma applied_view [simp]:
  "pool_generation d (apply_clearing_view v a) = active_generation d v"
  "pool_recovery d (apply_clearing_view v a) = recovery_shares d v"
  "pl_key (apply_clearing_view v a) = pl_key a"
  by (cases d; simp add: pool_generation_def pool_recovery_def clearing_view_def apply_clearing_view_def
      new_sub_pool_def active_generation_def recovery_shares_def)+

lemma bridged_generation:
  assumes "bridged cx call = Inr (accs', r)"
    and "\<And>m sp sp' r. call m sp = Inr (sp', r) \<Longrightarrow> active_generation d sp \<le> active_generation d sp'"
  shows "pool_generation d (bg_pool (cx_accounts cx)) \<le> pool_generation d (bg_pool accs')
    \<and> pl_key (bg_pool accs') = pl_key (bg_pool (cx_accounts cx))"
proof -
  from assms(1) obtain ls ss sp sp' where
      sp: "sp = (clearing_view (bg_pool (cx_accounts cx)))\<lparr>long_dormant := ls, short_dormant := ss\<rparr>"
    and call: "call (market_params_from (cx_market cx)) sp = Inr (sp', r)"
    and pool: "bg_pool accs' = apply_clearing_view sp' (bg_pool (cx_accounts cx))"
    by (rule bridgedD)
  show ?thesis using assms(2) [OF call] by (simp add: pool sp view_with_stores)
qed

lemma pre_sync_generation:
  "pre_sync_dormant_bucket m e tick slot sp = Inr (sp', out) \<Longrightarrow> active_generation d sp' = active_generation d sp"
  by (auto simp: pre_sync_dormant_bucket_def Let_def side_simps split: if_splits)

lemma execute_generation:
  assumes "execute_pool_ix cx ix = Inr (accs', ts)"
  shows "pool_generation d (bg_pool (cx_accounts cx)) \<le> pool_generation d (bg_pool accs')"
    and "pl_key (bg_pool accs') = pl_key (bg_pool (cx_accounts cx))"
proof -
  have "pool_generation d (bg_pool (cx_accounts cx)) \<le> pool_generation d (bg_pool accs')
    \<and> pl_key (bg_pool accs') = pl_key (bg_pool (cx_accounts cx))"
  proof (cases ix)
    case (SyncIx oinfo env)
    with assms obtain env' r where "bridged cx (\<lambda>params sp. and_then (sync_pool params env' sp)
        (\<lambda>(sp', _). Ok (sp', ()))) = Inr (accs', r)"
      by (auto simp: execute_pool_ix_def program_sync_pool_def)
    then show ?thesis by (rule bridged_generation) (auto intro: sync_generation)
  next
    case (PreSyncIx is_long tick)
    with assms obtain r where "bridged cx (\<lambda>params sp. and_then (pre_sync_dormant_bucket params
        (direction_of_flag is_long) tick (cx_clock_slot cx) sp) (\<lambda>(sp', _). Ok (sp', ()))) = Inr (accs', r)"
      by (auto simp: execute_pool_ix_def program_pre_sync_dormant_bucket_def)
    then show ?thesis by (rule bridged_generation) (auto simp: pre_sync_generation)
  next
    case (CloseIx ox oinfo env)
    with assms obtain env' r where "bridged cx (\<lambda>params sp. and_then (close_position params env' sp
        (position_to_core (ox_position ox))) (\<lambda>(sp', pos, out). Ok (sp', pos, out))) = Inr (accs', r)"
      by (auto simp: execute_pool_ix_def program_close_position_def)
    then show ?thesis by (rule bridged_generation) (auto intro: operations_generation(1))
  next
    case (ForceCloseIx ox oinfo env ack)
    with assms obtain env' r where "bridged cx (\<lambda>params sp. and_then (force_close_zero_value_position
        params env' ack sp (position_to_core (ox_position ox))) (\<lambda>(sp', pos, out). Ok (sp', pos))) = Inr (accs', r)"
      by (auto simp: execute_pool_ix_def program_force_close_zero_value_position_def)
    then show ?thesis by (rule bridged_generation) (auto intro: operations_generation(2))
  next
    case (ClaimIx ox oinfo env)
    with assms obtain env' r where "bridged cx (\<lambda>params sp. and_then (claim_dormant_recovery params env' sp
        (position_to_core (ox_position ox))) (\<lambda>(sp', pos, out). Ok (sp', pos, out))) = Inr (accs', r)"
      by (auto simp: execute_pool_ix_def program_claim_dormant_recovery_def)
    then show ?thesis by (rule bridged_generation) (auto intro: operations_generation(3))
  qed
  then show "pool_generation d (bg_pool (cx_accounts cx)) \<le> pool_generation d (bg_pool accs')"
    "pl_key (bg_pool accs') = pl_key (bg_pool (cx_accounts cx))" by simp_all
qed

section \<open>Positions of an ended generation\<close>

definition stale :: "position_acct \<Rightarrow> pool_account \<Rightarrow> bool" where
  "stale p a \<longleftrightarrow> 0 < px_active_shares p
     \<and> px_active_generation p < pool_generation (direction_of_flag (px_direction_is_long p)) a"

text \<open>The instructions with which the owner of a position gets something out of it.\<close>

fun leaves_position :: "position_acct \<Rightarrow> pool_instruction \<Rightarrow> bool" where
  "leaves_position p (CloseIx ox oinfo env) = (ox_position ox = p)"
| "leaves_position p (ForceCloseIx ox oinfo env ack) = (ox_position ox = p)"
| "leaves_position p (ClaimIx ox oinfo env) = (ox_position ox = p)"
| "leaves_position p (SyncIx oinfo env) = False"
| "leaves_position p (PreSyncIx is_long tick) = False"

lemma bridged_stale:
  assumes "bridged cx call = Inr (accs', r)" and "stale p (bg_pool (cx_accounts cx))"
  obtains sp sp' where "call (market_params_from (cx_market cx)) sp = Inr (sp', r)"
    and "\<And>m env sp1 out. sync_pool m env sp = Inr (sp1, out)
      \<Longrightarrow> lazy_migrate_position sp1 (position_to_core p) = Err (Invariant ''missing rotate record'')"
proof -
  let ?pos = "position_to_core p"
  have pos: "pos_direction ?pos = direction_of_flag (px_direction_is_long p)"
    "pos_active_generation ?pos = px_active_generation p" "pos_active_shares ?pos = px_active_shares p"
    by (simp_all add: position_to_core_def)
  from assms(1) obtain ls ss sp sp' where
      sp: "sp = (clearing_view (bg_pool (cx_accounts cx)))\<lparr>long_dormant := ls, short_dormant := ss\<rparr>"
    and call: "call (market_params_from (cx_market cx)) sp = Inr (sp', r)"
    by (rule bridgedD)
  have "lazy_migrate_position sp1 ?pos = Err (Invariant ''missing rotate record'')"
    if "sync_pool m env sp = Inr (sp1, out)" for m env sp1 out
    using stale_cannot_migrate [OF that] assms(2) by (simp add: sp view_with_stores pos stale_def)
  with call that show thesis by blast
qed

lemma execute_stale:
  assumes "stale p (bg_pool (cx_accounts cx))" and "leaves_position p ix"
  shows "execute_pool_ix cx ix \<noteq> Inr x"
proof
  assume run: "execute_pool_ix cx ix = Inr x"
  have no: False if "\<And>m env sp1 out. sync_pool m env sp = Inr (sp1, out)
      \<Longrightarrow> lazy_migrate_position sp1 pos = Err e"
    and "(\<exists>m env sp' pos' co. close_position m env sp pos = Inr (sp', pos', co))
      \<or> (\<exists>m env ack sp' pos' fo. force_close_zero_value_position m env ack sp pos = Inr (sp', pos', fo))
      \<or> (\<exists>m env sp' pos' cr. claim_dormant_recovery m env sp pos = Inr (sp', pos', cr))" for sp pos e
    using that(2) by (auto simp: close_position_def force_close_zero_value_position_def
        claim_dormant_recovery_def that(1) split: if_splits dest!: that(1))
  show False
  proof (cases ix)
    case (CloseIx ox oinfo env)
    with run assms(2) obtain env' r accs' where "bridged cx (\<lambda>params sp. and_then (close_position params env' sp
        (position_to_core p)) (\<lambda>(sp', pos, out). Ok (sp', pos, out))) = Inr (accs', r)"
      by (auto simp: execute_pool_ix_def program_close_position_def)
    then show False
      by (rule bridged_stale [OF _ assms(1)]) (rule no, auto)
  next
    case (ForceCloseIx ox oinfo env ack)
    with run assms(2) obtain env' r accs' where "bridged cx (\<lambda>params sp. and_then (force_close_zero_value_position
        params env' ack sp (position_to_core p)) (\<lambda>(sp', pos, out). Ok (sp', pos))) = Inr (accs', r)"
      by (auto simp: execute_pool_ix_def program_force_close_zero_value_position_def)
    then show False
      by (rule bridged_stale [OF _ assms(1)]) (rule no, auto)
  next
    case (ClaimIx ox oinfo env)
    with run assms(2) obtain env' r accs' where "bridged cx (\<lambda>params sp. and_then (claim_dormant_recovery params env' sp
        (position_to_core p)) (\<lambda>(sp', pos, out). Ok (sp', pos, out))) = Inr (accs', r)"
      by (auto simp: execute_pool_ix_def program_claim_dormant_recovery_def)
    then show False
      by (rule bridged_stale [OF _ assms(1)]) (rule no, auto)
  qed (use assms(2) in simp_all)
qed

section \<open>Runs of the program\<close>

text \<open>
  One instruction on the accounts of a sub-pool, by anyone and with any accounts named beside
  them: those over the bridge, an open, a harvest, a new bucket account, and the closing of one.
\<close>

inductive pool_step :: "pool_accounts \<Rightarrow> pool_accounts \<Rightarrow> bool" where
  bridged_step: "execute_pool_ix cx ix = Ok (accs', ts) \<Longrightarrow> pool_step (cx_accounts cx) accs'"
| open_step: "program_open_position nx params = Ok (pool', pos, ts) \<Longrightarrow> nx_pool nx = bg_pool accs
    \<Longrightarrow> pool_step accs (accs\<lparr>bg_pool := pool'\<rparr>)"
| harvest_step: "program_harvest_dust hx is_long = Ok (pool', ts) \<Longrightarrow> hx_pool hx = bg_pool accs
    \<Longrightarrow> pool_step accs (accs\<lparr>bg_pool := pool'\<rparr>)"
| init_bucket_step: "initialize_dormant_bucket m (bg_pool accs) key is_long tick = Ok b
    \<Longrightarrow> bg_buckets accs key = None \<Longrightarrow> pool_step accs (accs\<lparr>bg_buckets := (bg_buckets accs)(key := Some b)\<rparr>)"
| close_bucket_step: "program_close_dormant_bucket m (bg_pool accs) l b (bg_buckets accs) = Ok w'
    \<Longrightarrow> pool_step accs (accs\<lparr>bg_buckets := w'\<rparr>)"

inductive_cases pool_stepE: "pool_step accs accs'"

lemma open_keeps:
  assumes "program_open_position nx params = Inr (pool', pos, ts)"
  shows "pool_generation d (nx_pool nx) \<le> pool_generation d pool'" and "pl_key pool' = pl_key (nx_pool nx)"
  using assms operations_generation(4) [where d = d]
  by (fastforce simp: program_open_position_def pool_generation_def [of d "nx_pool nx"])+

lemma harvest_keeps:
  assumes "program_harvest_dust hx is_long = Inr (pool', ts)"
  shows "pool_generation d pool' = pool_generation d (hx_pool hx)" and "pl_key pool' = pl_key (hx_pool hx)"
  using assms
  by (auto simp: program_harvest_dust_def harvest_dust_def Let_def side_simps pool_generation_def [of d "hx_pool hx"]
      split: if_splits)

lemma step_generation:
  assumes "pool_step accs accs'"
  shows "pool_generation d (bg_pool accs) \<le> pool_generation d (bg_pool accs')"
    and "pl_key (bg_pool accs') = pl_key (bg_pool accs)"
proof -
  have "pool_generation d (bg_pool accs) \<le> pool_generation d (bg_pool accs')
    \<and> pl_key (bg_pool accs') = pl_key (bg_pool accs)"
    using assms
  proof cases
    case (bridged_step cx ix ts)
    then show ?thesis using execute_generation [of cx ix accs' ts] by auto
  next
    case (open_step nx params pool' pos ts)
    then show ?thesis using open_keeps(1) [of nx params pool' pos ts d] open_keeps(2) [of nx params pool' pos ts] by simp
  next
    case (harvest_step hx is_long pool' ts)
    then show ?thesis using harvest_keeps(1) [of hx is_long pool' ts d] harvest_keeps(2) [of hx is_long pool' ts] by simp
  qed auto
  then show "pool_generation d (bg_pool accs) \<le> pool_generation d (bg_pool accs')"
    "pl_key (bg_pool accs') = pl_key (bg_pool accs)" by simp_all
qed

lemma step_orphaned:
  assumes "pool_step accs accs'" and "orphaned accs d"
  shows "orphaned accs' d" and "bg_pool accs' = bg_pool accs"
    and "bg_long_ledger accs' = bg_long_ledger accs" and "bg_short_ledger accs' = bg_short_ledger accs"
proof -
  have rec: "pool_recovery d (bg_pool accs) \<noteq> 0" using assms(2) by (simp add: orphaned_def)
  have "orphaned accs' d \<and> bg_pool accs' = bg_pool accs \<and> bg_long_ledger accs' = bg_long_ledger accs
    \<and> bg_short_ledger accs' = bg_short_ledger accs"
    using assms(1)
  proof cases
    case (bridged_step cx ix ts)
    then show ?thesis using execute_orphaned assms(2) by blast
  next
    case (open_step nx params pool' pos ts)
    then show ?thesis using open_needs_no_recovery [of nx params _ d] rec by simp
  next
    case (harvest_step hx is_long pool' ts)
    then show ?thesis using harvest_needs_no_recovery [of hx is_long _ d] rec by simp
  next
    case (init_bucket_step m key is_long tick b)
    then have "record_is_dead b" by (auto simp: initialize_dormant_bucket_def record_is_dead_def)
    with assms(2) init_bucket_step show ?thesis by (auto simp: orphaned_def)
  next
    case (close_bucket_step m l b w')
    then have "w' = (bg_buckets accs)(bk_key b := None)"
      by (auto simp: program_close_dormant_bucket_def)
    with assms(2) close_bucket_step show ?thesis by (auto simp: orphaned_def)
  qed
  then show "orphaned accs' d" "bg_pool accs' = bg_pool accs"
    "bg_long_ledger accs' = bg_long_ledger accs" "bg_short_ledger accs' = bg_short_ledger accs" by simp_all
qed

lemma run_orphaned:
  assumes "pool_step\<^sup>*\<^sup>* accs accs'" and "orphaned accs d"
  shows "orphaned accs' d \<and> bg_pool accs' = bg_pool accs"
  using assms by (induction rule: rtranclp_induct) (auto dest: step_orphaned)

lemma orphaned_image:
  assumes "orphaned accs d"
  shows "bg_pool ` {accs'. pool_step\<^sup>*\<^sup>* accs accs'} = {bg_pool accs}"
proof
  show "bg_pool ` {accs'. pool_step\<^sup>*\<^sup>* accs accs'} \<subseteq> {bg_pool accs}"
  proof (rule image_subsetI)
    fix accs' assume "accs' \<in> {accs'. pool_step\<^sup>*\<^sup>* accs accs'}"
    then have "pool_step\<^sup>*\<^sup>* accs accs'" by simp
    from run_orphaned [OF this assms] show "bg_pool accs' \<in> {bg_pool accs}" by simp
  qed
  have "bg_pool accs \<in> bg_pool ` {accs'. pool_step\<^sup>*\<^sup>* accs accs'}"
    by (rule image_eqI [where x = accs]) simp_all
  then show "{bg_pool accs} \<subseteq> bg_pool ` {accs'. pool_step\<^sup>*\<^sup>* accs accs'}" by simp
qed

lemma run_stale:
  assumes "pool_step\<^sup>*\<^sup>* accs accs'" and "stale p (bg_pool accs)"
  shows "stale p (bg_pool accs')"
  using assms
proof (induction rule: rtranclp_induct)
  case (step accs1 accs2)
  then show ?case
    using step_generation(1) [of accs1 accs2 "direction_of_flag (px_direction_is_long p)"] by (simp add: stale_def)
qed simp

section \<open>Halted markets\<close>

definition market_halted :: "market_account \<Rightarrow> bool" where
  "market_halted m \<longleftrightarrow> mk_paused m \<or> mk_schema_version m \<noteq> SCHEMA_VERSION_CURRENT"

lemma halted_params:
  assumes "market_halted m"
  shows "paused (market_params_from m) \<or> assert_schema_version (schema_version (market_params_from m)) \<noteq> Inr u"
  using assms by (auto simp: market_halted_def market_params_from_def assert_schema_version_def Let_def)

lemma halted_engine:
  assumes "market_halted m" defines "M \<equiv> market_params_from m"
  shows "sync_pool M env sp \<noteq> Inr x" and "pre_sync_dormant_bucket M d tick slot sp \<noteq> Inr y"
    and "harvest_dust M d sp \<noteq> Inr z"
  using halted_params [OF assms(1), folded M_def]
  by (auto simp: sync_pool_def sync_guards_def pre_sync_dormant_bucket_def harvest_dust_def split: if_splits)

lemma execute_halted:
  assumes "market_halted (cx_market cx)"
  shows "execute_pool_ix cx ix \<noteq> Inr x"
proof
  assume run: "execute_pool_ix cx ix = Inr x"
  note no = halted_engine [OF assms]
  show False
  proof (cases ix)
    case (SyncIx oinfo env)
    with run obtain env' r where "bridged cx (\<lambda>params sp. and_then (sync_pool params env' sp)
        (\<lambda>(sp', _). Ok (sp', ()))) = Inr r"
      by (auto simp: execute_pool_ix_def program_sync_pool_def)
    then show False by (auto simp: bridged_def run_bridged_def Let_def no)
  next
    case (PreSyncIx is_long tick)
    with run obtain r where "bridged cx (\<lambda>params sp. and_then (pre_sync_dormant_bucket params
        (direction_of_flag is_long) tick (cx_clock_slot cx) sp) (\<lambda>(sp', _). Ok (sp', ()))) = Inr r"
      by (auto simp: execute_pool_ix_def program_pre_sync_dormant_bucket_def)
    then show False by (auto simp: bridged_def run_bridged_def Let_def no)
  next
    case (CloseIx ox oinfo env)
    with run obtain env' r where "bridged cx (\<lambda>params sp. and_then (close_position params env' sp
        (position_to_core (ox_position ox))) (\<lambda>(sp', pos, out). Ok (sp', pos, out))) = Inr r"
      by (auto simp: execute_pool_ix_def program_close_position_def)
    then show False by (auto simp: bridged_def run_bridged_def Let_def no dest!: starts_with_sync)
  next
    case (ForceCloseIx ox oinfo env ack)
    with run obtain env' r where "bridged cx (\<lambda>params sp. and_then (force_close_zero_value_position
        params env' ack sp (position_to_core (ox_position ox))) (\<lambda>(sp', pos, out). Ok (sp', pos))) = Inr r"
      by (auto simp: execute_pool_ix_def program_force_close_zero_value_position_def)
    then show False by (auto simp: bridged_def run_bridged_def Let_def no dest!: starts_with_sync)
  next
    case (ClaimIx ox oinfo env)
    with run obtain env' r where "bridged cx (\<lambda>params sp. and_then (claim_dormant_recovery params env' sp
        (position_to_core (ox_position ox))) (\<lambda>(sp', pos, out). Ok (sp', pos, out))) = Inr r"
      by (auto simp: execute_pool_ix_def program_claim_dormant_recovery_def)
    then show False by (auto simp: bridged_def run_bridged_def Let_def no dest!: starts_with_sync)
  qed
qed

lemma open_halted: "market_halted (nx_market nx) \<Longrightarrow> program_open_position nx params \<noteq> Inr x"
  using halted_engine(1) by (fastforce simp: program_open_position_def open_position_def split: if_splits)

lemma harvest_halted: "market_halted (hx_market hx) \<Longrightarrow> program_harvest_dust hx is_long \<noteq> Inr x"
  using halted_engine(3) by (fastforce simp: program_harvest_dust_def)

text \<open>Everything governance and migration can do to a market.\<close>

inductive market_step :: "market_account \<Rightarrow> market_account \<Rightarrow> bool" where
  "pause_market m gc signer = Ok m' \<Longrightarrow> market_step m m'"
| "resume_market m gc signer = Ok m' \<Longrightarrow> market_step m m'"
| "freeze_new_position m gc signer = Ok m' \<Longrightarrow> market_step m m'"
| "unfreeze_new_position m gc signer = Ok m' \<Longrightarrow> market_step m m'"
| "bump_market_schema_version m gc signer v = Ok m' \<Longrightarrow> market_step m m'"
| "migrate_market m gc signer = Ok m' \<Longrightarrow> market_step m m'"

lemma migrate_version_Ok: "migrate_version v = Inr v' \<Longrightarrow> v' = v \<and> SCHEMA_VERSION_CURRENT < v"
  by (cases "SCHEMA_VERSION_CURRENT - v") (auto simp: migrate_version_def from_source_def split: if_splits)

lemma market_step_version:
  assumes "market_step m m'"
  shows "mk_schema_version m \<le> mk_schema_version m'"
  using assms
  by cases (auto simp: pause_market_def resume_market_def freeze_new_position_def unfreeze_new_position_def
      bump_market_schema_version_def migrate_market_def dest!: migrate_version_Ok split: if_splits)

lemma market_run_version:
  assumes "market_step\<^sup>*\<^sup>* m m'"
  shows "mk_schema_version m \<le> mk_schema_version m'"
  using assms by (induction rule: rtranclp_induct) (auto dest: market_step_version)

end
