(* ===== verification/Program_Properties.thy ===== *)
theory Program_Properties
  imports Evaluate_Program Program_Stuck
begin

text \<open>
  The properties of the Solana program: its instructions refine the engine's calls and pay what
  the engine reports; and the ways in which accounts and engine can come apart.
\<close>

section \<open>Refinement\<close>

lemma pool_ix_Ok:
  assumes "execute_pool_ix cx ix = Inr (accs', ts)" and "stands_for cx sp" and "no_confusion cx ix sp"
  shows "done_exactly cx ix sp accs' (\<Sum>t\<leftarrow>ts. tt_amount t)"
proof (cases ix)
  case (SyncIx oinfo env)
  with assms program_sync_Ok [of cx oinfo env] show ?thesis by (auto simp: execute_pool_ix_def)
next
  case (PreSyncIx is_long tick)
  with assms program_pre_sync_Ok [of cx is_long tick] show ?thesis by (auto simp: execute_pool_ix_def)
next
  case (CloseIx ox oinfo env)
  with assms program_close_Ok [of cx ox oinfo env] show ?thesis by (fastforce simp: execute_pool_ix_def pays_def)
next
  case (ForceCloseIx ox oinfo env ack)
  with assms program_force_close_Ok(1) [of cx ox oinfo env ack] show ?thesis by (auto simp: execute_pool_ix_def)
next
  case (ClaimIx ox oinfo env)
  with assms program_claim_Ok [of cx ox oinfo env] show ?thesis by (fastforce simp: execute_pool_ix_def pays_def)
qed

text \<open>
  C3: on accounts that stand for a sub-pool, an instruction of the program does what the
  engine does to that sub-pool at the price of the oracle: afterwards the accounts stand for
  the engine's result (without its rotate logs, which no account holds), they fit their
  bounds again, and the tokens sent out of the vault are exactly what the sub-pool lost.
  The condition is that the addresses named are distinct (part of \<open>stands_for\<close>) and no cleared
  bucket account looks like a bucket the engine leaves.
\<close>

theorem program_refines_engine:
  assumes "execute_pool_ix cx ix = Ok (accs', ts)" and "stands_for cx sp" and "no_confusion cx ix sp"
  shows "\<exists>sp'. engine_of cx ix sp = Ok (sp', \<Sum>t\<leftarrow>ts. tt_amount t)
    \<and> stands_for (cx\<lparr>cx_accounts := accs'\<rparr>) (forget_logs sp')
    \<and> vault (forget_logs sp') + (\<Sum>t\<leftarrow>ts. tt_amount t) = vault sp"
  using pool_ix_Ok [OF assms] by (auto simp: done_exactly_def)

theorem program_refines_engine_witness:
  "\<exists>accs'. execute_pool_ix (demo_cx (demo_accounts demo_pool 0) [demo_key 11] 2) fall = Ok (accs', [])
     \<and> stands_for (demo_cx accs' [demo_key 11] 2) (forget_logs demo_wiped)
     \<and> vault (forget_logs demo_wiped) = vault demo_pool"
proof -
  let ?cx = "demo_cx (demo_accounts demo_pool 0) [demo_key 11] 2"
  obtain accs' where run: "execute_pool_ix ?cx fall = Ok (accs', [])" using demo_fall_once by blast
  from program_refines_engine [OF run demo_stands_for demo_fall_clear] run show ?thesis
    by (auto simp: fall_engine)
qed

section \<open>A side without its bucket\<close>

text \<open>
  C6: when a side of a sub-pool has recovery shares but every bucket account of that side is
  dead, no instruction over the bridge succeeds, whatever accounts it names, nor does an open
  or a harvest; creating and closing bucket accounts does not help, so in every run of the
  program the sub-pool account stays as it is and its funds stay locked.
\<close>

theorem orphaned_pool_frozen:
  assumes "orphaned accs d" and "pool_step\<^sup>*\<^sup>* accs accs'"
  shows "bg_pool accs' = bg_pool accs
    \<and> (\<nexists>cx ix x. cx_accounts cx = accs' \<and> execute_pool_ix cx ix = Ok x)
    \<and> (\<nexists>nx params x. nx_pool nx = bg_pool accs' \<and> program_open_position nx params = Ok x)
    \<and> (\<nexists>hx is_long x. hx_pool hx = bg_pool accs' \<and> program_harvest_dust hx is_long = Ok x)"
proof -
  note run = run_orphaned [OF assms(2,1)]
  then have rec: "pool_recovery d (bg_pool accs') \<noteq> 0" unfolding orphaned_def by blast
  have "\<nexists>cx ix x. cx_accounts cx = accs' \<and> execute_pool_ix cx ix = Ok x"
    using run execute_orphaned by blast
  moreover have "\<nexists>nx params x. nx_pool nx = bg_pool accs' \<and> program_open_position nx params = Ok x"
    using rec open_needs_no_recovery by fastforce
  moreover have "\<nexists>hx is_long x. hx_pool hx = bg_pool accs' \<and> program_harvest_dust hx is_long = Ok x"
    using rec harvest_needs_no_recovery by fastforce
  ultimately show ?thesis using run by blast
qed

lemma fallen_orphaned: "orphaned (fallen_without_bucket anchor) Long"
  by (simp add: orphaned_def fallen_without_bucket_def demo_accounts_def pool_recovery_def recovery_shares_def
      clearing_view_def fallen_pool_def demo_pool_account_def apply_clearing_view_def demo_wiped_def)

text \<open>
  The witness reaches such a state: a sync that names the bucket account twice, which anybody
  may send, or that names an account cleared after a bucket of the same tick, price and index.
\<close>

theorem orphaned_pool_frozen_witness:
  "execute_pool_ix (demo_cx (demo_accounts demo_pool 0) [demo_key 11, demo_key 11] 2) fall
     = Ok (fallen_without_bucket 0, [])
   \<and> execute_pool_ix (demo_cx (demo_accounts demo_pool 900) [demo_key 11] 2) fall
     = Ok (fallen_without_bucket 900, [])
   \<and> orphaned (fallen_without_bucket 0) Long \<and> bg_pool (fallen_without_bucket 0) = fallen_pool
   \<and> (\<nexists>cx ix x. cx_accounts cx = fallen_without_bucket 0 \<and> execute_pool_ix cx ix = Ok x)"
proof (intro conjI)
  show "execute_pool_ix (demo_cx (demo_accounts demo_pool 0) [demo_key 11, demo_key 11] 2) fall
     = Ok (fallen_without_bucket 0, [])" by (rule demo_fall_twice)
  show "execute_pool_ix (demo_cx (demo_accounts demo_pool 900) [demo_key 11] 2) fall
     = Ok (fallen_without_bucket 900, [])" by (rule demo_fall_cleared)
  show "orphaned (fallen_without_bucket 0) Long" by (rule fallen_orphaned)
  show "bg_pool (fallen_without_bucket 0) = fallen_pool" by (simp add: fallen_without_bucket_def)
  show "\<nexists>cx ix x. cx_accounts cx = fallen_without_bucket 0 \<and> execute_pool_ix cx ix = Ok x"
    using orphaned_pool_frozen [OF fallen_orphaned rtranclp.rtrancl_refl, of 0] by (rule conjunct1 [OF conjunct2])
qed

section \<open>Positions of an ended generation\<close>

text \<open>
  C4: the program keeps no rotate log between transactions, so a position that still has
  active shares of a generation its sub-pool has left (its side was wiped out in an earlier
  transaction) can never again be closed, force-closed or claimed, in no later state of any
  run: its recovery is lost to its owner.
\<close>

theorem stale_position_stuck:
  assumes "stale p (bg_pool accs)" and "pool_step\<^sup>*\<^sup>* accs accs'" and "leaves_position p ix"
  shows "\<nexists>cx x. cx_accounts cx = accs' \<and> execute_pool_ix cx ix = Ok x"
  using run_stale [OF assms(2,1)] execute_stale [OF _ assms(3)] by blast

definition demo_position_account :: position_acct where
  "demo_position_account =
     \<lparr>px_key = demo_key 12, px_owner = demo_key 13, px_market = demo_key 1, px_sub_pool = demo_key 8,
      px_position_id = 1, px_direction_is_long = True, px_status = 0, px_principal = 100000000,
      px_leverage_bps = 100000, px_notional = 1000000000, px_active_shares = 100000000,
      px_recovery_shares = 0, px_recovery_bucket_tick = 0, px_has_recovery_bucket = False,
      px_zero_price = 0, px_entry_price = 1000, px_last_sync_slot = 1, px_active_generation = 0,
      px_opened_at = 0, px_updated_at = 0, px_closed_at = 0, px_schema_version = 1\<rparr>"

definition demo_owner :: owner_context where
  "demo_owner = \<lparr>ox_owner = demo_key 13, ox_position = demo_position_account,
     ox_vault = \<lparr>tk_key = demo_key 4, tk_mint = demo_key 3, tk_owner = demo_key 14\<rparr>,
     ox_user_token_account = \<lparr>tk_key = demo_key 15, tk_mint = demo_key 3, tk_owner = demo_key 13\<rparr>\<rparr>"

theorem stale_position_stuck_witness:
  "\<exists>accs'. execute_pool_ix (demo_cx (demo_accounts demo_pool 0) [demo_key 11] 2) fall = Ok (accs', [])
     \<and> stale demo_position_account (bg_pool accs')
     \<and> (\<nexists>cx x. cx_accounts cx = accs' \<and> execute_pool_ix cx (ClaimIx demo_owner (demo_oracle 990 3) (env_at 0 0)) = Ok x)"
proof -
  obtain accs' where run: "execute_pool_ix (demo_cx (demo_accounts demo_pool 0) [demo_key 11] 2) fall = Ok (accs', [])"
    and pool: "bg_pool accs' = fallen_pool"
    using demo_fall [OF _ demo_pack_long] by simp
  have st: "stale demo_position_account (bg_pool accs')"
    by (simp add: pool stale_def demo_position_account_def fallen_pool_def demo_pool_account_def
        direction_of_flag_def active_generation_def demo_wiped_def)
  have "leaves_position demo_position_account (ClaimIx demo_owner (demo_oracle 990 3) (env_at 0 0))"
    by (simp add: demo_owner_def)
  from stale_position_stuck [OF st rtranclp.rtrancl_refl this] run st show ?thesis by blast
qed

section \<open>Opening\<close>



text \<open>An attacker opens a short at 900 while the oracle may say anything.\<close>

definition demo_open_cx :: open_context where
  "demo_open_cx = \<lparr>nx_market = demo_program_market, nx_pool = demo_pool_account demo_pool,
     nx_position_key = demo_key 20,
     nx_vault = \<lparr>tk_key = demo_key 4, tk_mint = demo_key 3, tk_owner = demo_key 14\<rparr>,
     nx_fee_vault = \<lparr>tk_key = demo_key 5, tk_mint = demo_key 3, tk_owner = demo_key 14\<rparr>,
     nx_user_token_account = \<lparr>tk_key = demo_key 21, tk_mint = demo_key 3, tk_owner = demo_key 22\<rparr>,
     nx_owner = demo_key 22, nx_unix_timestamp = 5\<rparr>"

definition open_at :: "u64 \<Rightarrow> u64 \<Rightarrow> program_open_params" where
  "open_at p gross = \<lparr>np_envelope = env_at p 2, np_direction_is_long = False, np_gross_amount = gross,
     np_position_id = 9\<rparr>"

lemma demo_view: "clearing_view (demo_pool_account demo_pool) = demo_pool"
  by (simp add: demo_pool_account_def apply_clearing_view_def clearing_view_def demo_pool_def new_sub_pool_def)

lemma demo_open_engine:
  "\<exists>view pos out. open_position (demo_market Eager) (env_at 900 2) Short 110000000 9 demo_pool = Inr (view, pos, out)
     \<and> long_recovery_shares view = 100000000 \<and> short_pool_equity view = 1210000000"
  by (simp add: evals demo)

lemma demo_open_succeeds:
  "\<exists>pool' pos ts. program_open_position demo_open_cx (open_at 900 110000000) = Inr (pool', pos, ts)
     \<and> pl_long_recovery_shares pool' = 100000000 \<and> pl_short_pool_equity pool' = 1210000000
     \<and> pl_key pool' = demo_key 8"
proof -
  obtain view pos out where run: "open_position (demo_market Eager) (env_at 900 2) Short 110000000 9 demo_pool
      = Inr (view, pos, out)" and res: "long_recovery_shares view = 100000000" "short_pool_equity view = 1210000000"
    using demo_open_engine by blast
  have "pl_market (demo_pool_account demo_pool) = demo_key 1" "pl_key (demo_pool_account demo_pool) = demo_key 8"
    by (simp_all add: demo_pool_account_def apply_clearing_view_def)
  then show ?thesis
    using run res
    by (simp add: program_open_position_def demo_open_cx_def open_at_def check_pool_def check_address_def
        check_user_token_def require_def demo_view demo_params direction_of_flag_def)
      (simp add: demo_program_market_def apply_clearing_view_def)
qed


text \<open>
  an open is enough to take a side of a sub-pool out, at a price its caller makes up: the
  short opened at 900 wipes the long side of the sample sub-pool out, its collateral goes to
  the short side, the bucket it should move into is never written, and the sub-pool is frozen
  for good.
\<close>

theorem open_freezes_pool:
  "\<exists>pool' pos ts. program_open_position demo_open_cx (open_at 900 110000000) = Ok (pool', pos, ts)
     \<and> nx_pool demo_open_cx = bg_pool (demo_accounts demo_pool 0)
     \<and> pl_long_pool_equity (nx_pool demo_open_cx) = 100000000
     \<and> pl_short_pool_equity pool' = pl_short_pool_equity (nx_pool demo_open_cx) + 100000000 + px_principal pos
     \<and> bg_pool ` {accs. pool_step\<^sup>*\<^sup>* ((demo_accounts demo_pool 0)\<lparr>bg_pool := pool'\<rparr>) accs} = {pool'}"
proof -
  obtain pool' pos ts where run: "program_open_position demo_open_cx (open_at 900 110000000) = Inr (pool', pos, ts)"
    and res: "pl_long_recovery_shares pool' = 100000000" "pl_short_pool_equity pool' = 1210000000"
      "pl_key pool' = demo_key 8"
    using demo_open_succeeds by blast
  have "px_principal pos = 110000000"
    using run by (auto simp: program_open_position_def demo_open_cx_def open_at_def demo_view demo_params
        new_position_account_def evals demo direction_of_flag_def)
  moreover have "orphaned ((demo_accounts demo_pool 0)\<lparr>bg_pool := pool'\<rparr>) Long"
    by (simp add: orphaned_def demo_accounts_def pool_recovery_def recovery_shares_def clearing_view_def res)
  from orphaned_image [OF this] have
    "bg_pool ` {accs. pool_step\<^sup>*\<^sup>* ((demo_accounts demo_pool 0)\<lparr>bg_pool := pool'\<rparr>) accs} = {pool'}" by simp
  moreover have "nx_pool demo_open_cx = bg_pool (demo_accounts demo_pool 0)"
    "pl_long_pool_equity (nx_pool demo_open_cx) = 100000000" "pl_short_pool_equity (nx_pool demo_open_cx) = 1000000000"
    by (simp_all add: demo_open_cx_def demo_accounts_def demo_pool_account_def apply_clearing_view_def demo_pool_def)
  ultimately show ?thesis using run res by auto
qed

section \<open>Governance\<close>

text \<open>
  governance takes the right signature: a market is paused, resumed, frozen or unfrozen
  only by the emergency authority of its own global configuration, and its schema version is
  bumped only by the admin authority and only upwards; each changes that one field.
\<close>

theorem governance_needs_authority:
  "(pause_market m gc signer = Ok m' \<longleftrightarrow> gc_key gc = mk_global_config m \<and> signer = gc_emergency_authority gc
       \<and> m' = m\<lparr>mk_paused := True\<rparr>)
   \<and> (resume_market m gc signer = Ok m' \<longleftrightarrow> gc_key gc = mk_global_config m \<and> signer = gc_emergency_authority gc
       \<and> m' = m\<lparr>mk_paused := False\<rparr>)
   \<and> (freeze_new_position m gc signer = Ok m' \<longleftrightarrow> gc_key gc = mk_global_config m
       \<and> signer = gc_emergency_authority gc \<and> m' = m\<lparr>mk_frozen_new_position := True\<rparr>)
   \<and> (unfreeze_new_position m gc signer = Ok m' \<longleftrightarrow> gc_key gc = mk_global_config m
       \<and> signer = gc_emergency_authority gc \<and> m' = m\<lparr>mk_frozen_new_position := False\<rparr>)
   \<and> (bump_market_schema_version m gc signer v = Ok m' \<longleftrightarrow> gc_key gc = mk_global_config m
       \<and> signer = gc_admin_authority gc \<and> mk_schema_version m < v \<and> m' = m\<lparr>mk_schema_version := v\<rparr>)"
  by (auto simp: pause_market_def resume_market_def freeze_new_position_def unfreeze_new_position_def
      bump_market_schema_version_def check_market_authority_def check_address_def require_def split: if_splits)

text \<open>
  C7: the admin may bump the schema version of a live market although no migration is
  deployed, and that is final: whatever governance and migration do afterwards, no instruction
  of the market over the bridge, no open and no harvest ever succeeds again.
\<close>

theorem schema_bump_is_final:
  assumes "bump_market_schema_version m gc signer v = Ok m1" and "mk_schema_version m = SCHEMA_VERSION_CURRENT"
    and "market_step\<^sup>*\<^sup>* m1 m2"
  shows "(\<nexists>cx ix x. cx_market cx = m2 \<and> execute_pool_ix cx ix = Ok x)
    \<and> (\<nexists>nx params x. nx_market nx = m2 \<and> program_open_position nx params = Ok x)
    \<and> (\<nexists>hx is_long x. hx_market hx = m2 \<and> program_harvest_dust hx is_long = Ok x)"
proof -
  have "SCHEMA_VERSION_CURRENT < mk_schema_version m1"
    using assms(1,2) by (auto simp: bump_market_schema_version_def split: if_splits)
  with market_run_version [OF assms(3)] have halted: "market_halted m2" by (simp add: market_halted_def)
  show ?thesis using execute_halted [of _ _ _] open_halted harvest_halted halted by blast
qed

definition demo_config :: global_config where
  "demo_config = \<lparr>gc_key = demo_key 2, gc_admin_authority = demo_key 30, gc_emergency_authority = demo_key 31,
     gc_protocol_treasury = demo_key 32, gc_upgrade_authority = demo_key 33, gc_paused_globally = False,
     gc_schema_version = 1\<rparr>"

theorem schema_bump_is_final_witness:
  "\<exists>m1 m2. bump_market_schema_version demo_program_market demo_config (demo_key 30) 2 = Ok m1
     \<and> migrate_market m1 demo_config (demo_key 30) = Ok m2
     \<and> (\<nexists>nx params x. nx_market nx = m2 \<and> program_open_position nx params = Ok x)"
proof -
  have bump: "bump_market_schema_version demo_program_market demo_config (demo_key 30) 2
      = Ok (demo_program_market\<lparr>mk_schema_version := 2\<rparr>)"
    and cur: "mk_schema_version demo_program_market = SCHEMA_VERSION_CURRENT"
    by (simp_all add: bump_market_schema_version_def check_market_authority_def check_address_def require_def
        demo_config_def demo_program_market_def SCHEMA_VERSION_CURRENT_def)
  have mig: "migrate_market (demo_program_market\<lparr>mk_schema_version := 2\<rparr>) demo_config (demo_key 30)
      = Ok (demo_program_market\<lparr>mk_schema_version := 2\<rparr>)"
    by (simp add: migrate_market_def migrate_version_def check_market_authority_def check_address_def require_def
        demo_config_def demo_program_market_def SCHEMA_VERSION_CURRENT_def)
  then have "market_step (demo_program_market\<lparr>mk_schema_version := 2\<rparr>) (demo_program_market\<lparr>mk_schema_version := 2\<rparr>)"
    by (rule market_step.intros)
  from schema_bump_is_final [OF bump cur r_into_rtranclp [of market_step, OF this]] bump mig show ?thesis
    by blast
qed

end
