(* ===== verification/Account_Codec.thy ===== *)
theory Account_Codec
  imports Tx_Codec Leader_Lock
begin

text \<open>
  The account decoder \<open>crates/keeper-decoder/src/lib.rs\<close>: the mirrors of the on-chain accounts, their
  Borsh encoding and the three functions that encode and decode an account with its Anchor
  discriminator. Borsh is a third-party crate, so the codec of each primitive type is a field of the
  record \<open>borsh_types\<close>; what the derived codecs rely on (a value is read back from its encoding
  whatever follows, an encoding has its width, and only encodings are read) is the predicate
  \<open>borsh_lawful\<close>. The derived codec of a struct runs the codecs of its fields in declaration
  order.
\<close>

section \<open>Codecs\<close>

record 'a codec =
  cd_put :: "'a \<Rightarrow> (string, u8 list) result"
  cd_get :: "u8 list \<Rightarrow> (string, 'a \<times> u8 list) result"

definition pair_codec :: "'a codec \<Rightarrow> 'b codec \<Rightarrow> ('a \<times> 'b) codec" where
  "pair_codec c d =
     \<lparr>cd_put = (\<lambda>(x, y). and_then (cd_put c x) (\<lambda>bs. and_then (cd_put d y) (\<lambda>cs. Ok (bs @ cs)))),
      cd_get = (\<lambda>bs. and_then (cd_get c bs) (\<lambda>(x, rest). and_then (cd_get d rest) (\<lambda>(y, rest').
        Ok ((x, y), rest'))))\<rparr>"

definition as_struct :: "('r \<Rightarrow> 'a) \<Rightarrow> ('a \<Rightarrow> 'r) \<Rightarrow> 'a codec \<Rightarrow> 'r codec" where
  "as_struct parts build c =
     \<lparr>cd_put = (\<lambda>r. cd_put c (parts r)),
      cd_get = (\<lambda>bs. and_then (cd_get c bs) (\<lambda>(t, rest). Ok (build t, rest)))\<rparr>"

text \<open>\<open>try_from_slice\<close> of the crate: nothing may be left over.\<close>

definition try_from_slice :: "'a codec \<Rightarrow> u8 list \<Rightarrow> (string, 'a) result" where
  "try_from_slice c bs =
     and_then (cd_get c bs) (\<lambda>(x, rest). if rest = [] then Ok x else Err ''Not all bytes read'')"

section \<open>Account mirrors\<close>

record onchain_dist_entry =
  xe_event_index :: u64
  xe_p_at_event :: u64
  xe_total_outstanding_at_event :: u128
  xe_total_alloc_input :: u128
  xe_allocated_sum_observed :: u128

text \<open>The codecs of the crate, one per primitive type, for arrays of bytes and for vectors of entries.\<close>

record borsh_types =
  ty_u8 :: "u8 codec"
  ty_u16 :: "u16 codec"
  ty_u32 :: "u32 codec"
  ty_u64 :: "u64 codec"
  ty_u128 :: "u128 codec"
  ty_i64 :: "i64 codec"
  ty_bool :: "bool codec"
  ty_bytes :: "nat \<Rightarrow> u8 list codec"
  ty_vec :: "onchain_dist_entry codec \<Rightarrow> onchain_dist_entry list codec"

definition is_bytes :: "u8 list \<Rightarrow> bool" where
  "is_bytes bs \<longleftrightarrow> (\<forall>b\<in>set bs. b < 2 ^ 8)"

definition is_array :: "nat \<Rightarrow> u8 list \<Rightarrow> bool" where
  "is_array n bs \<longleftrightarrow> length bs = n \<and> is_bytes bs"

record onchain_sub_pool =
  xs_market :: pubkey
  xs_sub_pool_id :: u32
  xs_long_pool_equity :: u128
  xs_short_pool_equity :: u128
  xs_long_active_shares :: u128
  xs_short_active_shares :: u128
  xs_long_recovery_shares :: u128
  xs_short_recovery_shares :: u128
  xs_long_active_notional :: u128
  xs_short_active_notional :: u128
  xs_long_active_generation :: u64
  xs_short_active_generation :: u64
  xs_last_price :: u64
  xs_last_sync_slot :: u64
  xs_long_dust :: u128
  xs_short_dust :: u128
  xs_long_dormant_bucket_count :: u32
  xs_short_dormant_bucket_count :: u32
  xs_bump :: u8
  xs_pad :: "u8 list"

definition onchain_sub_pool_codec :: "borsh_types \<Rightarrow> onchain_sub_pool codec" where
  "onchain_sub_pool_codec B = as_struct
     (\<lambda>r. (xs_market r, xs_sub_pool_id r, xs_long_pool_equity r, xs_short_pool_equity r,
        xs_long_active_shares r, xs_short_active_shares r, xs_long_recovery_shares r,
        xs_short_recovery_shares r, xs_long_active_notional r, xs_short_active_notional r,
        xs_long_active_generation r, xs_short_active_generation r, xs_last_price r,
        xs_last_sync_slot r, xs_long_dust r, xs_short_dust r, xs_long_dormant_bucket_count r,
        xs_short_dormant_bucket_count r, xs_bump r, xs_pad r))
     (\<lambda>(v0, v1, v2, v3, v4, v5, v6, v7, v8, v9, v10, v11, v12, v13, v14, v15, v16, v17, v18, v19).
        \<lparr>xs_market = v0, xs_sub_pool_id = v1, xs_long_pool_equity = v2, xs_short_pool_equity = v3,
          xs_long_active_shares = v4, xs_short_active_shares = v5, xs_long_recovery_shares = v6,
          xs_short_recovery_shares = v7, xs_long_active_notional = v8,
          xs_short_active_notional = v9, xs_long_active_generation = v10,
          xs_short_active_generation = v11, xs_last_price = v12, xs_last_sync_slot = v13,
          xs_long_dust = v14, xs_short_dust = v15, xs_long_dormant_bucket_count = v16,
          xs_short_dormant_bucket_count = v17, xs_bump = v18, xs_pad = v19\<rparr>)
     (pair_codec (ty_bytes B 32) (pair_codec (ty_u32 B) (pair_codec (ty_u128 B)
      (pair_codec (ty_u128 B) (pair_codec (ty_u128 B) (pair_codec (ty_u128 B)
      (pair_codec (ty_u128 B) (pair_codec (ty_u128 B) (pair_codec (ty_u128 B)
      (pair_codec (ty_u128 B) (pair_codec (ty_u64 B) (pair_codec (ty_u64 B) (pair_codec (ty_u64 B)
      (pair_codec (ty_u64 B) (pair_codec (ty_u128 B) (pair_codec (ty_u128 B) (pair_codec (ty_u32 B)
      (pair_codec (ty_u32 B) (pair_codec (ty_u8 B) (ty_bytes B 7))))))))))))))))))))"

definition onchain_sub_pool_ok :: "onchain_sub_pool \<Rightarrow> bool" where
  "onchain_sub_pool_ok r \<longleftrightarrow> is_array 32 (xs_market r) \<and> xs_sub_pool_id r < 2 ^ 32 \<and>
     xs_long_pool_equity r < 2 ^ 128 \<and> xs_short_pool_equity r < 2 ^ 128 \<and>
     xs_long_active_shares r < 2 ^ 128 \<and> xs_short_active_shares r < 2 ^ 128 \<and>
     xs_long_recovery_shares r < 2 ^ 128 \<and> xs_short_recovery_shares r < 2 ^ 128 \<and>
     xs_long_active_notional r < 2 ^ 128 \<and> xs_short_active_notional r < 2 ^ 128 \<and>
     xs_long_active_generation r < 2 ^ 64 \<and> xs_short_active_generation r < 2 ^ 64 \<and>
     xs_last_price r < 2 ^ 64 \<and> xs_last_sync_slot r < 2 ^ 64 \<and>
     xs_long_dust r < 2 ^ 128 \<and> xs_short_dust r < 2 ^ 128 \<and>
     xs_long_dormant_bucket_count r < 2 ^ 32 \<and> xs_short_dormant_bucket_count r < 2 ^ 32 \<and>
     xs_bump r < 2 ^ 8 \<and> is_array 7 (xs_pad r)"

record onchain_dormant_bucket =
  xb_sub_pool :: pubkey
  xb_direction_is_long :: bool
  xb_zero_price_tick :: i64
  xb_anchor_price :: u64
  xb_total_recovery_shares :: u128
  xb_total_recovery_notional :: u128
  xb_accrued_value :: u128
  xb_position_count :: u64
  xb_last_applied_index :: u64
  xb_bump :: u8
  xb_pad :: "u8 list"

definition onchain_dormant_bucket_codec :: "borsh_types \<Rightarrow> onchain_dormant_bucket codec" where
  "onchain_dormant_bucket_codec B = as_struct
     (\<lambda>r. (xb_sub_pool r, xb_direction_is_long r, xb_zero_price_tick r, xb_anchor_price r,
        xb_total_recovery_shares r, xb_total_recovery_notional r, xb_accrued_value r,
        xb_position_count r, xb_last_applied_index r, xb_bump r, xb_pad r))
     (\<lambda>(v0, v1, v2, v3, v4, v5, v6, v7, v8, v9, v10).
        \<lparr>xb_sub_pool = v0, xb_direction_is_long = v1, xb_zero_price_tick = v2,
          xb_anchor_price = v3, xb_total_recovery_shares = v4, xb_total_recovery_notional = v5,
          xb_accrued_value = v6, xb_position_count = v7, xb_last_applied_index = v8, xb_bump = v9,
          xb_pad = v10\<rparr>)
     (pair_codec (ty_bytes B 32) (pair_codec (ty_bool B) (pair_codec (ty_i64 B)
      (pair_codec (ty_u64 B) (pair_codec (ty_u128 B) (pair_codec (ty_u128 B) (pair_codec (ty_u128 B)
      (pair_codec (ty_u64 B) (pair_codec (ty_u64 B) (pair_codec (ty_u8 B) (ty_bytes B 6)))))))))))"

definition onchain_dormant_bucket_ok :: "onchain_dormant_bucket \<Rightarrow> bool" where
  "onchain_dormant_bucket_ok r \<longleftrightarrow> is_array 32 (xb_sub_pool r) \<and> fits_signed 64 (xb_zero_price_tick r) \<and>
     xb_anchor_price r < 2 ^ 64 \<and> xb_total_recovery_shares r < 2 ^ 128 \<and>
     xb_total_recovery_notional r < 2 ^ 128 \<and> xb_accrued_value r < 2 ^ 128 \<and>
     xb_position_count r < 2 ^ 64 \<and> xb_last_applied_index r < 2 ^ 64 \<and>
     xb_bump r < 2 ^ 8 \<and> is_array 6 (xb_pad r)"

definition onchain_dist_entry_codec :: "borsh_types \<Rightarrow> onchain_dist_entry codec" where
  "onchain_dist_entry_codec B = as_struct
     (\<lambda>r. (xe_event_index r, xe_p_at_event r, xe_total_outstanding_at_event r, xe_total_alloc_input r,
        xe_allocated_sum_observed r))
     (\<lambda>(v0, v1, v2, v3, v4).
        \<lparr>xe_event_index = v0, xe_p_at_event = v1, xe_total_outstanding_at_event = v2,
          xe_total_alloc_input = v3, xe_allocated_sum_observed = v4\<rparr>)
     (pair_codec (ty_u64 B) (pair_codec (ty_u64 B) (pair_codec (ty_u128 B) (pair_codec (ty_u128 B)
      (ty_u128 B)))))"

definition onchain_dist_entry_ok :: "onchain_dist_entry \<Rightarrow> bool" where
  "onchain_dist_entry_ok r \<longleftrightarrow> xe_event_index r < 2 ^ 64 \<and> xe_p_at_event r < 2 ^ 64 \<and>
     xe_total_outstanding_at_event r < 2 ^ 128 \<and> xe_total_alloc_input r < 2 ^ 128 \<and>
     xe_allocated_sum_observed r < 2 ^ 128"

record onchain_distribution_ledger =
  xl_sub_pool :: pubkey
  xl_direction_is_long :: bool
  xl_max_entries :: u32
  xl_gc_offset :: u64
  xl_next_event_index :: u64
  xl_accrued_value_total :: u128
  xl_pending_distribution_total :: u128
  xl_entry_count :: u32
  xl_entries :: "onchain_dist_entry list"
  xl_bump :: u8
  xl_pad :: "u8 list"

definition onchain_distribution_ledger_codec :: "borsh_types \<Rightarrow> onchain_distribution_ledger codec" where
  "onchain_distribution_ledger_codec B = as_struct
     (\<lambda>r. (xl_sub_pool r, xl_direction_is_long r, xl_max_entries r, xl_gc_offset r,
        xl_next_event_index r, xl_accrued_value_total r, xl_pending_distribution_total r,
        xl_entry_count r, xl_entries r, xl_bump r, xl_pad r))
     (\<lambda>(v0, v1, v2, v3, v4, v5, v6, v7, v8, v9, v10).
        \<lparr>xl_sub_pool = v0, xl_direction_is_long = v1, xl_max_entries = v2, xl_gc_offset = v3,
          xl_next_event_index = v4, xl_accrued_value_total = v5, xl_pending_distribution_total = v6,
          xl_entry_count = v7, xl_entries = v8, xl_bump = v9, xl_pad = v10\<rparr>)
     (pair_codec (ty_bytes B 32) (pair_codec (ty_bool B) (pair_codec (ty_u32 B)
      (pair_codec (ty_u64 B) (pair_codec (ty_u64 B) (pair_codec (ty_u128 B) (pair_codec (ty_u128 B)
      (pair_codec (ty_u32 B) (pair_codec (ty_vec B (onchain_dist_entry_codec B))
      (pair_codec (ty_u8 B) (ty_bytes B 7)))))))))))"

definition onchain_distribution_ledger_ok :: "onchain_distribution_ledger \<Rightarrow> bool" where
  "onchain_distribution_ledger_ok r \<longleftrightarrow> is_array 32 (xl_sub_pool r) \<and> xl_max_entries r < 2 ^ 32 \<and>
     xl_gc_offset r < 2 ^ 64 \<and> xl_next_event_index r < 2 ^ 64 \<and>
     xl_accrued_value_total r < 2 ^ 128 \<and> xl_pending_distribution_total r < 2 ^ 128 \<and>
     xl_entry_count r < 2 ^ 32 \<and>
     length (xl_entries r) < 2 ^ 32 \<and> (\<forall>e\<in>set (xl_entries r). onchain_dist_entry_ok e) \<and>
     xl_bump r < 2 ^ 8 \<and> is_array 7 (xl_pad r)"

record onchain_market =
  xm_global_config :: pubkey
  xm_symbol :: "u8 list"
  xm_collateral_mint :: pubkey
  xm_vault :: pubkey
  xm_fee_vault :: pubkey
  xm_oracle_price_feed :: pubkey
  xm_oracle_program_id :: pubkey
  xm_leverage_bps :: u32
  xm_min_margin :: u64
  xm_max_margin_per_position :: u64
  xm_max_total_principal :: u128
  xm_max_total_notional :: u128
  xm_current_total_principal :: u128
  xm_current_total_notional :: u128
  xm_open_fee_bps :: u16
  xm_max_oracle_age_seconds :: i64
  xm_max_oracle_age_slots :: u64
  xm_max_confidence_bps :: u16
  xm_max_price_move_bps_per_sync :: u32
  xm_price_tick :: u64
  xm_tick_aggregation_factor :: u32
  xm_max_dormant_bucket_count_per_direction :: u32
  xm_dilution_safety_bps :: u32
  xm_max_idle_slots :: u64
  xm_paused :: bool
  xm_frozen_new_position :: bool
  xm_schema_version :: u16
  xm_sub_pool_count :: u32
  xm_dormant_distribute_mode :: u8
  xm_max_pending_apply_per_tx :: u32
  xm_max_distribution_ledger_size :: u32
  xm_bump :: u8
  xm_pad :: "u8 list"

definition onchain_market_codec :: "borsh_types \<Rightarrow> onchain_market codec" where
  "onchain_market_codec B = as_struct
     (\<lambda>r. (xm_global_config r, xm_symbol r, xm_collateral_mint r, xm_vault r, xm_fee_vault r,
        xm_oracle_price_feed r, xm_oracle_program_id r, xm_leverage_bps r, xm_min_margin r,
        xm_max_margin_per_position r, xm_max_total_principal r, xm_max_total_notional r,
        xm_current_total_principal r, xm_current_total_notional r, xm_open_fee_bps r,
        xm_max_oracle_age_seconds r, xm_max_oracle_age_slots r, xm_max_confidence_bps r,
        xm_max_price_move_bps_per_sync r, xm_price_tick r, xm_tick_aggregation_factor r,
        xm_max_dormant_bucket_count_per_direction r, xm_dilution_safety_bps r, xm_max_idle_slots r,
        xm_paused r, xm_frozen_new_position r, xm_schema_version r, xm_sub_pool_count r,
        xm_dormant_distribute_mode r, xm_max_pending_apply_per_tx r,
        xm_max_distribution_ledger_size r, xm_bump r, xm_pad r))
     (\<lambda>(v0, v1, v2, v3, v4, v5, v6, v7, v8, v9, v10, v11, v12, v13, v14, v15, v16, v17, v18, v19,
        v20, v21, v22, v23, v24, v25, v26, v27, v28, v29, v30, v31, v32).
        \<lparr>xm_global_config = v0, xm_symbol = v1, xm_collateral_mint = v2, xm_vault = v3,
          xm_fee_vault = v4, xm_oracle_price_feed = v5, xm_oracle_program_id = v6,
          xm_leverage_bps = v7, xm_min_margin = v8, xm_max_margin_per_position = v9,
          xm_max_total_principal = v10, xm_max_total_notional = v11,
          xm_current_total_principal = v12, xm_current_total_notional = v13, xm_open_fee_bps = v14,
          xm_max_oracle_age_seconds = v15, xm_max_oracle_age_slots = v16,
          xm_max_confidence_bps = v17, xm_max_price_move_bps_per_sync = v18, xm_price_tick = v19,
          xm_tick_aggregation_factor = v20, xm_max_dormant_bucket_count_per_direction = v21,
          xm_dilution_safety_bps = v22, xm_max_idle_slots = v23, xm_paused = v24,
          xm_frozen_new_position = v25, xm_schema_version = v26, xm_sub_pool_count = v27,
          xm_dormant_distribute_mode = v28, xm_max_pending_apply_per_tx = v29,
          xm_max_distribution_ledger_size = v30, xm_bump = v31, xm_pad = v32\<rparr>)
     (pair_codec (ty_bytes B 32) (pair_codec (ty_bytes B 16) (pair_codec (ty_bytes B 32)
      (pair_codec (ty_bytes B 32) (pair_codec (ty_bytes B 32) (pair_codec (ty_bytes B 32)
      (pair_codec (ty_bytes B 32) (pair_codec (ty_u32 B) (pair_codec (ty_u64 B)
      (pair_codec (ty_u64 B) (pair_codec (ty_u128 B) (pair_codec (ty_u128 B) (pair_codec (ty_u128 B)
      (pair_codec (ty_u128 B) (pair_codec (ty_u16 B) (pair_codec (ty_i64 B) (pair_codec (ty_u64 B)
      (pair_codec (ty_u16 B) (pair_codec (ty_u32 B) (pair_codec (ty_u64 B) (pair_codec (ty_u32 B)
      (pair_codec (ty_u32 B) (pair_codec (ty_u32 B) (pair_codec (ty_u64 B) (pair_codec (ty_bool B)
      (pair_codec (ty_bool B) (pair_codec (ty_u16 B) (pair_codec (ty_u32 B) (pair_codec (ty_u8 B)
      (pair_codec (ty_u32 B) (pair_codec (ty_u32 B) (pair_codec (ty_u8 B)
      (ty_bytes B 2)))))))))))))))))))))))))))))))))"

definition onchain_market_ok :: "onchain_market \<Rightarrow> bool" where
  "onchain_market_ok r \<longleftrightarrow> is_array 32 (xm_global_config r) \<and> is_array 16 (xm_symbol r) \<and>
     is_array 32 (xm_collateral_mint r) \<and> is_array 32 (xm_vault r) \<and>
     is_array 32 (xm_fee_vault r) \<and> is_array 32 (xm_oracle_price_feed r) \<and>
     is_array 32 (xm_oracle_program_id r) \<and> xm_leverage_bps r < 2 ^ 32 \<and>
     xm_min_margin r < 2 ^ 64 \<and> xm_max_margin_per_position r < 2 ^ 64 \<and>
     xm_max_total_principal r < 2 ^ 128 \<and> xm_max_total_notional r < 2 ^ 128 \<and>
     xm_current_total_principal r < 2 ^ 128 \<and> xm_current_total_notional r < 2 ^ 128 \<and>
     xm_open_fee_bps r < 2 ^ 16 \<and> fits_signed 64 (xm_max_oracle_age_seconds r) \<and>
     xm_max_oracle_age_slots r < 2 ^ 64 \<and> xm_max_confidence_bps r < 2 ^ 16 \<and>
     xm_max_price_move_bps_per_sync r < 2 ^ 32 \<and> xm_price_tick r < 2 ^ 64 \<and>
     xm_tick_aggregation_factor r < 2 ^ 32 \<and>
     xm_max_dormant_bucket_count_per_direction r < 2 ^ 32 \<and>
     xm_dilution_safety_bps r < 2 ^ 32 \<and> xm_max_idle_slots r < 2 ^ 64 \<and>
     xm_schema_version r < 2 ^ 16 \<and> xm_sub_pool_count r < 2 ^ 32 \<and>
     xm_dormant_distribute_mode r < 2 ^ 8 \<and> xm_max_pending_apply_per_tx r < 2 ^ 32 \<and>
     xm_max_distribution_ledger_size r < 2 ^ 32 \<and> xm_bump r < 2 ^ 8 \<and>
     is_array 2 (xm_pad r)"

record onchain_position =
  xp_owner :: pubkey
  xp_market :: pubkey
  xp_sub_pool :: pubkey
  xp_position_id :: u64
  xp_direction_is_long :: bool
  xp_status :: u8
  xp_principal :: u64
  xp_leverage_bps :: u32
  xp_notional :: u128
  xp_active_shares :: u128
  xp_recovery_shares :: u128
  xp_recovery_bucket_tick :: i64
  xp_has_recovery_bucket :: bool
  xp_zero_price :: u64
  xp_entry_price :: u64
  xp_last_sync_slot :: u64
  xp_active_generation :: u64
  xp_opened_at :: i64
  xp_updated_at :: i64
  xp_closed_at :: i64
  xp_schema_version :: u16
  xp_bump :: u8
  xp_pad :: "u8 list"

definition onchain_position_codec :: "borsh_types \<Rightarrow> onchain_position codec" where
  "onchain_position_codec B = as_struct
     (\<lambda>r. (xp_owner r, xp_market r, xp_sub_pool r, xp_position_id r, xp_direction_is_long r,
        xp_status r, xp_principal r, xp_leverage_bps r, xp_notional r, xp_active_shares r,
        xp_recovery_shares r, xp_recovery_bucket_tick r, xp_has_recovery_bucket r, xp_zero_price r,
        xp_entry_price r, xp_last_sync_slot r, xp_active_generation r, xp_opened_at r,
        xp_updated_at r, xp_closed_at r, xp_schema_version r, xp_bump r, xp_pad r))
     (\<lambda>(v0, v1, v2, v3, v4, v5, v6, v7, v8, v9, v10, v11, v12, v13, v14, v15, v16, v17, v18, v19,
        v20, v21, v22).
        \<lparr>xp_owner = v0, xp_market = v1, xp_sub_pool = v2, xp_position_id = v3,
          xp_direction_is_long = v4, xp_status = v5, xp_principal = v6, xp_leverage_bps = v7,
          xp_notional = v8, xp_active_shares = v9, xp_recovery_shares = v10,
          xp_recovery_bucket_tick = v11, xp_has_recovery_bucket = v12, xp_zero_price = v13,
          xp_entry_price = v14, xp_last_sync_slot = v15, xp_active_generation = v16,
          xp_opened_at = v17, xp_updated_at = v18, xp_closed_at = v19, xp_schema_version = v20,
          xp_bump = v21, xp_pad = v22\<rparr>)
     (pair_codec (ty_bytes B 32) (pair_codec (ty_bytes B 32) (pair_codec (ty_bytes B 32)
      (pair_codec (ty_u64 B) (pair_codec (ty_bool B) (pair_codec (ty_u8 B) (pair_codec (ty_u64 B)
      (pair_codec (ty_u32 B) (pair_codec (ty_u128 B) (pair_codec (ty_u128 B) (pair_codec (ty_u128 B)
      (pair_codec (ty_i64 B) (pair_codec (ty_bool B) (pair_codec (ty_u64 B) (pair_codec (ty_u64 B)
      (pair_codec (ty_u64 B) (pair_codec (ty_u64 B) (pair_codec (ty_i64 B) (pair_codec (ty_i64 B)
      (pair_codec (ty_i64 B) (pair_codec (ty_u16 B) (pair_codec (ty_u8 B)
      (ty_bytes B 5)))))))))))))))))))))))"

definition onchain_position_ok :: "onchain_position \<Rightarrow> bool" where
  "onchain_position_ok r \<longleftrightarrow> is_array 32 (xp_owner r) \<and> is_array 32 (xp_market r) \<and>
     is_array 32 (xp_sub_pool r) \<and> xp_position_id r < 2 ^ 64 \<and> xp_status r < 2 ^ 8 \<and>
     xp_principal r < 2 ^ 64 \<and> xp_leverage_bps r < 2 ^ 32 \<and> xp_notional r < 2 ^ 128 \<and>
     xp_active_shares r < 2 ^ 128 \<and> xp_recovery_shares r < 2 ^ 128 \<and>
     fits_signed 64 (xp_recovery_bucket_tick r) \<and> xp_zero_price r < 2 ^ 64 \<and>
     xp_entry_price r < 2 ^ 64 \<and> xp_last_sync_slot r < 2 ^ 64 \<and>
     xp_active_generation r < 2 ^ 64 \<and> fits_signed 64 (xp_opened_at r) \<and>
     fits_signed 64 (xp_updated_at r) \<and> fits_signed 64 (xp_closed_at r) \<and>
     xp_schema_version r < 2 ^ 16 \<and> xp_bump r < 2 ^ 8 \<and> is_array 5 (xp_pad r)"

definition leader_lock_codec :: "borsh_types \<Rightarrow> leader_lock codec" where
  "leader_lock_codec B = as_struct
     (\<lambda>l. (has_leader l, current_leader l, last_heartbeat_slot l, takeover_threshold_slots l))
     (\<lambda>(v0, v1, v2, v3). \<lparr>has_leader = v0, current_leader = v1, last_heartbeat_slot = v2,
        takeover_threshold_slots = v3\<rparr>)
     (pair_codec (ty_bool B) (pair_codec (ty_bytes B 32) (pair_codec (ty_u64 B) (ty_u64 B))))"

definition leader_lock_ok :: "leader_lock \<Rightarrow> bool" where
  "leader_lock_ok l \<longleftrightarrow> is_array 32 (current_leader l) \<and> last_heartbeat_slot l < 2 ^ 64
     \<and> takeover_threshold_slots l < 2 ^ 64"

section \<open>Decoding and encoding accounts\<close>

datatype account_decode_error =
    TooShort nat nat
  | DiscriminatorMismatch "u8 list" "u8 list"
  | BorshDecode string

type_synonym 'a decoded = "(account_decode_error, 'a) result"

definition ANCHOR_DISCRIMINATOR_LEN :: nat where
  "ANCHOR_DISCRIMINATOR_LEN = 8"

definition decode_anchor_account :: "'a codec \<Rightarrow> u8 list \<Rightarrow> 'a decoded" where
  "decode_anchor_account c bs =
     (if length bs < ANCHOR_DISCRIMINATOR_LEN then Err (TooShort (length bs) ANCHOR_DISCRIMINATOR_LEN)
      else map_err BorshDecode (try_from_slice c (drop ANCHOR_DISCRIMINATOR_LEN bs)))"

definition decode_anchor_account_with_discriminator :: "'a codec \<Rightarrow> u8 list \<Rightarrow> u8 list \<Rightarrow> 'a decoded" where
  "decode_anchor_account_with_discriminator c bs expected =
     (if length bs < ANCHOR_DISCRIMINATOR_LEN then Err (TooShort (length bs) ANCHOR_DISCRIMINATOR_LEN)
      else
        let disc = take ANCHOR_DISCRIMINATOR_LEN bs; body = drop ANCHOR_DISCRIMINATOR_LEN bs in
        if disc \<noteq> expected then Err (DiscriminatorMismatch disc expected)
        else map_err BorshDecode (try_from_slice c body))"

definition encode_anchor_account :: "'a codec \<Rightarrow> 'a \<Rightarrow> u8 list \<Rightarrow> u8 list decoded" where
  "encode_anchor_account c v discriminator =
     map_err BorshDecode (and_then (cd_put c v) (\<lambda>bs. Ok (discriminator @ bs)))"

section \<open>Lawful codecs\<close>

definition lawful :: "'a codec \<Rightarrow> ('a \<Rightarrow> bool) \<Rightarrow> ('a \<Rightarrow> nat) \<Rightarrow> bool" where
  "lawful c ok width \<longleftrightarrow>
     (\<forall>x. ok x \<longrightarrow> (\<exists>bs. cd_put c x = Ok bs \<and> length bs = width x \<and> is_bytes bs
        \<and> (\<forall>rest. cd_get c (bs @ rest) = Ok (x, rest))))
     \<and> (\<forall>bs x rest. is_bytes bs \<longrightarrow> cd_get c bs = Ok (x, rest)
        \<longrightarrow> ok x \<and> (\<exists>b0. cd_put c x = Ok b0 \<and> bs = b0 @ rest))"

definition borsh_lawful :: "borsh_types \<Rightarrow> bool" where
  "borsh_lawful B \<longleftrightarrow> lawful (ty_u8 B) (\<lambda>v. v < 2 ^ 8) (\<lambda>_. 1) \<and> lawful (ty_u16 B) (\<lambda>v. v < 2 ^ 16) (\<lambda>_. 2)
     \<and> lawful (ty_u32 B) (\<lambda>v. v < 2 ^ 32) (\<lambda>_. 4) \<and> lawful (ty_u64 B) (\<lambda>v. v < 2 ^ 64) (\<lambda>_. 8)
     \<and> lawful (ty_u128 B) (\<lambda>v. v < 2 ^ 128) (\<lambda>_. 16) \<and> lawful (ty_i64 B) (fits_signed 64) (\<lambda>_. 8)
     \<and> lawful (ty_bool B) (\<lambda>_. True) (\<lambda>_. 1) \<and> (\<forall>n. lawful (ty_bytes B n) (is_array n) (\<lambda>_. n))
     \<and> (\<forall>c ok n. lawful c ok (\<lambda>_. n) \<longrightarrow> lawful (ty_vec B c)
          (\<lambda>xs. length xs < 2 ^ 32 \<and> (\<forall>x\<in>set xs. ok x)) (\<lambda>xs. 4 + n * length xs))"

lemma lawfulD:
  assumes "lawful c ok width"
  shows "ok x \<Longrightarrow> \<exists>bs. cd_put c x = Inr bs \<and> length bs = width x \<and> is_bytes bs
      \<and> (\<forall>rest. cd_get c (bs @ rest) = Inr (x, rest))"
    and "is_bytes bs \<Longrightarrow> cd_get c bs = Inr (x, rest) \<Longrightarrow> ok x"
    and "is_bytes bs \<Longrightarrow> cd_get c bs = Inr (x, rest) \<Longrightarrow> \<exists>b0. cd_put c x = Inr b0 \<and> bs = b0 @ rest"
  using assms unfolding lawful_def by blast+

lemma is_bytes_append [simp]: "is_bytes (xs @ ys) \<longleftrightarrow> is_bytes xs \<and> is_bytes ys"
  by (auto simp: is_bytes_def)

lemma lawful_pair:
  assumes "lawful c P v" and "lawful d Q w"
  shows "lawful (pair_codec c d) (\<lambda>t. P (fst t) \<and> Q (snd t)) (\<lambda>t. v (fst t) + w (snd t))"
  unfolding lawful_def
proof (intro conjI allI impI)
  fix t assume t: "P (fst t) \<and> Q (snd t)"
  obtain x y where xy: "t = (x, y)" by (cases t)
  from lawfulD(1) [OF assms(1), of x] lawfulD(1) [OF assms(2), of y] t xy obtain bs cs where
      "cd_put c x = Inr bs" "length bs = v x" "is_bytes bs" "\<forall>rest. cd_get c (bs @ rest) = Inr (x, rest)"
      "cd_put d y = Inr cs" "length cs = w y" "is_bytes cs" "\<forall>rest. cd_get d (cs @ rest) = Inr (y, rest)"
    by auto
  then show "\<exists>bs. cd_put (pair_codec c d) t = Inr bs \<and> length bs = v (fst t) + w (snd t) \<and> is_bytes bs
      \<and> (\<forall>rest. cd_get (pair_codec c d) (bs @ rest) = Inr (t, rest))"
    by (intro exI [of _ "bs @ cs"]) (simp add: pair_codec_def xy)
next
  fix bs t rest assume b: "is_bytes bs" and "cd_get (pair_codec c d) bs = Inr (t, rest)"
  then obtain x y mid where g: "cd_get c bs = Inr (x, mid)" "cd_get d mid = Inr (y, rest)" "t = (x, y)"
    by (auto simp: pair_codec_def)
  from lawfulD(3) [OF assms(1) b g(1)] obtain b0 where b0: "cd_put c x = Inr b0" "bs = b0 @ mid" by blast
  with b have mid: "is_bytes mid" by simp
  from lawfulD(3) [OF assms(2) mid g(2)] obtain b1 where b1: "cd_put d y = Inr b1" "mid = b1 @ rest" by blast
  show "P (fst t)" "Q (snd t)" using lawfulD(2) [OF assms(1) b g(1)] lawfulD(2) [OF assms(2) mid g(2)] g(3) by simp_all
  show "\<exists>b0. cd_put (pair_codec c d) t = Inr b0 \<and> bs = b0 @ rest"
    using b0 b1 by (simp add: pair_codec_def g(3))
qed

lemma lawful_struct:
  assumes "lawful c P w" and "\<And>r. build (parts r) = r" and "\<And>t. parts (build t) = t"
    and "\<And>r. ok r = P (parts r)" and "\<And>r. width r = w (parts r)"
  shows "lawful (as_struct parts build c) ok width"
  unfolding lawful_def
proof (intro conjI allI impI)
  fix r assume "ok r"
  with lawfulD(1) [OF assms(1), of "parts r"] assms(4) show "\<exists>bs. cd_put (as_struct parts build c) r = Inr bs
      \<and> length bs = width r \<and> is_bytes bs
      \<and> (\<forall>rest. cd_get (as_struct parts build c) (bs @ rest) = Inr (r, rest))"
    by (auto simp: as_struct_def assms(2,5))
next
  fix bs r rest assume b: "is_bytes bs" and "cd_get (as_struct parts build c) bs = Inr (r, rest)"
  then obtain t where t: "cd_get c bs = Inr (t, rest)" "r = build t" by (auto simp: as_struct_def)
  show "ok r" using lawfulD(2) [OF assms(1) b t(1)] by (simp add: assms(3,4) t(2))
  show "\<exists>b0. cd_put (as_struct parts build c) r = Inr b0 \<and> bs = b0 @ rest"
    using lawfulD(3) [OF assms(1) b t(1)] by (simp add: as_struct_def t(2) assms(3))
qed

lemma borsh_lawfulD:
  assumes "borsh_lawful B"
  shows "lawful (ty_u8 B) (\<lambda>v. v < 2 ^ 8) (\<lambda>_. 1)" and "lawful (ty_u16 B) (\<lambda>v. v < 2 ^ 16) (\<lambda>_. 2)"
    and "lawful (ty_u32 B) (\<lambda>v. v < 2 ^ 32) (\<lambda>_. 4)" and "lawful (ty_u64 B) (\<lambda>v. v < 2 ^ 64) (\<lambda>_. 8)"
    and "lawful (ty_u128 B) (\<lambda>v. v < 2 ^ 128) (\<lambda>_. 16)" and "lawful (ty_i64 B) (fits_signed 64) (\<lambda>_. 8)"
    and "lawful (ty_bool B) (\<lambda>_. True) (\<lambda>_. 1)" and "lawful (ty_bytes B n) (is_array n) (\<lambda>_. n)"
    and "lawful c ok (\<lambda>_. m) \<Longrightarrow> lawful (ty_vec B c)
          (\<lambda>xs. length xs < 2 ^ 32 \<and> (\<forall>x\<in>set xs. ok x)) (\<lambda>xs. 4 + m * length xs)"
  using assms unfolding borsh_lawful_def by blast+

end
