(* ===== verification/Rpc_Snapshot.thy ===== *)
theory Rpc_Snapshot
  imports Account_Codec Keeper Market "HOL-Library.List_Lexorder"
begin

text \<open>
  Reading the chain, \<open>crates/keeper-rpc/src/{fetcher,pda,snapshot}.rs\<close>: the fetcher interface with its
  in-memory implementation, the seeds of the derived addresses, and the snapshot of all accounts of
  a market with the view the scheduler plans on. A \<open>HashMap\<close> is a list sorted by key here: every
  reader of these maps either looks a key up or sorts what it collected.
\<close>

section \<open>Fetching accounts\<close>

datatype rpc_error = Transport string | RpcCode int string | RpcDecode string

text \<open>The trait \<open>AccountFetcher\<close>.\<close>

record account_fetcher =
  fetch_account :: "pubkey \<Rightarrow> (rpc_error, u8 list option) result"
  fetch_program_accounts_filter :: "pubkey \<Rightarrow> nat \<Rightarrow> u8 list \<Rightarrow> (rpc_error, (pubkey \<times> u8 list) list) result"

record mock_account =
  mo_owner :: pubkey
  mo_data :: "u8 list"

type_synonym mock_accounts = "(pubkey \<times> mock_account) list"

definition mock_insert :: "pubkey \<Rightarrow> pubkey \<Rightarrow> u8 list \<Rightarrow> mock_accounts \<Rightarrow> mock_accounts" where
  "mock_insert key program bs accounts = bt_put key \<lparr>mo_owner = program, mo_data = bs\<rparr> accounts"

definition mock_matches :: "pubkey \<Rightarrow> nat \<Rightarrow> u8 list \<Rightarrow> mock_account \<Rightarrow> bool" where
  "mock_matches program_id match_offset match_bytes acc \<longleftrightarrow> mo_owner acc = program_id
     \<and> match_offset + length match_bytes \<le> length (mo_data acc)
     \<and> take (length match_bytes) (drop match_offset (mo_data acc)) = match_bytes"

definition mock_fetcher :: "mock_accounts \<Rightarrow> account_fetcher" where
  "mock_fetcher accounts =
     \<lparr>fetch_account = (\<lambda>key. Ok (map_option mo_data (bt_get accounts key))),
      fetch_program_accounts_filter = (\<lambda>program_id match_offset match_bytes.
        Ok (sort_key fst (map (\<lambda>(key, acc). (key, mo_data acc))
          (filter (\<lambda>(key, acc). mock_matches program_id match_offset match_bytes acc) accounts))))\<rparr>"

section \<open>Seeds\<close>

definition ascii :: "string \<Rightarrow> u8 list" where
  "ascii s = map of_char s"

type_synonym pda_seeds = "u8 list list"

definition global_config_seeds :: pda_seeds where
  "global_config_seeds = [ascii ''global_config'']"

definition market_seeds :: "u8 list \<Rightarrow> pda_seeds" where
  "market_seeds symbol = [ascii ''market'', symbol]"

definition sub_pool_seeds :: "pubkey \<Rightarrow> u32 \<Rightarrow> pda_seeds" where
  "sub_pool_seeds market i = [ascii ''sub_pool'', market, u32_le i]"

definition distribution_ledger_seeds :: "pubkey \<Rightarrow> bool \<Rightarrow> pda_seeds" where
  "distribution_ledger_seeds sub_pool direction_is_long =
     [ascii ''dist_ledger'', sub_pool, bool_le direction_is_long]"

definition dormant_bucket_seeds :: "pubkey \<Rightarrow> bool \<Rightarrow> i64 \<Rightarrow> pda_seeds" where
  "dormant_bucket_seeds sub_pool direction_is_long tick =
     [ascii ''dormant_bucket'', sub_pool, bool_le direction_is_long, i64_le tick]"

definition market_vault_authority_seeds :: "pubkey \<Rightarrow> pda_seeds" where
  "market_vault_authority_seeds market = [ascii ''market_vault_authority'', market]"

definition keeper_leader_lock_seeds :: "pubkey \<Rightarrow> pda_seeds" where
  "keeper_leader_lock_seeds market = [ascii ''keeper_leader_lock'', market]"

section \<open>The snapshot\<close>

record sub_pool_entry =
  se_sub_pool_id :: u32
  se_pubkey :: pubkey

record market_context =
  mx_program_id :: pubkey
  mx_market :: pubkey
  mx_market_symbol :: "u8 list"
  mx_sub_pools :: "sub_pool_entry list"

record snapshot_config =
  sc_enforce_schema_version :: bool
  sc_bail_when_paused :: bool

definition default_snapshot_config :: snapshot_config where
  "default_snapshot_config = \<lparr>sc_enforce_schema_version = True, sc_bail_when_paused = True\<rparr>"

datatype snapshot_error =
    SnapRpc rpc_error
  | SnapDecode string pubkey account_decode_error
  | SnapMarketNotFound pubkey
  | SnapSubPoolNotFound u32 pubkey
  | SnapSchemaVersionMismatch u16 u16
  | SnapMarketPaused

type_synonym 'a snapping = "(snapshot_error, 'a) result"

record chain_snapshot =
  cs_market :: "onchain_market option"
  cs_sub_pools :: "(u32 \<times> onchain_sub_pool) list"
  cs_buckets :: "(u32 \<times> onchain_dormant_bucket list) list"
  cs_ledgers :: "((u32 \<times> direction) \<times> onchain_distribution_ledger) list"
  cs_bucket_pubkeys :: "((u32 \<times> direction \<times> i64) \<times> pubkey) list"
  cs_ledger_pubkeys :: "((u32 \<times> direction) \<times> pubkey) list"

definition new_snapshot :: chain_snapshot where
  "new_snapshot = \<lparr>cs_market = None, cs_sub_pools = bt_empty, cs_buckets = bt_empty, cs_ledgers = bt_empty,
     cs_bucket_pubkeys = bt_empty, cs_ledger_pubkeys = bt_empty\<rparr>"

text \<open>\<open>if let Ok(x) = decode(..)\<close>: an error is skipped, a panic is not.\<close>

definition if_decodes :: "'a decoded \<Rightarrow> 'a option snapping" where
  "if_decodes r = (case r of Inr x \<Rightarrow> Ok (Some x) | Inl (Failed e) \<Rightarrow> Ok None | Inl (Panicked s) \<Rightarrow> Panic s)"

definition insert_ledger ::
  "u32 \<Rightarrow> direction \<Rightarrow> pubkey \<Rightarrow> onchain_distribution_ledger \<Rightarrow> chain_snapshot \<Rightarrow> chain_snapshot" where
  "insert_ledger i d key led s =
     s\<lparr>cs_ledger_pubkeys := bt_put (i, d) key (cs_ledger_pubkeys s),
       cs_ledgers := bt_put (i, d) led (cs_ledgers s)\<rparr>"

definition insert_bucket ::
  "u32 \<Rightarrow> direction \<Rightarrow> pubkey \<Rightarrow> onchain_dormant_bucket \<Rightarrow> chain_snapshot \<Rightarrow> chain_snapshot" where
  "insert_bucket i d key bk s =
     s\<lparr>cs_bucket_pubkeys := bt_put (i, d, xb_zero_price_tick bk) key (cs_bucket_pubkeys s),
       cs_buckets := bt_put i (case bt_get (cs_buckets s) i of None \<Rightarrow> [bk] | Some v \<Rightarrow> v @ [bk]) (cs_buckets s)\<rparr>"

text \<open>One account that matched the filter: a ledger if it decodes as one, otherwise a bucket.\<close>

definition take_hit ::
  "borsh_types \<Rightarrow> sub_pool_entry \<Rightarrow> bool \<Rightarrow> pubkey \<times> u8 list \<Rightarrow> chain_snapshot \<Rightarrow> chain_snapshot snapping" where
  "take_hit B entry direction_is_long hit s = (case hit of (key, raw) \<Rightarrow>
     let d = (if direction_is_long then Long else Short) in
     and_then (if_decodes (decode_anchor_account (onchain_distribution_ledger_codec B) raw)) (\<lambda>led.
     if case led of None \<Rightarrow> False
        | Some l \<Rightarrow> xl_sub_pool l = se_pubkey entry \<and> xl_direction_is_long l = direction_is_long
     then Ok (insert_ledger (se_sub_pool_id entry) d key (the led) s)
     else
       and_then (if_decodes (decode_anchor_account (onchain_dormant_bucket_codec B) raw)) (\<lambda>bk.
       Ok (case bk of None \<Rightarrow> s
           | Some b \<Rightarrow>
               if xb_sub_pool b = se_pubkey entry \<and> xb_direction_is_long b = direction_is_long then
                 insert_bucket (se_sub_pool_id entry) d key b s
               else s))))"

definition refresh_direction ::
  "borsh_types \<Rightarrow> account_fetcher \<Rightarrow> market_context \<Rightarrow> sub_pool_entry \<Rightarrow> bool \<Rightarrow> chain_snapshot
   \<Rightarrow> chain_snapshot snapping" where
  "refresh_direction B fetcher ctx entry direction_is_long s =
     and_then (map_err SnapRpc (fetch_program_accounts_filter fetcher (mx_program_id ctx)
                 ANCHOR_DISCRIMINATOR_LEN (se_pubkey entry @ bool_le direction_is_long))) (\<lambda>hits.
     fold_res (take_hit B entry direction_is_long) hits s)"

definition sort_buckets :: "u32 \<Rightarrow> chain_snapshot \<Rightarrow> chain_snapshot" where
  "sort_buckets i s = (case bt_get (cs_buckets s) i of None \<Rightarrow> s
     | Some v \<Rightarrow> s\<lparr>cs_buckets := bt_put i
         (sort_key (\<lambda>b. (xb_direction_is_long b, xb_zero_price_tick b)) v) (cs_buckets s)\<rparr>)"

definition refresh_sub_pool ::
  "borsh_types \<Rightarrow> account_fetcher \<Rightarrow> market_context \<Rightarrow> sub_pool_entry \<Rightarrow> chain_snapshot
   \<Rightarrow> chain_snapshot snapping" where
  "refresh_sub_pool B fetcher ctx entry s =
     and_then (map_err SnapRpc (fetch_account fetcher (se_pubkey entry))) (\<lambda>found.
     and_then (ok_or found (SnapSubPoolNotFound (se_sub_pool_id entry) (se_pubkey entry))) (\<lambda>raw_sp.
     and_then (map_err (SnapDecode ''sub_pool'' (se_pubkey entry))
                 (decode_anchor_account (onchain_sub_pool_codec B) raw_sp)) (\<lambda>sp.
     and_then (fold_res (refresh_direction B fetcher ctx entry) [True, False]
                 (s\<lparr>cs_sub_pools := bt_put (se_sub_pool_id entry) sp (cs_sub_pools s)\<rparr>)) (\<lambda>s'.
     Ok (sort_buckets (se_sub_pool_id entry) s')))))"

text \<open>On an error every caller drops the snapshot, so it is not returned.\<close>

definition snapshot_refresh ::
  "borsh_types \<Rightarrow> account_fetcher \<Rightarrow> market_context \<Rightarrow> snapshot_config \<Rightarrow> chain_snapshot snapping" where
  "snapshot_refresh B fetcher ctx cfg =
     and_then (map_err SnapRpc (fetch_account fetcher (mx_market ctx))) (\<lambda>found.
     and_then (ok_or found (SnapMarketNotFound (mx_market ctx))) (\<lambda>raw_market.
     and_then (map_err (SnapDecode ''market'' (mx_market ctx))
                 (decode_anchor_account (onchain_market_codec B) raw_market)) (\<lambda>m.
     if sc_enforce_schema_version cfg \<and> xm_schema_version m \<noteq> SCHEMA_VERSION_CURRENT then
       Err (SnapSchemaVersionMismatch (xm_schema_version m) SCHEMA_VERSION_CURRENT)
     else if sc_bail_when_paused cfg \<and> xm_paused m then Err SnapMarketPaused
     else
       fold_res (refresh_sub_pool B fetcher ctx) (mx_sub_pools ctx)
         (new_snapshot\<lparr>cs_market := Some m\<rparr>))))"

definition bucket_pubkey :: "chain_snapshot \<Rightarrow> u32 \<Rightarrow> direction \<Rightarrow> i64 \<Rightarrow> pubkey option" where
  "bucket_pubkey s i d tick = bt_get (cs_bucket_pubkeys s) (i, d, tick)"

definition ledger_pubkey :: "chain_snapshot \<Rightarrow> u32 \<Rightarrow> direction \<Rightarrow> pubkey option" where
  "ledger_pubkey s i d = bt_get (cs_ledger_pubkeys s) (i, d)"

section \<open>The snapshot as a view\<close>

definition snapshot_bucket :: "u32 \<Rightarrow> onchain_dormant_bucket \<Rightarrow> keeper_bucket" where
  "snapshot_bucket i b =
     \<lparr>kb_sub_pool_id = i, kb_direction = (if xb_direction_is_long b then Long else Short),
      kb_tick = xb_zero_price_tick b, kb_anchor_price = xb_anchor_price b,
      kb_total_recovery_shares = xb_total_recovery_shares b,
      kb_total_recovery_notional = xb_total_recovery_notional b,
      kb_accrued_value = xb_accrued_value b, kb_position_count = xb_position_count b,
      kb_last_applied_index = xb_last_applied_index b\<rparr>"

definition snapshot_buckets :: "chain_snapshot \<Rightarrow> u32 \<Rightarrow> keeper_bucket list" where
  "snapshot_buckets s i = (case bt_get (cs_buckets s) i of None \<Rightarrow> [] | Some v \<Rightarrow> map (snapshot_bucket i) v)"

definition snapshot_ledger :: "chain_snapshot \<Rightarrow> u32 \<Rightarrow> direction \<Rightarrow> ledger_snapshot option" where
  "snapshot_ledger s i d =
     (case bt_get (cs_ledgers s) (i, d) of None \<Rightarrow> None
      | Some lg \<Rightarrow> (case bt_get (cs_sub_pools s) i of None \<Rightarrow> None
          | Some sp \<Rightarrow> Some \<lparr>ls_sub_pool_id = i, ls_direction = d, ls_next_event_index = xl_next_event_index lg,
              ls_bucket_count_hint = (case d of Long \<Rightarrow> xs_long_dormant_bucket_count sp
                                      | Short \<Rightarrow> xs_short_dormant_bucket_count sp)\<rparr>))"

definition snapshot_health :: "chain_snapshot \<Rightarrow> u32 \<Rightarrow> sub_pool_health option" where
  "snapshot_health s i = map_option (\<lambda>sp. let anchor = xs_last_price sp in
     \<lparr>sh_sub_pool_id = i, sh_last_price = xs_last_price sp, sh_long_anchor_price = anchor,
      sh_short_anchor_price = anchor, sh_long_pool_equity = xs_long_pool_equity sp,
      sh_short_pool_equity = xs_short_pool_equity sp,
      sh_long_active_notional = xs_long_active_notional sp,
      sh_short_active_notional = xs_short_active_notional sp,
      sh_long_active_generation = xs_long_active_generation sp,
      sh_short_active_generation = xs_short_active_generation sp\<rparr>) (bt_get (cs_sub_pools s) i)"

definition snapshot_view :: "chain_snapshot \<Rightarrow> chain_view" where
  "snapshot_view s = \<lparr>cv_sub_pool_ids = sort (map fst (cs_sub_pools s)), cv_buckets = snapshot_buckets s,
     cv_ledger = snapshot_ledger s, cv_sub_pool_health = snapshot_health s\<rparr>"

end
