(* ===== verification/Rpc_Executor.thy ===== *)
theory Rpc_Executor
  imports Rpc_Snapshot
begin

text \<open>
  The transaction side of the keeper, \<open>crates/keeper-rpc/src/{tx,leader_tx}.rs\<close>: the executor that turns a
  planned action into the data and the account list of an instruction, with its error messages; the
  instructions of the leader lock; and reading the lock from the chain. A transaction builder and a
  leader builder are functions on a state of their own (the traits \<open>TxBuilder\<close> and
  \<open>KeeperLeaderTxBuilder\<close>), with the in-memory ones as instances.
\<close>

section \<open>Decimal numbers\<close>

definition digit :: "nat \<Rightarrow> char" where
  "digit n = char_of (48 + n)"

fun decimal_nat :: "nat \<Rightarrow> string" where
  "decimal_nat n = (if n < 10 then [digit n] else decimal_nat (n div 10) @ [digit (n mod 10)])"

declare decimal_nat.simps [simp del]

definition decimal_int :: "int \<Rightarrow> string" where
  "decimal_int z = (if z < 0 then ''-'' @ decimal_nat (nat (- z)) else decimal_nat (nat z))"

section \<open>Errors\<close>

datatype tx_build_error =
    TxMissingSubPool u32
  | TxMissingBucket u32 direction i64
  | TxMissingLedger u32 direction
  | TxBuilderError string

definition direction_debug :: "direction \<Rightarrow> string" where
  "direction_debug d = (case d of Long \<Rightarrow> ''Long'' | Short \<Rightarrow> ''Short'')"

definition tx_build_error_to_string :: "tx_build_error \<Rightarrow> string" where
  "tx_build_error_to_string e = (case e of
       TxMissingSubPool i \<Rightarrow> ''snapshot is missing sub_pool '' @ decimal_nat i
     | TxMissingBucket i d t \<Rightarrow> ''snapshot is missing bucket ('' @ decimal_nat i @ '', '' @ direction_debug d
         @ '', tick='' @ decimal_int t @ '')''
     | TxMissingLedger i d \<Rightarrow> ''snapshot is missing ledger ('' @ decimal_nat i @ '', '' @ direction_debug d @ '')''
     | TxBuilderError s \<Rightarrow> ''tx builder rejected: '' @ s)"

definition encode_error_to_string :: "encode_error \<Rightarrow> string" where
  "encode_error_to_string e = (case e of Borsh s \<Rightarrow> ''borsh encode failed: '' @ s)"

section \<open>Instructions\<close>

record account_meta =
  am_pubkey :: pubkey
  am_is_signer :: bool
  am_is_writable :: bool

definition meta_writable :: "pubkey \<Rightarrow> account_meta" where
  "meta_writable k = \<lparr>am_pubkey = k, am_is_signer = False, am_is_writable = True\<rparr>"

definition meta_readonly :: "pubkey \<Rightarrow> account_meta" where
  "meta_readonly k = \<lparr>am_pubkey = k, am_is_signer = False, am_is_writable = False\<rparr>"

definition meta_signer_writable :: "pubkey \<Rightarrow> account_meta" where
  "meta_signer_writable k = \<lparr>am_pubkey = k, am_is_signer = True, am_is_writable = True\<rparr>"

definition meta_signer_readonly :: "pubkey \<Rightarrow> account_meta" where
  "meta_signer_readonly k = \<lparr>am_pubkey = k, am_is_signer = True, am_is_writable = False\<rparr>"

record dispatched_action =
  da_action :: keeper_action
  da_program_id :: pubkey
  da_data :: "u8 list"
  da_accounts :: "account_meta list"

type_synonym 'b tx_builder = "dispatched_action \<Rightarrow> 'b \<Rightarrow> 'b \<times> dispatch_result"

record mock_tx_builder =
  mt_submitted :: "dispatched_action list"
  mt_override_result :: "dispatch_result option"

definition new_mock_tx_builder :: mock_tx_builder where
  "new_mock_tx_builder = \<lparr>mt_submitted = [], mt_override_result = None\<rparr>"

definition mock_tx_drain :: "mock_tx_builder \<Rightarrow> mock_tx_builder \<times> dispatched_action list" where
  "mock_tx_drain b = (b\<lparr>mt_submitted := []\<rparr>, mt_submitted b)"

definition mock_tx_submit :: "mock_tx_builder tx_builder" where
  "mock_tx_submit da b = (b\<lparr>mt_submitted := mt_submitted b @ [da]\<rparr>,
     case mt_override_result b of Some r \<Rightarrow> r | None \<Rightarrow> Submitted None)"

section \<open>The executor\<close>

record 'b rpc_executor =
  re_program_id :: pubkey
  re_market :: pubkey
  re_sub_pool_pubkeys :: "(u32 \<times> pubkey) list"
  re_keeper :: pubkey
  re_clock_sysvar :: pubkey
  re_system_program :: pubkey
  re_snapshot :: chain_snapshot
  re_builder :: 'b

text \<open>The address of a sub-pool is taken from the body of its long ledger, or else its short one.\<close>

definition any_ledger :: "chain_snapshot \<Rightarrow> u32 \<Rightarrow> onchain_distribution_ledger option" where
  "any_ledger s i = (case bt_get (cs_ledgers s) (i, Long) of Some l \<Rightarrow> Some l
     | None \<Rightarrow> bt_get (cs_ledgers s) (i, Short))"

definition recovered_sub_pools :: "chain_snapshot \<Rightarrow> (u32 \<times> pubkey) list" where
  "recovered_sub_pools s = fold (\<lambda>((i, d), key) m. case any_ledger s i of
       Some l \<Rightarrow> bt_put i (xl_sub_pool l) m | None \<Rightarrow> m) (cs_ledger_pubkeys s) bt_empty"

definition new_executor ::
  "pubkey \<Rightarrow> pubkey \<Rightarrow> pubkey \<Rightarrow> pubkey \<Rightarrow> pubkey \<Rightarrow> chain_snapshot \<Rightarrow> 'b \<Rightarrow> 'b rpc_executor" where
  "new_executor program_id market keeper clock_sysvar system_program s builder =
     \<lparr>re_program_id = program_id, re_market = market, re_sub_pool_pubkeys = recovered_sub_pools s,
      re_keeper = keeper, re_clock_sysvar = clock_sysvar, re_system_program = system_program,
      re_snapshot = s, re_builder = builder\<rparr>"

definition with_sub_pool_pubkeys :: "(u32 \<times> pubkey) list \<Rightarrow> 'b rpc_executor \<Rightarrow> 'b rpc_executor" where
  "with_sub_pool_pubkeys pubkeys e =
     e\<lparr>re_sub_pool_pubkeys := fold (\<lambda>(i, key). bt_put i key) pubkeys (re_sub_pool_pubkeys e)\<rparr>"

definition sub_pool_pubkey :: "'b rpc_executor \<Rightarrow> u32 \<Rightarrow> (tx_build_error, pubkey) result" where
  "sub_pool_pubkey e i = ok_or (bt_get (re_sub_pool_pubkeys e) i) (TxMissingSubPool i)"

definition ledger_of :: "'b rpc_executor \<Rightarrow> u32 \<Rightarrow> direction \<Rightarrow> (tx_build_error, pubkey) result" where
  "ledger_of e i d = ok_or (ledger_pubkey (re_snapshot e) i d) (TxMissingLedger i d)"

definition encoded_data :: "u8 list encoded \<Rightarrow> (tx_build_error, u8 list) result" where
  "encoded_data r = map_err (\<lambda>e. TxBuilderError (encode_error_to_string e)) r"

text \<open>The addresses of all buckets of one side of a sub-pool, sorted.\<close>

definition side_buckets :: "chain_snapshot \<Rightarrow> u32 \<Rightarrow> direction \<Rightarrow> pubkey list" where
  "side_buckets s i d = sort (map snd (filter (\<lambda>((j, d', t), key). j = i \<and> d' = d) (cs_bucket_pubkeys s)))"

definition build_pre_sync ::
  "borsh \<Rightarrow> 'b rpc_executor \<Rightarrow> u32 \<Rightarrow> direction \<Rightarrow> i64 \<Rightarrow> (tx_build_error, dispatched_action) result" where
  "build_pre_sync B e i d t =
     and_then (sub_pool_pubkey e i) (\<lambda>sp_pk.
     and_then (ledger_of e i Long) (\<lambda>long_lg.
     and_then (ledger_of e i Short) (\<lambda>short_lg.
     if bucket_pubkey (re_snapshot e) i d t = None then Err (TxMissingBucket i d t)
     else
       and_then (ok_or (bt_get (cs_sub_pools (re_snapshot e)) i) (TxMissingSubPool i)) (\<lambda>sp.
       and_then (encoded_data (encode_pre_sync_dormant_bucket_ix B (d = Long) t
                   (xs_long_dormant_bucket_count sp) (xs_short_dormant_bucket_count sp))) (\<lambda>bs.
       Ok \<lparr>da_action = PreSyncDormantBucket i d t 0, da_program_id = re_program_id e, da_data = bs,
           da_accounts =
             [meta_readonly (re_market e), meta_writable sp_pk, meta_writable long_lg,
              meta_writable short_lg, meta_readonly (re_clock_sysvar e), meta_signer_writable (re_keeper e)]
             @ map meta_writable (side_buckets (re_snapshot e) i Long @ side_buckets (re_snapshot e) i Short)\<rparr>)))))"

definition build_close ::
  "borsh \<Rightarrow> 'b rpc_executor \<Rightarrow> u32 \<Rightarrow> direction \<Rightarrow> i64 \<Rightarrow> (tx_build_error, dispatched_action) result" where
  "build_close B e i d t =
     and_then (sub_pool_pubkey e i) (\<lambda>sp_pk.
     and_then (ledger_of e i d) (\<lambda>lg_pk.
     and_then (ok_or (bucket_pubkey (re_snapshot e) i d t) (TxMissingBucket i d t)) (\<lambda>bk_pk.
     and_then (encoded_data (encode_close_dormant_bucket_ix B (d = Long) t)) (\<lambda>bs.
     Ok \<lparr>da_action = CloseDormantBucket i d t, da_program_id = re_program_id e, da_data = bs,
         da_accounts =
           [meta_readonly (re_market e), meta_readonly sp_pk, meta_readonly lg_pk, meta_writable bk_pk,
            meta_writable (re_keeper e), meta_signer_writable (re_keeper e)]\<rparr>))))"

text \<open>The address of a bucket that does not exist yet is a placeholder that carries its seeds.\<close>

definition derive_init_bucket_placeholder :: "pubkey \<Rightarrow> bool \<Rightarrow> i64 \<Rightarrow> pubkey" where
  "derive_init_bucket_placeholder sub_pool direction_is_long tick =
     [0xff, 0xff] @ ascii ''PDA'' @ bool_le direction_is_long @ i64_le tick @ take 18 sub_pool"

definition build_init ::
  "borsh \<Rightarrow> 'b rpc_executor \<Rightarrow> u32 \<Rightarrow> direction \<Rightarrow> i64 \<Rightarrow> (tx_build_error, dispatched_action) result" where
  "build_init B e i d t =
     and_then (sub_pool_pubkey e i) (\<lambda>sp_pk.
     and_then (encoded_data (encode_initialize_dormant_bucket_ix B (d = Long) t)) (\<lambda>bs.
     Ok \<lparr>da_action = InitDormantBucket i d t Explicit, da_program_id = re_program_id e, da_data = bs,
         da_accounts =
           [meta_readonly (re_market e), meta_readonly sp_pk,
            meta_writable (derive_init_bucket_placeholder sp_pk (d = Long) t),
            meta_signer_writable (re_keeper e), meta_readonly (re_system_program e)]\<rparr>))"

definition build_action ::
  "borsh \<Rightarrow> 'b rpc_executor \<Rightarrow> keeper_action \<Rightarrow> (tx_build_error, dispatched_action) result" where
  "build_action B e a = (case a of
       PreSyncDormantBucket i d t pending \<Rightarrow> build_pre_sync B e i d t
     | CloseDormantBucket i d t \<Rightarrow> build_close B e i d t
     | InitDormantBucket i d t why \<Rightarrow> build_init B e i d t)"

text \<open>A panic of a builder would abort the bot; no builder of the executor panics.\<close>

definition rpc_execute :: "borsh \<Rightarrow> 'b tx_builder \<Rightarrow> 'b rpc_executor executor" where
  "rpc_execute B submit a e = (case build_action B e a of
       Inr da \<Rightarrow> (case submit da (re_builder e) of (b, r) \<Rightarrow> (e\<lparr>re_builder := b\<rparr>, r))
     | Inl (Failed err) \<Rightarrow> (e, DispatchFailed (tx_build_error_to_string err))
     | Inl (Panicked s) \<Rightarrow> (e, DispatchFailed s))"

section \<open>The leader lock\<close>

text \<open>SHA-256 is an argument.\<close>

definition instruction_discriminator :: "(u8 list \<Rightarrow> u8 list) \<Rightarrow> string \<Rightarrow> u8 list" where
  "instruction_discriminator sha256 ix_name = take 8 (sha256 (ascii ''global:'' @ ascii ix_name))"

definition account_discriminator :: "(u8 list \<Rightarrow> u8 list) \<Rightarrow> string \<Rightarrow> u8 list" where
  "account_discriminator sha256 account_name = take 8 (sha256 (ascii ''account:'' @ ascii account_name))"

record leader_instruction =
  li_program_id :: pubkey
  li_data :: "u8 list"
  li_accounts :: "account_meta list"

definition leader_ix :: "pubkey \<Rightarrow> pubkey \<Rightarrow> pubkey \<Rightarrow> pubkey \<Rightarrow> u8 list \<Rightarrow> leader_instruction" where
  "leader_ix program_id market lock_pda keeper bs = \<lparr>li_program_id = program_id, li_data = bs,
     li_accounts = [meta_readonly market, meta_writable lock_pda, meta_signer_writable keeper]\<rparr>"

definition build_keeper_leader_heartbeat ::
  "borsh \<Rightarrow> (u8 list \<Rightarrow> u8 list) \<Rightarrow> pubkey \<Rightarrow> pubkey \<Rightarrow> pubkey \<Rightarrow> pubkey \<Rightarrow> u64
   \<Rightarrow> (unit, leader_instruction) result" where
  "build_keeper_leader_heartbeat B sha256 program_id market lock_pda keeper observed_slot =
     and_then (encode_keeper_leader_heartbeat B (instruction_discriminator sha256) observed_slot) (\<lambda>bs.
     Ok (leader_ix program_id market lock_pda keeper bs))"

definition build_keeper_leader_acquire ::
  "borsh \<Rightarrow> (u8 list \<Rightarrow> u8 list) \<Rightarrow> pubkey \<Rightarrow> pubkey \<Rightarrow> pubkey \<Rightarrow> pubkey \<Rightarrow> u64
   \<Rightarrow> (unit, leader_instruction) result" where
  "build_keeper_leader_acquire B sha256 program_id market lock_pda keeper observed_slot =
     and_then (encode_keeper_leader_acquire B (instruction_discriminator sha256) observed_slot) (\<lambda>bs.
     Ok (leader_ix program_id market lock_pda keeper bs))"

definition build_keeper_leader_release ::
  "borsh \<Rightarrow> (u8 list \<Rightarrow> u8 list) \<Rightarrow> pubkey \<Rightarrow> pubkey \<Rightarrow> pubkey \<Rightarrow> pubkey
   \<Rightarrow> (unit, leader_instruction) result" where
  "build_keeper_leader_release B sha256 program_id market lock_pda keeper =
     and_then (encode_keeper_leader_release B (instruction_discriminator sha256)) (\<lambda>bs.
     Ok (leader_ix program_id market lock_pda keeper bs))"

type_synonym 'l leader_builder = "leader_instruction \<Rightarrow> 'l \<Rightarrow> 'l \<times> (string, string option) result"

record mock_leader_builder =
  ml_submitted :: "leader_instruction list"
  ml_force_err :: "string option"

definition new_mock_leader_builder :: mock_leader_builder where
  "new_mock_leader_builder = \<lparr>ml_submitted = [], ml_force_err = None\<rparr>"

definition mock_submit_leader_ix :: "mock_leader_builder leader_builder" where
  "mock_submit_leader_ix ix b = (case ml_force_err b of
       Some err \<Rightarrow> (b, Err err)
     | None \<Rightarrow> (b\<lparr>ml_submitted := ml_submitted b @ [ix]\<rparr>, Ok None))"

datatype leader_reconcile_error =
    ReconcileRpc rpc_error
  | ReconcileNotFound pubkey
  | ReconcileDecode account_decode_error

definition fetch_keeper_leader_lock ::
  "borsh_types \<Rightarrow> (u8 list \<Rightarrow> u8 list) \<Rightarrow> account_fetcher \<Rightarrow> pubkey \<Rightarrow> (leader_reconcile_error, leader_lock) result"
  where
  "fetch_keeper_leader_lock T sha256 fetcher lock_pda =
     and_then (map_err ReconcileRpc (fetch_account fetcher lock_pda)) (\<lambda>found.
     and_then (ok_or found (ReconcileNotFound lock_pda)) (\<lambda>raw.
     map_err ReconcileDecode (decode_anchor_account_with_discriminator (leader_lock_codec T) raw
       (account_discriminator sha256 ''KeeperLeaderLock''))))"

end
