(* ===== verification/Keeper_Bot.thy ===== *)
theory Keeper_Bot
  imports Rpc_Executor Keeper_Loop
begin

text \<open>
  The keeper bot. First its metric register, \<open>crates/keeper-bot/src/metrics.rs\<close>: the counters and gauges and how a
  tick's report is added to them. The atomic counters are 64 bits wide and wrap, as \<open>fetch_add\<close>
  does; the loop is the only writer.
\<close>

section \<open>Reports\<close>

record 'f tick_report =
  tr_actions_planned :: nat
  tr_dispatched :: "(keeper_action \<times> dispatch_result) list"
  tr_applied_vol :: "'f option"
  tr_init_hints_added :: nat

section \<open>The register\<close>

datatype leader_status = StatusUnknown | StatusLeader | StatusStandby

definition leader_status_u8 :: "leader_status \<Rightarrow> u8" where
  "leader_status_u8 s = (case s of StatusUnknown \<Rightarrow> 0 | StatusLeader \<Rightarrow> 1 | StatusStandby \<Rightarrow> 2)"

definition leader_status_from_u8 :: "u8 \<Rightarrow> leader_status" where
  "leader_status_from_u8 v = (if v = 1 then StatusLeader else if v = 2 then StatusStandby else StatusUnknown)"

record keeper_metrics =
  km_ticks_total :: u64
  km_actions_submitted_total :: u64
  km_actions_failed_total :: u64
  km_actions_skipped_total :: u64
  km_init_hints_recorded_total :: u64
  km_snapshot_errors_total :: u64
  km_last_tick_duration_ms :: u64
  km_last_applied_vol_milli :: i64
  km_vol_samples :: u64
  km_last_init_hints :: u64
  km_last_actions_planned :: u64
  km_up_since_unix_secs :: u64
  km_leader_status :: u8
  km_wallet_balance_lamports :: u64

definition new_metrics :: keeper_metrics where
  "new_metrics = \<lparr>km_ticks_total = 0, km_actions_submitted_total = 0, km_actions_failed_total = 0,
     km_actions_skipped_total = 0, km_init_hints_recorded_total = 0, km_snapshot_errors_total = 0,
     km_last_tick_duration_ms = 0, km_last_applied_vol_milli = 0, km_vol_samples = 0,
     km_last_init_hints = 0, km_last_actions_planned = 0, km_up_since_unix_secs = 0,
     km_leader_status = 0, km_wallet_balance_lamports = 0\<rparr>"

definition APPLIED_VOL_NOT_WARM :: i64 where
  "APPLIED_VOL_NOT_WARM = -1"

definition fetch_add_u64 :: "u64 \<Rightarrow> u64 \<Rightarrow> u64" where
  "fetch_add_u64 a b = (a + b) mod 2 ^ 64"

definition observe_boot :: "u64 \<Rightarrow> keeper_metrics \<Rightarrow> keeper_metrics" where
  "observe_boot unix_secs m = m\<lparr>km_up_since_unix_secs := unix_secs\<rparr>"

definition set_leader_status :: "leader_status \<Rightarrow> keeper_metrics \<Rightarrow> keeper_metrics" where
  "set_leader_status s m = m\<lparr>km_leader_status := leader_status_u8 s\<rparr>"

definition metrics_leader_status :: "keeper_metrics \<Rightarrow> leader_status" where
  "metrics_leader_status m = leader_status_from_u8 (km_leader_status m)"

definition set_wallet_balance_lamports :: "u64 \<Rightarrow> keeper_metrics \<Rightarrow> keeper_metrics" where
  "set_wallet_balance_lamports lamports m = m\<lparr>km_wallet_balance_lamports := lamports\<rparr>"

definition observe_snapshot_error :: "keeper_metrics \<Rightarrow> keeper_metrics" where
  "observe_snapshot_error m = m\<lparr>km_snapshot_errors_total := fetch_add_u64 (km_snapshot_errors_total m) 1\<rparr>"

definition is_submitted :: "dispatch_result \<Rightarrow> bool" where
  "is_submitted r = (case r of Submitted sig \<Rightarrow> True | _ \<Rightarrow> False)"

definition is_dispatch_failed :: "dispatch_result \<Rightarrow> bool" where
  "is_dispatch_failed r = (case r of DispatchFailed why \<Rightarrow> True | _ \<Rightarrow> False)"

definition is_skipped :: "dispatch_result \<Rightarrow> bool" where
  "is_skipped r = (case r of Skipped why \<Rightarrow> True | _ \<Rightarrow> False)"

definition count_of :: "(dispatch_result \<Rightarrow> bool) \<Rightarrow> (keeper_action \<times> dispatch_result) list \<Rightarrow> nat" where
  "count_of P dispatched = length (filter (\<lambda>(a, r). P r) dispatched)"

text \<open>The rounding of a double to an \<open>i64\<close> is an argument, as the other operations on doubles are.\<close>

definition observe_tick ::
  "'f f64_ops \<Rightarrow> ('f \<Rightarrow> i64) \<Rightarrow> 'f tick_report \<Rightarrow> u64 \<Rightarrow> keeper_metrics \<Rightarrow> keeper_metrics" where
  "observe_tick fl round_i64 report duration_ms m =
     m\<lparr>km_ticks_total := fetch_add_u64 (km_ticks_total m) 1,
       km_last_tick_duration_ms := duration_ms,
       km_last_init_hints := tr_init_hints_added report,
       km_last_actions_planned := tr_actions_planned report,
       km_init_hints_recorded_total :=
         fetch_add_u64 (km_init_hints_recorded_total m) (tr_init_hints_added report),
       km_actions_submitted_total :=
         fetch_add_u64 (km_actions_submitted_total m) (count_of is_submitted (tr_dispatched report)),
       km_actions_failed_total :=
         fetch_add_u64 (km_actions_failed_total m) (count_of is_dispatch_failed (tr_dispatched report)),
       km_actions_skipped_total :=
         fetch_add_u64 (km_actions_skipped_total m) (count_of is_skipped (tr_dispatched report)),
       km_last_applied_vol_milli := (case tr_applied_vol report of
           Some v \<Rightarrow> round_i64 (f_mul fl v (f_lit fl 1000))
         | None \<Rightarrow> APPLIED_VOL_NOT_WARM)\<rparr>"

definition set_vol_samples :: "u64 \<Rightarrow> keeper_metrics \<Rightarrow> keeper_metrics" where
  "set_vol_samples n m = m\<lparr>km_vol_samples := n\<rparr>"


text \<open>
  The keeper bot, \<open>crates/keeper-bot/src/{lib,run}.rs\<close>: one tick (record prices, tune the predictor, plan,
  dispatch), the classification of errors, and the four run loops. An iteration of a loop is a
  function of what the outside shows it (\<open>attempt\<close>: the shutdown flag, the answers of the chain, a
  fresh transaction builder, the time the tick took); it ends with \<open>Continue\<close>, \<open>Return\<close> or
  \<open>Aborts\<close> (a panic). \<open>run_from\<close> iterates it. A loop need not end, so its result is an option.
\<close>

section \<open>The bot\<close>

datatype bot_error =
    BotSnapshot snapshot_error
  | BotScheduler keeper_error

record 'f bot_config =
  bc_snapshot :: snapshot_config
  bc_predictor :: "'f predictor_config"
  bc_run_predictor :: bool

definition default_bot_config :: "'f f64_ops \<Rightarrow> 'f bot_config" where
  "default_bot_config fl = \<lparr>bc_snapshot = default_snapshot_config,
     bc_predictor = default_predictor_config fl, bc_run_predictor = True\<rparr>"

record 'f keeper_bot =
  bo_config :: "'f bot_config"
  bo_scheduler :: scheduler
  bo_predictor :: "'f predictor_config"
  bo_vol :: "'f vol_estimator"

definition new_bot :: "'f f64_ops \<Rightarrow> 'f bot_config \<Rightarrow> 'f keeper_bot" where
  "new_bot fl config = \<lparr>bo_config = config, bo_scheduler = new_scheduler default_scheduler_config,
     bo_predictor = bc_predictor config, bo_vol = new_vol_estimator (default_vol_config fl)\<rparr>"

text \<open>What does not change from tick to tick: libraries, addresses, the transaction backend.\<close>

record ('f, 'b) bot_world =
  bw_borsh :: borsh
  bw_types :: borsh_types
  bw_sha256 :: "u8 list \<Rightarrow> u8 list"
  bw_floats :: "'f f64_ops"
  bw_round_i64 :: "'f \<Rightarrow> i64"
  bw_hint_order :: "(hint_key \<times> init_rationale) list \<Rightarrow> (hint_key \<times> init_rationale) list"
  bw_submit :: "'b tx_builder"
  bw_context :: market_context
  bw_keeper :: pubkey
  bw_clock_sysvar :: pubkey
  bw_system_program :: pubkey

definition record_prices :: "market_context \<Rightarrow> chain_snapshot \<Rightarrow> 'f vol_estimator \<Rightarrow> 'f vol_estimator" where
  "record_prices ctx snap v = fold (\<lambda>entry v. case bt_get (cs_sub_pools snap) (se_sub_pool_id entry) of
       None \<Rightarrow> v
     | Some sp \<Rightarrow> vol_record \<lparr>sample_price = xs_last_price sp, sample_slot = xs_last_sync_slot sp\<rparr> v)
     (mx_sub_pools ctx) v"

definition dispatch_plan ::
  "('f, 'b) bot_world \<Rightarrow> chain_snapshot \<Rightarrow> 'b \<Rightarrow> keeper_action list
   \<Rightarrow> 'b \<times> (keeper_action \<times> dispatch_result) list" where
  "dispatch_plan W snap builder actions =
     (let exec = new_executor (mx_program_id (bw_context W)) (mx_market (bw_context W)) (bw_keeper W)
                   (bw_clock_sysvar W) (bw_system_program W) snap builder in
      case execute_all (rpc_execute (bw_borsh W) (bw_submit W)) actions exec of
        (exec', out) \<Rightarrow> (re_builder exec', out))"

definition tick_with_snap ::
  "('f, 'b) bot_world \<Rightarrow> chain_snapshot \<Rightarrow> 'b \<Rightarrow> 'f keeper_bot
   \<Rightarrow> 'f keeper_bot \<times> (bot_error, 'f tick_report \<times> 'b) result" where
  "tick_with_snap W snap builder kb =
     (let b1 = kb\<lparr>bo_vol := record_prices (bw_context W) snap (bo_vol kb)\<rparr> in
      case apply_to_predictor_config (bw_floats W) (bo_vol b1) (bc_predictor (bo_config b1)) of
        Inl f \<Rightarrow> (b1, map_err BotScheduler (Inl f))
      | Inr (cfg, applied) \<Rightarrow>
          (let b2 = b1\<lparr>bo_predictor := cfg\<rparr>;
               (s3, preds) = (if bc_run_predictor (bo_config b2) then
                   populate_scheduler (bw_floats W) (bo_predictor b2) (snapshot_view snap) (bo_scheduler b2)
                 else (bo_scheduler b2, []))
           in case scheduler_plan (bw_hint_order W) (snapshot_view snap) s3 of
                (s4, Inl f) \<Rightarrow> (b2\<lparr>bo_scheduler := s4\<rparr>, map_err BotScheduler (Inl f))
              | (s4, Inr actions) \<Rightarrow>
                  (case dispatch_plan W snap builder actions of
                     (builder', out) \<Rightarrow>
                       (b2\<lparr>bo_scheduler := s4\<rparr>,
                        Ok (\<lparr>tr_actions_planned = length actions, tr_dispatched = out,
                             tr_applied_vol = (if applied then Some (pc_annual_vol cfg) else None),
                             tr_init_hints_added = length preds\<rparr>, builder')))))"

definition bot_tick ::
  "('f, 'b) bot_world \<Rightarrow> account_fetcher \<Rightarrow> 'b \<Rightarrow> 'f keeper_bot
   \<Rightarrow> 'f keeper_bot \<times> (bot_error, 'f tick_report \<times> 'b) result" where
  "bot_tick W fetcher builder kb =
     (case map_err BotSnapshot (snapshot_refresh (bw_types W) fetcher (bw_context W) (bc_snapshot (bo_config kb))) of
        Inl f \<Rightarrow> (kb, Inl f)
      | Inr snap \<Rightarrow> tick_with_snap W snap builder kb)"

definition snapshot_best_slot :: "chain_snapshot \<Rightarrow> u64 option" where
  "snapshot_best_slot snap = (case map (\<lambda>(i, sp). xs_last_sync_slot sp) (cs_sub_pools snap) of
       [] \<Rightarrow> None | x # xs \<Rightarrow> Some (fold max xs x))"

definition health_from_sub_pool ::
  "u32 \<Rightarrow> u64 \<Rightarrow> u128 \<Rightarrow> u128 \<Rightarrow> u128 \<Rightarrow> u128 \<Rightarrow> u64 \<Rightarrow> u64 \<Rightarrow> sub_pool_health" where
  "health_from_sub_pool i price long_eq short_eq long_notional short_notional long_gen short_gen =
     \<lparr>sh_sub_pool_id = i, sh_last_price = price, sh_long_anchor_price = price,
      sh_short_anchor_price = price, sh_long_pool_equity = long_eq, sh_short_pool_equity = short_eq,
      sh_long_active_notional = long_notional, sh_short_active_notional = short_notional,
      sh_long_active_generation = long_gen, sh_short_active_generation = short_gen\<rparr>"

section \<open>Loops\<close>

definition is_transient :: "bot_error \<Rightarrow> bool" where
  "is_transient err = (case err of
       BotSnapshot s \<Rightarrow> (case s of
           SnapRpc e \<Rightarrow> True
         | SnapDecode kind key e \<Rightarrow> False
         | SnapMarketNotFound key \<Rightarrow> False
         | SnapSubPoolNotFound i key \<Rightarrow> False
         | SnapSchemaVersionMismatch onchain compiled \<Rightarrow> False
         | SnapMarketPaused \<Rightarrow> False)
     | BotScheduler e \<Rightarrow> False)"

definition clamp_ms :: "u128 \<Rightarrow> u64" where
  "clamp_ms ms = min ms (2 ^ 64 - 1)"

datatype termination_reason = ShutdownSignal | TickLimitReached | PermanentError

record run_outcome =
  ro_reason :: termination_reason
  ro_ticks :: u64
  ro_error :: "bot_error option"

datatype flow = Continue | Return run_outcome | Aborts string

text \<open>Only \<open>max_ticks\<close> of the configuration decides anything; the intervals are sleeps.\<close>

record 'b attempt =
  at_shutdown :: bool
  at_fetcher :: account_fetcher
  at_builder :: 'b
  at_elapsed_ms :: u128

text \<open>
  The variables of the loops. \<open>rs_sent\<close> is not a variable of the code: it collects the builders
  of the ticks that ran, that is, what was submitted.
\<close>

record ('f, 'b, 'p, 'l) run_state =
  rs_bot :: "'f keeper_bot"
  rs_metrics :: keeper_metrics
  rs_ticks :: u64
  rs_policy :: 'p
  rs_leader_builder :: 'l
  rs_last_reconcile :: "u64 option"
  rs_last_heartbeat :: "u64 option"
  rs_was_leader :: bool
  rs_sent :: "'b list"

definition stop :: "termination_reason \<Rightarrow> bot_error option \<Rightarrow> ('f, 'b, 'p, 'l) run_state \<Rightarrow> flow" where
  "stop why err s = Return \<lparr>ro_reason = why, ro_ticks = rs_ticks s, ro_error = err\<rparr>"

definition tick_limit_reached :: "u64 option \<Rightarrow> ('f, 'b, 'p, 'l) run_state \<Rightarrow> bool" where
  "tick_limit_reached max_ticks s = (case max_ticks of None \<Rightarrow> False | Some n \<Rightarrow> n \<le> rs_ticks s)"

definition count_tick :: "('f, 'b, 'p, 'l) run_state \<Rightarrow> ('f, 'b, 'p, 'l) run_state \<times> flow" where
  "count_tick s = (case (plus_w 64 (rs_ticks s) 1 :: (unit, nat) result) of
       Inl f \<Rightarrow> (s, Aborts ''attempt to add with overflow'')
     | Inr t \<Rightarrow> (s\<lparr>rs_ticks := t\<rparr>, Continue))"

text \<open>The \<open>Ok\<close> arm of a tick.\<close>

definition after_tick ::
  "('f, 'b) bot_world \<Rightarrow> 'f keeper_bot \<Rightarrow> 'f tick_report \<Rightarrow> 'b \<Rightarrow> u128 \<Rightarrow> ('f, 'b, 'p, 'l) run_state
   \<Rightarrow> ('f, 'b, 'p, 'l) run_state \<times> flow" where
  "after_tick W kb report builder elapsed s =
     count_tick (s\<lparr>rs_bot := kb,
       rs_metrics := set_vol_samples (length (ve_samples (bo_vol kb)))
         (observe_tick (bw_floats W) (bw_round_i64 W) report (clamp_ms elapsed) (rs_metrics s)),
       rs_sent := rs_sent s @ [builder]\<rparr>)"

definition after_error ::
  "(bot_error \<Rightarrow> bool) \<Rightarrow> 'f keeper_bot \<Rightarrow> bot_error failure \<Rightarrow> ('f, 'b, 'p, 'l) run_state
   \<Rightarrow> ('f, 'b, 'p, 'l) run_state \<times> flow" where
  "after_error retry kb f s = (case f of
       Panicked msg \<Rightarrow> (s\<lparr>rs_bot := kb\<rparr>, Aborts msg)
     | Failed e \<Rightarrow>
         let s1 = s\<lparr>rs_bot := kb, rs_metrics := observe_snapshot_error (rs_metrics s)\<rparr> in
         if retry e then (s1, Continue) else (s1, stop PermanentError (Some e) s1))"

text \<open>\<open>run_loop\<close> recycles its builder and gives up on every error.\<close>

definition run_loop_body ::
  "('f, 'b) bot_world \<Rightarrow> u64 option \<Rightarrow> 'b attempt \<Rightarrow> ('f, 'b, 'b, 'l) run_state
   \<Rightarrow> ('f, 'b, 'b, 'l) run_state \<times> flow" where
  "run_loop_body W max_ticks a s =
     (if at_shutdown a then (s, stop ShutdownSignal None s)
      else if tick_limit_reached max_ticks s then (s, stop TickLimitReached None s)
      else case bot_tick W (at_fetcher a) (rs_policy s) (rs_bot s) of
        (kb, Inr (report, builder)) \<Rightarrow>
          after_tick W kb report builder (at_elapsed_ms a) (s\<lparr>rs_policy := builder\<rparr>)
      | (kb, Inl f) \<Rightarrow> after_error (\<lambda>e. False) kb f s)"

definition factory_loop_body ::
  "('f, 'b) bot_world \<Rightarrow> u64 option \<Rightarrow> 'b attempt \<Rightarrow> ('f, 'b, 'p, 'l) run_state
   \<Rightarrow> ('f, 'b, 'p, 'l) run_state \<times> flow" where
  "factory_loop_body W max_ticks a s =
     (if at_shutdown a then (s, stop ShutdownSignal None s)
      else if tick_limit_reached max_ticks s then (s, stop TickLimitReached None s)
      else case bot_tick W (at_fetcher a) (at_builder a) (rs_bot s) of
        (kb, Inr (report, builder)) \<Rightarrow> after_tick W kb report builder (at_elapsed_ms a) s
      | (kb, Inl f) \<Rightarrow> after_error is_transient kb f s)"

text \<open>The tick of a leader, on the snapshot the gate was asked with: every error is permanent.\<close>

definition leader_tick ::
  "('f, 'b) bot_world \<Rightarrow> chain_snapshot \<Rightarrow> 'b attempt \<Rightarrow> ('f, 'b, 'p, 'l) run_state
   \<Rightarrow> ('f, 'b, 'p, 'l) run_state \<times> flow" where
  "leader_tick W snap a s =
     (case tick_with_snap W snap (at_builder a) (rs_bot s) of
        (kb, Inr (report, builder)) \<Rightarrow> after_tick W kb report builder (at_elapsed_ms a) s
      | (kb, Inl f) \<Rightarrow> after_error (\<lambda>e. False) kb f s)"

definition best_slot_or_zero :: "chain_snapshot \<Rightarrow> u64" where
  "best_slot_or_zero snap = (case snapshot_best_slot snap of None \<Rightarrow> 0 | Some n \<Rightarrow> n)"

definition leader_loop_body ::
  "('f, 'b) bot_world \<Rightarrow> (u64 \<Rightarrow> 'p \<Rightarrow> 'p \<times> bool) \<Rightarrow> u64 option \<Rightarrow> 'b attempt \<Rightarrow> ('f, 'b, 'p, 'l) run_state
   \<Rightarrow> ('f, 'b, 'p, 'l) run_state \<times> flow" where
  "leader_loop_body W should_submit max_ticks a s =
     (if at_shutdown a then (s, stop ShutdownSignal None s)
      else if tick_limit_reached max_ticks s then (s, stop TickLimitReached None s)
      else case map_err BotSnapshot (snapshot_refresh (bw_types W) (at_fetcher a) (bw_context W)
                  default_snapshot_config) of
        Inl f \<Rightarrow> after_error is_transient (rs_bot s) f s
      | Inr snap \<Rightarrow>
          (case should_submit (best_slot_or_zero snap) (rs_policy s) of
             (p, leads) \<Rightarrow>
               let s1 = s\<lparr>rs_policy := p,
                          rs_metrics := set_leader_status (if leads then StatusLeader else StatusStandby)
                            (rs_metrics s)\<rparr> in
               if leads then leader_tick W snap a s1 else count_tick s1))"

section \<open>The loop that reconciles with the chain\<close>

record reconcile_config =
  rc_reconcile_every :: "u64 option"
  rc_lock_pda :: pubkey
  rc_heartbeat_every :: "u64 option"
  rc_release_on_shutdown :: bool

definition default_reconcile_config :: reconcile_config where
  "default_reconcile_config = \<lparr>rc_reconcile_every = Some 20, rc_lock_pda = replicate 32 0,
     rc_heartbeat_every = Some 5, rc_release_on_shutdown = True\<rparr>"

definition is_due :: "u64 option \<Rightarrow> u64 \<Rightarrow> u64 \<Rightarrow> bool" where
  "is_due last_time now every = (case last_time of None \<Rightarrow> True | Some prev \<Rightarrow> every \<le> now - prev)"

definition try_graceful_release ::
  "('f, 'b) bot_world \<Rightarrow> 'l leader_builder \<Rightarrow> reconcile_config \<Rightarrow> bool \<Rightarrow> 'l
   \<Rightarrow> 'l \<times> (string, string option) result" where
  "try_graceful_release W submit_leader_ix cfg was_leader l =
     (if \<not> rc_release_on_shutdown cfg \<or> \<not> was_leader then (l, Ok None)
      else case build_keeper_leader_release (bw_borsh W) (bw_sha256 W) (mx_program_id (bw_context W))
                  (mx_market (bw_context W)) (rc_lock_pda cfg) (bw_keeper W) of
        Inr ix \<Rightarrow> submit_leader_ix ix l
      | Inl (Failed u) \<Rightarrow> (l, Ok None)
      | Inl (Panicked msg) \<Rightarrow> (l, Panic msg))"

definition reconcile_step ::
  "('f, 'b) bot_world \<Rightarrow> reconcile_config \<Rightarrow> account_fetcher \<Rightarrow> ('f, 'b, mirror_policy, 'l) run_state
   \<Rightarrow> ('f, 'b, mirror_policy, 'l) run_state" where
  "reconcile_step W cfg fetcher s = (case rc_reconcile_every cfg of None \<Rightarrow> s
     | Some every \<Rightarrow>
         if is_due (rs_last_reconcile s) (rs_ticks s) every then
           (case fetch_keeper_leader_lock (bw_types W) (bw_sha256 W) fetcher (rc_lock_pda cfg) of
              Inr chain_lock \<Rightarrow>
                s\<lparr>rs_policy := reconcile chain_lock (rs_policy s), rs_last_reconcile := Some (rs_ticks s)\<rparr>
            | Inl (Failed (ReconcileNotFound key)) \<Rightarrow> s\<lparr>rs_last_reconcile := Some (rs_ticks s)\<rparr>
            | Inl f \<Rightarrow> s)
         else s)"

definition heartbeat_step ::
  "('f, 'b) bot_world \<Rightarrow> 'l leader_builder \<Rightarrow> reconcile_config \<Rightarrow> u64 \<Rightarrow> ('f, 'b, 'p, 'l) run_state
   \<Rightarrow> (unit, ('f, 'b, 'p, 'l) run_state) result" where
  "heartbeat_step W submit_leader_ix cfg current_slot s = (case rc_heartbeat_every cfg of None \<Rightarrow> Ok s
     | Some every \<Rightarrow>
         if \<not> rs_was_leader s \<or> is_due (rs_last_heartbeat s) (rs_ticks s) every then
           and_then (build_keeper_leader_heartbeat (bw_borsh W) (bw_sha256 W) (mx_program_id (bw_context W))
                       (mx_market (bw_context W)) (rc_lock_pda cfg) (bw_keeper W) current_slot) (\<lambda>ix.
           case submit_leader_ix ix (rs_leader_builder s) of
             (l, Inr sig) \<Rightarrow> Ok (s\<lparr>rs_leader_builder := l, rs_last_heartbeat := Some (rs_ticks s)\<rparr>)
           | (l, Inl (Failed e)) \<Rightarrow> Ok (s\<lparr>rs_leader_builder := l\<rparr>)
           | (l, Inl (Panicked msg)) \<Rightarrow> Panic msg)
         else Ok s)"

definition reconcile_loop_body ::
  "('f, 'b) bot_world \<Rightarrow> 'l leader_builder \<Rightarrow> reconcile_config \<Rightarrow> u64 option \<Rightarrow> 'b attempt
   \<Rightarrow> ('f, 'b, mirror_policy, 'l) run_state \<Rightarrow> ('f, 'b, mirror_policy, 'l) run_state \<times> flow" where
  "reconcile_loop_body W submit_leader_ix cfg max_ticks a s =
     (if at_shutdown a then
        (case try_graceful_release W submit_leader_ix cfg (rs_was_leader s) (rs_leader_builder s) of
           (l, Inl (Panicked msg)) \<Rightarrow> (s\<lparr>rs_leader_builder := l\<rparr>, Aborts msg)
         | (l, r) \<Rightarrow> (s\<lparr>rs_leader_builder := l\<rparr>, stop ShutdownSignal None s))
      else if tick_limit_reached max_ticks s then (s, stop TickLimitReached None s)
      else case map_err BotSnapshot (snapshot_refresh (bw_types W) (at_fetcher a) (bw_context W)
                  default_snapshot_config) of
        Inl f \<Rightarrow> after_error is_transient (rs_bot s) f s
      | Inr snap \<Rightarrow>
          let s1 = reconcile_step W cfg (at_fetcher a) s; current_slot = best_slot_or_zero snap in
          (case policy_should_submit current_slot (rs_policy s1) of
             (p, leads) \<Rightarrow>
               let s2 = s1\<lparr>rs_policy := p,
                           rs_metrics := set_leader_status (if leads then StatusLeader else StatusStandby)
                             (rs_metrics s1)\<rparr> in
               if \<not> leads then count_tick (s2\<lparr>rs_was_leader := False\<rparr>)
               else case heartbeat_step W submit_leader_ix cfg current_slot s2 of
                   Inl (Panicked msg) \<Rightarrow> (s2, Aborts msg)
                 | Inl (Failed u) \<Rightarrow> (s2, Continue)
                 | Inr s3 \<Rightarrow> leader_tick W snap a (s3\<lparr>rs_was_leader := True\<rparr>)))"

section \<open>Iterating\<close>

partial_function (option) run_from ::
  "('a \<Rightarrow> 's \<Rightarrow> 's \<times> flow) \<Rightarrow> (nat \<Rightarrow> 'a) \<Rightarrow> nat \<Rightarrow> 's \<Rightarrow> ('s \<times> (unit, run_outcome) result) option" where
  "run_from body env i s = (case body (env i) s of
       (s', Continue) \<Rightarrow> run_from body env (Suc i) s'
     | (s', Return out) \<Rightarrow> Some (s', Ok out)
     | (s', Aborts msg) \<Rightarrow> Some (s', Panic msg))"

definition start_state :: "'f keeper_bot \<Rightarrow> keeper_metrics \<Rightarrow> 'p \<Rightarrow> 'l \<Rightarrow> ('f, 'b, 'p, 'l) run_state" where
  "start_state kb m p l = \<lparr>rs_bot = kb, rs_metrics = m, rs_ticks = 0, rs_policy = p,
     rs_leader_builder = l, rs_last_reconcile = None, rs_last_heartbeat = None, rs_was_leader = False,
     rs_sent = []\<rparr>"

definition run_loop where
  "run_loop W max_ticks env kb m builder = run_from (run_loop_body W max_ticks) env 0 (start_state kb m builder ())"

definition run_loop_with_factory where
  "run_loop_with_factory W max_ticks env kb m =
     run_from (factory_loop_body W max_ticks) env 0 (start_state kb m () ())"

definition run_loop_with_leader where
  "run_loop_with_leader W should_submit max_ticks env kb m policy =
     run_from (leader_loop_body W should_submit max_ticks) env 0 (start_state kb m policy ())"

definition run_loop_with_leader_and_rpc_reconcile where
  "run_loop_with_leader_and_rpc_reconcile W submit_leader_ix cfg max_ticks env kb m policy leader_builder =
     run_from (reconcile_loop_body W submit_leader_ix cfg max_ticks) env 0 (start_state kb m policy leader_builder)"

end
