(* ===== verification/Bot_Facts.thy ===== *)
theory Bot_Facts
  imports Keeper_Bot
begin

text \<open>
  The run loops step by step: the rules that unfold \<open>run_from\<close>, when a bounded loop ends, what a
  standby does, and that the mirror of the leader lock stands still as long as the chain shows
  the same foreign leader and no newer slot.
\<close>

section \<open>Unfolding a loop\<close>

lemma run_from_Continue: "body (env i) s = (s', Continue) \<Longrightarrow> run_from body env i s = run_from body env (Suc i) s'"
  by (subst run_from.simps) simp

lemma run_from_Return: "body (env i) s = (s', Return r) \<Longrightarrow> run_from body env i s = Some (s', Inr r)"
  by (subst run_from.simps) simp

lemma run_from_Aborts: "body (env i) s = (s', Aborts msg) \<Longrightarrow> run_from body env i s = Some (s', Inl (Panicked msg))"
  by (subst run_from.simps) simp

text \<open>Partial correctness: what every iteration keeps holds where the loop stops.\<close>

lemma run_from_partial:
  assumes "run_from body env i s = Some y" and "P i s"
    and "\<And>j s s1. P j s \<Longrightarrow> body (env j) s = (s1, Continue) \<Longrightarrow> P (Suc j) s1"
    and "\<And>j s s1 r. P j s \<Longrightarrow> body (env j) s = (s1, Return r) \<Longrightarrow> Q (s1, Inr r)"
    and "\<And>j s s1 msg. P j s \<Longrightarrow> body (env j) s = (s1, Aborts msg) \<Longrightarrow> Q (s1, Inl (Panicked msg))"
  shows "Q y"
proof -
  have "body = body \<longrightarrow> env = env \<longrightarrow> P i s \<longrightarrow> Q y"
    using assms(1)
  proof (rule run_from.raw_induct [where P = "\<lambda>b e i s y. b = body \<longrightarrow> e = env \<longrightarrow> P i s \<longrightarrow> Q y", rotated], goal_cases)
    case (1 rf b e i s y)
    show ?case
    proof (intro impI)
      assume eq: "b = body" "e = env" and start: "P i s"
      obtain s1 fl where run: "body (env i) s = (s1, fl)" by (cases "body (env i) s")
      show "Q y"
      proof (cases fl)
        case Continue
        with run 1(2) eq have "rf body env (Suc i) s1 = Some y" by simp
        from 1(1) [OF this] assms(3) [OF start] run Continue show ?thesis by blast
      next
        case (Return r)
        with run 1(2) eq assms(4) [OF start] show ?thesis by auto
      next
        case (Aborts msg)
        with run 1(2) eq assms(5) [OF start] show ?thesis by auto
      qed
    qed
  qed
  with assms(2) show ?thesis by simp
qed

text \<open>A loop whose every iteration goes on never returns.\<close>

lemma run_from_diverges:
  assumes "P i s" and "\<And>j s. P j s \<Longrightarrow> \<exists>s1. body (env j) s = (s1, Continue) \<and> P (Suc j) s1"
  shows "run_from body env i s = None"
proof (rule ccontr)
  assume "run_from body env i s \<noteq> None"
  then obtain y where "run_from body env i s = Some y" by blast
  then have False
    by (rule run_from_partial [where P = P and Q = "\<lambda>_. False"]) (use assms in \<open>fastforce dest: assms(2)\<close>)+
  then show False .
qed

text \<open>A loop in which the tick count grows, or nothing but a transient error happens, ends at its limit.\<close>

lemma run_from_returns:
  assumes "\<And>j s. P s \<Longrightarrow> good j \<Longrightarrow> snd (body (env j) s) \<noteq> Continue
        \<or> (P (fst (body (env j) s)) \<and> measure_of (fst (body (env j) s)) < (measure_of s :: nat))"
    and "\<And>j s. P s \<Longrightarrow> \<not> good j \<Longrightarrow> snd (body (env j) s) \<noteq> Continue
        \<or> (P (fst (body (env j) s)) \<and> measure_of (fst (body (env j) s)) \<le> measure_of s)"
    and "\<And>k. \<exists>j\<ge>k. good j" and "P s"
  shows "\<exists>y. run_from body env i s = Some y"
  using assms(4)
proof (induction "measure_of s" arbitrary: i s rule: less_induct)
  case less
  from assms(3) [of i] obtain n where n: "good (i + n)" by (metis le_Suc_ex)
  have "\<exists>y. run_from body env i t = Some y" if "P t" "measure_of t \<le> measure_of s" "good (i + n)" for t i
    using that
  proof (induction n arbitrary: i t)
    case 0
    obtain t1 fl where b: "body (env i) t = (t1, fl)" by (cases "body (env i) t")
    show ?case
    proof (cases fl)
      case Continue
      with assms(1) [of t i] 0 b have "P t1" "measure_of t1 < measure_of s" by auto
      from less(1) [OF this(2,1), of "Suc i"] show ?thesis using run_from_Continue [of body env i t t1] b Continue by simp
    qed (use run_from_Return [of body env i t t1] run_from_Aborts [of body env i t t1] b in auto)
  next
    case (Suc n)
    obtain t1 fl where b: "body (env i) t = (t1, fl)" by (cases "body (env i) t")
    show ?case
    proof (cases fl)
      case Continue
      with assms(1) [of t i] assms(2) [of t i] Suc.prems b have "P t1" "measure_of t1 \<le> measure_of s"
        by (cases "good i"; force)+
      from Suc.IH [OF this, of "Suc i"] Suc.prems(3) show ?thesis
        using run_from_Continue [of body env i t t1] b Continue by simp
    qed (use run_from_Return [of body env i t t1] run_from_Aborts [of body env i t t1] b in auto)
  qed
  from this [OF less(2) order_refl n] show ?case .
qed

section \<open>The parts of an iteration\<close>

lemma tick_keeps_config:
  "tick_with_snap W snap builder kb = (kb', r) \<Longrightarrow> bo_config kb' = bo_config kb"
  "bot_tick W fetcher builder kb = (kb', r) \<Longrightarrow> bo_config kb' = bo_config kb"
proof -
  show one: "bo_config kb' = bo_config kb" if "tick_with_snap W snap builder kb = (kb', r)" for snap kb' r
    using that by (auto simp: tick_with_snap_def Let_def split: sum.splits prod.splits)
  show "bo_config kb' = bo_config kb" if "bot_tick W fetcher builder kb = (kb', r)"
    using that one by (auto simp: bot_tick_def split: sum.splits)
qed

lemma count_tick_cases:
  "count_tick s = (s\<lparr>rs_ticks := rs_ticks s + 1\<rparr>, Continue)
    \<or> (\<exists>msg. count_tick s = (s, Aborts msg))"
  by (auto simp: count_tick_def plus_w_def)

lemma after_error_cases:
  "after_error retry kb f s = (s\<lparr>rs_bot := kb, rs_metrics := observe_snapshot_error (rs_metrics s)\<rparr>, Continue)
      \<and> (\<exists>e. f = Failed e \<and> retry e)
    \<or> snd (after_error retry kb f s) \<noteq> Continue"
  by (auto simp: after_error_def Let_def stop_def split: failure.splits)

definition refresh_retries :: "('f, 'b) bot_world \<Rightarrow> snapshot_config \<Rightarrow> 'b attempt \<Rightarrow> bool" where
  "refresh_retries W cfg a \<longleftrightarrow>
     (\<exists>e. snapshot_refresh (bw_types W) (at_fetcher a) (bw_context W) cfg = Err (SnapRpc e))"

lemma transient_iff: "is_transient e \<longleftrightarrow> (\<exists>r. e = BotSnapshot (SnapRpc r))"
  by (cases e) (auto simp: is_transient_def split: snapshot_error.splits)

lemma map_err_Failed: "map_err g m = Inl (Failed e) \<longleftrightarrow> (\<exists>e0. m = Inl (Failed e0) \<and> e = g e0)"
  by (cases m) (auto simp: map_err_def split: failure.splits)

lemma tick_never_transient:
  assumes "tick_with_snap W snap builder kb = (kb', Inl (Failed e))"
  shows "\<not> is_transient e"
  using assms by (auto simp: tick_with_snap_def Let_def transient_iff map_err_def split: sum.splits prod.splits failure.splits)

lemma bot_tick_transient:
  assumes "bot_tick W (at_fetcher a) builder kb = (kb', Inl (Failed e))" and "is_transient e"
  shows "refresh_retries W (bc_snapshot (bo_config kb)) a"
proof (cases "map_err BotSnapshot (snapshot_refresh (bw_types W) (at_fetcher a) (bw_context W) (bc_snapshot (bo_config kb)))")
  case (Inr snap)
  with assms(1) have "tick_with_snap W snap builder kb = (kb', Inl (Failed e))" by (simp add: bot_tick_def)
  from tick_never_transient [OF this] assms(2) show ?thesis by contradiction
next
  case (Inl f)
  with assms show ?thesis by (auto simp: bot_tick_def refresh_retries_def transient_iff map_err_Failed)
qed

section \<open>The loop with a factory\<close>

lemma factory_iteration:
  assumes "factory_loop_body W (Some n) a s = (s1, Continue)"
  shows "bc_snapshot (bo_config (rs_bot s1)) = bc_snapshot (bo_config (rs_bot s))
    \<and> (rs_ticks s1 = rs_ticks s + 1 \<and> rs_ticks s < n
       \<or> rs_ticks s1 = rs_ticks s \<and> refresh_retries W (bc_snapshot (bo_config (rs_bot s))) a \<and> \<not> at_shutdown a)"
proof -
  obtain kb r where t: "bot_tick W (at_fetcher a) (at_builder a) (rs_bot s) = (kb, r)" by force
  note cfg = tick_keeps_config(2) [OF t]
  from assms t have open_: "\<not> at_shutdown a" "rs_ticks s < n"
    by (auto simp: factory_loop_body_def stop_def tick_limit_reached_def split: if_splits)
  show ?thesis
  proof (cases r)
    case (Inl f)
    with assms t open_ have e: "after_error is_transient kb f s = (s1, Continue)"
      by (simp add: factory_loop_body_def tick_limit_reached_def)
    then obtain e where "f = Failed e" "is_transient e"
        "s1 = s\<lparr>rs_bot := kb, rs_metrics := observe_snapshot_error (rs_metrics s)\<rparr>"
      using after_error_cases [of is_transient kb f s] by auto
    with bot_tick_transient [of W a "at_builder a" "rs_bot s" kb e] t Inl cfg open_ show ?thesis by simp
  next
    case (Inr x)
    with assms t open_ obtain report b where e: "after_tick W kb report b (at_elapsed_ms a) s = (s1, Continue)"
      by (cases x) (auto simp: factory_loop_body_def tick_limit_reached_def)
    then show ?thesis using cfg open_
      count_tick_cases [of "s\<lparr>rs_bot := kb,
       rs_metrics := set_vol_samples (length (ve_samples (bo_vol kb)))
         (observe_tick (bw_floats W) (bw_round_i64 W) report (clamp_ms (at_elapsed_ms a)) (rs_metrics s)),
       rs_sent := rs_sent s @ [b]\<rparr>"]
      by (auto simp: after_tick_def)
  qed
qed

lemma factory_returns:
  assumes "\<And>k. \<exists>j\<ge>k. at_shutdown (env j) \<or> \<not> refresh_retries W (bc_snapshot (bo_config kb)) (env j)"
  shows "\<exists>y. run_loop_with_factory W (Some n) env kb m = Some y"
  unfolding run_loop_with_factory_def
proof (rule run_from_returns [where P = "\<lambda>s. bc_snapshot (bo_config (rs_bot s)) = bc_snapshot (bo_config kb)"
      and good = "\<lambda>j. at_shutdown (env j) \<or> \<not> refresh_retries W (bc_snapshot (bo_config kb)) (env j)"
      and measure_of = "\<lambda>s. n - rs_ticks s"])
  fix j :: nat and s :: "('b, 'a, unit, unit) run_state"
  assume cfg: "bc_snapshot (bo_config (rs_bot s)) = bc_snapshot (bo_config kb)"
  obtain s1 fl where b: "factory_loop_body W (Some n) (env j) s = (s1, fl)" by force
  show "snd (factory_loop_body W (Some n) (env j) s) \<noteq> Continue
      \<or> (bc_snapshot (bo_config (rs_bot (fst (factory_loop_body W (Some n) (env j) s)))) = bc_snapshot (bo_config kb)
         \<and> n - rs_ticks (fst (factory_loop_body W (Some n) (env j) s)) < n - rs_ticks s)"
    if "at_shutdown (env j) \<or> \<not> refresh_retries W (bc_snapshot (bo_config kb)) (env j)"
    using factory_iteration [of W n "env j" s s1] b cfg that by (cases "fl = Continue") auto
  show "snd (factory_loop_body W (Some n) (env j) s) \<noteq> Continue
      \<or> (bc_snapshot (bo_config (rs_bot (fst (factory_loop_body W (Some n) (env j) s)))) = bc_snapshot (bo_config kb)
         \<and> n - rs_ticks (fst (factory_loop_body W (Some n) (env j) s)) \<le> n - rs_ticks s)"
    using factory_iteration [of W n "env j" s s1] b cfg by (cases "fl = Continue") auto
qed (use assms in \<open>simp_all add: start_state_def\<close>)

lemma factory_hangs:
  assumes "\<And>j. \<not> at_shutdown (env j)" and "\<And>j. refresh_retries W (bc_snapshot (bo_config kb)) (env j)"
    and "max_ticks \<noteq> Some 0"
  shows "run_loop_with_factory W max_ticks env kb m = None"
  unfolding run_loop_with_factory_def
proof (rule run_from_diverges [where P = "\<lambda>j s. rs_bot s = kb \<and> rs_ticks s = 0"])
  fix j :: nat and s :: "('b, 'a, unit, unit) run_state"
  assume s: "rs_bot s = kb \<and> rs_ticks s = 0"
  from assms(2) [of j] obtain e where
    e: "snapshot_refresh (bw_types W) (at_fetcher (env j)) (bw_context W) (bc_snapshot (bo_config kb)) = Err (SnapRpc e)"
    by (auto simp: refresh_retries_def)
  with s assms(1,3) show "\<exists>s1. factory_loop_body W max_ticks (env j) s = (s1, Continue) \<and> rs_bot s1 = kb \<and> rs_ticks s1 = 0"
    by (auto simp: factory_loop_body_def bot_tick_def tick_limit_reached_def after_error_def is_transient_def Let_def
        split: option.splits)
qed (simp add: start_state_def)

section \<open>Standing by\<close>

text \<open>The slots at which a keeper may not lead under a lock, as the bot sees it.\<close>

definition lead_refused :: "pubkey \<Rightarrow> leader_lock \<Rightarrow> u64 \<Rightarrow> bool" where
  "lead_refused me l slot \<longleftrightarrow> slot < last_heartbeat_slot l
     \<or> (has_leader l \<and> current_leader l \<noteq> me \<and> slot - last_heartbeat_slot l \<le> takeover_threshold_slots l)"

lemma refused_heartbeat:
  assumes "lead_refused me l slot"
  shows "\<exists>q. try_heartbeat me slot l = (l, q) \<and> \<not> is_leader q"
  using assms by (auto simp: lead_refused_def try_heartbeat_def is_stale_def is_leader_def Let_def)

lemma accepted_heartbeat:
  assumes "\<not> lead_refused me l slot"
  shows "\<exists>q. try_heartbeat me slot l = (l\<lparr>has_leader := True, current_leader := me, last_heartbeat_slot := slot\<rparr>, q) \<and> is_leader q"
  using assms by (auto simp: lead_refused_def try_heartbeat_def is_stale_def is_leader_def Let_def)

text \<open>What one iteration sees: a snapshot and the lock.\<close>

definition sees :: "('f, 'b) bot_world \<Rightarrow> pubkey \<Rightarrow> 'b attempt \<Rightarrow> chain_snapshot \<Rightarrow> leader_lock \<Rightarrow> bool" where
  "sees W lock_pda a snap l \<longleftrightarrow>
     snapshot_refresh (bw_types W) (at_fetcher a) (bw_context W) default_snapshot_config = Ok snap
     \<and> fetch_keeper_leader_lock (bw_types W) (bw_sha256 W) (at_fetcher a) lock_pda = Ok l"

definition waiting :: "pubkey \<Rightarrow> leader_lock \<Rightarrow> 'l \<Rightarrow> ('f, 'b, mirror_policy, 'l) run_state \<Rightarrow> bool" where
  "waiting me l lb s \<longleftrightarrow> mp_signer (rs_policy s) = me \<and> (rs_last_reconcile s = None \<or> mp_inner (rs_policy s) = l)
     \<and> rs_leader_builder s = lb \<and> \<not> rs_was_leader s \<and> rs_sent s = []"

lemma standby_iteration:
  assumes "waiting me l lb s" and "rc_reconcile_every cfg = Some every"
    and "at_shutdown a \<or> (\<exists>snap. sees W (rc_lock_pda cfg) a snap l \<and> lead_refused me l (best_slot_or_zero snap))"
  obtains (stopped) s1 out where "reconcile_loop_body W submit cfg max_ticks a s = (s1, Return out)" and "waiting me l lb s1"
      and "at_shutdown a \<or> (tick_limit_reached max_ticks s \<and> s1 = s \<and> out = \<lparr>ro_reason = TickLimitReached, ro_ticks = rs_ticks s, ro_error = None\<rparr>)"
    | (waits) s1 where "reconcile_loop_body W submit cfg max_ticks a s = (s1, Continue)" and "waiting me l lb s1"
      and "rs_ticks s1 = rs_ticks s + 1" and "\<not> tick_limit_reached max_ticks s"
    | (overflow) s1 msg where "reconcile_loop_body W submit cfg max_ticks a s = (s1, Aborts msg)" and "waiting me l lb s1"
      and "2 ^ 64 \<le> rs_ticks s + 1" and "\<not> tick_limit_reached max_ticks s"
proof (cases "at_shutdown a \<or> tick_limit_reached max_ticks s")
  case True
  note w = assms(1) [unfolded waiting_def]
  show thesis
  proof (cases "at_shutdown a")
    case True
    with w stopped show thesis
      by (simp add: reconcile_loop_body_def try_graceful_release_def stop_def waiting_def)
  next
    case False
    with \<open>at_shutdown a \<or> tick_limit_reached max_ticks s\<close> assms(1) stopped show thesis
      by (simp add: reconcile_loop_body_def stop_def)
  qed
next
  case False
  with assms(3) obtain snap where sees: "sees W (rc_lock_pda cfg) a snap l"
    and ref: "lead_refused me l (best_slot_or_zero snap)" by blast
  note w = assms(1) [unfolded waiting_def]
  let ?s1 = "reconcile_step W cfg (at_fetcher a) s"
  have s1: "mp_signer (rs_policy ?s1) = me" "mp_inner (rs_policy ?s1) = l" "rs_leader_builder ?s1 = lb"
      "rs_sent ?s1 = []" "rs_ticks ?s1 = rs_ticks s"
    using w assms(2) sees
    by (auto simp: reconcile_step_def sees_def reconcile_def is_due_def split: option.splits)
  obtain q where hb: "try_heartbeat me (best_slot_or_zero snap) l = (l, q)" "\<not> is_leader q"
    using refused_heartbeat [OF ref] by blast
  have pol: "policy_should_submit (best_slot_or_zero snap) (rs_policy ?s1) = (rs_policy ?s1, False)"
    using hb s1 by (simp add: policy_should_submit_def)
  let ?s2 = "?s1\<lparr>rs_metrics := set_leader_status StatusStandby (rs_metrics ?s1), rs_was_leader := False\<rparr>"
  have run: "reconcile_loop_body W submit cfg max_ticks a s = count_tick ?s2"
    using False sees pol by (simp add: reconcile_loop_body_def sees_def Let_def)
  have wait: "waiting me l lb ?s2" "waiting me l lb (?s2\<lparr>rs_ticks := t\<rparr>)" for t
    using s1 by (simp_all add: waiting_def)
  show thesis
  proof (cases "rs_ticks s + 1 < 2 ^ 64")
    case True
    then have "count_tick ?s2 = (?s2\<lparr>rs_ticks := rs_ticks s + 1\<rparr>, Continue)"
      using s1 by (simp add: count_tick_def plus_w_def)
    with run wait(2) False waits show thesis by simp
  next
    case over: False
    then have "count_tick ?s2 = (?s2, Aborts ''attempt to add with overflow'')"
      using s1 by (simp add: count_tick_def plus_w_def)
    with run wait(1) False over overflow show thesis by simp
  qed
qed

lemma standby_keeps:
  assumes "waiting me l lb s" and "rc_reconcile_every cfg = Some every"
    and "at_shutdown a \<or> (\<exists>snap. sees W (rc_lock_pda cfg) a snap l \<and> lead_refused me l (best_slot_or_zero snap))"
    and "reconcile_loop_body W submit cfg max_ticks a s = (s1, fl)"
  shows "waiting me l lb s1"
  by (rule standby_iteration [OF assms(1-3), of submit max_ticks]) (use assms(4) in auto)

lemma standby_run:
  assumes "rc_reconcile_every cfg = Some every"
    and "\<And>i. at_shutdown (env i) \<or> (\<exists>snap. sees W (rc_lock_pda cfg) (env i) snap l
           \<and> lead_refused (mp_signer policy) l (best_slot_or_zero snap))"
    and "run_loop_with_leader_and_rpc_reconcile W submit cfg max_ticks env kb m policy lb = Some y"
  shows "rs_sent (fst y) = [] \<and> rs_leader_builder (fst y) = lb"
proof -
  let ?w = "waiting (mp_signer policy) l lb"
  note keeps = standby_keeps [OF _ assms(1,2)]
  have "?w (fst y)"
  proof (rule run_from_partial [OF assms(3) [unfolded run_loop_with_leader_and_rpc_reconcile_def], where P = "\<lambda>i. ?w"])
    show "?w (start_state kb m policy lb)" by (simp add: waiting_def start_state_def)
  qed (use keeps in auto)
  then show ?thesis by (simp add: waiting_def)
qed

lemma standby_reaches_limit:
  assumes "rc_reconcile_every cfg = Some every" and "n < 2 ^ 64"
    and "\<And>i. \<not> at_shutdown (env i) \<and> (\<exists>snap. sees W (rc_lock_pda cfg) (env i) snap l
           \<and> lead_refused (mp_signer policy) l (best_slot_or_zero snap))"
  shows "\<exists>s. run_loop_with_leader_and_rpc_reconcile W submit cfg (Some n) env kb m policy lb
      = Some (s, Ok \<lparr>ro_reason = TickLimitReached, ro_ticks = n, ro_error = None\<rparr>)
    \<and> rs_sent s = [] \<and> rs_leader_builder s = lb"
proof -
  let ?w = "waiting (mp_signer policy) l lb"
  let ?body = "reconcile_loop_body W submit cfg (Some n)"
  have "\<exists>s1. run_from ?body env i s = Some (s1, Ok \<lparr>ro_reason = TickLimitReached, ro_ticks = n, ro_error = None\<rparr>) \<and> ?w s1"
    if "?w s" "rs_ticks s \<le> n" for i s
    using that
  proof (induction "n - rs_ticks s" arbitrary: i s rule: less_induct)
    case less
    have "at_shutdown (env i) \<or> (\<exists>snap. sees W (rc_lock_pda cfg) (env i) snap l
        \<and> lead_refused (mp_signer policy) l (best_slot_or_zero snap))" using assms(3) [of i] by blast
    from less(2) assms(1) this show ?case
    proof (cases rule: standby_iteration [where submit = submit and max_ticks = "Some n"])
      case (stopped s1 out)
      with assms(3) [of i] less(3) have "s1 = s" "out = \<lparr>ro_reason = TickLimitReached, ro_ticks = n, ro_error = None\<rparr>"
        by (auto simp: tick_limit_reached_def)
      with stopped less(2) run_from_Return [of ?body env i s s1 out] show ?thesis by auto
    next
      case (waits s1)
      then have "rs_ticks s1 \<le> n" "n - rs_ticks s1 < n - rs_ticks s" by (auto simp: tick_limit_reached_def)
      from less(1) [OF this(2) waits(2) this(1)] show ?thesis
        using run_from_Continue [of ?body env i s s1] waits(1) by simp
    next
      case (overflow s1 msg)
      with assms(2) less(3) show ?thesis by (simp add: tick_limit_reached_def)
    qed
  qed
  from this [of "start_state kb m policy lb" 0] show ?thesis
    by (auto simp: run_loop_with_leader_and_rpc_reconcile_def waiting_def start_state_def)
qed

section \<open>Leading\<close>

lemma count_tick_keeps:
  "count_tick s = (s1, fl) \<Longrightarrow> rs_sent s1 = rs_sent s \<and> rs_policy s1 = rs_policy s
     \<and> rs_leader_builder s1 = rs_leader_builder s \<and> rs_metrics s1 = rs_metrics s"
  by (auto simp: count_tick_def split: sum.splits)

lemma leader_tick_keeps:
  assumes "leader_tick W snap a s = (s1, fl)"
  shows "rs_policy s1 = rs_policy s \<and> rs_leader_builder s1 = rs_leader_builder s
    \<and> km_leader_status (rs_metrics s1) = km_leader_status (rs_metrics s)"
proof (cases "tick_with_snap W snap (at_builder a) (rs_bot s)")
  case (Pair kb r)
  show ?thesis
  proof (cases r)
    case (Inl f)
    then show ?thesis using assms Pair
      by (auto simp: leader_tick_def after_error_def observe_snapshot_error_def Let_def split: failure.splits)
  next
    case (Inr x)
    then show ?thesis using assms Pair
      by (cases x) (auto simp: leader_tick_def after_tick_def set_vol_samples_def observe_tick_def dest!: count_tick_keeps)
  qed
qed

lemma heartbeat_step_keeps:
  "heartbeat_step W submit cfg slot s = Inr s1 \<Longrightarrow> rs_sent s1 = rs_sent s \<and> rs_policy s1 = rs_policy s
     \<and> rs_metrics s1 = rs_metrics s"
proof -
  assume step: "heartbeat_step W submit cfg slot s = Inr s1"
  have sent: "rs_sent s1 = rs_sent s \<and> rs_policy s1 = rs_policy s \<and> rs_metrics s1 = rs_metrics s"
    if "(case submit ix (rs_leader_builder s) of
           (l, Inr sig) \<Rightarrow> Inr (s\<lparr>rs_leader_builder := l, rs_last_heartbeat := Some (rs_ticks s)\<rparr>)
         | (l, Inl (Failed e)) \<Rightarrow> Inr (s\<lparr>rs_leader_builder := l\<rparr>)
         | (l, Inl (Panicked msg)) \<Rightarrow> Inl (Panicked msg)) = (Inr s1 :: (unit, _) result)" for ix
    using that by (auto split: prod.splits sum.splits failure.splits)
  show ?thesis
  proof (cases "rc_heartbeat_every cfg")
    case None
    with step show ?thesis by (simp add: heartbeat_step_def)
  next
    case (Some every)
    with step sent show ?thesis by (cases "\<not> rs_was_leader s \<or> is_due (rs_last_heartbeat s) (rs_ticks s) every")
        (auto simp del: split_paired_All simp: heartbeat_step_def)
  qed
qed

lemma reconcile_step_keeps:
  "mp_signer (rs_policy (reconcile_step W cfg fetcher s)) = mp_signer (rs_policy s)"
  "rs_sent (reconcile_step W cfg fetcher s) = rs_sent s"
  "rs_leader_builder (reconcile_step W cfg fetcher s) = rs_leader_builder s"
  by (auto simp: reconcile_step_def reconcile_def split: option.splits sum.splits failure.splits leader_reconcile_error.splits)

lemma sending_leads:
  assumes "reconcile_loop_body W submit cfg max_ticks a s = (s1, fl)" and "\<not> at_shutdown a"
    and "rs_sent s1 \<noteq> rs_sent s \<or> rs_leader_builder s1 \<noteq> rs_leader_builder s"
  shows "\<exists>snap l. snapshot_refresh (bw_types W) (at_fetcher a) (bw_context W) default_snapshot_config = Ok snap
    \<and> l = mp_inner (rs_policy (reconcile_step W cfg (at_fetcher a) s))
    \<and> \<not> lead_refused (mp_signer (rs_policy s)) l (best_slot_or_zero snap)
    \<and> mp_inner (rs_policy s1) = l\<lparr>has_leader := True, current_leader := mp_signer (rs_policy s),
          last_heartbeat_slot := best_slot_or_zero snap\<rparr>
    \<and> km_leader_status (rs_metrics s1) = 1"
proof -
  have err: False if "after_error is_transient (rs_bot s) f s = (s1, fl)" for f
    using that assms(3) by (auto simp: after_error_def Let_def split: failure.splits if_splits)
  obtain snap where snap: "snapshot_refresh (bw_types W) (at_fetcher a) (bw_context W) default_snapshot_config = Inr snap"
    and lim: "\<not> tick_limit_reached max_ticks s"
    using assms err by (cases "map_err BotSnapshot (snapshot_refresh (bw_types W) (at_fetcher a) (bw_context W) default_snapshot_config)")
      (auto simp: reconcile_loop_body_def split: if_splits)
  define sr where "sr = reconcile_step W cfg (at_fetcher a) s"
  define l where "l = mp_inner (rs_policy sr)"
  let ?me = "mp_signer (rs_policy s)" and ?slot = "best_slot_or_zero snap"
  have me: "mp_signer (rs_policy sr) = ?me" and same: "rs_sent sr = rs_sent s" "rs_leader_builder sr = rs_leader_builder s"
    by (simp_all add: sr_def reconcile_step_keeps)
  show ?thesis
  proof (cases "lead_refused ?me l ?slot")
    case True
    then obtain q where "try_heartbeat ?me ?slot l = (l, q)" "\<not> is_leader q" using refused_heartbeat by blast
    then have "policy_should_submit ?slot (rs_policy sr) = (rs_policy sr, False)"
      by (simp add: policy_should_submit_def me l_def)
    with assms(1,2) snap lim have "count_tick (sr\<lparr>rs_metrics := set_leader_status StatusStandby (rs_metrics sr),
        rs_was_leader := False\<rparr>) = (s1, fl)"
      by (simp add: reconcile_loop_body_def Let_def sr_def)
    from count_tick_keeps [OF this] same assms(3) show ?thesis by simp
  next
    case False
    then obtain q where hb: "try_heartbeat ?me ?slot l = (l\<lparr>has_leader := True, current_leader := ?me,
        last_heartbeat_slot := ?slot\<rparr>, q)" "is_leader q" using accepted_heartbeat by blast
    define p where "p = (rs_policy sr)\<lparr>mp_inner := l\<lparr>has_leader := True, current_leader := ?me, last_heartbeat_slot := ?slot\<rparr>\<rparr>"
    have "policy_should_submit ?slot (rs_policy sr) = (p, True)"
      using hb by (simp add: policy_should_submit_def me l_def [symmetric] p_def)
    then have run: "(case heartbeat_step W submit cfg ?slot (sr\<lparr>rs_policy := p,
          rs_metrics := set_leader_status StatusLeader (rs_metrics sr)\<rparr>) of
          Inl (Panicked msg) \<Rightarrow> (sr\<lparr>rs_policy := p, rs_metrics := set_leader_status StatusLeader (rs_metrics sr)\<rparr>, Aborts msg)
        | Inl (Failed u) \<Rightarrow> (sr\<lparr>rs_policy := p, rs_metrics := set_leader_status StatusLeader (rs_metrics sr)\<rparr>, Continue)
        | Inr s3 \<Rightarrow> leader_tick W snap a (s3\<lparr>rs_was_leader := True\<rparr>)) = (s1, fl)"
      using assms(1,2) snap lim
      by (simp add: reconcile_loop_body_def Let_def sr_def split: sum.splits failure.splits)
    have "rs_policy s1 = p \<and> km_leader_status (rs_metrics s1) = 1"
      using run by (auto simp: set_leader_status_def leader_status_u8_def split: sum.splits failure.splits
          dest!: leader_tick_keeps heartbeat_step_keeps)
    with False snap show ?thesis by (auto simp: p_def l_def sr_def)
  qed
qed

section \<open>An account with bytes to spare\<close>

lemma unread_market_stops:
  assumes "fetch_account (at_fetcher a) (mx_market (bw_context W)) = Ok (Some raw)"
    and "decode_anchor_account (onchain_market_codec (bw_types W)) raw = Err e"
  shows "snapshot_refresh (bw_types W) (at_fetcher a) (bw_context W) cfg
      = Err (SnapDecode ''market'' (mx_market (bw_context W)) e)"
  using assms by (simp add: snapshot_refresh_def)

lemma unread_market_ends_run:
  assumes "fetch_account (at_fetcher (env 0)) (mx_market (bw_context W)) = Ok (Some raw)"
    and "decode_anchor_account (onchain_market_codec (bw_types W)) raw = Err e"
    and "\<not> at_shutdown (env 0)" and "max_ticks \<noteq> Some 0"
  defines "out \<equiv> \<lparr>ro_reason = PermanentError, ro_ticks = 0,
       ro_error = Some (BotSnapshot (SnapDecode ''market'' (mx_market (bw_context W)) e))\<rparr>"
  shows "\<exists>s. run_loop_with_factory W max_ticks env kb m = Some (s, Ok out) \<and> rs_sent s = []"
    and "\<exists>s. run_loop_with_leader_and_rpc_reconcile W submit cfg max_ticks env kb m policy lb = Some (s, Ok out)
      \<and> rs_sent s = [] \<and> rs_leader_builder s = lb"
proof -
  note stop = unread_market_stops [OF assms(1,2)]
  show "\<exists>s. run_loop_with_factory W max_ticks env kb m = Some (s, Ok out) \<and> rs_sent s = []"
    unfolding run_loop_with_factory_def
    by (subst run_from.simps) (use assms(4) in \<open>auto simp: factory_loop_body_def assms(3) tick_limit_reached_def bot_tick_def stop
        out_def start_state_def after_error_def is_transient_def stop_def Let_def split: option.splits\<close>)
  show "\<exists>s. run_loop_with_leader_and_rpc_reconcile W submit cfg max_ticks env kb m policy lb = Some (s, Ok out)
      \<and> rs_sent s = [] \<and> rs_leader_builder s = lb"
    unfolding run_loop_with_leader_and_rpc_reconcile_def
    by (subst run_from.simps) (use assms(4) in \<open>auto simp: reconcile_loop_body_def assms(3) tick_limit_reached_def stop out_def
        start_state_def after_error_def is_transient_def stop_def Let_def split: option.splits\<close>)
qed

end
