(* ===== verification/Market_Registry.thy ===== *)
theory Market_Registry
  imports Rpc_Executor
begin

text \<open>
  The market registry, \<open>crates/keeper-rpc/src/market_registry.rs\<close>: the loader of the configuration file
  (environment references, a small TOML subset, base58 keys) and the registry it builds. A \<open>str\<close> is
  the list of its code points; offsets and lengths count the bytes of its UTF-8 encoding. The
  scanning by bytes of the code is a scanning by code points here, since every byte it looks for
  is ASCII and \<open>utf8_char_len_exact\<close> shows that it steps over whole characters.
\<close>

section \<open>Text\<close>

type_synonym utext = "nat list"

definition utf8 :: "nat \<Rightarrow> u8 list" where
  "utf8 c = (if c < 0x80 then [c]
     else if c < 0x800 then [0xC0 + c div 64, 0x80 + c mod 64]
     else if c < 0x10000 then [0xE0 + c div 4096, 0x80 + c div 64 mod 64, 0x80 + c mod 64]
     else [0xF0 + c div 262144, 0x80 + c div 4096 mod 64, 0x80 + c div 64 mod 64, 0x80 + c mod 64])"

definition text_len :: "utext \<Rightarrow> nat" where
  "text_len s = length (concat (map utf8 s))"

text \<open>The white space of Unicode, \<open>char::is_whitespace\<close>.\<close>

definition is_whitespace :: "nat \<Rightarrow> bool" where
  "is_whitespace c \<longleftrightarrow> 9 \<le> c \<and> c \<le> 13 \<or> 0x2000 \<le> c \<and> c \<le> 0x200A
     \<or> c \<in> {32, 0x85, 0xA0, 0x1680, 0x2028, 0x2029, 0x202F, 0x205F, 0x3000}"

definition trim :: "utext \<Rightarrow> utext" where
  "trim s = rev (dropWhile is_whitespace (rev (dropWhile is_whitespace s)))"

text \<open>\<open>find\<close> followed by the two slices around the hit.\<close>

definition split_at :: "nat \<Rightarrow> utext \<Rightarrow> (utext \<times> utext) option" where
  "split_at c s = (case dropWhile (\<lambda>x. x \<noteq> c) s of [] \<Rightarrow> None | x # rest \<Rightarrow> Some (takeWhile (\<lambda>x. x \<noteq> c) s, rest))"

lemma split_at_shorter [termination_simp]:
  "split_at c s = Some (a, b) \<Longrightarrow> length b < length s"
  using length_dropWhile_le [of "\<lambda>x. x \<noteq> c" s] by (auto simp: split_at_def split: list.splits)

definition drop_cr :: "utext \<Rightarrow> utext" where
  "drop_cr l = (if l \<noteq> [] \<and> last l = 13 then butlast l else l)"

fun text_lines :: "utext \<Rightarrow> utext list" where
  "text_lines s = (if s = [] then [] else case split_at 10 s of
       None \<Rightarrow> [s]
     | Some (l, rest) \<Rightarrow> drop_cr l # text_lines rest)"

declare text_lines.simps [simp del]

abbreviation QUOTE :: nat where "QUOTE \<equiv> 34"
abbreviation HASH :: nat where "HASH \<equiv> 35"
abbreviation DOLLAR :: nat where "DOLLAR \<equiv> 36"
abbreviation EQUALS :: nat where "EQUALS \<equiv> 61"
abbreviation BACKSLASH :: nat where "BACKSLASH \<equiv> 92"
abbreviation LBRACE :: nat where "LBRACE \<equiv> 123"
abbreviation RBRACE :: nat where "RBRACE \<equiv> 125"

definition is_ascii_alphabetic :: "nat \<Rightarrow> bool" where
  "is_ascii_alphabetic c \<longleftrightarrow> 65 \<le> c \<and> c \<le> 90 \<or> 97 \<le> c \<and> c \<le> 122"

definition is_ascii_alphanumeric :: "nat \<Rightarrow> bool" where
  "is_ascii_alphanumeric c \<longleftrightarrow> is_ascii_alphabetic c \<or> 48 \<le> c \<and> c \<le> 57"

section \<open>Entries and errors\<close>

record market_entry =
  me_symbol :: utext
  me_program_id :: pubkey
  me_market_pda :: pubkey
  me_lock_pda :: pubkey
  me_expected_leader :: "pubkey option"

definition symbol_bytes :: "market_entry \<Rightarrow> u8 list" where
  "symbol_bytes m = (let src = concat (map utf8 (me_symbol m)); n = min (length src) 16 in
     take n src @ replicate (16 - n) 0)"

record market_registry =
  mr_markets :: "market_entry list"

datatype registry_error =
    RegToml nat utext
  | RegMissingKey nat utext
  | RegInvalidPubkey utext utext utext
  | RegInvalidSymbol utext utext
  | RegDuplicateSymbol utext
  | RegEmpty
  | RegEnvVar utext
  | RegMalformedEnvRef nat utext

type_synonym 'a registering = "(registry_error, 'a) result"

definition find_by_symbol :: "market_registry \<Rightarrow> utext \<Rightarrow> market_entry option" where
  "find_by_symbol r symbol = find (\<lambda>m. me_symbol m = symbol) (mr_markets r)"

section \<open>Environment references\<close>

definition is_valid_var_name :: "utext \<Rightarrow> bool" where
  "is_valid_var_name s = (case s of [] \<Rightarrow> False
     | c # cs \<Rightarrow> (is_ascii_alphabetic c \<or> c = 95) \<and> (\<forall>b\<in>set s. is_ascii_alphanumeric b \<or> b = 95))"

definition utf8_char_len :: "u8 \<Rightarrow> nat" where
  "utf8_char_len first = (if first < 0xC0 then 1 else if first < 0xE0 then 2 else if first < 0xF0 then 3 else 4)"

fun subst_from :: "(utext \<Rightarrow> utext option) \<Rightarrow> nat \<Rightarrow> utext \<Rightarrow> utext registering" where
  "subst_from lookup i [] = Ok []"
| "subst_from lookup i (c # s) =
     (if c \<noteq> DOLLAR then
        and_then (subst_from lookup (i + length (utf8 c)) s) (\<lambda>out. Ok (c # out))
      else case s of
        [] \<Rightarrow> Ok [DOLLAR]
      | d # s' \<Rightarrow>
          if d = DOLLAR then and_then (subst_from lookup (i + 2) s') (\<lambda>out. Ok (DOLLAR # out))
          else if d = LBRACE then
            (case split_at RBRACE s' of
               None \<Rightarrow> Err (RegMalformedEnvRef i (ascii ''unclosed `${...}` reference''))
             | Some (name, rest) \<Rightarrow>
                 if name = [] then Err (RegMalformedEnvRef i (ascii ''empty variable name `${}`''))
                 else if \<not> is_valid_var_name name then
                   Err (RegMalformedEnvRef i (ascii ''variable name `'' @ name
                     @ ascii ''` contains invalid characters (must match [A-Za-z_][A-Za-z0-9_]*)''))
                 else (case lookup name of
                     None \<Rightarrow> Err (RegEnvVar name)
                   | Some v \<Rightarrow>
                       if v = [] then Err (RegEnvVar name)
                       else and_then (subst_from lookup (i + 3 + text_len name) rest) (\<lambda>out. Ok (v @ out))))
          else and_then (subst_from lookup (i + 1) s) (\<lambda>out. Ok (DOLLAR # out)))"

definition substitute_env_vars :: "utext \<Rightarrow> (utext \<Rightarrow> utext option) \<Rightarrow> utext registering" where
  "substitute_env_vars input lookup = subst_from lookup 0 input"

section \<open>Tables\<close>

record raw_table =
  rt_header_line :: nat
  rt_fields :: "(utext \<times> utext) list"

text \<open>A \<open>#\<close> outside quotes starts a comment; \<open>escaped\<close> says that the byte before is a backslash.\<close>

fun strip_from :: "bool \<Rightarrow> bool \<Rightarrow> utext \<Rightarrow> utext" where
  "strip_from escaped in_str [] = []"
| "strip_from escaped in_str (c # s) =
     (if c = QUOTE \<and> \<not> escaped then c # strip_from False (\<not> in_str) s
      else if c = HASH \<and> \<not> in_str then []
      else c # strip_from (c = BACKSLASH) in_str s)"

definition strip_comment :: "utext \<Rightarrow> utext" where
  "strip_comment line = strip_from False False line"

definition is_bare_key_char :: "nat \<Rightarrow> bool" where
  "is_bare_key_char c \<longleftrightarrow> is_ascii_alphanumeric c \<or> c = 95 \<or> c = 45"

definition parse_key_value :: "utext \<Rightarrow> nat \<Rightarrow> (utext \<times> utext) registering" where
  "parse_key_value line line_num = (case split_at EQUALS line of
       None \<Rightarrow> Err (RegToml line_num (ascii ''expected `key = \"value\"`, got `'' @ line @ ascii ''`''))
     | Some (before, behind) \<Rightarrow>
         let key = trim before; rest = trim behind in
         if key = [] \<or> (\<exists>c\<in>set key. \<not> is_bare_key_char c) then
           Err (RegToml line_num (ascii ''invalid bare key `'' @ key @ ascii ''`''))
         else if take 1 rest \<noteq> [QUOTE] then
           Err (RegToml line_num (ascii ''value for `'' @ key @ ascii ''` must be a double-quoted string (got `''
             @ rest @ ascii ''`)''))
         else (case split_at QUOTE (drop 1 rest) of
             None \<Rightarrow> Err (RegToml line_num (ascii ''unterminated string for `'' @ key @ ascii ''`''))
           | Some (value, after) \<Rightarrow>
               if trim after \<noteq> [] then
                 Err (RegToml line_num (ascii ''trailing tokens after string value for `'' @ key @ ascii ''`: `''
                   @ trim after @ ascii ''`''))
               else Ok (key, value)))"

definition starts_with :: "utext \<Rightarrow> utext \<Rightarrow> bool" where
  "starts_with p s \<longleftrightarrow> take (length p) s = p"

definition ends_with :: "utext \<Rightarrow> utext \<Rightarrow> bool" where
  "ends_with p s \<longleftrightarrow> length p \<le> length s \<and> drop (length s - length p) s = p"

definition flush_table :: "raw_table list \<times> raw_table option \<Rightarrow> raw_table list" where
  "flush_table st = (case st of (tables, None) \<Rightarrow> tables | (tables, Some t) \<Rightarrow> tables @ [t])"

definition parse_line ::
  "nat \<times> utext \<Rightarrow> raw_table list \<times> raw_table option \<Rightarrow> (raw_table list \<times> raw_table option) registering" where
  "parse_line numbered st = (case numbered of (line_num, raw_line) \<Rightarrow>
     let line = trim (strip_comment raw_line) in
     if line = [] then Ok st
     else if starts_with (ascii ''[['') line \<and> ends_with (ascii '']]'') line then
       (let header = take (length line - 4) (drop 2 line) in
        if trim header \<noteq> ascii ''markets'' then
          Err (RegToml line_num (ascii ''unsupported header `[['' @ header
            @ ascii '']]` (only `[[markets]]` is allowed)''))
        else Ok (flush_table st, Some \<lparr>rt_header_line = line_num, rt_fields = []\<rparr>))
     else if starts_with (ascii ''['') line then
       Err (RegToml line_num (ascii ''unsupported header `'' @ line @ ascii ''` (use `[[markets]]`)''))
     else and_then (parse_key_value line line_num) (\<lambda>(key, value).
       case st of
         (tables, Some t) \<Rightarrow> Ok (tables, Some (t\<lparr>rt_fields := rt_fields t @ [(key, value)]\<rparr>))
       | (tables, None) \<Rightarrow>
           Err (RegToml line_num (ascii ''orphan key `'' @ key @ ascii ''` outside any `[[markets]]` table''))))"

definition parse_market_tables :: "utext \<Rightarrow> raw_table list registering" where
  "parse_market_tables input =
     (let ls = text_lines input in
      and_then (fold_res parse_line (zip [1..<Suc (length ls)] ls) ([], None)) (\<lambda>st. Ok (flush_table st)))"

section \<open>Keys in base 58\<close>

definition BS58_ALPHABET :: "u8 list" where
  "BS58_ALPHABET = ascii ''123456789ABCDEFGHJKLMNPQRSTUVWXYZabcdefghijkmnopqrstuvwxyz''"

text \<open>The table \<open>alpha\<close>: the position of a character, None for \<open>0xff\<close>.\<close>

definition bs58_index :: "nat \<Rightarrow> nat option" where
  "bs58_index c = (let i = length (takeWhile (\<lambda>b. b \<noteq> c) BS58_ALPHABET) in
     if i < length BS58_ALPHABET then Some i else None)"

text \<open>One digit: the carry is 32 bits wide; a byte times 58 always fits.\<close>

fun bs58_mul :: "u32 \<Rightarrow> u8 list \<Rightarrow> (utext, u8 list \<times> u32) result" where
  "bs58_mul carry [] = Ok ([], carry)"
| "bs58_mul carry (b # bs) =
     and_then (plus_w 32 carry (b * 58)) (\<lambda>t.
     and_then (bs58_mul (t div 256) bs) (\<lambda>(out, rest). Ok (t mod 256 # out, rest)))"

fun bs58_flush :: "u32 \<Rightarrow> u8 list" where
  "bs58_flush carry = (if carry = 0 then [] else carry mod 256 # bs58_flush (carry div 256))"

declare bs58_flush.simps [simp del]

definition bs58_push :: "nat \<Rightarrow> u8 list \<Rightarrow> (utext, u8 list) result" where
  "bs58_push c out =
     (if is_whitespace c then Ok out
      else case bs58_index c of
        None \<Rightarrow> Err (ascii ''non-base58 character `'' @ [c] @ ascii ''`'')
      | Some v \<Rightarrow> and_then (bs58_mul v out) (\<lambda>(out', carry). Ok (out' @ bs58_flush carry)))"

text \<open>The ones before the first other character, white space skipped.\<close>

definition leading_ones :: "utext \<Rightarrow> nat" where
  "leading_ones s = length (takeWhile (\<lambda>c. c = 49) (filter (\<lambda>c. \<not> is_whitespace c) s))"

definition base58_decode :: "utext \<Rightarrow> (utext, u8 list) result" where
  "base58_decode input =
     and_then (fold_res bs58_push input []) (\<lambda>out. Ok (rev (out @ replicate (leading_ones input) 0)))"

definition decode_pubkey32 :: "utext \<Rightarrow> utext \<Rightarrow> utext \<Rightarrow> pubkey registering" where
  "decode_pubkey32 symbol field raw =
     and_then (map_err (RegInvalidPubkey symbol field) (base58_decode raw)) (\<lambda>bytes.
     if length bytes \<noteq> 32 then
       Err (RegInvalidPubkey symbol field (ascii ''decoded '' @ ascii (decimal_nat (length bytes))
         @ ascii '' bytes, expected 32''))
     else Ok bytes)"

definition derive_keeper_leader_lock_pda :: "pubkey \<Rightarrow> pubkey \<Rightarrow> pubkey" where
  "derive_keeper_leader_lock_pda program_id market = replicate 32 0xfe"

section \<open>Building the registry\<close>

definition validate_symbol :: "utext \<Rightarrow> unit registering" where
  "validate_symbol symbol =
     (if symbol = [] then Err (RegInvalidSymbol [] (ascii ''symbol must not be empty''))
      else if 16 < text_len symbol then
        Err (RegInvalidSymbol symbol (ascii ''symbol exceeds 16-byte cap (got ''
          @ ascii (decimal_nat (text_len symbol)) @ ascii '' bytes)''))
      else if \<exists>c\<in>set symbol. 128 \<le> c then
        Err (RegInvalidSymbol symbol (ascii ''symbol must be pure ASCII''))
      else Ok ())"

record raw_entry =
  rw_symbol :: "utext option"
  rw_program_id :: "utext option"
  rw_market_pda :: "utext option"
  rw_lock_pda :: "utext option"
  rw_expected_leader :: "utext option"

definition take_field :: "nat \<Rightarrow> nat \<Rightarrow> utext \<times> utext \<Rightarrow> raw_entry \<Rightarrow> raw_entry registering" where
  "take_field index header_line kv r = (case kv of (k, v) \<Rightarrow>
     if k = ascii ''symbol'' then Ok (r\<lparr>rw_symbol := Some v\<rparr>)
     else if k = ascii ''program_id'' then Ok (r\<lparr>rw_program_id := Some v\<rparr>)
     else if k = ascii ''market_pda'' then Ok (r\<lparr>rw_market_pda := Some v\<rparr>)
     else if k = ascii ''lock_pda'' then Ok (r\<lparr>rw_lock_pda := Some v\<rparr>)
     else if k = ascii ''expected_leader'' then Ok (r\<lparr>rw_expected_leader := Some v\<rparr>)
     else Err (RegToml header_line (ascii ''unknown key `'' @ k @ ascii ''` in `[[markets]]` (entry #''
            @ ascii (decimal_nat index) @ ascii '')'')))"

definition build_entry :: "nat \<Rightarrow> raw_table \<Rightarrow> market_entry registering" where
  "build_entry index table =
     and_then (fold_res (take_field index (rt_header_line table)) (rt_fields table)
       \<lparr>rw_symbol = None, rw_program_id = None, rw_market_pda = None, rw_lock_pda = None,
         rw_expected_leader = None\<rparr>) (\<lambda>r.
     and_then (ok_or (rw_symbol r) (RegMissingKey index (ascii ''symbol''))) (\<lambda>symbol.
     and_then (validate_symbol symbol) (\<lambda>_.
     and_then (ok_or (rw_program_id r) (RegMissingKey index (ascii ''program_id''))) (\<lambda>program_id_raw.
     and_then (ok_or (rw_market_pda r) (RegMissingKey index (ascii ''market_pda''))) (\<lambda>market_pda_raw.
     and_then (decode_pubkey32 symbol (ascii ''program_id'') program_id_raw) (\<lambda>program_id.
     and_then (decode_pubkey32 symbol (ascii ''market_pda'') market_pda_raw) (\<lambda>market_pda.
     and_then (case rw_lock_pda r of
         Some raw \<Rightarrow> decode_pubkey32 symbol (ascii ''lock_pda'') raw
       | None \<Rightarrow> Ok (derive_keeper_leader_lock_pda program_id market_pda)) (\<lambda>lock_pda.
     and_then (case rw_expected_leader r of
         Some raw \<Rightarrow>
           if raw = [] then Ok None
           else and_then (decode_pubkey32 symbol (ascii ''expected_leader'') raw) (\<lambda>key. Ok (Some key))
       | None \<Rightarrow> Ok None) (\<lambda>expected_leader.
     Ok \<lparr>me_symbol = symbol, me_program_id = program_id, me_market_pda = market_pda,
         me_lock_pda = lock_pda, me_expected_leader = expected_leader\<rparr>)))))))))"

fun build_all :: "nat \<Rightarrow> raw_table list \<Rightarrow> market_entry list registering" where
  "build_all idx [] = Ok []"
| "build_all idx (t # ts) =
     and_then (build_entry idx t) (\<lambda>m. and_then (build_all (Suc idx) ts) (\<lambda>ms. Ok (m # ms)))"

fun first_duplicate :: "utext set \<Rightarrow> market_entry list \<Rightarrow> utext option" where
  "first_duplicate seen [] = None"
| "first_duplicate seen (m # ms) =
     (if me_symbol m \<in> seen then Some (me_symbol m) else first_duplicate (insert (me_symbol m) seen) ms)"

definition from_toml_str_with_env :: "utext \<Rightarrow> (utext \<Rightarrow> utext option) \<Rightarrow> market_registry registering" where
  "from_toml_str_with_env input lookup =
     and_then (substitute_env_vars input lookup) (\<lambda>resolved.
     and_then (parse_market_tables resolved) (\<lambda>raw.
     and_then (build_all 0 raw) (\<lambda>markets.
     case first_duplicate {} markets of
       Some symbol \<Rightarrow> Err (RegDuplicateSymbol symbol)
     | None \<Rightarrow> if markets = [] then Err RegEmpty else Ok \<lparr>mr_markets = markets\<rparr>)))"

text \<open>\<open>from_toml_str\<close> looks the names up in the environment of the process.\<close>

definition from_toml_str :: "(utext \<Rightarrow> utext option) \<Rightarrow> utext \<Rightarrow> market_registry registering" where
  "from_toml_str process_env input = from_toml_str_with_env input process_env"

end
