(* ===== verification/Multi_Market.thy ===== *)
theory Multi_Market
  imports Keeper_Bot Market_Registry
begin

text \<open>
  The multi-market loop, \<open>crates/keeper-bot/src/multi.rs\<close>: one slot per market, the step of a slot, a pass
  over all slots, and the loop over passes with its release at shutdown and its outcome. What a
  pass meets is a \<open>market_pass\<close>: whether the shutdown flag is set and, for the slot at each
  position, the attempt it makes. A panic ends the process.
\<close>

section \<open>Slots\<close>

text \<open>\<open>ms_sent\<close> is not a field of the code: it collects the builders of the ticks that ran.\<close>

record ('f, 'b) market_slot =
  ms_label :: utext
  ms_ctx :: market_context
  ms_rpc_cfg :: reconcile_config
  ms_bot :: "'f keeper_bot"
  ms_metrics :: keeper_metrics
  ms_policy :: mirror_policy
  ms_ticks :: u64
  ms_last_reconcile_tick :: "u64 option"
  ms_last_heartbeat_tick :: "u64 option"
  ms_was_leader_last_tick :: bool
  ms_finished :: "run_outcome option"
  ms_sent :: "'b list"

definition add_slot :: "('f, 'b) market_slot \<Rightarrow> ('f, 'b) market_slot list \<Rightarrow> (utext, ('f, 'b) market_slot list) result" where
  "add_slot slot slots =
     (if \<exists>s\<in>set slots. ms_label s = ms_label slot
      then Err (ascii ''duplicate market label '' @ [39] @ ms_label slot @ [39])
      else Ok (slots @ [slot]))"

fun add_entries ::
  "(market_entry \<Rightarrow> (utext, ('f, 'b) market_slot) result) \<Rightarrow> market_entry list \<Rightarrow> ('f, 'b) market_slot list
   \<Rightarrow> (utext, ('f, 'b) market_slot list) result" where
  "add_entries make_slot [] out = Ok out"
| "add_entries make_slot (entry # entries) out =
     and_then (map_err (\<lambda>e. ascii ''build slot for market `'' @ me_symbol entry @ ascii ''` failed: '' @ e)
                 (make_slot entry)) (\<lambda>slot.
     and_then (map_err (\<lambda>e. ascii ''registry add failed for `'' @ me_symbol entry @ ascii ''`: '' @ e)
                 (add_slot slot out)) (add_entries make_slot entries))"

definition from_config_with ::
  "market_registry \<Rightarrow> (market_entry \<Rightarrow> (utext, ('f, 'b) market_slot) result)
   \<Rightarrow> (utext, ('f, 'b) market_slot list) result" where
  "from_config_with cfg make_slot = add_entries make_slot (mr_markets cfg) []"

section \<open>The step of one slot\<close>

datatype slot_flow = SlotLives | SlotEnds run_outcome | SlotAborts string

definition slot_reconcile ::
  "('f, 'b) bot_world \<Rightarrow> account_fetcher \<Rightarrow> ('f, 'b) market_slot \<Rightarrow> ('f, 'b) market_slot" where
  "slot_reconcile W fetcher slot = (case rc_reconcile_every (ms_rpc_cfg slot) of None \<Rightarrow> slot
     | Some every \<Rightarrow>
         let ticks = ms_ticks slot;
             due = (case ms_last_reconcile_tick slot of None \<Rightarrow> True | Some prev \<Rightarrow> every \<le> ticks - prev) in
         if due then
           (case fetch_keeper_leader_lock (bw_types W) (bw_sha256 W) fetcher (rc_lock_pda (ms_rpc_cfg slot)) of
              Inr chain_lock \<Rightarrow>
                slot\<lparr>ms_policy := reconcile chain_lock (ms_policy slot), ms_last_reconcile_tick := Some ticks\<rparr>
            | Inl (Failed (ReconcileNotFound key)) \<Rightarrow> slot\<lparr>ms_last_reconcile_tick := Some ticks\<rparr>
            | Inl f \<Rightarrow> slot)
         else slot)"

definition slot_heartbeat ::
  "('f, 'b) bot_world \<Rightarrow> 'l leader_builder \<Rightarrow> u64 \<Rightarrow> ('f, 'b) market_slot \<Rightarrow> 'l
   \<Rightarrow> (unit, ('f, 'b) market_slot \<times> 'l) result" where
  "slot_heartbeat W submit_leader_ix current_slot slot l =
     (case rc_heartbeat_every (ms_rpc_cfg slot) of None \<Rightarrow> Ok (slot, l)
      | Some every \<Rightarrow>
          let ticks = ms_ticks slot; just_became_leader = (\<not> ms_was_leader_last_tick slot);
              due = (case ms_last_heartbeat_tick slot of None \<Rightarrow> True | Some prev \<Rightarrow> every \<le> ticks - prev) in
          if just_became_leader \<or> due then
            and_then (build_keeper_leader_heartbeat (bw_borsh W) (bw_sha256 W) (mx_program_id (ms_ctx slot))
                        (mx_market (ms_ctx slot)) (rc_lock_pda (ms_rpc_cfg slot)) (bw_keeper W) current_slot) (\<lambda>ix.
            case submit_leader_ix ix l of
              (l', Inr sig) \<Rightarrow> Ok (slot\<lparr>ms_last_heartbeat_tick := Some ticks\<rparr>, l')
            | (l', Inl (Failed e)) \<Rightarrow> Ok (slot, l')
            | (l', Inl (Panicked msg)) \<Rightarrow> Panic msg)
          else Ok (slot, l))"

definition slot_counts :: "('f, 'b) market_slot \<Rightarrow> 'l \<Rightarrow> ('f, 'b) market_slot \<times> 'l \<times> slot_flow" where
  "slot_counts slot l = (case (plus_w 64 (ms_ticks slot) 1 :: (unit, nat) result) of
       Inl f \<Rightarrow> (slot, l, SlotAborts ''attempt to add with overflow'')
     | Inr t \<Rightarrow> (slot\<lparr>ms_ticks := t\<rparr>, l, SlotLives))"

definition slot_tick ::
  "('f, 'b) bot_world \<Rightarrow> chain_snapshot \<Rightarrow> 'b attempt \<Rightarrow> ('f, 'b) market_slot \<Rightarrow> 'l
   \<Rightarrow> ('f, 'b) market_slot \<times> 'l \<times> slot_flow" where
  "slot_tick W snap a slot l =
     (case tick_with_snap (W\<lparr>bw_context := ms_ctx slot\<rparr>) snap (at_builder a) (ms_bot slot) of
        (kb, Inr (report, builder)) \<Rightarrow>
          slot_counts (slot\<lparr>ms_bot := kb,
            ms_metrics := set_vol_samples (length (ve_samples (bo_vol kb)))
              (observe_tick (bw_floats W) (bw_round_i64 W) report (clamp_ms (at_elapsed_ms a)) (ms_metrics slot)),
            ms_sent := ms_sent slot @ [builder]\<rparr>) l
      | (kb, Inl (Panicked msg)) \<Rightarrow> (slot\<lparr>ms_bot := kb\<rparr>, l, SlotAborts msg)
      | (kb, Inl (Failed e)) \<Rightarrow>
          (slot\<lparr>ms_bot := kb, ms_metrics := observe_snapshot_error (ms_metrics slot)\<rparr>, l,
           SlotEnds \<lparr>ro_reason = PermanentError, ro_ticks = ms_ticks slot, ro_error = Some e\<rparr>))"

definition tick_one_slot ::
  "('f, 'b) bot_world \<Rightarrow> 'l leader_builder \<Rightarrow> 'b attempt \<Rightarrow> ('f, 'b) market_slot \<Rightarrow> 'l
   \<Rightarrow> ('f, 'b) market_slot \<times> 'l \<times> slot_flow" where
  "tick_one_slot W submit_leader_ix a slot l =
     (case map_err BotSnapshot (snapshot_refresh (bw_types W) (at_fetcher a) (ms_ctx slot) default_snapshot_config) of
        Inl (Panicked msg) \<Rightarrow> (slot, l, SlotAborts msg)
      | Inl (Failed bot_err) \<Rightarrow>
          (slot\<lparr>ms_metrics := observe_snapshot_error (ms_metrics slot)\<rparr>, l,
           if is_transient bot_err then SlotLives
           else SlotEnds \<lparr>ro_reason = PermanentError, ro_ticks = ms_ticks slot, ro_error = Some bot_err\<rparr>)
      | Inr snap \<Rightarrow>
          let slot1 = slot_reconcile W (at_fetcher a) slot; current_slot = best_slot_or_zero snap in
          (case policy_should_submit current_slot (ms_policy slot1) of
             (p, False) \<Rightarrow>
               slot_counts (slot1\<lparr>ms_policy := p, ms_metrics := set_leader_status StatusStandby (ms_metrics slot1),
                 ms_was_leader_last_tick := False\<rparr>) l
           | (p, True) \<Rightarrow>
               let slot2 = slot1\<lparr>ms_policy := p, ms_metrics := set_leader_status StatusLeader (ms_metrics slot1)\<rparr> in
               (case slot_heartbeat W submit_leader_ix current_slot slot2 l of
                  Inl (Panicked msg) \<Rightarrow> (slot2, l, SlotAborts msg)
                | Inl (Failed u) \<Rightarrow> (slot2, l, SlotLives)
                | Inr (slot3, l') \<Rightarrow> slot_tick W snap a (slot3\<lparr>ms_was_leader_last_tick := True\<rparr>) l')))"

section \<open>Passes\<close>

record 'b market_pass =
  pa_shutdown :: bool
  pa_attempt :: "nat \<Rightarrow> 'b attempt"

text \<open>One walk over the slots: the slots and builder after it, whether all had finished, and a panic.\<close>

fun walk_slots ::
  "('f, 'b) bot_world \<Rightarrow> 'l leader_builder \<Rightarrow> (nat \<Rightarrow> 'b attempt) \<Rightarrow> nat \<Rightarrow> ('f, 'b) market_slot list \<Rightarrow> 'l
   \<Rightarrow> ('f, 'b) market_slot list \<times> 'l \<times> bool \<times> string option" where
  "walk_slots W submit attempts i [] l = ([], l, True, None)"
| "walk_slots W submit attempts i (slot # slots) l =
     (if ms_finished slot \<noteq> None then
        (case walk_slots W submit attempts (Suc i) slots l of (slots', l', all_finished, ab) \<Rightarrow>
           (slot # slots', l', all_finished, ab))
      else
        (case tick_one_slot W submit (attempts i) slot l of
           (slot', l1, SlotAborts msg) \<Rightarrow> (slot' # slots, l1, False, Some msg)
         | (slot', l1, SlotLives) \<Rightarrow>
             (case walk_slots W submit attempts (Suc i) slots l1 of (slots', l', all_finished, ab) \<Rightarrow>
                (slot' # slots', l', False, ab))
         | (slot', l1, SlotEnds out) \<Rightarrow>
             (case walk_slots W submit attempts (Suc i) slots l1 of (slots', l', all_finished, ab) \<Rightarrow>
                (slot'\<lparr>ms_finished := Some out\<rparr> # slots', l', False, ab))))"

definition finish_slot :: "termination_reason \<Rightarrow> ('f, 'b) market_slot \<Rightarrow> ('f, 'b) market_slot" where
  "finish_slot why slot =
     slot\<lparr>ms_finished := Some \<lparr>ro_reason = why, ro_ticks = ms_ticks slot, ro_error = None\<rparr>\<rparr>"

text \<open>The release at shutdown: every slot that still runs, in order; a refused release is logged.\<close>

fun release_slots ::
  "('f, 'b) bot_world \<Rightarrow> 'l leader_builder \<Rightarrow> ('f, 'b) market_slot list \<Rightarrow> 'l
   \<Rightarrow> ('f, 'b) market_slot list \<times> 'l \<times> string option" where
  "release_slots W submit [] l = ([], l, None)"
| "release_slots W submit (slot # slots) l =
     (if ms_finished slot \<noteq> None then
        (case release_slots W submit slots l of (slots', l', ab) \<Rightarrow> (slot # slots', l', ab))
      else
        (case try_graceful_release (W\<lparr>bw_context := ms_ctx slot\<rparr>) submit (ms_rpc_cfg slot)
                (ms_was_leader_last_tick slot) l of
           (l1, Inl (Panicked msg)) \<Rightarrow> (slot # slots, l1, Some msg)
         | (l1, r) \<Rightarrow>
             (case release_slots W submit slots l1 of (slots', l', ab) \<Rightarrow>
                (finish_slot ShutdownSignal slot # slots', l', ab))))"

section \<open>The loop\<close>

record ('f, 'b, 'l) multi_state =
  mu_slots :: "('f, 'b) market_slot list"
  mu_leader_builder :: 'l
  mu_passes :: u64

datatype multi_flow = NextPass | LoopEnds | LoopAborts string

definition multi_body ::
  "('f, 'b) bot_world \<Rightarrow> 'l leader_builder \<Rightarrow> u64 option \<Rightarrow> 'b market_pass \<Rightarrow> ('f, 'b, 'l) multi_state
   \<Rightarrow> ('f, 'b, 'l) multi_state \<times> multi_flow" where
  "multi_body W submit max_passes pass st =
     (if pa_shutdown pass then
        (case release_slots W submit (mu_slots st) (mu_leader_builder st) of (slots, l, ab) \<Rightarrow>
           (st\<lparr>mu_slots := slots, mu_leader_builder := l\<rparr>,
            case ab of None \<Rightarrow> LoopEnds | Some msg \<Rightarrow> LoopAborts msg))
      else if (case max_passes of None \<Rightarrow> False | Some n \<Rightarrow> n \<le> mu_passes st) then
        (st\<lparr>mu_slots := map (\<lambda>slot. if ms_finished slot = None then finish_slot TickLimitReached slot else slot)
              (mu_slots st)\<rparr>, LoopEnds)
      else
        (case walk_slots W submit (pa_attempt pass) 0 (mu_slots st) (mu_leader_builder st) of
           (slots, l, all_finished, ab) \<Rightarrow>
             let st1 = st\<lparr>mu_slots := slots, mu_leader_builder := l\<rparr> in
             (case ab of
                Some msg \<Rightarrow> (st1, LoopAborts msg)
              | None \<Rightarrow>
                  (case (plus_w 64 (mu_passes st) 1 :: (unit, nat) result) of
                     Inl f \<Rightarrow> (st1, LoopAborts ''attempt to add with overflow'')
                   | Inr n \<Rightarrow> (st1\<lparr>mu_passes := n\<rparr>, if all_finished then LoopEnds else NextPass)))))"

record per_market_outcome =
  pm_label :: utext
  pm_ticks :: u64
  pm_reason :: termination_reason
  pm_error :: "bot_error option"

record multi_outcome =
  mo_passes :: u64
  mo_reason :: termination_reason
  mo_per_market :: "per_market_outcome list"

definition reason_rank :: "termination_reason \<Rightarrow> u8" where
  "reason_rank r = (case r of PermanentError \<Rightarrow> 3 | ShutdownSignal \<Rightarrow> 2 | TickLimitReached \<Rightarrow> 1)"

definition promote_worst :: "termination_reason \<Rightarrow> termination_reason \<Rightarrow> termination_reason" where
  "promote_worst current candidate = (if reason_rank current < reason_rank candidate then candidate else current)"

definition taken_outcome :: "('f, 'b) market_slot \<Rightarrow> run_outcome" where
  "taken_outcome slot = (case ms_finished slot of Some out \<Rightarrow> out
     | None \<Rightarrow> \<lparr>ro_reason = ShutdownSignal, ro_ticks = ms_ticks slot, ro_error = None\<rparr>)"

definition aggregate :: "('f, 'b, 'l) multi_state \<Rightarrow> multi_outcome" where
  "aggregate st =
     \<lparr>mo_passes = mu_passes st,
      mo_reason = fold (\<lambda>slot worst. promote_worst worst (ro_reason (taken_outcome slot))) (mu_slots st) ShutdownSignal,
      mo_per_market = map (\<lambda>slot. \<lparr>pm_label = ms_label slot, pm_ticks = ro_ticks (taken_outcome slot),
        pm_reason = ro_reason (taken_outcome slot), pm_error = ro_error (taken_outcome slot)\<rparr>) (mu_slots st)\<rparr>"

partial_function (option) run_passes ::
  "('a \<Rightarrow> 's \<Rightarrow> 's \<times> multi_flow) \<Rightarrow> (nat \<Rightarrow> 'a) \<Rightarrow> nat \<Rightarrow> 's \<Rightarrow> ('s \<times> string option) option" where
  "run_passes body env i s = (case body (env i) s of
       (s', NextPass) \<Rightarrow> run_passes body env (Suc i) s'
     | (s', LoopEnds) \<Rightarrow> Some (s', None)
     | (s', LoopAborts msg) \<Rightarrow> Some (s', Some msg))"

definition multi_result ::
  "('f, 'b, 'l) multi_state \<times> string option
   \<Rightarrow> ('f, 'b) market_slot list \<times> 'l \<times> (unit, multi_outcome) result" where
  "multi_result r = (case r of
       (st, Some msg) \<Rightarrow> (mu_slots st, mu_leader_builder st, Panic msg)
     | (st, None) \<Rightarrow> (map (\<lambda>slot. slot\<lparr>ms_finished := None\<rparr>) (mu_slots st), mu_leader_builder st, Ok (aggregate st)))"

definition run_loop_multi_market_leader_and_rpc_reconcile where
  "run_loop_multi_market_leader_and_rpc_reconcile W submit_leader_ix max_passes env registry leader_builder =
     map_option multi_result (run_passes (multi_body W submit_leader_ix max_passes) env 0
       \<lparr>mu_slots = registry, mu_leader_builder = leader_builder, mu_passes = 0\<rparr>)"

end
