(* ===== verification/Registry_Facts.thy ===== *)
theory Registry_Facts
  imports Market_Registry
begin

text \<open>
  What the market registry accepts. First, what its base58 decoder computes: the digits of the number in the other base,
  with one zero byte for every leading one. The digits of a number are unique, so the decoder
  inverts the encoder \<open>base58_encode\<close>, and nothing but an encoding decodes.
\<close>

section \<open>Digits\<close>

primrec value_le :: "nat \<Rightarrow> nat list \<Rightarrow> nat" where
  "value_le b [] = 0"
| "value_le b (d # ds) = d + b * value_le b ds"

fun digits_le :: "nat \<Rightarrow> nat \<Rightarrow> nat list" where
  "digits_le b n = (if n = 0 \<or> b < 2 then [] else n mod b # digits_le b (n div b))"

declare digits_le.simps [simp del]

definition canonical :: "nat \<Rightarrow> nat list \<Rightarrow> bool" where
  "canonical b ds \<longleftrightarrow> (\<forall>d\<in>set ds. d < b) \<and> (ds = [] \<or> last ds \<noteq> 0)"

lemma digits_le_0 [simp]: "digits_le b 0 = []"
  by (simp add: digits_le.simps)

lemma value_le_append: "value_le b (xs @ ys) = value_le b xs + b ^ length xs * value_le b ys"
  by (induction xs) (simp_all add: algebra_simps)

lemma value_le_zeros [simp]: "value_le b (xs @ replicate k 0) = value_le b xs"
proof -
  have "value_le b (replicate k 0) = 0" by (induction k) simp_all
  then show ?thesis by (simp add: value_le_append)
qed

lemma value_le_bound: "\<forall>d\<in>set ds. d < b \<Longrightarrow> value_le b ds < b ^ length ds"
proof (induction ds)
  case (Cons d ds)
  then have "value_le b ds + 1 \<le> b ^ length ds" "d < b" by auto
  from mult_le_mono2 [OF this(1), of b] this(2) show ?case by simp
qed simp

lemma canonical_positive:
  assumes "canonical b ds" and "ds \<noteq> []"
  shows "b ^ (length ds - 1) \<le> value_le b ds"
proof -
  have "value_le b ds = value_le b (butlast ds) + b ^ (length ds - 1) * last ds"
    using assms(2) value_le_append [of b "butlast ds" "[last ds]"] by simp
  moreover have "b ^ (length ds - 1) * 1 \<le> b ^ (length ds - 1) * last ds"
    using assms by (intro mult_le_mono2) (simp add: canonical_def Suc_leI)
  ultimately show ?thesis by linarith
qed

lemma value_digits: "2 \<le> b \<Longrightarrow> value_le b (digits_le b n) = n"
  by (induction b n rule: digits_le.induct) (subst digits_le.simps, auto)

lemma canonical_digits: "2 \<le> b \<Longrightarrow> canonical b (digits_le b n)"
proof (induction b n rule: digits_le.induct)
  case (1 b n)
  show ?case
  proof (cases "n = 0")
    case False
    with 1 have IH: "canonical b (digits_le b (n div b))" by simp
    have "n div b = 0 \<Longrightarrow> n mod b \<noteq> 0" using False by (metis mod_div_trivial mult_div_mod_eq mult_0_right add_0)
    moreover have "n div b \<noteq> 0 \<Longrightarrow> digits_le b (n div b) \<noteq> []" using 1(2) by (simp add: digits_le.simps)
    ultimately show ?thesis using IH False 1(2)
      by (subst digits_le.simps) (auto simp: canonical_def)
  qed (simp add: canonical_def)
qed

lemma digits_value:
  assumes "2 \<le> b" and "canonical b ds"
  shows "digits_le b (value_le b ds) = ds"
  using assms(2)
proof (induction ds)
  case (Cons d ds)
  have d: "d < b" using Cons.prems by (simp add: canonical_def)
  have "canonical b ds" using Cons.prems by (cases "ds = []") (auto simp: canonical_def)
  with Cons.IH have IH: "digits_le b (value_le b ds) = ds" by simp
  have "0 < b ^ length ds" using assms(1) by simp
  also have "b ^ length ds \<le> value_le b (d # ds)" using canonical_positive [OF Cons.prems] by (simp del: value_le.simps)
  finally have "0 < value_le b (d # ds)" .
  with d IH assms(1) show ?case by (subst digits_le.simps) auto
qed simp

section \<open>From one base to another\<close>

definition leading_zeros :: "nat list \<Rightarrow> nat" where
  "leading_zeros ds = length (takeWhile (\<lambda>d. d = 0) ds)"

text \<open>Big-endian digits; the zeros in front are kept one for one.\<close>

definition convert :: "nat \<Rightarrow> nat \<Rightarrow> nat list \<Rightarrow> nat list" where
  "convert a b ds = replicate (leading_zeros ds) 0 @ rev (digits_le b (value_le a (rev ds)))"

lemma split_zeros:
  obtains ws where "ds = replicate (leading_zeros ds) 0 @ ws" and "ws = [] \<or> hd ws \<noteq> 0"
proof
  have "takeWhile (\<lambda>d. d = 0) ds = replicate (leading_zeros ds) 0"
    unfolding leading_zeros_def by (metis (mono_tags, lifting) replicate_length_same set_takeWhileD)
  then show "ds = replicate (leading_zeros ds) 0 @ dropWhile (\<lambda>d. d = 0) ds"
    by (metis takeWhile_dropWhile_id)
  show "dropWhile (\<lambda>d. d = 0) ds = [] \<or> hd (dropWhile (\<lambda>d. d = 0) ds) \<noteq> 0"
    using hd_dropWhile [of "\<lambda>d. d = 0" ds] by blast
qed

lemma leading_zeros_padded:
  assumes "ws = [] \<or> hd ws \<noteq> 0"
  shows "leading_zeros (replicate k 0 @ ws) = k"
proof -
  from assms have "takeWhile (\<lambda>d. d = 0) ws = []" by (cases ws) auto
  then show ?thesis by (simp add: leading_zeros_def takeWhile_append)
qed

lemma digits_hd: "2 \<le> b \<Longrightarrow> rev (digits_le b n) = [] \<or> hd (rev (digits_le b n)) \<noteq> 0"
  using canonical_digits [of b n] by (auto simp: canonical_def hd_rev)

lemma convert_digits: "2 \<le> b \<Longrightarrow> \<forall>d\<in>set (convert a b ds). d < b"
  using canonical_digits [of b "value_le a (rev ds)"] by (auto simp: convert_def canonical_def)

lemma convert_inverse:
  assumes "2 \<le> a" "2 \<le> b" and "\<forall>d\<in>set ds. d < a"
  shows "convert b a (convert a b ds) = ds"
proof -
  obtain ws where ds: "ds = replicate (leading_zeros ds) 0 @ ws" and ws: "ws = [] \<or> hd ws \<noteq> 0"
    by (rule split_zeros)
  let ?n = "value_le a (rev ws)"
  have "value_le a (rev ds) = ?n" by (subst ds) simp
  then have c: "convert a b ds = replicate (leading_zeros ds) 0 @ rev (digits_le b ?n)"
    by (simp add: convert_def)
  have "leading_zeros (convert a b ds) = leading_zeros ds"
    unfolding c by (rule leading_zeros_padded [OF digits_hd [OF assms(2)]])
  moreover have "value_le b (rev (convert a b ds)) = ?n"
    unfolding c using value_digits [OF assms(2)] by simp
  moreover have "canonical a (rev ws)"
  proof -
    have "\<forall>d\<in>set ws. d < a" using assms(3) by (subst (asm) ds) simp
    with ws show ?thesis by (auto simp: canonical_def last_rev)
  qed
  ultimately have "convert b a (convert a b ds) = replicate (leading_zeros ds) 0 @ ws"
    unfolding convert_def using digits_value [OF assms(1)] by simp
  with ds show ?thesis by simp
qed

section \<open>The decoder\<close>

lemma flush_digits: "bs58_flush c = digits_le 256 c"
  by (induction c rule: bs58_flush.induct) (subst bs58_flush.simps, subst digits_le.simps, simp)

lemma bs58_mul_Ok:
  assumes "\<forall>d\<in>set ds. d < 256" and "carry \<le> 57"
  shows "\<exists>out c. bs58_mul carry ds = Ok (out, c) \<and> length out = length ds \<and> (\<forall>d\<in>set out. d < 256)
    \<and> value_le 256 out + 256 ^ length ds * c = carry + 58 * value_le 256 ds"
  using assms
proof (induction ds arbitrary: carry)
  case (Cons d ds)
  let ?t = "carry + d * 58"
  have t: "?t \<le> 57 + 255 * 58" using Cons.prems by auto
  then have "?t div 256 \<le> 57" by linarith
  with Cons.IH [of "?t div 256"] Cons.prems obtain out c where
    r: "bs58_mul (?t div 256) ds = Ok (out, c)" "length out = length ds" "\<forall>d\<in>set out. d < 256"
      "value_le 256 out + 256 ^ length ds * c = ?t div 256 + 58 * value_le 256 ds" by auto
  have "256 * (value_le 256 out + 256 ^ length ds * c) + ?t mod 256 = 256 * (?t div 256) + ?t mod 256 + 256 * (58 * value_le 256 ds)"
    unfolding r(4) by simp
  then have "?t mod 256 + 256 * value_le 256 out + 256 * (256 ^ length ds * c) = ?t + 256 * (58 * value_le 256 ds)"
    by simp
  with t r show ?case by (auto simp: plus_w_def algebra_simps)
qed simp

lemma bs58_push_digit:
  assumes "\<not> is_whitespace c" and "bs58_index c = Some v" and "v < 58"
  shows "bs58_push c (digits_le 256 n) = Ok (digits_le 256 (v + 58 * n))"
proof -
  let ?ds = "digits_le 256 n"
  have can: "canonical 256 ?ds" by (rule canonical_digits) simp
  then have "\<forall>d\<in>set ?ds. d < 256" by (simp add: canonical_def)
  with bs58_mul_Ok [of ?ds v] assms(3) obtain out k where
    r: "bs58_mul v ?ds = Ok (out, k)" "length out = length ?ds" "\<forall>d\<in>set out. d < 256"
      "value_le 256 out + 256 ^ length ?ds * k = v + 58 * value_le 256 ?ds" by auto
  let ?o = "out @ bs58_flush k"
  have val: "value_le 256 ?o = v + 58 * n"
    using r(2,4) by (simp add: value_le_append flush_digits value_digits)
  have "canonical 256 ?o"
  proof (cases "k = 0")
    case False
    then have "bs58_flush k \<noteq> []" by (subst bs58_flush.simps) simp
    then show ?thesis using r(3) canonical_digits [of 256 k] by (auto simp: canonical_def flush_digits)
  next
    case True
    have "out = [] \<or> last out \<noteq> 0"
    proof (rule ccontr)
      assume z: "\<not> (out = [] \<or> last out \<noteq> 0)"
      then have "out = butlast out @ [0]" by (metis append_butlast_last_id)
      then have "value_le 256 out = value_le 256 (butlast out @ replicate 1 0)" by simp
      then have "value_le 256 out = value_le 256 (butlast out)" by (simp only: value_le_zeros)
      moreover have "value_le 256 (butlast out) < 256 ^ (length out - 1)"
        using value_le_bound [of "butlast out" 256] r(3) by (auto dest: in_set_butlastD)
      moreover have "256 ^ (length out - 1) \<le> value_le 256 ?ds"
        using canonical_positive [OF can] z r(2) by (metis length_0_conv One_nat_def)
      ultimately show False using r(4) True by simp
    qed
    with r(3) True show ?thesis by (simp add: canonical_def flush_digits)
  qed
  from digits_value [OF _ this] val have "digits_le 256 (v + 58 * n) = ?o" by simp
  with r(1) assms(1,2) show ?thesis by (simp add: bs58_push_def)
qed

lemma alphabet_distinct: "distinct BS58_ALPHABET" "length BS58_ALPHABET = 58"
  by (simp_all add: BS58_ALPHABET_def ascii_def)

lemma bs58_index_iff: "bs58_index c = Some v \<longleftrightarrow> v < 58 \<and> BS58_ALPHABET ! v = c"
proof
  assume "bs58_index c = Some v"
  then have v: "v = length (takeWhile (\<lambda>b. b \<noteq> c) BS58_ALPHABET)" "v < length BS58_ALPHABET"
    by (auto simp: bs58_index_def Let_def split: if_splits)
  then show "v < 58 \<and> BS58_ALPHABET ! v = c"
    using nth_length_takeWhile [of "\<lambda>b. b \<noteq> c" BS58_ALPHABET] alphabet_distinct(2) by auto
next
  assume v: "v < 58 \<and> BS58_ALPHABET ! v = c"
  let ?i = "length (takeWhile (\<lambda>b. b \<noteq> c) BS58_ALPHABET)"
  have "c \<in> set BS58_ALPHABET" using v alphabet_distinct(2) by (metis nth_mem)
  moreover have "c \<in> set xs \<Longrightarrow> length (takeWhile (\<lambda>b. b \<noteq> c) xs) < length xs" for xs
    by (induction xs) auto
  ultimately have "?i < length BS58_ALPHABET" by blast
  moreover from nth_length_takeWhile [OF this] have "BS58_ALPHABET ! ?i = c" by simp
  ultimately have "?i = v" using v alphabet_distinct nth_eq_iff_index_eq [of BS58_ALPHABET ?i v] by simp
  then show "bs58_index c = Some v" using v alphabet_distinct(2) by (simp add: bs58_index_def)
qed

abbreviation visible :: "utext \<Rightarrow> utext" where
  "visible s \<equiv> filter (\<lambda>c. \<not> is_whitespace c) s"

lemma bs58_fold:
  "fold_res bs58_push s (digits_le 256 n) = Ok out \<longleftrightarrow>
     (\<exists>vs. (\<forall>v\<in>set vs. v < 58) \<and> visible s = map ((!) BS58_ALPHABET) vs
        \<and> out = digits_le 256 (foldl (\<lambda>n v. v + 58 * n) n vs))"
proof (induction s arbitrary: n)
  case Nil
  show ?case by auto
next
  case (Cons c s)
  show ?case
  proof (cases "is_whitespace c")
    case True
    then have "bs58_push c (digits_le 256 n) = Ok (digits_le 256 n)" by (simp add: bs58_push_def)
    with Cons.IH [of n] True show ?thesis by simp
  next
    case False
    show ?thesis
    proof (cases "bs58_index c")
      case None
      then have no: "\<not> (v < 58 \<and> BS58_ALPHABET ! v = c)" for v using bs58_index_iff [of c v] by simp
      from None False have "bs58_push c (digits_le 256 n) = Err (ascii ''non-base58 character `'' @ [c] @ ascii ''`'')"
        by (simp add: bs58_push_def)
      with False no show ?thesis by (auto simp: Cons_eq_map_conv) blast
    next
      case (Some v)
      with bs58_index_iff have v: "v < 58" "BS58_ALPHABET ! v = c" by auto
      have one: "w < 58 \<Longrightarrow> BS58_ALPHABET ! w = c \<Longrightarrow> w = v" for w
        using bs58_index_iff [of c w] Some by simp
      have "(\<exists>vs. (\<forall>v\<in>set vs. v < 58) \<and> visible (c # s) = map ((!) BS58_ALPHABET) vs
          \<and> out = digits_le 256 (foldl (\<lambda>n v. v + 58 * n) n vs))
        \<longleftrightarrow> (\<exists>vs. (\<forall>v\<in>set vs. v < 58) \<and> visible s = map ((!) BS58_ALPHABET) vs
          \<and> out = digits_le 256 (foldl (\<lambda>n v. v + 58 * n) (v + 58 * n) vs))" (is "?l = ?r")
      proof
        assume ?l
        then obtain w vs where "\<forall>x\<in>set (w # vs). x < 58" "BS58_ALPHABET ! w = c" "visible s = map ((!) BS58_ALPHABET) vs"
            "out = digits_le 256 (foldl (\<lambda>n v. v + 58 * n) n (w # vs))"
          using False by (auto simp: Cons_eq_map_conv)
        with one show ?r by auto
      next
        assume ?r
        then obtain vs where "\<forall>x\<in>set vs. x < 58" "visible s = map ((!) BS58_ALPHABET) vs"
            "out = digits_le 256 (foldl (\<lambda>n v. v + 58 * n) (v + 58 * n) vs)" by blast
        with v False show ?l by (intro exI [of _ "v # vs"]) simp
      qed
      with Cons.IH [of "v + 58 * n"] bs58_push_digit [OF False Some v(1)] show ?thesis by simp
    qed
  qed
qed

lemma foldl_value: "foldl (\<lambda>n v. v + 58 * n) 0 vs = value_le 58 (rev vs)"
  by (induction vs rule: rev_induct) simp_all

lemma leading_ones_zeros:
  assumes "\<forall>v\<in>set vs. v < 58" and "visible s = map ((!) BS58_ALPHABET) vs"
  shows "leading_ones s = leading_zeros vs"
proof -
  have "BS58_ALPHABET ! v = 49 \<longleftrightarrow> v = 0" if "v < 58" for v
    using that bs58_index_iff [of 49 v] by (auto simp: bs58_index_def BS58_ALPHABET_def ascii_def)
  then have "takeWhile (\<lambda>c. c = 49) (map ((!) BS58_ALPHABET) vs) = map ((!) BS58_ALPHABET) (takeWhile (\<lambda>v. v = 0) vs)"
    using assms(1) by (induction vs) auto
  with assms(2) show ?thesis by (simp add: leading_ones_def leading_zeros_def)
qed

lemma base58_decode_Ok:
  "base58_decode s = Ok bs \<longleftrightarrow>
     (\<exists>vs. (\<forall>v\<in>set vs. v < 58) \<and> visible s = map ((!) BS58_ALPHABET) vs \<and> bs = convert 58 256 vs)"
proof -
  have "fold_res bs58_push s [] = Ok out \<longleftrightarrow> (\<exists>vs. (\<forall>v\<in>set vs. v < 58)
      \<and> visible s = map ((!) BS58_ALPHABET) vs \<and> out = digits_le 256 (value_le 58 (rev vs)))" for out
    using bs58_fold [of s 0 out] by (simp add: foldl_value)
  then show ?thesis
    by (auto simp: base58_decode_def convert_def leading_ones_zeros) (metis leading_ones_zeros)
qed

definition base58_encode :: "u8 list \<Rightarrow> utext" where
  "base58_encode bs = map ((!) BS58_ALPHABET) (convert 256 58 bs)"

lemma base58_decode_iff:
  "base58_decode s = Ok bs \<longleftrightarrow> (\<forall>b\<in>set bs. b < 256) \<and> visible s = base58_encode bs"
proof
  assume "base58_decode s = Ok bs"
  then obtain vs where vs: "\<forall>v\<in>set vs. v < 58" "visible s = map ((!) BS58_ALPHABET) vs" "bs = convert 58 256 vs"
    by (auto simp: base58_decode_Ok)
  then show "(\<forall>b\<in>set bs. b < 256) \<and> visible s = base58_encode bs"
    using convert_digits [of 256 58 vs] convert_inverse [of 58 256 vs] by (simp add: base58_encode_def)
next
  assume r: "(\<forall>b\<in>set bs. b < 256) \<and> visible s = base58_encode bs"
  then show "base58_decode s = Ok bs"
    using convert_digits [of 58 256 bs] convert_inverse [of 256 58 bs]
    by (auto simp: base58_decode_Ok base58_encode_def intro!: exI [of _ "convert 256 58 bs"])
qed

lemma base58_no_panic: "base58_decode s \<noteq> Panic msg"
proof -
  have "fold_res bs58_push s (digits_le 256 n) \<noteq> Panic msg" for n
  proof (induction s arbitrary: n)
    case (Cons c s)
    show ?case
    proof (cases "is_whitespace c \<or> bs58_index c = None")
      case True
      with Cons.IH [of n] show ?thesis by (auto simp: bs58_push_def)
    next
      case False
      then obtain v where "bs58_index c = Some v" "\<not> is_whitespace c" by auto
      with bs58_push_digit [of c v n] bs58_index_iff [of c v] Cons.IH show ?thesis by simp
    qed
  qed simp
  from this [of 0] show ?thesis by (auto simp: base58_decode_def and_then_def split: sum.splits)
qed


text \<open>
  The loader of the registry against a printer: what \<open>registry_toml\<close> writes is read back, line by line,
  table by table, and entry by entry; and what the loader accepts is well formed.
\<close>

section \<open>Characters, lines, fields\<close>

lemma utf8_char_len_exact: "c < 0x110000 \<Longrightarrow> utf8_char_len (hd (utf8 c)) = length (utf8 c)"
  by (auto simp: utf8_char_len_def utf8_def)

lemma subst_plain: "DOLLAR \<notin> set s \<Longrightarrow> subst_from lookup i s = Ok s"
  by (induction s arbitrary: i) auto

lemma split_at_hit: "c \<notin> set a \<Longrightarrow> split_at c (a @ c # b) = Some (a, b)"
proof -
  assume c: "c \<notin> set a"
  then have "dropWhile (\<lambda>x. x \<noteq> c) (a @ c # b) = c # b" "takeWhile (\<lambda>x. x \<noteq> c) (a @ c # b) = a"
    by (induction a) auto
  then show ?thesis by (simp add: split_at_def)
qed

lemma text_lines_nl:
  assumes "10 \<notin> set l"
  shows "text_lines (l @ 10 # rest) = drop_cr l # text_lines rest"
  by (subst text_lines.simps) (simp add: split_at_hit [OF assms])

lemma dropWhile_id_head: "s \<noteq> [] \<Longrightarrow> \<not> P (hd s) \<Longrightarrow> dropWhile P s = s"
  by (cases s) auto

lemma trim_id: "s \<noteq> [] \<Longrightarrow> \<not> is_whitespace (hd s) \<Longrightarrow> \<not> is_whitespace (last s) \<Longrightarrow> trim s = s"
  by (simp add: trim_def dropWhile_id_head hd_rev)

lemma strip_plain: "\<forall>c\<in>set k. is_bare_key_char c \<Longrightarrow> strip_from False False (k @ s) = k @ strip_from False False s"
  by (induction k) (auto simp: is_bare_key_char_def is_ascii_alphanumeric_def is_ascii_alphabetic_def)

lemma strip_quoted: "QUOTE \<notin> set v \<Longrightarrow> strip_from e True (v @ [QUOTE]) = v @ [QUOTE]"
  by (induction v arbitrary: e) auto

definition field_row :: "utext \<Rightarrow> utext \<Rightarrow> utext" where
  "field_row k v = k @ ascii '' = '' @ [QUOTE] @ v @ [QUOTE]"

lemma bare_not_white: "is_bare_key_char c \<Longrightarrow> \<not> is_whitespace c"
  by (auto simp: is_bare_key_char_def is_ascii_alphanumeric_def is_ascii_alphabetic_def is_whitespace_def)

lemma strip_field_row:
  assumes "\<forall>c\<in>set k. is_bare_key_char c" and "QUOTE \<notin> set v"
  shows "strip_comment (field_row k v) = field_row k v"
  using strip_plain [OF assms(1)] strip_quoted [OF assms(2)]
  by (simp add: strip_comment_def field_row_def ascii_def)

lemma trim_field_row:
  assumes "\<forall>c\<in>set k. is_bare_key_char c" and "k \<noteq> []"
  shows "trim (field_row k v) = field_row k v"
proof (rule trim_id)
  show "\<not> is_whitespace (hd (field_row k v))"
    using assms bare_not_white [of "hd k"] by (simp add: field_row_def)
  show "\<not> is_whitespace (last (field_row k v))" by (simp add: field_row_def is_whitespace_def)
qed (simp add: field_row_def)

lemma trim_key:
  assumes "\<forall>c\<in>set k. is_bare_key_char c" and "k \<noteq> []"
  shows "trim (k @ [32]) = k"
proof -
  have d: "dropWhile is_whitespace (k @ [32]) = k @ [32]"
    using assms bare_not_white [of "hd k"] by (cases k) auto
  have "dropWhile is_whitespace (rev k) = rev k"
    using assms bare_not_white [of "last k"] by (cases k rule: rev_cases) auto
  then show ?thesis by (simp add: trim_def d) (simp add: is_whitespace_def)
qed

lemma parse_field_row:
  assumes "\<forall>c\<in>set k. is_bare_key_char c" and "k \<noteq> []" and "QUOTE \<notin> set v"
  shows "parse_key_value (field_row k v) n = Ok (k, v)"
proof -
  have "EQUALS \<notin> set (k @ [32])"
    using assms(1) by (auto simp: is_bare_key_char_def is_ascii_alphanumeric_def is_ascii_alphabetic_def)
  from split_at_hit [OF this, of "[32, QUOTE] @ v @ [QUOTE]"]
  have s: "split_at EQUALS (field_row k v) = Some (k @ [32], 32 # QUOTE # v @ [QUOTE])"
    by (simp add: field_row_def ascii_def)
  have "trim (32 # QUOTE # v @ [QUOTE]) = trim (QUOTE # v @ [QUOTE])"
    by (simp add: trim_def) (simp add: is_whitespace_def)
  also have "\<dots> = QUOTE # v @ [QUOTE]"
    by (rule trim_id) (simp_all add: is_whitespace_def)
  finally have t: "trim (32 # QUOTE # v @ [QUOTE]) = QUOTE # v @ [QUOTE]" .
  have "split_at QUOTE (v @ [QUOTE]) = Some (v, [])" using split_at_hit [OF assms(3), of "[]"] by simp
  moreover have "trim [] = []" by (simp add: trim_def)
  ultimately show ?thesis using assms(1,2) by (simp add: parse_key_value_def s t trim_key)
qed

lemma parse_row:
  assumes "\<forall>c\<in>set k. is_bare_key_char c" and "k \<noteq> []" and "QUOTE \<notin> set v"
  shows "parse_line (n, field_row k v) (ts, Some t) = Ok (ts, Some (t\<lparr>rt_fields := rt_fields t @ [(k, v)]\<rparr>))"
proof -
  have "hd (field_row k v) \<noteq> 91" using assms(1,2)
    by (auto simp: field_row_def is_bare_key_char_def is_ascii_alphanumeric_def is_ascii_alphabetic_def dest!: hd_in_set)
  moreover have "field_row k v \<noteq> []" by (simp add: field_row_def)
  ultimately show ?thesis
    using strip_field_row [OF assms(1,3)] trim_field_row [OF assms(1,2), of v] parse_field_row [OF assms, of n]
    by (cases "field_row k v") (simp_all add: parse_line_def starts_with_def ascii_def)
qed

definition header_row :: utext where
  "header_row = ascii ''[[markets]]''"

lemma parse_header: "parse_line (n, header_row) st = Ok (flush_table st, Some \<lparr>rt_header_line = n, rt_fields = []\<rparr>)"
proof -
  have "strip_comment header_row = header_row" by (simp add: header_row_def ascii_def strip_comment_def)
  moreover have "trim header_row = header_row"
    by (rule trim_id) (simp_all add: header_row_def ascii_def is_whitespace_def)
  moreover have "trim (ascii ''markets'') = ascii ''markets''"
    by (rule trim_id) (simp_all add: ascii_def is_whitespace_def)
  ultimately show ?thesis
    by (simp add: parse_line_def) (simp add: header_row_def ascii_def starts_with_def ends_with_def)
qed

section \<open>Printing entries\<close>

definition entry_fields :: "market_entry \<Rightarrow> (utext \<times> utext) list" where
  "entry_fields m =
     [(ascii ''symbol'', me_symbol m), (ascii ''program_id'', base58_encode (me_program_id m)),
      (ascii ''market_pda'', base58_encode (me_market_pda m)), (ascii ''lock_pda'', base58_encode (me_lock_pda m))]
     @ (case me_expected_leader m of None \<Rightarrow> [] | Some k \<Rightarrow> [(ascii ''expected_leader'', base58_encode k)])"

definition entry_lines :: "market_entry \<Rightarrow> utext list" where
  "entry_lines m = header_row # map (\<lambda>(k, v). field_row k v) (entry_fields m)"

definition registry_toml :: "market_entry list \<Rightarrow> utext" where
  "registry_toml ms = concat (map (\<lambda>l. l @ [10]) (concat (map entry_lines ms)))"

definition entry_ok :: "market_entry \<Rightarrow> bool" where
  "entry_ok m \<longleftrightarrow> me_symbol m \<noteq> [] \<and> text_len (me_symbol m) \<le> 16 \<and> (\<forall>c\<in>set (me_symbol m). c < 128)
     \<and> is_array 32 (me_program_id m) \<and> is_array 32 (me_market_pda m) \<and> is_array 32 (me_lock_pda m)
     \<and> (\<forall>k\<in>set_option (me_expected_leader m). is_array 32 k)"

definition plain_symbol :: "market_entry \<Rightarrow> bool" where
  "plain_symbol m \<longleftrightarrow> set (me_symbol m) \<inter> {QUOTE, DOLLAR, 10} = {}"

lemma alphabet_plain:
  assumes "c \<in> set BS58_ALPHABET"
  shows "\<not> is_whitespace c" and "c \<notin> {QUOTE, DOLLAR, 10, 13}"
  using assms by (auto simp: BS58_ALPHABET_def ascii_def is_whitespace_def)

lemma encoded_in_alphabet: "set (base58_encode bs) \<subseteq> set BS58_ALPHABET"
  using convert_digits [of 58 256 bs] alphabet_distinct(2) by (auto simp: base58_encode_def)

lemma decode_encoded_key: "is_array 32 k \<Longrightarrow> decode_pubkey32 symbol field (base58_encode k) = Ok k"
proof -
  assume k: "is_array 32 k"
  have "visible (base58_encode k) = base58_encode k"
    using encoded_in_alphabet [of k] alphabet_plain(1) by (simp add: filter_id_conv subset_iff)
  with k base58_decode_iff [of "base58_encode k" k] have "base58_decode (base58_encode k) = Ok k"
    by (simp add: is_array_def is_bytes_def)
  with k show ?thesis by (simp add: decode_pubkey32_def is_array_def)
qed

lemma encoded_key_nonempty: "is_array 32 k \<Longrightarrow> base58_encode k \<noteq> []"
  using convert_inverse [of 256 58 k] by (auto simp: base58_encode_def is_array_def is_bytes_def convert_def leading_zeros_def)

lemma key_names:
  "k \<in> {ascii ''symbol'', ascii ''program_id'', ascii ''market_pda'', ascii ''lock_pda'', ascii ''expected_leader''}
   \<Longrightarrow> k \<noteq> [] \<and> (\<forall>c\<in>set k. is_bare_key_char c)"
  by (auto simp: ascii_def is_bare_key_char_def is_ascii_alphanumeric_def is_ascii_alphabetic_def)

lemma entry_fields_plain:
  assumes "plain_symbol m" and "(k, v) \<in> set (entry_fields m)"
  shows "k \<noteq> [] \<and> (\<forall>c\<in>set k. is_bare_key_char c) \<and> set v \<inter> {QUOTE, DOLLAR, 10} = {}"
proof -
  have "k \<in> {ascii ''symbol'', ascii ''program_id'', ascii ''market_pda'', ascii ''lock_pda'', ascii ''expected_leader''}"
    using assms(2) by (auto simp: entry_fields_def split: option.splits)
  moreover have "v = me_symbol m \<or> (\<exists>bs. v = base58_encode bs)"
    using assms(2) by (auto simp: entry_fields_def split: option.splits)
  moreover have "set (base58_encode bs) \<inter> {QUOTE, DOLLAR, 10} = {}" for bs
    using encoded_in_alphabet [of bs] alphabet_plain(2) by blast
  ultimately show ?thesis
    using key_names [of k] assms(1) unfolding plain_symbol_def by metis
qed

lemma entry_lines_plain:
  assumes "plain_symbol m" and "l \<in> set (entry_lines m)"
  shows "set l \<inter> {DOLLAR, 10} = {} \<and> l \<noteq> [] \<and> last l \<noteq> 13"
proof -
  consider "l = header_row" | k v where "(k, v) \<in> set (entry_fields m)" "l = field_row k v"
    using assms(2) by (auto simp: entry_lines_def)
  then show ?thesis
  proof cases
    case 2
    with entry_fields_plain [OF assms(1) 2(1)] show ?thesis
      by (auto simp: field_row_def ascii_def is_bare_key_char_def is_ascii_alphanumeric_def is_ascii_alphabetic_def)
  qed (simp add: header_row_def ascii_def)
qed

section \<open>Reading them back\<close>

lemma text_lines_concat:
  assumes "\<And>l. l \<in> set ls \<Longrightarrow> 10 \<notin> set l \<and> last l \<noteq> 13"
  shows "text_lines (concat (map (\<lambda>l. l @ [10]) ls)) = ls"
  using assms
proof (induction ls)
  case Nil
  show ?case by (simp add: text_lines.simps)
next
  case (Cons l ls)
  then show ?case using text_lines_nl [of l "concat (map (\<lambda>l. l @ [10]) ls)"] by (simp add: drop_cr_def)
qed

definition numbered :: "nat \<Rightarrow> utext list \<Rightarrow> (nat \<times> utext) list" where
  "numbered n ls = zip [n..<n + length ls] ls"

lemma numbered_simps [simp]: "numbered n [] = []" "numbered n (x # xs) = (n, x) # numbered (Suc n) xs"
proof -
  have "[n..<n + length (x # xs)] = n # [Suc n..<Suc n + length xs]" by (simp add: upt_conv_Cons del: upt_Suc)
  then show "numbered n (x # xs) = (n, x) # numbered (Suc n) xs" by (simp only: numbered_def zip_Cons_Cons)
qed (simp add: numbered_def)

lemma numbered_append: "numbered n (xs @ ys) = numbered n xs @ numbered (n + length xs) ys"
  by (induction xs arbitrary: n) simp_all

lemma parse_rows:
  assumes "\<And>k v. (k, v) \<in> set fs \<Longrightarrow> k \<noteq> [] \<and> (\<forall>c\<in>set k. is_bare_key_char c) \<and> QUOTE \<notin> set v"
  shows "fold_res parse_line (numbered n (map (\<lambda>(k, v). field_row k v) fs)) (ts, Some t)
    = Ok (ts, Some (t\<lparr>rt_fields := rt_fields t @ fs\<rparr>))"
  using assms
proof (induction fs arbitrary: n t)
  case (Cons f fs)
  obtain k v where f: "f = (k, v)" by force
  with Cons.prems have "parse_line (n, field_row k v) (ts, Some t) = Ok (ts, Some (t\<lparr>rt_fields := rt_fields t @ [(k, v)]\<rparr>))"
    by (intro parse_row) auto
  moreover have "fold_res parse_line (numbered (Suc n) (map (\<lambda>(k, v). field_row k v) fs))
      (ts, Some (t\<lparr>rt_fields := rt_fields t @ [(k, v)]\<rparr>)) = Ok (ts, Some (t\<lparr>rt_fields := rt_fields t @ f # fs\<rparr>))"
    using Cons.prems f by (subst Cons.IH) auto
  ultimately show ?case by (simp add: f)
qed simp

lemma parse_entries:
  assumes "\<forall>m\<in>set ms. plain_symbol m"
  shows "\<exists>st' tables. fold_res parse_line (numbered n (concat (map entry_lines ms))) st = Ok st'
    \<and> flush_table st' = flush_table st @ tables \<and> map rt_fields tables = map entry_fields ms"
  using assms
proof (induction ms arbitrary: n st)
  case (Cons m ms)
  let ?t = "\<lparr>rt_header_line = n, rt_fields = entry_fields m\<rparr>"
  let ?k = "n + length (entry_lines m)"
  have rows: "fold_res parse_line (numbered (Suc n) (map (\<lambda>(k, v). field_row k v) (entry_fields m)))
      (flush_table st, Some \<lparr>rt_header_line = n, rt_fields = []\<rparr>) = Ok (flush_table st, Some ?t)"
    using entry_fields_plain [of m] Cons.prems by (subst parse_rows) auto
  have "fold_res parse_line (numbered n (entry_lines m)) st = Ok (flush_table st, Some ?t)"
    unfolding entry_lines_def using rows by (simp add: parse_header)
  moreover from Cons.IH [of ?k "(flush_table st, Some ?t)"] Cons.prems obtain st' tables where
    "fold_res parse_line (numbered ?k (concat (map entry_lines ms))) (flush_table st, Some ?t) = Ok st'"
    "flush_table st' = flush_table st @ [?t] @ tables" "map rt_fields tables = map entry_fields ms"
    by (auto simp: flush_table_def)
  ultimately have "fold_res parse_line (numbered n (concat (map entry_lines (m # ms)))) st = Ok st'"
    "flush_table st' = flush_table st @ (?t # tables)" "map rt_fields (?t # tables) = map entry_fields (m # ms)"
    by (simp_all add: numbered_append fold_res_append)
  then show ?case by blast
qed simp

lemma build_printed:
  assumes "entry_ok m" and "rt_fields t = entry_fields m"
  shows "build_entry idx t = Ok m"
proof -
  have "validate_symbol (me_symbol m) = Ok ()" using assms(1) by (auto simp: validate_symbol_def entry_ok_def)
  moreover have "decode_pubkey32 s f (base58_encode k) = Ok k" if "k \<in> {me_program_id m, me_market_pda m, me_lock_pda m} \<union> set_option (me_expected_leader m)" for s f k
    using decode_encoded_key that assms(1) by (auto simp: entry_ok_def)
  moreover have "k \<in> set_option (me_expected_leader m) \<Longrightarrow> base58_encode k \<noteq> []" for k
    using encoded_key_nonempty assms(1) by (auto simp: entry_ok_def)
  ultimately show ?thesis
    by (cases "me_expected_leader m") (simp_all add: build_entry_def assms(2) entry_fields_def take_field_def ascii_def)
qed

lemma build_all_printed:
  assumes "\<forall>m\<in>set ms. entry_ok m" and "map rt_fields ts = map entry_fields ms"
  shows "build_all idx ts = Ok ms"
  using assms
proof (induction ts arbitrary: idx ms)
  case (Cons t ts)
  then obtain m ms' where "ms = m # ms'" by (cases ms) auto
  with Cons build_printed [of m t idx] show ?case by simp
qed simp

lemma first_duplicate_None:
  "first_duplicate seen ms = None \<longleftrightarrow> distinct (map me_symbol ms) \<and> me_symbol ` set ms \<inter> seen = {}"
  by (induction ms arbitrary: seen) auto

lemma toml_roundtrip:
  assumes "\<forall>m\<in>set ms. entry_ok m \<and> plain_symbol m" and "distinct (map me_symbol ms)" and "ms \<noteq> []"
  shows "from_toml_str_with_env (registry_toml ms) lookup = Ok \<lparr>mr_markets = ms\<rparr>"
proof -
  let ?ls = "concat (map entry_lines ms)"
  have plain: "l \<in> set ?ls \<Longrightarrow> set l \<inter> {DOLLAR, 10} = {} \<and> last l \<noteq> 13" for l
    using entry_lines_plain assms(1) by fastforce
  have "\<forall>l\<in>set ls. DOLLAR \<notin> set l \<Longrightarrow> DOLLAR \<notin> set (concat (map (\<lambda>l. l @ [10]) ls))" for ls
    by (induction ls) auto
  with plain have "DOLLAR \<notin> set (registry_toml ms)" unfolding registry_toml_def by blast
  then have "substitute_env_vars (registry_toml ms) lookup = Ok (registry_toml ms)"
    by (simp add: substitute_env_vars_def subst_plain)
  moreover have "text_lines (registry_toml ms) = ?ls"
    unfolding registry_toml_def by (rule text_lines_concat) (use plain in blast)
  moreover obtain st' tables where "fold_res parse_line (numbered 1 ?ls) ([], None) = Ok st'"
    "flush_table st' = tables" "map rt_fields tables = map entry_fields ms"
    using parse_entries [of ms 1 "([], None)"] assms(1) by (auto simp: flush_table_def)
  ultimately show ?thesis
    using assms build_all_printed [of ms tables 0] first_duplicate_None [of "{}" ms]
    by (simp add: from_toml_str_with_env_def parse_market_tables_def numbered_def del: upt_Suc)
qed

section \<open>What the loader accepts\<close>

lemma decoded_key: "decode_pubkey32 symbol field raw = Ok k \<Longrightarrow> is_array 32 k"
  by (auto simp: decode_pubkey32_def base58_decode_iff is_array_def is_bytes_def split: if_splits)

lemma built_entry_ok: "build_entry idx t = Ok m \<Longrightarrow> entry_ok m"
  by (auto simp: build_entry_def entry_ok_def validate_symbol_def derive_keeper_leader_lock_pda_def
      is_array_def is_bytes_def not_less not_le split: if_splits option.splits dest!: decoded_key)

lemma built_all_ok: "build_all idx ts = Ok ms \<Longrightarrow> \<forall>m\<in>set ms. entry_ok m"
  by (induction ts arbitrary: idx ms) (auto simp: built_entry_ok)

lemma loaded_registry:
  assumes "from_toml_str_with_env input lookup = Ok r"
  shows "mr_markets r \<noteq> [] \<and> distinct (map me_symbol (mr_markets r)) \<and> (\<forall>m\<in>set (mr_markets r). entry_ok m)"
  using assms built_all_ok
  by (auto simp: from_toml_str_with_env_def first_duplicate_None split: option.splits if_splits)

end
