(* ===== verification/Multi_Facts.thy ===== *)
theory Multi_Facts
  imports Bot_Facts Multi_Market Registry_Facts
begin

text \<open>
  The multi-market loop against the loop of one market: the step of a slot is an iteration of
  the reconciling loop on the slot's fields (\<open>slot_state\<close>), a pass is one such iteration for every
  slot that still runs, and a loop with a pass limit always ends.
\<close>

section \<open>The step of a slot\<close>

definition slot_state :: "('f, 'b) market_slot \<Rightarrow> 'l \<Rightarrow> ('f, 'b, mirror_policy, 'l) run_state" where
  "slot_state slot l = \<lparr>rs_bot = ms_bot slot, rs_metrics = ms_metrics slot, rs_ticks = ms_ticks slot,
     rs_policy = ms_policy slot, rs_leader_builder = l, rs_last_reconcile = ms_last_reconcile_tick slot,
     rs_last_heartbeat = ms_last_heartbeat_tick slot, rs_was_leader = ms_was_leader_last_tick slot,
     rs_sent = ms_sent slot\<rparr>"

definition slot_world :: "('f, 'b) bot_world \<Rightarrow> ('f, 'b) market_slot \<Rightarrow> ('f, 'b) bot_world" where
  "slot_world W slot = W\<lparr>bw_context := ms_ctx slot\<rparr>"

primrec flow_of :: "slot_flow \<Rightarrow> flow" where
  "flow_of SlotLives = Continue"
| "flow_of (SlotEnds out) = Return out"
| "flow_of (SlotAborts msg) = Aborts msg"

definition same_market :: "('f, 'b) market_slot \<Rightarrow> ('f, 'b) market_slot \<Rightarrow> bool" where
  "same_market s s' \<longleftrightarrow> ms_label s' = ms_label s \<and> ms_ctx s' = ms_ctx s \<and> ms_rpc_cfg s' = ms_rpc_cfg s
     \<and> ms_finished s' = ms_finished s"

lemma slot_world_simps [simp]:
  "bw_types (slot_world W slot) = bw_types W" "bw_borsh (slot_world W slot) = bw_borsh W"
  "bw_sha256 (slot_world W slot) = bw_sha256 W" "bw_keeper (slot_world W slot) = bw_keeper W"
  "bw_floats (slot_world W slot) = bw_floats W" "bw_round_i64 (slot_world W slot) = bw_round_i64 W"
  "bw_context (slot_world W slot) = ms_ctx slot"
  by (simp_all add: slot_world_def)

lemma slot_world_same: "ms_ctx slot' = ms_ctx slot \<Longrightarrow> slot_world W slot' = slot_world W slot"
  by (simp add: slot_world_def)

lemma slot_reconcile_state:
  "slot_state (slot_reconcile W f slot) l = reconcile_step (slot_world W slot) (ms_rpc_cfg slot) f (slot_state slot l)"
  "same_market slot (slot_reconcile W f slot)"
  by (auto simp: slot_reconcile_def reconcile_step_def slot_state_def is_due_def same_market_def Let_def
      split: option.splits sum.splits failure.splits leader_reconcile_error.splits)

lemma slot_counts_state:
  "slot_counts slot l = (slot', l', fl) \<Longrightarrow> count_tick (slot_state slot l) = (slot_state slot' l', flow_of fl)"
  "slot_counts slot l = (slot', l', fl) \<Longrightarrow> same_market slot slot'"
  by (auto simp: slot_counts_def count_tick_def plus_w_def slot_state_def same_market_def split: if_split_asm)

lemma slot_tick_state:
  assumes "slot_tick W snap a slot l = (slot', l', fl)"
  shows "leader_tick (slot_world W slot) snap a (slot_state slot l) = (slot_state slot' l', flow_of fl)"
    and "same_market slot slot'"
proof -
  obtain kb r where t: "tick_with_snap (W\<lparr>bw_context := ms_ctx slot\<rparr>) snap (at_builder a) (ms_bot slot) = (kb, r)"
    by force
  have "leader_tick (slot_world W slot) snap a (slot_state slot l) = (slot_state slot' l', flow_of fl) \<and> same_market slot slot'"
  proof (cases r)
    case (Inl f)
    with assms t show ?thesis
      by (cases f) (auto simp: slot_tick_def leader_tick_def slot_world_def slot_state_def after_error_def stop_def
          same_market_def Let_def)
  next
    case (Inr p)
    obtain report builder where p: "p = (report, builder)" by force
    let ?s = "slot\<lparr>ms_bot := kb,
      ms_metrics := set_vol_samples (length (ve_samples (bo_vol kb)))
        (observe_tick (bw_floats W) (bw_round_i64 W) report (clamp_ms (at_elapsed_ms a)) (ms_metrics slot)),
      ms_sent := ms_sent slot @ [builder]\<rparr>"
    from assms t Inr p have c: "slot_counts ?s l = (slot', l', fl)" by (simp add: slot_tick_def)
    from slot_counts_state(1) [OF c] t Inr p
    have "leader_tick (slot_world W slot) snap a (slot_state slot l) = (slot_state slot' l', flow_of fl)"
      by (simp add: leader_tick_def after_tick_def slot_world_def slot_state_def)
    with slot_counts_state(2) [OF c] show ?thesis by (simp add: same_market_def)
  qed
  then show "leader_tick (slot_world W slot) snap a (slot_state slot l) = (slot_state slot' l', flow_of fl)"
    and "same_market slot slot'" by auto
qed

lemma slot_heartbeat_state:
  "heartbeat_step (slot_world W slot) submit (ms_rpc_cfg slot) now (slot_state slot l)
     = and_then (slot_heartbeat W submit now slot l) (\<lambda>(slot', l'). Ok (slot_state slot' l'))"
  "slot_heartbeat W submit now slot l = Ok (slot', l') \<Longrightarrow> same_market slot slot'"
proof -
  show "heartbeat_step (slot_world W slot) submit (ms_rpc_cfg slot) now (slot_state slot l)
     = and_then (slot_heartbeat W submit now slot l) (\<lambda>(slot', l'). Ok (slot_state slot' l'))"
  proof (cases "rc_heartbeat_every (ms_rpc_cfg slot)")
    case None
    then show ?thesis by (simp add: heartbeat_step_def slot_heartbeat_def)
  next
    case (Some every)
    then show ?thesis
      by (auto simp: heartbeat_step_def slot_heartbeat_def Let_def is_due_def slot_state_def and_then_assoc
          intro!: and_then_cong split: option.splits prod.splits sum.splits failure.splits)
  qed
  have sent: "same_market slot slot'"
    if c: "(case submit ix l of
              (l', Inr sig) \<Rightarrow> Ok (slot\<lparr>ms_last_heartbeat_tick := Some (ms_ticks slot)\<rparr>, l')
            | (l', Inl (Failed e)) \<Rightarrow> Ok (slot, l')
            | (l', Inl (Panicked msg)) \<Rightarrow> Panic msg) = (Ok (slot', l') :: (unit, _) result)" for ix
  proof -
    obtain l1 r where "submit ix l = (l1, r)" by force
    with c show ?thesis by (cases r) (auto simp: same_market_def split: failure.split_asm)
  qed
  assume h: "slot_heartbeat W submit now slot l = Ok (slot', l')"
  have refl: "same_market slot slot" by (simp add: same_market_def)
  show "same_market slot slot'"
  proof (cases "\<exists>every. rc_heartbeat_every (ms_rpc_cfg slot) = Some every
      \<and> (\<not> ms_was_leader_last_tick slot \<or> is_due (ms_last_heartbeat_tick slot) (ms_ticks slot) every)")
    case True
    then obtain every ix where "(case submit ix l of
              (l', Inr sig) \<Rightarrow> Ok (slot\<lparr>ms_last_heartbeat_tick := Some (ms_ticks slot)\<rparr>, l')
            | (l', Inl (Failed e)) \<Rightarrow> Ok (slot, l')
            | (l', Inl (Panicked msg)) \<Rightarrow> Panic msg) = (Ok (slot', l') :: (unit, _) result)"
      using h by (auto simp: slot_heartbeat_def Let_def is_due_def and_then_def split: sum.split_asm)
    from sent [OF this] show ?thesis .
  next
    case False
    with h refl show ?thesis by (auto simp: slot_heartbeat_def Let_def is_due_def split: option.split_asm if_split_asm)
  qed
qed

text \<open>One step of a slot is one iteration of the loop of a single market.\<close>

lemma slot_iteration:
  assumes "tick_one_slot W submit a slot l = (slot', l', fl)" and "\<not> at_shutdown a"
  shows "reconcile_loop_body (slot_world W slot) submit (ms_rpc_cfg slot) None a (slot_state slot l)
      = (slot_state slot' l', flow_of fl)"
    and "same_market slot slot'"
proof -
  let ?W = "slot_world W slot" and ?cfg = "ms_rpc_cfg slot"
  have "reconcile_loop_body ?W submit ?cfg None a (slot_state slot l) = (slot_state slot' l', flow_of fl)
    \<and> same_market slot slot'"
  proof (cases "map_err BotSnapshot (snapshot_refresh (bw_types W) (at_fetcher a) (ms_ctx slot) default_snapshot_config)")
    case (Inl f)
    with assms show ?thesis
      by (cases f) (auto simp: tick_one_slot_def reconcile_loop_body_def tick_limit_reached_def after_error_def
          stop_def slot_state_def same_market_def Let_def)
  next
    case (Inr snap)
    define s1 where "s1 = slot_reconcile W (at_fetcher a) slot"
    have r: "slot_state s1 l = reconcile_step ?W ?cfg (at_fetcher a) (slot_state slot l)" "same_market slot s1"
      using slot_reconcile_state [where W = W and f = "at_fetcher a" and slot = slot] by (simp_all add: s1_def)
    obtain p leads where p: "policy_should_submit (best_slot_or_zero snap) (ms_policy s1) = (p, leads)" by force
    define s2 where "s2 = s1\<lparr>ms_policy := p,
      ms_metrics := set_leader_status (if leads then StatusLeader else StatusStandby) (ms_metrics s1)\<rparr>"
    have s2: "slot_state s2 l = slot_state s1 l\<lparr>rs_policy := p, rs_metrics := set_leader_status
        (if leads then StatusLeader else StatusStandby) (rs_metrics (slot_state s1 l))\<rparr>"
      and m2: "same_market slot s2" using r(2) by (simp_all add: s2_def slot_state_def same_market_def)
    have pol: "rs_policy (slot_state s1 l) = ms_policy s1" by (simp add: slot_state_def)
    have body: "reconcile_loop_body ?W submit ?cfg None a (slot_state slot l)
      = (if \<not> leads then count_tick ((slot_state s2 l)\<lparr>rs_was_leader := False\<rparr>)
         else case heartbeat_step ?W submit ?cfg (best_slot_or_zero snap) (slot_state s2 l) of
             Inl (Panicked msg) \<Rightarrow> (slot_state s2 l, Aborts msg)
           | Inl (Failed u) \<Rightarrow> (slot_state s2 l, Continue)
           | Inr s3 \<Rightarrow> leader_tick ?W snap a (s3\<lparr>rs_was_leader := True\<rparr>))"
      using assms(2) Inr p pol
      by (simp add: reconcile_loop_body_def tick_limit_reached_def s2 r(1) [symmetric] Let_def)
         (auto simp: s2 split: sum.splits failure.splits)
    show ?thesis
    proof (cases leads)
      case False
      let ?s = "s2\<lparr>ms_was_leader_last_tick := False\<rparr>"
      have c: "slot_counts ?s l = (slot', l', fl)"
        using assms(1) Inr p False by (simp add: tick_one_slot_def s1_def [symmetric] s2_def)
      have e: "slot_state ?s l = (slot_state s2 l)\<lparr>rs_was_leader := False\<rparr>" by (simp add: slot_state_def)
      have "same_market slot slot'" using slot_counts_state(2) [OF c] m2 by (simp add: same_market_def)
      then show ?thesis unfolding body using False slot_counts_state(1) [OF c, unfolded e] by simp
    next
      case True
      have W2: "slot_world W s2 = ?W" "ms_rpc_cfg s2 = ?cfg"
        using m2 unfolding same_market_def by (blast intro: slot_world_same)+
      note beat = slot_heartbeat_state(1) [of W s2 submit "best_slot_or_zero snap" l, unfolded W2]
      have step: "(slot', l', fl) = (case slot_heartbeat W submit (best_slot_or_zero snap) s2 l of
            Inl (Panicked msg) \<Rightarrow> (s2, l, SlotAborts msg)
          | Inl (Failed u) \<Rightarrow> (s2, l, SlotLives)
          | Inr (slot3, l') \<Rightarrow> slot_tick W snap a (slot3\<lparr>ms_was_leader_last_tick := True\<rparr>) l')"
      proof -
        have e: "s2 = s1\<lparr>ms_policy := p, ms_metrics := set_leader_status StatusLeader (ms_metrics s1)\<rparr>"
          using True by (simp add: s2_def)
        show ?thesis using assms(1) Inr p True unfolding e
          by (simp add: tick_one_slot_def s1_def [symmetric] Let_def)
      qed
      show ?thesis
      proof (cases "slot_heartbeat W submit (best_slot_or_zero snap) s2 l")
        case (Inl f)
        with step m2 show ?thesis unfolding body beat using True by (cases f) auto
      next
        case (Inr q)
        obtain s3 l3 where q: "q = (s3, l3)" by force
        have m3: "same_market slot s3" using slot_heartbeat_state(2) [OF Inr [unfolded q]] m2 by (simp add: same_market_def)
        let ?s = "s3\<lparr>ms_was_leader_last_tick := True\<rparr>"
        have t: "slot_tick W snap a ?s l3 = (slot', l', fl)" using step Inr q by simp
        have "slot_world W ?s = ?W" using m3 by (simp add: slot_world_def same_market_def)
        moreover have "slot_state ?s l3 = (slot_state s3 l3)\<lparr>rs_was_leader := True\<rparr>" by (simp add: slot_state_def)
        ultimately have run: "leader_tick ?W snap a ((slot_state s3 l3)\<lparr>rs_was_leader := True\<rparr>) = (slot_state slot' l', flow_of fl)"
          using slot_tick_state(1) [OF t] by metis
        have "same_market slot slot'" using slot_tick_state(2) [OF t] m3 by (simp add: same_market_def)
        then show ?thesis unfolding body beat using True Inr q run by simp
      qed
    qed
  qed
  then show "reconcile_loop_body (slot_world W slot) submit (ms_rpc_cfg slot) None a (slot_state slot l)
      = (slot_state slot' l', flow_of fl)" and "same_market slot slot'" by auto
qed

section \<open>A pass\<close>

text \<open>What one pass does to one slot: nothing if it has finished, otherwise one iteration alone.\<close>

definition slot_passes ::
  "('f, 'b) bot_world \<Rightarrow> 'l leader_builder \<Rightarrow> 'b attempt \<Rightarrow> ('f, 'b) market_slot \<Rightarrow> 'l \<Rightarrow> ('f, 'b) market_slot \<Rightarrow> 'l
   \<Rightarrow> bool" where
  "slot_passes W submit a slot l slot' l' \<longleftrightarrow>
     (if ms_finished slot \<noteq> None then slot' = slot \<and> l' = l
      else \<exists>fl. reconcile_loop_body (slot_world W slot) submit (ms_rpc_cfg slot) None a (slot_state slot l)
          = (slot_state slot' l', fl)
        \<and> ms_finished slot' = (case fl of Return out \<Rightarrow> Some out | Continue \<Rightarrow> None | Aborts msg \<Rightarrow> None)
        \<and> ms_label slot' = ms_label slot \<and> ms_ctx slot' = ms_ctx slot \<and> ms_rpc_cfg slot' = ms_rpc_cfg slot)"

lemma slot_passes_step:
  assumes "tick_one_slot W submit a slot l = (slot', l', fl)" and "\<not> at_shutdown a" and "ms_finished slot = None"
  shows "fl = SlotLives \<Longrightarrow> slot_passes W submit a slot l slot' l'"
    and "fl = SlotEnds out \<Longrightarrow> slot_passes W submit a slot l (slot'\<lparr>ms_finished := Some out\<rparr>) l'"
proof -
  note s = slot_iteration [OF assms(1,2)]
  have "slot_state (slot'\<lparr>ms_finished := Some out\<rparr>) l' = slot_state slot' l'" by (simp add: slot_state_def)
  with s assms(3) show "fl = SlotLives \<Longrightarrow> slot_passes W submit a slot l slot' l'"
    and "fl = SlotEnds out \<Longrightarrow> slot_passes W submit a slot l (slot'\<lparr>ms_finished := Some out\<rparr>) l'"
    by (auto simp: slot_passes_def same_market_def)
qed

text \<open>The builders \<open>bs\<close> are those between the slots.\<close>

lemma walk_passes:
  assumes "walk_slots W submit att i slots l = (slots', l', fin, None)" and "\<And>j. \<not> at_shutdown (att j)"
  shows "length slots' = length slots
    \<and> (\<exists>bs. length bs = Suc (length slots) \<and> bs ! 0 = l \<and> bs ! length slots = l'
        \<and> (\<forall>j<length slots. slot_passes W submit (att (i + j)) (slots ! j) (bs ! j) (slots' ! j) (bs ! Suc j)))"
  using assms(1)
proof (induction slots arbitrary: i l slots' l' fin)
  case Nil
  then show ?case by (auto intro: exI [of _ "[l]"])
next
  case (Cons slot slots)
  obtain slot1 l1 fl where t: "tick_one_slot W submit (att i) slot l = (slot1, l1, fl)" by (metis prod_cases3)
  have "\<exists>slot2 l2 rest fin2. slots' = slot2 # rest \<and> slot_passes W submit (att i) slot l slot2 l2
      \<and> walk_slots W submit att (Suc i) slots l2 = (rest, l', fin2, None)"
  proof (cases "ms_finished slot = None")
    case False
    with Cons.prems show ?thesis
      by (auto simp: slot_passes_def split: prod.splits intro!: exI [of _ l])
  next
    case True
    note s = slot_passes_step [OF t assms(2) True]
    from Cons.prems True t s show ?thesis
      by (cases fl) (fastforce split: prod.splits)+
  qed
  then obtain slot2 l2 rest fin2 where r: "slots' = slot2 # rest" "slot_passes W submit (att i) slot l slot2 l2"
    "walk_slots W submit att (Suc i) slots l2 = (rest, l', fin2, None)" by blast
  from Cons.IH [OF r(3)] obtain bs where bs: "length rest = length slots" "length bs = Suc (length slots)" "bs ! 0 = l2"
    "bs ! length slots = l'"
    "\<forall>j<length slots. slot_passes W submit (att (Suc i + j)) (slots ! j) (bs ! j) (rest ! j) (bs ! Suc j)" by blast
  have "\<forall>j<length (slot # slots). slot_passes W submit (att (i + j)) ((slot # slots) ! j) ((l # bs) ! j) (slots' ! j) ((l # bs) ! Suc j)"
  proof (intro allI impI)
    fix j assume "j < length (slot # slots)"
    with bs r show "slot_passes W submit (att (i + j)) ((slot # slots) ! j) ((l # bs) ! j) (slots' ! j) ((l # bs) ! Suc j)"
      by (cases j) auto
  qed
  with bs r(1) show ?case by (intro conjI exI [of _ "l # bs"]) auto
qed

section \<open>The loop\<close>

lemma run_passes_cases:
  "body (env i) s = (s', NextPass) \<Longrightarrow> run_passes body env i s = run_passes body env (Suc i) s'"
  "body (env i) s = (s', LoopEnds) \<Longrightarrow> run_passes body env i s = Some (s', None)"
  "body (env i) s = (s', LoopAborts msg) \<Longrightarrow> run_passes body env i s = Some (s', Some msg)"
  by (subst run_passes.simps, simp)+

lemma next_pass:
  assumes "multi_body W submit max_passes pass st = (st', NextPass)"
  shows "mu_passes st' = mu_passes st + 1 \<and> max_passes \<noteq> Some (mu_passes st) \<and> (\<forall>n. max_passes = Some n \<longrightarrow> mu_passes st < n)"
  using assms
  by (auto simp: multi_body_def plus_w_def Let_def split: if_split_asm option.split_asm prod.split_asm)

lemma bounded_passes_return:
  "\<exists>st' r. run_passes (multi_body W submit (Some n)) env i st = Some (st', r) \<and> mu_passes st' \<le> max n (mu_passes st)"
proof (induction "n - mu_passes st" arbitrary: i st rule: less_induct)
  case less
  obtain st1 fl where b: "multi_body W submit (Some n) (env i) st = (st1, fl)" by force
  show ?case
  proof (cases fl)
    case NextPass
    with next_pass [of W submit "Some n"] b have m: "mu_passes st1 = mu_passes st + 1" "mu_passes st < n" by auto
    then have "n - mu_passes st1 < n - mu_passes st" by simp
    from less [OF this, of "Suc i"] obtain st' r where
      "run_passes (multi_body W submit (Some n)) env (Suc i) st1 = Some (st', r)" "mu_passes st' \<le> max n (mu_passes st1)" by blast
    moreover have "max n (mu_passes st1) = max n (mu_passes st)" using m by simp
    ultimately show ?thesis using run_passes_cases(1) [where body = "multi_body W submit (Some n)" and env = env and i = i, OF b [unfolded NextPass]] by auto
  next
    case LoopEnds
    have "mu_passes st1 \<le> max n (mu_passes st)"
      using b LoopEnds by (auto simp: multi_body_def plus_w_def Let_def split: if_split_asm option.split_asm prod.split_asm)
    with run_passes_cases(2) [where body = "multi_body W submit (Some n)" and env = env and i = i, OF b [unfolded LoopEnds]] show ?thesis by blast
  next
    case (LoopAborts msg)
    have "mu_passes st1 \<le> max n (mu_passes st)"
      using b LoopAborts by (auto simp: multi_body_def plus_w_def Let_def split: if_split_asm option.split_asm prod.split_asm)
    with run_passes_cases(3) [where body = "multi_body W submit (Some n)" and env = env and i = i, OF b [unfolded LoopAborts]] show ?thesis by blast
  qed
qed

lemma worst_reason:
  "fold (\<lambda>slot worst. promote_worst worst (ro_reason (taken_outcome slot))) slots why
    = (if why = PermanentError \<or> (\<exists>s\<in>set slots. ro_reason (taken_outcome s) = PermanentError) then PermanentError
       else if why = ShutdownSignal \<or> (\<exists>s\<in>set slots. ro_reason (taken_outcome s) = ShutdownSignal) then ShutdownSignal
       else TickLimitReached)"
proof (induction slots arbitrary: why)
  case Nil
  show ?case by (cases why) auto
next
  case (Cons s slots)
  show ?case
    unfolding fold.simps comp_def Cons.IH
    by (cases why; cases "ro_reason (taken_outcome s)") (auto simp: promote_worst_def reason_rank_def)
qed

lemma aggregate_reason:
  "mo_reason (aggregate st) = (if \<exists>m\<in>set (mo_per_market (aggregate st)). pm_reason m = PermanentError
     then PermanentError else ShutdownSignal)"
  by (simp add: aggregate_def worst_reason)

section \<open>The release at shutdown\<close>

definition must_release :: "('f, 'b) market_slot \<Rightarrow> bool" where
  "must_release slot \<longleftrightarrow> ms_finished slot = None \<and> ms_was_leader_last_tick slot \<and> rc_release_on_shutdown (ms_rpc_cfg slot)"

definition release_of :: "('f, 'b) bot_world \<Rightarrow> ('f, 'b) market_slot \<Rightarrow> leader_instruction" where
  "release_of W slot = leader_ix (mx_program_id (ms_ctx slot)) (mx_market (ms_ctx slot))
     (rc_lock_pda (ms_rpc_cfg slot)) (bw_keeper W) (instruction_discriminator (bw_sha256 W) ''keeper_leader_release'')"

lemma built_release:
  "build_keeper_leader_release (bw_borsh W) (bw_sha256 W) (mx_program_id (ms_ctx slot)) (mx_market (ms_ctx slot))
     (rc_lock_pda (ms_rpc_cfg slot)) (bw_keeper W) = Ok (release_of W slot)"
  by (simp add: build_keeper_leader_release_def encode_keeper_leader_release_def encode_with_discriminator_def release_of_def)

lemma releases_submitted:
  assumes "ml_force_err l = None"
  shows "\<exists>slots' l'. release_slots W mock_submit_leader_ix slots l = (slots', l', None)
    \<and> ml_submitted l' = ml_submitted l @ map (release_of W) (filter must_release slots)
    \<and> ml_force_err l' = None \<and> map ms_label slots' = map ms_label slots \<and> (\<forall>s\<in>set slots'. ms_finished s \<noteq> None)"
  using assms
proof (induction slots arbitrary: l)
  case (Cons slot slots)
  let ?l1 = "if must_release slot then l\<lparr>ml_submitted := ml_submitted l @ [release_of W slot]\<rparr> else l"
  have "ml_force_err ?l1 = None" using Cons.prems by simp
  from Cons.IH [OF this] obtain slots' l' where
    r: "release_slots W mock_submit_leader_ix slots ?l1 = (slots', l', None)"
      "ml_submitted l' = ml_submitted ?l1 @ map (release_of W) (filter must_release slots)"
      "ml_force_err l' = None" "map ms_label slots' = map ms_label slots" "\<forall>s\<in>set slots'. ms_finished s \<noteq> None" by auto
  have t: "try_graceful_release (W\<lparr>bw_context := ms_ctx slot\<rparr>) mock_submit_leader_ix (ms_rpc_cfg slot)
      (ms_was_leader_last_tick slot) l = (?l1, Ok None)" if "ms_finished slot = None"
    using that Cons.prems built_release [of W slot]
    by (auto simp: try_graceful_release_def must_release_def mock_submit_leader_ix_def)
  show ?case
  proof (cases "ms_finished slot = None")
    case True
    have "release_slots W mock_submit_leader_ix (slot # slots) l = (finish_slot ShutdownSignal slot # slots', l', None)"
      using True t [OF True] r(1) by simp
    with r(2-5) show ?thesis by (auto simp: finish_slot_def)
  next
    case False
    then have "?l1 = l" "\<not> must_release slot" by (simp_all add: must_release_def)
    with False r show ?thesis by auto
  qed
qed simp

section \<open>From the registry\<close>

lemma add_entries_Ok:
  assumes "\<forall>m\<in>set ms. \<exists>slot. mk m = Ok slot \<and> ms_label slot = me_symbol m"
    and "distinct (map ms_label out @ map me_symbol ms)"
  shows "\<exists>slots. add_entries mk ms out = Ok (out @ slots) \<and> map ms_label slots = map me_symbol ms"
  using assms
proof (induction ms arbitrary: out)
  case (Cons m ms)
  then obtain slot where slot: "mk m = Ok slot" "ms_label slot = me_symbol m" by auto
  have "add_slot slot out = Ok (out @ [slot])" using Cons.prems(2) slot(2) by (auto simp: add_slot_def image_iff)
  with Cons.IH [of "out @ [slot]"] Cons.prems slot show ?case by auto
qed simp

end
