(* ===== verification/Account_Facts.thy ===== *)
theory Account_Facts
  imports Account_Codec
begin

text \<open>
  The codec of every account mirror is lawful, with the width of its fields; what decoding an
  account returns when the bytes are an encoding, with and without anything after it; and that no
  bytes decode both as a ledger and as a bucket. At the end the little-endian instance of the
  codecs, which shows that the law can hold.
\<close>

section \<open>The struct codecs are lawful\<close>

named_theorems codec_laws "lawful codecs"

lemma lawful_onchain_dist_entry [codec_laws]:
  assumes "borsh_lawful B"
  shows "lawful (onchain_dist_entry_codec B) onchain_dist_entry_ok (\<lambda>_. 64)"
  unfolding onchain_dist_entry_codec_def
  by (rule lawful_struct, (rule lawful_pair borsh_lawfulD [OF assms])+)
    (simp_all add: onchain_dist_entry_ok_def split_beta)

lemma lawful_leader_lock [codec_laws]:
  assumes "borsh_lawful B"
  shows "lawful (leader_lock_codec B) leader_lock_ok (\<lambda>_. 49)"
  unfolding leader_lock_codec_def
  by (rule lawful_struct, (rule lawful_pair borsh_lawfulD [OF assms])+)
    (simp_all add: leader_lock_ok_def split_beta)

lemma lawful_onchain_sub_pool [codec_laws]:
  assumes "borsh_lawful B"
  shows "lawful (onchain_sub_pool_codec B) onchain_sub_pool_ok (\<lambda>_. 244)"
  unfolding onchain_sub_pool_codec_def
  by (rule lawful_struct, (rule lawful_pair borsh_lawfulD [OF assms])+)
    (simp_all add: onchain_sub_pool_ok_def split_beta)

lemma lawful_onchain_dormant_bucket [codec_laws]:
  assumes "borsh_lawful B"
  shows "lawful (onchain_dormant_bucket_codec B) onchain_dormant_bucket_ok (\<lambda>_. 120)"
  unfolding onchain_dormant_bucket_codec_def
  by (rule lawful_struct, (rule lawful_pair borsh_lawfulD [OF assms])+)
    (simp_all add: onchain_dormant_bucket_ok_def split_beta)

lemma lawful_onchain_distribution_ledger [codec_laws]:
  assumes "borsh_lawful B"
  shows "lawful (onchain_distribution_ledger_codec B) onchain_distribution_ledger_ok
    (\<lambda>l. 101 + 64 * length (xl_entries l))"
  unfolding onchain_distribution_ledger_codec_def
  by (rule lawful_struct, (rule lawful_pair borsh_lawfulD [OF assms] lawful_onchain_dist_entry [OF assms])+)
    (simp_all add: onchain_distribution_ledger_ok_def split_beta)

lemma lawful_onchain_market [codec_laws]:
  assumes "borsh_lawful B"
  shows "lawful (onchain_market_codec B) onchain_market_ok (\<lambda>_. 364)"
  unfolding onchain_market_codec_def
  by (rule lawful_struct, (rule lawful_pair borsh_lawfulD [OF assms])+)
    (simp_all add: onchain_market_ok_def split_beta)

lemma lawful_onchain_position [codec_laws]:
  assumes "borsh_lawful B"
  shows "lawful (onchain_position_codec B) onchain_position_ok (\<lambda>_. 239)"
  unfolding onchain_position_codec_def
  by (rule lawful_struct, (rule lawful_pair borsh_lawfulD [OF assms])+)
    (simp_all add: onchain_position_ok_def split_beta)

section \<open>Decoding accounts\<close>

lemma decode_encoded:
  assumes "lawful c ok width" and "ok x" and "length disc = 8"
  obtains bs where "encode_anchor_account c x disc = Inr bs" and "length bs = 8 + width x"
    and "\<And>extra. decode_anchor_account c (bs @ extra)
      = (if extra = [] then Inr x else Inl (Failed (BorshDecode ''Not all bytes read'')))"
    and "decode_anchor_account_with_discriminator c bs disc = Inr x"
proof -
  from lawfulD(1) [OF assms(1,2)] obtain b where b: "cd_put c x = Inr b" "length b = width x"
      "\<And>rest. cd_get c (b @ rest) = Inr (x, rest)" by blast
  from b(3) [of "[]"] have b0: "cd_get c b = Inr (x, [])" by simp
  show thesis
    by (rule that [of "disc @ b"])
      (simp_all add: encode_anchor_account_def decode_anchor_account_def ANCHOR_DISCRIMINATOR_LEN_def
        decode_anchor_account_with_discriminator_def try_from_slice_def b b0 assms(3))
qed

lemma decode_only_encodings:
  assumes "lawful c ok width" and "is_bytes bs" and "decode_anchor_account c bs = Inr x"
  shows "ok x" and "encode_anchor_account c x (take 8 bs) = Inr bs" and "length bs = 8 + width x"
proof -
  from assms(3) have len: "8 \<le> length bs" and get: "cd_get c (drop 8 bs) = Inr (x, [])"
    by (auto simp: decode_anchor_account_def try_from_slice_def ANCHOR_DISCRIMINATOR_LEN_def split: if_splits)
  have body: "is_bytes (drop 8 bs)" using assms(2) by (auto simp: is_bytes_def dest: in_set_dropD)
  show ok: "ok x" using lawfulD(2) [OF assms(1) body get] .
  from lawfulD(3) [OF assms(1) body get] have put: "cd_put c x = Inr (drop 8 bs)" by auto
  then show "encode_anchor_account c x (take 8 bs) = Inr bs" by (simp add: encode_anchor_account_def)
  from lawfulD(1) [OF assms(1) ok] put have "length (drop 8 bs) = width x" by auto
  with len show "length bs = 8 + width x" by simp
qed

lemma decode_unread_tail:
  assumes "lawful c ok width" and "ok x" and "length disc = 8" and "encode_anchor_account c x disc = Inr bs"
    and "extra \<noteq> []"
  shows "decode_anchor_account c (bs @ extra) = Inl (Failed (BorshDecode ''Not all bytes read''))"
  using decode_encoded [OF assms(1-3)] assms(4,5) by (metis sum.inject(2))

text \<open>An account decodes as a ledger or as a bucket, never as both: the lengths differ.\<close>

lemma ledger_or_bucket:
  assumes "borsh_lawful B" and "is_bytes bs"
    and "decode_anchor_account (onchain_distribution_ledger_codec B) bs = Inr l"
  shows "decode_anchor_account (onchain_dormant_bucket_codec B) bs \<noteq> Inr b"
proof
  assume "decode_anchor_account (onchain_dormant_bucket_codec B) bs = Inr b"
  from decode_only_encodings(3) [OF lawful_onchain_dormant_bucket [OF assms(1)] assms(2) this]
    decode_only_encodings(3) [OF lawful_onchain_distribution_ledger [OF assms(1)] assms(2,3)]
  have "101 + 64 * length (xl_entries l) = 120" by simp
  then show False by presburger
qed

section \<open>The little-endian instance\<close>

definition nat_codec :: "nat \<Rightarrow> nat codec" where
  "nat_codec n = \<lparr>cd_put = (\<lambda>v. Ok (le_bytes n v)),
     cd_get = (\<lambda>bs. if length bs < n then Err ''Unexpected length of input''
                    else Ok (le_value (take n bs), drop n bs))\<rparr>"

definition int_codec :: "int codec" where
  "int_codec = \<lparr>cd_put = (\<lambda>z. Ok (i64_le z)),
     cd_get = (\<lambda>bs. if length bs < 8 then Err ''Unexpected length of input''
                    else Ok (signed_of 64 (le_value (take 8 bs)), drop 8 bs))\<rparr>"

definition bool_codec :: "bool codec" where
  "bool_codec = \<lparr>cd_put = (\<lambda>b. Ok (bool_le b)),
     cd_get = (\<lambda>bs. case bs of [] \<Rightarrow> Err ''Unexpected length of input''
        | b # rest \<Rightarrow> if b = 0 then Ok (False, rest) else if b = 1 then Ok (True, rest)
                      else Err ''Invalid bool representation'')\<rparr>"

definition bytes_codec :: "nat \<Rightarrow> u8 list codec" where
  "bytes_codec n = \<lparr>cd_put = (\<lambda>xs. Ok xs),
     cd_get = (\<lambda>bs. if length bs < n then Err ''Unexpected length of input''
                    else Ok (take n bs, drop n bs))\<rparr>"

primrec put_all :: "('a \<Rightarrow> (string, u8 list) result) \<Rightarrow> 'a list \<Rightarrow> (string, u8 list) result" where
  "put_all put [] = Ok []"
| "put_all put (x # xs) = and_then (put x) (\<lambda>bs. and_then (put_all put xs) (\<lambda>cs. Ok (bs @ cs)))"

primrec get_all ::
  "(u8 list \<Rightarrow> (string, 'a \<times> u8 list) result) \<Rightarrow> nat \<Rightarrow> u8 list \<Rightarrow> (string, 'a list \<times> u8 list) result" where
  "get_all get 0 bs = Ok ([], bs)"
| "get_all get (Suc n) bs = and_then (get bs) (\<lambda>(x, rest). and_then (get_all get n rest) (\<lambda>(xs, rest').
     Ok (x # xs, rest')))"

definition vec_codec :: "'a codec \<Rightarrow> 'a list codec" where
  "vec_codec c = \<lparr>cd_put = (\<lambda>xs. and_then (put_all (cd_put c) xs) (\<lambda>bs. Ok (le_bytes 4 (length xs) @ bs))),
     cd_get = (\<lambda>bs. and_then (cd_get (nat_codec 4) bs) (\<lambda>(n, rest). get_all (cd_get c) n rest))\<rparr>"

definition le_borsh :: borsh_types where
  "le_borsh = \<lparr>ty_u8 = nat_codec 1, ty_u16 = nat_codec 2, ty_u32 = nat_codec 4, ty_u64 = nat_codec 8,
     ty_u128 = nat_codec 16, ty_i64 = int_codec, ty_bool = bool_codec, ty_bytes = bytes_codec,
     ty_vec = vec_codec\<rparr>"

lemma is_bytes_le [simp]: "is_bytes (le_bytes n v)"
  using le_bytes_byte by (auto simp: is_bytes_def)

lemma is_bytes_slice: "is_bytes bs \<Longrightarrow> is_bytes (take n bs)" "is_bytes bs \<Longrightarrow> is_bytes (drop n bs)"
  by (auto simp: is_bytes_def dest: in_set_takeD in_set_dropD)

lemma le_slice:
  assumes "is_bytes bs" and "n \<le> length bs"
  shows "le_value (take n bs) < 256 ^ n" and "le_bytes n (le_value (take n bs)) = take n bs"
proof -
  have b: "\<And>b. b \<in> set (take n bs) \<Longrightarrow> b < 256" using assms(1) by (auto simp: is_bytes_def dest: in_set_takeD)
  then show "le_value (take n bs) < 256 ^ n" using le_value_less [of "take n bs"] assms(2) by (simp add: min_absorb2)
  show "le_bytes n (le_value (take n bs)) = take n bs"
    using le_bytes_le_value [of "take n bs"] b assms(2) by (simp add: min_absorb2)
qed

lemma lawful_nat: "lawful (nat_codec n) (\<lambda>v. v < 256 ^ n) (\<lambda>_. n)"
  unfolding lawful_def
proof (intro conjI allI impI)
  fix v :: nat assume "v < 256 ^ n"
  then show "\<exists>bs. cd_put (nat_codec n) v = Inr bs \<and> length bs = n \<and> is_bytes bs
      \<and> (\<forall>rest. cd_get (nat_codec n) (bs @ rest) = Inr (v, rest))"
    by (simp add: nat_codec_def le_value_le_bytes)
next
  fix bs v rest assume b: "is_bytes bs" and g: "cd_get (nat_codec n) bs = Inr (v, rest)"
  then have n: "n \<le> length bs" and v: "v = le_value (take n bs)" "rest = drop n bs"
    by (auto simp: nat_codec_def split: if_splits)
  show "v < 256 ^ n" using le_slice(1) [OF b n] v by simp
  show "\<exists>b0. cd_put (nat_codec n) v = Inr b0 \<and> bs = b0 @ rest"
    using le_slice(2) [OF b n] by (simp add: nat_codec_def v)
qed

lemma lawful_int: "lawful int_codec (fits_signed 64) (\<lambda>_. 8)"
  unfolding lawful_def
proof (intro conjI allI impI)
  fix z :: int assume z: "fits_signed 64 z"
  then show "\<exists>bs. cd_put int_codec z = Inr bs \<and> length bs = 8 \<and> is_bytes bs
      \<and> (\<forall>rest. cd_get int_codec (bs @ rest) = Inr (z, rest))"
    using i64c.length_enc [OF z] i64c.dec_enc [OF z] by (simp add: int_codec_def) (simp add: i64_le_def)
next
  fix bs z rest assume b: "is_bytes bs" and g: "cd_get int_codec bs = Inr (z, rest)"
  then have n: "8 \<le> length bs" and v: "z = signed_of 64 (le_value (take 8 bs))" "rest = drop 8 bs"
    by (auto simp: int_codec_def split: if_splits)
  let ?v = "le_value (take 8 bs)"
  have lt: "?v < 2 ^ 64" using le_slice(1) [OF b n] by simp
  then show "fits_signed 64 z" by (auto simp: v(1) signed_of_def fits_signed_def)
  have "unsigned_of 64 z = ?v"
  proof (cases "?v < 2 ^ 63")
    case True
    then show ?thesis by (simp add: v(1) signed_of_def unsigned_of_def nat_mod_as_int [symmetric] zmod_int [symmetric])
  next
    case False
    have "(int ?v - 2 ^ 64) mod 2 ^ 64 = int ?v" using lt
      by (simp add: mod_diff_right_eq [symmetric])
    with False show ?thesis by (simp add: v(1) signed_of_def unsigned_of_def)
  qed
  then show "\<exists>b0. cd_put int_codec z = Inr b0 \<and> bs = b0 @ rest"
    using le_slice(2) [OF b n] by (simp add: int_codec_def i64_le_def v(2))
qed

lemma lawful_bool: "lawful bool_codec (\<lambda>_. True) (\<lambda>_. 1)"
  unfolding lawful_def
  by (auto simp: bool_codec_def bool_le_def is_bytes_def split: list.splits if_splits)

lemma lawful_bytes: "lawful (bytes_codec n) (is_array n) (\<lambda>_. n)"
  unfolding lawful_def by (auto simp: bytes_codec_def is_array_def is_bytes_slice split: if_splits)

lemma lawful_vec:
  assumes "lawful c ok (\<lambda>_. m)"
  shows "lawful (vec_codec c) (\<lambda>xs. length xs < 2 ^ 32 \<and> (\<forall>x\<in>set xs. ok x)) (\<lambda>xs. 4 + m * length xs)"
  unfolding lawful_def
proof (intro conjI allI impI)
  fix xs assume xs: "length xs < 2 ^ 32 \<and> (\<forall>x\<in>set xs. ok x)"
  have "\<forall>x\<in>set xs. ok x \<Longrightarrow> \<exists>bs. put_all (cd_put c) xs = Inr bs \<and> length bs = m * length xs \<and> is_bytes bs
      \<and> (\<forall>rest. get_all (cd_get c) (length xs) (bs @ rest) = Inr (xs, rest))"
  proof (induction xs)
    case Nil
    then show ?case by (simp add: is_bytes_def)
  next
    case (Cons x xs)
    from Cons obtain bs where "put_all (cd_put c) xs = Inr bs" "length bs = m * length xs" "is_bytes bs"
        "\<And>rest. get_all (cd_get c) (length xs) (bs @ rest) = Inr (xs, rest)" by auto
    moreover from lawfulD(1) [OF assms, of x] Cons.prems obtain b where "cd_put c x = Inr b" "length b = m"
        "is_bytes b" "\<And>rest. cd_get c (b @ rest) = Inr (x, rest)" by auto
    ultimately show ?case by (intro exI [of _ "b @ bs"]) simp
  qed
  with xs obtain bs where bs: "put_all (cd_put c) xs = Inr bs" "length bs = m * length xs" "is_bytes bs"
      "\<And>rest. get_all (cd_get c) (length xs) (bs @ rest) = Inr (xs, rest)" by blast
  have "length xs < 256 ^ 4" using xs by simp
  then show "\<exists>bs. cd_put (vec_codec c) xs = Inr bs \<and> length bs = 4 + m * length xs \<and> is_bytes bs
      \<and> (\<forall>rest. cd_get (vec_codec c) (bs @ rest) = Inr (xs, rest))"
    by (intro exI [of _ "le_bytes 4 (length xs) @ bs"])
      (simp add: vec_codec_def nat_codec_def le_value_le_bytes bs)
next
  fix bs xs rest assume b: "is_bytes bs" and g: "cd_get (vec_codec c) bs = Inr (xs, rest)"
  then obtain n mid where n: "cd_get (nat_codec 4) bs = Inr (n, mid)" and a: "get_all (cd_get c) n mid = Inr (xs, rest)"
    by (auto simp: vec_codec_def)
  from lawfulD(3) [OF lawful_nat b n] have b0: "bs = le_bytes 4 n @ mid" by (simp add: nat_codec_def)
  have all: "length xs = n \<and> (\<forall>x\<in>set xs. ok x) \<and> (\<exists>b0. put_all (cd_put c) xs = Inr b0 \<and> mid = b0 @ rest)"
    if "is_bytes mid" "get_all (cd_get c) n mid = Inr (xs, rest)" for n mid xs
    using that
  proof (induction n arbitrary: mid xs)
    case (Suc n)
    from Suc.prems(2) obtain x r1 ys where g1: "cd_get c mid = Inr (x, r1)" "get_all (cd_get c) n r1 = Inr (ys, rest)"
        "xs = x # ys" by auto
    from lawfulD(2,3) [OF assms Suc.prems(1) g1(1)] obtain b1 where "ok x" "cd_put c x = Inr b1" "mid = b1 @ r1" by blast
    moreover from this Suc.prems(1) have "is_bytes r1" by simp
    from Suc.IH [OF this g1(2)] obtain b2 where "length ys = n" "\<forall>x\<in>set ys. ok x"
        "put_all (cd_put c) ys = Inr b2" "r1 = b2 @ rest" by blast
    ultimately show ?case by (simp add: g1(3))
  qed simp
  have "is_bytes mid" using b b0 by simp
  from all [OF this a] lawfulD(2) [OF lawful_nat b n] show "length xs < 2 ^ 32" "\<forall>x\<in>set xs. ok x" by simp_all
  from all [OF \<open>is_bytes mid\<close> a] show "\<exists>b0. cd_put (vec_codec c) xs = Inr b0 \<and> bs = b0 @ rest"
    by (auto simp: vec_codec_def b0)
qed

lemma le_borsh_lawful: "borsh_lawful le_borsh"
proof -
  have "\<forall>(c :: onchain_dist_entry codec) ok n. lawful c ok (\<lambda>_. n) \<longrightarrow> lawful (vec_codec c)
      (\<lambda>xs. length xs < 2 ^ 32 \<and> (\<forall>x\<in>set xs. ok x)) (\<lambda>xs. 4 + n * length xs)"
    using lawful_vec by blast
  then show ?thesis
    using lawful_nat [of 1] lawful_nat [of 2] lawful_nat [of 4] lawful_nat [of 8] lawful_nat [of 16]
      lawful_int lawful_bool lawful_bytes
    by (simp add: borsh_lawful_def le_borsh_def)
qed

end
