(* ===== verification/Snapshot_Facts.thy ===== *)
theory Snapshot_Facts
  imports Rpc_Executor Account_Facts
begin

text \<open>
  What a refreshed snapshot holds, against the accounts it was read from: an account that decodes
  as a bucket or as a ledger starts with the bytes the filter asks for, so the filter finds exactly
  the accounts of the sub-pool and the direction, and the two kinds cannot be mistaken for each
  other.
\<close>

section \<open>The filtered bytes\<close>

text \<open>Borsh writes a byte array as it is and a boolean as one byte.\<close>

definition raw_prefix :: "borsh_types \<Rightarrow> bool" where
  "raw_prefix T \<longleftrightarrow> (\<forall>k. cd_put (ty_bytes T 32) k = Ok k) \<and> (\<forall>b. cd_put (ty_bool T) b = Ok (bool_le b))"

lemma le_borsh_raw_prefix: "raw_prefix le_borsh"
  by (simp add: raw_prefix_def le_borsh_def bytes_codec_def bool_codec_def)

lemma bucket_prefix:
  assumes "borsh_lawful T" and "raw_prefix T" and "is_bytes raw"
    and "decode_anchor_account (onchain_dormant_bucket_codec T) raw = Inr b"
  shows "take 33 (drop 8 raw) = xb_sub_pool b @ bool_le (xb_direction_is_long b)" and "length (xb_sub_pool b) = 32"
    and "41 \<le> length raw"
proof -
  note d = decode_only_encodings [OF lawful_onchain_dormant_bucket [OF assms(1)] assms(3,4)]
  show len: "length (xb_sub_pool b) = 32" using d(1) by (simp add: onchain_dormant_bucket_ok_def is_array_def)
  from d(2) assms(2) obtain rest where "take 8 raw @ xb_sub_pool b @ bool_le (xb_direction_is_long b) @ rest = raw"
    by (auto simp: encode_anchor_account_def onchain_dormant_bucket_codec_def as_struct_def pair_codec_def raw_prefix_def)
  then have "drop 8 raw = xb_sub_pool b @ bool_le (xb_direction_is_long b) @ rest"
    by (metis append_take_drop_id same_append_eq)
  then show "take 33 (drop 8 raw) = xb_sub_pool b @ bool_le (xb_direction_is_long b)"
    using len by (simp add: bool_le_def)
  show "41 \<le> length raw" using d(3) by simp
qed

lemma bool_le_eq [simp]: "bool_le a = bool_le b \<longleftrightarrow> a = b"
  by (simp add: bool_le_def)

lemma length_bool_le [simp]: "length (bool_le b) = 1"
  by (simp add: bool_le_def)

lemma bucket_matches:
  assumes "borsh_lawful T" and "raw_prefix T" and "is_bytes (mo_data acc)" and "length key = 32"
    and "decode_anchor_account (onchain_dormant_bucket_codec T) (mo_data acc) = Inr b"
  shows "mock_matches program 8 (key @ bool_le is_long) acc
    \<longleftrightarrow> mo_owner acc = program \<and> xb_sub_pool b = key \<and> xb_direction_is_long b = is_long"
  using bucket_prefix [OF assms(1-3,5)] assms(4) by (auto simp: mock_matches_def)

section \<open>The fold over the hits\<close>

definition bucket_of_hit :: "borsh_types \<Rightarrow> pubkey \<Rightarrow> bool \<Rightarrow> u8 list \<Rightarrow> onchain_dormant_bucket option" where
  "bucket_of_hit T key is_long raw = (case decode_anchor_account (onchain_dormant_bucket_codec T) raw of
       Inr b \<Rightarrow> if xb_sub_pool b = key \<and> xb_direction_is_long b = is_long then Some b else None
     | Inl f \<Rightarrow> None)"

definition stored_buckets :: "chain_snapshot \<Rightarrow> u32 \<Rightarrow> onchain_dormant_bucket list" where
  "stored_buckets s i = (case bt_get (cs_buckets s) i of None \<Rightarrow> [] | Some v \<Rightarrow> v)"

lemma get_put_any: "bt_get (bt_put k v m) j = (if j = k then Some v else bt_get m j)"
  by (induction m) auto

lemma if_decodes_Ok: "if_decodes r = Inr q \<longleftrightarrow> (case q of Some x \<Rightarrow> r = Inr x | None \<Rightarrow> \<exists>e. r = Inl (Failed e))"
  by (auto simp: if_decodes_def split: sum.splits failure.splits option.splits)

definition ledger_of_hit :: "borsh_types \<Rightarrow> pubkey \<Rightarrow> bool \<Rightarrow> u8 list \<Rightarrow> onchain_distribution_ledger option" where
  "ledger_of_hit T key is_long raw = (case decode_anchor_account (onchain_distribution_ledger_codec T) raw of
       Inr l \<Rightarrow> if xl_sub_pool l = key \<and> xl_direction_is_long l = is_long then Some l else None
     | Inl f \<Rightarrow> None)"

abbreviation side_of :: "bool \<Rightarrow> direction" where
  "side_of is_long \<equiv> (if is_long then Long else Short)"

lemma take_hit_cases:
  assumes "take_hit T entry is_long (key, raw) s = Inr s'"
  obtains (ledger) l where "ledger_of_hit T (se_pubkey entry) is_long raw = Some l"
      and "s' = insert_ledger (se_sub_pool_id entry) (side_of is_long) key l s"
    | (bucket) b where "ledger_of_hit T (se_pubkey entry) is_long raw = None"
      and "bucket_of_hit T (se_pubkey entry) is_long raw = Some b"
      and "s' = insert_bucket (se_sub_pool_id entry) (side_of is_long) key b s"
    | (neither) "ledger_of_hit T (se_pubkey entry) is_long raw = None"
      and "bucket_of_hit T (se_pubkey entry) is_long raw = None" and "s' = s"
proof (cases "ledger_of_hit T (se_pubkey entry) is_long raw")
  case (Some l)
  then have "decode_anchor_account (onchain_distribution_ledger_codec T) raw = Inr l"
    and "xl_sub_pool l = se_pubkey entry \<and> xl_direction_is_long l = is_long"
    by (auto simp: ledger_of_hit_def split: sum.splits if_splits)
  with assms Some ledger show thesis by (auto simp: take_hit_def if_decodes_def)
next
  case None
  let ?L = "decode_anchor_account (onchain_distribution_ledger_codec T) raw"
  let ?K = "decode_anchor_account (onchain_dormant_bucket_codec T) raw"
  from None have no: "\<And>l. ?L = Inr l \<Longrightarrow> \<not> (xl_sub_pool l = se_pubkey entry \<and> xl_direction_is_long l = is_long)"
    by (auto simp: ledger_of_hit_def split: if_splits)
  obtain led where led: "if_decodes ?L = Inr led" using assms by (auto simp: take_hit_def Let_def)
  with no have skip: "\<not> (case led of None \<Rightarrow> False | Some l \<Rightarrow> xl_sub_pool l = se_pubkey entry \<and> xl_direction_is_long l = is_long)"
    by (auto simp: if_decodes_Ok split: option.splits)
  from assms led skip obtain bk where bk: "if_decodes ?K = Inr bk"
    and s': "s' = (case bk of None \<Rightarrow> s | Some b \<Rightarrow>
        if xb_sub_pool b = se_pubkey entry \<and> xb_direction_is_long b = is_long
        then insert_bucket (se_sub_pool_id entry) (side_of is_long) key b s else s)"
    by (auto simp: take_hit_def Let_def)
  show thesis
  proof (cases "bucket_of_hit T (se_pubkey entry) is_long raw")
    case none: None
    then have "s' = s" using bk s' by (auto simp: if_decodes_Ok bucket_of_hit_def split: option.splits sum.splits if_splits)
    with None none neither show thesis by blast
  next
    case (Some b)
    then have "s' = insert_bucket (se_sub_pool_id entry) (side_of is_long) key b s"
      using bk s' by (auto simp: if_decodes_Ok bucket_of_hit_def split: option.splits sum.splits if_splits)
    with None Some bucket show thesis by blast
  qed
qed

lemma take_hit_buckets:
  assumes "borsh_lawful T" and "is_bytes raw" and "take_hit T entry is_long (key, raw) s = Inr s'"
  shows "stored_buckets s' j = stored_buckets s j
      @ (if j = se_sub_pool_id entry then
           (case bucket_of_hit T (se_pubkey entry) is_long raw of None \<Rightarrow> [] | Some b \<Rightarrow> [b]) else [])"
    and "cs_market s' = cs_market s" and "cs_sub_pools s' = cs_sub_pools s"
proof -
  have none: "bucket_of_hit T (se_pubkey entry) is_long raw = None" if "ledger_of_hit T (se_pubkey entry) is_long raw = Some l" for l
  proof -
    from that have "decode_anchor_account (onchain_distribution_ledger_codec T) raw = Inr l"
      by (auto simp: ledger_of_hit_def split: sum.splits if_splits)
    from ledger_or_bucket [OF assms(1,2) this] show ?thesis by (auto simp: bucket_of_hit_def split: sum.splits)
  qed
  show "stored_buckets s' j = stored_buckets s j
      @ (if j = se_sub_pool_id entry then
           (case bucket_of_hit T (se_pubkey entry) is_long raw of None \<Rightarrow> [] | Some b \<Rightarrow> [b]) else [])"
    "cs_market s' = cs_market s" "cs_sub_pools s' = cs_sub_pools s"
    by (rule take_hit_cases [OF assms(3)];
        simp add: none insert_ledger_def insert_bucket_def stored_buckets_def get_put_any split: option.split)+
qed

lemma take_hit_ledger:
  assumes "take_hit T entry is_long (key, raw) s = Inr s'"
  shows "bt_get (cs_ledgers s') (j, d) =
      (if j = se_sub_pool_id entry \<and> d = side_of is_long \<and> ledger_of_hit T (se_pubkey entry) is_long raw \<noteq> None
       then ledger_of_hit T (se_pubkey entry) is_long raw else bt_get (cs_ledgers s) (j, d))"
  by (rule take_hit_cases [OF assms]) (auto simp: insert_ledger_def insert_bucket_def get_put_any)

lemma hits_buckets:
  assumes "borsh_lawful T" and "fold_res (take_hit T entry is_long) hits s = Inr s'"
    and "\<And>k raw. (k, raw) \<in> set hits \<Longrightarrow> is_bytes raw"
  shows "stored_buckets s' j = stored_buckets s j @ (if j = se_sub_pool_id entry
      then List.map_filter (\<lambda>(k, raw). bucket_of_hit T (se_pubkey entry) is_long raw) hits else [])
    \<and> cs_market s' = cs_market s \<and> cs_sub_pools s' = cs_sub_pools s"
  using assms(2,3)
proof (induction hits arbitrary: s)
  case (Cons h hits)
  obtain k raw where h: "h = (k, raw)" by (cases h)
  from Cons.prems(1) obtain s1 where s1: "take_hit T entry is_long (k, raw) s = Inr s1"
      "fold_res (take_hit T entry is_long) hits s1 = Inr s'" by (auto simp: h)
  have raw: "is_bytes raw" using Cons.prems(2) [of k raw] by (simp add: h)
  note one = take_hit_buckets [OF assms(1) raw s1(1)]
  have "\<And>k raw. (k, raw) \<in> set hits \<Longrightarrow> is_bytes raw" using Cons.prems(2) by (meson list.set_intros(2))
  from Cons.IH [OF s1(2) this] one(1) [of j] one(2,3) show ?case
    by (simp add: h map_filter_simps split: option.split)
qed (simp add: map_filter_simps)

lemma hits_ledger:
  assumes "fold_res (take_hit T entry is_long) hits s = Inr s'"
  shows "bt_get (cs_ledgers s') (j, d) =
    (let ls = List.map_filter (\<lambda>(k, raw). ledger_of_hit T (se_pubkey entry) is_long raw) hits in
     if j = se_sub_pool_id entry \<and> d = side_of is_long \<and> ls \<noteq> [] then Some (last ls)
     else bt_get (cs_ledgers s) (j, d))"
  using assms
proof (induction hits arbitrary: s)
  case (Cons h hits)
  obtain k raw where h: "h = (k, raw)" by (cases h)
  from Cons.prems(1) obtain s1 where s1: "take_hit T entry is_long (k, raw) s = Inr s1"
      "fold_res (take_hit T entry is_long) hits s1 = Inr s'" by (auto simp: h)
  show ?case
    using Cons.IH [OF s1(2)] take_hit_ledger [OF s1(1), of j d]
    by (auto simp: h map_filter_simps Let_def split: option.split)
qed (simp add: map_filter_simps)

section \<open>A direction, a sub-pool, the market\<close>

definition chain_buckets :: "borsh_types \<Rightarrow> mock_accounts \<Rightarrow> pubkey \<Rightarrow> pubkey \<Rightarrow> onchain_dormant_bucket set" where
  "chain_buckets T M program key = {b. \<exists>k acc. (k, acc) \<in> set M \<and> mo_owner acc = program
     \<and> decode_anchor_account (onchain_dormant_bucket_codec T) (mo_data acc) = Ok b \<and> xb_sub_pool b = key}"

definition chain_ledgers :: "borsh_types \<Rightarrow> mock_accounts \<Rightarrow> pubkey \<Rightarrow> pubkey \<Rightarrow> direction \<Rightarrow> onchain_distribution_ledger set" where
  "chain_ledgers T M program key d = {l. \<exists>k acc. (k, acc) \<in> set M \<and> mo_owner acc = program
     \<and> decode_anchor_account (onchain_distribution_ledger_codec T) (mo_data acc) = Ok l \<and> xl_sub_pool l = key
     \<and> side_of (xl_direction_is_long l) = d}"

lemma ledger_prefix:
  assumes "borsh_lawful T" and "raw_prefix T" and "is_bytes raw"
    and "decode_anchor_account (onchain_distribution_ledger_codec T) raw = Inr l"
  shows "take 33 (drop 8 raw) = xl_sub_pool l @ bool_le (xl_direction_is_long l)" and "length (xl_sub_pool l) = 32"
    and "41 \<le> length raw"
proof -
  note d = decode_only_encodings [OF lawful_onchain_distribution_ledger [OF assms(1)] assms(3,4)]
  show len: "length (xl_sub_pool l) = 32" using d(1) by (simp add: onchain_distribution_ledger_ok_def is_array_def)
  from d(2) assms(2) obtain rest where "take 8 raw @ xl_sub_pool l @ bool_le (xl_direction_is_long l) @ rest = raw"
    by (auto simp: encode_anchor_account_def onchain_distribution_ledger_codec_def as_struct_def pair_codec_def raw_prefix_def)
  then have "drop 8 raw = xl_sub_pool l @ bool_le (xl_direction_is_long l) @ rest"
    by (metis append_take_drop_id same_append_eq)
  then show "take 33 (drop 8 raw) = xl_sub_pool l @ bool_le (xl_direction_is_long l)"
    using len by (simp add: bool_le_def)
  show "41 \<le> length raw" using d(3) by simp
qed

text \<open>The hits of one direction.\<close>

definition mock_hits :: "mock_accounts \<Rightarrow> pubkey \<Rightarrow> pubkey \<Rightarrow> bool \<Rightarrow> (pubkey \<times> u8 list) list" where
  "mock_hits M program key is_long = sort_key fst (map (\<lambda>(k, acc). (k, mo_data acc))
     (filter (\<lambda>(k, acc). mock_matches program 8 (key @ bool_le is_long) acc) M))"

lemma mock_hits_iff: "(k, raw) \<in> set (mock_hits M program key is_long)
    \<longleftrightarrow> (\<exists>acc. (k, acc) \<in> set M \<and> mo_data acc = raw \<and> mock_matches program 8 (key @ bool_le is_long) acc)"
  by (force simp: mock_hits_def)

lemma refresh_direction_mock:
  "refresh_direction T (mock_fetcher M) ctx entry is_long s
     = fold_res (take_hit T entry is_long) (mock_hits M (mx_program_id ctx) (se_pubkey entry) is_long) s"
  by (simp add: refresh_direction_def mock_fetcher_def mock_hits_def ANCHOR_DISCRIMINATOR_LEN_def)

lemma map_filter_set: "set (List.map_filter f xs) = {y. \<exists>x\<in>set xs. f x = Some y}"
  by (auto simp: List.map_filter_def) force+

lemma found_buckets:
  assumes "borsh_lawful T" and "raw_prefix T" and "\<forall>(k, acc)\<in>set M. is_bytes (mo_data acc)" and "length key = 32"
  shows "set (List.map_filter (\<lambda>(k, raw). bucket_of_hit T key is_long raw) (mock_hits M program key is_long))
    = {b \<in> chain_buckets T M program key. xb_direction_is_long b = is_long}" (is "?L = ?R")
proof (intro set_eqI iffI)
  fix b assume "b \<in> ?L"
  then show "b \<in> ?R"
    by (auto simp: map_filter_set mock_hits_iff bucket_of_hit_def chain_buckets_def mock_matches_def
        split: sum.splits if_splits) blast+
next
  fix b assume "b \<in> ?R"
  then obtain k acc where m: "(k, acc) \<in> set M" "mo_owner acc = program" "xb_sub_pool b = key"
      "xb_direction_is_long b = is_long"
    and d: "decode_anchor_account (onchain_dormant_bucket_codec T) (mo_data acc) = Inr b"
    by (auto simp: chain_buckets_def)
  have "is_bytes (mo_data acc)" using assms(3) m(1) by auto
  from bucket_matches [OF assms(1,2) this assms(4) d, of program is_long] m
  have "(k, mo_data acc) \<in> set (mock_hits M program key is_long)" by (auto simp: mock_hits_iff)
  moreover have "bucket_of_hit T key is_long (mo_data acc) = Some b" using m d by (simp add: bucket_of_hit_def)
  ultimately show "b \<in> ?L" by (force simp: map_filter_set)
qed

lemma found_ledgers:
  assumes "borsh_lawful T" and "raw_prefix T" and "\<forall>(k, acc)\<in>set M. is_bytes (mo_data acc)" and "length key = 32"
  shows "set (List.map_filter (\<lambda>(k, raw). ledger_of_hit T key is_long raw) (mock_hits M program key is_long))
    = chain_ledgers T M program key (side_of is_long)" (is "?L = ?R")
proof (intro set_eqI iffI)
  fix l assume "l \<in> ?L"
  then show "l \<in> ?R"
    by (auto simp: map_filter_set mock_hits_iff ledger_of_hit_def chain_ledgers_def mock_matches_def
        split: sum.splits if_splits) blast+
next
  fix l assume "l \<in> ?R"
  then obtain k acc where m: "(k, acc) \<in> set M" "mo_owner acc = program" "xl_sub_pool l = key"
      "xl_direction_is_long l = is_long"
    and d: "decode_anchor_account (onchain_distribution_ledger_codec T) (mo_data acc) = Inr l"
    by (auto simp: chain_ledgers_def split: if_splits)
  have "is_bytes (mo_data acc)" using assms(3) m(1) by auto
  from ledger_prefix [OF assms(1,2) this d] m assms(4)
  have "(k, mo_data acc) \<in> set (mock_hits M program key is_long)"
    by (auto simp: mock_hits_iff mock_matches_def)
  moreover have "ledger_of_hit T key is_long (mo_data acc) = Some l" using m d by (simp add: ledger_of_hit_def)
  ultimately show "l \<in> ?L" by (force simp: map_filter_set)
qed

section \<open>The whole refresh\<close>

definition bucket_order :: "onchain_dormant_bucket \<Rightarrow> bool \<times> i64" where
  "bucket_order b = (xb_direction_is_long b, xb_zero_price_tick b)"

text \<open>What a snapshot says of one sub-pool, against the accounts.\<close>

definition shows_sub_pool :: "borsh_types \<Rightarrow> mock_accounts \<Rightarrow> pubkey \<Rightarrow> sub_pool_entry \<Rightarrow> chain_snapshot \<Rightarrow> bool" where
  "shows_sub_pool T M program entry s \<longleftrightarrow>
     (\<exists>acc sp. bt_get M (se_pubkey entry) = Some acc
        \<and> decode_anchor_account (onchain_sub_pool_codec T) (mo_data acc) = Ok sp
        \<and> bt_get (cs_sub_pools s) (se_sub_pool_id entry) = Some sp)
     \<and> set (stored_buckets s (se_sub_pool_id entry)) = chain_buckets T M program (se_pubkey entry)
     \<and> sorted (map bucket_order (stored_buckets s (se_sub_pool_id entry)))
     \<and> (\<forall>d. case bt_get (cs_ledgers s) (se_sub_pool_id entry, d) of
            None \<Rightarrow> chain_ledgers T M program (se_pubkey entry) d = {}
          | Some l \<Rightarrow> l \<in> chain_ledgers T M program (se_pubkey entry) d)"

definition same_elsewhere :: "u32 \<Rightarrow> chain_snapshot \<Rightarrow> chain_snapshot \<Rightarrow> bool" where
  "same_elsewhere i s s' \<longleftrightarrow> cs_market s' = cs_market s \<and> (\<forall>j. j \<noteq> i \<longrightarrow> bt_get (cs_sub_pools s') j = bt_get (cs_sub_pools s) j
     \<and> stored_buckets s' j = stored_buckets s j \<and> (\<forall>d. bt_get (cs_ledgers s') (j, d) = bt_get (cs_ledgers s) (j, d)))"

lemma sort_buckets_stored:
  "stored_buckets (sort_buckets i s) j = (if j = i then sort_key bucket_order (stored_buckets s i) else stored_buckets s j)"
  "cs_market (sort_buckets i s) = cs_market s" "cs_sub_pools (sort_buckets i s) = cs_sub_pools s"
  "cs_ledgers (sort_buckets i s) = cs_ledgers s"
  by (auto simp: sort_buckets_def stored_buckets_def get_put_any bucket_order_def [abs_def] split: option.split)

lemma refresh_sub_pool_shows:
  assumes "borsh_lawful T" and "raw_prefix T" and "\<forall>(k, acc)\<in>set M. is_bytes (mo_data acc)"
    and "length (se_pubkey entry) = 32" and "stored_buckets s (se_sub_pool_id entry) = []"
    and "\<And>d. bt_get (cs_ledgers s) (se_sub_pool_id entry, d) = None"
    and "refresh_sub_pool T (mock_fetcher M) ctx entry s = Inr s'"
  shows "shows_sub_pool T M (mx_program_id ctx) entry s'" and "same_elsewhere (se_sub_pool_id entry) s s'"
proof -
  let ?i = "se_sub_pool_id entry" and ?key = "se_pubkey entry" and ?p = "mx_program_id ctx"
  let ?hits = "mock_hits M ?p ?key"
  let ?bs = "\<lambda>d. List.map_filter (\<lambda>(k, raw). bucket_of_hit T ?key d raw) (?hits d)"
  let ?ls = "\<lambda>d. List.map_filter (\<lambda>(k, raw). ledger_of_hit T ?key d raw) (?hits d)"
  from assms(7) obtain acc sp s1 s2 s3 where acc: "bt_get M ?key = Some acc"
    and sp: "decode_anchor_account (onchain_sub_pool_codec T) (mo_data acc) = Inr sp"
    and s1: "s1 = s\<lparr>cs_sub_pools := bt_put ?i sp (cs_sub_pools s)\<rparr>"
    and long: "fold_res (take_hit T entry True) (?hits True) s1 = Inr s2"
    and short: "fold_res (take_hit T entry False) (?hits False) s2 = Inr s3"
    and s': "s' = sort_buckets ?i s3"
    by (auto simp: refresh_sub_pool_def refresh_direction_mock) (auto simp: mock_fetcher_def)
  have raw: "is_bytes raw" if "(k, raw) \<in> set (?hits d)" for k raw d
    using that assms(3) by (auto simp: mock_hits_iff)
  note bl = hits_buckets [OF assms(1) long raw] and bs = hits_buckets [OF assms(1) short raw]
  note ll = hits_ledger [OF long] and ls = hits_ledger [OF short]
  have stored: "stored_buckets s3 j = (if j = ?i then ?bs True @ ?bs False else stored_buckets s j)" for j
    using bl [where j = j] bs [where j = j] assms(5) by (simp add: s1 stored_buckets_def)
  have subs: "cs_market s3 = cs_market s" "cs_sub_pools s3 = bt_put ?i sp (cs_sub_pools s)"
    using bl bs by (simp_all add: s1)
  have led: "bt_get (cs_ledgers s3) (j, d) = (if j = ?i then
      (let xs = ?ls (d = Long) in if xs = [] then None else Some (last xs)) else bt_get (cs_ledgers s) (j, d))" for j d
    using ll [of j d] ls [of j d] assms(6) [of d] by (cases d) (auto simp: s1 Let_def)
  have chain: "(case bt_get (cs_ledgers s3) (?i, d) of None \<Rightarrow> chain_ledgers T M ?p ?key d = {}
      | Some l \<Rightarrow> l \<in> chain_ledgers T M ?p ?key d)" for d
  proof -
    have side: "side_of (d = Long) = d" by (cases d) simp_all
    have "set (?ls (d = Long)) = chain_ledgers T M ?p ?key (side_of (d = Long))"
      by (rule found_ledgers [OF assms(1-4)])
    then have ls: "set (?ls (d = Long)) = chain_ledgers T M ?p ?key d" unfolding side .
    show ?thesis
    proof (cases "?ls (d = Long) = []")
      case True
      with ls show ?thesis by (simp add: led)
    next
      case False
      with ls have "last (?ls (d = Long)) \<in> chain_ledgers T M ?p ?key d" by (metis last_in_set)
      with False show ?thesis by (simp add: led Let_def)
    qed
  qed
  have "set (?bs True @ ?bs False) = chain_buckets T M ?p ?key"
    using found_buckets [OF assms(1-4), where program = ?p and is_long = True] found_buckets [OF assms(1-4), where program = ?p and is_long = False] by auto
  then show "shows_sub_pool T M ?p entry s'"
    using acc sp chain
    by (auto simp: shows_sub_pool_def s' sort_buckets_stored stored subs get_put_any)
  show "same_elsewhere ?i s s'"
    by (simp add: same_elsewhere_def s' sort_buckets_stored stored subs get_put_any led)
qed

lemma same_elsewhere_shows:
  "same_elsewhere i s s' \<Longrightarrow> se_sub_pool_id entry \<noteq> i \<Longrightarrow> shows_sub_pool T M p entry s' = shows_sub_pool T M p entry s"
  by (simp add: same_elsewhere_def shows_sub_pool_def)

lemma refresh_all_shows:
  assumes "borsh_lawful T" and "raw_prefix T" and "\<forall>(k, acc)\<in>set M. is_bytes (mo_data acc)"
    and "\<forall>e\<in>set es. length (se_pubkey e) = 32" and "distinct (map se_sub_pool_id es)"
    and "\<forall>e\<in>set es. stored_buckets s (se_sub_pool_id e) = [] \<and> (\<forall>d. bt_get (cs_ledgers s) (se_sub_pool_id e, d) = None)"
    and "fold_res (refresh_sub_pool T (mock_fetcher M) ctx) es s = Inr s'"
  shows "(\<forall>e\<in>set es. shows_sub_pool T M (mx_program_id ctx) e s') \<and> cs_market s' = cs_market s
    \<and> (\<forall>e. se_sub_pool_id e \<notin> se_sub_pool_id ` set es
          \<longrightarrow> shows_sub_pool T M (mx_program_id ctx) e s' = shows_sub_pool T M (mx_program_id ctx) e s)"
  using assms(4-7)
proof (induction es arbitrary: s)
  case (Cons e es)
  from Cons.prems(4) obtain s1 where s1: "refresh_sub_pool T (mock_fetcher M) ctx e s = Inr s1"
      "fold_res (refresh_sub_pool T (mock_fetcher M) ctx) es s1 = Inr s'" by auto
  have e: "length (se_pubkey e) = 32" "stored_buckets s (se_sub_pool_id e) = []"
      "\<And>d. bt_get (cs_ledgers s) (se_sub_pool_id e, d) = None" using Cons.prems(1,3) by auto
  note one = refresh_sub_pool_shows [OF assms(1-3) e s1(1)]
  have rest: "\<forall>e\<in>set es. length (se_pubkey e) = 32" "distinct (map se_sub_pool_id es)"
    "\<forall>x\<in>set es. stored_buckets s1 (se_sub_pool_id x) = [] \<and> (\<forall>d. bt_get (cs_ledgers s1) (se_sub_pool_id x, d) = None)"
    using Cons.prems(1-3) one(2) by (auto simp: same_elsewhere_def image_iff)
  note IH = Cons.IH [OF rest s1(2)]
  have new: "se_sub_pool_id e \<notin> se_sub_pool_id ` set es" using Cons.prems(2) by simp
  with IH one have "shows_sub_pool T M (mx_program_id ctx) e s'" by blast
  moreover have "cs_market s1 = cs_market s" using one(2) by (simp add: same_elsewhere_def)
  ultimately show ?case using IH same_elsewhere_shows [OF one(2)] by auto
qed simp

end
