(* ===== verification/Keeper_Program.thy ===== *)
theory Keeper_Program
  imports Bot_Facts Snapshot_Facts Program_Stuck
begin

text \<open>
  The keeper bot against the program: the lengths of the program's accounts (\<open>state.rs\<close>) beside the
  widths of the mirrors the bot decodes, the bucket counts of a sub-pool account, which no
  instruction changes, and what the program makes of the instructions the executor builds from
  them.
\<close>

section \<open>The lengths of the accounts\<close>

definition MARKET_LEN :: nat where
  "MARKET_LEN = 8 + 32 * 6 + 16 + 4 + 8 * 4 + 16 * 4 + 2 + 8 + 8 + 2 + 4 + 8 + 4 + 4 + 4
     + 8 + 1 + 1 + 2 + 4 + 1 + 4 + 4 + 1 + 2"

definition SUB_POOL_LEN :: nat where
  "SUB_POOL_LEN = 8 + 32 + 4 + 16 * 8 + 8 * 4 + 16 * 2 + 4 * 2 + 1 + 7"

definition DORMANT_BUCKET_LEN :: nat where
  "DORMANT_BUCKET_LEN = 8 + 32 + 1 + 8 + 8 + 16 * 3 + 8 + 8 + 1 + 6"

definition LEDGER_ENTRY_LEN :: nat where
  "LEDGER_ENTRY_LEN = 8 + 8 + 16 * 3"

definition LEDGER_HEADER_LEN :: nat where
  "LEDGER_HEADER_LEN = 8 + 32 + 1 + 4 + 8 + 8 + 16 + 16 + 4 + 4 + 1 + 7"

definition ledger_account_size :: "u32 \<Rightarrow> nat" where
  "ledger_account_size max_entries = LEDGER_HEADER_LEN + max_entries * LEDGER_ENTRY_LEN"

definition POSITION_LEN :: nat where
  "POSITION_LEN = 8 + 32 * 3 + 8 + 1 + 1 + 8 + 4 + 16 + 16 * 2 + 8 + 1 + 8 + 8 + 8 + 8
     + 8 * 3 + 2 + 1 + 5"

definition KEEPER_LEADER_LOCK_LEN :: nat where
  "KEEPER_LEADER_LOCK_LEN = 8 + 1 + 32 + 8 + 8"

lemmas account_lengths = MARKET_LEN_def SUB_POOL_LEN_def DORMANT_BUCKET_LEN_def LEDGER_ENTRY_LEN_def
  LEDGER_HEADER_LEN_def ledger_account_size_def POSITION_LEN_def KEEPER_LEADER_LOCK_LEN_def

text \<open>Bytes allocated beyond the encoding make an account unreadable.\<close>

lemma spare_bytes_unreadable:
  assumes "lawful c ok width" and "ok x" and "length disc = 8"
    and "encode_anchor_account c x disc = Inr bs" and "length (bs @ extra) > 8 + width x"
  shows "decode_anchor_account c (bs @ extra) = Inl (Failed (BorshDecode ''Not all bytes read''))"
proof (rule decode_unread_tail [OF assms(1-4)])
  from decode_encoded [OF assms(1-3)] assms(4) have "length bs = 8 + width x" by (metis sum.inject(2))
  with assms(5) show "extra \<noteq> []" by auto
qed

section \<open>The fields a side does not own\<close>

definition same_scalars :: "sub_pool \<Rightarrow> sub_pool \<Rightarrow> bool" where
  "same_scalars sp sp' \<longleftrightarrow> (\<forall>d. active_generation d sp' = active_generation d sp)
     \<and> last_price sp' = last_price sp \<and> last_sync_slot sp' = last_sync_slot sp
     \<and> long_dormant_bucket_count sp' = long_dormant_bucket_count sp
     \<and> short_dormant_bucket_count sp' = short_dormant_bucket_count sp"

lemma same_scalars_refl [simp]: "same_scalars sp sp"
  by (simp add: same_scalars_def)

lemma same_scalars_set [simp]:
  "same_scalars sp (set_pool_equity d v sp') = same_scalars sp sp'"
  "same_scalars sp (set_active_shares d v sp') = same_scalars sp sp'"
  "same_scalars sp (set_recovery_shares d v sp') = same_scalars sp sp'"
  "same_scalars sp (set_active_notional d v sp') = same_scalars sp sp'"
  "same_scalars sp (set_dust d v sp') = same_scalars sp sp'"
  "same_scalars sp (set_dormant d store sp') = same_scalars sp sp'"
  by (cases d; simp add: same_scalars_def set_pool_equity_def set_active_shares_def set_recovery_shares_def
      set_active_notional_def set_dust_def set_dormant_def active_generation_def split: direction.splits)+

lemma burns_scalars:
  "burn_active sp pos = Inr (sp', pos', v) \<Longrightarrow> same_scalars sp sp'"
  "burn_recovery sp pos = Inr (sp', pos', tick, r) \<Longrightarrow> same_scalars sp sp'"
  "burn_recovery_if_any sp pos = Inr (sp', pos', rr) \<Longrightarrow> same_scalars sp sp'"
  "burn_worthless sp pos = Inr (sp', pos', b, n) \<Longrightarrow> same_scalars sp sp'"
  "forfeit_recovery sp pos = Inr (sp', pos', ro, f) \<Longrightarrow> same_scalars sp sp'"
  by (auto simp: burn_active_def burn_recovery_def burn_recovery_if_any_def burn_worthless_def
      forfeit_recovery_def Let_def split: if_splits)

lemma settle_winner_scalars:
  assumes "settle_winner m p w ad td (sp, o1) = Inr (sp', o2)"
  shows "same_scalars sp sp'"
  using assms by (auto simp: settle_winner_def pay_recovery_def Let_def split: if_splits)

lemma settle_sides_scalars:
  assumes "settle_sides m p demands sp = Inr (sp', o1)"
  shows "same_scalars sp sp'"
  using assms settle_winner_scalars by (cases demands) (auto simp: settle_sides_def split: if_splits)

section \<open>The bucket counts of a sub-pool\<close>

definition counts :: "sub_pool \<Rightarrow> u32 \<times> u32" where
  "counts sp = (long_dormant_bucket_count sp, short_dormant_bucket_count sp)"

definition pool_counts :: "pool_account \<Rightarrow> u32 \<times> u32" where
  "pool_counts a = (pl_long_dormant_bucket_count a, pl_short_dormant_bucket_count a)"

lemma counts_view: "counts ((clearing_view a)\<lparr>long_dormant := ls, short_dormant := ss\<rparr>) = pool_counts a"
  "counts (clearing_view a) = pool_counts a"
  by (simp_all add: counts_def pool_counts_def clearing_view_def)

lemma counts_apply: "pool_counts (apply_clearing_view sp a) = counts sp"
  by (simp add: counts_def pool_counts_def apply_clearing_view_def)

lemma same_scalars_counts: "same_scalars sp sp' \<Longrightarrow> counts sp' = counts sp"
  by (simp add: same_scalars_def counts_def)

lemma counts_set [simp]:
  "counts (set_pool_equity d v sp) = counts sp" "counts (set_active_shares d v sp) = counts sp"
  "counts (set_recovery_shares d v sp) = counts sp" "counts (set_active_notional d v sp) = counts sp"
  "counts (set_dust d v sp) = counts sp" "counts (set_dormant d store sp) = counts sp"
  by (simp_all add: same_scalars_counts)

lemma counts_stamp [simp]: "counts (sp\<lparr>last_sync_slot := n\<rparr>) = counts sp" "counts (sp\<lparr>last_price := p\<rparr>) = counts sp"
  by (simp_all add: counts_def)

lemma rotate_counts:
  assumes "rotate_if_empty m p slot d (sp, o1) = Inr (sp', o2)"
  shows "counts sp' = counts sp"
proof (cases "pool_equity d sp = 0 \<and> active_shares d sp > 0")
  case False
  with assms show ?thesis by (auto simp: rotate_if_empty_def)
next
  case True
  with assms obtain r v store where
      push: "push_rotate_record d r (set_active_notional d 0 (set_active_shares d 0 (set_recovery_shares d
          v (set_dormant d store sp)))) = Inr sp'"
    by (auto simp: rotate_if_empty_def rotate_active_to_recovery_def Let_def side_simps)
  then have "counts sp' = counts (set_active_notional d 0 (set_active_shares d 0 (set_recovery_shares d
          v (set_dormant d store sp))))"
    by (cases d) (auto simp: push_rotate_record_def counts_def)
  then show ?thesis by simp
qed

lemma sync_counts:
  assumes "sync_pool m env sp = Inr (sp', out)"
  shows "counts sp' = counts sp"
proof (cases "last_price sp = 0 \<or> env_p_now env = last_price sp")
  case True
  with assms have "sp' = sp\<lparr>last_price := env_p_now env, last_sync_slot := env_slot env\<rparr>
      \<or> sp' = sp\<lparr>last_sync_slot := env_slot env\<rparr>"
    by (auto simp: sync_pool_def Let_def split: if_splits)
  then show ?thesis by (auto simp: counts_def)
next
  case False
  with assms have "sync_move m env sp = Inr (sp', out)" by (auto simp: sync_pool_def)
  then obtain demands sp1 o1 o2 sp3 o3 where
      set: "settle_sides m (env_p_now env) demands sp = Inr (sp1, o1)"
    and rl: "rotate_if_empty m (env_p_now env) (env_slot env) Long
        (sp1\<lparr>last_price := env_p_now env, last_sync_slot := env_slot env\<rparr>, o2) = Inr (sp3, o3)"
    and rs: "rotate_if_empty m (env_p_now env) (env_slot env) Short (sp3, o3) = Inr (sp', out)"
    by (rule sync_move_Ok)
  from rotate_counts [OF rs] rotate_counts [OF rl] same_scalars_counts [OF settle_sides_scalars [OF set]]
  show ?thesis by (simp add: counts_def)
qed

locale keeps_counts =
  fixes call :: "market_params \<Rightarrow> sub_pool \<Rightarrow> (sub_pool \<times> 'r) clearing"
  assumes keeps: "call m sp = Inr (sp', r) \<Longrightarrow> counts sp' = counts sp"
begin

lemma bridged_counts:
  assumes "bridged cx call = Inr (accs', r)"
  shows "pool_counts (bg_pool accs') = pool_counts (bg_pool (cx_accounts cx))"
  by (rule bridgedD [OF assms]) (simp add: counts_apply keeps counts_view)

end

interpretation sync_counted: keeps_counts
  "\<lambda>params sp. and_then (sync_pool params env sp) (\<lambda>(sp', _). Ok (sp', ()))" for env
  by unfold_locales (auto dest: sync_counts)

interpretation pre_sync_counted: keeps_counts
  "\<lambda>params sp. and_then (pre_sync_dormant_bucket params d tick slot sp) (\<lambda>(sp', _). Ok (sp', ()))" for d tick slot
  by unfold_locales (auto simp: pre_sync_dormant_bucket_def Let_def split: if_splits)

interpretation close_counted: keeps_counts
  "\<lambda>params sp. and_then (close_position params env sp pos) (\<lambda>(sp', pos', out). Ok (sp', pos', out))" for env pos
  by unfold_locales (auto simp: close_position_def Let_def split: if_splits
      dest!: sync_counts burns_scalars(1,3) [THEN same_scalars_counts])

interpretation force_close_counted: keeps_counts
  "\<lambda>params sp. and_then (force_close_zero_value_position params env ack sp pos) (\<lambda>(sp', pos', out). Ok (sp', pos'))"
  for env ack pos
  by unfold_locales (auto simp: force_close_zero_value_position_def Let_def split: if_splits
      dest!: sync_counts burns_scalars(4,5) [THEN same_scalars_counts])

interpretation claim_counted: keeps_counts
  "\<lambda>params sp. and_then (claim_dormant_recovery params env sp pos) (\<lambda>(sp', pos', out). Ok (sp', pos', out))" for env pos
  by unfold_locales (auto simp: claim_dormant_recovery_def Let_def split: if_splits
      dest!: sync_counts burns_scalars(2) [THEN same_scalars_counts])

lemma execute_counts:
  assumes "execute_pool_ix cx ix = Inr (accs', ts)"
  shows "pool_counts (bg_pool accs') = pool_counts (bg_pool (cx_accounts cx))"
  using assms
  by (cases ix) (auto simp: execute_pool_ix_def program_sync_pool_def program_pre_sync_dormant_bucket_def
      program_close_position_def program_force_close_zero_value_position_def program_claim_dormant_recovery_def
      dest: sync_counted.bridged_counts pre_sync_counted.bridged_counts close_counted.bridged_counts [simplified]
        force_close_counted.bridged_counts claim_counted.bridged_counts [simplified])

lemma open_counts:
  assumes "open_position m env d gross i sp = Inr (sp', pos, out)"
  shows "counts sp' = counts sp"
  using assms
  by (auto simp: open_position_def Let_def split: if_splits dest!: sync_counts)

lemma step_counts:
  assumes "pool_step accs accs'"
  shows "pool_counts (bg_pool accs') = pool_counts (bg_pool accs)"
  using assms
proof cases
  case (bridged_step cx ix ts)
  then show ?thesis using execute_counts by auto
next
  case (open_step nx params pool' pos ts)
  then show ?thesis by (auto simp: program_open_position_def counts_apply counts_view dest!: open_counts)
next
  case (harvest_step hx is_long pool' ts)
  then show ?thesis by (auto simp: program_harvest_dust_def harvest_dust_def Let_def counts_apply counts_view split: if_splits)
qed simp_all

lemma run_counts: "pool_step\<^sup>*\<^sup>* accs accs' \<Longrightarrow> pool_counts (bg_pool accs') = pool_counts (bg_pool accs)"
  by (induction rule: rtranclp_induct) (simp_all add: step_counts)

section \<open>The pre-sync of the bot\<close>

lemma get_in_set: "bt_get m k = Some v \<Longrightarrow> (k, v) \<in> set m"
  by (induction m) (auto split: if_splits)

lemma built_pre_sync:
  assumes "build_pre_sync B e i d t = Inr da"
  obtains sp where "bt_get (cs_sub_pools (re_snapshot e)) i = Some sp"
    and "encode_pre_sync_dormant_bucket_ix B (d = Long) t (xs_long_dormant_bucket_count sp)
        (xs_short_dormant_bucket_count sp) = Ok (da_data da)"
    and "drop 6 (da_accounts da) \<noteq> []"
proof -
  from assms obtain sp where sp: "bt_get (cs_sub_pools (re_snapshot e)) i = Some sp"
      and enc: "encoded_data (encode_pre_sync_dormant_bucket_ix B (d = Long) t (xs_long_dormant_bucket_count sp)
        (xs_short_dormant_bucket_count sp)) = Inr (da_data da)"
      and accs: "drop 6 (da_accounts da) = map meta_writable (side_buckets (re_snapshot e) i Long
        @ side_buckets (re_snapshot e) i Short)"
      and some: "bucket_pubkey (re_snapshot e) i d t \<noteq> None"
    by (auto simp: build_pre_sync_def split: if_splits)
  from some obtain key where "((i, d, t), key) \<in> set (cs_bucket_pubkeys (re_snapshot e))"
    by (auto simp: bucket_pubkey_def dest: get_in_set)
  then have "key \<in> set (side_buckets (re_snapshot e) i d)" by (force simp: side_buckets_def)
  then have "drop 6 (da_accounts da) \<noteq> []" unfolding accs by (cases d) auto
  with sp enc that show thesis by (simp add: encoded_data_def)
qed

lemma wrong_count_refused:
  assumes "length (cx_remaining cx) \<noteq> cx_long_bucket_count cx + cx_short_bucket_count cx"
  shows "program_pre_sync_dormant_bucket cx is_long tick \<noteq> Inr x"
  using assms by (auto simp: program_pre_sync_dormant_bucket_def bridged_def run_bridged_def split_remaining_buckets_def
      require_def)

end
