(* ===== verification/Evaluate_Bot.thy ===== *)
theory Evaluate_Bot
  imports Keeper_Program Keeper_Properties Evaluate_Program
begin

text \<open>
  A sample chain for the witnesses about the keeper bot: the encoded accounts of one market with
  one sub-pool, its two ledgers, one bucket and the leader lock, the snapshot read from them, and
  a bot whose transaction backend records what it is given.
\<close>

section \<open>The accounts\<close>

definition demo_onchain_market :: onchain_market where
  "demo_onchain_market = \<lparr>xm_global_config = demo_key 2, xm_symbol = replicate 16 0, xm_collateral_mint = demo_key 3,
     xm_vault = demo_key 4, xm_fee_vault = demo_key 5, xm_oracle_price_feed = demo_key 6,
     xm_oracle_program_id = demo_key 7, xm_leverage_bps = 100000, xm_min_margin = 1,
     xm_max_margin_per_position = 1000, xm_max_total_principal = 1000, xm_max_total_notional = 1000,
     xm_current_total_principal = 0, xm_current_total_notional = 0, xm_open_fee_bps = 0,
     xm_max_oracle_age_seconds = 30, xm_max_oracle_age_slots = 25, xm_max_confidence_bps = 50,
     xm_max_price_move_bps_per_sync = 2000, xm_price_tick = 1, xm_tick_aggregation_factor = 1,
     xm_max_dormant_bucket_count_per_direction = 64, xm_dilution_safety_bps = 1, xm_max_idle_slots = 6000,
     xm_paused = False, xm_frozen_new_position = False, xm_schema_version = 1, xm_sub_pool_count = 8,
     xm_dormant_distribute_mode = 1, xm_max_pending_apply_per_tx = 64, xm_max_distribution_ledger_size = 64,
     xm_bump = 0, xm_pad = replicate 2 0\<rparr>"

definition demo_onchain_pool :: onchain_sub_pool where
  "demo_onchain_pool = \<lparr>xs_market = demo_key 1, xs_sub_pool_id = 7, xs_long_pool_equity = 0,
     xs_short_pool_equity = 100, xs_long_active_shares = 0, xs_short_active_shares = 100,
     xs_long_recovery_shares = 5, xs_short_recovery_shares = 0, xs_long_active_notional = 0,
     xs_short_active_notional = 1000, xs_long_active_generation = 1, xs_short_active_generation = 0,
     xs_last_price = 900, xs_last_sync_slot = 40, xs_long_dust = 0, xs_short_dust = 0,
     xs_long_dormant_bucket_count = 0, xs_short_dormant_bucket_count = 0, xs_bump = 0, xs_pad = replicate 7 0\<rparr>"

definition demo_onchain_bucket :: onchain_dormant_bucket where
  "demo_onchain_bucket = \<lparr>xb_sub_pool = demo_key 8, xb_direction_is_long = True, xb_zero_price_tick = 900,
     xb_anchor_price = 1000, xb_total_recovery_shares = 5, xb_total_recovery_notional = 500, xb_accrued_value = 0,
     xb_position_count = 1, xb_last_applied_index = 0, xb_bump = 0, xb_pad = replicate 6 0\<rparr>"

definition demo_onchain_ledger :: "bool \<Rightarrow> onchain_distribution_ledger" where
  "demo_onchain_ledger is_long = \<lparr>xl_sub_pool = demo_key 8, xl_direction_is_long = is_long, xl_max_entries = 64,
     xl_gc_offset = 0, xl_next_event_index = (if is_long then 1 else 0), xl_accrued_value_total = 0,
     xl_pending_distribution_total = (if is_long then 50 else 0), xl_entry_count = (if is_long then 1 else 0),
     xl_entries = (if is_long then [\<lparr>xe_event_index = 0, xe_p_at_event = 950, xe_total_outstanding_at_event = 500,
        xe_total_alloc_input = 50, xe_allocated_sum_observed = 50\<rparr>] else []),
     xl_bump = 0, xl_pad = replicate 7 0\<rparr>"

text \<open>The lock of another keeper, last seen at slot \<open>n\<close>.\<close>

definition demo_lock :: "u64 \<Rightarrow> leader_lock" where
  "demo_lock n = \<lparr>has_leader = True, current_leader = demo_key 99, last_heartbeat_slot = n, takeover_threshold_slots = 75\<rparr>"

definition demo_sha256 :: "u8 list \<Rightarrow> u8 list" where
  "demo_sha256 bs = replicate 32 1"

definition demo_bytes :: "'a codec \<Rightarrow> 'a \<Rightarrow> u8 list" where
  "demo_bytes c x = (case encode_anchor_account c x (replicate 8 1) of Inr bs \<Rightarrow> bs | Inl e \<Rightarrow> [])"

definition demo_chain :: "leader_lock \<Rightarrow> mock_accounts" where
  "demo_chain l = fold (\<lambda>(k, bs). mock_insert (demo_key k) (demo_key 90) bs)
     [(1, demo_bytes (onchain_market_codec le_borsh) demo_onchain_market),
      (8, demo_bytes (onchain_sub_pool_codec le_borsh) demo_onchain_pool),
      (9, demo_bytes (onchain_distribution_ledger_codec le_borsh) (demo_onchain_ledger True)),
      (10, demo_bytes (onchain_distribution_ledger_codec le_borsh) (demo_onchain_ledger False)),
      (11, demo_bytes (onchain_dormant_bucket_codec le_borsh) demo_onchain_bucket),
      (12, demo_bytes (leader_lock_codec le_borsh) l)] bt_empty"

definition demo_context :: market_context where
  "demo_context = \<lparr>mx_program_id = demo_key 90, mx_market = demo_key 1, mx_market_symbol = replicate 16 0,
     mx_sub_pools = [\<lparr>se_sub_pool_id = 7, se_pubkey = demo_key 8\<rparr>]\<rparr>"

definition demo_snapshot :: chain_snapshot where
  "demo_snapshot = \<lparr>cs_market = Some demo_onchain_market, cs_sub_pools = [(7, demo_onchain_pool)],
     cs_buckets = [(7, [demo_onchain_bucket])],
     cs_ledgers = [((7, Long), demo_onchain_ledger True), ((7, Short), demo_onchain_ledger False)],
     cs_bucket_pubkeys = [((7, Long, 900), demo_key 11)],
     cs_ledger_pubkeys = [((7, Long), demo_key 9), ((7, Short), demo_key 10)]\<rparr>"

section \<open>What the accounts decode to\<close>

lemma demo_ok:
  "onchain_market_ok demo_onchain_market" "onchain_sub_pool_ok demo_onchain_pool"
  "onchain_dormant_bucket_ok demo_onchain_bucket" "onchain_distribution_ledger_ok (demo_onchain_ledger is_long)"
  "leader_lock_ok (demo_lock 50)"
  by (simp_all add: onchain_market_ok_def demo_onchain_market_def onchain_sub_pool_ok_def demo_onchain_pool_def
      onchain_dormant_bucket_ok_def demo_onchain_bucket_def onchain_distribution_ledger_ok_def demo_onchain_ledger_def
      onchain_dist_entry_ok_def leader_lock_ok_def demo_lock_def is_array_def is_bytes_def fits_signed_def demo_key_def)

lemma demo_bytes_decode:
  assumes "lawful c ok width" and "ok x"
  shows "decode_anchor_account c (demo_bytes c x) = Inr x"
    and "decode_anchor_account_with_discriminator c (demo_bytes c x) (replicate 8 1) = Inr x"
    and "encode_anchor_account c x (replicate 8 1) = Inr (demo_bytes c x)"
    and "length (demo_bytes c x) = 8 + width x" and "is_bytes (demo_bytes c x)"
proof -
  have eight: "length (replicate 8 (1::nat)) = 8" by simp
  from decode_encoded [OF assms eight] obtain bs where
      "encode_anchor_account c x (replicate 8 1) = Inr bs" "length bs = 8 + width x"
      "decode_anchor_account c (bs @ []) = Inr x" "decode_anchor_account_with_discriminator c bs (replicate 8 1) = Inr x"
    by metis
  moreover from this lawfulD(1) [OF assms] have "is_bytes bs"
    by (auto simp: encode_anchor_account_def is_bytes_def)
  ultimately show "decode_anchor_account c (demo_bytes c x) = Inr x"
    "decode_anchor_account_with_discriminator c (demo_bytes c x) (replicate 8 1) = Inr x"
    "encode_anchor_account c x (replicate 8 1) = Inr (demo_bytes c x)"
    "length (demo_bytes c x) = 8 + width x" "is_bytes (demo_bytes c x)"
    by (simp_all add: demo_bytes_def)
qed

lemmas demo_laws = lawful_onchain_market lawful_onchain_sub_pool lawful_onchain_dormant_bucket
  lawful_onchain_distribution_ledger lawful_leader_lock

lemmas demo_decoded = demo_laws [OF le_borsh_lawful, THEN demo_bytes_decode(1)]
lemmas demo_encoded = demo_laws [OF le_borsh_lawful, THEN demo_bytes_decode(3)]
lemmas demo_is_bytes = demo_laws [OF le_borsh_lawful, THEN demo_bytes_decode(5)]

lemma demo_key_less [simp]: "demo_key m < demo_key n \<longleftrightarrow> m < n"
proof -
  have "demo_key k = k # replicate 31 k" for k by (simp add: demo_key_def eval_nat_numeral)
  then show ?thesis by (auto simp: Cons_less_Cons)
qed

lemma demo_key_le [simp]: "demo_key m \<le> demo_key n \<longleftrightarrow> m \<le> n"
  by (simp only: not_less [symmetric] demo_key_less)

lemma length_demo_key [simp]: "length (demo_key n) = 32"
  by (simp add: demo_key_def)

abbreviation demo_account :: "u8 list \<Rightarrow> mock_account" where
  "demo_account bs \<equiv> \<lparr>mo_owner = demo_key 90, mo_data = bs\<rparr>"

lemma demo_chain_accounts: "demo_chain l =
  [(demo_key 1, demo_account (demo_bytes (onchain_market_codec le_borsh) demo_onchain_market)),
   (demo_key 8, demo_account (demo_bytes (onchain_sub_pool_codec le_borsh) demo_onchain_pool)),
   (demo_key 9, demo_account (demo_bytes (onchain_distribution_ledger_codec le_borsh) (demo_onchain_ledger True))),
   (demo_key 10, demo_account (demo_bytes (onchain_distribution_ledger_codec le_borsh) (demo_onchain_ledger False))),
   (demo_key 11, demo_account (demo_bytes (onchain_dormant_bucket_codec le_borsh) demo_onchain_bucket)),
   (demo_key 12, demo_account (demo_bytes (leader_lock_codec le_borsh) l))]"
  by (simp add: demo_chain_def mock_insert_def bt_empty_def)

lemma demo_fetch:
  "fetch_account (mock_fetcher (demo_chain l)) (demo_key 1)
     = Ok (Some (demo_bytes (onchain_market_codec le_borsh) demo_onchain_market))"
  "fetch_account (mock_fetcher (demo_chain l)) (demo_key 8)
     = Ok (Some (demo_bytes (onchain_sub_pool_codec le_borsh) demo_onchain_pool))"
  "fetch_account (mock_fetcher (demo_chain l)) (demo_key 12)
     = Ok (Some (demo_bytes (leader_lock_codec le_borsh) l))"
  by (simp_all add: mock_fetcher_def demo_chain_accounts)

section \<open>The filter\<close>

lemma demo_head:
  assumes "cd_put c x = Inr (k # rest)"
  shows "demo_bytes c x = replicate 8 1 @ k # rest"
  using assms by (simp add: demo_bytes_def encode_anchor_account_def)

lemma demo_no_match:
  assumes "cd_put c x = Inr (k # rest)" and "k \<noteq> 8"
  shows "\<not> mock_matches program 8 (demo_key 8 @ bool_le is_long) (demo_account (demo_bytes c x))"
proof -
  have "take 33 (k # rest) \<noteq> demo_key 8 @ bool_le is_long"
    using assms(2) by (simp add: demo_key_def eval_nat_numeral)
  then show ?thesis by (simp add: mock_matches_def demo_head [OF assms(1)])
qed

lemma demo_heads:
  "\<exists>rest. cd_put (onchain_market_codec le_borsh) demo_onchain_market = Inr (2 # rest)"
  "\<exists>rest. cd_put (onchain_sub_pool_codec le_borsh) demo_onchain_pool = Inr (1 # rest)"
  "\<exists>k rest. cd_put (leader_lock_codec le_borsh) l = Inr (k # rest) \<and> k \<noteq> 8"
proof -
  have key: "demo_key n = n # replicate 31 n" for n by (simp add: demo_key_def eval_nat_numeral)
  show "\<exists>rest. cd_put (onchain_market_codec le_borsh) demo_onchain_market = Inr (2 # rest)"
    by (simp add: onchain_market_codec_def as_struct_def pair_codec_def le_borsh_def bytes_codec_def nat_codec_def
        int_codec_def bool_codec_def demo_onchain_market_def key)
  show "\<exists>rest. cd_put (onchain_sub_pool_codec le_borsh) demo_onchain_pool = Inr (1 # rest)"
    by (simp add: onchain_sub_pool_codec_def as_struct_def pair_codec_def le_borsh_def bytes_codec_def nat_codec_def
        demo_onchain_pool_def key)
  show "\<exists>k rest. cd_put (leader_lock_codec le_borsh) l = Inr (k # rest) \<and> k \<noteq> 8"
    by (simp add: leader_lock_codec_def as_struct_def pair_codec_def le_borsh_def bytes_codec_def nat_codec_def
        bool_codec_def bool_le_def)
qed

lemma demo_ledger_matches:
  "mock_matches (demo_key 90) 8 (demo_key 8 @ bool_le is_long)
     (demo_account (demo_bytes (onchain_distribution_ledger_codec le_borsh) (demo_onchain_ledger d))) \<longleftrightarrow> d = is_long"
  using ledger_prefix [OF le_borsh_lawful le_borsh_raw_prefix demo_is_bytes(4) demo_decoded(4), OF demo_ok(4) demo_ok(4), of d]
  by (auto simp: mock_matches_def demo_onchain_ledger_def)

lemma demo_bucket_matches:
  "mock_matches (demo_key 90) 8 (demo_key 8 @ bool_le is_long)
     (demo_account (demo_bytes (onchain_dormant_bucket_codec le_borsh) demo_onchain_bucket)) \<longleftrightarrow> is_long"
  using bucket_prefix [OF le_borsh_lawful le_borsh_raw_prefix demo_is_bytes(3) demo_decoded(3), OF demo_ok(3) demo_ok(3)]
  by (auto simp: mock_matches_def demo_onchain_bucket_def)

lemma demo_hits: "mock_hits (demo_chain l) (demo_key 90) (demo_key 8) is_long =
  (if is_long then
     [(demo_key 9, demo_bytes (onchain_distribution_ledger_codec le_borsh) (demo_onchain_ledger True)),
      (demo_key 11, demo_bytes (onchain_dormant_bucket_codec le_borsh) demo_onchain_bucket)]
   else [(demo_key 10, demo_bytes (onchain_distribution_ledger_codec le_borsh) (demo_onchain_ledger False))])"
proof -
  obtain r1 r2 k r3 where heads: "cd_put (onchain_market_codec le_borsh) demo_onchain_market = Inr (2 # r1)"
      "cd_put (onchain_sub_pool_codec le_borsh) demo_onchain_pool = Inr (1 # r2)"
      "cd_put (leader_lock_codec le_borsh) l = Inr (k # r3)" "k \<noteq> 8"
    using demo_heads by metis
  note no = demo_no_match [OF heads(1)] demo_no_match [OF heads(2)] demo_no_match [OF heads(3,4)]
  show ?thesis
    by (simp add: mock_hits_def demo_chain_accounts no demo_ledger_matches demo_bucket_matches)
qed

section \<open>Reading them\<close>

definition never_panics :: "'a codec \<Rightarrow> bool" where
  "never_panics c \<longleftrightarrow> (\<forall>bs msg. cd_get c bs \<noteq> Panic msg)"

lemma never_panics_pair: "never_panics c \<Longrightarrow> never_panics d \<Longrightarrow> never_panics (pair_codec c d)"
  by (auto simp: never_panics_def pair_codec_def and_then_def split: sum.splits)

lemma never_panics_struct: "never_panics c \<Longrightarrow> never_panics (as_struct f g c)"
  by (auto simp: never_panics_def as_struct_def and_then_def split: sum.splits)

lemma never_panics_vec:
  assumes "never_panics c"
  shows "never_panics (vec_codec c)"
proof -
  have "get_all (cd_get c) n bs \<noteq> Inl (Panicked msg)" for n bs msg
    using assms by (induction n arbitrary: bs) (auto simp: never_panics_def and_then_def split: sum.splits)
  then show ?thesis by (auto simp: never_panics_def vec_codec_def nat_codec_def and_then_def split: sum.splits if_splits)
qed

lemma never_panics_le:
  "never_panics (nat_codec n)" "never_panics int_codec" "never_panics bool_codec" "never_panics (bytes_codec n)"
  by (auto simp: never_panics_def nat_codec_def int_codec_def bool_codec_def bytes_codec_def split: list.splits)

lemma demo_ledger_never_panics: "never_panics (onchain_distribution_ledger_codec le_borsh)"
  unfolding onchain_distribution_ledger_codec_def onchain_dist_entry_codec_def le_borsh_def borsh_types.select_convs
  by (rule never_panics_struct never_panics_pair never_panics_vec never_panics_le)+

lemma demo_not_a_ledger: "\<exists>e. decode_anchor_account (onchain_distribution_ledger_codec le_borsh)
    (demo_bytes (onchain_dormant_bucket_codec le_borsh) demo_onchain_bucket) = Inl (Failed e)"
proof -
  let ?bs = "demo_bytes (onchain_dormant_bucket_codec le_borsh) demo_onchain_bucket"
  let ?r = "decode_anchor_account (onchain_distribution_ledger_codec le_borsh) ?bs"
  have "?r \<noteq> Inr l" for l
    using ledger_or_bucket [OF le_borsh_lawful demo_is_bytes(3)] demo_decoded(3) demo_ok(3) by blast
  moreover have "?r \<noteq> Inl (Panicked msg)" for msg
    using demo_ledger_never_panics
    by (auto simp: decode_anchor_account_def try_from_slice_def never_panics_def map_err_def and_then_def
        split: sum.splits failure.splits if_splits)
  ultimately show ?thesis by (metis sum.exhaust failure.exhaust)
qed

lemma demo_refresh: "snapshot_refresh le_borsh (mock_fetcher (demo_chain l)) demo_context default_snapshot_config
    = Ok demo_snapshot"
proof -
  obtain e where e: "decode_anchor_account (onchain_distribution_ledger_codec le_borsh)
    (demo_bytes (onchain_dormant_bucket_codec le_borsh) demo_onchain_bucket) = Inl (Failed e)"
    using demo_not_a_ledger by blast
  note dec = demo_decoded(1) [OF demo_ok(1)] demo_decoded(2) [OF demo_ok(2)] demo_decoded(3) [OF demo_ok(3)]
    demo_decoded(4) [OF demo_ok(4)]
  let ?entry = "\<lparr>se_sub_pool_id = 7, se_pubkey = demo_key 8\<rparr>"
  have ctx: "mx_program_id demo_context = demo_key 90" "mx_market demo_context = demo_key 1"
      "mx_sub_pools demo_context = [?entry]" by (simp_all add: demo_context_def)
  have fields: "xl_sub_pool (demo_onchain_ledger d) = demo_key 8" "xl_direction_is_long (demo_onchain_ledger d) = d"
      "xb_sub_pool demo_onchain_bucket = demo_key 8" "xb_direction_is_long demo_onchain_bucket"
      "xb_zero_price_tick demo_onchain_bucket = 900" "\<not> xm_paused demo_onchain_market"
      "xm_schema_version demo_onchain_market = 1" for d
    by (simp_all add: demo_onchain_ledger_def demo_onchain_bucket_def demo_onchain_market_def)
  let ?s0 = "new_snapshot\<lparr>cs_market := Some demo_onchain_market\<rparr>"
  have "refresh_sub_pool le_borsh (mock_fetcher (demo_chain l)) demo_context ?entry ?s0 = Inr demo_snapshot"
    by (simp add: refresh_sub_pool_def demo_fetch dec refresh_direction_mock ctx fields
        demo_hits take_hit_def if_decodes_def e insert_ledger_def insert_bucket_def new_snapshot_def bt_empty_def
        sort_buckets_def demo_snapshot_def less_direction_def)
  then show ?thesis
    by (simp add: snapshot_refresh_def demo_fetch ctx dec default_snapshot_config_def fields
        SCHEMA_VERSION_CURRENT_def del: One_nat_def)
qed

end
