(* ===== verification/Bot_Properties.thy ===== *)
theory Bot_Properties
  imports Evaluate_Bot Codec_Properties
begin

text \<open>
  The properties of the account codec, the chain snapshot, the transaction builder and the keeper
  bot, each with a witness on the sample chain of \<open>Evaluate_Bot\<close>.
\<close>

section \<open>The account codec\<close>

definition decodes_exactly :: "'a codec \<Rightarrow> ('a \<Rightarrow> bool) \<Rightarrow> ('a \<Rightarrow> nat) \<Rightarrow> bool" where
  "decodes_exactly c ok width \<longleftrightarrow> (\<forall>bs x. is_bytes bs \<longrightarrow>
     (decode_anchor_account c bs = Ok x
      \<longleftrightarrow> ok x \<and> length bs = 8 + width x \<and> encode_anchor_account c x (take 8 bs) = Ok bs))"

lemma lawful_decodes_exactly:
  assumes "lawful c ok width"
  shows "decodes_exactly c ok width"
  unfolding decodes_exactly_def
proof (intro allI impI)
  fix bs x assume b: "is_bytes bs"
  show "decode_anchor_account c bs = Ok x
      \<longleftrightarrow> ok x \<and> length bs = 8 + width x \<and> encode_anchor_account c x (take 8 bs) = Ok bs"
  proof
    assume "decode_anchor_account c bs = Ok x"
    from decode_only_encodings [OF assms b this]
    show "ok x \<and> length bs = 8 + width x \<and> encode_anchor_account c x (take 8 bs) = Ok bs" by simp
  next
    assume r: "ok x \<and> length bs = 8 + width x \<and> encode_anchor_account c x (take 8 bs) = Ok bs"
    then have "length (take 8 bs) = 8" by simp
    from decode_encoded [OF assms _ this, of x] r show "decode_anchor_account c bs = Ok x"
      by (metis append_Nil2 sum.inject(2))
  qed
qed

text \<open>
  C27: for every account type, decoding is the exact inverse of encoding: the bytes of an account
  decode to a value exactly if the value fits its fields, the length is the eight bytes of the
  discriminator plus the width of the fields, and encoding the value gives the bytes back, so no
  value is lost and nothing but an encoding is read.
\<close>

theorem accounts_decode_exactly:
  assumes "borsh_lawful T"
  shows "decodes_exactly (onchain_sub_pool_codec T) onchain_sub_pool_ok (\<lambda>_. 244)
    \<and> decodes_exactly (onchain_dormant_bucket_codec T) onchain_dormant_bucket_ok (\<lambda>_. 120)
    \<and> decodes_exactly (onchain_distribution_ledger_codec T) onchain_distribution_ledger_ok
        (\<lambda>l. 101 + 64 * length (xl_entries l))
    \<and> decodes_exactly (onchain_market_codec T) onchain_market_ok (\<lambda>_. 364)
    \<and> decodes_exactly (onchain_position_codec T) onchain_position_ok (\<lambda>_. 239)
    \<and> decodes_exactly (leader_lock_codec T) leader_lock_ok (\<lambda>_. 49)"
  using demo_laws [OF assms] lawful_onchain_position [OF assms] by (simp add: lawful_decodes_exactly)

theorem accounts_decode_exactly_witness:
  "decode_anchor_account (onchain_dormant_bucket_codec le_borsh)
      (demo_bytes (onchain_dormant_bucket_codec le_borsh) demo_onchain_bucket) = Ok demo_onchain_bucket
   \<and> length (demo_bytes (onchain_dormant_bucket_codec le_borsh) demo_onchain_bucket) = 128"
proof -
  let ?bs = "demo_bytes (onchain_dormant_bucket_codec le_borsh) demo_onchain_bucket"
  from accounts_decode_exactly [OF le_borsh_lawful]
  have "decodes_exactly (onchain_dormant_bucket_codec le_borsh) onchain_dormant_bucket_ok (\<lambda>_. 120)" by blast
  then have "length ?bs = 8 + 120"
    using demo_is_bytes(3) [OF demo_ok(3)] demo_decoded(3) [OF demo_ok(3)] unfolding decodes_exactly_def by blast
  with demo_decoded(3) [OF demo_ok(3)] show ?thesis by simp
qed

section \<open>The snapshot\<close>

text \<open>
  C26: a successful refresh shows the chain: for every configured sub-pool the snapshot holds its
  decoded account, exactly the buckets of the sub-pool among the accounts the program owns, in the
  order of side and tick, and for each side a ledger of it, or none if there is none.
\<close>

theorem refresh_shows_chain:
  assumes "borsh_lawful T" and "raw_prefix T" and "\<forall>(k, acc)\<in>set M. is_bytes (mo_data acc)"
    and "\<forall>e\<in>set (mx_sub_pools ctx). length (se_pubkey e) = 32"
    and "distinct (map se_sub_pool_id (mx_sub_pools ctx))"
    and "snapshot_refresh T (mock_fetcher M) ctx cfg = Ok s"
  shows "\<forall>e\<in>set (mx_sub_pools ctx). shows_sub_pool T M (mx_program_id ctx) e s"
proof -
  from assms(6) obtain m where "fold_res (refresh_sub_pool T (mock_fetcher M) ctx) (mx_sub_pools ctx)
      (new_snapshot\<lparr>cs_market := Some m\<rparr>) = Inr s"
    by (auto simp: snapshot_refresh_def split: if_splits)
  from refresh_all_shows [OF assms(1-5) _ this] show ?thesis
    by (simp add: stored_buckets_def new_snapshot_def bt_empty_def)
qed

theorem refresh_shows_chain_witness:
  "chain_buckets le_borsh (demo_chain (demo_lock 50)) (demo_key 90) (demo_key 8) = {demo_onchain_bucket}"
proof -
  have "\<forall>(k, acc)\<in>set (demo_chain (demo_lock 50)). is_bytes (mo_data acc)"
    by (simp add: demo_chain_accounts demo_is_bytes demo_ok)
  from refresh_shows_chain [OF le_borsh_lawful le_borsh_raw_prefix this _ _ demo_refresh]
  show ?thesis by (simp add: demo_context_def shows_sub_pool_def stored_buckets_def demo_snapshot_def)
qed

text \<open>
  C8: the bot cannot read a market account of the program: \<open>Market::LEN\<close> allocates sixteen bytes more
  than the fields take, the decoder refuses an account it does not read to the end, and the loop
  treats that as permanent, so the bot stops in its first iteration and submits nothing.
\<close>

theorem bot_cannot_read_market:
  assumes "borsh_lawful (bw_types W)" and "onchain_market_ok mk" and "length disc = 8"
    and "encode_anchor_account (onchain_market_codec (bw_types W)) mk disc = Ok bs"
    and "length (bs @ extra) = MARKET_LEN"
    and "fetch_account (at_fetcher (env 0)) (mx_market (bw_context W)) = Ok (Some (bs @ extra))"
    and "\<not> at_shutdown (env 0)" and "max_ticks \<noteq> Some 0"
  shows "\<exists>s. run_loop_with_leader_and_rpc_reconcile W submit cfg max_ticks env kb m policy lb
      = Some (s, Ok \<lparr>ro_reason = PermanentError, ro_ticks = 0, ro_error = Some (BotSnapshot
          (SnapDecode ''market'' (mx_market (bw_context W)) (BorshDecode ''Not all bytes read'')))\<rparr>)
    \<and> rs_sent s = [] \<and> rs_leader_builder s = lb"
proof -
  have "decode_anchor_account (onchain_market_codec (bw_types W)) (bs @ extra)
      = Err (BorshDecode ''Not all bytes read'')"
    by (rule spare_bytes_unreadable [OF lawful_onchain_market [OF assms(1)] assms(2-4)])
      (simp only: assms(5), simp add: MARKET_LEN_def)
  from unread_market_ends_run(2) [where env = env, OF assms(6) this assms(7,8)] show ?thesis .
qed

text \<open>A bot on the sample chain; its market account has as many bytes as the program allocates.\<close>

definition demo_world :: "(real, mock_tx_builder) bot_world" where
  "demo_world = \<lparr>bw_borsh = borsh_le, bw_types = le_borsh, bw_sha256 = demo_sha256, bw_floats = real_f64,
     bw_round_i64 = round, bw_hint_order = id, bw_submit = mock_tx_submit, bw_context = demo_context,
     bw_keeper = demo_key 20, bw_clock_sysvar = demo_key 21, bw_system_program = demo_key 22\<rparr>"

definition demo_bot :: "real keeper_bot" where
  "demo_bot = new_bot real_f64 (default_bot_config real_f64)"

definition demo_attempt :: "account_fetcher \<Rightarrow> mock_tx_builder attempt" where
  "demo_attempt fetcher = \<lparr>at_shutdown = False, at_fetcher = fetcher, at_builder = new_mock_tx_builder, at_elapsed_ms = 3\<rparr>"

definition only_market :: "u8 list \<Rightarrow> account_fetcher" where
  "only_market bs = mock_fetcher (mock_insert (demo_key 1) (demo_key 90) bs bt_empty)"

lemma demo_world_simps [simp]:
  "bw_types demo_world = le_borsh" "bw_borsh demo_world = borsh_le" "bw_sha256 demo_world = demo_sha256"
  "bw_context demo_world = demo_context" "mx_market demo_context = demo_key 1" "mx_program_id demo_context = demo_key 90"
  "bw_keeper demo_world = demo_key 20"
  "at_shutdown (demo_attempt f) = False" "at_fetcher (demo_attempt f) = f"
  by (simp_all add: demo_world_def demo_context_def demo_attempt_def)

theorem bot_cannot_read_market_witness:
  "\<exists>s. run_loop_with_leader_and_rpc_reconcile demo_world mock_submit_leader_ix default_reconcile_config None
       (\<lambda>i. demo_attempt (only_market (demo_bytes (onchain_market_codec le_borsh) demo_onchain_market @ replicate 16 0)))
       demo_bot new_metrics (new_policy (demo_key 20) (demo_lock 50)) new_mock_leader_builder
     = Some (s, Ok \<lparr>ro_reason = PermanentError, ro_ticks = 0, ro_error = Some (BotSnapshot
         (SnapDecode ''market'' (demo_key 1) (BorshDecode ''Not all bytes read'')))\<rparr>)
     \<and> rs_sent s = [] \<and> rs_leader_builder s = new_mock_leader_builder"
proof -
  let ?bs = "demo_bytes (onchain_market_codec le_borsh) demo_onchain_market"
  have "length (?bs @ replicate 16 0) = MARKET_LEN"
    using demo_bytes_decode(4) [OF demo_laws(1) [OF le_borsh_lawful] demo_ok(1)] by (simp add: MARKET_LEN_def)
  moreover have "fetch_account (only_market (?bs @ replicate 16 0)) (demo_key 1) = Ok (Some (?bs @ replicate 16 0))"
    by (simp add: only_market_def mock_fetcher_def mock_insert_def bt_empty_def del: One_nat_def)
  ultimately show ?thesis
    using bot_cannot_read_market [where W = demo_world and mk = demo_onchain_market and bs = ?bs
        and extra = "replicate 16 0" and disc = "replicate 8 1" and max_ticks = None
        and env = "\<lambda>i. demo_attempt (only_market (?bs @ replicate 16 0))"]
      le_borsh_lawful demo_ok(1) demo_encoded(1) [OF demo_ok(1)]
    by (simp del: One_nat_def)
qed

section \<open>Building transactions\<close>

text \<open>
  C9: the program refuses every pre-sync the bot builds: the bucket counts of a sub-pool account are
  zero from its creation on, the executor puts the counts of its snapshot into the instruction
  but lists the buckets it has found, at least the one to be synced, and the program compares
  the two.
\<close>

theorem bot_pre_sync_refused:
  assumes "initialize_sub_pool m gc key i = Ok (bg_pool accs0)" and "pool_step\<^sup>*\<^sup>* accs0 accs1"
    and "pool_step\<^sup>*\<^sup>* accs0 (cx_accounts cx)"
    and "bt_get (cs_sub_pools (re_snapshot e)) i = Some sp"
    and "(xs_long_dormant_bucket_count sp, xs_short_dormant_bucket_count sp) = pool_counts (bg_pool accs1)"
    and "build_pre_sync B e i d t = Ok da" and "borsh_fixed_width B" and "fits_signed 64 t"
    and "encode_pre_sync_dormant_bucket_ix B is_long tick (cx_long_bucket_count cx) (cx_short_bucket_count cx) = Ok (da_data da)"
    and "fits_signed 64 tick" and "cx_long_bucket_count cx < 2 ^ 32" and "cx_short_bucket_count cx < 2 ^ 32"
    and "cx_remaining cx = map am_pubkey (drop 6 (da_accounts da))"
  shows "\<nexists>accs'. program_pre_sync_dormant_bucket cx is_long tick = Ok accs'"
proof -
  have "pool_counts (bg_pool accs0) = (0, 0)"
    using assms(1) by (auto simp: initialize_sub_pool_def pool_counts_def dest!: sym [of _ "bg_pool accs0"])
  with run_counts [OF assms(2)] assms(5) have zero: "xs_long_dormant_bucket_count sp = 0" "xs_short_dormant_bucket_count sp = 0"
    by simp_all
  from built_pre_sync [OF assms(6)] assms(4) have
      data: "encode_pre_sync_dormant_bucket_ix B (d = Long) t 0 0 = Ok (da_data da)" and rem: "drop 6 (da_accounts da) \<noteq> []"
    using zero by (metis option.inject)+
  let ?sent = "Pre_Sync_Bucket (d = Long) t 0 0"
    and ?read = "Pre_Sync_Bucket is_long tick (cx_long_bucket_count cx) (cx_short_bucket_count cx)"
  have ok: "instruction_ok ?sent" "instruction_ok ?read" using assms(8,10-12) by simp_all
  have "instruction_bytes B ?sent = instruction_bytes B ?read"
    using data assms(9) encode_instruction_Ok [OF assms(7) ok(1)] encode_instruction_Ok [OF assms(7) ok(2)] by simp
  then have "?sent = ?read" using instruction_bytes_inject [OF assms(7) ok] by blast
  then have "length (cx_remaining cx) \<noteq> cx_long_bucket_count cx + cx_short_bucket_count cx"
    using rem assms(13) by simp
  from wrong_count_refused [OF this] show ?thesis by blast
qed

definition demo_executor :: "mock_tx_builder rpc_executor" where
  "demo_executor = new_executor (demo_key 90) (demo_key 1) (demo_key 20) (demo_key 21) (demo_key 22) demo_snapshot
     new_mock_tx_builder"

definition demo_fresh_pool :: pool_account where
  "demo_fresh_pool = \<lparr>pl_key = demo_key 8, pl_market = demo_key 1, pl_sub_pool_id = 7, pl_long_pool_equity = 0,
      pl_short_pool_equity = 0, pl_long_active_shares = 0, pl_short_active_shares = 0,
      pl_long_recovery_shares = 0, pl_short_recovery_shares = 0, pl_long_active_notional = 0,
      pl_short_active_notional = 0, pl_long_active_generation = 0, pl_short_active_generation = 0,
      pl_last_price = 0, pl_last_sync_slot = 0, pl_long_dust = 0, pl_short_dust = 0,
      pl_long_dormant_bucket_count = 0, pl_short_dormant_bucket_count = 0\<rparr>"

definition demo_fresh_accounts :: pool_accounts where
  "demo_fresh_accounts = (demo_accounts demo_pool 0)\<lparr>bg_pool := demo_fresh_pool\<rparr>"

definition demo_governance :: global_config where
  "demo_governance = \<lparr>gc_key = demo_key 2, gc_admin_authority = demo_key 30, gc_emergency_authority = demo_key 31,
     gc_protocol_treasury = demo_key 32, gc_upgrade_authority = demo_key 33, gc_paused_globally = False,
     gc_schema_version = 1\<rparr>"

lemma demo_built: "\<exists>da. build_pre_sync borsh_le demo_executor 7 Long 900 = Ok da
   \<and> encode_pre_sync_dormant_bucket_ix borsh_le True 900 0 0 = Ok (da_data da)"
proof -
  have enc: "encode_pre_sync_dormant_bucket_ix borsh_le True 900 0 0 = Ok (instruction_bytes borsh_le (Pre_Sync_Bucket True 900 0 0))"
    using encode_instruction_Ok [OF borsh_le_fixed_width, of "Pre_Sync_Bucket True 900 0 0"] by (simp add: fits_signed_def)
  have ledger: "xl_sub_pool (demo_onchain_ledger d) = demo_key 8" for d by (simp add: demo_onchain_ledger_def)
  show ?thesis
    by (simp add: demo_executor_def build_pre_sync_def new_executor_def recovered_sub_pools_def any_ledger_def
        demo_snapshot_def sub_pool_pubkey_def ledger_of_def ledger_pubkey_def bucket_pubkey_def encoded_data_def
        bt_empty_def ledger enc demo_onchain_pool_def)
qed

theorem bot_pre_sync_refused_witness:
  "\<exists>da. build_pre_sync borsh_le demo_executor 7 Long 900 = Ok da
     \<and> (\<nexists>accs'. program_pre_sync_dormant_bucket
           ((demo_cx demo_fresh_accounts [] 41)\<lparr>cx_remaining := map am_pubkey (drop 6 (da_accounts da))\<rparr>) True 900 = Ok accs')"
proof -
  obtain da where da: "build_pre_sync borsh_le demo_executor 7 Long 900 = Ok da"
    and enc: "encode_pre_sync_dormant_bucket_ix borsh_le True 900 0 0 = Ok (da_data da)" using demo_built by blast
  let ?cx = "(demo_cx demo_fresh_accounts [] 41)\<lparr>cx_remaining := map am_pubkey (drop 6 (da_accounts da))\<rparr>"
  have init: "initialize_sub_pool demo_program_market demo_governance (demo_key 8) 7 = Ok (bg_pool demo_fresh_accounts)"
    by (simp add: initialize_sub_pool_def demo_governance_def demo_program_market_def check_address_def
        demo_fresh_accounts_def demo_fresh_pool_def)
  have "\<nexists>accs'. program_pre_sync_dormant_bucket ?cx True 900 = Ok accs'"
    by (rule bot_pre_sync_refused [OF init rtranclp.rtrancl_refl _ _ _ da borsh_le_fixed_width, where sp = demo_onchain_pool])
      (simp_all add: enc fits_signed_def demo_executor_def new_executor_def demo_snapshot_def demo_cx_def
        demo_onchain_pool_def pool_counts_def demo_fresh_accounts_def demo_fresh_pool_def)
  with da show ?thesis by blast
qed

section \<open>The run loops\<close>

text \<open>
  C25: a bounded run of the loop with a builder factory ends if infinitely many of its iterations see
  a shutdown or a refresh that does not fail in the transport; if every refresh does, it never ends,
  whatever the bound, since a transient error is retried without counting a tick.
\<close>

theorem bounded_loop_returns:
  "((\<forall>k. \<exists>j\<ge>k. at_shutdown (env j) \<or> \<not> refresh_retries W (bc_snapshot (bo_config kb)) (env j))
      \<longrightarrow> (\<exists>y. run_loop_with_factory W (Some n) env kb m = Some y))
   \<and> ((\<forall>j. \<not> at_shutdown (env j) \<and> refresh_retries W (bc_snapshot (bo_config kb)) (env j)) \<and> 0 < n
      \<longrightarrow> run_loop_with_factory W (Some n) env kb m = None)"
  using factory_returns [of env W kb n m] factory_hangs [of env W kb "Some n" m] by auto

definition dead_rpc :: account_fetcher where
  "dead_rpc = \<lparr>fetch_account = (\<lambda>k. Err (Transport ''timeout'')),
     fetch_program_accounts_filter = (\<lambda>p off bs. Err (Transport ''timeout''))\<rparr>"

theorem bounded_loop_returns_witness:
  "(\<exists>y. run_loop_with_factory demo_world (Some 3)
        (\<lambda>i. demo_attempt (if even i then dead_rpc else mock_fetcher bt_empty)) demo_bot new_metrics = Some y)
   \<and> run_loop_with_factory demo_world (Some 3) (\<lambda>i. demo_attempt dead_rpc) demo_bot new_metrics = None"
proof -
  have retry: "refresh_retries demo_world cfg (demo_attempt dead_rpc)" for cfg
    by (simp add: refresh_retries_def snapshot_refresh_def dead_rpc_def)
  have final: "\<not> refresh_retries demo_world cfg (demo_attempt (mock_fetcher bt_empty))" for cfg
    by (simp add: refresh_retries_def snapshot_refresh_def mock_fetcher_def bt_empty_def)
  have "\<forall>k::nat. \<exists>j\<ge>k. at_shutdown (demo_attempt (if even j then dead_rpc else mock_fetcher bt_empty))
      \<or> \<not> refresh_retries demo_world (bc_snapshot (bo_config demo_bot)) (demo_attempt (if even j then dead_rpc else mock_fetcher bt_empty))"
  proof
    fix k :: nat
    show "\<exists>j\<ge>k. at_shutdown (demo_attempt (if even j then dead_rpc else mock_fetcher bt_empty))
      \<or> \<not> refresh_retries demo_world (bc_snapshot (bo_config demo_bot)) (demo_attempt (if even j then dead_rpc else mock_fetcher bt_empty))"
      using final by (intro exI [of _ "Suc (2 * k)"]) simp
  qed
  with bounded_loop_returns [of "\<lambda>i. demo_attempt (if even i then dead_rpc else mock_fetcher bt_empty)" demo_world demo_bot 3 new_metrics]
    bounded_loop_returns [of "\<lambda>i. demo_attempt dead_rpc" demo_world demo_bot 3 new_metrics] retry
  show ?thesis by simp
qed

lemma demo_best_slot: "best_slot_or_zero demo_snapshot = 40"
  by (simp add: best_slot_or_zero_def snapshot_best_slot_def demo_snapshot_def demo_onchain_pool_def)

definition demo_reconcile :: reconcile_config where
  "demo_reconcile = default_reconcile_config\<lparr>rc_lock_pda := demo_key 12\<rparr>"

lemma demo_sees:
  assumes "leader_lock_ok l"
  shows "sees demo_world (rc_lock_pda demo_reconcile) (demo_attempt (mock_fetcher (demo_chain l))) demo_snapshot l"
proof -
  have disc: "account_discriminator demo_sha256 name = replicate 8 1" for name
    by (simp add: account_discriminator_def demo_sha256_def)
  have "fetch_keeper_leader_lock le_borsh demo_sha256 (mock_fetcher (demo_chain l)) (demo_key 12) = Ok l"
    using demo_bytes_decode(2) [OF demo_laws(5) [OF le_borsh_lawful] assms]
    by (simp add: fetch_keeper_leader_lock_def demo_fetch disc del: One_nat_def)
  with demo_refresh show ?thesis by (simp add: sees_def demo_reconcile_def)
qed

text \<open>
  C22: only a leader acts: if an iteration of the reconciling loop submits a transaction or publishes a
  heartbeat, and it is not the release at shutdown, the bot had just read the chain, the lock
  allowed it to lead at the slot the snapshot shows, and its mirror of the lock and its metric say so.
\<close>

theorem only_leader_sends:
  assumes "reconcile_loop_body W submit cfg max_ticks a s = (s1, fl)" and "\<not> at_shutdown a"
    and "rs_sent s1 \<noteq> rs_sent s \<or> rs_leader_builder s1 \<noteq> rs_leader_builder s"
  shows "\<exists>snap l. snapshot_refresh (bw_types W) (at_fetcher a) (bw_context W) default_snapshot_config = Ok snap
    \<and> l = mp_inner (rs_policy (reconcile_step W cfg (at_fetcher a) s))
    \<and> \<not> lead_refused (mp_signer (rs_policy s)) l (best_slot_or_zero snap)
    \<and> mp_inner (rs_policy s1) = l\<lparr>has_leader := True, current_leader := mp_signer (rs_policy s),
          last_heartbeat_slot := best_slot_or_zero snap\<rparr>
    \<and> km_leader_status (rs_metrics s1) = 1"
  by (rule sending_leads [OF assms])

theorem only_leader_sends_witness:
  "\<exists>s1 fl. reconcile_loop_body demo_world mock_submit_leader_ix demo_reconcile None
       (demo_attempt (mock_fetcher (demo_chain (fresh_lock 30 75))))
       (start_state demo_bot new_metrics (new_policy (demo_key 20) (fresh_lock 0 75)) new_mock_leader_builder) = (s1, fl)
     \<and> current_leader (mp_inner (rs_policy s1)) = demo_key 20 \<and> last_heartbeat_slot (mp_inner (rs_policy s1)) = 40"
proof -
  let ?a = "demo_attempt (mock_fetcher (demo_chain (fresh_lock 30 75)))"
  let ?s = "start_state demo_bot new_metrics (new_policy (demo_key 20) (fresh_lock 0 75)) new_mock_leader_builder
    :: (real, mock_tx_builder, mirror_policy, mock_leader_builder) run_state"
  obtain s1 fl where run: "reconcile_loop_body demo_world mock_submit_leader_ix demo_reconcile None ?a ?s = (s1, fl)" by force
  have ok: "leader_lock_ok (fresh_lock 30 75)"
    by (simp add: leader_lock_ok_def fresh_lock_def no_key_def is_array_def is_bytes_def)
  obtain ix where ix: "build_keeper_leader_heartbeat borsh_le demo_sha256 (demo_key 90) (demo_key 1) (demo_key 12) (demo_key 20) 40 = Ok ix"
    using put_fields(2) [OF borsh_le_fixed_width, of 40]
    by (auto simp: build_keeper_leader_heartbeat_def encode_keeper_leader_heartbeat_def encode_with_discriminator_def)
  have "rs_leader_builder s1 \<noteq> rs_leader_builder ?s"
    using run demo_sees [OF ok]
    by (auto simp: reconcile_loop_body_def sees_def tick_limit_reached_def Let_def demo_best_slot
        reconcile_step_def start_state_def demo_reconcile_def default_reconcile_config_def is_due_def reconcile_def
        new_policy_def policy_should_submit_def try_heartbeat_def fresh_lock_def is_leader_def heartbeat_step_def ix
        mock_submit_leader_ix_def new_mock_leader_builder_def simp del: One_nat_def dest!: leader_tick_keeps)
  from only_leader_sends [OF run _ disjI2 [OF this]] have
    "current_leader (mp_inner (rs_policy s1)) = demo_key 20 \<and> last_heartbeat_slot (mp_inner (rs_policy s1)) = 40"
    using demo_refresh by (auto simp: demo_best_slot start_state_def new_policy_def)
  with run show ?thesis by blast
qed

text \<open>
  C23: a silent leader is not replaced while the market is quiet: as long as the chain shows the lock of
  another keeper and no sub-pool is synced later than the takeover threshold after its last
  heartbeat, a bounded run ends at its limit with nothing submitted, however many ticks, and so
  however much time, it lasts, because the bot's clock is the last sync slot.
\<close>

theorem silent_leader_not_replaced:
  assumes "has_leader l" and "current_leader l \<noteq> mp_signer policy"
    and "\<And>i. \<not> at_shutdown (env i) \<and> (\<exists>snap. sees W (rc_lock_pda cfg) (env i) snap l
           \<and> best_slot_or_zero snap \<le> last_heartbeat_slot l + takeover_threshold_slots l)"
    and "rc_reconcile_every cfg = Some every" and "n < 2 ^ 64"
  shows "\<exists>s. run_loop_with_leader_and_rpc_reconcile W submit cfg (Some n) env kb m policy lb
      = Some (s, Ok \<lparr>ro_reason = TickLimitReached, ro_ticks = n, ro_error = None\<rparr>)
    \<and> rs_sent s = [] \<and> rs_leader_builder s = lb"
proof (rule standby_reaches_limit [OF assms(4,5)])
  fix i
  from assms(3) [of i] obtain snap where "\<not> at_shutdown (env i)" "sees W (rc_lock_pda cfg) (env i) snap l"
      "best_slot_or_zero snap \<le> last_heartbeat_slot l + takeover_threshold_slots l" by blast
  then show "\<not> at_shutdown (env i) \<and> (\<exists>snap. sees W (rc_lock_pda cfg) (env i) snap l
      \<and> lead_refused (mp_signer policy) l (best_slot_or_zero snap))"
    using assms(1,2) by (intro conjI exI [of _ snap]) (auto simp: lead_refused_def)
qed

theorem silent_leader_not_replaced_witness:
  "\<exists>s. run_loop_with_leader_and_rpc_reconcile demo_world mock_submit_leader_ix demo_reconcile (Some 1000000)
       (\<lambda>i. demo_attempt (mock_fetcher (demo_chain (demo_lock 35)))) demo_bot new_metrics
       (new_policy (demo_key 20) (fresh_lock 0 75)) new_mock_leader_builder
     = Some (s, Ok \<lparr>ro_reason = TickLimitReached, ro_ticks = 1000000, ro_error = None\<rparr>)
   \<and> rs_sent s = [] \<and> rs_leader_builder s = new_mock_leader_builder"
proof -
  have ok: "leader_lock_ok (demo_lock 35)"
    by (simp add: leader_lock_ok_def demo_lock_def is_array_def is_bytes_def) (simp add: demo_key_def)
  show ?thesis
    by (rule silent_leader_not_replaced [where l = "demo_lock 35" and every = 20])
      (use demo_sees [OF ok] demo_best_slot in \<open>auto simp: demo_lock_def new_policy_def demo_reconcile_def
        default_reconcile_config_def\<close>)
qed

text \<open>
  C24: a graceful release keeps the standby out: the release stamps the lock with the slot of the
  chain, and a bot whose snapshots show only earlier sync slots takes its own slot for a clock
  that runs behind, so it submits nothing and does not take the free lock.
\<close>

theorem released_lock_not_taken:
  assumes "keeper_leader_release signer chain_slot l0 = Ok l"
    and "\<And>i. \<not> at_shutdown (env i) \<and> (\<exists>snap. sees W (rc_lock_pda cfg) (env i) snap l
           \<and> best_slot_or_zero snap < chain_slot)"
    and "rc_reconcile_every cfg = Some every" and "n < 2 ^ 64"
  shows "\<not> has_leader l \<and> (\<exists>s. run_loop_with_leader_and_rpc_reconcile W submit cfg (Some n) env kb m policy lb
      = Some (s, Ok \<lparr>ro_reason = TickLimitReached, ro_ticks = n, ro_error = None\<rparr>)
    \<and> rs_sent s = [] \<and> rs_leader_builder s = lb)"
proof
  from assms(1) have l: "\<not> has_leader l" "last_heartbeat_slot l = chain_slot"
    by (auto simp: keeper_leader_release_def split: if_splits)
  show "\<not> has_leader l" by (rule l)
  show "\<exists>s. run_loop_with_leader_and_rpc_reconcile W submit cfg (Some n) env kb m policy lb
      = Some (s, Ok \<lparr>ro_reason = TickLimitReached, ro_ticks = n, ro_error = None\<rparr>)
    \<and> rs_sent s = [] \<and> rs_leader_builder s = lb"
    by (rule standby_reaches_limit [OF assms(3,4)]) (use assms(2) l(2) in \<open>auto simp: lead_refused_def\<close>)
qed

theorem released_lock_not_taken_witness:
  "\<exists>l. keeper_leader_release (demo_key 99) 50 (demo_lock 45) = Ok l \<and> \<not> has_leader l
     \<and> (\<exists>s. run_loop_with_leader_and_rpc_reconcile demo_world mock_submit_leader_ix demo_reconcile (Some 1000000)
       (\<lambda>i. demo_attempt (mock_fetcher (demo_chain l))) demo_bot new_metrics
       (new_policy (demo_key 20) (demo_lock 45)) new_mock_leader_builder
     = Some (s, Ok \<lparr>ro_reason = TickLimitReached, ro_ticks = 1000000, ro_error = None\<rparr>)
     \<and> rs_sent s = [] \<and> rs_leader_builder s = new_mock_leader_builder)"
proof -
  obtain l where l: "keeper_leader_release (demo_key 99) 50 (demo_lock 45) = Ok l" and ok: "leader_lock_ok l"
    by (simp add: keeper_leader_release_def demo_lock_def leader_lock_ok_def no_key_def is_array_def is_bytes_def)
  have "\<not> has_leader l \<and> (\<exists>s. run_loop_with_leader_and_rpc_reconcile demo_world mock_submit_leader_ix demo_reconcile (Some 1000000)
       (\<lambda>i. demo_attempt (mock_fetcher (demo_chain l))) demo_bot new_metrics
       (new_policy (demo_key 20) (demo_lock 45)) new_mock_leader_builder
     = Some (s, Ok \<lparr>ro_reason = TickLimitReached, ro_ticks = 1000000, ro_error = None\<rparr>)
     \<and> rs_sent s = [] \<and> rs_leader_builder s = new_mock_leader_builder)"
    by (rule released_lock_not_taken [OF l, where every = 20])
      (use demo_sees [OF ok] demo_best_slot in \<open>auto simp: demo_reconcile_def default_reconcile_config_def\<close>)
  with l show ?thesis by blast
qed

end
