(* ===== verification/Multi_Properties.thy ===== *)
theory Multi_Properties
  imports Multi_Facts Bot_Properties
begin

text \<open>
  The properties of the market registry and of the multi-market loop, each with a witness on two
  markets of the sample chain.
\<close>

section \<open>The registry\<close>

text \<open>
  C36: the hand-written base58 decoder is exact: it never panics, and it accepts a text as the bytes
  \<open>bs\<close> if and only if the text without its white space is the base58 encoding of \<open>bs\<close>, so distinct
  keys have distinct texts and every key has one.
\<close>

theorem base58_exact:
  "(base58_decode s = Ok bs \<longleftrightarrow> is_bytes bs \<and> visible s = base58_encode bs)
   \<and> base58_decode s \<noteq> Panic msg"
  using base58_decode_iff [of s bs] base58_no_panic [of s msg] by (simp add: is_bytes_def)

definition demo_entry :: "string \<Rightarrow> nat \<Rightarrow> pubkey option \<Rightarrow> market_entry" where
  "demo_entry symbol n leader = \<lparr>me_symbol = ascii symbol, me_program_id = demo_key 90, me_market_pda = demo_key n,
     me_lock_pda = demo_key 12, me_expected_leader = leader\<rparr>"

abbreviation demo_entries :: "market_entry list" where
  "demo_entries \<equiv> [demo_entry ''SOL-USD'' 1 (Some (demo_key 20)), demo_entry ''BTC#USD'' 2 None]"

lemma demo_key_array: "n < 256 \<Longrightarrow> is_array 32 (demo_key n)"
  by (simp add: is_array_def is_bytes_def demo_key_def)

lemma demo_entries_ok:
  "\<forall>m\<in>set demo_entries. entry_ok m \<and> plain_symbol m" "distinct (map me_symbol demo_entries)"
  by (simp_all add: demo_entry_def entry_ok_def plain_symbol_def demo_key_array text_len_def utf8_def ascii_def)

text \<open>
  C35: the configuration file round-trips: what is written for a list of well-formed markets with
  distinct symbols, one table each with the keys in base58, is read back as exactly that list,
  whatever the environment; the symbols may contain any ASCII character but a quote, a dollar sign
  and a line feed.
\<close>

theorem registry_roundtrip:
  assumes "\<forall>m\<in>set ms. entry_ok m \<and> plain_symbol m" and "distinct (map me_symbol ms)" and "ms \<noteq> []"
  shows "from_toml_str env (registry_toml ms) = Ok \<lparr>mr_markets = ms\<rparr>"
  using toml_roundtrip [OF assms] by (simp add: from_toml_str_def)

theorem registry_roundtrip_witness:
  "from_toml_str (\<lambda>name. None) (registry_toml demo_entries) = Ok \<lparr>mr_markets = demo_entries\<rparr>"
  using registry_roundtrip [OF demo_entries_ok] by simp

lemma add_entries_exact:
  assumes "\<forall>m\<in>set ms. \<forall>slot. mk m = Ok slot \<longrightarrow> ms_label slot = me_symbol m"
    and "distinct (map ms_label out @ map me_symbol ms)"
  shows "case List.find (\<lambda>m. \<nexists>slot. mk m = Ok slot) ms of
      None \<Rightarrow> \<exists>slots. add_entries mk ms out = Ok (out @ slots) \<and> map Inr slots = map mk ms
    | Some m \<Rightarrow> (\<forall>e. mk m = Err e
          \<longrightarrow> add_entries mk ms out = Err (ascii ''build slot for market `'' @ me_symbol m @ ascii ''` failed: '' @ e))
        \<and> (\<forall>msg. mk m = Panic msg \<longrightarrow> add_entries mk ms out = Panic msg)"
  using assms
proof (induction ms arbitrary: out)
  case (Cons m ms)
  show ?case
  proof (cases "\<exists>slot. mk m = Ok slot")
    case True
    then obtain slot where slot: "mk m = Ok slot" "ms_label slot = me_symbol m" using Cons.prems(1) by auto
    have "add_slot slot out = Ok (out @ [slot])" using Cons.prems(2) slot(2) by (auto simp: add_slot_def image_iff)
    then have step: "add_entries mk (m # ms) out = add_entries mk ms (out @ [slot])" by (simp add: slot)
    have "distinct (map ms_label (out @ [slot]) @ map me_symbol ms)" using Cons.prems(2) slot(2) by auto
    with Cons.prems(1) have IH: "case List.find (\<lambda>m. \<nexists>slot. mk m = Ok slot) ms of
        None \<Rightarrow> \<exists>slots. add_entries mk ms (out @ [slot]) = Ok ((out @ [slot]) @ slots) \<and> map Inr slots = map mk ms
      | Some m' \<Rightarrow> (\<forall>e. mk m' = Err e \<longrightarrow> add_entries mk ms (out @ [slot])
            = Err (ascii ''build slot for market `'' @ me_symbol m' @ ascii ''` failed: '' @ e))
          \<and> (\<forall>msg. mk m' = Panic msg \<longrightarrow> add_entries mk ms (out @ [slot]) = Panic msg)"
      by (intro Cons.IH) auto
    have found: "List.find (\<lambda>m. \<nexists>slot. mk m = Ok slot) (m # ms) = List.find (\<lambda>m. \<nexists>slot. mk m = Ok slot) ms"
      using slot(1) by simp
    show ?thesis
    proof (cases "List.find (\<lambda>m. \<nexists>slot. mk m = Ok slot) ms")
      case None
      with IH obtain slots where "add_entries mk ms (out @ [slot]) = Ok ((out @ [slot]) @ slots)"
        "map Inr slots = map mk ms" by auto
      then have "add_entries mk (m # ms) out = Ok (out @ slot # slots)"
        "map Inr (slot # slots) = map mk (m # ms)"
        using slot(1) step by simp_all
      then show ?thesis unfolding found None option.case by blast
    next
      case (Some m')
      with IH show ?thesis unfolding found step by simp
    qed
  next
    case False
    then have "List.find (\<lambda>m. \<nexists>slot. mk m = Ok slot) (m # ms) = Some m" by simp
    then show ?thesis by simp
  qed
qed simp

text \<open>
  C34: a registry that loads is valid, and whether the multi-market bot can be built from it is up
  to the caller's builder alone. It has a market, the symbols are distinct ASCII strings of one to
  sixteen bytes and every key has 32 bytes. For a builder that labels the slot of an entry with the
  entry's symbol, which is the hypothesis: if it builds every entry the bot has exactly these slots
  in order, one for each symbol, and otherwise the bot is refused with the error of the first entry
  that was not built; it is never refused for a duplicate label.
\<close>

theorem loaded_registry_runs:
  assumes "from_toml_str env input = Ok r"
    and "\<forall>m\<in>set (mr_markets r). \<forall>slot. mk m = Ok slot \<longrightarrow> ms_label slot = me_symbol m"
  shows "mr_markets r \<noteq> [] \<and> (\<forall>m\<in>set (mr_markets r). entry_ok m) \<and> distinct (map me_symbol (mr_markets r))
    \<and> (case List.find (\<lambda>m. \<nexists>slot. mk m = Ok slot) (mr_markets r) of
         None \<Rightarrow> \<exists>slots. from_config_with r mk = Ok slots \<and> map Inr slots = map mk (mr_markets r)
           \<and> map ms_label slots = map me_symbol (mr_markets r)
       | Some m \<Rightarrow> (\<forall>e. mk m = Err e \<longrightarrow> from_config_with r mk
             = Err (ascii ''build slot for market `'' @ me_symbol m @ ascii ''` failed: '' @ e))
           \<and> (\<forall>msg. mk m = Panic msg \<longrightarrow> from_config_with r mk = Panic msg))"
proof -
  from loaded_registry assms(1) have r: "mr_markets r \<noteq> []" "distinct (map me_symbol (mr_markets r))"
    "\<forall>m\<in>set (mr_markets r). entry_ok m" by (auto simp: from_toml_str_def)
  have labels: "map ms_label slots = map me_symbol ms"
    if "map Inr slots = map mk ms" "\<forall>m\<in>set ms. \<forall>slot. mk m = Ok slot \<longrightarrow> ms_label slot = me_symbol m"
    for slots :: "('a, 'b) market_slot list" and ms
    using that by (induction ms arbitrary: slots) (auto simp: map_eq_Cons_conv)
  from add_entries_exact [OF assms(2), of "[]"] r(1,3) r(2) labels [OF _ assms(2)] show ?thesis
    by (auto simp: from_config_with_def split: option.splits)
qed

definition demo_market_slot :: "utext \<Rightarrow> (real, mock_tx_builder) market_slot" where
  "demo_market_slot label = \<lparr>ms_label = label, ms_ctx = demo_context, ms_rpc_cfg = demo_reconcile, ms_bot = demo_bot,
     ms_metrics = new_metrics, ms_policy = new_policy (demo_key 20) (fresh_lock 0 75), ms_ticks = 0,
     ms_last_reconcile_tick = None, ms_last_heartbeat_tick = None, ms_was_leader_last_tick = False,
     ms_finished = None, ms_sent = []\<rparr>"

lemma demo_market_slot_simps [simp]:
  "ms_label (demo_market_slot l) = l" "ms_finished (demo_market_slot l) = None" "ms_ctx (demo_market_slot l) = demo_context"
  "ms_metrics (demo_market_slot l) = new_metrics" "ms_ticks (demo_market_slot l) = 0"
  by (simp_all add: demo_market_slot_def)

lemma demo_entry_symbol [simp]: "me_symbol (demo_entry s n k) = ascii s"
  by (simp add: demo_entry_def)

text \<open>The witness has a builder that builds both markets, and one that cannot reach the second.\<close>

theorem loaded_registry_runs_witness:
  "(\<exists>slots. from_config_with \<lparr>mr_markets = demo_entries\<rparr> (\<lambda>m. Ok (demo_market_slot (me_symbol m))) = Ok slots
     \<and> map ms_label slots = [ascii ''SOL-USD'', ascii ''BTC#USD''])
   \<and> from_config_with \<lparr>mr_markets = demo_entries\<rparr>
       (\<lambda>m. if me_expected_leader m = None then Err (ascii ''unreachable'') else Ok (demo_market_slot (me_symbol m)))
     = Err (ascii ''build slot for market `BTC#USD` failed: unreachable'')"
proof
  have load: "from_toml_str (\<lambda>name. None) (registry_toml demo_entries) = Ok \<lparr>mr_markets = demo_entries\<rparr>"
    using toml_roundtrip [OF demo_entries_ok] by (simp add: from_toml_str_def)
  from loaded_registry_runs [OF load, of "\<lambda>m. Ok (demo_market_slot (me_symbol m))"]
  show "\<exists>slots. from_config_with \<lparr>mr_markets = demo_entries\<rparr> (\<lambda>m. Ok (demo_market_slot (me_symbol m))) = Ok slots
     \<and> map ms_label slots = [ascii ''SOL-USD'', ascii ''BTC#USD'']"
    by auto
  let ?mk = "\<lambda>m. if me_expected_leader m = None then Err (ascii ''unreachable'') else Ok (demo_market_slot (me_symbol m))"
  have "me_expected_leader (demo_entry s n k) = k" for s n k by (simp add: demo_entry_def)
  then show "from_config_with \<lparr>mr_markets = demo_entries\<rparr> ?mk
     = Err (ascii ''build slot for market `BTC#USD` failed: unreachable'')"
    using loaded_registry_runs [OF load, of ?mk] by (simp add: ascii_def)
qed

section \<open>The multi-market loop\<close>

text \<open>
  C32: every market runs as if alone: a completed pass counts one, and does to each market that still
  runs exactly one iteration of the single-market loop on that market's own context, configuration
  and state, threading the leader builder through in order, and nothing to one that has finished;
  a market that stops, stops only itself.
\<close>

theorem markets_run_alone:
  assumes "multi_body W submit max_passes pass st = (st', NextPass)" and "\<And>j. \<not> at_shutdown (pa_attempt pass j)"
  shows "mu_passes st' = mu_passes st + 1 \<and> length (mu_slots st') = length (mu_slots st)
    \<and> (\<exists>bs. length bs = Suc (length (mu_slots st)) \<and> bs ! 0 = mu_leader_builder st
        \<and> bs ! length (mu_slots st) = mu_leader_builder st'
        \<and> (\<forall>j<length (mu_slots st).
            slot_passes W submit (pa_attempt pass j) (mu_slots st ! j) (bs ! j) (mu_slots st' ! j) (bs ! Suc j)))"
proof -
  obtain slots l fin ab where w: "walk_slots W submit (pa_attempt pass) 0 (mu_slots st) (mu_leader_builder st) = (slots, l, fin, ab)"
    by (metis prod_cases4)
  with assms(1) have "ab = None" "mu_slots st' = slots" "mu_leader_builder st' = l"
    by (auto simp: multi_body_def Let_def split: if_split_asm option.split_asm prod.split_asm sum.split_asm)
  with walk_passes [OF _ assms(2), where i = 0] w next_pass [OF assms(1)]
  show ?thesis by simp
qed

definition demo_multi :: "(real, mock_tx_builder, mock_leader_builder) multi_state" where
  "demo_multi = \<lparr>mu_slots = map (\<lambda>m. demo_market_slot (me_symbol m)) demo_entries, mu_leader_builder = new_mock_leader_builder, mu_passes = 0\<rparr>"

text \<open>The first market has a dead connection, the second finds no market account.\<close>

definition demo_pass :: "mock_tx_builder market_pass" where
  "demo_pass = \<lparr>pa_shutdown = False,
     pa_attempt = (\<lambda>j. demo_attempt (if j = 0 then dead_rpc else mock_fetcher bt_empty))\<rparr>"

lemma demo_refused:
  "snapshot_refresh le_borsh dead_rpc demo_context cfg = Err (SnapRpc (Transport ''timeout''))"
  "snapshot_refresh le_borsh (mock_fetcher bt_empty) demo_context cfg = Err (SnapMarketNotFound (demo_key 1))"
  by (simp_all add: snapshot_refresh_def dead_rpc_def mock_fetcher_def bt_empty_def del: One_nat_def)

definition lost_market :: run_outcome where
  "lost_market = \<lparr>ro_reason = PermanentError, ro_ticks = 0, ro_error = Some (BotSnapshot (SnapMarketNotFound (demo_key 1)))\<rparr>"

lemma demo_walk:
  "walk_slots demo_world mock_submit_leader_ix (pa_attempt demo_pass) 0 (mu_slots demo_multi) new_mock_leader_builder
   = ([(demo_market_slot (ascii ''SOL-USD''))\<lparr>ms_metrics := observe_snapshot_error new_metrics\<rparr>,
       (demo_market_slot (ascii ''BTC#USD''))\<lparr>ms_metrics := observe_snapshot_error new_metrics, ms_finished := Some lost_market\<rparr>],
      new_mock_leader_builder, False, None)"
  by (simp add: demo_multi_def demo_pass_def tick_one_slot_def demo_refused
      is_transient_def lost_market_def)

theorem markets_run_alone_witness:
  "\<exists>st'. multi_body demo_world mock_submit_leader_ix None demo_pass demo_multi = (st', NextPass) \<and> mu_passes st' = 1
     \<and> map ms_finished (mu_slots st') = [None, Some lost_market]"
proof -
  obtain st' where m: "multi_body demo_world mock_submit_leader_ix None demo_pass demo_multi = (st', NextPass)"
    "map ms_finished (mu_slots st') = [None, Some lost_market]"
  proof
    show "multi_body demo_world mock_submit_leader_ix None demo_pass demo_multi
      = (demo_multi\<lparr>mu_slots := fst (walk_slots demo_world mock_submit_leader_ix (pa_attempt demo_pass) 0
           (mu_slots demo_multi) new_mock_leader_builder), mu_passes := 1\<rparr>, NextPass)"
      using demo_walk by (simp add: multi_body_def demo_pass_def plus_w_def Let_def) (simp add: demo_multi_def plus_w_def Let_def)
    show "map ms_finished (mu_slots (demo_multi\<lparr>mu_slots := fst (walk_slots demo_world mock_submit_leader_ix (pa_attempt demo_pass) 0
           (mu_slots demo_multi) new_mock_leader_builder), mu_passes := 1\<rparr>)) = [None, Some lost_market]"
      by (simp add: demo_walk)
  qed
  have "\<not> at_shutdown (pa_attempt demo_pass j)" for j by (simp add: demo_pass_def)
  from markets_run_alone [OF m(1) this] m show ?thesis by (auto simp: demo_multi_def)
qed

lemma tick_one_slot_label:
  assumes "tick_one_slot W submit a slot l = (slot', l', fl)"
  shows "ms_label slot' = ms_label slot"
proof -
  have counts: "ms_label s' = ms_label s" if "slot_counts s k = (s', k', f)"
    for s s' :: "('a, 'b) market_slot" and k k' :: 'c and f
    using slot_counts_state(2) [OF that] by (simp add: same_market_def)
  have tick: "ms_label s' = ms_label s" if "slot_tick W snap a s k = (s', k', f)" for snap s s' k k' f
    using slot_tick_state(2) [OF that] by (simp add: same_market_def)
  have beat: "ms_label s' = ms_label s" if "slot_heartbeat W submit now s k = Inr (s', k')" for now s s' k k'
    using slot_heartbeat_state(2) [OF that] by (simp add: same_market_def)
  have rec: "ms_label (slot_reconcile W f slot) = ms_label slot" for f
    using slot_reconcile_state(2) [of slot W f] by (simp add: same_market_def)
  show ?thesis
    using assms
    by (auto simp: tick_one_slot_def Let_def rec dest!: counts tick beat
        split: sum.split_asm failure.split_asm prod.split_asm bool.split_asm)
qed

lemma walk_slots_labels:
  "walk_slots W submit attempts i slots l = (slots', l', fin, ab) \<Longrightarrow> map ms_label slots' = map ms_label slots"
  by (induction slots arbitrary: i l slots' l' fin ab)
    (auto split: if_split_asm prod.split_asm slot_flow.split_asm dest: tick_one_slot_label)

lemma release_slots_labels:
  "release_slots W submit slots l = (slots', l', ab) \<Longrightarrow> map ms_label slots' = map ms_label slots"
  by (induction slots arbitrary: l slots' l' ab)
    (auto simp: finish_slot_def split: if_split_asm prod.split_asm sum.split_asm failure.split_asm)

lemma multi_body_labels:
  assumes "multi_body W submit max_passes pass st = (st', fl)"
  shows "map ms_label (mu_slots st') = map ms_label (mu_slots st)"
  using assms
  by (auto simp: multi_body_def finish_slot_def Let_def dest: walk_slots_labels release_slots_labels
      split: if_split_asm prod.split_asm option.split_asm sum.split_asm)

lemma run_passes_labels:
  assumes "run_passes (multi_body W submit max_passes) env i st = Some (st', r)"
  shows "map ms_label (mu_slots st') = map ms_label (mu_slots st)"
proof -
  define P where "P = (\<lambda>body (env :: nat \<Rightarrow> 'b market_pass) (i :: nat) (s :: ('a, 'b, 'c) multi_state) (res :: ('a, 'b, 'c) multi_state \<times> string option).
    body = multi_body W submit max_passes \<longrightarrow> map ms_label (mu_slots (fst res)) = map ms_label (mu_slots s))"
  have "P (multi_body W submit max_passes) env i st (st', r)"
  proof (rule run_passes.raw_induct [OF _ assms])
    fix rp body and env :: "nat \<Rightarrow> 'b market_pass" and i and s :: "('a, 'b, 'c) multi_state" and res :: "('a, 'b, 'c) multi_state \<times> string option"
    assume IH: "\<And>body env i s res. rp body env i s = Some res \<Longrightarrow> P body env i s res"
      and run: "(case body (env i) s of (s', NextPass) \<Rightarrow> rp body env (Suc i) s'
        | (s', LoopEnds) \<Rightarrow> Some (s', None) | (s', LoopAborts msg) \<Rightarrow> Some (s', Some msg)) = Some res"
    obtain s1 fl where b: "body (env i) s = (s1, fl)" by force
    have keep: "body = multi_body W submit max_passes \<Longrightarrow> map ms_label (mu_slots s1) = map ms_label (mu_slots s)"
      using b multi_body_labels by blast
    show "P body env i s res"
    proof (cases fl)
      case NextPass
      with run b IH have "P body env (Suc i) s1 res" by simp
      with keep show ?thesis by (simp add: P_def)
    qed (use run b keep in \<open>auto simp: P_def\<close>)
  qed
  then show ?thesis by (simp add: P_def)
qed

text \<open>
  C33: a multi-market loop with a pass limit always returns, whatever the chain, the network and the
  shutdown flag do, and counts no more passes than the limit. It reports one outcome for each
  market of the registry, in its order and under its label. The reason it reports for the whole is
  never the limit: it is the permanent error of some market or else a shutdown signal, even when no
  signal was given.
\<close>

theorem multi_loop_returns:
  "\<exists>slots l res. run_loop_multi_market_leader_and_rpc_reconcile W submit (Some n) env registry lb = Some (slots, l, res)
     \<and> (\<forall>out. res = Ok out \<longrightarrow> mo_passes out \<le> n
          \<and> map pm_label (mo_per_market out) = map ms_label registry
          \<and> map ms_label slots = map ms_label registry
          \<and> mo_reason out = (if \<exists>m\<in>set (mo_per_market out). pm_reason m = PermanentError then PermanentError else ShutdownSignal))"
proof -
  obtain st r where run: "run_passes (multi_body W submit (Some n)) env 0
      \<lparr>mu_slots = registry, mu_leader_builder = lb, mu_passes = 0\<rparr> = Some (st, r)" "mu_passes st \<le> n"
    using bounded_passes_return [of W submit n env 0 "\<lparr>mu_slots = registry, mu_leader_builder = lb, mu_passes = 0\<rparr>"] by auto
  have labels: "map ms_label (mu_slots st) = map ms_label registry"
    using run_passes_labels [OF run(1)] by simp
  then have out: "map pm_label (mo_per_market (aggregate st)) = map ms_label registry"
    by (simp add: aggregate_def comp_def)
  show ?thesis
    using run labels out aggregate_reason [of st]
    by (cases r) (auto simp: run_loop_multi_market_leader_and_rpc_reconcile_def multi_result_def comp_def,
      simp add: aggregate_def)
qed

theorem multi_loop_returns_witness:
  "\<exists>slots l out. run_loop_multi_market_leader_and_rpc_reconcile demo_world mock_submit_leader_ix (Some 0)
       (\<lambda>i. demo_pass) (mu_slots demo_multi) new_mock_leader_builder = Some (slots, l, Ok out)
     \<and> map pm_reason (mo_per_market out) = [TickLimitReached, TickLimitReached] \<and> mo_reason out = ShutdownSignal"
proof -
  let ?run = "run_loop_multi_market_leader_and_rpc_reconcile demo_world mock_submit_leader_ix (Some 0)
       (\<lambda>i. demo_pass) (mu_slots demo_multi) new_mock_leader_builder"
  have body: "multi_body demo_world mock_submit_leader_ix (Some 0) demo_pass demo_multi
    = (demo_multi\<lparr>mu_slots := map (finish_slot TickLimitReached) (mu_slots demo_multi)\<rparr>, LoopEnds)"
    by (simp add: multi_body_def demo_pass_def demo_multi_def)
  have start: "\<lparr>mu_slots = mu_slots demo_multi, mu_leader_builder = new_mock_leader_builder, mu_passes = 0\<rparr> = demo_multi"
    by (simp add: demo_multi_def)
  obtain slots l out where run: "?run = Some (slots, l, Ok out)"
    and out: "map pm_reason (mo_per_market out) = [TickLimitReached, TickLimitReached]"
    using run_passes_cases(2) [where body = "multi_body demo_world mock_submit_leader_ix (Some 0)"
        and env = "\<lambda>i. demo_pass" and i = 0, OF body]
    by (simp add: run_loop_multi_market_leader_and_rpc_reconcile_def start multi_result_def aggregate_def
        demo_multi_def finish_slot_def taken_outcome_def)
  have no: "\<not> (\<exists>m\<in>set (mo_per_market out). pm_reason m = PermanentError)"
  proof
    assume "\<exists>m\<in>set (mo_per_market out). pm_reason m = PermanentError"
    then have "PermanentError \<in> set (map pm_reason (mo_per_market out))" by (auto intro: rev_image_eqI)
    with out show False by simp
  qed
  from multi_loop_returns [of demo_world mock_submit_leader_ix 0 "\<lambda>i. demo_pass" "mu_slots demo_multi" new_mock_leader_builder]
  have "mo_reason out = ShutdownSignal" using run no by auto
  with run out show ?thesis by (intro exI conjI)
qed

end
