(* ===== verification/Ops_Checks.thy ===== *)
theory Ops_Checks
  imports Market_Registry Keeper_Predictor
begin

text \<open>
  The health checks of the operators' toolkit and their report. The report,
  \<open>crates/ops-toolkit/src/report.rs\<close>: severities, the status and result of a check, what a
  report adds up to, exit codes, and the two renderings. Text is a list of code points; how a
  double is printed is an argument (\<open>float_text\<close>), as its arithmetic is.
\<close>

section \<open>Doubles as text\<close>

record 'f float_text =
  ft_ops :: "'f f64_ops"
  ft_fixed :: "nat \<Rightarrow> 'f \<Rightarrow> utext"
  ft_display :: "'f \<Rightarrow> utext"
  ft_nan :: 'f
  ft_is_nan :: "'f \<Rightarrow> bool"
  ft_sign_positive :: "'f \<Rightarrow> bool"

definition decimal :: "nat \<Rightarrow> utext" where
  "decimal n = ascii (decimal_nat n)"

section \<open>Severities, statuses, results\<close>

datatype severity = P0 | P1 | P2 | P3

definition severity_rank :: "severity \<Rightarrow> nat" where
  "severity_rank s = (case s of P0 \<Rightarrow> 0 | P1 \<Rightarrow> 1 | P2 \<Rightarrow> 2 | P3 \<Rightarrow> 3)"

definition severity_str :: "severity \<Rightarrow> utext" where
  "severity_str s = (case s of P0 \<Rightarrow> ascii ''P0'' | P1 \<Rightarrow> ascii ''P1'' | P2 \<Rightarrow> ascii ''P2'' | P3 \<Rightarrow> ascii ''P3'')"

datatype check_status = Pass | Warn | Critical

definition status_str :: "check_status \<Rightarrow> utext" where
  "status_str s = (case s of Pass \<Rightarrow> ascii ''PASS'' | Warn \<Rightarrow> ascii ''WARN'' | Critical \<Rightarrow> ascii ''CRITICAL'')"

definition status_rank :: "check_status \<Rightarrow> u8" where
  "status_rank s = (case s of Pass \<Rightarrow> 0 | Warn \<Rightarrow> 1 | Critical \<Rightarrow> 2)"

definition worst_status :: "check_status \<Rightarrow> check_status \<Rightarrow> check_status" where
  "worst_status a b = (if status_rank b \<le> status_rank a then a else b)"

record 'f check_result =
  cr_name :: utext
  cr_status :: check_status
  cr_severity :: severity
  cr_message :: utext
  cr_measurements :: "(utext \<times> 'f) list"

record 'f health_report =
  hr_timestamp_unix :: u64
  hr_checks :: "'f check_result list"

definition overall_status :: "'f health_report \<Rightarrow> check_status" where
  "overall_status r = fold (\<lambda>c acc. worst_status acc (cr_status c)) (hr_checks r) Pass"

text \<open>The minimum of the severities that fire; P0 is the least.\<close>

definition more_urgent :: "severity \<Rightarrow> severity \<Rightarrow> severity" where
  "more_urgent a b = (if severity_rank b < severity_rank a then b else a)"

definition highest_firing_severity :: "'f health_report \<Rightarrow> severity option" where
  "highest_firing_severity r =
     (case map cr_severity (filter (\<lambda>c. cr_status c \<noteq> Pass) (hr_checks r)) of
        [] \<Rightarrow> None
      | s # ss \<Rightarrow> Some (fold (\<lambda>b a. more_urgent a b) ss s))"

definition count_by_status :: "'f health_report \<Rightarrow> nat \<times> nat \<times> nat" where
  "count_by_status r = fold (\<lambda>c (p, w, k). case cr_status c of
       Pass \<Rightarrow> (p + 1, w, k) | Warn \<Rightarrow> (p, w + 1, k) | Critical \<Rightarrow> (p, w, k + 1)) (hr_checks r) (0, 0, 0)"

definition exit_code_of :: "'f check_result \<Rightarrow> nat" where
  "exit_code_of c = (case cr_status c of
       Pass \<Rightarrow> 0
     | Critical \<Rightarrow> (case cr_severity c of P0 \<Rightarrow> 4 | P1 \<Rightarrow> 3 | P2 \<Rightarrow> 2 | P3 \<Rightarrow> 1)
     | Warn \<Rightarrow> 1)"

definition exit_code_for_status :: "'f health_report \<Rightarrow> nat" where
  "exit_code_for_status r = fold (\<lambda>c highest. max highest (exit_code_of c)) (hr_checks r) 0"

section \<open>JSON\<close>

definition comma_unless :: "bool \<Rightarrow> utext" where
  "comma_unless first = (if first then [] else ascii '','')"

definition write_kv_u64 :: "string \<Rightarrow> u64 \<Rightarrow> bool \<Rightarrow> utext" where
  "write_kv_u64 k v first = comma_unless first @ [QUOTE] @ ascii k @ [QUOTE, 58] @ decimal v"

definition write_kv_f64 :: "'f float_text \<Rightarrow> utext \<Rightarrow> 'f \<Rightarrow> bool \<Rightarrow> utext" where
  "write_kv_f64 fl k v first = comma_unless first @ [QUOTE] @ k @ [QUOTE, 58] @
     (if f_finite (ft_ops fl) v then ft_display fl v
      else if ft_is_nan fl v then [QUOTE] @ ascii ''NaN'' @ [QUOTE]
      else if ft_sign_positive fl v then [QUOTE] @ ascii ''+Infinity'' @ [QUOTE]
      else [QUOTE] @ ascii ''-Infinity'' @ [QUOTE])"

definition write_kv_str :: "string \<Rightarrow> utext \<Rightarrow> bool \<Rightarrow> utext" where
  "write_kv_str k v first = comma_unless first @ [QUOTE] @ ascii k @ [QUOTE, 58, QUOTE] @ v @ [QUOTE]"

definition hex_digit :: "nat \<Rightarrow> nat" where
  "hex_digit n = (if n < 10 then 48 + n else 87 + n)"

text \<open>The escapes of \<open>escape_json_string\<close>; \<open>push_json_str\<close> of \<open>multi.rs\<close> has the same.\<close>

definition escape_json_char :: "nat \<Rightarrow> utext" where
  "escape_json_char c =
     (if c = QUOTE then [BACKSLASH, QUOTE]
      else if c = BACKSLASH then [BACKSLASH, BACKSLASH]
      else if c = 10 then [BACKSLASH, 110]
      else if c = 13 then [BACKSLASH, 114]
      else if c = 9 then [BACKSLASH, 116]
      else if c < 0x20 then [BACKSLASH, 117, 48, 48, hex_digit (c div 16), hex_digit (c mod 16)]
      else [c])"

definition escape_json_string :: "utext \<Rightarrow> utext" where
  "escape_json_string s = concat (map escape_json_char s)"

definition comma_separated :: "utext list \<Rightarrow> utext" where
  "comma_separated ls = (case ls of [] \<Rightarrow> [] | l # rest \<Rightarrow> l @ concat (map (\<lambda>x. ascii '','' @ x) rest))"

definition render_check :: "'f float_text \<Rightarrow> 'f check_result \<Rightarrow> utext" where
  "render_check fl r = [LBRACE] @ write_kv_str ''name'' (cr_name r) True
     @ write_kv_str ''status'' (status_str (cr_status r)) False
     @ write_kv_str ''severity'' (severity_str (cr_severity r)) False
     @ write_kv_str ''message'' (escape_json_string (cr_message r)) False
     @ ascii '',\"measurements\":{''
     @ comma_separated (map (\<lambda>(k, v). write_kv_f64 fl k v True) (cr_measurements r)) @ [RBRACE, RBRACE]"

definition firing_str :: "severity option \<Rightarrow> utext" where
  "firing_str s = (case s of Some x \<Rightarrow> severity_str x | None \<Rightarrow> ascii ''NONE'')"

definition render_json :: "'f float_text \<Rightarrow> 'f health_report \<Rightarrow> utext" where
  "render_json fl r = (case count_by_status r of (p, w, c) \<Rightarrow>
     [LBRACE] @ write_kv_u64 ''timestamp_unix'' (hr_timestamp_unix r) True
     @ write_kv_str ''overall_status'' (status_str (overall_status r)) False
     @ write_kv_str ''highest_firing_severity'' (firing_str (highest_firing_severity r)) False
     @ ascii '',\"counts\":{''
     @ write_kv_u64 ''pass'' p True @ write_kv_u64 ''warn'' w False @ write_kv_u64 ''critical'' c False @ [RBRACE]
     @ ascii '',\"checks\":['' @ comma_separated (map (render_check fl) (hr_checks r)) @ [93, RBRACE])"

section \<open>The text file for Prometheus\<close>

definition text_line :: "string \<Rightarrow> utext" where
  "text_line s = ascii s @ [10]"

definition render_prometheus_textfile :: "'f health_report \<Rightarrow> utext" where
  "render_prometheus_textfile r =
     text_line ''# HELP mole_health_check_status 0=PASS, 1=WARN, 2=CRITICAL.''
     @ text_line ''# TYPE mole_health_check_status gauge''
     @ concat (map (\<lambda>c. ascii ''mole_health_check_status{name=\"'' @ cr_name c @ ascii ''\",severity=\"''
         @ severity_str (cr_severity c) @ ascii ''\"} '' @ decimal (status_rank (cr_status c)) @ [10]) (hr_checks r))
     @ text_line ''# HELP mole_health_overall 0=PASS, 1=WARN, 2=CRITICAL.''
     @ text_line ''# TYPE mole_health_overall gauge''
     @ ascii ''mole_health_overall '' @ decimal (status_rank (overall_status r)) @ [10]"


text \<open>
  The health checks, \<open>crates/ops-toolkit/src/{context,checks}.rs\<close>: the facts a probe gathers and the
  twenty-two checks over them, in the order in which they run. Only the sum of the open quantities
  can overflow, so only that check has a result type.
\<close>

section \<open>Facts\<close>

record market_facts =
  mf_paused_globally :: bool
  mf_paused :: bool
  mf_frozen_new_position :: bool
  mf_schema_version_onchain :: u16
  mf_schema_version_compiled :: u16

record sub_pool_facts =
  sf_id :: u32
  sf_dormant_ticks :: u32
  sf_pending_init_hints :: u32
  sf_open_long_qty :: u128
  sf_open_short_qty :: u128

record pool_facts =
  pf_total_notional_micro_usdc :: u128
  pf_recovery_outstanding_micro_usdc :: u128
  pf_onchain_position_notional_micro_usdc :: u128

record 'f keeper_facts =
  kf_heartbeat_within_60s :: bool
  kf_failed_actions_last_hour :: u64
  kf_skipped_actions_last_hour :: u64
  kf_last_applied_vol :: "'f option"
  kf_consecutive_warming_ticks :: u32
  kf_wallet_balance_lamports :: u64

record rpc_facts =
  rf_primary_get_slot_p95_ms :: u64
  rf_primary_backup_slot_diff :: u64
  rf_get_program_accounts_ms :: u64

record 'f oracle_facts =
  of_slot_age :: u64
  of_confidence_ratio :: 'f

record leader_lock_facts =
  lf_initialized :: bool
  lf_has_leader :: bool
  lf_current_leader :: pubkey
  lf_last_heartbeat_slot :: u64
  lf_takeover_threshold_slots :: u64
  lf_current_slot :: u64
  lf_expected_leader :: "pubkey option"

record 'f health_context =
  hc_now_unix_secs :: u64
  hc_market :: market_facts
  hc_sub_pools :: "sub_pool_facts list"
  hc_keeper :: "'f keeper_facts"
  hc_rpc :: rpc_facts
  hc_oracle :: "'f oracle_facts"
  hc_pool :: pool_facts
  hc_leader_lock :: "leader_lock_facts option"

text \<open>Names, messages and measurements are written as strings; a flag is measured as 0 or 1.\<close>

definition verdict ::
  "string \<Rightarrow> check_status \<Rightarrow> severity \<Rightarrow> utext \<Rightarrow> (string \<times> 'f) list \<Rightarrow> 'f check_result" where
  "verdict name st sev message ms = \<lparr>cr_name = ascii name, cr_status = st, cr_severity = sev,
     cr_message = message, cr_measurements = map (\<lambda>(k, v). (ascii k, v)) ms\<rparr>"

definition flag :: "'f float_text \<Rightarrow> bool \<Rightarrow> 'f" where
  "flag fl b = f_of_nat (ft_ops fl) (if b then 1 else 0)"

abbreviation num :: "'f float_text \<Rightarrow> nat \<Rightarrow> 'f" where
  "num fl n \<equiv> f_of_nat (ft_ops fl) n"

abbreviation lit :: "'f float_text \<Rightarrow> rat \<Rightarrow> 'f" where
  "lit fl q \<equiv> f_lit (ft_ops fl) q"

abbreviation flt :: "'f float_text \<Rightarrow> 'f \<Rightarrow> 'f \<Rightarrow> bool" where
  "flt fl \<equiv> f_lt (ft_ops fl)"

abbreviation fle :: "'f float_text \<Rightarrow> 'f \<Rightarrow> 'f \<Rightarrow> bool" where
  "fle fl \<equiv> f_le (ft_ops fl)"

definition max_of :: "nat list \<Rightarrow> nat" where
  "max_of ns = fold max ns 0"

section \<open>Market and pools\<close>

definition check_global_paused :: "'f float_text \<Rightarrow> 'f health_context \<Rightarrow> 'f check_result" where
  "check_global_paused fl ctx = (let p = mf_paused_globally (hc_market ctx) in
     verdict ''global_paused'' (if p then Critical else Pass) P0
       (if p then ascii ''GlobalConfig.paused_globally == true'' else ascii ''global pause flag is clear'')
       [(''paused_globally'', flag fl p)])"

definition check_market_paused :: "'f float_text \<Rightarrow> 'f health_context \<Rightarrow> 'f check_result" where
  "check_market_paused fl ctx = (let p = mf_paused (hc_market ctx) in
     verdict ''market_paused'' (if p then Critical else Pass) P0
       (if p then ascii ''Market.paused == true'' else ascii ''market pause flag is clear'')
       [(''paused'', flag fl p)])"

definition check_frozen_new_position :: "'f float_text \<Rightarrow> 'f health_context \<Rightarrow> 'f check_result" where
  "check_frozen_new_position fl ctx = (let p = mf_frozen_new_position (hc_market ctx) in
     verdict ''frozen_new_position'' (if p then Warn else Pass) P2
       (if p then ascii ''Market.frozen_new_position == true (planned deprecation?)''
        else ascii ''new positions accepted'')
       [(''frozen_new_position'', flag fl p)])"

definition check_schema_version :: "'f float_text \<Rightarrow> 'f health_context \<Rightarrow> 'f check_result" where
  "check_schema_version fl ctx =
     (let onchain = mf_schema_version_onchain (hc_market ctx); compiled = mf_schema_version_compiled (hc_market ctx) in
      verdict ''schema_version_match'' (if onchain = compiled then Pass else Critical) P1
        (ascii ''on-chain='' @ decimal onchain @ ascii '' compiled='' @ decimal compiled)
        [(''schema_version_onchain'', num fl onchain), (''schema_version_compiled'', num fl compiled)])"

definition open_qty :: "sub_pool_facts list \<Rightarrow> ('e, u128) result" where
  "open_qty sps = fold_res (\<lambda>s acc. and_then (plus_w 128 (sf_open_long_qty s) (sf_open_short_qty s)) (plus_w 128 acc)) sps 0"

definition check_trading_activity :: "'f float_text \<Rightarrow> 'f health_context \<Rightarrow> ('e, 'f check_result) result" where
  "check_trading_activity fl ctx = and_then (open_qty (hc_sub_pools ctx)) (\<lambda>total.
     Ok (verdict ''trading_activity'' (if total = 0 then Warn else Pass) P3
       (ascii ''total open qty across sub-pools: '' @ decimal total) [(''total_open_qty'', num fl total)]))"

definition check_dormant_inventory :: "'f float_text \<Rightarrow> 'f health_context \<Rightarrow> 'f check_result" where
  "check_dormant_inventory fl ctx = (let max_ticks = max_of (map sf_dormant_ticks (hc_sub_pools ctx)) in
     verdict ''dormant_inventory''
       (if 5000 < max_ticks then Critical else if 2000 < max_ticks then Warn else Pass)
       (if 5000 < max_ticks then P1 else P2)
       (ascii ''max dormant ticks across sub-pools: '' @ decimal max_ticks)
       [(''max_dormant_ticks'', num fl max_ticks)])"

definition check_recovery_outstanding :: "'f float_text \<Rightarrow> 'f health_context \<Rightarrow> 'f check_result" where
  "check_recovery_outstanding fl ctx =
     (let total = pf_total_notional_micro_usdc (hc_pool ctx);
          outstanding = pf_recovery_outstanding_micro_usdc (hc_pool ctx);
          ratio = (if total = 0 then lit fl 0 else f_div (ft_ops fl) (num fl outstanding) (num fl total));
          (st, sev) = (if flt fl (lit fl (1/100)) ratio then (Critical, P0)
                           else if flt fl (lit fl (1/1000)) ratio then (Warn, P2) else (Pass, P2))
      in verdict ''recovery_outstanding'' st sev (ascii ''recovery / notional = '' @ ft_fixed fl 6 ratio)
           [(''recovery_outstanding'', num fl outstanding), (''total_notional'', num fl total), (''recovery_ratio'', ratio)])"

definition check_pending_init_hints :: "'f float_text \<Rightarrow> 'f health_context \<Rightarrow> 'f check_result" where
  "check_pending_init_hints fl ctx = (let n = max_of (map sf_pending_init_hints (hc_sub_pools ctx)) in
     verdict ''pending_init_hints'' (if 50 \<le> n then Warn else Pass) P2
       (ascii ''max pending init_hints: '' @ decimal n) [(''max_pending_init_hints'', num fl n)])"

section \<open>Keeper\<close>

definition check_keeper_alive :: "'f float_text \<Rightarrow> 'f health_context \<Rightarrow> 'f check_result" where
  "check_keeper_alive fl ctx = (let alive = kf_heartbeat_within_60s (hc_keeper ctx) in
     verdict ''keeper_alive'' (if alive then Pass else Critical) P1
       (if alive then ascii ''keeper heartbeat fresh'' else ascii ''no keeper heartbeat in past 60s'')
       [(''heartbeat_fresh'', flag fl alive)])"

definition check_keeper_failed_actions_rate :: "'f float_text \<Rightarrow> 'f health_context \<Rightarrow> 'f check_result" where
  "check_keeper_failed_actions_rate fl ctx = (let n = kf_failed_actions_last_hour (hc_keeper ctx);
       (st, sev) = (if 5 \<le> n then (Critical, P1) else if 2 \<le> n then (Warn, P2) else (Pass, P1)) in
     verdict ''keeper_failed_actions_rate'' st sev (ascii ''failed_actions in past 1h: '' @ decimal n)
       [(''failed_actions_last_hour'', num fl n)])"

definition check_keeper_skipped_actions_rate :: "'f float_text \<Rightarrow> 'f health_context \<Rightarrow> 'f check_result" where
  "check_keeper_skipped_actions_rate fl ctx = (let n = kf_skipped_actions_last_hour (hc_keeper ctx) in
     verdict ''keeper_skipped_actions_rate'' (if 100 \<le> n then Warn else Pass) P2
       (ascii ''skipped_actions in past 1h: '' @ decimal n) [(''skipped_actions_last_hour'', num fl n)])"

definition check_keeper_vol_estimator :: "'f float_text \<Rightarrow> 'f health_context \<Rightarrow> 'f check_result" where
  "check_keeper_vol_estimator fl ctx =
     (let warming = kf_consecutive_warming_ticks (hc_keeper ctx); last_vol = kf_last_applied_vol (hc_keeper ctx) in
      verdict ''keeper_vol_estimator'' (if 3 \<le> warming \<and> last_vol = None then Warn else Pass) P2
        (case last_vol of
           Some v \<Rightarrow> [963, 770] @ ascii '' = '' @ ft_fixed fl 4 v @ ascii '' (warm)''
         | None \<Rightarrow> ascii ''vol estimator still warming up ('' @ decimal warming @ ascii '' consecutive ticks)'')
        [(''consecutive_warming_ticks'', num fl warming),
         (''applied_vol'', case last_vol of Some v \<Rightarrow> v | None \<Rightarrow> ft_nan fl)])"

definition check_keeper_wallet_balance :: "'f float_text \<Rightarrow> 'f health_context \<Rightarrow> 'f check_result" where
  "check_keeper_wallet_balance fl ctx = (let bal = kf_wallet_balance_lamports (hc_keeper ctx);
       sol = f_div (ft_ops fl) (num fl bal) (lit fl 1000000000);
       (st, sev) = (if bal < 200000000 then (Critical, P1) else if bal < 500000000 then (Warn, P2) else (Pass, P1)) in
     verdict ''keeper_wallet_balance'' st sev (ascii ''wallet balance = '' @ ft_fixed fl 4 sol @ ascii '' SOL'')
       [(''wallet_balance_lamports'', num fl bal)])"

section \<open>Connections and oracle\<close>

definition check_rpc_primary_latency :: "'f float_text \<Rightarrow> 'f health_context \<Rightarrow> 'f check_result" where
  "check_rpc_primary_latency fl ctx = (let ms = rf_primary_get_slot_p95_ms (hc_rpc ctx);
       (st, sev) = (if 1000 < ms then (Critical, P1) else if 200 < ms then (Warn, P2) else (Pass, P1)) in
     verdict ''rpc_primary_latency'' st sev (ascii ''primary getSlot p95: '' @ decimal ms @ ascii '' ms'')
       [(''primary_get_slot_p95_ms'', num fl ms)])"

definition check_rpc_primary_backup_lag :: "'f float_text \<Rightarrow> 'f health_context \<Rightarrow> 'f check_result" where
  "check_rpc_primary_backup_lag fl ctx = (let d = rf_primary_backup_slot_diff (hc_rpc ctx);
       (st, sev) = (if 32 < d then (Critical, P1) else if 5 < d then (Warn, P2) else (Pass, P1)) in
     verdict ''rpc_primary_backup_lag'' st sev (ascii ''primary-backup slot diff: '' @ decimal d)
       [(''primary_backup_slot_diff'', num fl d)])"

definition check_rpc_gpa_latency :: "'f float_text \<Rightarrow> 'f health_context \<Rightarrow> 'f check_result" where
  "check_rpc_gpa_latency fl ctx = (let ms = rf_get_program_accounts_ms (hc_rpc ctx) in
     verdict ''rpc_get_program_accounts_latency''
       (if 30000 < ms then Critical else if 5000 < ms then Warn else Pass) P2
       (ascii ''getProgramAccounts: '' @ decimal ms @ ascii '' ms'') [(''get_program_accounts_ms'', num fl ms)])"

definition check_oracle_slot_age :: "'f float_text \<Rightarrow> 'f health_context \<Rightarrow> 'f check_result" where
  "check_oracle_slot_age fl ctx = (let age = of_slot_age (hc_oracle ctx);
       (st, sev) = (if 64 < age then (Critical, P0) else if 30 < age then (Warn, P1) else (Pass, P0)) in
     verdict ''oracle_slot_age'' st sev (ascii ''oracle slot_age: '' @ decimal age) [(''slot_age'', num fl age)])"

definition check_oracle_confidence :: "'f float_text \<Rightarrow> 'f health_context \<Rightarrow> 'f check_result" where
  "check_oracle_confidence fl ctx = (let ratio = of_confidence_ratio (hc_oracle ctx);
       (st, sev) = (if flt fl (lit fl (2/100)) ratio then (Critical, P1)
                        else if flt fl (lit fl (5/1000)) ratio then (Warn, P2) else (Pass, P1)) in
     verdict ''oracle_confidence'' st sev (ascii ''oracle confidence ratio: '' @ ft_fixed fl 4 ratio)
       [(''confidence_ratio'', ratio)])"

section \<open>Leader lock\<close>

definition leader_lock_skipped :: "'f float_text \<Rightarrow> string \<Rightarrow> severity \<Rightarrow> 'f check_result" where
  "leader_lock_skipped fl name sev = verdict name Pass sev
     (ascii ''leader-lock probe disabled (no LeaderLockFacts in HealthContext)'') [(''leader_lock_enabled'', lit fl 0)]"

definition check_keeper_leader_lock_initialized :: "'f float_text \<Rightarrow> 'f health_context \<Rightarrow> 'f check_result" where
  "check_keeper_leader_lock_initialized fl ctx = (case hc_leader_lock ctx of
       None \<Rightarrow> leader_lock_skipped fl ''keeper_leader_lock_initialized'' P1
     | Some facts \<Rightarrow>
         verdict ''keeper_leader_lock_initialized'' (if lf_initialized facts then Pass else Critical) P1
           (if lf_initialized facts then ascii ''KeeperLeaderLock PDA exists on chain''
            else ascii ''KeeperLeaderLock PDA not initialised '' @ [8212]
              @ ascii '' operator must run `initialize_keeper_leader_lock`'')
           [(''leader_lock_enabled'', lit fl 1), (''initialized'', flag fl (lf_initialized facts))])"

definition check_keeper_leader_lock_freshness :: "'f float_text \<Rightarrow> 'f health_context \<Rightarrow> 'f check_result" where
  "check_keeper_leader_lock_freshness fl ctx = (case hc_leader_lock ctx of
       None \<Rightarrow> leader_lock_skipped fl ''keeper_leader_lock_freshness'' P1
     | Some facts \<Rightarrow>
         if \<not> lf_initialized facts then
           verdict ''keeper_leader_lock_freshness'' Critical P1
             (ascii ''PDA not initialised '' @ [8212] @ ascii '' freshness undefined'')
             [(''leader_lock_enabled'', lit fl 1), (''initialized'', lit fl 0)]
         else if \<not> lf_has_leader facts then
           verdict ''keeper_leader_lock_freshness'' Critical P1
             (ascii ''no leader currently holds the lock '' @ [8212] @ ascii '' dispatch is paused'')
             [(''leader_lock_enabled'', lit fl 1), (''has_leader'', lit fl 0)]
         else
           let elapsed = lf_current_slot facts - lf_last_heartbeat_slot facts;
               threshold = max (lf_takeover_threshold_slots facts) 1;
               pct = f_div (ft_ops fl) (num fl elapsed) (num fl threshold);
               shown = ascii '' ('' @ decimal elapsed @ ascii '' / '' @ decimal threshold @ ascii '' slots, ''
                 @ ft_fixed fl 0 (f_mul (ft_ops fl) pct (lit fl 100)) @ ascii ''% of threshold)'';
               (st, message) =
                 (if fle fl (lit fl (90/100)) pct then (Critical, ascii ''leader heartbeat is stale'' @ shown)
                  else if fle fl (lit fl (60/100)) pct then (Warn, ascii ''leader heartbeat trending stale'' @ shown)
                  else (Pass, ascii ''leader heartbeat fresh'' @ shown))
           in verdict ''keeper_leader_lock_freshness'' st P1 message
                [(''leader_lock_enabled'', lit fl 1), (''elapsed_slots'', num fl elapsed),
                 (''takeover_threshold_slots'', num fl threshold), (''freshness_pct'', pct)])"

definition hex_byte :: "u8 \<Rightarrow> utext" where
  "hex_byte b = [hex_digit (b div 16), hex_digit (b mod 16)]"

definition short_hex :: "pubkey \<Rightarrow> utext" where
  "short_hex pk = concat (map hex_byte (take 4 pk)) @ [8230] @ concat (map hex_byte (drop 28 pk))"

definition check_keeper_leader_lock_holder_matches_expected :: "'f float_text \<Rightarrow> 'f health_context \<Rightarrow> 'f check_result" where
  "check_keeper_leader_lock_holder_matches_expected fl ctx =
     (let name = ''keeper_leader_lock_holder_matches_expected'' in case hc_leader_lock ctx of
        None \<Rightarrow> leader_lock_skipped fl name P2
      | Some facts \<Rightarrow> (case lf_expected_leader facts of
            None \<Rightarrow> verdict name Warn P2
              (ascii ''no expected_leader configured in prober '' @ [8212]
               @ ascii '' set the active replica's wallet pubkey to enable holder-match alerting'')
              [(''leader_lock_enabled'', lit fl 1), (''expected_leader_set'', lit fl 0)]
          | Some expected \<Rightarrow>
              if \<not> lf_initialized facts \<or> \<not> lf_has_leader facts then
                verdict name Critical P2
                  (ascii ''lock has no active holder '' @ [8212] @ ascii '' cannot match expected'')
                  [(''leader_lock_enabled'', lit fl 1), (''initialized'', flag fl (lf_initialized facts)),
                   (''has_leader'', flag fl (lf_has_leader facts)), (''expected_leader_set'', lit fl 1)]
              else
                let holds = (lf_current_leader facts = expected) in
                verdict name (if holds then Pass else Critical) P2
                  (if holds then ascii ''on-chain holder matches expected_leader''
                   else ascii ''on-chain holder ('' @ short_hex (lf_current_leader facts)
                     @ ascii '') does NOT match expected_leader ('' @ short_hex expected @ ascii '') '' @ [8212]
                     @ ascii '' investigate via `solana account <lock_pda>` and the keeper-bot logs'')
                  [(''leader_lock_enabled'', lit fl 1), (''expected_leader_set'', lit fl 1),
                   (''holder_matches'', flag fl holds)]))"

section \<open>Drift of the positions\<close>

definition check_position_principal_drift :: "'f float_text \<Rightarrow> 'f health_context \<Rightarrow> 'f check_result" where
  "check_position_principal_drift fl ctx =
     (let reported = pf_total_notional_micro_usdc (hc_pool ctx);
          onchain = pf_onchain_position_notional_micro_usdc (hc_pool ctx) in
      if onchain = 0 then
        verdict ''position_principal_drift'' Pass P1
          (ascii ''open-interest probe not run this cycle '' @ [8212] @ ascii '' drift check skipped'')
          [(''drift_enabled'', lit fl 0), (''reported_notional'', num fl reported), (''onchain_notional'', lit fl 0)]
      else
        let diff = (if reported \<le> onchain then onchain - reported else reported - onchain);
            denom = max reported 1;
            ratio = f_div (ft_ops fl) (num fl diff) (num fl denom);
            (st, sev) = (if fle fl (lit fl (2/100)) ratio then (Critical, P1)
                             else if fle fl (lit fl (5/1000)) ratio then (Warn, P2) else (Pass, P1))
        in verdict ''position_principal_drift'' st sev
             (ascii ''on-chain notional '' @ decimal onchain @ ascii '' vs reported '' @ decimal reported
              @ ascii '' (drift '' @ ft_fixed fl 4 ratio @ ascii '')'')
             [(''drift_enabled'', lit fl 1), (''reported_notional'', num fl reported),
              (''onchain_notional'', num fl onchain), (''drift_ratio'', ratio)])"

section \<open>All checks\<close>

definition run_all_checks :: "'f float_text \<Rightarrow> 'f health_context \<Rightarrow> ('e, 'f health_report) result" where
  "run_all_checks fl ctx = and_then (check_trading_activity fl ctx) (\<lambda>activity.
     Ok \<lparr>hr_timestamp_unix = hc_now_unix_secs ctx,
         hr_checks =
           [check_global_paused fl ctx, check_market_paused fl ctx, check_frozen_new_position fl ctx,
            check_schema_version fl ctx, activity, check_dormant_inventory fl ctx,
            check_recovery_outstanding fl ctx, check_pending_init_hints fl ctx, check_keeper_alive fl ctx,
            check_keeper_failed_actions_rate fl ctx, check_keeper_skipped_actions_rate fl ctx,
            check_keeper_vol_estimator fl ctx, check_keeper_wallet_balance fl ctx,
            check_rpc_primary_latency fl ctx, check_rpc_primary_backup_lag fl ctx,
            check_rpc_gpa_latency fl ctx, check_oracle_slot_age fl ctx, check_oracle_confidence fl ctx,
            check_keeper_leader_lock_initialized fl ctx, check_keeper_leader_lock_freshness fl ctx,
            check_keeper_leader_lock_holder_matches_expected fl ctx, check_position_principal_drift fl ctx]\<rparr>)"

definition CHECK_NAMES :: "utext list" where
  "CHECK_NAMES = map ascii [''global_paused'', ''market_paused'', ''frozen_new_position'', ''schema_version_match'',
     ''trading_activity'', ''dormant_inventory'', ''recovery_outstanding'', ''pending_init_hints'', ''keeper_alive'',
     ''keeper_failed_actions_rate'', ''keeper_skipped_actions_rate'', ''keeper_vol_estimator'', ''keeper_wallet_balance'',
     ''rpc_primary_latency'', ''rpc_primary_backup_lag'', ''rpc_get_program_accounts_latency'', ''oracle_slot_age'',
     ''oracle_confidence'', ''keeper_leader_lock_initialized'', ''keeper_leader_lock_freshness'',
     ''keeper_leader_lock_holder_matches_expected'', ''position_principal_drift'']"

end
