(* ===== verification/Ops_Prober.thy ===== *)
theory Ops_Prober
  imports Ops_Checks
begin

text \<open>
  What the prober reads from the chain, \<open>crates/ops-toolkit/src/{position_interest,rpc_fetcher}.rs\<close>: the
  open interest summed over the position accounts, and the facts of one market built from its
  account, its leader lock and the current slot. The connection (\<open>RpcAccountSource\<close>) is a record
  of operations on a state of its own, with its clock.
\<close>

section \<open>Open interest\<close>

definition POSITION_STATUS_CLOSED :: u8 where
  "POSITION_STATUS_CLOSED = 2"

record open_interest_facts =
  oi_long_count :: u64
  oi_short_count :: u64
  oi_long_principal :: u128
  oi_short_principal :: u128
  oi_long_notional :: u128
  oi_short_notional :: u128
  oi_decode_failures :: u64

definition no_open_interest :: open_interest_facts where
  "no_open_interest = \<lparr>oi_long_count = 0, oi_short_count = 0, oi_long_principal = 0,
     oi_short_principal = 0, oi_long_notional = 0, oi_short_notional = 0, oi_decode_failures = 0\<rparr>"

definition total_count :: "open_interest_facts \<Rightarrow> ('e, u64) result" where
  "total_count oi = plus_w 64 (oi_long_count oi) (oi_short_count oi)"

definition oi_total_principal :: "open_interest_facts \<Rightarrow> ('e, u128) result" where
  "oi_total_principal oi = plus_w 128 (oi_long_principal oi) (oi_short_principal oi)"

definition oi_total_notional :: "open_interest_facts \<Rightarrow> ('e, u128) result" where
  "oi_total_notional oi = plus_w 128 (oi_long_notional oi) (oi_short_notional oi)"

text \<open>The casts to \<open>i128\<close> wrap; the difference is checked.\<close>

definition net_notional_imbalance :: "open_interest_facts \<Rightarrow> ('e, int) result" where
  "net_notional_imbalance oi =
     (let l = signed_take_bit 127 (int (oi_long_notional oi)); s = signed_take_bit 127 (int (oi_short_notional oi)) in
      if fits_signed 128 (l - s) then Ok (l - s) else Panic ''attempt to subtract with overflow'')"

definition count_position :: "onchain_position \<Rightarrow> open_interest_facts \<Rightarrow> ('e, open_interest_facts) result" where
  "count_position pos oi =
     (if xp_status pos = POSITION_STATUS_CLOSED then Ok oi
      else if xp_direction_is_long pos then
        and_then (plus_w 64 (oi_long_count oi) 1) (\<lambda>n.
        and_then (plus_w 128 (oi_long_principal oi) (xp_principal pos)) (\<lambda>p.
        and_then (plus_w 128 (oi_long_notional oi) (xp_notional pos)) (\<lambda>v.
        Ok (oi\<lparr>oi_long_count := n, oi_long_principal := p, oi_long_notional := v\<rparr>))))
      else
        and_then (plus_w 64 (oi_short_count oi) 1) (\<lambda>n.
        and_then (plus_w 128 (oi_short_principal oi) (xp_principal pos)) (\<lambda>p.
        and_then (plus_w 128 (oi_short_notional oi) (xp_notional pos)) (\<lambda>v.
        Ok (oi\<lparr>oi_short_count := n, oi_short_principal := p, oi_short_notional := v\<rparr>)))))"

definition aggregate_open_interest :: "onchain_position list \<Rightarrow> ('e, open_interest_facts) result" where
  "aggregate_open_interest positions = fold_res count_position positions no_open_interest"

definition aggregate_open_interest_for_market ::
  "onchain_position list \<Rightarrow> pubkey \<Rightarrow> ('e, open_interest_facts) result" where
  "aggregate_open_interest_for_market positions market_pda =
     aggregate_open_interest (filter (\<lambda>pos. xp_market pos = market_pda) positions)"

definition position_account_discriminator :: "(u8 list \<Rightarrow> u8 list) \<Rightarrow> u8 list" where
  "position_account_discriminator sha256 = account_discriminator sha256 ''Position''"

fun decode_positions ::
  "borsh_types \<Rightarrow> (pubkey \<times> u8 list) list \<Rightarrow> ('e, onchain_position list \<times> u64) result" where
  "decode_positions B [] = Ok ([], 0)"
| "decode_positions B ((key, bs) # raw) =
     (case decode_anchor_account (onchain_position_codec B) bs of
        Inl (Panicked msg) \<Rightarrow> Panic msg
      | Inl (Failed e) \<Rightarrow> and_then (decode_positions B raw) (\<lambda>(ps, n).
          and_then (plus_w 64 n 1) (\<lambda>n. Ok (ps, n)))
      | Inr pos \<Rightarrow> and_then (decode_positions B raw) (\<lambda>(ps, n). Ok (pos # ps, n)))"

definition fetch_open_interest ::
  "borsh_types \<Rightarrow> (u8 list \<Rightarrow> u8 list) \<Rightarrow> account_fetcher \<Rightarrow> pubkey
   \<Rightarrow> (rpc_error, open_interest_facts) result" where
  "fetch_open_interest B sha256 fetcher program_id =
     and_then (fetch_program_accounts_filter fetcher program_id 0 (position_account_discriminator sha256)) (\<lambda>raw.
     and_then (decode_positions B raw) (\<lambda>(positions, failures).
     and_then (aggregate_open_interest positions) (\<lambda>facts.
     Ok (facts\<lparr>oi_decode_failures := failures\<rparr>))))"

definition fetch_open_interest_for_market ::
  "borsh_types \<Rightarrow> (u8 list \<Rightarrow> u8 list) \<Rightarrow> account_fetcher \<Rightarrow> pubkey \<Rightarrow> pubkey
   \<Rightarrow> (rpc_error, open_interest_facts) result" where
  "fetch_open_interest_for_market B sha256 fetcher program_id market_pda =
     and_then (fetch_program_accounts_filter fetcher program_id 0 (position_account_discriminator sha256)) (\<lambda>raw.
     and_then (decode_positions B raw) (\<lambda>(positions, failures).
     and_then (aggregate_open_interest_for_market positions market_pda) (\<lambda>facts.
     Ok (facts\<lparr>oi_decode_failures := failures\<rparr>))))"

definition apply_open_interest_to_pool :: "open_interest_facts \<Rightarrow> pool_facts \<Rightarrow> ('e, pool_facts) result" where
  "apply_open_interest_to_pool oi pool = and_then (oi_total_notional oi) (\<lambda>v.
     Ok (pool\<lparr>pf_onchain_position_notional_micro_usdc := v\<rparr>))"

section \<open>The fetcher of one market\<close>

type_synonym fetched_account = "u8 list"

text \<open>The trait \<open>RpcAccountSource\<close>, and the monotonic clock, in nanoseconds, that \<open>Instant\<close> reads.\<close>

record 's account_source =
  as_get_multiple_accounts :: "pubkey list \<Rightarrow> 's \<Rightarrow> (utext, fetched_account option list) result \<times> 's"
  as_get_slot :: "'s \<Rightarrow> (utext, u64) result \<times> 's"
  as_sleep_ms :: "u64 \<Rightarrow> 's \<Rightarrow> 's"
  as_now_nanos :: "'s \<Rightarrow> nat"

record 'f fetcher_config =
  fc_schema_version_compiled :: u16
  fc_default_keeper :: "'f keeper_facts"
  fc_default_oracle :: "'f oracle_facts"
  fc_default_pool :: pool_facts
  fc_now_unix_secs :: u64
  fc_default_takeover_threshold_slots :: u64
  fc_retry_attempts :: u8
  fc_retry_backoff_ms :: u64
  fc_lift_reported_notional_from_market :: bool

definition default_fetcher_config :: "'f float_text \<Rightarrow> 'f fetcher_config" where
  "default_fetcher_config fl =
     \<lparr>fc_schema_version_compiled = SCHEMA_VERSION_CURRENT,
      fc_default_keeper = \<lparr>kf_heartbeat_within_60s = True, kf_failed_actions_last_hour = 0,
        kf_skipped_actions_last_hour = 0, kf_last_applied_vol = None, kf_consecutive_warming_ticks = 0,
        kf_wallet_balance_lamports = 0\<rparr>,
      fc_default_oracle = \<lparr>of_slot_age = 0, of_confidence_ratio = lit fl 0\<rparr>,
      fc_default_pool = \<lparr>pf_total_notional_micro_usdc = 0, pf_recovery_outstanding_micro_usdc = 0,
        pf_onchain_position_notional_micro_usdc = 0\<rparr>,
      fc_now_unix_secs = 0, fc_default_takeover_threshold_slots = 75, fc_retry_attempts = 0,
      fc_retry_backoff_ms = 0, fc_lift_reported_notional_from_market = True\<rparr>"

record ('s, 'f) rpc_market_fetcher =
  rm_src :: 's
  rm_backup :: "'s option"
  rm_cfg :: "'f fetcher_config"

definition new_fetcher :: "'s \<Rightarrow> 'f fetcher_config \<Rightarrow> ('s, 'f) rpc_market_fetcher" where
  "new_fetcher src cfg = \<lparr>rm_src = src, rm_backup = None, rm_cfg = cfg\<rparr>"

definition with_backup :: "'s \<Rightarrow> ('s, 'f) rpc_market_fetcher \<Rightarrow> ('s, 'f) rpc_market_fetcher" where
  "with_backup backup F = F\<lparr>rm_backup := Some backup\<rparr>"

text \<open>The loop of \<open>with_retry\<close>: attempts left, the number of the attempt, the last error.\<close>

fun attempts ::
  "'s account_source \<Rightarrow> u64 \<Rightarrow> ('s \<Rightarrow> (utext, 't) result \<times> 's) \<Rightarrow> nat \<Rightarrow> nat \<Rightarrow> utext option \<Rightarrow> 's
   \<Rightarrow> (utext, 't) result \<times> 's" where
  "attempts R backoff op 0 attempt last_err s =
     (Err (case last_err of Some e \<Rightarrow> e | None \<Rightarrow> ascii ''unknown rpc error''), s)"
| "attempts R backoff op (Suc left) attempt last_err s =
     (let s = (if 0 < attempt \<and> 0 < backoff then as_sleep_ms R backoff s else s) in
      case op s of
        (Inr v, s) \<Rightarrow> (Inr v, s)
      | (Inl (Failed e), s) \<Rightarrow> attempts R backoff op left (attempt + 1) (Some e) s
      | (Inl (Panicked msg), s) \<Rightarrow> (Panic msg, s))"

definition with_retry ::
  "'s account_source \<Rightarrow> 'f fetcher_config \<Rightarrow> ('s \<Rightarrow> (utext, 't) result \<times> 's) \<Rightarrow> 's
   \<Rightarrow> (utext, 't) result \<times> 's" where
  "with_retry R cfg op s =
     attempts R (fc_retry_backoff_ms cfg) op (min (fc_retry_attempts cfg + 1) (2 ^ 32 - 1)) 0 None s"

definition decoded :: "'a codec \<Rightarrow> u8 list option \<Rightarrow> ('e, 'a option) result" where
  "decoded c found = (case found of
       None \<Rightarrow> Ok None
     | Some bs \<Rightarrow> (case decode_anchor_account c bs of
         Inr x \<Rightarrow> Ok (Some x) | Inl (Failed e) \<Rightarrow> Ok None | Inl (Panicked msg) \<Rightarrow> Panic msg))"

definition lifted_market :: "'f fetcher_config \<Rightarrow> onchain_market option \<Rightarrow> market_facts" where
  "lifted_market cfg found = (case found of
       Some m \<Rightarrow> \<lparr>mf_paused_globally = False, mf_paused = xm_paused m,
         mf_frozen_new_position = xm_frozen_new_position m, mf_schema_version_onchain = xm_schema_version m,
         mf_schema_version_compiled = fc_schema_version_compiled cfg\<rparr>
     | None \<Rightarrow> \<lparr>mf_paused_globally = False, mf_paused = False, mf_frozen_new_position = False,
         mf_schema_version_onchain = 0, mf_schema_version_compiled = fc_schema_version_compiled cfg\<rparr>)"

definition lifted_lock ::
  "'f fetcher_config \<Rightarrow> u64 \<Rightarrow> u8 list option \<Rightarrow> leader_lock option \<Rightarrow> leader_lock_facts option" where
  "lifted_lock cfg cluster_slot lock_data found = (case found of
       Some l \<Rightarrow> Some \<lparr>lf_initialized = True, lf_has_leader = has_leader l,
         lf_current_leader = current_leader l, lf_last_heartbeat_slot = last_heartbeat_slot l,
         lf_takeover_threshold_slots =
           (if takeover_threshold_slots l \<noteq> 0 then takeover_threshold_slots l
            else fc_default_takeover_threshold_slots cfg),
         lf_current_slot = cluster_slot, lf_expected_leader = None\<rparr>
     | None \<Rightarrow> if lock_data = None then
         Some \<lparr>lf_initialized = False, lf_has_leader = False, lf_current_leader = no_key,
           lf_last_heartbeat_slot = 0,
           lf_takeover_threshold_slots = fc_default_takeover_threshold_slots cfg,
           lf_current_slot = cluster_slot, lf_expected_leader = None\<rparr>
       else None)"

definition lifted_pool :: "'f fetcher_config \<Rightarrow> onchain_market option \<Rightarrow> pool_facts" where
  "lifted_pool cfg found =
     (if fc_lift_reported_notional_from_market cfg then
        case found of
          Some m \<Rightarrow> (fc_default_pool cfg)\<lparr>pf_total_notional_micro_usdc := xm_current_total_notional m\<rparr>
        | None \<Rightarrow> fc_default_pool cfg
      else fc_default_pool cfg)"

definition build_ctx_from_accounts ::
  "borsh_types \<Rightarrow> 'f fetcher_config \<Rightarrow> u8 list option \<Rightarrow> u8 list option \<Rightarrow> u64 \<Rightarrow> u64 \<Rightarrow> u64
   \<Rightarrow> ('e, 'f health_context) result" where
  "build_ctx_from_accounts B cfg market_data lock_data cluster_slot slot_latency_ms backup_slot_diff =
     and_then (decoded (onchain_market_codec B) market_data) (\<lambda>decoded_market.
     and_then (decoded (leader_lock_codec B) lock_data) (\<lambda>decoded_lock.
     Ok \<lparr>hc_now_unix_secs = fc_now_unix_secs cfg,
         hc_market = lifted_market cfg decoded_market,
         hc_sub_pools = [\<lparr>sf_id = 0, sf_dormant_ticks = 0, sf_pending_init_hints = 0,
           sf_open_long_qty = 0, sf_open_short_qty = 0\<rparr>],
         hc_keeper = fc_default_keeper cfg,
         hc_rpc = \<lparr>rf_primary_get_slot_p95_ms = slot_latency_ms,
           rf_primary_backup_slot_diff = backup_slot_diff, rf_get_program_accounts_ms = 0\<rparr>,
         hc_oracle = fc_default_oracle cfg,
         hc_pool = lifted_pool cfg decoded_market,
         hc_leader_lock = lifted_lock cfg cluster_slot lock_data decoded_lock\<rparr>))"

text \<open>The backup endpoint is asked once; an error of it counts as no difference.\<close>

definition sample_backup ::
  "'s account_source \<Rightarrow> u64 \<Rightarrow> 's option \<Rightarrow> ('e, u64) result \<times> 's option" where
  "sample_backup R slot backup = (case backup of
       None \<Rightarrow> (Ok 0, None)
     | Some b \<Rightarrow> (case as_get_slot R b of
           (Inr bs, b) \<Rightarrow> (Ok (max (slot - bs) (bs - slot)), Some b)
         | (Inl (Failed e), b) \<Rightarrow> (Ok 0, Some b)
         | (Inl (Panicked msg), b) \<Rightarrow> (Panic msg, Some b)))"

type_synonym ('s, 'f) market_fetcher = "market_entry \<Rightarrow> 's \<Rightarrow> (utext, 'f health_context) result \<times> 's"

definition rpc_fetch ::
  "borsh_types \<Rightarrow> 's account_source \<Rightarrow> (('s, 'f) rpc_market_fetcher, 'f) market_fetcher" where
  "rpc_fetch B R entry F =
     (case with_retry R (rm_cfg F) (as_get_multiple_accounts R [me_market_pda entry, me_lock_pda entry]) (rm_src F) of
        (Inl e, s) \<Rightarrow> (Inl e, F\<lparr>rm_src := s\<rparr>)
      | (Inr accs, s) \<Rightarrow>
          if length accs \<noteq> 2 then
            (Err (ascii ''RpcMarketFetcher: expected 2 accounts, got '' @ decimal (length accs)), F\<lparr>rm_src := s\<rparr>)
          else
            (case with_retry R (rm_cfg F) (as_get_slot R) s of
               (Inl e, s') \<Rightarrow> (Inl e, F\<lparr>rm_src := s'\<rparr>)
             | (Inr slot, s') \<Rightarrow>
                 let latency_ms = min ((as_now_nanos R s' - as_now_nanos R s) div 1000000) (2 ^ 64 - 1) in
                 case sample_backup R slot (rm_backup F) of
                   (backup_diff, backup) \<Rightarrow>
                     (and_then backup_diff (build_ctx_from_accounts B (rm_cfg F) (accs ! 0) (accs ! 1) slot latency_ms),
                      F\<lparr>rm_src := s', rm_backup := backup\<rparr>)))"

text \<open>\<open>OpenInterestAugmentingFetcher::fetch\<close>, in \<open>prober.rs\<close>.\<close>

definition augmented_fetch ::
  "borsh_types \<Rightarrow> (u8 list \<Rightarrow> u8 list) \<Rightarrow> account_fetcher \<Rightarrow> ('s, 'f) market_fetcher \<Rightarrow> ('s, 'f) market_fetcher" where
  "augmented_fetch B sha256 src base entry s =
     (case base entry s of
        (Inl e, s) \<Rightarrow> (Inl e, s)
      | (Inr ctx, s) \<Rightarrow>
          (case fetch_open_interest_for_market B sha256 src (me_program_id entry) (me_market_pda entry) of
             Inr oi \<Rightarrow> (and_then (apply_open_interest_to_pool oi (hc_pool ctx)) (\<lambda>pool. Ok (ctx\<lparr>hc_pool := pool\<rparr>)), s)
           | Inl (Failed e) \<Rightarrow> (Ok ctx, s)
           | Inl (Panicked msg) \<Rightarrow> (Panic msg, s)))"


text \<open>
  The prober, \<open>crates/ops-toolkit/src/{multi,protocol_summary,prober}.rs\<close>: one scan of all markets of
  the registry, its roll-up over the protocol, the two documents it publishes, and the daemon's
  loop. Exit codes are the naturals 0 to 4. The fetcher, the sink and the clock keep states of their
  own; the sink says whether a publication succeeded.
\<close>

section \<open>One scan\<close>

record 'f market_scan_result =
  ms_symbol :: utext
  ms_report :: "'f health_report"
  ms_exit_code :: nat

record 'f multi_report =
  mm_per_market :: "'f market_scan_result list"
  mm_worst_exit_code :: nat

text \<open>\<open>ScanError::Registry\<close>, here with the text of its registry error, is built by no function of the
  crate, since the registry comes parsed.\<close>

datatype scan_error = RegistryFailed utext | BuilderFailed utext utext

definition with_expected_leader :: "market_entry \<Rightarrow> 'f health_context \<Rightarrow> 'f health_context" where
  "with_expected_leader entry ctx =
     (case (me_expected_leader entry, hc_leader_lock ctx) of
        (Some expected, Some facts) \<Rightarrow>
          if lf_expected_leader facts = None
          then ctx\<lparr>hc_leader_lock := Some (facts\<lparr>lf_expected_leader := Some expected\<rparr>)\<rparr> else ctx
      | _ \<Rightarrow> ctx)"

definition scan_market ::
  "'f float_text \<Rightarrow> market_entry \<Rightarrow> 'f health_context \<Rightarrow> ('e, 'f market_scan_result) result" where
  "scan_market fl entry ctx = and_then (run_all_checks fl (with_expected_leader entry ctx)) (\<lambda>report.
     Ok \<lparr>ms_symbol = me_symbol entry, ms_report = report, ms_exit_code = exit_code_for_status report\<rparr>)"

fun scan_entries ::
  "'f float_text \<Rightarrow> ('s, 'f) market_fetcher \<Rightarrow> market_entry list \<Rightarrow> 'f multi_report \<Rightarrow> 's
   \<Rightarrow> (scan_error, 'f multi_report) result \<times> 's" where
  "scan_entries fl fetch [] acc s = (Ok acc, s)"
| "scan_entries fl fetch (entry # rest) acc s =
     (case fetch entry s of
        (Inl (Failed detail), s) \<Rightarrow> (Err (BuilderFailed (me_symbol entry) detail), s)
      | (Inl (Panicked msg), s) \<Rightarrow> (Panic msg, s)
      | (Inr ctx, s) \<Rightarrow>
          (case scan_market fl entry ctx of
             Inl e \<Rightarrow> (Inl e, s)
           | Inr r \<Rightarrow> scan_entries fl fetch rest
               \<lparr>mm_per_market = mm_per_market acc @ [r],
                mm_worst_exit_code = (if mm_worst_exit_code acc < ms_exit_code r then ms_exit_code r
                  else mm_worst_exit_code acc)\<rparr> s))"

definition scan_all_markets ::
  "'f float_text \<Rightarrow> market_registry \<Rightarrow> ('s, 'f) market_fetcher \<Rightarrow> 's
   \<Rightarrow> (scan_error, 'f multi_report) result \<times> 's" where
  "scan_all_markets fl registry fetch s =
     scan_entries fl fetch (mr_markets registry) \<lparr>mm_per_market = [], mm_worst_exit_code = 0\<rparr> s"

definition ctx_with_leader_lock :: "'f health_context \<Rightarrow> leader_lock_facts \<Rightarrow> 'f health_context" where
  "ctx_with_leader_lock base facts = base\<lparr>hc_leader_lock := Some facts\<rparr>"

section \<open>The protocol in one line\<close>

record protocol_summary =
  ps_markets :: u32
  ps_healthy_markets :: u32
  ps_warn_markets :: u32
  ps_critical_markets :: u32
  ps_firing_checks :: u32
  ps_worst_exit_code :: nat

definition all_healthy :: "protocol_summary \<Rightarrow> bool" where
  "all_healthy s \<longleftrightarrow> 0 < ps_markets s \<and> ps_healthy_markets s = ps_markets s"

definition protocol_status :: "protocol_summary \<Rightarrow> utext" where
  "protocol_status s = (if 0 < ps_critical_markets s then ascii ''CRITICAL''
     else if 0 < ps_warn_markets s then ascii ''WARN'' else ascii ''PASS'')"

definition protocol_severity :: "protocol_summary \<Rightarrow> utext" where
  "protocol_severity s = (if 0 < ps_critical_markets s then severity_str P1
     else if 0 < ps_warn_markets s then severity_str P2 else ascii ''NONE'')"

definition count_market ::
  "'f market_scan_result \<Rightarrow> protocol_summary \<Rightarrow> ('e, protocol_summary) result" where
  "count_market m s = (case count_by_status (ms_report m) of (p, w, c) \<Rightarrow>
     and_then (plus_w 32 (ps_markets s) 1) (\<lambda>n.
     and_then (plus_w 32 (ps_firing_checks s) ((w + c) mod 2 ^ 32)) (\<lambda>firing.
     let s = s\<lparr>ps_markets := n, ps_firing_checks := firing\<rparr> in
     case overall_status (ms_report m) of
       Pass \<Rightarrow> and_then (plus_w 32 (ps_healthy_markets s) 1) (\<lambda>k. Ok (s\<lparr>ps_healthy_markets := k\<rparr>))
     | Warn \<Rightarrow> and_then (plus_w 32 (ps_warn_markets s) 1) (\<lambda>k. Ok (s\<lparr>ps_warn_markets := k\<rparr>))
     | Critical \<Rightarrow> and_then (plus_w 32 (ps_critical_markets s) 1) (\<lambda>k. Ok (s\<lparr>ps_critical_markets := k\<rparr>)))))"

definition summarize_protocol :: "'f multi_report \<Rightarrow> ('e, protocol_summary) result" where
  "summarize_protocol r = fold_res count_market (mm_per_market r)
     \<lparr>ps_markets = 0, ps_healthy_markets = 0, ps_warn_markets = 0, ps_critical_markets = 0,
      ps_firing_checks = 0, ps_worst_exit_code = mm_worst_exit_code r\<rparr>"

definition render_protocol_summary_json :: "protocol_summary \<Rightarrow> utext" where
  "render_protocol_summary_json s = [LBRACE]
     @ write_kv_u64 ''markets'' (ps_markets s) True
     @ write_kv_u64 ''healthy_markets'' (ps_healthy_markets s) False
     @ write_kv_u64 ''warn_markets'' (ps_warn_markets s) False
     @ write_kv_u64 ''critical_markets'' (ps_critical_markets s) False
     @ write_kv_u64 ''firing_checks'' (ps_firing_checks s) False
     @ write_kv_u64 ''worst_exit_code'' (ps_worst_exit_code s) False
     @ write_kv_str ''overall_status'' (protocol_status s) False
     @ write_kv_str ''highest_firing_severity'' (protocol_severity s) False @ [RBRACE]"

definition render_json_multi :: "'f float_text \<Rightarrow> 'f multi_report \<Rightarrow> ('e, utext) result" where
  "render_json_multi fl r = and_then (summarize_protocol r) (\<lambda>s.
     Ok (ascii ''{\"worst_exit_code\":'' @ decimal (mm_worst_exit_code r) @ ascii '',\"markets\":{''
       @ comma_separated (map (\<lambda>m. [QUOTE] @ escape_json_string (ms_symbol m) @ [QUOTE, 58]
           @ render_json fl (ms_report m)) (mm_per_market r)) @ [RBRACE]
       @ ascii '',\"protocol\":'' @ render_protocol_summary_json s @ [RBRACE]))"

section \<open>Labels\<close>

definition push_json_str_minimal :: "utext \<Rightarrow> utext" where
  "push_json_str_minimal s = concat (map (\<lambda>c. if c = QUOTE then [BACKSLASH, QUOTE]
     else if c = BACKSLASH then [BACKSLASH, BACKSLASH] else [c]) s)"

definition relabel_line :: "utext \<Rightarrow> utext \<Rightarrow> utext" where
  "relabel_line symbol line =
     (if starts_with (ascii ''#'') line \<or> line = [] then line
      else if LBRACE \<in> set line then
        (case split_at RBRACE line of
           Some (head, tail) \<Rightarrow>
             head @ ascii '',market=\"'' @ push_json_str_minimal symbol @ [QUOTE, RBRACE] @ tail
         | None \<Rightarrow> line)
      else
        (case split_at 32 line of
           Some (name, val) \<Rightarrow>
             name @ ascii ''{market=\"'' @ push_json_str_minimal symbol @ ascii ''\"}'' @ [32] @ val
         | None \<Rightarrow> line))"

definition relabel_with_market :: "utext \<Rightarrow> utext \<Rightarrow> utext" where
  "relabel_with_market body symbol = concat (map (\<lambda>line. relabel_line symbol line @ [10]) (text_lines body))"

section \<open>The loop\<close>

text \<open>The traits \<open>ProberSink\<close> and \<open>ProberClock\<close>; the loop does nothing with the time it reads.\<close>

record ('k, 'c) prober_io =
  pi_publish_prometheus :: "utext \<Rightarrow> 'k \<Rightarrow> bool \<times> 'k"
  pi_publish_json :: "utext \<Rightarrow> 'k \<Rightarrow> bool \<times> 'k"
  pi_sleep :: "'c \<Rightarrow> 'c"

record ('s, 'k, 'c) prober_state =
  pr_fetcher :: 's
  pr_sink :: 'k
  pr_clock :: 'c

record 'f cycle_outcome =
  co_cycle :: nat
  co_report :: "'f multi_report option"
  co_partial_failures :: "utext list"
  co_scan_error :: "utext option"
  co_prom_published :: bool
  co_json_published :: bool

definition cycle_exit_code :: "'f cycle_outcome \<Rightarrow> nat" where
  "cycle_exit_code o1 = (case co_report o1 of Some r \<Rightarrow> mm_worst_exit_code r | None \<Rightarrow> 0)"

definition scan_error_to_string :: "scan_error \<Rightarrow> utext" where
  "scan_error_to_string e = (case e of
       RegistryFailed msg \<Rightarrow> ascii ''registry: registry parse error: '' @ msg
     | BuilderFailed symbol detail \<Rightarrow> ascii ''builder '' @ symbol @ ascii '': '' @ detail)"

definition market_block :: "'f market_scan_result \<Rightarrow> utext" where
  "market_block m = ascii ''# market='' @ ms_symbol m @ [10]
     @ relabel_with_market (render_prometheus_textfile (ms_report m)) (ms_symbol m)"

definition prober_textfile :: "nat \<Rightarrow> 'f multi_report \<Rightarrow> protocol_summary \<Rightarrow> utext" where
  "prober_textfile cycle r protocol =
     text_line ''# HELP mole_prober_cycle Cycle counter.''
     @ text_line ''# TYPE mole_prober_cycle counter''
     @ ascii ''mole_prober_cycle '' @ decimal cycle @ [10]
     @ text_line ''# HELP mole_prober_worst_exit_code Worst exit code across markets.''
     @ text_line ''# TYPE mole_prober_worst_exit_code gauge''
     @ ascii ''mole_prober_worst_exit_code '' @ decimal (mm_worst_exit_code r) @ [10]
     @ text_line ''# HELP mole_prober_markets Markets scanned by overall status.''
     @ text_line ''# TYPE mole_prober_markets gauge''
     @ ascii ''mole_prober_markets{status=\"total\"} '' @ decimal (ps_markets protocol) @ [10]
     @ ascii ''mole_prober_markets{status=\"healthy\"} '' @ decimal (ps_healthy_markets protocol) @ [10]
     @ ascii ''mole_prober_markets{status=\"warn\"} '' @ decimal (ps_warn_markets protocol) @ [10]
     @ ascii ''mole_prober_markets{status=\"critical\"} '' @ decimal (ps_critical_markets protocol) @ [10]
     @ concat (map market_block (mm_per_market r))"

definition run_one_cycle ::
  "'f float_text \<Rightarrow> market_registry \<Rightarrow> ('s, 'f) market_fetcher \<Rightarrow> ('k, 'c) prober_io \<Rightarrow> nat
   \<Rightarrow> ('s, 'k, 'c) prober_state \<Rightarrow> ('e, 'f cycle_outcome) result \<times> ('s, 'k, 'c) prober_state" where
  "run_one_cycle fl registry fetch io cycle st =
     (case scan_all_markets fl registry fetch (pr_fetcher st) of
        (Inl (Panicked msg), s) \<Rightarrow> (Panic msg, st\<lparr>pr_fetcher := s\<rparr>)
      | (Inl (Failed e), s) \<Rightarrow>
          (Ok \<lparr>co_cycle = cycle, co_report = None, co_partial_failures = [],
             co_scan_error = Some (scan_error_to_string e), co_prom_published = False,
             co_json_published = False\<rparr>, st\<lparr>pr_fetcher := s\<rparr>)
      | (Inr r, s) \<Rightarrow>
          let st = st\<lparr>pr_fetcher := s\<rparr> in
          case summarize_protocol r of
            Inl (Panicked msg) \<Rightarrow> (Panic msg, st)
          | Inl (Failed e) \<Rightarrow> (Err e, st)
          | Inr protocol \<Rightarrow>
              let (prom, sink) = pi_publish_prometheus io (prober_textfile cycle r protocol) (pr_sink st) in
              case render_json_multi fl r of
                Inl e \<Rightarrow> (Inl e, st\<lparr>pr_sink := sink\<rparr>)
              | Inr json \<Rightarrow>
                  let (js, sink) = pi_publish_json io json sink in
                  (Ok \<lparr>co_cycle = cycle, co_report = Some r, co_partial_failures = [],
                     co_scan_error = None, co_prom_published = prom, co_json_published = js\<rparr>,
                   st\<lparr>pr_sink := sink\<rparr>))"

fun run_cycles ::
  "'f float_text \<Rightarrow> market_registry \<Rightarrow> ('s, 'f) market_fetcher \<Rightarrow> ('k, 'c) prober_io \<Rightarrow> nat \<Rightarrow> nat
   \<Rightarrow> ('s, 'k, 'c) prober_state \<Rightarrow> ('e, 'f cycle_outcome list) result \<times> ('s, 'k, 'c) prober_state" where
  "run_cycles fl registry fetch io cycle 0 st = (Ok [], st)"
| "run_cycles fl registry fetch io cycle (Suc left) st =
     (case run_one_cycle fl registry fetch io cycle st of
        (Inl e, st) \<Rightarrow> (Inl e, st)
      | (Inr outcome, st) \<Rightarrow>
          let st = (if 0 < left then st\<lparr>pr_clock := pi_sleep io (pr_clock st)\<rparr> else st) in
          case run_cycles fl registry fetch io (cycle + 1) left st of
            (rest, st) \<Rightarrow> (and_then rest (\<lambda>outs. Ok (outcome # outs)), st))"

definition prober_run ::
  "'f float_text \<Rightarrow> market_registry \<Rightarrow> ('s, 'f) market_fetcher \<Rightarrow> ('k, 'c) prober_io \<Rightarrow> nat
   \<Rightarrow> ('s, 'k, 'c) prober_state \<Rightarrow> ('e, 'f cycle_outcome list) result \<times> ('s, 'k, 'c) prober_state" where
  "prober_run fl registry fetch io max_cycles st = run_cycles fl registry fetch io 0 max_cycles st"

end
