(* ===== verification/Ops_Properties.thy ===== *)
theory Ops_Properties
  imports Ops_Prober Multi_Properties
begin

text \<open>
  What the operators' toolkit reports: the exit code of a scan and its roll-up, what the prober
  makes of the accounts the program writes, and what one unreachable market does to the rest.
\<close>

section \<open>Reports\<close>

lemma cr_name_verdict [simp]: "cr_name (verdict name st sev msg ms) = ascii name"
  by (simp add: verdict_def)

lemma cr_name_skipped [simp]: "cr_name (leader_lock_skipped fl name sev) = ascii name"
  by (simp add: leader_lock_skipped_def)

lemma check_names [simp]:
  "cr_name (check_global_paused fl ctx) = ascii ''global_paused''"
  "cr_name (check_market_paused fl ctx) = ascii ''market_paused''"
  "cr_name (check_frozen_new_position fl ctx) = ascii ''frozen_new_position''"
  "cr_name (check_schema_version fl ctx) = ascii ''schema_version_match''"
  "cr_name (check_dormant_inventory fl ctx) = ascii ''dormant_inventory''"
  "cr_name (check_recovery_outstanding fl ctx) = ascii ''recovery_outstanding''"
  "cr_name (check_pending_init_hints fl ctx) = ascii ''pending_init_hints''"
  "cr_name (check_keeper_alive fl ctx) = ascii ''keeper_alive''"
  "cr_name (check_keeper_failed_actions_rate fl ctx) = ascii ''keeper_failed_actions_rate''"
  "cr_name (check_keeper_skipped_actions_rate fl ctx) = ascii ''keeper_skipped_actions_rate''"
  "cr_name (check_keeper_vol_estimator fl ctx) = ascii ''keeper_vol_estimator''"
  "cr_name (check_keeper_wallet_balance fl ctx) = ascii ''keeper_wallet_balance''"
  "cr_name (check_rpc_primary_latency fl ctx) = ascii ''rpc_primary_latency''"
  "cr_name (check_rpc_primary_backup_lag fl ctx) = ascii ''rpc_primary_backup_lag''"
  "cr_name (check_rpc_gpa_latency fl ctx) = ascii ''rpc_get_program_accounts_latency''"
  "cr_name (check_oracle_slot_age fl ctx) = ascii ''oracle_slot_age''"
  "cr_name (check_oracle_confidence fl ctx) = ascii ''oracle_confidence''"
  "cr_name (check_keeper_leader_lock_initialized fl ctx) = ascii ''keeper_leader_lock_initialized''"
  "cr_name (check_keeper_leader_lock_freshness fl ctx) = ascii ''keeper_leader_lock_freshness''"
  "cr_name (check_keeper_leader_lock_holder_matches_expected fl ctx) = ascii ''keeper_leader_lock_holder_matches_expected''"
  "cr_name (check_position_principal_drift fl ctx) = ascii ''position_principal_drift''"
  unfolding check_global_paused_def check_market_paused_def check_frozen_new_position_def
    check_schema_version_def check_dormant_inventory_def check_recovery_outstanding_def
    check_pending_init_hints_def check_keeper_alive_def check_keeper_failed_actions_rate_def
    check_keeper_skipped_actions_rate_def check_keeper_vol_estimator_def check_keeper_wallet_balance_def
    check_rpc_primary_latency_def check_rpc_primary_backup_lag_def check_rpc_gpa_latency_def
    check_oracle_slot_age_def check_oracle_confidence_def check_keeper_leader_lock_initialized_def
    check_keeper_leader_lock_freshness_def check_keeper_leader_lock_holder_matches_expected_def
    check_position_principal_drift_def
  by (simp_all add: Let_def split_beta split: option.splits)

lemma check_trading_activity_name:
  assumes "check_trading_activity fl ctx = Inr c" shows "cr_name c = ascii ''trading_activity''"
  using assms by (auto simp: check_trading_activity_def)

lemma run_all_checks_Ok:
  assumes "run_all_checks fl ctx = Inr r"
  shows "map cr_name (hr_checks r) = CHECK_NAMES"
    and "check_schema_version fl ctx \<in> set (hr_checks r)" and "check_position_principal_drift fl ctx \<in> set (hr_checks r)"
  using assms by (auto simp: run_all_checks_def CHECK_NAMES_def dest: check_trading_activity_name)

lemma length_CHECK_NAMES [simp]: "length CHECK_NAMES = 22"
  by (simp add: CHECK_NAMES_def)

lemma fold_max_le: "fold (\<lambda>c h. max h (f c)) cs a \<le> (n::nat) \<longleftrightarrow> a \<le> n \<and> (\<forall>c\<in>set cs. f c \<le> n)"
  by (induction cs arbitrary: a) auto

lemma exit_code_le: "exit_code_for_status r \<le> n \<longleftrightarrow> (\<forall>c\<in>set (hr_checks r). exit_code_of c \<le> n)"
  by (simp add: exit_code_for_status_def fold_max_le)

lemma exit_code_zero [simp]: "exit_code_of c = 0 \<longleftrightarrow> cr_status c = Pass"
  by (simp add: exit_code_of_def split: check_status.splits severity.splits)

lemma worst_status_Pass [simp]: "worst_status a b = Pass \<longleftrightarrow> a = Pass \<and> b = Pass"
  by (cases a; cases b) (simp_all add: worst_status_def status_rank_def)

lemma overall_status_Pass: "overall_status r = Pass \<longleftrightarrow> (\<forall>c\<in>set (hr_checks r). cr_status c = Pass)"
proof -
  have "fold (\<lambda>c acc. worst_status acc (cr_status c)) cs a = Pass \<longleftrightarrow> a = Pass \<and> (\<forall>c\<in>set cs. cr_status c = Pass)"
    for cs :: "'a check_result list" and a by (induction cs arbitrary: a) auto
  then show ?thesis by (simp add: overall_status_def)
qed

lemma exit_code_Pass: "exit_code_for_status r = 0 \<longleftrightarrow> overall_status r = Pass"
  using exit_code_le [of r 0] by (simp add: overall_status_Pass)

text \<open>The counts of a report are its checks by status.\<close>

lemma count_by_status_eq:
  "count_by_status r = (length (filter (\<lambda>c. cr_status c = Pass) (hr_checks r)),
     length (filter (\<lambda>c. cr_status c = Warn) (hr_checks r)), length (filter (\<lambda>c. cr_status c = Critical) (hr_checks r)))"
proof -
  have "fold (\<lambda>c (p, w, k). case cr_status c of
       Pass \<Rightarrow> (p + 1, w, k) | Warn \<Rightarrow> (p, w + 1, k) | Critical \<Rightarrow> (p, w, k + 1)) cs (p, w, k)
     = (p + length (filter (\<lambda>c. cr_status c = Pass) cs), w + length (filter (\<lambda>c. cr_status c = Warn) cs),
        k + length (filter (\<lambda>c. cr_status c = Critical) cs))" for cs :: "'a check_result list" and p w k :: nat
    by (induction cs arbitrary: p w k) (auto split: check_status.splits)
  from this [of "hr_checks r" 0 0 0] show ?thesis by (simp add: count_by_status_def)
qed

definition firing :: "'f health_report \<Rightarrow> 'f check_result list" where
  "firing r = filter (\<lambda>c. cr_status c \<noteq> Pass) (hr_checks r)"

lemma length_firing:
  "length (filter (\<lambda>c. cr_status c = Warn) cs) + length (filter (\<lambda>c. cr_status c = Critical) cs)
   = length (filter (\<lambda>c. cr_status c \<noteq> Pass) cs)"
proof (induction cs)
  case (Cons c cs)
  then show ?case by (cases "cr_status c") auto
qed simp

section \<open>A scan\<close>

definition scan_ok :: "'f multi_report \<Rightarrow> bool" where
  "scan_ok r \<longleftrightarrow> (\<forall>m\<in>set (mm_per_market r). map cr_name (hr_checks (ms_report m)) = CHECK_NAMES
       \<and> ms_exit_code m = exit_code_for_status (ms_report m))
     \<and> (\<forall>n. mm_worst_exit_code r \<le> n \<longleftrightarrow> (\<forall>m\<in>set (mm_per_market r). ms_exit_code m \<le> n))"

lemma scan_market_Ok:
  assumes "scan_market fl entry ctx = Inr m"
  shows "ms_symbol m = me_symbol entry" and "map cr_name (hr_checks (ms_report m)) = CHECK_NAMES"
    and "ms_exit_code m = exit_code_for_status (ms_report m)"
    and "c \<in> set (hr_checks (ms_report m)) \<Longrightarrow> exit_code_of c \<le> ms_exit_code m"
    and "check_schema_version fl (with_expected_leader entry ctx) \<in> set (hr_checks (ms_report m))"
    and "check_position_principal_drift fl (with_expected_leader entry ctx) \<in> set (hr_checks (ms_report m))"
  using assms exit_code_le [of "ms_report m" "ms_exit_code m"] by (auto simp: scan_market_def run_all_checks_Ok)

lemma scan_entries_Ok:
  assumes "scan_entries fl fetch entries acc s = (Inr r, s')" and "scan_ok acc"
  shows "map ms_symbol (mm_per_market r) = map ms_symbol (mm_per_market acc) @ map me_symbol entries
    \<and> scan_ok r"
  using assms
proof (induction entries arbitrary: acc s)
  case (Cons entry rest)
  then obtain ctx s1 m where m: "scan_market fl entry ctx = (Inr m :: (scan_error, 'a market_scan_result) result)"
    and rest: "scan_entries fl fetch rest \<lparr>mm_per_market = mm_per_market acc @ [m],
       mm_worst_exit_code = (if mm_worst_exit_code acc < ms_exit_code m then ms_exit_code m
         else mm_worst_exit_code acc)\<rparr> s1 = (Inr r, s')"
    by (auto split: prod.splits sum.splits failure.splits)
  from Cons.prems(2) scan_market_Ok(2,3) [OF m] have
    "scan_ok \<lparr>mm_per_market = mm_per_market acc @ [m],
       mm_worst_exit_code = (if mm_worst_exit_code acc < ms_exit_code m then ms_exit_code m
         else mm_worst_exit_code acc)\<rparr>"
    unfolding scan_ok_def by (auto simp: not_less) (meson le_trans less_imp_le)+
  from Cons.IH [OF rest this] scan_market_Ok(1) [OF m] show ?case by simp
qed simp

lemma scan_all_markets_Ok:
  assumes "scan_all_markets fl registry fetch s = (Inr r, s')"
  shows "map ms_symbol (mm_per_market r) = map me_symbol (mr_markets registry)" and "scan_ok r"
  using scan_entries_Ok [OF assms [unfolded scan_all_markets_def]] by (simp_all add: scan_ok_def)

text \<open>The roll-up counts every market once and every firing check once.\<close>

definition tally :: "'f market_scan_result list \<Rightarrow> nat \<Rightarrow> protocol_summary" where
  "tally ms worst = \<lparr>ps_markets = length ms,
     ps_healthy_markets = length (filter (\<lambda>m. overall_status (ms_report m) = Pass) ms),
     ps_warn_markets = length (filter (\<lambda>m. overall_status (ms_report m) = Warn) ms),
     ps_critical_markets = length (filter (\<lambda>m. overall_status (ms_report m) = Critical) ms),
     ps_firing_checks = sum_list (map (\<lambda>m. length (firing (ms_report m))) ms),
     ps_worst_exit_code = worst\<rparr>"

lemma tally_sum:
  "ps_healthy_markets (tally ms w) + ps_warn_markets (tally ms w) + ps_critical_markets (tally ms w) = length ms"
proof (induction ms)
  case (Cons m ms)
  then show ?case by (cases "overall_status (ms_report m)") (simp_all add: tally_def)
qed (simp add: tally_def)

lemma count_market_tally:
  assumes "length (ms @ [m]) < 2 ^ 32" and "sum_list (map (\<lambda>m. length (firing (ms_report m))) (ms @ [m])) < 2 ^ 32"
  shows "count_market m (tally ms w) = Inr (tally (ms @ [m]) w)"
proof -
  have "length (filter (\<lambda>m. P m) ms) < 2 ^ 32 - 1" for P
    by (rule le_less_trans [OF length_filter_le]) (use assms(1) in simp)
  with assms show ?thesis
    by (cases "overall_status (ms_report m)")
      (simp_all add: count_market_def count_by_status_eq tally_def firing_def length_firing plus_w_def Let_def
        less_diff_conv)
qed

lemma summarize_protocol_tally:
  assumes "length (mm_per_market r) < 2 ^ 32"
    and "sum_list (map (\<lambda>m. length (firing (ms_report m))) (mm_per_market r)) < 2 ^ 32"
  shows "summarize_protocol r = Inr (tally (mm_per_market r) (mm_worst_exit_code r))"
proof -
  have "length ms < 2 ^ 32 \<Longrightarrow> sum_list (map (\<lambda>m. length (firing (ms_report m))) ms) < 2 ^ 32 \<Longrightarrow>
     fold_res count_market ms (tally ([] :: 'a market_scan_result list) w) = (Inr (tally ms w) :: ('e, protocol_summary) result)" for ms :: "'a market_scan_result list" and w
  proof (induction ms rule: rev_induct)
    case (snoc m ms)
    then have "fold_res count_market ms (tally ([] :: 'a market_scan_result list) w) = (Inr (tally ms w) :: ('e, protocol_summary) result)" by simp
    with count_market_tally [OF snoc.prems, where w = w] show ?case by (simp add: fold_res_append)
  qed simp
  from this [OF assms] show ?thesis by (simp add: summarize_protocol_def tally_def)
qed

text \<open>
  C37: a scan covers every market of the registry once and in order, each with the twenty-two checks
  in the order of \<open>CHECK_NAMES\<close>; the worst exit code is the maximum over all checks of all markets,
  zero exactly if every market passes; and below the width of its counters the roll-up of the
  protocol counts every market under its status and every firing check once.
\<close>

theorem scan_reports_worst:
  assumes "scan_all_markets fl registry fetch s = (Ok r, s')" and "length (mr_markets registry) < 2 ^ 27"
  shows "map ms_symbol (mm_per_market r) = map me_symbol (mr_markets registry)
    \<and> (\<forall>m\<in>set (mm_per_market r). map cr_name (hr_checks (ms_report m)) = CHECK_NAMES)
    \<and> (\<forall>n. mm_worst_exit_code r \<le> n
          \<longleftrightarrow> (\<forall>m\<in>set (mm_per_market r). \<forall>c\<in>set (hr_checks (ms_report m)). exit_code_of c \<le> n))
    \<and> (mm_worst_exit_code r = 0 \<longleftrightarrow> (\<forall>m\<in>set (mm_per_market r). overall_status (ms_report m) = Pass))
    \<and> (\<exists>ps. summarize_protocol r = Ok ps \<and> ps_markets ps = length (mr_markets registry)
          \<and> ps_healthy_markets ps + ps_warn_markets ps + ps_critical_markets ps = ps_markets ps
          \<and> ps_firing_checks ps = sum_list (map (\<lambda>m. length (firing (ms_report m))) (mm_per_market r))
          \<and> (all_healthy ps \<longleftrightarrow> mr_markets registry \<noteq> [] \<and> mm_worst_exit_code r = 0))"
proof -
  note r = scan_all_markets_Ok [OF assms(1)]
  have len: "length (mm_per_market r) = length (mr_markets registry)" using r(1) by (metis length_map)
  have each: "length (firing (ms_report m)) \<le> 22" if "m \<in> set (mm_per_market r)" for m
  proof -
    from r(2) that have "map cr_name (hr_checks (ms_report m)) = CHECK_NAMES" by (simp add: scan_ok_def)
    then have "length (hr_checks (ms_report m)) = 22" by (metis length_map length_CHECK_NAMES)
    then show ?thesis by (metis firing_def length_filter_le)
  qed
  have "sum_list (map (\<lambda>m. length (firing (ms_report m))) (mm_per_market r))
      \<le> sum_list (map (\<lambda>m. 22) (mm_per_market r))"
    by (rule sum_list_mono) (rule each)
  then have "sum_list (map (\<lambda>m. length (firing (ms_report m))) (mm_per_market r)) < 2 ^ 32"
    using assms(2) len by (simp add: sum_list_triv)
  from summarize_protocol_tally [OF _ this] assms(2) len
  have sum: "summarize_protocol r = Inr (tally (mm_per_market r) (mm_worst_exit_code r))" by simp
  have worst: "mm_worst_exit_code r \<le> n
      \<longleftrightarrow> (\<forall>m\<in>set (mm_per_market r). \<forall>c\<in>set (hr_checks (ms_report m)). exit_code_of c \<le> n)" for n
    using r(2) by (simp add: scan_ok_def exit_code_le)
  from worst [of 0] have zero: "mm_worst_exit_code r = 0 \<longleftrightarrow> (\<forall>m\<in>set (mm_per_market r). overall_status (ms_report m) = Pass)"
    by (simp add: overall_status_Pass)
  have "length (filter (\<lambda>m. overall_status (ms_report m) = Pass) (mm_per_market r)) = length (mm_per_market r)
      \<longleftrightarrow> (\<forall>m\<in>set (mm_per_market r). overall_status (ms_report m) = Pass)"
    by (metis (mono_tags, lifting) filter_True length_filter_less nat_neq_iff)
  with zero len have "all_healthy (tally (mm_per_market r) (mm_worst_exit_code r))
      \<longleftrightarrow> mr_markets registry \<noteq> [] \<and> mm_worst_exit_code r = 0"
    by (simp add: all_healthy_def tally_def)
  with r sum worst zero len tally_sum [of "mm_per_market r" "mm_worst_exit_code r"] show ?thesis
    by (auto simp: scan_ok_def tally_def firing_def)
qed

section \<open>The accounts of the program\<close>

text \<open>The fetcher's two reads.\<close>

lemma rpc_fetch_Ok:
  assumes "rpc_fetch B R entry F = (Inr ctx, F')"
    and "with_retry R (rm_cfg F) (as_get_multiple_accounts R [me_market_pda entry, me_lock_pda entry]) (rm_src F)
      = (Inr [found, lock], s1)"
  obtains mk where "decoded (onchain_market_codec B) found = (Inr mk :: (utext, _) result)"
    and "hc_market ctx = lifted_market (rm_cfg F) mk" and "hc_pool ctx = lifted_pool (rm_cfg F) mk"
  using assms
  by (auto simp: rpc_fetch_def Let_def build_ctx_from_accounts_def split: prod.splits sum.splits)

lemma schema_mismatch_code:
  assumes "scan_market fl entry ctx = Inr m"
    and "mf_schema_version_onchain (hc_market ctx) \<noteq> mf_schema_version_compiled (hc_market ctx)"
  shows "3 \<le> ms_exit_code m"
  using scan_market_Ok(4) [OF assms(1) scan_market_Ok(5) [OF assms(1)]] assms(2)
  by (simp add: check_schema_version_def verdict_def exit_code_of_def with_expected_leader_def Let_def
      split: option.splits if_splits)

text \<open>
  C38: the prober cannot read a market account as the program allocates it (with sixteen bytes more
  than the mirror it decodes): it then reports the market as not paused and open for new
  positions, whatever the account says, and its schema version as 0, so every scan pages with an
  exit code of at least 3 for a healthy market.
\<close>

theorem prober_misreads_market:
  assumes "borsh_lawful B" and "onchain_market_ok mk" and "length disc = 8"
    and "encode_anchor_account (onchain_market_codec B) mk disc = Ok bs" and "length (bs @ extra) = MARKET_LEN"
    and "with_retry R (rm_cfg F) (as_get_multiple_accounts R [me_market_pda entry, me_lock_pda entry]) (rm_src F)
      = (Ok [Some (bs @ extra), lock], s1)"
    and "rpc_fetch B R entry F = (Ok ctx, F')" and "fc_schema_version_compiled (rm_cfg F) \<noteq> 0"
    and "scan_market fl entry ctx = Ok res"
  shows "cr_status (check_market_paused fl ctx) = Pass \<and> cr_status (check_frozen_new_position fl ctx) = Pass
    \<and> cr_status (check_schema_version fl ctx) = Critical \<and> 3 \<le> ms_exit_code res"
proof -
  have "decode_anchor_account (onchain_market_codec B) (bs @ extra)
      = Inl (Failed (BorshDecode ''Not all bytes read''))"
    by (rule spare_bytes_unreadable [OF lawful_onchain_market [OF assms(1)] assms(2-4)])
      (simp only: assms(5), simp add: MARKET_LEN_def)
  then have "decoded (onchain_market_codec B) (Some (bs @ extra)) = (Inr None :: (utext, _) result)"
    by (simp add: decoded_def)
  with rpc_fetch_Ok [OF assms(7,6)] have m: "hc_market ctx = lifted_market (rm_cfg F) None" by auto
  with schema_mismatch_code [OF assms(9)] assms(8) show ?thesis
    by (simp add: lifted_market_def check_market_paused_def check_frozen_new_position_def check_schema_version_def
        verdict_def Let_def)
qed

text \<open>A run of market instructions never writes the running notional of the market.\<close>

lemma market_notional_unwritten:
  assumes "initialize_market gc addrs admin params = Inr m0" and "market_step\<^sup>*\<^sup>* m0 m"
  shows "mk_current_total_notional m = 0"
proof -
  have step: "mk_current_total_notional m' = mk_current_total_notional m" if "market_step m m'" for m m'
    using that by cases (auto simp: pause_market_def resume_market_def freeze_new_position_def
        unfreeze_new_position_def bump_market_schema_version_def migrate_market_def split: if_splits)
  from assms(2) have "mk_current_total_notional m = mk_current_total_notional m0"
    by (induction rule: rtranclp_induct) (simp_all add: step)
  with assms(1) show ?thesis by (auto simp: initialize_market_def)
qed

definition live_in :: "pubkey \<Rightarrow> onchain_position \<Rightarrow> bool" where
  "live_in market pos \<longleftrightarrow> xp_market pos = market \<and> xp_status pos \<noteq> POSITION_STATUS_CLOSED"

definition notional_of :: "open_interest_facts \<Rightarrow> nat" where
  "notional_of oi = oi_long_notional oi + oi_short_notional oi"

lemma count_position_notional:
  assumes "count_position pos oi = Inr oi'"
  shows "notional_of oi' = notional_of oi + (if xp_status pos = POSITION_STATUS_CLOSED then 0 else xp_notional pos)"
  using assms by (auto simp: count_position_def notional_of_def split: if_splits)

lemma aggregate_notional:
  assumes "aggregate_open_interest_for_market ps market = Inr oi"
  shows "notional_of oi = sum_list (map xp_notional (filter (live_in market) ps))"
proof -
  have "fold_res count_position (filter (\<lambda>pos. xp_market pos = market) qs) a = Inr oi \<Longrightarrow>
      notional_of oi = notional_of a + sum_list (map xp_notional (filter (live_in market) qs))" for a qs
    by (induction qs arbitrary: a) (auto simp: live_in_def dest!: count_position_notional split: if_splits)
  from this [of ps no_open_interest] assms show ?thesis
    by (simp add: aggregate_open_interest_for_market_def aggregate_open_interest_def no_open_interest_def notional_of_def)
qed

lemma decode_positions_mem:
  assumes "decode_positions B raw = Inr (ps, n)" and "(key, bs) \<in> set raw"
    and "decode_anchor_account (onchain_position_codec B) bs = Inr pos"
  shows "pos \<in> set ps"
  using assms by (induction B raw arbitrary: ps n rule: decode_positions.induct)
    (auto split: sum.splits failure.splits)

text \<open>Summing panics or succeeds; only the transport can fail.\<close>

lemma plus_w_not_Failed [simp]: "plus_w w a b \<noteq> Inl (Failed e)"
  by (simp add: plus_w_def)

lemma and_then_fails: "and_then m k = Inl f \<longleftrightarrow> m = Inl f \<or> (\<exists>x. m = Inr x \<and> k x = Inl f)"
  by (cases m) simp_all

lemma decode_positions_not_Failed: "decode_positions B raw \<noteq> Inl (Failed e)"
  by (induction B raw rule: decode_positions.induct)
    (auto simp: and_then_fails split: sum.splits failure.splits)

lemma aggregate_not_Failed: "aggregate_open_interest_for_market ps market \<noteq> Inl (Failed e)"
proof -
  have "count_position pos a \<noteq> Inl (Failed e)" for pos a
    by (auto simp: count_position_def and_then_fails)
  then have "fold_res count_position qs a \<noteq> Inl (Failed e)" for qs a
    by (induction qs arbitrary: a) (auto simp: and_then_fails)
  then show ?thesis by (simp add: aggregate_open_interest_for_market_def aggregate_open_interest_def)
qed

text \<open>What one live position adds to the facts of its market.\<close>

lemma augmented_notional:
  assumes "augmented_fetch B sha256 src base entry s = (Inr ctx, s')"
    and "fetch_program_accounts_filter src (me_program_id entry) 0 (position_account_discriminator sha256) = Inr raw"
    and "(key, bs) \<in> set raw" and "decode_anchor_account (onchain_position_codec B) bs = Inr pos"
    and "live_in (me_market_pda entry) pos"
  obtains ctx0 where "base entry s = (Inr ctx0, s')"
    and "pf_total_notional_micro_usdc (hc_pool ctx) = pf_total_notional_micro_usdc (hc_pool ctx0)"
    and "xp_notional pos \<le> pf_onchain_position_notional_micro_usdc (hc_pool ctx)"
proof -
  let ?r = "fetch_open_interest_for_market B sha256 src (me_program_id entry) (me_market_pda entry)"
  have "?r \<noteq> Inl (Failed e)" for e
    using assms(2)
    by (auto simp: fetch_open_interest_for_market_def and_then_fails decode_positions_not_Failed aggregate_not_Failed)
  with assms(1) obtain ctx0 oi v where base: "base entry s = (Inr ctx0, s')" and oi: "?r = Inr oi"
    and v: "oi_total_notional oi = (Inr v :: (utext, _) result)"
    and ctx: "ctx = ctx0\<lparr>hc_pool := (hc_pool ctx0)\<lparr>pf_onchain_position_notional_micro_usdc := v\<rparr>\<rparr>"
    by (auto simp: augmented_fetch_def apply_open_interest_to_pool_def split: prod.splits sum.splits failure.splits)
  from oi assms(2) obtain ps n oi0 where ps: "decode_positions B raw = (Inr (ps, n) :: (rpc_error, _) result)"
    and oi0: "aggregate_open_interest_for_market ps (me_market_pda entry) = (Inr oi0 :: (rpc_error, _) result)"
    and same: "oi = oi0\<lparr>oi_decode_failures := n\<rparr>"
    by (auto simp: fetch_open_interest_for_market_def)
  have "pos \<in> set (filter (live_in (me_market_pda entry)) ps)"
    using decode_positions_mem [OF ps assms(3,4)] assms(5) by simp
  then have "xp_notional pos \<le> notional_of oi0"
    unfolding aggregate_notional [OF oi0] by (auto intro: member_le_sum_list)
  also have "notional_of oi0 = v" using v same by (simp add: oi_total_notional_def notional_of_def)
  finally show thesis using that base ctx by simp
qed

text \<open>
  C39: the alarm for a drift between the reported and the counted notional is always on: no
  instruction ever changes the running notional of a market from 0, so as soon as one live
  position of the market has a notional, the prober in its default configuration reports the drift
  as critical and the scan pages, whether it can read the market account or not. The hypothesis on
  doubles says that a quotient of a positive integer by one is at least 0.02.
\<close>

theorem drift_alarm_always_on:
  assumes "\<And>n. 0 < n \<Longrightarrow> fle fl (lit fl (2/100)) (f_div (ft_ops fl) (num fl n) (num fl 1))"
    and "initialize_market gc addrs admin params = Ok m0" and "market_step\<^sup>*\<^sup>* m0 m"
    and "rm_cfg F = default_fetcher_config fl"
    and "with_retry R (rm_cfg F) (as_get_multiple_accounts R [me_market_pda entry, me_lock_pda entry]) (rm_src F)
      = (Ok [Some mbs, lock], s1)"
    and "\<And>mk. decode_anchor_account (onchain_market_codec B) mbs = Ok mk
      \<Longrightarrow> xm_current_total_notional mk = mk_current_total_notional m"
    and "fetch_program_accounts_filter src (me_program_id entry) 0 (position_account_discriminator sha256) = Ok raw"
    and "(key, bs) \<in> set raw" and "decode_anchor_account (onchain_position_codec B) bs = Ok pos"
    and "xp_market pos = me_market_pda entry" and "xp_status pos \<noteq> POSITION_STATUS_CLOSED" and "0 < xp_notional pos"
    and "augmented_fetch B sha256 src (rpc_fetch B R) entry F = (Ok ctx, F')"
    and "scan_market fl entry ctx = Ok res"
  shows "cr_status (check_position_principal_drift fl ctx) = Critical \<and> 3 \<le> ms_exit_code res"
proof -
  have "live_in (me_market_pda entry) pos" using assms(10,11) by (simp add: live_in_def)
  from augmented_notional [OF assms(13,7-9) this] obtain ctx0
    where base: "rpc_fetch B R entry F = (Inr ctx0, F')"
      and total: "pf_total_notional_micro_usdc (hc_pool ctx) = pf_total_notional_micro_usdc (hc_pool ctx0)"
      and live: "xp_notional pos \<le> pf_onchain_position_notional_micro_usdc (hc_pool ctx)" by blast
  from rpc_fetch_Ok [OF base assms(5)] obtain mk
    where mk: "decoded (onchain_market_codec B) (Some mbs) = (Inr mk :: (utext, _) result)"
      and pool: "hc_pool ctx0 = lifted_pool (rm_cfg F) mk" by metis
  have "xm_current_total_notional x = 0" if "mk = Some x" for x
    using that mk assms(6) market_notional_unwritten [OF assms(2,3)]
    by (auto simp: decoded_def split: sum.splits failure.splits)
  with pool total have "pf_total_notional_micro_usdc (hc_pool ctx) = 0"
    by (auto simp: lifted_pool_def assms(4) default_fetcher_config_def split: option.splits)
  with live assms(1,12) have drift: "cr_status (check_position_principal_drift fl ctx) = Critical"
    "cr_severity (check_position_principal_drift fl ctx) = P1"
    by (auto simp: check_position_principal_drift_def verdict_def Let_def)
  have "check_position_principal_drift fl (with_expected_leader entry ctx) = check_position_principal_drift fl ctx"
    by (simp add: check_position_principal_drift_def with_expected_leader_def split: option.splits)
  with scan_market_Ok(4) [OF assms(14) scan_market_Ok(6) [OF assms(14)]] drift show ?thesis
    by (simp add: exit_code_of_def)
qed

section \<open>The loop\<close>

lemma attempts_fail:
  assumes "\<And>s. \<exists>d s'. op s = (Inl (Failed d), s')"
  shows "\<exists>d s'. attempts R backoff op left k last_err s = (Inl (Failed d), s')"
proof (induction left arbitrary: k last_err s)
  case (Suc left)
  obtain d s' where "op (if 0 < k \<and> 0 < backoff then as_sleep_ms R backoff s else s) = (Inl (Failed d), s')"
    using assms by blast
  with Suc show ?case by (simp add: Let_def)
qed simp

lemma augmented_fetch_fails:
  assumes "\<And>s. \<exists>d s'. as_get_multiple_accounts R [me_market_pda entry, me_lock_pda entry] s = (Inl (Failed d), s')"
  shows "\<exists>d s'. augmented_fetch B sha256 src (rpc_fetch B R) entry F = (Inl (Failed d), s')"
proof -
  from attempts_fail [where op = "as_get_multiple_accounts R [me_market_pda entry, me_lock_pda entry]", OF assms]
  obtain d s' where "with_retry R (rm_cfg F) (as_get_multiple_accounts R [me_market_pda entry, me_lock_pda entry])
      (rm_src F) = (Inl (Failed d), s')" unfolding with_retry_def by blast
  then show ?thesis by (simp add: augmented_fetch_def rpc_fetch_def)
qed

lemma scan_without_market:
  assumes "\<And>s. \<exists>d s'. fetch entry s = (Inl (Failed d), s')" and "entry \<in> set entries"
  shows "scan_entries fl fetch entries acc s \<noteq> (Inr r, s')"
  using assms(2)
proof (induction entries arbitrary: acc s)
  case (Cons e rest)
  then show ?case using assms(1) [of s] by (auto split: prod.splits sum.splits failure.splits)
qed simp

lemma cycle_without_report:
  assumes "\<And>s. \<exists>d s'. fetch entry s = (Inl (Failed d), s')" and "entry \<in> set (mr_markets registry)"
    and "run_one_cycle fl registry fetch io k st = (Inr o', st')"
  shows "co_cycle o' = k \<and> co_report o' = None \<and> co_scan_error o' \<noteq> None \<and> \<not> co_prom_published o'
    \<and> \<not> co_json_published o' \<and> pr_sink st' = pr_sink st"
  using assms(3) scan_without_market [where fetch = fetch and entry = entry, OF assms(1,2)]
  by (auto simp: run_one_cycle_def scan_all_markets_def split: prod.splits sum.splits failure.splits)

lemma run_cycles_Suc:
  assumes "run_cycles fl registry fetch io k (Suc left) st = (Inr outs :: ('e, 'f cycle_outcome list) result, st')"
  obtains o' st1 os where "run_one_cycle fl registry fetch io k st = (Inr o' :: ('e, 'f cycle_outcome) result, st1)"
    and "run_cycles fl registry fetch io (k + 1) left
      (if 0 < left then st1\<lparr>pr_clock := pi_sleep io (pr_clock st1)\<rparr> else st1)
      = (Inr os :: ('e, 'f cycle_outcome list) result, st')"
    and "outs = o' # os"
  using assms by (auto simp: Let_def split: prod.splits sum.splits)

text \<open>
  C40: one market whose accounts the connection cannot deliver silences the prober for all markets:
  however many retries and cycles are configured, no report is ever made and neither the metrics
  nor the JSON document of any market is published; every cycle ends with the scan error.
\<close>

theorem unreachable_market_silences_prober:
  assumes "entry \<in> set (mr_markets registry)"
    and "\<And>s. \<exists>d s'. as_get_multiple_accounts R [me_market_pda entry, me_lock_pda entry] s = (Err d, s')"
    and "prober_run fl registry (augmented_fetch B sha256 src (rpc_fetch B R)) io n st
      = (Ok outs :: ('e, 'f cycle_outcome list) result, st')"
  shows "map co_cycle outs = [0..<n] \<and> pr_sink st' = pr_sink st
    \<and> (\<forall>o'\<in>set outs. co_report o' = None \<and> co_scan_error o' \<noteq> None \<and> \<not> co_prom_published o'
        \<and> \<not> co_json_published o' \<and> cycle_exit_code o' = 0)"
proof -
  let ?fetch = "augmented_fetch B sha256 src (rpc_fetch B R)"
  have "run_cycles fl registry ?fetch io k left st = (Inr outs :: ('e, 'f cycle_outcome list) result, st') \<Longrightarrow>
      map co_cycle outs = [k..<k + left] \<and> pr_sink st' = pr_sink st
      \<and> (\<forall>o'\<in>set outs. co_report o' = None \<and> co_scan_error o' \<noteq> None \<and> \<not> co_prom_published o'
          \<and> \<not> co_json_published o')" for k left st outs
  proof (induction left arbitrary: k st outs)
    case (Suc left)
    from Suc.prems obtain o' st1 os where one: "run_one_cycle fl registry ?fetch io k st = (Inr o' :: ('e, _) result, st1)"
      and rest: "run_cycles fl registry ?fetch io (k + 1) left
          (if 0 < left then st1\<lparr>pr_clock := pi_sleep io (pr_clock st1)\<rparr> else st1) = (Inr os :: ('e, _) result, st')"
      and outs: "outs = o' # os" by (rule run_cycles_Suc)
    from Suc.IH [OF rest] cycle_without_report [OF augmented_fetch_fails [OF assms(2)] assms(1) one] outs
    show ?case by (auto simp: upt_conv_Cons)
  qed simp
  from this [OF assms(3) [unfolded prober_run_def]] show ?thesis by (simp add: cycle_exit_code_def)
qed

section \<open>Samples\<close>

text \<open>Doubles by exact arithmetic; a connection that answers with given accounts.\<close>

definition real_text :: "real float_text" where
  "real_text = \<lparr>ft_ops = real_f64, ft_fixed = (\<lambda>n x. []), ft_display = (\<lambda>x. []), ft_nan = 0,
     ft_is_nan = (\<lambda>x. False), ft_sign_positive = (\<lambda>x. 0 \<le> x)\<rparr>"

definition demo_source :: "(pubkey list \<Rightarrow> (utext, fetched_account option list) result) \<Rightarrow> nat account_source" where
  "demo_source f = \<lparr>as_get_multiple_accounts = (\<lambda>keys t. (f keys, t + 5)), as_get_slot = (\<lambda>t. (Ok 50, t + 2000000)),
     as_sleep_ms = (\<lambda>n t. t + n * 1000000), as_now_nanos = (\<lambda>t. t)\<rparr>"

abbreviation demo_fetcher :: "(nat, real) rpc_market_fetcher" where
  "demo_fetcher \<equiv> new_fetcher 0 (default_fetcher_config real_text)"

abbreviation demo_sol :: market_entry where
  "demo_sol \<equiv> demo_entry ''SOL-USD'' 1 (Some (demo_key 20))"

lemma demo_scan_market: "\<exists>res. scan_market fl entry ctx = (Inr res :: ('e, 'f market_scan_result) result)"
  if "hc_sub_pools ctx = [\<lparr>sf_id = 0, sf_dormant_ticks = 0, sf_pending_init_hints = 0, sf_open_long_qty = 0,
       sf_open_short_qty = 0\<rparr>]"
  using that by (simp add: scan_market_def run_all_checks_def check_trading_activity_def open_qty_def
      with_expected_leader_def plus_w_def split: option.splits)

lemma demo_rpc_fetch:
  assumes "f [demo_key 1, demo_key 12] = Inr [found, None]"
    and "decoded (onchain_market_codec le_borsh) found = (Inr mk :: (utext, _) result)"
  shows "\<exists>ctx F'. rpc_fetch le_borsh (demo_source f) demo_sol demo_fetcher = (Inr ctx, F')
    \<and> hc_sub_pools ctx = [\<lparr>sf_id = 0, sf_dormant_ticks = 0, sf_pending_init_hints = 0, sf_open_long_qty = 0,
       sf_open_short_qty = 0\<rparr>]"
proof -
  have "decoded (leader_lock_codec le_borsh) None = (Inr None :: (utext, _) result)" by (simp add: decoded_def)
  with assms show ?thesis
    by (simp add: rpc_fetch_def with_retry_def demo_source_def new_fetcher_def default_fetcher_config_def
        demo_entry_def sample_backup_def build_ctx_from_accounts_def Let_def)
qed

lemma demo_retry:
  assumes "f [demo_key 1, demo_key 12] = Inr accs"
  shows "with_retry (demo_source f) (rm_cfg demo_fetcher)
      (as_get_multiple_accounts (demo_source f) [me_market_pda demo_sol, me_lock_pda demo_sol]) (rm_src demo_fetcher)
    = (Inr accs, 5)"
  using assms by (simp add: with_retry_def demo_source_def new_fetcher_def default_fetcher_config_def demo_entry_def)

theorem scan_reports_worst_witness:
  "\<exists>r s'. scan_all_markets real_text \<lparr>mr_markets = [demo_sol]\<rparr>
       (rpc_fetch le_borsh (demo_source (\<lambda>keys. Ok [None, None]))) demo_fetcher = (Ok r, s')
     \<and> map ms_symbol (mm_per_market r) = [ascii ''SOL-USD'']
     \<and> (\<exists>ps. summarize_protocol r = (Ok ps :: (unit, _) result) \<and> ps_markets ps = 1)"
proof -
  have "decoded (onchain_market_codec le_borsh) None = (Inr None :: (utext, _) result)" by (simp add: decoded_def)
  from demo_rpc_fetch [where f = "\<lambda>keys. Inr [None, None]", OF refl this] obtain ctx F'
    where f: "rpc_fetch le_borsh (demo_source (\<lambda>keys. Ok [None, None])) demo_sol demo_fetcher = (Inr ctx, F')"
    and "hc_sub_pools ctx = [\<lparr>sf_id = 0, sf_dormant_ticks = 0, sf_pending_init_hints = 0, sf_open_long_qty = 0,
       sf_open_short_qty = 0\<rparr>]" by blast
  then obtain res where "scan_market real_text demo_sol ctx = (Inr res :: (scan_error, _) result)"
    using demo_scan_market by blast
  with f obtain r where r: "scan_all_markets real_text \<lparr>mr_markets = [demo_sol]\<rparr>
       (rpc_fetch le_borsh (demo_source (\<lambda>keys. Ok [None, None]))) demo_fetcher = (Inr r, F')"
    by (simp add: scan_all_markets_def)
  from scan_reports_worst [OF r] r show ?thesis by auto
qed

theorem prober_misreads_market_witness:
  "\<exists>ctx F' res. rpc_fetch le_borsh (demo_source (\<lambda>keys. Ok [Some
         (demo_bytes (onchain_market_codec le_borsh) (demo_onchain_market\<lparr>xm_paused := True\<rparr>) @ replicate 16 0), None]))
       demo_sol demo_fetcher = (Ok ctx, F')
     \<and> scan_market real_text demo_sol ctx = (Ok res :: (scan_error, _) result)
     \<and> cr_status (check_market_paused real_text ctx) = Pass \<and> 3 \<le> ms_exit_code res"
proof -
  let ?mk = "demo_onchain_market\<lparr>xm_paused := True\<rparr>"
  let ?bs = "demo_bytes (onchain_market_codec le_borsh) ?mk"
  let ?f = "\<lambda>keys :: pubkey list. Inr [Some (?bs @ replicate 16 0), None] :: (utext, fetched_account option list) result"
  have ok: "onchain_market_ok ?mk" using demo_ok(1) by (simp add: onchain_market_ok_def)
  note enc = demo_bytes_decode [OF lawful_onchain_market [OF le_borsh_lawful] ok]
  have len: "length (?bs @ replicate 16 0) = MARKET_LEN" using enc(4) by (simp add: MARKET_LEN_def)
  have "decode_anchor_account (onchain_market_codec le_borsh) (?bs @ replicate 16 0)
      = Inl (Failed (BorshDecode ''Not all bytes read''))"
    by (rule spare_bytes_unreadable [OF lawful_onchain_market [OF le_borsh_lawful] ok _ enc(3)])
      (simp, simp only: len, simp add: MARKET_LEN_def)
  then have "decoded (onchain_market_codec le_borsh) (Some (?bs @ replicate 16 0)) = (Inr None :: (utext, _) result)"
    by (simp add: decoded_def)
  from demo_rpc_fetch [where f = ?f, OF refl this] obtain ctx F'
    where f: "rpc_fetch le_borsh (demo_source ?f) demo_sol demo_fetcher = (Inr ctx, F')"
    and "hc_sub_pools ctx = [\<lparr>sf_id = 0, sf_dormant_ticks = 0, sf_pending_init_hints = 0, sf_open_long_qty = 0,
       sf_open_short_qty = 0\<rparr>]" by blast
  then obtain res where res: "scan_market real_text demo_sol ctx = (Inr res :: (scan_error, _) result)"
    using demo_scan_market by blast
  have "cr_status (check_market_paused real_text ctx) = Pass \<and> cr_status (check_frozen_new_position real_text ctx) = Pass
      \<and> cr_status (check_schema_version real_text ctx) = Critical \<and> 3 \<le> ms_exit_code res"
    by (rule prober_misreads_market [OF le_borsh_lawful ok _ enc(3) len demo_retry [where f = ?f, OF refl] f _ res])
      (simp_all add: new_fetcher_def default_fetcher_config_def SCHEMA_VERSION_CURRENT_def)
  with f res show ?thesis by blast
qed

definition demo_init_params :: init_market_params where
  "demo_init_params = \<lparr>im_symbol = replicate 16 0, im_leverage_bps = 100000, im_min_margin = 1,
     im_max_margin_per_position = 1000, im_max_total_principal = 1000, im_max_total_notional = 1000,
     im_open_fee_bps = 0, im_max_oracle_age_seconds = 30, im_max_oracle_age_slots = 25, im_max_confidence_bps = 50,
     im_max_price_move_bps_per_sync = 2000, im_price_tick = 1, im_tick_aggregation_factor = 1,
     im_max_dormant_bucket_count_per_direction = 64, im_dilution_safety_bps = 1, im_max_idle_slots = 6000,
     im_sub_pool_count = 8, im_dormant_distribute_mode = 1, im_max_pending_apply_per_tx = 64,
     im_max_distribution_ledger_size = 64\<rparr>"

definition demo_addresses :: market_addresses where
  "demo_addresses = \<lparr>ma_market = demo_key 1, ma_collateral_mint = demo_key 3, ma_vault = demo_key 4,
     ma_fee_vault = demo_key 5, ma_oracle_price_feed = demo_key 6, ma_oracle_program = demo_key 7\<rparr>"

definition demo_global :: global_config where
  "demo_global = initialize_global_config (demo_key 2) \<lparr>gp_admin_authority = demo_key 30,
     gp_emergency_authority = demo_key 31, gp_protocol_treasury = demo_key 32, gp_upgrade_authority = demo_key 33\<rparr>"

definition demo_live_position :: onchain_position where
  "demo_live_position = \<lparr>xp_owner = demo_key 40, xp_market = demo_key 1, xp_sub_pool = demo_key 8, xp_position_id = 1,
     xp_direction_is_long = True, xp_status = 0, xp_principal = 100, xp_leverage_bps = 100000, xp_notional = 1000,
     xp_active_shares = 100, xp_recovery_shares = 0, xp_recovery_bucket_tick = 0, xp_has_recovery_bucket = False,
     xp_zero_price = 900, xp_entry_price = 1000, xp_last_sync_slot = 40, xp_active_generation = 0, xp_opened_at = 0,
     xp_updated_at = 0, xp_closed_at = 0, xp_schema_version = 1, xp_bump = 0, xp_pad = replicate 5 0\<rparr>"

lemma demo_live_position_ok: "onchain_position_ok demo_live_position"
  by (simp add: onchain_position_ok_def demo_live_position_def is_array_def is_bytes_def fits_signed_def demo_key_def)

lemma demo_initialized: "\<exists>m. initialize_market demo_global demo_addresses (demo_key 30) demo_init_params = Inr m"
  by (simp add: initialize_market_def demo_global_def initialize_global_config_def check_address_def require_def
      demo_init_params_def)

text \<open>A chain that holds one position of the market.\<close>

definition one_position :: account_fetcher where
  "one_position = \<lparr>fetch_account = (\<lambda>key. Ok None), fetch_program_accounts_filter = (\<lambda>program off bs.
     Ok [(demo_key 50, demo_bytes (onchain_position_codec le_borsh) demo_live_position)])\<rparr>"

lemma demo_augmented_fetch:
  assumes "base demo_sol s = (Inr ctx0, s')"
  shows "\<exists>ctx. augmented_fetch le_borsh demo_sha256 one_position base demo_sol s = (Inr ctx, s')
    \<and> hc_sub_pools ctx = hc_sub_pools ctx0"
  using assms demo_bytes_decode(1) [OF lawful_onchain_position [OF le_borsh_lawful] demo_live_position_ok]
  by (simp add: augmented_fetch_def fetch_open_interest_for_market_def one_position_def
      aggregate_open_interest_for_market_def aggregate_open_interest_def count_position_def demo_live_position_def
      POSITION_STATUS_CLOSED_def demo_entry_def plus_w_def no_open_interest_def apply_open_interest_to_pool_def
      oi_total_notional_def)

theorem drift_alarm_always_on_witness:
  "\<exists>ctx F'. augmented_fetch le_borsh demo_sha256 one_position (rpc_fetch le_borsh (demo_source (\<lambda>keys.
         Ok [Some (demo_bytes (onchain_market_codec le_borsh) demo_onchain_market), None]))) demo_sol demo_fetcher
       = (Ok ctx, F')
     \<and> cr_status (check_position_principal_drift real_text ctx) = Critical"
proof -
  let ?mbs = "demo_bytes (onchain_market_codec le_borsh) demo_onchain_market"
  let ?f = "\<lambda>keys :: pubkey list. Inr [Some ?mbs, None] :: (utext, fetched_account option list) result"
  let ?fetch = "augmented_fetch le_borsh demo_sha256 one_position (rpc_fetch le_borsh (demo_source ?f))"
  note mdec = demo_bytes_decode(1) [OF lawful_onchain_market [OF le_borsh_lawful] demo_ok(1)]
  note pdec = demo_bytes_decode(1) [OF lawful_onchain_position [OF le_borsh_lawful] demo_live_position_ok]
  from mdec have "decoded (onchain_market_codec le_borsh) (Some ?mbs) = (Inr (Some demo_onchain_market) :: (utext, _) result)"
    by (simp add: decoded_def)
  from demo_rpc_fetch [where f = ?f, OF refl this] obtain ctx0 F'
    where "rpc_fetch le_borsh (demo_source ?f) demo_sol demo_fetcher = (Inr ctx0, F')"
    and pools: "hc_sub_pools ctx0 = [\<lparr>sf_id = 0, sf_dormant_ticks = 0, sf_pending_init_hints = 0, sf_open_long_qty = 0,
       sf_open_short_qty = 0\<rparr>]" by blast
  from demo_augmented_fetch [where base = "rpc_fetch le_borsh (demo_source ?f)", OF this(1)] pools obtain ctx where f: "?fetch demo_sol demo_fetcher = (Inr ctx, F')"
    and "hc_sub_pools ctx = [\<lparr>sf_id = 0, sf_dormant_ticks = 0, sf_pending_init_hints = 0, sf_open_long_qty = 0,
       sf_open_short_qty = 0\<rparr>]" by auto
  then obtain res where res: "scan_market real_text demo_sol ctx = (Inr res :: (scan_error, _) result)"
    using demo_scan_market by blast
  obtain m where init: "initialize_market demo_global demo_addresses (demo_key 30) demo_init_params = Inr m"
    using demo_initialized by blast
  have raw: "fetch_program_accounts_filter one_position (me_program_id demo_sol) 0 (position_account_discriminator demo_sha256)
      = Inr [(demo_key 50, demo_bytes (onchain_position_codec le_borsh) demo_live_position)]"
    by (simp add: one_position_def)
  have "cr_status (check_position_principal_drift real_text ctx) = Critical \<and> 3 \<le> ms_exit_code res"
    by (rule drift_alarm_always_on [OF _ init rtranclp.rtrancl_refl _ demo_retry [where f = ?f, OF refl] _ raw _ pdec _ _ _ f res])
      (use mdec market_notional_unwritten [OF init rtranclp.rtrancl_refl] in \<open>auto simp: real_text_def real_f64_def
        new_fetcher_def demo_live_position_def demo_onchain_market_def demo_entry_def POSITION_STATUS_CLOSED_def
        of_rat_divide\<close>)
  with f show ?thesis by blast
qed

text \<open>A sink that keeps what it is given, a clock that counts its sleeps, and a connection that
  times out for the second of two markets.\<close>

definition demo_io :: "(utext list, nat) prober_io" where
  "demo_io = \<lparr>pi_publish_prometheus = (\<lambda>body k. (True, body # k)), pi_publish_json = (\<lambda>body k. (True, body # k)),
     pi_sleep = Suc\<rparr>"

definition half_dead :: "pubkey list \<Rightarrow> (utext, fetched_account option list) result" where
  "half_dead keys = (if hd keys = demo_key 2 then Err (ascii ''timeout'') else Ok [None, None])"

theorem unreachable_market_silences_prober_witness:
  "\<exists>outs st'. prober_run real_text \<lparr>mr_markets = rev demo_entries\<rparr>
       (augmented_fetch le_borsh demo_sha256 one_position (rpc_fetch le_borsh (demo_source half_dead))) demo_io 2
       \<lparr>pr_fetcher = demo_fetcher, pr_sink = [], pr_clock = 0\<rparr> = (Ok outs :: (unit, _) result, st')
     \<and> length outs = 2 \<and> pr_sink st' = []"
proof -
  let ?fetch = "augmented_fetch le_borsh demo_sha256 one_position (rpc_fetch le_borsh (demo_source half_dead))
    :: ((nat, real) rpc_market_fetcher, real) market_fetcher"
  let ?btc = "demo_entry ''BTC#USD'' 2 None"
  let ?registry = "\<lparr>mr_markets = rev demo_entries\<rparr>"
  let ?st = "\<lparr>pr_fetcher = demo_fetcher, pr_sink = [] :: utext list, pr_clock = 0 :: nat\<rparr>"
  have fail: "\<exists>d s'. as_get_multiple_accounts (demo_source half_dead) [me_market_pda ?btc, me_lock_pda ?btc] s
      = (Inl (Failed d), s')" for s
    by (simp add: demo_source_def half_dead_def demo_entry_def)
  have "\<exists>o' st'. run_one_cycle real_text ?registry ?fetch demo_io k st = (Inr o' :: (unit, _) result, st')"
    for k and st :: "((nat, real) rpc_market_fetcher, utext list, nat) prober_state"
  proof -
    from augmented_fetch_fails [OF fail] obtain d s' where "?fetch ?btc (pr_fetcher st) = (Inl (Failed d), s')" by blast
    then show ?thesis by (simp add: run_one_cycle_def scan_all_markets_def)
  qed
  then obtain o1 st1 o2 st2 where "run_one_cycle real_text ?registry ?fetch demo_io 0 ?st = (Inr o1 :: (unit, _) result, st1)"
    and "run_one_cycle real_text ?registry ?fetch demo_io 1 (st1\<lparr>pr_clock := pi_sleep demo_io (pr_clock st1)\<rparr>)
      = (Inr o2 :: (unit, _) result, st2)" by meson
  then have run: "prober_run real_text ?registry ?fetch demo_io 2 ?st = (Inr [o1, o2] :: (unit, _) result, st2)"
    by (simp add: prober_run_def numeral_2_eq_2)
  have "?btc \<in> set (mr_markets ?registry)" by simp
  from unreachable_market_silences_prober [OF this fail run] run show ?thesis by auto
qed

end
