(* ===== verification/Clearing_Oracle.thy ===== *)
theory Clearing_Oracle
  imports Engine_Value
begin

text \<open>
  The offline clearing oracle, \<open>crates/simulation/src/lib.rs\<close>: the per-position algorithm the shares
  model of the engine is tested against. A position carries its own locked loss and realised
  profit; one settlement at a price moves the smaller of the total profit and the total realisable
  loss, split over both sides by floored shares. The positions are mutated in place, so every
  operation returns them beside its result, also when it stops on an error half way.
\<close>

section \<open>Positions and results\<close>

datatype sim_error = SimMathOverflow | SimDivByZero | SimInvariant string

definition sim_error_of :: "math_error \<Rightarrow> sim_error" where
  "sim_error_of e = (case e of Overflow \<Rightarrow> SimMathOverflow | math_error.DivByZero \<Rightarrow> SimDivByZero
     | math_error.SignOverflow \<Rightarrow> SimMathOverflow)"

type_synonym 'a clearing_oracle = "(sim_error, 'a) result"

abbreviation lift_oracle :: "'a math \<Rightarrow> 'a clearing_oracle" where
  "lift_oracle \<equiv> map_err sim_error_of"

record oracle_position =
  op_id :: u64
  op_direction :: direction
  op_principal :: u128
  op_notional :: u128
  op_reset_price :: u64
  op_locked_loss :: u128
  op_realized_profit_balance :: u128
  op_closed :: bool

definition new_oracle_position ::
  "u64 \<Rightarrow> direction \<Rightarrow> u128 \<Rightarrow> u32 \<Rightarrow> u64 \<Rightarrow> oracle_position clearing_oracle" where
  "new_oracle_position i d principal' leverage entry =
     and_then (lift_oracle (mul_div_floor principal' leverage BPS_SCALE)) (\<lambda>notional'.
     Ok \<lparr>op_id = i, op_direction = d, op_principal = principal', op_notional = notional',
         op_reset_price = entry, op_locked_loss = 0, op_realized_profit_balance = 0,
         op_closed = False\<rparr>)"

definition oracle_margin :: "oracle_position \<Rightarrow> u128" where
  "oracle_margin pos = op_principal pos - op_locked_loss pos"

definition oracle_equity :: "oracle_position \<Rightarrow> u128 clearing_oracle" where
  "oracle_equity pos =
     plus_w 128 (op_principal pos - op_locked_loss pos) (op_realized_profit_balance pos)"

record settle_summary =
  total_profit :: u128
  total_realizable_loss :: u128
  actual_transfer :: u128

section \<open>The scan over the positions\<close>

record increments =
  profit_increments :: "(nat \<times> u128) list"
  loss_increments :: "(nat \<times> u128) list"
  profit_sum :: u128
  loss_sum :: u128

definition no_increments :: increments where
  "no_increments = \<lparr>profit_increments = [], loss_increments = [], profit_sum = 0, loss_sum = 0\<rparr>"

definition add_increment :: "u64 \<Rightarrow> nat \<times> oracle_position \<Rightarrow> increments \<Rightarrow> increments clearing_oracle" where
  "add_increment p_now ipos acc = (let (idx, pos) = ipos in
     if op_closed pos then Ok acc
     else if op_notional pos = 0 then Ok acc
     else
       and_then (lift_oracle (signed_pnl_increment (direction_sign (op_direction pos))
                   (op_notional pos) (op_reset_price pos) p_now)) (\<lambda>delta.
       if 0 < delta then
         let inc = nat delta in
         and_then (lift_oracle (checked_add_m (profit_sum acc) inc)) (\<lambda>total.
         Ok (acc\<lparr>profit_increments := profit_increments acc @ [(idx, inc)], profit_sum := total\<rparr>))
       else if delta < 0 then
         let raw_loss = nat (- delta); realizable = min raw_loss (oracle_margin pos) in
         if 0 < realizable then
           and_then (lift_oracle (checked_add_m (loss_sum acc) realizable)) (\<lambda>total.
           Ok (acc\<lparr>loss_increments := loss_increments acc @ [(idx, realizable)], loss_sum := total\<rparr>))
         else Ok acc
       else Ok acc))"

definition scan_positions :: "u64 \<Rightarrow> oracle_position list \<Rightarrow> increments clearing_oracle" where
  "scan_positions p_now ps = fold_res (add_increment p_now) (List.enumerate 0 ps) no_increments"

section \<open>Paying and charging\<close>

text \<open>The rest of an operation that needs a value; without it the positions stay as they are.\<close>

definition or_stop :: "'s \<Rightarrow> 'a clearing_oracle \<Rightarrow> ('a \<Rightarrow> 's \<times> 'b clearing_oracle) \<Rightarrow> 's \<times> 'b clearing_oracle" where
  "or_stop s r k = (case r of Inl f \<Rightarrow> (s, Inl f) | Inr x \<Rightarrow> k x)"

text \<open>The indices come from the scan of the same list, so \<open>ps ! idx\<close> is never out of range.\<close>

fun pay_profits ::
  "u128 \<Rightarrow> u128 \<Rightarrow> (nat \<times> u128) list \<Rightarrow> oracle_position list \<Rightarrow> u128
   \<Rightarrow> oracle_position list \<times> u128 clearing_oracle" where
  "pay_profits transfer whole [] ps so_far = (ps, Ok so_far)"
| "pay_profits transfer whole ((idx, inc) # rest) ps so_far =
     or_stop ps (lift_oracle (mul_div_floor transfer inc whole)) (\<lambda>share.
     or_stop ps (lift_oracle (checked_add_m (op_realized_profit_balance (ps ! idx)) share)) (\<lambda>credit.
     let ps' = ps[idx := (ps ! idx)\<lparr>op_realized_profit_balance := credit\<rparr>] in
     or_stop ps' (lift_oracle (checked_add_m so_far share)) (\<lambda>so_far'.
     pay_profits transfer whole rest ps' so_far')))"

text \<open>The recovery rule for one loser: the balance first, then the margin. Returns what it took.\<close>

definition charge_loss :: "u128 \<Rightarrow> oracle_position \<Rightarrow> oracle_position \<times> (u128 \<times> u128) clearing_oracle" where
  "charge_loss share pos =
     (let credit_used = min (op_realized_profit_balance pos) share in
      or_stop pos (lift_oracle (checked_sub_m (op_realized_profit_balance pos) credit_used)) (\<lambda>left.
      let pos1 = pos\<lparr>op_realized_profit_balance := left\<rparr> in
      or_stop pos1 (lift_oracle (checked_sub_m share credit_used)) (\<lambda>lock_inc.
      let actual_lock = min lock_inc (oracle_margin pos1) in
      or_stop pos1 (lift_oracle (checked_add_m (op_locked_loss pos1) actual_lock)) (\<lambda>locked.
      (pos1\<lparr>op_locked_loss := locked\<rparr>, Ok (actual_lock, credit_used))))))"

fun charge_losses ::
  "u128 \<Rightarrow> u128 \<Rightarrow> (nat \<times> u128) list \<Rightarrow> oracle_position list \<Rightarrow> u128
   \<Rightarrow> oracle_position list \<times> u128 clearing_oracle" where
  "charge_losses transfer whole [] ps so_far = (ps, Ok so_far)"
| "charge_losses transfer whole ((idx, realizable) # rest) ps so_far =
     or_stop ps (lift_oracle (mul_div_floor transfer realizable whole)) (\<lambda>share.
     case charge_loss share (ps ! idx) of (pos, r) \<Rightarrow>
       let ps' = ps[idx := pos] in
       or_stop ps' r (\<lambda>(actual_lock, credit_used).
       or_stop ps' (plus_w 128 actual_lock credit_used) (\<lambda>taken.
       or_stop ps' (lift_oracle (checked_add_m so_far taken)) (\<lambda>so_far'.
       charge_losses transfer whole rest ps' so_far'))))"

definition roll_reset :: "u64 \<Rightarrow> oracle_position list \<Rightarrow> oracle_position list" where
  "roll_reset p_now ps = map (\<lambda>pos. if op_closed pos then pos else pos\<lparr>op_reset_price := p_now\<rparr>) ps"

section \<open>Settling and closing\<close>

text \<open>The two \<open>debug_assert\<close>s are branches; no run reaches them (\<open>settle_no_panic\<close>).\<close>

definition oracle_settle :: "oracle_position list \<Rightarrow> u64 \<Rightarrow> oracle_position list \<times> settle_summary clearing_oracle" where
  "oracle_settle ps p_now =
     (if p_now = 0 then (ps, Err SimDivByZero)
      else or_stop ps (scan_positions p_now ps) (\<lambda>inc.
        let transfer = min (profit_sum inc) (loss_sum inc);
            summary = \<lparr>total_profit = profit_sum inc, total_realizable_loss = loss_sum inc,
                       actual_transfer = transfer\<rparr> in
        if transfer = 0 then (roll_reset p_now ps, Ok summary)
        else
          (case pay_profits transfer (profit_sum inc) (profit_increments inc) ps 0 of (ps1, paid) \<Rightarrow>
             or_stop ps1 paid (\<lambda>allocated_profit.
             if transfer < allocated_profit then
               (ps1, Panic ''assertion failed: allocated_profit <= actual_transfer'')
             else
               (case charge_losses transfer (loss_sum inc) (loss_increments inc) ps1 0 of (ps2, charged) \<Rightarrow>
                  or_stop ps2 charged (\<lambda>allocated_loss.
                  if transfer < allocated_loss then
                    (ps2, Panic ''assertion failed: allocated_loss <= actual_transfer'')
                  else (roll_reset p_now ps2, Ok summary)))))))"

definition oracle_close ::
  "oracle_position list \<Rightarrow> nat \<Rightarrow> u64 \<Rightarrow> oracle_position list \<times> u128 clearing_oracle" where
  "oracle_close ps idx p_now =
     (case oracle_settle ps p_now of (ps1, r) \<Rightarrow>
        or_stop ps1 r (\<lambda>summary.
        if length ps1 \<le> idx then (ps1, Err (SimInvariant ''idx out of range''))
        else if op_closed (ps1 ! idx) then (ps1, Ok 0)
        else
          or_stop ps1 (oracle_equity (ps1 ! idx)) (\<lambda>withdrawable.
          (ps1[idx := (ps1 ! idx)\<lparr>op_closed := True, op_realized_profit_balance := 0,
                 op_locked_loss := op_principal (ps1 ! idx)\<rparr>], Ok withdrawable))))"

section \<open>What a position gains and loses\<close>

definition worth :: "oracle_position \<Rightarrow> nat" where
  "worth pos = oracle_margin pos + op_realized_profit_balance pos"

definition price_gain :: "u64 \<Rightarrow> oracle_position \<Rightarrow> nat" where
  "price_gain q pos = (if op_closed pos then 0
     else op_notional pos * gap (op_direction pos) q (op_reset_price pos) div op_reset_price pos)"

definition realizable_loss :: "u64 \<Rightarrow> oracle_position \<Rightarrow> nat" where
  "realizable_loss q pos = (if op_closed pos then 0
     else min (op_notional pos * gap (opposite (op_direction pos)) q (op_reset_price pos) div op_reset_price pos)
            (oracle_margin pos))"

definition oracle_ok :: "oracle_position \<Rightarrow> bool" where
  "oracle_ok pos \<longleftrightarrow> op_principal pos < 2 ^ 128 \<and> op_notional pos < 2 ^ 128 \<and> op_reset_price pos < 2 ^ 64
     \<and> op_locked_loss pos \<le> op_principal pos \<and> op_realized_profit_balance pos < 2 ^ 128"

lemma add_increment_Ok:
  assumes "add_increment q (i, pos) acc = Inr acc'" and "op_reset_price pos < 2 ^ 128"
  shows "profit_increments acc' = profit_increments acc @ (if 0 < price_gain q pos then [(i, price_gain q pos)] else [])
    \<and> loss_increments acc' = loss_increments acc @ (if 0 < realizable_loss q pos then [(i, realizable_loss q pos)] else [])
    \<and> profit_sum acc' = profit_sum acc + price_gain q pos \<and> loss_sum acc' = loss_sum acc + realizable_loss q pos
    \<and> (profit_sum acc < 2 ^ 128 \<longrightarrow> profit_sum acc' < 2 ^ 128) \<and> (loss_sum acc < 2 ^ 128 \<longrightarrow> loss_sum acc' < 2 ^ 128)"
proof (cases "op_closed pos \<or> op_notional pos = 0")
  case True
  with assms(1) show ?thesis
    by (auto simp: add_increment_def price_gain_def realizable_loss_def)
next
  case False
  with assms(1) obtain delta where delta:
      "signed_pnl_increment (direction_sign (op_direction pos)) (op_notional pos) (op_reset_price pos) q = Inr delta"
    by (auto simp: add_increment_def)
  note d = signed_pnl_increment_Ok [OF delta assms(2)]
  have g: "delta = int (price_gain q pos)
      - int (op_notional pos * gap (opposite (op_direction pos)) q (op_reset_price pos) div op_reset_price pos)"
    using d False by (cases "op_direction pos"; cases "op_reset_price pos \<le> q") (simp_all add: price_gain_def opposite_def)
  have x: "price_gain q pos = 0
      \<or> op_notional pos * gap (opposite (op_direction pos)) q (op_reset_price pos) div op_reset_price pos = 0"
    by (cases "op_direction pos"; cases "op_reset_price pos \<le> q") (simp_all add: price_gain_def opposite_def)
  from assms(1) False delta g x show ?thesis
    by (auto simp: add_increment_def realizable_loss_def Let_def split: if_splits)
qed

lemma scan_Ok:
  assumes "fold_res (add_increment q) (List.enumerate n ps) acc = Inr acc'"
    and "\<forall>pos\<in>set ps. op_reset_price pos < 2 ^ 128" and "profit_sum acc < 2 ^ 128" and "loss_sum acc < 2 ^ 128"
  shows "profit_increments acc' = profit_increments acc
      @ filter (\<lambda>(i, x). 0 < x) (List.enumerate n (map (price_gain q) ps))
    \<and> loss_increments acc' = loss_increments acc
      @ filter (\<lambda>(i, x). 0 < x) (List.enumerate n (map (realizable_loss q) ps))
    \<and> profit_sum acc' = profit_sum acc + sum_list (map (price_gain q) ps)
    \<and> loss_sum acc' = loss_sum acc + sum_list (map (realizable_loss q) ps)
    \<and> profit_sum acc' < 2 ^ 128 \<and> loss_sum acc' < 2 ^ 128"
  using assms
proof (induction ps arbitrary: n acc)
  case (Cons pos ps)
  from Cons.prems(1) obtain acc1 where a: "add_increment q (n, pos) acc = Inr acc1"
    and rest: "fold_res (add_increment q) (List.enumerate (Suc n) ps) acc1 = Inr acc'" by auto
  note one = add_increment_Ok [OF a] 
  show ?case using Cons.IH [OF rest] one Cons.prems(2-4) by auto
qed simp

lemma filter_enumerate:
  "distinct (map fst (filter P (List.enumerate n xs)))"
  "(i, x) \<in> set (filter P (List.enumerate n xs)) \<Longrightarrow> n \<le> i \<and> i < n + length xs"
  by (simp add: distinct_map_filter) (auto simp: in_set_enumerate_eq)

lemma map_of_increments:
  "map_of (filter (\<lambda>(i, x). 0 < x) (List.enumerate n xs)) i
    = (if n \<le> i \<and> i < n + length xs \<and> 0 < xs ! (i - n) then Some (xs ! (i - n)) else None)" for xs :: "nat list"
proof (induction xs arbitrary: n)
  case (Cons x xs)
  show ?case
  proof (cases "i = n")
    case False
    then have "n \<le> i \<longleftrightarrow> Suc n \<le> i" "Suc n \<le> i \<Longrightarrow> (x # xs) ! (i - n) = xs ! (i - Suc n)"
      by (auto simp: nth_Cons' diff_Suc split: nat.split)
    with False Cons.IH [of "Suc n"] show ?thesis by auto
  qed (use Cons.IH [of "Suc n"] in auto)
qed simp

lemma sum_list_increments:
  "(\<Sum>(i, x)\<leftarrow>filter (\<lambda>(i, x). 0 < x) (List.enumerate n xs). T * x div W) = (\<Sum>x\<leftarrow>xs. T * x div W)" for T W :: nat
  by (induction xs arbitrary: n) auto

section \<open>Shares\<close>

definition rewarded :: "nat \<Rightarrow> oracle_position \<Rightarrow> oracle_position" where
  "rewarded share pos = pos\<lparr>op_realized_profit_balance := op_realized_profit_balance pos + share\<rparr>"

definition charged :: "nat \<Rightarrow> oracle_position \<Rightarrow> oracle_position" where
  "charged share pos = pos\<lparr>
     op_realized_profit_balance := op_realized_profit_balance pos - share,
     op_locked_loss := op_locked_loss pos + min (share - op_realized_profit_balance pos) (oracle_margin pos)\<rparr>"

lemma no_share [simp]: "rewarded 0 pos = pos" "charged 0 pos = pos"
  by (simp_all add: rewarded_def charged_def)

lemma rewarded_fields [simp]:
  "oracle_margin (rewarded s pos) = oracle_margin pos" "worth (rewarded s pos) = worth pos + s"
  "op_closed (rewarded s pos) = op_closed pos"
  by (simp_all add: rewarded_def oracle_margin_def worth_def)

lemma charged_worth:
  assumes "share \<le> oracle_margin pos"
  shows "worth (charged share pos) + share = worth pos"
  using assms by (simp add: charged_def worth_def oracle_margin_def min_def) arith

lemma or_stop_simps [simp]: "or_stop s (Inl f) k = (s, Inl f)" "or_stop s (Inr x) k = k x"
  by (simp_all add: or_stop_def)

lemma or_stop_Ok [simp]: "or_stop s r k = (s', Inr y) \<longleftrightarrow> (\<exists>x. r = Inr x \<and> k x = (s', Inr y))"
  by (cases r) (auto simp: or_stop_def)

lemma charge_loss_Ok:
  assumes "charge_loss share pos = (pos', Inr (lock, used))"
  shows "pos' = charged share pos" and "lock + used \<le> share"
  using assms
  by (auto simp: charge_loss_def charged_def Let_def oracle_margin_def min_def split: if_splits)

lemma pay_profits_Ok:
  assumes "pay_profits T W incs ps a = (ps', Inr a')" and "distinct (map fst incs)"
    and "\<forall>(i, x)\<in>set incs. i < length ps" and "W < 2 ^ 128"
  shows "length ps' = length ps \<and> a' = a + (\<Sum>(i, x)\<leftarrow>incs. T * x div W)
    \<and> (\<forall>i<length ps. ps' ! i = (case map_of incs i of None \<Rightarrow> ps ! i | Some x \<Rightarrow> rewarded (T * x div W) (ps ! i)))"
  using assms
proof (induction incs arbitrary: ps a)
  case (Cons ix rest)
  obtain i x where ix: "ix = (i, x)" by force
  from Cons.prems(1) obtain share where share: "mul_div_floor T x W = Inr share"
    and rest: "pay_profits T W rest (ps[i := rewarded share (ps ! i)]) (a + share) = (ps', Inr a')"
    by (auto simp: ix Let_def rewarded_def)
  note q = mul_div_floor_Ok(1) [OF share Cons.prems(4)]
  have none: "map_of rest i = None" using Cons.prems(2) by (simp add: ix map_of_eq_None_iff)
  have "length ps' = length ps \<and> a' = a + share + (\<Sum>(i, x)\<leftarrow>rest. T * x div W)
    \<and> (\<forall>j<length ps. ps' ! j = (case map_of rest j of None \<Rightarrow> ps[i := rewarded share (ps ! i)] ! j
        | Some x \<Rightarrow> rewarded (T * x div W) (ps[i := rewarded share (ps ! i)] ! j)))"
    using Cons.IH [OF rest] Cons.prems(2-4) by (auto simp: ix)
  with none Cons.prems(3) q show ?case by (auto simp: ix nth_list_update split: option.splits)
qed simp

lemma charge_losses_Ok:
  assumes "charge_losses T W incs ps a = (ps', Inr a')" and "distinct (map fst incs)"
    and "\<forall>(i, x)\<in>set incs. i < length ps" and "W < 2 ^ 128"
  shows "length ps' = length ps \<and> a' \<le> a + (\<Sum>(i, x)\<leftarrow>incs. T * x div W)
    \<and> (\<forall>i<length ps. ps' ! i = (case map_of incs i of None \<Rightarrow> ps ! i | Some x \<Rightarrow> charged (T * x div W) (ps ! i)))"
  using assms
proof (induction incs arbitrary: ps a)
  case (Cons ix rest)
  obtain i x where ix: "ix = (i, x)" by force
  from Cons.prems(1) obtain share where share: "mul_div_floor T x W = Inr share" by (auto simp: ix)
  obtain pos r where c: "charge_loss share (ps ! i) = (pos, r)" by force
  from Cons.prems(1) obtain lock used where one: "charge_loss share (ps ! i) = (pos, Inr (lock, used))"
    and rest: "charge_losses T W rest (ps[i := pos]) (a + (lock + used)) = (ps', Inr a')"
    by (auto simp: ix Let_def share c)
  note q = mul_div_floor_Ok(1) [OF share Cons.prems(4)] and pos = charge_loss_Ok [OF one]
  have none: "map_of rest i = None" using Cons.prems(2) by (simp add: ix map_of_eq_None_iff)
  have "length ps' = length ps \<and> a' \<le> a + (lock + used) + (\<Sum>(i, x)\<leftarrow>rest. T * x div W)
    \<and> (\<forall>j<length ps. ps' ! j = (case map_of rest j of None \<Rightarrow> ps[i := pos] ! j
        | Some x \<Rightarrow> charged (T * x div W) (ps[i := pos] ! j)))"
    using Cons.IH [OF rest] Cons.prems(2-4) by (auto simp: ix)
  with none Cons.prems(3) q pos show ?case by (auto simp: ix nth_list_update split: option.splits)
qed simp

text \<open>Floored shares of \<open>T\<close> add up to \<open>T\<close> less fewer units than there are shares.\<close>

lemma floored_shares:
  fixes T :: nat
  assumes "sum_list xs = W" and "0 < W"
  shows "(\<Sum>x\<leftarrow>xs. T * x div W) \<le> T" and "T < (\<Sum>x\<leftarrow>xs. T * x div W) + length (filter ((<) 0) xs)"
proof -
  have split: "(\<Sum>x\<leftarrow>ys. T * x) = W * (\<Sum>x\<leftarrow>ys. T * x div W) + (\<Sum>x\<leftarrow>ys. T * x mod W)" for ys
    by (induction ys) (simp_all add: algebra_simps)
  have "(\<Sum>x\<leftarrow>ys. T * x) = T * sum_list ys" for ys by (induction ys) (simp_all add: algebra_simps)
  from split [of xs, unfolded this assms(1)]
  have all: "T * W = W * (\<Sum>x\<leftarrow>xs. T * x div W) + (\<Sum>x\<leftarrow>xs. T * x mod W)" .
  then have "W * (\<Sum>x\<leftarrow>xs. T * x div W) \<le> W * T" by (simp add: mult.commute)
  then show "(\<Sum>x\<leftarrow>xs. T * x div W) \<le> T" using assms(2) by simp
  have "(\<Sum>x\<leftarrow>ys. T * x mod W) \<le> length (filter ((<) 0) ys) * (W - 1)" for ys
  proof (induction ys)
    case (Cons y ys)
    have "T * y mod W \<le> W - 1" using assms(2) by (simp add: less_Suc_eq_le [symmetric])
    with Cons show ?case by (cases "y = 0") simp_all
  qed simp
  note few = this [of xs]
  have some: "0 < length (filter ((<) 0) xs)"
  proof -
    have "\<exists>x\<in>set xs. 0 < x" using assms sum_list_eq_0_iff [of xs] by auto
    then show ?thesis by (auto simp: filter_empty_conv)
  qed
  have "length (filter ((<) 0) xs) * (W - 1) < length (filter ((<) 0) xs) * W"
    using some assms(2) by (intro mult_strict_left_mono) simp_all
  with few have "(\<Sum>x\<leftarrow>xs. T * x mod W) < length (filter ((<) 0) xs) * W" by (rule le_less_trans)
  with all have "W * T < W * ((\<Sum>x\<leftarrow>xs. T * x div W) + length (filter ((<) 0) xs))"
    by (simp only: distrib_left mult.commute [of W T] mult.commute [of W "length (filter ((<) 0) xs)"])
  then show "T < (\<Sum>x\<leftarrow>xs. T * x div W) + length (filter ((<) 0) xs)" by simp
qed

section \<open>A settlement in closed form\<close>

text \<open>What a settlement with the totals \<open>s\<close> does to one position, independently of the others.\<close>

definition paid_to :: "settle_summary \<Rightarrow> u64 \<Rightarrow> oracle_position \<Rightarrow> nat" where
  "paid_to s q pos = actual_transfer s * price_gain q pos div total_profit s"

definition taken_from :: "settle_summary \<Rightarrow> u64 \<Rightarrow> oracle_position \<Rightarrow> nat" where
  "taken_from s q pos = actual_transfer s * realizable_loss q pos div total_realizable_loss s"

definition settled :: "settle_summary \<Rightarrow> u64 \<Rightarrow> oracle_position \<Rightarrow> oracle_position" where
  "settled s q pos = (if op_closed pos then pos
     else charged (taken_from s q pos) (rewarded (paid_to s q pos) pos) \<lparr>op_reset_price := q\<rparr>)"

definition totals :: "oracle_position list \<Rightarrow> u64 \<Rightarrow> settle_summary" where
  "totals ps q = \<lparr>total_profit = sum_list (map (price_gain q) ps),
     total_realizable_loss = sum_list (map (realizable_loss q) ps),
     actual_transfer = min (sum_list (map (price_gain q) ps)) (sum_list (map (realizable_loss q) ps))\<rparr>"

lemma closed_amounts: "op_closed pos \<Longrightarrow> price_gain q pos = 0 \<and> realizable_loss q pos = 0"
  by (simp add: price_gain_def realizable_loss_def)

lemma after_shares:
  fixes f :: "'a \<Rightarrow> nat"
  assumes "length ps1 = length ps"
    and "\<forall>i<length ps. ps1 ! i = (case map_of (filter (\<lambda>(i, x). 0 < x) (List.enumerate 0 (map f ps))) i of
      None \<Rightarrow> ps ! i | Some x \<Rightarrow> g (T * x div W) (ps ! i))" and "\<And>pos. g 0 pos = pos"
  shows "ps1 = map (\<lambda>pos. g (T * f pos div W) pos) ps"
proof (rule nth_equalityI)
  fix i assume "i < length ps1"
  with assms show "ps1 ! i = map (\<lambda>pos. g (T * f pos div W) pos) ps ! i"
    by (auto simp: map_of_increments split: if_splits)
qed (use assms in simp)

lemma settle_Ok:
  assumes "\<forall>pos\<in>set ps. oracle_ok pos" and "oracle_settle ps q = (ps', Inr s)"
  shows "s = totals ps q" and "ps' = map (settled s q) ps"
proof -
  from assms(2) obtain inc where scan: "scan_positions q ps = Inr inc" and q: "0 < q"
    by (auto simp: oracle_settle_def split: if_splits)
  have reset: "\<forall>pos\<in>set ps. op_reset_price pos < 2 ^ 128" using assms(1) by (auto simp: oracle_ok_def)
  have inc: "profit_increments inc = filter (\<lambda>(i, x). 0 < x) (List.enumerate 0 (map (price_gain q) ps))"
    "loss_increments inc = filter (\<lambda>(i, x). 0 < x) (List.enumerate 0 (map (realizable_loss q) ps))"
    "profit_sum inc = sum_list (map (price_gain q) ps)" "loss_sum inc = sum_list (map (realizable_loss q) ps)"
    "profit_sum inc < 2 ^ 128" "loss_sum inc < 2 ^ 128"
    using scan_Ok [OF scan [unfolded scan_positions_def] reset] by (simp_all add: no_increments_def)
  let ?T = "min (profit_sum inc) (loss_sum inc)"
  have s: "s = totals ps q \<and> ps' = map (settled (totals ps q) q) ps"
  proof (cases "?T = 0")
    case True
    then have t: "totals ps q = \<lparr>total_profit = profit_sum inc, total_realizable_loss = loss_sum inc, actual_transfer = 0\<rparr>"
      by (simp add: totals_def inc)
    then have "settled (totals ps q) q pos = (if op_closed pos then pos else pos\<lparr>op_reset_price := q\<rparr>)" for pos
      by (simp add: settled_def paid_to_def taken_from_def)
    with t show ?thesis using True assms(2) scan q
      by (auto simp: oracle_settle_def roll_reset_def Let_def)
  next
    case False
    obtain ps1 r1 where pay: "pay_profits ?T (profit_sum inc) (profit_increments inc) ps 0 = (ps1, r1)" by force
    obtain ps2 r2 where charge: "charge_losses ?T (loss_sum inc) (loss_increments inc) ps1 0 = (ps2, r2)" by force
    from assms(2) scan q False obtain ap al where r: "r1 = Inr ap" "r2 = Inr al"
      and s: "s = \<lparr>total_profit = profit_sum inc, total_realizable_loss = loss_sum inc, actual_transfer = ?T\<rparr>"
      and ps': "ps' = roll_reset q ps2"
      by (auto simp: oracle_settle_def Let_def pay charge split: if_splits)
    have p1: "length ps1 = length ps" "\<forall>i<length ps. ps1 ! i = (case map_of (profit_increments inc) i of
        None \<Rightarrow> ps ! i | Some x \<Rightarrow> rewarded (?T * x div profit_sum inc) (ps ! i))"
      using pay_profits_Ok [OF pay [unfolded r], unfolded inc(1), OF filter_enumerate(1) _ inc(5)]
        filter_enumerate(2) by (fastforce simp: inc(1))+
    have ps1: "ps1 = map (\<lambda>pos. rewarded (?T * price_gain q pos div profit_sum inc) pos) ps"
      by (rule after_shares [OF p1 [unfolded inc(1)]]) simp
    have p2: "length ps2 = length ps1" "\<forall>i<length ps1. ps2 ! i = (case map_of (loss_increments inc) i of
        None \<Rightarrow> ps1 ! i | Some x \<Rightarrow> charged (?T * x div loss_sum inc) (ps1 ! i))"
      using charge_losses_Ok [OF charge [unfolded r], unfolded inc(2), OF filter_enumerate(1) _ inc(6)]
        filter_enumerate(2) p1(1) by (fastforce simp: inc(2))+
    have same: "map (realizable_loss q) ps1 = map (realizable_loss q) ps"
      by (simp add: ps1 realizable_loss_def rewarded_def oracle_margin_def)
    have ps2: "ps2 = map (\<lambda>pos. charged (?T * realizable_loss q pos div loss_sum inc) pos) ps1"
      by (rule after_shares [OF p2 [unfolded inc(2), folded same]]) simp
    have "s = totals ps q" by (simp add: s totals_def inc)
    moreover have "ps' = map (settled s q) ps"
      unfolding ps' ps2 ps1 roll_reset_def
      by (auto simp: settled_def s paid_to_def taken_from_def closed_amounts charged_def rewarded_def
          realizable_loss_def oracle_margin_def)
    ultimately show ?thesis by simp
  qed
  then show "s = totals ps q" "ps' = map (settled s q) ps" by simp_all
qed

lemma shares_within:
  assumes "s = totals ps q" and "pos \<in> set ps"
  shows "taken_from s q pos \<le> realizable_loss q pos" and "paid_to s q pos \<le> price_gain q pos"
proof -
  show "taken_from s q pos \<le> realizable_loss q pos"
    unfolding taken_from_def mult.commute [of "actual_transfer s"] by (rule mult_div_le_left) (simp add: assms(1) totals_def)
  show "paid_to s q pos \<le> price_gain q pos"
    unfolding paid_to_def mult.commute [of "actual_transfer s"] by (rule mult_div_le_left) (simp add: assms(1) totals_def)
qed

lemma settled_worth:
  assumes "s = totals ps q" and "pos \<in> set ps"
  shows "worth (settled s q pos) + taken_from s q pos = worth pos + paid_to s q pos"
proof (cases "op_closed pos")
  case True
  then show ?thesis by (simp add: settled_def paid_to_def taken_from_def closed_amounts)
next
  case False
  have "taken_from s q pos \<le> oracle_margin pos"
    using shares_within(1) [OF assms] by (simp add: realizable_loss_def split: if_splits)
  then have "worth (charged (taken_from s q pos) (rewarded (paid_to s q pos) pos)) + taken_from s q pos
      = worth (rewarded (paid_to s q pos) pos)" by (intro charged_worth) simp
  moreover have "worth (p\<lparr>op_reset_price := q\<rparr>) = worth p" for p by (simp add: worth_def oracle_margin_def)
  ultimately show ?thesis using False by (simp add: settled_def)
qed

lemma total_worth:
  assumes "s = totals ps q"
  shows "(\<Sum>pos\<leftarrow>map (settled s q) ps. worth pos) + (\<Sum>pos\<leftarrow>ps. taken_from s q pos)
    = (\<Sum>pos\<leftarrow>ps. worth pos) + (\<Sum>pos\<leftarrow>ps. paid_to s q pos)"
proof -
  have "set ys \<subseteq> set ps \<Longrightarrow> (\<Sum>pos\<leftarrow>map (settled s q) ys. worth pos) + (\<Sum>pos\<leftarrow>ys. taken_from s q pos)
    = (\<Sum>pos\<leftarrow>ys. worth pos) + (\<Sum>pos\<leftarrow>ys. paid_to s q pos)" for ys
  proof (induction ys)
    case (Cons y ys)
    with settled_worth [OF assms, of y] show ?case by simp
  qed simp
  then show ?thesis by blast
qed

lemma allocated_sums:
  assumes "s = totals ps q"
  shows "(\<Sum>pos\<leftarrow>ps. paid_to s q pos) \<le> actual_transfer s" and "(\<Sum>pos\<leftarrow>ps. taken_from s q pos) \<le> actual_transfer s"
    and "actual_transfer s \<le> (\<Sum>pos\<leftarrow>ps. paid_to s q pos) + (length (filter (\<lambda>pos. 0 < price_gain q pos) ps) - 1)"
    and "actual_transfer s \<le> (\<Sum>pos\<leftarrow>ps. taken_from s q pos) + (length (filter (\<lambda>pos. 0 < realizable_loss q pos) ps) - 1)"
proof -
  have share: "(\<Sum>pos\<leftarrow>ps. T * f pos div W) \<le> T
      \<and> T \<le> (\<Sum>pos\<leftarrow>ps. T * f pos div W) + (length (filter (\<lambda>pos. 0 < f pos) ps) - 1)"
    if "W = sum_list (map f ps)" "T \<le> W" for T W and f :: "oracle_position \<Rightarrow> nat"
  proof (cases "W = 0")
    case True
    with that show ?thesis by (simp add: sum_list_0)
  next
    case False
    with that(1) have "0 < sum_list (map f ps)" by (simp only: neq0_conv)
    from floored_shares [OF refl this, of T] show ?thesis
      by (simp add: that(1) filter_map comp_def)
  qed
  show "(\<Sum>pos\<leftarrow>ps. paid_to s q pos) \<le> actual_transfer s"
    "actual_transfer s \<le> (\<Sum>pos\<leftarrow>ps. paid_to s q pos) + (length (filter (\<lambda>pos. 0 < price_gain q pos) ps) - 1)"
    using share [of "total_profit s" "price_gain q" "actual_transfer s"] by (simp_all add: assms totals_def paid_to_def)
  show "(\<Sum>pos\<leftarrow>ps. taken_from s q pos) \<le> actual_transfer s"
    "actual_transfer s \<le> (\<Sum>pos\<leftarrow>ps. taken_from s q pos) + (length (filter (\<lambda>pos. 0 < realizable_loss q pos) ps) - 1)"
    using share [of "total_realizable_loss s" "realizable_loss q" "actual_transfer s"]
    by (simp_all add: assms totals_def taken_from_def)
qed

section \<open>No panic\<close>

lemma or_stop_panic:
  "or_stop s r k = (s', Inl (Panicked m)) \<Longrightarrow> r = Inl (Panicked m) \<or> (\<exists>x. r = Inr x \<and> k x = (s', Inl (Panicked m)))"
  by (cases r) (auto simp: or_stop_def)

lemma checked_no_panic:
  "lift_oracle (checked_add_m a b) \<noteq> Inl (Panicked m)" "lift_oracle (checked_sub_m a b) \<noteq> Inl (Panicked m)"
  "d < 2 ^ 128 \<Longrightarrow> lift_oracle (mul_div_floor a b d) \<noteq> Inl (Panicked m)"
  by (simp_all add: checked_add_m_def checked_sub_m_def checked_add_w_def checked_sub_w_def mul_div_floor_exact)

lemma increment_no_panic:
  assumes "p < 2 ^ 128"
  shows "lift_oracle (signed_pnl_increment d n p q) \<noteq> Inl (Panicked m)"
  using assms by (simp add: signed_pnl_increment_def mul_div_floor_exact Let_def)

lemma add_increment_no_panic:
  assumes "op_reset_price pos < 2 ^ 128"
  shows "add_increment q (i, pos) acc \<noteq> Inl (Panicked m)"
proof -
  have step: "r = Inl (Panicked m) \<or> (\<exists>x. r = Inr x \<and> k x = Inl (Panicked m))"
    if "and_then r k = Inl (Panicked m)" for r :: "'x clearing_oracle" and k :: "'x \<Rightarrow> increments clearing_oracle"
    using that by (cases r) auto
  show ?thesis
    using increment_no_panic [OF assms] checked_no_panic(1)
    by (auto simp: add_increment_def Let_def dest!: step split: if_split_asm)
qed

lemma scan_no_panic:
  assumes "\<forall>pos\<in>set ps. op_reset_price pos < 2 ^ 128"
  shows "fold_res (add_increment q) (List.enumerate n ps) acc \<noteq> Inl (Panicked m)"
  using assms
proof (induction ps arbitrary: n acc)
  case (Cons pos ps)
  then show ?case using add_increment_no_panic [of pos q n acc m]
    by (cases "add_increment q (n, pos) acc") auto
qed simp

lemma pay_no_panic:
  assumes "W < 2 ^ 128"
  shows "pay_profits T W incs ps a \<noteq> (ps', Inl (Panicked m))"
proof (induction incs arbitrary: ps a)
  case (Cons ix rest)
  show ?case
    using Cons.IH checked_no_panic assms
    by (cases ix) (fastforce simp: Let_def dest!: or_stop_panic)
qed simp

lemma charge_loss_no_panic: "charge_loss share pos \<noteq> (pos', Inl (Panicked m))"
  using checked_no_panic by (fastforce simp: charge_loss_def Let_def dest!: or_stop_panic)

lemma charge_no_panic:
  assumes "W < 2 ^ 128"
  shows "charge_losses T W incs ps a \<noteq> (ps', Inl (Panicked m))"
proof (induction incs arbitrary: ps a)
  case (Cons ix rest)
  obtain i x where ix: "ix = (i, x)" by force
  show ?case
  proof
    assume stop: "charge_losses T W (ix # rest) ps a = (ps', Inl (Panicked m))"
    then obtain share where share: "mul_div_floor T x W = Inr share"
      using checked_no_panic(3) [OF assms] by (fastforce simp: ix dest!: or_stop_panic)
    obtain pos r where c: "charge_loss share (ps ! i) = (pos, r)" by force
    have "r \<noteq> Inl (Panicked m)" using c charge_loss_no_panic by metis
    with stop obtain lock used where r: "r = Inr (lock, used)"
      by (cases r) (auto simp: ix share c or_stop_def)
    have "lock + used < 2 ^ 128"
      using charge_loss_Ok(2) [OF c [unfolded r]] mul_div_floor_Ok(3) [OF share assms] by simp
    with stop have "or_stop (ps[i := pos]) (lift_oracle (checked_add_m a (lock + used)))
        (charge_losses T W rest (ps[i := pos])) = (ps', Inl (Panicked m))"
      by (simp add: ix share c r or_stop_def plus_w_def Let_def)
    from or_stop_panic [OF this] Cons.IH checked_no_panic(1) show False by auto
  qed
qed simp

lemma settle_no_panic:
  assumes "\<forall>pos\<in>set ps. oracle_ok pos"
  shows "oracle_settle ps q \<noteq> (ps', Inl (Panicked m))"
proof
  assume stop: "oracle_settle ps q = (ps', Inl (Panicked m))"
  have reset: "\<forall>pos\<in>set ps. op_reset_price pos < 2 ^ 128" using assms by (auto simp: oracle_ok_def)
  have q: "q \<noteq> 0" by (rule notI) (use stop in \<open>simp add: oracle_settle_def\<close>)
  obtain inc where scan: "scan_positions q ps = Inr inc"
  proof (cases "scan_positions q ps")
    case (Inl f)
    with stop q scan_no_panic [OF reset] show ?thesis by (simp add: oracle_settle_def scan_positions_def or_stop_def)
  qed
  have inc: "profit_increments inc = filter (\<lambda>(i, x). 0 < x) (List.enumerate 0 (map (price_gain q) ps))"
    "loss_increments inc = filter (\<lambda>(i, x). 0 < x) (List.enumerate 0 (map (realizable_loss q) ps))"
    "profit_sum inc = sum_list (map (price_gain q) ps)" "loss_sum inc = sum_list (map (realizable_loss q) ps)"
    "profit_sum inc < 2 ^ 128" "loss_sum inc < 2 ^ 128"
    using scan_Ok [OF scan [unfolded scan_positions_def] reset] by (simp_all add: no_increments_def)
  let ?T = "min (profit_sum inc) (loss_sum inc)"
  have T: "?T \<noteq> 0" by (rule notI) (use stop q scan in \<open>simp add: oracle_settle_def Let_def\<close>)
  obtain ps1 r1 where pay: "pay_profits ?T (profit_sum inc) (profit_increments inc) ps 0 = (ps1, r1)" by force
  obtain ps2 r2 where charge: "charge_losses ?T (loss_sum inc) (loss_increments inc) ps1 0 = (ps2, r2)" by force
  have fits: "(\<Sum>(i, x)\<leftarrow>profit_increments inc. ?T * x div profit_sum inc) \<le> ?T"
    "(\<Sum>(i, x)\<leftarrow>loss_increments inc. ?T * x div loss_sum inc) \<le> ?T"
    using floored_shares(1) [OF inc(3) [symmetric], of ?T] floored_shares(1) [OF inc(4) [symmetric], of ?T] T
    by (simp_all add: inc(1,2) sum_list_increments)
  have "r1 \<noteq> Inl (Panicked m)" using pay pay_no_panic [OF inc(5)] by metis
  with stop q scan T obtain ap where r1: "r1 = Inr ap"
    by (cases r1) (auto simp: oracle_settle_def Let_def pay or_stop_def)
  then have ap: "ap \<le> ?T"
    using pay_profits_Ok [OF pay [unfolded r1], unfolded inc(1), OF filter_enumerate(1) _ inc(5)]
      filter_enumerate(2) fits(1) by (fastforce simp: inc(1))
  have len: "length ps1 = length ps"
    using pay_profits_Ok [OF pay [unfolded r1], unfolded inc(1), OF filter_enumerate(1) _ inc(5)]
      filter_enumerate(2) by (fastforce simp: inc(1))
  have "r2 \<noteq> Inl (Panicked m)" using charge charge_no_panic [OF inc(6)] by metis
  with stop q scan T ap obtain al where r2: "r2 = Inr al" "?T < al"
    by (cases r2) (auto simp: oracle_settle_def Let_def pay r1 charge or_stop_def split: if_splits)
  have "al \<le> ?T"
    using charge_losses_Ok [OF charge [unfolded r2], unfolded inc(2), OF filter_enumerate(1) _ inc(6)]
      filter_enumerate(2) fits(2) len by (fastforce simp: inc(2))
  with r2(2) show False by simp
qed

end
