(* ===== verification/Simulation_Properties.thy ===== *)
theory Simulation_Properties
  imports Clearing_Oracle Evaluate
begin

text \<open>
  The properties of the offline oracle: what a settlement does to every position and to the sum of
  their worth, and how its aggregate value relates to that of the engine it is to check.
\<close>

section \<open>Conservation\<close>

lemma settled_bounds:
  assumes "oracle_ok pos"
  shows "op_locked_loss pos \<le> op_locked_loss (settled s q pos)" and "op_locked_loss (settled s q pos) \<le> op_principal (settled s q pos)"
  using assms by (auto simp: settled_def charged_def rewarded_def oracle_margin_def oracle_ok_def)

text \<open>
  C16: a settlement never panics, and when it succeeds it does to each position what the closed form
  \<open>settled\<close> says from the totals alone: the transfer is the smaller of the total profit and the total
  realisable loss, every winner is paid and every loser charged its floored share of it, from the
  balance first and then from the margin, and no locked loss shrinks or exceeds the principal. The
  worth of all positions together is conserved up to the rounding: it grows by less than one unit
  for each loser and shrinks by less than one unit for each winner. The growth is real, since both
  sides are floored on their own; in the witness three units appear that nobody paid.
\<close>

theorem oracle_settle_conserves:
  assumes "\<forall>pos\<in>set ps. oracle_ok pos"
  shows "(\<forall>ps' s. oracle_settle ps q = (ps', Ok s) \<longrightarrow> s = totals ps q \<and> ps' = map (settled s q) ps
      \<and> (\<forall>pos\<in>set ps. op_locked_loss pos \<le> op_locked_loss (settled s q pos)
          \<and> op_locked_loss (settled s q pos) \<le> op_principal (settled s q pos))
      \<and> sum_list (map worth ps') \<le> sum_list (map worth ps) + (length (filter (\<lambda>pos. 0 < realizable_loss q pos) ps) - 1)
      \<and> sum_list (map worth ps) \<le> sum_list (map worth ps') + (length (filter (\<lambda>pos. 0 < price_gain q pos) ps) - 1))
    \<and> (\<forall>ps' msg. oracle_settle ps q \<noteq> (ps', Panic msg))"
proof (intro conjI allI impI)
  fix ps' s
  assume run: "oracle_settle ps q = (ps', Ok s)"
  note s = settle_Ok [OF assms run]
  show "s = totals ps q" "ps' = map (settled s q) ps" by (rule s)+
  show "\<forall>pos\<in>set ps. op_locked_loss pos \<le> op_locked_loss (settled s q pos)
      \<and> op_locked_loss (settled s q pos) \<le> op_principal (settled s q pos)"
    using assms settled_bounds by blast
  show "sum_list (map worth ps') \<le> sum_list (map worth ps) + (length (filter (\<lambda>pos. 0 < realizable_loss q pos) ps) - 1)"
    using total_worth [OF s(1)] allocated_sums(1,4) [OF s(1)] unfolding s(2) by linarith
  show "sum_list (map worth ps) \<le> sum_list (map worth ps') + (length (filter (\<lambda>pos. 0 < price_gain q pos) ps) - 1)"
    using total_worth [OF s(1)] allocated_sums(2,3) [OF s(1)] unfolding s(2) by linarith
next
  show "oracle_settle ps q \<noteq> (ps', Panic msg)" for ps' msg by (rule settle_no_panic [OF assms])
qed

definition stake_of :: "u64 \<Rightarrow> direction \<Rightarrow> u128 \<Rightarrow> u128 \<Rightarrow> u64 \<Rightarrow> oracle_position" where
  "stake_of i d margin notional' price = \<lparr>op_id = i, op_direction = d, op_principal = margin, op_notional = notional',
     op_reset_price = price, op_locked_loss = 0, op_realized_profit_balance = 0, op_closed = False\<rparr>"

lemmas settle_evals = oracle_settle_def scan_positions_def add_increment_def no_increments_def
  signed_pnl_increment_def mul_div_floor_exact oracle_margin_def roll_reset_def charge_loss_def checked_add_m_def
  checked_sub_m_def checked_add_w_def checked_sub_w_def plus_w_def stake_of_def worth_def Let_def

definition uneven :: "oracle_position list" where
  "uneven = [stake_of 0 Long 100 300 100, stake_of 1 Short 100 100 100, stake_of 2 Short 100 100 100,
     stake_of 3 Short 100 100 100, stake_of 4 Short 100 100 100]"

theorem oracle_settle_conserves_witness:
  "\<exists>ps' s. oracle_settle uneven 101 = (ps', Ok s) \<and> actual_transfer s = 3 \<and> s = totals uneven 101
     \<and> map worth uneven = [100, 100, 100, 100, 100] \<and> map worth ps' = [103, 100, 100, 100, 100]"
proof -
  have "\<exists>ps' s. oracle_settle uneven 101 = (ps', Inr s) \<and> actual_transfer s = 3
      \<and> map worth ps' = [103, 100, 100, 100, 100]"
    by (simp add: uneven_def settle_evals)
  then obtain ps' s where run: "oracle_settle uneven 101 = (ps', Inr s)" "actual_transfer s = 3"
    "map worth ps' = [103, 100, 100, 100, 100]" by (elim exE conjE)
  have "\<forall>pos\<in>set uneven. oracle_ok pos" by (simp add: uneven_def oracle_ok_def stake_of_def)
  from oracle_settle_conserves [OF this, of 101] run(1) have "s = totals uneven 101" by blast
  moreover have "map worth uneven = [100, 100, 100, 100, 100]" by (simp add: uneven_def settle_evals)
  ultimately show ?thesis using run by (intro exI conjI)
qed

section \<open>The oracle against the engine\<close>

text \<open>What a side gains, or would lose, in the move from the last price to \<open>q\<close>.\<close>

definition side_gain :: "sub_pool \<Rightarrow> u64 \<Rightarrow> direction \<Rightarrow> nat" where
  "side_gain sp q d = active_notional d sp * gap d q (last_price sp) div last_price sp"

definition side_loss :: "sub_pool \<Rightarrow> u64 \<Rightarrow> direction \<Rightarrow> nat" where
  "side_loss sp q d = active_notional d sp * gap (opposite d) q (last_price sp) div last_price sp"

definition no_claims :: "sub_pool \<Rightarrow> bool" where
  "no_claims sp \<longleftrightarrow> buckets (long_dormant sp) = [] \<and> buckets (short_dormant sp) = []"

lemma engine_step:
  assumes "sub_pool_wf sp" and "no_claims sp" and "last_price sp \<noteq> 0" and "last_price sp < 2 ^ 64"
    and "env_p_now env < 2 ^ 64" and "sync_pool market env sp = Inr (sp', out)"
  shows "pool_equity d sp' = pool_equity d sp + min (side_gain sp (env_p_now env) d) (pool_equity (opposite d) sp)
    - min (side_gain sp (env_p_now env) (opposite d)) (pool_equity d sp)"
proof (cases "env_p_now env = last_price sp")
  case True
  with assms(3,6) have "sp' = sp\<lparr>last_sync_slot := env_slot env\<rparr>" by (auto simp: sync_pool_def Let_def)
  with True show ?thesis by (cases d) (simp_all add: side_gain_def gap_def opposite_def pool_equity_def)
next
  case False
  let ?q = "env_p_now env" and ?p = "last_price sp"
  note sides = sub_pool_wf_sides [OF assms(1)]
  from assms(3,6) False have "sync_move market env sp = Inr (sp', out)" by (auto simp: sync_pool_def)
  then obtain demands sp1 o1 o2 sp3 o3 where dem: "sync_demands ?p ?q sp = Inr demands"
    and set: "settle_sides market ?q demands sp = Inr (sp1, o1)"
    and rl: "rotate_if_empty market ?q (env_slot env) Long
        (sp1\<lparr>last_price := ?q, last_sync_slot := env_slot env\<rparr>, o2) = Inr (sp3, o3)"
    and rs: "rotate_if_empty market ?q (env_slot env) Short (sp3, o3) = Inr (sp', out)"
    by (rule sync_move_Ok)
  obtain la lt sa st where d4: "demands = (la, lt, sa, st)" by (cases demands)
  have none: "total_outstanding_claim_at (long_dormant sp) x = Inr 0" "total_outstanding_claim_at (short_dormant sp) x = Inr 0" for x
    using assms(2) by (simp_all add: no_claims_def total_outstanding_claim_at_def activated_buckets_def)
  from dem d4 none obtain lp sp0 where lp: "signed_pnl_increment 1 (long_active_notional sp) ?p ?q = Inr lp"
    and sp0: "signed_pnl_increment (- 1) (short_active_notional sp) ?p ?q = Inr sp0"
    and vals: "la = nat (max lp 0)" "lt = la" "sa = nat (max sp0 0)" "st = sa"
    by (auto simp: sync_demands_def Let_def)
  have p: "?p < 2 ^ 128" using assms(4) by simp
  have la: "la = side_gain sp ?q Long"
    using signed_pnl_increment_Ok(3,4) [OF lp p] by (cases "?p \<le> ?q") (simp_all add: vals side_gain_def active_notional_def)
  have sa: "sa = side_gain sp ?q Short"
    using signed_pnl_increment_Ok(5,6) [OF sp0 p] by (cases "?p \<le> ?q") (simp_all add: vals side_gain_def active_notional_def)
  have bound: "la < 2 ^ 128" "sa < 2 ^ 128" using sync_demands_bound(1,2) [OF dem [unfolded d4]] vals(2,4) by simp_all
  note settled = settle_sides_Ok [OF sides set [unfolded d4] sync_demands_bound(1,2) [OF dem [unfolded d4]]]
  note long = rotate_if_empty_Ok [OF _ rl assms(5), unfolded sides_ok_clock, OF settled(1)]
  note short = rotate_if_empty_Ok [OF long(1) rs assms(5)]
  have keep: "pool_equity e sp' = pool_equity e sp1" for e
    using long(4) [of e] short(4) [of e] by (cases e) (simp_all add: pool_equity_def)
  have whole: "min w (pool_equity e sp) * w div w = min w (pool_equity e sp)" for w e by (cases "w = 0") simp_all
  have excl: "la = 0 \<or> sa = 0" using sync_demands_exclusive [OF sides dem [unfolded d4] assms(4)] by linarith
  show ?thesis
    using settle_sides_amounts [OF sides assms(4) dem [unfolded d4] set [unfolded d4]] excl
    by (cases d) (auto simp: keep vals(2,4) whole la sa opposite_def)
qed

text \<open>A fresh stake with the margin, the notional and the reset price of a side of the sub-pool.\<close>

definition stands_in :: "direction \<Rightarrow> sub_pool \<Rightarrow> oracle_position \<Rightarrow> bool" where
  "stands_in d sp pos \<longleftrightarrow> op_direction pos = d \<and> \<not> op_closed pos \<and> op_notional pos = active_notional d sp
     \<and> op_reset_price pos = last_price sp \<and> op_realized_profit_balance pos = 0
     \<and> oracle_margin pos = pool_equity d sp"

lemma opposite_sides: "opposite (opposite d) = d" "opposite Long = Short" "opposite Short = Long"
  by (cases d) (simp_all add: opposite_def)

lemma gap_one_way: "gap d q p = 0 \<or> gap (opposite d) q p = 0"
  by (cases d) (auto simp: opposite_def)

lemma stands_in_amounts:
  assumes "stands_in d sp pos"
  shows "price_gain q pos = side_gain sp q d" and "realizable_loss q pos = min (side_loss sp q d) (pool_equity d sp)"
    and "worth pos = pool_equity d sp"
  using assms
  by (simp_all add: stands_in_def price_gain_def realizable_loss_def side_gain_def side_loss_def worth_def)

lemma oracle_step:
  assumes "stands_in Long sp lp" and "stands_in Short sp sh" and "oracle_ok lp" and "oracle_ok sh"
    and "oracle_settle [lp, sh] q = (ps', Inr s)"
  shows "ps' = [settled s q lp, settled s q sh]
    \<and> (\<forall>d. worth (settled s q (case d of Long \<Rightarrow> lp | Short \<Rightarrow> sh))
        = pool_equity d sp
          + min (side_gain sp q d) (min (side_loss sp q (opposite d)) (pool_equity (opposite d) sp))
          - min (side_gain sp q (opposite d)) (min (side_loss sp q d) (pool_equity d sp)))"
proof -
  have "\<forall>pos\<in>set [lp, sh]. oracle_ok pos" using assms(3,4) by simp
  note s = settle_Ok [OF this assms(5)]
  note am = stands_in_amounts [OF assms(1)] stands_in_amounts [OF assms(2)]
  have w: "worth (settled s q pos) + taken_from s q pos = worth pos + paid_to s q pos" if "pos \<in> {lp, sh}" for pos
    using settled_worth [OF s(1)] that by simp
  define gl gs rl rs where "gl = side_gain sp q Long" and "gs = side_gain sp q Short"
    and "rl = min (side_loss sp q Long) (pool_equity Long sp)" and "rs = min (side_loss sp q Short) (pool_equity Short sp)"
  note names = gl_def gs_def rl_def rs_def
  have t: "total_profit s = gl + gs" "total_realizable_loss s = rl + rs" "actual_transfer s = min (gl + gs) (rl + rs)"
    by (simp_all add: s(1) totals_def am names)
  have one: "gl = 0 \<and> rs = 0 \<or> gs = 0 \<and> rl = 0"
    using gap_one_way [of Long q "last_price sp"] by (auto simp: side_gain_def side_loss_def opposite_sides names)
  have whole: "min a b * a div a = min a b" "min a b * b div b = min a b" for a b :: nat
    by (cases "a = 0"; simp) (cases "b = 0"; simp)
  have pays: "paid_to s q lp = min (gl + gs) (rl + rs) * gl div (gl + gs)"
    "taken_from s q lp = min (gl + gs) (rl + rs) * rl div (rl + rs)"
    "paid_to s q sh = min (gl + gs) (rl + rs) * gs div (gl + gs)"
    "taken_from s q sh = min (gl + gs) (rl + rs) * rs div (rl + rs)"
    by (simp_all add: paid_to_def taken_from_def t am names)
  have shares: "paid_to s q lp = min gl rs" "taken_from s q lp = min gs rl"
    "paid_to s q sh = min gs rl" "taken_from s q sh = min gl rs"
    unfolding pays using one by (elim disjE conjE; simp add: whole)+
  have "worth (settled s q lp) = pool_equity Long sp + min gl rs - min gs rl"
    "worth (settled s q sh) = pool_equity Short sp + min gs rl - min gl rs"
    using w [of lp] w [of sh] by (simp_all add: shares am)
  then show ?thesis
    using s(2) by (auto simp: opposite_sides names split: direction.split)
qed

text \<open>
  C15: one step of the oracle against one sync of the engine, for one fresh long and one fresh short
  position that hold the whole of a sub-pool without dormant claims. The engine moves the smaller
  of the winner's gain and the loser's whole pool, the oracle also no more than the loser's own
  price loss. The two agree on the value of both sides exactly when the engine takes no more than
  that loss, in particular whenever the notionals are equal; otherwise the oracle, documented as
  the ground truth for the engine, leaves the loser more. In the witness the engine wipes out a long
  pool of 100000000 of which the oracle takes one half.
\<close>

theorem oracle_step_vs_engine:
  assumes "sub_pool_wf sp" and "no_claims sp" and "last_price sp \<noteq> 0" and "last_price sp < 2 ^ 64"
    and "env_p_now env < 2 ^ 64" and "sync_pool market env sp = Ok (sp', out)"
    and "stands_in Long sp lp" and "stands_in Short sp sh" and "oracle_ok lp" and "oracle_ok sh"
    and "oracle_settle [lp, sh] (env_p_now env) = (ps', Ok s)"
  shows "\<exists>lp' sh'. ps' = [lp', sh']
    \<and> (\<forall>d. pool_equity d sp' = pool_equity d sp
          + min (side_gain sp (env_p_now env) d) (pool_equity (opposite d) sp)
          - min (side_gain sp (env_p_now env) (opposite d)) (pool_equity d sp))
    \<and> (\<forall>d. worth (case d of Long \<Rightarrow> lp' | Short \<Rightarrow> sh') = pool_equity d sp
          + min (side_gain sp (env_p_now env) d)
              (min (side_loss sp (env_p_now env) (opposite d)) (pool_equity (opposite d) sp))
          - min (side_gain sp (env_p_now env) (opposite d))
              (min (side_loss sp (env_p_now env) d) (pool_equity d sp)))
    \<and> ((\<forall>d. worth (case d of Long \<Rightarrow> lp' | Short \<Rightarrow> sh') = pool_equity d sp') \<longleftrightarrow>
        (\<forall>d. min (side_gain sp (env_p_now env) d) (pool_equity (opposite d) sp)
          \<le> side_loss sp (env_p_now env) (opposite d)))
    \<and> (active_notional Long sp = active_notional Short sp
        \<longrightarrow> (\<forall>d. worth (case d of Long \<Rightarrow> lp' | Short \<Rightarrow> sh') = pool_equity d sp'))"
proof -
  let ?q = "env_p_now env"
  let ?side = "\<lambda>d. settled s ?q (case d of Long \<Rightarrow> lp | Short \<Rightarrow> sh)"
  note e = engine_step [OF assms(1-6)]
  note o' = oracle_step [OF assms(7-11)]
  have side: "(case d of Long \<Rightarrow> settled s ?q lp | Short \<Rightarrow> settled s ?q sh) = ?side d" for d by (cases d) simp_all
  have one: "side_gain sp ?q d = 0 \<or> side_gain sp ?q (opposite d) = 0" for d
    using gap_one_way [of d ?q "last_price sp"] by (auto simp: side_gain_def)
  have agree: "(\<forall>d. worth (?side d) = pool_equity d sp') \<longleftrightarrow>
      (\<forall>d. min (side_gain sp ?q d) (pool_equity (opposite d) sp) \<le> side_loss sp ?q (opposite d))"
  proof
    assume same: "\<forall>d. worth (?side d) = pool_equity d sp'"
    show "\<forall>d. min (side_gain sp ?q d) (pool_equity (opposite d) sp) \<le> side_loss sp ?q (opposite d)"
    proof
      fix d
      show "min (side_gain sp ?q d) (pool_equity (opposite d) sp) \<le> side_loss sp ?q (opposite d)"
        using same [rule_format, of d] e [of d] o' one [of d] by (auto simp: min_def split: if_splits)
    qed
  next
    assume le: "\<forall>d. min (side_gain sp ?q d) (pool_equity (opposite d) sp) \<le> side_loss sp ?q (opposite d)"
    have "min (side_gain sp ?q d) (pool_equity (opposite d) sp)
        = min (side_gain sp ?q d) (min (side_loss sp ?q (opposite d)) (pool_equity (opposite d) sp))" for d
      using le [rule_format, of d] by (auto simp: min_def)
    from this this [of "opposite d" for d] show "\<forall>d. worth (?side d) = pool_equity d sp'"
      using e o' by (simp add: opposite_sides)
  qed
  have "side_gain sp ?q d = side_loss sp ?q (opposite d)" if "active_notional Long sp = active_notional Short sp" for d
    using that by (cases d) (simp_all add: side_gain_def side_loss_def opposite_sides)
  with agree have "active_notional Long sp = active_notional Short sp \<longrightarrow> (\<forall>d. worth (?side d) = pool_equity d sp')"
    by simp
  with o' e agree show ?thesis by (auto simp: side)
qed

lemma demo_settle:
  "\<exists>ps' s. oracle_settle [stake_of 1 Long 100000000 1000000000 1000, stake_of 2 Short 1000000000 10000000000 1000] 950
      = (ps', Inr s)"
  by (simp add: settle_evals)

lemma demo_sync_950:
  "\<exists>sp' out. sync_pool (demo_market Eager) (env_at 950 2) demo_pool = Inr (sp', out)
     \<and> pool_equity Long sp' = 0 \<and> pool_equity Short sp' = 1100000000"
  by (simp add: evals demo)

theorem oracle_step_vs_engine_witness:
  "\<exists>sp' out lp' sh' s. sync_pool (demo_market Eager) (env_at 950 2) demo_pool = Ok (sp', out)
     \<and> oracle_settle [stake_of 1 Long 100000000 1000000000 1000, stake_of 2 Short 1000000000 10000000000 1000] 950
         = ([lp', sh'], Ok s)
     \<and> pool_equity Long sp' = 0 \<and> pool_equity Short sp' = 1100000000
     \<and> worth lp' = 50000000 \<and> worth sh' = 1050000000"
proof -
  let ?lp = "stake_of 1 Long 100000000 1000000000 1000" and ?sh = "stake_of 2 Short 1000000000 10000000000 1000"
  obtain sp' out where run: "sync_pool (demo_market Eager) (env_at 950 2) demo_pool = Inr (sp', out)"
    and pools: "pool_equity Long sp' = 0" "pool_equity Short sp' = 1100000000" using demo_sync_950 by blast
  obtain ps' s where st: "oracle_settle [?lp, ?sh] (env_p_now (env_at 950 2)) = (ps', Inr s)"
    using demo_settle by (auto simp: env_at_def)
  have "no_claims demo_pool" "last_price demo_pool \<noteq> 0" "last_price demo_pool < 2 ^ 64"
    "env_p_now (env_at 950 2) < 2 ^ 64"
    by (simp_all add: no_claims_def demo_pool_def new_sub_pool_def env_at_def evals)
  note pre = demo_pool_wf this run
  have "stands_in Long demo_pool ?lp" "stands_in Short demo_pool ?sh"
    by (simp_all add: stands_in_def stake_of_def oracle_margin_def active_notional_def pool_equity_def
        demo_pool_def new_sub_pool_def)
  note stakes = this
  have "oracle_ok ?lp" "oracle_ok ?sh" by (simp_all add: oracle_ok_def stake_of_def)
  from oracle_step_vs_engine [OF pre stakes this st] obtain lp' sh' where ps': "ps' = [lp', sh']"
    and w: "\<forall>d. worth (case d of Long \<Rightarrow> lp' | Short \<Rightarrow> sh') = pool_equity d demo_pool
          + min (side_gain demo_pool (env_p_now (env_at 950 2)) d)
              (min (side_loss demo_pool (env_p_now (env_at 950 2)) (opposite d)) (pool_equity (opposite d) demo_pool))
          - min (side_gain demo_pool (env_p_now (env_at 950 2)) (opposite d))
              (min (side_loss demo_pool (env_p_now (env_at 950 2)) d) (pool_equity d demo_pool))" by blast
  have "worth lp' = 50000000" "worth sh' = 1050000000"
    using w [rule_format, of Long] w [rule_format, of Short]
    by (simp_all add: side_gain_def side_loss_def env_at_def opposite_sides active_notional_def pool_equity_def
        demo_pool_def new_sub_pool_def)
  with run pools st ps' show ?thesis by (auto simp: env_at_def)
qed

end
