(* ===== verification/Spec2Isabelle.thy ===== *)
theory Spec2Isabelle
  imports Math_Properties Store_Properties Engine_Properties Recovery_Properties System_Properties
    Leader_Properties Oracle_Properties Codec_Properties Keeper_Chain Program_Properties
    Multi_Properties Ops_Properties Simulation_Properties
begin

text \<open>
  A verification library of the repository: a two-sided perpetual-option market in which the
  losing side of every price move pays the winning side out of pooled collateral, wiped-out
  positions become dormant claims that later liquidity repays, a Solana program that keeps the
  market in accounts, and the off-chain keeper that drives it.

  \<^bold>\<open>The parts of the program and how they interact.\<close> The Rust workspace under \<open>crates/\<close> has the
  arithmetic \<open>molemath\<close>; the engine \<open>clearing-core\<close> (the dormant store, the sub-pool, the engine's
  operations, the on-chain layout); the \<open>indexer\<close>, which replays the engine's events; the
  \<open>protocol-harness\<close>, which drives engine, indexer and two simulated vaults together; the
  \<open>chain-mirror\<close>, which keeps the same state in accounts; the \<open>pyth-adapter\<close>, which validates a price
  account; \<open>tx-codec\<close> and \<open>keeper-decoder\<close>, which encode instructions and decode accounts; the
  \<open>keeper\<close>, which plans maintenance actions; \<open>keeper-rpc\<close>, which reads the accounts of a market into a
  snapshot and turns actions into transactions; and the \<open>keeper-bot\<close>, which runs the keeper in a loop
  over snapshots under a leader lock, for one market or for all markets of a registry; the \<open>ops-toolkit\<close> probes
  the same markets and reports their health; the \<open>simulation\<close> is an offline oracle that settles positions
  one by one, which the engine is tested against. The program
  under \<open>programs/mole-option\<close> calls the same engine over its own accounts. Every user or keeper
  operation of the engine first runs \<open>sync_pool\<close>, which settles the price move between the two
  pools, distributes the dormant part to the winning side's buckets, and rotates a side whose
  pool is empty into a bucket.

  \<^bold>\<open>Modelling conventions.\<close> Unsigned integers are naturals; every addition, subtraction and
  multiplication of the code is a checked operation of its width (\<open>checked_add_w\<close> for
  \<open>checked_add\<close>, an error; \<open>plus_w\<close> for a plain \<open>+\<close>, a panic, since overflow checks are on in
  both build profiles; saturating and wrapping ones likewise). The arithmetic itself is modelled a
  second time on 128-bit words. A result is \<open>Inl (Failed e)\<close> for a Rust error, \<open>Inl (Panicked s)\<close>
  for a panic, \<open>Inr x\<close> for a value. A \<open>&mut\<close> argument is passed and returned; on an error nothing is
  returned where every caller restores its snapshot or the runtime reverts the transaction; in the
  indexer, the harness and the chain mirror the partial effects are visible and are modelled. A
  \<open>BTreeMap\<close> is a list sorted by key. The mirrored long and short arms of the code are one
  definition over the direction. A handler of the Solana program takes the accounts of its
  context with their addresses; its attributes are written out as checks in their order
  (\<open>anchor_error\<close>), its own errors are \<open>Coded\<close>. Functions of libraries that are not in the
  repository (SHA-256, the Borsh serialiser, floating point) are arguments. Text of files and reports is a list
  of code points (\<open>utext\<close>).

  \<^bold>\<open>Theories.\<close>
  \<open>Prelude\<close> (results, checked operations, loops with early exit), \<open>Ordered_Map\<close> (ordered maps,
  the locale \<open>ordered_map\<close> and its interpretation), \<open>Bytes\<close> (little-endian integers and byte lists);
  \<open>Molemath\<close>, \<open>Molemath_Word\<close>: \<open>crates/molemath/src/lib.rs\<close>, on naturals and on words, with the
  refinement between them (\<open>Math_Properties\<close>);
  \<open>Clearing_Types\<close>: \<open>types.rs\<close>, \<open>error.rs\<close>, \<open>event.rs\<close>, \<open>position.rs\<close> and the parameters of \<open>market.rs\<close>;
  \<open>Dormant\<close>: \<open>dormant.rs\<close>; its facts are in \<open>Dormant_Facts\<close> (what each operation returns),
  \<open>Dormant_Invariant\<close> (\<open>store_wf\<close> and its preservation), \<open>Dormant_Distribute\<close> and \<open>Dormant_Commit\<close>
  (the two distribution paths, the locale \<open>distributor\<close> that the engine relies on, and their
  equivalence), \<open>Dormant_Check\<close> (the validators), \<open>Dormant_Shares\<close> (the shares of each bucket),
  \<open>Store_Limits\<close> (the sizes an account can hold, the locale \<open>kept_by_stores\<close> of properties every
  store operation keeps), \<open>Store_Properties\<close>;
  \<open>Onchain\<close>: \<open>onchain.rs\<close>, packing and unpacking;
  \<open>Market\<close>: the sub-pool of \<open>market.rs\<close> and \<open>invariants.rs\<close>, \<open>sub_pool_wf\<close> and \<open>vault\<close>;
  \<open>Engine\<close>, \<open>Engine_Ops\<close>: \<open>engine.rs\<close>; \<open>Engine_Facts\<close> and \<open>Engine_Ops_Facts\<close> show for each operation that it
  keeps \<open>sub_pool_wf\<close> and moves exactly the funds it reports, \<open>Engine_Value\<close> what the amounts are
  worth, \<open>Book\<close> that the positions account for every share and that a position with value can leave; \<open>Engine_Properties\<close>, \<open>Recovery_Properties\<close>;
  \<open>Indexer\<close>: \<open>crates/indexer/src/lib.rs\<close>;
  \<open>Harness\<close>: \<open>crates/protocol-harness/src/lib.rs\<close>; \<open>Harness_Facts\<close> has the invariant of its reachable
  states, the step relation \<open>hstep\<close> and the reachability \<open>reachable\<close>; \<open>System_Properties\<close>;
  \<open>Leader_Lock\<close>: the leader lock in \<open>keeper-decoder/src/leader_lock.rs\<close>, its handlers in
  \<open>instructions/keeper_leader.rs\<close> and the policy of \<open>keeper-bot/src/leader.rs\<close>; \<open>Leader_Properties\<close>;
  \<open>Pyth_Adapter\<close>: \<open>crates/pyth-adapter/src/lib.rs\<close>; \<open>Oracle_Properties\<close>;
  \<open>Tx_Codec\<close>: the instruction encoders of \<open>tx-codec\<close> and \<open>keeper-decoder/src/ix.rs\<close>; \<open>Codec_Properties\<close>;
  \<open>Chain_Mirror\<close>: \<open>crates/chain-mirror/src/lib.rs\<close>; \<open>Chain_Bridge\<close> (packing into account slots),
  \<open>Chain_Pools\<close> (every operation keeps what fits an account, \<open>pool_fits\<close>), \<open>Chain_Core\<close>,
  \<open>Chain_Parity\<close> and \<open>Chain_Runs\<close> (the simulation between accounts and the in-memory protocol along
  runs), \<open>Chain_Properties\<close>;
  \<open>Keeper\<close>, \<open>Keeper_Predictor\<close>, \<open>Keeper_Loop\<close>: \<open>crates/keeper/src/lib.rs\<close> (scheduler, volatility estimator
  and rotation predictor, loop); \<open>Keeper_Properties\<close>; \<open>Keeper_Chain\<close>: the view of a chain mirror and
  what becomes of planned actions on it;
  \<open>Program_State\<close>, \<open>Program_Bridge\<close>, \<open>Program_Handlers\<close>, \<open>Program_Admin\<close>: the Solana program
  (\<open>state.rs\<close> and \<open>error.rs\<close>; \<open>dormant_bridge.rs\<close>; the handlers that move funds; initialisation,
  governance, migration); \<open>Program_Bridge_Facts\<close> (writing a store into bucket accounts and reading it
  back, the locale \<open>fitting_call\<close> that turns a law of an engine call into one of the bridged
  instruction), \<open>Program_Calls\<close> (the instructions refine the engine), \<open>Program_Stuck\<close> (the step
  relations \<open>pool_step\<close> and \<open>market_step\<close> and what no instruction can undo), \<open>Program_Properties\<close>;
  \<open>Account_Codec\<close>: the account mirrors and decoders of \<open>keeper-decoder/src/lib.rs\<close>; \<open>Account_Facts\<close> shows
  that the codec of each mirror is \<open>lawful\<close> when the primitives of Borsh are (\<open>borsh_lawful\<close>,
  instantiated by \<open>le_borsh\<close>); \<open>Rpc_Snapshot\<close>: \<open>keeper-rpc/src/{fetcher,pda,snapshot}.rs\<close>; \<open>Rpc_Executor\<close>:
  \<open>keeper-rpc/src/{tx,leader_tx}.rs\<close>; \<open>Keeper_Bot\<close>: \<open>keeper-bot/src/{metrics,lib,run}.rs\<close>;
  \<open>Snapshot_Facts\<close> (what a refreshed snapshot holds), \<open>Bot_Facts\<close> (the run loops step by step),
  \<open>Keeper_Program\<close> (account lengths of the program and the counts it never changes, the locale
  \<open>keeps_counts\<close>); \<open>Bot_Properties\<close>;
  \<open>Market_Registry\<close>: \<open>keeper-rpc/src/market_registry.rs\<close>, its parser and base58 decoder; \<open>Registry_Facts\<close> has
  the digits of a number in two bases and reads a printed registry back; \<open>Multi_Market\<close>:
  \<open>keeper-bot/src/multi.rs\<close>; \<open>Multi_Facts\<close> relates a pass to the single-market loop; \<open>Multi_Properties\<close>;
  \<open>Ops_Checks\<close>: \<open>ops-toolkit/src/{report,context,checks}.rs\<close>; \<open>Ops_Prober\<close>:
  \<open>ops-toolkit/src/{position_interest,rpc_fetcher,multi,protocol_summary,prober}.rs\<close>; \<open>Ops_Properties\<close>;
  \<open>Clearing_Oracle\<close>: \<open>crates/simulation/src/lib.rs\<close>, with the closed form of a settlement;
  \<open>Simulation_Properties\<close>;
  \<open>Evaluate\<close>, \<open>Evaluate_Program\<close>, \<open>Evaluate_Bot\<close>: kernel evaluation on
  a sample market. The properties are in the theories named \<open>..._Properties\<close> and in \<open>Keeper_Chain\<close>, each with
  a witness at a concrete input where it has hypotheses.

  \<^bold>\<open>Invariants.\<close> \<open>store_wf\<close>: buckets sorted, indices inside the live ledger window, cached totals
  equal to the sums over the buckets, the pending total equal to what the buckets are still
  owed. \<open>sub_pool_wf\<close>: both stores well formed, a pool is zero exactly when its active shares
  are, recovery shares are the sum over the buckets. \<open>book_ok\<close>: active shares, notionals and
  bucket shares are the sums over the positions, with one rotate record per ended
  generation. \<open>harness_ok\<close>: deposits are withdrawals plus vaults, and the vault is the sum
  over the sub-pools; it holds in the runs of \<open>hstep\<close>, which add a sub-pool under an id that is not in use
  (\<open>add_sub_pool\<close> would overwrite a sub-pool that has it, \<open>overwrite_discards\<close>). The contract between the engine and the store is the locale
  \<open>distributor\<close>, interpreted on the eager path, the lazy path and the dispatch between them.
  \<open>stands_for\<close>: the accounts of the program, read through the bridge, are a well-formed sub-pool
  that fits them.

  \<^bold>\<open>Loops.\<close> The loops of the modelled code run over finite lists (\<open>fold_res\<close>, structural
  recursion) or a fixed number of rounds (\<open>div256\<close>, 128; \<open>migrate_steps\<close>, the distance between two
  versions). The run loops of the bot may run for ever: one body per loop, iterated by \<open>run_from\<close>, a
  \<open>partial_function (option)\<close> over the sequence of what each iteration sees, whose value is None when
  the loop does not return; \<open>run_passes\<close> does the same for the multi-market loop. The prober's loop
  and the retries of its fetcher count down to zero. No fuel is used.

  \<^bold>\<open>Not modelled.\<close> The RPC client of \<open>keeper-rpc\<close> (\<open>solana.rs\<close>), the HTTP server, command line and rendered
  metrics of \<open>keeper-bot\<close>, the command line and configuration files of the operations toolkit,
  and the frontend. The network, the wallet and the Borsh
  primitives are arguments of what uses them; sleeping and logging are left out. Of the
  modelled files: derives and formatting, the reserved bytes of the
  on-chain layout, bump seeds, padding and rent, the derivation of addresses from seeds, the
  signature checks of the runtime and the token program (a transfer is a request that is returned),
  and \<open>rewind_bucket_for_replay_test\<close>, which only tests call.
\<close>

end
